(* ===== verification/Prelude.thy ===== *)
theory Prelude
  imports Main "HOL-Library.Word" "HOL-Library.Multiset"
begin

text \<open>
  Shared material: the C++ integer types as words, little-endian byte views of them,
  the named collections of simplification facts the component theories extend, and
  generic facts about words, lists, maps and multisets.
\<close>

unbundle bit_operations_syntax

section \<open>Integer types\<close>

type_synonym u8 = "8 word"
type_synonym u16 = "16 word"
type_synonym u32 = "32 word"
type_synonym u64 = "64 word"
type_synonym bytes = "u8 list"

text \<open>
  \<open>conc\<close> collects the executable definitions a witness unfolds, \<open>inv_intros\<close> the
  preservation facts of the components' invariants.
\<close>

named_theorems conc
named_theorems inv_intros

section \<open>Words\<close>

lemma and_mask_take_bit:
  fixes x :: "'a::len word"
  shows "x AND mask n = take_bit n x"
  by (simp add: take_bit_eq_mask)

lemma unat_take_drop:
  fixes x :: "'a::len word"
  shows "unat (take_bit w (drop_bit s x)) = unat x div 2 ^ s mod 2 ^ w"
  by (simp add: unsigned_take_bit_eq unat_drop_bit_eq flip: take_bit_eq_mod drop_bit_eq_div)

lemma unat_diff_pred:
  fixes e c :: "'a::len word"
  assumes "e \<noteq> c"
  shows "unat (e - (c + 1)) = unat (e - c) - 1"
proof -
  have "e - c \<noteq> 0" using assms by simp
  moreover have "e - (c + 1) = (e - c) - 1" by simp
  ultimately show ?thesis by (metis unat_minus_one)
qed

lemma int_unat_diff:
  fixes e c :: "32 word"
  shows "int (unat (e - c)) = (int (unat e) - int (unat c)) mod 2 ^ 32"
  by (simp add: uint_word_ariths flip: uint_nat)

lemma add_mod_cancel_nat:
  fixes a b c m :: nat
  assumes "(a + b) mod m = (a + c) mod m" "b < m" "c < m"
  shows "b = c"
proof -
  have "(int a + int b) mod int m = (int a + int c) mod int m"
    using assms(1) by (metis of_nat_add of_nat_mod)
  then have dvd: "int m dvd int b - int c" by (simp add: mod_eq_dvd_iff)
  show ?thesis
  proof (rule ccontr)
    assume "b \<noteq> c"
    then have "int b - int c \<noteq> 0" by simp
    then have "\<bar>int m\<bar> \<le> \<bar>int b - int c\<bar>" using dvd by (rule dvd_imp_le_int)
    with assms(2,3) show False by linarith
  qed
qed

section \<open>Multisets\<close>

lemma filter_mset_all:
  assumes "\<And>x. x \<in># M \<Longrightarrow> P x"
  shows "filter_mset P M = M"
proof -
  have "filter_mset P M = filter_mset (\<lambda>_. True) M" using assms by (intro filter_mset_cong) auto
  then show ?thesis by simp
qed

lemma filter_mset_none:
  assumes "\<And>x. x \<in># M \<Longrightarrow> \<not> P x"
  shows "filter_mset P M = {#}"
proof -
  have "filter_mset P M = filter_mset (\<lambda>_. False) M" using assms by (intro filter_mset_cong) auto
  then show ?thesis by simp
qed

lemma uint_pos: "w \<noteq> 0 \<Longrightarrow> 0 < uint w"
  by (metis order_le_less unsigned_eq_0_iff unsigned_greater_eq)

end
