(* ===== verification/Concurrent_Queue.thy ===== *)
theory Concurrent_Queue
  imports Prelude
begin

text \<open>
  The lock-free queue \<^verbatim>\<open>moodycamel::ConcurrentQueue\<close> is a third-party package: its operations
  are a record that every definition using a queue takes as an argument, and what its
  documentation promises for calls that do not overlap is the predicate \<open>cqueue_laws\<close>:
  elements are neither lost nor duplicated, a dequeue fails only on an empty queue, a bulk
  dequeue takes as many as it may.  No order is promised between producers.
\<close>

record ('q, 'a) cqueue =
  enqueue :: "'a \<Rightarrow> 'q \<Rightarrow> 'q"
  enqueue_bulk :: "'a list \<Rightarrow> 'q \<Rightarrow> 'q"
  try_dequeue :: "'q \<Rightarrow> ('a \<times> 'q) option"
  try_dequeue_bulk :: "nat \<Rightarrow> 'q \<Rightarrow> 'a list \<times> 'q"

definition cqueue_laws :: "('q, 'a) cqueue \<Rightarrow> ('q \<Rightarrow> 'a multiset) \<Rightarrow> bool" where
  "cqueue_laws Q cont \<longleftrightarrow>
     (\<forall>x q. cont (enqueue Q x q) = add_mset x (cont q)) \<and>
     (\<forall>xs q. cont (enqueue_bulk Q xs q) = mset xs + cont q) \<and>
     (\<forall>q. try_dequeue Q q = None \<longrightarrow> cont q = {#}) \<and>
     (\<forall>q x q'. try_dequeue Q q = Some (x, q') \<longrightarrow> cont q = add_mset x (cont q')) \<and>
     (\<forall>n q xs q'. try_dequeue_bulk Q n q = (xs, q') \<longrightarrow>
        cont q = mset xs + cont q' \<and> length xs = min n (size (cont q)))"

lemma cqueue_enqueue: "cqueue_laws Q cont \<Longrightarrow> cont (enqueue Q x q) = add_mset x (cont q)"
  by (simp add: cqueue_laws_def)

lemma cqueue_enqueue_bulk: "cqueue_laws Q cont \<Longrightarrow> cont (enqueue_bulk Q xs q) = mset xs + cont q"
  by (simp add: cqueue_laws_def)

lemma cqueue_dequeue: "cqueue_laws Q cont \<Longrightarrow> try_dequeue Q q = Some (x, q') \<Longrightarrow> cont q = add_mset x (cont q')"
  unfolding cqueue_laws_def by blast

lemma cqueue_empty:
  assumes "cqueue_laws Q cont"
  shows "try_dequeue Q q = None \<longleftrightarrow> cont q = {#}"
proof (cases "try_dequeue Q q")
  case None
  then have "cont q = {#}" using assms unfolding cqueue_laws_def by blast
  then show ?thesis using None by simp
next
  case (Some p)
  then show ?thesis using cqueue_dequeue [OF assms, of q "fst p" "snd p"] by simp
qed

lemma cqueue_bulk:
  assumes "cqueue_laws Q cont" "try_dequeue_bulk Q n q = (xs, q')"
  shows "cont q = mset xs + cont q'" "length xs = min n (size (cont q))"
  using assms unfolding cqueue_laws_def by blast+

lemma cqueue_bulk_nil:
  assumes "cqueue_laws Q cont" "try_dequeue_bulk Q n q = ([], q')" "0 < n"
  shows "cont q = {#}" "cont q' = {#}"
  using cqueue_bulk [OF assms(1,2)] assms(3) by (auto simp: min_def split: if_splits)

text \<open>Draining a queue, as the pools and sessions do when they are cleared.\<close>

partial_function (option) drain :: "('q, 'a) cqueue \<Rightarrow> 'a list \<Rightarrow> 'q \<Rightarrow> ('a list \<times> 'q) option" where
  "drain Q freed q = (case try_dequeue Q q of None \<Rightarrow> Some (freed, q)
     | Some (x, q') \<Rightarrow> drain Q (freed @ [x]) q')"

lemma drain_returns:
  assumes "cqueue_laws Q cont"
  shows "\<exists>xs q'. drain Q freed q = Some (freed @ xs, q') \<and> mset xs = cont q \<and> cont q' = {#}"
proof (induction "size (cont q)" arbitrary: q freed)
  case 0
  then have "try_dequeue Q q = None" using cqueue_empty [OF assms] by simp
  then show ?case using 0 by (subst drain.simps) simp
next
  case (Suc n)
  then have "try_dequeue Q q \<noteq> None" using cqueue_empty [OF assms, of q] by auto
  then obtain x q1 where d: "try_dequeue Q q = Some (x, q1)" by auto
  have c: "cont q = add_mset x (cont q1)" by (rule cqueue_dequeue [OF assms d])
  then obtain xs q' where "drain Q (freed @ [x]) q1 = Some (freed @ x # xs, q')" "mset xs = cont q1" "cont q' = {#}"
    using Suc.hyps(1) [of q1 "freed @ [x]"] Suc.hyps(2) by auto
  then show ?case using c d by (subst drain.simps) (auto intro: exI [of _ "x # xs"])
qed

text \<open>The laws can hold: a list with the oldest element in front.\<close>

definition list_queue :: "('a list, 'a) cqueue" where
  "list_queue = \<lparr>enqueue = (\<lambda>x q. q @ [x]), enqueue_bulk = (\<lambda>xs q. q @ xs),
     try_dequeue = (\<lambda>q. case q of [] \<Rightarrow> None | x # q' \<Rightarrow> Some (x, q')),
     try_dequeue_bulk = (\<lambda>n q. (take n q, drop n q))\<rparr>"

lemma list_queue_laws: "cqueue_laws list_queue mset"
proof -
  have "mset q = mset (take n q) + mset (drop n q)" for n and q :: "'a list"
    by (metis append_take_drop_id mset_append)
  then show ?thesis by (auto simp: cqueue_laws_def list_queue_def min_def split: list.splits)
qed

end
