(* ===== verification/Database_Pool.thy ===== *)
theory Database_Pool
  imports Concurrent_Queue
begin

text \<open>
  \<open>DatabaseImpl\<close> (\<open>System/Database/DatabaseImpl.cpp\<close>, \<open>.h\<close>): the pool of connections and the calls that use
  one, with the wrappers that keep a connection until they are destroyed, the proxy of
  \<open>AsyncRunInTransaction\<close> and the driver registry.

  A connection is a number; the pool keeps for every connection alive the calls made on it, latest
  first, and a driver is any function from its number and that history to the answer of the next call (\<open>None\<close> is an
  exception).  So every theorem holds for every driver.  \<open>objs\<close> are the result sets, prepared statements
  and transactions the program holds.  The operations are those of one thread while the others
  stand still: an \<open>Acquire\<close> that has to wait is then refused at its timeout, and never returns
  (\<open>None\<close>) if the timeout is \<open>-1\<close>.  How \<open>Acquire\<close> and \<open>Release\<close> of several threads interleave at the wait is
  the last section.

  Shown: the pool never exceeds its size, and a connection is idle or used by one object, never
  lost; a transaction ends with a successful commit or a rollback before its connection is idle
  again; no statement can be run inside a transaction of \<open>BeginTransaction\<close>, because the program has no
  access to its connection; a waiting thread can miss its wake-up.
\<close>

section \<open>Status values and drivers\<close>

datatype DbStatusCode = DB_OK | DB_ERROR | DB_TIMEOUT | DB_BUSY | DB_AUTH_FAIL | DB_INVALID_QUERY | DB_TRANSACTION_ACTIVE
  | DB_CONNECTION_FAILURE

type_synonym DbStatus = "DbStatusCode \<times> string"

definition IsOk :: "DbStatus \<Rightarrow> bool" where
  "IsOk st \<longleftrightarrow> fst st = DB_OK"

datatype db_call = Connect | Disconnect | IsConnected | Ping | CallExecute string | CallQuery string | CallPrepare string
  | CallBegin | CallCommit | CallRollback | ResetState

record driver =
  drv_create :: "nat \<Rightarrow> bool"   \<comment> \<open>whether the \<open>n\<close>-th \<open>CreateConnection\<close> gives a connection\<close>
  drv_bool :: "nat \<Rightarrow> db_call list \<Rightarrow> db_call \<Rightarrow> bool"
  drv_status :: "nat \<Rightarrow> db_call list \<Rightarrow> db_call \<Rightarrow> DbStatus option"

section \<open>The pool\<close>

datatype db_obj = ResultSet nat | Prepared nat | Transaction nat bool   \<comment> \<open>the flag is \<open>_committed\<close>\<close>

fun obj_conn :: "db_obj \<Rightarrow> nat" where
  "obj_conn (ResultSet c) = c"
| "obj_conn (Prepared c) = c"
| "obj_conn (Transaction c _) = c"

record 'q dbpool =
  dpool :: 'q
  conns :: "nat \<Rightarrow> db_call list option"
  nextConn :: nat
  currentSize :: int
  poolMax :: int
  defaultTimeoutMs :: int
  objs :: "(nat \<times> db_obj) list"
  nextObj :: nat

definition DatabaseImpl :: "'q \<Rightarrow> int \<Rightarrow> int \<Rightarrow> 'q dbpool" where
  "DatabaseImpl q n timeout = \<lparr>dpool = q, conns = (\<lambda>_. None), nextConn = 0, currentSize = 0, poolMax = n,
     defaultTimeoutMs = timeout, objs = [], nextObj = 0\<rparr>"

definition hist :: "nat \<Rightarrow> 'q dbpool \<Rightarrow> db_call list" where
  "hist c s = (case conns s c of None \<Rightarrow> [] | Some h \<Rightarrow> h)"

definition log_call :: "nat \<Rightarrow> db_call \<Rightarrow> 'q dbpool \<Rightarrow> 'q dbpool" where
  "log_call c k s = s\<lparr>conns := (conns s)(c := map_option (Cons k) (conns s c))\<rparr>"

definition ask :: "driver \<Rightarrow> nat \<Rightarrow> db_call \<Rightarrow> 'q dbpool \<Rightarrow> bool \<times> 'q dbpool" where
  "ask D c k s = (drv_bool D c (hist c s) k, log_call c k s)"

definition call :: "driver \<Rightarrow> nat \<Rightarrow> db_call \<Rightarrow> 'q dbpool \<Rightarrow> DbStatus option \<times> 'q dbpool" where
  "call D c k s = (drv_status D c (hist c s) k, log_call c k s)"

text \<open>\<^verbatim>\<open>rawConn->IsConnected() && rawConn->Ping()\<close>\<close>

definition validate :: "driver \<Rightarrow> nat \<Rightarrow> 'q dbpool \<Rightarrow> bool \<times> 'q dbpool" where
  "validate D c s = (let (up, s1) = ask D c IsConnected s in if up then ask D c Ping s1 else (False, s1))"

definition discard :: "nat \<Rightarrow> 'q dbpool \<Rightarrow> 'q dbpool" where
  "discard c s = (let s1 = log_call c Disconnect s in s1\<lparr>conns := (conns s1)(c := None), currentSize := currentSize s1 - 1\<rparr>)"

text \<open>The loop over pooled connections at the head of \<open>Acquire\<close>.\<close>

partial_function (option) take_valid :: "driver \<Rightarrow> ('q, nat) cqueue \<Rightarrow> 'q dbpool \<Rightarrow> (nat option \<times> 'q dbpool) option" where
  "take_valid D Q s =
     (case try_dequeue Q (dpool s) of
        None \<Rightarrow> Some (None, s)
      | Some (c, q) \<Rightarrow>
          (let (good, s1) = validate D c (s\<lparr>dpool := q\<rparr>)
           in if good then Some (Some c, s1) else take_valid D Q (discard c s1)))"

definition create_conn :: "driver \<Rightarrow> 'q dbpool \<Rightarrow> nat option \<times> 'q dbpool" where
  "create_conn D s =
     (let n = nextConn s; s1 = s\<lparr>nextConn := Suc n\<rparr>
      in if \<not> drv_create D n then (None, s1)
         else let (up, s2) = ask D n Connect (s1\<lparr>conns := (conns s1)(n \<mapsto> []), currentSize := currentSize s1 + 1\<rparr>)
              in if up then (Some n, s2)
                 else (None, s2\<lparr>conns := (conns s2)(n := None), currentSize := currentSize s2 - 1\<rparr>))"

definition Acquire :: "driver \<Rightarrow> ('q, nat) cqueue \<Rightarrow> int \<Rightarrow> 'q dbpool \<Rightarrow> (nat option \<times> 'q dbpool) option" where
  "Acquire D Q timeoutMs s =
     (case take_valid D Q s of None \<Rightarrow> None
      | Some (Some c, s1) \<Rightarrow> Some (Some c, s1)
      | Some (None, s1) \<Rightarrow>
          if currentSize s1 < poolMax s1 then Some (create_conn D s1)
          else if timeoutMs = - 1 then None
          else Some (None, s1))"

text \<open>\<open>Release\<close>, the deleter of the \<open>shared_ptr\<close> that \<open>Acquire\<close> returns.\<close>

definition Release :: "('q, nat) cqueue \<Rightarrow> nat \<Rightarrow> 'q dbpool \<Rightarrow> 'q dbpool" where
  "Release Q c s = (let s1 = log_call c ResetState s in s1\<lparr>dpool := enqueue Q c (dpool s1)\<rparr>)"

definition Init :: "driver \<Rightarrow> ('q, nat) cqueue \<Rightarrow> 'q dbpool \<Rightarrow> 'q dbpool option" where
  "Init D Q s = (case Acquire D Q 0 s of None \<Rightarrow> None
     | Some (None, s1) \<Rightarrow> Some s1 | Some (Some c, s1) \<Rightarrow> Some (Release Q c s1))"

definition new_obj :: "db_obj \<Rightarrow> 'q dbpool \<Rightarrow> nat \<times> 'q dbpool" where
  "new_obj ob s = (nextObj s, s\<lparr>objs := (nextObj s, ob) # objs s, nextObj := Suc (nextObj s)\<rparr>)"

section \<open>The calls of \<open>IDatabase\<close>\<close>

definition timeout_status :: DbStatus where
  "timeout_status = (DB_TIMEOUT, ''Connection acquisition timeout'')"

definition exception_status :: DbStatus where
  "exception_status = (DB_ERROR, ''Internal driver exception'')"

text \<open>\<open>Query\<close>, \<open>Prepare\<close> and \<open>BeginTransaction\<close> make one call and, when it succeeds, wrap the connection.\<close>

definition wrapped_call :: "driver \<Rightarrow> ('q, nat) cqueue \<Rightarrow> db_call \<Rightarrow> (nat \<Rightarrow> db_obj) \<Rightarrow> 'q dbpool
    \<Rightarrow> ((DbStatus \<times> nat option) \<times> 'q dbpool) option" where
  "wrapped_call D Q k wrap s =
     (case Acquire D Q (defaultTimeoutMs s) s of None \<Rightarrow> None
      | Some (None, s1) \<Rightarrow> Some ((timeout_status, None), s1)
      | Some (Some c, s1) \<Rightarrow>
          (case call D c k s1 of
             (None, s2) \<Rightarrow> Some ((exception_status, None), Release Q c s2)
           | (Some st, s2) \<Rightarrow>
               if IsOk st then (let (i, s3) = new_obj (wrap c) s2 in Some ((st, Some i), s3))
               else Some ((st, None), Release Q c s2)))"

definition Query :: "driver \<Rightarrow> ('q, nat) cqueue \<Rightarrow> string \<Rightarrow> 'q dbpool \<Rightarrow> ((DbStatus \<times> nat option) \<times> 'q dbpool) option" where
  "Query D Q sql s = wrapped_call D Q (CallQuery sql) ResultSet s"

definition Prepare :: "driver \<Rightarrow> ('q, nat) cqueue \<Rightarrow> string \<Rightarrow> 'q dbpool \<Rightarrow> ((DbStatus \<times> nat option) \<times> 'q dbpool) option" where
  "Prepare D Q sql s = wrapped_call D Q (CallPrepare sql) Prepared s"

definition BeginTransaction :: "driver \<Rightarrow> ('q, nat) cqueue \<Rightarrow> 'q dbpool \<Rightarrow> ((DbStatus \<times> nat option) \<times> 'q dbpool) option" where
  "BeginTransaction D Q s = wrapped_call D Q CallBegin (\<lambda>c. Transaction c False) s"

definition Execute :: "driver \<Rightarrow> ('q, nat) cqueue \<Rightarrow> string \<Rightarrow> 'q dbpool \<Rightarrow> (DbStatus \<times> 'q dbpool) option" where
  "Execute D Q sql s =
     (case Acquire D Q (defaultTimeoutMs s) s of None \<Rightarrow> None
      | Some (None, s1) \<Rightarrow> Some (timeout_status, s1)
      | Some (Some c, s1) \<Rightarrow>
          (case call D c (CallExecute sql) s1 of
             (None, s2) \<Rightarrow> Some (exception_status, Release Q c s2)
           | (Some st, s2) \<Rightarrow> Some (st, Release Q c s2)))"

text \<open>\<open>TransactionWrapper::Commit\<close>; \<open>Inl\<close> is an exception of the driver, which passes through.\<close>

definition Commit :: "driver \<Rightarrow> nat \<Rightarrow> 'q dbpool \<Rightarrow> (unit + DbStatus) \<times> 'q dbpool" where
  "Commit D i s =
     (case map_of (objs s) i of
        Some (Transaction c committed) \<Rightarrow>
          if committed then (Inr (DB_ERROR, ''Already committed''), s)
          else (case call D c CallCommit s of
              (None, s1) \<Rightarrow> (Inl (), s1)
            | (Some st, s1) \<Rightarrow>
                (Inr st, if IsOk st then s1\<lparr>objs := map (\<lambda>(j, ob). if j = i then (j, Transaction c True) else (j, ob)) (objs s1)\<rparr> else s1))
      | _ \<Rightarrow> (Inr (DB_ERROR, ''''), s))"

text \<open>The destructors of the wrappers: a transaction that is not committed is rolled back (an exception
  or error is only logged), then the connection goes back.\<close>

definition destroy_obj :: "driver \<Rightarrow> ('q, nat) cqueue \<Rightarrow> nat \<Rightarrow> 'q dbpool \<Rightarrow> 'q dbpool" where
  "destroy_obj D Q i s =
     (case map_of (objs s) i of None \<Rightarrow> s
      | Some ob \<Rightarrow>
          (let s1 = (case ob of Transaction c False \<Rightarrow> snd (call D c CallRollback s) | _ \<Rightarrow> s)
           in Release Q (obj_conn ob) (s1\<lparr>objs := filter (\<lambda>p. fst p \<noteq> i) (objs s1)\<rparr>)))"


section \<open>The invariant\<close>

definition succeeded :: "DbStatus option \<Rightarrow> bool" where
  "succeeded r \<longleftrightarrow> (case r of None \<Rightarrow> False | Some st \<Rightarrow> IsOk st)"

text \<open>Whether the history of a connection leaves a transaction open: begun with success, and since then
  neither committed with success nor rolled back.\<close>

fun open_tx :: "driver \<Rightarrow> nat \<Rightarrow> db_call list \<Rightarrow> bool" where
  "open_tx D c [] \<longleftrightarrow> False"
| "open_tx D c (CallBegin # h) \<longleftrightarrow> succeeded (drv_status D c h CallBegin) \<or> open_tx D c h"
| "open_tx D c (CallCommit # h) \<longleftrightarrow> \<not> succeeded (drv_status D c h CallCommit) \<and> open_tx D c h"
| "open_tx D c (CallRollback # h) \<longleftrightarrow> False"
| "open_tx D c (_ # h) \<longleftrightarrow> open_tx D c h"

definition conns_used :: "'q dbpool \<Rightarrow> nat multiset" where
  "conns_used s = mset (map (obj_conn \<circ> snd) (objs s))"

text \<open>\<open>L\<close> are the connections that a running call holds in a local variable.\<close>

definition conns_ok :: "('q \<Rightarrow> nat multiset) \<Rightarrow> nat multiset \<Rightarrow> 'q dbpool \<Rightarrow> bool" where
  "conns_ok cont L s \<longleftrightarrow>
     (\<forall>c. count (cont (dpool s) + conns_used s + L) c = of_bool (conns s c \<noteq> None)) \<and>
     finite (dom (conns s)) \<and> (\<forall>c. conns s c \<noteq> None \<longrightarrow> c < nextConn s) \<and>
     currentSize s = int (card (dom (conns s))) \<and> currentSize s \<le> poolMax s \<and>
     distinct (map fst (objs s)) \<and> (\<forall>i \<in> fst ` set (objs s). i < nextObj s)"

definition tx_ok :: "driver \<Rightarrow> nat multiset \<Rightarrow> 'q dbpool \<Rightarrow> bool" where
  "tx_ok D L s \<longleftrightarrow> (\<forall>c. c \<notin># L \<longrightarrow> open_tx D c (hist c s) = (\<exists>i. (i, Transaction c False) \<in> set (objs s)))"

definition db_inv :: "driver \<Rightarrow> ('q \<Rightarrow> nat multiset) \<Rightarrow> nat multiset \<Rightarrow> 'q dbpool \<Rightarrow> bool" where
  "db_inv D cont L s \<longleftrightarrow> conns_ok cont L s \<and> tx_ok D L s"

lemma conns_okD:
  assumes "conns_ok cont L s"
  shows "count (cont (dpool s)) c + count (conns_used s) c + count L c = of_bool (conns s c \<noteq> None)"
    "finite (dom (conns s))" "conns s c \<noteq> None \<Longrightarrow> c < nextConn s" "currentSize s = int (card (dom (conns s)))"
    "currentSize s \<le> poolMax s"
proof -
  have "count (cont (dpool s) + conns_used s + L) c = of_bool (conns s c \<noteq> None)" using assms unfolding conns_ok_def by blast
  then show "count (cont (dpool s)) c + count (conns_used s) c + count L c = of_bool (conns s c \<noteq> None)" by simp
qed (use assms in \<open>simp_all add: conns_ok_def\<close>)

lemma log_fields [simp]:
  "dpool (log_call c k s) = dpool s" "objs (log_call c k s) = objs s" "nextConn (log_call c k s) = nextConn s"
  "currentSize (log_call c k s) = currentSize s" "poolMax (log_call c k s) = poolMax s" "nextObj (log_call c k s) = nextObj s"
  "defaultTimeoutMs (log_call c k s) = defaultTimeoutMs s" "conns_used (log_call c k s) = conns_used s"
  "(conns (log_call c k s) c' = None) = (conns s c' = None)" "dom (conns (log_call c k s)) = dom (conns s)"
  by (auto simp: log_call_def conns_used_def)

lemma hist_log: "hist c' (log_call c k s) = (if c' = c \<and> conns s c \<noteq> None then k # hist c s else hist c' s)"
  by (auto simp: hist_def log_call_def split: option.split)

lemma log_conns_ok [simp]: "conns_ok cont L (log_call c k s) = conns_ok cont L s"
  by (simp add: conns_ok_def)

lemma log_local: "tx_ok D (add_mset c L) s \<Longrightarrow> tx_ok D (add_mset c L) (log_call c k s)"
  by (simp add: tx_ok_def hist_log)

lemma used_not_idle:
  assumes "conns_ok cont L s" "(i, ob) \<in> set (objs s)"
  shows "obj_conn ob \<notin># cont (dpool s)" "obj_conn ob \<notin># L" "conns s (obj_conn ob) \<noteq> None"
proof -
  have "obj_conn ob \<in># conns_used s" using assms(2) by (force simp: conns_used_def)
  then have "0 < count (conns_used s) (obj_conn ob)" by simp
  then show "obj_conn ob \<notin># cont (dpool s)" "obj_conn ob \<notin># L" "conns s (obj_conn ob) \<noteq> None"
    using conns_okD(1) [OF assms(1), of "obj_conn ob"] unfolding not_in_iff of_bool_def
    by (simp_all only: split: if_splits) (linarith | simp)+
qed

lemma take_conn:
  assumes L: "cqueue_laws Q cont" and inv: "db_inv D cont L s" and t: "try_dequeue Q (dpool s) = Some (c, q)"
  shows "db_inv D cont (add_mset c L) (s\<lparr>dpool := q\<rparr>) \<and> \<not> open_tx D c (hist c s) \<and> conns s c \<noteq> None \<and> c \<notin># conns_used s"
proof -
  have e: "cont (dpool s) = add_mset c (cont q)" by (rule cqueue_dequeue [OF L t])
  have ok: "conns_ok cont L s" using inv by (simp add: db_inv_def)
  have "count (conns_used s) c = 0" "count L c = 0" "conns s c \<noteq> None"
    using conns_okD(1) [OF ok, of c] e by (auto simp: of_bool_def split: if_splits)
  moreover from this have "(i, Transaction c b) \<notin> set (objs s)" for i b
    by (force simp: conns_used_def count_eq_zero_iff)
  moreover have "db_inv D cont (add_mset c L) (s\<lparr>dpool := q\<rparr>)" "\<not> open_tx D c (hist c s)"
    using calculation inv e by (auto simp: db_inv_def conns_ok_def tx_ok_def conns_used_def hist_def not_in_iff)
  ultimately show ?thesis by (simp add: not_in_iff)
qed

lemma hist_discard: "hist c' (discard c s) = (if c' = c then [] else hist c' s)"
  by (simp add: hist_def discard_def Let_def log_call_def)

lemma discard_inv:
  assumes "db_inv D cont (add_mset c L) s"
  shows "db_inv D cont L (discard c s)"
proof -
  have ok: "conns_ok cont (add_mset c L) s" using assms by (simp add: db_inv_def)
  have "conns s c \<noteq> None" "count L c = 0" "count (conns_used s) c = 0" "count (cont (dpool s)) c = 0"
    using conns_okD(1) [OF ok, of c] by (auto simp: of_bool_def split: if_splits)
  moreover from this have "(i, Transaction c b) \<notin> set (objs s)" for i b
    by (force simp: conns_used_def count_eq_zero_iff)
  moreover have "card (dom (conns s) - {c}) = card (dom (conns s)) - 1" "0 < card (dom (conns s))"
    using card_Diff_singleton [of c "dom (conns s)"] calculation(1) conns_okD(2) [OF ok] by (simp_all add: domIff card_gt_0_iff) auto
  moreover have d: "conns (discard c s) = (conns s)(c := None)" "objs (discard c s) = objs s" "dpool (discard c s) = dpool s"
    "currentSize (discard c s) = currentSize s - 1" "nextConn (discard c s) = nextConn s" "poolMax (discard c s) = poolMax s"
    "nextObj (discard c s) = nextObj s"
    by (simp_all add: discard_def Let_def log_call_def)
  moreover have "count (cont (dpool s)) c' + count (conns_used s) c' + count L c' = of_bool (((conns s)(c := None)) c' \<noteq> None)" for c'
    using conns_okD(1) [OF ok, of c'] calculation(2-4) by (cases "c' = c") simp_all
  moreover have "conns_used (discard c s) = conns_used s" by (simp add: conns_used_def d)
  ultimately show ?thesis
    using assms by (auto simp: db_inv_def conns_ok_def tx_ok_def hist_discard)
qed

lemma Release_inv:
  assumes "cqueue_laws Q cont" "db_inv D cont (add_mset c L) s" "\<not> open_tx D c (hist c s)"
  shows "db_inv D cont L (Release Q c s)"
proof -
  have ok: "conns_ok cont (add_mset c L) s" using assms(2) by (simp add: db_inv_def)
  have "count L c = 0" "count (conns_used s) c = 0"
    using conns_okD(1) [OF ok, of c] by (auto simp: of_bool_def split: if_splits)
  moreover from this have "(i, Transaction c b) \<notin> set (objs s)" for i b
    by (force simp: conns_used_def count_eq_zero_iff)
  moreover have "conns_ok cont L (Release Q c s)"
    using ok by (simp add: Release_def Let_def conns_ok_def conns_used_def cqueue_enqueue [OF assms(1)])
  moreover have "hist c' (Release Q c s) = hist c' (log_call c ResetState s)" for c' by (simp add: Release_def Let_def hist_def)
  moreover have "objs (Release Q c s) = objs s" by (simp add: Release_def Let_def)
  moreover have "open_tx D c' (hist c' (log_call c ResetState s)) = open_tx D c' (hist c' s)" for c' by (simp add: hist_log)
  ultimately show ?thesis using assms(2,3) unfolding db_inv_def tx_ok_def
    by (simp only: set_mset_add_mset_insert insert_iff) metis
qed

lemma validate_inv:
  assumes "validate D c s = (g, s')" "db_inv D cont (add_mset c L) s" "\<not> open_tx D c (hist c s)"
  shows "db_inv D cont (add_mset c L) s' \<and> \<not> open_tx D c (hist c s') \<and> objs s' = objs s \<and> dpool s' = dpool s \<and>
    nextObj s' = nextObj s \<and> poolMax s' = poolMax s \<and> (\<forall>c'. c' \<noteq> c \<longrightarrow> hist c' s' = hist c' s)"
  using assms by (auto simp: validate_def ask_def Let_def db_inv_def log_local hist_log split: if_splits)

lemma discard_fields [simp]: "dpool (discard c s) = dpool s" "objs (discard c s) = objs s" "nextObj (discard c s) = nextObj s"
  "poolMax (discard c s) = poolMax s"
  by (simp_all add: discard_def Let_def)

text \<open>What a call has after \<open>Acquire\<close>: a connection of its own with no open transaction, or nothing.\<close>

definition acquired :: "driver \<Rightarrow> ('q \<Rightarrow> nat multiset) \<Rightarrow> nat multiset \<Rightarrow> 'q dbpool \<Rightarrow> nat option \<times> 'q dbpool \<Rightarrow> bool" where
  "acquired D cont L s r \<longleftrightarrow> (\<forall>c. c \<in># conns_used s \<longrightarrow> hist c (snd r) = hist c s) \<and> objs (snd r) = objs s \<and> nextObj (snd r) = nextObj s \<and> poolMax (snd r) = poolMax s \<and>
     (case fst r of None \<Rightarrow> db_inv D cont L (snd r)
      | Some c \<Rightarrow> db_inv D cont (add_mset c L) (snd r) \<and> \<not> open_tx D c (hist c (snd r)))"

lemma take_valid_ok:
  assumes Q: "cqueue_laws Q cont"
  shows "db_inv D cont L s \<Longrightarrow> \<exists>r. take_valid D Q s = Some r \<and> acquired D cont L s r \<and> (fst r = None \<longrightarrow> cont (dpool (snd r)) = {#})"
proof (induction "size (cont (dpool s))" arbitrary: s rule: less_induct)
  case less
  show ?case
  proof (cases "try_dequeue Q (dpool s)")
    case None
    then show ?thesis using less.prems cqueue_empty [OF Q, of "dpool s"] by (subst take_valid.simps) (auto simp: acquired_def)
  next
    case (Some cq)
    obtain c q where cq: "cq = (c, q)" by (cases cq)
    have e: "cont (dpool s) = add_mset c (cont q)" using cqueue_dequeue [OF Q] Some cq by blast
    note t = take_conn [OF Q less.prems Some [unfolded cq]]
    obtain g s1 where v: "validate D c (s\<lparr>dpool := q\<rparr>) = (g, s1)" by (cases "validate D c (s\<lparr>dpool := q\<rparr>)")
    have h: "hist c' (s\<lparr>dpool := q\<rparr>) = hist c' s" for c' by (simp add: hist_def)
    with validate_inv [OF v, of cont L] t
    have i: "db_inv D cont (add_mset c L) s1" "\<not> open_tx D c (hist c s1)" "objs s1 = objs s" "dpool s1 = q" "nextObj s1 = nextObj s"
      "poolMax s1 = poolMax s" "\<forall>c'. c' \<noteq> c \<longrightarrow> hist c' s1 = hist c' s" by auto
    then have i7: "\<forall>c'. c' \<in># conns_used s \<longrightarrow> hist c' s1 = hist c' s" using t by metis
    have u: "conns_used (discard c s1) = conns_used s" "\<forall>c'. c' \<in># conns_used s \<longrightarrow> hist c' (discard c s1) = hist c' s"
      using i(3) i7 t by (auto simp: conns_used_def hist_discard)
    show ?thesis
    proof (cases g)
      case True
      then show ?thesis using Some cq v i(1-6) i7 by (subst take_valid.simps) (auto simp: acquired_def)
    next
      case False
      have "\<exists>r. take_valid D Q (discard c s1) = Some r \<and> acquired D cont L (discard c s1) r \<and> (fst r = None \<longrightarrow> cont (dpool (snd r)) = {#})"
        using e i by (intro less.hyps discard_inv) auto
      then show ?thesis using Some cq v i(1-6) False u by (subst take_valid.simps) (auto simp: acquired_def)
    qed
  qed
qed

lemma create_ok:
  assumes inv: "db_inv D cont L s" and room: "currentSize s < poolMax s"
  shows "acquired D cont L s (create_conn D s)"
proof -
  let ?n = "nextConn s"
  have ok: "conns_ok cont L s" and tx: "tx_ok D L s" using inv by (simp_all add: db_inv_def)
  have new: "conns s ?n = None" using conns_okD(3) [OF ok, of ?n] by (cases "conns s ?n") auto
  then have z: "count (cont (dpool s)) ?n = 0" "count (conns_used s) ?n = 0" "count L ?n = 0" using conns_okD(1) [OF ok, of ?n] by auto
  then have no: "(i, Transaction ?n b) \<notin> set (objs s)" for i b by (force simp: conns_used_def count_eq_zero_iff)
  have less: "conns s c \<noteq> None \<Longrightarrow> c < Suc ?n" for c using conns_okD(3) [OF ok, of c] by simp
  let ?s = "s\<lparr>nextConn := Suc ?n, conns := (conns s)(?n \<mapsto> []), currentSize := currentSize s + 1\<rparr>"
  have i1: "db_inv D cont (add_mset ?n L) ?s"
    using ok tx z room new less by (auto simp: db_inv_def conns_ok_def tx_ok_def conns_used_def hist_def domIff)
  have i2: "db_inv D cont L (s\<lparr>nextConn := Suc ?n\<rparr>)"
    using ok tx less by (auto simp: db_inv_def conns_ok_def tx_ok_def conns_used_def hist_def)
  have same: "(s\<lparr>nextConn := Suc ?n\<rparr>) = (log_call ?n Connect ?s)\<lparr>conns := (conns (log_call ?n Connect ?s))(?n := None), currentSize := currentSize (log_call ?n Connect ?s) - 1\<rparr>"
    using new by (simp add: log_call_def fun_upd_idem)
  have old: "\<forall>c. c \<in># conns_used s \<longrightarrow> c \<noteq> ?n" using z(2) by (auto simp: count_eq_zero_iff)
  show ?thesis
    using i1 i2 same old
    by (auto simp: create_conn_def ask_def acquired_def Let_def db_inv_def log_local hist_log) (auto simp: hist_def log_call_def)
qed

lemma Acquire_ok:
  assumes Q: "cqueue_laws Q cont" and inv: "db_inv D cont L s"
  shows "case Acquire D Q t s of None \<Rightarrow> t = - 1 | Some r \<Rightarrow> acquired D cont L s r"
proof -
  obtain r s1 where t: "take_valid D Q s = Some (r, s1)" "acquired D cont L s (r, s1)"
    using take_valid_ok [OF Q inv] by auto
  show ?thesis
  proof (cases r)
    case None
    then have "db_inv D cont L s1" using t(2) by (simp add: acquired_def)
    moreover have "conns_used s1 = conns_used s" using t(2) by (simp add: acquired_def conns_used_def)
    ultimately show ?thesis using t None create_ok [of D cont L s1] by (auto simp: Acquire_def acquired_def)
  next
    case (Some c)
    then show ?thesis using t by (simp add: Acquire_def)
  qed
qed


section \<open>Runs of the interface\<close>

datatype db_op = OpQuery string | OpPrepare string | OpBegin | OpExecute string | OpCommit nat | OpDestroy nat

fun db_step :: "driver \<Rightarrow> ('q, nat) cqueue \<Rightarrow> db_op \<Rightarrow> 'q dbpool \<Rightarrow> 'q dbpool option" where
  "db_step D Q (OpQuery sql) s = map_option snd (Query D Q sql s)"
| "db_step D Q (OpPrepare sql) s = map_option snd (Prepare D Q sql s)"
| "db_step D Q OpBegin s = map_option snd (BeginTransaction D Q s)"
| "db_step D Q (OpExecute sql) s = map_option snd (Execute D Q sql s)"
| "db_step D Q (OpCommit i) s = Some (snd (Commit D i s))"
| "db_step D Q (OpDestroy i) s = Some (destroy_obj D Q i s)"

fun db_run :: "driver \<Rightarrow> ('q, nat) cqueue \<Rightarrow> db_op list \<Rightarrow> 'q dbpool \<Rightarrow> 'q dbpool option" where
  "db_run D Q [] s = Some s"
| "db_run D Q (e # es) s = (case db_step D Q e s of None \<Rightarrow> None | Some s' \<Rightarrow> db_run D Q es s')"

text \<open>The calls on a connection since its transaction was begun are commits only.\<close>

fun only_commits :: "db_call list \<Rightarrow> bool" where
  "only_commits (CallCommit # h) \<longleftrightarrow> only_commits h"
| "only_commits (CallBegin # h) \<longleftrightarrow> True"
| "only_commits _ \<longleftrightarrow> False"

definition tx_empty :: "'q dbpool \<Rightarrow> bool" where
  "tx_empty s \<longleftrightarrow> (\<forall>i c b. (i, Transaction c b) \<in> set (objs s) \<longrightarrow> only_commits (hist c s))"

definition db_ok :: "driver \<Rightarrow> ('q \<Rightarrow> nat multiset) \<Rightarrow> 'q dbpool \<Rightarrow> bool" where
  "db_ok D cont s \<longleftrightarrow> db_inv D cont {#} s \<and> tx_empty s"

lemma tx_used: "(i, Transaction c b) \<in> set (objs s) \<Longrightarrow> c \<in># conns_used s"
  by (force simp: conns_used_def)

lemma tx_empty_frame:
  assumes "tx_empty s" "objs s' = objs s" "\<And>c. c \<in># conns_used s \<Longrightarrow> hist c s' = hist c s"
  shows "tx_empty s'"
  using assms unfolding tx_empty_def by (metis tx_used)

lemma local_unused:
  assumes "db_inv D cont (add_mset c L) s"
  shows "c \<notin># conns_used s" "conns s c \<noteq> None"
  using assms conns_okD(1) [of cont "add_mset c L" s c]
  by (auto simp: db_inv_def not_in_iff of_bool_def split: if_splits)

lemma Release_hist: "hist c' (Release Q c s) = hist c' (log_call c ResetState s)" "objs (Release Q c s) = objs s"
  by (simp_all add: Release_def Let_def hist_def)

lemma new_obj_inv:
  assumes "db_inv D cont (add_mset (obj_conn ob) L) s" "open_tx D (obj_conn ob) (hist (obj_conn ob) s) \<longleftrightarrow> ob = Transaction (obj_conn ob) False"
    and "new_obj ob s = (i, s')"
  shows "db_inv D cont L s'"
proof -
  let ?c = "obj_conn ob"
  have s': "s' = s\<lparr>objs := (nextObj s, ob) # objs s, nextObj := Suc (nextObj s)\<rparr>" using assms(3) by (auto simp: new_obj_def)
  have "conns_ok cont L s'"
    using assms(1) by (auto simp: s' db_inv_def conns_ok_def conns_used_def less_SucI)
  moreover have "hist c s' = hist c s" for c by (simp add: s' hist_def)
  moreover have no: "(j, Transaction ?c False) \<notin> set (objs s)" for j using tx_used local_unused(1) [OF assms(1)] by blast
  have "(\<exists>j. (j, Transaction c False) \<in> set (objs s')) = (if c = ?c then ob = Transaction ?c False else \<exists>j. (j, Transaction c False) \<in> set (objs s))" for c
    using no by (cases "c = ?c") (auto simp: s')
  moreover have "tx_ok D (add_mset ?c L) s" using assms(1) by (simp add: db_inv_def)
  ultimately show ?thesis using assms(2) by (simp add: db_inv_def tx_ok_def)
qed

text \<open>A call that wraps: the object it makes is an open transaction exactly when the call begins one.\<close>

definition wraps :: "db_call \<Rightarrow> (nat \<Rightarrow> db_obj) \<Rightarrow> bool" where
  "wraps k wrap \<longleftrightarrow> (\<forall>c. obj_conn (wrap c) = c) \<and>
     (k = CallBegin \<and> wrap = (\<lambda>c. Transaction c False) \<or> (\<exists>sql. k = CallQuery sql \<or> k = CallPrepare sql) \<and> (\<forall>c b. wrap c \<noteq> Transaction c b))"

lemma wrapped_call_ok:
  assumes Q: "cqueue_laws Q cont" and ok: "db_ok D cont s" and w: "wraps k wrap" and r: "wrapped_call D Q k wrap s = Some (x, s')"
  shows "db_ok D cont s'"
proof -
  have inv: "db_inv D cont {#} s" and te: "tx_empty s" using ok by (simp_all add: db_ok_def)
  obtain a s1 where a: "Acquire D Q (defaultTimeoutMs s) s = Some (a, s1)" "acquired D cont {#} s (a, s1)"
    using Acquire_ok [OF Q inv, of "defaultTimeoutMs s"] r by (auto simp: wrapped_call_def split: option.splits)
  have te1: "tx_empty s1" by (rule tx_empty_frame [OF te]) (use a(2) in \<open>simp_all add: acquired_def\<close>)
  show ?thesis
  proof (cases a)
    case None
    then show ?thesis using a r te1 by (auto simp: wrapped_call_def db_ok_def acquired_def)
  next
    case (Some c)
    define s2 where "s2 = log_call c k s1"
    have i1: "db_inv D cont (add_mset c {#}) s1" "\<not> open_tx D c (hist c s1)" using a(2) Some by (simp_all add: acquired_def)
    note lu = local_unused [OF i1(1)]
    have i2: "db_inv D cont (add_mset c {#}) s2" using i1(1) by (simp add: s2_def db_inv_def log_local)
    have h2: "hist c s2 = k # hist c s1" using lu(2) by (simp add: s2_def hist_log)
    have te2: "tx_empty s2" by (rule tx_empty_frame [OF te1]) (use lu(1) in \<open>auto simp: s2_def hist_log\<close>)
    let ?r = "drv_status D c (hist c s1) k"
    have op: "open_tx D c (hist c s2) \<longleftrightarrow> succeeded ?r \<and> k = CallBegin" using w i1(2) by (auto simp: h2 wraps_def)
    show ?thesis
    proof (cases "succeeded ?r")
      case False
      have "db_inv D cont {#} (Release Q c s2)" using Release_inv [OF Q i2] op False by simp
      moreover have "tx_empty (Release Q c s2)"
        by (rule tx_empty_frame [OF te2]) (use lu(1) in \<open>auto simp: Release_hist hist_log s2_def\<close>)
      ultimately show ?thesis
        using False r a Some by (auto simp: wrapped_call_def call_def succeeded_def db_ok_def s2_def split: option.splits if_splits)
    next
      case True
      obtain i s3 where n: "new_obj (wrap c) s2 = (i, s3)" by (cases "new_obj (wrap c) s2")
      have oc: "obj_conn (wrap c) = c" using w by (simp add: wraps_def)
      have "db_inv D cont {#} s3" using new_obj_inv [OF _ _ n, of D cont "{#}"] i2 op True w by (auto simp: oc wraps_def)
      moreover have "tx_empty s3"
      proof -
        have h3: "hist c' s3 = hist c' s2" "objs s3 = (i, wrap c) # objs s2" for c' using n by (auto simp: new_obj_def hist_def)
        have "c' = c \<and> k = CallBegin" if "wrap c = Transaction c' b" for c' b using w that oc by (auto simp: wraps_def)
        then have "only_commits (hist c' s2)" if "wrap c = Transaction c' b" for c' b using that h2 by force
        then show ?thesis using te2 unfolding tx_empty_def h3 by (metis Pair_inject set_ConsD)
      qed
      ultimately show ?thesis
        using True n r a Some by (auto simp: wrapped_call_def call_def succeeded_def db_ok_def s2_def split: option.splits if_splits)
    qed
  qed
qed

lemma Execute_ok:
  assumes Q: "cqueue_laws Q cont" and ok: "db_ok D cont s" and r: "Execute D Q sql s = Some (x, s')"
  shows "db_ok D cont s'"
proof -
  have inv: "db_inv D cont {#} s" and te: "tx_empty s" using ok by (simp_all add: db_ok_def)
  obtain a s1 where a: "Acquire D Q (defaultTimeoutMs s) s = Some (a, s1)" "acquired D cont {#} s (a, s1)"
    using Acquire_ok [OF Q inv, of "defaultTimeoutMs s"] r by (auto simp: Execute_def split: option.splits)
  have te1: "tx_empty s1" by (rule tx_empty_frame [OF te]) (use a(2) in \<open>simp_all add: acquired_def\<close>)
  show ?thesis
  proof (cases a)
    case None
    then show ?thesis using a r te1 by (auto simp: Execute_def db_ok_def acquired_def)
  next
    case (Some c)
    define s2 where "s2 = log_call c (CallExecute sql) s1"
    have i1: "db_inv D cont (add_mset c {#}) s1" "\<not> open_tx D c (hist c s1)" using a(2) Some by (simp_all add: acquired_def)
    note lu = local_unused [OF i1(1)]
    have "db_inv D cont (add_mset c {#}) s2" "\<not> open_tx D c (hist c s2)" using i1 by (simp_all add: s2_def db_inv_def log_local hist_log)
    then have "db_inv D cont {#} (Release Q c s2)" using Release_inv [OF Q] by blast
    moreover have "tx_empty (Release Q c s2)" by (rule tx_empty_frame [OF te1]) (use lu(1) in \<open>auto simp: Release_hist hist_log s2_def\<close>)
    ultimately show ?thesis using r a Some by (auto simp: Execute_def call_def db_ok_def s2_def split: option.splits)
  qed
qed


lemma unique_obj:
  assumes ok: "conns_ok cont L s" and x: "(i, ob) \<in> set (objs s)" and y: "(j, ob') \<in> set (objs s)" and e: "obj_conn ob = obj_conn ob'"
  shows "(i, ob) = (j, ob')"
proof (rule ccontr)
  assume n: "(i, ob) \<noteq> (j, ob')"
  obtain A where A: "mset (objs s) = add_mset (i, ob) A" using multi_member_split [of "(i, ob)" "mset (objs s)"] x by auto
  have "(j, ob') \<in># add_mset (i, ob) A" using y by (simp flip: A)
  then have m: "(j, ob') \<in># A" using n by auto
  obtain B where "A = add_mset (j, ob') B" using multi_member_split [OF m] by auto
  then have "2 \<le> count (conns_used s) (obj_conn ob)" using A e by (simp add: conns_used_def)
  then show False using conns_okD(1) [OF ok, of "obj_conn ob"] by (auto simp: of_bool_def split: if_splits)
qed

lemma obj_found: "conns_ok cont L s \<Longrightarrow> map_of (objs s) i = Some ob \<longleftrightarrow> (i, ob) \<in> set (objs s)"
  by (simp add: conns_ok_def map_of_eq_Some_iff)

text \<open>Logging a call on the connection of an open transaction.\<close>

lemma log_tx:
  assumes inv: "db_inv D cont {#} s" and ob: "(i, Transaction c False) \<in> set (objs s)"
  shows "hist c (log_call c k s) = k # hist c s" "open_tx D c (hist c s)" "c' \<noteq> c \<Longrightarrow> hist c' (log_call c k s) = hist c' s"
proof -
  show "hist c (log_call c k s) = k # hist c s"
    using used_not_idle(3) [OF _ ob, of cont "{#}"] inv by (simp add: db_inv_def hist_log)
  show "open_tx D c (hist c s)" using inv ob by (auto simp: db_inv_def tx_ok_def)
  show "c' \<noteq> c \<Longrightarrow> hist c' (log_call c k s) = hist c' s" by (simp add: hist_log)
qed

lemma conns_ok_objs:
  assumes "map (obj_conn \<circ> snd) os = map (obj_conn \<circ> snd) (objs s)" "map fst os = map fst (objs s)"
  shows "conns_ok cont L (s\<lparr>objs := os\<rparr>) = conns_ok cont L s"
proof -
  have "fst ` set os = fst ` set (objs s)" using arg_cong [OF assms(2), of set] by simp
  moreover have o: "objs (s\<lparr>objs := os\<rparr>) = os" by simp
  have "conns_used (s\<lparr>objs := os\<rparr>) = conns_used s" unfolding conns_used_def o assms(1) by (rule refl)
  with calculation show ?thesis using assms(2) by (simp add: conns_ok_def)
qed

lemma set_key:
  "distinct (map fst xs) \<Longrightarrow> (i, x) \<in> set xs \<Longrightarrow>
   set (map (\<lambda>(j, ob). if j = i then (j, y) else (j, ob)) xs) = insert (i, y) (set xs - {(i, x)})"
proof (induction xs)
  case (Cons p xs)
  show ?case
  proof (cases "p = (i, x)")
    case True
    then have "(i, z) \<notin> set xs" for z using Cons.prems(1) by (auto simp: rev_image_eqI)
    then have "map (\<lambda>(j, ob). if j = i then (j, y) else (j, ob)) xs = xs" by (intro map_idI) auto
    then show ?thesis using True \<open>\<And>z. (i, z) \<notin> set xs\<close> by simp
  next
    case False
    then have "(i, x) \<in> set xs" "fst p \<noteq> i" using Cons.prems by (auto simp: rev_image_eqI)
    then show ?thesis using Cons.IH Cons.prems(1) by (cases p) auto
  qed
qed simp

lemma Commit_ok:
  assumes ok: "db_ok D cont s"
  shows "db_ok D cont (snd (Commit D i s))"
proof (cases "\<exists>c. map_of (objs s) i = Some (Transaction c False)")
  case False
  then have "snd (Commit D i s) = s" by (auto simp: Commit_def split: option.split db_obj.split)
  then show ?thesis using ok by simp
next
  case True
  then obtain c where m: "map_of (objs s) i = Some (Transaction c False)" by blast
  have inv: "db_inv D cont {#} s" and co: "conns_ok cont {#} s" and te: "tx_empty s" using ok by (simp_all add: db_ok_def db_inv_def)
  have ob: "(i, Transaction c False) \<in> set (objs s)" using m obj_found [OF co] by simp
  define s1 where "s1 = log_call c CallCommit s"
  note h = log_tx(1) [OF inv ob, of CallCommit, folded s1_def] log_tx(2) [OF inv ob] log_tx(3) [OF inv ob, of _ CallCommit, folded s1_def]
  have te1: "tx_empty s1" using te h unfolding tx_empty_def by (metis log_fields(2) only_commits.simps(1) s1_def)
  have uniq: "(j, Transaction c b) \<in> set (objs s) \<Longrightarrow> j = i \<and> \<not> b" for j b using unique_obj [OF co ob] by force
  show ?thesis
  proof (cases "succeeded (drv_status D c (hist c s) CallCommit)")
    case False
    have "tx_ok D {#} s1" using inv h False by (auto simp: db_inv_def tx_ok_def s1_def) (metis h(1,3) open_tx.simps(3) s1_def)+
    then show ?thesis
      using False te1 co m by (auto simp: Commit_def call_def succeeded_def db_ok_def db_inv_def s1_def split: option.split)
  next
    case True
    define s2 where "s2 = s1\<lparr>objs := map (\<lambda>(j, ob). if j = i then (j, Transaction c True) else (j, ob)) (objs s1)\<rparr>"
    have d: "distinct (map fst (objs s))" using co by (simp add: conns_ok_def)
    have conn: "obj_conn ob' = c" if "(i, ob') \<in> set (objs s)" for ob' using map_of_is_SomeI [OF d that] m by auto
    have "map (obj_conn \<circ> snd) (objs s2) = map (obj_conn \<circ> snd) (objs s)" "map fst (objs s2) = map fst (objs s)"
      using conn by (auto simp: s2_def s1_def)
    then have co2: "conns_ok cont {#} s2" using conns_ok_objs [of "objs s2" s1] co by (simp add: s2_def s1_def)
    have mem: "(j, Transaction c' b) \<in> set (objs s2) \<longleftrightarrow> (if c' = c then j = i \<and> b else (j, Transaction c' b) \<in> set (objs s))" for j c' b
    proof -
      have key: "ob' = Transaction c False" if "(i, ob') \<in> set (objs s)" for ob' using map_of_is_SomeI [OF d that] m by simp
      have "set (objs s2) = insert (i, Transaction c True) (set (objs s) - {(i, Transaction c False)})"
        using set_key [OF d ob] by (simp add: s2_def s1_def)
      then show ?thesis using uniq key by auto
    qed
    have h2: "hist c' s2 = hist c' s1" for c' by (simp add: s2_def hist_def)
    have "tx_ok D {#} s2" using inv h True mem by (auto simp: db_inv_def tx_ok_def h2)
    moreover have "tx_empty s2" using te1 te h ob mem unfolding tx_empty_def h2 by (metis log_fields(2) s1_def)
    ultimately show ?thesis
      using True co2 m by (auto simp: Commit_def call_def succeeded_def db_ok_def db_inv_def s1_def s2_def split: option.splits)
  qed
qed

lemma remove_key:
  "distinct (map fst xs) \<Longrightarrow> (i, ob) \<in> set xs \<Longrightarrow> mset (map f xs) = add_mset (f (i, ob)) (mset (map f (filter (\<lambda>p. fst p \<noteq> i) xs)))"
proof (induction xs)
  case (Cons x xs)
  show ?case
  proof (cases "x = (i, ob)")
    case True
    then have "filter (\<lambda>p. fst p \<noteq> i) xs = xs" using Cons.prems(1) by (auto simp: filter_id_conv)
    then show ?thesis using True by simp
  next
    case False
    then have "(i, ob) \<in> set xs" "fst x \<noteq> i" using Cons.prems by (auto simp: rev_image_eqI)
    then show ?thesis using Cons.IH Cons.prems(1) by simp
  qed
qed simp

lemma remove_obj:
  assumes "conns_ok cont L s" "(i, ob) \<in> set (objs s)" "s' = s\<lparr>objs := filter (\<lambda>p. fst p \<noteq> i) (objs s)\<rparr>"
  shows "conns_ok cont (add_mset (obj_conn ob) L) s'"
proof -
  have "distinct (map fst (objs s))" using assms(1) by (simp add: conns_ok_def)
  from remove_key [OF this assms(2), of "obj_conn \<circ> snd"]
  have "conns_used s = add_mset (obj_conn ob) (conns_used s')" by (simp add: conns_used_def assms(3))
  then show ?thesis using assms(1,3) by (auto simp: conns_ok_def distinct_map_filter)
qed


lemma destroy_ok:
  assumes Q: "cqueue_laws Q cont" and ok: "db_ok D cont s"
  shows "db_ok D cont (destroy_obj D Q i s)"
proof (cases "map_of (objs s) i")
  case None
  then show ?thesis using ok by (simp add: destroy_obj_def)
next
  case (Some ob)
  have inv: "db_inv D cont {#} s" and co: "conns_ok cont {#} s" and te: "tx_empty s" using ok by (simp_all add: db_ok_def db_inv_def)
  have mem: "(i, ob) \<in> set (objs s)" using Some obj_found [OF co] by simp
  let ?c = "obj_conn ob"
  define s1 where "s1 = (case ob of Transaction c False \<Rightarrow> snd (call D c CallRollback s) | _ \<Rightarrow> s)"
  define s2 where "s2 = s1\<lparr>objs := filter (\<lambda>p. fst p \<noteq> i) (objs s1)\<rparr>"
  have o1: "objs s1 = objs s" "conns_ok cont {#} s1" "c' \<noteq> ?c \<Longrightarrow> hist c' s1 = hist c' s" for c'
    using co by (auto simp: s1_def call_def hist_log split: db_obj.split bool.split)
  have closed: "\<not> open_tx D ?c (hist ?c s1)"
  proof (cases "ob = Transaction ?c False")
    case True
    then have m': "(i, Transaction ?c False) \<in> set (objs s)" using mem by simp
    show ?thesis by (subst s1_def, subst True) (simp add: call_def log_tx(1) [OF inv m'])
  next
    case False
    then have "s1 = s" by (auto simp: s1_def split: db_obj.split bool.split)
    moreover have "(j, Transaction ?c False) \<notin> set (objs s)" for j using unique_obj [OF co mem, of j "Transaction ?c False"] False by auto
    ultimately show ?thesis using inv by (simp add: db_inv_def tx_ok_def)
  qed
  have other: "(j, Transaction c' b) \<in> set (objs s2) \<longleftrightarrow> (j, Transaction c' b) \<in> set (objs s)" if "c' \<noteq> ?c" for j c' b
    using that obj_found [OF co, of i ob] obj_found [OF co, of i "Transaction c' b"] mem by (auto simp: s2_def o1(1))
  have gone: "(j, Transaction ?c b) \<notin> set (objs s2)" for j b
    using unique_obj [OF co mem, of j "Transaction ?c b"] by (auto simp: s2_def o1(1))
  have h2: "hist c' s2 = hist c' s1" for c' by (simp add: s2_def hist_def)
  have "conns_ok cont (add_mset ?c {#}) s2" using remove_obj [OF o1(2), of i ob] mem by (simp add: o1(1) s2_def)
  moreover have "tx_ok D (add_mset ?c {#}) s2" using inv other by (auto simp: db_inv_def tx_ok_def h2 o1(3))
  ultimately have "db_inv D cont {#} (Release Q ?c s2)" using Release_inv [OF Q, of D ?c "{#}" s2] closed h2 by (simp add: db_inv_def)
  moreover have "tx_empty (Release Q ?c s2)"
    unfolding tx_empty_def Release_hist
  proof (intro allI impI)
    fix j c' b
    assume a: "(j, Transaction c' b) \<in> set (objs s2)"
    then have "c' \<noteq> ?c" using gone by auto
    then show "only_commits (hist c' (log_call ?c ResetState s2))"
      using te a other by (simp add: hist_log h2 o1(3) tx_empty_def) blast
  qed
  moreover have "destroy_obj D Q i s = Release Q ?c s2" using Some by (simp add: destroy_obj_def s1_def s2_def Let_def)
  ultimately show ?thesis by (simp add: db_ok_def)
qed

lemma db_step_ok:
  assumes "cqueue_laws Q cont" "db_ok D cont s" "db_step D Q e s = Some s'"
  shows "db_ok D cont s'"
  using assms(3)
proof (cases e)
  case (OpQuery sql)
  then show ?thesis using assms(3) wrapped_call_ok [OF assms(1,2), of "CallQuery sql" ResultSet] by (auto simp: Query_def wraps_def)
next
  case (OpPrepare sql)
  then show ?thesis using assms(3) wrapped_call_ok [OF assms(1,2), of "CallPrepare sql" Prepared] by (auto simp: Prepare_def wraps_def)
next
  case OpBegin
  then show ?thesis using assms(3) wrapped_call_ok [OF assms(1,2), of CallBegin "\<lambda>c. Transaction c False"]
    by (auto simp: BeginTransaction_def wraps_def)
next
  case (OpExecute sql)
  then show ?thesis using assms(3) Execute_ok [OF assms(1,2)] by auto
next
  case (OpCommit i)
  then show ?thesis using assms(3) Commit_ok [OF assms(2)] by auto
next
  case (OpDestroy i)
  then show ?thesis using assms(3) destroy_ok [OF assms(1,2)] by auto
qed

lemma db_run_ok: "cqueue_laws Q cont \<Longrightarrow> db_ok D cont s \<Longrightarrow> db_run D Q es s = Some s' \<Longrightarrow> db_ok D cont s'"
proof (induction es arbitrary: s)
  case (Cons e es)
  then obtain s1 where "db_step D Q e s = Some s1" "db_run D Q es s1 = Some s'" by (auto split: option.splits)
  then show ?case using Cons.IH [OF Cons.prems(1) db_step_ok [OF Cons.prems(1,2)]] by blast
qed simp

lemma new_db_ok: "cont q = {#} \<Longrightarrow> 0 \<le> n \<Longrightarrow> db_ok D cont (DatabaseImpl q n timeout)"
  by (simp add: db_ok_def db_inv_def conns_ok_def tx_ok_def tx_empty_def DatabaseImpl_def conns_used_def hist_def)



text \<open>A driver that always succeeds, and a run with a transaction and a query at the same time.\<close>

definition good_driver :: driver where
  "good_driver = \<lparr>drv_create = (\<lambda>_. True), drv_bool = (\<lambda>_ _ _. True), drv_status = (\<lambda>_ _ _. Some (DB_OK, ''''))\<rparr>"

definition demo_ops :: "db_op list" where
  "demo_ops = [OpBegin, OpExecute ''INSERT'', OpQuery ''SELECT'', OpDestroy 0]"

definition demo_db :: "nat list dbpool" where
  "demo_db = the (db_run good_driver list_queue demo_ops (DatabaseImpl [] 2 5000))"

lemmas db_eval = demo_db_def demo_ops_def good_driver_def DatabaseImpl_def BeginTransaction_def Query_def Execute_def wrapped_call_def
  Acquire_def create_conn_def ask_def call_def log_call_def hist_def new_obj_def IsOk_def Release_def destroy_obj_def list_queue_def
  validate_def

lemma demo_db_run: "db_run good_driver list_queue demo_ops (DatabaseImpl [] 2 5000) = Some demo_db"
  "currentSize demo_db = 2" "dpool demo_db = [0]" "objs demo_db = [(1, ResultSet 1)]"
  by (simp_all add: db_eval take_valid.simps Let_def)


text \<open>A transaction of \<open>BeginTransaction\<close> can hold no statement.  The program reaches a connection only through
  the pool, and the pool never lends the one that a transaction holds: since its \<open>BEGIN\<close> the only calls
  on it are commits.  (\<open>AsyncRunInTransaction\<close> passes a proxy with which statements do run in the transaction.)\<close>

lemma transaction_holds_no_statement:
  assumes "cqueue_laws Q cont" "cont q = {#}" "0 \<le> n" "db_run D Q es (DatabaseImpl q n timeout) = Some s"
    and "(i, Transaction c b) \<in> set (objs s)"
  shows "only_commits (hist c s)"
proof -
  have "db_ok D cont s" using db_run_ok [OF assms(1) _ assms(4)] new_db_ok [of cont q n D timeout] assms(2,3) by blast
  then show ?thesis using assms(5) by (auto simp: db_ok_def tx_empty_def)
qed


section \<open>Asynchronous calls\<close>

text \<open>What the logic of \<open>AsyncRunInTransaction\<close> may do with the proxy; the objects it makes are locals of the
  logic and are destroyed when it returns or throws.\<close>

datatype tx_prog =
    Ret bool
  | Throw
  | DoExecute string "DbStatus \<Rightarrow> tx_prog"
  | DoQuery string "DbStatus \<Rightarrow> tx_prog"
  | DoBegin "DbStatus \<Rightarrow> tx_prog"
  | DoCommit "DbStatus \<Rightarrow> tx_prog"

definition unwind :: "driver \<Rightarrow> nat \<Rightarrow> bool list \<Rightarrow> 'q dbpool \<Rightarrow> 'q dbpool" where
  "unwind D c txs s = fold (\<lambda>committed s. if committed then s else snd (call D c CallRollback s)) txs s"

text \<open>\<open>txs\<close> are the \<open>_committed\<close> flags of the transactions begun on the proxy, latest first.\<close>

primrec run_tx :: "driver \<Rightarrow> nat \<Rightarrow> tx_prog \<Rightarrow> bool list \<Rightarrow> 'q dbpool \<Rightarrow> bool \<times> 'q dbpool" where
  "run_tx D c (Ret b) txs s = (b, unwind D c txs s)"
| "run_tx D c Throw txs s = (False, unwind D c txs s)"
| "run_tx D c (DoExecute sql f) txs s = (case call D c (CallExecute sql) s of
      (None, s1) \<Rightarrow> (False, unwind D c txs s1) | (Some st, s1) \<Rightarrow> run_tx D c (f st) txs s1)"
| "run_tx D c (DoQuery sql f) txs s = (case call D c (CallQuery sql) s of
      (None, s1) \<Rightarrow> (False, unwind D c txs s1) | (Some st, s1) \<Rightarrow> run_tx D c (f st) txs s1)"
| "run_tx D c (DoBegin f) txs s = (case call D c CallBegin s of
      (None, s1) \<Rightarrow> (False, unwind D c txs s1)
    | (Some st, s1) \<Rightarrow> run_tx D c (f st) (if IsOk st then False # txs else txs) s1)"
| "run_tx D c (DoCommit f) txs s = (case txs of [] \<Rightarrow> run_tx D c (f (DB_ERROR, '''')) txs s
    | committed # rest \<Rightarrow>
        if committed then run_tx D c (f (DB_ERROR, ''Already committed'')) txs s
        else (case call D c CallCommit s of
            (None, s1) \<Rightarrow> (False, unwind D c txs s1)
          | (Some st, s1) \<Rightarrow> run_tx D c (f st) (IsOk st # rest) s1))"

datatype db_job = JobQuery string "nat option" | JobExecute string "nat option" | JobTx tx_prog "nat option"

datatype db_callback = CbQuery "nat option" DbStatus "nat option" | CbExecute "nat option" DbStatus | CbTx "nat option" bool

record 'q adb =
  db :: "'q dbpool"
  hasThreadPool :: bool
  hasDispatcher :: bool
  jobs :: "db_job list"
  pushed :: "db_callback list"

definition push_callback :: "db_callback \<Rightarrow> 'q adb \<Rightarrow> 'q adb" where
  "push_callback cb a = a\<lparr>pushed := pushed a @ [cb]\<rparr>"

definition not_configured :: DbStatus where
  "not_configured = (DB_ERROR, ''Async Context Not Configured'')"

definition async_call :: "db_job \<Rightarrow> nat option \<Rightarrow> db_callback \<Rightarrow> 'q adb \<Rightarrow> 'q adb" where
  "async_call job cb failure a =
     (if \<not> hasThreadPool a then (if cb \<noteq> None \<and> hasDispatcher a then push_callback failure a else a)
      else a\<lparr>jobs := jobs a @ [job]\<rparr>)"

definition AsyncQuery :: "string \<Rightarrow> nat option \<Rightarrow> 'q adb \<Rightarrow> 'q adb" where
  "AsyncQuery sql cb a = async_call (JobQuery sql cb) cb (CbQuery cb not_configured None) a"

definition AsyncExecute :: "string \<Rightarrow> nat option \<Rightarrow> 'q adb \<Rightarrow> 'q adb" where
  "AsyncExecute sql cb a = async_call (JobExecute sql cb) cb (CbExecute cb not_configured) a"

definition AsyncRunInTransaction :: "tx_prog \<Rightarrow> nat option \<Rightarrow> 'q adb \<Rightarrow> 'q adb" where
  "AsyncRunInTransaction logic cb a = async_call (JobTx logic cb) cb (CbTx cb False) a"

text \<open>The body of a job on a worker; \<open>None\<close> is a call through a null dispatcher or an endless wait.\<close>

definition finish_job :: "db_callback \<Rightarrow> 'q dbpool \<Rightarrow> 'q adb \<Rightarrow> 'q adb option" where
  "finish_job cb s a = (if hasDispatcher a then Some (push_callback cb (a\<lparr>db := s\<rparr>)) else None)"

definition run_job :: "driver \<Rightarrow> ('q, nat) cqueue \<Rightarrow> db_job \<Rightarrow> 'q adb \<Rightarrow> 'q adb option" where
  "run_job D Q job a = (case job of
      JobQuery sql cb \<Rightarrow> (case Query D Q sql (db a) of None \<Rightarrow> None
        | Some ((st, ob), s) \<Rightarrow> finish_job (CbQuery cb st ob) s a)
    | JobExecute sql cb \<Rightarrow> (case Execute D Q sql (db a) of None \<Rightarrow> None
        | Some (st, s) \<Rightarrow> finish_job (CbExecute cb st) s a)
    | JobTx logic cb \<Rightarrow> (case Acquire D Q (defaultTimeoutMs (db a)) (db a) of None \<Rightarrow> None
        | Some (None, s) \<Rightarrow> finish_job (CbTx cb False) s a
        | Some (Some c, s) \<Rightarrow> (let (ok, s1) = run_tx D c logic [] s in finish_job (CbTx cb ok) (Release Q c s1) a)))"

lemma local_call:
  assumes "db_inv D cont (add_mset c L) s" "tx_empty s"
  shows "db_inv D cont (add_mset c L) (log_call c k s)" "tx_empty (log_call c k s)" "hist c (log_call c k s) = k # hist c s"
    "objs (log_call c k s) = objs s"
proof -
  note lu = local_unused [OF assms(1)]
  show "db_inv D cont (add_mset c L) (log_call c k s)" using assms(1) by (simp add: db_inv_def log_local)
  show "tx_empty (log_call c k s)" by (rule tx_empty_frame [OF assms(2)]) (use lu(1) in \<open>auto simp: hist_log\<close>)
  show "hist c (log_call c k s) = k # hist c s" "objs (log_call c k s) = objs s" using lu(2) by (simp_all add: hist_log)
qed

lemma unwind_ok:
  assumes "db_inv D cont (add_mset c L) s" "tx_empty s" "open_tx D c (hist c s) \<longrightarrow> False \<in> set txs"
  shows "db_inv D cont (add_mset c L) (unwind D c txs s) \<and> tx_empty (unwind D c txs s) \<and> \<not> open_tx D c (hist c (unwind D c txs s))"
  using assms
proof (induction txs arbitrary: s)
  case (Cons t txs)
  show ?case
  proof (cases t)
    case True
    then show ?thesis using Cons by (auto simp: unwind_def)
  next
    case False
    note l = local_call [OF Cons.prems(1,2), of CallRollback]
    have "\<not> open_tx D c (hist c (log_call c CallRollback s))" using l(3) by simp
    then show ?thesis using Cons.IH [OF l(1,2)] False by (simp add: unwind_def call_def)
  qed
qed (simp add: unwind_def)

definition settled :: "driver \<Rightarrow> ('q \<Rightarrow> nat multiset) \<Rightarrow> nat \<Rightarrow> nat multiset \<Rightarrow> bool \<times> 'q dbpool \<Rightarrow> bool" where
  "settled D cont c L r \<longleftrightarrow> db_inv D cont (add_mset c L) (snd r) \<and> tx_empty (snd r) \<and> \<not> open_tx D c (hist c (snd r))"

lemma run_tx_ok:
  assumes "db_inv D cont (add_mset c L) s" "tx_empty s" "open_tx D c (hist c s) \<longrightarrow> False \<in> set txs"
  shows "settled D cont c L (run_tx D c p txs s)"
  using assms
proof (induction p arbitrary: txs s)
  case (Ret b)
  then show ?case using unwind_ok [OF Ret.prems] by (simp add: settled_def)
next
  case Throw
  then show ?case using unwind_ok [OF Throw.prems] by (simp add: settled_def)
next
  case (DoExecute sql f)
  note l = local_call [OF DoExecute.prems(1,2), of "CallExecute sql"]
  then show ?case
    using DoExecute.IH [OF _ l(1,2)] DoExecute.prems(3) unwind_ok [OF l(1,2), of txs] by (auto simp: call_def settled_def [of _ _ _ _ "(_, _)"] split: option.split)
next
  case (DoQuery sql f)
  note l = local_call [OF DoQuery.prems(1,2), of "CallQuery sql"]
  then show ?case
    using DoQuery.IH [OF _ l(1,2)] DoQuery.prems(3) unwind_ok [OF l(1,2), of txs] by (auto simp: call_def settled_def [of _ _ _ _ "(_, _)"] split: option.split)
next
  case (DoBegin f)
  note l = local_call [OF DoBegin.prems(1,2), of CallBegin]
  show ?case
    using DoBegin.IH [OF _ l(1,2)] DoBegin.prems(3) unwind_ok [OF l(1,2), of txs] l(3)
    by (auto simp: call_def succeeded_def settled_def [of _ _ _ _ "(_, _)"] split: option.split)
next
  case (DoCommit f)
  note l = local_call [OF DoCommit.prems(1,2), of CallCommit]
  note same = DoCommit.IH [OF rangeI DoCommit.prems]
  show ?case
  proof (cases "txs = [] \<or> hd txs")
    case True
    then show ?thesis using same by (auto split: list.split)
  next
    case False
    then obtain rest where t: "txs = False # rest" by (cases txs) auto
    show ?thesis
      using t DoCommit.IH [OF rangeI l(1,2)] unwind_ok [OF l(1,2), of txs] l(3) DoCommit.prems(3)
      by (auto simp: call_def succeeded_def settled_def [of _ _ _ _ "(_, _)"] split: option.split)
  qed
qed


definition demo_adb :: "nat list adb" where
  "demo_adb = \<lparr>db = DatabaseImpl [] 1 5000, hasThreadPool = True, hasDispatcher = True, jobs = [], pushed = []\<rparr>"


text \<open>\<open>AsyncRunInTransaction\<close> itself begins no transaction: with a logic that does not, the first statement
  stays in effect although the job reports failure.\<close>

lemma transaction_job_not_atomic:
  "map_option (\<lambda>a. (hist 0 (db a), pushed a))
     (run_job good_driver list_queue (JobTx (DoExecute ''INSERT'' (\<lambda>st. Ret False)) (Some 3)) demo_adb) =
   Some ([ResetState, CallExecute ''INSERT'', Connect], [CbTx (Some 3) False])"
  by (simp add: run_job_def demo_adb_def db_eval take_valid.simps finish_job_def push_callback_def unwind_def)

text \<open>Without a dispatcher a job ends in a call through a null pointer.\<close>

lemma job_without_dispatcher: "\<not> hasDispatcher a \<Longrightarrow> run_job D Q job a = None"
  by (auto simp: run_job_def finish_job_def Let_def split: db_job.split option.split prod.split)

section \<open>A lost wake-up\<close>

text \<open>
  One thread that waits in \<open>Acquire\<close> and one that releases the only connection.  \<open>wait\<close> evaluates its
  predicate while it holds the mutex and then sleeps, giving the mutex up in the same step; \<open>Release\<close>
  takes no mutex, so its \<open>enqueue\<close> and \<open>notify_one\<close> may fall between the two.
\<close>

datatype waiter = Entering | PredicateFalse | Asleep | HasConnection

datatype releaser = Holding | Enqueued | ReleaserDone

record wait_state =
  ws_idle :: nat
  ws_waiting :: nat
  ws_waiter :: waiter
  ws_releaser :: releaser

fun waiter_step :: "wait_state \<Rightarrow> wait_state" where
  "waiter_step s = (case ws_waiter s of
      Entering \<Rightarrow> if 0 < ws_idle s then s\<lparr>ws_idle := ws_idle s - 1, ws_waiter := HasConnection\<rparr>
        else s\<lparr>ws_waiting := ws_waiting s + 1, ws_waiter := PredicateFalse\<rparr>
    | PredicateFalse \<Rightarrow> s\<lparr>ws_waiter := Asleep\<rparr>
    | _ \<Rightarrow> s)"

fun releaser_step :: "wait_state \<Rightarrow> wait_state" where
  "releaser_step s = (case ws_releaser s of
      Holding \<Rightarrow> s\<lparr>ws_idle := ws_idle s + 1, ws_releaser := Enqueued\<rparr>
    | Enqueued \<Rightarrow> if 0 < ws_waiting s \<and> ws_waiter s = Asleep
        then s\<lparr>ws_waiter := Entering, ws_waiting := ws_waiting s - 1, ws_releaser := ReleaserDone\<rparr>
        else s\<lparr>ws_releaser := ReleaserDone\<rparr>
    | ReleaserDone \<Rightarrow> s)"

lemma wakeup_lost:
  "waiter_step (releaser_step (releaser_step (waiter_step \<lparr>ws_idle = 0, ws_waiting = 0, ws_waiter = Entering, ws_releaser = Holding\<rparr>))) =
   \<lparr>ws_idle = 1, ws_waiting = 1, ws_waiter = Asleep, ws_releaser = ReleaserDone\<rparr>"
  by simp

section \<open>The driver registry\<close>

record 'f db_registry =
  drivers :: "string \<Rightarrow> 'f option"
  initialized :: bool

definition Register :: "string \<Rightarrow> 'f \<Rightarrow> 'f db_registry \<Rightarrow> 'f db_registry" where
  "Register ty f r = r\<lparr>drivers := (drivers r)(ty \<mapsto> f)\<rparr>"

definition Initialize :: "'f option \<Rightarrow> 'f option \<Rightarrow> 'f db_registry \<Rightarrow> 'f db_registry" where
  "Initialize sqlite mysql r =
     (if initialized r then r
      else let r1 = (case sqlite of None \<Rightarrow> r | Some f \<Rightarrow> Register ''sqlite'' f r);
               r2 = (case mysql of None \<Rightarrow> r1 | Some f \<Rightarrow> Register ''mysql'' f r1)
           in r2\<lparr>initialized := True\<rparr>)"

definition Create :: "string \<Rightarrow> 'c \<Rightarrow> ('c \<Rightarrow> 'd) db_registry \<Rightarrow> 'd option" where
  "Create ty ctx r = map_option (\<lambda>f. f ctx) (drivers r ty)"

lemma registry_create: "Create ty ctx (Register ty' f r) = (if ty = ty' then Some (f ctx) else Create ty ctx r)"
  by (simp add: Create_def Register_def)

end
