(* ===== verification/Text_Numbers.thy ===== *)
theory Text_Numbers
  imports Prelude
begin

text \<open>
  Functions of the C and C++ libraries on text that several components use: \<open>c_str\<close>, \<open>std::to_string\<close>, \<open>strtol\<close>,
  \<open>atoi\<close>, \<open>std::stoi\<close>, and the words an \<open>std::istringstream\<close> reads with \<^verbatim>\<open>>>\<close>.  A text is a list of characters.
\<close>

section \<open>Definitions\<close>

text \<open>What a C string read from a \<open>std::string\<close> with \<open>c_str\<close> ends at.\<close>

definition c_str :: "string \<Rightarrow> string" where
  "c_str s = takeWhile (\<lambda>ch. ch \<noteq> CHR 0x00) s"

text \<open>The digits of \<open>std::to_string\<close>.\<close>

fun digits :: "nat \<Rightarrow> string" where
  "digits n = (if n < 10 then [char_of (48 + n)] else digits (n div 10) @ [char_of (48 + n mod 10)])"

declare digits.simps [simp del]

definition to_string :: "int \<Rightarrow> string" where
  "to_string i = (if i < 0 then CHR ''-'' # digits (nat (- i)) else digits (nat i))"

definition is_digit :: "char \<Rightarrow> bool" where
  "is_digit ch \<longleftrightarrow> 48 \<le> (of_char ch :: nat) \<and> (of_char ch :: nat) \<le> 57"

definition is_space :: "char \<Rightarrow> bool" where
  "is_space ch \<longleftrightarrow> of_char ch = (32 :: nat) \<or> 9 \<le> (of_char ch :: nat) \<and> (of_char ch :: nat) \<le> 13"

fun digits_value :: "nat \<Rightarrow> string \<Rightarrow> nat" where
  "digits_value acc [] = acc"
| "digits_value acc (ch # s) = (if is_digit ch then digits_value (10 * acc + (of_char ch - 48)) s else acc)"

text \<open>\<open>strtol\<close> in base ten: white space, a sign, digits; \<open>None\<close> if there is no digit.\<close>

definition strtol :: "string \<Rightarrow> int option" where
  "strtol s = (let t = dropWhile is_space s;
      (neg, u) = (case t of [] \<Rightarrow> (False, []) | ch # r \<Rightarrow> if ch = CHR ''-'' then (True, r) else if ch = CHR ''+'' then (False, r) else (False, t))
     in if u = [] \<or> \<not> is_digit (hd u) then None
        else Some (if neg then - int (digits_value 0 u) else int (digits_value 0 u)))"

definition atoi :: "string \<Rightarrow> int" where
  "atoi s = (case strtol s of None \<Rightarrow> 0 | Some n \<Rightarrow> n)"

text \<open>\<open>std::stoi\<close> throws when there is no number or it does not fit an \<open>int\<close>.\<close>

definition stoi :: "string \<Rightarrow> int option" where
  "stoi s = (case strtol s of None \<Rightarrow> None | Some n \<Rightarrow> if - (2 ^ 31) \<le> n \<and> n < 2 ^ 31 then Some n else None)"

text \<open>\<^verbatim>\<open>stream >> word\<close>, until it fails: white space is skipped, and a word ends before the next one.\<close>

function words :: "string \<Rightarrow> string list" where
  "words s = (let t = dropWhile is_space s
     in if t = [] then [] else takeWhile (\<lambda>ch. \<not> is_space ch) t # words (dropWhile (\<lambda>ch. \<not> is_space ch) t))"
  by auto
termination
proof (relation "measure length")
  fix s t :: string
  assume "t = dropWhile is_space s" "t \<noteq> []"
  then obtain ch r where d: "t = ch # r" "\<not> is_space ch" by (metis hd_dropWhile list.exhaust list.sel(1))
  then have "length (dropWhile (\<lambda>ch. \<not> is_space ch) r) < length t" by (simp add: length_dropWhile_le less_Suc_eq_le)
  moreover have "length t \<le> length s" using \<open>t = dropWhile is_space s\<close> by (simp add: length_dropWhile_le)
  ultimately show "(dropWhile (\<lambda>ch. \<not> is_space ch) t, s) \<in> measure length" using d by simp
qed simp

declare words.simps [simp del]

definition join_words :: "string list \<Rightarrow> string" where
  "join_words ws = concat (map (\<lambda>w. CHR '' '' # w) ws)"

section \<open>Facts\<close>

lemma split_at_sep: "sep \<notin> set t \<Longrightarrow> takeWhile (\<lambda>ch. ch \<noteq> sep) (t @ sep # r) = t" "sep \<notin> set t \<Longrightarrow> takeWhile (\<lambda>ch. ch \<noteq> sep) t = t"
  by (auto simp: takeWhile_append takeWhile_eq_all_conv split: if_splits)

lemma c_str_cut: "c_str (s @ CHR 0x00 # t) = c_str s"
  by (induction s) (simp_all add: c_str_def)

lemma digit_char: "k < 10 \<Longrightarrow> is_digit (char_of (48 + k)) \<and> (of_char (char_of (48 + k) :: char) :: nat) = 48 + k" for k :: nat
  by (simp add: is_digit_def)

lemma digits_value_snoc: "list_all is_digit s \<Longrightarrow> is_digit ch \<Longrightarrow> digits_value acc (s @ [ch]) = 10 * digits_value acc s + (of_char ch - 48)"
  by (induction s arbitrary: acc) auto

lemma digits_digits: "list_all is_digit (digits n) \<and> digits_value 0 (digits n) = n \<and> digits n \<noteq> []"
proof (induction n rule: digits.induct)
  case (1 n)
  show ?case
  proof (cases "n < 10")
    case True
    then show ?thesis using digit_char [of n] by (simp add: digits.simps)
  next
    case False
    have dd: "digits n = digits (n div 10) @ [char_of (48 + n mod 10)]" using False by (simp add: digits.simps)
    show ?thesis unfolding dd
      using 1 [OF False] digit_char [of "n mod 10"] digits_value_snoc [of "digits (n div 10)" "char_of (48 + n mod 10)" 0] by simp
  qed
qed

lemma digit_not_special: "is_digit ch \<Longrightarrow> \<not> is_space ch \<and> ch \<noteq> CHR ''-'' \<and> ch \<noteq> CHR ''+'' \<and> ch \<noteq> CHR '';'' \<and> ch \<noteq> CHR '':''"
  by (auto simp: is_digit_def is_space_def)

lemma strtol_digits: "strtol (digits n) = Some (int n)"
proof -
  obtain ch s where s: "digits n = ch # s" using digits_digits [of n] by (cases "digits n") auto
  then have "is_digit ch" using digits_digits [of n] by auto
  then show ?thesis using s digit_not_special [of ch] digits_digits [of n] by (simp add: strtol_def Let_def)
qed

lemma atoi_digits: "atoi (digits n) = int n"
  by (simp add: atoi_def strtol_digits)

text \<open>Words put together with spaces are read back.\<close>

definition is_word :: "string \<Rightarrow> bool" where
  "is_word w \<longleftrightarrow> w \<noteq> [] \<and> list_all (\<lambda>ch. \<not> is_space ch) w"

lemma space_is_space [simp]: "is_space (CHR '' '')"
  by (simp add: is_space_def)

lemma words_step:
  assumes "is_word w" "r = [] \<or> (\<exists>ch s. r = ch # s \<and> is_space ch)"
  shows "words (w @ r) = w # words r" "words (CHR '' '' # w @ r) = w # words r"
proof -
  have w: "dropWhile is_space (w @ r) = w @ r" using assms(1) by (cases w) (auto simp: is_word_def)
  have t: "takeWhile (\<lambda>ch. \<not> is_space ch) (w @ r) = w" "dropWhile (\<lambda>ch. \<not> is_space ch) (w @ r) = r"
    using assms by (auto simp: is_word_def list_all_iff takeWhile_append dropWhile_append)
  show "words (w @ r) = w # words r" using assms(1) by (subst words.simps) (simp add: w t is_word_def Let_def)
  show "words (CHR '' '' # w @ r) = w # words r" using assms(1) by (subst words.simps) (simp add: w t is_word_def Let_def)
qed

lemma words_join: "list_all is_word ws \<Longrightarrow> words (join_words ws) = ws"
proof (induction ws)
  case Nil
  then show ?case by (simp add: join_words_def words.simps)
next
  case (Cons w ws)
  have "join_words ws = [] \<or> (\<exists>ch s. join_words ws = ch # s \<and> is_space ch)"
    by (cases ws) (auto simp: join_words_def)
  then show ?case using Cons words_step(2) [of w "join_words ws"] by (simp add: join_words_def)
qed

lemma words_line: "is_word w \<Longrightarrow> list_all is_word ws \<Longrightarrow> words (w @ join_words ws) = w # ws"
  using words_step(1) [of w "join_words ws"] words_join [of ws] by (cases ws) (auto simp: join_words_def)

lemma words_are_words: "w \<in> set (words s) \<Longrightarrow> is_word w"
proof (induction s rule: words.induct)
  case (1 s)
  let ?t = "dropWhile is_space s"
  have ne: "?t \<noteq> []" using 1(2) by (subst (asm) words.simps) (auto simp: Let_def split: if_splits)
  then have "\<not> is_space (hd ?t)" by (metis hd_dropWhile)
  then have "is_word (takeWhile (\<lambda>ch. \<not> is_space ch) ?t)"
    using ne by (cases ?t) (auto simp: is_word_def list_all_iff dest: set_takeWhileD)
  moreover have "words s = takeWhile (\<lambda>ch. \<not> is_space ch) ?t # words (dropWhile (\<lambda>ch. \<not> is_space ch) ?t)"
    using ne by (subst words.simps) (simp add: Let_def)
  ultimately show ?case using 1(1) [OF refl ne] 1(2) by auto
qed

end
