(* ===== verification/Sqlite_Driver.thy ===== *)
theory Sqlite_Driver
  imports Database_Pool Text_Numbers
begin

text \<open>
  \<open>System/Drivers/SQLite\<close>: connections, prepared statements and result sets over the sqlite3 library, and
  how a connection object serves as a driver of the connection pool.

  The library is the record \<open>sqlite3\<close>: functions on a value of type \<open>'d\<close>, which is what a handle of type
  \<^verbatim>\<open>sqlite3 *\<close> points to; a null handle is \<open>None\<close>.  A statement handle is a number, again \<open>None\<close> for a null
  pointer.  What the theorems use of the library are hypotheses on that record.  As the result of an
  operation \<open>None\<close> is undefined behaviour: \<open>Execute\<close> makes a \<open>std::string\<close> of the error message without a test
  for null.

  The locale \<open>pooled_connection\<close> says what an implementation of \<open>IConnection\<close> has to do with its transaction
  flag so that the pool only ever holds connections without a transaction; it is interpreted here and
  in \<open>Mysql_Driver\<close>.
\<close>

section \<open>Connection objects as drivers of the pool\<close>

text \<open>A connection object answers a call and changes; the state of a pooled connection is what the calls in
  its history made of a new object.\<close>

type_synonym 's conn_class = "nat \<Rightarrow> db_call \<Rightarrow> 's \<Rightarrow> (bool \<times> DbStatus option) \<times> 's"

definition replay :: "'s conn_class \<Rightarrow> 's \<Rightarrow> nat \<Rightarrow> db_call list \<Rightarrow> 's" where
  "replay f s0 c h = foldr (\<lambda>k s. snd (f c k s)) h s0"

definition object_driver :: "'s conn_class \<Rightarrow> 's \<Rightarrow> driver" where
  "object_driver f s0 = \<lparr>drv_create = (\<lambda>_. True),
     drv_bool = (\<lambda>c h k. fst (fst (f c k (replay f s0 c h)))),
     drv_status = (\<lambda>c h k. snd (fst (f c k (replay f s0 c h))))\<rparr>"

lemma replay_simps [simp]: "replay f s0 c [] = s0" "replay f s0 c (k # h) = snd (f c k (replay f s0 c h))"
  by (simp_all add: replay_def)

locale pooled_connection =
  fixes f :: "'s conn_class" and s0 :: 's and flag :: "'s \<Rightarrow> bool"
  assumes flag_new: "\<not> flag s0"
    and flag_begin: "flag (snd (f c CallBegin s)) \<Longrightarrow> succeeded (snd (fst (f c CallBegin s))) \<or> flag s"
    and flag_commit: "flag (snd (f c CallCommit s)) \<Longrightarrow> \<not> succeeded (snd (fst (f c CallCommit s))) \<and> flag s"
    and flag_rollback: "\<not> flag (snd (f c CallRollback s))"
    and flag_other: "k \<notin> {CallBegin, CallCommit, CallRollback} \<Longrightarrow> flag (snd (f c k s)) \<Longrightarrow> flag s"
begin

lemma flag_open: "flag (replay f s0 c h) \<Longrightarrow> open_tx (object_driver f s0) c h"
proof (induction h)
  case (Cons k h)
  then show ?case
    using flag_begin [of c "replay f s0 c h"] flag_commit [of c "replay f s0 c h"] flag_rollback [of c "replay f s0 c h"]
      flag_other [of k c "replay f s0 c h"]
    by (cases k) (auto simp: object_driver_def)
qed (simp add: flag_new)

text \<open>In a pool over such objects no idle connection has its flag set.\<close>

lemma idle_unflagged:
  assumes "cqueue_laws Q cont" "cont q = {#}" "0 \<le> n" "db_run (object_driver f s0) Q es (DatabaseImpl q n timeout) = Some s"
    and "c \<in># cont (dpool s)"
  shows "\<not> flag (replay f s0 c (hist c s))"
proof
  assume "flag (replay f s0 c (hist c s))"
  then have "open_tx (object_driver f s0) c (hist c s)" by (rule flag_open)
  moreover have "db_ok (object_driver f s0) cont s"
    using db_run_ok [OF assms(1) _ assms(4)] new_db_ok [of cont q n _ timeout] assms(2,3) by blast
  then have inv: "conns_ok cont {#} s" "tx_ok (object_driver f s0) {#} s" by (simp_all add: db_ok_def db_inv_def)
  ultimately obtain i where "(i, Transaction c False) \<in> set (objs s)" by (auto simp: tx_ok_def)
  then show False using used_not_idle(1) [OF inv(1)] assms(5) by fastforce
qed

end

section \<open>The sqlite3 library\<close>

datatype sqlite_rc = SQLITE_ROW | SQLITE_DONE | SQLITE_FAIL

datatype 'f sql_value = SqlInt int | SqlText string | SqlDouble 'f

record ('d, 'f) sqlite3 =
  sqlite3_open_v2 :: "string \<Rightarrow> bool \<times> 'd option"
  sqlite3_busy_timeout :: "int \<Rightarrow> 'd option \<Rightarrow> 'd option"
  sqlite3_exec :: "string \<Rightarrow> 'd option \<Rightarrow> string option option \<times> 'd option"  \<comment> \<open>\<open>None\<close> for \<open>SQLITE_OK\<close>, else the message\<close>
  sqlite3_prepare_v2 :: "string \<Rightarrow> 'd option \<Rightarrow> nat option option \<times> 'd option"
  sqlite3_step :: "nat option \<Rightarrow> 'd option \<Rightarrow> sqlite_rc \<times> 'd option"
  sqlite3_reset :: "nat option \<Rightarrow> 'd option \<Rightarrow> 'd option"
  sqlite3_finalize :: "nat option \<Rightarrow> 'd option \<Rightarrow> 'd option"
  sqlite3_bind :: "nat option \<Rightarrow> int \<Rightarrow> 'f sql_value \<Rightarrow> 'd option \<Rightarrow> bool \<times> 'd option"
  sqlite3_column_int :: "nat option \<Rightarrow> int \<Rightarrow> 'd option \<Rightarrow> int"
  sqlite3_column_text :: "nat option \<Rightarrow> int \<Rightarrow> 'd option \<Rightarrow> string option"
  sqlite3_column_double :: "nat option \<Rightarrow> int \<Rightarrow> 'd option \<Rightarrow> 'f"
  sqlite3_errmsg :: "'d option \<Rightarrow> string"

definition Status_Ok :: DbStatus where "Status_Ok = (DB_OK, '''')"

definition Status_Error :: "string \<Rightarrow> DbStatus" where "Status_Error msg = (DB_ERROR, msg)"

section \<open>Result sets\<close>

record sqlite_rs =
  rs_stmt :: "nat option"
  rs_ownsStmt :: bool
  rs_firstRowPending :: bool
  rs_isEof :: bool

definition SQLiteResultSet :: "nat option \<Rightarrow> bool \<Rightarrow> bool \<Rightarrow> bool \<Rightarrow> sqlite_rs" where
  "SQLiteResultSet stmt hasFirstRow isEof ownsStmt =
     \<lparr>rs_stmt = stmt, rs_ownsStmt = ownsStmt, rs_firstRowPending = hasFirstRow, rs_isEof = isEof\<rparr>"

definition SQLiteResultSet_destroy :: "('d, 'f) sqlite3 \<Rightarrow> sqlite_rs \<Rightarrow> 'd option \<Rightarrow> 'd option" where
  "SQLiteResultSet_destroy A rs d =
     (if rs_stmt rs = None then d
      else if rs_ownsStmt rs then sqlite3_finalize A (rs_stmt rs) d else sqlite3_reset A (rs_stmt rs) d)"

definition Next :: "('d, 'f) sqlite3 \<Rightarrow> sqlite_rs \<Rightarrow> 'd option \<Rightarrow> bool \<times> sqlite_rs \<times> 'd option" where
  "Next A rs d =
     (if rs_firstRowPending rs then (True, rs\<lparr>rs_firstRowPending := False\<rparr>, d)
      else if rs_isEof rs then (False, rs, d)
      else case sqlite3_step A (rs_stmt rs) d of (rc, d') \<Rightarrow>
        if rc = SQLITE_ROW then (True, rs, d') else (False, rs\<lparr>rs_isEof := True\<rparr>, d'))"

definition Rs_GetInt :: "('d, 'f) sqlite3 \<Rightarrow> int \<Rightarrow> sqlite_rs \<Rightarrow> 'd option \<Rightarrow> int" where
  "Rs_GetInt A idx rs d = sqlite3_column_int A (rs_stmt rs) idx d"

definition Rs_GetString :: "('d, 'f) sqlite3 \<Rightarrow> int \<Rightarrow> sqlite_rs \<Rightarrow> 'd option \<Rightarrow> string" where
  "Rs_GetString A idx rs d = (case sqlite3_column_text A (rs_stmt rs) idx d of Some t \<Rightarrow> c_str t | None \<Rightarrow> '''')"

definition Rs_GetDouble :: "('d, 'f) sqlite3 \<Rightarrow> int \<Rightarrow> sqlite_rs \<Rightarrow> 'd option \<Rightarrow> 'f" where
  "Rs_GetDouble A idx rs d = sqlite3_column_double A (rs_stmt rs) idx d"

section \<open>Prepared statements\<close>

definition Stmt_destroy :: "('d, 'f) sqlite3 \<Rightarrow> nat option \<Rightarrow> 'd option \<Rightarrow> 'd option" where
  "Stmt_destroy A st d = (if st = None then d else sqlite3_finalize A st d)"

definition bind_value :: "('d, 'f) sqlite3 \<Rightarrow> string \<Rightarrow> nat option \<Rightarrow> int \<Rightarrow> 'f sql_value \<Rightarrow> 'd option \<Rightarrow> DbStatus \<times> 'd option" where
  "bind_value A msg st idx v d =
     (case sqlite3_bind A st (idx + 1) v d of (ok, d') \<Rightarrow> (if ok then Status_Ok else Status_Error msg, d'))"

definition BindInt :: "('d, 'f) sqlite3 \<Rightarrow> nat option \<Rightarrow> int \<Rightarrow> int \<Rightarrow> 'd option \<Rightarrow> DbStatus \<times> 'd option" where
  "BindInt A st idx v d = bind_value A ''Failed to bind int'' st idx (SqlInt v) d"

definition BindString :: "('d, 'f) sqlite3 \<Rightarrow> nat option \<Rightarrow> int \<Rightarrow> string \<Rightarrow> 'd option \<Rightarrow> DbStatus \<times> 'd option" where
  "BindString A st idx v d = bind_value A ''Failed to bind string'' st idx (SqlText (c_str v)) d"

definition BindDouble :: "('d, 'f) sqlite3 \<Rightarrow> nat option \<Rightarrow> int \<Rightarrow> 'f \<Rightarrow> 'd option \<Rightarrow> DbStatus \<times> 'd option" where
  "BindDouble A st idx v d = bind_value A ''Failed to bind double'' st idx (SqlDouble v) d"

definition ExecuteQuery :: "('d, 'f) sqlite3 \<Rightarrow> nat option \<Rightarrow> 'd option \<Rightarrow> (DbStatus \<times> sqlite_rs option) \<times> 'd option" where
  "ExecuteQuery A st d =
     (case sqlite3_step A st (sqlite3_reset A st d) of (rc, d') \<Rightarrow>
        if rc = SQLITE_ROW then ((Status_Ok, Some (SQLiteResultSet st True False False)), d')
        else if rc = SQLITE_DONE then ((Status_Ok, Some (SQLiteResultSet st False True False)), d')
        else (((DB_INVALID_QUERY, sqlite3_errmsg A d'), None), d'))"

definition ExecuteUpdate :: "('d, 'f) sqlite3 \<Rightarrow> nat option \<Rightarrow> 'd option \<Rightarrow> DbStatus \<times> 'd option" where
  "ExecuteUpdate A st d =
     (case sqlite3_step A st d of (rc, d') \<Rightarrow>
        (if rc \<noteq> SQLITE_DONE \<and> rc \<noteq> SQLITE_ROW then Status_Error ''Update failed'' else Status_Ok, sqlite3_reset A st d'))"

section \<open>Connections\<close>

record 'd sqlite_conn =
  sc_db :: "'d option"
  sc_isConnected :: bool
  sc_inTransaction :: bool

definition SQLiteConnection :: "'d sqlite_conn" where
  "SQLiteConnection = \<lparr>sc_db = None, sc_isConnected = False, sc_inTransaction = False\<rparr>"

definition Sqlite_Connect :: "('d, 'f) sqlite3 \<Rightarrow> string \<Rightarrow> 'd sqlite_conn \<Rightarrow> bool \<times> 'd sqlite_conn" where
  "Sqlite_Connect A connStr c =
     (case sqlite3_open_v2 A connStr of (ok, d) \<Rightarrow>
        if \<not> ok then (False, c\<lparr>sc_db := d\<rparr>)
        else let d1 = sqlite3_busy_timeout A 5000 d;
                 d2 = snd (sqlite3_exec A ''PRAGMA journal_mode=WAL;'' d1);
                 d3 = snd (sqlite3_exec A ''PRAGMA synchronous=NORMAL;'' d2)
             in (True, c\<lparr>sc_db := d3, sc_isConnected := True\<rparr>))"

definition Sqlite_Disconnect :: "'d sqlite_conn \<Rightarrow> 'd sqlite_conn" where
  "Sqlite_Disconnect c = c\<lparr>sc_db := None, sc_isConnected := False\<rparr>"

definition Sqlite_IsConnected :: "'d sqlite_conn \<Rightarrow> bool" where
  "Sqlite_IsConnected c = sc_isConnected c"

definition Sqlite_Ping :: "'d sqlite_conn \<Rightarrow> bool" where
  "Sqlite_Ping c = sc_isConnected c"

definition Sqlite_Execute :: "('d, 'f) sqlite3 \<Rightarrow> string \<Rightarrow> 'd sqlite_conn \<Rightarrow> DbStatus option \<times> 'd sqlite_conn" where
  "Sqlite_Execute A sql c =
     (case sqlite3_exec A (c_str sql) (sc_db c) of (err, d) \<Rightarrow>
        (case err of None \<Rightarrow> Some Status_Ok | Some None \<Rightarrow> None | Some (Some msg) \<Rightarrow> Some (Status_Error (c_str msg)), c\<lparr>sc_db := d\<rparr>))"

definition Sqlite_Query :: "('d, 'f) sqlite3 \<Rightarrow> string \<Rightarrow> 'd sqlite_conn \<Rightarrow> (DbStatus \<times> sqlite_rs option) \<times> 'd sqlite_conn" where
  "Sqlite_Query A sql c =
     (case sqlite3_prepare_v2 A (c_str sql) (sc_db c) of
        (None, d) \<Rightarrow> (((DB_INVALID_QUERY, sqlite3_errmsg A d), None), c\<lparr>sc_db := d\<rparr>)
      | (Some st, d) \<Rightarrow> (case sqlite3_step A st d of (rc, d1) \<Rightarrow>
          if rc \<noteq> SQLITE_ROW \<and> rc \<noteq> SQLITE_DONE
          then let d2 = sqlite3_finalize A st d1 in (((DB_INVALID_QUERY, sqlite3_errmsg A d2), None), c\<lparr>sc_db := d2\<rparr>)
          else ((Status_Ok, Some (SQLiteResultSet st (rc = SQLITE_ROW) (rc = SQLITE_DONE) True)), c\<lparr>sc_db := d1\<rparr>)))"

definition Sqlite_Prepare :: "('d, 'f) sqlite3 \<Rightarrow> string \<Rightarrow> 'd sqlite_conn \<Rightarrow> (DbStatus \<times> nat option option) \<times> 'd sqlite_conn" where
  "Sqlite_Prepare A sql c =
     (case sqlite3_prepare_v2 A (c_str sql) (sc_db c) of
        (None, d) \<Rightarrow> (((DB_INVALID_QUERY, sqlite3_errmsg A d), None), c\<lparr>sc_db := d\<rparr>)
      | (Some st, d) \<Rightarrow> ((Status_Ok, Some st), c\<lparr>sc_db := d\<rparr>))"

definition Sqlite_BeginTransaction :: "('d, 'f) sqlite3 \<Rightarrow> 'd sqlite_conn \<Rightarrow> DbStatus option \<times> 'd sqlite_conn" where
  "Sqlite_BeginTransaction A c =
     (if sc_inTransaction c then (Some (DB_TRANSACTION_ACTIVE, ''Transaction already active''), c)
      else case Sqlite_Execute A ''BEGIN TRANSACTION;'' c of (st, c1) \<Rightarrow>
        (st, if succeeded st then c1\<lparr>sc_inTransaction := True\<rparr> else c1))"

definition Sqlite_Commit :: "('d, 'f) sqlite3 \<Rightarrow> 'd sqlite_conn \<Rightarrow> DbStatus option \<times> 'd sqlite_conn" where
  "Sqlite_Commit A c =
     (if \<not> sc_inTransaction c then (Some (Status_Error ''No active transaction''), c)
      else case Sqlite_Execute A ''COMMIT;'' c of (st, c1) \<Rightarrow>
        (st, if succeeded st then c1\<lparr>sc_inTransaction := False\<rparr> else c1))"

definition Sqlite_Rollback :: "('d, 'f) sqlite3 \<Rightarrow> 'd sqlite_conn \<Rightarrow> DbStatus option \<times> 'd sqlite_conn" where
  "Sqlite_Rollback A c =
     (if \<not> sc_inTransaction c then (Some (Status_Error ''No active transaction''), c)
      else case Sqlite_Execute A ''ROLLBACK;'' c of (st, c1) \<Rightarrow> (st, c1\<lparr>sc_inTransaction := False\<rparr>))"

definition Sqlite_ResetState :: "('d, 'f) sqlite3 \<Rightarrow> 'd sqlite_conn \<Rightarrow> 'd sqlite_conn" where
  "Sqlite_ResetState A c = (if sc_inTransaction c then snd (Sqlite_Rollback A c) else c)"

text \<open>\<open>SQLiteTransaction\<close> over a connection: the destructor rolls back what was not committed.\<close>

definition SQLiteTransaction_Commit :: "('d, 'f) sqlite3 \<Rightarrow> bool \<Rightarrow> 'd sqlite_conn \<Rightarrow> DbStatus option \<times> bool \<times> 'd sqlite_conn" where
  "SQLiteTransaction_Commit A committed c =
     (case Sqlite_Commit A c of (st, c1) \<Rightarrow> (st, committed \<or> succeeded st, c1))"

definition SQLiteTransaction_destroy :: "('d, 'f) sqlite3 \<Rightarrow> bool \<Rightarrow> 'd sqlite_conn \<Rightarrow> 'd sqlite_conn" where
  "SQLiteTransaction_destroy A committed c = (if \<not> committed then snd (Sqlite_Rollback A c) else c)"

text \<open>The virtual calls of \<open>IConnection\<close>.  Between two calls the statements and result sets of the connection act on
  the handle: \<open>U\<close>.\<close>

definition sqlite_call :: "string \<Rightarrow> (nat \<Rightarrow> ('d, 'f) sqlite3) \<Rightarrow> (nat \<Rightarrow> 'd option \<Rightarrow> 'd option) \<Rightarrow> 'd sqlite_conn conn_class" where
  "sqlite_call connStr API U n k c0 = (let A = API n; c = c0\<lparr>sc_db := U n (sc_db c0)\<rparr> in case k of
      Connect \<Rightarrow> (case Sqlite_Connect A connStr c of (b, c1) \<Rightarrow> ((b, None), c1))
    | Disconnect \<Rightarrow> ((True, None), Sqlite_Disconnect c)
    | IsConnected \<Rightarrow> ((Sqlite_IsConnected c, None), c)
    | Ping \<Rightarrow> ((Sqlite_Ping c, None), c)
    | CallExecute sql \<Rightarrow> (case Sqlite_Execute A sql c of (st, c1) \<Rightarrow> ((True, st), c1))
    | CallQuery sql \<Rightarrow> (case Sqlite_Query A sql c of ((st, _), c1) \<Rightarrow> ((True, Some st), c1))
    | CallPrepare sql \<Rightarrow> (case Sqlite_Prepare A sql c of ((st, _), c1) \<Rightarrow> ((True, Some st), c1))
    | CallBegin \<Rightarrow> (case Sqlite_BeginTransaction A c of (st, c1) \<Rightarrow> ((True, st), c1))
    | CallCommit \<Rightarrow> (case Sqlite_Commit A c of (st, c1) \<Rightarrow> ((True, st), c1))
    | CallRollback \<Rightarrow> (case Sqlite_Rollback A c of (st, c1) \<Rightarrow> ((True, st), c1))
    | ResetState \<Rightarrow> ((True, None), Sqlite_ResetState A c))"

definition CreateSQLite :: "'q \<Rightarrow> int \<Rightarrow> 'q dbpool" where
  "CreateSQLite q dbWorkerCount = DatabaseImpl q dbWorkerCount 5000"

section \<open>Pooled SQLite connections\<close>

lemmas sqlite_ops = Sqlite_Connect_def Sqlite_Disconnect_def Sqlite_Query_def Sqlite_Prepare_def Sqlite_Execute_def
  Sqlite_BeginTransaction_def Sqlite_Commit_def Sqlite_Rollback_def Sqlite_ResetState_def

lemma succeeded_simps [simp]:
  "succeeded (Some Status_Ok)" "\<not> succeeded (Some (Status_Error m))" "\<not> succeeded None" "\<not> succeeded (Some (DB_TRANSACTION_ACTIVE, m))"
  by (simp_all add: succeeded_def IsOk_def Status_Ok_def Status_Error_def)

interpretation sqlite: pooled_connection "sqlite_call connStr API U" SQLiteConnection sc_inTransaction for connStr API U
proof
  show "\<not> sc_inTransaction SQLiteConnection" by (simp add: SQLiteConnection_def)
qed (auto simp: sqlite_call_def sqlite_ops Let_def split: db_call.splits prod.splits option.splits if_splits)

text \<open>
  What the library's documentation says about transactions: \<open>in_tx\<close> is the negation of \<^verbatim>\<open>sqlite3_get_autocommit\<close>.
  A statement that is not transaction control (\<open>plain\<close>) does not begin one, a failed \<open>BEGIN\<close> or \<open>COMMIT\<close> does not
  either, and after \<open>COMMIT\<close> with success or \<open>ROLLBACK\<close> none is open.
\<close>

definition sqlite_tx_laws :: "('d, 'f) sqlite3 \<Rightarrow> ('d option \<Rightarrow> 'd option) \<Rightarrow> (string \<Rightarrow> bool) \<Rightarrow> ('d option \<Rightarrow> bool) \<Rightarrow> bool" where
  "sqlite_tx_laws A u plain in_tx \<longleftrightarrow>
     \<not> in_tx None \<and> (\<forall>s. \<not> in_tx (snd (sqlite3_open_v2 A s))) \<and>
     (\<forall>d. in_tx (u d) \<longrightarrow> in_tx d) \<and> (\<forall>t d. in_tx (sqlite3_busy_timeout A t d) \<longrightarrow> in_tx d) \<and>
     plain ''PRAGMA journal_mode=WAL;'' \<and> plain ''PRAGMA synchronous=NORMAL;'' \<and>
     (\<forall>sql d. plain sql \<longrightarrow> in_tx (snd (sqlite3_exec A sql d)) \<longrightarrow> in_tx d) \<and>
     (\<forall>sql d. in_tx (snd (sqlite3_prepare_v2 A sql d)) \<longrightarrow> in_tx d) \<and>
     (\<forall>sql d st d'. plain sql \<longrightarrow> sqlite3_prepare_v2 A sql d = (Some st, d') \<longrightarrow> in_tx (snd (sqlite3_step A st d')) \<longrightarrow> in_tx d') \<and>
     (\<forall>st d. in_tx (sqlite3_finalize A st d) \<longrightarrow> in_tx d) \<and>
     (\<forall>d. fst (sqlite3_exec A ''BEGIN TRANSACTION;'' d) \<noteq> None \<longrightarrow> in_tx (snd (sqlite3_exec A ''BEGIN TRANSACTION;'' d)) \<longrightarrow> in_tx d) \<and>
     (\<forall>d. in_tx (snd (sqlite3_exec A ''COMMIT;'' d)) \<longrightarrow> fst (sqlite3_exec A ''COMMIT;'' d) \<noteq> None \<and> in_tx d) \<and>
     (\<forall>d. \<not> in_tx (snd (sqlite3_exec A ''ROLLBACK;'' d)))"

fun plain_call :: "(string \<Rightarrow> bool) \<Rightarrow> db_call \<Rightarrow> bool" where
  "plain_call P (CallExecute sql) \<longleftrightarrow> P (c_str sql)"
| "plain_call P (CallQuery sql) \<longleftrightarrow> P (c_str sql)"
| "plain_call P _ \<longleftrightarrow> True"

lemma c_str_texts [simp]:
  "c_str ''BEGIN TRANSACTION;'' = ''BEGIN TRANSACTION;''" "c_str ''COMMIT;'' = ''COMMIT;''" "c_str ''ROLLBACK;'' = ''ROLLBACK;''"
  by (simp_all add: c_str_def)

lemma sqlite_tx_lawsD:
  assumes "sqlite_tx_laws A u plain in_tx"
  shows "\<not> in_tx None" "\<not> in_tx (snd (sqlite3_open_v2 A s))" "in_tx (u d) \<Longrightarrow> in_tx d" "in_tx (sqlite3_busy_timeout A t d) \<Longrightarrow> in_tx d"
    "plain ''PRAGMA journal_mode=WAL;''" "plain ''PRAGMA synchronous=NORMAL;''"
    "in_tx (snd (sqlite3_exec A sql d)) \<Longrightarrow> plain sql \<Longrightarrow> in_tx d"
    "in_tx (snd (sqlite3_prepare_v2 A sql d)) \<Longrightarrow> in_tx d"
    "in_tx (snd (sqlite3_step A st (snd (sqlite3_prepare_v2 A sql d)))) \<Longrightarrow> plain sql \<Longrightarrow> fst (sqlite3_prepare_v2 A sql d) = Some st \<Longrightarrow> in_tx d"
    "in_tx (sqlite3_finalize A st d) \<Longrightarrow> in_tx d"
    "in_tx (snd (sqlite3_exec A ''BEGIN TRANSACTION;'' d)) \<Longrightarrow> fst (sqlite3_exec A ''BEGIN TRANSACTION;'' d) = None \<or> in_tx d"
    "in_tx (snd (sqlite3_exec A ''COMMIT;'' d)) \<Longrightarrow> fst (sqlite3_exec A ''COMMIT;'' d) \<noteq> None \<and> in_tx d"
    "\<not> in_tx (snd (sqlite3_exec A ''ROLLBACK;'' d))"
  using assms unfolding sqlite_tx_laws_def by (metis prod.collapse)+

lemma sqlite_engine_flag:
  assumes L: "sqlite_tx_laws (API n) (U n) plain in_tx" and "plain_call plain k"
    and "in_tx (sc_db c) \<longrightarrow> sc_inTransaction c" and "in_tx (sc_db (snd (sqlite_call connStr API U n k c)))"
  shows "sc_inTransaction (snd (sqlite_call connStr API U n k c))"
proof -
  note laws = sqlite_tx_lawsD [OF L]
  note d = laws(3,4,7-10,12)
  show ?thesis
  proof (cases k)
    case Connect
    have "\<not> in_tx (snd (sqlite3_exec (API n) ''PRAGMA synchronous=NORMAL;''
        (snd (sqlite3_exec (API n) ''PRAGMA journal_mode=WAL;'' (sqlite3_busy_timeout (API n) 5000 (snd (sqlite3_open_v2 (API n) connStr)))))))"
      using laws(2) [of connStr] laws(4) laws(7) laws(5,6) by blast
    then show ?thesis using Connect assms(4) laws(2) [of connStr]
      by (auto simp: sqlite_call_def sqlite_ops Let_def case_prod_beta split: if_splits)
  qed (use assms(2-4) laws(1,13) in \<open>auto simp: sqlite_call_def sqlite_ops Let_def case_prod_beta dest: d dest!: laws(11) split: if_splits option.splits\<close>)
qed

lemma sqlite_replay_flag:
  assumes "sqlite_tx_laws (API n) (U n) plain in_tx" "list_all (plain_call plain) h"
  shows "in_tx (sc_db (replay (sqlite_call connStr API U) SQLiteConnection n h)) \<longrightarrow>
    sc_inTransaction (replay (sqlite_call connStr API U) SQLiteConnection n h)"
  using assms(2)
proof (induction h)
  case Nil
  then show ?case using sqlite_tx_lawsD(1) [OF assms(1)] by (simp add: SQLiteConnection_def)
next
  case (Cons k h)
  then show ?case using sqlite_engine_flag [where API = API and U = U and n = n and connStr = connStr, OF assms(1), of k "replay (sqlite_call connStr API U) SQLiteConnection n h"] by simp
qed


text \<open>A small library: one table with the rows 1, 2 and 3; the state is whether a transaction is open, the
  rows still to come and the current one.\<close>

type_synonym toy_db = "bool \<times> nat list \<times> nat option"

definition toy_exec :: "string \<Rightarrow> toy_db option \<Rightarrow> string option option \<times> toy_db option" where
  "toy_exec sql d = (case d of None \<Rightarrow> (Some (Some ''bad parameter''), None)
     | Some (tx, r) \<Rightarrow>
         if sql = ''BEGIN TRANSACTION;'' then (if tx then (Some (Some ''nested''), d) else (None, Some (True, r)))
         else if sql = ''COMMIT;'' \<or> sql = ''ROLLBACK;'' then (if tx then (None, Some (False, r)) else (Some (Some ''none''), d))
         else (None, d))"

definition toy_step :: "nat option \<Rightarrow> toy_db option \<Rightarrow> sqlite_rc \<times> toy_db option" where
  "toy_step st d = (case (st, d) of
      (Some _, Some (tx, r # rs, cur)) \<Rightarrow> (SQLITE_ROW, Some (tx, rs, Some r))
    | (Some _, Some (tx, [], cur)) \<Rightarrow> (SQLITE_DONE, Some (tx, [], None))
    | _ \<Rightarrow> (SQLITE_FAIL, d))"

definition toy_rewind :: "toy_db option \<Rightarrow> toy_db option" where
  "toy_rewind d = map_option (\<lambda>(tx, _). (tx, [1, 2, 3], None)) d"

definition toy_sqlite :: "(toy_db, int) sqlite3" where
  "toy_sqlite = \<lparr>sqlite3_open_v2 = (\<lambda>_. (True, Some (False, [], None))), sqlite3_busy_timeout = (\<lambda>_ d. d), sqlite3_exec = toy_exec,
     sqlite3_prepare_v2 = (\<lambda>_ d. (Some (Some 0), toy_rewind d)), sqlite3_step = toy_step, sqlite3_reset = (\<lambda>_ d. toy_rewind d),
     sqlite3_finalize = (\<lambda>_ d. d), sqlite3_bind = (\<lambda>_ _ _ d. (True, d)),
     sqlite3_column_int = (\<lambda>_ _ d. case d of Some (_, _, Some r) \<Rightarrow> int r | _ \<Rightarrow> 0),
     sqlite3_column_text = (\<lambda>_ _ _. None), sqlite3_column_double = (\<lambda>_ _ _. 0), sqlite3_errmsg = (\<lambda>_. ''error'')\<rparr>"

definition toy_in_tx :: "toy_db option \<Rightarrow> bool" where
  "toy_in_tx d \<longleftrightarrow> (case d of None \<Rightarrow> False | Some (tx, _) \<Rightarrow> tx)"

definition toy_plain :: "string \<Rightarrow> bool" where
  "toy_plain sql \<longleftrightarrow> sql \<noteq> ''BEGIN TRANSACTION;''"

lemma toy_sqlite_laws: "sqlite_tx_laws toy_sqlite (\<lambda>d. d) toy_plain toy_in_tx"
  by (auto simp: sqlite_tx_laws_def toy_sqlite_def toy_exec_def toy_step_def toy_rewind_def toy_in_tx_def toy_plain_def
      split: option.splits if_splits list.splits)

definition toy_ops :: "db_op list" where
  "toy_ops = [OpBegin, OpQuery ''SELECT'', OpDestroy 0, OpExecute ''INSERT'']"

definition toy_pool :: "nat list dbpool" where
  "toy_pool = the (db_run (object_driver (sqlite_call ''db'' (\<lambda>_. toy_sqlite) (\<lambda>_ d. d)) SQLiteConnection) list_queue toy_ops (CreateSQLite [] 2))"

declare take_valid.simps [code]

lemma toy_pool_run:
  "db_run (object_driver (sqlite_call ''db'' (\<lambda>_. toy_sqlite) (\<lambda>_ d. d)) SQLiteConnection) list_queue toy_ops (CreateSQLite [] 2) = Some toy_pool"
  "dpool toy_pool = [0]" "list_all (plain_call toy_plain) (hist 0 toy_pool)"
proof -
  have "\<not> Option.is_none (db_run (object_driver (sqlite_call ''db'' (\<lambda>_. toy_sqlite) (\<lambda>_ d. d)) SQLiteConnection) list_queue toy_ops (CreateSQLite [] 2))"
    by code_simp
  then show "db_run (object_driver (sqlite_call ''db'' (\<lambda>_. toy_sqlite) (\<lambda>_ d. d)) SQLiteConnection) list_queue toy_ops (CreateSQLite [] 2) = Some toy_pool"
    by (simp add: toy_pool_def Option.is_none_def)
  show "dpool toy_pool = [0]" "list_all (plain_call toy_plain) (hist 0 toy_pool)" by code_simp+
qed


section \<open>Reading a result\<close>

text \<open>
  What the documentation says about a cursor: \<open>rows st d\<close> are the rows the statement has still to deliver, \<open>cur st d\<close>
  is the row the column functions read.  Each step moves to the next row, and after the last one
  answers \<open>SQLITE_DONE\<close>.  What a further step would do (it starts the statement again) is left open.
\<close>

definition cursor_laws :: "('d, 'f) sqlite3 \<Rightarrow> (nat \<Rightarrow> 'd option \<Rightarrow> 'r list) \<Rightarrow> (nat \<Rightarrow> 'd option \<Rightarrow> 'r) \<Rightarrow> bool" where
  "cursor_laws A rows cur \<longleftrightarrow> (\<forall>st d. case rows st d of
      [] \<Rightarrow> fst (sqlite3_step A (Some st) d) = SQLITE_DONE
    | r # rs \<Rightarrow> fst (sqlite3_step A (Some st) d) = SQLITE_ROW \<and> rows st (snd (sqlite3_step A (Some st) d)) = rs \<and>
        cur st (snd (sqlite3_step A (Some st) d)) = r)"

text \<open>\<open>n\<close> calls of \<open>Next\<close>, with the row current after each that returned true.\<close>

fun fetch :: "('d, 'f) sqlite3 \<Rightarrow> (nat \<Rightarrow> 'd option \<Rightarrow> 'r) \<Rightarrow> nat \<Rightarrow> nat \<Rightarrow> sqlite_rs \<Rightarrow> 'd option \<Rightarrow> 'r option list" where
  "fetch A cur st 0 rs d = []"
| "fetch A cur st (Suc n) rs d = (case Next A rs d of (more_rows, rs', d') \<Rightarrow>
     (if more_rows then Some (cur st d') else None) # fetch A cur st n rs' d')"

definition answers :: "nat \<Rightarrow> 'r list \<Rightarrow> 'r option list" where
  "answers n R = map Some (take n R) @ replicate (n - length R) None"

lemma fetch_eof: "rs_isEof rs \<Longrightarrow> \<not> rs_firstRowPending rs \<Longrightarrow> fetch A cur st n rs d = answers n []"
  by (induction n) (simp_all add: Next_def answers_def)

lemma fetch_rest:
  assumes "cursor_laws A rows cur" "rs_stmt rs = Some st" "\<not> rs_isEof rs" "\<not> rs_firstRowPending rs"
  shows "fetch A cur st n rs d = answers n (rows st d)"
proof (induction n arbitrary: d)
  case (Suc n)
  have L: "case rows st d of [] \<Rightarrow> fst (sqlite3_step A (Some st) d) = SQLITE_DONE
    | r # rs \<Rightarrow> fst (sqlite3_step A (Some st) d) = SQLITE_ROW \<and> rows st (snd (sqlite3_step A (Some st) d)) = rs \<and>
        cur st (snd (sqlite3_step A (Some st) d)) = r"
    using assms(1) by (simp add: cursor_laws_def)
  show ?case
  proof (cases "rows st d")
    case Nil
    then show ?thesis using L assms fetch_eof [of "rs\<lparr>rs_isEof := True\<rparr>" A cur st n "snd (sqlite3_step A (Some st) d)"]
      by (simp add: Next_def answers_def case_prod_beta)
  next
    case (Cons r R)
    then show ?thesis using L assms Suc.IH [of "snd (sqlite3_step A (Some st) d)"] by (simp add: Next_def answers_def case_prod_beta)
  qed
qed (simp add: answers_def)

lemma fetch_prefetched:
  assumes "cursor_laws A rows cur" "rc = fst (sqlite3_step A (Some st) d)"
  shows "fetch A cur st n (SQLiteResultSet (Some st) (rc = SQLITE_ROW) (rc = SQLITE_DONE) owns) (snd (sqlite3_step A (Some st) d))
    = answers n (rows st d)"
proof (cases "rows st d")
  case Nil
  then have "rc = SQLITE_DONE" using assms spec [OF spec [OF assms(1) [unfolded cursor_laws_def], of st], of d] by simp
  then show ?thesis using Nil by (simp add: fetch_eof SQLiteResultSet_def)
next
  case (Cons r R)
  then have s: "rc = SQLITE_ROW" "rows st (snd (sqlite3_step A (Some st) d)) = R" "cur st (snd (sqlite3_step A (Some st) d)) = r"
    using assms spec [OF spec [OF assms(1) [unfolded cursor_laws_def], of st], of d] by simp_all
  have "fetch A cur st k (SQLiteResultSet (Some st) False False owns) (snd (sqlite3_step A (Some st) d)) = answers k R" for k
    using fetch_rest [OF assms(1), of "SQLiteResultSet (Some st) False False owns" st k "snd (sqlite3_step A (Some st) d)"] s(2)
    by (simp add: SQLiteResultSet_def)
  then show ?thesis using Cons s by (cases n) (simp_all add: Next_def answers_def SQLiteResultSet_def)
qed


definition toy_rows :: "nat \<Rightarrow> toy_db option \<Rightarrow> nat list" where
  "toy_rows st d = (case d of Some (_, r, _) \<Rightarrow> r | None \<Rightarrow> [])"

text \<open>The small library with a handle that is always there.\<close>

definition open_sqlite :: "(toy_db, int) sqlite3" where
  "open_sqlite = toy_sqlite\<lparr>sqlite3_step := (\<lambda>st d. toy_step st (case d of None \<Rightarrow> Some (False, [], None) | Some _ \<Rightarrow> d))\<rparr>"

lemma open_sqlite_cursor: "cursor_laws open_sqlite toy_rows (\<lambda>st d. case d of Some (_, _, Some r) \<Rightarrow> r | _ \<Rightarrow> 0)"
  by (auto simp: cursor_laws_def open_sqlite_def toy_rows_def toy_step_def split: list.splits option.splits)


text \<open>An error in the middle of a result looks like its end.\<close>

lemma error_looks_like_end:
  assumes "fst (sqlite3_step A st d) = SQLITE_FAIL"
  shows "Next A (SQLiteResultSet st False False owns) d = (False, SQLiteResultSet st False True owns, snd (sqlite3_step A st d))"
  using assms by (simp add: Next_def SQLiteResultSet_def case_prod_beta)

text \<open>Strings are bound and read up to the first zero byte.\<close>

lemma bound_string_cut: "BindString A st idx (s @ CHR 0x00 # t) d = BindString A st idx s d"
  by (simp add: BindString_def c_str_cut)

end
