(* ===== verification/Framework_Services.thy ===== *)
theory Framework_Services
  imports Text_Numbers Complex_Main "HOL-Library.AList" "HOL-Library.Char_ord" "HOL-Library.List_Lexorder"
begin

text \<open>
  Three services of the framework: the token bucket (\<open>Network/RateLimiter.h\<close>), the event bus (\<open>Events/EventBus.h\<close>) and
  the metrics (\<open>Metrics/MetricsCollector.cpp\<close>).

  Shown: in every window of time the bucket grants at most its capacity and what the window refills, and
  it refuses nothing it could grant; no subscription is lost however threads interleave in the
  copy-on-write of the bus, and a publication reaches exactly the listeners of one version; a
  counter is the sum of its increments.

  The numbers of the bucket are those of an ordered field; rounding of \<open>double\<close> is not modelled.
\<close>

section \<open>The token bucket\<close>

record 'f limiter =
  rl_refillRate :: 'f
  rl_capacity :: 'f
  rl_tokens :: 'f
  rl_lastRefillTime :: 'f   \<comment> \<open>of the steady clock, in seconds\<close>

definition RateLimiter :: "'f \<Rightarrow> 'f \<Rightarrow> 'f \<Rightarrow> 'f limiter" where
  "RateLimiter now rate burst = \<lparr>rl_refillRate = rate, rl_capacity = burst, rl_tokens = burst, rl_lastRefillTime = now\<rparr>"

definition refill :: "'f::linordered_field \<Rightarrow> 'f limiter \<Rightarrow> 'f limiter" where
  "refill now l =
     (let newTokens = (now - rl_lastRefillTime l) * rl_refillRate l
      in if newTokens > 0
         then l\<lparr>rl_tokens := min (rl_capacity l) (rl_tokens l + newTokens), rl_lastRefillTime := now\<rparr>
         else l)"

definition TryConsume :: "'f::linordered_field \<Rightarrow> 'f \<Rightarrow> 'f limiter \<Rightarrow> bool \<times> 'f limiter" where
  "TryConsume now amount l =
     (let l1 = refill now l
      in if rl_tokens l1 \<ge> amount then (True, l1\<lparr>rl_tokens := rl_tokens l1 - amount\<rparr>) else (False, l1))"

definition UpdateConfig :: "'f::linordered_field \<Rightarrow> 'f \<Rightarrow> 'f limiter \<Rightarrow> 'f limiter" where
  "UpdateConfig rate burst l =
     (let l1 = l\<lparr>rl_refillRate := rate, rl_capacity := burst\<rparr>
      in if rl_tokens l1 > burst then l1\<lparr>rl_tokens := burst\<rparr> else l1)"

text \<open>Requests as pairs of a time and an amount; the sum of the amounts granted and the bucket after them.\<close>

fun granted :: "('f::linordered_field \<times> 'f) list \<Rightarrow> 'f limiter \<Rightarrow> 'f \<times> 'f limiter" where
  "granted [] l = (0, l)"
| "granted ((now, amount) # reqs) l =
     (let (ok, l1) = TryConsume now amount l; (g, l2) = granted reqs l1 in ((if ok then amount else 0) + g, l2))"

text \<open>What the bucket could give out at a time.\<close>

definition available :: "'f::linordered_field \<Rightarrow> 'f limiter \<Rightarrow> 'f" where
  "available now l = min (rl_capacity l) (rl_tokens l + (now - rl_lastRefillTime l) * rl_refillRate l)"

definition limiter_ok :: "'f::linordered_field \<Rightarrow> 'f limiter \<Rightarrow> bool" where
  "limiter_ok now l \<longleftrightarrow> 0 \<le> rl_refillRate l \<and> 0 \<le> rl_tokens l \<and> rl_tokens l \<le> rl_capacity l \<and> rl_lastRefillTime l \<le> now"

lemma refill_available:
  assumes "limiter_ok now l"
  shows "rl_tokens (refill now l) = available now l" "available t (refill now l) = min (rl_capacity l) (available now l + (t - now) * rl_refillRate l)"
proof -
  define x where "x = (now - rl_lastRefillTime l) * rl_refillRate l"
  have p: "0 \<le> x" using assms by (simp add: x_def limiter_ok_def)
  have e: "(t - rl_lastRefillTime l) * rl_refillRate l = (t - now) * rl_refillRate l + x" by (simp add: x_def algebra_simps)
  show "rl_tokens (refill now l) = available now l"
    using assms p by (auto simp: refill_def available_def limiter_ok_def Let_def min_def simp flip: x_def)
  show "available t (refill now l) = min (rl_capacity l) (available now l + (t - now) * rl_refillRate l)"
  proof (cases "0 < x")
    case True then show ?thesis by (simp add: refill_def available_def Let_def flip: x_def)
  next
    case False
    then have "x = 0" using p by simp
    then show ?thesis using assms e by (auto simp: refill_def available_def Let_def limiter_ok_def min_absorb2 simp flip: x_def)
  qed
qed

lemma refill_ok: "limiter_ok now l \<Longrightarrow> limiter_ok now (refill now l)"
  using refill_available(1) [of now l] by (auto simp: limiter_ok_def refill_def available_def Let_def min_def)

lemma refill_keeps [simp]: "rl_capacity (refill now l) = rl_capacity l" "rl_refillRate (refill now l) = rl_refillRate l"
  by (simp_all add: refill_def Let_def)

lemma consume_keeps [simp]: "rl_capacity (snd (TryConsume now a l)) = rl_capacity l" "rl_refillRate (snd (TryConsume now a l)) = rl_refillRate l"
  by (simp_all add: TryConsume_def Let_def)

lemma consume_decides: "limiter_ok now l \<Longrightarrow> fst (TryConsume now a l) \<longleftrightarrow> a \<le> available now l"
  by (simp add: TryConsume_def Let_def refill_available(1))

lemma consume_ok: "limiter_ok now l \<Longrightarrow> 0 \<le> a \<Longrightarrow> limiter_ok now (snd (TryConsume now a l))"
  using refill_ok [of now l] by (auto simp: TryConsume_def Let_def limiter_ok_def)

lemma limiter_ok_mono: "limiter_ok now l \<Longrightarrow> now \<le> t \<Longrightarrow> limiter_ok t l"
  by (simp add: limiter_ok_def)

lemma available_mono_bound:
  assumes "limiter_ok now l" "now \<le> t"
  shows "available t l \<le> available now l + (t - now) * rl_refillRate l"
  using assms mult_nonneg_nonneg [of "t - now" "rl_refillRate l"] by (auto simp: available_def limiter_ok_def min_def algebra_simps)

lemma consume_available:
  assumes "limiter_ok now l" "0 \<le> a"
  shows "available now (snd (TryConsume now a l)) = available now l - (if fst (TryConsume now a l) then a else 0)"
proof -
  have "available now (refill now l) = available now l" using refill_available(2) [OF assms(1), of now] by (simp add: available_def)
  moreover have "rl_tokens (refill now l) = available now l" by (rule refill_available(1) [OF assms(1)])
  ultimately show ?thesis using assms(2) refill_ok [OF assms(1)]
    by (auto simp: TryConsume_def Let_def available_def limiter_ok_def refill_def min_def split: if_splits)
qed

lemma granted_available:
  assumes "limiter_ok t l" "sorted (t # map fst reqs)" "\<forall>x\<in>set reqs. 0 \<le> snd x"
  shows "fst (granted reqs l) + available (last (t # map fst reqs)) (snd (granted reqs l))
      \<le> available t l + (last (t # map fst reqs) - t) * rl_refillRate l \<and> limiter_ok (last (t # map fst reqs)) (snd (granted reqs l))"
  using assms
proof (induction reqs arbitrary: t l)
  case (Cons x reqs)
  obtain now a where x: "x = (now, a)" by fastforce
  obtain ok l1 where c: "TryConsume now a l = (ok, l1)" by fastforce
  have n: "limiter_ok now l" "t \<le> now" "0 \<le> a" using Cons.prems limiter_ok_mono x by auto
  have l1: "limiter_ok now l1" "available now l1 = available now l - (if ok then a else 0)" "rl_refillRate l1 = rl_refillRate l"
    using consume_ok [OF n(1,3)] consume_available [OF n(1,3)] consume_keeps(2) [of now a l] c by auto
  have "sorted (now # map fst reqs)" "\<forall>x\<in>set reqs. 0 \<le> snd x" using Cons.prems x by auto
  note IH = Cons.IH [OF l1(1) this]
  have "available now l \<le> available t l + (now - t) * rl_refillRate l"
    using available_mono_bound [OF Cons.prems(1) n(2)] .
  then show ?case using IH c x l1(2,3) by (auto simp: Let_def case_prod_beta algebra_simps split: if_splits)
qed simp

text \<open>C28. The token bucket limits the rate.  For any sequence of requests in the order of time, beginning with any legal
  state of the bucket, the amounts granted from a moment on sum up to at most the capacity and what the
  elapsed time refills; the bucket stays legal; and a request is granted exactly when the bucket,
  refilled up to that moment, holds its amount, so that waiting makes every request up to the capacity succeed.\<close>

theorem rate_limit_window:
  assumes "limiter_ok t l" "sorted (t # map fst reqs)" "\<forall>x\<in>set reqs. 0 \<le> snd x"
  shows "fst (granted reqs l) \<le> rl_capacity l + (last (t # map fst reqs) - t) * rl_refillRate l \<and>
    limiter_ok (last (t # map fst reqs)) (snd (granted reqs l)) \<and>
    (\<forall>now a. t \<le> now \<longrightarrow> fst (TryConsume now a l) = (a \<le> available now l)) \<and>
    (\<forall>now a. t \<le> now \<longrightarrow> 0 < rl_refillRate l \<longrightarrow> a \<le> rl_capacity l \<longrightarrow> (a - rl_tokens l) / rl_refillRate l \<le> now - rl_lastRefillTime l \<longrightarrow> fst (TryConsume now a l))"
proof -
  let ?e = "last (t # map fst reqs)" and ?l = "snd (granted reqs l)"
  have g: "fst (granted reqs l) + available ?e ?l \<le> available t l + (?e - t) * rl_refillRate l" "limiter_ok ?e ?l"
    using granted_available [OF assms] by auto
  have "0 \<le> available ?e ?l" using g(2) by (auto simp: available_def limiter_ok_def min_def)
  moreover have "available t l \<le> rl_capacity l" by (simp add: available_def)
  moreover have d: "fst (TryConsume now a l) = (a \<le> available now l)" if "t \<le> now" for now a
    using consume_decides limiter_ok_mono [OF assms(1) that] by blast
  moreover have "fst (TryConsume now a l)"
    if "t \<le> now" "0 < rl_refillRate l" "a \<le> rl_capacity l" "(a - rl_tokens l) / rl_refillRate l \<le> now - rl_lastRefillTime l" for now a
    using that d [OF that(1)] by (simp add: available_def field_simps)
  ultimately show ?thesis using g by auto
qed

theorem rate_limit_window_witness:
  "fst (granted [(0, 150), (0, 100), (1, 100), (1, 60)] (RateLimiter (0::rat) 100 200)) \<le> 300 \<and>
   fst (granted [(0, 150), (0, 100), (1, 100), (1, 60)] (RateLimiter (0::rat) 100 200)) = 250"
  using rate_limit_window [of 0 "RateLimiter (0::rat) 100 200" "[(0, 150), (0, 100), (1, 100), (1, 60)]"]
  by (simp add: limiter_ok_def RateLimiter_def TryConsume_def refill_def Let_def)

text \<open>A new rate counts for the time before it was set, back to the last refill.\<close>

lemma new_rate_is_retroactive:
  "\<not> fst (TryConsume 10 50 ((RateLimiter (0::rat) 0 100)\<lparr>rl_tokens := 0\<rparr>)) \<and>
   fst (TryConsume 10 50 (UpdateConfig 5 100 ((RateLimiter (0::rat) 0 100)\<lparr>rl_tokens := 0\<rparr>)))"
  by (simp add: RateLimiter_def TryConsume_def UpdateConfig_def refill_def Let_def)

section \<open>The event bus\<close>

text \<open>
  Listeners by the type of the event; a listener has a target dispatcher or none.  One step per access to what
  the threads share: \<open>_writeMutex\<close> and the atomic pointer \<open>_listeners\<close>.  \<open>eb_versions\<close> (all versions of the
  list of subscriptions, the newest first) is there for the statements only, and \<open>eb_jobs\<close> has what was pushed to a
  dispatcher or run at once, the newest first.
\<close>

type_synonym listener = "nat option \<times> nat"   \<comment> \<open>\<open>target\<close>, \<open>func\<close>\<close>

datatype 'e bus_pc =
    BusIdle
  | SubLock nat listener                        \<comment> \<open>\<open>Subscribe\<close> before the lock\<close>
  | SubCopy nat listener                        \<comment> \<open>before \<^verbatim>\<open>_listeners.load()\<close> and the copy\<close>
  | SubStore nat listener "nat \<Rightarrow> listener list"  \<comment> \<open>before \<^verbatim>\<open>_listeners.store(newMap)\<close>\<close>
  | SubUnlock
  | ResetLock
  | ResetStore                                  \<comment> \<open>before the store of the empty map\<close>
  | PubLoad nat 'e                              \<comment> \<open>\<open>Publish\<close> before \<^verbatim>\<open>_listeners.load()\<close>\<close>
  | PubLoop nat 'e "listener list" "listener list"  \<comment> \<open>listeners served and to serve\<close>

record 'e bus =
  eb_listeners :: "nat \<Rightarrow> listener list"
  eb_writer :: "nat option"
  eb_pc :: "nat \<Rightarrow> 'e bus_pc"
  eb_versions :: "(nat \<times> listener) list list"
  eb_jobs :: "(listener \<times> 'e) list"

definition EventBus :: "'e bus" where
  "EventBus = \<lparr>eb_listeners = (\<lambda>_. []), eb_writer = None, eb_pc = (\<lambda>_. BusIdle), eb_versions = [[]], eb_jobs = []\<rparr>"

definition bus_goto :: "nat \<Rightarrow> 'e bus_pc \<Rightarrow> 'e bus \<Rightarrow> 'e bus" where
  "bus_goto t p b = b\<lparr>eb_pc := (eb_pc b)(t := p)\<rparr>"

inductive bus_step :: "nat \<Rightarrow> 'e bus \<Rightarrow> 'e bus \<Rightarrow> bool" for t where
  subscribe: "eb_pc b t = BusIdle \<Longrightarrow> bus_step t b (bus_goto t (SubLock ty l) b)"
| sub_lock: "eb_pc b t = SubLock ty l \<Longrightarrow> eb_writer b = None \<Longrightarrow> bus_step t b (bus_goto t (SubCopy ty l) (b\<lparr>eb_writer := Some t\<rparr>))"
| sub_copy: "eb_pc b t = SubCopy ty l \<Longrightarrow>
    bus_step t b (bus_goto t (SubStore ty l ((eb_listeners b)(ty := eb_listeners b ty @ [l]))) b)"
| sub_store: "eb_pc b t = SubStore ty l m \<Longrightarrow>
    bus_step t b (bus_goto t SubUnlock (b\<lparr>eb_listeners := m, eb_versions := (hd (eb_versions b) @ [(ty, l)]) # eb_versions b\<rparr>))"
| sub_unlock: "eb_pc b t = SubUnlock \<Longrightarrow> bus_step t b (bus_goto t BusIdle (b\<lparr>eb_writer := None\<rparr>))"
| reset: "eb_pc b t = BusIdle \<Longrightarrow> bus_step t b (bus_goto t ResetLock b)"
| reset_lock: "eb_pc b t = ResetLock \<Longrightarrow> eb_writer b = None \<Longrightarrow> bus_step t b (bus_goto t ResetStore (b\<lparr>eb_writer := Some t\<rparr>))"
| reset_store: "eb_pc b t = ResetStore \<Longrightarrow>
    bus_step t b (bus_goto t SubUnlock (b\<lparr>eb_listeners := (\<lambda>_. []), eb_versions := [] # eb_versions b\<rparr>))"
| publish: "eb_pc b t = BusIdle \<Longrightarrow> bus_step t b (bus_goto t (PubLoad ty e) b)"
| pub_load: "eb_pc b t = PubLoad ty e \<Longrightarrow> bus_step t b (bus_goto t (PubLoop ty e [] (eb_listeners b ty)) b)"
| pub_push: "eb_pc b t = PubLoop ty e ls (l # rest) \<Longrightarrow>
    bus_step t b (bus_goto t (PubLoop ty e (ls @ [l]) rest) (b\<lparr>eb_jobs := (l, e) # eb_jobs b\<rparr>))"
| pub_end: "eb_pc b t = PubLoop ty e ls [] \<Longrightarrow> bus_step t b (bus_goto t BusIdle b)"

inductive bus_reach :: "'e bus \<Rightarrow> bool" where
  start: "bus_reach EventBus"
| move: "bus_reach b \<Longrightarrow> bus_step t b b' \<Longrightarrow> bus_reach b'"

definition of_type :: "nat \<Rightarrow> (nat \<times> listener) list \<Rightarrow> listener list" where
  "of_type ty v = map snd (filter (\<lambda>x. fst x = ty) v)"

text \<open>Every version after the first is the one before it with one more subscription, or empty after a \<open>Reset\<close>.\<close>

fun version_chain :: "(nat \<times> listener) list list \<Rightarrow> bool" where
  "version_chain [] = False"
| "version_chain [v] = (v = [])"
| "version_chain (v # w # vs) = ((v = [] \<or> (\<exists>x. v = w @ [x])) \<and> version_chain (w # vs))"

fun writer_pc :: "'e bus_pc \<Rightarrow> bool" where
  "writer_pc (SubCopy ty l) = True"
| "writer_pc (SubStore ty l m) = True"
| "writer_pc SubUnlock = True"
| "writer_pc ResetStore = True"
| "writer_pc p = False"

text \<open>What a thread has in hand agrees with the shared map, or with one version of it.\<close>

fun pc_ok :: "(nat \<Rightarrow> listener list) \<Rightarrow> (nat \<times> listener) list list \<Rightarrow> 'e bus_pc \<Rightarrow> bool" where
  "pc_ok m vs (SubStore ty l m') = (m' = m(ty := m ty @ [l]))"
| "pc_ok m vs (PubLoop ty e ls rest) = (\<exists>v \<in> set vs. ls @ rest = of_type ty v)"
| "pc_ok m vs p = True"

definition bus_inv :: "'e bus \<Rightarrow> bool" where
  "bus_inv b \<longleftrightarrow> version_chain (eb_versions b) \<and> (\<forall>ty. eb_listeners b ty = of_type ty (hd (eb_versions b))) \<and>
     (\<forall>t. writer_pc (eb_pc b t) \<longleftrightarrow> eb_writer b = Some t) \<and> (\<forall>t. pc_ok (eb_listeners b) (eb_versions b) (eb_pc b t))"

lemma pc_ok_later: "\<not> writer_pc p \<Longrightarrow> pc_ok m vs p \<Longrightarrow> pc_ok m' (v # vs) p"
  by (cases p) auto

lemma bus_goto_sel [simp]:
  "eb_listeners (bus_goto t p b) = eb_listeners b" "eb_writer (bus_goto t p b) = eb_writer b"
  "eb_versions (bus_goto t p b) = eb_versions b" "eb_jobs (bus_goto t p b) = eb_jobs b" "eb_pc (bus_goto t p b) = (eb_pc b)(t := p)"
  by (simp_all add: bus_goto_def)

lemma version_chain_hd: "version_chain vs \<Longrightarrow> vs \<noteq> [] \<and> hd vs \<in> set vs"
  by (cases vs) auto

lemma version_chain_Cons: "version_chain vs \<Longrightarrow> v = [] \<or> (\<exists>x. v = hd vs @ [x]) \<Longrightarrow> version_chain (v # vs)"
  by (cases vs) auto

lemma of_type_simps [simp]: "of_type ty [] = []" "of_type ty (v @ [(ty', l)]) = of_type ty v @ (if ty' = ty then [l] else [])"
  by (simp_all add: of_type_def)

text \<open>The store of a new version: no other thread is between its copy and its store, because of the lock.\<close>

lemma bus_inv_store:
  assumes "bus_inv b" "eb_writer b = Some t" "v = [] \<or> (\<exists>x. v = hd (eb_versions b) @ [x])" "\<And>ty. m ty = of_type ty v"
  shows "bus_inv (bus_goto t SubUnlock (b\<lparr>eb_listeners := m, eb_versions := v # eb_versions b\<rparr>))"
proof -
  have w: "writer_pc (eb_pc b u) \<longleftrightarrow> u = t" for u using assms(1,2) by (auto simp: bus_inv_def)
  have "pc_ok m (v # eb_versions b) (eb_pc b u)" if "u \<noteq> t" for u
    using assms(1) w [of u] that by (intro pc_ok_later [of _ "eb_listeners b"]) (auto simp: bus_inv_def)
  moreover have "version_chain (v # eb_versions b)" using assms(1,3) version_chain_Cons by (auto simp: bus_inv_def)
  ultimately show ?thesis using assms(2,4) w by (auto simp: bus_inv_def simp del: version_chain.simps)
qed

text \<open>A step that changes the program point of one thread only.\<close>

lemma bus_inv_goto:
  assumes "bus_inv b" "pc_ok (eb_listeners b) (eb_versions b) p" "writer_pc p \<longleftrightarrow> writer_pc (eb_pc b t)"
  shows "bus_inv (bus_goto t p b)" "bus_inv (bus_goto t p (b\<lparr>eb_jobs := j\<rparr>))"
  using assms by (auto simp: bus_inv_def)

lemma bus_inv_lock:
  assumes "bus_inv b" "eb_writer b = None" "writer_pc p" "\<And>m vs. pc_ok m vs p"
  shows "bus_inv (bus_goto t p (b\<lparr>eb_writer := Some t\<rparr>))"
  using assms by (auto simp: bus_inv_def)

lemma bus_step_inv: "bus_step t b b' \<Longrightarrow> bus_inv b \<Longrightarrow> bus_inv b'"
proof (induction rule: bus_step.induct)
  case (sub_store b ty l m)
  then have m: "m = (eb_listeners b)(ty := eb_listeners b ty @ [l])" and "eb_writer b = Some t"
    unfolding bus_inv_def by (metis pc_ok.simps(1)) (metis sub_store.hyps sub_store.prems bus_inv_def writer_pc.simps(2))
  with sub_store show ?case by (intro bus_inv_store) (auto simp: bus_inv_def)
next
  case (reset_store b)
  then have "eb_writer b = Some t" unfolding bus_inv_def by (metis writer_pc.simps(4))
  with reset_store show ?case by (intro bus_inv_store) auto
next
  case (pub_load b ty e)
  then show ?case using version_chain_hd by (intro bus_inv_goto(1)) (auto simp: bus_inv_def)
next
  case (pub_push b ty e ls l rest)
  then have "pc_ok (eb_listeners b) (eb_versions b) (PubLoop ty e ls (l # rest))" by (metis bus_inv_def)
  with pub_push show ?case by (intro bus_inv_goto(2)) auto
next
  case (sub_unlock b)
  then have "eb_writer b = Some t" unfolding bus_inv_def by (metis writer_pc.simps(3))
  with sub_unlock show ?case by (auto simp: bus_inv_def)
next
  case (sub_copy b ty l)
  then show ?case by (intro bus_inv_goto(1)) auto
qed (auto intro: bus_inv_goto(1) bus_inv_lock)

lemma bus_reach_inv: "bus_reach b \<Longrightarrow> bus_inv b"
proof (induction rule: bus_reach.induct)
  case start then show ?case by (simp add: EventBus_def bus_inv_def)
next
  case move then show ?case using bus_step_inv by blast
qed


text \<open>Two threads subscribe; the second waits for the lock of the first.\<close>

definition two_subscribers :: "nat bus" where
  "two_subscribers = EventBus\<lparr>eb_listeners := (\<lambda>ty. if ty = 5 then [(None, 1), (Some 0, 2)] else []),
     eb_versions := [[(5, None, 1), (5, Some 0, 2)], [(5, None, 1)], []]\<rparr>"

lemma two_subscribers_reach: "bus_reach two_subscribers"
proof -
  note R = bus_reach.move
  let ?b0 = "EventBus :: nat bus"
  let ?b1 = "bus_goto 0 (SubLock 5 (None, 1)) ?b0"
  let ?b2 = "bus_goto 1 (SubLock 5 (Some 0, 2)) ?b1"
  let ?b3 = "bus_goto 0 (SubCopy 5 (None, 1)) (?b2\<lparr>eb_writer := Some 0\<rparr>)"
  let ?b4 = "bus_goto 0 (SubStore 5 (None, 1) ((eb_listeners ?b3)(5 := eb_listeners ?b3 5 @ [(None, 1)]))) ?b3"
  let ?b5 = "bus_goto 0 SubUnlock (?b4\<lparr>eb_listeners := (eb_listeners ?b3)(5 := eb_listeners ?b3 5 @ [(None, 1)]), eb_versions := (hd (eb_versions ?b4) @ [(5, (None, 1))]) # eb_versions ?b4\<rparr>)"
  let ?b6 = "bus_goto 0 BusIdle (?b5\<lparr>eb_writer := None\<rparr>)"
  let ?b7 = "bus_goto 1 (SubCopy 5 (Some 0, 2)) (?b6\<lparr>eb_writer := Some 1\<rparr>)"
  let ?b8 = "bus_goto 1 (SubStore 5 (Some 0, 2) ((eb_listeners ?b7)(5 := eb_listeners ?b7 5 @ [(Some 0, 2)]))) ?b7"
  let ?b9 = "bus_goto 1 SubUnlock (?b8\<lparr>eb_listeners := (eb_listeners ?b7)(5 := eb_listeners ?b7 5 @ [(Some 0, 2)]), eb_versions := (hd (eb_versions ?b8) @ [(5, (Some 0, 2))]) # eb_versions ?b8\<rparr>)"
  let ?b10 = "bus_goto 1 BusIdle (?b9\<lparr>eb_writer := None\<rparr>)"
  have "bus_reach ?b2" by (intro R [OF R [OF bus_reach.start bus_step.subscribe] bus_step.subscribe]) (simp_all add: EventBus_def)
  then have "bus_reach ?b3" by (rule R [OF _ bus_step.sub_lock]) (simp_all add: EventBus_def)
  then have "bus_reach ?b4" by (rule R [OF _ bus_step.sub_copy]) simp
  then have "bus_reach ?b5" by (rule R [OF _ bus_step.sub_store]) simp
  then have "bus_reach ?b6" by (rule R [OF _ bus_step.sub_unlock]) simp
  then have "bus_reach ?b7" by (rule R [OF _ bus_step.sub_lock]) simp_all
  then have "bus_reach ?b8" by (rule R [OF _ bus_step.sub_copy]) simp
  then have "bus_reach ?b9" by (rule R [OF _ bus_step.sub_store]) simp
  then have "bus_reach ?b10" by (rule R [OF _ bus_step.sub_unlock]) simp
  moreover have "?b10 = two_subscribers"
    by (simp add: two_subscribers_def EventBus_def bus_goto_def fun_eq_iff)
  ultimately show ?thesis by simp
qed


section \<open>Metrics\<close>

datatype metric = CounterImpl u64 | GaugeImpl "64 word"

datatype metrics_error = Wrong_metric_class   \<comment> \<open>the unchecked \<open>static_pointer_cast\<close> makes a pointer to another class\<close>

type_synonym registry = "(string \<times> metric) list"

definition GetCounter :: "string \<Rightarrow> registry \<Rightarrow> (metrics_error + u64) \<times> registry" where
  "GetCounter nm reg =
     (let reg1 = (if map_of reg nm = None then AList.update nm (CounterImpl 0) reg else reg)
      in case map_of reg1 nm of Some (CounterImpl v) \<Rightarrow> (Inr v, reg1) | _ \<Rightarrow> (Inl Wrong_metric_class, reg1))"

definition GetGauge :: "string \<Rightarrow> registry \<Rightarrow> (metrics_error + 64 word) \<times> registry" where
  "GetGauge nm reg =
     (let reg1 = (if map_of reg nm = None then AList.update nm (GaugeImpl 0) reg else reg)
      in case map_of reg1 nm of Some (GaugeImpl v) \<Rightarrow> (Inr v, reg1) | _ \<Rightarrow> (Inl Wrong_metric_class, reg1))"

text \<open>\<open>GetCounter(nm)->Increment(v)\<close> and \<open>GetGauge(nm)->Set(v)\<close>.\<close>

definition Increment :: "string \<Rightarrow> u64 \<Rightarrow> registry \<Rightarrow> metrics_error + registry" where
  "Increment nm v reg = (case GetCounter nm reg of
      (Inl e, _) \<Rightarrow> Inl e | (Inr x, reg1) \<Rightarrow> Inr (AList.update nm (CounterImpl (x + v)) reg1))"

definition Set_gauge :: "string \<Rightarrow> 64 word \<Rightarrow> registry \<Rightarrow> metrics_error + registry" where
  "Set_gauge nm v reg = (case GetGauge nm reg of
      (Inl e, _) \<Rightarrow> Inl e | (Inr x, reg1) \<Rightarrow> Inr (AList.update nm (GaugeImpl v) reg1))"

definition MetricsCollector :: registry where
  "MetricsCollector = fold (\<lambda>nm reg. snd (GetCounter nm reg)) [''server_accepts'', ''server_packets_total'', ''server_jobs_total''] []"

text \<open>\<open>LogMetrics\<close> reads the three counters of the constructor.\<close>

definition LogMetrics :: "registry \<Rightarrow> u64 list" where
  "LogMetrics reg = map (\<lambda>nm. case map_of reg nm of Some (CounterImpl v) \<Rightarrow> v | _ \<Rightarrow> 0)
     [''server_accepts'', ''server_packets_total'', ''server_jobs_total'']"

definition metric_text :: "metric \<Rightarrow> string" where
  "metric_text m = (case m of CounterImpl v \<Rightarrow> to_string (uint v) | GaugeImpl v \<Rightarrow> to_string (sint v))"

fun json_fields :: "bool \<Rightarrow> registry \<Rightarrow> string" where
  "json_fields first [] = []"
| "json_fields first ((nm, m) # reg) =
     (if first then [] else [CHR 0x2C]) @ [CHR 0x22] @ nm @ [CHR 0x22, CHR 0x3A] @ metric_text m @ json_fields False reg"

text \<open>\<open>ToJson\<close> visits the map in the order of the names.\<close>

definition ToJson :: "registry \<Rightarrow> string" where
  "ToJson reg = ''{'' @ json_fields True (sort_key fst reg) @ ''}''"

lemmas metric_ops = Increment_def Set_gauge_def GetCounter_def GetGauge_def Let_def

text \<open>What a sequence of uses makes of the registry, and the names used as counter and as gauge.\<close>

datatype metric_use = UseCounter string u64 | UseGauge string "64 word"

fun use_name :: "metric_use \<Rightarrow> string" where
  "use_name (UseCounter nm v) = nm"
| "use_name (UseGauge nm v) = nm"

fun use_metric :: "metric_use \<Rightarrow> registry \<Rightarrow> metrics_error + registry" where
  "use_metric (UseCounter nm v) reg = Increment nm v reg"
| "use_metric (UseGauge nm v) reg = Set_gauge nm v reg"

fun use_all :: "metric_use list \<Rightarrow> registry \<Rightarrow> metrics_error + registry" where
  "use_all [] reg = Inr reg"
| "use_all (u # us) reg = (case use_metric u reg of Inl e \<Rightarrow> Inl e | Inr reg1 \<Rightarrow> use_all us reg1)"

fun metric_after :: "metric_use \<Rightarrow> metric option \<Rightarrow> metric option" where
  "metric_after (UseCounter nm v) m = Some (CounterImpl ((case m of Some (CounterImpl x) \<Rightarrow> x | _ \<Rightarrow> 0) + v))"
| "metric_after (UseGauge nm v) m = Some (GaugeImpl v)"

fun same_class :: "metric_use \<Rightarrow> metric option \<Rightarrow> bool" where
  "same_class (UseCounter nm v) m = (\<forall>g. m \<noteq> Some (GaugeImpl g))"
| "same_class (UseGauge nm v) m = (\<forall>c. m \<noteq> Some (CounterImpl c))"

lemma use_metric_exact:
  "use_metric u reg = (if same_class u (map_of reg (use_name u))
     then Inr (AList.update (use_name u) (the (metric_after u (map_of reg (use_name u)))) reg) else Inl Wrong_metric_class)"
  by (cases u) (auto simp: metric_ops update_Some_unfold split: option.splits metric.splits)

text \<open>A metric is what its own uses make of it: a counter the sum of its increments modulo \<open>2^64\<close>, a gauge its last value.  The
  program must not use one name as both: the class of the registered object is not checked.\<close>

lemma metric_is_own_uses:
  "use_all us reg = Inr r \<Longrightarrow> map_of r nm = fold metric_after (filter (\<lambda>u. use_name u = nm) us) (map_of reg nm)"
proof (induction us arbitrary: reg)
  case (Cons u us)
  then show ?case by (cases u) (auto simp: use_metric_exact update_conv simp del: use_metric.simps split: sum.splits if_splits)
qed simp

lemma counter_is_sum:
  "fold metric_after (map (UseCounter nm) vs) (Some (CounterImpl x)) = Some (CounterImpl (x + sum_list vs))"
  by (induction vs arbitrary: x) (simp_all add: add.assoc)

lemma gauge_of_counter_name: "use_all [UseCounter nm v, UseGauge nm w] [] = Inl Wrong_metric_class"
  by (simp add: metric_ops)

end
