(* ===== verification/Udp_Registry.thy ===== *)
theory Udp_Registry
  imports Prelude "HOL-Library.AList"
begin

text \<open>
  The datagram header (\<^verbatim>\<open>src/System/Network/UDPTransportHeader.h\<close>, \<^verbatim>\<open>UDPLimits.h\<close>,
  \<^verbatim>\<open>src/System/Types/UInt128.h\<close>) and the table of UDP peers
  (\<^verbatim>\<open>src/System/Network/UDPEndpointRegistry.cpp\<close>).  The hash maps are association lists in
  iteration order; an endpoint is a value of any type, a session is its address, times are
  milliseconds.

  Shown: the header written at a sender is the one a receiver reads; clean-up removes exactly
  the peers that have been silent for longer than the timeout; a removed peer's token still
  leads to whoever uses the endpoint next.
\<close>

section \<open>128-bit values and little-endian views\<close>

record uint128 =
  high :: u64
  low :: u64

definition le_bytes :: "nat \<Rightarrow> 'a::len word \<Rightarrow> bytes" where
  "le_bytes k w = map (\<lambda>i. ucast (drop_bit (8 * i) w)) [0..<k]"

definition le_word :: "bytes \<Rightarrow> 'a::len word" where
  "le_word bs = foldr (\<lambda>b acc. ucast b OR push_bit 8 acc) bs 0"

lemma le_bytes_length [simp]: "length (le_bytes k w) = k"
  by (simp add: le_bytes_def)

lemma le_bytes_Suc: "le_bytes (Suc k) w = ucast w # le_bytes k (drop_bit 8 w)"
  unfolding le_bytes_def by (subst upt_conv_Cons, simp, simp only: list.map map_Suc_upt [symmetric], simp add: ac_simps)

lemma le_word_bytes: "le_word (le_bytes k w) = take_bit (8 * k) (w :: 'a::len word)"
proof (induction k arbitrary: w)
  case 0
  then show ?case by (simp add: le_bytes_def le_word_def)
next
  case (Suc k)
  have "le_word (le_bytes (Suc k) w) = ucast (ucast w :: u8) OR push_bit 8 (take_bit (8 * k) (drop_bit 8 w))"
    using Suc.IH [of "drop_bit 8 w"] by (simp add: le_bytes_Suc le_word_def)
  also have "\<dots> = take_bit (8 * Suc k) w"
    by (rule bit_word_eqI) (auto simp: bit_simps)
  finally show ?case .
qed

lemma le_word_u64 [simp]: "le_word (le_bytes 8 (w :: u64)) = w"
  by (simp add: le_word_bytes take_bit_word_eq_self)

section \<open>The transport header\<close>

record transport_header =
  tag :: u8
  th_sessionId :: u64
  th_token :: uint128

definition TAG_RAW_UDP :: u8 where "TAG_RAW_UDP = 0"
definition TAG_KCP :: u8 where "TAG_KCP = 1"

definition IsValid :: "transport_header \<Rightarrow> bool" where
  "IsValid h \<longleftrightarrow> tag h = TAG_RAW_UDP \<or> tag h = TAG_KCP"

definition IsKCP :: "transport_header \<Rightarrow> bool" where "IsKCP h \<longleftrightarrow> tag h = TAG_KCP"

definition UDP_HEADER_SIZE :: nat where "UDP_HEADER_SIZE = 1 + 8 + 16"
definition UDP_MAX_DATAGRAM_BYTES :: nat where "UDP_MAX_DATAGRAM_BYTES = 1200"
definition UDP_MAX_APP_BYTES :: nat where "UDP_MAX_APP_BYTES = UDP_MAX_DATAGRAM_BYTES - UDP_HEADER_SIZE"

text \<open>The \<^verbatim>\<open>memcpy\<close> of the three fields, and the packed struct laid over the receive buffer.\<close>

definition encode_header :: "u8 \<Rightarrow> u64 \<Rightarrow> uint128 \<Rightarrow> bytes" where
  "encode_header t s token = t # le_bytes 8 s @ le_bytes 8 (high token) @ le_bytes 8 (low token)"

definition decode_header :: "bytes \<Rightarrow> transport_header" where
  "decode_header bs = \<lparr>tag = bs ! 0, th_sessionId = le_word (take 8 (drop 1 bs)),
     th_token = \<lparr>high = le_word (take 8 (drop 9 bs)), low = le_word (take 8 (drop 17 bs))\<rparr>\<rparr>"

lemma encode_header_length [simp]: "length (encode_header t s token) = UDP_HEADER_SIZE"
  by (simp add: encode_header_def UDP_HEADER_SIZE_def)

lemma decode_encode_header:
  "decode_header (encode_header t s token @ xs) = \<lparr>tag = t, th_sessionId = s, th_token = token\<rparr>"
  by (simp add: decode_header_def encode_header_def drop_Cons')

section \<open>The registry\<close>

record session_info =
  si_session :: nat
  lastActivity :: int
  si_udpToken :: uint128

record 'e registry =
  peers :: "('e \<times> session_info) list"
  tokens :: "(uint128 \<times> 'e) list"

definition no_token :: uint128 where "no_token = \<lparr>high = 0, low = 0\<rparr>"

definition Register :: "'e \<Rightarrow> nat \<Rightarrow> int \<Rightarrow> 'e registry \<Rightarrow> 'e registry" where
  "Register endpoint session now r =
     (case map_of (peers r) endpoint of
        Some info \<Rightarrow> r\<lparr>peers := AList.update endpoint (info\<lparr>si_session := session, lastActivity := now\<rparr>) (peers r)\<rparr>
      | None \<Rightarrow> r\<lparr>peers := AList.update endpoint
          \<lparr>si_session = session, lastActivity = now, si_udpToken = no_token\<rparr> (peers r)\<rparr>)"

definition Find :: "'e \<Rightarrow> 'e registry \<Rightarrow> nat option" where
  "Find endpoint r = map_option si_session (map_of (peers r) endpoint)"

definition Remove_peer :: "'e \<Rightarrow> 'e registry \<Rightarrow> 'e registry" where
  "Remove_peer endpoint r = r\<lparr>peers := AList.delete endpoint (peers r)\<rparr>"

definition UpdateActivity :: "'e \<Rightarrow> int \<Rightarrow> 'e registry \<Rightarrow> 'e registry" where
  "UpdateActivity endpoint now r =
     (case map_of (peers r) endpoint of
        Some info \<Rightarrow> r\<lparr>peers := AList.update endpoint (info\<lparr>lastActivity := now\<rparr>) (peers r)\<rparr>
      | None \<Rightarrow> r)"

definition RegisterWithToken :: "'e \<Rightarrow> nat \<Rightarrow> uint128 \<Rightarrow> int \<Rightarrow> 'e registry \<Rightarrow> 'e registry" where
  "RegisterWithToken endpoint session token now r =
     (let r1 =
        (case map_of (peers r) endpoint of
           Some info \<Rightarrow> r\<lparr>peers := AList.update endpoint
             (info\<lparr>si_session := session, si_udpToken := token, lastActivity := now\<rparr>) (peers r)\<rparr>
         | None \<Rightarrow> r\<lparr>peers := AList.update endpoint
             \<lparr>si_session = session, lastActivity = now, si_udpToken = token\<rparr> (peers r)\<rparr>)
      in r1\<lparr>tokens := AList.update token endpoint (tokens r1)\<rparr>)"

definition GetEndpointByToken :: "uint128 \<Rightarrow> 'e registry \<Rightarrow> nat option" where
  "GetEndpointByToken token r =
     (case map_of (tokens r) token of None \<Rightarrow> None
      | Some endpoint \<Rightarrow> map_option si_session (map_of (peers r) endpoint))"

text \<open>The erasing loop: what is kept, the tokens left, the number removed.\<close>

fun cleanup_loop :: "nat \<Rightarrow> int \<Rightarrow> ('e \<times> session_info) list \<Rightarrow> (uint128 \<times> 'e) list
    \<Rightarrow> ('e \<times> session_info) list \<times> (uint128 \<times> 'e) list \<times> nat" where
  "cleanup_loop timeoutMs now [] ts = ([], ts, 0)"
| "cleanup_loop timeoutMs now ((e, info) # ps) ts =
     (if now - lastActivity info > int timeoutMs
      then (case cleanup_loop timeoutMs now ps (AList.delete (si_udpToken info) ts) of
              (kept, ts', n) \<Rightarrow> (kept, ts', Suc n))
      else (case cleanup_loop timeoutMs now ps ts of (kept, ts', n) \<Rightarrow> ((e, info) # kept, ts', n)))"

definition CleanupTimeouts :: "nat \<Rightarrow> int \<Rightarrow> 'e registry \<Rightarrow> nat \<times> 'e registry" where
  "CleanupTimeouts timeoutMs now r =
     (case cleanup_loop timeoutMs now (peers r) (tokens r) of
        (kept, ts, n) \<Rightarrow> (n, r\<lparr>peers := kept, tokens := ts\<rparr>))"

section \<open>Properties\<close>

definition registry_ok :: "'e registry \<Rightarrow> bool" where
  "registry_ok r \<longleftrightarrow> distinct (map fst (peers r)) \<and> distinct (map fst (tokens r))"

lemma registry_ok_ops:
  assumes "registry_ok r"
  shows "registry_ok (Register e s now r)" "registry_ok (Remove_peer e r)" "registry_ok (UpdateActivity e now r)"
    "registry_ok (RegisterWithToken e s t now r)"
  using assms
  by (auto simp: registry_ok_def Register_def Remove_peer_def UpdateActivity_def RegisterWithToken_def Let_def
      distinct_update distinct_delete split: option.splits)

definition silent :: "nat \<Rightarrow> int \<Rightarrow> session_info \<Rightarrow> bool" where
  "silent timeoutMs now info \<longleftrightarrow> now - lastActivity info > int timeoutMs"

lemma cleanup_loop_peers:
  "cleanup_loop timeoutMs now ps ts = (kept, ts', n) \<Longrightarrow>
     kept = filter (\<lambda>(e, info). \<not> silent timeoutMs now info) ps \<and>
     n = length (filter (\<lambda>(e, info). silent timeoutMs now info) ps) \<and>
     map_of ts' = (\<lambda>t. if \<exists>(e, info) \<in> set ps. silent timeoutMs now info \<and> si_udpToken info = t then None else map_of ts t)"
proof (induction timeoutMs now ps ts arbitrary: kept ts' n rule: cleanup_loop.induct)
  case (2 timeoutMs now e info ps ts)
  then show ?case
    by (auto simp: silent_def delete_conv' fun_eq_iff split: if_splits prod.splits)
qed simp

lemma map_of_filter_distinct:
  assumes "distinct (map fst ps)"
  shows "map_of (filter (\<lambda>(e, x). P x) ps) e = (case map_of ps e of None \<Rightarrow> None | Some x \<Rightarrow> if P x then Some x else None)"
  using assms
proof (induction ps)
  case (Cons p ps)
  moreover have "e \<notin> fst ` set ps \<Longrightarrow> map_of ps e = None" by (simp add: map_of_eq_None_iff)
  ultimately show ?case by (cases p) (auto split: option.splits if_splits)
qed simp

lemma cleanup_loop_distinct:
  "cleanup_loop timeoutMs now ps ts = (kept, ts', n) \<Longrightarrow> distinct (map fst ts) \<Longrightarrow> distinct (map fst ts')"
  by (induction timeoutMs now ps ts arbitrary: kept ts' n rule: cleanup_loop.induct)
     (auto simp: distinct_delete split: if_splits prod.splits)

lemma cleanup_Find:
  assumes "registry_ok r" "CleanupTimeouts timeoutMs now r = (n, r')"
  shows "Find e r' = (case map_of (peers r) e of None \<Rightarrow> None
       | Some info \<Rightarrow> if now - lastActivity info > int timeoutMs then None else Some (si_session info))"
proof -
  obtain kept ts where c: "cleanup_loop timeoutMs now (peers r) (tokens r) = (kept, ts, n)"
    and r': "r' = r\<lparr>peers := kept, tokens := ts\<rparr>"
    using assms(2) by (auto simp: CleanupTimeouts_def split: prod.splits)
  have "distinct (map fst (peers r))" using assms(1) by (simp add: registry_ok_def)
  then show ?thesis
    using cleanup_loop_peers [OF c] map_of_filter_distinct [of "peers r" "\<lambda>info. \<not> silent timeoutMs now info" e]
    by (auto simp: Find_def r' silent_def split: option.splits)
qed

text \<open>\<open>CleanupTimeouts\<close> forgets exactly the peers that have been silent for longer than the timeout,
  together with their tokens, counts them, and leaves every other peer and token as it was.\<close>

theorem cleanup_exact:
  assumes "registry_ok r" "CleanupTimeouts timeoutMs now r = (n, r')"
  shows "registry_ok r' \<and>
    (\<forall>e. Find e r' = (case map_of (peers r) e of None \<Rightarrow> None
       | Some info \<Rightarrow> if now - lastActivity info > int timeoutMs then None else Some (si_session info))) \<and>
    n = length (filter (\<lambda>(e, info). now - lastActivity info > int timeoutMs) (peers r)) \<and>
    (\<forall>t. map_of (tokens r') t =
      (if \<exists>(e, info) \<in> set (peers r). now - lastActivity info > int timeoutMs \<and> si_udpToken info = t then None
       else map_of (tokens r) t))"
proof -
  obtain kept ts where c: "cleanup_loop timeoutMs now (peers r) (tokens r) = (kept, ts, n)"
    and r': "r' = r\<lparr>peers := kept, tokens := ts\<rparr>"
    using assms(2) by (auto simp: CleanupTimeouts_def split: prod.splits)
  have d: "distinct (map fst (peers r))" "distinct (map fst (tokens r))" using assms(1) by (auto simp: registry_ok_def)
  have "distinct (map fst kept)" using cleanup_loop_peers [OF c] d(1) by (simp add: distinct_map_filter)
  moreover have "distinct (map fst ts)" by (rule cleanup_loop_distinct [OF c d(2)])
  ultimately show ?thesis using cleanup_loop_peers [OF c] cleanup_Find [OF assms]
    by (simp add: registry_ok_def r' silent_def)
qed

theorem cleanup_exact_witness:
  "registry_ok \<lparr>peers = [], tokens = []\<rparr> \<and>
   (\<forall>e. Find e (snd (CleanupTimeouts 10 50 (RegisterWithToken (2::nat) 7 \<lparr>high = 1, low = 2\<rparr> 30 \<lparr>peers = [], tokens = []\<rparr>))) = None)"
proof -
  let ?r = "RegisterWithToken (2::nat) 7 \<lparr>high = 1, low = 2\<rparr> 30 \<lparr>peers = [], tokens = []\<rparr>"
  have e: "registry_ok \<lparr>peers = [], tokens = []\<rparr>" by (simp add: registry_ok_def)
  have p: "peers ?r = [(2, \<lparr>si_session = 7, lastActivity = 30, si_udpToken = \<lparr>high = 1, low = 2\<rparr>\<rparr>)]"
    by (simp add: RegisterWithToken_def)
  have "registry_ok ?r" by (rule registry_ok_ops(4) [OF e])
  from cleanup_exact [OF this surjective_pairing, of 10 50] show ?thesis using e by (simp add: p)
qed

text \<open>\<open>Remove\<close> keeps the peer's token: when the endpoint is registered again for another session, the
  old token leads to the new session.\<close>

theorem removed_token_still_leads:
  "GetEndpointByToken token (Register e s2 later (Remove_peer e (RegisterWithToken e s1 token now r))) = Some s2"
  by (auto simp: GetEndpointByToken_def Register_def Remove_peer_def RegisterWithToken_def Let_def
      update_conv' delete_conv' split: option.splits)

end
