(* ===== verification/Kcp_Wrapper.thy ===== *)
theory Kcp_Wrapper
  imports Udp_Registry
begin

text \<open>
  \<open>KCPWrapper\<close> (\<open>System/Session/UDP/KCPWrapper.cpp\<close>), the minimal ARQ behind \<open>IKCPWrapper\<close>.  Sequence numbers are 32-bit words;
  a \<open>size_t\<close> slot is a natural number; the caller's buffers are the bytes written into them.

  Shown: packets that come in the order of their sequence numbers are handed out once each and in order, and old ones are
  dropped; the send window keeps the last 32 packets.  Also shown is what the class does not do: the
  first packet is never put out, packets put out together cannot be told apart by the
  receiver, packets that come early are handed out early, and \<open>Recv\<close> writes past a small buffer.
\<close>

section \<open>State and operations\<close>

record kcp_packet =
  kp_sequence :: u32
  kp_data :: bytes

record kcp_wrapper =
  kw_localSequence :: u32
  kw_remoteSequence :: u32
  kw_conv :: u32
  kw_sendWindow :: "kcp_packet list"
  kw_receiveQueue :: "kcp_packet list"
  kw_lastUpdate :: u32

definition SEND_WINDOW_SIZE :: nat where "SEND_WINDOW_SIZE = 32"
definition RECEIVE_BUFFER_SIZE :: nat where "RECEIVE_BUFFER_SIZE = 64"
definition UPDATE_INTERVAL :: u32 where "UPDATE_INTERVAL = 10"

text \<open>The constructor leaves the sequence numbers of the window uninitialised: \<open>junk\<close>.\<close>

definition KCPWrapper :: "(nat \<Rightarrow> u32) \<Rightarrow> kcp_wrapper" where
  "KCPWrapper junk = \<lparr>kw_localSequence = 0, kw_remoteSequence = 0, kw_conv = 0,
     kw_sendWindow = map (\<lambda>i. \<lparr>kp_sequence = junk i, kp_data = []\<rparr>) [0..<SEND_WINDOW_SIZE], kw_receiveQueue = [], kw_lastUpdate = 0\<rparr>"

definition Kw_Initialize :: "u32 \<Rightarrow> kcp_wrapper \<Rightarrow> kcp_wrapper" where
  "Kw_Initialize conv w = w\<lparr>kw_conv := conv, kw_localSequence := 0, kw_remoteSequence := 0, kw_lastUpdate := 0,
     kw_sendWindow := map (\<lambda>p. p\<lparr>kp_sequence := 0, kp_data := []\<rparr>) (kw_sendWindow w), kw_receiveQueue := []\<rparr>"

definition Kw_Send :: "bytes \<Rightarrow> kcp_wrapper \<Rightarrow> int \<times> kcp_wrapper" where
  "Kw_Send d w =
     (if length d = 0 \<or> length d > 1024 then (-1, w)
      else let p = \<lparr>kp_sequence = kw_localSequence w, kp_data = d\<rparr>;
               l = kw_localSequence w + 1;
               slot = unat l mod SEND_WINDOW_SIZE
           in (int (length d), w\<lparr>kw_localSequence := l, kw_sendWindow := (kw_sendWindow w)[slot := p]\<rparr>))"

definition Kw_Input :: "bytes \<Rightarrow> kcp_wrapper \<Rightarrow> int \<times> kcp_wrapper" where
  "Kw_Input d w =
     (if length d < 4 then (-1, w)
      else let s = le_word (take 4 d);
               p = \<lparr>kp_sequence = s, kp_data = drop 4 d\<rparr>;
               w1 = (if s = kw_remoteSequence w
                     then w\<lparr>kw_receiveQueue := kw_receiveQueue w @ [p], kw_remoteSequence := kw_remoteSequence w + 1\<rparr>
                     else if s > kw_remoteSequence w then w\<lparr>kw_receiveQueue := kw_receiveQueue w @ [p]\<rparr>
                     else w)
           in (int (length d), w1\<lparr>kw_receiveQueue := drop (length (kw_receiveQueue w1) - RECEIVE_BUFFER_SIZE) (kw_receiveQueue w1)\<rparr>))"

definition Kw_Update :: "u32 \<Rightarrow> kcp_wrapper \<Rightarrow> kcp_wrapper" where
  "Kw_Update current w = (if current - kw_lastUpdate w \<ge> UPDATE_INTERVAL then w\<lparr>kw_lastUpdate := current\<rparr> else w)"

text \<open>\<open>Recv\<close>: the bytes written into the buffer, the result and the wrapper.  A negative \<open>maxSize\<close> is a huge \<open>size_t\<close>.\<close>

definition Kw_Recv :: "int \<Rightarrow> kcp_wrapper \<Rightarrow> bytes \<times> int \<times> kcp_wrapper" where
  "Kw_Recv maxSize w = (case kw_receiveQueue w of
      [] \<Rightarrow> ([], 0, w)
    | p # ps \<Rightarrow>
        (let w1 = w\<lparr>kw_receiveQueue := ps\<rparr>; n = int (length (kp_data p))
         in if n = 0 then ([], 0, w1)
            else let copySize = (if maxSize < 0 \<or> n < maxSize then n else maxSize)
                 in (le_bytes 4 (kp_sequence p) @ take (nat copySize) (kp_data p), 4 + copySize, w1)))"

fun output_loop :: "int \<Rightarrow> u32 \<Rightarrow> kcp_packet list \<Rightarrow> bytes \<Rightarrow> bytes" where
  "output_loop maxSize remote [] out = out"
| "output_loop maxSize remote (p # ps) out =
     (if kp_sequence p = 0 \<or> kp_data p = [] then output_loop maxSize remote ps out
      else if kp_sequence p \<le> remote then output_loop maxSize remote ps out
      else if int (length out) + (4 + int (length (kp_data p))) > maxSize then out
      else output_loop maxSize remote ps (out @ le_bytes 4 (kp_sequence p) @ kp_data p))"

definition Kw_Output :: "int \<Rightarrow> kcp_wrapper \<Rightarrow> bytes \<times> int" where
  "Kw_Output maxSize w = (let out = output_loop maxSize (kw_remoteSequence w) (kw_sendWindow w) [] in (out, int (length out)))"

section \<open>Receiving\<close>

definition frame_of :: "u32 \<Rightarrow> bytes \<Rightarrow> bytes" where
  "frame_of s d = le_bytes 4 s @ d"

fun inputs :: "bytes list \<Rightarrow> kcp_wrapper \<Rightarrow> kcp_wrapper" where
  "inputs [] w = w"
| "inputs (d # ds) w = inputs ds (snd (Kw_Input d w))"

fun recv_all :: "nat \<Rightarrow> int \<Rightarrow> kcp_wrapper \<Rightarrow> bytes list" where
  "recv_all 0 maxSize w = []"
| "recv_all (Suc n) maxSize w = (case Kw_Recv maxSize w of (out, r, w1) \<Rightarrow> out # recv_all n maxSize w1)"

lemma frame_parts [simp]: "length (frame_of s d) = 4 + length d" "take 4 (frame_of s d) = le_bytes 4 s" "drop 4 (frame_of s d) = d"
  "le_word (le_bytes 4 (s :: u32)) = s"
  by (simp_all add: frame_of_def le_word_bytes take_bit_word_eq_self)

lemma Input_next:
  assumes "length (kw_receiveQueue w) < RECEIVE_BUFFER_SIZE"
  shows "snd (Kw_Input (frame_of (kw_remoteSequence w) d) w) =
    w\<lparr>kw_receiveQueue := kw_receiveQueue w @ [\<lparr>kp_sequence = kw_remoteSequence w, kp_data = d\<rparr>], kw_remoteSequence := kw_remoteSequence w + 1\<rparr>"
  using assms by (simp add: Kw_Input_def Let_def)

lemma Input_old:
  assumes "s < kw_remoteSequence w" "length (kw_receiveQueue w) \<le> RECEIVE_BUFFER_SIZE"
  shows "snd (Kw_Input (frame_of s d) w) = w"
  using assms by (simp add: Kw_Input_def Let_def)

lemma Input_bounded: "length (kw_receiveQueue w) \<le> RECEIVE_BUFFER_SIZE \<Longrightarrow> length (kw_receiveQueue (snd (Kw_Input d w))) \<le> RECEIVE_BUFFER_SIZE"
  by (auto simp: Kw_Input_def Let_def)

lemma inputs_in_order:
  "length (kw_receiveQueue w) + length ds \<le> RECEIVE_BUFFER_SIZE \<Longrightarrow>
   inputs (map (\<lambda>i. frame_of (kw_remoteSequence w + of_nat i) (ds ! i)) [0..<length ds]) w =
   w\<lparr>kw_receiveQueue := kw_receiveQueue w @ map (\<lambda>i. \<lparr>kp_sequence = kw_remoteSequence w + of_nat i, kp_data = ds ! i\<rparr>) [0..<length ds],
     kw_remoteSequence := kw_remoteSequence w + of_nat (length ds)\<rparr>"
proof (induction ds arbitrary: w)
  case (Cons d ds)
  let ?w = "snd (Kw_Input (frame_of (kw_remoteSequence w) d) w)"
  have w: "?w = w\<lparr>kw_receiveQueue := kw_receiveQueue w @ [\<lparr>kp_sequence = kw_remoteSequence w, kp_data = d\<rparr>], kw_remoteSequence := kw_remoteSequence w + 1\<rparr>"
    using Cons.prems by (intro Input_next) simp
  have "length (kw_receiveQueue ?w) + length ds \<le> RECEIVE_BUFFER_SIZE" using Cons.prems w by simp
  from Cons.IH [OF this] show ?case
    by (simp add: upt_conv_Cons map_Suc_upt [symmetric] w o_def add.assoc del: upt_Suc)
qed simp

lemma recv_queue:
  assumes "maxSize < 0 \<or> (\<forall>p \<in> set (kw_receiveQueue w). int (length (kp_data p)) \<le> maxSize)" "\<forall>p \<in> set (kw_receiveQueue w). kp_data p \<noteq> []"
  shows "recv_all (length (kw_receiveQueue w)) maxSize w = map (\<lambda>p. frame_of (kp_sequence p) (kp_data p)) (kw_receiveQueue w)"
  using assms
proof (induction "kw_receiveQueue w" arbitrary: w)
  case (Cons p ps)
  then have q: "kw_receiveQueue w = p # ps" by simp
  let ?w = "w\<lparr>kw_receiveQueue := ps\<rparr>"
  have "recv_all (length ps) maxSize ?w = map (\<lambda>p. frame_of (kp_sequence p) (kp_data p)) ps"
    using Cons.hyps(1) [of ?w] Cons.prems q by auto
  moreover have "fst (Kw_Recv maxSize w) = frame_of (kp_sequence p) (kp_data p)" "snd (snd (Kw_Recv maxSize w)) = ?w"
    using Cons.prems q by (auto simp: Kw_Recv_def Let_def frame_of_def)
  ultimately show ?case unfolding q by (simp add: case_prod_beta)
qed simp

text \<open>The wrapper hands packets out as they were sent, as long as they come in order.  For up to 64 non-empty payloads, framed with
  consecutive sequence numbers from the expected one on, and a buffer that holds each of them, \<open>Recv\<close> gives
  back exactly these frames in order; afterwards a copy of any of them changes nothing.\<close>

theorem wrapper_in_order:
  assumes "kw_receiveQueue w = []" "length ds \<le> 64" "\<forall>d \<in> set ds. d \<noteq> [] \<and> int (length d) \<le> maxSize"
    and "unat (kw_remoteSequence w) + length ds < 2 ^ 32"
    and "frs = map (\<lambda>i. frame_of (kw_remoteSequence w + of_nat i) (ds ! i)) [0..<length ds]"
  shows "recv_all (length ds) maxSize (inputs frs w) = frs \<and> (\<forall>f \<in> set frs. snd (Kw_Input f (inputs frs w)) = inputs frs w)"
proof -
  let ?w = "inputs frs w"
  have w: "?w = w\<lparr>kw_receiveQueue := map (\<lambda>i. \<lparr>kp_sequence = kw_remoteSequence w + of_nat i, kp_data = ds ! i\<rparr>) [0..<length ds],
     kw_remoteSequence := kw_remoteSequence w + of_nat (length ds)\<rparr>"
    using inputs_in_order [of w ds] assms by (simp add: RECEIVE_BUFFER_SIZE_def)
  have "recv_all (length (kw_receiveQueue ?w)) maxSize ?w = map (\<lambda>p. frame_of (kp_sequence p) (kp_data p)) (kw_receiveQueue ?w)"
    using assms(3) w by (intro recv_queue) auto
  moreover have "kw_remoteSequence w + of_nat i < kw_remoteSequence w + of_nat (length ds)" if "i < length ds" for i
    using that assms(4) by (simp add: word_less_nat_alt unat_word_ariths unat_of_nat)
  ultimately show ?thesis using w assms(2,5) by (auto simp: RECEIVE_BUFFER_SIZE_def intro!: Input_old)
qed

theorem wrapper_in_order_witness:
  "\<exists>frs. length frs = 2 \<and> recv_all 2 100 (inputs frs (Kw_Initialize 7 (KCPWrapper (\<lambda>i. 99)))) = frs"
proof -
  let ?w = "Kw_Initialize 7 (KCPWrapper (\<lambda>i. 99))" and ?ds = "[[1, 2], [3]] :: bytes list"
  let ?frs = "map (\<lambda>i. frame_of (kw_remoteSequence ?w + of_nat i) (?ds ! i)) [0..<length ?ds]"
  have "kw_receiveQueue ?w = []" "unat (kw_remoteSequence ?w) + length ?ds < 2 ^ 32" by (simp_all add: Kw_Initialize_def KCPWrapper_def)
  then have "recv_all (length ?ds) 100 (inputs ?frs ?w) = ?frs" using wrapper_in_order [of ?w ?ds 100 ?frs] by simp
  moreover have "length ?ds = 2" by simp
  ultimately show ?thesis by (metis (no_types, lifting) length_map length_upt diff_zero)
qed

section \<open>Sending\<close>

fun sends :: "bytes list \<Rightarrow> kcp_wrapper \<Rightarrow> kcp_wrapper" where
  "sends [] w = w"
| "sends (d # ds) w = sends ds (snd (Kw_Send d w))"

lemma sends_append [simp]: "sends (ds @ ds') w = sends ds' (sends ds w)"
  by (induction ds arbitrary: w) simp_all

text \<open>The send window has the last 32 packets, each in the slot of its sequence number.\<close>

lemma window_has_last:
  assumes "kw_localSequence w = 0" "length (kw_sendWindow w) = SEND_WINDOW_SIZE" "\<forall>d \<in> set ds. 0 < length d \<and> length d \<le> 1024" "length ds < 2 ^ 32"
  shows "kw_localSequence (sends ds w) = of_nat (length ds) \<and> length (kw_sendWindow (sends ds w)) = SEND_WINDOW_SIZE \<and>
    (\<forall>q < length ds. length ds \<le> q + SEND_WINDOW_SIZE \<longrightarrow>
       kw_sendWindow (sends ds w) ! (Suc q mod SEND_WINDOW_SIZE) = \<lparr>kp_sequence = of_nat q, kp_data = ds ! q\<rparr>)"
  using assms(3,4)
proof (induction ds rule: rev_induct)
  case (snoc d ds)
  let ?w = "sends ds w" and ?n = "length ds"
  have IH: "kw_localSequence ?w = of_nat ?n" "length (kw_sendWindow ?w) = SEND_WINDOW_SIZE"
    "\<And>q. q < ?n \<Longrightarrow> ?n \<le> q + SEND_WINDOW_SIZE \<Longrightarrow> kw_sendWindow ?w ! (Suc q mod SEND_WINDOW_SIZE) = \<lparr>kp_sequence = of_nat q, kp_data = ds ! q\<rparr>"
    using snoc by auto
  have u: "unat (of_nat ?n + 1 :: u32) = Suc ?n"
    using snoc.prems(2) by (simp add: unat_word_ariths unat_of_nat)
  have w: "snd (Kw_Send d ?w) = ?w\<lparr>kw_localSequence := of_nat ?n + 1,
      kw_sendWindow := (kw_sendWindow ?w)[Suc ?n mod SEND_WINDOW_SIZE := \<lparr>kp_sequence = of_nat ?n, kp_data = d\<rparr>]\<rparr>"
    using snoc.prems(1) IH(1) u by (auto simp: Kw_Send_def Let_def)
  have ne: "Suc q mod SEND_WINDOW_SIZE \<noteq> Suc ?n mod SEND_WINDOW_SIZE" if "q < ?n" "Suc ?n \<le> q + SEND_WINDOW_SIZE" for q
  proof
    assume "Suc q mod SEND_WINDOW_SIZE = Suc ?n mod SEND_WINDOW_SIZE"
    then have "SEND_WINDOW_SIZE dvd ?n - q" using that by (metis Suc_le_mono diff_Suc_Suc less_imp_le mod_eq_dvd_iff_nat)
    then show False using that by (auto dest: dvd_imp_le)
  qed
  have "kw_sendWindow (snd (Kw_Send d ?w)) ! (Suc q mod SEND_WINDOW_SIZE) = \<lparr>kp_sequence = of_nat q, kp_data = (ds @ [d]) ! q\<rparr>"
    if "q < Suc ?n" "Suc ?n \<le> q + SEND_WINDOW_SIZE" for q
  proof (cases "q = ?n")
    case True then show ?thesis using w IH(2) by (simp add: SEND_WINDOW_SIZE_def)
  next
    case False
    then have "q < ?n" using that by simp
    then show ?thesis using w IH(3) [of q] ne [of q] that by (simp add: nth_append)
  qed
  then show ?case using IH(2) w by simp
qed (use assms in simp)

lemma output_loop_skips:
  "\<forall>p \<in> set ps. kp_sequence p = 0 \<or> kp_data p = [] \<or> kp_sequence p \<le> remote \<Longrightarrow> output_loop maxSize remote ps out = out"
  by (induction ps) auto

text \<open>The first packet has the sequence number zero, which \<open>Output\<close> takes for an empty slot: it is never put out.\<close>

lemma first_packet_not_sent: "Kw_Output maxSize (sends [d] (Kw_Initialize conv w)) = ([], 0)"
proof -
  have "output_loop maxSize 0 (kw_sendWindow (sends [d] (Kw_Initialize conv w))) [] = []"
    by (rule output_loop_skips) (auto simp: Kw_Send_def Kw_Initialize_def Let_def dest!: set_update_subset_insert [THEN subsetD])
  then show ?thesis by (auto simp: Kw_Output_def Kw_Send_def Kw_Initialize_def Let_def)
qed

text \<open>Packets put out together are one packet for the receiver.\<close>

lemma joined_frames: "frame_of s d @ frame_of s' d' = frame_of s (d @ frame_of s' d')"
  by (simp add: frame_of_def)

text \<open>A packet that comes early is handed out early, and once more when it comes again.\<close>

lemma early_packet_twice:
  assumes "w = Kw_Initialize conv (KCPWrapper junk)" "d0 \<noteq> []" "d1 \<noteq> []"
  shows "map kp_sequence (kw_receiveQueue (inputs [frame_of 1 d1, frame_of 0 d0, frame_of 1 d1] w)) = [1, 0, 1]"
  using assms by (simp add: Kw_Input_def Kw_Initialize_def KCPWrapper_def Let_def RECEIVE_BUFFER_SIZE_def)

text \<open>\<open>Recv\<close> compares only the payload with the size of the buffer: four bytes more are written.\<close>

lemma recv_past_buffer:
  assumes "kw_receiveQueue w = p # ps" "int (length (kp_data p)) = n" "0 < n"
  shows "int (length (fst (Kw_Recv n w))) = n + 4"
  using assms by (auto simp: Kw_Recv_def Let_def)

end
