(* ===== verification/Game_Data.thy ===== *)
theory Game_Data
  imports Complex_Main Prelude "HOL-Library.AList" "HOL-Library.Monad_Syntax"
begin

text \<open>
  The read-only tables of the game server (\<open>Core/DataManager.h\<close>): one record per template
  struct and one for the singleton \<open>DataManager\<close>, whose hash maps are association lists in
  the order an iteration visits them.

  Floating point. A \<open>float\<close> is a value of a type \<open>'f\<close> that has the arithmetic operations and
  comparisons but none of their laws, so that what is proved holds for IEEE arithmetic, rounding
  and NaN included. Literals, casts and library functions come from a record \<open>'f flops\<close>; a
  witness instantiates both with rational numbers. An \<open>int32_t\<close> is an \<open>int\<close>; where a sum or a
  product can leave the 32-bit range the definition says so.
\<close>

section \<open>Floating point operations\<close>

record 'f flops =
  lit :: "rat \<Rightarrow> 'f"        \<comment> \<open>a literal of the source\<close>
  of_i32 :: "int \<Rightarrow> 'f"     \<comment> \<open>\<open>static_cast<float>\<close>\<close>
  to_i32 :: "'f \<Rightarrow> int"     \<comment> \<open>\<open>static_cast<int32_t>\<close>\<close>
  fsqrt :: "'f \<Rightarrow> 'f"       \<comment> \<open>\<open>std::sqrt\<close>\<close>
  fcos :: "'f \<Rightarrow> 'f"        \<comment> \<open>\<open>std::cos\<close>\<close>
  fsin :: "'f \<Rightarrow> 'f"        \<comment> \<open>\<open>std::sin\<close>\<close>
  fatan2 :: "'f \<Rightarrow> 'f \<Rightarrow> 'f"
  facos :: "'f \<Rightarrow> 'f"
  fpow :: "'f \<Rightarrow> int \<Rightarrow> 'f"  \<comment> \<open>\<open>std::pow\<close> with an integer exponent\<close>
  fround :: "'f \<Rightarrow> 'f"      \<comment> \<open>\<open>std::round\<close>\<close>
  floor_i :: "'f \<Rightarrow> int"    \<comment> \<open>\<open>static_cast<int>(std::floor(x))\<close>\<close>
  isfinite :: "'f \<Rightarrow> bool"  \<comment> \<open>\<open>std::isfinite\<close>\<close>
  fmaxval :: 'f            \<comment> \<open>\<open>std::numeric_limits<float>::max()\<close>\<close>

definition std_min :: "'a::ord \<Rightarrow> 'a \<Rightarrow> 'a" where
  "std_min a b = (if b < a then b else a)"

definition std_max :: "'a::ord \<Rightarrow> 'a \<Rightarrow> 'a" where
  "std_max a b = (if a < b then b else a)"

definition rat_flops :: "rat flops" where
  "rat_flops = \<lparr> lit = id, of_i32 = of_int, to_i32 = (\<lambda>x. if x < 0 then - \<lfloor>- x\<rfloor> else \<lfloor>x\<rfloor>),
     fsqrt = id, fcos = (\<lambda>_. 1), fsin = (\<lambda>_. 0), fatan2 = (\<lambda>_ _. 0), facos = (\<lambda>_. 0),
     fpow = (\<lambda>x n. x ^ nat n), fround = (\<lambda>x. of_int \<lfloor>x + 1/2\<rfloor>), floor_i = floor,
     isfinite = (\<lambda>_. True), fmaxval = 10 ^ 38 \<rparr>"

text \<open>
  The instance at the rationals is exact in its arithmetic; where a rational result does not exist
  (roots and angles) it answers with a fixed value, which the witnesses do not use.
\<close>

lemma rat_flops_simps [simp]:
  "lit rat_flops = id" "of_i32 rat_flops = of_int"
  "to_i32 rat_flops x = (if x < 0 then - \<lfloor>- x\<rfloor> else \<lfloor>x\<rfloor>)"
  "fround rat_flops x = of_int \<lfloor>x + 1/2\<rfloor>" "floor_i rat_flops = floor" "isfinite rat_flops x"
  "fmaxval rat_flops = 10 ^ 38" "fpow rat_flops x n = x ^ nat n"
  by (simp_all add: rat_flops_def)

text \<open>\<open>std::abs\<close> on floats.\<close>

definition fabs :: "'f::{zero,uminus,ord} \<Rightarrow> 'f" where
  "fabs x = (if x < 0 then - x else x)"

section \<open>Templates\<close>

datatype MonsterAIType = CHASER | WANDER | SWARM | BOSS

record 'f MonsterInfo =
  mi_id :: int
  mi_name :: string
  mi_hp :: int
  mi_speed :: 'f
  mi_radius :: 'f
  mi_damageOnContact :: int
  mi_attackCooldown :: 'f
  mi_aiType :: MonsterAIType

record 'f PlayerInfo =
  pi_id :: int
  pi_name :: string
  pi_hp :: int
  pi_speed :: 'f
  pi_defaultSkills :: "int list"

record 'f SkillInfo =
  sk_id :: int
  sk_name :: string
  sk_damage :: int
  sk_tickInterval :: 'f
  sk_hitRadius :: 'f
  sk_lifeTime :: 'f
  sk_emitterType :: string
  sk_typeId :: int
  sk_pierce :: int
  sk_maxTargetsPerTick :: int
  sk_targetRule :: string
  sk_effectType :: string
  sk_effectValue :: 'f
  sk_effectDuration :: 'f
  sk_effectInterval :: 'f
  sk_activeDuration :: 'f
  sk_dotInterval :: 'f
  sk_arcDegrees :: 'f
  sk_width :: 'f
  sk_height :: 'f
  sk_traits :: "string list"

record 'f WaveInfo =
  wv_waveId :: int
  wv_startTime :: 'f
  wv_duration :: 'f
  wv_monsterTypeId :: int
  wv_count :: int
  wv_interval :: 'f
  wv_hpMultiplier :: 'f

record 'f WeaponLevelInfo =
  wl_level :: int
  wl_skillId :: int
  wl_damageMult :: 'f
  wl_cooldownMult :: 'f
  wl_durationMult :: 'f
  wl_areaMult :: 'f
  wl_speedMult :: 'f
  wl_desc :: string
  wl_projectileCount :: int
  wl_pierceCount :: int
  wl_maxTargets :: int
  wl_critChance :: 'f
  wl_critDamageMult :: 'f
  wl_effectType :: string
  wl_effectValue :: 'f
  wl_effectDuration :: 'f
  wl_flags :: "string list"
  wl_params :: "(string \<times> 'f) list"

record 'f WeaponInfo =
  wi_id :: int
  wi_name :: string
  wi_description :: string
  wi_icon :: string
  wi_maxLevel :: int
  wi_weight :: int
  wi_uniqueGroup :: int
  wi_evolutionId :: int
  wi_evolutionPassiveId :: int
  wi_levels :: "'f WeaponLevelInfo list"

record 'f PassiveLevelInfo =
  pl_level :: int
  pl_bonus :: 'f
  pl_bonus2 :: 'f
  pl_desc :: string

record 'f PassiveInfo =
  ps_id :: int
  ps_name :: string
  ps_description :: string
  ps_icon :: string
  ps_statType :: string
  ps_statType2 :: string
  ps_maxLevel :: int
  ps_weight :: int
  ps_uniqueGroup :: int
  ps_levels :: "'f PassiveLevelInfo list"

section \<open>The data manager\<close>

record 'f DataManager =
  dm_monsters :: "(int \<times> 'f MonsterInfo) list"
  dm_players :: "(int \<times> 'f PlayerInfo) list"
  dm_skills :: "(int \<times> 'f SkillInfo) list"
  dm_waves :: "'f WaveInfo list"
  dm_weapons :: "(int \<times> 'f WeaponInfo) list"
  dm_passives :: "(int \<times> 'f PassiveInfo) list"

definition GetMonsterInfo :: "'f DataManager \<Rightarrow> int \<Rightarrow> 'f MonsterInfo option" where
  "GetMonsterInfo dm i = map_of (dm_monsters dm) i"

definition GetPlayerInfo :: "'f DataManager \<Rightarrow> int \<Rightarrow> 'f PlayerInfo option" where
  "GetPlayerInfo dm i = map_of (dm_players dm) i"

definition GetSkillInfo :: "'f DataManager \<Rightarrow> int \<Rightarrow> 'f SkillInfo option" where
  "GetSkillInfo dm i = map_of (dm_skills dm) i"

definition GetWeaponInfo :: "'f DataManager \<Rightarrow> int \<Rightarrow> 'f WeaponInfo option" where
  "GetWeaponInfo dm i = map_of (dm_weapons dm) i"

definition GetPassiveInfo :: "'f DataManager \<Rightarrow> int \<Rightarrow> 'f PassiveInfo option" where
  "GetPassiveInfo dm i = map_of (dm_passives dm) i"

definition GetAllWeapons :: "'f DataManager \<Rightarrow> (int \<times> 'f WeaponInfo) list" where
  "GetAllWeapons dm = dm_weapons dm"

definition GetAllPassives :: "'f DataManager \<Rightarrow> (int \<times> 'f PassiveInfo) list" where
  "GetAllPassives dm = dm_passives dm"

definition GetWaves :: "'f DataManager \<Rightarrow> 'f WaveInfo list" where
  "GetWaves dm = dm_waves dm"

definition AddMonsterInfo :: "'f MonsterInfo \<Rightarrow> 'f DataManager \<Rightarrow> 'f DataManager" where
  "AddMonsterInfo t dm = dm\<lparr> dm_monsters := AList.update (mi_id t) t (dm_monsters dm) \<rparr>"

definition AddPlayerInfo :: "'f PlayerInfo \<Rightarrow> 'f DataManager \<Rightarrow> 'f DataManager" where
  "AddPlayerInfo t dm = dm\<lparr> dm_players := AList.update (pi_id t) t (dm_players dm) \<rparr>"

definition AddSkillInfo :: "'f SkillInfo \<Rightarrow> 'f DataManager \<Rightarrow> 'f DataManager" where
  "AddSkillInfo t dm = dm\<lparr> dm_skills := AList.update (sk_id t) t (dm_skills dm) \<rparr>"

definition AddWeaponInfoForTest :: "'f WeaponInfo \<Rightarrow> 'f DataManager \<Rightarrow> 'f DataManager" where
  "AddWeaponInfoForTest t dm = dm\<lparr> dm_weapons := AList.update (wi_id t) t (dm_weapons dm) \<rparr>"

definition ClearWeaponsForTest :: "'f DataManager \<Rightarrow> 'f DataManager" where
  "ClearWeaponsForTest dm = dm\<lparr> dm_weapons := [] \<rparr>"

definition ClearPassivesForTest :: "'f DataManager \<Rightarrow> 'f DataManager" where
  "ClearPassivesForTest dm = dm\<lparr> dm_passives := [] \<rparr>"

lemmas data_lookups =
  GetMonsterInfo_def GetPlayerInfo_def GetSkillInfo_def GetWeaponInfo_def GetPassiveInfo_def
  GetAllWeapons_def GetAllPassives_def GetWaves_def

section \<open>Loading\<close>

text \<open>
  \<open>DataManager.cpp\<close> reads the tables with the \<open>nlohmann::json\<close> package, which is not part of
  the repository: what the loaders use of it is a parameter. \<open>j_read\<close> opens and parses a file
  (\<open>None\<close>: it cannot be opened, or parsing throws), \<open>j_items\<close> is the iteration of a value,
  \<open>j_at\<close> is \<open>item[key]\<close> (\<open>None\<close>: no such member), \<open>j_members\<close> iterates over an object, and
  \<open>j_int\<close>, \<open>j_float\<close>, \<open>j_str\<close> are the conversions (\<open>None\<close>: they throw). Every exception and
  every failed validation ends in \<open>std::exit(EXIT_FAILURE)\<close>, the result \<open>None\<close> of a loader.
\<close>

record ('j, 'f) json_ops =
  j_read :: "string \<Rightarrow> 'j option"
  j_items :: "'j \<Rightarrow> 'j list"
  j_at :: "'j \<Rightarrow> string \<Rightarrow> 'j option"
  j_members :: "'j \<Rightarrow> (string \<times> 'j) list"
  j_is_array :: "'j \<Rightarrow> bool"
  j_is_object :: "'j \<Rightarrow> bool"
  j_is_number :: "'j \<Rightarrow> bool"
  j_int :: "'j \<Rightarrow> int option"
  j_float :: "'j \<Rightarrow> 'f option"
  j_str :: "'j \<Rightarrow> string option"

text \<open>\<open>x = item[key]\<close> with the conversion of the target's type, and \<open>item.value(key, default)\<close>.\<close>

definition jget :: "('j, 'f) json_ops \<Rightarrow> ('j \<Rightarrow> 'a option) \<Rightarrow> 'j \<Rightarrow> string \<Rightarrow> 'a option" where
  "jget J conv item k = Option.bind (j_at J item k) conv"

definition jvalue :: "('j, 'f) json_ops \<Rightarrow> ('j \<Rightarrow> 'a option) \<Rightarrow> 'j \<Rightarrow> string \<Rightarrow> 'a \<Rightarrow> 'a option" where
  "jvalue J conv item k d = (case j_at J item k of None \<Rightarrow> Some d | Some v \<Rightarrow> conv v)"

text \<open>A loop that appends one converted element per iteration.\<close>

fun mapM :: "('a \<Rightarrow> 'b option) \<Rightarrow> 'a list \<Rightarrow> 'b list option" where
  "mapM f [] = Some []"
| "mapM f (x # xs) = do { y \<leftarrow> f x; ys \<leftarrow> mapM f xs; Some (y # ys) }"

text \<open>The string arrays (\<open>traits\<close>, \<open>flags\<close>): absent or not an array means none.\<close>

definition j_strings :: "('j, 'f) json_ops \<Rightarrow> 'j \<Rightarrow> string \<Rightarrow> string list option" where
  "j_strings J item k =
     (case j_at J item k of
        None \<Rightarrow> Some []
      | Some v \<Rightarrow> if j_is_array J v then mapM (j_str J) (j_items J v) else Some [])"

definition parse_ai :: "string \<Rightarrow> MonsterAIType" where
  "parse_ai ai = (if ai = ''SWARM'' then SWARM else if ai = ''WANDER'' then WANDER else CHASER)"

definition parse_monster :: "'f flops \<Rightarrow> ('j, 'f) json_ops \<Rightarrow> 'j \<Rightarrow> 'f MonsterInfo option" where
  "parse_monster F J item = do {
     i \<leftarrow> jget J (j_int J) item ''id'';
     n \<leftarrow> jget J (j_str J) item ''name'';
     h \<leftarrow> jget J (j_int J) item ''hp'';
     s \<leftarrow> jvalue J (j_float J) item ''speed'' (lit F 2);
     r \<leftarrow> jvalue J (j_float J) item ''radius'' (lit F (1/2));
     d \<leftarrow> jvalue J (j_int J) item ''damage_on_contact'' 10;
     c \<leftarrow> jvalue J (j_float J) item ''attack_cooldown'' (lit F 1);
     ai \<leftarrow> jvalue J (j_str J) item ''ai_type'' ''CHASER'';
     Some \<lparr> mi_id = i, mi_name = n, mi_hp = h, mi_speed = s, mi_radius = r,
            mi_damageOnContact = d, mi_attackCooldown = c, mi_aiType = parse_ai ai \<rparr> }"

definition parse_player :: "'f flops \<Rightarrow> ('j, 'f) json_ops \<Rightarrow> 'j \<Rightarrow> 'f PlayerInfo option" where
  "parse_player F J item = do {
     i \<leftarrow> jget J (j_int J) item ''id'';
     n \<leftarrow> jget J (j_str J) item ''name'';
     h \<leftarrow> jget J (j_int J) item ''hp'';
     s \<leftarrow> jvalue J (j_float J) item ''speed'' (lit F 5);
     sk \<leftarrow> (case j_at J item ''defaultSkills'' of None \<Rightarrow> Some []
             | Some v \<Rightarrow> mapM (j_int J) (j_items J v));
     Some \<lparr> pi_id = i, pi_name = n, pi_hp = h, pi_speed = s, pi_defaultSkills = sk \<rparr> }"

definition parse_skill :: "'f flops \<Rightarrow> ('j, 'f) json_ops \<Rightarrow> 'j \<Rightarrow> 'f SkillInfo option" where
  "parse_skill F J item = do {
     i \<leftarrow> jget J (j_int J) item ''id'';
     n \<leftarrow> jget J (j_str J) item ''name'';
     d \<leftarrow> jget J (j_int J) item ''damage'';
     ti \<leftarrow> jvalue J (j_float J) item ''tick_interval'' (lit F 1);
     hr \<leftarrow> jvalue J (j_float J) item ''hit_radius'' (lit F 2);
     lt \<leftarrow> jvalue J (j_float J) item ''life_time'' (lit F 0);
     et \<leftarrow> jvalue J (j_str J) item ''emitter_type'' ''AoE'';
     ty \<leftarrow> jvalue J (j_int J) item ''type_id'' 0;
     pc \<leftarrow> jvalue J (j_int J) item ''pierce'' 1;
     mt \<leftarrow> jvalue J (j_int J) item ''max_targets_per_tick'' 1;
     tr \<leftarrow> jvalue J (j_str J) item ''target_rule'' ''Nearest'';
     ef \<leftarrow> jvalue J (j_str J) item ''effect_type'' [];
     ev \<leftarrow> jvalue J (j_float J) item ''effect_value'' (lit F 0);
     ed \<leftarrow> jvalue J (j_float J) item ''effect_duration'' (lit F 0);
     ei \<leftarrow> jvalue J (j_float J) item ''effect_interval'' (lit F 0);
     ad \<leftarrow> jvalue J (j_float J) item ''active_duration'' (lit F 0);
     dt \<leftarrow> jvalue J (j_float J) item ''dot_interval'' (lit F (1/2));
     ar \<leftarrow> jvalue J (j_float J) item ''arc_degrees'' (lit F 30);
     w \<leftarrow> jvalue J (j_float J) item ''width'' (lit F 0);
     h \<leftarrow> jvalue J (j_float J) item ''height'' (lit F 0);
     ts \<leftarrow> j_strings J item ''traits'';
     Some \<lparr> sk_id = i, sk_name = n, sk_damage = d, sk_tickInterval = ti, sk_hitRadius = hr,
            sk_lifeTime = lt, sk_emitterType = et, sk_typeId = ty, sk_pierce = pc,
            sk_maxTargetsPerTick = mt, sk_targetRule = tr, sk_effectType = ef, sk_effectValue = ev,
            sk_effectDuration = ed, sk_effectInterval = ei, sk_activeDuration = ad,
            sk_dotInterval = dt, sk_arcDegrees = ar, sk_width = w, sk_height = h,
            sk_traits = ts \<rparr> }"

definition parse_wave :: "'f flops \<Rightarrow> ('j, 'f) json_ops \<Rightarrow> 'j \<Rightarrow> 'f WaveInfo option" where
  "parse_wave F J item = do {
     i \<leftarrow> jget J (j_int J) item ''wave_id'';
     st \<leftarrow> jget J (j_float J) item ''start_time'';
     du \<leftarrow> jget J (j_float J) item ''duration'';
     mt \<leftarrow> jget J (j_int J) item ''monster_type_id'';
     c \<leftarrow> jget J (j_int J) item ''count'';
     iv \<leftarrow> jvalue J (j_float J) item ''interval'' (lit F 1);
     hm \<leftarrow> jvalue J (j_float J) item ''hp_multiplier'' (lit F 1);
     Some \<lparr> wv_waveId = i, wv_startTime = st, wv_duration = du, wv_monsterTypeId = mt,
            wv_count = c, wv_interval = iv, wv_hpMultiplier = hm \<rparr> }"

definition j_params :: "('j, 'f) json_ops \<Rightarrow> 'j \<Rightarrow> (string \<times> 'f) list option" where
  "j_params J lvl =
     (case j_at J lvl ''params'' of
        None \<Rightarrow> Some []
      | Some v \<Rightarrow> if j_is_object J v
                 then map_option (\<lambda>kvs. fold (\<lambda>(k, x) m. AList.update k x m) kvs [])
                        (mapM (\<lambda>(k, x). map_option (Pair k) (j_float J x))
                          (filter (\<lambda>(k, x). j_is_number J x) (j_members J v)))
                 else Some [])"

definition parse_weapon_level :: "'f flops \<Rightarrow> ('j, 'f) json_ops \<Rightarrow> 'j \<Rightarrow> 'f WeaponLevelInfo option" where
  "parse_weapon_level F J lvl = do {
     l \<leftarrow> jget J (j_int J) lvl ''level'';
     s \<leftarrow> jget J (j_int J) lvl ''skill_id'';
     dm \<leftarrow> jvalue J (j_float J) lvl ''damage_mult'' (lit F 1);
     cm \<leftarrow> jvalue J (j_float J) lvl ''cooldown_mult'' (lit F 1);
     um \<leftarrow> jvalue J (j_float J) lvl ''duration_mult'' (lit F 1);
     am \<leftarrow> jvalue J (j_float J) lvl ''area_mult'' (lit F 1);
     sm \<leftarrow> jvalue J (j_float J) lvl ''speed_mult'' (lit F 1);
     de \<leftarrow> jvalue J (j_str J) lvl ''desc'' [];
     pc \<leftarrow> jvalue J (j_int J) lvl ''projectile_count'' 0;
     pr \<leftarrow> jvalue J (j_int J) lvl ''pierce_count'' 0;
     mt \<leftarrow> jvalue J (j_int J) lvl ''max_targets'' 0;
     cc \<leftarrow> jvalue J (j_float J) lvl ''crit_chance'' (lit F 0);
     cd \<leftarrow> jvalue J (j_float J) lvl ''crit_damage_mult'' (lit F 1);
     et \<leftarrow> jvalue J (j_str J) lvl ''effect_type'' [];
     ev \<leftarrow> jvalue J (j_float J) lvl ''effect_value'' (lit F 0);
     ed \<leftarrow> jvalue J (j_float J) lvl ''effect_duration'' (lit F 0);
     fl \<leftarrow> j_strings J lvl ''flags'';
     pa \<leftarrow> j_params J lvl;
     Some \<lparr> wl_level = l, wl_skillId = s, wl_damageMult = dm, wl_cooldownMult = cm,
            wl_durationMult = um, wl_areaMult = am, wl_speedMult = sm, wl_desc = de,
            wl_projectileCount = pc, wl_pierceCount = pr, wl_maxTargets = mt, wl_critChance = cc,
            wl_critDamageMult = cd, wl_effectType = et, wl_effectValue = ev,
            wl_effectDuration = ed, wl_flags = fl, wl_params = pa \<rparr> }"

text \<open>The validation of a \<open>levels\<close> array: entry \<open>i\<close> has level \<open>i + 1\<close>.\<close>

fun dense_from :: "int \<Rightarrow> int list \<Rightarrow> bool" where
  "dense_from n [] = True"
| "dense_from n (l # ls) = (l = n \<and> dense_from (n + 1) ls)"

definition parse_weapon :: "'f flops \<Rightarrow> ('j, 'f) json_ops \<Rightarrow> 'j \<Rightarrow> 'f WeaponInfo option" where
  "parse_weapon F J item = do {
     i \<leftarrow> jget J (j_int J) item ''id'';
     n \<leftarrow> jget J (j_str J) item ''name'';
     de \<leftarrow> jvalue J (j_str J) item ''description'' [];
     ic \<leftarrow> jvalue J (j_str J) item ''icon'' [];
     ml \<leftarrow> jvalue J (j_int J) item ''max_level'' 8;
     w \<leftarrow> jvalue J (j_int J) item ''weight'' 100;
     ug \<leftarrow> jvalue J (j_int J) item ''unique_group'' 0;
     ev \<leftarrow> jvalue J (j_int J) item ''evolution_id'' 0;
     ep \<leftarrow> jvalue J (j_int J) item ''evolution_passive_id'' 0;
     lv \<leftarrow> (case j_at J item ''levels'' of None \<Rightarrow> Some []
             | Some v \<Rightarrow> do {
                 ls \<leftarrow> mapM (parse_weapon_level F J) (j_items J v);
                 if dense_from 1 (map wl_level ls) then Some ls else None });
     Some \<lparr> wi_id = i, wi_name = n, wi_description = de, wi_icon = ic, wi_maxLevel = ml,
            wi_weight = w, wi_uniqueGroup = ug, wi_evolutionId = ev, wi_evolutionPassiveId = ep,
            wi_levels = lv \<rparr> }"

definition parse_passive_level :: "'f flops \<Rightarrow> ('j, 'f) json_ops \<Rightarrow> 'j \<Rightarrow> 'f PassiveLevelInfo option" where
  "parse_passive_level F J lvl = do {
     l \<leftarrow> jget J (j_int J) lvl ''level'';
     b \<leftarrow> jvalue J (j_float J) lvl ''bonus'' (lit F 0);
     c \<leftarrow> jvalue J (j_float J) lvl ''bonus2'' (lit F 0);
     d \<leftarrow> jvalue J (j_str J) lvl ''desc'' [];
     Some \<lparr> pl_level = l, pl_bonus = b, pl_bonus2 = c, pl_desc = d \<rparr> }"

definition parse_passive :: "'f flops \<Rightarrow> ('j, 'f) json_ops \<Rightarrow> 'j \<Rightarrow> 'f PassiveInfo option" where
  "parse_passive F J item = do {
     i \<leftarrow> jget J (j_int J) item ''id'';
     n \<leftarrow> jget J (j_str J) item ''name'';
     de \<leftarrow> jvalue J (j_str J) item ''description'' [];
     ic \<leftarrow> jvalue J (j_str J) item ''icon'' [];
     st \<leftarrow> jvalue J (j_str J) item ''stat_type'' [];
     su \<leftarrow> jvalue J (j_str J) item ''stat_type2'' [];
     ml \<leftarrow> jvalue J (j_int J) item ''max_level'' 5;
     w \<leftarrow> jvalue J (j_int J) item ''weight'' 100;
     ug \<leftarrow> jvalue J (j_int J) item ''unique_group'' 0;
     lv \<leftarrow> (case j_at J item ''levels'' of None \<Rightarrow> Some []
             | Some v \<Rightarrow> do {
                 ls \<leftarrow> mapM (parse_passive_level F J) (j_items J v);
                 if dense_from 1 (map pl_level ls) then Some ls else None });
     Some \<lparr> ps_id = i, ps_name = n, ps_description = de, ps_icon = ic, ps_statType = st,
            ps_statType2 = su, ps_maxLevel = ml, ps_weight = w, ps_uniqueGroup = ug,
            ps_levels = lv \<rparr> }"

text \<open>The element loops: \<open>_table[data.id] = data\<close> per item, in order.\<close>

definition store_by :: "('a \<Rightarrow> int) \<Rightarrow> 'a list \<Rightarrow> (int \<times> 'a) list \<Rightarrow> (int \<times> 'a) list" where
  "store_by key xs m = fold (\<lambda>x m. AList.update (key x) x m) xs m"

definition LoadMonsterData ::
  "'f flops \<Rightarrow> ('j, 'f) json_ops \<Rightarrow> string \<Rightarrow> 'f DataManager \<Rightarrow> 'f DataManager option" where
  "LoadMonsterData F J path dm = do {
     j \<leftarrow> j_read J path;
     xs \<leftarrow> mapM (parse_monster F J) (j_items J j);
     Some (dm\<lparr> dm_monsters := store_by mi_id xs (dm_monsters dm) \<rparr>) }"

definition LoadPlayerData ::
  "'f flops \<Rightarrow> ('j, 'f) json_ops \<Rightarrow> string \<Rightarrow> 'f DataManager \<Rightarrow> 'f DataManager option" where
  "LoadPlayerData F J path dm = do {
     j \<leftarrow> j_read J path;
     xs \<leftarrow> mapM (parse_player F J) (j_items J j);
     Some (dm\<lparr> dm_players := store_by pi_id xs (dm_players dm) \<rparr>) }"

definition LoadSkillData ::
  "'f flops \<Rightarrow> ('j, 'f) json_ops \<Rightarrow> string \<Rightarrow> 'f DataManager \<Rightarrow> 'f DataManager option" where
  "LoadSkillData F J path dm = do {
     j \<leftarrow> j_read J path;
     xs \<leftarrow> mapM (parse_skill F J) (j_items J j);
     Some (dm\<lparr> dm_skills := store_by sk_id xs (dm_skills dm) \<rparr>) }"

text \<open>
  \<open>std::sort\<close> with the comparison of start times. The standard leaves the order of equal elements
  open; the model inserts one element after the other.
\<close>

fun insert_wave :: "'f::ord WaveInfo \<Rightarrow> 'f WaveInfo list \<Rightarrow> 'f WaveInfo list" where
  "insert_wave w [] = [w]"
| "insert_wave w (v # vs) =
     (if wv_startTime v < wv_startTime w then v # insert_wave w vs else w # v # vs)"

definition sort_waves :: "'f::ord WaveInfo list \<Rightarrow> 'f WaveInfo list" where
  "sort_waves ws = foldr insert_wave ws []"

definition LoadWaveData ::
  "'f::ord flops \<Rightarrow> ('j, 'f) json_ops \<Rightarrow> string \<Rightarrow> 'f DataManager \<Rightarrow> 'f DataManager option" where
  "LoadWaveData F J path dm = do {
     j \<leftarrow> j_read J path;
     xs \<leftarrow> mapM (parse_wave F J) (j_items J j);
     Some (dm\<lparr> dm_waves := sort_waves (dm_waves dm @ xs) \<rparr>) }"

definition LoadWeaponData ::
  "'f flops \<Rightarrow> ('j, 'f) json_ops \<Rightarrow> string \<Rightarrow> 'f DataManager \<Rightarrow> 'f DataManager option" where
  "LoadWeaponData F J path dm = do {
     j \<leftarrow> j_read J path;
     xs \<leftarrow> mapM (parse_weapon F J) (j_items J j);
     Some (dm\<lparr> dm_weapons := store_by wi_id xs (dm_weapons dm) \<rparr>) }"

definition LoadPassiveData ::
  "'f flops \<Rightarrow> ('j, 'f) json_ops \<Rightarrow> string \<Rightarrow> 'f DataManager \<Rightarrow> 'f DataManager option" where
  "LoadPassiveData F J path dm = do {
     j \<leftarrow> j_read J path;
     xs \<leftarrow> mapM (parse_passive F J) (j_items J j);
     Some (dm\<lparr> dm_passives := store_by ps_id xs (dm_passives dm) \<rparr>) }"

section \<open>Well-formed tables\<close>

definition table_wf :: "('a \<Rightarrow> int) \<Rightarrow> (int \<times> 'a) list \<Rightarrow> bool" where
  "table_wf key m \<longleftrightarrow> distinct (map fst m) \<and> (\<forall>(k, x) \<in> set m. key x = k)"

definition weapons_dense :: "(int \<times> 'f WeaponInfo) list \<Rightarrow> bool" where
  "weapons_dense m \<longleftrightarrow> (\<forall>(k, w) \<in> set m. dense_from 1 (map wl_level (wi_levels w)))"

definition passives_dense :: "(int \<times> 'f PassiveInfo) list \<Rightarrow> bool" where
  "passives_dense m \<longleftrightarrow> (\<forall>(k, p) \<in> set m. dense_from 1 (map pl_level (ps_levels p)))"

definition data_wf :: "'f DataManager \<Rightarrow> bool" where
  "data_wf dm \<longleftrightarrow>
     table_wf mi_id (dm_monsters dm) \<and> table_wf pi_id (dm_players dm) \<and>
     table_wf sk_id (dm_skills dm) \<and> table_wf wi_id (dm_weapons dm) \<and>
     table_wf ps_id (dm_passives dm) \<and>
     weapons_dense (dm_weapons dm) \<and> passives_dense (dm_passives dm)"

definition empty_data :: "'f DataManager" where
  "empty_data = \<lparr> dm_monsters = [], dm_players = [], dm_skills = [], dm_waves = [],
     dm_weapons = [], dm_passives = [] \<rparr>"

lemma empty_data_wf [simp]: "data_wf empty_data"
  by (simp add: data_wf_def empty_data_def table_wf_def weapons_dense_def passives_dense_def)

lemma set_update_alist: "set (AList.update k v m) \<subseteq> insert (k, v) (set m)"
  by (induction m) auto

lemma table_wf_update: "table_wf key m \<Longrightarrow> table_wf key (AList.update (key x) x m)"
  unfolding table_wf_def using set_update_alist [of "key x" x m]
  by (auto simp: distinct_update)

lemma table_wf_store: "table_wf key m \<Longrightarrow> table_wf key (store_by key xs m)"
  unfolding store_by_def by (induction xs arbitrary: m) (auto simp: table_wf_update)

lemma set_store_by: "set (store_by key xs m) \<subseteq> set m \<union> (\<lambda>x. (key x, x)) ` set xs"
proof (induction xs arbitrary: m)
  case (Cons x xs)
  from Cons [of "AList.update (key x) x m"] set_update_alist [of "key x" x m]
  show ?case by (auto simp: store_by_def)
qed (simp add: store_by_def)

lemma mapM_set: "mapM f xs = Some ys \<Longrightarrow> y \<in> set ys \<Longrightarrow> \<exists>x \<in> set xs. f x = Some y"
  by (induction xs arbitrary: ys) (auto split: Option.bind_splits)

lemma mapM_length: "mapM f xs = Some ys \<Longrightarrow> length ys = length xs"
  by (induction xs arbitrary: ys) (auto split: Option.bind_splits)

lemma parse_weapon_dense:
  "parse_weapon F J item = Some w \<Longrightarrow> dense_from 1 (map wl_level (wi_levels w))"
  by (auto simp: parse_weapon_def split: Option.bind_splits option.splits if_splits)

lemma parse_passive_dense:
  "parse_passive F J item = Some w \<Longrightarrow> dense_from 1 (map pl_level (ps_levels w))"
  by (auto simp: parse_passive_def split: Option.bind_splits option.splits if_splits)

lemma dense_from_nth: "dense_from n ls \<Longrightarrow> i < length ls \<Longrightarrow> ls ! i = n + int i"
proof (induction n ls arbitrary: i rule: dense_from.induct)
  case (2 n l ls)
  then show ?case by (cases i) auto
qed simp

lemmas loaders = LoadMonsterData_def LoadPlayerData_def LoadSkillData_def LoadWaveData_def
  LoadWeaponData_def LoadPassiveData_def

lemma store_weapons_dense:
  assumes "weapons_dense m" "mapM (parse_weapon F J) items = Some xs"
  shows "weapons_dense (store_by wi_id xs m)"
  unfolding weapons_dense_def
  using assms(1) [unfolded weapons_dense_def] set_store_by [of wi_id xs m] mapM_set [OF assms(2)]
    parse_weapon_dense
  by fastforce

lemma store_passives_dense:
  assumes "passives_dense m" "mapM (parse_passive F J) items = Some xs"
  shows "passives_dense (store_by ps_id xs m)"
  unfolding passives_dense_def
  using assms(1) [unfolded passives_dense_def] set_store_by [of ps_id xs m] mapM_set [OF assms(2)]
    parse_passive_dense
  by fastforce

lemma load_keeps_data_wf:
  assumes "data_wf dm"
  shows "LoadMonsterData F J path dm = Some dm' \<Longrightarrow> data_wf dm'"
    and "LoadPlayerData F J path dm = Some dm' \<Longrightarrow> data_wf dm'"
    and "LoadSkillData F J path dm = Some dm' \<Longrightarrow> data_wf dm'"
    and "LoadWeaponData F J path dm = Some dm' \<Longrightarrow> data_wf dm'"
    and "LoadPassiveData F J path dm = Some dm' \<Longrightarrow> data_wf dm'"
  using assms store_weapons_dense store_passives_dense
  by (auto simp: loaders data_wf_def table_wf_store split: Option.bind_splits)

lemma load_waves_keeps_data_wf:
  assumes "data_wf dm" "LoadWaveData F J path dm = Some dm'"
  shows "data_wf dm'"
  using assms by (auto simp: loaders data_wf_def split: Option.bind_splits)

subsection \<open>The wave table is sorted\<close>

lemma mset_insert_wave [simp]: "mset (insert_wave w vs) = {#w#} + mset vs"
  by (induction vs) auto

lemma set_insert_wave [simp]: "set (insert_wave w vs) = insert w (set vs)"
  by (induction vs) auto

lemma mset_sort_waves [simp]: "mset (sort_waves ws) = mset ws"
  unfolding sort_waves_def by (induction ws) auto

definition waves_sorted :: "'f::linorder WaveInfo list \<Rightarrow> bool" where
  "waves_sorted ws \<longleftrightarrow> sorted (map wv_startTime ws)"

lemma insert_wave_sorted: "waves_sorted vs \<Longrightarrow> waves_sorted (insert_wave w vs)"
  unfolding waves_sorted_def by (induction vs) (auto simp: not_less)

lemma sort_waves_sorted: "waves_sorted (sort_waves ws)"
  unfolding sort_waves_def
  by (induction ws) (simp_all add: insert_wave_sorted, simp add: waves_sorted_def)

section \<open>What loading guarantees\<close>


text \<open>A concrete reader of JSON values, holding one weapon table of one weapon with two levels.\<close>

datatype jv = JNum int | JStr string | JArr "jv list" | JObj "(string \<times> jv) list"

definition demo_level :: "int \<Rightarrow> jv" where
  "demo_level l = JObj [(''level'', JNum l), (''skill_id'', JNum 7), (''damage_mult'', JNum 2)]"

definition demo_weapons :: jv where
  "demo_weapons = JArr [JObj [(''id'', JNum 4), (''name'', JStr ''whip''),
     (''levels'', JArr [demo_level 1, demo_level 2])]]"

definition demo_json :: "(jv, rat) json_ops" where
  "demo_json = \<lparr>
     j_read = (\<lambda>p. if p = ''weapons'' then Some demo_weapons else None),
     j_items = (\<lambda>v. case v of JArr xs \<Rightarrow> xs | _ \<Rightarrow> []),
     j_at = (\<lambda>v k. case v of JObj m \<Rightarrow> map_of m k | _ \<Rightarrow> None),
     j_members = (\<lambda>v. case v of JObj m \<Rightarrow> m | _ \<Rightarrow> []),
     j_is_array = (\<lambda>v. case v of JArr _ \<Rightarrow> True | _ \<Rightarrow> False),
     j_is_object = (\<lambda>v. case v of JObj _ \<Rightarrow> True | _ \<Rightarrow> False),
     j_is_number = (\<lambda>v. case v of JNum _ \<Rightarrow> True | _ \<Rightarrow> False),
     j_int = (\<lambda>v. case v of JNum n \<Rightarrow> Some n | _ \<Rightarrow> None),
     j_float = (\<lambda>v. case v of JNum n \<Rightarrow> Some (of_int n) | _ \<Rightarrow> None),
     j_str = (\<lambda>v. case v of JStr s \<Rightarrow> Some s | _ \<Rightarrow> None) \<rparr>"

definition demo_loaded :: "rat DataManager" where
  "demo_loaded = the (LoadWeaponData rat_flops demo_json ''weapons'' empty_data)"

lemmas demo_load_defs = LoadWeaponData_def parse_weapon_def parse_weapon_level_def j_strings_def
  j_params_def jget_def jvalue_def demo_json_def demo_weapons_def demo_level_def store_by_def
  empty_data_def

lemma demo_loads: "LoadWeaponData rat_flops demo_json ''weapons'' empty_data = Some demo_loaded"
  by (simp add: demo_loaded_def demo_load_defs)

definition demo_weapon :: "rat WeaponInfo" where
  "demo_weapon = the (GetWeaponInfo demo_loaded 4)"

lemma demo_weapon_found: "GetWeaponInfo demo_loaded 4 = Some demo_weapon"
  by (simp add: demo_weapon_def demo_loaded_def demo_load_defs GetWeaponInfo_def)


end
