(* ===== verification/Stat_Modifiers.thy ===== *)
theory Stat_Modifiers
  imports Game_Data
begin

text \<open>
  The stat container of a game object (\<open>Entity/StatModifier.h\<close>, \<open>Entity/ModifierContainer.cpp\<close>):
  base values, a list of modifiers, and a cache of the computed stats with dirty flags. The
  theorems compare the cached \<open>GetStat\<close> with \<open>CalculateStat\<close>, the computation without a cache.
\<close>

datatype StatType = Speed | Attack | MaxHp | Cooldown | Area | ProjectileCount

datatype ModifierOp = Flat | PercentAdd | PercentMult

record 'f StatModifier =
  sm_type :: StatType
  sm_op :: ModifierOp
  sm_value :: 'f
  sm_sourceId :: int
  sm_expirationTime :: 'f
  sm_allowStacking :: bool

record 'f ModifierContainer =
  mc_baseStats :: "StatType \<rightharpoonup> 'f"
  mc_cachedStats :: "StatType \<rightharpoonup> 'f"
  mc_dirty :: "StatType \<rightharpoonup> bool"
  mc_modifiers :: "'f StatModifier list"

definition new_modifiers :: "'f ModifierContainer" where
  "new_modifiers = \<lparr> mc_baseStats = Map.empty, mc_cachedStats = Map.empty, mc_dirty = Map.empty,
     mc_modifiers = [] \<rparr>"

definition SetDirty :: "StatType \<Rightarrow> 'f ModifierContainer \<Rightarrow> 'f ModifierContainer" where
  "SetDirty t c = c\<lparr> mc_dirty := (mc_dirty c)(t \<mapsto> True) \<rparr>"

definition SetBaseStat :: "StatType \<Rightarrow> 'f \<Rightarrow> 'f ModifierContainer \<Rightarrow> 'f ModifierContainer" where
  "SetBaseStat t v c = SetDirty t (c\<lparr> mc_baseStats := (mc_baseStats c)(t \<mapsto> v) \<rparr>)"

definition GetBaseStat :: "'f::zero ModifierContainer \<Rightarrow> StatType \<Rightarrow> 'f" where
  "GetBaseStat c t = (case mc_baseStats c t of Some v \<Rightarrow> v | None \<Rightarrow> 0)"

text \<open>
  \<open>std::remove_if\<close> on a vector: the elements that stay move to the front, in order; the positions
  behind them are not written, so they keep the elements they had. The result is the pair of the
  front and that tail.
\<close>

definition remove_if :: "('a \<Rightarrow> bool) \<Rightarrow> 'a list \<Rightarrow> 'a list \<times> 'a list" where
  "remove_if P xs = (let kept = filter (\<lambda>x. \<not> P x) xs in (kept, drop (length kept) xs))"

definition AddModifier :: "'f StatModifier \<Rightarrow> 'f ModifierContainer \<Rightarrow> 'f ModifierContainer" where
  "AddModifier m c =
     (let c1 = (if sm_allowStacking m then c
                else c\<lparr> mc_modifiers := fst (remove_if (\<lambda>x. sm_sourceId x = sm_sourceId m \<and>
                       sm_type x = sm_type m \<and> \<not> sm_allowStacking x) (mc_modifiers c)) \<rparr>)
      in SetDirty (sm_type m) (c1\<lparr> mc_modifiers := mc_modifiers c1 @ [m] \<rparr>))"

text \<open>
  The common end of \<open>RemoveBySourceId\<close> and \<open>Update\<close>: the types in the tail are marked dirty, then
  the tail is erased.
\<close>

definition remove_and_mark :: "('f StatModifier \<Rightarrow> bool) \<Rightarrow> 'f ModifierContainer \<Rightarrow> 'f ModifierContainer" where
  "remove_and_mark P c =
     (let (kept, tail) = remove_if P (mc_modifiers c)
      in (fold SetDirty (map sm_type tail) c)\<lparr> mc_modifiers := kept \<rparr>)"

definition RemoveBySourceId :: "int \<Rightarrow> 'f ModifierContainer \<Rightarrow> 'f ModifierContainer" where
  "RemoveBySourceId s c = remove_and_mark (\<lambda>m. sm_sourceId m = s) c"

definition RemoveBySourceIdAndType :: "int \<Rightarrow> StatType \<Rightarrow> 'f ModifierContainer \<Rightarrow> 'f ModifierContainer" where
  "RemoveBySourceIdAndType s t c =
     (let (kept, tail) = remove_if (\<lambda>m. sm_sourceId m = s \<and> sm_type m = t) (mc_modifiers c)
      in if tail \<noteq> [] then (SetDirty t c)\<lparr> mc_modifiers := kept \<rparr> else c)"

definition ClearModifiers :: "'f ModifierContainer \<Rightarrow> 'f ModifierContainer" where
  "ClearModifiers c = c\<lparr> mc_modifiers := [], mc_cachedStats := Map.empty, mc_dirty := Map.empty \<rparr>"

definition UpdateModifiers :: "'f::{zero,ord} \<Rightarrow> 'f ModifierContainer \<Rightarrow> 'f ModifierContainer" where
  "UpdateModifiers now c =
     remove_and_mark (\<lambda>m. sm_expirationTime m > 0 \<and> now \<ge> sm_expirationTime m) c"

text \<open>The loop of \<open>CalculateStat\<close> carries the flat sum, the percentage sum and the product.\<close>

fun stat_loop :: "StatType \<Rightarrow> 'f::{plus,times} StatModifier list \<Rightarrow> 'f \<times> 'f \<times> 'f \<Rightarrow> 'f \<times> 'f \<times> 'f" where
  "stat_loop t [] acc = acc"
| "stat_loop t (m # ms) (flat, pct, pml) =
     stat_loop t ms
       (if sm_type m \<noteq> t then (flat, pct, pml)
        else case sm_op m of
               Flat \<Rightarrow> (flat + sm_value m, pct, pml)
             | PercentAdd \<Rightarrow> (flat, pct + sm_value m, pml)
             | PercentMult \<Rightarrow> (flat, pct, pml * sm_value m))"

definition CalculateStat ::
  "'f::{zero,plus,times,inverse,ord} flops \<Rightarrow> 'f ModifierContainer \<Rightarrow> StatType \<Rightarrow> 'f" where
  "CalculateStat F c t =
     (case stat_loop t (mc_modifiers c) (0, 0, lit F 1) of
        (flat, pct, pml) \<Rightarrow>
          let result = (GetBaseStat c t + flat) * (lit F 1 + pct) * pml;
              rounded = fround F (result * lit F 1000) / lit F 1000
          in if t = Speed \<and> rounded < lit F (1/10) then lit F (1/10) else rounded)"

text \<open>\<open>GetStat\<close> fills the cache when the entry is dirty or missing and answers from the cache.\<close>

definition GetStat ::
  "'f::{zero,plus,times,inverse,ord} flops \<Rightarrow> StatType \<Rightarrow> 'f ModifierContainer \<Rightarrow> 'f \<times> 'f ModifierContainer" where
  "GetStat F t c =
     (let c1 = (if mc_dirty c t = Some True
                then c\<lparr> mc_cachedStats := (mc_cachedStats c)(t \<mapsto> CalculateStat F c t),
                        mc_dirty := (mc_dirty c)(t \<mapsto> False) \<rparr>
                else if mc_cachedStats c t = None
                then c\<lparr> mc_cachedStats := (mc_cachedStats c)(t \<mapsto> CalculateStat F c t) \<rparr>
                else c)
      in (case mc_cachedStats c1 t of Some v \<Rightarrow> v | None \<Rightarrow> 0, c1))"

lemmas modifier_defs [conc] = SetDirty_def SetBaseStat_def GetBaseStat_def remove_if_def AddModifier_def
  remove_and_mark_def RemoveBySourceId_def RemoveBySourceIdAndType_def ClearModifiers_def
  UpdateModifiers_def CalculateStat_def GetStat_def new_modifiers_def

section \<open>Coherence of the cache\<close>

text \<open>A cached entry that is not marked dirty holds the value \<open>CalculateStat\<close> would compute.\<close>

definition coherent_at :: "'f::{zero,plus,times,inverse,ord} flops \<Rightarrow> StatType \<Rightarrow> 'f ModifierContainer \<Rightarrow> bool" where
  "coherent_at F t c \<longleftrightarrow>
     (mc_dirty c t \<noteq> Some True \<longrightarrow> mc_cachedStats c t = None \<or> mc_cachedStats c t = Some (CalculateStat F c t))"

definition coherent :: "'f::{zero,plus,times,inverse,ord} flops \<Rightarrow> 'f ModifierContainer \<Rightarrow> bool" where
  "coherent F c \<longleftrightarrow> (\<forall>t. coherent_at F t c)"

text \<open>The value of a stat depends only on its base value and the modifiers of its type.\<close>

lemma stat_loop_filter: "stat_loop t ms acc = stat_loop t (filter (\<lambda>m. sm_type m = t) ms) acc"
  by (induction t ms acc rule: stat_loop.induct) auto

lemma CalculateStat_cong:
  assumes "mc_baseStats c t = mc_baseStats c' t"
    and "filter (\<lambda>m. sm_type m = t) (mc_modifiers c) = filter (\<lambda>m. sm_type m = t) (mc_modifiers c')"
  shows "CalculateStat F c t = CalculateStat F c' t"
proof -
  have "stat_loop t (mc_modifiers c) a = stat_loop t (mc_modifiers c') a" for a
    using stat_loop_filter assms(2) by metis
  then show ?thesis using assms(1) by (simp add: CalculateStat_def GetBaseStat_def)
qed

text \<open>A change that marks every type whose value it can alter keeps the cache coherent.\<close>

lemma coherent_change:
  assumes "coherent F c" "mc_cachedStats c' = mc_cachedStats c"
    and "\<And>t. mc_dirty c' t \<noteq> Some True \<Longrightarrow>
      mc_dirty c t \<noteq> Some True \<and> mc_baseStats c' t = mc_baseStats c t \<and>
      filter (\<lambda>m. sm_type m = t) (mc_modifiers c') = filter (\<lambda>m. sm_type m = t) (mc_modifiers c)"
  shows "coherent F c'"
  unfolding coherent_def coherent_at_def
proof (intro allI impI)
  fix t assume "mc_dirty c' t \<noteq> Some True"
  with assms(3) have d: "mc_dirty c t \<noteq> Some True" "mc_baseStats c' t = mc_baseStats c t"
    "filter (\<lambda>m. sm_type m = t) (mc_modifiers c') = filter (\<lambda>m. sm_type m = t) (mc_modifiers c)" by auto
  then have "CalculateStat F c' t = CalculateStat F c t" by (intro CalculateStat_cong) auto
  then show "mc_cachedStats c' t = None \<or> mc_cachedStats c' t = Some (CalculateStat F c' t)"
    using assms(1,2) d(1) by (auto simp: coherent_def coherent_at_def)
qed

lemma coherent_SetBaseStat [inv_intros]: "coherent F c \<Longrightarrow> coherent F (SetBaseStat t v c)"
  by (rule coherent_change [of F c]) (auto simp: SetBaseStat_def SetDirty_def split: if_splits)

lemma coherent_AddModifier [inv_intros]: "coherent F c \<Longrightarrow> coherent F (AddModifier m c)"
  by (rule coherent_change [of F c])
    (auto simp: AddModifier_def SetDirty_def remove_if_def Let_def
      intro!: filter_cong split: if_splits)

lemma kept_all_iff: "drop (length (filter P xs)) xs = [] \<longleftrightarrow> filter P xs = xs"
  by (metis drop_eq_Nil filter_cong filter_id_conv le_antisym length_filter_le length_filter_less
        linorder_not_le)

lemma coherent_RemoveBySourceIdAndType [inv_intros]:
  assumes "coherent F c"
  shows "coherent F (RemoveBySourceIdAndType s t c)"
  by (rule coherent_change [OF assms])
    (auto simp: RemoveBySourceIdAndType_def SetDirty_def remove_if_def Let_def
       intro!: filter_cong split: if_splits)

lemma coherent_ClearModifiers [inv_intros]: "coherent F (ClearModifiers c)"
  by (simp add: coherent_def coherent_at_def ClearModifiers_def)

lemma coherent_new [simp]: "coherent F new_modifiers"
  by (simp add: coherent_def coherent_at_def new_modifiers_def)

lemma CalculateStat_GetStat [simp]: "CalculateStat F (snd (GetStat F t c)) t' = CalculateStat F c t'"
  by (rule CalculateStat_cong) (auto simp: GetStat_def Let_def)

lemma coherent_GetStat [inv_intros]: "coherent F c \<Longrightarrow> coherent F (snd (GetStat F t c))"
  unfolding coherent_def coherent_at_def CalculateStat_GetStat
  by (simp add: GetStat_def Let_def)

text \<open>The removals that mark the tail are coherent while all modifiers have one type.\<close>

lemma fold_SetDirty:
  "mc_cachedStats (fold SetDirty ts c) = mc_cachedStats c"
  "mc_baseStats (fold SetDirty ts c) = mc_baseStats c"
  "mc_modifiers (fold SetDirty ts c) = mc_modifiers c"
  "mc_dirty (fold SetDirty ts c) t = (if t \<in> set ts then Some True else mc_dirty c t)"
  by (induction ts arbitrary: c) (auto simp: SetDirty_def)

definition one_type :: "StatType \<Rightarrow> 'f ModifierContainer \<Rightarrow> bool" where
  "one_type t c \<longleftrightarrow> (\<forall>m \<in> set (mc_modifiers c). sm_type m = t)"

lemma coherent_remove_and_mark:
  assumes "coherent F c" "one_type t c"
  shows "coherent F (remove_and_mark P c)"
proof -
  let ?kept = "filter (\<lambda>x. \<not> P x) (mc_modifiers c)"
  let ?tail = "drop (length ?kept) (mc_modifiers c)"
  have one: "filter (\<lambda>m. sm_type m = t') ms = (if t' = t then ms else [])"
    if "set ms \<subseteq> set (mc_modifiers c)" for ms t'
    using that assms(2) by (auto simp: one_type_def filter_id_conv filter_empty_conv subset_iff)
  have tail: "t' \<in> sm_type ` set ?tail \<longleftrightarrow> t' = t \<and> ?tail \<noteq> []" for t'
    using assms(2) set_drop_subset [of "length ?kept" "mc_modifiers c"]
    by (cases ?tail) (auto simp: one_type_def image_iff)
  have same: "filter (\<lambda>m. sm_type m = t') ?kept = filter (\<lambda>m. sm_type m = t') (mc_modifiers c)"
    if "t' \<notin> sm_type ` set ?tail" for t'
    using that tail one [of ?kept t'] one [of "mc_modifiers c" t'] kept_all_iff by fastforce
  show ?thesis
    by (rule coherent_change [OF assms(1)])
      (use same in \<open>auto simp: remove_and_mark_def remove_if_def Let_def fold_SetDirty simp del: filter_filter
         split: if_splits\<close>)
qed

lemma one_type_ops [inv_intros]:
  "one_type t c \<Longrightarrow> sm_type m = t \<Longrightarrow> one_type t (AddModifier m c)"
  "one_type t c \<Longrightarrow> one_type t (RemoveBySourceId s c)"
  "one_type t c \<Longrightarrow> one_type t (RemoveBySourceIdAndType s t' c)"
  "one_type t c \<Longrightarrow> one_type t (UpdateModifiers now c)"
  "one_type t c \<Longrightarrow> one_type t (SetBaseStat t' v c)"
  "one_type t c \<Longrightarrow> one_type t (snd (GetStat F t' c))"
  "one_type t (ClearModifiers c)"
  by (auto simp: one_type_def modifier_defs Let_def fold_SetDirty)

datatype 'f mod_op = MSetBase StatType 'f | MAdd "'f StatModifier" | MRemove int
  | MRemoveTyped int StatType | MExpire 'f | MGet StatType | MClear

fun run_mod ::
  "'f::{zero,plus,times,inverse,ord} flops \<Rightarrow> 'f mod_op \<Rightarrow> 'f ModifierContainer \<Rightarrow> 'f ModifierContainer" where
  "run_mod F (MSetBase t v) c = SetBaseStat t v c"
| "run_mod F (MAdd m) c = AddModifier m c"
| "run_mod F (MRemove s) c = RemoveBySourceId s c"
| "run_mod F (MRemoveTyped s t) c = RemoveBySourceIdAndType s t c"
| "run_mod F (MExpire now) c = UpdateModifiers now c"
| "run_mod F (MGet t) c = snd (GetStat F t c)"
| "run_mod F MClear c = ClearModifiers c"

fun op_type_ok :: "StatType \<Rightarrow> 'f mod_op \<Rightarrow> bool" where
  "op_type_ok t (MAdd m) = (sm_type m = t)"
| "op_type_ok t _ = True"

lemma run_mod_step:
  assumes "coherent F c" "one_type t c" "op_type_ok t x"
  shows "coherent F (run_mod F x c) \<and> one_type t (run_mod F x c)"
  using assms
  by (cases x) (auto intro: inv_intros coherent_remove_and_mark
    simp: one_type_ops RemoveBySourceId_def UpdateModifiers_def one_type_ops [unfolded RemoveBySourceId_def UpdateModifiers_def])

lemma run_mods_ok:
  assumes "coherent F c" "one_type t c" "\<forall>x \<in> set ops. op_type_ok t x"
  shows "coherent F (fold (run_mod F) ops c) \<and> one_type t (fold (run_mod F) ops c)"
  using assms by (induction ops arbitrary: c) (auto dest: run_mod_step)

lemma GetStat_coherent: "coherent F c \<Longrightarrow> fst (GetStat F t c) = CalculateStat F c t"
  by (auto simp: GetStat_def Let_def coherent_def coherent_at_def split: option.splits)

text \<open>However base values, modifiers, removals, expirations and reads are interleaved, \<open>GetStat\<close>
  answers the value of the formula \<open>(base + flat) * (1 + percent) * product\<close> over the current
  modifiers, rounded and clamped, provided the container is used for modifiers of one stat (the
  monsters' containers hold only speed modifiers).
\<close>

theorem cached_stat_equals_formula:
  assumes "\<forall>x \<in> set ops. op_type_ok t0 x"
  shows "fst (GetStat F t (fold (run_mod F) ops new_modifiers)) =
    CalculateStat F (fold (run_mod F) ops new_modifiers) t"
proof -
  have "one_type t0 new_modifiers" by (simp add: one_type_def new_modifiers_def)
  from run_mods_ok [OF coherent_new this assms] show ?thesis by (blast intro: GetStat_coherent)
qed

lemma floor_halves [simp]:
  "\<lfloor>4001 / 2 :: rat\<rfloor> = 2000" "\<lfloor>8001 / 2 :: rat\<rfloor> = 4000" "\<lfloor>2001 / 2 :: rat\<rfloor> = 1000"
  by (simp_all add: floor_eq_iff)

definition slow :: "int \<Rightarrow> rat StatModifier" where
  "slow s = \<lparr> sm_type = Speed, sm_op = PercentMult, sm_value = 1/2, sm_sourceId = s,
     sm_expirationTime = 5, sm_allowStacking = False \<rparr>"

definition demo_mods :: "rat mod_op list" where
  "demo_mods = [MSetBase Speed 4, MAdd (slow 1000), MGet Speed, MAdd (slow 2000)]"

theorem cached_stat_equals_formula_witness:
  "fst (GetStat rat_flops Speed (fold (run_mod rat_flops) demo_mods new_modifiers)) = 1 \<and>
   list_all (op_type_ok Speed) demo_mods"
proof -
  have ok: "\<forall>x \<in> set demo_mods. op_type_ok Speed x" by (simp add: demo_mods_def slow_def)
  have "CalculateStat rat_flops (fold (run_mod rat_flops) demo_mods new_modifiers) Speed = 1"
    by (simp add: demo_mods_def slow_def modifier_defs Let_def)
  with cached_stat_equals_formula [OF ok, of rat_flops Speed] ok show ?thesis by (simp add: list_all_iff)
qed

text \<open>
  With two types in one container the restriction is needed: after the only speed modifier is
  removed by its source, the tail that \<open>RemoveBySourceId\<close> scans holds the attack modifier that was
  moved to the front, so the speed entry is not marked and \<open>GetStat\<close> answers the old value.
\<close>

definition attack_up :: "rat StatModifier" where
  "attack_up = \<lparr> sm_type = Attack, sm_op = Flat, sm_value = 3, sm_sourceId = 7,
     sm_expirationTime = 0, sm_allowStacking = False \<rparr>"

definition stale_mods :: "rat mod_op list" where
  "stale_mods = [MSetBase Speed 4, MAdd (slow 1000), MAdd attack_up, MGet Speed, MRemove 1000]"

lemma stale_stat_after_removal:
  "fst (GetStat rat_flops Speed (fold (run_mod rat_flops) stale_mods new_modifiers)) = 2"
  "CalculateStat rat_flops (fold (run_mod rat_flops) stale_mods new_modifiers) Speed = 4"
  by (simp_all add: stale_mods_def slow_def attack_up_def modifier_defs Let_def)

text \<open>The refresh policy: at most one modifier that does not stack per source and type.\<close>

definition refreshed :: "'f ModifierContainer \<Rightarrow> bool" where
  "refreshed c \<longleftrightarrow> distinct (map (\<lambda>m. (sm_sourceId m, sm_type m)) (filter (\<lambda>m. \<not> sm_allowStacking m) (mc_modifiers c)))"

lemma refreshed_AddModifier:
  assumes "refreshed c"
  shows "refreshed (AddModifier m c)"
proof -
  have swap: "filter P (filter Q xs) = filter Q (filter P xs)" for P Q and xs :: "'a StatModifier list"
    by (simp add: conj_commute)
  show ?thesis
    using assms unfolding refreshed_def
    by (auto simp: AddModifier_def SetDirty_def remove_if_def Let_def swap [of "\<lambda>m. \<not> sm_allowStacking m"]
          simp del: filter_filter intro: distinct_map_filter)
qed

end
