(* ===== verification/Inventory.thy ===== *)
theory Inventory
  imports Game_Data
begin

text \<open>
  A player's weapons and passives (\<open>Entity/PlayerInventory.cpp\<close>) and the level-up options drawn
  from them (\<open>Game/LevelUpManager.cpp\<close>, without \<open>ApplySelection\<close>, which needs the player and is in
  \<open>Player\<close>). The two hash maps are association lists from item id to level, in iteration order.

  The two halves of the inventory run the same algorithm on different tables. The locale
  \<open>item_slots\<close> states what one half promises; both are interpretations of it.
\<close>

section \<open>The inventory\<close>

abbreviation MAX_WEAPON_SLOTS :: nat where "MAX_WEAPON_SLOTS \<equiv> 6"
abbreviation MAX_PASSIVE_SLOTS :: nat where "MAX_PASSIVE_SLOTS \<equiv> 6"

record PlayerInventory =
  inv_weapons :: "(int \<times> int) list"
  inv_passives :: "(int \<times> int) list"

definition new_inventory :: PlayerInventory where
  "new_inventory = \<lparr> inv_weapons = [], inv_passives = [] \<rparr>"

definition AddOrUpgradeWeapon ::
  "'f DataManager \<Rightarrow> int \<Rightarrow> PlayerInventory \<Rightarrow> bool \<times> PlayerInventory" where
  "AddOrUpgradeWeapon dm weaponId v =
     (case map_of (inv_weapons v) weaponId of
        Some level \<Rightarrow>
          (case GetWeaponInfo dm weaponId of
             None \<Rightarrow> (False, v)
           | Some tmpl \<Rightarrow>
               if level \<ge> wi_maxLevel tmpl then (False, v)
               else (True, v\<lparr> inv_weapons := AList.update weaponId (level + 1) (inv_weapons v) \<rparr>))
      | None \<Rightarrow>
          if length (inv_weapons v) \<ge> MAX_WEAPON_SLOTS then (False, v)
          else (True, v\<lparr> inv_weapons := AList.update weaponId 1 (inv_weapons v) \<rparr>))"

definition AddOrUpgradePassive ::
  "'f DataManager \<Rightarrow> int \<Rightarrow> PlayerInventory \<Rightarrow> bool \<times> PlayerInventory" where
  "AddOrUpgradePassive dm passiveId v =
     (case map_of (inv_passives v) passiveId of
        Some level \<Rightarrow>
          (case GetPassiveInfo dm passiveId of
             None \<Rightarrow> (False, v)
           | Some tmpl \<Rightarrow>
               if level \<ge> ps_maxLevel tmpl then (False, v)
               else (True, v\<lparr> inv_passives := AList.update passiveId (level + 1) (inv_passives v) \<rparr>))
      | None \<Rightarrow>
          if length (inv_passives v) \<ge> MAX_PASSIVE_SLOTS then (False, v)
          else (True, v\<lparr> inv_passives := AList.update passiveId 1 (inv_passives v) \<rparr>))"

definition GetOwnedWeaponIds :: "PlayerInventory \<Rightarrow> int list" where
  "GetOwnedWeaponIds v = map fst (inv_weapons v)"

definition GetOwnedPassiveIds :: "PlayerInventory \<Rightarrow> int list" where
  "GetOwnedPassiveIds v = map fst (inv_passives v)"

definition GetWeaponLevel :: "PlayerInventory \<Rightarrow> int \<Rightarrow> int" where
  "GetWeaponLevel v i = (case map_of (inv_weapons v) i of Some l \<Rightarrow> l | None \<Rightarrow> 0)"

definition GetPassiveLevel :: "PlayerInventory \<Rightarrow> int \<Rightarrow> int" where
  "GetPassiveLevel v i = (case map_of (inv_passives v) i of Some l \<Rightarrow> l | None \<Rightarrow> 0)"

definition HasEmptyWeaponSlot :: "PlayerInventory \<Rightarrow> bool" where
  "HasEmptyWeaponSlot v \<longleftrightarrow> length (inv_weapons v) < MAX_WEAPON_SLOTS"

definition HasEmptyPassiveSlot :: "PlayerInventory \<Rightarrow> bool" where
  "HasEmptyPassiveSlot v \<longleftrightarrow> length (inv_passives v) < MAX_PASSIVE_SLOTS"

definition IsWeaponMaxLevel :: "'f DataManager \<Rightarrow> PlayerInventory \<Rightarrow> int \<Rightarrow> bool" where
  "IsWeaponMaxLevel dm v i =
     (case map_of (inv_weapons v) i of
        None \<Rightarrow> False
      | Some level \<Rightarrow>
          (case GetWeaponInfo dm i of None \<Rightarrow> False | Some tmpl \<Rightarrow> level \<ge> wi_maxLevel tmpl))"

definition IsPassiveMaxLevel :: "'f DataManager \<Rightarrow> PlayerInventory \<Rightarrow> int \<Rightarrow> bool" where
  "IsPassiveMaxLevel dm v i =
     (case map_of (inv_passives v) i of
        None \<Rightarrow> False
      | Some level \<Rightarrow>
          (case GetPassiveInfo dm i of None \<Rightarrow> False | Some tmpl \<Rightarrow> level \<ge> ps_maxLevel tmpl))"

definition RemoveWeapon :: "int \<Rightarrow> PlayerInventory \<Rightarrow> PlayerInventory" where
  "RemoveWeapon i v = v\<lparr> inv_weapons := AList.delete i (inv_weapons v) \<rparr>"

definition RemovePassive :: "int \<Rightarrow> PlayerInventory \<Rightarrow> PlayerInventory" where
  "RemovePassive i v = v\<lparr> inv_passives := AList.delete i (inv_passives v) \<rparr>"

definition HasPassive :: "PlayerInventory \<Rightarrow> int \<Rightarrow> bool" where
  "HasPassive v i \<longleftrightarrow> map_of (inv_passives v) i \<noteq> None"

lemmas inventory_defs [conc] = AddOrUpgradeWeapon_def AddOrUpgradePassive_def GetOwnedWeaponIds_def
  GetOwnedPassiveIds_def GetWeaponLevel_def GetPassiveLevel_def HasEmptyWeaponSlot_def
  HasEmptyPassiveSlot_def IsWeaponMaxLevel_def IsPassiveMaxLevel_def RemoveWeapon_def
  RemovePassive_def HasPassive_def new_inventory_def

section \<open>One half of the inventory\<close>

text \<open>
  \<open>slots_ok mx cap m\<close>: no item twice, at most \<open>cap\<close> items, every level at least 1, and a level
  above 1 only with a template and up to its maximum (the first level is given without looking the
  item up).
\<close>

definition slots_ok :: "(int \<Rightarrow> int option) \<Rightarrow> nat \<Rightarrow> (int \<times> int) list \<Rightarrow> bool" where
  "slots_ok mx cap m \<longleftrightarrow>
     distinct (map fst m) \<and> length m \<le> cap \<and>
     (\<forall>(i, l) \<in> set m. l \<ge> 1 \<and> (l = 1 \<or> (\<exists>b. mx i = Some b \<and> l \<le> b)))"

lemma slots_ok_empty [simp]: "slots_ok mx cap []"
  by (simp add: slots_ok_def)

lemma set_update_distinct:
  "distinct (map fst m) \<Longrightarrow> set (AList.update k v m) = insert (k, v) {x \<in> set m. fst x \<noteq> k}"
  by (induction m) (auto simp: image_iff split: if_splits)

lemma length_update: "length (AList.update k v m) = (if k \<in> fst ` set m then length m else Suc (length m))"
  by (induction m) auto

lemma slots_ok_update:
  assumes "slots_ok mx cap m" "i \<in> fst ` set m \<or> length m < cap" "l \<ge> 1"
    and "l = 1 \<or> (\<exists>b. mx i = Some b \<and> l \<le> b)"
  shows "slots_ok mx cap (AList.update i l m)"
  using assms unfolding slots_ok_def
  by (auto simp: distinct_update set_update_distinct length_update)

lemma set_delete_subset: "set (AList.delete k m) \<subseteq> set m"
  by (auto simp: AList.delete_eq)

lemma slots_ok_delete: "slots_ok mx cap m \<Longrightarrow> slots_ok mx cap (AList.delete i m)"
  unfolding slots_ok_def using length_delete_le [of i m] distinct_delete [of m i] set_delete_subset [of i m]
  by (meson le_trans subsetD)

locale item_slots =
  fixes table :: "'v \<Rightarrow> (int \<times> int) list"
    and add :: "'d \<Rightarrow> int \<Rightarrow> 'v \<Rightarrow> bool \<times> 'v"
    and del :: "int \<Rightarrow> 'v \<Rightarrow> 'v"
    and mx :: "'d \<Rightarrow> int \<Rightarrow> int option"
    and cap :: nat
  assumes add_owned: "map_of (table v) i = Some l \<Longrightarrow> mx d i = Some b \<Longrightarrow> l < b \<Longrightarrow>
      fst (add d i v) \<and> table (snd (add d i v)) = AList.update i (l + 1) (table v)"
    and add_new: "map_of (table v) i = None \<Longrightarrow> length (table v) < cap \<Longrightarrow>
      fst (add d i v) \<and> table (snd (add d i v)) = AList.update i 1 (table v)"
    and add_refused: "(\<exists>l. map_of (table v) i = Some l \<and> (\<forall>b. mx d i = Some b \<longrightarrow> b \<le> l)) \<or>
      (map_of (table v) i = None \<and> cap \<le> length (table v)) \<Longrightarrow> add d i v = (False, v)"
    and del_table: "table (del i v) = AList.delete i (table v)"
begin

text \<open>The three cases are exhaustive: a refusal changes nothing and a success adds one level.\<close>

lemma add_cases:
  obtains (owned) l b where "map_of (table v) i = Some l" "mx d i = Some b" "l < b"
  | (new) "map_of (table v) i = None" "length (table v) < cap"
  | (refused) "(\<exists>l. map_of (table v) i = Some l \<and> (\<forall>b. mx d i = Some b \<longrightarrow> b \<le> l)) \<or>
      (map_of (table v) i = None \<and> cap \<le> length (table v))"
proof (cases "map_of (table v) i")
  case None
  then show thesis using that(2,3) by (cases "length (table v) < cap") (auto simp: not_less)
next
  case (Some l)
  then show thesis
    using that(1,3) by (cases "\<exists>b. mx d i = Some b \<and> l < b") (auto simp: not_less)
qed

lemma add_ok:
  assumes ok: "slots_ok (mx d) cap (table v)"
  shows "slots_ok (mx d) cap (table (snd (add d i v)))"
proof (cases rule: add_cases [of v i d])
  case (owned l b)
  then have "i \<in> fst ` set (table v)" by (metis domI dom_map_of_conv_image_fst)
  moreover have "l \<ge> 1" using ok owned(1) by (auto simp: slots_ok_def dest: map_of_SomeD)
  ultimately show ?thesis
    using owned add_owned [OF owned] by (auto intro!: slots_ok_update [OF ok])
next
  case new
  then show ?thesis using add_new [OF new] by (auto intro!: slots_ok_update [OF ok])
next
  case refused
  then show ?thesis using add_refused [OF refused] ok by simp
qed

lemma del_ok: "slots_ok (mx d) cap (table v) \<Longrightarrow> slots_ok (mx d) cap (table (del i v))"
  by (simp add: del_table slots_ok_delete)

lemma add_success:
  assumes "fst (add d i v)"
  shows "map_of (table (snd (add d i v))) =
    (map_of (table v))(i \<mapsto> (case map_of (table v) i of None \<Rightarrow> 1 | Some l \<Rightarrow> l + 1))"
proof (cases rule: add_cases [of v i d])
  case (owned l b)
  then show ?thesis using add_owned [OF owned] by (simp add: update_conv')
next
  case new
  then show ?thesis using add_new [OF new] by (simp add: update_conv')
next
  case refused
  then show ?thesis using add_refused [OF refused] assms by simp
qed

lemma add_failure: "\<not> fst (add d i v) \<Longrightarrow> snd (add d i v) = v"
  using add_owned add_new add_refused
  by (cases rule: add_cases [of v i d]) (metis snd_conv)+

lemma add_succeeds_iff:
  "fst (add d i v) \<longleftrightarrow>
     (case map_of (table v) i of
        None \<Rightarrow> length (table v) < cap
      | Some l \<Rightarrow> (\<exists>b. mx d i = Some b \<and> l < b))"
proof (cases rule: add_cases [of v i d])
  case (owned l b)
  then show ?thesis using add_owned [OF owned] by simp
next
  case new
  then show ?thesis using add_new [OF new] by simp
next
  case refused
  then show ?thesis using add_refused [OF refused] by auto
qed

end

definition max_weapon :: "'f DataManager \<Rightarrow> int \<Rightarrow> int option" where
  "max_weapon dm i = map_option wi_maxLevel (GetWeaponInfo dm i)"

definition max_passive :: "'f DataManager \<Rightarrow> int \<Rightarrow> int option" where
  "max_passive dm i = map_option ps_maxLevel (GetPassiveInfo dm i)"

interpretation wslots: item_slots inv_weapons AddOrUpgradeWeapon RemoveWeapon max_weapon 6
  by unfold_locales
    (auto simp: AddOrUpgradeWeapon_def RemoveWeapon_def max_weapon_def split: option.splits)

interpretation pslots: item_slots inv_passives AddOrUpgradePassive RemovePassive max_passive 6
  by unfold_locales
    (auto simp: AddOrUpgradePassive_def RemovePassive_def max_passive_def split: option.splits)

section \<open>The invariant of the inventory\<close>

definition inventory_ok :: "'f DataManager \<Rightarrow> PlayerInventory \<Rightarrow> bool" where
  "inventory_ok dm v \<longleftrightarrow>
     slots_ok (max_weapon dm) 6 (inv_weapons v) \<and> slots_ok (max_passive dm) 6 (inv_passives v)"

datatype inv_op = OpWeapon int | OpPassive int | OpDropWeapon int | OpDropPassive int

fun run_inv :: "'f DataManager \<Rightarrow> inv_op \<Rightarrow> PlayerInventory \<Rightarrow> PlayerInventory" where
  "run_inv dm (OpWeapon i) v = snd (AddOrUpgradeWeapon dm i v)"
| "run_inv dm (OpPassive i) v = snd (AddOrUpgradePassive dm i v)"
| "run_inv dm (OpDropWeapon i) v = RemoveWeapon i v"
| "run_inv dm (OpDropPassive i) v = RemovePassive i v"

lemma other_half [simp]:
  "inv_passives (snd (AddOrUpgradeWeapon dm i v)) = inv_passives v"
  "inv_weapons (snd (AddOrUpgradePassive dm i v)) = inv_weapons v"
  "inv_passives (RemoveWeapon i v) = inv_passives v"
  "inv_weapons (RemovePassive i v) = inv_weapons v"
  by (auto simp: inventory_defs split: option.splits)

lemma run_inv_ok [inv_intros]: "inventory_ok dm v \<Longrightarrow> inventory_ok dm (run_inv dm op v)"
  by (cases op) (auto simp: inventory_ok_def wslots.add_ok wslots.del_ok pslots.add_ok pslots.del_ok)

lemma new_inventory_ok [simp]: "inventory_ok dm new_inventory"
  by (simp add: inventory_ok_def new_inventory_def)

text \<open>C32. Whatever sequence of acquisitions, upgrades and removals a player goes through, the inventory
  holds at most six weapons and six passives, none twice, and the level of every item lies between
  1 and the maximum of its template (1 for an item without a template).
\<close>

theorem inventory_bounds:
  fixes dm :: "'f DataManager" and ops :: "inv_op list"
  defines "v \<equiv> fold (run_inv dm) ops new_inventory"
  shows "length (GetOwnedWeaponIds v) \<le> MAX_WEAPON_SLOTS \<and> distinct (GetOwnedWeaponIds v) \<and>
    length (GetOwnedPassiveIds v) \<le> MAX_PASSIVE_SLOTS \<and> distinct (GetOwnedPassiveIds v) \<and>
    (\<forall>i \<in> set (GetOwnedWeaponIds v). 1 \<le> GetWeaponLevel v i \<and>
       (GetWeaponLevel v i = 1 \<or> (\<exists>t. GetWeaponInfo dm i = Some t \<and> GetWeaponLevel v i \<le> wi_maxLevel t))) \<and>
    (\<forall>i \<in> set (GetOwnedPassiveIds v). 1 \<le> GetPassiveLevel v i \<and>
       (GetPassiveLevel v i = 1 \<or> (\<exists>t. GetPassiveInfo dm i = Some t \<and> GetPassiveLevel v i \<le> ps_maxLevel t)))"
proof -
  have "inventory_ok dm (fold (run_inv dm) ops u)" if "inventory_ok dm u" for u
    using that by (induction ops arbitrary: u) (auto intro: run_inv_ok)
  then have ok: "inventory_ok dm v" by (simp add: v_def)
  have level: "map_of m i = Some l \<Longrightarrow> (i, l) \<in> set m" for m :: "(int \<times> int) list" and i l
    by (rule map_of_SomeD)
  have has: "i \<in> fst ` set m \<Longrightarrow> \<exists>l. map_of m i = Some l" for m :: "(int \<times> int) list" and i
    by (metis domD dom_map_of_conv_image_fst)
  show ?thesis
    using ok unfolding inventory_ok_def slots_ok_def max_weapon_def max_passive_def
    by (fastforce simp: inventory_defs dest!: has dest: level)
qed

definition one_weapon :: "int DataManager" where
  "one_weapon = AddWeaponInfoForTest \<lparr> wi_id = 4, wi_name = ''whip'', wi_description = [], wi_icon = [],
     wi_maxLevel = 2, wi_weight = 100, wi_uniqueGroup = 0, wi_evolutionId = 5,
     wi_evolutionPassiveId = 9, wi_levels = [] \<rparr> empty_data"

lemmas one_weapon_defs = one_weapon_def AddWeaponInfoForTest_def empty_data_def data_lookups

theorem inventory_bounds_witness:
  "GetWeaponLevel (fold (run_inv one_weapon) [OpWeapon 4, OpWeapon 4, OpWeapon 4, OpPassive 9] new_inventory) 4
     = 2 \<and>
   length (GetOwnedWeaponIds (fold (run_inv one_weapon)
     [OpWeapon 4, OpWeapon 4, OpWeapon 4, OpPassive 9] new_inventory)) \<le> 6"
  using inventory_bounds [of one_weapon "[OpWeapon 4, OpWeapon 4, OpWeapon 4, OpPassive 9]"]
  by (simp add: inventory_defs one_weapon_defs)

section \<open>Level-up options\<close>

datatype LevelUpOptionType = WEAPON | PASSIVE

record LevelUpOption =
  lo_optionId :: int
  lo_type :: LevelUpOptionType
  lo_itemId :: int
  lo_name :: string
  lo_desc :: string
  lo_isNew :: bool

text \<open>The description of the next level: the first entry of the level array with that number.\<close>

definition level_desc :: "('l \<Rightarrow> int) \<Rightarrow> ('l \<Rightarrow> string) \<Rightarrow> 'l list \<Rightarrow> int \<Rightarrow> string" where
  "level_desc lev desc ls n =
     (case List.find (\<lambda>l. lev l = n) ls of None \<Rightarrow> ''Level Up'' | Some l \<Rightarrow> desc l)"

text \<open>The evolution branch of the weapon loop: the evolved template when it is to be offered.\<close>

definition evolution_of :: "'f DataManager \<Rightarrow> PlayerInventory \<Rightarrow> 'f WeaponInfo \<Rightarrow> int \<Rightarrow> 'f WeaponInfo option" where
  "evolution_of dm v tmpl level =
     (if level \<ge> wi_maxLevel tmpl \<and> wi_evolutionId tmpl > 0 \<and>
         GetPassiveLevel v (wi_evolutionPassiveId tmpl) > 0
      then (case GetWeaponInfo dm (wi_evolutionId tmpl) of
              None \<Rightarrow> None
            | Some evo \<Rightarrow> if GetWeaponLevel v (wi_id evo) = 0 then Some evo else None)
      else None)"

definition weapon_option :: "'f DataManager \<Rightarrow> PlayerInventory \<Rightarrow> int \<Rightarrow> int \<times> 'f WeaponInfo \<Rightarrow> LevelUpOption option" where
  "weapon_option dm v oid e =
     (let weaponId = fst e; tmpl = snd e; level = GetWeaponLevel v weaponId in
      case evolution_of dm v tmpl level of
        Some evo \<Rightarrow>
          Some \<lparr> lo_optionId = oid, lo_type = WEAPON, lo_itemId = wi_id evo,
                 lo_name = wi_name evo @ '' (EVOLVED)'', lo_desc = wi_description evo, lo_isNew = True \<rparr>
      | None \<Rightarrow>
          if level = 0 then
            (if HasEmptyWeaponSlot v
             then Some \<lparr> lo_optionId = oid, lo_type = WEAPON, lo_itemId = weaponId,
                         lo_name = wi_name tmpl, lo_desc = wi_description tmpl, lo_isNew = True \<rparr>
             else None)
          else if level < wi_maxLevel tmpl
          then Some \<lparr> lo_optionId = oid, lo_type = WEAPON, lo_itemId = weaponId,
                      lo_name = wi_name tmpl,
                      lo_desc = level_desc wl_level wl_desc (wi_levels tmpl) (level + 1),
                      lo_isNew = False \<rparr>
          else None)"

definition passive_option :: "'f DataManager \<Rightarrow> PlayerInventory \<Rightarrow> int \<Rightarrow> int \<times> 'f PassiveInfo \<Rightarrow> LevelUpOption option" where
  "passive_option dm v oid e =
     (let passiveId = fst e; tmpl = snd e; level = GetPassiveLevel v passiveId in
      if level = 0 then
        (if HasEmptyPassiveSlot v
         then Some \<lparr> lo_optionId = oid, lo_type = PASSIVE, lo_itemId = passiveId,
                     lo_name = ps_name tmpl, lo_desc = ps_description tmpl, lo_isNew = True \<rparr>
         else None)
      else if level < ps_maxLevel tmpl
      then Some \<lparr> lo_optionId = oid, lo_type = PASSIVE, lo_itemId = passiveId,
                  lo_name = ps_name tmpl,
                  lo_desc = level_desc pl_level pl_desc (ps_levels tmpl) (level + 1),
                  lo_isNew = False \<rparr>
      else None)"

text \<open>A loop over one table: \<open>optionId\<close> counts the options pushed so far.\<close>

fun pool_loop :: "(int \<Rightarrow> 'e \<Rightarrow> LevelUpOption option) \<Rightarrow> 'e list \<Rightarrow> int \<times> LevelUpOption list \<Rightarrow> int \<times> LevelUpOption list" where
  "pool_loop opt [] st = st"
| "pool_loop opt (e # es) st =
     pool_loop opt es (case opt (fst st) e of None \<Rightarrow> st | Some x \<Rightarrow> (fst st + 1, snd st @ [x]))"

definition BuildCandidatePool :: "'f DataManager \<Rightarrow> PlayerInventory \<Rightarrow> LevelUpOption list" where
  "BuildCandidatePool dm v =
     snd (pool_loop (passive_option dm v) (GetAllPassives dm)
           (pool_loop (weapon_option dm v) (GetAllWeapons dm) (0, [])))"

definition option_weight :: "'f DataManager \<Rightarrow> LevelUpOption \<Rightarrow> int" where
  "option_weight dm x =
     (if lo_type x = WEAPON
      then (case GetWeaponInfo dm (lo_itemId x) of Some t \<Rightarrow> wi_weight t | None \<Rightarrow> 100)
      else (case GetPassiveInfo dm (lo_itemId x) of Some t \<Rightarrow> ps_weight t | None \<Rightarrow> 100))"

text \<open>
  The inner loop of \<open>SelectRandom\<close>: the option at which the cumulative weight passes the random
  value, and the rest of the pool. The sum of the weights is an \<open>int\<close> of the source; tables whose
  weights sum to \<open>2 ^ 31\<close> or more are outside the model.
\<close>

fun pick :: "(LevelUpOption \<Rightarrow> int) \<Rightarrow> int \<Rightarrow> int \<Rightarrow> LevelUpOption list \<Rightarrow> (LevelUpOption \<times> LevelUpOption list) option" where
  "pick w r cumulative [] = None"
| "pick w r cumulative (x # xs) =
     (if r < cumulative + w x then Some (x, xs)
      else map_option (\<lambda>(y, ys). (y, x # ys)) (pick w r (cumulative + w x) xs))"

text \<open>
  The outer loop, \<open>n\<close> rounds left. \<open>dis i total\<close> is the value drawn with \<open>i\<close> rounds to follow, from
  \<open>uniform_int_distribution(0, total - 1)\<close>.
\<close>

fun select_loop ::
  "(LevelUpOption \<Rightarrow> int) \<Rightarrow> (nat \<Rightarrow> int \<Rightarrow> int) \<Rightarrow> nat \<Rightarrow> LevelUpOption list \<Rightarrow> LevelUpOption list \<Rightarrow> LevelUpOption list" where
  "select_loop w dis 0 tempPool result = result"
| "select_loop w dis (Suc n) tempPool result =
     (let total = sum_list (map w tempPool) in
      if total \<le> 0 then result
      else case pick w (dis n total) 0 tempPool of
             None \<Rightarrow> select_loop w dis n tempPool result
           | Some (x, rest) \<Rightarrow> select_loop w dis n rest (result @ [x]))"

definition SelectRandom ::
  "'f DataManager \<Rightarrow> (nat \<Rightarrow> int \<Rightarrow> int) \<Rightarrow> LevelUpOption list \<Rightarrow> nat \<Rightarrow> LevelUpOption list" where
  "SelectRandom dm dis pool cnt =
     (if pool = [] then []
      else if length pool \<le> cnt then pool
      else select_loop (option_weight dm) dis cnt pool [])"

definition GenerateOptions :: "'f DataManager \<Rightarrow> (nat \<Rightarrow> int \<Rightarrow> int) \<Rightarrow> PlayerInventory \<Rightarrow> LevelUpOption list" where
  "GenerateOptions dm dis v =
     (let pool = BuildCandidatePool dm v in
      if pool = [] then [] else SelectRandom dm dis pool (min 3 (length pool)))"

lemmas level_up_defs [conc] = level_desc_def evolution_of_def weapon_option_def passive_option_def
  BuildCandidatePool_def option_weight_def SelectRandom_def GenerateOptions_def Let_def

subsection \<open>The candidate pool\<close>

text \<open>The numbering: option \<open>k\<close> of the pool has id \<open>k\<close>, so the options are pairwise different.\<close>

definition numbered :: "int \<times> LevelUpOption list \<Rightarrow> bool" where
  "numbered st \<longleftrightarrow> map lo_optionId (snd st) = map int [0..<length (snd st)] \<and> fst st = int (length (snd st))"

lemma pool_loop_numbered:
  assumes "\<And>i e x. opt i e = Some x \<Longrightarrow> lo_optionId x = i" "numbered st"
  shows "numbered (pool_loop opt es st)"
  using assms(2)
proof (induction es arbitrary: st)
  case (Cons e es)
  have "numbered (case opt (fst st) e of None \<Rightarrow> st | Some x \<Rightarrow> (fst st + 1, snd st @ [x]))"
    using Cons.prems assms(1) by (auto simp: numbered_def split: option.splits)
  then show ?case using Cons.IH by simp
qed simp

lemma option_ids:
  "weapon_option dm v i e = Some x \<Longrightarrow> lo_optionId x = i"
  "passive_option dm v i e' = Some x \<Longrightarrow> lo_optionId x = i"
  by (auto simp: weapon_option_def passive_option_def Let_def split: option.splits if_splits)

lemma option_types:
  "weapon_option dm v i e = Some x \<Longrightarrow> lo_type x = WEAPON"
  "passive_option dm v i e' = Some x \<Longrightarrow> lo_type x = PASSIVE"
  by (auto simp: weapon_option_def passive_option_def Let_def split: option.splits if_splits)

lemma pool_numbered:
  "map lo_optionId (BuildCandidatePool dm v) = map int [0..<length (BuildCandidatePool dm v)]"
proof -
  have "numbered (0, [])" by (simp add: numbered_def)
  then show ?thesis
    unfolding BuildCandidatePool_def
    using pool_loop_numbered [where opt = "passive_option dm v"]
      pool_loop_numbered [where opt = "weapon_option dm v"] option_ids
    by (metis numbered_def)
qed

lemma pool_distinct: "distinct (BuildCandidatePool dm v)"
  using pool_numbered [of dm v] by (metis distinct_map distinct_upt inj_on_of_nat)

lemma pool_loop_set:
  "x \<in> set (snd (pool_loop opt es st)) \<Longrightarrow> x \<in> set (snd st) \<or> (\<exists>i. \<exists>e \<in> set es. opt i e = Some x)"
proof (induction es arbitrary: st)
  case (Cons e es)
  then show ?case by (cases "opt (fst st) e") fastforce+
qed simp

lemma pool_set:
  "x \<in> set (BuildCandidatePool dm v) \<Longrightarrow>
     (\<exists>i. \<exists>e \<in> set (dm_weapons dm). weapon_option dm v i e = Some x) \<or>
     (\<exists>i. \<exists>e \<in> set (dm_passives dm). passive_option dm v i e = Some x)"
  by (auto simp: BuildCandidatePool_def data_lookups dest!: pool_loop_set)

subsection \<open>Random selection\<close>

lemma pick_mset: "pick w r c xs = Some (y, ys) \<Longrightarrow> mset xs = add_mset y (mset ys)"
  by (induction xs arbitrary: c y ys) (auto split: if_splits)

lemma pick_some:
  assumes "r < c + sum_list (map w xs)" "xs \<noteq> []"
  shows "\<exists>y ys. pick w r c xs = Some (y, ys)"
  using assms
proof (induction xs arbitrary: c)
  case (Cons x xs)
  show ?case
  proof (cases "r < c + w x")
    case False
    with Cons.prems have "r < (c + w x) + sum_list (map w xs)" "xs \<noteq> []" by (auto simp: algebra_simps)
    from Cons.IH [OF this] False show ?thesis by auto
  qed simp
qed simp

lemma select_loop_subset:
  "mset (select_loop w dis n pool result) \<subseteq># mset pool + mset result"
proof (induction n arbitrary: pool result)
  case (Suc n)
  show ?case
  proof (cases "pick w (dis n (sum_list (map w pool))) 0 pool")
    case None
    then show ?thesis using Suc [of pool result] by (simp add: Let_def)
  next
    case (Some p)
    obtain x rest where p: "p = (x, rest)" by fastforce
    show ?thesis
      using Some Suc [of rest "result @ [x]"] pick_mset [of w _ 0 pool x rest] by (simp add: p Let_def)
  qed
qed simp

lemma sum_list_map_pos:
  fixes w :: "'a \<Rightarrow> int"
  assumes "\<And>x. x \<in> set xs \<Longrightarrow> w x > 0" "xs \<noteq> []"
  shows "0 < sum_list (map w xs)"
  using assms
proof (induction xs)
  case (Cons x xs)
  then show ?case by (cases "xs = []") (auto intro: add_pos_pos)
qed simp

lemma distinct_sub_mset:
  assumes "mset xs \<subseteq># mset ys" "distinct ys"
  shows "distinct xs"
  unfolding distinct_count_atmost_1
proof
  fix a
  have "count (mset xs) a \<le> 1"
    using mset_subset_eq_count [OF assms(1), of a] assms(2) [unfolded distinct_count_atmost_1]
    by (metis le_trans linorder_linear order_refl zero_le_one)
  moreover have "a \<in> set xs \<longleftrightarrow> 0 < count (mset xs) a"
    using count_mset_gt_0 [of a xs] count_mset_0_iff [of xs a] by (metis less_numeral_extra(3))
  ultimately show "count (mset xs) a = (if a \<in> set xs then 1 else 0)"
    by (metis One_nat_def Suc_leI le_antisym not_gr_zero)
qed

lemma select_loop_length:
  assumes "\<And>x. x \<in> set pool \<Longrightarrow> w x > 0" "n \<le> length pool"
    and "\<And>i t. 0 < t \<Longrightarrow> 0 \<le> dis i t \<and> dis i t < t"
  shows "length (select_loop w dis n pool result) = n + length result"
  using assms(1,2)
proof (induction n arbitrary: pool result)
  case (Suc n)
  have ne: "pool \<noteq> []" using Suc.prems(2) by auto
  have "0 < sum_list (map w pool)"
    using Suc.prems(1) ne by (rule sum_list_map_pos)
  then have lt: "dis n (sum_list (map w pool)) < 0 + sum_list (map w pool)" using assms(3) by simp
  obtain x rest where p: "pick w (dis n (sum_list (map w pool))) 0 pool = Some (x, rest)"
    using pick_some [OF lt ne] by auto
  have m: "mset pool = add_mset x (mset rest)" using pick_mset [OF p] .
  have "set rest \<subseteq> set pool" using m by (metis set_mset_mset set_mset_add_mset_insert subset_insertI)
  moreover have "n \<le> length rest" using m Suc.prems(2) by (metis Suc_le_mono size_add_mset size_mset)
  ultimately have "length (select_loop w dis n rest (result @ [x])) = n + length (result @ [x])"
    using Suc.prems(1) by (intro Suc.IH) auto
  then show ?case using p \<open>0 < sum_list (map w pool)\<close> by (simp add: Let_def)
qed simp

lemma generate_subset: "mset (GenerateOptions dm dis v) \<subseteq># mset (BuildCandidatePool dm v)"
  using select_loop_subset [where result = "[]"]
  by (auto simp: GenerateOptions_def SelectRandom_def Let_def)

text \<open>With positive weights, a level-up offers exactly three options, or every candidate when there
  are fewer; they are candidates of the pool and pairwise different, whatever the random generator
  draws.
\<close>

theorem options_generated:
  assumes weights: "\<forall>x \<in> set (BuildCandidatePool dm v). option_weight dm x > 0"
    and draws: "\<forall>i t. 0 < t \<longrightarrow> 0 \<le> dis i t \<and> dis i t < t"
  shows "length (GenerateOptions dm dis v) = min 3 (length (BuildCandidatePool dm v)) \<and>
    set (GenerateOptions dm dis v) \<subseteq> set (BuildCandidatePool dm v) \<and>
    distinct (GenerateOptions dm dis v)"
proof -
  let ?p = "BuildCandidatePool dm v"
  have "length (GenerateOptions dm dis v) = min 3 (length ?p)"
    using select_loop_length [of ?p "option_weight dm" "min 3 (length ?p)" dis "[]"] weights draws
    by (auto simp: GenerateOptions_def SelectRandom_def Let_def)
  moreover have "set (GenerateOptions dm dis v) \<subseteq> set ?p"
    using generate_subset [of dm dis v] by (metis set_mset_mono set_mset_mset)
  moreover have "distinct (GenerateOptions dm dis v)"
    using generate_subset [of dm dis v] pool_distinct [of dm v]
    by (rule distinct_sub_mset)
  ultimately show ?thesis by blast
qed

definition first_draw :: "nat \<Rightarrow> int \<Rightarrow> int" where
  "first_draw i t = 0"

definition weapon_row :: "int \<Rightarrow> int \<times> int WeaponInfo" where
  "weapon_row i = (i, \<lparr> wi_id = i, wi_name = ''w'', wi_description = [], wi_icon = [],
     wi_maxLevel = 2, wi_weight = 100, wi_uniqueGroup = 0, wi_evolutionId = 20,
     wi_evolutionPassiveId = 9, wi_levels = [] \<rparr>)"

definition demo_data :: "int DataManager" where
  "demo_data = empty_data\<lparr> dm_weapons := map weapon_row [4, 5, 6, 7, 20] \<rparr>"

lemmas demo_data_defs = demo_data_def weapon_row_def empty_data_def data_lookups first_draw_def

theorem options_generated_witness:
  "length (GenerateOptions demo_data first_draw new_inventory) = 3 \<and>
   distinct (GenerateOptions demo_data first_draw new_inventory)"
  using options_generated [of demo_data new_inventory first_draw]
  by (simp add: conc demo_data_defs)

subsection \<open>Every option that is offered can be applied\<close>

text \<open>What a selection does to the inventory (\<open>ApplySelection\<close> calls one of the two by type).\<close>

definition apply_option :: "'f DataManager \<Rightarrow> LevelUpOption \<Rightarrow> PlayerInventory \<Rightarrow> bool \<times> PlayerInventory" where
  "apply_option dm x v =
     (if lo_type x = WEAPON then AddOrUpgradeWeapon dm (lo_itemId x) v
      else AddOrUpgradePassive dm (lo_itemId x) v)"

lemma table_wf_lookup: "table_wf key m \<Longrightarrow> (k, x) \<in> set m \<Longrightarrow> map_of m k = Some x"
  by (simp add: table_wf_def)

lemma level_owned:
  "slots_ok mx cap m \<Longrightarrow> (case map_of m i of Some l \<Rightarrow> l | None \<Rightarrow> 0) = 0 \<longleftrightarrow> map_of m i = None"
  by (auto simp: slots_ok_def dest: map_of_SomeD split: option.splits)

lemma weapon_option_applies:
  assumes "data_wf dm" "inventory_ok dm v" "e \<in> set (dm_weapons dm)" "weapon_option dm v i e = Some x"
    and "\<not> lo_isNew x \<or> HasEmptyWeaponSlot v"
  shows "lo_type x = WEAPON \<and> fst (AddOrUpgradeWeapon dm (lo_itemId x) v)"
proof -
  have look: "map_of (dm_weapons dm) (fst e) = Some (snd e)"
    using assms(1,3) table_wf_lookup [of wi_id "dm_weapons dm" "fst e" "snd e"] by (simp add: data_wf_def)
  have own: "GetWeaponLevel v j = 0 \<longleftrightarrow> map_of (inv_weapons v) j = None" for j
    using assms(2) level_owned unfolding GetWeaponLevel_def inventory_ok_def by blast
  show ?thesis
  proof (cases "evolution_of dm v (snd e) (GetWeaponLevel v (fst e))")
    case (Some evo)
    then have "map_of (inv_weapons v) (wi_id evo) = None"
      using own by (auto simp: evolution_of_def split: if_splits option.splits)
    then show ?thesis
      using Some assms(4,5)
      by (auto simp: weapon_option_def Let_def wslots.add_succeeds_iff HasEmptyWeaponSlot_def)
  next
    case None
    show ?thesis
    proof (cases "map_of (inv_weapons v) (fst e)")
      case None': None
      then show ?thesis
        using None assms(4) own
        by (auto simp: weapon_option_def Let_def wslots.add_succeeds_iff HasEmptyWeaponSlot_def split: if_splits)
    next
      case (Some l)
      then have "GetWeaponLevel v (fst e) = l" "GetWeaponLevel v (fst e) \<noteq> 0"
        using own [of "fst e"] by (simp_all add: GetWeaponLevel_def)
      then show ?thesis
        using None Some assms(4) look
        by (auto simp: weapon_option_def Let_def wslots.add_succeeds_iff max_weapon_def GetWeaponInfo_def
              split: if_splits)
    qed
  qed
qed

lemma passive_option_applies:
  assumes "data_wf dm" "inventory_ok dm v" "e \<in> set (dm_passives dm)" "passive_option dm v i e = Some x"
  shows "lo_type x = PASSIVE \<and> fst (AddOrUpgradePassive dm (lo_itemId x) v)"
proof -
  have look: "map_of (dm_passives dm) (fst e) = Some (snd e)"
    using assms(1,3) table_wf_lookup [of ps_id "dm_passives dm" "fst e" "snd e"] by (simp add: data_wf_def)
  have own: "GetPassiveLevel v j = 0 \<longleftrightarrow> map_of (inv_passives v) j = None" for j
    using assms(2) level_owned unfolding GetPassiveLevel_def inventory_ok_def by blast
  show ?thesis
  proof (cases "map_of (inv_passives v) (fst e)")
    case None
    then show ?thesis
      using assms(4) own
      by (auto simp: passive_option_def Let_def pslots.add_succeeds_iff HasEmptyPassiveSlot_def split: if_splits)
  next
    case (Some l)
    then have "GetPassiveLevel v (fst e) = l" "GetPassiveLevel v (fst e) \<noteq> 0"
      using own [of "fst e"] by (simp_all add: GetPassiveLevel_def)
    then show ?thesis
      using Some assms(4) look
      by (auto simp: passive_option_def Let_def pslots.add_succeeds_iff max_passive_def GetPassiveInfo_def
            split: if_splits)
  qed
qed

text \<open>Over well-formed tables and a legal inventory, every option a level-up offers can be applied
  and raises exactly the offered item by one level, with one exception: an option for a new weapon
  while all six weapon slots are taken (the pool offers evolutions without looking for a slot).
\<close>

theorem offered_options_apply:
  assumes "data_wf dm" "inventory_ok dm v" "x \<in> set (GenerateOptions dm dis v)"
    and "\<not> (lo_type x = WEAPON \<and> lo_isNew x) \<or> HasEmptyWeaponSlot v"
  shows "fst (apply_option dm x v) \<and> inventory_ok dm (snd (apply_option dm x v)) \<and>
    (lo_type x = WEAPON \<longrightarrow>
       GetWeaponLevel (snd (apply_option dm x v)) (lo_itemId x) = GetWeaponLevel v (lo_itemId x) + 1) \<and>
    (lo_type x = PASSIVE \<longrightarrow>
       GetPassiveLevel (snd (apply_option dm x v)) (lo_itemId x) = GetPassiveLevel v (lo_itemId x) + 1)"
proof -
  have "x \<in> set (BuildCandidatePool dm v)"
    using assms(3) generate_subset [of dm dis v] by (metis mset_subset_eqD set_mset_mset)
  from pool_set [OF this] have f: "fst (apply_option dm x v)"
  proof (elim disjE exE bexE)
    fix i e assume e: "e \<in> set (dm_weapons dm)" and o: "weapon_option dm v i e = Some x"
    from option_types(1) [OF o] weapon_option_applies [OF assms(1,2) e o] assms(4)
    show ?thesis by (simp add: apply_option_def)
  next
    fix i e assume e: "e \<in> set (dm_passives dm)" and o: "passive_option dm v i e = Some x"
    from passive_option_applies [OF assms(1,2) e o] show ?thesis by (simp add: apply_option_def)
  qed
  moreover have "inventory_ok dm (snd (apply_option dm x v))"
    using run_inv_ok [OF assms(2), of "OpWeapon (lo_itemId x)"] run_inv_ok [OF assms(2), of "OpPassive (lo_itemId x)"]
    by (simp add: apply_option_def)
  ultimately show ?thesis
    using wslots.add_success [of dm "lo_itemId x" v] pslots.add_success [of dm "lo_itemId x" v]
    by (auto simp: apply_option_def GetWeaponLevel_def GetPassiveLevel_def split: option.splits)
qed

definition offered :: LevelUpOption where
  "offered = hd (GenerateOptions demo_data first_draw new_inventory)"

lemma demo_data_wf: "data_wf demo_data"
  by (simp add: data_wf_def table_wf_def weapons_dense_def passives_dense_def demo_data_defs)

theorem offered_options_apply_witness:
  "fst (apply_option demo_data offered new_inventory) \<and>
   GetWeaponLevel (snd (apply_option demo_data offered new_inventory)) (lo_itemId offered) = 1"
proof -
  have o: "GenerateOptions demo_data first_draw new_inventory \<noteq> []" "lo_type offered = WEAPON"
    by (simp_all add: offered_def conc demo_data_defs)
  then have "offered \<in> set (GenerateOptions demo_data first_draw new_inventory)"
    by (simp add: offered_def)
  from offered_options_apply [OF demo_data_wf new_inventory_ok this] o show ?thesis
    by (simp add: HasEmptyWeaponSlot_def GetWeaponLevel_def new_inventory_def)
qed

text \<open>
  The exception is real: with six weapons at their maximum and the passive an evolution asks for,
  the only offers are evolutions, and none of them can be applied.
\<close>

definition full_inventory :: PlayerInventory where
  "full_inventory = \<lparr> inv_weapons = [(4, 2), (5, 2), (6, 2), (7, 2), (31, 1), (32, 1)],
     inv_passives = [(9, 1)] \<rparr>"

lemma evolution_offered_but_refused:
  "inventory_ok demo_data full_inventory"
  "GenerateOptions demo_data first_draw full_inventory \<noteq> []"
  "\<forall>x \<in> set (GenerateOptions demo_data first_draw full_inventory).
     lo_itemId x = 20 \<and> \<not> fst (apply_option demo_data x full_inventory)"
  by (simp_all add: conc demo_data_defs full_inventory_def inventory_ok_def slots_ok_def max_weapon_def
        max_passive_def apply_option_def)

end
