(* ===== verification/Fast_Random.thy ===== *)
theory Fast_Random
  imports Game_Data
begin

text \<open>
  The random generator of the game logic (\<open>System/Utility/FastRandom.h\<close>): xorshift128+ on a pair
  of 64-bit words. The state is passed explicitly.
\<close>

type_synonym FastRandom = "u64 \<times> u64"

definition Next :: "FastRandom \<Rightarrow> u64 \<times> FastRandom" where
  "Next st =
     (let s1 = fst st; s0 = snd st;
          t = s1 XOR push_bit 23 s1;
          n = t XOR s0 XOR drop_bit 18 t XOR drop_bit 5 s0
      in (n + s0, (s0, n)))"

text \<open>The constructor runs ten rounds before the first number is drawn.\<close>

definition seeded :: "u64 \<Rightarrow> FastRandom" where
  "seeded seed = ((snd \<circ> Next) ^^ 10) (seed, seed XOR 0x123456789ABCDEF)"

definition FastRandom_default :: FastRandom where
  "FastRandom_default = seeded 1234567890"

text \<open>\<open>NextFloat\<close> divides the upper 24 bits by \<open>2 ^ 24\<close>; both are floats without rounding.\<close>

definition NextFloat :: "'f::inverse flops \<Rightarrow> FastRandom \<Rightarrow> 'f \<times> FastRandom" where
  "NextFloat F st =
     (let (n, st') = Next st in (of_i32 F (uint (drop_bit 40 n)) / lit F 16777216, st'))"

definition NextFloat_range ::
  "'f::{plus,minus,times,inverse} flops \<Rightarrow> 'f \<Rightarrow> 'f \<Rightarrow> FastRandom \<Rightarrow> 'f \<times> FastRandom" where
  "NextFloat_range F lo hi st = (let (x, st') = NextFloat F st in (lo + x * (hi - lo), st'))"

text \<open>
  \<open>NextInt\<close>: the span \<open>max - min + 1\<close> is a signed 32-bit value that the modulus converts to
  64 unsigned bits, and the remainder is cast back to 32 bits.
\<close>

definition NextInt :: "int \<Rightarrow> int \<Rightarrow> FastRandom \<Rightarrow> int \<times> FastRandom" where
  "NextInt mn mx st =
     (let (n, st') = Next st; r = n mod word_of_int (mx - mn + 1)
      in (mn + sint (ucast r :: 32 word), st'))"

definition NextBool :: "'f::{inverse,ord} flops \<Rightarrow> 'f \<Rightarrow> FastRandom \<Rightarrow> bool \<times> FastRandom" where
  "NextBool F p st = (let (x, st') = NextFloat F st in (x < p, st'))"

lemmas random_defs [conc] = Next_def seeded_def NextFloat_def NextFloat_range_def NextInt_def NextBool_def

lemma top_bits_bound: "uint (drop_bit 40 (n::u64)) < 2 ^ 24"
proof -
  have "uint n < 2 ^ 64" using uint_lt2p [of n] by simp
  then have "uint n div 2 ^ 40 < 2 ^ 24" by simp
  then show ?thesis by (simp add: drop_bit_eq_div uint_div)
qed

text \<open>Bounds of the generator: \<open>NextFloat\<close> lies in \<open>[0, 1)\<close>, and \<open>NextInt\<close> of a range of 32-bit
  numbers whose width fits in 31 bits lies in that range.
\<close>

theorem random_bounds:
  assumes "mn \<le> mx" "mx - mn < 2 ^ 31 - 1"
  shows "0 \<le> fst (NextFloat rat_flops st) \<and> fst (NextFloat rat_flops st) < 1 \<and>
    mn \<le> fst (NextInt mn mx st) \<and> fst (NextInt mn mx st) \<le> mx"
proof -
  obtain n st' where n: "Next st = (n, st')" by (cases "Next st")
  have "uint (drop_bit 40 n) < 16777216" using top_bits_bound [of n] by simp
  then have "rat_of_int (uint (drop_bit 40 n)) < rat_of_int 16777216" by (rule of_int_less_iff [THEN iffD2])
  moreover have "rat_of_int 0 \<le> rat_of_int (uint (drop_bit 40 n))" by (rule of_int_le_iff [THEN iffD2]) simp
  ultimately have f: "0 \<le> fst (NextFloat rat_flops st)" "fst (NextFloat rat_flops st) < 1"
    by (simp_all add: NextFloat_def n)
  define w where "w = mx - mn + 1"
  let ?r = "n mod word_of_int w"
  have w: "uint (word_of_int w :: u64) = w"
    unfolding uint_word_of_int_eq using assms by (intro take_bit_int_eq_self) (simp_all add: w_def)
  have "0 < w" using assms(1) by (simp add: w_def)
  then have r: "uint ?r < w" "0 \<le> uint ?r" by (simp_all add: uint_mod w)
  have "uint (ucast ?r :: 32 word) = uint ?r"
    using r assms(2) w_def by (simp add: unsigned_ucast_eq take_bit_int_eq_self)
  moreover have "signed_take_bit 31 (uint ?r) = uint ?r"
    by (rule signed_take_bit_int_eq_self) (use r assms(2) w_def in linarith)+
  ultimately have "sint (ucast ?r :: 32 word) = uint ?r" by (simp add: sint_uint)
  then have "fst (NextInt mn mx st) = mn + uint ?r" by (simp add: NextInt_def n w_def [symmetric])
  with r f w_def show ?thesis by linarith
qed

theorem random_bounds_witness:
  "0 \<le> fst (NextFloat rat_flops FastRandom_default) \<and> (3::int) \<le> fst (NextInt 3 9 FastRandom_default)"
  using random_bounds [of 3 9 FastRandom_default] by simp

text \<open>
  A generator made on the spot, \<open>FastRandom().NextFloat()\<close>, always starts from the same seed, so it
  always answers the same number. Several emitters draw their critical hits this way.
\<close>

lemma warm_up:
  "1234567890 XOR 0x123456789ABCDEF = (81985530132025149::u64)"
  "Next (1234567890, 81985530132025149) = (158146797588986608, 81985530132025149, 76161267456961459)"
  "Next (81985530132025149, 76161267456961459) = (13030088117166492719, 76161267456961459, 12953926849709531260)"
  "Next (76161267456961459, 12953926849709531260) = (5253636561719607858, 12953926849709531260, 10746453785719628214)"
  "Next (12953926849709531260, 10746453785719628214) = (6814285532430548808, 10746453785719628214, 14514575820420472210)"
  "Next (10746453785719628214, 14514575820420472210) = (242672461266371784, 14514575820420472210, 4174840714555451190)"
  "Next (14514575820420472210, 4174840714555451190) = (5760521962012170987, 4174840714555451190, 1585681247456719797)"
  "Next (4174840714555451190, 1585681247456719797) = (296873225912375193, 1585681247456719797, 17157936052165207012)"
  "Next (1585681247456719797, 17157936052165207012) = (10803474447242445675, 17157936052165207012, 12092282468786790279)"
  "Next (17157936052165207012, 12092282468786790279) = (7162461837024759963, 12092282468786790279, 13516923441947521300)"
  "Next (12092282468786790279, 13516923441947521300) = (3330037893299349545, 13516923441947521300, 8259858525061379861)"
  "Next (13516923441947521300, 8259858525061379861) = (6691124838417116535, 8259858525061379861, 16878010387065288290)"
  by code_simp+

lemma default_draw: "fst (Next FastRandom_default) = 6691124838417116535"
  unfolding FastRandom_default_def seeded_def warm_up(1)
proof -
  have "(10::nat) = Suc (Suc (Suc (Suc (Suc (Suc (Suc (Suc (Suc (Suc 0)))))))))" by simp
  then show "fst (Next (((snd \<circ> Next) ^^ 10) (1234567890, 81985530132025149))) = 6691124838417116535"
    by (simp only: funpow.simps comp_def id_def warm_up fst_conv snd_conv)
qed

end
