(* ===== verification/Game_World.thy ===== *)
theory Game_World
  imports Stat_Modifiers Inventory Fast_Random
begin

text \<open>
  The data of a running room: vectors (\<open>Math/Vector2.h\<close>), the class hierarchy of game objects
  (\<open>Entity/GameObject.h\<close>, \<open>Monster.h\<close>, \<open>Player.h\<close>, \<open>Projectile.h\<close>, \<open>ExpGem.h\<close>), the messages
  sent to the clients, the room itself (\<open>Game/Room.h\<close>), and the operations of the object manager
  (\<open>Game/ObjectManager.h\<close>) and of sending.

  A room reaches one object through several reference-counted pointers: the table of players, the
  table of objects, an emitter's owner. Objects therefore live in a heap, a map from addresses to
  objects, and every table holds addresses.
\<close>

section \<open>Vectors\<close>

record 'f Vector2 =
  v2x :: 'f
  v2y :: 'f

definition vec :: "'f \<Rightarrow> 'f \<Rightarrow> 'f Vector2" where
  "vec a b = \<lparr> v2x = a, v2y = b \<rparr>"

definition kEpsilon :: "'f flops \<Rightarrow> 'f" where
  "kEpsilon F = lit F (1 / 1000000)"

definition IsZero :: "'f::{zero,uminus,ord} flops \<Rightarrow> 'f Vector2 \<Rightarrow> bool" where
  "IsZero F v \<longleftrightarrow> fabs (v2x v) < kEpsilon F \<and> fabs (v2y v) < kEpsilon F"

definition MagnitudeSq :: "'f::{plus,times} Vector2 \<Rightarrow> 'f" where
  "MagnitudeSq v = v2x v * v2x v + v2y v * v2y v"

definition Magnitude :: "'f::{plus,times} flops \<Rightarrow> 'f Vector2 \<Rightarrow> 'f" where
  "Magnitude F v = fsqrt F (MagnitudeSq v)"

definition vsub :: "'f::minus Vector2 \<Rightarrow> 'f Vector2 \<Rightarrow> 'f Vector2" where
  "vsub a b = vec (v2x a - v2x b) (v2y a - v2y b)"

definition DistanceSq :: "'f::{plus,minus,times} Vector2 \<Rightarrow> 'f Vector2 \<Rightarrow> 'f" where
  "DistanceSq a b = MagnitudeSq (vsub a b)"

definition Normalize :: "'f::{zero,plus,times,inverse,ord} flops \<Rightarrow> 'f Vector2 \<Rightarrow> 'f Vector2" where
  "Normalize F v =
     (let mag = Magnitude F v
      in if mag > kEpsilon F then vec (v2x v / mag) (v2y v / mag) else vec 0 0)"

lemmas vector_defs [conc] = vec_def kEpsilon_def IsZero_def MagnitudeSq_def Magnitude_def vsub_def
  DistanceSq_def Normalize_def fabs_def

section \<open>Game objects\<close>

datatype ObjectType = PLAYER | MONSTER | PROJECTILE | ITEM

datatype ObjectState = IDLE | MOVING | ATTACKING | DEAD | DOWNED | KNOCKBACK | STUNNED

record 'f GameObject =
  go_id :: int
  go_state :: ObjectState
  go_stateExpiresAt :: 'f
  go_x :: 'f
  go_y :: 'f
  go_vx :: 'f
  go_vy :: 'f
  go_radius :: 'f
  go_lookLeft :: bool
  go_hp :: int
  go_maxHp :: int
  go_modifiers :: "'f ModifierContainer"

text \<open>The fields that remember what was last sent and the cell key are written but never read by the
server and are left out.\<close>

definition SetPos :: "'f \<Rightarrow> 'f \<Rightarrow> ('f, 'z) GameObject_scheme \<Rightarrow> ('f, 'z) GameObject_scheme" where
  "SetPos x y o' = o'\<lparr> go_x := x, go_y := y \<rparr>"

definition SetVelocity ::
  "'f::{zero,minus,ord} flops \<Rightarrow> 'f \<Rightarrow> 'f \<Rightarrow> ('f, 'z) GameObject_scheme \<Rightarrow> ('f, 'z) GameObject_scheme" where
  "SetVelocity F vx vy o' =
     o'\<lparr> go_vx := vx, go_vy := vy,
        go_lookLeft := (if vx < lit F (- 1 / 10) then True
                        else if vx > lit F (1 / 10) then False else go_lookLeft o') \<rparr>"

definition SetState :: "ObjectState \<Rightarrow> 'f \<Rightarrow> ('f, 'z) GameObject_scheme \<Rightarrow> ('f, 'z) GameObject_scheme" where
  "SetState s e o' = o'\<lparr> go_state := s, go_stateExpiresAt := e \<rparr>"

definition UpdateStateExpiry ::
  "'f::{zero,ord} \<Rightarrow> ('f, 'z) GameObject_scheme \<Rightarrow> ('f, 'z) GameObject_scheme" where
  "UpdateStateExpiry now o' =
     (if go_stateExpiresAt o' > 0 \<and> now \<ge> go_stateExpiresAt o'
      then o'\<lparr> go_state := IDLE, go_stateExpiresAt := 0 \<rparr> else o')"

definition IsControlDisabled :: "('f, 'z) GameObject_scheme \<Rightarrow> bool" where
  "IsControlDisabled o' \<longleftrightarrow> go_state o' = KNOCKBACK \<or> go_state o' = STUNNED \<or> go_state o' = DEAD"

definition IsDead :: "('f, 'z) GameObject_scheme \<Rightarrow> bool" where
  "IsDead o' \<longleftrightarrow> go_state o' = DEAD"

lemmas object_defs [conc] = SetPos_def SetVelocity_def SetState_def UpdateStateExpiry_def
  IsControlDisabled_def IsDead_def

text \<open>The strategies a monster moves by and the behaviours that drive it.\<close>

datatype strategy = CellBased | FluidStacking | SmartFlocking | StrictSeparation | SurroundingFlocking
  | VampireSurvivor

datatype 'f behaviour =
    ChaserAI (ch_speed: 'f) (ch_thinkInterval: 'f) (ch_nextThinkTime: 'f) (ch_hasTarget: bool) (ch_room: bool)
  | WanderAI (wa_speed: 'f) (wa_interval: 'f) (wa_nextTime: 'f) (wa_dirX: 'f) (wa_dirY: 'f)
  | SwarmAI (sw_speed: 'f) (sw_thinkInterval: 'f) (sw_nextThinkTime: 'f) (sw_hasPlayer: bool)
      (sw_playerX: 'f) (sw_playerY: 'f) (sw_room: bool)
  | BossAI

record 'f Monster = "'f GameObject" +
  mo_ai :: "'f behaviour option"
  mo_strategy :: "strategy option"
  mo_typeId :: int
  mo_targetId :: int
  mo_aliveTime :: 'f
  mo_stuckTimer :: 'f
  mo_damageOnContact :: int
  mo_attackCooldown :: 'f
  mo_lastAttackTime :: 'f

datatype EmitterState = COOLING | ACTIVE

record 'f DamageEmitter =
  de_skillId :: int
  de_weaponId :: int
  de_level :: int
  de_owner :: nat
  de_damage :: int
  de_typeId :: int
  de_tickInterval :: 'f
  de_hitRadius :: 'f
  de_timer :: 'f
  de_activeDuration :: 'f
  de_dotInterval :: 'f
  de_dotTimer :: 'f
  de_state :: EmitterState
  de_emitterType :: string
  de_pierce :: int
  de_maxTargetsPerTick :: int
  de_targetRule :: string
  de_lifeTime :: 'f
  de_elapsedTime :: 'f
  de_arcDegrees :: 'f
  de_width :: 'f
  de_height :: 'f
  de_active :: bool

record 'f Player = "'f GameObject" +
  pl_sessionId :: u64
  pl_name :: string
  pl_classId :: int
  pl_currentRoomId :: int
  pl_speed :: 'f
  pl_lastInputTick :: u32
  pl_facingDirX :: 'f
  pl_facingDirY :: 'f
  pl_baseMaxHp :: int
  pl_exp :: int
  pl_maxExp :: int
  pl_plevel :: int
  pl_invincibleUntil :: 'f
  pl_isLevelingUp :: bool
  pl_levelUpStartedAt :: 'f
  pl_emitters :: "'f DamageEmitter list"
  pl_inventory :: PlayerInventory
  pl_pendingLevelUpOptions :: "LevelUpOption list"
  pl_slowedMonsterIds :: "int list"
  pl_isReady :: bool
  pl_godMode :: bool

record 'f Projectile = "'f GameObject" +
  pr_ownerId :: int
  pr_skillId :: int
  pr_typeId :: int
  pr_damage :: int
  pr_lifetime :: 'f
  pr_maxRange :: 'f
  pr_traveledDistance :: 'f
  pr_isHit :: bool
  pr_pierceCount :: int
  pr_hitTargets :: "int list"
  pr_isOrbit :: bool
  pr_orbitRadius :: 'f
  pr_orbitSpeed :: 'f
  pr_currentAngle :: 'f

record 'f ExpGem = "'f GameObject" +
  gem_expAmount :: int
  gem_isPickedUp :: bool
  gem_pickerId :: int

datatype 'f obj = PlayerObj "'f Player" | MonsterObj "'f Monster" | ProjectileObj "'f Projectile"
  | GemObj "'f ExpGem"

fun GetType :: "'f obj \<Rightarrow> ObjectType" where
  "GetType (PlayerObj _) = PLAYER"
| "GetType (MonsterObj _) = MONSTER"
| "GetType (ProjectileObj _) = PROJECTILE"
| "GetType (GemObj _) = ITEM"

text \<open>The part every object has, and a change to that part.\<close>

fun base :: "'f obj \<Rightarrow> 'f GameObject" where
  "base (PlayerObj p) = GameObject.truncate p"
| "base (MonsterObj m) = GameObject.truncate m"
| "base (ProjectileObj p) = GameObject.truncate p"
| "base (GemObj g) = GameObject.truncate g"

fun map_base :: "('f GameObject \<Rightarrow> 'f GameObject) \<Rightarrow> 'f obj \<Rightarrow> 'f obj" where
  "map_base f (PlayerObj p) = PlayerObj (GameObject.extend (f (GameObject.truncate p)) (GameObject.more p))"
| "map_base f (MonsterObj m) = MonsterObj (GameObject.extend (f (GameObject.truncate m)) (GameObject.more m))"
| "map_base f (ProjectileObj p) = ProjectileObj (GameObject.extend (f (GameObject.truncate p)) (GameObject.more p))"
| "map_base f (GemObj g) = GemObj (GameObject.extend (f (GameObject.truncate g)) (GameObject.more g))"

lemma GetType_map_base [simp]: "GetType (map_base f x) = GetType x"
  by (cases x) simp_all

lemma truncate_sel [simp]:
  "go_id (GameObject.truncate x) = go_id x" "go_state (GameObject.truncate x) = go_state x"
  "go_x (GameObject.truncate x) = go_x x" "go_y (GameObject.truncate x) = go_y x"
  "go_vx (GameObject.truncate x) = go_vx x" "go_vy (GameObject.truncate x) = go_vy x"
  "go_hp (GameObject.truncate x) = go_hp x" "go_maxHp (GameObject.truncate x) = go_maxHp x"
  "go_radius (GameObject.truncate x) = go_radius x" "go_lookLeft (GameObject.truncate x) = go_lookLeft x"
  by (simp_all add: GameObject.truncate_def)

lemma extend_id [simp]:
  "GameObject.truncate (GameObject.extend y z) = y"
  by (simp add: GameObject.truncate_def GameObject.extend_def)

lemma base_map_base [simp]: "base (map_base f x) = f (base x)"
  by (cases x) simp_all

abbreviation obj_id :: "'f obj \<Rightarrow> int" where "obj_id x \<equiv> go_id (base x)"
abbreviation obj_dead :: "'f obj \<Rightarrow> bool" where "obj_dead x \<equiv> go_state (base x) = DEAD"

section \<open>Messages\<close>

record 'f ObjectInfo =
  oi_objectId :: int
  oi_type :: ObjectType
  oi_typeId :: int
  oi_x :: 'f
  oi_y :: 'f
  oi_hp :: int
  oi_maxHp :: int
  oi_state :: ObjectState
  oi_vx :: 'f
  oi_vy :: 'f
  oi_lookLeft :: bool

record 'f ObjectPos =
  op_objectId :: int
  op_x :: 'f
  op_y :: 'f
  op_vx :: 'f
  op_vy :: 'f
  op_state :: ObjectState
  op_lookLeft :: bool

record 'f SkillEffect =
  se_caster :: int
  se_skill :: int
  se_x :: 'f
  se_y :: 'f
  se_radius :: 'f
  se_duration :: 'f
  se_arc :: 'f
  se_rotation :: 'f
  se_width :: 'f
  se_height :: 'f

datatype 'f packet =
    S_HpChange int 'f 'f
  | S_PlayerDead int
  | S_ExpChange int int int
  | S_LevelUpOption "LevelUpOption list" 'f 'f
  | S_MoveObjectBatch "'f ObjectPos list" u32
  | S_Knockback int 'f 'f 'f 'f
  | S_UpdateInventory int "(int \<times> int \<times> bool) list"
  | S_SpawnObject "'f ObjectInfo list" u32
  | S_DespawnObject "int list" "int list"
  | S_GameOver int bool
  | S_WaveNotify int 'f
  | S_SkillEffect "'f SkillEffect"
  | S_DamageEffect int "int list" "int list" "bool list"
  | S_PlayerStateAck u32 u32 'f 'f

section \<open>Status effects and spawners\<close>

datatype EffectType = POISON | BURN | SLOW | SPEED_BOOST | ATTACK_UP | DEFENSE_DOWN

record 'f StatusEffect =
  ef_type :: EffectType
  ef_sourceId :: int
  ef_endTime :: 'f
  ef_tickInterval :: 'f
  ef_lastTickTime :: 'f
  ef_value :: 'f

datatype WaveState = NotStarted | InProgress | Completed

record 'f PeriodicSpawner =
  sp_monsterTypeId :: int
  sp_batchCount :: int
  sp_hpMultiplier :: 'f
  sp_interval :: 'f
  sp_timer :: 'f
  sp_remainingDuration :: 'f

section \<open>The room\<close>

text \<open>The lambdas that are posted to a room's strand, one constructor per lambda.\<close>

datatype task =
    DoStop | DoStartGame | DoReset | DoUpdate | DoEnter nat | DoSkills nat "(int \<times> int) list"
  | DoReady u64 | DoLeave u64 | DoGameOver bool | DoAddExp int | DoSpawn int int | DoGodMode
  | DoStrategy string | DoInput nat u32 int int | DoSelect nat int

record 'f room =
  rm_roomId :: int
  rm_heap :: "nat \<rightharpoonup> 'f obj"
  rm_fresh :: nat                       \<comment> \<open>the next unused address\<close>
  rm_players :: "(u64 \<times> nat) list"
  rm_nextId :: int                      \<comment> \<open>\<open>ObjectManager::_nextId\<close>\<close>
  rm_objects :: "(int \<times> nat) list"
  rm_aliveMonsterCount :: int
  rm_cells :: "int \<Rightarrow> int list"          \<comment> \<open>\<open>SpatialGrid::_cells\<close>\<close>
  rm_occupiedCells :: "u64 set"
  rm_effects :: "(int \<times> 'f StatusEffect list) list"
  rm_waveState :: WaveState
  rm_waveTime :: 'f
  rm_waves :: "'f WaveInfo list"
  rm_waveIndex :: nat
  rm_spawners :: "'f PeriodicSpawner list"
  rm_timer :: bool                      \<comment> \<open>a timer service is attached\<close>
  rm_timerHandle :: nat
  rm_strand :: bool                     \<comment> \<open>a strand is attached\<close>
  rm_queue :: "task list"               \<comment> \<open>the tasks posted and not yet run\<close>
  rm_totalRunTime :: 'f
  rm_serverTick :: u32
  rm_gameStarted :: bool
  rm_isGameOver :: bool
  rm_isStopping :: bool
  rm_isUpdating :: bool
  rm_playerCount :: nat
  rm_draws :: nat                       \<comment> \<open>random numbers drawn so far\<close>
  rm_out :: "(u64 \<times> 'f packet) list"  \<comment> \<open>what was handed to the dispatcher, oldest first\<close>

text \<open>
  What a room uses from outside: the float operations, the tables, whether there is a dispatcher,
  whether the message pool has a packet of the size of a message, whether there is a user database,
  and the recycled object (if any) a pool hands out for an address. Every \<open>static thread_local\<close>
  random generator is shared by the rooms its thread runs, so the state it is in at the \<open>n\<close>-th draw
  of a room is arbitrary: \<open>ge_rng n\<close>.
\<close>

record 'f game_env =
  ge_F :: "'f flops"
  ge_dm :: "'f DataManager"
  ge_dispatcher :: bool
  ge_alloc :: "'f packet \<Rightarrow> bool"
  ge_userDB :: bool
  ge_popMonster :: "nat \<Rightarrow> 'f Monster option"
  ge_popProjectile :: "nat \<Rightarrow> 'f Projectile option"
  ge_rng :: "nat \<Rightarrow> FastRandom"
  ge_shuffle :: "nat \<Rightarrow> nat list \<Rightarrow> nat list"  \<comment> \<open>\<open>std::shuffle\<close> with a random device\<close>

text \<open>A random number of a room: \<open>rng.NextFloat(lo, hi)\<close> and \<open>rng.NextFloat()\<close>.\<close>

definition draw :: "'f::inverse game_env \<Rightarrow> 'f room \<Rightarrow> 'f \<times> 'f room" where
  "draw E r = (fst (NextFloat (ge_F E) (ge_rng E (rm_draws r))), r\<lparr> rm_draws := Suc (rm_draws r) \<rparr>)"

definition draw_range ::
  "'f::{plus,minus,times,inverse} game_env \<Rightarrow> 'f \<Rightarrow> 'f \<Rightarrow> 'f room \<Rightarrow> 'f \<times> 'f room" where
  "draw_range E lo hi r =
     (fst (NextFloat_range (ge_F E) lo hi (ge_rng E (rm_draws r))), r\<lparr> rm_draws := Suc (rm_draws r) \<rparr>)"

subsection \<open>The object manager\<close>

definition GenerateId :: "'f room \<Rightarrow> int \<times> 'f room" where
  "GenerateId r = (rm_nextId r + 1, r\<lparr> rm_nextId := rm_nextId r + 1 \<rparr>)"

definition put :: "nat \<Rightarrow> 'f obj \<Rightarrow> 'f room \<Rightarrow> 'f room" where
  "put a x r = r\<lparr> rm_heap := (rm_heap r)(a \<mapsto> x) \<rparr>"

text \<open>A new object at a fresh address.\<close>

definition new_obj :: "'f obj \<Rightarrow> 'f room \<Rightarrow> nat \<times> 'f room" where
  "new_obj x r = (rm_fresh r, (put (rm_fresh r) x r)\<lparr> rm_fresh := Suc (rm_fresh r) \<rparr>)"

definition AddObject :: "nat \<Rightarrow> 'f room \<Rightarrow> 'f room" where
  "AddObject a r =
     (case rm_heap r a of
        None \<Rightarrow> r
      | Some x \<Rightarrow>
          r\<lparr> rm_objects := AList.update (obj_id x) a (rm_objects r),
             rm_aliveMonsterCount := rm_aliveMonsterCount r + (if GetType x = MONSTER then 1 else 0) \<rparr>)"

definition GetObject :: "'f room \<Rightarrow> int \<Rightarrow> nat option" where
  "GetObject r i = map_of (rm_objects r) i"

text \<open>The object an id stands for.\<close>

definition lookup :: "'f room \<Rightarrow> int \<Rightarrow> (nat \<times> 'f obj) option" where
  "lookup r i = (case GetObject r i of
     None \<Rightarrow> None
   | Some a \<Rightarrow> (case rm_heap r a of None \<Rightarrow> None | Some x \<Rightarrow> Some (a, x)))"

definition RemoveObject :: "int \<Rightarrow> 'f room \<Rightarrow> 'f room" where
  "RemoveObject i r =
     (case lookup r i of
        None \<Rightarrow> r
      | Some (a, x) \<Rightarrow>
          r\<lparr> rm_objects := AList.delete i (rm_objects r),
             rm_aliveMonsterCount :=
               (if GetType x = MONSTER \<and> rm_aliveMonsterCount r > 0 then rm_aliveMonsterCount r - 1
                else rm_aliveMonsterCount r) \<rparr>)"

definition ClearObjects :: "'f room \<Rightarrow> 'f room" where
  "ClearObjects r = r\<lparr> rm_objects := [], rm_aliveMonsterCount := 0 \<rparr>"

definition GetObjectCount :: "'f room \<Rightarrow> nat" where
  "GetObjectCount r = length (rm_objects r)"

definition GetAllObjects :: "'f room \<Rightarrow> nat list" where
  "GetAllObjects r = map snd (rm_objects r)"

definition GetAliveMonsterCount :: "'f room \<Rightarrow> int" where
  "GetAliveMonsterCount r = rm_aliveMonsterCount r"

lemmas object_manager_defs [conc] = GenerateId_def put_def new_obj_def AddObject_def GetObject_def lookup_def
  RemoveObject_def ClearObjects_def GetObjectCount_def GetAllObjects_def GetAliveMonsterCount_def

subsection \<open>Sending\<close>

definition SendToPlayer :: "'f game_env \<Rightarrow> u64 \<Rightarrow> 'f packet \<Rightarrow> 'f room \<Rightarrow> 'f room" where
  "SendToPlayer E sid pkt r =
     (if ge_dispatcher E \<and> ge_alloc E pkt then r\<lparr> rm_out := rm_out r @ [(sid, pkt)] \<rparr> else r)"

definition BroadcastPacket_except :: "'f game_env \<Rightarrow> 'f packet \<Rightarrow> u64 \<Rightarrow> 'f room \<Rightarrow> 'f room" where
  "BroadcastPacket_except E pkt ex r =
     (if ge_dispatcher E \<and> ge_alloc E pkt
      then r\<lparr> rm_out := rm_out r @ map (\<lambda>(sid, a). (sid, pkt)) (filter (\<lambda>(sid, a). sid \<noteq> ex) (rm_players r)) \<rparr>
      else r)"

text \<open>The default argument excludes session 0, an id no session has.\<close>

definition BroadcastPacket :: "'f game_env \<Rightarrow> 'f packet \<Rightarrow> 'f room \<Rightarrow> 'f room" where
  "BroadcastPacket E pkt r = BroadcastPacket_except E pkt 0 r"

definition object_info :: "'f::zero obj \<Rightarrow> 'f ObjectInfo" where
  "object_info x =
     \<lparr> oi_objectId = obj_id x, oi_type = GetType x,
       oi_typeId = (case x of MonsterObj m \<Rightarrow> mo_typeId m | ProjectileObj p \<Rightarrow> pr_typeId p | _ \<Rightarrow> 0),
       oi_x = go_x (base x), oi_y = go_y (base x), oi_hp = go_hp (base x), oi_maxHp = go_maxHp (base x),
       oi_state = go_state (base x), oi_vx = go_vx (base x), oi_vy = go_vy (base x),
       oi_lookLeft = go_lookLeft (base x) \<rparr>"

text \<open>The objects behind a list of pointers.\<close>

definition objects_at :: "'f room \<Rightarrow> nat list \<Rightarrow> 'f obj list" where
  "objects_at r as = List.map_filter (rm_heap r) as"

definition BroadcastSpawn :: "'f::zero game_env \<Rightarrow> nat list \<Rightarrow> 'f room \<Rightarrow> 'f room" where
  "BroadcastSpawn E as r =
     (if as = [] then r
      else BroadcastPacket E (S_SpawnObject (map object_info (objects_at r as)) (rm_serverTick r)) r)"

definition BroadcastDespawn :: "'f game_env \<Rightarrow> int list \<Rightarrow> int list \<Rightarrow> 'f room \<Rightarrow> 'f room" where
  "BroadcastDespawn E ids pickers r =
     (if ids = [] then r
      else BroadcastPacket E (S_DespawnObject ids
             (map (\<lambda>i. if i < length pickers then pickers ! i else 0) [0..<length ids])) r)"

lemmas sending_defs [conc] = SendToPlayer_def BroadcastPacket_except_def BroadcastPacket_def object_info_def
  objects_at_def BroadcastSpawn_def BroadcastDespawn_def
  draw_def draw_range_def

end
