(* ===== verification/Spatial_Grid.thy ===== *)
theory Spatial_Grid
  imports Game_World
begin

text \<open>
  The uniform grid over the monsters of a room (\<open>Game/SpatialGrid.h\<close>, \<open>Game/SpatialGrid.cpp\<close>) and
  the range query of the room built on it (\<open>Room::GetMonstersInRange\<close>). Cells are reached through a
  toroidal index of 256 by 256, so distant positions share a cell. The theorem compares a query
  after a rebuild with a scan over all objects.
\<close>

definition GRID_SIZE :: int where "GRID_SIZE = 256"
definition OFFSET :: int where "OFFSET = 1000000"

text \<open>\<open>static_cast<unsigned int>(c + OFFSET) % GRID_SIZE\<close>.\<close>

definition wrap :: "int \<Rightarrow> int" where
  "wrap c = (c + OFFSET) mod 2 ^ 32 mod GRID_SIZE"

definition cell_size :: "'f flops \<Rightarrow> 'f" where
  "cell_size F = lit F 2"

definition cell_of :: "int \<Rightarrow> int \<Rightarrow> int" where
  "cell_of cx cy = wrap cx * GRID_SIZE + wrap cy"

definition GetIndex :: "'f::inverse flops \<Rightarrow> 'f \<Rightarrow> 'f \<Rightarrow> int" where
  "GetIndex F x y = cell_of (floor_i F (x / cell_size F)) (floor_i F (y / cell_size F))"

definition ClearGrid :: "'f room \<Rightarrow> 'f room" where
  "ClearGrid r = r\<lparr> rm_cells := (\<lambda>_. []) \<rparr>"

text \<open>\<open>HardClear\<close> also gives the memory back, which the model does not see.\<close>

definition HardClear :: "'f room \<Rightarrow> 'f room" where
  "HardClear r = ClearGrid r"

definition add_to_cell :: "'f::inverse flops \<Rightarrow> 'f obj \<Rightarrow> (int \<Rightarrow> int list) \<Rightarrow> (int \<Rightarrow> int list)" where
  "add_to_cell F x cells =
     (if GetType x \<noteq> MONSTER \<or> obj_dead x then cells
      else (let i = GetIndex F (go_x (base x)) (go_y (base x)) in cells(i := cells i @ [obj_id x])))"

definition Rebuild :: "'f::inverse flops \<Rightarrow> nat list \<Rightarrow> 'f room \<Rightarrow> 'f room" where
  "Rebuild F as r = r\<lparr> rm_cells := fold (add_to_cell F) (objects_at r as) (\<lambda>_. []) \<rparr>"

definition GetNeighborCells :: "int \<Rightarrow> int list" where
  "GetNeighborCells idx =
     (let cx = idx div GRID_SIZE; cy = idx mod GRID_SIZE in
      concat (map (\<lambda>dx. map (\<lambda>dy. ((cx + dx) mod 2 ^ 32 mod GRID_SIZE) * GRID_SIZE
                                  + (cy + dy) mod 2 ^ 32 mod GRID_SIZE) [-1, 0, 1]) [-1, 0, 1]))"

definition GetMonsterIds :: "'f room \<Rightarrow> int \<Rightarrow> int list" where
  "GetMonsterIds r idx = rm_cells r idx"

text \<open>The inner loop of \<open>Query\<close> over the ids of one cell.\<close>

definition query_hit :: "'f::{plus,minus,times,ord} room \<Rightarrow> 'f \<Rightarrow> 'f \<Rightarrow> 'f \<Rightarrow> int \<Rightarrow> nat option" where
  "query_hit r x y radiusSq i =
     (case lookup r i of
        None \<Rightarrow> None
      | Some (a, obj) \<Rightarrow>
          (let dx = go_x (base obj) - x; dy = go_y (base obj) - y
           in if dx * dx + dy * dy \<le> radiusSq then Some a else None))"

definition query_cell :: "'f::{plus,minus,times,ord} room \<Rightarrow> 'f \<Rightarrow> 'f \<Rightarrow> 'f \<Rightarrow> int list \<Rightarrow> nat list" where
  "query_cell r x y radiusSq ids = List.map_filter (query_hit r x y radiusSq) ids"

definition Query :: "'f::{plus,minus,times,inverse,ord} flops \<Rightarrow> 'f room \<Rightarrow> 'f \<Rightarrow> 'f \<Rightarrow> 'f \<Rightarrow> nat list" where
  "Query F r x y radius =
     (let minX = floor_i F ((x - radius) / cell_size F); maxX = floor_i F ((x + radius) / cell_size F);
          minY = floor_i F ((y - radius) / cell_size F); maxY = floor_i F ((y + radius) / cell_size F)
      in concat (map (\<lambda>cx. concat (map (\<lambda>cy.
           query_cell r x y (radius * radius) (rm_cells r (cell_of cx cy))) [minY..maxY])) [minX..maxX]))"

definition GetMonstersInRange ::
  "'f::{plus,minus,times,inverse,ord} flops \<Rightarrow> 'f room \<Rightarrow> 'f \<Rightarrow> 'f \<Rightarrow> 'f \<Rightarrow> nat list" where
  "GetMonstersInRange F r x y radius =
     filter (\<lambda>a. case rm_heap r a of Some (MonsterObj m) \<Rightarrow> \<not> IsDead m | _ \<Rightarrow> False) (Query F r x y radius)"

lemmas grid_defs [conc] = GRID_SIZE_def OFFSET_def wrap_def cell_size_def cell_of_def GetIndex_def ClearGrid_def
  HardClear_def add_to_cell_def Rebuild_def GetNeighborCells_def GetMonsterIds_def query_hit_def query_cell_def
  Query_def GetMonstersInRange_def

section \<open>What a query finds\<close>

lemma map_filter_set: "set (List.map_filter f xs) = {y. \<exists>x \<in> set xs. f x = Some y}"
  by (force simp: List.map_filter_def)

text \<open>The cells after a rebuild, as a set: the live monsters whose position falls into the cell.\<close>

lemma fold_add_to_cell_set:
  "set (fold (add_to_cell F) xs cells i) =
     set (cells i) \<union> {obj_id x | x. x \<in> set xs \<and> GetType x = MONSTER \<and> \<not> obj_dead x \<and>
       GetIndex F (go_x (base x)) (go_y (base x)) = i}"
proof (induction xs arbitrary: cells)
  case (Cons x xs)
  show ?case using Cons [of "add_to_cell F x cells"] by (auto simp: add_to_cell_def Let_def)
qed simp

lemma query_hit_iff:
  "query_hit r x y rsq i = Some a \<longleftrightarrow>
     (\<exists>obj. lookup r i = Some (a, obj) \<and>
       (go_x (base obj) - x) * (go_x (base obj) - x) + (go_y (base obj) - y) * (go_y (base obj) - y) \<le> rsq)"
  by (cases "lookup r i") (auto simp: query_hit_def Let_def split: if_splits)

lemma query_cell_set:
  "a \<in> set (query_cell r x y rsq ids) \<longleftrightarrow>
     (\<exists>i \<in> set ids. \<exists>obj. lookup r i = Some (a, obj) \<and>
       (go_x (base obj) - x) * (go_x (base obj) - x) + (go_y (base obj) - y) * (go_y (base obj) - y) \<le> rsq)"
  by (simp add: query_cell_def map_filter_set query_hit_iff)

text \<open>Every hit lies within the radius: true for any arithmetic, because the test is the code's own.\<close>

lemma query_sound:
  "a \<in> set (Query F r x y radius) \<Longrightarrow>
     \<exists>i obj. lookup r i = Some (a, obj) \<and>
       (go_x (base obj) - x) * (go_x (base obj) - x) + (go_y (base obj) - y) * (go_y (base obj) - y)
         \<le> radius * radius"
  by (auto simp: Query_def Let_def query_cell_set)

text \<open>A room whose tables are consistent: every id leads to a live address that carries this id.\<close>

definition tables_ok :: "'f room \<Rightarrow> bool" where
  "tables_ok r \<longleftrightarrow> distinct (map fst (rm_objects r)) \<and>
     (\<forall>(i, a) \<in> set (rm_objects r). \<exists>x. rm_heap r a = Some x \<and> obj_id x = i)"

lemma tables_ok_lookup:
  "tables_ok r \<Longrightarrow> (i, a) \<in> set (rm_objects r) \<Longrightarrow> \<exists>x. rm_heap r a = Some x \<and> obj_id x = i \<and> lookup r i = Some (a, x)"
  by (fastforce simp: tables_ok_def lookup_def GetObject_def)

lemma square_bound:
  fixes a b r :: rat
  assumes "a * a + b * b \<le> r * r" "0 \<le> r"
  shows "\<bar>a\<bar> \<le> r"
proof -
  have "a * a \<le> a * a + b * b" by simp
  with assms(1) have "a\<^sup>2 \<le> r\<^sup>2" unfolding power2_eq_square by (rule order_trans [rotated])
  with assms(2) show ?thesis by (metis abs_le_square_iff abs_of_nonneg)
qed

lemma cell_in_range:
  fixes p q r :: rat
  assumes "\<bar>p - q\<bar> \<le> r"
  shows "\<lfloor>p / 2\<rfloor> \<in> {\<lfloor>(q - r) / 2\<rfloor>..\<lfloor>(q + r) / 2\<rfloor>}"
  using assms by (auto simp: abs_le_iff intro!: floor_mono divide_right_mono)

text \<open>C30. The range query is exact: after the grid has been rebuilt from all objects of a consistent
  room, a query finds precisely the live monsters within the radius, no matter how the positions
  wrap around the grid. (Stated over exact arithmetic.)
\<close>

theorem query_exact:
  fixes r :: "rat room"
  assumes "tables_ok r" "0 \<le> radius"
  shows "set (GetMonstersInRange rat_flops (Rebuild rat_flops (GetAllObjects r) r) x y radius) =
    {a. \<exists>i m. (i, a) \<in> set (rm_objects r) \<and> rm_heap r a = Some (MonsterObj m) \<and> \<not> IsDead m \<and>
       (go_x m - x) * (go_x m - x) + (go_y m - y) * (go_y m - y) \<le> radius * radius}"
    (is "?L = ?R")
proof (rule set_eqI)
  fix a
  let ?r = "Rebuild rat_flops (GetAllObjects r) r"
  have look: "lookup ?r = lookup r" "rm_heap ?r = rm_heap r"
    by (auto simp: lookup_def GetObject_def Rebuild_def fun_eq_iff cong: option.case_cong)
  have cells: "set (rm_cells ?r i) =
      {obj_id z | z. z \<in> set (objects_at r (GetAllObjects r)) \<and> GetType z = MONSTER \<and> \<not> obj_dead z \<and>
        GetIndex rat_flops (go_x (base z)) (go_y (base z)) = i}" for i
    using fold_add_to_cell_set [of rat_flops "objects_at r (GetAllObjects r)" "\<lambda>_. []" i]
    by (simp add: Rebuild_def)
  show "a \<in> ?L \<longleftrightarrow> a \<in> ?R"
  proof
    assume "a \<in> ?L"
    then obtain m i obj where m: "rm_heap r a = Some (MonsterObj m)" "\<not> IsDead m"
      and q: "lookup r i = Some (a, obj)"
        "(go_x (base obj) - x) * (go_x (base obj) - x) + (go_y (base obj) - y) * (go_y (base obj) - y)
          \<le> radius * radius"
      using query_sound [of a rat_flops ?r x y radius]
      by (auto simp: GetMonstersInRange_def look split: option.splits obj.splits)
    then have "(i, a) \<in> set (rm_objects r)" "obj = MonsterObj m"
      by (auto simp: lookup_def GetObject_def dest: map_of_SomeD split: option.splits)
    with m q show "a \<in> ?R" by auto
  next
    assume "a \<in> ?R"
    then obtain i m where m: "(i, a) \<in> set (rm_objects r)" "rm_heap r a = Some (MonsterObj m)" "\<not> IsDead m"
      "(go_x m - x) * (go_x m - x) + (go_y m - y) * (go_y m - y) \<le> radius * radius" by auto
    have l: "lookup r i = Some (a, MonsterObj m)" "go_id m = i"
      using tables_ok_lookup [OF assms(1) m(1)] m(2) by auto
    let ?cx = "\<lfloor>go_x m / 2\<rfloor>" and ?cy = "\<lfloor>go_y m / 2\<rfloor>"
    have "MonsterObj m \<in> set (objects_at r (GetAllObjects r))"
      using m(1,2) by (force simp: objects_at_def map_filter_set GetAllObjects_def)
    then have "i \<in> set (rm_cells ?r (cell_of ?cx ?cy))" (is "_ \<in> set ?ids")
      unfolding cells using m(3) l(2)
      by (intro CollectI exI [of _ "MonsterObj m"]) (simp add: GetIndex_def cell_size_def IsDead_def)
    then have "a \<in> set (query_cell ?r x y (radius * radius) ?ids)"
      using l(1) m(4) unfolding query_cell_set look by (intro bexI [of _ i]) simp_all
    moreover have "?cx \<in> {\<lfloor>(x - radius) / 2\<rfloor>..\<lfloor>(x + radius) / 2\<rfloor>}"
      "?cy \<in> {\<lfloor>(y - radius) / 2\<rfloor>..\<lfloor>(y + radius) / 2\<rfloor>}"
      using square_bound [OF m(4) assms(2)] square_bound [of "go_y m - y" "go_x m - x" radius] m(4) assms(2)
      by (simp_all only: cell_in_range add.commute [of "(go_y m - y) * (go_y m - y)"])
    ultimately have "a \<in> set (Query rat_flops ?r x y radius)"
      unfolding Query_def Let_def by (simp add: cell_size_def del: atLeastAtMost_iff) blast
    with m(2,3) show "a \<in> ?L" by (simp add: GetMonstersInRange_def look)
  qed
qed

definition demo_monster :: "int \<Rightarrow> rat \<Rightarrow> rat Monster" where
  "demo_monster i x = \<lparr> go_id = i, go_state = IDLE, go_stateExpiresAt = 0, go_x = x, go_y = 0, go_vx = 0,
     go_vy = 0, go_radius = 1/2, go_lookLeft = False, go_hp = 100, go_maxHp = 100,
     go_modifiers = new_modifiers, mo_ai = None, mo_strategy = Some CellBased, mo_typeId = 1,
     mo_targetId = 0, mo_aliveTime = 0, mo_stuckTimer = 0, mo_damageOnContact = 10,
     mo_attackCooldown = 1, mo_lastAttackTime = - 100 \<rparr>"

definition empty_room :: "int \<Rightarrow> 'f::zero room" where
  "empty_room i = \<lparr> rm_roomId = i, rm_heap = Map.empty, rm_fresh = 0, rm_players = [], rm_nextId = 1000,
     rm_objects = [], rm_aliveMonsterCount = 0, rm_cells = (\<lambda>_. []), rm_occupiedCells = {},
     rm_effects = [], rm_waveState = NotStarted, rm_waveTime = 0, rm_waves = [], rm_waveIndex = 0,
     rm_spawners = [], rm_timer = True, rm_timerHandle = 0, rm_strand = True, rm_queue = [],
     rm_totalRunTime = 0, rm_serverTick = 0, rm_gameStarted = False, rm_isGameOver = False,
     rm_isStopping = False, rm_isUpdating = False, rm_playerCount = 0, rm_draws = 0,
     rm_out = [] \<rparr>"

definition demo_room :: "rat room" where
  "demo_room = (empty_room 1)\<lparr> rm_heap := [0 \<mapsto> MonsterObj (demo_monster 1001 3), 1 \<mapsto> MonsterObj (demo_monster 1002 400)],
     rm_objects := [(1001, 0), (1002, 1)] \<rparr>"

lemma demo_room_ok: "tables_ok demo_room"
  by (simp add: tables_ok_def demo_room_def empty_room_def demo_monster_def)

theorem query_exact_witness:
  "set (GetMonstersInRange rat_flops (Rebuild rat_flops (GetAllObjects demo_room) demo_room) 1 0 5) = {0}"
  unfolding query_exact [OF demo_room_ok, of 5 1 0, simplified]
  by (auto simp: demo_room_def empty_room_def demo_monster_def IsDead_def)

text \<open>
  The result is a list, and the set is all that is promised: when the span of a query reaches the
  width of the grid, two cell coordinates wrap to one cell, and a monster is found twice.
\<close>

lemma wrap_periodic: "wrap (c + 256) = wrap c"
proof -
  have "(x + 256) mod 2 ^ 32 mod 256 = x mod 2 ^ 32 mod (256 :: int)" for x
    by (simp add: mod_mod_cancel)
  from this [of "c + OFFSET"] show ?thesis by (simp add: wrap_def GRID_SIZE_def ac_simps)
qed

end
