(* ===== verification/Game_Monster.thy ===== *)
theory Game_Monster
  imports Spatial_Grid
begin

text \<open>
  Monsters, the other moving objects and their factories (\<open>Entity/Monster.cpp\<close>,
  \<open>Entity/Projectile.cpp\<close>, \<open>Entity/ExpGem.h\<close>, \<open>Entity/MonsterFactory.cpp\<close>,
  \<open>Entity/ProjectileFactory.cpp\<close>). The \<open>Room*\<close> the methods take is the
  room state; a null room, which only tests pass, is not modelled.
\<close>

section \<open>Access to the objects of a room\<close>

definition upd_monster :: "nat \<Rightarrow> ('f Monster \<Rightarrow> 'f Monster) \<Rightarrow> 'f room \<Rightarrow> 'f room" where
  "upd_monster a f r = (case rm_heap r a of Some (MonsterObj m) \<Rightarrow> put a (MonsterObj (f m)) r | _ \<Rightarrow> r)"

definition upd_player :: "nat \<Rightarrow> ('f Player \<Rightarrow> 'f Player) \<Rightarrow> 'f room \<Rightarrow> 'f room" where
  "upd_player a f r = (case rm_heap r a of Some (PlayerObj p) \<Rightarrow> put a (PlayerObj (f p)) r | _ \<Rightarrow> r)"

definition upd_projectile :: "nat \<Rightarrow> ('f Projectile \<Rightarrow> 'f Projectile) \<Rightarrow> 'f room \<Rightarrow> 'f room" where
  "upd_projectile a f r =
     (case rm_heap r a of Some (ProjectileObj p) \<Rightarrow> put a (ProjectileObj (f p)) r | _ \<Rightarrow> r)"

definition player_at :: "'f room \<Rightarrow> nat \<Rightarrow> 'f Player option" where
  "player_at r a = (case rm_heap r a of Some (PlayerObj p) \<Rightarrow> Some p | _ \<Rightarrow> None)"

text \<open>\<open>Room::GetNearestPlayer\<close>: the live player at the least distance, the first of several.\<close>

fun nearest_loop ::
  "'f::{plus,minus,times,ord} room \<Rightarrow> 'f \<Rightarrow> 'f \<Rightarrow> (u64 \<times> nat) list \<Rightarrow> 'f \<Rightarrow> nat option \<Rightarrow> nat option" where
  "nearest_loop r x y [] best near = near"
| "nearest_loop r x y ((sid, a) # ps) best near =
     (case player_at r a of
        None \<Rightarrow> nearest_loop r x y ps best near
      | Some p \<Rightarrow>
          if IsDead p then nearest_loop r x y ps best near
          else (let dx = go_x p - x; dy = go_y p - y; d = dx * dx + dy * dy
                in if d < best then nearest_loop r x y ps d (Some a) else nearest_loop r x y ps best near))"

definition GetNearestPlayer :: "'f::{plus,minus,times,ord} flops \<Rightarrow> 'f room \<Rightarrow> 'f \<Rightarrow> 'f \<Rightarrow> nat option" where
  "GetNearestPlayer F r x y = nearest_loop r x y (rm_players r) (fmaxval F) None"

lemmas access_defs [conc] = upd_monster_def upd_player_def upd_projectile_def player_at_def GetNearestPlayer_def

section \<open>Monsters\<close>

definition LEVELUP_SLOW_SOURCE_ID :: int where "LEVELUP_SLOW_SOURCE_ID = 1000"

definition new_monster :: "'f::zero flops \<Rightarrow> 'f Monster" where
  "new_monster F = \<lparr> go_id = 0, go_state = IDLE, go_stateExpiresAt = 0, go_x = 0, go_y = 0, go_vx = 0,
     go_vy = 0, go_radius = lit F (1/2), go_lookLeft = False, go_hp = 100, go_maxHp = 100,
     go_modifiers = new_modifiers, mo_ai = None, mo_strategy = Some CellBased, mo_typeId = 0,
     mo_targetId = 0, mo_aliveTime = 0, mo_stuckTimer = 0, mo_damageOnContact = 10,
     mo_attackCooldown = lit F 1, mo_lastAttackTime = lit F (- 100) \<rparr>"

definition CanAttack :: "'f::{minus,ord} \<Rightarrow> 'f Monster \<Rightarrow> bool" where
  "CanAttack now m \<longleftrightarrow> now - mo_lastAttackTime m \<ge> mo_attackCooldown m"

definition ResetAttackCooldown :: "'f \<Rightarrow> 'f Monster \<Rightarrow> 'f Monster" where
  "ResetAttackCooldown now m = m\<lparr> mo_lastAttackTime := now \<rparr>"

definition AddLevelUpSlow :: "'f::plus flops \<Rightarrow> 'f \<Rightarrow> 'f \<Rightarrow> 'f Monster \<Rightarrow> 'f Monster" where
  "AddLevelUpSlow F now dur m =
     m\<lparr> go_modifiers := AddModifier \<lparr> sm_type = Speed, sm_op = PercentMult, sm_value = lit F (15/100),
          sm_sourceId = LEVELUP_SLOW_SOURCE_ID, sm_expirationTime = now + dur,
          sm_allowStacking = False \<rparr> (go_modifiers m) \<rparr>"

definition RemoveLevelUpSlow :: "'f Monster \<Rightarrow> 'f Monster" where
  "RemoveLevelUpSlow m = m\<lparr> go_modifiers := RemoveBySourceId LEVELUP_SLOW_SOURCE_ID (go_modifiers m) \<rparr>"

definition AddStatusEffect :: "string \<Rightarrow> 'f::plus \<Rightarrow> 'f \<Rightarrow> 'f \<Rightarrow> 'f Monster \<Rightarrow> 'f Monster" where
  "AddStatusEffect ty v dur now m =
     (if ty = ''SLOW''
      then m\<lparr> go_modifiers := AddModifier \<lparr> sm_type = Speed, sm_op = PercentMult, sm_value = v,
                sm_sourceId = 2000, sm_expirationTime = now + dur, sm_allowStacking = False \<rparr> (go_modifiers m) \<rparr>
      else m)"

definition GetSpeed :: "'f::{zero,plus,times,inverse,ord} flops \<Rightarrow> 'f Monster \<Rightarrow> 'f \<times> 'f Monster" where
  "GetSpeed F m = (let (v, c) = GetStat F Speed (go_modifiers m) in (v, m\<lparr> go_modifiers := c \<rparr>))"

text \<open>\<open>IAIBehavior::Reset\<close>; the chaser draws its next think time.\<close>

fun ai_reset :: "'f::zero \<Rightarrow> 'f behaviour \<Rightarrow> 'f behaviour" where
  "ai_reset d (ChaserAI s i n h rm) = ChaserAI s i d False False"
| "ai_reset d (WanderAI s i n dx dy) = WanderAI s i 0 0 0"
| "ai_reset d (SwarmAI s i n h x y rm) = SwarmAI s i 0 False 0 0 False"
| "ai_reset d BossAI = BossAI"

definition Monster_Reset :: "'f::zero flops \<Rightarrow> 'f \<Rightarrow> 'f Monster \<Rightarrow> 'f Monster" where
  "Monster_Reset F d m =
     m\<lparr> go_id := 0, mo_typeId := 0, mo_targetId := 0, go_x := 0, go_y := 0, go_vx := 0, go_vy := 0,
        go_hp := 100, go_maxHp := 100, mo_aliveTime := 0, go_radius := lit F (1/2),
        mo_damageOnContact := 10, mo_attackCooldown := lit F 1, mo_lastAttackTime := lit F (- 100),
        go_state := IDLE, go_stateExpiresAt := 0, mo_stuckTimer := 0,
        mo_ai := map_option (ai_reset d) (mo_ai m), go_modifiers := ClearModifiers (go_modifiers m) \<rparr>"

definition Monster_Initialize ::
  "'f::zero flops \<Rightarrow> int \<Rightarrow> int \<Rightarrow> int \<Rightarrow> 'f \<Rightarrow> int \<Rightarrow> 'f \<Rightarrow> 'f \<Rightarrow> 'f Monster \<Rightarrow> 'f Monster" where
  "Monster_Initialize F i ty hp radius damage cooldown speed m =
     m\<lparr> go_id := i, mo_typeId := ty, go_hp := hp, go_maxHp := hp, go_radius := radius,
        mo_damageOnContact := damage, mo_attackCooldown := cooldown, mo_lastAttackTime := lit F (- 100),
        mo_aliveTime := 0, go_state := IDLE,
        go_modifiers := SetBaseStat Speed speed (go_modifiers m) \<rparr>"

definition CreateAI :: "'f::zero flops \<Rightarrow> MonsterAIType \<Rightarrow> 'f \<Rightarrow> 'f behaviour" where
  "CreateAI F ty speed =
     (case ty of
        CHASER \<Rightarrow> ChaserAI speed (lit F (1/10)) 0 False False
      | WANDER \<Rightarrow> WanderAI speed (lit F 2) 0 0 0
      | SWARM \<Rightarrow> SwarmAI speed (lit F (3/10)) 0 False 0 0 False
      | BOSS \<Rightarrow> BossAI)"

text \<open>
  \<open>MonsterFactory::CreateMonster\<close>: the pool has no allocation limit, so it always hands out an
  object: a recycled one, after its \<open>Reset\<close>, or a new one.
\<close>

definition pop_monster :: "'f::{zero,plus,minus,times,inverse} game_env \<Rightarrow> 'f room \<Rightarrow> 'f Monster \<times> 'f room" where
  "pop_monster E r =
     (case ge_popMonster E (rm_fresh r) of
        None \<Rightarrow> (new_monster (ge_F E), r)
      | Some m \<Rightarrow> (let (d, r') = draw_range E 0 (lit (ge_F E) (1/10)) r in (Monster_Reset (ge_F E) d m, r')))"

definition CreateMonster ::
  "'f::{zero,plus,minus,times,inverse,ord} game_env \<Rightarrow> int \<Rightarrow> 'f \<Rightarrow> 'f \<Rightarrow> int \<Rightarrow> 'f room \<Rightarrow> nat option \<times> 'f room" where
  "CreateMonster E ty x y hpOverride r =
     (case GetMonsterInfo (ge_dm E) ty of
        None \<Rightarrow> (None, r)
      | Some t \<Rightarrow>
          (let hp = (if hpOverride > 0 then hpOverride else mi_hp t);
               (m, r1) = pop_monster E r;
               (i, r2) = GenerateId r1;
               m1 = Monster_Initialize (ge_F E) i ty hp (mi_radius t) (mi_damageOnContact t)
                      (mi_attackCooldown t) (mi_speed t) m;
               m2 = SetPos x y (SetVelocity (ge_F E) 0 0 m1);
               m3 = m2\<lparr> mo_ai := Some (CreateAI (ge_F E) (mi_aiType t) (mi_speed t)) \<rparr>;
               (a, r3) = new_obj (MonsterObj m3) r2
           in (Some a, r3)))"

section \<open>Experience gems\<close>

definition new_gem :: "'f::zero flops \<Rightarrow> int \<Rightarrow> int \<Rightarrow> 'f ExpGem" where
  "new_gem F i e = \<lparr> go_id = i, go_state = IDLE, go_stateExpiresAt = 0, go_x = 0, go_y = 0, go_vx = 0,
     go_vy = 0, go_radius = lit F (1/2), go_lookLeft = False, go_hp = 100, go_maxHp = 100,
     go_modifiers = new_modifiers, gem_expAmount = e, gem_isPickedUp = False, gem_pickerId = 0 \<rparr>"

definition Gem_Initialize :: "int \<Rightarrow> 'f::zero \<Rightarrow> 'f \<Rightarrow> int \<Rightarrow> 'f ExpGem \<Rightarrow> 'f ExpGem" where
  "Gem_Initialize i x y e g =
     g\<lparr> go_id := i, go_x := x, go_y := y, gem_expAmount := e, go_state := IDLE, go_vx := 0, go_vy := 0 \<rparr>"

definition drop_gem :: "'f::{zero,ord} game_env \<Rightarrow> 'f \<Rightarrow> 'f \<Rightarrow> 'f room \<Rightarrow> 'f room" where
  "drop_gem E x y r =
     (let (i, r1) = GenerateId r;
          (a, r2) = new_obj (GemObj (Gem_Initialize i x y 10 (new_gem (ge_F E) i 10))) r1
      in BroadcastSpawn E [a] (AddObject a r2))"

definition hp_packet :: "'f flops \<Rightarrow> ('f, 'z) GameObject_scheme \<Rightarrow> 'f packet" where
  "hp_packet F x = S_HpChange (go_id x) (of_i32 F (go_hp x)) (of_i32 F (go_maxHp x))"

definition Monster_TakeDamage :: "'f::{zero,ord} game_env \<Rightarrow> int \<Rightarrow> nat \<Rightarrow> 'f room \<Rightarrow> 'f room" where
  "Monster_TakeDamage E damage a r =
     (case rm_heap r a of
        Some (MonsterObj m) \<Rightarrow>
          (if IsDead m then r
           else (let m1 = m\<lparr> go_hp := go_hp m - damage \<rparr>;
                     r1 = BroadcastPacket E (hp_packet (ge_F E) m1) (put a (MonsterObj m1) r)
                 in if go_hp m1 \<le> 0
                    then drop_gem E (go_x m) (go_y m) (put a (MonsterObj (SetState DEAD 0 (m1\<lparr> go_hp := 0 \<rparr>))) r1)
                    else r1))
      | _ \<Rightarrow> r)"

lemmas monster_defs [conc] = LEVELUP_SLOW_SOURCE_ID_def new_monster_def CanAttack_def ResetAttackCooldown_def
  AddLevelUpSlow_def RemoveLevelUpSlow_def AddStatusEffect_def GetSpeed_def Monster_Reset_def
  Monster_Initialize_def CreateAI_def pop_monster_def CreateMonster_def new_gem_def Gem_Initialize_def
  drop_gem_def hp_packet_def Monster_TakeDamage_def

section \<open>Projectiles\<close>

definition new_projectile :: "'f::zero flops \<Rightarrow> 'f Projectile" where
  "new_projectile F = \<lparr> go_id = 0, go_state = IDLE, go_stateExpiresAt = 0, go_x = 0, go_y = 0, go_vx = 0,
     go_vy = 0, go_radius = lit F (1/2), go_lookLeft = False, go_hp = 100, go_maxHp = 100,
     go_modifiers = new_modifiers, pr_ownerId = 0, pr_skillId = 0, pr_typeId = 0, pr_damage = 0,
     pr_lifetime = lit F 5, pr_maxRange = lit F 50, pr_traveledDistance = 0, pr_isHit = False,
     pr_pierceCount = 0, pr_hitTargets = [], pr_isOrbit = False, pr_orbitRadius = 0, pr_orbitSpeed = 0,
     pr_currentAngle = 0 \<rparr>"

definition Projectile_Initialize ::
  "'f::zero flops \<Rightarrow> int \<Rightarrow> int \<Rightarrow> int \<Rightarrow> int \<Rightarrow> 'f Projectile \<Rightarrow> 'f Projectile" where
  "Projectile_Initialize F i owner skill ty p =
     SetState IDLE 0 (p\<lparr> go_id := i, pr_ownerId := owner, pr_skillId := skill, pr_typeId := ty, pr_damage := 0,
       pr_lifetime := lit F 5, pr_maxRange := lit F 50, pr_traveledDistance := 0, go_vx := 0, go_vy := 0,
       go_x := 0, go_y := 0, pr_isHit := False, pr_hitTargets := [], pr_isOrbit := False,
       pr_orbitRadius := 0, pr_orbitSpeed := 0, pr_currentAngle := 0 \<rparr>)"

definition Projectile_Reset :: "'f::zero flops \<Rightarrow> 'f Projectile \<Rightarrow> 'f Projectile" where
  "Projectile_Reset F p =
     SetState IDLE 0 (p\<lparr> go_id := 0, pr_ownerId := 0, pr_skillId := 0, pr_typeId := 0, pr_damage := 0,
       pr_lifetime := 0, pr_maxRange := lit F 50, pr_traveledDistance := 0, go_vx := 0, go_vy := 0,
       pr_isHit := False, pr_hitTargets := [], pr_isOrbit := False,
       pr_orbitRadius := 0, pr_orbitSpeed := 0, pr_currentAngle := 0 \<rparr>)"

text \<open>
  \<open>ProjectileFactory::CreateProjectile\<close>. \<open>configure\<close> stands for the setters (radius, pierce count,
  orbit) that every caller applies to the new object before it enters the object manager.
\<close>

definition CreateProjectile ::
  "'f::{zero,minus,ord} game_env \<Rightarrow> int \<Rightarrow> int \<Rightarrow> int \<Rightarrow> 'f \<Rightarrow> 'f \<Rightarrow> 'f \<Rightarrow> 'f \<Rightarrow> int \<Rightarrow> 'f \<Rightarrow>
    ('f Projectile \<Rightarrow> 'f Projectile) \<Rightarrow> 'f room \<Rightarrow> nat \<times> 'f room" where
  "CreateProjectile E owner skill ty x y vx vy damage life configure r =
     (let F = ge_F E;
          p = (case ge_popProjectile E (rm_fresh r) of None \<Rightarrow> new_projectile F | Some q \<Rightarrow> Projectile_Reset F q);
          (i, r1) = GenerateId r;
          p1 = SetVelocity F vx vy (SetPos x y (Projectile_Initialize F i owner skill ty p));
          p2 = p1\<lparr> pr_damage := damage, pr_lifetime := life \<rparr>
      in new_obj (ProjectileObj (configure p2)) r1)"

definition SetOrbit :: "'f \<Rightarrow> 'f \<Rightarrow> 'f \<Rightarrow> 'f Projectile \<Rightarrow> 'f Projectile" where
  "SetOrbit radius speed angle p =
     p\<lparr> pr_isOrbit := True, pr_orbitRadius := radius, pr_orbitSpeed := speed, pr_currentAngle := angle \<rparr>"

definition IsExpired :: "'f::{zero,ord} Projectile \<Rightarrow> bool" where
  "IsExpired p \<longleftrightarrow> pr_lifetime p \<le> 0 \<or> pr_isHit p \<or> IsDead p"

definition OnHit :: "'f Projectile \<Rightarrow> bool \<times> 'f Projectile" where
  "OnHit p =
     (if pr_pierceCount p \<noteq> 0
      then (False, if pr_pierceCount p > 0 then p\<lparr> pr_pierceCount := pr_pierceCount p - 1 \<rparr> else p)
      else (True, p\<lparr> pr_isHit := True \<rparr>))"

definition GetHitCount :: "'f Projectile \<Rightarrow> int" where
  "GetHitCount p = int (length (pr_hitTargets p))"

definition HasHit :: "int \<Rightarrow> 'f Projectile \<Rightarrow> bool" where
  "HasHit i p \<longleftrightarrow> i \<in> set (pr_hitTargets p)"

definition AddHit :: "int \<Rightarrow> 'f Projectile \<Rightarrow> 'f Projectile" where
  "AddHit i p = p\<lparr> pr_hitTargets := pr_hitTargets p @ [i] \<rparr>"

definition UpdateLinear :: "'f::{zero,plus,times,ord} flops \<Rightarrow> 'f \<Rightarrow> 'f Projectile \<Rightarrow> 'f Projectile" where
  "UpdateLinear F dt p =
     (let speed = fsqrt F (go_vx p * go_vx p + go_vy p * go_vy p);
          p1 = p\<lparr> pr_traveledDistance := pr_traveledDistance p + speed * dt \<rparr>
      in if pr_traveledDistance p1 \<ge> pr_maxRange p1 then SetState DEAD 0 p1
         else p1\<lparr> go_x := go_x p1 + go_vx p1 * dt, go_y := go_y p1 + go_vy p1 * dt \<rparr>)"

definition UpdateOrbit ::
  "'f::{zero,plus,minus,uminus,times,ord} flops \<Rightarrow> 'f \<Rightarrow> 'f room \<Rightarrow> 'f Projectile \<Rightarrow> 'f Projectile" where
  "UpdateOrbit F dt r p =
     (case lookup r (pr_ownerId p) of
        None \<Rightarrow> SetState DEAD 0 p
      | Some (oa, owner) \<Rightarrow>
          if obj_dead owner then SetState DEAD 0 p
          else (let angle = pr_currentAngle p + pr_orbitSpeed p * dt;
                    p1 = p\<lparr> pr_currentAngle := angle \<rparr>;
                    tx = go_x (base owner) + pr_orbitRadius p * fcos F angle;
                    ty = go_y (base owner) + pr_orbitRadius p * fsin F angle;
                    vx = (- pr_orbitRadius p) * fsin F angle * pr_orbitSpeed p;
                    vy = pr_orbitRadius p * fcos F angle * pr_orbitSpeed p
                in SetVelocity F vx vy (SetPos tx ty p1)))"

definition Projectile_Update ::
  "'f::{zero,plus,minus,uminus,times,ord} game_env \<Rightarrow> 'f \<Rightarrow> nat \<Rightarrow> 'f room \<Rightarrow> 'f room" where
  "Projectile_Update E dt a r =
     upd_projectile a (\<lambda>p.
       if IsDead p then p
       else (let p1 = (if pr_isOrbit p then UpdateOrbit (ge_F E) dt r p else UpdateLinear (ge_F E) dt p);
                 p2 = p1\<lparr> pr_lifetime := pr_lifetime p1 - dt \<rparr>
             in if pr_lifetime p2 \<le> 0 \<or> pr_isHit p2 then SetState DEAD 0 p2 else p2)) r"

lemmas projectile_defs [conc] = new_projectile_def Projectile_Initialize_def Projectile_Reset_def
  CreateProjectile_def SetOrbit_def IsExpired_def OnHit_def GetHitCount_def HasHit_def AddHit_def
  UpdateLinear_def UpdateOrbit_def Projectile_Update_def

end
