(* ===== verification/Monster_Movement.thy ===== *)
theory Monster_Movement
  imports Game_Monster
begin

text \<open>
  How monsters move: the movement strategies (\<open>Entity/AI/Movement\<close>) and the behaviours that use them
  (\<open>Entity/AI/ChaserAI.cpp\<close>, \<open>WanderAI.cpp\<close>, \<open>SwarmAI.cpp\<close>, \<open>BossAI.cpp\<close>), up to
  \<open>Monster::Update\<close>.
\<close>

section \<open>Cells\<close>

text \<open>The key of a unit cell in the occupancy map: two 32-bit coordinates side by side.\<close>

definition cell_key :: "int \<Rightarrow> int \<Rightarrow> u64" where
  "cell_key x y = push_bit 32 (ucast (word_of_int x :: u32)) OR ucast (word_of_int y :: u32)"

definition IsCellOccupied :: "'f room \<Rightarrow> int \<Rightarrow> int \<Rightarrow> bool" where
  "IsCellOccupied r x y \<longleftrightarrow> cell_key x y \<in> rm_occupiedCells r"

definition OccupyCell :: "int \<Rightarrow> int \<Rightarrow> 'f room \<Rightarrow> 'f room" where
  "OccupyCell x y r = r\<lparr> rm_occupiedCells := insert (cell_key x y) (rm_occupiedCells r) \<rparr>"

definition ClearOccupancyMap :: "'f room \<Rightarrow> 'f room" where
  "ClearOccupancyMap r = r\<lparr> rm_occupiedCells := {} \<rparr>"

text \<open>The candidate loop of the cell strategy: the free cell nearest to the target, the first of several.\<close>

fun best_cell ::
  "'f::{plus,minus,times,ord} flops \<Rightarrow> 'f room \<Rightarrow> 'f \<Rightarrow> 'f \<Rightarrow> (int \<times> int) list \<Rightarrow> 'f \<Rightarrow> (int \<times> int) option \<Rightarrow> (int \<times> int) option" where
  "best_cell F r tx ty [] best found = found"
| "best_cell F r tx ty ((cx, cy) # cs) best found =
     (if IsCellOccupied r cx cy then best_cell F r tx ty cs best found
      else (let ex = tx - (of_i32 F cx + lit F (1/2)); ey = ty - (of_i32 F cy + lit F (1/2));
                d = ex * ex + ey * ey
            in if d < best then best_cell F r tx ty cs d (Some (cx, cy)) else best_cell F r tx ty cs best found))"

definition candidates :: "int \<Rightarrow> int \<Rightarrow> (int \<times> int) list" where
  "candidates x y = [(x, y), (x + 1, y), (x - 1, y), (x, y + 1), (x, y - 1), (x + 1, y + 1), (x - 1, y + 1),
     (x + 1, y - 1), (x - 1, y - 1)]"

text \<open>
  \<open>CellBasedMovementStrategy::CalculateMovement\<close>: the velocity, the monster (whose stat cache the
  speed query may fill) and the room with the cell it reserved.
\<close>

definition CellBased_Movement ::
  "'f::{zero,plus,minus,times,inverse,ord} flops \<Rightarrow> 'f \<Rightarrow> 'f \<Rightarrow> 'f Monster \<Rightarrow> 'f room \<Rightarrow> ('f \<times> 'f) \<times> 'f Monster \<times> 'f room" where
  "CellBased_Movement F tx ty m r =
     (let mx = go_x m; my = go_y m; dx = tx - mx; dy = ty - my; distSq = dx * dx + dy * dy in
      if distSq < lit F (1/4) then ((0, 0), m, r)
      else
        (let (speed, m1) = GetSpeed F m;
             dist = fsqrt F distSq; nx = dx / dist; ny = dy / dist;
             cx = floor_i F (mx + nx * lit F 1); cy = floor_i F (my + ny * lit F 1);
             (bx, by) = (case best_cell F r tx ty (candidates cx cy) (lit F 999999) None of
                           Some c \<Rightarrow> c | None \<Rightarrow> (floor_i F mx, floor_i F my));
             r1 = OccupyCell bx by r;
             vdx = (of_i32 F bx + lit F (1/2)) - mx; vdy = (of_i32 F by + lit F (1/2)) - my;
             vDist = fsqrt F (vdx * vdx + vdy * vdy)
         in if vDist > lit F (5/100)
            then (let cur = (if vDist < lit F (1/2) then speed * (vDist / lit F (1/2)) else speed);
                      tvx = (vdx / vDist) * cur; tvy = (vdy / vDist) * cur
                  in ((go_vx m * lit F (8/10) + tvx * lit F (2/10), go_vy m * lit F (8/10) + tvy * lit F (2/10)), m1, r1))
            else ((0, 0), m1, r1)))"

section \<open>Neighbours\<close>

text \<open>
  The strategies that keep a distance look at the monsters around. \<open>near_monsters\<close> answers them with
  their addresses; the monster that moves is among them and is skipped by its address or by its id.
  The loops collect the separation vector and the number of monsters it comes from.
\<close>

definition near_monsters ::
  "'f::{plus,minus,times,inverse,ord} flops \<Rightarrow> 'f room \<Rightarrow> 'f \<Rightarrow> 'f \<Rightarrow> 'f \<Rightarrow> (nat \<times> 'f Monster) list" where
  "near_monsters F r x y d =
     List.map_filter (\<lambda>a. case rm_heap r a of Some (MonsterObj n) \<Rightarrow> Some (a, n) | _ \<Rightarrow> None)
       (GetMonstersInRange F r x y d)"

text \<open>Normalising a vector unless it is too short.\<close>

definition unit_len :: "'f::{plus,times,inverse,ord} flops \<Rightarrow> 'f \<Rightarrow> 'f \<Rightarrow> 'f \<times> 'f" where
  "unit_len F nx ny =
     (let l = fsqrt F (nx * nx + ny * ny) in if l > lit F (1/1000) then (nx / l, ny / l) else (nx, ny))"

text \<open>The side (left or right of the direction) in which the separation pushes more.\<close>

definition side :: "'f::{plus,uminus,times,ord} \<Rightarrow> 'f \<Rightarrow> 'f \<Rightarrow> 'f \<Rightarrow> 'f \<times> 'f" where
  "side nx ny sepX sepY =
     (if sepX * (- ny) + sepY * nx > sepX * ny + sepY * (- nx) then (- ny, nx) else (ny, - nx))"

section \<open>Fluid stacking and surrounding\<close>

fun fluid_loop ::
  "'f::{plus,minus,times,inverse,ord} flops \<Rightarrow> nat \<Rightarrow> 'f Monster \<Rightarrow> 'f \<Rightarrow> 'f \<Rightarrow> (nat \<times> 'f Monster) list \<Rightarrow>
    'f \<times> 'f \<times> int \<times> bool \<Rightarrow> 'f \<times> 'f \<times> int \<times> bool" where
  "fluid_loop F a m nx ny [] acc = acc"
| "fluid_loop F a m nx ny ((b, n) # ns) (sepX, sepY, k, blocked) =
     (if b = a then fluid_loop F a m nx ny ns (sepX, sepY, k, blocked)
      else
        (let ox = go_x n - go_x m; oy = go_y n - go_y m; d2 = ox * ox + oy * oy;
             rSum = go_radius m + go_radius n
         in if d2 < rSum * rSum * lit F (121/100) \<and> d2 > lit F (1/1000)
            then (let d = fsqrt F d2; dot = (ox / d) * nx + (oy / d) * ny
                  in fluid_loop F a m nx ny ns
                       (sepX - (ox / d) * (rSum - d), sepY - (oy / d) * (rSum - d), k + 1,
                        blocked \<or> dot > lit F (866/1000)))
            else fluid_loop F a m nx ny ns (sepX, sepY, k, blocked)))"

definition Fluid_Movement ::
  "'f::{zero,plus,minus,uminus,times,inverse,ord} flops \<Rightarrow> nat \<Rightarrow> 'f \<Rightarrow> 'f \<Rightarrow> 'f Monster \<Rightarrow> 'f room \<Rightarrow> ('f \<times> 'f) \<times> 'f Monster" where
  "Fluid_Movement F a tx ty m r =
     (let dx = tx - go_x m; dy = ty - go_y m; distSq = dx * dx + dy * dy in
      if distSq < lit F (1/10) then ((0, 0), m)
      else
        (let dist = fsqrt F distSq; nx = dx / dist; ny = dy / dist;
             ns = near_monsters F r (go_x m) (go_y m) (go_radius m * lit F (25/10));
             (sepX, sepY, k, blocked) = fluid_loop F a m nx ny ns (0, 0, 0, False);
             (speed, m1) = GetSpeed F m;
             (nx1, ny1, speed1) =
               (if blocked
                then (let (fx, fy) = side nx ny sepX sepY
                      in (nx * lit F (2/10) + fx * lit F (8/10), ny * lit F (2/10) + fy * lit F (8/10),
                          speed * lit F (9/10)))
                else if k > 0
                then (nx * lit F (6/10) + (sepX / of_i32 F k) * lit F (4/10),
                      ny * lit F (6/10) + (sepY / of_i32 F k) * lit F (4/10), speed)
                else (nx, ny, speed));
             (ux, uy) = unit_len F nx1 ny1
         in ((go_vx m * lit F (9/10) + (ux * speed1) * lit F (1/10),
              go_vy m * lit F (9/10) + (uy * speed1) * lit F (1/10)), m1)))"

fun surround_loop ::
  "'f::{plus,minus,times,inverse,ord} flops \<Rightarrow> nat \<Rightarrow> 'f Monster \<Rightarrow> 'f \<Rightarrow> 'f \<Rightarrow> (nat \<times> 'f Monster) list \<Rightarrow>
    'f \<times> 'f \<times> int \<times> bool \<Rightarrow> 'f \<times> 'f \<times> int \<times> bool" where
  "surround_loop F a m nx ny [] acc = acc"
| "surround_loop F a m nx ny ((b, n) # ns) (sepX, sepY, k, blocked) =
     (if b = a then surround_loop F a m nx ny ns (sepX, sepY, k, blocked)
      else
        (let ox = go_x n - go_x m; oy = go_y n - go_y m; d2 = ox * ox + oy * oy;
             minSep = (go_radius m + go_radius n) * lit F (11/10)
         in if d2 < minSep * minSep \<and> d2 > lit F (1/10000)
            then (let d = fsqrt F d2; overlap = minSep - d; dot = (ox / d) * nx + (oy / d) * ny
                  in surround_loop F a m nx ny ns
                       (sepX - (ox / d) * overlap, sepY - (oy / d) * overlap, k + 1,
                        blocked \<or> dot > lit F (707/1000)))
            else surround_loop F a m nx ny ns (sepX, sepY, k, blocked)))"

definition Surrounding_Movement ::
  "'f::{zero,plus,minus,uminus,times,inverse,ord} flops \<Rightarrow> nat \<Rightarrow> 'f \<Rightarrow> 'f \<Rightarrow> 'f Monster \<Rightarrow> 'f room \<Rightarrow> ('f \<times> 'f) \<times> 'f Monster" where
  "Surrounding_Movement F a tx ty m r =
     (let dx = tx - go_x m; dy = ty - go_y m; distSq = dx * dx + dy * dy in
      if distSq < lit F (1/4) then ((0, 0), m)
      else
        (let dist = fsqrt F distSq; nx = dx / dist; ny = dy / dist;
             ns = near_monsters F r (go_x m) (go_y m) (go_radius m * lit F (22/10));
             (sepX, sepY, k, blocked) = surround_loop F a m nx ny ns (0, 0, 0, False);
             (speed, m1) = GetSpeed F m;
             (nx1, ny1, speed1) =
               (if blocked
                then (let (sx, sy) = (if even (go_id m) then (- ny, nx) else (ny, - nx))
                      in (nx * lit F (4/10) + sx * lit F (8/10), ny * lit F (4/10) + sy * lit F (8/10),
                          speed * lit F (95/100)))
                else if k > 0
                then (nx * lit F (7/10) + (sepX / of_i32 F k) * lit F (3/10),
                      ny * lit F (7/10) + (sepY / of_i32 F k) * lit F (3/10), speed)
                else (nx, ny, speed));
             (ux, uy) = unit_len F nx1 ny1
         in ((go_vx m * lit F (85/100) + (ux * speed1) * lit F (15/100),
              go_vy m * lit F (85/100) + (uy * speed1) * lit F (15/100)), m1)))"

section \<open>Strict separation and smart flocking\<close>

text \<open>
  The two strategies draw a random direction for a monster at the same place, so their loops carry
  the room. The smart loop also looks ahead, while no serious overlap has been seen.
\<close>

definition push_apart ::
  "'f::{zero,plus,minus,uminus,times,inverse,ord} game_env \<Rightarrow> 'f \<Rightarrow> 'f \<Rightarrow> 'f \<Rightarrow> 'f \<Rightarrow> 'f \<Rightarrow> 'f \<Rightarrow> 'f room \<Rightarrow> 'f \<times> 'f \<times> 'f room" where
  "push_apart E factor ddx ddy lSq sepX sepY r =
     (let F = ge_F E; minSep = lit F (12/10); l = fsqrt F lSq; overlap = minSep - l in
      if l < lit F (1/1000)
      then (let (x, r1) = draw_range E (- lit F 1) (lit F 1) r; (y, r2) = draw_range E (- lit F 1) (lit F 1) r1
            in (sepX + x, sepY + y, r2))
      else (let weight = overlap / minSep
            in (sepX + (ddx / l) * weight * factor, sepY + (ddy / l) * weight * factor, r)))"

fun strict_loop ::
  "'f::{zero,plus,minus,uminus,times,inverse,ord} game_env \<Rightarrow> 'f Monster \<Rightarrow> (nat \<times> 'f Monster) list \<Rightarrow>
    'f \<times> 'f \<times> int \<times> 'f \<Rightarrow> 'f room \<Rightarrow> ('f \<times> 'f \<times> int \<times> 'f) \<times> 'f room" where
  "strict_loop E m [] acc r = (acc, r)"
| "strict_loop E m ((b, n) # ns) (sepX, sepY, k, maxOverlap) r =
     (if go_id n = go_id m then strict_loop E m ns (sepX, sepY, k, maxOverlap) r
      else
        (let F = ge_F E; ddx = go_x m - go_x n; ddy = go_y m - go_y n; lSq = ddx * ddx + ddy * ddy;
             minSep = lit F (12/10)
         in if lSq < minSep * minSep
            then (let overlap = minSep - fsqrt F lSq; (x, y, r1) = push_apart E (lit F 2) ddx ddy lSq sepX sepY r
                  in strict_loop E m ns (x, y, k + 1, if overlap > maxOverlap then overlap else maxOverlap) r1)
            else strict_loop E m ns (sepX, sepY, k, maxOverlap) r))"

definition Strict_Movement ::
  "'f::{zero,plus,minus,uminus,times,inverse,ord} game_env \<Rightarrow> 'f \<Rightarrow> 'f \<Rightarrow> 'f Monster \<Rightarrow> 'f room \<Rightarrow> ('f \<times> 'f) \<times> 'f Monster \<times> 'f room" where
  "Strict_Movement E tx ty m r =
     (let F = ge_F E; dx = tx - go_x m; dy = ty - go_y m; dist = fsqrt F (dx * dx + dy * dy) in
      if dist \<le> lit F (11/10) then ((0, 0), m, r)
      else
        (let nx = dx / dist; ny = dy / dist;
             ns = near_monsters F r (go_x m) (go_y m) (lit F (12/10));
             ((sepX, sepY, k, maxOverlap), r1) = strict_loop E m ns (0, 0, 0, 0) r;
             (speed, m1) = GetSpeed F m
         in if k > 0 \<and> maxOverlap > lit F (1/10)
            then (let speed1 = (if maxOverlap > lit F (3/10) then speed * lit F (15/10) else speed);
                      (ux, uy) = unit_len F sepX sepY
                  in ((ux * speed1, uy * speed1), m1, r1))
            else if k > 0
            then (let (ux, uy) = unit_len F (nx * lit F (6/10) + (sepX / of_i32 F k) * lit F (4/10))
                                            (ny * lit F (6/10) + (sepY / of_i32 F k) * lit F (4/10))
                  in ((ux * speed, uy * speed), m1, r1))
            else ((nx * speed, ny * speed), m1, r1)))"

fun smart_loop ::
  "'f::{zero,plus,minus,uminus,times,inverse,ord} game_env \<Rightarrow> 'f Monster \<Rightarrow> 'f \<Rightarrow> 'f \<Rightarrow> (nat \<times> 'f Monster) list \<Rightarrow>
    'f \<times> 'f \<times> int \<times> 'f \<times> bool \<Rightarrow> 'f room \<Rightarrow> ('f \<times> 'f \<times> int \<times> 'f \<times> bool) \<times> 'f room" where
  "smart_loop E m ax ay [] acc r = (acc, r)"
| "smart_loop E m ax ay ((b, n) # ns) (sepX, sepY, k, maxOverlap, blocked) r =
     (if go_id n = go_id m then smart_loop E m ax ay ns (sepX, sepY, k, maxOverlap, blocked) r
      else
        (let F = ge_F E; ddx = go_x m - go_x n; ddy = go_y m - go_y n; lSq = ddx * ddx + ddy * ddy;
             minSep = lit F (12/10);
             ((x, y, k1, mo), r1) =
               (if lSq < minSep * minSep
                then (let overlap = minSep - fsqrt F lSq; (x, y, r') = push_apart E (lit F (25/10)) ddx ddy lSq sepX sepY r
                      in ((x, y, k + 1, if overlap > maxOverlap then overlap else maxOverlap), r'))
                else ((sepX, sepY, k, maxOverlap), r));
             fdx = ax - go_x n; fdy = ay - go_y n
         in smart_loop E m ax ay ns
              (x, y, k1, mo, blocked \<or> mo < lit F (1/10) \<and> fdx * fdx + fdy * fdy < lit F 1) r1))"

definition Smart_Movement ::
  "'f::{zero,plus,minus,uminus,times,inverse,ord} game_env \<Rightarrow> 'f \<Rightarrow> 'f \<Rightarrow> 'f Monster \<Rightarrow> 'f room \<Rightarrow> ('f \<times> 'f) \<times> 'f Monster \<times> 'f room" where
  "Smart_Movement E tx ty m r =
     (let F = ge_F E; dx = tx - go_x m; dy = ty - go_y m; dist = fsqrt F (dx * dx + dy * dy) in
      if dist \<le> lit F (11/10) then ((0, 0), m, r)
      else
        (let nx = dx / dist; ny = dy / dist; (speed, m1) = GetSpeed F m;
             ns = near_monsters F r (go_x m) (go_y m) (lit F (15/10));
             ((sepX, sepY, k, maxOverlap, blocked), r1) =
               smart_loop E m (go_x m + nx * lit F (1/2)) (go_y m + ny * lit F (1/2)) ns (0, 0, 0, 0, False) r
         in if k > 0 \<and> maxOverlap > lit F (1/10)
            then (let speed1 = (if maxOverlap > lit F (3/10) then speed * lit F (15/10) else speed);
                      (ux, uy) = unit_len F sepX sepY
                  in ((ux * speed1, uy * speed1), m1, r1))
            else if blocked
            then (let m2 = (if mo_stuckTimer m1 \<le> 0 then m1\<lparr> mo_stuckTimer := lit F (8/10) \<rparr> else m1)
                  in if mo_stuckTimer m2 > lit F (3/10) then ((0 * 0, 0 * 0), m2, r1)
                     else (let (sx, sy) = side nx ny sepX sepY;
                               (ux, uy) = unit_len F (nx * lit F (3/10) + sx * lit F (7/10))
                                                     (ny * lit F (3/10) + sy * lit F (7/10));
                               speed1 = speed * lit F (8/10)
                           in ((ux * speed1, uy * speed1), m2, r1)))
            else (let m2 = m1\<lparr> mo_stuckTimer := 0 \<rparr>;
                      (ux, uy) = (if k > 0
                                  then unit_len F (nx * lit F (1/2) + (sepX / of_i32 F k) * lit F (1/2))
                                                  (ny * lit F (1/2) + (sepY / of_i32 F k) * lit F (1/2))
                                  else (nx, ny))
                  in ((ux * speed, uy * speed), m2, r1))))"

section \<open>The soft collision strategy\<close>

fun vampire_loop ::
  "'f::{zero,plus,minus,times,inverse,ord} flops \<Rightarrow> nat \<Rightarrow> 'f Monster \<Rightarrow> 'f \<Rightarrow> (nat \<times> 'f Monster) list \<Rightarrow> 'f \<times> 'f \<Rightarrow> 'f \<times> 'f" where
  "vampire_loop F a m speed [] acc = acc"
| "vampire_loop F a m speed ((b, n) # ns) (pushVx, pushVy) =
     (if b = a \<or> IsDead n then vampire_loop F a m speed ns (pushVx, pushVy)
      else
        (let nDx = go_x m - go_x n; nDy = go_y m - go_y n; nDistSq = nDx * nDx + nDy * nDy;
             minDistance = go_radius m * lit F 3 + go_radius n * lit F 3
         in if nDistSq > lit F (1/10000) \<and> nDistSq < minDistance * minDistance
            then (let nDist = fsqrt F nDistSq; pushStrength = (minDistance - nDist) / minDistance;
                      pushFactor = speed * lit F 2
                  in vampire_loop F a m speed ns
                       (pushVx + (nDx / nDist) * pushStrength * pushFactor,
                        pushVy + (nDy / nDist) * pushStrength * pushFactor))
            else vampire_loop F a m speed ns (pushVx, pushVy)))"

definition Vampire_Movement ::
  "'f::{zero,plus,minus,times,inverse,ord} flops \<Rightarrow> nat \<Rightarrow> 'f \<Rightarrow> 'f \<Rightarrow> 'f Monster \<Rightarrow> 'f room \<Rightarrow> ('f \<times> 'f) \<times> 'f Monster" where
  "Vampire_Movement F a tx ty m r =
     (let dx = tx - go_x m; dy = ty - go_y m; distanceSq = dx * dx + dy * dy in
      if distanceSq < lit F (1/1000) then ((0, 0), m)
      else
        (let distance = fsqrt F distanceSq; (speed, m1) = GetSpeed F m;
             ns = near_monsters F r (go_x m) (go_y m) ((go_radius m * lit F 3) * lit F 2);
             (pushVx, pushVy) = vampire_loop F a m speed ns (0, 0);
             vx = (dx / distance) * speed + pushVx; vy = (dy / distance) * speed + pushVy;
             finalDistSq = vx * vx + vy * vy
         in if finalDistSq > speed * speed
            then (let finalDist = fsqrt F finalDistSq in (((vx / finalDist) * speed, (vy / finalDist) * speed), m1))
            else ((vx, vy), m1)))"

section \<open>Choosing a strategy\<close>

text \<open>
  The virtual call \<open>strategy->CalculateMovement\<close>, and \<open>move_by\<close>, the call with the
  \<open>SetVelocity\<close> of its result. The time step is an argument that no strategy reads.
\<close>

definition CalculateMovement ::
  "'f::{zero,plus,minus,uminus,times,inverse,ord} game_env \<Rightarrow> strategy \<Rightarrow> nat \<Rightarrow> 'f \<Rightarrow> 'f \<Rightarrow> 'f Monster \<Rightarrow> 'f room \<Rightarrow>
    ('f \<times> 'f) \<times> 'f Monster \<times> 'f room" where
  "CalculateMovement E s a tx ty m r =
     (let F = ge_F E; keep = (\<lambda>(v, m1). (v, m1, r)) in
      case s of
        CellBased \<Rightarrow> CellBased_Movement F tx ty m r
      | FluidStacking \<Rightarrow> keep (Fluid_Movement F a tx ty m r)
      | SurroundingFlocking \<Rightarrow> keep (Surrounding_Movement F a tx ty m r)
      | VampireSurvivor \<Rightarrow> keep (Vampire_Movement F a tx ty m r)
      | StrictSeparation \<Rightarrow> Strict_Movement E tx ty m r
      | SmartFlocking \<Rightarrow> Smart_Movement E tx ty m r)"

definition move_by ::
  "'f::{zero,plus,minus,uminus,times,inverse,ord} game_env \<Rightarrow> strategy \<Rightarrow> nat \<Rightarrow> 'f \<Rightarrow> 'f \<Rightarrow> 'f Monster \<Rightarrow> 'f room \<Rightarrow> 'f room" where
  "move_by E s a tx ty m r =
     (case CalculateMovement E s a tx ty m r of
        ((vx, vy), m1, r1) \<Rightarrow> put a (MonsterObj (SetVelocity (ge_F E) vx vy m1)) r1)"

section \<open>Behaviours\<close>

text \<open>The target of a behaviour: \<open>Room::GetNearestPlayer\<close> of the monster's position.\<close>

definition target_of :: "'f::{zero,plus,minus,uminus,times,inverse,ord} game_env \<Rightarrow> 'f Monster \<Rightarrow> 'f room \<Rightarrow> 'f Player option" where
  "target_of E m r = Option.bind (GetNearestPlayer (ge_F E) r (go_x m) (go_y m)) (player_at r)"

definition halt :: "'f::{zero,plus,minus,uminus,times,inverse,ord} game_env \<Rightarrow> nat \<Rightarrow> 'f Monster \<Rightarrow> 'f room \<Rightarrow> 'f room" where
  "halt E a m r = put a (MonsterObj (SetVelocity (ge_F E) 0 0 m)) r"

text \<open>\<open>IAIBehavior::Think\<close>; the boss tree has a single chase node and sets the velocity here.\<close>

definition boss_chase :: "'f::{zero,plus,minus,uminus,times,inverse,ord} game_env \<Rightarrow> nat \<Rightarrow> 'f Monster \<Rightarrow> 'f room \<Rightarrow> 'f room" where
  "boss_chase E a m r =
     (case target_of E m r of
        None \<Rightarrow> r
      | Some t \<Rightarrow>
          (let dx = go_x t - go_x m; dy = go_y t - go_y m; distSq = dx * dx + dy * dy in
           if distSq > lit (ge_F E) (1/10)
           then (let dist = fsqrt (ge_F E) distSq; (speed, m1) = GetSpeed (ge_F E) m
                 in put a (MonsterObj (SetVelocity (ge_F E) ((dx / dist) * speed) ((dy / dist) * speed) m1)) r)
           else r))"

definition Chaser_Think :: "'f::{zero,plus,minus,uminus,times,inverse,ord} game_env \<Rightarrow> nat \<Rightarrow> 'f \<Rightarrow> 'f Monster \<Rightarrow> 'f \<Rightarrow> 'f \<Rightarrow> 'f \<Rightarrow> 'f room \<Rightarrow> 'f room" where
  "Chaser_Think E a now m speed interval next r =
     (if now < next then r
      else put a (MonsterObj (m\<lparr> mo_ai := Some (ChaserAI speed interval (now + interval) (target_of E m r \<noteq> None) True) \<rparr>)) r)"

definition Wander_Think :: "'f::{zero,plus,minus,uminus,times,inverse,ord} game_env \<Rightarrow> nat \<Rightarrow> 'f \<Rightarrow> 'f Monster \<Rightarrow> 'f \<Rightarrow> 'f \<Rightarrow> 'f \<Rightarrow> 'f room \<Rightarrow> 'f room" where
  "Wander_Think E a now m speed interval next r =
     (if now < next then r
      else (let (angle, r1) = draw_range E 0 (lit (ge_F E) 2 * lit (ge_F E) (314159265 / 100000000)) r
            in put a (MonsterObj (m\<lparr> mo_ai := Some (WanderAI speed interval (now + interval) (fcos (ge_F E) angle)
                                                     (fsin (ge_F E) angle)) \<rparr>)) r1))"

definition Swarm_Think :: "'f::{zero,plus,minus,uminus,times,inverse,ord} game_env \<Rightarrow> nat \<Rightarrow> 'f \<Rightarrow> 'f Monster \<Rightarrow> 'f \<Rightarrow> 'f \<Rightarrow> 'f \<Rightarrow> 'f \<Rightarrow> 'f \<Rightarrow> 'f room \<Rightarrow> 'f room" where
  "Swarm_Think E a now m speed interval next px py r =
     (if now < next then r
      else put a (MonsterObj (m\<lparr> mo_ai := Some (case target_of E m r of
               Some p \<Rightarrow> SwarmAI speed interval (now + interval) True (go_x p) (go_y p) True
             | None \<Rightarrow> SwarmAI speed interval (now + interval) False px py True) \<rparr>)) r)"

definition Think :: "'f::{zero,plus,minus,uminus,times,inverse,ord} game_env \<Rightarrow> nat \<Rightarrow> 'f \<Rightarrow> 'f room \<Rightarrow> 'f room" where
  "Think E a now r =
     (case rm_heap r a of
        Some (MonsterObj m) \<Rightarrow>
          (case mo_ai m of
             None \<Rightarrow> r
           | Some (ChaserAI s i nt h rm) \<Rightarrow> Chaser_Think E a now m s i nt r
           | Some (WanderAI s i nt dx dy) \<Rightarrow> Wander_Think E a now m s i nt r
           | Some (SwarmAI s i nt h px py rm) \<Rightarrow> Swarm_Think E a now m s i nt px py r
           | Some BossAI \<Rightarrow> boss_chase E a m r)
      | _ \<Rightarrow> r)"

text \<open>\<open>IAIBehavior::Execute\<close>. The boss tree is ticked without a room and does nothing.\<close>

definition Chaser_Execute :: "'f::{zero,plus,minus,uminus,times,inverse,ord} game_env \<Rightarrow> nat \<Rightarrow> 'f Monster \<Rightarrow> bool \<Rightarrow> bool \<Rightarrow> 'f room \<Rightarrow> 'f room" where
  "Chaser_Execute E a m hasTarget hasRoom r =
     (if \<not> hasTarget \<or> \<not> hasRoom then halt E a m r
      else case (target_of E m r, mo_strategy m) of
             (Some t, Some st) \<Rightarrow> move_by E st a (go_x t) (go_y t) m r
           | _ \<Rightarrow> halt E a m r)"

definition Wander_Execute :: "'f::{zero,plus,minus,uminus,times,inverse,ord} game_env \<Rightarrow> nat \<Rightarrow> 'f Monster \<Rightarrow> 'f \<Rightarrow> 'f \<Rightarrow> 'f room \<Rightarrow> 'f room" where
  "Wander_Execute E a m dirX dirY r =
     (let (speed, m1) = GetSpeed (ge_F E) m
      in put a (MonsterObj (SetVelocity (ge_F E) (dirX * speed) (dirY * speed) m1)) r)"

definition Swarm_Execute :: "'f::{zero,plus,minus,uminus,times,inverse,ord} game_env \<Rightarrow> nat \<Rightarrow> 'f Monster \<Rightarrow> bool \<Rightarrow> bool \<Rightarrow> 'f \<Rightarrow> 'f \<Rightarrow> 'f room \<Rightarrow> 'f room" where
  "Swarm_Execute E a m hasPlayer hasRoom px py r =
     (if \<not> hasPlayer \<or> \<not> hasRoom then halt E a m r
      else case mo_strategy m of Some st \<Rightarrow> move_by E st a px py m r | None \<Rightarrow> halt E a m r)"

definition Execute :: "'f::{zero,plus,minus,uminus,times,inverse,ord} game_env \<Rightarrow> nat \<Rightarrow> 'f room \<Rightarrow> 'f room" where
  "Execute E a r =
     (case rm_heap r a of
        Some (MonsterObj m) \<Rightarrow>
          (case mo_ai m of
             None \<Rightarrow> r
           | Some (ChaserAI s i nt h rm) \<Rightarrow> Chaser_Execute E a m h rm r
           | Some (WanderAI s i nt dx dy) \<Rightarrow> Wander_Execute E a m dx dy r
           | Some (SwarmAI s i nt h px py rm) \<Rightarrow> Swarm_Execute E a m h rm px py r
           | Some BossAI \<Rightarrow> r)
      | _ \<Rightarrow> r)"

definition Monster_Update :: "'f::{zero,plus,minus,uminus,times,inverse,ord} game_env \<Rightarrow> 'f \<Rightarrow> nat \<Rightarrow> 'f room \<Rightarrow> 'f room" where
  "Monster_Update E dt a r =
     (case rm_heap r a of
        Some (MonsterObj m) \<Rightarrow>
          (let m1 = m\<lparr> mo_aliveTime := mo_aliveTime m + dt,
                      mo_stuckTimer := (if mo_stuckTimer m > 0 then mo_stuckTimer m - dt else mo_stuckTimer m) \<rparr>;
               m2 = UpdateStateExpiry (rm_totalRunTime r) m1;
               m3 = m2\<lparr> go_modifiers := UpdateModifiers (rm_totalRunTime r) (go_modifiers m2) \<rparr>;
               r1 = put a (MonsterObj m3) r
           in if mo_ai m3 \<noteq> None \<and> \<not> IsDead m3 \<and> \<not> IsControlDisabled m3
              then Execute E a (Think E a (mo_aliveTime m3) r1)
              else r1)
      | _ \<Rightarrow> r)"

lemmas behaviour_defs [conc] = cell_key_def IsCellOccupied_def OccupyCell_def ClearOccupancyMap_def
  candidates_def CellBased_Movement_def near_monsters_def unit_len_def side_def Fluid_Movement_def
  Surrounding_Movement_def push_apart_def Strict_Movement_def Smart_Movement_def Vampire_Movement_def CalculateMovement_def move_by_def boss_chase_def target_of_def halt_def
  Chaser_Think_def Wander_Think_def Swarm_Think_def Think_def Chaser_Execute_def Wander_Execute_def Swarm_Execute_def
  Execute_def Monster_Update_def

section \<open>What a strategy may change\<close>

text \<open>
  Whatever the strategy, the room keeps everything but its reserved cells and its random numbers,
  and the monster everything but its stuck timer and its stat cache.
\<close>

definition draws_only :: "'f room \<Rightarrow> 'f room \<Rightarrow> bool" where
  "draws_only r r' \<longleftrightarrow> (\<exists>d. r' = r\<lparr> rm_draws := d \<rparr>)"

lemma draws_only_refl [simp]: "draws_only r r"
  by (auto simp: draws_only_def intro: exI [of _ "rm_draws r"])

lemma draws_only_trans: "draws_only r r' \<Longrightarrow> draws_only r' r'' \<Longrightarrow> draws_only r r''"
  by (auto simp: draws_only_def)

lemma push_apart_frame: "draws_only r (snd (snd (push_apart E f ddx ddy l sx sy r)))"
  by (auto simp: push_apart_def draw_range_def draws_only_def Let_def intro: exI [of _ "rm_draws r"])

lemma strict_loop_frame: "draws_only r (snd (strict_loop E m ns acc r))"
proof (induction ns arbitrary: acc r)
  case (Cons bn ns)
  show ?case
    by (cases bn; cases acc)
      (auto simp: Let_def split_beta intro: Cons.IH draws_only_trans [OF push_apart_frame Cons.IH])
qed simp

lemma smart_loop_frame: "draws_only r (snd (smart_loop E m ax ay ns acc r))"
proof (induction ns arbitrary: acc r)
  case (Cons bn ns)
  show ?case
    by (cases bn; cases acc)
      (auto simp: Let_def split_beta intro: Cons.IH draws_only_trans [OF push_apart_frame Cons.IH])
qed simp

lemma GetSpeed_frame: "snd (GetSpeed F m) = m\<lparr> go_modifiers := snd (GetStat F Speed (go_modifiers m)) \<rparr>"
  by (simp add: GetSpeed_def split_beta)

definition moves_only :: "'f Monster \<Rightarrow> 'f Monster \<Rightarrow> bool" where
  "moves_only m m' \<longleftrightarrow> (\<exists>t c. m' = m\<lparr> mo_stuckTimer := t, go_modifiers := c \<rparr>)"

lemma moves_only_intros [simp]:
  "moves_only m m" "moves_only m (snd (GetSpeed F m))" "moves_only m (snd (GetSpeed F m)\<lparr> mo_stuckTimer := t \<rparr>)"
  by (simp_all add: moves_only_def GetSpeed_frame) (cases m; simp)+

definition reserves_only :: "'f room \<Rightarrow> 'f room \<Rightarrow> bool" where
  "reserves_only r r' \<longleftrightarrow> (\<exists>cells d. r' = r\<lparr> rm_occupiedCells := cells, rm_draws := d \<rparr>)"

lemma reserves_only_intros:
  "reserves_only r r" "reserves_only r (OccupyCell x y r)" "draws_only r r' \<Longrightarrow> reserves_only r r'"
  by (simp_all add: reserves_only_def draws_only_def OccupyCell_def) (cases r; auto)+

lemma CalculateMovement_frame:
  "moves_only m (fst (snd (CalculateMovement E s a tx ty m r)))" (is ?M)
  "reserves_only r (snd (snd (CalculateMovement E s a tx ty m r)))" (is ?R)
proof -
  have "?M \<and> ?R"
    by (cases s) (auto simp: CalculateMovement_def CellBased_Movement_def Fluid_Movement_def Surrounding_Movement_def
        Vampire_Movement_def Strict_Movement_def Smart_Movement_def Let_def split_beta
        intro: reserves_only_intros strict_loop_frame smart_loop_frame)
  then show ?M ?R by simp_all
qed

section \<open>Speed limits\<close>

text \<open>
  The strategies in exact arithmetic: the operations of the real numbers. The length of a velocity is
  the modulus of a complex number.
\<close>

definition real_flops :: "real flops" where
  "real_flops = \<lparr> lit = of_rat, of_i32 = of_int, to_i32 = (\<lambda>x. if x < 0 then - \<lfloor>- x\<rfloor> else \<lfloor>x\<rfloor>),
     fsqrt = sqrt, fcos = cos, fsin = sin, fatan2 = (\<lambda>y x. Arg (Complex x y)), facos = arccos,
     fpow = (\<lambda>x n. x powi n), fround = (\<lambda>x. of_int \<lfloor>x + 1/2\<rfloor>), floor_i = floor,
     isfinite = (\<lambda>_. True), fmaxval = 340282346638528859811704183484516925440 \<rparr>"

lemma real_flops_simps [simp]:
  "lit real_flops = of_rat" "of_i32 real_flops = of_int" "fsqrt real_flops = sqrt" "floor_i real_flops = floor"
  by (simp_all add: real_flops_def)

definition vlen :: "real \<times> real \<Rightarrow> real" where
  "vlen v = cmod (Complex (fst v) (snd v))"

lemma vlen_sqrt: "sqrt (x * x + y * y) = vlen (x, y)"
  by (simp add: vlen_def cmod_def power2_eq_square)

lemma vlen_zero [simp]: "vlen (0, 0) = 0"
  by (simp add: vlen_def cmod_def)

lemma vlen_scale: "vlen (x * k, y * k) = vlen (x, y) * \<bar>k\<bar>"
proof -
  have "Complex (x * k) (y * k) = Complex x y * complex_of_real k" by (simp add: complex_eq_iff)
  then show ?thesis by (simp add: vlen_def norm_mult)
qed

lemma vlen_unit: "0 < vlen (x, y) \<Longrightarrow> vlen (x / vlen (x, y), y / vlen (x, y)) = 1"
  using vlen_scale [of x "inverse (vlen (x, y))" y] by (simp add: divide_inverse)

lemma vlen_inertia:
  assumes "vlen (x, y) \<le> K" "vlen (u, v) \<le> K" "0 \<le> k" "0 \<le> l" "k + l = 1"
  shows "vlen (x * k + u * l, y * k + v * l) \<le> K"
proof -
  have "Complex (x * k + u * l) (y * k + v * l) = Complex (x * k) (y * k) + Complex (u * l) (v * l)"
    by (simp add: complex_eq_iff)
  then have "vlen (x * k + u * l, y * k + v * l) \<le> vlen (x * k, y * k) + vlen (u * l, v * l)"
    by (simp add: vlen_def norm_triangle_ineq)
  also have "\<dots> = vlen (x, y) * k + vlen (u, v) * l" using assms by (simp add: vlen_scale)
  also have "\<dots> \<le> K * k + K * l" using assms by (intro add_mono mult_right_mono) auto
  also have "\<dots> = K" using assms(5) by (metis distrib_left mult.right_neutral)
  finally show ?thesis .
qed

lemma unit_len_le: "vlen (unit_len real_flops x y) \<le> 1"
  using vlen_unit [of x y] by (auto simp: unit_len_def Let_def vlen_sqrt of_rat_divide)

lemma unit_scaled: "vlen (x, y) \<le> 1 \<Longrightarrow> 0 \<le> v \<Longrightarrow> v \<le> K \<Longrightarrow> vlen (x * v, y * v) \<le> K"
  using mult_left_le_one_le [of v "vlen (x, y)"] by (simp add: vlen_scale) (simp add: vlen_def)

lemma dir_len: "0 < sqrt (x * x + y * y) \<Longrightarrow> vlen (x / sqrt (x * x + y * y), y / sqrt (x * x + y * y)) \<le> 1"
  using vlen_unit [of x y] by (simp add: vlen_sqrt)

lemma within: "P \<longrightarrow> vlen x \<le> K \<Longrightarrow> \<not> P \<longrightarrow> vlen y \<le> K \<Longrightarrow> vlen (fst (if P then (x, p) else (y, q))) \<le> K"
  by simp

lemma arrive_speed:
  assumes "vlen (x, y) \<le> K" "0 \<le> v" "v \<le> K" "l = sqrt (dx * dx + dy * dy)" "l > lit real_flops (5/100)"
  shows "vlen (x * lit real_flops (8/10) + ((dx / l) * (if l < lit real_flops (1/2) then v * (l / lit real_flops (1/2)) else v)) * lit real_flops (2/10),
    y * lit real_flops (8/10) + ((dy / l) * (if l < lit real_flops (1/2) then v * (l / lit real_flops (1/2)) else v)) * lit real_flops (2/10)) \<le> K"
proof -
  let ?c = "if l < lit real_flops (1/2) then v * (l / lit real_flops (1/2)) else v"
  have l: "0 < l" using assms(5) by (simp add: of_rat_divide)
  have "0 \<le> ?c" using assms(2) l by (simp add: of_rat_divide)
  moreover have "?c \<le> K" using assms(2,3) mult_left_mono [of "l * 2" 1 v] by (auto simp: of_rat_divide)
  ultimately have "vlen (dx / l * ?c, dy / l * ?c) \<le> K" using dir_len [of dx dy] l assms(4) by (intro unit_scaled) auto
  from vlen_inertia [OF assms(1) this, of "lit real_flops (8/10)" "lit real_flops (2/10)"] show ?thesis
    by (simp add: of_rat_divide)
qed

lemma cell_speed:
  assumes v: "0 \<le> fst (GetSpeed real_flops m)" and old: "vlen (go_vx m, go_vy m) \<le> 3/2 * fst (GetSpeed real_flops m)"
  shows "vlen (fst (CellBased_Movement real_flops tx ty m r)) \<le> 3/2 * fst (GetSpeed real_flops m)"
  unfolding CellBased_Movement_def Let_def split_beta
  apply (split if_split; intro conjI impI)
  subgoal using v by simp
  subgoal using v by (intro within impI arrive_speed [OF old]) auto
  done

lemma blend_speed:
  assumes "vlen (x, y) \<le> K" "vlen (u, w) \<le> 1" "0 \<le> v" "v \<le> K" "0 \<le> k" "0 \<le> l" "k + l = 1"
  shows "vlen (x * k + (u * v) * l, y * k + (w * v) * l) \<le> K"
  by (rule vlen_inertia [OF assms(1) unit_scaled [OF assms(2-4)] assms(5-7)])

lemma unit_pair: "vlen (fst (unit_len real_flops x y), snd (unit_len real_flops x y)) \<le> 1"
  using unit_len_le [of x y] by simp

lemma fluid_speed:
  assumes v: "0 \<le> fst (GetSpeed real_flops m)" and old: "vlen (go_vx m, go_vy m) \<le> 3/2 * fst (GetSpeed real_flops m)"
  shows "vlen (fst (Fluid_Movement real_flops a tx ty m r)) \<le> 3/2 * fst (GetSpeed real_flops m)"
  unfolding Fluid_Movement_def Let_def split_beta
  apply (split if_split; intro conjI impI)
  subgoal using v by simp
  subgoal unfolding fst_conv using v by (intro blend_speed [OF old unit_pair]) (auto simp: of_rat_divide)
  done

lemma surround_speed:
  assumes v: "0 \<le> fst (GetSpeed real_flops m)" and old: "vlen (go_vx m, go_vy m) \<le> 3/2 * fst (GetSpeed real_flops m)"
  shows "vlen (fst (Surrounding_Movement real_flops a tx ty m r)) \<le> 3/2 * fst (GetSpeed real_flops m)"
  unfolding Surrounding_Movement_def Let_def split_beta
  apply (split if_split; intro conjI impI)
  subgoal using v by simp
  subgoal unfolding fst_conv using v by (intro blend_speed [OF old unit_pair]) (auto simp: of_rat_divide)
  done

lemma vampire_speed:
  assumes v: "0 \<le> fst (GetSpeed real_flops m)"
  shows "vlen (fst (Vampire_Movement real_flops a tx ty m r)) \<le> fst (GetSpeed real_flops m)"
proof -
  have capped: "vlen (fst (if x * x + y * y > w * w
      then (((x / sqrt (x * x + y * y)) * w, (y / sqrt (x * x + y * y)) * w), q) else ((x, y), q))) \<le> w"
    if "0 \<le> w" for x y w :: real and q :: "real Monster"
  proof (intro within impI)
    assume "w * w < x * x + y * y"
    then have "0 < sqrt (x * x + y * y)" using that by (meson le_less_trans mult_nonneg_nonneg real_sqrt_gt_zero)
    from unit_scaled [OF dir_len [OF this] that order_refl]
    show "vlen ((x / sqrt (x * x + y * y)) * w, (y / sqrt (x * x + y * y)) * w) \<le> w" .
  next
    assume "\<not> w * w < x * x + y * y"
    then have "sqrt (x * x + y * y) \<le> sqrt (w * w)" by (simp only: real_sqrt_le_iff not_less)
    then show "vlen (x, y) \<le> w" using that by (simp add: vlen_sqrt real_sqrt_mult_self)
  qed
  show ?thesis
    unfolding Vampire_Movement_def Let_def split_beta real_flops_simps(3)
    apply (split if_split; intro conjI impI)
    subgoal using v by simp
    subgoal by (rule capped [OF v])
    done
qed

text \<open>The velocity of the two strategies that push apart: a vector of at most unit length times at most
one and a half times the speed.\<close>

lemma boost_speed:
  assumes "vlen (x, y) \<le> 1" "0 \<le> (v::real)" "w = v \<or> w = v * lit real_flops (15/10) \<or> w = v * lit real_flops (8/10)"
  shows "vlen (x * w, y * w) \<le> 3/2 * v"
  using assms(2,3) by (intro unit_scaled [OF assms(1)]) (auto simp: of_rat_divide)

lemma strict_speed:
  assumes F: "ge_F E = real_flops" and v: "0 \<le> fst (GetSpeed real_flops m)"
  shows "vlen (fst (Strict_Movement E tx ty m r)) \<le> 3/2 * fst (GetSpeed real_flops m)"
proof (cases "fsqrt (ge_F E) ((tx - go_x m) * (tx - go_x m) + (ty - go_y m) * (ty - go_y m)) \<le> lit (ge_F E) (11/10)")
  case True
  then show ?thesis using v by (simp add: Strict_Movement_def)
next
  case False
  then have pos: "0 < sqrt ((tx - go_x m) * (tx - go_x m) + (ty - go_y m) * (ty - go_y m))"
    by (simp add: F of_rat_divide del: real_sqrt_gt_0_iff)
  show ?thesis
    unfolding Strict_Movement_def Let_def split_beta if_not_P [OF False]
    unfolding F real_flops_simps(3)
    apply (split if_split; intro conjI impI)
    subgoal unfolding fst_conv by (rule boost_speed [OF unit_pair v]) simp
    subgoal by (intro within impI boost_speed [OF unit_pair v] boost_speed [OF dir_len [OF pos] v]) simp_all
    done
qed

lemma smart_speed:
  assumes F: "ge_F E = real_flops" and v: "0 \<le> fst (GetSpeed real_flops m)"
  shows "vlen (fst (Smart_Movement E tx ty m r)) \<le> 3/2 * fst (GetSpeed real_flops m)"
proof (cases "fsqrt (ge_F E) ((tx - go_x m) * (tx - go_x m) + (ty - go_y m) * (ty - go_y m)) \<le> lit (ge_F E) (11/10)")
  case True
  then show ?thesis using v by (simp add: Smart_Movement_def)
next
  case False
  then have pos: "0 < sqrt ((tx - go_x m) * (tx - go_x m) + (ty - go_y m) * (ty - go_y m))"
    by (simp add: F of_rat_divide del: real_sqrt_gt_0_iff)
  show ?thesis
    unfolding Smart_Movement_def Let_def split_beta if_not_P [OF False]
    unfolding F real_flops_simps(3)
    apply (split if_split; intro conjI impI)
    subgoal unfolding fst_conv by (rule boost_speed [OF unit_pair v]) simp
    subgoal
      apply (split if_split; intro conjI impI)
      subgoal using v by (intro within impI boost_speed [OF unit_pair v]) simp_all
      subgoal unfolding fst_conv by (rule boost_speed [OF _ v]) (auto intro: unit_len_le dir_len [OF pos])
      done
    done
qed


definition demo_runner :: "real Monster" where
  "demo_runner = (new_monster real_flops)\<lparr> go_id := 1001, go_vx := 3, go_vy := 4,
     go_modifiers := SetBaseStat Speed 4 new_modifiers \<rparr>"

definition exact_env :: "real game_env" where
  "exact_env = \<lparr> ge_F = real_flops, ge_dm = empty_data, ge_dispatcher = True, ge_alloc = (\<lambda>_. True),
     ge_userDB = False, ge_popMonster = (\<lambda>_. None), ge_popProjectile = (\<lambda>_. None),
     ge_rng = (\<lambda>_. FastRandom_default), ge_shuffle = (\<lambda>_ xs. xs) \<rparr>"


end
