(* ===== verification/Game_Player.thy ===== *)
theory Game_Player
  imports Monster_Movement
begin

text \<open>
  The player (\<open>Entity/Player.cpp\<close>, \<open>Entity/PlayerFactory.cpp\<close>) and the application of a level-up
  choice (\<open>LevelUpManager::ApplySelection\<close>). Methods that reach the room take the player's address;
  the others work on the player's record. \<open>_inventory\<close> is created by every constructor and never
  reset to null, so the null branches of the source do not occur.
\<close>

section \<open>State\<close>

definition new_player :: "'f::zero flops \<Rightarrow> int \<Rightarrow> u64 \<Rightarrow> 'f Player" where
  "new_player F i sid = \<lparr> go_id = i, go_state = IDLE, go_stateExpiresAt = 0, go_x = 0, go_y = 0, go_vx = 0,
     go_vy = 0, go_radius = lit F (1/2), go_lookLeft = False, go_hp = 100, go_maxHp = 100,
     go_modifiers = new_modifiers, pl_sessionId = sid, pl_name = [], pl_classId = 0, pl_currentRoomId = 0,
     pl_speed = lit F 5, pl_lastInputTick = 0, pl_facingDirX = lit F 1, pl_facingDirY = 0,
     pl_baseMaxHp = 100, pl_exp = 0, pl_maxExp = 100, pl_plevel = 1, pl_invincibleUntil = 0,
     pl_isLevelingUp = False, pl_levelUpStartedAt = 0, pl_emitters = [], pl_inventory = new_inventory,
     pl_pendingLevelUpOptions = [], pl_slowedMonsterIds = [], pl_isReady = False, pl_godMode = False \<rparr>"

definition Player_Initialize :: "'f::zero flops \<Rightarrow> int \<Rightarrow> u64 \<Rightarrow> int \<Rightarrow> 'f \<Rightarrow> 'f Player \<Rightarrow> 'f Player" where
  "Player_Initialize F i sid hp speed p =
     p\<lparr> go_id := i, pl_sessionId := sid, pl_baseMaxHp := hp, go_maxHp := hp, go_hp := hp,
        go_radius := lit F (1/2), pl_speed := speed, pl_classId := 0, pl_name := [], go_vx := 0, go_vy := 0,
        go_x := 0, go_y := 0, pl_lastInputTick := 0, pl_exp := 0, pl_maxExp := 100, pl_plevel := 1,
        pl_invincibleUntil := 0, pl_isLevelingUp := False, pl_pendingLevelUpOptions := [],
        pl_slowedMonsterIds := [] \<rparr>"

definition Player_Reset :: "'f::zero flops \<Rightarrow> 'f Player \<Rightarrow> 'f Player" where
  "Player_Reset F p =
     p\<lparr> pl_sessionId := 0, pl_name := [], pl_classId := 0, go_hp := 0, go_maxHp := 0, go_id := 0,
        go_state := IDLE, pl_facingDirX := lit F 1, pl_facingDirY := 0, pl_exp := 0, pl_maxExp := 100,
        pl_plevel := 1, pl_invincibleUntil := 0, pl_isLevelingUp := False, pl_isReady := False,
        pl_godMode := False, pl_inventory := new_inventory, pl_pendingLevelUpOptions := [],
        pl_slowedMonsterIds := [], pl_emitters := [] \<rparr>"

text \<open>\<open>PlayerFactory::CreatePlayer\<close>; \<open>popped\<close> is a recycled object of the pool, if it has one.\<close>

definition CreatePlayer :: "'f::zero game_env \<Rightarrow> 'f Player option \<Rightarrow> int \<Rightarrow> u64 \<Rightarrow> 'f Player" where
  "CreatePlayer E popped i sid =
     (let F = ge_F E;
          p = (case popped of None \<Rightarrow> new_player F 0 0 | Some q \<Rightarrow> Player_Reset F q);
          t = GetPlayerInfo (ge_dm E) 1;
          hp = (case t of Some x \<Rightarrow> pi_hp x | None \<Rightarrow> 100);
          speed = (case t of Some x \<Rightarrow> pi_speed x | None \<Rightarrow> lit F 5)
      in Player_Initialize F i sid hp speed p)"

definition IsInvincible :: "'f::ord \<Rightarrow> 'f Player \<Rightarrow> bool" where
  "IsInvincible now p \<longleftrightarrow> now < pl_invincibleUntil p"

definition SetInvincible :: "'f \<Rightarrow> 'f Player \<Rightarrow> 'f Player" where
  "SetInvincible t p = p\<lparr> pl_invincibleUntil := t \<rparr>"

definition GetFacingDirection :: "'f Player \<Rightarrow> 'f Vector2" where
  "GetFacingDirection p = vec (pl_facingDirX p) (pl_facingDirY p)"

section \<open>Bonuses of the passives\<close>

text \<open>
  The loop all these getters share: over the owned passives with one of the given stat types, the
  bonus of the current level is combined with \<open>step\<close>.
\<close>

definition passive_fold :: "'f DataManager \<Rightarrow> string list \<Rightarrow> ('f \<Rightarrow> 'a \<Rightarrow> 'a) \<Rightarrow> 'a \<Rightarrow> PlayerInventory \<Rightarrow> 'a" where
  "passive_fold dm stats step init v =
     fold (\<lambda>i acc.
       case GetPassiveInfo dm i of
         None \<Rightarrow> acc
       | Some t \<Rightarrow>
           if ps_statType t \<in> set stats
           then (let level = GetPassiveLevel v i
                 in if level > 0 \<and> level \<le> int (length (ps_levels t))
                    then step (pl_bonus (ps_levels t ! nat (level - 1))) acc else acc)
           else acc)
       (GetOwnedPassiveIds v) init"

definition GetDamageMultiplier :: "'f::plus game_env \<Rightarrow> 'f Player \<Rightarrow> 'f" where
  "GetDamageMultiplier E p = passive_fold (ge_dm E) [''damage''] (\<lambda>b m. m + b) (lit (ge_F E) 1) (pl_inventory p)"

definition GetMaxHpMultiplier :: "'f::plus game_env \<Rightarrow> 'f Player \<Rightarrow> 'f" where
  "GetMaxHpMultiplier E p = passive_fold (ge_dm E) [''max_hp''] (\<lambda>b m. m + b) (lit (ge_F E) 1) (pl_inventory p)"

definition GetMovementSpeedMultiplier :: "'f::plus game_env \<Rightarrow> 'f Player \<Rightarrow> 'f" where
  "GetMovementSpeedMultiplier E p =
     passive_fold (ge_dm E) [''speed''] (\<lambda>b m. m + b) (lit (ge_F E) 1) (pl_inventory p)"

definition GetCooldownMultiplier :: "'f::{minus,ord} game_env \<Rightarrow> 'f Player \<Rightarrow> 'f" where
  "GetCooldownMultiplier E p =
     std_max (lit (ge_F E) (1/10))
       (passive_fold (ge_dm E) [''cooldown''] (\<lambda>b m. m - b) (lit (ge_F E) 1) (pl_inventory p))"

definition GetAreaMultiplier :: "'f::plus game_env \<Rightarrow> 'f Player \<Rightarrow> 'f" where
  "GetAreaMultiplier E p = passive_fold (ge_dm E) [''area''] (\<lambda>b m. m + b) (lit (ge_F E) 1) (pl_inventory p)"

definition GetDurationMultiplier :: "'f::plus game_env \<Rightarrow> 'f Player \<Rightarrow> 'f" where
  "GetDurationMultiplier E p = passive_fold (ge_dm E) [''duration''] (\<lambda>b m. m + b) (lit (ge_F E) 1) (pl_inventory p)"

definition GetAdditionalProjectileCount :: "'f game_env \<Rightarrow> 'f Player \<Rightarrow> int" where
  "GetAdditionalProjectileCount E p =
     passive_fold (ge_dm E) [''projectile_count''] (\<lambda>b c. c + to_i32 (ge_F E) b) 0 (pl_inventory p)"

definition GetAdditionalPierceCount :: "'f game_env \<Rightarrow> 'f Player \<Rightarrow> int" where
  "GetAdditionalPierceCount E p =
     passive_fold (ge_dm E) [''pierce''] (\<lambda>b c. c + to_i32 (ge_F E) b) 0 (pl_inventory p)"

definition GetCriticalChance :: "'f::plus game_env \<Rightarrow> 'f Player \<Rightarrow> 'f" where
  "GetCriticalChance E p =
     passive_fold (ge_dm E) [''critical_chance'', ''crit_chance''] (\<lambda>b m. m + b) (lit (ge_F E) (5/100)) (pl_inventory p)"

definition GetCriticalDamageMultiplier :: "'f::plus game_env \<Rightarrow> 'f Player \<Rightarrow> 'f" where
  "GetCriticalDamageMultiplier E p =
     passive_fold (ge_dm E) [''critical_damage'', ''crit_damage''] (\<lambda>b m. m + b) (lit (ge_F E) (3/2)) (pl_inventory p)"

section \<open>Input and damage\<close>

definition ApplyInput ::
  "'f::{zero,plus,minus,uminus,times,inverse,ord} game_env \<Rightarrow> u32 \<Rightarrow> int \<Rightarrow> int \<Rightarrow> 'f Player \<Rightarrow> 'f Player" where
  "ApplyInput E tick dx dy p0 =
     (let F = ge_F E; p = p0\<lparr> pl_lastInputTick := tick \<rparr> in
      if IsControlDisabled p \<or> pl_isLevelingUp p then p
      else (let dir = vec (of_i32 F dx) (of_i32 F dy) in
            if IsZero F dir then SetState IDLE 0 (SetVelocity F 0 0 p)
            else (let d = Normalize F dir;
                      speed = pl_speed p * GetMovementSpeedMultiplier E p
                  in SetState MOVING 0 (SetVelocity F (v2x d * speed) (v2y d * speed)
                       (p\<lparr> pl_facingDirX := v2x d, pl_facingDirY := v2y d \<rparr>)))))"

definition Player_TakeDamage :: "'f::{zero,plus,ord} game_env \<Rightarrow> int \<Rightarrow> nat \<Rightarrow> 'f room \<Rightarrow> 'f room" where
  "Player_TakeDamage E damage a r =
     (case player_at r a of
        None \<Rightarrow> r
      | Some p \<Rightarrow>
          if IsDead p \<or> pl_isLevelingUp p \<or> IsInvincible (rm_totalRunTime r) p \<or> pl_godMode p then r
          else (let p1 = SetInvincible (rm_totalRunTime r + lit (ge_F E) (1/2)) p;
                    p2 = p1\<lparr> go_hp := go_hp p1 - damage \<rparr>;
                    r1 = BroadcastPacket E (hp_packet (ge_F E) p2) (put a (PlayerObj p2) r)
                in if go_hp p2 \<le> 0
                   then BroadcastPacket E (S_PlayerDead (go_id p2))
                          (put a (PlayerObj (SetState DEAD 0 (p2\<lparr> go_hp := 0 \<rparr>))) r1)
                   else r1))"

text \<open>\<open>ApplySkills\<close>: only the legacy skill 101 has an effect.\<close>

definition apply_skill :: "int \<times> int \<Rightarrow> 'f Player \<Rightarrow> 'f Player" where
  "apply_skill s p =
     (if fst s = 101
      then (let mx = go_maxHp p + 10 * snd s in p\<lparr> go_maxHp := mx, go_hp := mx \<rparr>) else p)"

definition ApplySkills :: "'f game_env \<Rightarrow> (int \<times> int) list \<Rightarrow> nat \<Rightarrow> 'f room \<Rightarrow> 'f room" where
  "ApplySkills E skills a r =
     (case player_at r a of
        None \<Rightarrow> r
      | Some p \<Rightarrow> (let p1 = fold apply_skill skills p
                  in BroadcastPacket E (hp_packet (ge_F E) p1) (put a (PlayerObj p1) r)))"

section \<open>Inventory effects\<close>

definition inventory_items :: "PlayerInventory \<Rightarrow> (int \<times> int \<times> bool) list" where
  "inventory_items v =
     map (\<lambda>i. (i, GetWeaponLevel v i, False)) (GetOwnedWeaponIds v) @
     map (\<lambda>i. (i, GetPassiveLevel v i, True)) (GetOwnedPassiveIds v)"

definition SyncInventory :: "'f game_env \<Rightarrow> nat \<Rightarrow> 'f room \<Rightarrow> 'f room" where
  "SyncInventory E a r =
     (case player_at r a of
        None \<Rightarrow> r
      | Some p \<Rightarrow> SendToPlayer E (pl_sessionId p)
                   (S_UpdateInventory (go_id p) (inventory_items (pl_inventory p))) r)"

text \<open>The constructor of an emitter (\<open>Game/DamageEmitter.cpp\<close>); its timer starts full.\<close>

definition new_emitter :: "'f::zero game_env \<Rightarrow> int \<Rightarrow> nat \<Rightarrow> int \<Rightarrow> int \<Rightarrow> 'f DamageEmitter" where
  "new_emitter E skill owner weapon level =
     (let F = ge_F E; t = GetSkillInfo (ge_dm E) skill;
          field = (\<lambda>sel d. case t of Some s \<Rightarrow> sel s | None \<Rightarrow> d);
          ti = (case t of Some s \<Rightarrow> sk_tickInterval s | None \<Rightarrow> lit F 1)
      in \<lparr> de_skillId = skill, de_weaponId = weapon, de_level = level, de_owner = owner,
           de_damage = (case t of Some s \<Rightarrow> sk_damage s | None \<Rightarrow> 0),
           de_typeId = (case t of Some s \<Rightarrow> sk_typeId s | None \<Rightarrow> 0),
           de_tickInterval = ti, de_hitRadius = field sk_hitRadius (lit F 1), de_timer = ti,
           de_activeDuration = field sk_activeDuration 0, de_dotInterval = field sk_dotInterval (lit F (1/2)),
           de_dotTimer = 0, de_state = COOLING,
           de_emitterType = (case t of Some s \<Rightarrow> sk_emitterType s | None \<Rightarrow> ''AoE''),
           de_pierce = (case t of Some s \<Rightarrow> sk_pierce s | None \<Rightarrow> 1),
           de_maxTargetsPerTick = (case t of Some s \<Rightarrow> sk_maxTargetsPerTick s | None \<Rightarrow> 1),
           de_targetRule = (case t of Some s \<Rightarrow> sk_targetRule s | None \<Rightarrow> ''Nearest''),
           de_lifeTime = field sk_lifeTime 0, de_elapsedTime = 0, de_arcDegrees = field sk_arcDegrees (lit F 30),
           de_width = field sk_width (lit F 1), de_height = field sk_height (lit F 1), de_active = True \<rparr>)"

text \<open>The body of the loop over the owned weapons in \<open>RefreshInventoryEffects\<close>.\<close>

fun set_level_of :: "int \<Rightarrow> int \<Rightarrow> 'f DamageEmitter list \<Rightarrow> 'f DamageEmitter list" where
  "set_level_of w l [] = []"
| "set_level_of w l (e # es) =
     (if de_weaponId e = w then e\<lparr> de_level := l \<rparr> # es else e # set_level_of w l es)"

definition refresh_weapon ::
  "'f::zero game_env \<Rightarrow> nat \<Rightarrow> PlayerInventory \<Rightarrow> int \<Rightarrow> 'f DamageEmitter list \<Rightarrow> 'f DamageEmitter list" where
  "refresh_weapon E owner v w es =
     (let level = GetWeaponLevel v w in
      if \<exists>e \<in> set es. de_weaponId e = w then set_level_of w level es
      else case GetWeaponInfo (ge_dm E) w of
             None \<Rightarrow> es
           | Some t \<Rightarrow>
               if level > 0 \<and> level \<le> int (length (wi_levels t))
               then es @ [new_emitter E (wl_skillId (wi_levels t ! nat (level - 1))) owner w level]
               else es)"

definition refresh_emitters :: "'f::zero game_env \<Rightarrow> nat \<Rightarrow> PlayerInventory \<Rightarrow> 'f DamageEmitter list \<Rightarrow> 'f DamageEmitter list" where
  "refresh_emitters E owner v es =
     fold (refresh_weapon E owner v) (GetOwnedWeaponIds v)
       (filter (\<lambda>e. de_weaponId e = 0 \<or> de_weaponId e \<in> set (GetOwnedWeaponIds v)) es)"

text \<open>The product of the base value and the multiplier is computed in \<open>double\<close> and truncated.\<close>

definition refresh_hp :: "'f::{plus,times} game_env \<Rightarrow> 'f Player \<Rightarrow> 'f Player" where
  "refresh_hp E p =
     (let old = go_maxHp p;
          mx = to_i32 (ge_F E) (of_i32 (ge_F E) (pl_baseMaxHp p) * GetMaxHpMultiplier E p)
      in p\<lparr> go_maxHp := mx,
            go_hp := (if mx > old \<and> old > 0 then go_hp p + (mx - old)
                      else if go_hp p > mx then mx else go_hp p) \<rparr>)"

definition RefreshInventoryEffects :: "'f::{zero,plus,times} game_env \<Rightarrow> nat \<Rightarrow> 'f room \<Rightarrow> 'f room" where
  "RefreshInventoryEffects E a r =
     (case player_at r a of
        None \<Rightarrow> r
      | Some p \<Rightarrow>
          (let p1 = refresh_hp E p;
               p2 = p1\<lparr> pl_emitters := refresh_emitters E a (pl_inventory p1) (pl_emitters p1) \<rparr>;
               r1 = SyncInventory E a (put a (PlayerObj p2) r)
           in if go_maxHp p \<noteq> go_maxHp p2 then BroadcastPacket E (hp_packet (ge_F E) p2) r1 else r1))"

definition AddDefaultSkills :: "'f::{zero,plus,times} game_env \<Rightarrow> int list \<Rightarrow> nat \<Rightarrow> 'f room \<Rightarrow> 'f room" where
  "AddDefaultSkills E skills a r =
     RefreshInventoryEffects E a
       (upd_player a (\<lambda>p. p\<lparr> pl_inventory := fold (\<lambda>i v. snd (AddOrUpgradeWeapon (ge_dm E) i v)) skills (pl_inventory p) \<rparr>) r)"

text \<open>\<open>CheckWeaponEvolutions\<close> evolves the first weapon that qualifies.\<close>

definition evolves :: "'f DataManager \<Rightarrow> PlayerInventory \<Rightarrow> int \<Rightarrow> int option" where
  "evolves dm v w =
     (case GetWeaponInfo dm w of
        None \<Rightarrow> None
      | Some t \<Rightarrow>
          if wi_evolutionId t > 0 \<and> wi_evolutionPassiveId t > 0 \<and> GetWeaponLevel v w \<ge> wi_maxLevel t \<and>
             HasPassive v (wi_evolutionPassiveId t)
          then Some (wi_evolutionId t) else None)"

definition CheckWeaponEvolutions :: "'f::{zero,plus,times} game_env \<Rightarrow> nat \<Rightarrow> 'f room \<Rightarrow> 'f room" where
  "CheckWeaponEvolutions E a r =
     (case player_at r a of
        None \<Rightarrow> r
      | Some p \<Rightarrow>
          (case List.find (\<lambda>w. evolves (ge_dm E) (pl_inventory p) w \<noteq> None) (GetOwnedWeaponIds (pl_inventory p)) of
             None \<Rightarrow> r
           | Some w \<Rightarrow>
               (let evo = the (evolves (ge_dm E) (pl_inventory p) w);
                    v = snd (AddOrUpgradeWeapon (ge_dm E) evo (RemoveWeapon w (pl_inventory p)));
                    p1 = p\<lparr> pl_inventory := v, pl_emitters := filter (\<lambda>e. de_weaponId e \<noteq> w) (pl_emitters p) \<rparr>
                in RefreshInventoryEffects E a (put a (PlayerObj p1) r))))"

text \<open>\<open>LevelUpManager::ApplySelection\<close>.\<close>

definition ApplySelection :: "'f::{zero,plus,times} game_env \<Rightarrow> nat \<Rightarrow> int \<Rightarrow> 'f room \<Rightarrow> 'f room" where
  "ApplySelection E a idx r =
     (case player_at r a of
        None \<Rightarrow> r
      | Some p \<Rightarrow>
          if idx < 0 \<or> idx \<ge> int (length (pl_pendingLevelUpOptions p)) then r
          else (let sel = pl_pendingLevelUpOptions p ! nat idx;
                    (success, v) = apply_option (ge_dm E) sel (pl_inventory p);
                    r1 = put a (PlayerObj (p\<lparr> pl_inventory := v \<rparr>)) r;
                    r2 = (if success then SyncInventory E a (RefreshInventoryEffects E a r1) else r1)
                in upd_player a (\<lambda>q. q\<lparr> pl_pendingLevelUpOptions := [] \<rparr>) r2))"

section \<open>Experience and the level-up state\<close>

definition EXP_BASE :: int where "EXP_BASE = 100"
definition EXP_PER_LEVEL_INCREMENT :: int where "EXP_PER_LEVEL_INCREMENT = 50"

text \<open>
  The loop \<open>while (_exp >= _maxExp)\<close>. With a non-positive threshold it would not end; the model is
  \<open>None\<close> then, and the levels a player can have rule it out.
\<close>

partial_function (option) exp_loop :: "int \<Rightarrow> int \<Rightarrow> int \<Rightarrow> (int \<times> int \<times> int) option" where
  "exp_loop e mx l =
     (if e \<ge> mx then exp_loop (e - mx) (EXP_BASE + (l + 1 - 1) * EXP_PER_LEVEL_INCREMENT) (l + 1)
      else Some (e, mx, l))"

text \<open>\<open>EnterLevelUpState\<close>: the monsters nearby are pushed away.\<close>

definition knock_back :: "'f::{zero,plus,minus,uminus,times,inverse,ord} game_env \<Rightarrow> 'f \<Rightarrow> 'f \<Rightarrow> nat \<Rightarrow> 'f room \<Rightarrow> 'f room" where
  "knock_back E px py m r =
     (case rm_heap r m of
        Some (MonsterObj mo) \<Rightarrow>
          (let F = ge_F E;
               d0 = vec (go_x mo - px) (go_y mo - py);
               d = Normalize F (if IsZero F d0 then vec (lit F 1) (lit F 0) else d0);
               force = lit F 10; dur = lit F (3/10);
               mo1 = SetState KNOCKBACK (rm_totalRunTime r + dur) (SetVelocity F (v2x d * force) (v2y d * force) mo)
           in BroadcastPacket E (S_Knockback (go_id mo) (v2x d) (v2y d) force dur) (put m (MonsterObj mo1) r))
      | _ \<Rightarrow> r)"

definition EnterLevelUpState ::
  "'f::{zero,plus,minus,uminus,times,inverse,ord} game_env \<Rightarrow> nat \<Rightarrow> 'f room \<Rightarrow> 'f room" where
  "EnterLevelUpState E a r =
     (case player_at r a of
        None \<Rightarrow> r
      | Some p \<Rightarrow>
          (let F = ge_F E; now = rm_totalRunTime r;
               p1 = p\<lparr> pl_isLevelingUp := True, pl_levelUpStartedAt := now, pl_invincibleUntil := now + lit F 999 \<rparr>;
               p2 = SetState IDLE 0 (SetVelocity F 0 0 p1);
               r1 = put a (PlayerObj p2) r
           in fold (knock_back E (go_x p) (go_y p)) (GetMonstersInRange F r1 (go_x p) (go_y p) (lit F 15)) r1))"

definition release_slow :: "int \<Rightarrow> 'f room \<Rightarrow> 'f room" where
  "release_slow i r = (case lookup r i of Some (m, MonsterObj mo) \<Rightarrow> put m (MonsterObj (RemoveLevelUpSlow mo)) r | _ \<Rightarrow> r)"

definition ExitLevelUpState :: "'f::{zero,plus,times} game_env \<Rightarrow> nat \<Rightarrow> 'f room \<Rightarrow> 'f room" where
  "ExitLevelUpState E a r =
     (case player_at r a of
        None \<Rightarrow> r
      | Some p \<Rightarrow>
          (let r1 = fold release_slow (pl_slowedMonsterIds p) r;
               r2 = upd_player a (\<lambda>q. q\<lparr> pl_isLevelingUp := False, pl_slowedMonsterIds := [], pl_invincibleUntil := 0 \<rparr>) r1
           in RefreshInventoryEffects E a r2))"

text \<open>
  \<open>AddExp\<close>. \<open>dis\<close> are the values \<open>SelectRandom\<close> draws. The result is \<open>None\<close> only when the level
  loop does not end.
\<close>

definition AddExp ::
  "'f::{zero,plus,minus,uminus,times,inverse,ord} game_env \<Rightarrow> (nat \<Rightarrow> int \<Rightarrow> int) \<Rightarrow> int \<Rightarrow> nat \<Rightarrow> 'f room \<Rightarrow> 'f room option" where
  "AddExp E dis amount a r =
     (case player_at r a of
        None \<Rightarrow> Some r
      | Some p \<Rightarrow>
          if pl_isLevelingUp p then Some r
          else (case exp_loop (pl_exp p + amount) (pl_maxExp p) (pl_plevel p) of
                  None \<Rightarrow> None
                | Some (e, mx, l) \<Rightarrow>
                    (let leveledUp = (l \<noteq> pl_plevel p);
                         p1 = p\<lparr> pl_exp := e, pl_maxExp := mx, pl_plevel := l \<rparr>;
                         r1 = put a (PlayerObj p1) r
                     in if pl_sessionId p = 0 then Some r1
                        else (let r2 = SendToPlayer E (pl_sessionId p) (S_ExpChange e mx l) r1 in
                              if \<not> leveledUp then Some r2
                              else (let options = GenerateOptions (ge_dm E) dis (pl_inventory p1) in
                                    if options = [] then Some r2
                                    else (let r3 = EnterLevelUpState E a r2;
                                              r4 = upd_player a (\<lambda>q. q\<lparr> pl_pendingLevelUpOptions := options \<rparr>) r3
                                          in Some (SendToPlayer E (pl_sessionId p)
                                               (S_LevelUpOption options (lit (ge_F E) 30) (lit (ge_F E) 10)) r4)))))))"

lemmas player_defs [conc] = new_player_def Player_Initialize_def Player_Reset_def CreatePlayer_def IsInvincible_def
  SetInvincible_def GetFacingDirection_def passive_fold_def GetDamageMultiplier_def GetMaxHpMultiplier_def
  GetMovementSpeedMultiplier_def GetCooldownMultiplier_def GetAreaMultiplier_def GetDurationMultiplier_def
  GetAdditionalProjectileCount_def GetAdditionalPierceCount_def GetCriticalChance_def
  GetCriticalDamageMultiplier_def ApplyInput_def Player_TakeDamage_def apply_skill_def ApplySkills_def
  inventory_items_def SyncInventory_def new_emitter_def refresh_weapon_def refresh_emitters_def refresh_hp_def
  RefreshInventoryEffects_def AddDefaultSkills_def evolves_def CheckWeaponEvolutions_def ApplySelection_def
  knock_back_def EnterLevelUpState_def release_slow_def ExitLevelUpState_def AddExp_def

section \<open>Levels and experience\<close>

text \<open>The experience needed to go from level 1 to level \<open>l\<close>.\<close>

definition exp_to_level :: "int \<Rightarrow> int" where
  "exp_to_level l = 25 * (l - 1) * (l + 2)"

definition threshold :: "int \<Rightarrow> int" where
  "threshold l = EXP_BASE + (l - 1) * EXP_PER_LEVEL_INCREMENT"

lemma exp_to_level_Suc: "exp_to_level (l + 1) = exp_to_level l + threshold l"
  by (simp add: exp_to_level_def threshold_def EXP_BASE_def EXP_PER_LEVEL_INCREMENT_def algebra_simps)

lemma exp_loop_returns:
  assumes "1 \<le> l"
  shows "\<exists>e' l'. exp_loop e (threshold l) l = Some (e', threshold l', l') \<and> e' < threshold l' \<and>
    l \<le> l' \<and> (0 \<le> e \<longrightarrow> 0 \<le> e') \<and> (e < threshold l \<longrightarrow> l' = l) \<and>
    exp_to_level l' + e' = exp_to_level l + e"
  using assms
proof (induction "nat e" arbitrary: e l rule: less_induct)
  case less
  have t: "threshold l > 0" using less.prems by (simp add: threshold_def EXP_BASE_def EXP_PER_LEVEL_INCREMENT_def)
  show ?case
  proof (cases "e \<ge> threshold l")
    case False
    then show ?thesis by (subst exp_loop.simps) auto
  next
    case True
    have step: "exp_loop e (threshold l) l = exp_loop (e - threshold l) (threshold (l + 1)) (l + 1)"
      using True by (subst exp_loop.simps) (simp add: threshold_def)
    have "nat (e - threshold l) < nat e" "1 \<le> l + 1" using t True less.prems by auto
    from less.hyps [OF this] step True show ?thesis
      by (fastforce simp: exp_to_level_Suc)
  qed
qed

text \<open>A player's level bookkeeping: the threshold of the level, and less experience than it.\<close>

definition levels_ok :: "'f Player \<Rightarrow> bool" where
  "levels_ok p \<longleftrightarrow> 1 \<le> pl_plevel p \<and> pl_maxExp p = threshold (pl_plevel p) \<and> 0 \<le> pl_exp p \<and> pl_exp p < pl_maxExp p"

lemma initialized_levels_ok: "levels_ok (Player_Initialize F i sid hp speed p)"
  by (simp add: levels_ok_def Player_Initialize_def threshold_def EXP_BASE_def)

lemma heap_put [simp]:
  "rm_heap (put a x r) = (rm_heap r)(a \<mapsto> x)"
  by (simp add: put_def)

lemma player_at_put [simp]: "player_at (put a (PlayerObj p) r) a = Some p"
  by (simp add: player_at_def)

lemma player_at_put_monster: "m \<noteq> a \<Longrightarrow> player_at (put m x r) a = player_at r a"
  by (simp add: player_at_def)

lemma heap_sends [simp]:
  "rm_heap (SendToPlayer E sid pkt r) = rm_heap r" "rm_heap (BroadcastPacket E pkt r) = rm_heap r"
  "rm_heap (BroadcastPacket_except E pkt ex r) = rm_heap r" "rm_heap (BroadcastSpawn E' as r') = rm_heap r'"
  "rm_heap (BroadcastDespawn E ids pks r) = rm_heap r" "rm_heap (SyncInventory E a r) = rm_heap r"
  by (auto simp: sending_defs SyncInventory_def split: option.splits)

lemma player_at_cong: "rm_heap r' a = rm_heap r a \<Longrightarrow> player_at r' a = player_at r a"
  by (simp add: player_at_def)

lemma player_at_sends [simp]:
  "player_at (SendToPlayer E sid pkt r) a = player_at r a" "player_at (BroadcastPacket E pkt r) a = player_at r a"
  "player_at (SyncInventory E b r) a = player_at r a"
  by (simp_all add: player_at_def)

lemma player_at_upd [simp]:
  "player_at (upd_player a f r) a = map_option f (player_at r a)"
  by (auto simp: player_at_def upd_player_def split: option.splits obj.splits)

lemma player_at_knock_back [simp]: "player_at (knock_back E x y m r) a = player_at r a"
  by (auto simp: knock_back_def player_at_def Let_def split: option.splits obj.splits)

lemma player_at_knock_backs [simp]: "player_at (fold (knock_back E x y) ms r) a = player_at r a"
  by (induction ms arbitrary: r) simp_all

lemma player_at_enter:
  "player_at r a = Some p \<Longrightarrow> \<exists>q. player_at (EnterLevelUpState E a r) a = Some q \<and>
     pl_exp q = pl_exp p \<and> pl_maxExp q = pl_maxExp p \<and> pl_plevel q = pl_plevel p \<and> pl_isLevelingUp q \<and>
     pl_inventory q = pl_inventory p"
  by (simp add: EnterLevelUpState_def Let_def SetState_def SetVelocity_def)


definition demo_env :: "rat game_env" where
  "demo_env = \<lparr> ge_F = rat_flops, ge_dm = empty_data, ge_dispatcher = True, ge_alloc = (\<lambda>_. True),
     ge_userDB = False, ge_popMonster = (\<lambda>_. None), ge_popProjectile = (\<lambda>_. None),
     ge_rng = (\<lambda>_. FastRandom_default), ge_shuffle = (\<lambda>_ xs. xs) \<rparr>"

definition demo_player :: "rat Player" where
  "demo_player = CreatePlayer demo_env None 7 7"

definition demo_hall :: "rat room" where
  "demo_hall = (empty_room 1)\<lparr> rm_heap := [0 \<mapsto> PlayerObj demo_player], rm_fresh := 1,
     rm_players := [(7, 0)], rm_objects := [(7, 0)] \<rparr>"

lemmas demo_hall_defs = demo_hall_def empty_room_def demo_player_def CreatePlayer_def new_player_def
  Player_Initialize_def demo_env_def empty_data_def GetPlayerInfo_def


section \<open>Damage\<close>

text \<open>Hit points and the dead state belong together.\<close>

definition hp_ok :: "('f, 'z) GameObject_scheme \<Rightarrow> bool" where
  "hp_ok x \<longleftrightarrow> 0 \<le> go_hp x \<and> (go_state x = DEAD \<longleftrightarrow> go_hp x = 0)"

text \<open>A hit on a player. A player who is dead, choosing a level-up, invincible or in god mode is not
  changed and nothing is sent. Otherwise the damage is subtracted, hit points stop at zero, the
  player is dead exactly when they reach zero, and becomes invincible for half a second, so that a
  second hit before that time has passed has no effect.
\<close>

theorem player_damage:
  fixes r :: "'f::{zero,plus,ord} room"
  assumes p: "player_at r a = Some p" "hp_ok p" and now: "rm_totalRunTime r < rm_totalRunTime r + lit (ge_F E) (1/2)"
  shows "(if IsDead p \<or> pl_isLevelingUp p \<or> IsInvincible (rm_totalRunTime r) p \<or> pl_godMode p
      then Player_TakeDamage E damage a r = r
      else (\<exists>q. player_at (Player_TakeDamage E damage a r) a = Some q \<and>
         go_hp q = max 0 (go_hp p - damage) \<and> hp_ok q \<and>
         Player_TakeDamage E d2 a (Player_TakeDamage E damage a r) = Player_TakeDamage E damage a r))"
proof (cases "IsDead p \<or> pl_isLevelingUp p \<or> IsInvincible (rm_totalRunTime r) p \<or> pl_godMode p")
  case True
  then show ?thesis using p by (simp add: Player_TakeDamage_def)
next
  case False
  let ?t = "rm_totalRunTime r"
  let ?p2 = "(SetInvincible (?t + lit (ge_F E) (1/2)) p)\<lparr> go_hp := go_hp p - damage \<rparr>"
  let ?q = "if go_hp p - damage \<le> 0 then SetState DEAD 0 (?p2\<lparr> go_hp := 0 \<rparr>) else ?p2"
  let ?r' = "Player_TakeDamage E damage a r"
  have q: "player_at ?r' a = Some ?q"
    using p False by (simp add: Player_TakeDamage_def Let_def SetInvincible_def)
  have time: "rm_totalRunTime ?r' = ?t"
    using p by (auto simp: Player_TakeDamage_def Let_def sending_defs put_def split: option.splits)
  have "IsInvincible ?t ?q" using now by (simp add: IsInvincible_def SetInvincible_def SetState_def)
  then have "Player_TakeDamage E d2 a ?r' = ?r'"
    using q time unfolding Player_TakeDamage_def [of E d2 a ?r'] by simp
  moreover have "go_hp ?q = max 0 (go_hp p - damage) \<and> hp_ok ?q"
    using False by (auto simp: hp_ok_def SetState_def SetInvincible_def IsDead_def)
  ultimately show ?thesis using False q by auto
qed

theorem player_damage_witness:
  "\<exists>q. player_at (Player_TakeDamage demo_env 130 0 demo_hall) 0 = Some q \<and> go_hp q = 0 \<and> hp_ok q"
proof -
  have p: "player_at demo_hall 0 = Some demo_player" "hp_ok demo_player"
    "rm_totalRunTime demo_hall < rm_totalRunTime demo_hall + lit (ge_F demo_env) (1/2)"
    "\<not> (IsDead demo_player \<or> pl_isLevelingUp demo_player \<or> IsInvincible (rm_totalRunTime demo_hall) demo_player \<or>
        pl_godMode demo_player)" "go_hp demo_player = 100"
    by (simp_all add: player_at_def hp_ok_def IsDead_def IsInvincible_def demo_hall_defs)
  from player_damage [OF p(1-3), of 130 0] p(4,5) show ?thesis by auto
qed

section \<open>Emitters follow the inventory\<close>

text \<open>A weapon whose current level has an entry in its level array.\<close>

definition armed :: "'f game_env \<Rightarrow> PlayerInventory \<Rightarrow> int \<Rightarrow> bool" where
  "armed E v w \<longleftrightarrow>
     (\<exists>t. GetWeaponInfo (ge_dm E) w = Some t \<and> 0 < GetWeaponLevel v w \<and>
          GetWeaponLevel v w \<le> int (length (wi_levels t)))"

lemma weaponId_set_level [simp]: "map de_weaponId (set_level_of w l es) = map de_weaponId es"
  by (induction es) auto

lemma set_level_of_level:
  "e \<in> set (set_level_of w l es) \<Longrightarrow> distinct (map de_weaponId (filter (\<lambda>e. de_weaponId e \<noteq> 0) es)) \<Longrightarrow> w \<noteq> 0 \<Longrightarrow>
   (de_weaponId e = w \<and> de_level e = l) \<or> (de_weaponId e \<noteq> w \<and> e \<in> set es)"
proof (induction es)
  case (Cons x xs)
  then show ?case by (cases "de_weaponId x = w") (auto simp: image_iff split: if_splits)
qed simp

definition weapon_emitters :: "'f DamageEmitter list \<Rightarrow> int list" where
  "weapon_emitters es = map de_weaponId (filter (\<lambda>e. de_weaponId e \<noteq> 0) es)"

lemma weapon_emitters_alt: "weapon_emitters es = filter (\<lambda>w. w \<noteq> 0) (map de_weaponId es)"
  by (simp add: weapon_emitters_def filter_map comp_def)

lemma refresh_weapon_ids:
  assumes "w \<noteq> 0"
  shows "weapon_emitters (refresh_weapon E owner v w es) =
    weapon_emitters es @ (if armed E v w \<and> w \<notin> set (weapon_emitters es) then [w] else [])"
proof -
  have "(\<exists>e \<in> set es. de_weaponId e = w) \<longleftrightarrow> w \<in> set (weapon_emitters es)"
    using assms by (auto simp: weapon_emitters_def)
  then show ?thesis
    using assms
    by (auto simp: refresh_weapon_def Let_def weapon_emitters_alt armed_def new_emitter_def split: option.splits)
qed

lemma refresh_weapons_ids:
  assumes "0 \<notin> set ws" "distinct (weapon_emitters es)"
  shows "distinct (weapon_emitters (fold (refresh_weapon E owner v) ws es)) \<and>
    set (weapon_emitters (fold (refresh_weapon E owner v) ws es)) =
      set (weapon_emitters es) \<union> {w \<in> set ws. armed E v w}"
  using assms
proof (induction ws arbitrary: es)
  case (Cons w ws)
  have w: "w \<noteq> 0" "0 \<notin> set ws" using Cons.prems(1) by auto
  have "distinct (weapon_emitters (refresh_weapon E owner v w es))"
    using Cons.prems(2) by (auto simp: refresh_weapon_ids [OF w(1)])
  from Cons.IH [OF w(2) this] show ?case by (auto simp: refresh_weapon_ids [OF w(1)])
qed simp

text \<open>After the inventory effects are refreshed, the player has exactly one emitter per owned weapon
  whose level has data (weapons keep the emitter they had), and none for a weapon no longer owned;
  built-in emitters (weapon id 0) stay.
\<close>

theorem emitters_match_inventory:
  assumes "player_at r a = Some p" "distinct (weapon_emitters (pl_emitters p))"
    and "0 \<notin> set (GetOwnedWeaponIds (pl_inventory p))"
  shows "\<exists>q. player_at (RefreshInventoryEffects E a r) a = Some q \<and> pl_inventory q = pl_inventory p \<and>
    distinct (weapon_emitters (pl_emitters q)) \<and>
    set (weapon_emitters (pl_emitters q)) =
      {w \<in> set (GetOwnedWeaponIds (pl_inventory p)). w \<in> set (weapon_emitters (pl_emitters p)) \<or> armed E (pl_inventory p) w}"
proof -
  let ?v = "pl_inventory p"
  let ?own = "set (GetOwnedWeaponIds ?v)"
  let ?es = "filter (\<lambda>e. de_weaponId e = 0 \<or> de_weaponId e \<in> ?own) (pl_emitters p)"
  let ?q = "(refresh_hp E p)\<lparr> pl_emitters := refresh_emitters E a ?v (pl_emitters p) \<rparr>"
  have q: "player_at (RefreshInventoryEffects E a r) a = Some ?q"
    using assms(1) by (simp add: RefreshInventoryEffects_def Let_def refresh_hp_def)
  have es: "weapon_emitters ?es = filter (\<lambda>w. w \<in> ?own) (weapon_emitters (pl_emitters p))"
    by (auto simp: weapon_emitters_def filter_map comp_def intro: arg_cong [where f = "map de_weaponId"] filter_cong)
  have "distinct (weapon_emitters ?es)" "set (weapon_emitters ?es) = set (weapon_emitters (pl_emitters p)) \<inter> ?own"
    using assms(2) unfolding es by auto
  with refresh_weapons_ids [OF assms(3), of ?es E a ?v] q show ?thesis
    by (auto simp: refresh_emitters_def refresh_hp_def Let_def)
qed

definition whip :: "rat WeaponInfo" where
  "whip = \<lparr> wi_id = 4, wi_name = ''whip'', wi_description = [], wi_icon = [], wi_maxLevel = 8, wi_weight = 100,
     wi_uniqueGroup = 0, wi_evolutionId = 0, wi_evolutionPassiveId = 0,
     wi_levels = [\<lparr> wl_level = 1, wl_skillId = 11, wl_damageMult = 1, wl_cooldownMult = 1, wl_durationMult = 1,
       wl_areaMult = 1, wl_speedMult = 1, wl_desc = [], wl_projectileCount = 0, wl_pierceCount = 0,
       wl_maxTargets = 0, wl_critChance = 0, wl_critDamageMult = 1, wl_effectType = [], wl_effectValue = 0,
       wl_effectDuration = 0, wl_flags = [], wl_params = [] \<rparr>] \<rparr>"

definition whip_env :: "rat game_env" where
  "whip_env = demo_env\<lparr> ge_dm := AddWeaponInfoForTest whip empty_data \<rparr>"

definition armed_hall :: "rat room" where
  "armed_hall = upd_player 0 (\<lambda>p. p\<lparr> pl_inventory := snd (AddOrUpgradeWeapon (ge_dm whip_env) 4 new_inventory) \<rparr>) demo_hall"

theorem emitters_match_inventory_witness:
  "\<exists>q. player_at (RefreshInventoryEffects whip_env 0 armed_hall) 0 = Some q \<and>
     set (weapon_emitters (pl_emitters q)) = {4}"
proof -
  let ?v = "snd (AddOrUpgradeWeapon (ge_dm whip_env) 4 new_inventory)"
  let ?p = "demo_player\<lparr> pl_inventory := ?v \<rparr>"
  have p: "player_at armed_hall 0 = Some ?p" "pl_emitters demo_player = []"
    by (simp_all add: armed_hall_def player_at_def upd_player_def put_def demo_hall_defs)
  have own: "GetOwnedWeaponIds ?v = [4]" "GetWeaponLevel ?v 4 = 1"
    by (simp_all add: inventory_defs)
  have "GetWeaponInfo (ge_dm whip_env) 4 = Some whip" "length (wi_levels whip) = 1"
    by (simp_all add: whip_env_def whip_def AddWeaponInfoForTest_def GetWeaponInfo_def empty_data_def)
  then have "armed whip_env ?v 4" unfolding armed_def own(2) by simp
  with emitters_match_inventory [OF p(1), of whip_env] p(2) own show ?thesis
    by (auto simp: weapon_emitters_def)
qed

text \<open>
  The bonus of the stored skills does not survive: \<open>ApplySkills\<close> raises the maximum, and the refresh
  that \<open>AddDefaultSkills\<close> runs right after it computes the maximum anew from the base value.
\<close>

lemma skill_bonus_is_lost:
  assumes "player_at r a = Some p"
  shows "\<exists>q. player_at (AddDefaultSkills E ws a (ApplySkills E [(101, l)] a r)) a = Some q \<and>
    go_maxHp q = to_i32 (ge_F E) (of_i32 (ge_F E) (pl_baseMaxHp p) *
      GetMaxHpMultiplier E q)"
  using assms
  by (auto simp: AddDefaultSkills_def ApplySkills_def apply_skill_def RefreshInventoryEffects_def refresh_hp_def
        GetMaxHpMultiplier_def Let_def)

end
