(* ===== verification/Game_Emitter.thy ===== *)
theory Game_Emitter
  imports Game_Player
begin

text \<open>
  The weapons (\<open>Game/DamageEmitter.cpp\<close>) and the player's update, which runs them
  (\<open>Player::Update\<close>). An emitter is a record in its owner's list; an update yields the emitter and
  the room with the monsters it hit, the projectiles it spawned and the messages it sent.
\<close>

section \<open>Effective values\<close>

record 'f emitter_stats =
  es_damageMult :: 'f
  es_cooldownMult :: 'f
  es_areaMult :: 'f
  es_durationMult :: 'f
  es_projectiles :: int
  es_pierce :: int
  es_level :: "'f WeaponLevelInfo option"

definition has_trait :: "'f game_env \<Rightarrow> 'f DamageEmitter \<Rightarrow> string \<Rightarrow> bool" where
  "has_trait E e t = (case GetSkillInfo (ge_dm E) (de_skillId e) of None \<Rightarrow> False | Some s \<Rightarrow> t \<in> set (sk_traits s))"

definition level_data :: "'f game_env \<Rightarrow> 'f DamageEmitter \<Rightarrow> 'f WeaponLevelInfo option" where
  "level_data E e =
     (if de_weaponId e > 0
      then (case GetWeaponInfo (ge_dm E) (de_weaponId e) of
              None \<Rightarrow> None
            | Some w \<Rightarrow> List.find (\<lambda>l. wl_level l = de_level e) (wi_levels w))
      else None)"

definition stats_of :: "'f::{plus,minus,times,ord} game_env \<Rightarrow> 'f Player \<Rightarrow> 'f DamageEmitter \<Rightarrow> 'f emitter_stats" where
  "stats_of E p e =
     (let one = lit (ge_F E) 1;
          s = \<lparr> es_damageMult = GetDamageMultiplier E p, es_cooldownMult = GetCooldownMultiplier E p,
                es_areaMult = (if has_trait E e ''AREA'' \<or> has_trait E e ''AOE'' then GetAreaMultiplier E p else one),
                es_durationMult = (if has_trait E e ''DURATION'' then GetDurationMultiplier E p else one),
                es_projectiles = (if has_trait E e ''PROJECTILE'' then GetAdditionalProjectileCount E p else 0),
                es_pierce = (if has_trait E e ''PROJECTILE'' then GetAdditionalPierceCount E p else 0),
                es_level = level_data E e \<rparr>
      in case level_data E e of
           None \<Rightarrow> s
         | Some l \<Rightarrow>
             (let area = es_areaMult s * wl_areaMult l in
              s\<lparr> es_damageMult := es_damageMult s * wl_damageMult l,
                 es_cooldownMult := es_cooldownMult s * wl_cooldownMult l,
                 es_durationMult := es_durationMult s * wl_durationMult l,
                 es_areaMult := (case map_of (wl_params l) ''skill_width_mult'' of
                                   Some k \<Rightarrow> area * k | None \<Rightarrow> area),
                 es_projectiles := es_projectiles s + wl_projectileCount l,
                 es_pierce := es_pierce s + wl_pierceCount l \<rparr>))"

text \<open>The status effect a hit applies: the skill's, overridden by the level's.\<close>

definition hit_effect :: "'f::zero game_env \<Rightarrow> 'f DamageEmitter \<Rightarrow> 'f emitter_stats \<Rightarrow> string \<times> 'f \<times> 'f" where
  "hit_effect E e st =
     (let (ty, v, d) = (case GetSkillInfo (ge_dm E) (de_skillId e) of
                          Some s \<Rightarrow> (sk_effectType s, sk_effectValue s, sk_effectDuration s)
                        | None \<Rightarrow> ([], 0, 0))
      in case es_level st of
           None \<Rightarrow> (ty, v, d)
         | Some l \<Rightarrow> (if wl_effectType l \<noteq> [] then wl_effectType l else ty,
                     if wl_effectValue l \<noteq> 0 then wl_effectValue l else v,
                     if wl_effectDuration l \<noteq> 0 then wl_effectDuration l else d))"

text \<open>The critical hit decision from a random value \<open>x\<close>, and the damage it leads to.\<close>

definition crit_chance :: "'f::{zero,plus,ord} game_env \<Rightarrow> 'f Player \<Rightarrow> 'f emitter_stats \<Rightarrow> 'f" where
  "crit_chance E p st =
     (let c = GetCriticalChance E p
      in case es_level st of Some l \<Rightarrow> (if wl_critChance l > 0 then c + wl_critChance l else c) | None \<Rightarrow> c)"

definition crit_damage :: "'f::{zero,plus,times,ord} game_env \<Rightarrow> 'f Player \<Rightarrow> 'f emitter_stats \<Rightarrow> 'f \<Rightarrow> int \<Rightarrow> bool \<times> int" where
  "crit_damage E p st x damage =
     (let F = ge_F E; crit = (x < crit_chance E p st);
          mult = (if crit
                  then (let m = GetCriticalDamageMultiplier E p
                        in case es_level st of
                             Some l \<Rightarrow> (if wl_critDamageMult l > lit F 1 then m * wl_critDamageMult l else m)
                           | None \<Rightarrow> m)
                  else lit F 1)
      in (crit, to_i32 F (of_i32 F damage * mult)))"

text \<open>\<open>FastRandom().NextFloat()\<close>: a generator constructed for one draw.\<close>

definition fresh_draw :: "'f::inverse game_env \<Rightarrow> 'f" where
  "fresh_draw E = fst (NextFloat (ge_F E) FastRandom_default)"

definition max_targets :: "'f emitter_stats \<Rightarrow> int \<Rightarrow> int" where
  "max_targets st n = (case es_level st of Some l \<Rightarrow> (if wl_maxTargets l > 0 then wl_maxTargets l else n) | None \<Rightarrow> n)"

section \<open>Hitting monsters\<close>

definition strike :: "'f::{zero,plus,ord} game_env \<Rightarrow> int \<Rightarrow> string \<times> 'f \<times> 'f \<Rightarrow> nat \<Rightarrow> 'f room \<Rightarrow> 'f room" where
  "strike E damage eff m r =
     (let r1 = Monster_TakeDamage E damage m r; (ty, v, d) = eff
      in if ty \<noteq> [] then upd_monster m (AddStatusEffect ty v d (rm_totalRunTime r)) r1 else r1)"

text \<open>
  The loop over victims: those that pass the test \<open>ok\<close> are struck until \<open>k\<close> have been; the ids hit
  come out in order.
\<close>

fun strike_loop ::
  "'f::{zero,plus,ord} game_env \<Rightarrow> ('f Monster \<Rightarrow> bool) \<Rightarrow> int \<Rightarrow> string \<times> 'f \<times> 'f \<Rightarrow> nat \<Rightarrow> nat list \<Rightarrow> 'f room \<Rightarrow>
    int list \<times> 'f room" where
  "strike_loop E ok damage eff k [] r = ([], r)"
| "strike_loop E ok damage eff k (m # ms) r =
     (if k = 0 then ([], r)
      else case rm_heap r m of
             Some (MonsterObj mo) \<Rightarrow>
               if ok mo
               then (let (ids, r') = strike_loop E ok damage eff (k - 1) ms (strike E damage eff m r)
                     in (go_id mo # ids, r'))
               else strike_loop E ok damage eff k ms r
           | _ \<Rightarrow> strike_loop E ok damage eff k ms r)"

definition send_hits :: "'f game_env \<Rightarrow> int \<Rightarrow> int list \<Rightarrow> int \<Rightarrow> bool list \<Rightarrow> 'f room \<Rightarrow> 'f room" where
  "send_hits E skill ids damage crits r =
     (if ids = [] then r
      else BroadcastPacket E (S_DamageEffect skill ids (map (\<lambda>_. damage) ids) crits) r)"

definition skill_fx :: "'f::zero game_env \<Rightarrow> int \<Rightarrow> int \<Rightarrow> 'f \<Rightarrow> 'f \<Rightarrow> 'f \<Rightarrow> 'f \<Rightarrow> 'f SkillEffect" where
  "skill_fx E caster skill x y radius dur =
     \<lparr> se_caster = caster, se_skill = skill, se_x = x, se_y = y, se_radius = radius, se_duration = dur,
       se_arc = 0, se_rotation = 0, se_width = 0, se_height = 0 \<rparr>"

section \<open>The field weapons\<close>

definition field_step ::
  "'f::{zero,plus,minus,times,inverse,ord} game_env \<Rightarrow> 'f \<Rightarrow> 'f Player \<Rightarrow> 'f emitter_stats \<Rightarrow> 'f \<Rightarrow> 'f DamageEmitter \<Rightarrow> 'f room \<Rightarrow>
    'f DamageEmitter \<times> 'f room" where
  "field_step E dt p st interval e0 r =
     (let F = ge_F E; e = e0\<lparr> de_timer := de_timer e0 + dt \<rparr>;
          dur = de_activeDuration e * es_durationMult st; radius = de_hitRadius e * es_areaMult st in
      if de_state e = COOLING then
        (if de_timer e \<ge> interval
         then (e\<lparr> de_state := ACTIVE, de_timer := 0, de_dotTimer := de_dotInterval e \<rparr>,
               BroadcastPacket E (S_SkillEffect (skill_fx E (go_id p) (de_skillId e) (go_x p) (go_y p) radius dur)) r)
         else (e, r))
      else
        (let e1 = e\<lparr> de_dotTimer := de_dotTimer e + dt \<rparr>;
             (e2, r1) =
               (if de_dotTimer e1 \<ge> de_dotInterval e1
                then (let damage = to_i32 F (of_i32 F (de_damage e) * es_damageMult st);
                          eff = (case GetSkillInfo (ge_dm E) (de_skillId e) of
                                   Some s \<Rightarrow> (sk_effectType s, sk_effectValue s, sk_effectDuration s)
                                 | None \<Rightarrow> ([], 0, 0));
                          victims = GetMonstersInRange F r (go_x p) (go_y p) radius;
                          (ids, r') = strike_loop E (\<lambda>_. True) damage eff (length victims) victims r
                      in (e1\<lparr> de_dotTimer := de_dotTimer e1 - de_dotInterval e1 \<rparr>,
                          send_hits E (de_skillId e) ids damage [] r'))
                else (e1, r))
         in (if de_timer e2 \<ge> dur then e2\<lparr> de_state := COOLING, de_timer := 0 \<rparr> else e2, r1)))"

section \<open>The pulse weapons\<close>

text \<open>The nearest of some monsters, as the loop of the linear weapon finds it.\<close>

fun nearest_monster ::
  "'f::{plus,minus,times,ord} room \<Rightarrow> 'f \<Rightarrow> 'f \<Rightarrow> nat list \<Rightarrow> 'f \<Rightarrow> 'f Monster option \<Rightarrow> 'f Monster option" where
  "nearest_monster r px py [] best near = near"
| "nearest_monster r px py (m # ms) best near =
     (case rm_heap r m of
        Some (MonsterObj mo) \<Rightarrow>
          if IsDead mo then nearest_monster r px py ms best near
          else (let d = DistanceSq (vec px py) (vec (go_x mo) (go_y mo))
                in if d < best then nearest_monster r px py ms d (Some mo) else nearest_monster r px py ms best near)
      | _ \<Rightarrow> nearest_monster r px py ms best near)"

definition aim :: "'f::{zero,plus,minus,uminus,times,inverse,ord} game_env \<Rightarrow> 'f Player \<Rightarrow> 'f room \<Rightarrow> 'f Vector2" where
  "aim E p r =
     (let F = ge_F E in
      case nearest_monster r (go_x p) (go_y p) (GetMonstersInRange F r (go_x p) (go_y p) (lit F 30)) (fmaxval F) None of
        None \<Rightarrow> GetFacingDirection p
      | Some mo \<Rightarrow>
          (let d = vec (go_x mo - go_x p) (go_y mo - go_y p)
           in if \<not> IsZero F d then Normalize F d else GetFacingDirection p))"

text \<open>Spawning a projectile: it enters the object manager and is announced.\<close>

definition launch ::
  "'f::{zero,minus,ord} game_env \<Rightarrow> 'f Player \<Rightarrow> 'f DamageEmitter \<Rightarrow> 'f \<Rightarrow> 'f \<Rightarrow> 'f \<Rightarrow> 'f \<Rightarrow> int \<Rightarrow> 'f \<Rightarrow>
    ('f Projectile \<Rightarrow> 'f Projectile) \<Rightarrow> 'f room \<Rightarrow> 'f room" where
  "launch E p e x y vx vy damage life configure r =
     (let (a, r1) = CreateProjectile E (go_id p) (de_skillId e) (de_typeId e) x y vx vy damage life configure r
      in BroadcastSpawn E [a] (AddObject a r1))"

definition level_speed :: "'f game_env \<Rightarrow> 'f emitter_stats \<Rightarrow> 'f" where
  "level_speed E st = (case es_level st of Some l \<Rightarrow> wl_speedMult l | None \<Rightarrow> lit (ge_F E) 1)"

definition fire_linear ::
  "'f::{zero,plus,minus,uminus,times,inverse,ord} game_env \<Rightarrow> 'f Player \<Rightarrow> 'f emitter_stats \<Rightarrow> int \<Rightarrow> 'f DamageEmitter \<Rightarrow> 'f room \<Rightarrow> 'f room" where
  "fire_linear E p st damage e r =
     (let F = ge_F E; dir = aim E p r; speed = lit F 15 * level_speed E st; n = 1 + es_projectiles st in
      fold (\<lambda>i r.
        (let d = (if n > 1
                  then (let off = (of_i32 F i / of_i32 F (n - 1) - lit F (1/2)) * lit F (1/2);
                            s = fsin F off; c = fcos F off
                        in vec (v2x dir * c - v2y dir * s) (v2x dir * s + v2y dir * c))
                  else dir);
             so = go_radius p + lit F (3/10)
         in launch E p e (go_x p + v2x d * so) (go_y p + v2y d * so) (v2x d * speed) (v2y d * speed) damage (lit F 3)
              (\<lambda>q. q\<lparr> go_radius := lit F (2/10), pr_pierceCount := de_pierce e + es_pierce st \<rparr>) r))
        [0..n - 1] r)"

definition fire_orbit ::
  "'f::{zero,plus,minus,uminus,times,inverse,ord} game_env \<Rightarrow> 'f Player \<Rightarrow> 'f emitter_stats \<Rightarrow> int \<Rightarrow> 'f DamageEmitter \<Rightarrow> 'f room \<Rightarrow> 'f room" where
  "fire_orbit E p st damage e r =
     (let F = ge_F E; n = 1 + es_projectiles st; radius = lit F 3 * es_areaMult st;
          speed = lit F 4 * level_speed E st; life = lit F 4 * es_durationMult st in
      fold (\<lambda>i r.
        (let angle = (of_i32 F i / of_i32 F n) * lit F 2 * lit F (314159265 / 100000000)
         in launch E p e (go_x p + radius * fcos F angle) (go_y p + radius * fsin F angle) 0 0 damage life
              (\<lambda>q. SetOrbit radius speed angle (q\<lparr> go_radius := lit F (3/10), pr_pierceCount := - 1 \<rparr>)) r))
        [0..n - 1] r)"

fun zone_loop :: "'f::{zero,ord} game_env \<Rightarrow> 'f Player \<Rightarrow> int \<Rightarrow> 'f DamageEmitter \<Rightarrow> nat list \<Rightarrow> 'f room \<Rightarrow> int list \<times> 'f room" where
  "zone_loop E p damage e [] r = ([], r)"
| "zone_loop E p damage e (m # ms) r =
     (case rm_heap r m of
        Some (MonsterObj mo) \<Rightarrow>
          (let r1 = Monster_TakeDamage E damage m r;
               fx = skill_fx E (go_id p) (de_skillId e) (go_x mo) (go_y mo) (lit (ge_F E) 1) (lit (ge_F E) (2/10));
               (ids, r') = zone_loop E p damage e ms (BroadcastPacket E (S_SkillEffect fx) r1)
           in (go_id mo # ids, r'))
      | _ \<Rightarrow> zone_loop E p damage e ms r)"

definition fire_zone ::
  "'f::{zero,plus,minus,uminus,times,inverse,ord} game_env \<Rightarrow> 'f Player \<Rightarrow> 'f emitter_stats \<Rightarrow> int \<Rightarrow> 'f \<Rightarrow> 'f DamageEmitter \<Rightarrow> 'f room \<Rightarrow> 'f room" where
  "fire_zone E p st damage radius e r =
     (let ms = GetMonstersInRange (ge_F E) r (go_x p) (go_y p) radius in
      if ms = [] then r
      else (let shots = max_targets st (1 + es_projectiles st);
                r0 = r\<lparr> rm_draws := Suc (rm_draws r) \<rparr>;
                (ids, r1) = zone_loop E p damage e (take (nat shots) (ge_shuffle E (rm_draws r) ms)) r0
            in send_hits E (de_skillId e) ids damage [] r1))"

definition fire_box ::
  "'f::{zero,plus,minus,uminus,times,inverse,ord} game_env \<Rightarrow> 'f Player \<Rightarrow> 'f emitter_stats \<Rightarrow> int \<Rightarrow> 'f DamageEmitter \<Rightarrow>
    'f Vector2 \<Rightarrow> 'f \<Rightarrow> 'f \<Rightarrow> 'f room \<Rightarrow> 'f room" where
  "fire_box E p st damage e dir w h r =
     (let F = ge_F E; half = lit F (1/2);
          cx = go_x p + v2x dir * (h * half); cy = go_y p + v2y dir * (h * half);
          angle = fatan2 F (v2y dir) (v2x dir); sinA = fsin F (- angle); cosA = fcos F (- angle);
          ms = GetMonstersInRange F r cx cy h;
          k = max_targets st (de_maxTargetsPerTick e + es_projectiles st);
          (crit, cd) = crit_damage E p st (fresh_draw E) damage;
          inside = (\<lambda>mo. let dx = go_x mo - cx; dy = go_y mo - cy
                         in fabs (dx * cosA - dy * sinA) \<le> h * half \<and> fabs (dx * sinA + dy * cosA) \<le> w * half);
          (ids, r1) = strike_loop E inside cd (hit_effect E e st) (nat (max 1 k)) ms r;
          r2 = send_hits E (de_skillId e) ids cd (map (\<lambda>_. crit) ids) r1;
          fx = (skill_fx E (go_id p) (de_skillId e) cx cy (h * half) (lit F (2/10)))\<lparr>
                 se_width := w, se_height := h,
                 se_rotation := angle * (lit F 180 / lit F (314159265 / 100000000)) \<rparr>
      in BroadcastPacket E (S_SkillEffect fx) r2)"

definition fire_directional ::
  "'f::{zero,plus,minus,uminus,times,inverse,ord} game_env \<Rightarrow> 'f Player \<Rightarrow> 'f emitter_stats \<Rightarrow> int \<Rightarrow> 'f DamageEmitter \<Rightarrow> 'f room \<Rightarrow> 'f room" where
  "fire_directional E p st damage e r =
     (let one = lit (ge_F E) 1; dir = GetFacingDirection p;
          param = (\<lambda>k. case es_level st of
                         Some l \<Rightarrow> (case map_of (wl_params l) k of Some v \<Rightarrow> v | None \<Rightarrow> one) | None \<Rightarrow> one);
          both = (case es_level st of Some l \<Rightarrow> ''BIDIRECTIONAL'' \<in> set (wl_flags l) | None \<Rightarrow> False);
          w = de_width e * es_areaMult st * param ''skill_width_mult'';
          h = de_height e * es_areaMult st * param ''skill_height_mult'';
          r1 = fire_box E p st damage e dir w h r
      in if both then fire_box E p st damage e (vec (- v2x dir) (- v2y dir)) w h r1 else r1)"

definition fire_arc ::
  "'f::{zero,plus,minus,uminus,times,inverse,ord} game_env \<Rightarrow> 'f Player \<Rightarrow> 'f emitter_stats \<Rightarrow> int \<Rightarrow> 'f \<Rightarrow> 'f DamageEmitter \<Rightarrow> 'f room \<Rightarrow> 'f room" where
  "fire_arc E p st damage radius e r =
     (let F = ge_F E; dir = GetFacingDirection p;
          ms = GetMonstersInRange F r (go_x p) (go_y p) radius;
          (x, r0) = draw E r;
          (crit, cd) = crit_damage E p st x damage;
          k = max_targets st (de_maxTargetsPerTick e + es_projectiles st);
          deg = lit F 180;
          inside = (\<lambda>mo. let v = vec (go_x mo - go_x p) (go_y mo - go_y p); n = Normalize F v;
                             dot = v2x dir * v2x n + v2y dir * v2y n;
                             cl = (if dot < lit F (- 1) then lit F (- 1) else if lit F 1 < dot then lit F 1 else dot)
                         in \<not> IsDead mo \<and> \<not> MagnitudeSq v > radius * radius \<and>
                            facos F cl * deg / lit F (314159265 / 100000000) \<le> de_arcDegrees e / lit F 2);
          (ids, r1) = strike_loop E inside cd (hit_effect E e st) (nat (max 1 k)) ms r0;
          r2 = send_hits E (de_skillId e) ids cd (map (\<lambda>_. crit) ids) r1;
          fx = (skill_fx E (go_id p) (de_skillId e) (go_x p) (go_y p) radius (lit F (3/10)))\<lparr>
                 se_arc := de_arcDegrees e,
                 se_rotation := fatan2 F (v2y dir) (v2x dir) * (deg / lit F (314159265 / 100000000)) \<rparr>
      in BroadcastPacket E (S_SkillEffect fx) r2)"

text \<open>The common end of the aura and the area pulse.\<close>

definition fire_area ::
  "'f::{zero,plus,minus,uminus,times,inverse,ord} game_env \<Rightarrow> 'f Player \<Rightarrow> 'f emitter_stats \<Rightarrow> int \<Rightarrow> 'f \<Rightarrow> int \<Rightarrow> 'f DamageEmitter \<Rightarrow>
    nat list \<Rightarrow> 'f room \<Rightarrow> 'f room" where
  "fire_area E p st damage radius k e victims r =
     (let (crit, cd) = crit_damage E p st (fresh_draw E) damage;
          (ids, r1) = strike_loop E (\<lambda>_. True) cd (hit_effect E e st) (nat k) victims r;
          r2 = send_hits E (de_skillId e) ids cd (map (\<lambda>_. crit) ids) r1
      in BroadcastPacket E (S_SkillEffect
           (skill_fx E (go_id p) (de_skillId e) (go_x p) (go_y p) radius (lit (ge_F E) (2/10)))) r2)"

fun insert_near :: "('a \<Rightarrow> 'f::ord) \<Rightarrow> 'a \<Rightarrow> 'a list \<Rightarrow> 'a list" where
  "insert_near key x [] = [x]"
| "insert_near key x (y # ys) = (if key y < key x then y # insert_near key x ys else x # y # ys)"

text \<open>\<open>std::sort\<close> of the victims by distance; the order of equal ones is the model's choice.\<close>

definition sort_near :: "'f::{plus,minus,times,ord} room \<Rightarrow> 'f \<Rightarrow> 'f \<Rightarrow> nat list \<Rightarrow> nat list" where
  "sort_near r px py ms =
     foldr (insert_near (\<lambda>m. case rm_heap r m of
                               Some x \<Rightarrow> DistanceSq (vec px py) (vec (go_x (base x)) (go_y (base x)))
                             | None \<Rightarrow> DistanceSq (vec px py) (vec px py))) ms []"

definition fire_aura ::
  "'f::{zero,plus,minus,uminus,times,inverse,ord} game_env \<Rightarrow> 'f Player \<Rightarrow> 'f emitter_stats \<Rightarrow> int \<Rightarrow> 'f \<Rightarrow> 'f DamageEmitter \<Rightarrow> 'f room \<Rightarrow> 'f room" where
  "fire_aura E p st damage radius e r =
     fire_area E p st damage radius (max_targets st (de_maxTargetsPerTick e + es_projectiles st)) e
       (GetMonstersInRange (ge_F E) r (go_x p) (go_y p) radius) r"

definition fire_aoe ::
  "'f::{zero,plus,minus,uminus,times,inverse,ord} game_env \<Rightarrow> 'f Player \<Rightarrow> 'f emitter_stats \<Rightarrow> int \<Rightarrow> 'f \<Rightarrow> 'f DamageEmitter \<Rightarrow> 'f room \<Rightarrow> 'f room" where
  "fire_aoe E p st damage radius e r =
     (let ms = GetMonstersInRange (ge_F E) r (go_x p) (go_y p) radius;
          victims = (if de_targetRule e = ''Nearest'' then sort_near r (go_x p) (go_y p) ms else ms)
      in fire_area E p st damage radius (max_targets st (de_maxTargetsPerTick e)) e victims r)"

definition fire ::
  "'f::{zero,plus,minus,uminus,times,inverse,ord} game_env \<Rightarrow> 'f Player \<Rightarrow> 'f emitter_stats \<Rightarrow> 'f DamageEmitter \<Rightarrow> 'f room \<Rightarrow> 'f room" where
  "fire E p st e r =
     (let F = ge_F E; damage = to_i32 F (of_i32 F (de_damage e) * es_damageMult st);
          radius = de_hitRadius e * es_areaMult st; ty = de_emitterType e in
      if ty = ''Linear'' then fire_linear E p st damage e r
      else if ty = ''Orbit'' then fire_orbit E p st damage e r
      else if ty = ''Zone'' then fire_zone E p st damage radius e r
      else if ty = ''Directional'' then fire_directional E p st damage e r
      else if ty = ''Arc'' then fire_arc E p st damage radius e r
      else if ty = ''Aura'' then fire_aura E p st damage radius e r
      else fire_aoe E p st damage radius e r)"

section \<open>Update\<close>

definition Emitter_Update ::
  "'f::{zero,plus,minus,uminus,times,inverse,ord} game_env \<Rightarrow> 'f \<Rightarrow> 'f DamageEmitter \<Rightarrow> 'f room \<Rightarrow> 'f DamageEmitter \<times> 'f room" where
  "Emitter_Update E dt e0 r =
     (case player_at r (de_owner e0) of
        None \<Rightarrow> (e0, r)
      | Some p \<Rightarrow>
          if IsDead p \<or> \<not> de_active e0 then (e0, r)
          else (let e = e0\<lparr> de_elapsedTime := de_elapsedTime e0 + dt \<rparr> in
                if de_lifeTime e > 0 \<and> de_elapsedTime e \<ge> de_lifeTime e then (e\<lparr> de_active := False \<rparr>, r)
                else (let st = stats_of E p e;
                          interval = std_max (lit (ge_F E) (5/100)) (de_tickInterval e * es_cooldownMult st)
                      in if de_activeDuration e > 0 then field_step E dt p st interval e r
                         else (let e1 = e\<lparr> de_timer := de_timer e + dt \<rparr>
                               in if de_timer e1 \<ge> interval
                                  then (let e2 = e1\<lparr> de_timer := de_timer e1 - interval \<rparr> in (e2, fire E p st e2 r))
                                  else (e1, r)))))"

definition Emitter_IsExpired :: "'f DamageEmitter \<Rightarrow> 'f room \<Rightarrow> bool" where
  "Emitter_IsExpired e r \<longleftrightarrow>
     \<not> de_active e \<or> (case player_at r (de_owner e) of None \<Rightarrow> True | Some p \<Rightarrow> IsDead p)"

text \<open>The aura of a player who is levelling up: monsters that came into range are slowed, those that
left it are released; each is listed in one message. The list of slowed monsters is ordered, as the
\<open>std::set\<close> of the code is.\<close>

definition move_entry :: "'f Monster \<Rightarrow> 'f ObjectPos" where
  "move_entry m = \<lparr> op_objectId = go_id m, op_x = go_x m, op_y = go_y m, op_vx = go_vx m, op_vy = go_vy m,
     op_state = IDLE, op_lookLeft = False \<rparr>"

fun slow_loop :: "'f::plus game_env \<Rightarrow> nat list \<Rightarrow> int list \<times> 'f ObjectPos list \<times> 'f room \<Rightarrow> int list \<times> 'f ObjectPos list \<times> 'f room" where
  "slow_loop E [] acc = acc"
| "slow_loop E (m # ms) (slowed, moves, r) =
     (case rm_heap r m of
        Some (MonsterObj mo) \<Rightarrow>
          if go_id mo \<in> set slowed then slow_loop E ms (slowed, moves, r)
          else (let mo1 = AddLevelUpSlow (ge_F E) (rm_totalRunTime r) (lit (ge_F E) 999) mo
                in slow_loop E ms (insort (go_id mo) slowed, moves @ [move_entry mo1], put m (MonsterObj mo1) r))
      | _ \<Rightarrow> slow_loop E ms (slowed, moves, r))"

fun leave_loop :: "int list \<Rightarrow> int list \<Rightarrow> 'f ObjectPos list \<times> 'f room \<Rightarrow> int list \<times> 'f ObjectPos list \<times> 'f room" where
  "leave_loop inRange [] (moves, r) = ([], moves, r)"
| "leave_loop inRange (i # is) (moves, r) =
     (if i \<in> set inRange
      then (let (rest, out) = leave_loop inRange is (moves, r) in (i # rest, out))
      else (case lookup r i of
              Some (m, MonsterObj mo) \<Rightarrow>
                (let mo1 = RemoveLevelUpSlow mo in leave_loop inRange is (moves @ [move_entry mo1], put m (MonsterObj mo1) r))
            | _ \<Rightarrow> leave_loop inRange is (moves, r)))"

definition ids_at :: "'f room \<Rightarrow> nat list \<Rightarrow> int list" where
  "ids_at r ms = map obj_id (objects_at r ms)"

definition level_up_aura ::
  "'f::{zero,plus,minus,uminus,times,inverse,ord} game_env \<Rightarrow> nat \<Rightarrow> 'f room \<Rightarrow> 'f room" where
  "level_up_aura E a r =
     (case player_at r a of
        None \<Rightarrow> r
      | Some p \<Rightarrow>
          (let F = ge_F E; ms = GetMonstersInRange F r (go_x p) (go_y p) (lit F 10);
               (slowed, moves, r1) = slow_loop E ms (pl_slowedMonsterIds p, [], r);
               (kept, moves', r2) = leave_loop (ids_at r ms) slowed (moves, r1);
               r3 = upd_player a (\<lambda>q. q\<lparr> pl_slowedMonsterIds := kept \<rparr>) r2;
               r4 = (if moves' \<noteq> [] then BroadcastPacket E (S_MoveObjectBatch moves' (rm_serverTick r)) r3 else r3)
           in if rm_totalRunTime r - pl_levelUpStartedAt p > lit F 30 + lit F 2 then ExitLevelUpState E a r4 else r4))"

text \<open>The loop over the emitters works by index: emitter \<open>i\<close> of the owner's current list.\<close>

fun emitter_loop ::
  "'f::{zero,plus,minus,uminus,times,inverse,ord} game_env \<Rightarrow> 'f \<Rightarrow> nat \<Rightarrow> nat list \<Rightarrow> 'f room \<Rightarrow> 'f room" where
  "emitter_loop E dt a [] r = r"
| "emitter_loop E dt a (i # is) r =
     (case player_at r a of
        None \<Rightarrow> r
      | Some p \<Rightarrow>
          if i < length (pl_emitters p)
          then (let (e, r1) = Emitter_Update E dt (pl_emitters p ! i) r
                in emitter_loop E dt a is (upd_player a (\<lambda>q. q\<lparr> pl_emitters := (pl_emitters q)[i := e] \<rparr>) r1))
          else r)"

definition Player_Update ::
  "'f::{zero,plus,minus,uminus,times,inverse,ord} game_env \<Rightarrow> 'f \<Rightarrow> nat \<Rightarrow> 'f room \<Rightarrow> 'f room" where
  "Player_Update E dt a r =
     (case player_at r a of
        None \<Rightarrow> r
      | Some p \<Rightarrow>
          (let r1 = (if pl_isLevelingUp p then level_up_aura E a r else r) in
           if \<not> pl_isReady p then r1
           else (let n = (case player_at r1 a of Some q \<Rightarrow> length (pl_emitters q) | None \<Rightarrow> 0);
                     r2 = emitter_loop E dt a [0..<n] r1
                 in upd_player a (\<lambda>q. q\<lparr> pl_emitters := filter (\<lambda>e. \<not> Emitter_IsExpired e r2) (pl_emitters q) \<rparr>) r2)))"

lemmas emitter_defs [conc] = has_trait_def level_data_def stats_of_def hit_effect_def crit_chance_def crit_damage_def
  fresh_draw_def max_targets_def strike_def send_hits_def skill_fx_def field_step_def aim_def launch_def
  level_speed_def fire_linear_def fire_orbit_def fire_zone_def fire_box_def fire_directional_def fire_arc_def
  fire_area_def sort_near_def fire_aura_def fire_aoe_def fire_def Emitter_Update_def Emitter_IsExpired_def
  move_entry_def ids_at_def level_up_aura_def Player_Update_def

end
