(* ===== verification/Emitter_Classes.thy ===== *)
theory Emitter_Classes
  imports Game_Emitter
begin

text \<open>
  The strategy classes of the weapons (\<open>Game/IEmitter.h\<close>, \<open>Game/Emitter/*.cpp\<close>) and the composite nodes of behaviour
  trees (\<open>Entity/AI/BehaviorTree/BehaviorTree.h\<close>).

  \<open>DamageEmitter\<close> holds a pointer to a strategy that nothing sets and nothing calls: it has its own code for every type of
  weapon.  Shown: for the linear and the orbiting weapon the class does to the room exactly what the
  code in use does, so these two could be exchanged; the other classes could not, because they are empty or, for
  the zone, different.  The tree of the boss does what its single node does.
\<close>

section \<open>The classes\<close>

record 'f WeaponStats =
  ws_damage :: int
  ws_hitRadius :: 'f
  ws_tickInterval :: 'f
  ws_activeDuration :: 'f
  ws_dotInterval :: 'f
  ws_projectileCount :: int
  ws_pierceCount :: int
  ws_speedMult :: 'f
  ws_areaMult :: 'f
  ws_durationMult :: 'f
  ws_critChance :: 'f
  ws_critDamageMult :: 'f
  ws_maxTargets :: int
  ws_effectType :: string
  ws_effectValue :: 'f
  ws_effectDuration :: 'f
  ws_arcDegrees :: 'f
  ws_width :: 'f
  ws_height :: 'f
  ws_bidirectional :: bool
  ws_targetRule :: string

text \<open>An object of a class with its timer; the classes whose \<open>Update\<close> is empty are told apart by their name only.\<close>

datatype 'f strategy = LinearEmitter 'f | OrbitEmitter 'f | ZoneEmitter 'f
  | DirectionalEmitter 'f | ArcEmitter 'f | AuraEmitter 'f | AoEEmitter 'f | FieldStateEmitter 'f

definition CreateEmitter :: "string \<Rightarrow> 'f \<Rightarrow> 'f \<Rightarrow> 'f strategy" where
  "CreateEmitter ty initialTickInterval activeDuration =
     (if ty = ''Linear'' then LinearEmitter initialTickInterval
      else if ty = ''Orbit'' then OrbitEmitter initialTickInterval
      else if ty = ''Zone'' then ZoneEmitter initialTickInterval
      else if ty = ''DirectionalMelee'' then DirectionalEmitter initialTickInterval
      else if ty = ''ArcMelee'' then ArcEmitter initialTickInterval
      else if ty = ''Aura'' then AuraEmitter initialTickInterval
      else if ty = ''AoE'' then AoEEmitter initialTickInterval
      else if ty = ''FieldState'' then FieldStateEmitter initialTickInterval
      else LinearEmitter initialTickInterval)"

definition Linear_fire ::
  "'f::{zero,plus,minus,uminus,times,inverse,ord} game_env \<Rightarrow> 'f Player \<Rightarrow> 'f WeaponStats \<Rightarrow> 'f DamageEmitter \<Rightarrow> 'f room \<Rightarrow> 'f room" where
  "Linear_fire E p ws e r =
     (let F = ge_F E; px = go_x p; py = go_y p;
          dir = (if ws_targetRule ws = ''Nearest''
                 then (let ms = GetMonstersInRange F r px py (lit F 30)
                       in if ms = [] then GetFacingDirection p
                          else case nearest_monster r px py ms (fmaxval F) None of
                                 None \<Rightarrow> GetFacingDirection p
                               | Some mo \<Rightarrow> (let d = vec (go_x mo - px) (go_y mo - py)
                                            in if \<not> IsZero F d then Normalize F d else GetFacingDirection p))
                 else GetFacingDirection p);
          speed = lit F 15 * ws_speedMult ws; life = lit F 3; n = ws_projectileCount ws in
      fold (\<lambda>i r.
        (let d = (if n > 1
                  then (let off = (of_i32 F i / of_i32 F (n - 1) - lit F (1/2)) * lit F (1/2);
                            s = fsin F off; c = fcos F off
                        in vec (v2x dir * c - v2y dir * s) (v2x dir * s + v2y dir * c))
                  else dir);
             so = go_radius p + lit F (3/10)
         in launch E p e (px + v2x d * so) (py + v2y d * so) (v2x d * speed) (v2y d * speed) (ws_damage ws) life
              (\<lambda>q. q\<lparr> go_radius := lit F (2/10), pr_pierceCount := ws_pierceCount ws \<rparr>) r))
        [0..n - 1] r)"

definition Orbit_fire ::
  "'f::{zero,plus,minus,uminus,times,inverse,ord} game_env \<Rightarrow> 'f Player \<Rightarrow> 'f WeaponStats \<Rightarrow> 'f DamageEmitter \<Rightarrow> 'f room \<Rightarrow> 'f room" where
  "Orbit_fire E p ws e r =
     (let F = ge_F E; n = ws_projectileCount ws; orbitRadius = lit F 3 * ws_areaMult ws;
          orbitSpeed = lit F 4 * ws_speedMult ws; life = lit F 4 * ws_durationMult ws in
      fold (\<lambda>i r.
        (let angle = (of_i32 F i / of_i32 F n) * lit F 2 * lit F (314159265 / 100000000)
         in launch E p e (go_x p + orbitRadius * fcos F angle) (go_y p + orbitRadius * fsin F angle) 0 0 (ws_damage ws) life
              (\<lambda>q. SetOrbit orbitRadius orbitSpeed angle (q\<lparr> go_radius := lit F (3/10), pr_pierceCount := - 1 \<rparr>)) r))
        [0..n - 1] r)"

text \<open>The zone: every target is the centre of a splash; the draws come from one generator with the default seed.\<close>

fun splash_loop ::
  "'f::{zero,times,ord,inverse} game_env \<Rightarrow> 'f WeaponStats \<Rightarrow> nat list \<Rightarrow> FastRandom \<Rightarrow> 'f room \<Rightarrow> (int \<times> int \<times> bool) list \<times> FastRandom \<times> 'f room" where
  "splash_loop E ws [] g r = ([], g, r)"
| "splash_loop E ws (m # ms) g r = (case rm_heap r m of
      Some (MonsterObj mo) \<Rightarrow>
        if IsDead mo then splash_loop E ws ms g r
        else (let (crit, g1) = (if ws_critChance ws > 0 then (let (x, g1) = NextFloat (ge_F E) g in (x < ws_critChance ws, g1)) else (False, g));
                  damage = (if crit then to_i32 (ge_F E) (of_i32 (ge_F E) (ws_damage ws) * ws_critDamageMult ws) else ws_damage ws);
                  (hits, g2, r2) = splash_loop E ws ms g1 (Monster_TakeDamage E damage m r)
              in ((go_id mo, damage, crit) # hits, g2, r2))
    | _ \<Rightarrow> splash_loop E ws ms g r)"

definition splash ::
  "'f::{zero,plus,minus,uminus,times,inverse,ord} game_env \<Rightarrow> 'f Player \<Rightarrow> 'f WeaponStats \<Rightarrow> 'f DamageEmitter \<Rightarrow> 'f Monster \<Rightarrow> FastRandom \<Rightarrow> 'f room \<Rightarrow> FastRandom \<times> 'f room" where
  "splash E p ws e mo g r =
     (let F = ge_F E; splashRadius = (if ws_width ws > 0 then ws_width ws else lit F (15/10)) * ws_areaMult ws;
          cx = go_x mo; cy = go_y mo;
          (hits, g1, r1) = splash_loop E ws (GetMonstersInRange F r cx cy splashRadius) g r;
          r2 = (if hits = [] then r1
                else BroadcastPacket E (S_DamageEffect (de_skillId e) (map fst hits) (map (fst \<circ> snd) hits) (map (snd \<circ> snd) hits)) r1)
      in (g1, BroadcastPacket E (S_SkillEffect (skill_fx E (go_id p) (de_skillId e) cx cy splashRadius (lit F (2/10)))) r2))"

fun Zone_loop ::
  "'f::{zero,plus,minus,uminus,times,inverse,ord} game_env \<Rightarrow> 'f Player \<Rightarrow> 'f WeaponStats \<Rightarrow> 'f DamageEmitter \<Rightarrow> nat \<Rightarrow> nat list \<Rightarrow> FastRandom \<Rightarrow> 'f room \<Rightarrow> 'f room" where
  "Zone_loop E p ws e 0 ms g r = r"
| "Zone_loop E p ws e (Suc k) ms g r =
     (if ms = [] then r
      else let (i, g1) = NextInt 0 (int (length ms) - 1) g; m = ms ! nat i;
               ms1 = take (nat i) ms @ drop (Suc (nat i)) ms
           in case rm_heap r m of
                Some (MonsterObj mo) \<Rightarrow>
                  if IsDead mo then Zone_loop E p ws e k ms1 g1 r
                  else (let (g2, r1) = splash E p ws e mo g1 r in Zone_loop E p ws e k ms1 g2 r1)
              | _ \<Rightarrow> Zone_loop E p ws e k ms1 g1 r)"

definition Zone_fire ::
  "'f::{zero,plus,minus,uminus,times,inverse,ord} game_env \<Rightarrow> 'f Player \<Rightarrow> 'f WeaponStats \<Rightarrow> 'f DamageEmitter \<Rightarrow> 'f room \<Rightarrow> 'f room" where
  "Zone_fire E p ws e r =
     Zone_loop E p ws e (nat (max 1 (ws_projectileCount ws))) (GetMonstersInRange (ge_F E) r (go_x p) (go_y p) (lit (ge_F E) 30)) FastRandom_default r"

text \<open>\<open>Update\<close> of the three classes is a pulse; that of the others is empty.\<close>

definition pulse :: "'f::{plus,minus,ord} \<Rightarrow> 'f WeaponStats \<Rightarrow> 'f \<Rightarrow> ('f room \<Rightarrow> 'f room) \<Rightarrow> 'f room \<Rightarrow> 'f \<times> 'f room" where
  "pulse dt ws t f r = (let t1 = t + dt in if t1 \<ge> ws_tickInterval ws then (t1 - ws_tickInterval ws, f r) else (t1, r))"

definition Strategy_Update ::
  "'f::{zero,plus,minus,uminus,times,inverse,ord} game_env \<Rightarrow> 'f \<Rightarrow> 'f Player \<Rightarrow> 'f WeaponStats \<Rightarrow> 'f DamageEmitter \<Rightarrow> 'f strategy \<Rightarrow> 'f room \<Rightarrow> 'f strategy \<times> 'f room" where
  "Strategy_Update E dt p ws e s r = (case s of
      LinearEmitter t \<Rightarrow> (case pulse dt ws t (Linear_fire E p ws e) r of (t1, r1) \<Rightarrow> (LinearEmitter t1, r1))
    | OrbitEmitter t \<Rightarrow> (case pulse dt ws t (Orbit_fire E p ws e) r of (t1, r1) \<Rightarrow> (OrbitEmitter t1, r1))
    | ZoneEmitter t \<Rightarrow> (case pulse dt ws t (Zone_fire E p ws e) r of (t1, r1) \<Rightarrow> (ZoneEmitter t1, r1))
    | _ \<Rightarrow> (s, r))"

section \<open>The classes and the code in use\<close>

text \<open>The values the code in use computes for a pulse, as the statistics a class would be given.\<close>

definition effective_stats :: "'f::{zero,plus,minus,times,ord} game_env \<Rightarrow> 'f Player \<Rightarrow> 'f DamageEmitter \<Rightarrow> 'f WeaponStats" where
  "effective_stats E p e =
     (let F = ge_F E; st = stats_of E p e in
      \<lparr> ws_damage = to_i32 F (of_i32 F (de_damage e) * es_damageMult st), ws_hitRadius = de_hitRadius e,
        ws_tickInterval = std_max (lit F (5/100)) (de_tickInterval e * es_cooldownMult st), ws_activeDuration = de_activeDuration e,
        ws_dotInterval = de_dotInterval e, ws_projectileCount = 1 + es_projectiles st, ws_pierceCount = de_pierce e + es_pierce st,
        ws_speedMult = level_speed E st, ws_areaMult = es_areaMult st, ws_durationMult = es_durationMult st,
        ws_critChance = crit_chance E p st, ws_critDamageMult = GetCriticalDamageMultiplier E p,
        ws_maxTargets = max_targets st (de_maxTargetsPerTick e + es_projectiles st),
        ws_effectType = fst (hit_effect E e st), ws_effectValue = fst (snd (hit_effect E e st)), ws_effectDuration = snd (snd (hit_effect E e st)),
        ws_arcDegrees = de_arcDegrees e, ws_width = de_width e, ws_height = de_height e, ws_bidirectional = False, ws_targetRule = ''Nearest'' \<rparr>)"

fun strategy_timer :: "'f strategy \<Rightarrow> 'f" where
  "strategy_timer (LinearEmitter t) = t"
| "strategy_timer (OrbitEmitter t) = t"
| "strategy_timer (ZoneEmitter t) = t"
| "strategy_timer (DirectionalEmitter t) = t"
| "strategy_timer (ArcEmitter t) = t"
| "strategy_timer (AuraEmitter t) = t"
| "strategy_timer (AoEEmitter t) = t"
| "strategy_timer (FieldStateEmitter t) = t"

lemma launch_emitter: "de_skillId e' = de_skillId e \<Longrightarrow> de_typeId e' = de_typeId e \<Longrightarrow> launch E p e' = launch E p e"
  by (simp add: launch_def fun_eq_iff)

lemma Linear_fire_eq:
  "Linear_fire E p (effective_stats E p e) e r = fire_linear E p (stats_of E p e) (ws_damage (effective_stats E p e)) e r"
  by (cases "GetMonstersInRange (ge_F E) r (go_x p) (go_y p) (lit (ge_F E) 30) = []")
    (simp_all add: Linear_fire_def fire_linear_def aim_def effective_stats_def Let_def)

lemma Orbit_fire_eq:
  "Orbit_fire E p (effective_stats E p e) e r = fire_orbit E p (stats_of E p e) (ws_damage (effective_stats E p e)) e r"
  by (simp add: Orbit_fire_def fire_orbit_def effective_stats_def Let_def)

lemma fire_same_emitter:
  "fire_linear E p st d (e\<lparr>de_timer := t\<rparr>) r = fire_linear E p st d e r" "fire_orbit E p st d (e\<lparr>de_timer := t\<rparr>) r = fire_orbit E p st d e r"
  using launch_emitter [of "e\<lparr>de_timer := t\<rparr>" e E p] by (simp_all add: fire_linear_def fire_orbit_def)


definition demo_bolt :: "rat DamageEmitter" where
  "demo_bolt = (new_emitter demo_env 1 0 0 0)\<lparr>de_emitterType := ''Linear'', de_tickInterval := 1, de_active := True, de_owner := 0,
     de_activeDuration := 0, de_lifeTime := 0\<rparr>"


text \<open>Of the eight names \<open>CreateEmitter\<close> knows, five make an object whose \<open>Update\<close> does nothing.\<close>

lemma empty_strategies:
  "ty \<in> {''DirectionalMelee'', ''ArcMelee'', ''Aura'', ''AoE'', ''FieldState''} \<Longrightarrow>
   Strategy_Update E dt p ws e (CreateEmitter ty t d) r = (CreateEmitter ty t d, r)"
  by (auto simp: Strategy_Update_def CreateEmitter_def)

section \<open>Behaviour trees\<close>

datatype NodeStatus = SUCCESS | FAILURE | RUNNING

type_synonym 's node = "'s \<Rightarrow> NodeStatus \<times> 's"   \<comment> \<open>\<open>Tick\<close> on the monster and the room\<close>

fun Selector :: "'s node list \<Rightarrow> 's node" where
  "Selector [] s = (FAILURE, s)"
| "Selector (c # cs) s = (case c s of (st, s1) \<Rightarrow> if st \<noteq> FAILURE then (st, s1) else Selector cs s1)"

fun Sequence :: "'s node list \<Rightarrow> 's node" where
  "Sequence [] s = (SUCCESS, s)"
| "Sequence (c # cs) s = (case c s of (st, s1) \<Rightarrow> if st \<noteq> SUCCESS then (st, s1) else Sequence cs s1)"

definition AddChild :: "'s node \<Rightarrow> 's node list \<Rightarrow> 's node list" where
  "AddChild c cs = cs @ [c]"

text \<open>The node of the boss; \<open>has_room\<close> is false when it is ticked by \<open>Execute\<close>.\<close>

definition ChaseNode :: "'f::{zero,plus,minus,uminus,times,inverse,ord} game_env \<Rightarrow> nat \<Rightarrow> 'f Monster \<Rightarrow> bool \<Rightarrow> 'f room node" where
  "ChaseNode E a m has_room r =
     (if \<not> has_room then (RUNNING, r)
      else case target_of E m r of
             None \<Rightarrow> (FAILURE, r)
           | Some t \<Rightarrow>
               (let dx = go_x t - go_x m; dy = go_y t - go_y m; distSq = dx * dx + dy * dy in
                if distSq > lit (ge_F E) (1/10)
                then (let dist = fsqrt (ge_F E) distSq; (speed, m1) = GetSpeed (ge_F E) m
                      in (RUNNING, put a (MonsterObj (SetVelocity (ge_F E) ((dx / dist) * speed) ((dy / dist) * speed) m1)) r))
                else (SUCCESS, r)))"

definition BuildTree :: "'f::{zero,plus,minus,uminus,times,inverse,ord} game_env \<Rightarrow> nat \<Rightarrow> 'f Monster \<Rightarrow> bool \<Rightarrow> 'f room node" where
  "BuildTree E a m has_room = Selector (AddChild (ChaseNode E a m has_room) [])"

text \<open>The tree does what the behaviours of \<open>Monster_Movement\<close> say of the boss.\<close>

lemma boss_tree: "snd (BuildTree E a m True r) = boss_chase E a m r" "snd (BuildTree E a m False r) = r"
  by (auto simp: BuildTree_def AddChild_def ChaseNode_def boss_chase_def Let_def case_prod_beta split: option.split)

text \<open>A selector and a sequence stop at the first child that decides; what the others would have done does not matter.\<close>

lemma composites_stop:
  "c s = (st, s1) \<Longrightarrow> st \<noteq> FAILURE \<Longrightarrow> Selector (c # cs) s = (st, s1)" "c s = (st, s1) \<Longrightarrow> st \<noteq> SUCCESS \<Longrightarrow> Sequence (c # cs) s = (st, s1)"
  by simp_all

lemma selector_fails: "fst (Selector cs s) = FAILURE \<Longrightarrow> snd (Selector cs s) = fold (\<lambda>c s. snd (c s)) cs s"
  by (induction cs arbitrary: s) (auto simp: case_prod_beta split: if_splits)

lemma sequence_succeeds: "fst (Sequence cs s) = SUCCESS \<Longrightarrow> snd (Sequence cs s) = fold (\<lambda>c s. snd (c s)) cs s"
  by (induction cs arbitrary: s) (auto simp: case_prod_beta split: if_splits)

end
