(* ===== verification/Message_Queue.thy ===== *)
theory Message_Queue
  imports Prelude
begin

text \<open>
  The message queue (\<open>System/MQ\<close>): the driver for Redis streams (\<open>RedisStreamDriver.cpp\<close>) with its poll task, the driver
  for NATS (\<open>NatsDriver.cpp\<close>) and \<open>MessageSystem\<close> above them.  The two client libraries are parameters: what a call
  answers is an argument.

  Of Redis the statements use what its documentation says of \<open>XREAD\<close>: for every stream it answers with consecutive
  entries after the given id, for the id \<open>$\<close> with entries that came after the call began.

  Shown: a subscription gets the entries of its stream one by one, each once and in their order, also when its
  callback throws; of two subscriptions to one topic the second gets nothing; the poll task can use the connection after it
  was closed; the callbacks handed to NATS live exactly as long as their subscriptions.
\<close>

section \<open>Redis streams\<close>

type_synonym item = "string \<times> (string \<times> string) list option"   \<comment> \<open>id and attributes of an entry\<close>

record Subscription =
  sub_topic :: string
  sub_lastId :: string
  sub_callback :: nat

text \<open>\<open>rd_poll\<close> is the poll task: \<open>None\<close> at the head of its loop, \<open>Some streams\<close> inside \<open>xread\<close>; \<open>rd_tasks\<close> counts the poll
  tasks given to the thread pool, and \<open>rd_calls\<close> has the calls of callbacks.\<close>

record redis_driver =
  rd_redis :: bool                                    \<comment> \<open>\<open>m_redis\<close> is not null\<close>
  rd_running :: bool
  rd_pool :: bool
  rd_subs :: "Subscription list"
  rd_subsChanged :: bool
  rd_tasks :: nat
  rd_poll :: "(string \<times> string) list option"
  rd_calls :: "(nat \<times> string \<times> string) list"

definition RedisStreamDriver :: redis_driver where
  "RedisStreamDriver = \<lparr>rd_redis = False, rd_running = False, rd_pool = False, rd_subs = [], rd_subsChanged = False, rd_tasks = 0,
     rd_poll = None, rd_calls = []\<rparr>"

definition SetThreadPool :: "bool \<Rightarrow> redis_driver \<Rightarrow> redis_driver" where
  "SetThreadPool p d = d\<lparr>rd_pool := p\<rparr>"

text \<open>\<open>made\<close>: the client object could be made; \<open>pong\<close>: the ping succeeded.\<close>

definition Redis_Connect :: "bool \<Rightarrow> bool \<Rightarrow> redis_driver \<Rightarrow> bool \<times> redis_driver" where
  "Redis_Connect made pong d =
     (if \<not> made then (False, d)
      else if \<not> pong then (False, d\<lparr>rd_redis := True\<rparr>)
      else (True, d\<lparr>rd_redis := True, rd_running := True, rd_tasks := rd_tasks d + (if rd_pool d then 1 else 0)\<rparr>))"

definition Redis_Disconnect :: "redis_driver \<Rightarrow> redis_driver" where
  "Redis_Disconnect d = d\<lparr>rd_running := False, rd_redis := False\<rparr>"

text \<open>The command sent, and whether the call succeeded; \<open>sent\<close> tells whether \<open>xadd\<close> returns without an exception.\<close>

definition Redis_Publish :: "bool \<Rightarrow> string \<Rightarrow> string \<Rightarrow> redis_driver \<Rightarrow> bool \<times> (string \<times> (string \<times> string) list) list" where
  "Redis_Publish sent tp msg d =
     (if \<not> rd_redis d then (False, []) else if sent then (True, [(tp, [(''payload'', msg)])]) else (False, []))"

definition Redis_Subscribe :: "string \<Rightarrow> nat \<Rightarrow> redis_driver \<Rightarrow> bool \<times> redis_driver" where
  "Redis_Subscribe tp cb d =
     (True, d\<lparr>rd_subs := rd_subs d @ [\<lparr>sub_topic = tp, sub_lastId = ''$'', sub_callback = cb\<rparr>], rd_subsChanged := True\<rparr>)"

text \<open>The ids the next \<open>xread\<close> asks for: of subscriptions to one topic the last counts.\<close>

fun streams_of :: "Subscription list \<Rightarrow> (string \<times> string) list" where
  "streams_of [] = []"
| "streams_of (s # subs) = (let m = streams_of subs
     in if map_of m (sub_topic s) = None then (sub_topic s, sub_lastId s) # m else m)"

text \<open>The entries of one stream go to the first subscription of its topic.  \<open>thr\<close>: a callback ends by an exception, which leaves
  all the loops.\<close>

definition payload_of :: "item \<Rightarrow> string option" where
  "payload_of it = Option.bind (snd it) (\<lambda>attrs. map_of attrs ''payload'')"

fun deliver_items ::
  "(nat \<Rightarrow> string \<Rightarrow> string \<Rightarrow> bool) \<Rightarrow> nat \<Rightarrow> string \<Rightarrow> item list \<Rightarrow> string \<Rightarrow> (nat \<times> string \<times> string) list \<Rightarrow> string \<times> (nat \<times> string \<times> string) list \<times> bool" where
  "deliver_items thr cb tp [] lastId calls = (lastId, calls, True)"
| "deliver_items thr cb tp (it # its) lastId calls = (case payload_of it of
      None \<Rightarrow> deliver_items thr cb tp its (fst it) calls
    | Some p \<Rightarrow> if thr cb tp p then (fst it, calls @ [(cb, tp, p)], False)
                else deliver_items thr cb tp its (fst it) (calls @ [(cb, tp, p)]))"

fun deliver_stream ::
  "(nat \<Rightarrow> string \<Rightarrow> string \<Rightarrow> bool) \<Rightarrow> string \<Rightarrow> item list \<Rightarrow> Subscription list \<Rightarrow> (nat \<times> string \<times> string) list \<Rightarrow> Subscription list \<times> (nat \<times> string \<times> string) list \<times> bool" where
  "deliver_stream thr tp its [] calls = ([], calls, True)"
| "deliver_stream thr tp its (s # subs) calls =
     (if sub_topic s = tp
      then (case deliver_items thr (sub_callback s) tp its (sub_lastId s) calls of (lid, calls1, ok) \<Rightarrow> (s\<lparr>sub_lastId := lid\<rparr> # subs, calls1, ok))
      else (case deliver_stream thr tp its subs calls of (subs1, calls1, ok) \<Rightarrow> (s # subs1, calls1, ok)))"

fun deliver_all ::
  "(nat \<Rightarrow> string \<Rightarrow> string \<Rightarrow> bool) \<Rightarrow> (string \<times> item list) list \<Rightarrow> Subscription list \<Rightarrow> (nat \<times> string \<times> string) list \<Rightarrow> Subscription list \<times> (nat \<times> string \<times> string) list" where
  "deliver_all thr [] subs calls = (subs, calls)"
| "deliver_all thr ((tp, its) # results) subs calls =
     (case deliver_stream thr tp its subs calls of (subs1, calls1, ok) \<Rightarrow> if ok then deliver_all thr results subs1 calls1 else (subs1, calls1))"

text \<open>One round of \<open>_PollTask\<close>, up to \<open>xread\<close> and from its answer on (\<open>None\<close>: it threw).\<close>

definition poll_begin :: "redis_driver \<Rightarrow> redis_driver option" where
  "poll_begin d =
     (if \<not> rd_running d then None
      else if rd_subs d = [] then Some d
      else Some (d\<lparr>rd_poll := Some (streams_of (rd_subs d))\<rparr>))"

definition poll_answer :: "(nat \<Rightarrow> string \<Rightarrow> string \<Rightarrow> bool) \<Rightarrow> (string \<times> item list) list option \<Rightarrow> redis_driver \<Rightarrow> redis_driver" where
  "poll_answer thr answer d = (case answer of
      None \<Rightarrow> d\<lparr>rd_poll := None\<rparr>
    | Some results \<Rightarrow> (case deliver_all thr results (rd_subs d) (rd_calls d) of
          (subs, calls) \<Rightarrow> d\<lparr>rd_subs := subs, rd_calls := calls, rd_poll := None\<rparr>))"

section \<open>Delivery from a stream\<close>

text \<open>What \<open>XREAD\<close> answers when the streams hold \<open>es\<close>.\<close>

definition entries_after :: "item list \<Rightarrow> string \<Rightarrow> item list \<Rightarrow> bool" where
  "entries_after es lastId its \<longleftrightarrow> its \<noteq> [] \<and> (\<exists>k. k + length its \<le> length es \<and>
     its = take (length its) (drop k es) \<and> (lastId \<noteq> ''$'' \<longrightarrow> 0 < k \<and> fst (es ! (k - 1)) = lastId))"

definition xread_law :: "(string \<Rightarrow> item list) \<Rightarrow> (string \<times> string) list \<Rightarrow> (string \<times> item list) list \<Rightarrow> bool" where
  "xread_law es streams results \<longleftrightarrow> distinct (map fst results) \<and>
     (\<forall>x \<in> set results. \<exists>lastId. map_of streams (fst x) = Some lastId \<and> entries_after (es (fst x)) lastId (snd x))"

text \<open>The driver and the streams together: entries are added by anybody, with new ids.\<close>

inductive redis_step :: "(nat \<Rightarrow> string \<Rightarrow> string \<Rightarrow> bool) \<Rightarrow> (string \<Rightarrow> item list) \<times> redis_driver \<Rightarrow> (string \<Rightarrow> item list) \<times> redis_driver \<Rightarrow> bool" for thr where
  added: "i \<noteq> ''$'' \<Longrightarrow> i \<notin> fst ` set (es tp) \<Longrightarrow> redis_step thr (es, d) (es(tp := es tp @ [(i, attrs)]), d)"
| connect: "redis_step thr (es, d) (es, snd (Redis_Connect made pong d))"
| disconnect: "redis_step thr (es, d) (es, Redis_Disconnect d)"
| subscribe: "redis_step thr (es, d) (es, snd (Redis_Subscribe tp cb d))"
| poll: "rd_poll d = None \<Longrightarrow> poll_begin d = Some d' \<Longrightarrow> redis_step thr (es, d) (es, d')"
| answer: "rd_poll d = Some streams \<Longrightarrow> xread_law es streams results \<Longrightarrow> redis_step thr (es, d) (es, poll_answer thr (Some results) d)"
| failed: "rd_poll d = Some streams \<Longrightarrow> redis_step thr (es, d) (es, poll_answer thr None d)"

inductive redis_reach :: "(nat \<Rightarrow> string \<Rightarrow> string \<Rightarrow> bool) \<Rightarrow> (string \<Rightarrow> item list) \<times> redis_driver \<Rightarrow> bool" for thr where
  start: "redis_reach thr ((\<lambda>_. []), SetThreadPool True RedisStreamDriver)"
| step: "redis_reach thr x \<Longrightarrow> redis_step thr x y \<Longrightarrow> redis_reach thr y"

definition calls_of :: "string \<Rightarrow> (nat \<times> string \<times> string) list \<Rightarrow> (nat \<times> string) list" where
  "calls_of tp calls = map (\<lambda>(cb, _, p). (cb, p)) (filter (\<lambda>(_, tp', _). tp' = tp) calls)"

definition payloads :: "item list \<Rightarrow> string list" where
  "payloads its = List.map_filter payload_of its"

text \<open>A subscription got \<open>n\<close> entries from position \<open>k\<close> on.\<close>

definition served :: "item list \<Rightarrow> (nat \<times> string \<times> string) list \<Rightarrow> Subscription \<Rightarrow> nat \<Rightarrow> nat \<Rightarrow> bool" where
  "served es calls s k n \<longleftrightarrow> k + n \<le> length es \<and>
     calls_of (sub_topic s) calls = map (Pair (sub_callback s)) (payloads (take n (drop k es))) \<and>
     sub_lastId s = (if n = 0 then ''$'' else fst (es ! (k + n - 1)))"

lemma payloads_simps [simp]: "payloads [] = []" "payloads (xs @ ys) = payloads xs @ payloads ys"
  "payloads (it # its) = (case payload_of it of None \<Rightarrow> payloads its | Some p \<Rightarrow> p # payloads its)"
  by (simp_all add: payloads_def map_filter_def split: option.split)

lemma calls_of_simps [simp]: "calls_of tp [] = []" "calls_of tp (xs @ ys) = calls_of tp xs @ calls_of tp ys"
  "calls_of tp (map (\<lambda>p. (cb, tp', p)) ps) = (if tp' = tp then map (Pair cb) ps else [])"
  by (auto simp: calls_of_def filter_map o_def)

lemma deliver_items_exact:
  "\<exists>m calls' ok. deliver_items thr cb tp its lid calls = (if m = 0 then lid else fst (its ! (m - 1)), calls', ok) \<and> m \<le> length its \<and>
     (its \<noteq> [] \<longrightarrow> 0 < m) \<and> calls' = calls @ map (\<lambda>p. (cb, tp, p)) (payloads (take m its)) \<and> (ok \<longrightarrow> m = length its)"
proof (induction its arbitrary: lid calls)
  case (Cons it its)
  show ?case
  proof (cases "\<exists>p. payload_of it = Some p \<and> thr cb tp p")
    case True then show ?thesis by (auto intro!: exI [of _ 1])
  next
    case False
    define calls1 where "calls1 = calls @ map (\<lambda>p. (cb, tp, p)) (payloads [it])"
    have d: "deliver_items thr cb tp (it # its) lid calls = deliver_items thr cb tp its (fst it) calls1"
      using False by (auto simp: calls1_def split: option.split)
    obtain m calls' ok where m: "deliver_items thr cb tp its (fst it) calls1 = (if m = 0 then fst it else fst (its ! (m - 1)), calls', ok)"
      "m \<le> length its" "calls' = calls1 @ map (\<lambda>p. (cb, tp, p)) (payloads (take m its))" "ok \<longrightarrow> m = length its"
      using Cons.IH by blast
    then show ?thesis unfolding d by (intro exI [of _ "Suc m"]) (auto simp: calls1_def nth_Cons' split: option.split)
  qed
qed auto

lemma deliver_stream_split:
  "deliver_stream thr tp its subs calls = (subs', calls', ok) \<Longrightarrow>
     tp \<notin> sub_topic ` set subs \<and> subs' = subs \<and> calls' = calls \<or>
     (\<exists>a s b lid. subs = a @ s # b \<and> sub_topic s = tp \<and> tp \<notin> sub_topic ` set a \<and>
        deliver_items thr (sub_callback s) tp its (sub_lastId s) calls = (lid, calls', ok) \<and> subs' = a @ s\<lparr>sub_lastId := lid\<rparr> # b)"
proof (induction subs arbitrary: subs')
  case (Cons s subs)
  show ?case
  proof (cases "sub_topic s = tp")
    case True then show ?thesis using Cons.prems by (auto split: prod.splits intro!: exI [of _ "[]"])
  next
    case False
    then obtain subs1 where d: "deliver_stream thr tp its subs calls = (subs1, calls', ok)" "subs' = s # subs1"
      using Cons.prems by (auto split: prod.splits)
    from Cons.IH [OF d(1)] show ?thesis
    proof (elim disjE exE conjE)
      fix a s' b lid assume "subs = a @ s' # b" "sub_topic s' = tp" "tp \<notin> sub_topic ` set a"
        "deliver_items thr (sub_callback s') tp its (sub_lastId s') calls = (lid, calls', ok)" "subs1 = a @ s'\<lparr>sub_lastId := lid\<rparr> # b"
      then show ?thesis using d False by (intro disjI2 exI [of _ "s # a"] exI [of _ s'] exI [of _ b] exI [of _ lid]) auto
    qed (use d False in auto)
  qed
qed simp

definition all_served :: "(string \<Rightarrow> item list) \<Rightarrow> Subscription list \<Rightarrow> (nat \<times> string \<times> string) list \<Rightarrow> bool" where
  "all_served es subs calls \<longleftrightarrow> (\<forall>s \<in> set subs. \<exists>k n. served (es (sub_topic s)) calls s k n) \<and>
     (\<forall>tp. tp \<notin> sub_topic ` set subs \<longrightarrow> calls_of tp calls = [])"

definition stream_ids_ok :: "(string \<Rightarrow> item list) \<Rightarrow> bool" where
  "stream_ids_ok es \<longleftrightarrow> (\<forall>tp. distinct (map fst (es tp)) \<and> ''$'' \<notin> fst ` set (es tp))"

definition next_entries :: "(string \<Rightarrow> item list) \<Rightarrow> Subscription list \<Rightarrow> string \<times> item list \<Rightarrow> bool" where
  "next_entries es subs x \<longleftrightarrow> snd x \<noteq> [] \<and>
     (\<forall>s \<in> set subs. sub_topic s = fst x \<longrightarrow> entries_after (es (fst x)) (sub_lastId s) (snd x))"

text \<open>Consecutive entries extend what a subscription got.\<close>

lemma served_more:
  assumes "served es calls s k n" "distinct (map fst es)" "''$'' \<notin> fst ` set es" "its \<noteq> []"
    and "j + length its \<le> length es" "its = take (length its) (drop j es)" "sub_lastId s \<noteq> ''$'' \<longrightarrow> 0 < j \<and> fst (es ! (j - 1)) = sub_lastId s"
    and "0 < m" "m \<le> length its" "calls_of (sub_topic s) calls' = calls_of (sub_topic s) calls @ map (Pair (sub_callback s)) (payloads (take m its))"
  shows "\<exists>k n. served es calls' (s\<lparr>sub_lastId := fst (its ! (m - 1))\<rparr>) k n"
proof -
  have m: "take m its = take m (drop j es)" using assms(6,9) by (metis min.absorb1 take_take)
  have "its ! (m - 1) = take (length its) (drop j es) ! (m - 1)" using assms(6) by metis
  then have l: "its ! (m - 1) = es ! (j + m - 1)" using assms(5,8,9) by simp
  show ?thesis
  proof (cases "n = 0")
    case True
    then have "calls_of (sub_topic s) calls = []" using assms(1) by (simp add: served_def)
    then show ?thesis using assms(5,8,9,10) m l by (intro exI [of _ j] exI [of _ m]) (simp add: served_def)
  next
    case False
    then have s: "sub_lastId s = fst (es ! (k + n - 1))" "k + n \<le> length es" "k + n - 1 < length es"
      using assms(1) by (auto simp: served_def)
    then have "sub_lastId s \<noteq> ''$''" using assms(3) by (metis image_eqI nth_mem)
    then have j: "0 < j" "fst (es ! (j - 1)) = sub_lastId s" using assms(7) by auto
    then have "j - 1 = k + n - 1" using s assms(2,5) by (metis (no_types, lifting) add_leD1 diff_less length_map less_le_trans nth_eq_iff_index_eq nth_map zero_less_one)
    then have jk: "j = k + n" using j False by simp
    have "take (n + m) (drop k es) = take n (drop k es) @ take m its" unfolding take_add m jk by (simp add: add.commute)
    then show ?thesis using assms(1,5,8,9,10) l jk by (intro exI [of _ k] exI [of _ "n + m"]) (simp add: served_def add.assoc)
  qed
qed

lemma deliver_stream_served:
  assumes "deliver_stream thr tp its subs calls = (subs', calls', ok)" "all_served es subs calls" "stream_ids_ok es"
    and "next_entries es subs (tp, its)" "distinct (map sub_topic subs)"
  shows "all_served es subs' calls' \<and> map sub_topic subs' = map sub_topic subs \<and> (\<forall>s \<in> set subs'. sub_topic s \<noteq> tp \<longrightarrow> s \<in> set subs)"
  using deliver_stream_split [OF assms(1)]
proof (elim disjE exE conjE)
  fix a s b lid assume d: "subs = a @ s # b" "sub_topic s = tp" "tp \<notin> sub_topic ` set a"
    "deliver_items thr (sub_callback s) tp its (sub_lastId s) calls = (lid, calls', ok)" "subs' = a @ s\<lparr>sub_lastId := lid\<rparr> # b"
  have ne: "its \<noteq> []" using assms(4) by (simp add: next_entries_def)
  obtain m calls2 ok2 where "deliver_items thr (sub_callback s) tp its (sub_lastId s) calls =
      (if m = 0 then sub_lastId s else fst (its ! (m - 1)), calls2, ok2)" "m \<le> length its" "its \<noteq> [] \<longrightarrow> 0 < m"
    "calls2 = calls @ map (\<lambda>p. (sub_callback s, tp, p)) (payloads (take m its))"
    using deliver_items_exact [of thr "sub_callback s" tp its "sub_lastId s" calls] by blast
  with ne d(4) have m: "0 < m" "m \<le> length its" "lid = fst (its ! (m - 1))"
    "calls' = calls @ map (\<lambda>p. (sub_callback s, tp, p)) (payloads (take m its))" by auto
  have other: "calls_of tp' calls' = calls_of tp' calls" if "tp' \<noteq> tp" for tp' using that m(4) by simp
  obtain k n where "served (es tp) calls s k n" using assms(2) d(1,2) by (auto simp: all_served_def)
  moreover obtain j where "j + length its \<le> length (es tp)" "its = take (length its) (drop j (es tp))"
    "sub_lastId s \<noteq> ''$'' \<longrightarrow> 0 < j \<and> fst (es tp ! (j - 1)) = sub_lastId s"
    using assms(4) d(1,2) by (auto simp: next_entries_def entries_after_def)
  ultimately have "\<exists>k n. served (es tp) calls' (s\<lparr>sub_lastId := lid\<rparr>) k n"
    using served_more [of "es tp" calls s k n its j m calls'] assms(3,4) m d(2) by (auto simp: stream_ids_ok_def next_entries_def)
  moreover have "\<exists>k n. served (es (sub_topic u)) calls' u k n" if "u \<in> set a \<union> set b" for u
  proof -
    have "sub_topic u \<noteq> tp" using that assms(5) unfolding d(1) d(2) [symmetric] by (auto simp: image_iff)
    then show ?thesis using that assms(2) d(1) other by (auto simp: all_served_def served_def)
  qed
  ultimately show ?thesis using d(1,2,5) assms(2) other by (auto simp: all_served_def)
qed (use assms in auto)

lemma deliver_all_served:
  assumes "all_served es subs calls" "stream_ids_ok es" "distinct (map sub_topic subs)"
    and "\<forall>x \<in> set results. next_entries es subs x" "distinct (map fst results)"
  shows "all_served es (fst (deliver_all thr results subs calls)) (snd (deliver_all thr results subs calls)) \<and>
    map sub_topic (fst (deliver_all thr results subs calls)) = map sub_topic subs"
  using assms
proof (induction results arbitrary: subs calls)
  case (Cons x results)
  obtain tp its where x: "x = (tp, its)" by fastforce
  obtain subs1 calls1 ok where d: "deliver_stream thr tp its subs calls = (subs1, calls1, ok)" using prod_cases3 by blast
  have s: "all_served es subs1 calls1" "map sub_topic subs1 = map sub_topic subs" "\<forall>s \<in> set subs1. sub_topic s \<noteq> tp \<longrightarrow> s \<in> set subs"
    using deliver_stream_served [OF d Cons.prems(1,2) _ Cons.prems(3)] Cons.prems(4) x by auto
  have "next_entries es subs1 y" if "y \<in> set results" for y
  proof -
    have "fst y \<noteq> tp" using that Cons.prems(5) x by force
    then show ?thesis using that Cons.prems(4) s(3) by (auto simp: next_entries_def)
  qed
  then show ?case using Cons.IH [OF s(1) Cons.prems(2)] Cons.prems(3,5) s d x by auto
qed simp

lemma streams_of_sub: "(tp, lid) \<in> set (streams_of subs) \<Longrightarrow> \<exists>s \<in> set subs. sub_topic s = tp \<and> sub_lastId s = lid"
  by (induction subs) (auto simp: Let_def split: if_splits)

definition redis_inv :: "(string \<Rightarrow> item list) \<Rightarrow> redis_driver \<Rightarrow> bool" where
  "redis_inv es d \<longleftrightarrow> stream_ids_ok es \<and> (distinct (map sub_topic (rd_subs d)) \<longrightarrow> all_served es (rd_subs d) (rd_calls d) \<and>
     (\<forall>streams tp lid. rd_poll d = Some streams \<longrightarrow> map_of streams tp = Some lid \<longrightarrow>
        (\<exists>s \<in> set (rd_subs d). sub_topic s = tp \<and> sub_lastId s = lid)))"

lemma served_append: "served es calls s k n \<Longrightarrow> served (es @ [x]) calls s k n"
  by (auto simp: served_def nth_append)

lemma unique_topic: "distinct (map sub_topic subs) \<Longrightarrow> s \<in> set subs \<Longrightarrow> u \<in> set subs \<Longrightarrow> sub_topic s = sub_topic u \<Longrightarrow> s = u"
  by (meson distinct_map inj_onD)

lemma redis_inv_step: "redis_step thr x y \<Longrightarrow> redis_inv (fst x) (snd x) \<Longrightarrow> redis_inv (fst y) (snd y)"
proof (induction rule: redis_step.induct)
  case (added i es tp d attrs)
  then have "all_served (es(tp := es tp @ [(i, attrs)])) (rd_subs d) (rd_calls d)" if "distinct (map sub_topic (rd_subs d))"
    using that by (auto simp: redis_inv_def all_served_def) (metis served_append)
  moreover have "stream_ids_ok (es(tp := es tp @ [(i, attrs)]))" using added by (auto simp: redis_inv_def stream_ids_ok_def)
  ultimately show ?case using added.prems unfolding redis_inv_def fst_conv snd_conv by blast
next
  case (subscribe es d tp cb)
  then show ?case by (auto simp: redis_inv_def Redis_Subscribe_def all_served_def served_def)
next
  case (poll d d' es)
  then show ?case by (auto simp: redis_inv_def poll_begin_def dest!: map_of_SomeD streams_of_sub split: if_splits)
next
  case (answer d streams es results)
  show ?case
  proof (cases "distinct (map sub_topic (rd_subs d))")
    case True
    then have a: "all_served es (rd_subs d) (rd_calls d)" "stream_ids_ok es"
      and st: "\<And>tp lid. map_of streams tp = Some lid \<Longrightarrow> \<exists>s \<in> set (rd_subs d). sub_topic s = tp \<and> sub_lastId s = lid"
      using answer by (auto simp: redis_inv_def)
    have "next_entries es (rd_subs d) x" if res: "x \<in> set results" for x
    proof -
      obtain lid where x: "map_of streams (fst x) = Some lid" "entries_after (es (fst x)) lid (snd x)"
        using answer.hyps(2) res by (auto simp: xread_law_def)
      have "sub_lastId s = lid" if "s \<in> set (rd_subs d)" "sub_topic s = fst x" for s
        using st [OF x(1)] unique_topic [OF True that(1)] that(2) by auto
      then show ?thesis using x by (auto simp: next_entries_def entries_after_def)
    qed
    then have "all_served es (fst (deliver_all thr results (rd_subs d) (rd_calls d))) (snd (deliver_all thr results (rd_subs d) (rd_calls d)))"
      using deliver_all_served [OF a True, of results] answer(2) by (auto simp: xread_law_def)
    then show ?thesis using a(2) by (auto simp: redis_inv_def poll_answer_def case_prod_beta)
  next
    case False
    have "map sub_topic (fst (deliver_all thr results subs calls)) = map sub_topic subs" for subs calls
    proof (induction results arbitrary: subs calls)
      case (Cons r rs)
      obtain subs1 calls1 ok where d: "deliver_stream thr (fst r) (snd r) subs calls = (subs1, calls1, ok)" using prod_cases3 by blast
      then have "map sub_topic subs1 = map sub_topic subs" using deliver_stream_split [OF d] by auto
      then show ?case using Cons d by (cases r) auto
    qed simp
    then show ?thesis using False answer by (auto simp: redis_inv_def poll_answer_def case_prod_beta)
  qed
qed (auto simp: redis_inv_def Redis_Connect_def Redis_Disconnect_def poll_answer_def)

lemma redis_reach_inv: "redis_reach thr x \<Longrightarrow> redis_inv (fst x) (snd x)"
proof (induction rule: redis_reach.induct)
  case start then show ?case by (simp add: redis_inv_def stream_ids_ok_def all_served_def SetThreadPool_def RedisStreamDriver_def)
qed (use redis_inv_step in blast)


text \<open>A run: connected, subscribed, polled; one entry comes while the task waits in \<open>xread\<close>.\<close>

definition no_throw :: "nat \<Rightarrow> string \<Rightarrow> string \<Rightarrow> bool" where "no_throw cb tp p = False"

definition chat_entry :: item where "chat_entry = (''1-0'', Some [(''payload'', ''hi'')])"

definition chat_driver :: redis_driver where
  "chat_driver = \<lparr>rd_redis = True, rd_running = True, rd_pool = True,
     rd_subs = [\<lparr>sub_topic = ''LobbyChat'', sub_lastId = ''1-0'', sub_callback = 7\<rparr>], rd_subsChanged = True, rd_tasks = 1,
     rd_poll = None, rd_calls = [(7, ''LobbyChat'', ''hi'')]\<rparr>"

lemmas redis_ops = Redis_Connect_def Redis_Disconnect_def Redis_Subscribe_def poll_begin_def poll_answer_def SetThreadPool_def RedisStreamDriver_def

lemma chat_driver_reach: "redis_reach no_throw ((\<lambda>_. [])(''LobbyChat'' := [chat_entry]), chat_driver)"
proof -
  note R = redis_reach.step
  let ?d1 = "snd (Redis_Connect True True (SetThreadPool True RedisStreamDriver))"
  let ?d2 = "snd (Redis_Subscribe ''LobbyChat'' 7 ?d1)"
  let ?d3 = "?d2\<lparr>rd_poll := Some [(''LobbyChat'', ''$'')]\<rparr>"
  let ?es = "(\<lambda>_. [])(''LobbyChat'' := [] @ [chat_entry])"
  have "redis_reach no_throw (\<lambda>_. [], ?d1)" by (rule R [OF redis_reach.start redis_step.connect])
  then have "redis_reach no_throw (\<lambda>_. [], ?d2)" by (rule R [OF _ redis_step.subscribe])
  then have "redis_reach no_throw (\<lambda>_. [], ?d3)" by (rule R [OF _ redis_step.poll]) (simp_all add: redis_ops)
  then have "redis_reach no_throw (?es, ?d3)" unfolding chat_entry_def by (rule R [OF _ redis_step.added]) simp_all
  then have "redis_reach no_throw (?es, poll_answer no_throw (Some [(''LobbyChat'', [chat_entry])]) ?d3)"
    by (rule R [OF _ redis_step.answer [where streams = "[(''LobbyChat'', ''$'')]"]]) (simp_all add: xread_law_def entries_after_def)
  moreover have "poll_answer no_throw (Some [(''LobbyChat'', [chat_entry])]) ?d3 = chat_driver"
    by (simp add: redis_ops chat_driver_def chat_entry_def payload_of_def no_throw_def)
  ultimately show ?thesis by simp
qed


text \<open>Two subscriptions to one topic: the second is never called, and because the poll asks for its id, which stays \<open>$\<close>, the
  stream is read from \<open>$\<close> every time: what comes between two polls is lost.\<close>

lemma second_subscription_starves:
  assumes "subs = [\<lparr>sub_topic = tp, sub_lastId = i, sub_callback = f\<rparr>, \<lparr>sub_topic = tp, sub_lastId = ''$'', sub_callback = g\<rparr>]"
    and "deliver_stream thr tp its subs calls = (subs', calls', ok)"
  shows "(\<exists>j. subs' = [\<lparr>sub_topic = tp, sub_lastId = j, sub_callback = f\<rparr>, \<lparr>sub_topic = tp, sub_lastId = ''$'', sub_callback = g\<rparr>]) \<and>
    streams_of subs' = [(tp, ''$'')] \<and> (\<exists>ps. calls' = calls @ map (\<lambda>p. (f, tp, p)) ps)"
proof -
  obtain m calls2 ok2 where "deliver_items thr f tp its i calls = (if m = 0 then i else fst (its ! (m - 1)), calls2, ok2)"
    "calls2 = calls @ map (\<lambda>p. (f, tp, p)) (payloads (take m its))"
    using deliver_items_exact [of thr f tp its i calls] by blast
  then show ?thesis using assms by (auto simp: Let_def split: prod.splits)
qed

text \<open>\<open>Disconnect\<close> resets \<open>m_redis\<close> while the poll task may be about to use it.\<close>

lemma poll_uses_closed_connection: "\<exists>es d. redis_reach thr (es, d) \<and> rd_poll d \<noteq> None \<and> \<not> rd_redis d"
proof -
  note R = redis_reach.step
  let ?d1 = "snd (Redis_Connect True True (SetThreadPool True RedisStreamDriver))"
  let ?d2 = "snd (Redis_Subscribe ''a'' 0 ?d1)"
  let ?d3 = "?d2\<lparr>rd_poll := Some [(''a'', ''$'')]\<rparr>"
  have "redis_reach thr (\<lambda>_. [], ?d2)" by (rule R [OF R [OF redis_reach.start redis_step.connect] redis_step.subscribe])
  then have "redis_reach thr (\<lambda>_. [], ?d3)" by (rule R [OF _ redis_step.poll]) (simp_all add: redis_ops)
  then have "redis_reach thr (\<lambda>_. [], Redis_Disconnect ?d3)" by (rule R [OF _ redis_step.disconnect])
  moreover have "rd_poll (Redis_Disconnect ?d3) \<noteq> None \<and> \<not> rd_redis (Redis_Disconnect ?d3)" by (simp add: redis_ops)
  ultimately show ?thesis by blast
qed

section \<open>NATS\<close>

text \<open>The callbacks are heap cells the driver allocates: \<open>nd_live\<close> are those allocated and not deleted, \<open>nd_next\<close> the next
  new one.  \<open>nd_lib\<close> are the subscriptions the client library has, each with its closure.\<close>

record nats_driver =
  nd_conn :: bool
  nd_subs :: "nat list"
  nd_callbacks :: "nat list"
  nd_live :: "nat list"
  nd_next :: nat
  nd_lib :: "(nat \<times> string \<times> nat) list"

definition NatsDriver :: nats_driver where
  "NatsDriver = \<lparr>nd_conn = False, nd_subs = [], nd_callbacks = [], nd_live = [], nd_next = 0, nd_lib = []\<rparr>"

definition Nats_Connect :: "bool \<Rightarrow> nats_driver \<Rightarrow> bool \<times> nats_driver" where
  "Nats_Connect made d = (if nd_conn d then (True, d) else if made then (True, d\<lparr>nd_conn := True\<rparr>) else (False, d))"

text \<open>\<open>Disconnect\<close>: every subscription is destroyed before any callback is deleted.  Deleting a cell twice is an error.\<close>

fun delete_all :: "nat list \<Rightarrow> nat list \<Rightarrow> nat list option" where
  "delete_all [] live = Some live"
| "delete_all (c # cs) live = (if c \<in> set live then delete_all cs (remove1 c live) else None)"

definition Nats_Disconnect :: "nats_driver \<Rightarrow> nats_driver option" where
  "Nats_Disconnect d =
     (let d1 = d\<lparr>nd_lib := filter (\<lambda>(s, _). s \<notin> set (nd_subs d)) (nd_lib d), nd_subs := []\<rparr>
      in map_option (\<lambda>live. d1\<lparr>nd_live := live, nd_callbacks := [], nd_conn := False\<rparr>) (delete_all (nd_callbacks d) (nd_live d)))"

definition Nats_Publish :: "bool \<Rightarrow> nats_driver \<Rightarrow> bool" where
  "Nats_Publish sent d \<longleftrightarrow> nd_conn d \<and> sent"

text \<open>\<open>Subscribe\<close>: \<open>sub\<close> is the subscription the library makes, \<open>None\<close> when it fails.\<close>

definition Nats_Subscribe :: "nat option \<Rightarrow> string \<Rightarrow> nats_driver \<Rightarrow> bool \<times> nats_driver" where
  "Nats_Subscribe sub tp d =
     (if \<not> nd_conn d then (False, d)
      else let c = nd_next d; d1 = d\<lparr>nd_live := c # nd_live d, nd_next := c + 1\<rparr>
           in case sub of
                Some s \<Rightarrow> (True, d1\<lparr>nd_subs := nd_subs d @ [s], nd_callbacks := nd_callbacks d @ [c], nd_lib := (s, tp, c) # nd_lib d\<rparr>)
              | None \<Rightarrow> (False, d1\<lparr>nd_live := remove1 c (nd_live d1)\<rparr>))"

text \<open>\<open>_OnMessage\<close> for a message of subscription \<open>s\<close>: the callback called, \<open>None\<close> when the closure points to a deleted one.\<close>

definition OnMessage :: "nat \<Rightarrow> nats_driver \<Rightarrow> nat option option" where
  "OnMessage s d = (case map_of (nd_lib d) s of
      None \<Rightarrow> Some None
    | Some (_, c) \<Rightarrow> if c \<in> set (nd_live d) then Some (Some c) else None)"

datatype nats_call = NConnect bool | NDisconnect | NSubscribe "nat option" string

fun nats_run :: "nats_call list \<Rightarrow> nats_driver \<Rightarrow> nats_driver option" where
  "nats_run [] d = Some d"
| "nats_run (NConnect m # cs) d = nats_run cs (snd (Nats_Connect m d))"
| "nats_run (NDisconnect # cs) d = Option.bind (Nats_Disconnect d) (nats_run cs)"
| "nats_run (NSubscribe sub tp # cs) d = nats_run cs (snd (Nats_Subscribe sub tp d))"

definition nats_ok :: "nats_driver \<Rightarrow> bool" where
  "nats_ok d \<longleftrightarrow> distinct (nd_callbacks d) \<and> distinct (nd_live d) \<and> set (nd_live d) = set (nd_callbacks d) \<and>
     (\<forall>c \<in> set (nd_callbacks d). c < nd_next d) \<and> fst ` set (nd_lib d) = set (nd_subs d) \<and> snd ` snd ` set (nd_lib d) = set (nd_callbacks d)"

lemma delete_all_exact:
  "distinct cs \<Longrightarrow> set cs \<subseteq> set live \<Longrightarrow> distinct live \<Longrightarrow> \<exists>r. delete_all cs live = Some r \<and> set r = set live - set cs \<and> distinct r"
proof (induction cs arbitrary: live)
  case (Cons c cs)
  then have "\<exists>r. delete_all cs (remove1 c live) = Some r \<and> set r = set (remove1 c live) - set cs \<and> distinct r"
    by (intro Cons.IH) (auto simp: set_remove1_eq)
  then show ?case using Cons.prems by (auto simp: set_remove1_eq)
qed simp

lemma nats_step_ok:
  assumes "nats_ok d"
  shows "nats_ok (snd (Nats_Connect m d))" "nats_ok (snd (Nats_Subscribe sub tp d))"
    "\<exists>d'. Nats_Disconnect d = Some d' \<and> nats_ok d' \<and> nd_live d' = [] \<and> nd_lib d' = []"
proof -
  show "nats_ok (snd (Nats_Connect m d))" using assms by (auto simp: Nats_Connect_def nats_ok_def)
  show "nats_ok (snd (Nats_Subscribe sub tp d))"
    using assms by (auto simp: Nats_Subscribe_def nats_ok_def Let_def less_Suc_eq split: option.split)
  obtain r where "delete_all (nd_callbacks d) (nd_live d) = Some r" "set r = {}"
    using delete_all_exact [of "nd_callbacks d" "nd_live d"] assms by (auto simp: nats_ok_def)
  moreover have "filter (\<lambda>(s, _). s \<notin> set (nd_subs d)) (nd_lib d) = []"
    using assms by (auto simp: nats_ok_def filter_empty_conv) (metis fst_conv image_eqI)
  ultimately show "\<exists>d'. Nats_Disconnect d = Some d' \<and> nats_ok d' \<and> nd_live d' = [] \<and> nd_lib d' = []"
    by (simp add: Nats_Disconnect_def Let_def nats_ok_def)
qed

text \<open>The callbacks handed to NATS live exactly as long as their subscriptions.  No run of connecting, subscribing
  (with failures) and disconnecting deletes a callback twice; at any moment the live callbacks are
  those of the library's subscriptions, so a message never reaches a deleted callback; and after \<open>Disconnect\<close> none is left.\<close>

theorem nats_callbacks_safe:
  "\<exists>d. nats_run cs NatsDriver = Some d \<and> set (nd_live d) = snd ` snd ` set (nd_lib d) \<and> distinct (nd_live d) \<and>
     (\<forall>s. OnMessage s d \<noteq> None) \<and> (\<exists>d'. Nats_Disconnect d = Some d' \<and> nd_live d' = [] \<and> nd_lib d' = [])"
proof -
  have run: "nats_ok d \<Longrightarrow> \<exists>d'. nats_run cs d = Some d' \<and> nats_ok d'" for d
  proof (induction cs d rule: nats_run.induct)
    case (3 cs d)
    then show ?case using nats_step_ok(3) by fastforce
  qed (use nats_step_ok in auto)
  have "nats_ok NatsDriver" by (simp add: NatsDriver_def nats_ok_def)
  then obtain d where d: "nats_run cs NatsDriver = Some d" "nats_ok d" using run by blast
  have "OnMessage s d \<noteq> None" for s
    using d(2) by (auto simp: OnMessage_def nats_ok_def split: option.split dest!: map_of_SomeD) (metis image_eqI snd_conv)
  then show ?thesis using d nats_step_ok(3) [OF d(2)] by (auto simp: nats_ok_def)
qed

section \<open>\<open>MessageSystem\<close>\<close>

datatype MessageQoS = Fast | Reliable

text \<open>\<open>m_drivers\<close> has at most one driver per channel.  \<open>ms_orphans\<close> are Redis drivers that were destroyed while their poll
  task had not returned.\<close>

record message_system =
  ms_fast :: "nats_driver option"
  ms_reliable :: "redis_driver option"
  ms_orphans :: "redis_driver list"

definition MessageSystem :: message_system where
  "MessageSystem = \<lparr>ms_fast = None, ms_reliable = None, ms_orphans = []\<rparr>"

definition MQ_Initialize :: "bool \<Rightarrow> bool \<Rightarrow> bool \<Rightarrow> bool \<Rightarrow> message_system \<Rightarrow> bool \<times> message_system" where
  "MQ_Initialize natsMade redisMade pong pool m =
     (let (ok, nats) = Nats_Connect natsMade NatsDriver;
          m1 = (if ok then m\<lparr>ms_fast := Some nats\<rparr> else m);
          (ok2, redis) = Redis_Connect redisMade pong (SetThreadPool pool RedisStreamDriver);
          m2 = (if ok2 then m1\<lparr>ms_reliable := Some redis\<rparr> else m1)
      in (ms_fast m2 \<noteq> None \<or> ms_reliable m2 \<noteq> None, m2))"

text \<open>\<open>Shutdown\<close>: \<open>None\<close> when a callback would be deleted twice.\<close>

definition MQ_Shutdown :: "message_system \<Rightarrow> message_system option" where
  "MQ_Shutdown m =
     (if ms_fast m \<noteq> None \<and> Nats_Disconnect (the (ms_fast m)) = None then None
      else Some (m\<lparr>ms_fast := None, ms_reliable := None,
        ms_orphans := (case ms_reliable m of Some d \<Rightarrow> if 0 < rd_tasks d then [Redis_Disconnect d] else [] | None \<Rightarrow> []) @ ms_orphans m\<rparr>))"

definition MQ_Publish :: "bool \<Rightarrow> string \<Rightarrow> string \<Rightarrow> MessageQoS \<Rightarrow> message_system \<Rightarrow> bool" where
  "MQ_Publish sent tp msg qos m = (case qos of
      Fast \<Rightarrow> (case ms_fast m of None \<Rightarrow> False | Some d \<Rightarrow> Nats_Publish sent d)
    | Reliable \<Rightarrow> (case ms_reliable m of None \<Rightarrow> False | Some d \<Rightarrow> fst (Redis_Publish sent tp msg d)))"

definition MQ_Subscribe :: "nat option \<Rightarrow> string \<Rightarrow> nat \<Rightarrow> MessageQoS \<Rightarrow> message_system \<Rightarrow> bool \<times> message_system" where
  "MQ_Subscribe sub tp cb qos m = (case qos of
      Fast \<Rightarrow> (case ms_fast m of None \<Rightarrow> (False, m) | Some d \<Rightarrow> (case Nats_Subscribe sub tp d of (ok, d1) \<Rightarrow> (ok, m\<lparr>ms_fast := Some d1\<rparr>)))
    | Reliable \<Rightarrow> (case ms_reliable m of None \<Rightarrow> (False, m) | Some d \<Rightarrow> (case Redis_Subscribe tp cb d of (ok, d1) \<Rightarrow> (ok, m\<lparr>ms_reliable := Some d1\<rparr>))))"

text \<open>\<open>Shutdown\<close> destroys the driver under its poll task: nothing waits for the task, which looks at \<open>m_running\<close> of the dead object.\<close>

lemma shutdown_leaves_poll_task:
  assumes "MQ_Initialize n True True True MessageSystem = (ok, m)"
  shows "\<exists>m'. MQ_Shutdown m = Some m' \<and> (\<exists>d. ms_orphans m' = [d] \<and> rd_tasks d = 1)"
proof -
  have "\<exists>d. ms_reliable m = Some d \<and> rd_tasks d = 1" "ms_orphans m = []"
    "ms_fast m = None \<or> (\<exists>d. ms_fast m = Some d \<and> nats_ok d)"
    using assms by (auto simp: MQ_Initialize_def MessageSystem_def redis_ops Nats_Connect_def NatsDriver_def nats_ok_def split: if_splits)
  then show ?thesis using nats_step_ok(3) by (auto simp: MQ_Shutdown_def Redis_Disconnect_def) fastforce+
qed

end
