(* ===== verification/Game_Waves.thy ===== *)
theory Game_Waves
  imports Game_Emitter
begin

text \<open>
  The waves of monsters of a room (\<open>Game/WaveManager.cpp\<close>): spawners started by the wave table, the
  grouping of the players into clusters and the place a monster appears at.
\<close>

definition MAX_MONSTERS_PER_ROOM :: int where "MAX_MONSTERS_PER_ROOM = 500"

definition Waves_Start :: "'f::zero game_env \<Rightarrow> 'f room \<Rightarrow> 'f room" where
  "Waves_Start E r =
     r\<lparr> rm_waveState := InProgress, rm_waveTime := 0, rm_waveIndex := 0, rm_waves := GetWaves (ge_dm E) \<rparr>"

definition Waves_Reset :: "'f::zero game_env \<Rightarrow> 'f room \<Rightarrow> 'f room" where
  "Waves_Reset E r =
     r\<lparr> rm_waveState := NotStarted, rm_waveTime := 0, rm_waveIndex := 0, rm_spawners := [],
        rm_waves := GetWaves (ge_dm E) \<rparr>"

definition IsAllWavesComplete :: "'f room \<Rightarrow> bool" where
  "IsAllWavesComplete r \<longleftrightarrow> rm_waveState r = Completed"

section \<open>Clusters of players\<close>

record 'f PlayerCluster =
  pc_players :: "nat list"
  pc_centerX :: 'f
  pc_centerY :: 'f

definition pos_x :: "'f::zero room \<Rightarrow> nat \<Rightarrow> 'f" where
  "pos_x r a = (case rm_heap r a of Some x \<Rightarrow> go_x (base x) | None \<Rightarrow> 0)"

definition pos_y :: "'f::zero room \<Rightarrow> nat \<Rightarrow> 'f" where
  "pos_y r a = (case rm_heap r a of Some x \<Rightarrow> go_y (base x) | None \<Rightarrow> 0)"

text \<open>A player joins the first cluster that has a member within the cluster radius.\<close>

fun join_cluster :: "(nat \<Rightarrow> nat \<Rightarrow> bool) \<Rightarrow> nat \<Rightarrow> nat list list \<Rightarrow> nat list list" where
  "join_cluster near p [] = [[p]]"
| "join_cluster near p (c # cs) =
     (if \<exists>q \<in> set c. near p q then (c @ [p]) # cs else c # join_cluster near p cs)"

definition in_cluster_radius :: "'f::{zero,plus,minus,times,ord} flops \<Rightarrow> 'f room \<Rightarrow> nat \<Rightarrow> nat \<Rightarrow> bool" where
  "in_cluster_radius F r p q \<longleftrightarrow>
     (let dx = pos_x r p - pos_x r q; dy = pos_y r p - pos_y r q
      in dx * dx + dy * dy \<le> lit F 20 * lit F 20)"

definition live_players :: "'f room \<Rightarrow> nat list" where
  "live_players r =
     filter (\<lambda>a. case rm_heap r a of Some (PlayerObj p) \<Rightarrow> \<not> IsDead p | _ \<Rightarrow> False) (GetAllObjects r)"

definition centered :: "'f::{zero,plus,inverse} flops \<Rightarrow> 'f room \<Rightarrow> nat list \<Rightarrow> 'f PlayerCluster" where
  "centered F r c =
     \<lparr> pc_players = c,
       pc_centerX = fold (\<lambda>a s. s + pos_x r a) c 0 / of_i32 F (int (length c)),
       pc_centerY = fold (\<lambda>a s. s + pos_y r a) c 0 / of_i32 F (int (length c)) \<rparr>"

definition BuildClusters :: "'f::{zero,plus,minus,times,inverse,ord} flops \<Rightarrow> 'f room \<Rightarrow> 'f PlayerCluster list" where
  "BuildClusters F r = map (centered F r) (fold (join_cluster (in_cluster_radius F r)) (live_players r) [])"

section \<open>Where a monster appears\<close>

text \<open>The largest gap between neighbouring angles; \<open>angles\<close> is sorted and not empty.\<close>

fun gap_loop :: "'f::{zero,plus,minus,times,ord} flops \<Rightarrow> 'f list \<Rightarrow> nat list \<Rightarrow> 'f \<Rightarrow> 'f \<Rightarrow> 'f" where
  "gap_loop F angles [] maxGap best = best"
| "gap_loop F angles (i # is) maxGap best =
     (let a1 = angles ! i; a2 = angles ! ((i + 1) mod length angles); d = a2 - a1;
          gap = (if d < 0 then d + lit F 2 * lit F (314159 / 100000) else d)
      in if gap > maxGap then gap_loop F angles is gap (a1 + gap * lit F (1/2))
         else gap_loop F angles is maxGap best)"

definition spawn_angle ::
  "'f::{zero,plus,minus,times,inverse,ord} game_env \<Rightarrow> 'f PlayerCluster \<Rightarrow> 'f room \<Rightarrow> 'f \<times> 'f room" where
  "spawn_angle E c r =
     (let F = ge_F E in
      if length (pc_players c) \<le> 1 then draw_range E (lit F 0) (lit F 2 * lit F (314159 / 100000)) r
      else (let angles = foldr (insert_near id)
                  (map (\<lambda>a. fatan2 F (pos_y r a - pc_centerY c) (pos_x r a - pc_centerX c)) (pc_players c)) []
            in (gap_loop F angles [0..<length angles] 0 (angles ! 0), r)))"

definition GetAngularGapSpawnPos ::
  "'f::{zero,plus,minus,times,inverse,ord} game_env \<Rightarrow> 'f PlayerCluster \<Rightarrow> 'f room \<Rightarrow> ('f \<times> 'f) \<times> 'f room" where
  "GetAngularGapSpawnPos E c r =
     (let F = ge_F E;
          far = fold (\<lambda>a d. let dx = pos_x r a - pc_centerX c; dy = pos_y r a - pc_centerY c
                            in std_max d (fsqrt F (dx * dx + dy * dy))) (pc_players c) 0;
          radius = std_min (far + lit F 30) (lit F 35);
          (angle, r1) = spawn_angle E c r;
          (ja, r2) = draw_range E (lit F (- 8 / 10)) (lit F (8 / 10)) r1;
          (jd, r3) = draw_range E (lit F 0) (lit F 5) r2
      in ((pc_centerX c + fcos F (angle + ja) * (radius + jd), pc_centerY c + fsin F (angle + ja) * (radius + jd)), r3))"

section \<open>Spawning\<close>

definition SpawnMonster ::
  "'f::{zero,plus,minus,times,inverse,ord} game_env \<Rightarrow> int \<Rightarrow> 'f \<Rightarrow> 'f \<Rightarrow> 'f \<Rightarrow> 'f room \<Rightarrow> 'f room" where
  "SpawnMonster E ty hpMult x y r =
     (if GetAliveMonsterCount r \<ge> MAX_MONSTERS_PER_ROOM then r
      else
        (let hp = (case GetMonsterInfo (ge_dm E) ty of
                     Some t \<Rightarrow> to_i32 (ge_F E) (of_i32 (ge_F E) (mi_hp t) * hpMult) | None \<Rightarrow> 0)
         in case CreateMonster E ty x y hp r of
              (None, r1) \<Rightarrow> r1
            | (Some a, r1) \<Rightarrow>
                (let r2 = AddObject a r1 in
                 case rm_heap r2 a of
                   Some (MonsterObj m) \<Rightarrow>
                     BroadcastPacket E (S_SpawnObject
                       [\<lparr> oi_objectId = go_id m, oi_type = MONSTER, oi_typeId = mo_typeId m, oi_x = x, oi_y = y,
                          oi_hp = go_hp m, oi_maxHp = go_maxHp m, oi_state = IDLE, oi_vx = 0, oi_vy = 0,
                          oi_lookLeft = False \<rparr>] (rm_serverTick r2)) r2
                 | _ \<Rightarrow> r2)))"

fun spawn_n ::
  "'f::{zero,plus,minus,times,inverse,ord} game_env \<Rightarrow> int \<Rightarrow> 'f \<Rightarrow> 'f PlayerCluster \<Rightarrow> nat \<Rightarrow> 'f room \<Rightarrow> 'f room" where
  "spawn_n E ty hpMult c 0 r = r"
| "spawn_n E ty hpMult c (Suc n) r =
     (case GetAngularGapSpawnPos E c r of
        ((x, y), r1) \<Rightarrow> spawn_n E ty hpMult c n (SpawnMonster E ty hpMult x y r1))"

text \<open>The loop over the clusters: each gets its share of the batch, at least one.\<close>

definition cluster_share :: "'f::{times,inverse} flops \<Rightarrow> 'f PlayerCluster \<Rightarrow> int \<Rightarrow> int \<Rightarrow> int \<Rightarrow> int" where
  "cluster_share F c headcount batch remaining =
     (let n = to_i32 F (of_i32 F (int (length (pc_players c))) / of_i32 F headcount * of_i32 F batch);
          n1 = (if n = 0 \<and> remaining > 0 then 1 else n)
      in if n1 > remaining then remaining else n1)"

fun cluster_loop ::
  "'f::{zero,plus,minus,times,inverse,ord} game_env \<Rightarrow> int \<Rightarrow> 'f \<Rightarrow> int \<Rightarrow> int \<Rightarrow> 'f PlayerCluster list \<Rightarrow> int \<Rightarrow> 'f room \<Rightarrow> 'f room" where
  "cluster_loop E ty hpMult headcount batch [] remaining r = r"
| "cluster_loop E ty hpMult headcount batch (c # cs) remaining r =
     (if remaining \<le> 0 then r
      else (let n = cluster_share (ge_F E) c headcount batch remaining
            in cluster_loop E ty hpMult headcount batch cs (remaining - n) (spawn_n E ty hpMult c (nat n) r)))"

text \<open>One spawner in one tick: what it becomes (\<open>None\<close>: erased) and the room.\<close>

definition run_spawner ::
  "'f::{zero,plus,minus,times,inverse,ord} game_env \<Rightarrow> 'f \<Rightarrow> 'f PlayerCluster list \<Rightarrow> int \<Rightarrow> 'f PeriodicSpawner \<Rightarrow> 'f room \<Rightarrow>
    'f PeriodicSpawner option \<times> 'f room" where
  "run_spawner E dt clusters headcount s0 r =
     (let s = s0\<lparr> sp_timer := sp_timer s0 - dt, sp_remainingDuration := sp_remainingDuration s0 - dt \<rparr>;
          n = GetAliveMonsterCount r;
          rearmed = s\<lparr> sp_timer := sp_interval s \<rparr>;
          finish = (\<lambda>s. if sp_remainingDuration s \<le> 0 then None else Some s) in
      if sp_timer s \<le> 0 then
        (if n \<ge> MAX_MONSTERS_PER_ROOM then (Some rearmed, r)
         else (finish rearmed,
               if headcount > 0
               then (let batch = std_min (sp_batchCount s) (MAX_MONSTERS_PER_ROOM - n)
                     in cluster_loop E (sp_monsterTypeId s) (sp_hpMultiplier s) headcount batch clusters batch r)
               else r))
      else (finish s, r))"

fun spawner_loop ::
  "'f::{zero,plus,minus,times,inverse,ord} game_env \<Rightarrow> 'f \<Rightarrow> 'f PlayerCluster list \<Rightarrow> int \<Rightarrow> 'f PeriodicSpawner list \<Rightarrow> 'f room \<Rightarrow>
    'f PeriodicSpawner list \<times> 'f room" where
  "spawner_loop E dt clusters headcount [] r = ([], r)"
| "spawner_loop E dt clusters headcount (s # ss) r =
     (let (kept, r1) = run_spawner E dt clusters headcount s r;
          (rest, r2) = spawner_loop E dt clusters headcount ss r1
      in (case kept of None \<Rightarrow> rest | Some s' \<Rightarrow> s' # rest, r2))"

section \<open>Update\<close>

definition StartSpawner :: "'f::zero game_env \<Rightarrow> 'f WaveInfo \<Rightarrow> 'f room \<Rightarrow> 'f room" where
  "StartSpawner E w r =
     BroadcastPacket E (S_WaveNotify (int (rm_waveIndex r) + 1) (wv_duration w))
       (r\<lparr> rm_spawners := rm_spawners r @ [\<lparr> sp_monsterTypeId = wv_monsterTypeId w, sp_batchCount = wv_count w,
              sp_hpMultiplier = wv_hpMultiplier w, sp_interval = wv_interval w, sp_timer = 0,
              sp_remainingDuration = wv_duration w \<rparr>] \<rparr>)"

text \<open>The loop over the waves that are due; \<open>n\<close> counts the waves left in the table.\<close>

fun wave_loop :: "'f::{zero,ord} game_env \<Rightarrow> nat \<Rightarrow> 'f room \<Rightarrow> 'f room" where
  "wave_loop E 0 r = r"
| "wave_loop E (Suc n) r =
     (if rm_waveIndex r < length (rm_waves r) \<and> rm_waveTime r \<ge> wv_startTime (rm_waves r ! rm_waveIndex r)
      then (let r1 = StartSpawner E (rm_waves r ! rm_waveIndex r) r
            in wave_loop E n (r1\<lparr> rm_waveIndex := Suc (rm_waveIndex r1) \<rparr>))
      else r)"

definition Waves_Update :: "'f::{zero,plus,minus,times,inverse,ord} game_env \<Rightarrow> 'f \<Rightarrow> 'f room \<Rightarrow> 'f room" where
  "Waves_Update E dt r =
     (let r0 = r\<lparr> rm_waveTime := rm_waveTime r + dt \<rparr>;
          r1 = wave_loop E (length (rm_waves r0) - rm_waveIndex r0) r0;
          clusters = BuildClusters (ge_F E) r1;
          headcount = sum_list (map (\<lambda>c. int (length (pc_players c))) clusters);
          (kept, r2) = spawner_loop E dt clusters headcount (rm_spawners r1) r1;
          r3 = r2\<lparr> rm_spawners := kept \<rparr>
      in if rm_waveState r3 = InProgress \<and> rm_waveIndex r3 \<ge> length (rm_waves r3) \<and> rm_spawners r3 = []
         then r3\<lparr> rm_waveState := Completed \<rparr> else r3)"

fun debug_spawn_loop ::
  "'f::{zero,plus,minus,times,inverse,ord} game_env \<Rightarrow> int \<Rightarrow> 'f PlayerCluster list \<Rightarrow> nat \<Rightarrow> 'f room \<Rightarrow> 'f room" where
  "debug_spawn_loop E ty clusters 0 r = r"
| "debug_spawn_loop E ty clusters (Suc n) r =
     (let i = fst (NextInt 0 (int (length clusters) - 1) (ge_rng E (rm_draws r)));
          r1 = r\<lparr> rm_draws := Suc (rm_draws r) \<rparr>
      in case GetAngularGapSpawnPos E (clusters ! nat i) r1 of
           ((x, y), r2) \<Rightarrow> debug_spawn_loop E ty clusters n (SpawnMonster E ty (lit (ge_F E) 1) x y r2))"

definition DebugSpawn :: "'f::{zero,plus,minus,times,inverse,ord} game_env \<Rightarrow> int \<Rightarrow> int \<Rightarrow> 'f room \<Rightarrow> 'f room" where
  "DebugSpawn E ty n r =
     (let clusters = BuildClusters (ge_F E) r in
      if clusters = [] then (SpawnMonster E ty (lit (ge_F E) 1) (lit (ge_F E) 0) (lit (ge_F E) 0) ^^ nat n) r
      else debug_spawn_loop E ty clusters (nat n) r)"

lemmas wave_defs [conc] = MAX_MONSTERS_PER_ROOM_def Waves_Start_def Waves_Reset_def IsAllWavesComplete_def pos_x_def
  pos_y_def in_cluster_radius_def live_players_def centered_def BuildClusters_def spawn_angle_def
  GetAngularGapSpawnPos_def SpawnMonster_def cluster_share_def run_spawner_def StartSpawner_def Waves_Update_def
  DebugSpawn_def

end
