(* ===== verification/Game_Effects.thy ===== *)
theory Game_Effects
  imports Game_Player
begin

text \<open>
  The status effects of a room (\<open>Game/Effect/EffectManager.cpp\<close>, \<open>StatusEffect.h\<close>): a table from
  object ids to lists of effects, the periodic damage they deal and their expiry.
\<close>

section \<open>Operations\<close>

definition Effect_IsExpired :: "'f::ord \<Rightarrow> 'f StatusEffect \<Rightarrow> bool" where
  "Effect_IsExpired now e \<longleftrightarrow> now \<ge> ef_endTime e"

definition NeedsTick :: "'f::{zero,minus,ord} \<Rightarrow> 'f StatusEffect \<Rightarrow> bool" where
  "NeedsTick now e \<longleftrightarrow> ef_tickInterval e > 0 \<and> now - ef_lastTickTime e \<ge> ef_tickInterval e"

text \<open>The loop of \<open>ApplyEffect\<close>: an effect of the same type is replaced if the new one lasts longer.\<close>

fun apply_to :: "'f::ord StatusEffect \<Rightarrow> 'f StatusEffect list \<Rightarrow> 'f StatusEffect list" where
  "apply_to e [] = [e]"
| "apply_to e (x # xs) =
     (if ef_type x = ef_type e then (if ef_endTime e > ef_endTime x then e # xs else x # xs)
      else x # apply_to e xs)"

definition effects_of :: "'f room \<Rightarrow> int \<Rightarrow> 'f StatusEffect list" where
  "effects_of r i = (case map_of (rm_effects r) i of None \<Rightarrow> [] | Some es \<Rightarrow> es)"

definition set_effects :: "int \<Rightarrow> 'f StatusEffect list \<Rightarrow> 'f room \<Rightarrow> 'f room" where
  "set_effects i es r = r\<lparr> rm_effects := AList.update i es (rm_effects r) \<rparr>"

definition ApplyEffect :: "int \<Rightarrow> 'f::ord StatusEffect \<Rightarrow> 'f room \<Rightarrow> 'f room" where
  "ApplyEffect i e r = set_effects i (apply_to e (effects_of r i)) r"

definition RemoveEffect :: "int \<Rightarrow> EffectType \<Rightarrow> 'f room \<Rightarrow> 'f room" where
  "RemoveEffect i ty r =
     (case map_of (rm_effects r) i of
        None \<Rightarrow> r
      | Some es \<Rightarrow> set_effects i (filter (\<lambda>e. ef_type e \<noteq> ty) es) r)"

definition ClearEffects :: "int \<Rightarrow> 'f room \<Rightarrow> 'f room" where
  "ClearEffects i r = r\<lparr> rm_effects := AList.delete i (rm_effects r) \<rparr>"

text \<open>The virtual \<open>TakeDamage\<close>; projectiles and gems inherit the empty one.\<close>

definition TakeDamage :: "'f::{zero,plus,ord} game_env \<Rightarrow> int \<Rightarrow> nat \<Rightarrow> 'f room \<Rightarrow> 'f room" where
  "TakeDamage E damage a r =
     (case rm_heap r a of
        Some (MonsterObj _) \<Rightarrow> Monster_TakeDamage E damage a r
      | Some (PlayerObj _) \<Rightarrow> Player_TakeDamage E damage a r
      | _ \<Rightarrow> r)"

definition ProcessDotDamage :: "'f::{zero,plus,ord} game_env \<Rightarrow> int \<Rightarrow> 'f StatusEffect \<Rightarrow> 'f room \<Rightarrow> 'f room" where
  "ProcessDotDamage E i e r =
     (case GetObject r i of
        None \<Rightarrow> r
      | Some a \<Rightarrow> TakeDamage E (to_i32 (ge_F E) (ef_value e)) a r)"

text \<open>
  The inner loop of \<open>Update\<close> runs over the indices of the target's list. Damage adds no effects, so
  the list does not grow under the loop.
\<close>

fun tick_loop :: "'f::{zero,plus,minus,ord} game_env \<Rightarrow> 'f \<Rightarrow> int \<Rightarrow> nat list \<Rightarrow> 'f room \<Rightarrow> 'f room" where
  "tick_loop E now i [] r = r"
| "tick_loop E now i (k # ks) r =
     (let es = effects_of r i in
      if k \<ge> length es then r
      else if NeedsTick now (es ! k)
      then (let r1 = ProcessDotDamage E i (es ! k) r in
            case map_of (rm_effects r1) i of
              None \<Rightarrow> r1
            | Some es1 \<Rightarrow>
                tick_loop E now i ks
                  (if k < length es1 then set_effects i (es1[k := (es1 ! k)\<lparr> ef_lastTickTime := now \<rparr>]) r1 else r1))
      else tick_loop E now i ks r)"

definition tick_target :: "'f::{zero,plus,minus,ord} game_env \<Rightarrow> 'f \<Rightarrow> int \<Rightarrow> 'f room \<Rightarrow> 'f room" where
  "tick_target E now i r =
     (case map_of (rm_effects r) i of None \<Rightarrow> r | Some es \<Rightarrow> tick_loop E now i [0..<length es] r)"

definition CleanupExpired :: "'f::ord \<Rightarrow> 'f room \<Rightarrow> 'f room" where
  "CleanupExpired now r =
     r\<lparr> rm_effects := filter (\<lambda>(i, es). es \<noteq> [])
          (map (\<lambda>(i, es). (i, filter (\<lambda>e. \<not> Effect_IsExpired now e) es)) (rm_effects r)) \<rparr>"

definition Effects_Update :: "'f::{zero,plus,minus,ord} game_env \<Rightarrow> 'f \<Rightarrow> 'f room \<Rightarrow> 'f room" where
  "Effects_Update E now r = CleanupExpired now (fold (tick_target E now) (map fst (rm_effects r)) r)"

definition GetSpeedMultiplier :: "'f::times flops \<Rightarrow> 'f room \<Rightarrow> int \<Rightarrow> 'f" where
  "GetSpeedMultiplier F r i =
     fold (\<lambda>e m. if ef_type e = SLOW then m * ef_value e
                 else if ef_type e = SPEED_BOOST then m * ef_value e else m) (effects_of r i) (lit F 1)"

definition GetAttackMultiplier :: "'f::times flops \<Rightarrow> 'f room \<Rightarrow> int \<Rightarrow> 'f" where
  "GetAttackMultiplier F r i =
     fold (\<lambda>e m. if ef_type e = ATTACK_UP then m * ef_value e else m) (effects_of r i) (lit F 1)"

definition HasEffect :: "'f room \<Rightarrow> int \<Rightarrow> EffectType \<Rightarrow> bool" where
  "HasEffect r i ty \<longleftrightarrow> (\<exists>e \<in> set (effects_of r i). ef_type e = ty)"

lemmas effect_defs [conc] = Effect_IsExpired_def NeedsTick_def effects_of_def set_effects_def ApplyEffect_def
  RemoveEffect_def ClearEffects_def TakeDamage_def ProcessDotDamage_def tick_target_def CleanupExpired_def
  Effects_Update_def GetSpeedMultiplier_def GetAttackMultiplier_def HasEffect_def

section \<open>The table and the damage of an update\<close>

text \<open>What an update does to one effect, and the effects that deal damage in it.\<close>

definition touched :: "'f::{zero,minus,ord} \<Rightarrow> 'f StatusEffect \<Rightarrow> 'f StatusEffect" where
  "touched now e = (if NeedsTick now e then e\<lparr> ef_lastTickTime := now \<rparr> else e)"

definition due_effects :: "'f::{zero,minus,ord} \<Rightarrow> (int \<times> 'f StatusEffect list) list \<Rightarrow> (int \<times> 'f StatusEffect) list" where
  "due_effects now tab = [(i, e). (i, es) \<leftarrow> tab, e \<leftarrow> filter (NeedsTick now) es]"

definition updated_effects :: "'f::{zero,minus,ord} \<Rightarrow> (int \<times> 'f StatusEffect list) list \<Rightarrow> (int \<times> 'f StatusEffect list) list" where
  "updated_effects now tab =
     filter (\<lambda>(i, es). es \<noteq> [])
       (map (\<lambda>(i, es). (i, filter (\<lambda>e. \<not> Effect_IsExpired now e) (map (touched now) es))) tab)"

text \<open>Damage neither reads nor writes the table.\<close>

lemma base_ops_effects [simp]:
  "BroadcastPacket E pkt (r\<lparr> rm_effects := x \<rparr>) = (BroadcastPacket E pkt r)\<lparr> rm_effects := x \<rparr>"
  "put a obj (r\<lparr> rm_effects := x \<rparr>) = (put a obj r)\<lparr> rm_effects := x \<rparr>"
  "BroadcastSpawn E as (r\<lparr> rm_effects := x \<rparr>) = (BroadcastSpawn E as r)\<lparr> rm_effects := x \<rparr>"
  "AddObject a (r\<lparr> rm_effects := x \<rparr>) = (AddObject a r)\<lparr> rm_effects := x \<rparr>"
  "GenerateId (r\<lparr> rm_effects := x \<rparr>) = (fst (GenerateId r), (snd (GenerateId r))\<lparr> rm_effects := x \<rparr>)"
  "new_obj obj (r\<lparr> rm_effects := x \<rparr>) = (fst (new_obj obj r), (snd (new_obj obj r))\<lparr> rm_effects := x \<rparr>)"
  "rm_effects (snd (GenerateId r)) = rm_effects r" "rm_effects (snd (new_obj obj r)) = rm_effects r"
  "rm_effects (BroadcastPacket E pkt r) = rm_effects r" "rm_effects (put a obj r) = rm_effects r"
  "rm_effects (BroadcastSpawn E as r) = rm_effects r" "rm_effects (AddObject a r) = rm_effects r"
  by (simp_all add: sending_defs object_manager_defs split: option.split)

lemma drop_gem_effects [simp]:
  "drop_gem E x y (r\<lparr> rm_effects := z \<rparr>) = (drop_gem E x y r)\<lparr> rm_effects := z \<rparr>"
  "rm_effects (drop_gem E x y r) = rm_effects r"
  by (simp_all add: drop_gem_def split_beta)

lemma TakeDamage_effects [simp]:
  "TakeDamage E d a (r\<lparr> rm_effects := x \<rparr>) = (TakeDamage E d a r)\<lparr> rm_effects := x \<rparr>"
  "rm_effects (TakeDamage E d a r) = rm_effects r"
  by (simp_all add: TakeDamage_def Monster_TakeDamage_def Player_TakeDamage_def player_at_def Let_def
      split: option.split obj.split)

lemma ProcessDotDamage_effects [simp]:
  "ProcessDotDamage E i e (r\<lparr> rm_effects := x \<rparr>) = (ProcessDotDamage E i e r)\<lparr> rm_effects := x \<rparr>"
  "rm_effects (ProcessDotDamage E i e r) = rm_effects r"
  by (auto simp: ProcessDotDamage_def GetObject_def split: option.splits)

lemma fold_dot_effects [simp]:
  "fold (ProcessDotDamage E i) es (r\<lparr> rm_effects := x \<rparr>) = (fold (ProcessDotDamage E i) es r)\<lparr> rm_effects := x \<rparr>"
  "rm_effects (fold (ProcessDotDamage E i) es r) = rm_effects r"
  by (induction es arbitrary: r) simp_all

lemma fold_due_effects [simp]:
  "fold (\<lambda>(i, e). ProcessDotDamage E i e) ds (r\<lparr> rm_effects := x \<rparr>) =
     (fold (\<lambda>(i, e). ProcessDotDamage E i e) ds r)\<lparr> rm_effects := x \<rparr>"
  "rm_effects (fold (\<lambda>(i, e). ProcessDotDamage E i e) ds r) = rm_effects r"
  by (induction ds arbitrary: r) auto

lemma update_same: "map_of al i = Some v \<Longrightarrow> AList.update i v al = al"
  by (induction al) (auto split: if_splits)

lemma update_twice: "AList.update i y (AList.update i x al) = AList.update i y al"
  by (induction al) auto

lemma update_distinct:
  "distinct (map fst al) \<Longrightarrow> map_of al i = Some v \<Longrightarrow>
   AList.update i w al = map (\<lambda>(j, x). (j, if j = i then w else x)) al"
proof (induction al)
  case Nil
  then show ?case by simp
next
  case (Cons p al)
  obtain j x where p: "p = (j, x)" by fastforce
  have "j = i \<Longrightarrow> map (\<lambda>(k, y). (k, if k = i then w else y)) al = al"
    using Cons.prems(1) p by (auto intro!: map_idI simp: image_iff)
  then show ?case using Cons p by (auto split: if_splits)
qed

lemma tick_loop_exact:
  assumes "map_of (rm_effects r) i = Some es"
  shows "tick_loop E now i [k..<length es] r =
    (fold (ProcessDotDamage E i) (filter (NeedsTick now) (drop k es)) r)
      \<lparr> rm_effects := AList.update i (take k es @ map (touched now) (drop k es)) (rm_effects r) \<rparr>"
  using assms
proof (induction "length es - k" arbitrary: k es r)
  case 0
  then show ?case by (simp add: update_same)
next
  case (Suc n)
  then have k: "k < length es" by simp
  have ks: "[k..<length es] = k # [Suc k..<length es]" using k by (simp add: upt_conv_Cons)
  have d: "drop k es = es ! k # drop (Suc k) es" using k by (simp add: Cons_nth_drop_Suc)
  show ?case
  proof (cases "NeedsTick now (es ! k)")
    case False
    then show ?thesis
      using Suc.hyps(1) [of es "Suc k" r] Suc.hyps(2) Suc.prems k d ks
      by (simp add: effects_of_def touched_def take_Suc_conv_app_nth)
  next
    case True
    let ?es = "es[k := (es ! k)\<lparr> ef_lastTickTime := now \<rparr>]"
    let ?r = "set_effects i ?es (ProcessDotDamage E i (es ! k) r)"
    have "tick_loop E now i [k..<length es] r = tick_loop E now i [Suc k..<length ?es] ?r"
      using True Suc.prems k ks by (simp add: effects_of_def)
    also have "\<dots> = (fold (ProcessDotDamage E i) (filter (NeedsTick now) (drop (Suc k) es)) ?r)
        \<lparr> rm_effects := AList.update i (take (Suc k) ?es @ map (touched now) (drop (Suc k) es)) (rm_effects ?r) \<rparr>"
      using Suc.hyps(1) [of ?es "Suc k" ?r] Suc.hyps(2) by (simp add: set_effects_def update_conv')
    finally show ?thesis
      using True k d by (simp add: set_effects_def update_twice touched_def take_Suc_conv_app_nth)
  qed
qed

lemma tick_target_exact:
  assumes "distinct (map fst (rm_effects r))" "map_of (rm_effects r) i = Some es"
  shows "tick_target E now i r =
    (fold (ProcessDotDamage E i) (filter (NeedsTick now) es) r)
      \<lparr> rm_effects := map (\<lambda>(j, x). (j, if j = i then map (touched now) x else x)) (rm_effects r) \<rparr>"
proof -
  have "map (\<lambda>(j, x). (j, if j = i then map (touched now) es else x)) (rm_effects r) =
        map (\<lambda>(j, x). (j, if j = i then map (touched now) x else x)) (rm_effects r)"
    using assms by (auto intro!: map_cong dest: map_of_SomeD eq_key_imp_eq_value)
  then show ?thesis
    using assms tick_loop_exact [OF assms(2), of E now 0]
    by (simp add: tick_target_def update_distinct)
qed

lemma map_of_other:
  "j \<noteq> i \<Longrightarrow> map_of (map (\<lambda>(k, x). (k, if k = i then f x else x)) al) j = map_of al j"
  by (induction al) auto

lemma tick_all_exact:
  assumes "distinct (map fst (rm_effects r))" "distinct is" "set is \<subseteq> fst ` set (rm_effects r)"
  shows "fold (tick_target E now) is r =
    (fold (\<lambda>(i, e). ProcessDotDamage E i e) (due_effects now (map (\<lambda>i. (i, effects_of r i)) is)) r)
      \<lparr> rm_effects := map (\<lambda>(j, x). (j, if j \<in> set is then map (touched now) x else x)) (rm_effects r) \<rparr>"
  using assms
proof (induction "is" arbitrary: r)
  case Nil
  then show ?case by (simp add: due_effects_def split_def)
next
  case (Cons i js)
  obtain es where es: "map_of (rm_effects r) i = Some es"
    using Cons.prems(3) by (metis dom_map_of_conv_image_fst domD insert_subset list.simps(15))
  let ?r = "tick_target E now i r"
  note t = tick_target_exact [OF Cons.prems(1) es, of E now]
  have keys: "map fst (rm_effects ?r) = map fst (rm_effects r)"
    by (simp add: t comp_def split_def)
  have dist: "distinct (map fst (rm_effects ?r))" and sub: "set js \<subseteq> fst ` set (rm_effects ?r)"
    using Cons.prems(1,3) keys by (simp_all, metis list.set_map)
  have e1: "effects_of ?r j = effects_of r j" if "j \<in> set js" for j
  proof -
    have "j \<noteq> i" using that Cons.prems(2) by auto
    then show ?thesis by (simp add: effects_of_def t map_of_other)
  qed
  have e2: "map (\<lambda>j. (j, effects_of ?r j)) js = map (\<lambda>j. (j, effects_of r j)) js"
    using e1 by simp
  have due: "due_effects now (map (\<lambda>j. (j, effects_of r j)) (i # js)) =
      map (Pair i) (filter (NeedsTick now) es) @ due_effects now (map (\<lambda>j. (j, effects_of r j)) js)"
    by (simp add: due_effects_def effects_of_def es)
  have pairs: "fold (\<lambda>(i, e). ProcessDotDamage E i e) (map (Pair i) xs) r = fold (ProcessDotDamage E i) xs r" for xs
    by (simp add: fold_map comp_def)
  have tab: "map (\<lambda>(j, x). (j, if j \<in> set js then map (touched now) x else x)) (rm_effects ?r) =
      map (\<lambda>(j, x). (j, if j \<in> set (i # js) then map (touched now) x else x)) (rm_effects r)"
    using Cons.prems(2) by (auto simp: t)
  have "fold (tick_target E now) (i # js) r = fold (tick_target E now) js ?r" by simp
  also have "\<dots> = (fold (\<lambda>(i, e). ProcessDotDamage E i e) (due_effects now (map (\<lambda>j. (j, effects_of r j)) js)) ?r)
      \<lparr> rm_effects := map (\<lambda>(j, x). (j, if j \<in> set (i # js) then map (touched now) x else x)) (rm_effects r) \<rparr>"
    using Cons.IH [OF dist _ sub] Cons.prems(2) unfolding e2 tab by simp
  finally show ?case unfolding due fold_append comp_apply pairs unfolding t by simp
qed

lemma effects_update_eq:
  assumes "distinct (map fst (rm_effects r))"
  shows "Effects_Update E now r =
    (fold (\<lambda>(i, e). ProcessDotDamage E i e) (due_effects now (rm_effects r)) r)
      \<lparr> rm_effects := updated_effects now (rm_effects r) \<rparr>"
proof -
  have e: "map (\<lambda>i. (i, effects_of r i)) (map fst (rm_effects r)) = rm_effects r"
    using assms by (auto simp: effects_of_def intro!: map_idI)
  have t: "map (\<lambda>(j, x). (j, if j \<in> set (map fst (rm_effects r)) then map (touched now) x else x)) (rm_effects r) =
      map (\<lambda>(j, x). (j, map (touched now) x)) (rm_effects r)"
    by force
  have sub: "set (map fst (rm_effects r)) \<subseteq> fst ` set (rm_effects r)" by simp
  show ?thesis
    unfolding Effects_Update_def tick_all_exact [OF assms assms sub] e t
    by (simp add: CleanupExpired_def updated_effects_def comp_def split_def)
qed

text \<open>C37. An update of the effects equals its specification: every effect that is due damages its target
once, in the order of the table, and remembers the time; afterwards the table holds exactly the
effects that have not expired, without empty entries. Nothing else of the room changes.\<close>

theorem effects_update_exact:
  assumes "distinct (map fst (rm_effects r))"
  shows "Effects_Update E now r =
    (fold (\<lambda>(i, e). ProcessDotDamage E i e) (due_effects now (rm_effects r)) r)
      \<lparr> rm_effects := updated_effects now (rm_effects r) \<rparr>"
  by (rule effects_update_eq [OF assms])

definition poison :: "rat \<Rightarrow> rat StatusEffect" where
  "poison t = \<lparr> ef_type = POISON, ef_sourceId = 1, ef_endTime = t, ef_tickInterval = 1/2, ef_lastTickTime = 0, ef_value = 5 \<rparr>"

definition poisoned :: "rat room" where
  "poisoned = demo_room\<lparr> rm_effects := [(1002, [poison 1]), (1003, [poison 9])] \<rparr>"

theorem effects_update_exact_witness:
  "Effects_Update demo_env 2 poisoned =
     (ProcessDotDamage demo_env 1003 (poison 9) (ProcessDotDamage demo_env 1002 (poison 1) poisoned))
       \<lparr> rm_effects := [(1003, [(poison 9)\<lparr> ef_lastTickTime := 2 \<rparr>])] \<rparr>"
proof -
  have d: "distinct (map fst (rm_effects poisoned))" by (simp add: poisoned_def)
  have "due_effects 2 (rm_effects poisoned) = [(1002, poison 1), (1003, poison 9)]"
    by (simp add: poisoned_def due_effects_def NeedsTick_def poison_def)
  moreover have "updated_effects 2 (rm_effects poisoned) = [(1003, [(poison 9)\<lparr> ef_lastTickTime := 2 \<rparr>])]"
    by (simp add: poisoned_def updated_effects_def touched_def Effect_IsExpired_def NeedsTick_def poison_def)
  ultimately show ?thesis using effects_update_exact [OF d, of demo_env 2] by simp
qed

text \<open>A target has at most one effect of each type, whatever is applied and removed.\<close>

definition effects_ok :: "'f room \<Rightarrow> bool" where
  "effects_ok r \<longleftrightarrow> distinct (map fst (rm_effects r)) \<and> (\<forall>(i, es) \<in> set (rm_effects r). distinct (map ef_type es))"

lemma apply_to_types:
  "distinct (map ef_type es) \<Longrightarrow>
   distinct (map ef_type (apply_to e es)) \<and> set (map ef_type (apply_to e es)) = insert (ef_type e) (set (map ef_type es))"
  by (induction es) auto

lemma effects_ok_of: "effects_ok r \<Longrightarrow> distinct (map ef_type (effects_of r i))"
  by (auto simp: effects_ok_def effects_of_def split: option.splits dest!: map_of_SomeD)

lemma set_alist_update: "x \<in> set (AList.update k v al) \<Longrightarrow> x = (k, v) \<or> x \<in> set al"
  by (induction al) (auto split: if_splits)

lemma set_effects_ok:
  "effects_ok r \<Longrightarrow> distinct (map ef_type es) \<Longrightarrow> effects_ok (set_effects i es r)"
  by (auto simp: effects_ok_def set_effects_def distinct_update dest!: set_alist_update)

end
