(* ===== verification/Game_Combat.thy ===== *)
theory Game_Combat
  imports Game_Emitter Game_Effects
begin

text \<open>
  Combat (\<open>Game/CombatManager.cpp\<close>): projectiles hit monsters, monsters hit players, players pick up
  gems, and what is dead, spent or picked up is removed. \<open>HandleGameOver\<close> of \<open>Room.cpp\<close>, which it
  calls, is here as well.
\<close>

section \<open>Game over\<close>

definition ExecuteHandleGameOver :: "'f::times game_env \<Rightarrow> bool \<Rightarrow> 'f room \<Rightarrow> 'f room" where
  "ExecuteHandleGameOver E isWin r =
     (if rm_isGameOver r then r
      else BroadcastPacket E (S_GameOver (to_i32 (ge_F E) (rm_totalRunTime r * lit (ge_F E) 1000)) isWin)
             (r\<lparr> rm_isGameOver := True \<rparr>))"

text \<open>Posting to the strand of the room.\<close>

definition Post_task :: "task \<Rightarrow> 'f room \<Rightarrow> 'f room" where
  "Post_task t r = r\<lparr> rm_queue := rm_queue r @ [t] \<rparr>"

definition HandleGameOver :: "'f::times game_env \<Rightarrow> bool \<Rightarrow> 'f room \<Rightarrow> 'f room" where
  "HandleGameOver E isWin r =
     (if rm_strand r then Post_task (DoGameOver isWin) r else ExecuteHandleGameOver E isWin r)"

section \<open>Projectiles against monsters\<close>

text \<open>
  The weapon modifiers of a projectile's skill: the loop over all weapons adds the crit chance of
  the last one that has the skill and multiplies the factors of all of them.
\<close>

definition weapon_crit :: "'f::times game_env \<Rightarrow> 'f Player \<Rightarrow> int \<Rightarrow> 'f \<times> 'f \<Rightarrow> 'f \<times> 'f" where
  "weapon_crit E p skill init =
     fold (\<lambda>(wid, w) (chance, mult).
       if \<exists>l \<in> set (wi_levels w). wl_skillId l = skill
       then (let level = GetWeaponLevel (pl_inventory p) (wi_id w) in
             if level > 0 \<and> level \<le> int (length (wi_levels w))
             then (let d = wi_levels w ! nat (level - 1) in (wl_critChance d, mult * wl_critDamageMult d))
             else (chance, mult))
       else (chance, mult)) (GetAllWeapons (ge_dm E)) init"

text \<open>The critical hit of a projectile: only a player's projectile draws a random number.\<close>

definition roll_crit :: "'f::{zero,plus,times,inverse,ord} game_env \<Rightarrow> 'f Projectile \<Rightarrow> 'f room \<Rightarrow> (bool \<times> 'f) \<times> 'f room" where
  "roll_crit E pr r =
     (let F = ge_F E in
      case Option.bind (GetObject r (pr_ownerId pr)) (player_at r) of
        None \<Rightarrow> ((False, lit F 1), r)
      | Some p \<Rightarrow>
          (let (chance, mult) = weapon_crit E p (pr_skillId pr) (lit F 0, lit F 1);
               (x, r1) = draw E r
           in if x < GetCriticalChance E p + chance
              then ((True, mult * GetCriticalDamageMultiplier E p), r1)
              else ((False, mult), r1)))"

definition skill_effect :: "'f::{zero,plus,ord} game_env \<Rightarrow> 'f Projectile \<Rightarrow> nat \<Rightarrow> int \<Rightarrow> 'f room \<Rightarrow> 'f room" where
  "skill_effect E pr m mid r =
     (let F = ge_F E in
      case GetSkillInfo (ge_dm E) (pr_skillId pr) of
        None \<Rightarrow> r
      | Some s \<Rightarrow>
          if sk_effectType s = [] then r
          else if sk_effectType s = ''SLOW''
          then upd_monster m (AddStatusEffect ''SLOW'' (sk_effectValue s) (sk_effectDuration s) (rm_totalRunTime r)) r
          else ApplyEffect mid
                 \<lparr> ef_type = (if sk_effectType s = ''BURN'' then BURN else POISON), ef_sourceId = pr_ownerId pr,
                   ef_endTime = rm_totalRunTime r + sk_effectDuration s,
                   ef_tickInterval = (if sk_effectInterval s > 0 then sk_effectInterval s else lit F (1/2)),
                   ef_lastTickTime = rm_totalRunTime r, ef_value = sk_effectValue s \<rparr> r)"

definition touches :: "'f::{plus,minus,times,ord} flops \<Rightarrow> 'f Projectile \<Rightarrow> 'f Monster \<Rightarrow> bool" where
  "touches F pr mo \<longleftrightarrow>
     (let dx = go_x pr - go_x mo; dy = go_y pr - go_y mo; rad = go_radius pr + go_radius mo
      in dx * dx + dy * dy \<le> (rad + lit F (1/10)) * (rad + lit F (1/10)))"

text \<open>A hit: the damage shrinks by a tenth with every earlier hit of the projectile. (The product is
computed in \<open>double\<close>, which the model does not tell apart from \<open>float\<close>.)\<close>

definition hit_monster ::
  "'f::{zero,plus,minus,times,inverse,ord} game_env \<Rightarrow> nat \<Rightarrow> 'f Projectile \<Rightarrow> nat \<Rightarrow> 'f Monster \<Rightarrow> 'f room \<Rightarrow>
    (bool \<times> int \<times> bool) \<times> 'f room" where
  "hit_monster E pa pr m mo r =
     (let F = ge_F E;
          ((crit, mult), r1) = roll_crit E pr r;
          damage = to_i32 F (of_i32 F (pr_damage pr) * fpow F (lit F (9/10)) (GetHitCount pr) * mult);
          r2 = skill_effect E pr m (go_id mo) r1;
          r3 = Monster_TakeDamage E damage m r2;
          (consumed, pr1) = OnHit (AddHit (go_id mo) pr)
      in ((consumed, damage, crit), put pa (ProjectileObj pr1) r3))"

text \<open>The loop over the targets of one projectile; the hits come out as \<open>(id, damage, critical)\<close>.\<close>

fun hit_loop ::
  "'f::{zero,plus,minus,times,inverse,ord} game_env \<Rightarrow> nat \<Rightarrow> nat list \<Rightarrow> 'f room \<Rightarrow> (int \<times> int \<times> bool) list \<times> 'f room" where
  "hit_loop E pa [] r = ([], r)"
| "hit_loop E pa (m # ms) r =
     (case rm_heap r pa of
        Some (ProjectileObj pr) \<Rightarrow>
          if IsExpired pr then ([], r)
          else (case rm_heap r m of
                  Some (MonsterObj mo) \<Rightarrow>
                    if go_id mo = go_id pr \<or> IsDead mo \<or> \<not> touches (ge_F E) pr mo \<or> HasHit (go_id mo) pr then hit_loop E pa ms r
                    else (case hit_monster E pa pr m mo r of
                            ((consumed, damage, crit), r1) \<Rightarrow>
                              if consumed then ([(go_id mo, damage, crit)], r1)
                              else (let (hits, r2) = hit_loop E pa ms r1 in ((go_id mo, damage, crit) # hits, r2)))
                | _ \<Rightarrow> hit_loop E pa ms r)
      | _ \<Rightarrow> ([], r))"

fun projectile_loop ::
  "'f::{zero,plus,minus,times,inverse,ord} game_env \<Rightarrow> nat list \<Rightarrow> 'f room \<Rightarrow> (int \<times> int \<times> bool) list \<times> 'f room" where
  "projectile_loop E [] r = ([], r)"
| "projectile_loop E (a # as) r =
     (case rm_heap r a of
        Some (ProjectileObj pr) \<Rightarrow>
          if IsExpired pr then projectile_loop E as r
          else (let (hits, r1) = hit_loop E a (Query (ge_F E) r (go_x pr) (go_y pr) (go_radius pr + lit (ge_F E) (3/2))) r;
                    (rest, r2) = projectile_loop E as r1
                in (hits @ rest, r2))
      | _ \<Rightarrow> projectile_loop E as r)"

definition ResolveProjectileCollisions :: "'f::{zero,plus,minus,times,inverse,ord} game_env \<Rightarrow> 'f room \<Rightarrow> 'f room" where
  "ResolveProjectileCollisions E r =
     (let (hits, r1) = projectile_loop E (GetAllObjects r) r
      in if hits = [] then r1
         else BroadcastPacket E (S_DamageEffect 0 (map fst hits) (map (fst \<circ> snd) hits) (map (snd \<circ> snd) hits)) r1)"

section \<open>Monsters against players\<close>

record 'f AttackEvent =
  ev_monsterId :: int
  ev_playerId :: int
  ev_damage :: int
  ev_attackTime :: 'f

definition reaches :: "'f::{plus,minus,times,ord} flops \<Rightarrow> 'f Monster \<Rightarrow> 'f Player \<Rightarrow> bool" where
  "reaches F mo p \<longleftrightarrow>
     (let dx = go_x mo - go_x p; dy = go_y mo - go_y p; rad = go_radius mo + go_radius p + lit F (2/10)
      in dx * dx + dy * dy \<le> rad * rad)"

definition attacks_of :: "'f::{plus,minus,times,ord} flops \<Rightarrow> 'f room \<Rightarrow> 'f Monster \<Rightarrow> 'f AttackEvent list" where
  "attacks_of F r mo =
     map (\<lambda>p. \<lparr> ev_monsterId = go_id mo, ev_playerId = go_id p, ev_damage = mo_damageOnContact mo,
                ev_attackTime = rm_totalRunTime r \<rparr>)
       (filter (\<lambda>p. \<not> IsDead p \<and> reaches F mo p \<and> CanAttack (rm_totalRunTime r) mo)
          (List.map_filter (\<lambda>(sid, a). player_at r a) (rm_players r)))"

definition CollectAttackEvents :: "'f::{plus,minus,times,ord} flops \<Rightarrow> 'f room \<Rightarrow> 'f AttackEvent list" where
  "CollectAttackEvents F r =
     concat (map (\<lambda>x. case x of MonsterObj mo \<Rightarrow> (if IsDead mo then [] else attacks_of F r mo) | _ \<Rightarrow> [])
               (objects_at r (GetAllObjects r)))"

definition all_dead :: "'f room \<Rightarrow> bool" where
  "all_dead r \<longleftrightarrow> (\<forall>(sid, a) \<in> set (rm_players r). case player_at r a of Some p \<Rightarrow> IsDead p | None \<Rightarrow> True)"

text \<open>The player is found by its object id, converted to a session id.\<close>

definition execute_attack :: "'f::{zero,plus,times,ord} game_env \<Rightarrow> 'f AttackEvent \<Rightarrow> 'f room \<Rightarrow> 'f room" where
  "execute_attack E ev r =
     (case map_of (rm_players r) (word_of_int (ev_playerId ev)) of
        None \<Rightarrow> r
      | Some a \<Rightarrow>
          (case player_at r a of
             None \<Rightarrow> r
           | Some p \<Rightarrow>
               if IsDead p then r
               else (let r1 = Player_TakeDamage E (ev_damage ev) a r;
                         r2 = (case lookup r1 (ev_monsterId ev) of
                                 Some (m, MonsterObj mo) \<Rightarrow> put m (MonsterObj (ResetAttackCooldown (ev_attackTime ev) mo)) r1
                               | _ \<Rightarrow> r1)
                     in case player_at r2 a of
                          None \<Rightarrow> r2
                        | Some q \<Rightarrow>
                            if IsDead q
                            then (let r3 = BroadcastPacket E (S_PlayerDead (go_id q)) r2
                                  in if all_dead r3 then HandleGameOver E False r3 else r3)
                            else r2)))"

definition ResolveBodyCollisions :: "'f::{zero,plus,minus,times,ord} game_env \<Rightarrow> 'f room \<Rightarrow> 'f room" where
  "ResolveBodyCollisions E r = fold (execute_attack E) (CollectAttackEvents (ge_F E) r) r"

section \<open>Gems\<close>

definition upd_gem :: "nat \<Rightarrow> ('f ExpGem \<Rightarrow> 'f ExpGem) \<Rightarrow> 'f room \<Rightarrow> 'f room" where
  "upd_gem a f r = (case rm_heap r a of Some (GemObj g) \<Rightarrow> put a (GemObj (f g)) r | _ \<Rightarrow> r)"

text \<open>One gem: picked up, attracted or left alone. \<open>dis\<close> gives the draws of the level-up options.\<close>

definition collect_gem ::
  "'f::{zero,plus,minus,uminus,times,inverse,ord} game_env \<Rightarrow> (nat \<Rightarrow> nat \<Rightarrow> int \<Rightarrow> int) \<Rightarrow> nat \<Rightarrow> 'f room \<Rightarrow> 'f room option" where
  "collect_gem E dis a r =
     (let F = ge_F E; halt = upd_gem a (SetVelocity F 0 0) r in
      case rm_heap r a of
        Some (GemObj g) \<Rightarrow>
          if gem_isPickedUp g then Some r
          else (case GetNearestPlayer F r (go_x g) (go_y g) of
                  None \<Rightarrow> Some halt
                | Some pa \<Rightarrow>
                    (case player_at r pa of
                       None \<Rightarrow> Some halt
                     | Some p \<Rightarrow>
                         if IsDead p then Some halt
                         else (let dx = go_x p - go_x g; dy = go_y p - go_y g; distSq = dx * dx + dy * dy;
                                   dist = fsqrt F distSq in
                               if distSq \<le> lit F (1/2) * lit F (1/2)
                               then (case AddExp E (dis a) (gem_expAmount g) pa r of
                                       None \<Rightarrow> None
                                     | Some r1 \<Rightarrow>
                                         Some (upd_gem a (\<lambda>g. g\<lparr> gem_pickerId := go_id p, gem_isPickedUp := True \<rparr>) r1))
                               else if distSq \<le> lit F 5 * lit F 5
                               then Some (if dist > lit F (1/1000)
                                          then upd_gem a (SetVelocity F (dx / dist * lit F 15) (dy / dist * lit F 15)) r
                                          else r)
                               else Some halt)))
      | _ \<Rightarrow> Some r)"

fun gem_loop ::
  "'f::{zero,plus,minus,uminus,times,inverse,ord} game_env \<Rightarrow> (nat \<Rightarrow> nat \<Rightarrow> int \<Rightarrow> int) \<Rightarrow> nat list \<Rightarrow> 'f room \<Rightarrow> 'f room option" where
  "gem_loop E dis [] r = Some r"
| "gem_loop E dis (a # as) r = Option.bind (collect_gem E dis a r) (gem_loop E dis as)"

definition ResolveItemCollisions ::
  "'f::{zero,plus,minus,uminus,times,inverse,ord} game_env \<Rightarrow> (nat \<Rightarrow> nat \<Rightarrow> int \<Rightarrow> int) \<Rightarrow> 'f room \<Rightarrow> 'f room option" where
  "ResolveItemCollisions E dis r = gem_loop E dis (GetAllObjects r) r"

section \<open>Cleanup\<close>

definition should_remove :: "'f::{zero,ord} obj \<Rightarrow> bool" where
  "should_remove x =
     (case x of
        ProjectileObj p \<Rightarrow> IsExpired p
      | MonsterObj m \<Rightarrow> IsDead m
      | GemObj g \<Rightarrow> gem_isPickedUp g
      | PlayerObj _ \<Rightarrow> False)"

definition picker_of :: "'f obj \<Rightarrow> int" where
  "picker_of x = (case x of GemObj g \<Rightarrow> gem_pickerId g | _ \<Rightarrow> 0)"

definition ResolveCleanup :: "'f::{zero,ord} game_env \<Rightarrow> 'f room \<Rightarrow> 'f room" where
  "ResolveCleanup E r =
     (let gone = filter should_remove (objects_at r (GetAllObjects r))
      in BroadcastDespawn E (map obj_id gone) (map picker_of gone) (fold (\<lambda>x. RemoveObject (obj_id x)) gone r))"

definition Combat_Update ::
  "'f::{zero,plus,minus,uminus,times,inverse,ord} game_env \<Rightarrow> (nat \<Rightarrow> nat \<Rightarrow> int \<Rightarrow> int) \<Rightarrow> 'f room \<Rightarrow> 'f room option" where
  "Combat_Update E dis r =
     map_option (ResolveCleanup E)
       (ResolveItemCollisions E dis (ResolveBodyCollisions E (ResolveProjectileCollisions E r)))"

lemmas combat_defs [conc] = ExecuteHandleGameOver_def Post_task_def HandleGameOver_def weapon_crit_def roll_crit_def
  skill_effect_def touches_def hit_monster_def ResolveProjectileCollisions_def reaches_def attacks_of_def
  CollectAttackEvents_def all_dead_def execute_attack_def ResolveBodyCollisions_def upd_gem_def collect_gem_def
  ResolveItemCollisions_def should_remove_def picker_of_def ResolveCleanup_def Combat_Update_def

end
