(* ===== verification/Tile_Map.thy ===== *)
theory Tile_Map
  imports Game_Data
begin

text \<open>
  The tile map of a room (\<open>Game/TileMap.h\<close>, \<open>TileMap.cpp\<close>) and its table in the data manager.
  The theorem on \<open>SweepTest\<close> is stated in exact arithmetic (the instance at the rationals).
\<close>

section \<open>State and loading\<close>

record TileLayer =
  tl_name :: string
  tl_data :: "u32 list"
  tl_visible :: bool

record TileMap =
  tm_width :: int
  tm_height :: int
  tm_tileWidth :: int
  tm_tileHeight :: int
  tm_layers :: "TileLayer list"
  tm_collisionLayer :: "nat option"   \<comment> \<open>the layer \<open>_collisionLayer\<close> points to\<close>

definition FLIP_MASK :: u32 where "FLIP_MASK = 0x1FFFFFFF"

text \<open>
  \<open>LoadFromJson\<close> on a new map; \<open>jbool\<close> and \<open>ju32\<close> are the conversions \<open>get<bool>\<close> and
  \<open>get<uint32_t>\<close> of the package. Every exception makes it answer false.
\<close>

definition parse_layer :: "('j, 'f) json_ops \<Rightarrow> ('j \<Rightarrow> bool option) \<Rightarrow> ('j \<Rightarrow> u32 option) \<Rightarrow> 'j \<Rightarrow> TileLayer list option" where
  "parse_layer J jbool ju32 l = do {
     ty \<leftarrow> jvalue J (j_str J) l ''type'' [];
     if ty = ''tilelayer''
     then do {
       n \<leftarrow> jvalue J (j_str J) l ''name'' [];
       v \<leftarrow> jvalue J jbool l ''visible'' True;
       d \<leftarrow> (case j_at J l ''data'' of
              None \<Rightarrow> Some []
            | Some d \<Rightarrow> if j_is_array J d then mapM ju32 (j_items J d) else Some []);
       Some [\<lparr> tl_name = n, tl_data = d, tl_visible = v \<rparr>] }
     else Some [] }"

definition is_collision :: "TileLayer \<Rightarrow> bool" where
  "is_collision l \<longleftrightarrow> tl_name l = ''Collision'' \<or> tl_name l = ''collision''"

definition LoadFromJson ::
  "('j, 'f) json_ops \<Rightarrow> ('j \<Rightarrow> bool option) \<Rightarrow> ('j \<Rightarrow> u32 option) \<Rightarrow> string \<Rightarrow> TileMap option" where
  "LoadFromJson J jbool ju32 path = do {
     j \<leftarrow> j_read J path;
     w \<leftarrow> jvalue J (j_int J) j ''width'' 0;
     h \<leftarrow> jvalue J (j_int J) j ''height'' 0;
     tw \<leftarrow> jvalue J (j_int J) j ''tilewidth'' 0;
     th \<leftarrow> jvalue J (j_int J) j ''tileheight'' 0;
     ls \<leftarrow> (case j_at J j ''layers'' of
             None \<Rightarrow> Some []
           | Some v \<Rightarrow> if j_is_array J v then map_option concat (mapM (parse_layer J jbool ju32) (j_items J v)) else Some []);
     Some \<lparr> tm_width = w, tm_height = h, tm_tileWidth = tw, tm_tileHeight = th, tm_layers = ls,
            tm_collisionLayer = (if \<exists>l \<in> set ls. is_collision l
                                 then Some (length (takeWhile (\<lambda>l. \<not> is_collision l) ls)) else None) \<rparr> }"

text \<open>\<open>DataManager::LoadMapData\<close> and \<open>GetMap\<close>; \<open>maps\<close> is the table \<open>_maps\<close>.\<close>

definition LoadMapData ::
  "('j, 'f) json_ops \<Rightarrow> ('j \<Rightarrow> bool option) \<Rightarrow> ('j \<Rightarrow> u32 option) \<Rightarrow> int \<Rightarrow> string \<Rightarrow>
    (int \<times> TileMap) list \<Rightarrow> bool \<times> (int \<times> TileMap) list" where
  "LoadMapData J jbool ju32 mapId path maps =
     (case LoadFromJson J jbool ju32 path of
        None \<Rightarrow> (False, maps)
      | Some m \<Rightarrow> (True, AList.update mapId m maps))"

definition GetMap :: "(int \<times> TileMap) list \<Rightarrow> int \<Rightarrow> TileMap option" where
  "GetMap maps mapId = map_of maps mapId"

section \<open>Collision\<close>

definition GetTileX :: "'f::inverse flops \<Rightarrow> TileMap \<Rightarrow> 'f \<Rightarrow> int" where
  "GetTileX F m x = floor_i F (x / of_i32 F (tm_tileWidth m))"

definition GetTileY :: "'f::inverse flops \<Rightarrow> TileMap \<Rightarrow> 'f \<Rightarrow> int" where
  "GetTileY F m y = floor_i F (y / of_i32 F (tm_tileHeight m))"

definition IsWalkable :: "TileMap \<Rightarrow> int \<Rightarrow> int \<Rightarrow> bool" where
  "IsWalkable m tx ty =
     (if tx < 0 \<or> tx \<ge> tm_width m \<or> ty < 0 \<or> ty \<ge> tm_height m then False
      else case tm_collisionLayer m of
             None \<Rightarrow> True
           | Some l \<Rightarrow>
               (let tiles = tl_data (tm_layers m ! l); index = nat (ty * tm_width m + tx)
                in if index \<ge> length tiles then False else (tiles ! index) AND FLIP_MASK = 0))"

definition Slide :: "'f::{zero,plus,minus,times,ord} \<Rightarrow> 'f \<Rightarrow> 'f \<Rightarrow> 'f \<Rightarrow> 'f \<times> 'f" where
  "Slide dx dy nx ny =
     (let dot = dx * nx + dy * ny in if dot < 0 then (dx - dot * nx, dy - dot * ny) else (dx, dy))"

record 'f SweepResult =
  sw_hit :: bool
  sw_time :: 'f
  sw_hitX :: 'f
  sw_hitY :: 'f
  sw_normalX :: 'f
  sw_normalY :: 'f

text \<open>
  One axis of the slab test: the parameters at which the ray enters and leaves the slab between
  \<open>lo\<close> and \<open>hi\<close>, and whether a ray parallel to the slab misses it.
\<close>

definition slab :: "'f::{zero,minus,uminus,times,inverse,ord} flops \<Rightarrow> 'f \<Rightarrow> 'f \<Rightarrow> 'f \<Rightarrow> 'f \<Rightarrow> 'f \<times> 'f" where
  "slab F x0 d lo hi =
     (let inv = (if d \<noteq> 0 then lit F 1 / d else 0);
          n = (if d = 0 then - fmaxval F else (lo - x0) * inv);
          f = (if d = 0 then fmaxval F else (hi - x0) * inv)
      in if n > f then (f, n) else (n, f))"

definition misses :: "'f::{zero,ord} \<Rightarrow> 'f \<Rightarrow> 'f \<Rightarrow> 'f \<Rightarrow> bool" where
  "misses x0 d lo hi \<longleftrightarrow> d = 0 \<and> (x0 < lo \<or> x0 > hi)"

text \<open>The body of the loop over the tiles; the state is \<open>(tMin, collided, nX, nY)\<close>.\<close>

definition sweep_tile ::
  "'f::{zero,plus,minus,uminus,times,inverse,ord} flops \<Rightarrow> TileMap \<Rightarrow> 'f \<Rightarrow> 'f \<Rightarrow> 'f \<Rightarrow> 'f \<Rightarrow> 'f \<Rightarrow> int \<times> int \<Rightarrow>
    'f \<times> bool \<times> 'f \<times> 'f \<Rightarrow> 'f \<times> bool \<times> 'f \<times> 'f" where
  "sweep_tile F m x0 y0 dx dy radius t st =
     (case t of (ty, tx) \<Rightarrow> case st of (tMin, collided, nX, nY) \<Rightarrow>
      if IsWalkable m tx ty then st
      else
        (let left = of_i32 F (tx * tm_tileWidth m); upper = of_i32 F (ty * tm_tileHeight m);
             right = left + of_i32 F (tm_tileWidth m); bottom = upper + of_i32 F (tm_tileHeight m);
             eL = left - radius; eR = right + radius; eT = upper - radius; eB = bottom + radius;
             (tNearX, tFarX) = slab F x0 dx eL eR; (tNearY, tFarY) = slab F y0 dy eT eB in
         if misses x0 dx eL eR \<or> misses y0 dy eT eB then st
         else
           (let tEnter = std_max tNearX tNearY; tExit = std_min tFarX tFarY in
            if tEnter \<le> tExit \<and> tEnter \<ge> 0 \<and> tEnter \<le> lit F 1
            then (if tEnter < tMin
                  then (if tNearX > tNearY then (tEnter, True, if dx > 0 then lit F (- 1) else lit F 1, 0)
                        else (tEnter, True, 0, if dy > 0 then lit F (- 1) else lit F 1))
                  else st)
            else if tEnter < 0 \<and> tExit \<ge> 0
            then (let px = x0 - (eL + eR) * lit F (1/2); py = y0 - (eT + eB) * lit F (1/2)
                  in if fabs px > fabs py then (0, True, if px > 0 then lit F 1 else lit F (- 1), 0)
                     else (0, True, 0, if py > 0 then lit F 1 else lit F (- 1)))
            else st)))"

text \<open>The tiles of the loop, row by row.\<close>

definition sweep_tiles ::
  "'f::{plus,minus,inverse,ord} flops \<Rightarrow> TileMap \<Rightarrow> 'f \<Rightarrow> 'f \<Rightarrow> 'f \<Rightarrow> 'f \<Rightarrow> 'f \<Rightarrow> (int \<times> int) list" where
  "sweep_tiles F m x0 y0 x1 y1 radius =
     (let minTx = std_max 0 (GetTileX F m (std_min x0 x1 - radius));
          maxTx = std_min (tm_width m - 1) (GetTileX F m (std_max x0 x1 + radius));
          minTy = std_max 0 (GetTileY F m (std_min y0 y1 - radius));
          maxTy = std_min (tm_height m - 1) (GetTileY F m (std_max y0 y1 + radius))
      in [(ty, tx). ty \<leftarrow> [minTy..maxTy], tx \<leftarrow> [minTx..maxTx]])"

definition SweepTest ::
  "'f::{zero,plus,minus,uminus,times,inverse,ord} flops \<Rightarrow> TileMap \<Rightarrow> 'f \<Rightarrow> 'f \<Rightarrow> 'f \<Rightarrow> 'f \<Rightarrow> 'f \<Rightarrow> 'f SweepResult" where
  "SweepTest F m startX startY dx dy radius =
     (let none = \<lparr> sw_hit = False, sw_time = lit F 1, sw_hitX = startX + dx, sw_hitY = startY + dy,
                   sw_normalX = 0, sw_normalY = 0 \<rparr> in
      if dx = 0 \<and> dy = 0 then none
      else (case fold (sweep_tile F m startX startY dx dy radius)
                   (sweep_tiles F m startX startY (startX + dx) (startY + dy) radius) (lit F 1, False, 0, 0) of
              (tMin, collided, nX, nY) \<Rightarrow>
                if collided
                then \<lparr> sw_hit = True, sw_time = tMin, sw_hitX = startX + dx * tMin, sw_hitY = startY + dy * tMin,
                       sw_normalX = nX, sw_normalY = nY \<rparr>
                else none))"

lemmas tile_map_defs [conc] = FLIP_MASK_def GetTileX_def GetTileY_def IsWalkable_def Slide_def slab_def misses_def
  sweep_tiles_def SweepTest_def

section \<open>The sweep stops in front of every blocked tile\<close>

text \<open>The open rectangle of a tile, widened by the radius.\<close>

definition in_tile :: "TileMap \<Rightarrow> rat \<Rightarrow> int \<Rightarrow> int \<Rightarrow> rat \<Rightarrow> rat \<Rightarrow> bool" where
  "in_tile m radius tx ty x y \<longleftrightarrow>
     of_int (tx * tm_tileWidth m) - radius < x \<and> x < of_int (tx * tm_tileWidth m) + of_int (tm_tileWidth m) + radius \<and>
     of_int (ty * tm_tileHeight m) - radius < y \<and> y < of_int (ty * tm_tileHeight m) + of_int (tm_tileHeight m) + radius"

lemma slab_contains:
  fixes x0 d lo hi s :: rat
  assumes "lo < x0 + s * d" "x0 + s * d < hi" "0 \<le> s" "s \<le> 1"
  shows "fst (slab rat_flops x0 d lo hi) \<le> s" "s \<le> snd (slab rat_flops x0 d lo hi)" "\<not> misses x0 d lo hi"
proof -
  have big: "s \<le> 10 ^ 38" using assms(4) by simp
  consider "d = 0" | "d > 0" | "d < 0" by linarith
  then have "fst (slab rat_flops x0 d lo hi) \<le> s \<and> s \<le> snd (slab rat_flops x0 d lo hi)"
  proof cases
    case 1
    then show ?thesis using assms(3) big by (simp add: slab_def)
  next
    case 2
    then have "(lo - x0) / d \<le> s" "s \<le> (hi - x0) / d"
      using assms(1,2) by (simp_all add: pos_divide_le_eq pos_le_divide_eq)
    then show ?thesis using 2 by (simp add: slab_def Let_def)
  next
    case 3
    then have "(hi - x0) / d \<le> s" "s \<le> (lo - x0) / d"
      using assms(1,2) by (simp_all add: neg_divide_le_eq neg_le_divide_eq)
    then show ?thesis using 3 by (simp add: slab_def Let_def)
  qed
  then show "fst (slab rat_flops x0 d lo hi) \<le> s" "s \<le> snd (slab rat_flops x0 d lo hi)" by simp_all
  show "\<not> misses x0 d lo hi" using assms(1,2) by (auto simp: misses_def)
qed

lemma sweep_tile_time:
  fixes x0 y0 dx dy radius tMin :: rat
  assumes "0 \<le> tMin" "collided \<or> tMin = 1"
  shows "case sweep_tile rat_flops m x0 y0 dx dy radius t (tMin, collided, nX, nY) of
    (tMin', collided', nX', nY') \<Rightarrow> 0 \<le> tMin' \<and> tMin' \<le> tMin \<and> (collided' \<or> tMin' = 1)"
  using assms
  by (cases t) (auto simp: sweep_tile_def Let_def split_beta)

lemma sweep_tile_hit:
  fixes x0 y0 dx dy radius tMin :: rat
  assumes "0 \<le> tMin" "\<not> IsWalkable m tx ty" "in_tile m radius tx ty (x0 + s * dx) (y0 + s * dy)" "0 \<le> s" "s \<le> 1"
  shows "fst (sweep_tile rat_flops m x0 y0 dx dy radius (ty, tx) (tMin, collided, nX, nY)) \<le> s"
proof -
  define eL eR eT eB where "eL = (of_int (tx * tm_tileWidth m) - radius :: rat)"
    and "eR = (of_int (tx * tm_tileWidth m) + of_int (tm_tileWidth m) + radius :: rat)"
    and "eT = (of_int (ty * tm_tileHeight m) - radius :: rat)"
    and "eB = (of_int (ty * tm_tileHeight m) + of_int (tm_tileHeight m) + radius :: rat)"
  note defs = eL_def [symmetric] eR_def [symmetric] eT_def [symmetric] eB_def [symmetric]
  obtain nx fx where sx: "slab rat_flops x0 dx eL eR = (nx, fx)" by fastforce
  obtain ny fy where sy: "slab rat_flops y0 dy eT eB = (ny, fy)" by fastforce
  have e: "eL < x0 + s * dx" "x0 + s * dx < eR" "eT < y0 + s * dy" "y0 + s * dy < eB"
    using assms(3) unfolding in_tile_def eL_def eR_def eT_def eB_def by blast+
  have x: "nx \<le> s" "s \<le> fx" "\<not> misses x0 dx eL eR"
    using slab_contains [OF e(1,2) assms(4,5)] sx by simp_all
  have y: "ny \<le> s" "s \<le> fy" "\<not> misses y0 dy eT eB"
    using slab_contains [OF e(3,4) assms(4,5)] sy by simp_all
  have "std_max nx ny \<le> s" "s \<le> std_min fx fy" using x y by (auto simp: std_max_def std_min_def)
  then show ?thesis
    using assms(1,2,4,5) x(3) y(3) by (auto simp: sweep_tile_def Let_def defs sx sy simp del: of_int_mult)
qed

lemma sweep_fold_time:
  fixes x0 y0 dx dy radius tMin :: rat
  assumes "0 \<le> tMin" "collided \<or> tMin = 1"
  shows "case fold (sweep_tile rat_flops m x0 y0 dx dy radius) ts (tMin, collided, nX, nY) of
    (tMin', collided', nX', nY') \<Rightarrow> 0 \<le> tMin' \<and> tMin' \<le> tMin \<and> (collided' \<or> tMin' = 1)"
  using assms
proof (induction ts arbitrary: tMin collided nX nY)
  case Nil
  then show ?case by auto
next
  case (Cons t ts)
  obtain t1 c1 n1 n2 where st: "sweep_tile rat_flops m x0 y0 dx dy radius t (tMin, collided, nX, nY) = (t1, c1, n1, n2)"
    by (metis prod_cases4)
  have "0 \<le> t1" "t1 \<le> tMin" "c1 \<or> t1 = 1"
    using sweep_tile_time [OF Cons.prems, of m x0 y0 dx dy radius t nX nY] st by auto
  then show ?case using Cons.IH [of t1 c1 n1 n2] st by fastforce
qed

lemma sweep_fold_hit:
  fixes x0 y0 dx dy radius tMin :: rat
  assumes "(ty, tx) \<in> set ts" "0 \<le> tMin" "collided \<or> tMin = 1" "\<not> IsWalkable m tx ty"
    "in_tile m radius tx ty (x0 + s * dx) (y0 + s * dy)" "0 \<le> s" "s \<le> 1"
  shows "fst (fold (sweep_tile rat_flops m x0 y0 dx dy radius) ts (tMin, collided, nX, nY)) \<le> s"
  using assms(1-3)
proof (induction ts arbitrary: tMin collided nX nY)
  case Nil
  then show ?case by simp
next
  case (Cons t ts)
  obtain t1 c1 n1 n2 where st: "sweep_tile rat_flops m x0 y0 dx dy radius t (tMin, collided, nX, nY) = (t1, c1, n1, n2)"
    by (metis prod_cases4)
  have ok: "0 \<le> t1" "c1 \<or> t1 = 1"
    using sweep_tile_time [OF Cons.prems(2,3), of m x0 y0 dx dy radius t nX nY] st by auto
  show ?case
  proof (cases "t = (ty, tx)")
    case True
    then have "t1 \<le> s" using sweep_tile_hit [OF Cons.prems(2) assms(4-7)] st by (metis fst_conv)
    then show ?thesis
      using sweep_fold_time [OF ok, of m x0 y0 dx dy radius ts n1 n2] st by fastforce
  next
    case False
    then show ?thesis using Cons.IH [OF _ ok, where nX = n1 and nY = n2] Cons.prems(1) st by simp
  qed
qed

lemma tile_in_range:
  fixes x0 d radius s :: rat
  assumes "0 < w" "0 \<le> s" "s \<le> 1" "of_int (t * w) - radius < x0 + s * d"
    "x0 + s * d < of_int (t * w) + of_int w + radius"
  shows "\<lfloor>(std_min x0 (x0 + d) - radius) / of_int w\<rfloor> \<le> t" "t \<le> \<lfloor>(std_max x0 (x0 + d) + radius) / of_int w\<rfloor>"
proof -
  have w: "0 < (of_int w :: rat)" using assms(1) by simp
  have sd: "(0 \<le> d \<longrightarrow> s * d \<le> d \<and> 0 \<le> s * d) \<and> (d \<le> 0 \<longrightarrow> d \<le> s * d \<and> s * d \<le> 0)"
    using assms(2,3) by (auto simp: mult_left_le_one_le mult_nonneg_nonpos mult_le_cancel_right1)
  have lo: "std_min x0 (x0 + d) \<le> x0 + s * d" and hi: "x0 + s * d \<le> std_max x0 (x0 + d)"
    using sd by (auto simp: std_min_def std_max_def not_less)
  have "std_min x0 (x0 + d) - radius < of_int (t + 1) * of_int w" using lo assms(5) by (simp add: algebra_simps)
  then have "(std_min x0 (x0 + d) - radius) / of_int w < of_int (t + 1)" using w by (simp add: pos_divide_less_eq)
  then show "\<lfloor>(std_min x0 (x0 + d) - radius) / of_int w\<rfloor> \<le> t" by (simp add: floor_le_iff)
  have "of_int t * of_int w \<le> std_max x0 (x0 + d) + radius" using hi assms(4) by simp
  then have "of_int t \<le> (std_max x0 (x0 + d) + radius) / of_int w" using w by (simp add: pos_le_divide_eq)
  then show "t \<le> \<lfloor>(std_max x0 (x0 + d) + radius) / of_int w\<rfloor>" by (simp add: le_floor_iff)
qed

lemma sweep_tiles_mem:
  "(ty, tx) \<in> set (sweep_tiles rat_flops m x0 y0 x1 y1 radius) \<longleftrightarrow>
     0 \<le> tx \<and> tx < tm_width m \<and> 0 \<le> ty \<and> ty < tm_height m \<and>
     \<lfloor>(std_min x0 x1 - radius) / of_int (tm_tileWidth m)\<rfloor> \<le> tx \<and> tx \<le> \<lfloor>(std_max x0 x1 + radius) / of_int (tm_tileWidth m)\<rfloor> \<and>
     \<lfloor>(std_min y0 y1 - radius) / of_int (tm_tileHeight m)\<rfloor> \<le> ty \<and> ty \<le> \<lfloor>(std_max y0 y1 + radius) / of_int (tm_tileHeight m)\<rfloor>"
proof -
  have m: "std_max (a::int) b \<le> c \<longleftrightarrow> a \<le> c \<and> b \<le> c" "c \<le> std_min a b \<longleftrightarrow> c \<le> a \<and> c \<le> b" for a b c
    by (auto simp: std_max_def std_min_def)
  show ?thesis by (auto simp: sweep_tiles_def GetTileX_def GetTileY_def Let_def m image_iff intro!: bexI [of _ ty])
qed


definition demo_map :: TileMap where
  "demo_map = \<lparr> tm_width = 2, tm_height = 1, tm_tileWidth = 4, tm_tileHeight = 4,
     tm_layers = [\<lparr> tl_name = ''Collision'', tl_data = [0, 1], tl_visible = True \<rparr>], tm_collisionLayer = Some 0 \<rparr>"

lemma demo_sweep: "sw_time (SweepTest rat_flops demo_map 1 2 4 0 1) = 1/2"
  by (simp add: demo_map_def SweepTest_def sweep_tiles_def GetTileX_def GetTileY_def sweep_tile_def slab_def
      misses_def IsWalkable_def FLIP_MASK_def std_max_def std_min_def upto_rec1 Let_def)


text \<open>
  \<open>UpdatePhysics\<close> adds what is left of the movement along the wall without sweeping it again: a
  circle that slides along one tile ends inside another blocked tile.
\<close>

definition corner_map :: TileMap where
  "corner_map = \<lparr> tm_width = 2, tm_height = 2, tm_tileWidth = 10, tm_tileHeight = 10,
     tm_layers = [\<lparr> tl_name = ''Collision'', tl_data = [0, 1, 1, 1], tl_visible = True \<rparr>], tm_collisionLayer = Some 0 \<rparr>"

lemma slide_enters_tile:
  "let res = SweepTest rat_flops corner_map 5 5 10 8 1;
       (rx, ry) = Slide (10 * (1 - sw_time res)) (8 * (1 - sw_time res)) (sw_normalX res) (sw_normalY res)
   in sw_hit res \<and> \<not> IsWalkable corner_map 0 1 \<and> in_tile corner_map 1 0 1 (sw_hitX res + rx) (sw_hitY res + ry)"
  by (simp add: corner_map_def SweepTest_def sweep_tiles_def GetTileX_def GetTileY_def sweep_tile_def slab_def
      misses_def IsWalkable_def FLIP_MASK_def Slide_def in_tile_def std_max_def std_min_def upto_rec1 Let_def)

text \<open>
  Outside the map nothing is walkable, but the loop is clamped to the map: a movement across the
  border meets no wall.
\<close>

lemma sweep_leaves_map:
  "\<not> sw_hit (SweepTest rat_flops demo_map 1 2 (- 9) 0 1) \<and>
   \<not> IsWalkable demo_map (GetTileX rat_flops demo_map (sw_hitX (SweepTest rat_flops demo_map 1 2 (- 9) 0 1))) 0"
  by (simp add: demo_map_def SweepTest_def sweep_tiles_def GetTileX_def GetTileY_def sweep_tile_def slab_def
      misses_def IsWalkable_def FLIP_MASK_def std_max_def std_min_def upto_rec1 Let_def)

end
