(* ===== verification/Game_Room.thy ===== *)
theory Game_Room
  imports Game_Waves Game_Combat Tile_Map
begin

text \<open>
  The room (\<open>Game/Room.cpp\<close>, \<open>Room_Update.cpp\<close>): its life cycle, the entering and leaving of
  players, the update of one tick and the tasks its strand runs. The public operations post a task
  when the room has a strand and run at once when it has none; \<open>run_task\<close> is the strand running
  one task. The WebSocket debug broadcasts and the performance log have no effect on the state and
  are left out.

  What a task needs from outside is in a record \<open>room_in\<close>: the values the level-up draws yield, the
  handle the timer service answers (not 0) and the tile map of the room.
\<close>

record room_in =
  in_dis :: "nat \<Rightarrow> nat \<Rightarrow> int \<Rightarrow> int"
  in_handle :: nat
  in_map :: "TileMap option"

section \<open>Life cycle\<close>

definition Room_Start :: "room_in \<Rightarrow> 'f room \<Rightarrow> 'f room" where
  "Room_Start I r = (if rm_timer r then r\<lparr> rm_timerHandle := in_handle I \<rparr> else r)"

definition InternalClear :: "'f room \<Rightarrow> 'f room" where
  "InternalClear r =
     ClearObjects (r\<lparr> rm_timerHandle := (if rm_timer r \<and> rm_timerHandle r \<noteq> 0 then 0 else rm_timerHandle r),
                      rm_players := [] \<rparr>)"

definition ExecuteStop :: "'f room \<Rightarrow> 'f room" where
  "ExecuteStop r = InternalClear r"

definition Stop :: "'f room \<Rightarrow> 'f room" where
  "Stop r =
     (if rm_isStopping r then r
      else (let r1 = r\<lparr> rm_isStopping := True \<rparr>
            in if rm_strand r1 then Post_task DoStop r1 else ExecuteStop r1))"

definition ExecuteStartGame :: "'f::zero game_env \<Rightarrow> room_in \<Rightarrow> 'f room \<Rightarrow> 'f room" where
  "ExecuteStartGame E I r =
     (if rm_gameStarted r then r
      else (let r1 = r\<lparr> rm_gameStarted := True \<rparr>;
                r2 = (if rm_timerHandle r1 = 0 then Room_Start I r1 else r1)
            in Waves_Start E r2))"

definition StartGame :: "'f::zero game_env \<Rightarrow> room_in \<Rightarrow> 'f room \<Rightarrow> 'f room" where
  "StartGame E I r = (if rm_strand r then Post_task DoStartGame r else ExecuteStartGame E I r)"

definition ExecuteReset :: "'f::zero game_env \<Rightarrow> 'f room \<Rightarrow> 'f room" where
  "ExecuteReset E r =
     (Waves_Reset E (HardClear (ClearObjects r)))
       \<lparr> rm_gameStarted := False, rm_isGameOver := False, rm_isStopping := False, rm_totalRunTime := 0,
         rm_serverTick := 0, rm_isUpdating := False, rm_playerCount := 0 \<rparr>"

definition Reset_room :: "'f::zero game_env \<Rightarrow> 'f room \<Rightarrow> 'f room" where
  "Reset_room E r = (if rm_strand r then Post_task DoReset r else ExecuteReset E r)"

section \<open>Players\<close>

definition add_defaults :: "'f::{zero,plus,times} game_env \<Rightarrow> nat \<Rightarrow> 'f room \<Rightarrow> 'f room" where
  "add_defaults E a r =
     (case GetPlayerInfo (ge_dm E) 1 of
        None \<Rightarrow> r
      | Some t \<Rightarrow> if pi_defaultSkills t = [] then r else AddDefaultSkills E (pi_defaultSkills t) a r)"

text \<open>
  \<open>ExecuteEnter\<close>. With a user database the rest happens when the database answers
  (\<open>skills_loaded\<close> posts it, \<open>apply_loaded\<close> is the posted task).
\<close>

definition ExecuteEnter :: "'f::{zero,plus,times} game_env \<Rightarrow> room_in \<Rightarrow> nat \<Rightarrow> 'f room \<Rightarrow> 'f room" where
  "ExecuteEnter E I a r =
     (case player_at r a of
        None \<Rightarrow> r
      | Some p \<Rightarrow>
          (let r1 = r\<lparr> rm_players := AList.update (pl_sessionId p) a (rm_players r),
                      rm_playerCount := rm_playerCount r + 1 \<rparr>;
               r2 = upd_player a (\<lambda>q. q\<lparr> pl_currentRoomId := rm_roomId r \<rparr>) r1
           in if ge_userDB E then r2
              else (let r3 = AddObject a (add_defaults E a r2)
                    in if rm_gameStarted r3 then r3 else StartGame E I r3)))"

text \<open>The database callback posts without asking whether there is a strand; \<open>None\<close>: it dereferences null.\<close>

definition skills_loaded :: "nat \<Rightarrow> (int \<times> int) list \<Rightarrow> 'f room \<Rightarrow> 'f room option" where
  "skills_loaded a skills r = (if rm_strand r then Some (Post_task (DoSkills a skills) r) else None)"

definition apply_loaded :: "'f::{zero,plus,times} game_env \<Rightarrow> room_in \<Rightarrow> nat \<Rightarrow> (int \<times> int) list \<Rightarrow> 'f room \<Rightarrow> 'f room" where
  "apply_loaded E I a skills r =
     (case player_at r a of
        None \<Rightarrow> r
      | Some p \<Rightarrow>
          if map_of (rm_players r) (pl_sessionId p) \<noteq> Some a then r
          else (let r1 = add_defaults E a (AddObject a (ApplySkills E skills a r))
                in if rm_gameStarted r1 then r1 else StartGame E I r1))"

definition Enter :: "'f::{zero,plus,times} game_env \<Rightarrow> room_in \<Rightarrow> nat \<Rightarrow> 'f room \<Rightarrow> 'f room" where
  "Enter E I a r = (if rm_strand r then Post_task (DoEnter a) r else ExecuteEnter E I a r)"

definition ExecuteOnPlayerReady :: "'f::{zero,plus,times} game_env \<Rightarrow> room_in \<Rightarrow> u64 \<Rightarrow> 'f room \<Rightarrow> 'f room" where
  "ExecuteOnPlayerReady E I sid r =
     (case map_of (rm_players r) sid of
        None \<Rightarrow> r
      | Some a \<Rightarrow>
          (let r1 = SyncInventory E a (upd_player a (\<lambda>q. q\<lparr> pl_isReady := True \<rparr>) r);
               r2 = (if rm_gameStarted r1 then r1 else ExecuteStartGame E I r1);
               objs = objects_at r2 (GetAllObjects r2);
               r3 = (if objs = [] then r2
                     else SendToPlayer E sid (S_SpawnObject (map object_info objs) (rm_serverTick r2)) r2)
           in case player_at r3 a of
                None \<Rightarrow> r3
              | Some p \<Rightarrow>
                  BroadcastPacket_except E (S_SpawnObject
                    [\<lparr> oi_objectId = go_id p, oi_type = PLAYER, oi_typeId = 0, oi_x = go_x p, oi_y = go_y p,
                       oi_hp = go_hp p, oi_maxHp = go_maxHp p, oi_state = IDLE, oi_vx = 0, oi_vy = 0,
                       oi_lookLeft = False \<rparr>] (rm_serverTick r3)) sid r3))"

definition OnPlayerReady :: "'f::{zero,plus,times} game_env \<Rightarrow> room_in \<Rightarrow> u64 \<Rightarrow> 'f room \<Rightarrow> 'f room" where
  "OnPlayerReady E I sid r = (if rm_strand r then Post_task (DoReady sid) r else ExecuteOnPlayerReady E I sid r)"

text \<open>The counter of players is unsigned: below zero it wraps around.\<close>

definition ExecuteLeave :: "'f::zero game_env \<Rightarrow> u64 \<Rightarrow> 'f room \<Rightarrow> 'f room" where
  "ExecuteLeave E sid r =
     (case map_of (rm_players r) sid of
        None \<Rightarrow> r
      | Some a \<Rightarrow>
          (case player_at r a of
             None \<Rightarrow> r
           | Some p \<Rightarrow>
               (let r1 = RemoveObject (go_id p) (upd_player a (\<lambda>q. q\<lparr> pl_currentRoomId := 0 \<rparr>) r);
                    r2 = BroadcastPacket E (S_DespawnObject [go_id p] []) r1;
                    r3 = r2\<lparr> rm_players := AList.delete sid (rm_players r2),
                             rm_playerCount := (if rm_playerCount r2 = 0 then 2 ^ 64 - 1 else rm_playerCount r2 - 1) \<rparr>
                in if rm_players r3 = []
                   then (if rm_roomId r3 \<noteq> 1 then ExecuteReset E (ExecuteStop r3) else ExecuteReset E r3)
                   else r3)))"

definition Leave :: "'f::zero game_env \<Rightarrow> u64 \<Rightarrow> 'f room \<Rightarrow> 'f room" where
  "Leave E sid r = (if rm_strand r then Post_task (DoLeave sid) r else ExecuteLeave E sid r)"

definition GetPlayerCount :: "'f room \<Rightarrow> nat" where
  "GetPlayerCount r = rm_playerCount r"

definition CheckWinCondition :: "'f room \<Rightarrow> bool" where
  "CheckWinCondition r \<longleftrightarrow> IsAllWavesComplete r \<and> GetAliveMonsterCount r = 0"

section \<open>The update of one tick\<close>

definition TICK_INTERVAL_SEC :: "'f::inverse flops \<Rightarrow> 'f" where
  "TICK_INTERVAL_SEC F = lit F 1 / of_i32 F 25"

text \<open>The virtual \<open>Update\<close>; gems inherit the empty one.\<close>

definition object_update ::
  "'f::{zero,plus,minus,uminus,times,inverse,ord} game_env \<Rightarrow> 'f \<Rightarrow> nat \<Rightarrow> 'f room \<Rightarrow> 'f room" where
  "object_update E dt a r =
     (case rm_heap r a of
        None \<Rightarrow> r
      | Some x \<Rightarrow>
          if obj_dead x then r
          else (case x of
                  MonsterObj _ \<Rightarrow> Monster_Update E dt a r
                | PlayerObj _ \<Rightarrow> Player_Update E dt a r
                | ProjectileObj _ \<Rightarrow> Projectile_Update E dt a r
                | GemObj _ \<Rightarrow> r))"

definition sweep_radius :: "'f flops \<Rightarrow> 'f obj \<Rightarrow> 'f" where
  "sweep_radius F x = (case x of MonsterObj m \<Rightarrow> go_radius m | PlayerObj _ \<Rightarrow> lit F 15 | _ \<Rightarrow> lit F 5)"

definition moved_to ::
  "'f::{zero,plus,minus,uminus,times,inverse,ord} flops \<Rightarrow> TileMap option \<Rightarrow> 'f \<Rightarrow> 'f obj \<Rightarrow> ('f \<times> 'f) option" where
  "moved_to F tm dt x =
     (let b = base x; moveX = go_vx b * dt; moveY = go_vy b * dt; free = (go_x b + moveX, go_y b + moveY) in
      if moveX = lit F 0 \<and> moveY = lit F 0 then None
      else (case tm of
              None \<Rightarrow> Some free
            | Some m \<Rightarrow>
                (let sw = SweepTest F m (go_x b) (go_y b) moveX moveY (sweep_radius F x) in
                 if sw_hit sw
                 then (case Slide (moveX * (lit F 1 - sw_time sw)) (moveY * (lit F 1 - sw_time sw)) (sw_normalX sw) (sw_normalY sw) of
                         (rx, ry) \<Rightarrow> Some (sw_hitX sw + rx, sw_hitY sw + ry))
                 else Some free)))"

definition move_object ::
  "'f::{zero,plus,minus,uminus,times,inverse,ord} flops \<Rightarrow> TileMap option \<Rightarrow> 'f \<Rightarrow> nat \<Rightarrow> 'f room \<Rightarrow> 'f room" where
  "move_object F tm dt a r =
     (case rm_heap r a of
        None \<Rightarrow> r
      | Some x \<Rightarrow>
          if obj_dead x then r
          else (case moved_to F tm dt x of None \<Rightarrow> r | Some (x', y') \<Rightarrow> put a (map_base (SetPos x' y') x) r))"

definition UpdatePhysics ::
  "'f::{zero,plus,minus,uminus,times,inverse,ord} flops \<Rightarrow> TileMap option \<Rightarrow> 'f \<Rightarrow> nat list \<Rightarrow> 'f room \<Rightarrow> 'f room" where
  "UpdatePhysics F tm dt objs r = fold (move_object F tm dt) objs r"

text \<open>\<open>SyncNetwork\<close>: the positions in messages of at most 300, then an acknowledgement to each player.\<close>

definition CHUNK_SIZE :: nat where "CHUNK_SIZE = 300"

definition sync_entry :: "'f flops \<Rightarrow> 'f obj \<Rightarrow> 'f ObjectPos option" where
  "sync_entry F x =
     (let b = base x in
      if go_state b = DEAD \<or> \<not> isfinite F (go_x b) \<or> \<not> isfinite F (go_y b) \<or> \<not> isfinite F (go_vx b) \<or> \<not> isfinite F (go_vy b)
      then None
      else Some \<lparr> op_objectId = go_id b, op_x = go_x b, op_y = go_y b, op_vx = go_vx b, op_vy = go_vy b,
                  op_state = go_state b, op_lookLeft = go_lookLeft b \<rparr>)"

fun sync_loop :: "'f game_env \<Rightarrow> 'f obj list \<Rightarrow> 'f ObjectPos list \<Rightarrow> 'f room \<Rightarrow> 'f ObjectPos list \<times> 'f room" where
  "sync_loop E [] batch r = (batch, r)"
| "sync_loop E (x # xs) batch r =
     (case sync_entry (ge_F E) x of
        None \<Rightarrow> sync_loop E xs batch r
      | Some e \<Rightarrow>
          (let batch1 = batch @ [e] in
           if length batch1 \<ge> CHUNK_SIZE
           then sync_loop E xs [] (BroadcastPacket E (S_MoveObjectBatch batch1 (rm_serverTick r)) r)
           else sync_loop E xs batch1 r))"

definition send_ack :: "'f game_env \<Rightarrow> u64 \<times> nat \<Rightarrow> 'f room \<Rightarrow> 'f room" where
  "send_ack E s r =
     (case player_at r (snd s) of
        None \<Rightarrow> r
      | Some p \<Rightarrow> if IsDead p then r
                  else SendToPlayer E (fst s) (S_PlayerStateAck (rm_serverTick r) (pl_lastInputTick p) (go_x p) (go_y p)) r)"

definition SyncNetwork :: "'f game_env \<Rightarrow> 'f room \<Rightarrow> 'f room" where
  "SyncNetwork E r =
     (let objs = objects_at r (GetAllObjects r) in
      if objs = [] then r
      else (let (batch, r1) = sync_loop E objs [] r;
                r2 = (if batch \<noteq> [] then BroadcastPacket E (S_MoveObjectBatch batch (rm_serverTick r1)) r1 else r1)
            in fold (send_ack E) (rm_players r2) r2))"

definition ExecuteUpdate ::
  "'f::{zero,plus,minus,uminus,times,inverse,ord} game_env \<Rightarrow> room_in \<Rightarrow> 'f \<Rightarrow> 'f room \<Rightarrow> 'f room option" where
  "ExecuteUpdate E I dt r =
     (if \<not> rm_gameStarted r \<or> rm_isGameOver r \<or> rm_isStopping r \<or> rm_players r = [] then Some r
      else
        (let r1 = r\<lparr> rm_totalRunTime := rm_totalRunTime r + dt, rm_serverTick := rm_serverTick r + 1 \<rparr>;
             r2 = Effects_Update E (rm_totalRunTime r1) (Waves_Update E dt r1);
             objs = GetAllObjects r2;
             r3 = ClearOccupancyMap (Rebuild (ge_F E) objs r2);
             r4 = fold (object_update E dt) objs r3;
             r5 = UpdatePhysics (ge_F E) (in_map I) dt objs r4
         in map_option (SyncNetwork E) (Combat_Update E (in_dis I) r5)))"

definition Update_room ::
  "'f::{zero,plus,minus,uminus,times,inverse,ord} game_env \<Rightarrow> room_in \<Rightarrow> 'f room \<Rightarrow> 'f room option" where
  "Update_room E I r =
     map_option (\<lambda>r. r\<lparr> rm_isUpdating := False \<rparr>) (ExecuteUpdate E I (TICK_INTERVAL_SEC (ge_F E)) r)"

definition OnTimer ::
  "'f::{zero,plus,minus,uminus,times,inverse,ord} game_env \<Rightarrow> room_in \<Rightarrow> 'f room \<Rightarrow> 'f room option" where
  "OnTimer E I r =
     (if rm_isUpdating r then Some r
      else (let r1 = r\<lparr> rm_isUpdating := True \<rparr>
            in if rm_strand r1 then Some (Post_task DoUpdate r1) else Update_room E I r1))"

section \<open>Commands and the tasks of the strand\<close>

text \<open>These do nothing when the room has no strand.\<close>

definition Post_if :: "task \<Rightarrow> 'f room \<Rightarrow> 'f room" where
  "Post_if t r = (if rm_strand r then Post_task t r else r)"

definition DebugAddExpToAll :: "int \<Rightarrow> 'f room \<Rightarrow> 'f room" where
  "DebugAddExpToAll n r = Post_if (DoAddExp n) r"

definition DebugSpawnMonster :: "int \<Rightarrow> int \<Rightarrow> 'f room \<Rightarrow> 'f room" where
  "DebugSpawnMonster ty n r = Post_if (DoSpawn ty n) r"

definition DebugToggleGodMode :: "'f room \<Rightarrow> 'f room" where
  "DebugToggleGodMode r = Post_if DoGodMode r"

definition SetMonsterStrategy :: "string \<Rightarrow> 'f room \<Rightarrow> 'f room" where
  "SetMonsterStrategy s r = Post_if (DoStrategy s) r"

fun exp_to_all ::
  "'f::{zero,plus,minus,uminus,times,inverse,ord} game_env \<Rightarrow> (nat \<Rightarrow> nat \<Rightarrow> int \<Rightarrow> int) \<Rightarrow> int \<Rightarrow> (u64 \<times> nat) list \<Rightarrow> 'f room \<Rightarrow> 'f room option" where
  "exp_to_all E dis n [] r = Some r"
| "exp_to_all E dis n ((sid, a) # ps) r = Option.bind (AddExp E (dis a) n a r) (exp_to_all E dis n ps)"

definition toggle_god :: "u64 \<times> nat \<Rightarrow> 'f room \<Rightarrow> 'f room" where
  "toggle_god s r = upd_player (snd s) (\<lambda>p. p\<lparr> pl_godMode := \<not> pl_godMode p \<rparr>) r"

definition strategy_named :: "string \<Rightarrow> strategy option" where
  "strategy_named s =
     map_of [(''smart'', SmartFlocking), (''fluid'', FluidStacking), (''strict'', StrictSeparation),
             (''surround'', SurroundingFlocking), (''cell'', CellBased), (''vampire'', VampireSurvivor)] s"

definition set_strategy :: "string \<Rightarrow> 'f room \<Rightarrow> 'f room" where
  "set_strategy s r =
     (case strategy_named s of
        None \<Rightarrow> r
      | Some st \<Rightarrow> fold (\<lambda>a. upd_monster a (\<lambda>m. m\<lparr> mo_strategy := Some st \<rparr>)) (GetAllObjects r) r)"

text \<open>The selection of a level-up option (\<open>SelectLevelUpHandler\<close>, the posted part).\<close>

definition select_level_up :: "'f::{zero,plus,times} game_env \<Rightarrow> nat \<Rightarrow> int \<Rightarrow> 'f room \<Rightarrow> 'f room" where
  "select_level_up E a idx r = ExitLevelUpState E a (CheckWeaponEvolutions E a (ApplySelection E a idx r))"

definition run_task ::
  "'f::{zero,plus,minus,uminus,times,inverse,ord} game_env \<Rightarrow> room_in \<Rightarrow> task \<Rightarrow> 'f room \<Rightarrow> 'f room option" where
  "run_task E I t r =
     (case t of
        DoStop \<Rightarrow> Some (ExecuteStop r)
      | DoStartGame \<Rightarrow> Some (ExecuteStartGame E I r)
      | DoReset \<Rightarrow> Some (ExecuteReset E r)
      | DoUpdate \<Rightarrow> Update_room E I r
      | DoEnter a \<Rightarrow> Some (ExecuteEnter E I a r)
      | DoSkills a skills \<Rightarrow> Some (apply_loaded E I a skills r)
      | DoReady sid \<Rightarrow> Some (ExecuteOnPlayerReady E I sid r)
      | DoLeave sid \<Rightarrow> Some (ExecuteLeave E sid r)
      | DoGameOver w \<Rightarrow> Some (ExecuteHandleGameOver E w r)
      | DoAddExp n \<Rightarrow> exp_to_all E (in_dis I) n (rm_players r) r
      | DoSpawn ty n \<Rightarrow> Some (DebugSpawn E ty n r)
      | DoGodMode \<Rightarrow> Some (fold toggle_god (rm_players r) r)
      | DoStrategy s \<Rightarrow> Some (set_strategy s r)
      | DoInput a tick dx dy \<Rightarrow> Some (upd_player a (ApplyInput E tick dx dy) r)
      | DoSelect a idx \<Rightarrow> Some (select_level_up E a idx r))"

text \<open>The strand takes the oldest task and runs it.\<close>

definition run_next ::
  "'f::{zero,plus,minus,uminus,times,inverse,ord} game_env \<Rightarrow> room_in \<Rightarrow> 'f room \<Rightarrow> 'f room option" where
  "run_next E I r =
     (case rm_queue r of [] \<Rightarrow> Some r | t # ts \<Rightarrow> run_task E I t (r\<lparr> rm_queue := ts \<rparr>))"

lemmas room_defs [conc] = Room_Start_def InternalClear_def ExecuteStop_def Stop_def ExecuteStartGame_def StartGame_def
  ExecuteReset_def Reset_room_def add_defaults_def ExecuteEnter_def skills_loaded_def apply_loaded_def Enter_def
  ExecuteOnPlayerReady_def OnPlayerReady_def ExecuteLeave_def Leave_def CheckWinCondition_def object_update_def
  moved_to_def move_object_def UpdatePhysics_def CHUNK_SIZE_def sync_entry_def send_ack_def SyncNetwork_def
  ExecuteUpdate_def Update_room_def OnTimer_def set_strategy_def select_level_up_def run_task_def run_next_def

end
