(* ===== verification/Room_Invariant.thy ===== *)
theory Room_Invariant
  imports Game_Room
begin

text \<open>
  The invariant of a room: its tables, counters, players, effects and queued tasks fit together, and
  there are at most 500 monsters. It is a predicate on the \<open>core\<close> of the room, the part that
  most operations leave alone: for them the lemmas are equations \<open>core (op r) = core r\<close>, which the
  simplifier composes.
\<close>

section \<open>The core of a room\<close>

text \<open>The level of a player is consistent when its threshold is that of the level.\<close>

definition level_fits :: "'f Player \<Rightarrow> bool" where
  "level_fits p \<longleftrightarrow> 1 \<le> pl_plevel p \<and> pl_maxExp p = threshold (pl_plevel p)"

fun shape :: "'f obj \<Rightarrow> ObjectType \<times> int \<times> (u64 \<times> bool) option" where
  "shape (PlayerObj p) = (PLAYER, go_id p, Some (pl_sessionId p, level_fits p))"
| "shape (MonsterObj m) = (MONSTER, go_id m, None)"
| "shape (ProjectileObj p) = (PROJECTILE, go_id p, None)"
| "shape (GemObj g) = (ITEM, go_id g, None)"

definition shapes :: "'f room \<Rightarrow> nat \<Rightarrow> (ObjectType \<times> int \<times> (u64 \<times> bool) option) option" where
  "shapes r a = map_option shape (rm_heap r a)"

type_synonym 'f core = "(nat \<Rightarrow> (ObjectType \<times> int \<times> (u64 \<times> bool) option) option) \<times> nat \<times> (u64 \<times> nat) list \<times>
  (int \<times> nat) list \<times> int \<times> int \<times> task list \<times> (int \<times> 'f StatusEffect list) list"

definition core :: "'f room \<Rightarrow> 'f core" where
  "core r = (shapes r, rm_fresh r, rm_players r, rm_objects r, rm_aliveMonsterCount r, rm_nextId r, rm_queue r, rm_effects r)"

definition task_addrs :: "task \<Rightarrow> nat set" where
  "task_addrs t = (case t of DoEnter a \<Rightarrow> {a} | DoSkills a _ \<Rightarrow> {a} | _ \<Rightarrow> {})"

definition is_player :: "(nat \<Rightarrow> (ObjectType \<times> int \<times> (u64 \<times> bool) option) option) \<Rightarrow> nat \<Rightarrow> bool" where
  "is_player S a \<longleftrightarrow> (\<exists>i s. i \<le> 1000 \<and> S a = Some (PLAYER, i, Some (s, True)))"

definition monster_entry :: "(nat \<Rightarrow> (ObjectType \<times> int \<times> (u64 \<times> bool) option) option) \<Rightarrow> int \<times> nat \<Rightarrow> bool" where
  "monster_entry S e \<longleftrightarrow> (\<exists>i s. S (snd e) = Some (MONSTER, i, s))"

text \<open>
  The object ids up to 1000 are the players'; every other object gets a larger id from the counter.
\<close>

definition core_ok :: "'f core \<Rightarrow> bool" where
  "core_ok = (\<lambda>(S, fresh, players, objs, alive, nextId, queue, effects).
     (\<forall>a. S a \<noteq> None \<longrightarrow> a < fresh) \<and>
     1000 \<le> nextId \<and>
     distinct (map fst objs) \<and>
     (\<forall>(i, a) \<in> set objs. i \<le> nextId \<and> (\<exists>ty s. S a = Some (ty, i, s) \<and> (ty \<noteq> PLAYER \<longrightarrow> 1000 < i))) \<and>
     alive = int (length (filter (monster_entry S) objs)) \<and> alive \<le> 500 \<and>
     distinct (map fst players) \<and>
     (\<forall>(sid, a) \<in> set players. \<exists>i. i \<le> 1000 \<and> S a = Some (PLAYER, i, Some (sid, True))) \<and>
     (\<forall>t \<in> set queue. \<forall>a \<in> task_addrs t. is_player S a) \<and>
     distinct (map fst effects) \<and> (\<forall>(i, es) \<in> set effects. distinct (map ef_type es)))"

definition room_ok :: "'f room \<Rightarrow> bool" where
  "room_ok r \<longleftrightarrow> core_ok (core r)"

section \<open>Operations that leave the core alone\<close>

lemma obj_id_simps [simp]:
  "go_id (SetPos x y ob1) = go_id ob1" "go_id (SetVelocity F vx vy ob2) = go_id ob2"
  "go_id (SetState s e ob3) = go_id ob3" "go_id (UpdateStateExpiry now ob4) = go_id ob4"
  "pl_sessionId (SetVelocity F5 vx5 vy5 p5) = pl_sessionId p5" "pl_sessionId (SetState s e6 p6) = pl_sessionId p6"
  "level_fits (SetVelocity F7 vx7 vy7 p7) = level_fits p7" "level_fits (SetState s e8 p8) = level_fits p8"
  by (simp_all add: SetPos_def SetVelocity_def SetState_def UpdateStateExpiry_def level_fits_def)

lemma level_fits_updates [simp]:
  "level_fits (p\<lparr> go_hp := v1 \<rparr>) = level_fits p" "level_fits (p\<lparr> go_maxHp := v2 \<rparr>) = level_fits p"
  "level_fits (p\<lparr> pl_invincibleUntil := v3 \<rparr>) = level_fits p" "level_fits (p\<lparr> pl_emitters := v4 \<rparr>) = level_fits p"
  "level_fits (p\<lparr> pl_inventory := v5 \<rparr>) = level_fits p" "level_fits (p\<lparr> pl_pendingLevelUpOptions := v6 \<rparr>) = level_fits p"
  "level_fits (p\<lparr> pl_isLevelingUp := v7 \<rparr>) = level_fits p" "level_fits (p\<lparr> pl_slowedMonsterIds := v8 \<rparr>) = level_fits p"
  "level_fits (p\<lparr> pl_levelUpStartedAt := v9 \<rparr>) = level_fits p" "level_fits (p\<lparr> pl_currentRoomId := v10 \<rparr>) = level_fits p"
  "level_fits (p\<lparr> pl_isReady := v11 \<rparr>) = level_fits p" "level_fits (p\<lparr> pl_godMode := v12 \<rparr>) = level_fits p"
  "level_fits (p\<lparr> pl_lastInputTick := v13 \<rparr>) = level_fits p" "level_fits (p\<lparr> pl_facingDirX := v14 \<rparr>) = level_fits p"
  "level_fits (p\<lparr> pl_facingDirY := v15 \<rparr>) = level_fits p" "level_fits (p\<lparr> pl_name := v16 \<rparr>) = level_fits p"
  by (simp_all add: level_fits_def)

lemma obj_id_monster [simp]:
  "go_id (AddLevelUpSlow F now dur m1) = go_id m1" "go_id (RemoveLevelUpSlow m2) = go_id m2"
  "go_id (AddStatusEffect ty v dur3 now3 m3) = go_id m3" "go_id (ResetAttackCooldown now4 m4) = go_id m4"
  "go_id (snd (GetSpeed F5 m5)) = go_id m5"
  by (simp_all add: AddLevelUpSlow_def RemoveLevelUpSlow_def AddStatusEffect_def ResetAttackCooldown_def
      GetSpeed_def split_beta)

lemma extend_simps [simp]:
  "go_id (GameObject.extend b z) = go_id b"
  "pl_sessionId (GameObject.extend b (GameObject.more p)) = pl_sessionId p"
  "level_fits (GameObject.extend b (GameObject.more p)) = level_fits p"
  by (simp_all add: GameObject.extend_def level_fits_def) (cases p; simp)+

lemma shape_map_base: "(\<And>b. go_id (f b) = go_id b) \<Longrightarrow> shape (map_base f x) = shape x"
  by (cases x) simp_all

lemma heap_simps [simp]:
  "rm_heap (put a x r) b = (if b = a then Some x else rm_heap r b)"
  "rm_heap (SendToPlayer E s pkt r) = rm_heap r" "rm_heap (BroadcastPacket_except E pkt s r) = rm_heap r"
  "rm_heap (BroadcastPacket E pkt r) = rm_heap r" "rm_heap (BroadcastSpawn E1 as r1) = rm_heap r1"
  "rm_heap (BroadcastDespawn E is ps r) = rm_heap r"
  by (simp_all add: put_def sending_defs)

lemma core_field_updates [simp]:
  "core (r\<lparr> rm_out := v1 \<rparr>) = core r" "core (r\<lparr> rm_draws := v2 \<rparr>) = core r" "core (r\<lparr> rm_cells := v3 \<rparr>) = core r"
  "core (r\<lparr> rm_occupiedCells := v4 \<rparr>) = core r" "core (r\<lparr> rm_waveState := v5 \<rparr>) = core r"
  "core (r\<lparr> rm_waveTime := v6 \<rparr>) = core r" "core (r\<lparr> rm_waves := v7 \<rparr>) = core r"
  "core (r\<lparr> rm_waveIndex := v8 \<rparr>) = core r" "core (r\<lparr> rm_spawners := v9 \<rparr>) = core r"
  "core (r\<lparr> rm_timerHandle := v10 \<rparr>) = core r" "core (r\<lparr> rm_totalRunTime := v11 \<rparr>) = core r"
  "core (r\<lparr> rm_serverTick := v12 \<rparr>) = core r" "core (r\<lparr> rm_gameStarted := v13 \<rparr>) = core r"
  "core (r\<lparr> rm_isGameOver := v14 \<rparr>) = core r" "core (r\<lparr> rm_isStopping := v15 \<rparr>) = core r"
  "core (r\<lparr> rm_isUpdating := v16 \<rparr>) = core r" "core (r\<lparr> rm_playerCount := v17 \<rparr>) = core r"
  by (simp_all add: core_def shapes_def fun_eq_iff)

lemma shapes_field_updates [simp]:
  "shapes (r\<lparr> rm_effects := v1 \<rparr>) = shapes r" "shapes (r\<lparr> rm_players := v2 \<rparr>) = shapes r"
  "shapes (r\<lparr> rm_objects := v3 \<rparr>) = shapes r" "shapes (r\<lparr> rm_queue := v4 \<rparr>) = shapes r"
  "shapes (r\<lparr> rm_aliveMonsterCount := v5 \<rparr>) = shapes r" "shapes (r\<lparr> rm_timerHandle := v6 \<rparr>) = shapes r"
  "shapes (r\<lparr> rm_playerCount := v7 \<rparr>) = shapes r"
  by (simp_all add: shapes_def fun_eq_iff)

lemma core_put [simp]:
  "map_option shape (rm_heap r a) = Some (shape x) \<Longrightarrow> core (put a x r) = core r"
  by (auto simp: core_def shapes_def put_def fun_eq_iff)

lemma core_sending [simp]:
  "core (SendToPlayer E s pkt r) = core r" "core (BroadcastPacket_except E pkt s r) = core r"
  "core (BroadcastPacket E pkt r) = core r" "core (BroadcastSpawn E1 as r1) = core r1"
  "core (BroadcastDespawn E is ps r) = core r"
  by (simp_all add: sending_defs)

lemma core_draw [simp]: "core (snd (draw E r)) = core r" "core (snd (draw_range E1 lo hi r1)) = core r1"
  by (simp_all add: draw_def draw_range_def)

lemma core_upd [simp]:
  "(\<And>m. go_id (f m) = go_id m) \<Longrightarrow> core (upd_monster a f r) = core r"
  "(\<And>p. go_id (g p) = go_id p) \<Longrightarrow> (\<And>p. pl_sessionId (g p) = pl_sessionId p) \<Longrightarrow> (\<And>p. level_fits (g p) = level_fits p) \<Longrightarrow>
    core (upd_player a g r) = core r"
  "(\<And>q. go_id (h q) = go_id q) \<Longrightarrow> core (upd_projectile a h r) = core r"
  "(\<And>d. go_id (k d) = go_id d) \<Longrightarrow> core (upd_gem a k r) = core r"
  by (auto simp: upd_monster_def upd_player_def upd_projectile_def upd_gem_def split: option.split obj.split)

lemma player_atD: "player_at r a = Some p \<Longrightarrow> rm_heap r a = Some (PlayerObj p)"
  by (auto simp: player_at_def split: option.splits obj.splits)

lemma lookupD: "lookup r i = Some (a, x) \<Longrightarrow> rm_heap r a = Some x"
  by (auto simp: lookup_def split: option.splits)

lemma core_fold: "(\<And>x r. core (f x r) = core r) \<Longrightarrow> core (fold f xs r) = core r"
  by (induction xs arbitrary: r) auto

lemma core_release_slow [simp]: "core (release_slow i r) = core r"
  by (auto simp: release_slow_def dest!: lookupD split: option.split obj.split)

lemma core_move_by:
  assumes "map_option shape (rm_heap r a) = Some (shape (MonsterObj m))"
  shows "core (move_by E s a tx ty m r) = core r"
proof -
  obtain v m1 r1 where c: "CalculateMovement E s a tx ty m r = (v, m1, r1)" by (metis prod_cases3)
  have "moves_only m m1" "reserves_only r r1" using CalculateMovement_frame(1) [of m E s a tx ty r] CalculateMovement_frame(2) [of r E s a tx ty m] c by simp_all
  then show ?thesis using assms by (auto simp: move_by_def c split_beta moves_only_def reserves_only_def)
qed

lemma core_boss_chase:
  "map_option shape (rm_heap r a) = Some (shape (MonsterObj m)) \<Longrightarrow> core (boss_chase E a m r) = core r"
  by (auto simp: boss_chase_def Let_def split_beta split: option.split)

lemma draw_range_heap [simp]: "rm_heap (snd (draw_range E lo hi r)) = rm_heap r"
  by (simp add: draw_range_def)

lemmas think_defs = Chaser_Think_def Wander_Think_def Swarm_Think_def

lemmas execute_defs = Chaser_Execute_def Wander_Execute_def Swarm_Execute_def halt_def

lemma core_Think [simp]: "core (Think E a now r) = core r"
  by (auto simp: Think_def think_defs Let_def split_beta core_boss_chase split: option.split obj.split behaviour.split)

lemma core_Execute [simp]: "core (Execute E a r) = core r"
  by (auto simp: Execute_def execute_defs Let_def split_beta core_move_by split: option.split obj.split behaviour.split)

lemma core_Monster_Update [simp]: "core (Monster_Update E dt a r) = core r"
  by (auto simp: Monster_Update_def Let_def split: option.split obj.split)

lemma core_Projectile_Update [simp]: "core (Projectile_Update E dt a r) = core r"
  unfolding Projectile_Update_def
  by (rule core_upd(3)) (auto simp: UpdateLinear_def UpdateOrbit_def Let_def split_beta split: option.split)

lemma core_Player_TakeDamage [simp]: "core (Player_TakeDamage E d a r) = core r"
  by (auto simp: Player_TakeDamage_def SetInvincible_def Let_def dest!: player_atD split: option.split)

lemma fold_apply_skill [simp]:
  "go_id (fold apply_skill skills p) = go_id p" "pl_sessionId (fold apply_skill skills p) = pl_sessionId p"
  "level_fits (fold apply_skill skills p) = level_fits p"
  by (induction skills arbitrary: p) (simp_all add: apply_skill_def Let_def)

lemma core_ApplySkills [simp]: "core (ApplySkills E skills a r) = core r"
  by (auto simp: ApplySkills_def Let_def dest!: player_atD split: option.split)

lemma core_SyncInventory [simp]: "core (SyncInventory E a r) = core r" "rm_heap (SyncInventory E a r) = rm_heap r"
  by (auto simp: SyncInventory_def split: option.split)

lemma refresh_hp_id [simp]: "go_id (refresh_hp E p) = go_id p" "pl_sessionId (refresh_hp E p) = pl_sessionId p"
  "level_fits (refresh_hp E p) = level_fits p"
  by (simp_all add: refresh_hp_def Let_def)

lemma core_RefreshInventoryEffects [simp]: "core (RefreshInventoryEffects E a r) = core r"
  by (auto simp: RefreshInventoryEffects_def Let_def dest!: player_atD split: option.split)

lemma core_AddDefaultSkills [simp]: "core (AddDefaultSkills E skills a r) = core r"
  by (simp add: AddDefaultSkills_def)

lemma core_CheckWeaponEvolutions [simp]: "core (CheckWeaponEvolutions E a r) = core r"
  by (auto simp: CheckWeaponEvolutions_def Let_def dest!: player_atD split: option.split)

lemma core_ApplySelection [simp]: "core (ApplySelection E a idx r) = core r"
  by (auto simp: ApplySelection_def Let_def split_beta dest!: player_atD split: option.split)

lemma core_knock_back [simp]: "core (knock_back E px py m r) = core r"
  by (auto simp: knock_back_def Let_def split: option.split obj.split)

lemma core_EnterLevelUpState [simp]: "core (EnterLevelUpState E a r) = core r"
  by (auto simp: EnterLevelUpState_def Let_def core_fold dest!: player_atD split: option.split)

lemma core_ExitLevelUpState [simp]: "core (ExitLevelUpState E a r) = core r"
  by (auto simp: ExitLevelUpState_def Let_def core_fold split: option.split)

lemma AddExp_core:
  assumes "shapes r a = Some (PLAYER, i, Some (sid, True))"
  shows "\<exists>r'. AddExp E dis n a r = Some r' \<and> core r' = core r"
proof -
  obtain p where p: "rm_heap r a = Some (PlayerObj p)" "level_fits p"
    using assms by (auto simp: shapes_def elim: shape.elims)
  then have p': "player_at r a = Some p" and l: "1 \<le> pl_plevel p" "pl_maxExp p = threshold (pl_plevel p)"
    by (simp_all add: player_at_def level_fits_def)
  obtain e l' where e: "exp_loop (pl_exp p + n) (pl_maxExp p) (pl_plevel p) = Some (e, threshold l', l')" "pl_plevel p \<le> l'"
    using exp_loop_returns [OF l(1), of "pl_exp p + n"] l(2) by auto
  have fits: "level_fits (p\<lparr> pl_exp := e, pl_maxExp := threshold l', pl_plevel := l' \<rparr>)"
    using l(1) e(2) by (simp add: level_fits_def)
  then show ?thesis using p p' e(1) by (auto simp: AddExp_def Let_def)
qed

lemma core_slow_loop [simp]: "core (snd (snd (slow_loop E ms acc))) = core (snd (snd acc))"
proof -
  have "core (snd (snd (slow_loop E ms (slowed, moves, r)))) = core r" for slowed moves r
    by (induction ms arbitrary: slowed moves r) (auto simp: Let_def split: option.split obj.split)
  then show ?thesis by (cases acc) simp
qed

lemma core_leave_loop [simp]: "core (snd (snd (leave_loop inRange js mr))) = core (snd mr)"
proof -
  have "core (snd (snd (leave_loop inRange js (moves, r)))) = core r" for moves r
    by (induction js arbitrary: moves r) (auto simp: Let_def split_beta dest!: lookupD split: option.split obj.split)
  then show ?thesis by (cases mr) simp
qed

lemma core_level_up_aura [simp]: "core (level_up_aura E a r) = core r"
  by (simp add: level_up_aura_def Let_def split_beta split: option.split)

section \<open>Operations that create objects\<close>

lemma room_okI: "core r' = core r \<Longrightarrow> room_ok r \<Longrightarrow> room_ok r'"
  by (simp add: room_ok_def)

lemma room_okD:
  assumes "room_ok r"
  shows "\<And>a. shapes r a \<noteq> None \<Longrightarrow> a < rm_fresh r" "1000 \<le> rm_nextId r" "distinct (map fst (rm_objects r))"
    "\<And>i a. (i, a) \<in> set (rm_objects r) \<Longrightarrow> i \<le> rm_nextId r"
    "\<And>i a. (i, a) \<in> set (rm_objects r) \<Longrightarrow> \<exists>ty s. shapes r a = Some (ty, i, s) \<and> (ty \<noteq> PLAYER \<longrightarrow> 1000 < i)"
    "rm_aliveMonsterCount r = int (length (filter (monster_entry (shapes r)) (rm_objects r)))"
    "rm_aliveMonsterCount r \<le> 500" "distinct (map fst (rm_players r))"
    "\<And>sid a. (sid, a) \<in> set (rm_players r) \<Longrightarrow> \<exists>i. i \<le> 1000 \<and> shapes r a = Some (PLAYER, i, Some (sid, True))"
    "\<And>t a. t \<in> set (rm_queue r) \<Longrightarrow> a \<in> task_addrs t \<Longrightarrow> is_player (shapes r) a"
    "effects_ok r"
  using assms by (fastforce simp: room_ok_def core_ok_def core_def effects_ok_def)+

lemma room_ok_intro:
  assumes "\<And>a. shapes r a \<noteq> None \<Longrightarrow> a < rm_fresh r" "1000 \<le> rm_nextId r" "distinct (map fst (rm_objects r))"
    "\<And>i a. (i, a) \<in> set (rm_objects r) \<Longrightarrow> i \<le> rm_nextId r"
    "\<And>i a. (i, a) \<in> set (rm_objects r) \<Longrightarrow> \<exists>ty s. shapes r a = Some (ty, i, s) \<and> (ty \<noteq> PLAYER \<longrightarrow> 1000 < i)"
    "rm_aliveMonsterCount r = int (length (filter (monster_entry (shapes r)) (rm_objects r)))"
    "rm_aliveMonsterCount r \<le> 500" "distinct (map fst (rm_players r))"
    "\<And>sid a. (sid, a) \<in> set (rm_players r) \<Longrightarrow> \<exists>i. i \<le> 1000 \<and> shapes r a = Some (PLAYER, i, Some (sid, True))"
    "\<And>t a. t \<in> set (rm_queue r) \<Longrightarrow> a \<in> task_addrs t \<Longrightarrow> is_player (shapes r) a"
    "effects_ok r"
  shows "room_ok r"
  unfolding room_ok_def core_ok_def core_def prod.case
  using assms by (intro conjI ballI allI impI) (auto simp: effects_ok_def)

text \<open>New objects do not disturb what refers to old ones.\<close>

lemma monster_entries_cong:
  assumes "room_ok r" "\<And>a y. shapes r a = Some y \<Longrightarrow> shapes r' a = Some y"
  shows "filter (monster_entry (shapes r')) (rm_objects r) = filter (monster_entry (shapes r)) (rm_objects r)"
proof (rule filter_cong [OF refl])
  fix e assume "e \<in> set (rm_objects r)"
  then obtain ty s where "shapes r (snd e) = Some (ty, fst e, s)"
    using room_okD(5) [OF assms(1), of "fst e" "snd e"] by auto
  with assms(2) [OF this] show "monster_entry (shapes r') e = monster_entry (shapes r) e"
    by (simp add: monster_entry_def)
qed

lemma update_new: "k \<notin> fst ` set al \<Longrightarrow> AList.update k v al = al @ [(k, v)]"
  by (induction al) auto

lemma new_obj_ok:
  assumes "room_ok r"
  shows "room_ok (snd (new_obj x r))"
proof -
  note ok = room_okD [OF assms]
  define r' where "r' = snd (new_obj x r)"
  have S: "shapes r' a = (if a = rm_fresh r then Some (shape x) else shapes r a)" for a
    by (simp add: r'_def new_obj_def put_def shapes_def)
  have old: "shapes r a = Some y \<Longrightarrow> shapes r' a = Some y" for a y
    using ok(1) [of a] by (auto simp: S)
  have f: "rm_objects r' = rm_objects r" "rm_players r' = rm_players r" "rm_queue r' = rm_queue r"
    "rm_effects r' = rm_effects r" "rm_aliveMonsterCount r' = rm_aliveMonsterCount r" "rm_nextId r' = rm_nextId r"
    "rm_fresh r' = Suc (rm_fresh r)"
    by (simp_all add: r'_def new_obj_def put_def)
  have "room_ok r'"
  proof (rule room_ok_intro, unfold f)
    show "shapes r' a \<noteq> None \<Longrightarrow> a < Suc (rm_fresh r)" for a using ok(1) [of a] by (auto simp: S less_Suc_eq split: if_splits)
    show "(i, a) \<in> set (rm_objects r) \<Longrightarrow> \<exists>ty s. shapes r' a = Some (ty, i, s) \<and> (ty \<noteq> PLAYER \<longrightarrow> 1000 < i)" for i a
      using ok(5) [of i a] old by blast
    show "rm_aliveMonsterCount r = int (length (filter (monster_entry (shapes r')) (rm_objects r)))"
      using ok(6) monster_entries_cong [OF assms old] by simp
    show "(sid, a) \<in> set (rm_players r) \<Longrightarrow> \<exists>i. i \<le> 1000 \<and> shapes r' a = Some (PLAYER, i, Some (sid, True))" for sid a
      using ok(9) [of sid a] old by blast
    show "t \<in> set (rm_queue r) \<Longrightarrow> a \<in> task_addrs t \<Longrightarrow> is_player (shapes r') a" for t a
      using ok(10) [of t a] old unfolding is_player_def by blast
    show "effects_ok r'" using ok(11) by (simp add: effects_ok_def f)
  qed (use ok in auto)
  then show ?thesis by (simp add: r'_def)
qed

text \<open>A new object with the next id enters the table.\<close>

lemma spawn_ok:
  assumes "room_ok r" "shape x = (ty, rm_nextId r + 1, None)" "ty \<noteq> PLAYER" "ty = MONSTER \<longrightarrow> rm_aliveMonsterCount r < 500"
  shows "room_ok (AddObject (rm_fresh r) (snd (new_obj x (snd (GenerateId r)))))"
proof -
  define r1 where "r1 = snd (new_obj x r)"
  define r' where "r' = AddObject (rm_fresh r) (snd (new_obj x (snd (GenerateId r))))"
  note ok = room_okD [OF assms(1)] and ok1 = room_okD [OF new_obj_ok [OF assms(1), of x], folded r1_def]
  have S: "shapes r' = shapes r1"
    by (simp add: r1_def r'_def new_obj_def put_def shapes_def AddObject_def GenerateId_def fun_eq_iff)
  have new: "shapes r1 (rm_fresh r) = Some (shape x)"
    by (simp add: r1_def new_obj_def put_def shapes_def)
  have id: "obj_id x = rm_nextId r + 1" "GetType x = ty" using assms(2) by (cases x; auto)+
  have notin: "rm_nextId r + 1 \<notin> fst ` set (rm_objects r)" using ok(4) by fastforce
  have f: "rm_objects r' = rm_objects r @ [(rm_nextId r + 1, rm_fresh r)]" "rm_players r' = rm_players r"
    "rm_queue r' = rm_queue r" "rm_effects r' = rm_effects r" "rm_nextId r' = rm_nextId r + 1"
    "rm_aliveMonsterCount r' = rm_aliveMonsterCount r + (if ty = MONSTER then 1 else 0)"
    "rm_fresh r' = Suc (rm_fresh r)"
    by (simp_all add: r'_def new_obj_def put_def AddObject_def GenerateId_def id update_new [OF notin])
  have o1: "rm_objects r1 = rm_objects r" "rm_players r1 = rm_players r" "rm_queue r1 = rm_queue r"
    "rm_effects r1 = rm_effects r" "rm_fresh r1 = Suc (rm_fresh r)" "rm_nextId r1 = rm_nextId r"
    "rm_aliveMonsterCount r1 = rm_aliveMonsterCount r"
    by (simp_all add: r1_def new_obj_def put_def)
  have "room_ok r'"
  proof (rule room_ok_intro, unfold f S)
    show "(i, a) \<in> set (rm_objects r @ [(rm_nextId r + 1, rm_fresh r)]) \<Longrightarrow>
        \<exists>ty s. shapes r1 a = Some (ty, i, s) \<and> (ty \<noteq> PLAYER \<longrightarrow> 1000 < i)" for i a
      using ok1(5) [of i a] ok(2) new assms(2) by (auto simp: o1)
    show "rm_aliveMonsterCount r + (if ty = MONSTER then 1 else 0) =
        int (length (filter (monster_entry (shapes r1)) (rm_objects r @ [(rm_nextId r + 1, rm_fresh r)])))"
      using ok1(6) new assms(2) by (auto simp: o1 monster_entry_def)
    show "effects_ok r'" using ok(11) by (simp add: effects_ok_def f)
    show "distinct (map fst (rm_objects r @ [(rm_nextId r + 1, rm_fresh r)]))" using ok(3) notin by simp
    show "(i, a) \<in> set (rm_objects r @ [(rm_nextId r + 1, rm_fresh r)]) \<Longrightarrow> i \<le> rm_nextId r + 1" for i a
      using ok(4) [of i a] by auto
    show "rm_aliveMonsterCount r + (if ty = MONSTER then 1 else 0) \<le> 500" using ok(7) assms(4) by auto
  qed (use ok1 in \<open>auto simp: o1\<close>)
  then show ?thesis by (simp add: r'_def)
qed

lemma room_ok_simps [simp]:
  "map_option shape (rm_heap r a) = Some (shape x) \<Longrightarrow> room_ok (put a x r) = room_ok r"
  "room_ok (SendToPlayer E s pkt r) = room_ok r" "room_ok (BroadcastPacket_except E pkt s r) = room_ok r"
  "room_ok (BroadcastPacket E pkt r) = room_ok r" "room_ok (BroadcastSpawn E1 as r1) = room_ok r1"
  "room_ok (BroadcastDespawn E is ps r) = room_ok r"
  "(\<And>m. go_id (f m) = go_id m) \<Longrightarrow> room_ok (upd_monster a f r) = room_ok r"
  "(\<And>p. go_id (g p) = go_id p) \<Longrightarrow> (\<And>p. pl_sessionId (g p) = pl_sessionId p) \<Longrightarrow> (\<And>p. level_fits (g p) = level_fits p) \<Longrightarrow>
    room_ok (upd_player a g r) = room_ok r"
  "(\<And>d. go_id (k d) = go_id d) \<Longrightarrow> room_ok (upd_gem a k r) = room_ok r"
  by (simp_all add: room_ok_def)

lemma drop_gem_ok [simp]: "room_ok r \<Longrightarrow> room_ok (drop_gem E x y r)"
  using spawn_ok [of r "GemObj (Gem_Initialize (rm_nextId r + 1) x y 10 (new_gem (ge_F E) (rm_nextId r + 1) 10))" ITEM]
  by (simp add: drop_gem_def new_obj_def GenerateId_def Gem_Initialize_def Let_def)

lemma Monster_TakeDamage_ok [simp]: "room_ok r \<Longrightarrow> room_ok (Monster_TakeDamage E d a r)"
  by (auto simp: Monster_TakeDamage_def Let_def intro!: drop_gem_ok split: option.split obj.split)

lemma TakeDamage_ok [simp]: "room_ok r \<Longrightarrow> room_ok (TakeDamage E d a r)"
  by (auto simp: TakeDamage_def room_okI [OF core_Player_TakeDamage] split: option.split obj.split)

lemma launch_ok:
  assumes "\<And>q. go_id (configure q) = go_id q" "room_ok r"
  shows "room_ok (launch E p e x y vx vy d life configure r)"
proof -
  let ?q = "case ge_popProjectile E (rm_fresh r) of None \<Rightarrow> new_projectile (ge_F E) | Some q \<Rightarrow> Projectile_Reset (ge_F E) q"
  let ?p1 = "SetVelocity (ge_F E) vx vy (SetPos x y
    (Projectile_Initialize (ge_F E) (rm_nextId r + 1) (go_id p) (de_skillId e) (de_typeId e) ?q))"
  have "shape (ProjectileObj (configure (?p1\<lparr> pr_damage := d, pr_lifetime := life \<rparr>))) = (PROJECTILE, rm_nextId r + 1, None)"
    by (simp add: assms(1) Projectile_Initialize_def)
  from spawn_ok [OF assms(2) this]
  show ?thesis by (simp add: launch_def CreateProjectile_def new_obj_def GenerateId_def split_beta Let_def)
qed

lemma strike_ok [simp]: "room_ok r \<Longrightarrow> room_ok (strike E d eff m r)"
  by (auto simp: strike_def Let_def split_beta)

lemma strike_loop_ok [simp]: "room_ok r \<Longrightarrow> room_ok (snd (strike_loop E ok d eff k ms r))"
  by (induction E ok d eff k ms r rule: strike_loop.induct)
    (auto simp: Let_def split_beta split: option.split obj.split)

lemma zone_loop_ok [simp]: "room_ok r \<Longrightarrow> room_ok (snd (zone_loop E p d e ms r))"
  by (induction ms arbitrary: r) (auto simp: Let_def split_beta split: option.split obj.split)

lemma send_hits_ok [simp]: "room_ok (send_hits E s ids d crits r) = room_ok r"
  by (simp add: send_hits_def)

lemma field_step_ok [simp]: "room_ok r \<Longrightarrow> room_ok (snd (field_step E dt p st interval e r))"
  by (auto simp: field_step_def Let_def split_beta)

lemma fold_ok: "(\<And>x r. x \<in> set xs \<Longrightarrow> room_ok r \<Longrightarrow> room_ok (f x r)) \<Longrightarrow> room_ok r \<Longrightarrow> room_ok (fold f xs r)"
  by (induction xs arbitrary: r) auto

lemma fire_linear_ok: "room_ok r \<Longrightarrow> room_ok (fire_linear E p st d e r)"
  unfolding fire_linear_def Let_def by (rule fold_ok) (auto intro!: launch_ok)

lemma fire_orbit_ok: "room_ok r \<Longrightarrow> room_ok (fire_orbit E p st d e r)"
  unfolding fire_orbit_def Let_def by (rule fold_ok) (auto intro!: launch_ok simp: SetOrbit_def)

lemma fire_zone_ok: "room_ok r \<Longrightarrow> room_ok (fire_zone E p st d radius e r)"
  by (auto simp: fire_zone_def Let_def split_beta intro!: zone_loop_ok room_okI [OF core_field_updates(2)])

lemma fire_box_ok [simp]: "room_ok r \<Longrightarrow> room_ok (fire_box E p st d e dir w h r)"
  by (simp add: fire_box_def Let_def split_beta)

lemma fire_directional_ok: "room_ok r \<Longrightarrow> room_ok (fire_directional E p st d e r)"
  by (simp add: fire_directional_def Let_def)

lemma draw_ok [simp]: "room_ok (snd (draw E r)) = room_ok r" "room_ok (snd (draw_range E' lo hi r')) = room_ok r'"
  by (simp_all add: room_ok_def)

lemma fire_arc_ok: "room_ok r \<Longrightarrow> room_ok (fire_arc E p st d radius e r)"
  by (simp add: fire_arc_def Let_def split_beta)

lemma fire_area_ok [simp]: "room_ok r \<Longrightarrow> room_ok (fire_area E p st d radius k e vs r)"
  by (simp add: fire_area_def Let_def split_beta)

lemma fire_ok [simp]: "room_ok r \<Longrightarrow> room_ok (fire E p st e r)"
  by (simp add: fire_def Let_def fire_linear_ok fire_orbit_ok fire_zone_ok fire_directional_ok fire_arc_ok
      fire_aura_def fire_aoe_def)

lemma Emitter_Update_ok [simp]: "room_ok r \<Longrightarrow> room_ok (snd (Emitter_Update E dt e r))"
  by (simp add: Emitter_Update_def Let_def split: option.split)

lemma emitter_loop_ok [simp]: "room_ok r \<Longrightarrow> room_ok (emitter_loop E dt a js r)"
  by (induction E dt a js r rule: emitter_loop.induct) (simp_all add: Let_def split_beta split: option.split)

lemma Player_Update_ok [simp]: "room_ok r \<Longrightarrow> room_ok (Player_Update E dt a r)"
  by (simp add: Player_Update_def Let_def room_okI [OF core_level_up_aura] split: option.split)

lemma object_update_ok [simp]: "room_ok r \<Longrightarrow> room_ok (object_update E dt a r)"
  by (simp add: object_update_def room_okI [OF core_Monster_Update] room_okI [OF core_Projectile_Update]
      split: option.split obj.split)

lemma move_object_ok [simp]: "room_ok (move_object F tm dt a r) = room_ok r"
  by (auto simp: move_object_def shape_map_base split: option.split)

lemma ProcessDotDamage_ok [simp]: "room_ok r \<Longrightarrow> room_ok (ProcessDotDamage E i e r)"
  by (simp add: ProcessDotDamage_def split: option.split)

lemma due_damage_ok [simp]: "room_ok r \<Longrightarrow> room_ok (fold (\<lambda>(i, e). ProcessDotDamage E i e) ds r)"
  by (induction ds arbitrary: r) (simp_all add: split_beta)

lemma with_effects_ok:
  assumes "room_ok r" "distinct (map fst tab)" "\<And>i es. (i, es) \<in> set tab \<Longrightarrow> distinct (map ef_type es)"
  shows "room_ok (r\<lparr> rm_effects := tab \<rparr>)"
  using assms by (simp add: room_ok_def core_ok_def core_def) blast

lemma touched_type [simp]: "ef_type (touched now e) = ef_type e"
  by (simp add: touched_def)

lemma updated_effects_ok:
  assumes "distinct (map fst tab)" "\<forall>(i, es) \<in> set tab. distinct (map ef_type es)"
  shows "distinct (map fst (updated_effects now tab))"
    "(i, es) \<in> set (updated_effects now tab) \<Longrightarrow> distinct (map ef_type es)"
proof -
  have "map fst (map (\<lambda>(i, es). (i, filter (\<lambda>e. \<not> Effect_IsExpired now e) (map (touched now) es))) tab) = map fst tab"
    by (simp add: comp_def split_beta)
  then show "distinct (map fst (updated_effects now tab))"
    unfolding updated_effects_def using assms(1) distinct_map_filter by metis
  have "distinct (map ef_type (filter P (map (touched now) es')))" if "distinct (map ef_type es')" for P es'
    using that by (auto simp: distinct_map_filter comp_def)
  then show "(i, es) \<in> set (updated_effects now tab) \<Longrightarrow> distinct (map ef_type es)"
    using assms(2) by (auto simp: updated_effects_def)
qed

lemma Effects_Update_ok [simp]:
  assumes "room_ok r"
  shows "room_ok (Effects_Update E now r)"
proof -
  have ok: "distinct (map fst (rm_effects r))" "\<forall>(i, es) \<in> set (rm_effects r). distinct (map ef_type es)"
    using room_okD(11) [OF assms] by (simp_all add: effects_ok_def)
  show ?thesis
    unfolding effects_update_eq [OF ok(1)]
    by (rule with_effects_ok) (simp_all add: assms updated_effects_ok [OF ok])
qed

section \<open>Waves\<close>

lemma core_pop_monster [simp]: "core (snd (pop_monster E r)) = core r"
  by (simp add: pop_monster_def split_beta split: option.split)

lemma coreD: "core r' = core r \<Longrightarrow> rm_aliveMonsterCount r' = rm_aliveMonsterCount r \<and> rm_fresh r' = rm_fresh r \<and>
    rm_nextId r' = rm_nextId r \<and> rm_players r' = rm_players r \<and> rm_objects r' = rm_objects r \<and> shapes r' = shapes r"
  by (simp add: core_def)

lemma CreateMonster_ok:
  assumes "room_ok r" "rm_aliveMonsterCount r < 500" "CreateMonster E ty x y hp r = (Some a, r1)"
  shows "room_ok (AddObject a r1)"
proof -
  define r0 where "r0 = snd (pop_monster E r)"
  have c: "core r0 = core r" by (simp add: r0_def)
  obtain t where t: "GetMonsterInfo (ge_dm E) ty = Some t"
    using assms(3) by (auto simp: CreateMonster_def split: option.splits)
  obtain m where m: "a = rm_fresh r0" "r1 = snd (new_obj (MonsterObj m) (snd (GenerateId r0)))" "go_id m = rm_nextId r0 + 1"
    using assms(3) by (auto simp: CreateMonster_def t Let_def split_beta GenerateId_def new_obj_def r0_def Monster_Initialize_def)
  show ?thesis
    unfolding m(1,2) using assms(1,2) c coreD [OF c] m(3)
    by (intro spawn_ok [where ty = MONSTER]) (auto simp: room_ok_def)
qed

lemma CreateMonster_None: "CreateMonster E ty x y hp r = (None, r1) \<Longrightarrow> r1 = r"
  by (auto simp: CreateMonster_def Let_def split_beta split: option.splits)

lemma SpawnMonster_ok [simp]: "room_ok r \<Longrightarrow> room_ok (SpawnMonster E ty hm x y r)"
  by (auto simp: SpawnMonster_def GetAliveMonsterCount_def MAX_MONSTERS_PER_ROOM_def Let_def
      intro!: CreateMonster_ok dest: CreateMonster_None split: option.split obj.split prod.split)

lemma spawn_pos_ok [simp]: "room_ok (snd (GetAngularGapSpawnPos E c r)) = room_ok r"
  by (simp add: GetAngularGapSpawnPos_def spawn_angle_def Let_def split_beta)

lemma spawn_n_ok [simp]: "room_ok r \<Longrightarrow> room_ok (spawn_n E ty hm c n r)"
proof (induction n arbitrary: r)
  case (Suc n)
  obtain x y r1 where p: "GetAngularGapSpawnPos E c r = ((x, y), r1)" by (metis surj_pair)
  have "room_ok r1" using Suc.prems spawn_pos_ok [of E c r] p by simp
  then show ?case using Suc.IH p by simp
qed simp

lemma cluster_loop_ok [simp]: "room_ok r \<Longrightarrow> room_ok (cluster_loop E ty hm hc batch cs rest r)"
  by (induction cs arbitrary: rest r) (simp_all add: Let_def)

lemma run_spawner_ok [simp]: "room_ok r \<Longrightarrow> room_ok (snd (run_spawner E dt cs hc s r))"
  by (simp add: run_spawner_def Let_def)

lemma spawner_loop_ok [simp]: "room_ok r \<Longrightarrow> room_ok (snd (spawner_loop E dt cs hc ss r))"
  by (induction ss arbitrary: r) (simp_all add: Let_def split_beta)

lemma room_ok_fields [simp]:
  "room_ok (r\<lparr> rm_out := v1 \<rparr>) = room_ok r" "room_ok (r\<lparr> rm_draws := v2 \<rparr>) = room_ok r"
  "room_ok (r\<lparr> rm_cells := v3 \<rparr>) = room_ok r" "room_ok (r\<lparr> rm_occupiedCells := v4 \<rparr>) = room_ok r"
  "room_ok (r\<lparr> rm_waveState := v5 \<rparr>) = room_ok r" "room_ok (r\<lparr> rm_waveTime := v6 \<rparr>) = room_ok r"
  "room_ok (r\<lparr> rm_waves := v7 \<rparr>) = room_ok r" "room_ok (r\<lparr> rm_waveIndex := v8 \<rparr>) = room_ok r"
  "room_ok (r\<lparr> rm_spawners := v9 \<rparr>) = room_ok r" "room_ok (r\<lparr> rm_timerHandle := v10 \<rparr>) = room_ok r"
  "room_ok (r\<lparr> rm_totalRunTime := v11 \<rparr>) = room_ok r" "room_ok (r\<lparr> rm_serverTick := v12 \<rparr>) = room_ok r"
  "room_ok (r\<lparr> rm_gameStarted := v13 \<rparr>) = room_ok r" "room_ok (r\<lparr> rm_isGameOver := v14 \<rparr>) = room_ok r"
  "room_ok (r\<lparr> rm_isStopping := v15 \<rparr>) = room_ok r" "room_ok (r\<lparr> rm_isUpdating := v16 \<rparr>) = room_ok r"
  "room_ok (r\<lparr> rm_playerCount := v17 \<rparr>) = room_ok r"
  by (simp_all add: room_ok_def)

lemma wave_loop_ok [simp]: "room_ok (wave_loop E n r) = room_ok r"
  by (induction n arbitrary: r) (simp_all add: Let_def StartSpawner_def)

lemma Waves_Update_ok [simp]: "room_ok r \<Longrightarrow> room_ok (Waves_Update E dt r)"
  by (simp add: Waves_Update_def Let_def split_beta)

lemma funpow_ok:
  fixes f :: "'f room \<Rightarrow> 'f room"
  shows "(\<And>r. room_ok r \<Longrightarrow> room_ok (f r)) \<Longrightarrow> room_ok r \<Longrightarrow> room_ok ((f ^^ n) r)"
  by (induction n arbitrary: r) auto

lemma debug_spawn_loop_ok [simp]: "room_ok r \<Longrightarrow> room_ok (debug_spawn_loop E ty cs n r)"
proof (induction n arbitrary: r)
  case (Suc n)
  let ?c = "cs ! nat (fst (NextInt 0 (int (length cs) - 1) (ge_rng E (rm_draws r))))"
  let ?r = "r\<lparr> rm_draws := Suc (rm_draws r) \<rparr>"
  obtain x y r1 where p: "GetAngularGapSpawnPos E ?c ?r = ((x, y), r1)" by (metis surj_pair)
  have "room_ok r1" using Suc.prems spawn_pos_ok [of E ?c ?r] p by simp
  then show ?case using Suc.IH p by (simp add: Let_def)
qed simp

lemma DebugSpawn_ok [simp]: "room_ok r \<Longrightarrow> room_ok (DebugSpawn E ty n r)"
  by (simp add: DebugSpawn_def Let_def funpow_ok)

section \<open>Combat\<close>

lemma Post_task_ok [simp]: "task_addrs t = {} \<Longrightarrow> room_ok (Post_task t r) = room_ok r"
  by (auto simp: room_ok_def core_ok_def core_def Post_task_def)

lemma task_addrs_simps [simp]:
  "task_addrs DoStop = {}" "task_addrs DoStartGame = {}" "task_addrs DoReset = {}" "task_addrs DoUpdate = {}"
  "task_addrs (DoReady sid) = {}" "task_addrs (DoLeave sid) = {}" "task_addrs (DoGameOver w) = {}"
  "task_addrs (DoAddExp n) = {}" "task_addrs (DoSpawn ty n) = {}" "task_addrs DoGodMode = {}"
  "task_addrs (DoStrategy s) = {}" "task_addrs (DoInput a tick dx dy) = {}" "task_addrs (DoSelect a idx) = {}"
  "task_addrs (DoEnter a) = {a}" "task_addrs (DoSkills a skills) = {a}"
  by (simp_all add: task_addrs_def)

lemma HandleGameOver_ok [simp]: "room_ok (ExecuteHandleGameOver E w r) = room_ok r" "room_ok (HandleGameOver E w r) = room_ok r"
  by (simp_all add: HandleGameOver_def ExecuteHandleGameOver_def)

lemma ApplyEffect_ok [simp]:
  assumes "room_ok r"
  shows "room_ok (ApplyEffect i e r)"
proof -
  have ok: "effects_ok r" using room_okD(11) [OF assms] .
  have "effects_ok (ApplyEffect i e r)"
    unfolding ApplyEffect_def using set_effects_ok [OF ok] apply_to_types [OF effects_ok_of [OF ok]] by blast
  then show ?thesis
    unfolding ApplyEffect_def set_effects_def using assms
    by (intro with_effects_ok) (auto simp: effects_ok_def)
qed

lemma skill_effect_ok [simp]: "room_ok r \<Longrightarrow> room_ok (skill_effect E pr m mid r)"
  by (simp add: skill_effect_def Let_def split: option.split)

lemma roll_crit_ok [simp]: "room_ok (snd (roll_crit E pr r)) = room_ok r"
  by (simp add: roll_crit_def Let_def split_beta split: option.split)

text \<open>Damage to a monster leaves a projectile in place.\<close>

lemma drop_gem_heap:
  "a < rm_fresh r \<Longrightarrow> rm_heap (drop_gem E x y r) a = rm_heap r a"
  by (simp add: drop_gem_def new_obj_def GenerateId_def put_def AddObject_def Let_def)

lemma fresh_put [simp]: "rm_fresh (put a x r) = rm_fresh r" "rm_fresh (BroadcastPacket E pkt r) = rm_fresh r"
  by (simp_all add: put_def sending_defs)

lemma Monster_TakeDamage_heap:
  "a < rm_fresh r \<Longrightarrow> a \<noteq> m \<Longrightarrow> rm_heap (Monster_TakeDamage E d m r) a = rm_heap r a"
  by (auto simp: Monster_TakeDamage_def Let_def drop_gem_heap split: option.split obj.split)

lemma skill_effect_heap: "a \<noteq> m \<Longrightarrow> rm_heap (skill_effect E pr m mid r) a = rm_heap r a"
  "rm_fresh (skill_effect E pr m mid r) = rm_fresh r"
  by (auto simp: skill_effect_def Let_def upd_monster_def ApplyEffect_def set_effects_def split: option.split obj.split)

lemma roll_crit_heap [simp]: "rm_heap (snd (roll_crit E pr r)) = rm_heap r" "rm_fresh (snd (roll_crit E pr r)) = rm_fresh r"
  by (simp_all add: roll_crit_def draw_def Let_def split_beta split: option.split)

lemma OnHit_id [simp]: "go_id (snd (OnHit p)) = go_id p" "go_id (AddHit i p) = go_id p"
  by (simp_all add: OnHit_def AddHit_def)

lemma hit_monster_ok:
  assumes "room_ok r" "rm_heap r pa = Some (ProjectileObj pr)" "pa \<noteq> m"
  shows "room_ok (snd (hit_monster E pa pr m mo r))"
proof -
  have "pa < rm_fresh r" using room_okD(1) [OF assms(1), of pa] assms(2) by (simp add: shapes_def)
  then show ?thesis
    using assms by (simp add: hit_monster_def Let_def split_beta Monster_TakeDamage_heap skill_effect_heap)
qed

lemma hit_loop_ok [simp]: "room_ok r \<Longrightarrow> room_ok (snd (hit_loop E pa ms r))"
proof (induction ms arbitrary: r)
  case (Cons m ms)
  show ?case
  proof (cases "\<exists>pr mo. rm_heap r pa = Some (ProjectileObj pr) \<and> rm_heap r m = Some (MonsterObj mo)")
    case False
    then show ?thesis using Cons by (auto split: option.split obj.split)
  next
    case True
    then obtain pr mo where h: "rm_heap r pa = Some (ProjectileObj pr)" "rm_heap r m = Some (MonsterObj mo)" by auto
    obtain c d k r1 where hit: "hit_monster E pa pr m mo r = ((c, d, k), r1)" by (metis prod_cases3 surj_pair)
    have "pa \<noteq> m" using h by auto
    then have "room_ok r1" using hit_monster_ok [OF Cons.prems h(1), of m E mo] hit by simp
    then show ?thesis using Cons h hit by (auto simp: split_beta)
  qed
qed simp

lemma projectile_loop_ok [simp]: "room_ok r \<Longrightarrow> room_ok (snd (projectile_loop E as r))"
  by (induction as arbitrary: r) (simp_all add: Let_def split_beta split: option.split obj.split)

lemma ResolveProjectileCollisions_ok [simp]: "room_ok r \<Longrightarrow> room_ok (ResolveProjectileCollisions E r)"
  by (simp add: ResolveProjectileCollisions_def Let_def split_beta)

lemma execute_attack_ok [simp]: "room_ok r \<Longrightarrow> room_ok (execute_attack E ev r)"
  by (auto simp: execute_attack_def Let_def room_okI [OF core_Player_TakeDamage] dest!: lookupD
      split: option.split obj.split)

lemma ResolveBodyCollisions_ok [simp]: "room_ok r \<Longrightarrow> room_ok (ResolveBodyCollisions E r)"
  by (simp add: ResolveBodyCollisions_def fold_ok)

text \<open>The experience a player gains is handled without fail: the levels of the players fit.\<close>

lemma nearest_loop_mem:
  "nearest_loop r x y ps best near = Some a \<Longrightarrow> near = Some a \<or> (\<exists>sid. (sid, a) \<in> set ps)"
proof (induction ps arbitrary: best near)
  case (Cons q ps)
  obtain sid b where q: "q = (sid, b)" by fastforce
  show ?case
  proof (cases "nearest_loop r x y (q # ps) best near = nearest_loop r x y ps best near")
    case True
    then show ?thesis using Cons by fastforce
  next
    case False
    then obtain d where "nearest_loop r x y (q # ps) best near = nearest_loop r x y ps d (Some b)"
      by (auto simp: q Let_def split: option.splits if_splits)
    then show ?thesis using Cons by (fastforce simp: q)
  qed
qed simp

lemma AddExp_ok:
  assumes "room_ok r" "(sid, a) \<in> set (rm_players r)"
  shows "\<exists>r'. AddExp E dis n a r = Some r' \<and> core r' = core r"
  using room_okD(9) [OF assms] AddExp_core by blast

lemma collect_gem_ok:
  assumes "room_ok r"
  shows "\<exists>r'. collect_gem E dis a r = Some r' \<and> core r' = core r"
proof (cases "\<exists>g pa p. rm_heap r a = Some (GemObj g) \<and> GetNearestPlayer (ge_F E) r (go_x g) (go_y g) = Some pa \<and> player_at r pa = Some p")
  case False
  then show ?thesis by (auto simp: collect_gem_def Let_def split: option.split obj.split)
next
  case True
  then obtain g pa p where h: "rm_heap r a = Some (GemObj g)" "GetNearestPlayer (ge_F E) r (go_x g) (go_y g) = Some pa"
    "player_at r pa = Some p" by auto
  obtain sid where "(sid, pa) \<in> set (rm_players r)"
    using nearest_loop_mem h(2) unfolding GetNearestPlayer_def by fastforce
  then obtain r1 where r1: "AddExp E (dis a) (gem_expAmount g) pa r = Some r1" "core r1 = core r"
    using AddExp_ok [OF assms] by blast
  show ?thesis using h r1 by (simp add: collect_gem_def Let_def)
qed

lemma gem_loop_ok: "room_ok r \<Longrightarrow> \<exists>r'. gem_loop E dis as r = Some r' \<and> core r' = core r"
proof (induction as arbitrary: r)
  case (Cons a as)
  then obtain r1 where r1: "collect_gem E dis a r = Some r1" "core r1 = core r" using collect_gem_ok by blast
  then have "room_ok r1" using Cons.prems room_okI by blast
  then show ?case using Cons.IH r1 by fastforce
qed simp

lemma filter_delete_length:
  "distinct (map fst al) \<Longrightarrow> (k, v) \<in> set al \<Longrightarrow>
   length (filter P al) = length (filter P (AList.delete k al)) + (if P (k, v) then 1 else 0)"
proof (induction al)
  case (Cons e al)
  show ?case
  proof (cases "fst e = k")
    case True
    then have "e = (k, v)" "AList.delete k al = al" using Cons.prems by (auto simp: AList.delete_eq image_iff intro!: filter_True)
    then show ?thesis by (simp add: AList.delete_eq)
  next
    case False
    then show ?thesis using Cons by (auto simp: AList.delete_eq)
  qed
qed simp

lemma RemoveObject_ok [simp]:
  assumes "room_ok r"
  shows "room_ok (RemoveObject i r)"
proof (cases "lookup r i")
  case None
  then show ?thesis using assms by (simp add: RemoveObject_def)
next
  case (Some ax)
  then obtain a x where l: "lookup r i = Some (a, x)" by (cases ax) auto
  note ok = room_okD [OF assms]
  define r' where "r' = RemoveObject i r"
  have mem: "(i, a) \<in> set (rm_objects r)" and hx: "rm_heap r a = Some x"
    using l by (auto simp: lookup_def GetObject_def split: option.splits dest: map_of_SomeD)
  have ty: "monster_entry (shapes r) (i, a) \<longleftrightarrow> GetType x = MONSTER"
    by (cases x) (auto simp: monster_entry_def shapes_def hx)
  have objs: "set (rm_objects r') \<subseteq> set (rm_objects r)" "distinct (map fst (rm_objects r'))"
    using ok(3) by (auto simp: r'_def RemoveObject_def l AList.delete_eq distinct_map_filter)
  have same: "rm_players r' = rm_players r" "rm_queue r' = rm_queue r" "rm_effects r' = rm_effects r"
    "rm_nextId r' = rm_nextId r" "rm_fresh r' = rm_fresh r" "shapes r' = shapes r"
    by (simp_all add: r'_def RemoveObject_def l shapes_def fun_eq_iff)
  have "length (filter P (rm_objects r)) = length (filter P (AList.delete i (rm_objects r))) + (if P (i, a) then 1 else 0)" for P
    using filter_delete_length [OF ok(3) mem] .
  from this [of "monster_entry (shapes r)"]
  have alive: "rm_aliveMonsterCount r' = int (length (filter (monster_entry (shapes r)) (rm_objects r')))"
    using ok(6) ty by (auto simp: r'_def RemoveObject_def l)
  have "rm_aliveMonsterCount r' \<le> 500" using ok(6,7) by (auto simp: r'_def RemoveObject_def l)
  then have "room_ok r'"
    using ok objs alive unfolding room_ok_def core_ok_def core_def same effects_ok_def prod.case by blast
  then show ?thesis by (simp add: r'_def)
qed

lemma ResolveCleanup_ok [simp]: "room_ok r \<Longrightarrow> room_ok (ResolveCleanup E r)"
  by (simp add: ResolveCleanup_def Let_def fold_ok)

lemma Combat_Update_ok: "room_ok r \<Longrightarrow> \<exists>r'. Combat_Update E dis r = Some r' \<and> room_ok r'"
proof -
  assume "room_ok r"
  then have "room_ok (ResolveBodyCollisions E (ResolveProjectileCollisions E r))" by simp
  then obtain r1 where r1: "ResolveItemCollisions E dis (ResolveBodyCollisions E (ResolveProjectileCollisions E r)) = Some r1"
    "core r1 = core (ResolveBodyCollisions E (ResolveProjectileCollisions E r))"
    unfolding ResolveItemCollisions_def using gem_loop_ok by blast
  then have "room_ok r1" using \<open>room_ok (ResolveBodyCollisions _ _)\<close> room_okI by blast
  then show ?thesis using r1(1) by (simp add: Combat_Update_def)
qed

section \<open>The room\<close>

lemma sync_loop_core [simp]: "core (snd (sync_loop E xs batch r)) = core r"
  by (induction xs arbitrary: batch r) (simp_all add: Let_def split: option.split)

lemma send_ack_core [simp]: "core (send_ack E s r) = core r"
  by (simp add: send_ack_def split: option.split)

lemma SyncNetwork_ok [simp]: "room_ok (SyncNetwork E r) = room_ok r"
  by (simp add: room_ok_def SyncNetwork_def Let_def split_beta core_fold)

lemma Rebuild_core [simp]: "core (Rebuild F objs r) = core r" "core (ClearOccupancyMap r') = core r'" "core (HardClear r') = core r'"
  by (simp_all add: Rebuild_def ClearOccupancyMap_def HardClear_def ClearGrid_def)

lemma ExecuteUpdate_ok: 
  assumes "room_ok r"
  shows "\<exists>r'. ExecuteUpdate E I dt r = Some r' \<and> room_ok r'"
proof (cases "\<not> rm_gameStarted r \<or> rm_isGameOver r \<or> rm_isStopping r \<or> rm_players r = []")
  case True
  then show ?thesis using assms by (auto simp: ExecuteUpdate_def)
next
  case False
  define r2 where "r2 = Effects_Update E (rm_totalRunTime r + dt)
    (Waves_Update E dt (r\<lparr> rm_totalRunTime := rm_totalRunTime r + dt, rm_serverTick := rm_serverTick r + 1 \<rparr>))"
  define r5 where "r5 = UpdatePhysics (ge_F E) (in_map I) dt (GetAllObjects r2)
    (fold (object_update E dt) (GetAllObjects r2) (ClearOccupancyMap (Rebuild (ge_F E) (GetAllObjects r2) r2)))"
  have "room_ok r2" using assms by (simp add: r2_def)
  then have "room_ok (ClearOccupancyMap (Rebuild (ge_F E) (GetAllObjects r2) r2))" by (simp add: room_ok_def)
  then have "room_ok r5" unfolding r5_def UpdatePhysics_def by (intro fold_ok) simp_all
  from Combat_Update_ok [OF this] obtain r6 where "Combat_Update E (in_dis I) r5 = Some r6" "room_ok r6" by blast
  then show ?thesis using False by (simp add: ExecuteUpdate_def Let_def r2_def r5_def)
qed

lemma Update_room_ok: "room_ok r \<Longrightarrow> \<exists>r'. Update_room E I r = Some r' \<and> room_ok r'"
  using ExecuteUpdate_ok [of r E I "TICK_INTERVAL_SEC (ge_F E)"] by (auto simp: Update_room_def)

lemma filter_update:
  "\<not> P (k, v) \<Longrightarrow> (\<And>w. (k, w) \<in> set al \<Longrightarrow> \<not> P (k, w)) \<Longrightarrow> filter P (AList.update k v al) = filter P al"
  by (induction al) auto

lemma is_player_heap:
  "is_player (shapes r) a \<longleftrightarrow> (\<exists>p. rm_heap r a = Some (PlayerObj p) \<and> go_id p \<le> 1000 \<and> level_fits p)"
  by (auto simp: is_player_def shapes_def elim!: shape.elims)

text \<open>A player enters the object table: its id is below those of the other objects.\<close>

lemma AddObject_player_ok:
  assumes "room_ok r" "is_player (shapes r) a"
  shows "room_ok (AddObject a r)"
proof -
  note ok = room_okD [OF assms(1)]
  obtain p where p: "rm_heap r a = Some (PlayerObj p)" "go_id p \<le> 1000" "level_fits p"
    using assms(2) by (auto simp: is_player_heap)
  have sa: "shapes r a = Some (PLAYER, go_id p, Some (pl_sessionId p, True))" using p by (simp add: shapes_def)
  have r': "AddObject a r = r\<lparr> rm_objects := AList.update (go_id p) a (rm_objects r), rm_aliveMonsterCount := rm_aliveMonsterCount r \<rparr>"
    by (simp add: AddObject_def p)
  have "\<not> monster_entry (shapes r) (go_id p, b)" if "(go_id p, b) \<in> set (rm_objects r)" for b
    using ok(5) [OF that] p(2) by (auto simp: monster_entry_def)
  then have f: "filter (monster_entry (shapes r)) (AList.update (go_id p) a (rm_objects r)) = filter (monster_entry (shapes r)) (rm_objects r)"
    by (intro filter_update) (auto simp: monster_entry_def sa)
  note set = set_update_distinct [OF ok(3), of "go_id p" a]
  have S: "shapes (AddObject a r) = shapes r" by (simp add: shapes_def r' fun_eq_iff)
  show ?thesis
  proof (rule room_ok_intro, unfold S)
    show "distinct (map fst (rm_objects (AddObject a r)))" using ok(3) by (simp add: r' distinct_update)
    show "(i, b) \<in> set (rm_objects (AddObject a r)) \<Longrightarrow> i \<le> rm_nextId (AddObject a r)" for i b
      using ok(2) ok(4) [of i b] p(2) by (auto simp: r' set)
    show "(i, b) \<in> set (rm_objects (AddObject a r)) \<Longrightarrow> \<exists>ty s. shapes r b = Some (ty, i, s) \<and> (ty \<noteq> PLAYER \<longrightarrow> 1000 < i)" for i b
      using ok(5) [of i b] sa by (auto simp: r' set)
    show "effects_ok (AddObject a r)" using ok(11) by (simp add: r' effects_ok_def)
    show "rm_aliveMonsterCount (AddObject a r) = int (length (filter (monster_entry (shapes r)) (rm_objects (AddObject a r))))"
      using ok(6) f by (simp add: r')
  qed (use ok in \<open>auto simp: r'\<close>)
qed

lemma StartGame_ok [simp]: "room_ok (ExecuteStartGame E I r) = room_ok r" "room_ok (StartGame E I r) = room_ok r"
  by (simp_all add: StartGame_def ExecuteStartGame_def Room_Start_def Waves_Start_def Let_def)

lemma core_add_defaults [simp]: "core (add_defaults E a r) = core r"
  by (simp add: add_defaults_def split: option.split)

lemma coreD_shapes: "core r' = core r \<Longrightarrow> shapes r' = shapes r"
  by (simp add: core_def)

lemma with_players_ok:
  assumes "room_ok r" "shapes r a = Some (PLAYER, i, Some (sid, True))" "i \<le> 1000"
  shows "room_ok (r\<lparr> rm_players := AList.update sid a (rm_players r), rm_playerCount := n \<rparr>)"
proof -
  note ok = room_okD [OF assms(1)]
  have "distinct (map fst (AList.update sid a (rm_players r)))" using ok(8) by (rule distinct_update)
  moreover have "\<forall>(s, b) \<in> set (AList.update sid a (rm_players r)). \<exists>i. i \<le> 1000 \<and> shapes r b = Some (PLAYER, i, Some (s, True))"
    using ok(9) assms(2,3) by (auto simp: set_update_distinct [OF ok(8)])
  ultimately show ?thesis using assms(1) by (simp add: room_ok_def core_ok_def core_def)
qed

lemma ExecuteEnter_ok:
  assumes "room_ok r" "is_player (shapes r) a"
  shows "room_ok (ExecuteEnter E I a r)"
proof -
  obtain p where p: "rm_heap r a = Some (PlayerObj p)" "go_id p \<le> 1000" "level_fits p"
    using assms(2) by (auto simp: is_player_heap)
  define r1 where "r1 = r\<lparr> rm_players := AList.update (pl_sessionId p) a (rm_players r), rm_playerCount := rm_playerCount r + 1 \<rparr>"
  define r2 where "r2 = upd_player a (\<lambda>q. q\<lparr> pl_currentRoomId := rm_roomId r \<rparr>) r1"
  have "room_ok r1"
    unfolding r1_def using assms(1) p by (intro with_players_ok [where i = "go_id p"]) (simp_all add: shapes_def)
  have c: "core r2 = core r1" unfolding r2_def by (rule core_upd) simp_all
  have "shapes r1 = shapes r" by (simp add: r1_def)
  then have r2: "room_ok r2" "shapes r2 = shapes r"
    using coreD_shapes [OF c] room_okI [OF c \<open>room_ok r1\<close>] by simp_all
  have r3: "room_ok (add_defaults E a r2)" "is_player (shapes (add_defaults E a r2)) a"
    using r2 assms(2) coreD_shapes [OF core_add_defaults, of E a r2] by (simp_all add: room_ok_def)
  have "player_at r a = Some p" using p(1) by (simp add: player_at_def)
  then have "ExecuteEnter E I a r =
    (if ge_userDB E then r2
     else if rm_gameStarted (AddObject a (add_defaults E a r2)) then AddObject a (add_defaults E a r2)
     else StartGame E I (AddObject a (add_defaults E a r2)))"
    unfolding ExecuteEnter_def Let_def r1_def r2_def by (simp only: option.case)
  then show ?thesis using r2 AddObject_player_ok [OF r3] by simp
qed

lemma apply_loaded_ok:
  assumes "room_ok r" "is_player (shapes r) a"
  shows "room_ok (apply_loaded E I a skills r)"
proof -
  have "room_ok (ApplySkills E skills a r)" "is_player (shapes (ApplySkills E skills a r)) a"
    using assms coreD_shapes [OF core_ApplySkills, of E skills a r] by (simp_all add: room_ok_def)
  from AddObject_player_ok [OF this] have "room_ok (add_defaults E a (AddObject a (ApplySkills E skills a r)))"
    by (simp add: room_ok_def)
  then show ?thesis using assms(1) by (simp add: apply_loaded_def Let_def split: option.split)
qed

lemma ExecuteOnPlayerReady_ok [simp]: "room_ok (ExecuteOnPlayerReady E I sid r) = room_ok r"
  by (simp add: ExecuteOnPlayerReady_def Let_def room_ok_def [of "SyncInventory _ _ _"] split: option.split)
    (simp add: room_ok_def)

lemma ClearObjects_ok [simp]: "room_ok r \<Longrightarrow> room_ok (ClearObjects r)"
  by (auto simp: room_ok_def core_ok_def core_def ClearObjects_def)

lemma without_player_ok [simp]: "room_ok r \<Longrightarrow> room_ok (r\<lparr> rm_players := AList.delete sid (rm_players r) \<rparr>)"
  by (auto simp: room_ok_def core_ok_def core_def AList.delete_eq distinct_map_filter)

lemma without_players_ok [simp]: "room_ok r \<Longrightarrow> room_ok (r\<lparr> rm_players := [] \<rparr>)"
  by (auto simp: room_ok_def core_ok_def core_def)

lemma ExecuteStop_ok [simp]: "room_ok r \<Longrightarrow> room_ok (ExecuteStop r)"
proof -
  assume "room_ok r"
  then have "room_ok ((r\<lparr> rm_timerHandle := h \<rparr>)\<lparr> rm_players := [] \<rparr>)" for h by (intro without_players_ok) simp
  then show ?thesis unfolding ExecuteStop_def InternalClear_def by (intro ClearObjects_ok) simp
qed

lemma ExecuteReset_ok [simp]: "room_ok r \<Longrightarrow> room_ok (ExecuteReset E r)"
  by (simp add: ExecuteReset_def Waves_Reset_def room_okI [OF Rebuild_core(3)])

lemma ExecuteLeave_ok [simp]:
  assumes "room_ok r"
  shows "room_ok (ExecuteLeave E sid r)"
proof -
  define r2 where "r2 p a = BroadcastPacket E (S_DespawnObject [go_id p] [])
    (RemoveObject (go_id p) (upd_player a (\<lambda>q. q\<lparr> pl_currentRoomId := 0 \<rparr>) r))" for p a
  have "room_ok (r2 p a)" for p a using assms by (simp add: r2_def)
  then have "room_ok ((r2 p a)\<lparr> rm_players := AList.delete sid (rm_players (r2 p a)) \<rparr>)" for p a by simp
  then have "room_ok ((r2 p a)\<lparr> rm_players := AList.delete sid (rm_players (r2 p a)), rm_playerCount := n \<rparr>)" for p a n
    by (metis room_ok_fields(17))
  then show ?thesis
    using assms unfolding ExecuteLeave_def Let_def r2_def [symmetric]
    by (auto split: option.split)
qed

lemma exp_to_all_ok:
  "room_ok r \<Longrightarrow> set ps \<subseteq> set (rm_players r) \<Longrightarrow> \<exists>r'. exp_to_all E dis n ps r = Some r' \<and> core r' = core r"
proof (induction ps arbitrary: r)
  case (Cons q ps)
  obtain sid a where q: "q = (sid, a)" by fastforce
  obtain r1 where r1: "AddExp E (dis a) n a r = Some r1" "core r1 = core r"
    using AddExp_ok [OF Cons.prems(1)] Cons.prems(2) q by fastforce
  have "rm_players r1 = rm_players r" using coreD [OF r1(2)] by simp
  then show ?case
    using Cons.IH [OF room_okI [OF r1(2) Cons.prems(1)]] Cons.prems(2) r1 by (auto simp: q)
qed simp

lemma ApplyInput_ids [simp]:
  "go_id (ApplyInput E tick dx dy p) = go_id p" "pl_sessionId (ApplyInput E tick dx dy p) = pl_sessionId p"
  "level_fits (ApplyInput E tick dx dy p) = level_fits p"
  by (simp_all add: ApplyInput_def Let_def)

lemma toggle_god_core [simp]: "core (toggle_god s r) = core r"
  by (simp add: toggle_god_def)

lemma set_strategy_core [simp]: "core (set_strategy s r) = core r"
  by (simp add: set_strategy_def core_fold split: option.split)

lemma select_level_up_core [simp]: "core (select_level_up E a idx r) = core r"
  by (simp add: select_level_up_def)

lemma run_task_ok:
  assumes "room_ok r" "\<forall>a \<in> task_addrs t. is_player (shapes r) a"
  shows "\<exists>r'. run_task E I t r = Some r' \<and> room_ok r'"
proof (cases t)
  case DoUpdate
  then show ?thesis using Update_room_ok [OF assms(1)] by (simp add: run_task_def)
next
  case (DoAddExp n)
  then show ?thesis
    using exp_to_all_ok [OF assms(1) subset_refl, of E "in_dis I" n] room_okI [OF _ assms(1)]
    by (auto simp: run_task_def)
next
  case DoGodMode
  then show ?thesis using room_okI [OF core_fold [of toggle_god, OF toggle_god_core] assms(1)] by (simp add: run_task_def)
next
  case (DoStrategy s)
  then show ?thesis using room_okI [OF set_strategy_core assms(1)] by (simp add: run_task_def)
next
  case (DoSelect a idx)
  then show ?thesis using room_okI [OF select_level_up_core assms(1)] by (simp add: run_task_def)
qed (use assms in \<open>auto simp: run_task_def ExecuteEnter_ok apply_loaded_ok\<close>)

lemma run_next_ok:
  assumes "room_ok r"
  shows "\<exists>r'. run_next E I r = Some r' \<and> room_ok r'"
proof (cases "rm_queue r")
  case Nil
  then show ?thesis using assms by (simp add: run_next_def)
next
  case (Cons t ts)
  have "room_ok (r\<lparr> rm_queue := ts \<rparr>)" using assms Cons by (auto simp: room_ok_def core_ok_def core_def)
  moreover have "\<forall>a \<in> task_addrs t. is_player (shapes (r\<lparr> rm_queue := ts \<rparr>)) a"
    using room_okD(10) [OF assms, of t] Cons by simp
  ultimately show ?thesis using run_task_ok Cons by (fastforce simp: run_next_def)
qed

section \<open>Runs of a room\<close>

text \<open>
  What can happen to a room, in any order: a timer tick, the strand running its next task, a joining
  player (created by \<open>JoinRoomHandler\<close> with the session id truncated to 32 bits as its object id), the
  answer of the database for a player, and the other calls of handlers and commands.
\<close>

definition game_id :: "u64 \<Rightarrow> int" where
  "game_id sid = sint (ucast sid :: 32 word)"

inductive room_step :: "'f::{zero,plus,minus,uminus,times,inverse,ord} game_env \<Rightarrow> 'f room \<Rightarrow> 'f room \<Rightarrow> bool"
  for E :: "'f::{zero,plus,minus,uminus,times,inverse,ord} game_env" where
  step_timer: "OnTimer E I r = Some r' \<Longrightarrow> room_step E r r'"
| step_strand: "run_next E I r = Some r' \<Longrightarrow> room_step E r r'"
| step_join: "game_id sid \<le> 1000 \<Longrightarrow>
    new_obj (PlayerObj ((CreatePlayer E popped (game_id sid) sid)\<lparr> pl_name := nm \<rparr>)) r = (a, r1) \<Longrightarrow>
    room_step E r (Enter E I a r1)"
| step_database: "is_player (shapes r) a \<Longrightarrow> skills_loaded a skills r = Some r' \<Longrightarrow> room_step E r r'"
| step_boot: "room_step E r (Room_Start I r)"
| step_ready: "room_step E r (OnPlayerReady E I sid r)"
| step_leave: "room_step E r (Leave E sid r)"
| step_stop: "room_step E r (Stop r)"
| step_reset: "room_step E r (Reset_room E r)"
| step_start: "room_step E r (StartGame E I r)"
| step_command: "t \<in> {DoAddExp n, DoSpawn ty n, DoGodMode, DoStrategy s, DoInput a tick dx dy, DoSelect a idx} \<Longrightarrow>
    room_step E r (Post_if t r)"

lemma new_obj_fresh:
  "new_obj x r = (a, r1) \<Longrightarrow> a = rm_fresh r \<and> r1 = snd (new_obj x r) \<and> shapes r1 a = Some (shape x)"
  by (auto simp: new_obj_def shapes_def)

lemma CreatePlayer_shape:
  "shape (PlayerObj ((CreatePlayer E popped i sid)\<lparr> pl_name := nm \<rparr>)) = (PLAYER, i, Some (sid, True))"
  by (simp add: CreatePlayer_def Player_Initialize_def level_fits_def threshold_def EXP_BASE_def Let_def)

lemma Post_player_ok: "room_ok r \<Longrightarrow> is_player (shapes r) a \<Longrightarrow> task_addrs t = {a} \<Longrightarrow> room_ok (Post_task t r)"
  by (auto simp: room_ok_def core_ok_def core_def Post_task_def)

lemma OnTimer_ok: "room_ok r \<Longrightarrow> \<exists>r'. OnTimer E I r = Some r' \<and> room_ok r'"
  using Update_room_ok [of "r\<lparr> rm_isUpdating := True \<rparr>" E I] by (auto simp: OnTimer_def Let_def)

lemma Post_if_ok [simp]: "task_addrs t = {} \<Longrightarrow> room_ok (Post_if t r) = room_ok r"
  by (simp add: Post_if_def)

lemma room_step_ok:
  assumes "room_step E r r'" "room_ok r"
  shows "room_ok r'"
  using assms
proof (induction rule: room_step.induct)
  case (step_timer I r r')
  then show ?case using OnTimer_ok [of r E I] by auto
next
  case (step_strand I r r')
  then show ?case using run_next_ok [of r E I] by auto
next
  case (step_join sid popped nm r a r1 I)
  have "is_player (shapes r1) a" "room_ok r1"
    using new_obj_fresh [OF step_join(2)] step_join(1,3) new_obj_ok
    unfolding CreatePlayer_shape is_player_def by auto
  then show ?case by (simp add: Enter_def ExecuteEnter_ok Post_player_ok)
next
  case (step_database r a skills r')
  then show ?case by (auto simp: skills_loaded_def Post_player_ok split: if_splits)
next
  case (step_command t n ty s a tick dx dy idx r)
  then show ?case by auto
qed (auto simp: Room_Start_def OnPlayerReady_def Leave_def Stop_def Reset_room_def Let_def)

lemma empty_room_ok: "room_ok (empty_room i)"
  by (simp add: room_ok_def core_ok_def core_def empty_room_def shapes_def)

lemma room_run_ok: "(room_step E)\<^sup>*\<^sup>* r r' \<Longrightarrow> room_ok r \<Longrightarrow> room_ok r'"
  by (induction rule: rtranclp_induct) (auto dest: room_step_ok)

lemma monster_entries:
  assumes "room_ok r"
  shows "filter (monster_entry (shapes r)) (rm_objects r) =
    filter (\<lambda>(i, a). \<exists>m. rm_heap r a = Some (MonsterObj m)) (rm_objects r)"
  by (rule filter_cong [OF refl]) (auto simp: monster_entry_def shapes_def elim!: shape.elims)


text \<open>A room with one player, and a first tick of it.\<close>

definition demo_in :: room_in where
  "demo_in = \<lparr> in_dis = (\<lambda>_ _ _. 0), in_handle = 1, in_map = None \<rparr>"

definition demo_arrival :: "rat room" where
  "demo_arrival = Enter demo_env demo_in 0
     (snd (new_obj (PlayerObj ((CreatePlayer demo_env None (game_id 7) 7)\<lparr> pl_name := ''Survivor_7'' \<rparr>)) (empty_room 1)))"

definition demo_entered :: "rat room" where
  "demo_entered = the (run_next demo_env demo_in demo_arrival)"

lemma game_id_7: "game_id 7 = 7" by (simp add: game_id_def)

lemmas demo_entered_defs = demo_entered_def demo_arrival_def game_id_7 Enter_def Post_task_def run_next_def run_task_def
  ExecuteEnter_def player_at_def new_obj_def put_def upd_player_def add_defaults_def AddObject_def StartGame_def
  CreatePlayer_def new_player_def Player_Initialize_def demo_env_def empty_data_def GetPlayerInfo_def empty_room_def demo_in_def

lemma demo_enters: "run_next demo_env demo_in demo_arrival = Some demo_entered"
  by (simp add: demo_entered_defs Let_def)

lemma demo_run: "(room_step demo_env)\<^sup>*\<^sup>* (empty_room 1) demo_entered"
proof -
  have "room_step demo_env (empty_room 1) demo_arrival"
    unfolding demo_arrival_def
    by (rule step_join [where sid = 7 and popped = None and nm = "''Survivor_7''"])
      (simp_all add: game_id_7 new_obj_def empty_room_def)
  moreover have "room_step demo_env demo_arrival demo_entered" by (rule step_strand [OF demo_enters])
  ultimately show ?thesis by auto
qed




end
