(* ===== verification/Room_Properties.thy ===== *)
theory Room_Properties
  imports Room_Invariant
begin

text \<open>
  What one tick of a room does: the hits of a projectile, the removal of what is dead or spent, and
  the position messages.
\<close>

section \<open>Projectiles\<close>

lemma hit_monster_projectile:
  assumes "room_ok r" "rm_heap r pa = Some (ProjectileObj pr)" "rm_heap r m = Some (MonsterObj mo)"
  shows "rm_heap (snd (hit_monster E pa pr m mo r)) pa = Some (ProjectileObj (snd (OnHit (AddHit (go_id mo) pr))))"
    "fst (fst (hit_monster E pa pr m mo r)) = fst (OnHit (AddHit (go_id mo) pr))"
    "room_ok (snd (hit_monster E pa pr m mo r))"
proof -
  show "rm_heap (snd (hit_monster E pa pr m mo r)) pa = Some (ProjectileObj (snd (OnHit (AddHit (go_id mo) pr))))"
    "fst (fst (hit_monster E pa pr m mo r)) = fst (OnHit (AddHit (go_id mo) pr))"
    by (simp_all add: hit_monster_def Let_def split_beta)
  show "room_ok (snd (hit_monster E pa pr m mo r))" using assms by (intro hit_monster_ok) auto
qed

text \<open>What the target loop of one projectile leaves behind, as a relation on the hits.\<close>

definition hits_fit :: "'f::{zero,ord} Projectile \<Rightarrow> int list \<Rightarrow> 'f Projectile \<Rightarrow> bool" where
  "hits_fit pr ids pr' \<longleftrightarrow>
     pr_hitTargets pr' = pr_hitTargets pr @ ids \<and> distinct ids \<and> set ids \<inter> set (pr_hitTargets pr) = {} \<and>
     (0 \<le> pr_pierceCount pr \<longrightarrow> int (length ids) \<le> pr_pierceCount pr + 1 \<and>
        (\<not> IsExpired pr \<longrightarrow> (pr_isHit pr' \<longleftrightarrow> int (length ids) = pr_pierceCount pr + 1)))"

lemma hits_fit_Nil: "(0 \<le> pr_pierceCount pr \<Longrightarrow> \<not> IsExpired pr \<Longrightarrow> \<not> pr_isHit pr) \<Longrightarrow> hits_fit pr [] pr"
  by (simp add: hits_fit_def)

lemma hits_fit_Cons:
  assumes "hits_fit (snd (OnHit (AddHit i pr))) ids pr'" "\<not> fst (OnHit (AddHit i pr))" "\<not> HasHit i pr" "\<not> IsExpired pr"
  shows "hits_fit pr (i # ids) pr'"
  using assms by (auto simp: hits_fit_def OnHit_def AddHit_def HasHit_def IsExpired_def IsDead_def split: if_splits)

lemma hits_fit_last:
  assumes "fst (OnHit (AddHit i pr))" "\<not> HasHit i pr" "\<not> IsExpired pr"
  shows "hits_fit pr [i] (snd (OnHit (AddHit i pr)))"
  using assms by (auto simp: hits_fit_def OnHit_def AddHit_def HasHit_def IsExpired_def split: if_splits)

text \<open>C11. A projectile hits no monster twice: the monsters it hits in a tick are different from each
  other and from those it hit before, the hit list grows by exactly these, a projectile that
  pierces \<open>n\<close> monsters hits at most \<open>n + 1\<close>, and it is spent exactly when it has hit that many.
\<close>

theorem projectile_hits_once:
  assumes "room_ok r" "rm_heap r pa = Some (ProjectileObj pr)"
  shows "\<exists>hits r' pr'. hit_loop E pa ms r = (hits, r') \<and> rm_heap r' pa = Some (ProjectileObj pr') \<and>
    hits_fit pr (map fst hits) pr'"
  using assms
proof (induction ms arbitrary: r pr)
  case Nil
  then show ?case by (auto intro!: hits_fit_Nil simp: IsExpired_def)
next
  case (Cons m ms)
  show ?case
  proof (cases "IsExpired pr")
    case True
    then show ?thesis using Cons.prems by (auto intro!: hits_fit_Nil)
  next
    case False
    show ?thesis
    proof (cases "\<exists>mo. rm_heap r m = Some (MonsterObj mo) \<and> \<not> (go_id mo = go_id pr \<or> IsDead mo \<or>
        \<not> touches (ge_F E) pr mo \<or> HasHit (go_id mo) pr)")
      case False
      then have "hit_loop E pa (m # ms) r = hit_loop E pa ms r"
        using Cons.prems \<open>\<not> IsExpired pr\<close> by (auto split: option.split obj.split)
      then show ?thesis using Cons.IH [OF Cons.prems] by simp
    next
      case True
      then obtain mo where mo: "rm_heap r m = Some (MonsterObj mo)" "go_id mo \<noteq> go_id pr" "\<not> IsDead mo"
        "touches (ge_F E) pr mo" "\<not> HasHit (go_id mo) pr" by auto
      obtain c d k r1 where hit: "hit_monster E pa pr m mo r = ((c, d, k), r1)" by (metis prod_cases3 surj_pair)
      have after: "rm_heap r1 pa = Some (ProjectileObj (snd (OnHit (AddHit (go_id mo) pr))))"
        "c = fst (OnHit (AddHit (go_id mo) pr))" "room_ok r1"
        using hit_monster_projectile [OF Cons.prems mo(1), of E] hit by simp_all
      show ?thesis
      proof (cases c)
        case True
        then have "hit_loop E pa (m # ms) r = ([(go_id mo, d, k)], r1)"
          using Cons.prems(2) \<open>\<not> IsExpired pr\<close> mo hit by simp
        then show ?thesis using after True mo(5) \<open>\<not> IsExpired pr\<close> by (auto intro!: hits_fit_last)
      next
        case False
        obtain hits r2 pr' where rest: "hit_loop E pa ms r1 = (hits, r2)" "rm_heap r2 pa = Some (ProjectileObj pr')"
          "hits_fit (snd (OnHit (AddHit (go_id mo) pr))) (map fst hits) pr'"
          using Cons.IH [OF after(3,1)] by blast
        have "hit_loop E pa (m # ms) r = ((go_id mo, d, k) # hits, r2)"
          using Cons.prems(2) \<open>\<not> IsExpired pr\<close> mo hit False rest(1) by simp
        then show ?thesis using rest after False mo(5) \<open>\<not> IsExpired pr\<close> by (auto intro!: hits_fit_Cons)
      qed
    qed
  qed
qed

definition demo_shot :: "rat room" where
  "demo_shot = (empty_room 1)\<lparr>
     rm_heap := [0 \<mapsto> ProjectileObj ((new_projectile rat_flops)\<lparr> go_id := 1001, pr_damage := 10, pr_pierceCount := 1 \<rparr>),
                 1 \<mapsto> MonsterObj (demo_monster 1002 0), 2 \<mapsto> MonsterObj (demo_monster 1003 0)],
     rm_fresh := 3, rm_nextId := 1003, rm_objects := [(1001, 0), (1002, 1), (1003, 2)], rm_aliveMonsterCount := 2 \<rparr>"

lemma demo_shot_ok: "room_ok demo_shot"
  by (simp add: demo_shot_def empty_room_def room_ok_def core_ok_def core_def shapes_def monster_entry_def
      demo_monster_def)

theorem projectile_hits_once_witness:
  "\<exists>hits. fst (hit_loop demo_env 0 [1, 2, 1] demo_shot) = hits \<and> length hits \<le> 2 \<and> distinct (map fst hits)"
proof -
  let ?pr = "(new_projectile rat_flops)\<lparr> go_id := 1001, pr_damage := 10, pr_pierceCount := 1 \<rparr>"
  have "rm_heap demo_shot 0 = Some (ProjectileObj ?pr)" by (simp add: demo_shot_def)
  from projectile_hits_once [OF demo_shot_ok this, of demo_env "[1, 2, 1]"]
  show ?thesis by (auto simp: hits_fit_def)
qed

section \<open>Cleanup\<close>

lemma RemoveObject_objects:
  assumes "tables_ok r"
  shows "rm_objects (RemoveObject i r) = AList.delete i (rm_objects r)" "rm_heap (RemoveObject i r) = rm_heap r"
proof -
  have "map_of (rm_objects r) i = None \<Longrightarrow> AList.delete i (rm_objects r) = rm_objects r"
    by (force simp: map_of_eq_None_iff AList.delete_eq intro!: filter_True)
  moreover have "map_of (rm_objects r) i = Some a \<Longrightarrow> rm_heap r a \<noteq> None" for a
    using assms by (fastforce simp: tables_ok_def dest: map_of_SomeD)
  ultimately show "rm_objects (RemoveObject i r) = AList.delete i (rm_objects r)" "rm_heap (RemoveObject i r) = rm_heap r"
    by (auto simp: RemoveObject_def lookup_def GetObject_def split: option.splits)
qed

lemma room_ok_tables: "room_ok r \<Longrightarrow> tables_ok r"
  using room_okD(3,5) by (fastforce simp: tables_ok_def shapes_def elim!: shape.elims)

lemma remove_all:
  assumes "room_ok r"
  shows "rm_objects (fold (\<lambda>x. RemoveObject (obj_id x)) xs r) = filter (\<lambda>e. fst e \<notin> obj_id ` set xs) (rm_objects r) \<and>
    rm_heap (fold (\<lambda>x. RemoveObject (obj_id x)) xs r) = rm_heap r"
  using assms
proof (induction xs arbitrary: r)
  case (Cons x xs)
  have "room_ok (RemoveObject (obj_id x) r)" using Cons.prems by simp
  from Cons.IH [OF this] RemoveObject_objects [OF room_ok_tables [OF Cons.prems], of "obj_id x"]
  show ?case by (auto simp: AList.delete_eq intro!: filter_cong)
qed simp

lemma objects_at_mem:
  "x \<in> set (objects_at r (GetAllObjects r)) \<longleftrightarrow> (\<exists>(i, a) \<in> set (rm_objects r). rm_heap r a = Some x)"
  by (force simp: objects_at_def GetAllObjects_def List.map_filter_def image_iff)

text \<open>The cleanup of a tick removes from the object table exactly the dead monsters, the spent
  projectiles and the gems that were picked up, keeps everything else in its order, and keeps the
  invariant.
\<close>

theorem room_cleanup_exact:
  assumes "room_ok r"
  shows "rm_objects (ResolveCleanup E r) =
      filter (\<lambda>(i, a). \<exists>x. rm_heap r a = Some x \<and> \<not> should_remove x) (rm_objects r) \<and>
    rm_heap (ResolveCleanup E r) = rm_heap r \<and> room_ok (ResolveCleanup E r)"
proof -
  note t = room_ok_tables [OF assms]
  define gone where "gone = filter should_remove (objects_at r (GetAllObjects r))"
  have *: "i \<notin> obj_id ` set gone \<longleftrightarrow> (\<exists>x. rm_heap r a = Some x \<and> \<not> should_remove x)" if m: "(i, a) \<in> set (rm_objects r)" for i a
  proof -
    obtain x where x: "rm_heap r a = Some x" "obj_id x = i" using tables_ok_lookup [OF t m] by blast
    have "i \<in> obj_id ` set gone \<longleftrightarrow> should_remove x"
    proof
      assume "i \<in> obj_id ` set gone"
      then obtain j b y where y: "(j, b) \<in> set (rm_objects r)" "rm_heap r b = Some y" "should_remove y" "obj_id y = i"
        by (auto simp: gone_def objects_at_mem)
      then have "j = i" using tables_ok_lookup [OF t y(1)] by auto
      then have "b = a" using y(1) m t by (auto simp: tables_ok_def dest: eq_key_imp_eq_value)
      then show "should_remove x" using x(1) y by simp
    next
      assume "should_remove x"
      then show "i \<in> obj_id ` set gone" using x m by (auto simp: gone_def objects_at_mem intro!: rev_image_eqI)
    qed
    then show ?thesis using x(1) by auto
  qed
  have out: "rm_objects (BroadcastDespawn E is ps r') = rm_objects r'" for "is" ps and r' :: "'a room"
    by (simp add: sending_defs)
  have "filter (\<lambda>e. fst e \<notin> obj_id ` set gone) (rm_objects r) =
      filter (\<lambda>(i, a). \<exists>x. rm_heap r a = Some x \<and> \<not> should_remove x) (rm_objects r)"
    by (intro filter_cong refl) (simp add: * split_beta)
  then show ?thesis
    using remove_all [OF assms, of gone] assms
    by (simp add: ResolveCleanup_def Let_def gone_def [symmetric] out fold_ok)
qed

theorem room_cleanup_exact_witness:
  "rm_objects (ResolveCleanup demo_env demo_shot) = [(1001, 0), (1002, 1), (1003, 2)] \<and> room_ok (ResolveCleanup demo_env demo_shot)"
  using room_cleanup_exact [OF demo_shot_ok, of demo_env]
  by (simp add: demo_shot_def should_remove_def IsExpired_def IsDead_def demo_monster_def new_projectile_def)

section \<open>Position messages\<close>

text \<open>What every player of a room receives when a packet is broadcast.\<close>

definition to_all :: "'f room \<Rightarrow> 'f packet \<Rightarrow> (u64 \<times> 'f packet) list" where
  "to_all r pkt = map (\<lambda>(sid, a). (sid, pkt)) (filter (\<lambda>(sid, a). sid \<noteq> 0) (rm_players r))"

lemma broadcast_to_all:
  "ge_dispatcher E \<Longrightarrow> ge_alloc E pkt \<Longrightarrow> BroadcastPacket E pkt r = r\<lparr> rm_out := rm_out r @ to_all r pkt \<rparr>"
  by (simp add: BroadcastPacket_def BroadcastPacket_except_def to_all_def)

definition batch_out :: "'f room \<Rightarrow> 'f ObjectPos list list \<Rightarrow> (u64 \<times> 'f packet) list" where
  "batch_out r bs = concat (map (\<lambda>b. to_all r (S_MoveObjectBatch b (rm_serverTick r))) bs)"

lemma batch_out_upd [simp]: "batch_out (r\<lparr> rm_out := v \<rparr>) bs = batch_out r bs"
  by (simp add: batch_out_def to_all_def)

lemma batch_out_append [simp]: "batch_out r (bs @ cs) = batch_out r bs @ batch_out r cs"
  by (simp add: batch_out_def)

lemma sync_loop_batches:
  assumes "ge_dispatcher E" "\<And>pkt. ge_alloc E pkt" "length batch < CHUNK_SIZE"
  shows "\<exists>bs rest. sync_loop E xs batch r = (rest, r\<lparr> rm_out := rm_out r @ batch_out r bs \<rparr>) \<and>
    concat bs @ rest = batch @ List.map_filter (sync_entry (ge_F E)) xs \<and>
    (\<forall>b \<in> set bs. length b = CHUNK_SIZE) \<and> length rest < CHUNK_SIZE"
  using assms(3)
proof (induction xs arbitrary: batch r)
  case Nil
  then show ?case by (intro exI [of _ "[]"] exI [of _ batch]) (simp add: batch_out_def List.map_filter_def)
next
  case (Cons x xs)
  show ?case
  proof (cases "sync_entry (ge_F E) x")
    case None
    then show ?thesis using Cons.IH [OF Cons.prems, of r] by (simp add: map_filter_simps)
  next
    case (Some e)
    show ?thesis
    proof (cases "length (batch @ [e]) \<ge> CHUNK_SIZE")
      case False
      then show ?thesis using Cons.IH [of "batch @ [e]" r] Some by (simp add: map_filter_simps)
    next
      case True
      let ?b = "batch @ [e]"
      let ?r = "r\<lparr> rm_out := rm_out r @ batch_out r [?b] \<rparr>"
      have step: "sync_loop E (x # xs) batch r = sync_loop E xs [] ?r"
        using True Some assms(1,2) by (simp add: broadcast_to_all batch_out_def)
      have "length ([] :: 'a ObjectPos list) < CHUNK_SIZE" by (simp add: CHUNK_SIZE_def)
      from Cons.IH [OF this, of ?r] obtain bs rest where
        ih: "sync_loop E xs [] ?r = (rest, ?r\<lparr> rm_out := rm_out ?r @ batch_out ?r bs \<rparr>)"
        "concat bs @ rest = List.map_filter (sync_entry (ge_F E)) xs" "\<forall>b \<in> set bs. length b = CHUNK_SIZE"
        "length rest < CHUNK_SIZE" by auto
      have "length ?b = CHUNK_SIZE" using True Cons.prems by simp
      moreover have "sync_loop E (x # xs) batch r = (rest, r\<lparr> rm_out := rm_out r @ batch_out r (?b # bs) \<rparr>)"
        unfolding step ih(1) using batch_out_append [of r "[?b]" bs] by simp
      ultimately show ?thesis
        using ih(2-4) Some by (intro exI [of _ "?b # bs"] exI [of _ rest]) (simp add: map_filter_simps)
    qed
  qed
qed

text \<open>The acknowledgements a tick sends.\<close>

definition ack_of :: "'f room \<Rightarrow> u64 \<times> nat \<Rightarrow> (u64 \<times> 'f packet) option" where
  "ack_of r s =
     (case player_at r (snd s) of
        None \<Rightarrow> None
      | Some p \<Rightarrow> if IsDead p then None
                  else Some (fst s, S_PlayerStateAck (rm_serverTick r) (pl_lastInputTick p) (go_x p) (go_y p)))"

lemma ack_of_upd: "ack_of (r\<lparr> rm_out := v \<rparr>) = ack_of r"
  by (simp add: ack_of_def player_at_def fun_eq_iff split: option.split)

lemma send_acks:
  assumes "ge_dispatcher E" "\<And>pkt. ge_alloc E pkt"
  shows "fold (send_ack E) ps r = r\<lparr> rm_out := rm_out r @ List.map_filter (ack_of r) ps \<rparr>"
proof (induction ps arbitrary: r)
  case Nil
  then show ?case by (simp add: List.map_filter_def)
next
  case (Cons s ps)
  have one: "send_ack E s r = (case ack_of r s of None \<Rightarrow> r | Some m \<Rightarrow> r\<lparr> rm_out := rm_out r @ [m] \<rparr>)"
    using assms by (simp add: send_ack_def SendToPlayer_def ack_of_def split: option.split)
  show ?case by (simp add: Cons one map_filter_simps ack_of_upd split: option.split)
qed

text \<open>The position messages of a tick are complete and bounded: in a room with objects, every player
  gets the entries of all live objects with finite coordinates, each once and in the order of the
  table, in messages of at most 300 entries, followed by the acknowledgements of the live players.
\<close>

theorem sync_complete:
  assumes "ge_dispatcher E" "\<forall>pkt. ge_alloc E pkt" "objects_at r (GetAllObjects r) \<noteq> []"
  shows "\<exists>bs. rm_out (SyncNetwork E r) = rm_out r @ batch_out r bs @ List.map_filter (ack_of r) (rm_players r) \<and>
    concat bs = List.map_filter (sync_entry (ge_F E)) (objects_at r (GetAllObjects r)) \<and>
    (\<forall>b \<in> set bs. b \<noteq> [] \<and> length b \<le> 300)"
proof -
  let ?objs = "objects_at r (GetAllObjects r)"
  have small: "length ([] :: 'a ObjectPos list) < CHUNK_SIZE" by (simp add: CHUNK_SIZE_def)
  obtain bs rest where l: "sync_loop E ?objs [] r = (rest, r\<lparr> rm_out := rm_out r @ batch_out r bs \<rparr>)"
    "concat bs @ rest = List.map_filter (sync_entry (ge_F E)) ?objs"
    "\<forall>b \<in> set bs. length b = CHUNK_SIZE" "length rest < CHUNK_SIZE"
    using sync_loop_batches [OF assms(1) _ small, of ?objs r] assms(2) by auto
  define cs where "cs = (if rest = [] then bs else bs @ [rest])"
  have all: "to_all (r\<lparr> rm_out := v \<rparr>) = to_all r" for v by (simp add: to_all_def fun_eq_iff)
  have "rm_out (SyncNetwork E r) = rm_out r @ batch_out r cs @ List.map_filter (ack_of r) (rm_players r)"
    using assms l(1)
    by (simp add: SyncNetwork_def Let_def send_acks ack_of_upd all broadcast_to_all cs_def)
      (simp add: batch_out_def)
  moreover have "concat cs = List.map_filter (sync_entry (ge_F E)) ?objs" using l(2) by (auto simp: cs_def)
  moreover have "\<forall>b \<in> set cs. b \<noteq> [] \<and> length b \<le> 300"
    using l(3,4) by (auto simp: cs_def CHUNK_SIZE_def split: if_splits)
  ultimately show ?thesis by blast
qed

theorem sync_complete_witness:
  "\<exists>bs. rm_out (SyncNetwork demo_env demo_shot) = batch_out demo_shot bs \<and> length (concat bs) = 3 \<and>
     (\<forall>b \<in> set bs. b \<noteq> [] \<and> length b \<le> 300)"
proof -
  have "objects_at demo_shot (GetAllObjects demo_shot) \<noteq> []" "rm_out demo_shot = []" "rm_players demo_shot = []"
    "length (List.map_filter (sync_entry (ge_F demo_env)) (objects_at demo_shot (GetAllObjects demo_shot))) = 3"
    by (simp_all add: objects_at_def GetAllObjects_def demo_shot_def empty_room_def map_filter_simps sync_entry_def
        demo_env_def demo_monster_def new_projectile_def)
  then show ?thesis
    using sync_complete [of demo_env demo_shot] by (auto simp: demo_env_def List.map_filter_def)
qed

section \<open>The update flag\<close>

text \<open>
  \<open>OnTimer\<close> posts an update only when none is pending, but the reset that follows the last player's
  leaving clears the flag while an update is still queued, so a second one is posted.
\<close>

definition leaving_room :: "rat room" where
  "leaving_room = demo_hall\<lparr> rm_gameStarted := True, rm_isUpdating := True, rm_queue := [DoLeave 7, DoUpdate] \<rparr>"

lemma two_updates_queued:
  "\<exists>r r'. run_next demo_env demo_in leaving_room = Some r \<and> OnTimer demo_env demo_in r = Some r' \<and>
     rm_queue r' = [DoUpdate, DoUpdate]"
  by (simp add: leaving_room_def run_next_def run_task_def ExecuteLeave_def player_at_def demo_hall_defs
      upd_player_def put_def RemoveObject_def lookup_def GetObject_def BroadcastPacket_def BroadcastPacket_except_def
      ExecuteReset_def Waves_Reset_def HardClear_def ClearGrid_def ClearObjects_def GetWaves_def OnTimer_def Post_task_def Let_def)

end
