(* ===== verification/Room_Manager.thy ===== *)
theory Room_Manager
  imports Room_Properties Text_Numbers
begin

text \<open>
  The rooms of a server, the registered players and the lobby (\<open>Game/RoomManager.cpp\<close>), the packet
  handlers (\<open>Core/Handlers\<close>, \<open>Core/GamePacketHandler.cpp\<close>) and the login (\<open>Core/LoginController.cpp\<close>).

  A \<open>RefPtr<Player>\<close> is a room id and an address in that room's heap, where \<open>JoinRoomHandler\<close> puts
  the player it creates. \<open>EventBus::Publish\<close> pushes a job to the dispatcher: the events published
  and not yet delivered are a list. A request is \<open>None\<close> when its packet does not parse.
\<close>

section \<open>State\<close>

datatype event = SessionDisconnected u64 | RoomJoined u64 int nat | RoomLeft u64

datatype reply = S_EnterLobby bool | S_CreateRoom bool int int | S_RoomList "(int \<times> nat \<times> nat \<times> bool \<times> string \<times> int) list"
  | S_JoinRoom bool int int | S_LeaveRoom bool | S_Pong int | S_Login bool int | S_Chat int string | Close_session

record 'f server =
  sv_rooms :: "(int \<times> string \<times> int \<times> 'f room) list"  \<comment> \<open>\<open>_rooms\<close>: id, title, map, room\<close>
  sv_players :: "(u64 \<times> int \<times> nat) list"            \<comment> \<open>\<open>_players\<close>\<close>
  sv_lobby :: "u64 list"                             \<comment> \<open>\<open>_lobbySessions\<close>\<close>
  sv_nextRoomId :: int                               \<comment> \<open>\<open>nextRoomId\<close> of \<open>CreateRoomHandler\<close>\<close>
  sv_events :: "event list"
  sv_replies :: "(u64 \<times> reply) list"

definition new_server :: "'f server" where
  "new_server = \<lparr> sv_rooms = [], sv_players = [], sv_lobby = [], sv_nextRoomId = 2, sv_events = [], sv_replies = [] \<rparr>"

definition GetRoom :: "'f server \<Rightarrow> int \<Rightarrow> 'f room option" where
  "GetRoom s rid = map_option (\<lambda>(t, m, r). r) (map_of (sv_rooms s) rid)"

definition upd_room :: "int \<Rightarrow> ('f room \<Rightarrow> 'f room) \<Rightarrow> 'f server \<Rightarrow> 'f server" where
  "upd_room rid f s =
     (case map_of (sv_rooms s) rid of
        None \<Rightarrow> s
      | Some (t, m, r) \<Rightarrow> s\<lparr> sv_rooms := AList.update rid (t, m, f r) (sv_rooms s) \<rparr>)"

definition GetPlayer :: "'f server \<Rightarrow> u64 \<Rightarrow> (int \<times> nat) option" where
  "GetPlayer s sid = map_of (sv_players s) sid"

text \<open>\<open>GetRoom(player->GetRoomId())\<close>: the id of the room the player says it is in, if it exists.\<close>

definition room_of :: "'f server \<Rightarrow> int \<times> nat \<Rightarrow> int option" where
  "room_of s ptr =
     (case Option.bind (GetRoom s (fst ptr)) (\<lambda>r. player_at r (snd ptr)) of
        None \<Rightarrow> None
      | Some p \<Rightarrow> if GetRoom s (pl_currentRoomId p) = None then None else Some (pl_currentRoomId p))"

definition Publish :: "event \<Rightarrow> 'f server \<Rightarrow> 'f server" where
  "Publish e s = s\<lparr> sv_events := sv_events s @ [e] \<rparr>"

definition Reply :: "u64 \<Rightarrow> reply \<Rightarrow> 'f server \<Rightarrow> 'f server" where
  "Reply sid m s = s\<lparr> sv_replies := sv_replies s @ [(sid, m)] \<rparr>"

section \<open>Rooms, players and lobby\<close>

text \<open>\<open>CreateRoom\<close>; the framework always provides a timer and a strand.\<close>

definition CreateRoom :: "room_in \<Rightarrow> int \<Rightarrow> string \<Rightarrow> int \<Rightarrow> 'f::zero server \<Rightarrow> 'f server" where
  "CreateRoom I rid title mapId s =
     s\<lparr> sv_rooms := AList.update rid (title, mapId, Room_Start I (empty_room rid)) (sv_rooms s) \<rparr>"

definition Init :: "room_in \<Rightarrow> 'f::zero server \<Rightarrow> 'f server" where
  "Init I s = (if sv_rooms s = [] then CreateRoom I 1 ''Default Room'' 1 s else s)"

text \<open>\<open>Cleanup\<close>: the rooms are stopped and let go; the result has the stopped rooms.\<close>

definition Cleanup_rooms :: "'f server \<Rightarrow> 'f room list \<times> 'f server" where
  "Cleanup_rooms s =
     (map (\<lambda>(rid, t, m, r). Stop r) (sv_rooms s), s\<lparr> sv_rooms := [], sv_players := [], sv_lobby := [] \<rparr>)"

definition DestroyRoom :: "int \<Rightarrow> 'f server \<Rightarrow> 'f room option \<times> 'f server" where
  "DestroyRoom rid s =
     (if rid = 1 then (None, s)
      else case GetRoom s rid of
             None \<Rightarrow> (None, s)
           | Some r \<Rightarrow> (Some (Stop r), s\<lparr> sv_rooms := AList.delete rid (sv_rooms s) \<rparr>))"

definition RegisterPlayer :: "u64 \<Rightarrow> int \<times> nat \<Rightarrow> 'f server \<Rightarrow> 'f server" where
  "RegisterPlayer sid ptr s = s\<lparr> sv_players := AList.update sid ptr (sv_players s) \<rparr>"

definition UnregisterPlayer :: "u64 \<Rightarrow> 'f server \<Rightarrow> 'f server" where
  "UnregisterPlayer sid s = s\<lparr> sv_players := AList.delete sid (sv_players s) \<rparr>"

definition IsInLobby :: "'f server \<Rightarrow> u64 \<Rightarrow> bool" where
  "IsInLobby s sid \<longleftrightarrow> sid \<in> set (sv_lobby s)"

definition EnterLobby :: "u64 \<Rightarrow> 'f server \<Rightarrow> 'f server" where
  "EnterLobby sid s = (if IsInLobby s sid then s else s\<lparr> sv_lobby := sv_lobby s @ [sid] \<rparr>)"

definition LeaveLobby :: "u64 \<Rightarrow> 'f server \<Rightarrow> 'f server" where
  "LeaveLobby sid s = s\<lparr> sv_lobby := filter (\<lambda>x. x \<noteq> sid) (sv_lobby s) \<rparr>"

section \<open>Events\<close>

text \<open>The player leaves the room it is in, as far as it says so.\<close>

definition leave_current :: "'f::zero game_env \<Rightarrow> u64 \<Rightarrow> int \<times> nat \<Rightarrow> 'f server \<Rightarrow> 'f server" where
  "leave_current E sid ptr s = (case room_of s ptr of None \<Rightarrow> s | Some rid \<Rightarrow> upd_room rid (Leave E sid) s)"

definition HandleSessionDisconnected :: "'f::zero game_env \<Rightarrow> u64 \<Rightarrow> 'f server \<Rightarrow> 'f server" where
  "HandleSessionDisconnected E sid s =
     (let s1 = (if IsInLobby s sid then LeaveLobby sid s else s)
      in case GetPlayer s1 sid of
           None \<Rightarrow> s1
         | Some ptr \<Rightarrow> UnregisterPlayer sid (leave_current E sid ptr s1))"

definition HandleRoomJoined :: "u64 \<Rightarrow> int \<times> nat \<Rightarrow> 'f server \<Rightarrow> 'f server" where
  "HandleRoomJoined sid ptr s = RegisterPlayer sid ptr (LeaveLobby sid s)"

definition HandleRoomLeft :: "'f::zero game_env \<Rightarrow> u64 \<Rightarrow> 'f server \<Rightarrow> 'f server" where
  "HandleRoomLeft E sid s =
     EnterLobby sid
       (case GetPlayer s sid of
          None \<Rightarrow> s
        | Some ptr \<Rightarrow> UnregisterPlayer sid (leave_current E sid ptr s))"

text \<open>The dispatcher delivers the oldest event.\<close>

definition deliver :: "'f::zero game_env \<Rightarrow> 'f server \<Rightarrow> 'f server" where
  "deliver E s =
     (case sv_events s of
        [] \<Rightarrow> s
      | e # es \<Rightarrow>
          (let s1 = s\<lparr> sv_events := es \<rparr>
           in case e of
                SessionDisconnected sid \<Rightarrow> HandleSessionDisconnected E sid s1
              | RoomJoined sid rid a \<Rightarrow> HandleRoomJoined sid (rid, a) s1
              | RoomLeft sid \<Rightarrow> HandleRoomLeft E sid s1))"

section \<open>Packet handlers\<close>

definition EnterLobbyHandler :: "u64 \<Rightarrow> unit option \<Rightarrow> 'f server \<Rightarrow> 'f server" where
  "EnterLobbyHandler sid req s = (if req = None then s else Reply sid (S_EnterLobby True) (EnterLobby sid s))"

definition CreateRoomHandler :: "room_in \<Rightarrow> u64 \<Rightarrow> (string \<times> int) option \<Rightarrow> 'f::zero server \<Rightarrow> 'f server" where
  "CreateRoomHandler I sid req s =
     (case req of
        None \<Rightarrow> s
      | Some (title, mapId) \<Rightarrow>
          (let rid = sv_nextRoomId s; s1 = s\<lparr> sv_nextRoomId := rid + 1 \<rparr>;
               title' = (if title = [] then ''Room '' @ to_string rid else title)
           in Reply sid (S_CreateRoom True rid mapId) (CreateRoom I rid title' mapId s1)))"

definition GetRoomListHandler :: "u64 \<Rightarrow> bool option \<Rightarrow> 'f server \<Rightarrow> 'f server" where
  "GetRoomListHandler sid req s =
     (case req of
        None \<Rightarrow> s
      | Some joinable \<Rightarrow>
          Reply sid (S_RoomList (map (\<lambda>(rid, t, m, r). (rm_roomId r, GetPlayerCount r, 4, rm_gameStarted r, t, m))
            (filter (\<lambda>(rid, t, m, r). \<not> (joinable \<and> rm_gameStarted r)) (sv_rooms s)))) s)"

text \<open>\<open>popped\<close> is the object the player pool hands out.\<close>

definition JoinRoomHandler ::
  "'f::{zero,plus,times} game_env \<Rightarrow> room_in \<Rightarrow> 'f Player option \<Rightarrow> u64 \<Rightarrow> int option \<Rightarrow> 'f server \<Rightarrow> 'f server" where
  "JoinRoomHandler E I popped sid req s =
     (case req of
        None \<Rightarrow> s
      | Some rid \<Rightarrow>
          (case map_of (sv_rooms s) rid of
             None \<Rightarrow> s
           | Some (t, m, r) \<Rightarrow>
               if GetPlayer s sid \<noteq> None then s
               else (let p = (CreatePlayer E popped (game_id sid) sid)\<lparr> pl_name := ''Survivor_'' @ to_string (game_id sid) \<rparr>;
                         (a, r1) = new_obj (PlayerObj p) r;
                         s1 = Reply sid (S_JoinRoom True rid m) s;
                         s2 = s1\<lparr> sv_rooms := AList.update rid (t, m, Enter E I a r1) (sv_rooms s1) \<rparr>
                     in Publish (RoomJoined sid rid a) s2)))"

definition LeaveRoomHandler :: "u64 \<Rightarrow> unit option \<Rightarrow> 'f server \<Rightarrow> 'f server" where
  "LeaveRoomHandler sid req s =
     (if req = None then s else Reply sid (S_LeaveRoom True) (Publish (RoomLeft sid) s))"

definition GameReadyHandler :: "'f::{zero,plus,times} game_env \<Rightarrow> room_in \<Rightarrow> u64 \<Rightarrow> 'f server \<Rightarrow> 'f server" where
  "GameReadyHandler E I sid s =
     (case Option.bind (GetPlayer s sid) (room_of s) of
        None \<Rightarrow> s
      | Some rid \<Rightarrow> upd_room rid (OnPlayerReady E I sid) s)"

text \<open>The two handlers that post to the room's strand, and only if it has one.\<close>

definition post_to_room :: "u64 \<Rightarrow> (nat \<Rightarrow> task) \<Rightarrow> 'f server \<Rightarrow> 'f server" where
  "post_to_room sid t s =
     (case GetPlayer s sid of
        None \<Rightarrow> s
      | Some ptr \<Rightarrow> (case room_of s ptr of None \<Rightarrow> s | Some rid \<Rightarrow> upd_room rid (Post_if (t (snd ptr))) s))"

definition MoveInputHandler :: "u64 \<Rightarrow> (u32 \<times> int \<times> int) option \<Rightarrow> 'f server \<Rightarrow> 'f server" where
  "MoveInputHandler sid req s =
     (case req of None \<Rightarrow> s | Some (tick, dx, dy) \<Rightarrow> post_to_room sid (\<lambda>a. DoInput a tick dx dy) s)"

definition SelectLevelUpHandler :: "u64 \<Rightarrow> int option \<Rightarrow> 'f server \<Rightarrow> 'f server" where
  "SelectLevelUpHandler sid req s =
     (case req of None \<Rightarrow> s | Some idx \<Rightarrow> post_to_room sid (\<lambda>a. DoSelect a idx) s)"

definition PingHandler :: "u64 \<Rightarrow> int option \<Rightarrow> 'f server \<Rightarrow> 'f server" where
  "PingHandler sid req s =
     (case req of
        None \<Rightarrow> s
      | Some t \<Rightarrow> if GetPlayer s sid \<noteq> None \<or> IsInLobby s sid then Reply sid (S_Pong t) s else Reply sid Close_session s)"

definition OnSessionDisconnect :: "u64 \<Rightarrow> 'f server \<Rightarrow> 'f server" where
  "OnSessionDisconnect sid s = Publish (SessionDisconnected sid) s"

section \<open>Login\<close>

text \<open>
  The transaction of \<open>LoginController::OnLogin\<close>. The database is a parameter: \<open>select\<close> answers the
  password of a user name (outer \<open>None\<close>: the query failed, inner \<open>None\<close>: no such row), \<open>register\<close>
  whether an insertion succeeds.
\<close>

definition login_check :: "(string \<Rightarrow> string option option) \<Rightarrow> (string \<Rightarrow> string \<Rightarrow> bool) \<Rightarrow> string \<Rightarrow> string \<Rightarrow> bool" where
  "login_check select register user password =
     (case select user of
        Some (Some stored) \<Rightarrow> stored = password
      | _ \<Rightarrow> register user password)"

text \<open>The completion on the main thread; the answer travels through the default room.\<close>

definition login_done :: "u64 \<Rightarrow> bool \<Rightarrow> 'f server \<Rightarrow> 'f server" where
  "login_done sid success s =
     (let s1 = (if success then EnterLobby sid s else s)
      in if GetRoom s1 1 = None then s1
         else Reply sid (S_Login success (if success then game_id sid else 0)) s1)"

lemmas manager_defs [conc] = GetRoom_def upd_room_def GetPlayer_def room_of_def Publish_def Reply_def CreateRoom_def
  Init_def Cleanup_rooms_def DestroyRoom_def RegisterPlayer_def UnregisterPlayer_def IsInLobby_def EnterLobby_def
  LeaveLobby_def leave_current_def HandleSessionDisconnected_def HandleRoomJoined_def HandleRoomLeft_def deliver_def
  EnterLobbyHandler_def to_string_def CreateRoomHandler_def GetRoomListHandler_def JoinRoomHandler_def
  LeaveRoomHandler_def GameReadyHandler_def post_to_room_def MoveInputHandler_def SelectLevelUpHandler_def
  PingHandler_def OnSessionDisconnect_def login_check_def login_done_def

section \<open>Every room of a server runs as a room does\<close>

text \<open>
  The steps of a server: the handlers, the delivery of events, and the rooms running on their own.
  A joining session has an id whose 32-bit value is within the range kept free for players.
\<close>

inductive server_step :: "'f::{zero,plus,minus,uminus,times,inverse,ord} game_env \<Rightarrow> 'f server \<Rightarrow> 'f server \<Rightarrow> bool"
  for E :: "'f::{zero,plus,minus,uminus,times,inverse,ord} game_env" where
  sv_init: "server_step E s (Init I s)"
| sv_deliver: "server_step E s (deliver E s)"
| sv_enter_lobby: "server_step E s (EnterLobbyHandler sid req s)"
| sv_create: "server_step E s (CreateRoomHandler I sid req s)"
| sv_list: "server_step E s (GetRoomListHandler sid req s)"
| sv_join: "game_id sid \<le> 1000 \<Longrightarrow> server_step E s (JoinRoomHandler E I popped sid req s)"
| sv_leave: "server_step E s (LeaveRoomHandler sid req s)"
| sv_ready: "server_step E s (GameReadyHandler E I sid s)"
| sv_move: "server_step E s (MoveInputHandler sid req s)"
| sv_select: "server_step E s (SelectLevelUpHandler sid req s)"
| sv_ping: "server_step E s (PingHandler sid req s)"
| sv_disconnect: "server_step E s (OnSessionDisconnect sid s)"
| sv_login: "server_step E s (login_done sid ok s)"
| sv_destroy: "server_step E s (snd (DestroyRoom rid s))"
| sv_cleanup: "server_step E s (snd (Cleanup_rooms s))"
| sv_room: "GetRoom s rid = Some r \<Longrightarrow> room_step E r r' \<Longrightarrow> server_step E s (upd_room rid (\<lambda>_. r') s)"

definition rooms_run :: "'f::{zero,plus,minus,uminus,times,inverse,ord} game_env \<Rightarrow> 'f server \<Rightarrow> bool" where
  "rooms_run E s \<longleftrightarrow> (\<forall>(rid, t, m, r) \<in> set (sv_rooms s). (room_step E)\<^sup>*\<^sup>* (empty_room rid) r)"

lemma rooms_run_fields [simp]:
  "rooms_run E (s\<lparr> sv_players := v1 \<rparr>) = rooms_run E s" "rooms_run E (s\<lparr> sv_lobby := v2 \<rparr>) = rooms_run E s"
  "rooms_run E (s\<lparr> sv_nextRoomId := v3 \<rparr>) = rooms_run E s" "rooms_run E (s\<lparr> sv_events := v4 \<rparr>) = rooms_run E s"
  "rooms_run E (s\<lparr> sv_replies := v5 \<rparr>) = rooms_run E s"
  by (simp_all add: rooms_run_def)

lemma rooms_run_update:
  "rooms_run E s \<Longrightarrow> (room_step E)\<^sup>*\<^sup>* (empty_room rid) r \<Longrightarrow> rooms_run E (s\<lparr> sv_rooms := AList.update rid (t, m, r) (sv_rooms s) \<rparr>)"
  by (auto simp: rooms_run_def dest!: set_alist_update)

lemma rooms_run_GetRoom: "rooms_run E s \<Longrightarrow> GetRoom s rid = Some r \<Longrightarrow> (room_step E)\<^sup>*\<^sup>* (empty_room rid) r"
  by (auto simp: rooms_run_def GetRoom_def dest!: map_of_SomeD)

text \<open>An operation that is a step of the room may be applied to any room.\<close>

lemma rooms_run_upd:
  assumes "rooms_run E s" "\<And>r. GetRoom s rid = Some r \<Longrightarrow> (room_step E)\<^sup>*\<^sup>* r (f r)"
  shows "rooms_run E (upd_room rid f s)"
proof (cases "map_of (sv_rooms s) rid")
  case (Some tmr)
  obtain t m r where "tmr = (t, m, r)" by (cases tmr)
  then have g: "map_of (sv_rooms s) rid = Some (t, m, r)" "GetRoom s rid = Some r" using Some by (simp_all add: GetRoom_def)
  have "(room_step E)\<^sup>*\<^sup>* (empty_room rid) (f r)"
    using rooms_run_GetRoom [OF assms(1) g(2)] assms(2) [OF g(2)] by simp
  then show ?thesis using rooms_run_update [OF assms(1)] g(1) by (simp add: upd_room_def)
qed (simp add: upd_room_def assms(1))

lemma rooms_run_lobby [simp]:
  "rooms_run E (EnterLobby sid s) = rooms_run E s" "rooms_run E (LeaveLobby sid s) = rooms_run E s"
  "rooms_run E (Reply sid msg s) = rooms_run E s" "rooms_run E (Publish e s) = rooms_run E s"
  "rooms_run E (UnregisterPlayer sid s) = rooms_run E s" "rooms_run E (RegisterPlayer sid ptr s) = rooms_run E s"
  by (simp_all add: EnterLobby_def LeaveLobby_def Reply_def Publish_def UnregisterPlayer_def RegisterPlayer_def)

lemma rooms_run_leave [simp]: "rooms_run E s \<Longrightarrow> rooms_run E (leave_current E sid ptr s)"
  by (auto simp: leave_current_def intro!: rooms_run_upd step_leave split: option.split)

lemma rooms_run_CreateRoom [simp]: "rooms_run E s \<Longrightarrow> rooms_run E (CreateRoom I rid t m s)"
  unfolding CreateRoom_def by (rule rooms_run_update) (auto intro: step_boot)

lemma rooms_run_deliver [simp]: "rooms_run E s \<Longrightarrow> rooms_run E (deliver E s)"
  by (simp add: deliver_def HandleSessionDisconnected_def HandleRoomJoined_def HandleRoomLeft_def Let_def
      split: list.split event.split option.split)

lemma rooms_run_post:
  "rooms_run E s \<Longrightarrow> (\<And>a r. room_step E r (Post_if (t a) r)) \<Longrightarrow> rooms_run E (post_to_room sid t s)"
  by (auto simp: post_to_room_def intro!: rooms_run_upd split: option.split)

lemma rooms_run_join:
  assumes "rooms_run E s" "game_id sid \<le> 1000"
  shows "rooms_run E (JoinRoomHandler E I popped sid req s)"
proof -
  let ?p = "(CreatePlayer E popped (game_id sid) sid)\<lparr> pl_name := ''Survivor_'' @ to_string (game_id sid) \<rparr>"
  have "rooms_run E (Publish e ((Reply sid msg s)\<lparr> sv_rooms :=
      AList.update rid (t, m, Enter E I (fst (new_obj (PlayerObj ?p) r)) (snd (new_obj (PlayerObj ?p) r))) (sv_rooms s) \<rparr>))"
    if "map_of (sv_rooms s) rid = Some (t, m, r)" for rid t m r e msg
  proof -
    have "GetRoom s rid = Some r" using that by (simp add: GetRoom_def)
    note run = rooms_run_GetRoom [OF assms(1) this]
    have "room_step E r (Enter E I (fst (new_obj (PlayerObj ?p) r)) (snd (new_obj (PlayerObj ?p) r)))"
      by (rule step_join [OF assms(2), where popped = popped]) (rule prod.collapse [symmetric])
    with run have "(room_step E)\<^sup>*\<^sup>* (empty_room rid)
        (Enter E I (fst (new_obj (PlayerObj ?p) r)) (snd (new_obj (PlayerObj ?p) r)))" by (rule rtranclp.rtrancl_into_rtrancl)
    from rooms_run_update [OF assms(1) this] show ?thesis by (simp add: Reply_def Publish_def rooms_run_def)
  qed
  then show ?thesis
    using assms(1) by (auto simp: JoinRoomHandler_def Let_def split_beta Reply_def split: option.split)
qed

lemma server_step_rooms_run: "server_step E s s' \<Longrightarrow> rooms_run E s \<Longrightarrow> rooms_run E s'"
proof (induction rule: server_step.induct)
  case (sv_ready s I sid)
  then show ?case by (auto simp: GameReadyHandler_def intro!: rooms_run_upd step_ready split: option.split)
next
  case (sv_move s sid req)
  then show ?case by (auto simp: MoveInputHandler_def intro!: rooms_run_post step_command split: option.split)
next
  case (sv_select s sid req)
  then show ?case by (auto simp: SelectLevelUpHandler_def intro!: rooms_run_post step_command split: option.split)
next
  case (sv_room s rid r r')
  then show ?case by (intro rooms_run_upd) auto
next
  case (sv_destroy s rid)
  then show ?case by (auto simp: DestroyRoom_def rooms_run_def AList.delete_eq split: option.split)
next
  case (sv_cleanup s)
  then show ?case by (simp add: Cleanup_rooms_def rooms_run_def)
qed (auto simp: Init_def EnterLobbyHandler_def CreateRoomHandler_def GetRoomListHandler_def rooms_run_join
    LeaveRoomHandler_def PingHandler_def OnSessionDisconnect_def login_done_def Let_def split: option.split)


definition demo_server :: "rat server" where
  "demo_server = CreateRoomHandler demo_in 5 (Some ([], 3)) (Init demo_in new_server)"

lemma demo_server_run: "(server_step demo_env)\<^sup>*\<^sup>* new_server demo_server"
  unfolding demo_server_def by (meson rtranclp.rtrancl_into_rtrancl rtranclp.rtrancl_refl sv_create sv_init)


section \<open>A player that leaves too early\<close>

lemma players_frame [simp]:
  "rm_players (AddObject a r) = rm_players r" "rm_players (Post_task t r) = rm_players r"
  "rm_players (StartGame E I r') = rm_players r'"
  by (simp_all add: AddObject_def Post_task_def StartGame_def ExecuteStartGame_def Room_Start_def Waves_Start_def Let_def
      split: option.split)

lemma enter_registers:
  assumes "player_at r a = Some p"
  shows "map_of (rm_players (ExecuteEnter E I a r)) (pl_sessionId p) = Some a"
proof -
  let ?r1 = "r\<lparr> rm_players := AList.update (pl_sessionId p) a (rm_players r), rm_playerCount := rm_playerCount r + 1 \<rparr>"
  let ?r2 = "upd_player a (\<lambda>q. q\<lparr> pl_currentRoomId := rm_roomId r \<rparr>) ?r1"
  have "rm_players ?r2 = rm_players ?r1" by (simp add: upd_player_def put_def split: option.split obj.split)
  moreover have "rm_players (add_defaults E a ?r2) = rm_players ?r2" using coreD [OF core_add_defaults] by blast
  moreover have "map_of (rm_players ?r1) (pl_sessionId p) = Some a" by (simp add: update_conv')
  ultimately show ?thesis using assms by (simp add: ExecuteEnter_def Let_def)
qed

text \<open>A session that disconnects after it was registered but before the room's strand has run its
  entering is unregistered without leaving the room: the handler asks the player for its room, which
  the entering has not set yet. The entering then makes the vanished session a player of the room.
\<close>

theorem early_disconnect_leaves_ghost:
  assumes "map_of (sv_rooms s) rid = Some (t, m, r)" "GetPlayer s sid = None" "sv_events s = []"
    "rm_strand r" "rid \<noteq> 0" "GetRoom s 0 = None"
  shows "\<exists>s' r'. deliver E (OnSessionDisconnect sid (deliver E (JoinRoomHandler E I None sid (Some rid) s))) = s' \<and>
    GetPlayer s' sid = None \<and> GetRoom s' rid = Some r' \<and> rm_queue r' = rm_queue r @ [DoEnter (rm_fresh r)] \<and>
    map_of (rm_players (ExecuteEnter E I (rm_fresh r) r')) sid = Some (rm_fresh r)"
proof -
  let ?p = "(CreatePlayer E None (game_id sid) sid)\<lparr> pl_name := ''Survivor_'' @ to_string (game_id sid) \<rparr>"
  let ?a = "rm_fresh r" let ?r1 = "snd (new_obj (PlayerObj ?p) r)"
  let ?r = "Enter E I ?a ?r1"
  let ?s1 = "(Reply sid (S_JoinRoom True rid m) s)\<lparr> sv_rooms := AList.update rid (t, m, ?r) (sv_rooms s) \<rparr>"
  have r: "?r = Post_task (DoEnter ?a) ?r1" using assms(4) by (simp add: Enter_def new_obj_def put_def)
  have p: "player_at ?r ?a = Some ?p" "rm_queue ?r = rm_queue r @ [DoEnter ?a]"
    unfolding r by (simp_all add: Post_task_def player_at_def new_obj_def put_def)
  have room: "pl_currentRoomId ?p = 0" "pl_sessionId ?p = sid"
    by (simp_all add: CreatePlayer_def Player_Initialize_def new_player_def Let_def)
  have join: "JoinRoomHandler E I None sid (Some rid) s = Publish (RoomJoined sid rid ?a) ?s1"
    using assms(1,2) by (simp add: JoinRoomHandler_def Let_def new_obj_def Reply_def)
  define s2 where "s2 = deliver E (Publish (RoomJoined sid rid ?a) ?s1)"
  have s2: "sv_events s2 = []" "GetPlayer s2 sid = Some (rid, ?a)" "sv_rooms s2 = AList.update rid (t, m, ?r) (sv_rooms s)"
    using assms(3)
    by (simp_all add: s2_def deliver_def Publish_def Reply_def HandleRoomJoined_def RegisterPlayer_def LeaveLobby_def
        GetPlayer_def update_conv')
  define s3 where "s3 = (if IsInLobby s2 sid then LeaveLobby sid s2 else s2)"
  have s3: "GetPlayer s3 sid = Some (rid, ?a)" "sv_rooms s3 = AList.update rid (t, m, ?r) (sv_rooms s)"
    using s2 by (simp_all add: s3_def LeaveLobby_def GetPlayer_def)
  have g3: "GetRoom s3 rid = Some ?r" "GetRoom s3 0 = None"
    using assms(5,6) s3(2) by (simp_all add: GetRoom_def update_conv')
  have "room_of s3 (rid, ?a) = None" using g3 p(1) room(1) by (simp add: room_of_def)
  then have h: "HandleSessionDisconnected E sid s2 = UnregisterPlayer sid s3"
    using s3(1) by (simp add: HandleSessionDisconnected_def Let_def s3_def [symmetric] leave_current_def)
  have same: "s2\<lparr> sv_events := [] \<rparr> = s2" using s2(1) by (cases s2) simp
  have "deliver E (OnSessionDisconnect sid s2) = HandleSessionDisconnected E sid (s2\<lparr> sv_events := [] \<rparr>)"
    using s2(1) by (simp add: deliver_def OnSessionDisconnect_def Publish_def)
  then have "deliver E (OnSessionDisconnect sid s2) = UnregisterPlayer sid s3" unfolding same h .
  then have d: "deliver E (OnSessionDisconnect sid (deliver E (JoinRoomHandler E I None sid (Some rid) s))) = UnregisterPlayer sid s3"
    unfolding join s2_def [symmetric] .
  have "GetPlayer (UnregisterPlayer sid s3) sid = None" "GetRoom (UnregisterPlayer sid s3) rid = Some ?r"
    using g3(1) by (simp_all add: UnregisterPlayer_def GetPlayer_def GetRoom_def AList.delete_conv')
  moreover have "map_of (rm_players (ExecuteEnter E I ?a ?r)) sid = Some ?a"
    using enter_registers [OF p(1)] room(2) by simp
  ultimately show ?thesis using d p(2) by blast
qed

theorem early_disconnect_leaves_ghost_witness:
  "\<exists>s'. deliver demo_env (OnSessionDisconnect 7 (deliver demo_env
        (JoinRoomHandler demo_env demo_in None 7 (Some 1) (Init demo_in new_server)))) = s' \<and>
     GetPlayer s' 7 = None \<and> (\<exists>r. GetRoom s' 1 = Some r \<and> rm_queue r = [DoEnter 0])"
proof -
  let ?s = "Init demo_in new_server :: rat server" let ?r = "Room_Start demo_in (empty_room 1) :: rat room"
  have "map_of (sv_rooms ?s) 1 = Some (''Default Room'', 1, ?r)" "GetPlayer ?s 7 = None" "sv_events ?s = []"
    "rm_strand ?r" "(1::int) \<noteq> 0" "GetRoom ?s 0 = None" "rm_queue ?r = []" "rm_fresh ?r = 0"
    by (simp_all add: Init_def CreateRoom_def new_server_def GetPlayer_def GetRoom_def Room_Start_def empty_room_def)
  from early_disconnect_leaves_ghost [OF this(1-6), of demo_env demo_in] this(7,8) show ?thesis by auto
qed

end
