(* ===== verification/Game_Commands.thy ===== *)
theory Game_Commands
  imports Room_Manager
begin

text \<open>
  Text commands: the console of the server process (\<open>System/Console/CommandConsole.cpp\<close>), the commands of the game
  (\<open>Game/CommandManager.cpp\<close>), how \<open>ServerApp::RegisterConsoleCommands\<close> connects the two, the chat
  (\<open>Core/Handlers/Game/ChatHandler.cpp\<close>) with the lobby broadcast of \<open>RoomManager\<close>, and the
  debug overlay (\<open>Game/Room_Broadcast.cpp\<close>).

  A command of a player touches the player object at once, on the thread of the dispatcher, and not
  on the strand of its room; it is modelled as a step of its own, so interleavings with tasks of the
  strand are those between whole steps.  \<open>None\<close> as the result of a command is a loop that does not end.
\<close>

section \<open>Commands of the game\<close>

record CommandContext =
  cc_sessionId :: u64
  cc_roomId :: int
  cc_isGM :: bool

definition FromServer :: "CommandContext \<Rightarrow> bool" where
  "FromServer ctx \<longleftrightarrow> cc_sessionId ctx = 0"

datatype command = Levelup | SpawnMonsters | God | AddWeapon | RemoveWeaponCmd | AddPassive | RemovePassiveCmd | Ai

type_synonym commands = "(string \<times> string \<times> command) list"  \<comment> \<open>\<open>_commands\<close>: command, description, handler\<close>

definition RegisterCommand :: "string \<Rightarrow> string \<Rightarrow> command \<Rightarrow> commands \<Rightarrow> commands" where
  "RegisterCommand cmd desc h cs = AList.update cmd (desc, h) cs"

definition Commands_Init :: "commands \<Rightarrow> commands" where
  "Commands_Init cs = fold (\<lambda>(cmd, desc, h). RegisterCommand cmd desc h)
     [(''/levelup'', ''Add EXP to players (Usage: /levelup [amount])'', Levelup),
      (''/spawn'', ''Spawn monsters (Usage: /spawn [id] [count])'', SpawnMonsters),
      (''/god'', ''Toggle God Mode'', God),
      (''/add_weapon'', ''Add or upgrade weapon (Usage: /add_weapon [id])'', AddWeapon),
      (''/remove_weapon'', ''Remove weapon (Usage: /remove_weapon [id])'', RemoveWeaponCmd),
      (''/add_passive'', ''Add or upgrade passive (Usage: /add_passive [id])'', AddPassive),
      (''/remove_passive'', ''Remove passive (Usage: /remove_passive [id])'', RemovePassiveCmd),
      (''/ai'', ''Change AI strategy (Usage: /ai [strict|smart|fluid|surround|vampire])'', Ai)] cs"

definition GetAllRooms :: "'f server \<Rightarrow> int list" where
  "GetAllRooms s = map fst (sv_rooms s)"

definition in_all_rooms :: "('f room \<Rightarrow> 'f room) \<Rightarrow> 'f server \<Rightarrow> 'f server" where
  "in_all_rooms f s = fold (\<lambda>rid. upd_room rid f) (GetAllRooms s) s"

text \<open>\<open>Player::AddExp\<close> without a room: the experience counts, but nothing is sent and no choice is offered.\<close>

definition AddExp_no_room :: "int \<Rightarrow> nat \<Rightarrow> 'f room \<Rightarrow> 'f room option" where
  "AddExp_no_room amount a r =
     (case player_at r a of
        None \<Rightarrow> Some r
      | Some p \<Rightarrow>
          if pl_isLevelingUp p then Some r
          else map_option (\<lambda>(e, mx, l). put a (PlayerObj (p\<lparr> pl_exp := e, pl_maxExp := mx, pl_plevel := l \<rparr>)) r)
                 (exp_loop (pl_exp p + amount) (pl_maxExp p) (pl_plevel p)))"

text \<open>An operation on a room that may not return, applied inside the server.\<close>

definition try_room :: "int \<Rightarrow> ('f room \<Rightarrow> 'f room option) \<Rightarrow> 'f server \<Rightarrow> 'f server option" where
  "try_room rid f s =
     (case GetRoom s rid of None \<Rightarrow> Some s | Some r \<Rightarrow> map_option (\<lambda>r'. upd_room rid (\<lambda>_. r') s) (f r))"

definition cmd_levelup ::
  "'f::{zero,plus,minus,uminus,times,inverse,ord} game_env \<Rightarrow> (nat \<Rightarrow> int \<Rightarrow> int) \<Rightarrow> CommandContext \<Rightarrow> string list \<Rightarrow> 'f server \<Rightarrow> 'f server option" where
  "cmd_levelup E dis ctx args s =
     (let n = (case args of [] \<Rightarrow> 100 | x # _ \<Rightarrow> (case stoi x of None \<Rightarrow> 100 | Some n \<Rightarrow> n))
      in if FromServer ctx then Some (in_all_rooms (DebugAddExpToAll n) s)
         else case GetPlayer s (cc_sessionId ctx) of
                None \<Rightarrow> Some s
              | Some ptr \<Rightarrow> (case room_of s ptr of
                    None \<Rightarrow> try_room (fst ptr) (AddExp_no_room n (snd ptr)) s
                  | Some rid \<Rightarrow> try_room rid (AddExp E dis n (snd ptr)) s))"

definition cmd_spawn :: "CommandContext \<Rightarrow> string list \<Rightarrow> 'f server \<Rightarrow> 'f server" where
  "cmd_spawn ctx args s =
     (case args of
        x # y # _ \<Rightarrow> (case (stoi x, stoi y) of
            (Some ty, Some n) \<Rightarrow> upd_room (cc_roomId ctx) (DebugSpawnMonster ty n) s
          | _ \<Rightarrow> s)
      | _ \<Rightarrow> s)"

text \<open>What a command changes of the object of the player who sent it.\<close>

definition upd_registered :: "u64 \<Rightarrow> ('f Player \<Rightarrow> 'f Player) \<Rightarrow> 'f server \<Rightarrow> 'f server" where
  "upd_registered sid g s =
     (case GetPlayer s sid of None \<Rightarrow> s | Some ptr \<Rightarrow> upd_room (fst ptr) (upd_player (snd ptr) g) s)"

definition cmd_god :: "CommandContext \<Rightarrow> 'f server \<Rightarrow> 'f server" where
  "cmd_god ctx s =
     (if FromServer ctx then in_all_rooms DebugToggleGodMode s
      else upd_registered (cc_sessionId ctx) (\<lambda>p. p\<lparr> pl_godMode := \<not> pl_godMode p \<rparr>) s)"

text \<open>The inventory commands: \<open>f\<close> is the operation on the inventory with its success; after a success the effects and the
  client's copy are refreshed, if the player is in a room.\<close>

definition refresh_in_room :: "'f::{zero,plus,times} game_env \<Rightarrow> int \<times> nat \<Rightarrow> 'f server \<Rightarrow> 'f server" where
  "refresh_in_room E ptr s =
     (case room_of s ptr of None \<Rightarrow> s
      | Some rid \<Rightarrow> upd_room rid (\<lambda>r. SyncInventory E (snd ptr) (RefreshInventoryEffects E (snd ptr) r)) s)"

definition cmd_inventory ::
  "'f::{zero,plus,times} game_env \<Rightarrow> (int \<Rightarrow> PlayerInventory \<Rightarrow> bool \<times> PlayerInventory) \<Rightarrow> CommandContext \<Rightarrow> string list \<Rightarrow> 'f server \<Rightarrow> 'f server" where
  "cmd_inventory E f ctx args s =
     (if args = [] \<or> FromServer ctx then s
      else case stoi (hd args) of
             None \<Rightarrow> s
           | Some i \<Rightarrow> (case GetPlayer s (cc_sessionId ctx) of
                 None \<Rightarrow> s
               | Some ptr \<Rightarrow> (case Option.bind (GetRoom s (fst ptr)) (\<lambda>r. player_at r (snd ptr)) of
                     None \<Rightarrow> s
                   | Some p \<Rightarrow>
                       (let (ok, v) = f i (pl_inventory p);
                            s1 = upd_room (fst ptr) (upd_player (snd ptr) (\<lambda>p. p\<lparr> pl_inventory := v \<rparr>)) s
                        in if ok then refresh_in_room E ptr s1 else s1))))"

definition cmd_ai :: "CommandContext \<Rightarrow> string list \<Rightarrow> 'f server \<Rightarrow> 'f server" where
  "cmd_ai ctx args s = (case args of [] \<Rightarrow> s | st # _ \<Rightarrow> upd_room (cc_roomId ctx) (SetMonsterStrategy st) s)"

definition run_command ::
  "'f::{zero,plus,minus,uminus,times,inverse,ord} game_env \<Rightarrow> (nat \<Rightarrow> int \<Rightarrow> int) \<Rightarrow> CommandContext \<Rightarrow> command \<Rightarrow> string list \<Rightarrow> 'f server \<Rightarrow> 'f server option" where
  "run_command E dis ctx h args s = (case h of
      Levelup \<Rightarrow> cmd_levelup E dis ctx args s
    | SpawnMonsters \<Rightarrow> Some (cmd_spawn ctx args s)
    | God \<Rightarrow> Some (cmd_god ctx s)
    | AddWeapon \<Rightarrow> Some (cmd_inventory E (AddOrUpgradeWeapon (ge_dm E)) ctx args s)
    | RemoveWeaponCmd \<Rightarrow> Some (cmd_inventory E (\<lambda>i v. (True, RemoveWeapon i v)) ctx args s)
    | AddPassive \<Rightarrow> Some (cmd_inventory E (AddOrUpgradePassive (ge_dm E)) ctx args s)
    | RemovePassiveCmd \<Rightarrow> Some (cmd_inventory E (\<lambda>i v. (True, RemovePassive i v)) ctx args s)
    | Ai \<Rightarrow> Some (cmd_ai ctx args s))"

text \<open>\<open>Execute\<close>; the branch for players without rights is empty in the source.\<close>

definition Commands_Execute ::
  "'f::{zero,plus,minus,uminus,times,inverse,ord} game_env \<Rightarrow> (nat \<Rightarrow> int \<Rightarrow> int) \<Rightarrow> commands \<Rightarrow> CommandContext \<Rightarrow> string \<Rightarrow> 'f server \<Rightarrow> 'f server option" where
  "Commands_Execute E dis cs ctx line s =
     (if line = [] \<or> hd line \<noteq> CHR ''/'' then Some s
      else case words line of
             [] \<Rightarrow> Some s
           | cmd # args \<Rightarrow> (case map_of cs cmd of None \<Rightarrow> Some s | Some (_, h) \<Rightarrow> run_command E dis ctx h args s))"

section \<open>The console\<close>

datatype console_handler = CStatus | CReload | CHelp | CQuit | CGame string  \<comment> \<open>the last one captures its command\<close>

record console =
  con_running :: bool
  con_commands :: "(string \<times> string \<times> console_handler) list"

definition Console_RegisterCommand :: "string \<times> string \<times> console_handler \<Rightarrow> console \<Rightarrow> console" where
  "Console_RegisterCommand d c = (case d of (cmd, desc, h) \<Rightarrow> c\<lparr> con_commands := AList.update cmd (desc, h) (con_commands c) \<rparr>)"

definition UnregisterCommand :: "string \<Rightarrow> console \<Rightarrow> console" where
  "UnregisterCommand cmd c = c\<lparr> con_commands := AList.delete cmd (con_commands c) \<rparr>"

definition CommandConsole :: console where
  "CommandConsole = fold Console_RegisterCommand
     [(''/status'', ''Show server status'', CStatus), (''/reload'', ''Reload configuration'', CReload),
      (''/help'', ''List available commands'', CHelp), (''/quit'', ''Shutdown server'', CQuit)]
     \<lparr> con_running = False, con_commands = [] \<rparr>"

text \<open>\<open>ServerApp::RegisterConsoleCommands\<close>: the map of commands is visited in the order of its keys, which makes no difference
  to the resulting table of distinct commands.\<close>

definition RegisterConsoleCommands :: "commands \<Rightarrow> console \<Rightarrow> console" where
  "RegisterConsoleCommands cs c = fold (\<lambda>(cmd, desc, h). Console_RegisterCommand (cmd, desc, CGame cmd)) cs c"

definition console_ctx :: CommandContext where
  "console_ctx = \<lparr> cc_sessionId = 0, cc_roomId = 1, cc_isGM = True \<rparr>"

definition ProcessCommand :: "string \<Rightarrow> console \<Rightarrow> (console_handler \<times> string list) option" where
  "ProcessCommand line c =
     (case words line of [] \<Rightarrow> None
      | cmd # args \<Rightarrow> map_option (\<lambda>(_, h). (h, args)) (map_of (con_commands c) cmd))"

text \<open>The line the captured function builds again from the command and its arguments.\<close>

definition console_game_line :: "string \<Rightarrow> string list \<Rightarrow> string" where
  "console_game_line cmd args = cmd @ join_words args"

datatype 'f console_result = Continue "'f server" | Exit_process

definition console_command ::
  "'f::{zero,plus,minus,uminus,times,inverse,ord} game_env \<Rightarrow> (nat \<Rightarrow> int \<Rightarrow> int) \<Rightarrow> commands \<Rightarrow> string \<Rightarrow> console \<Rightarrow> 'f server \<Rightarrow> 'f console_result option" where
  "console_command E dis cs line c s = (case ProcessCommand line c of
      Some (CQuit, _) \<Rightarrow> Some Exit_process
    | Some (CGame cmd, args) \<Rightarrow> map_option Continue (Commands_Execute E dis cs console_ctx (console_game_line cmd args) s)
    | _ \<Rightarrow> Some (Continue s))"

text \<open>The input thread of \<open>Start\<close>: empty lines are skipped, the end of the input or \<open>Stop\<close> ends it.\<close>

fun input_thread ::
  "'f::{zero,plus,minus,uminus,times,inverse,ord} game_env \<Rightarrow> (nat \<Rightarrow> int \<Rightarrow> int) \<Rightarrow> commands \<Rightarrow> string list \<Rightarrow> console \<Rightarrow> 'f server \<Rightarrow> 'f console_result option" where
  "input_thread E dis cs [] c s = Some (Continue s)"
| "input_thread E dis cs (line # lines) c s =
     (if \<not> con_running c then Some (Continue s)
      else if line = [] then input_thread E dis cs lines c s
      else case console_command E dis cs line c s of
             None \<Rightarrow> None
           | Some Exit_process \<Rightarrow> Some Exit_process
           | Some (Continue s1) \<Rightarrow> input_thread E dis cs lines c s1)"

definition Console_Start :: "console \<Rightarrow> bool \<times> console" where
  "Console_Start c = (\<not> con_running c, c\<lparr> con_running := True \<rparr>)"

definition Console_Stop :: "console \<Rightarrow> console" where
  "Console_Stop c = c\<lparr> con_running := False \<rparr>"

section \<open>Chat\<close>

text \<open>The result: the server and what is published on the topic \<open>LobbyChat\<close>.\<close>

definition ChatHandler ::
  "'f::{zero,plus,minus,uminus,times,inverse,ord} game_env \<Rightarrow> (nat \<Rightarrow> int \<Rightarrow> int) \<Rightarrow> commands \<Rightarrow> u64 \<Rightarrow> string option \<Rightarrow> 'f server
    \<Rightarrow> ('f server \<times> (int \<times> string) list) option" where
  "ChatHandler E dis cs sid req s =
     (case req of
        None \<Rightarrow> Some (s, [])
      | Some msg \<Rightarrow>
          if IsInLobby s sid then Some (s, [(game_id sid, msg)])
          else case GetPlayer s sid of
                 None \<Rightarrow> Some (s, [])
               | Some ptr \<Rightarrow>
                   if msg \<noteq> [] \<and> hd msg = CHR ''/''
                   then (let rid = (case Option.bind (GetRoom s (fst ptr)) (\<lambda>r. player_at r (snd ptr)) of None \<Rightarrow> 0 | Some p \<Rightarrow> pl_currentRoomId p);
                             ctx = \<lparr> cc_sessionId = sid, cc_roomId = rid, cc_isGM = True \<rparr>
                         in map_option (\<lambda>s1. (Reply sid (S_Chat 0 (''Command processed: '' @ msg)) s1, []))
                              (Commands_Execute E dis cs ctx msg s))
                   else Some (Reply sid (S_Chat (game_id sid) msg) s, []))"

text \<open>
  \<open>BroadcastPacketToLobby\<close>.  On the dispatcher's thread the packet is sent at once; from another thread a
  job per session is pushed that keeps a reference to the packet, and the answer has these jobs.
\<close>

definition BroadcastPacketToLobby :: "bool \<Rightarrow> bool \<Rightarrow> (u64 \<Rightarrow> bool) \<Rightarrow> reply \<Rightarrow> 'f server \<Rightarrow> u64 list \<times> 'f server" where
  "BroadcastPacketToLobby has_dispatcher on_dispatcher connected_session pkt s =
     (if \<not> has_dispatcher then ([], s)
      else if on_dispatcher then ([], fold (\<lambda>sid s. if connected_session sid then Reply sid pkt s else s) (sv_lobby s) s)
      else (sv_lobby s, s))"

text \<open>A pushed job, run later: it dereferences the packet, which only exists until the caller returned.\<close>

definition run_lobby_job :: "reply option \<Rightarrow> (u64 \<Rightarrow> bool) \<Rightarrow> u64 \<Rightarrow> 'f server \<Rightarrow> 'f server option" where
  "run_lobby_job pkt connected_session sid s =
     (if \<not> connected_session sid then Some s else case pkt of None \<Rightarrow> None | Some m \<Rightarrow> Some (Reply sid m s))"

text \<open>The subscription of \<open>ServerApp::InitGameLogic\<close>: a message that does not parse is dropped; the packet is a temporary of
  the callback, which runs on a thread of the message queue.\<close>

definition on_lobby_chat :: "(string \<Rightarrow> (int \<times> string) option) \<Rightarrow> string \<Rightarrow> (u64 \<Rightarrow> bool) \<Rightarrow> 'f server \<Rightarrow> u64 list \<times> 'f server" where
  "on_lobby_chat parse msg connected_session s =
     (case parse msg of None \<Rightarrow> ([], s)
      | Some (p, m) \<Rightarrow> BroadcastPacketToLobby True False connected_session (S_Chat p m) s)"

section \<open>The debug overlay\<close>

record 'f debug_state =
  db_rid :: int
  db_tick :: u32
  db_players :: "(int \<times> 'f \<times> 'f \<times> int \<times> bool) list"
  db_monsters :: "(int \<times> 'f \<times> 'f) list"
  db_projectiles :: "(int \<times> 'f \<times> 'f) list"

definition live_of_type :: "ObjectType \<Rightarrow> 'f room \<Rightarrow> (int \<times> 'f \<times> 'f) list" where
  "live_of_type ty r = map (\<lambda>x. (go_id (base x), go_x (base x), go_y (base x)))
     (filter (\<lambda>x. \<not> IsDead (base x) \<and> GetType x = ty) (objects_at r (GetAllObjects r)))"

text \<open>\<open>BroadcastDebugState\<close> with \<open>_debugBroadcastTimer\<close>; \<open>ws\<close> tells whether there is a WebSocket network.\<close>

definition BroadcastDebugState :: "'f::{minus,ord} flops \<Rightarrow> bool \<Rightarrow> 'f room \<Rightarrow> 'f \<Rightarrow> 'f \<times> 'f debug_state option" where
  "BroadcastDebugState F ws r timer =
     (if rm_totalRunTime r - timer < lit F (5 / 100) then (timer, None)
      else (rm_totalRunTime r,
        if \<not> ws then None
        else Some \<lparr> db_rid = rm_roomId r, db_tick = rm_serverTick r,
          db_players = List.map_filter (\<lambda>(sid, a). map_option (\<lambda>p. (go_id p, go_x p, go_y p, go_hp p, go_lookLeft p)) (player_at r a)) (rm_players r),
          db_monsters = live_of_type MONSTER r, db_projectiles = live_of_type PROJECTILE r \<rparr>))"

definition BroadcastDebugClear :: "bool \<Rightarrow> 'f room \<Rightarrow> int option" where
  "BroadcastDebugClear ws r = (if ws then Some (rm_roomId r) else None)"

section \<open>Commands keep the rooms consistent\<close>

definition rooms_ok :: "'f server \<Rightarrow> bool" where
  "rooms_ok s \<longleftrightarrow> (\<forall>(rid, t, m, r) \<in> set (sv_rooms s). room_ok r)"

text \<open>A registered player is a player object of the room that made it, and in that room or in none.\<close>

definition registered_ok :: "'f server \<Rightarrow> bool" where
  "registered_ok s \<longleftrightarrow> (\<forall>(sid, ptr) \<in> set (sv_players s).
     (\<forall>r. GetRoom s (fst ptr) = Some r \<longrightarrow> is_player (shapes r) (snd ptr)) \<and> room_of s ptr \<in> {None, Some (fst ptr)})"

text \<open>What every command leaves alone.\<close>

definition same_frame :: "'f server \<Rightarrow> 'f server \<Rightarrow> bool" where
  "same_frame s s' \<longleftrightarrow> map fst (sv_rooms s') = map fst (sv_rooms s) \<and> sv_players s' = sv_players s \<and> sv_lobby s' = sv_lobby s \<and>
     sv_events s' = sv_events s \<and> sv_replies s' = sv_replies s"

lemma same_frame_refl [simp]: "same_frame s s"
  by (simp add: same_frame_def)

lemma same_frame_trans: "same_frame s t \<Longrightarrow> same_frame t u \<Longrightarrow> same_frame s u"
  by (simp add: same_frame_def)

lemma upd_room_frame [simp]: "same_frame s (upd_room rid f s)"
  by (auto simp: upd_room_def same_frame_def update_keys dest!: map_of_SomeD split: option.split) (metis image_eqI fst_conv)

lemma upd_room_ok:
  assumes "rooms_ok s" "\<And>r. GetRoom s rid = Some r \<Longrightarrow> room_ok r \<Longrightarrow> room_ok (f r)"
  shows "rooms_ok (upd_room rid f s)"
proof (cases "map_of (sv_rooms s) rid")
  case (Some x)
  then obtain t m r where x: "map_of (sv_rooms s) rid = Some (t, m, r)" by (cases x) auto
  then have "room_ok r" using assms(1) map_of_SomeD [OF x] by (auto simp: rooms_ok_def)
  then have "room_ok (f r)" using assms(2) x by (simp add: GetRoom_def)
  then show ?thesis using x assms(1) by (auto simp: upd_room_def rooms_ok_def dest!: set_alist_update)
qed (use assms(1) in \<open>simp add: upd_room_def\<close>)

lemma rooms_okD: "rooms_ok s \<Longrightarrow> GetRoom s rid = Some r \<Longrightarrow> room_ok r"
  by (auto simp: rooms_ok_def GetRoom_def dest!: map_of_SomeD)

lemma in_all_rooms_ok:
  assumes "rooms_ok s" "\<And>r. room_ok r \<Longrightarrow> room_ok (f r)"
  shows "rooms_ok (in_all_rooms f s) \<and> same_frame s (in_all_rooms f s)"
proof -
  have "rooms_ok (fold (\<lambda>rid. upd_room rid f) rids s') \<and> same_frame s (fold (\<lambda>rid. upd_room rid f) rids s')"
    if "rooms_ok s'" "same_frame s s'" for rids s'
    using that
  proof (induction rids arbitrary: s')
    case (Cons rid rids)
    then show ?case
      using Cons.IH [of "upd_room rid f s'"] upd_room_ok [OF Cons.prems(1), of rid f] assms(2)
        same_frame_trans [OF Cons.prems(2) upd_room_frame, of rid f] by simp
  qed simp
  then show ?thesis using assms(1) by (simp add: in_all_rooms_def)
qed

lemma AddExp_no_room_core:
  assumes "shapes r a = Some (PLAYER, i, Some (sid, True))"
  shows "\<exists>r'. AddExp_no_room n a r = Some r' \<and> core r' = core r"
proof -
  obtain p where p: "rm_heap r a = Some (PlayerObj p)" "level_fits p"
    using assms by (auto simp: shapes_def elim: shape.elims)
  then have p': "player_at r a = Some p" and l: "1 \<le> pl_plevel p" "pl_maxExp p = threshold (pl_plevel p)"
    by (simp_all add: player_at_def level_fits_def)
  obtain e l' where e: "exp_loop (pl_exp p + n) (pl_maxExp p) (pl_plevel p) = Some (e, threshold l', l')" "pl_plevel p \<le> l'"
    using exp_loop_returns [OF l(1), of "pl_exp p + n"] l(2) by auto
  have "level_fits (p\<lparr> pl_exp := e, pl_maxExp := threshold l', pl_plevel := l' \<rparr>)"
    using l(1) e(2) by (simp add: level_fits_def)
  then show ?thesis using p p' e(1) by (auto simp: AddExp_no_room_def)
qed

lemma try_room_ok:
  assumes "rooms_ok s" "\<And>r. GetRoom s rid = Some r \<Longrightarrow> \<exists>r'. f r = Some r' \<and> core r' = core r"
  shows "\<exists>s'. try_room rid f s = Some s' \<and> rooms_ok s' \<and> same_frame s s'"
proof (cases "GetRoom s rid")
  case (Some r)
  then obtain r' where r': "f r = Some r'" "core r' = core r" using assms(2) by blast
  have "room_ok r'" using r'(2) rooms_okD [OF assms(1) Some] by (simp add: room_ok_def)
  then show ?thesis using Some r'(1) upd_room_ok [OF assms(1), of rid "\<lambda>_. r'"] by (simp add: try_room_def)
qed (use assms(1) in \<open>simp add: try_room_def\<close>)

lemma registered_player:
  assumes "registered_ok s" "GetPlayer s sid = Some ptr"
  shows "GetRoom s (fst ptr) = Some r \<Longrightarrow> \<exists>i sd. shapes r (snd ptr) = Some (PLAYER, i, Some (sd, True))"
    "room_of s ptr = Some rid \<Longrightarrow> rid = fst ptr"
  using assms by (force simp: registered_ok_def GetPlayer_def is_player_def dest!: map_of_SomeD)+

lemma levelup_ok:
  assumes "rooms_ok s" "registered_ok s"
  shows "\<exists>s'. cmd_levelup E dis ctx args s = Some s' \<and> rooms_ok s' \<and> same_frame s s'"
proof (cases "FromServer ctx")
  case True
  then show ?thesis using in_all_rooms_ok [OF assms(1)] by (simp add: cmd_levelup_def Let_def DebugAddExpToAll_def)
next
  case False
  note reg = registered_player [OF assms(2)]
  have ok: "\<exists>s'. (case room_of s ptr of None \<Rightarrow> try_room (fst ptr) (AddExp_no_room n (snd ptr)) s
      | Some rid \<Rightarrow> try_room rid (AddExp E dis n (snd ptr)) s) = Some s' \<and> rooms_ok s' \<and> same_frame s s'"
    if "GetPlayer s (cc_sessionId ctx) = Some ptr" for ptr n
    using try_room_ok [OF assms(1), of "fst ptr"] reg(1) [OF that] reg(2) [OF that]
      AddExp_core [of _ "snd ptr" _ _ E dis n] AddExp_no_room_core [of _ "snd ptr" _ _ n]
    by (cases "room_of s ptr") (simp_all, blast+)
  show ?thesis
    using False ok by (cases "GetPlayer s (cc_sessionId ctx)") (simp_all add: cmd_levelup_def Let_def assms(1))
qed

lemma player_change_ok:
  assumes "rooms_ok s" "\<And>p. go_id (g p) = go_id p" "\<And>p. pl_sessionId (g p) = pl_sessionId p" "\<And>p. level_fits (g p) = level_fits p"
  shows "rooms_ok (upd_room rid (upd_player a g) s)"
  using upd_room_ok [OF assms(1), of rid "upd_player a g"] core_upd(2) [of g a, OF assms(2-4)] by (simp add: room_ok_def)

lemma god_ok: "rooms_ok s \<Longrightarrow> rooms_ok (cmd_god ctx s) \<and> same_frame s (cmd_god ctx s)"
  using in_all_rooms_ok [of s DebugToggleGodMode] player_change_ok [of s "\<lambda>p. p\<lparr> pl_godMode := \<not> pl_godMode p \<rparr>"]
  by (auto simp: cmd_god_def upd_registered_def DebugToggleGodMode_def level_fits_def split: option.split)

lemma refresh_ok: "rooms_ok s \<Longrightarrow> rooms_ok (refresh_in_room E ptr s) \<and> same_frame s (refresh_in_room E ptr s)"
  by (auto simp: refresh_in_room_def room_ok_def intro!: upd_room_ok split: option.split)

lemma inventory_cmd_ok: "rooms_ok s \<Longrightarrow> rooms_ok (cmd_inventory E f ctx args s) \<and> same_frame s (cmd_inventory E f ctx args s)"
proof -
  assume s: "rooms_ok s"
  have u: "rooms_ok (upd_room rid (upd_player a (\<lambda>p. p\<lparr> pl_inventory := v \<rparr>)) s)" for rid a v
    by (rule player_change_ok [OF s]) (simp_all add: level_fits_def)
  have fr: "rooms_ok (refresh_in_room E ptr s1) \<and> same_frame s (refresh_in_room E ptr s1)"
    if "s1 = upd_room rid (upd_player a (\<lambda>p. p\<lparr> pl_inventory := v \<rparr>)) s" for s1 rid a v ptr
    using refresh_ok [OF u, of E ptr rid a v] same_frame_trans [OF upd_room_frame] that by blast
  show ?thesis
    using s u fr [OF refl] by (auto simp: cmd_inventory_def Let_def split: option.split prod.split)
qed

lemma spawn_ai_ok:
  "rooms_ok s \<Longrightarrow> rooms_ok (cmd_spawn ctx args s) \<and> same_frame s (cmd_spawn ctx args s)"
  "rooms_ok s \<Longrightarrow> rooms_ok (cmd_ai ctx args s) \<and> same_frame s (cmd_ai ctx args s)"
  by (auto simp: cmd_spawn_def cmd_ai_def DebugSpawnMonster_def SetMonsterStrategy_def intro!: upd_room_ok split: list.split option.split)

lemma run_command_ok:
  assumes "rooms_ok s" "registered_ok s"
  shows "\<exists>s'. run_command E dis ctx h args s = Some s' \<and> rooms_ok s' \<and> same_frame s s'"
  using levelup_ok [OF assms] spawn_ai_ok [OF assms(1)] god_ok [OF assms(1)] inventory_cmd_ok [OF assms(1)]
  by (cases h) (simp_all add: run_command_def)


text \<open>A server with the default room and nobody in it.\<close>

definition quiet_server :: "rat server" where
  "quiet_server = new_server\<lparr> sv_rooms := [(1, ''Default Room'', 1, empty_room 1)] \<rparr>"

lemma quiet_server_ok: "rooms_ok quiet_server" "registered_ok quiet_server"
  by (simp_all add: quiet_server_def rooms_ok_def registered_ok_def new_server_def empty_room_ok)


section \<open>From the console to the game\<close>

lemma registered_console:
  assumes "distinct (map fst cs)" "map_of cs cmd = Some (desc, h)"
  shows "map_of (con_commands (RegisterConsoleCommands cs c)) cmd = Some (desc, CGame cmd)"
proof -
  have keep: "cmd \<notin> fst ` set cs \<Longrightarrow> map_of (con_commands (RegisterConsoleCommands cs c)) cmd = map_of (con_commands c) cmd" for cs c
    by (induction cs arbitrary: c) (auto simp: RegisterConsoleCommands_def Console_RegisterCommand_def update_conv)
  show ?thesis using assms
  proof (induction cs arbitrary: c)
    case (Cons x cs)
    obtain k d g where x: "x = (k, d, g)" by (cases x) auto
    show ?case
    proof (cases "k = cmd")
      case True
      then have "cmd \<notin> fst ` set cs" "d = desc" using Cons.prems x by auto
      then show ?thesis using keep [of cs "Console_RegisterCommand (k, d, CGame k) c"] True x
        by (simp add: RegisterConsoleCommands_def Console_RegisterCommand_def update_conv)
    next
      case False
      then show ?thesis using Cons.IH [of "Console_RegisterCommand (k, d, CGame k) c"] Cons.prems x
        by (simp add: RegisterConsoleCommands_def)
    qed
  qed simp
qed

text \<open>A line typed at the console reaches the game unchanged: although the console takes it apart, the function registered by
  \<open>ServerApp\<close> puts it together again and the game parses it a second time, the handler of exactly that
  command runs with exactly the words typed, as the server; and a command of the game that has the name of a
  command of the console replaces it.\<close>

theorem console_runs_command:
  assumes "words line = cmd # args" "map_of cs cmd = Some (desc, h)" "hd cmd = CHR ''/''" "distinct (map fst cs)"
  shows "console_command E dis cs line (RegisterConsoleCommands cs c) s = map_option Continue (run_command E dis console_ctx h args s)"
proof -
  have w: "is_word cmd" "list_all is_word args"
    using words_are_words [of _ line] assms(1) by (auto simp: list_all_iff)
  then have "words (console_game_line cmd args) = cmd # args" by (simp add: console_game_line_def words_line)
  moreover have "console_game_line cmd args \<noteq> []" "hd (console_game_line cmd args) = CHR ''/''"
    using w(1) assms(3) by (simp_all add: console_game_line_def is_word_def)
  ultimately show ?thesis using assms(1,2) registered_console [OF assms(4,2), of c]
    by (simp add: console_command_def ProcessCommand_def Commands_Execute_def)
qed

lemma game_commands_distinct: "distinct (map fst (Commands_Init []))"
  by code_simp

theorem console_runs_command_witness:
  "console_command demo_env (\<lambda>_ _. 0) (Commands_Init []) ''  /spawn 3   12 '' (RegisterConsoleCommands (Commands_Init []) CommandConsole) quiet_server
     = Some (Continue (upd_room 1 (DebugSpawnMonster 3 12) quiet_server))"
proof -
  have w: "words ''  /spawn 3   12 '' = [''/spawn'', ''3'', ''12'']"
    and m: "map_of (Commands_Init []) ''/spawn'' = Some (''Spawn monsters (Usage: /spawn [id] [count])'', SpawnMonsters)"
    and n: "stoi ''3'' = Some 3" "stoi ''12'' = Some 12" by code_simp+
  show ?thesis
    using console_runs_command [OF w m _ game_commands_distinct, of demo_env "\<lambda>_ _. 0" CommandConsole quiet_server]
    by (simp add: run_command_def cmd_spawn_def console_ctx_def n)
qed

section \<open>What the chat allows\<close>

text \<open>Every registered player can run every command: the chat sets \<open>isGM\<close> for all, and \<open>Execute\<close> does not look at it.\<close>

lemma chat_runs_any_command:
  assumes "\<not> IsInLobby s sid" "GetPlayer s sid = Some ptr" "msg \<noteq> []" "hd msg = CHR ''/''"
  shows "\<exists>ctx. cc_sessionId ctx = sid \<and> ChatHandler E dis cs sid (Some msg) s =
    map_option (\<lambda>s1. (Reply sid (S_Chat 0 (''Command processed: '' @ msg)) s1, [])) (Commands_Execute E dis cs ctx msg s)"
  using assms by (simp add: ChatHandler_def Let_def) (metis CommandContext.select_convs(1))

lemma rights_are_ignored: "Commands_Execute E dis cs (ctx\<lparr> cc_isGM := b \<rparr>) line s = Commands_Execute E dis cs ctx line s"
  by (simp add: Commands_Execute_def run_command_def cmd_levelup_def cmd_spawn_def cmd_god_def cmd_inventory_def cmd_ai_def
      FromServer_def split: list.split option.split command.split)

text \<open>A chat message from the lobby comes back on a thread of the message queue: a job is pushed for every session in the
  lobby, and each that finds its session connected reads a packet that no longer exists.\<close>

lemma lobby_chat_reads_dead_packet:
  assumes "parse msg = Some (p, m)" "sid \<in> set (sv_lobby s)" "connected_session sid"
  shows "sid \<in> set (fst (on_lobby_chat parse msg connected_session s)) \<and> run_lobby_job None connected_session sid s = None"
  using assms by (simp add: on_lobby_chat_def BroadcastPacketToLobby_def run_lobby_job_def)

text \<open>From the dispatcher's own thread the broadcast reaches exactly the connected sessions of the lobby, in order.\<close>

lemma lobby_broadcast_exact:
  "snd (BroadcastPacketToLobby True True conn pkt s) = s\<lparr> sv_replies := sv_replies s @ map (\<lambda>sid. (sid, pkt)) (filter conn (sv_lobby s)) \<rparr>"
proof -
  have "fold (\<lambda>sid s. if conn sid then Reply sid pkt s else s) xs s0 = s0\<lparr> sv_replies := sv_replies s0 @ map (\<lambda>sid. (sid, pkt)) (filter conn xs) \<rparr>" for xs s0
    by (induction xs arbitrary: s0) (simp_all add: Reply_def)
  then show ?thesis by (simp add: BroadcastPacketToLobby_def)
qed

end
