(* ===== verification/Mysql_Driver.thy ===== *)
theory Mysql_Driver
  imports Sqlite_Driver
begin

text \<open>
  \<open>System/Drivers/MySQL\<close>: the connection, prepared statement and result set classes over the client library,
  and \<open>CreateMySQL\<close>, which reads the address of the server out of the configuration.

  The library is the record \<open>mysql\<close> of functions on what a \<^verbatim>\<open>MYSQL *\<close> points to; \<open>None\<close> is a null pointer.  A stored
  result is a list of rows of cells, where a null cell is \<open>None\<close>.  The bind structures of a prepared statement point
  into the vectors of values that the statement keeps; they are modelled as such pointers.
  As a status \<open>None\<close> is undefined behaviour (a call on a null handle).
\<close>

section \<open>The client library\<close>

type_synonym mysql_row = "string option list"

record mysql_res =
  res_fields :: nat
  res_rows :: "mysql_row list"

record MySQLConfig =
  Host :: string
  Port :: int
  User :: string
  Password :: string
  Database :: string

record ('m, 'f) mysql =
  mysql_init :: "'m option"
  mysql_real_connect :: "MySQLConfig \<Rightarrow> 'm \<Rightarrow> bool \<times> 'm"
  mysql_set_character_set :: "string \<Rightarrow> 'm \<Rightarrow> 'm"
  mysql_ping :: "'m \<Rightarrow> bool \<times> 'm"
  mysql_query :: "string \<Rightarrow> 'm \<Rightarrow> bool \<times> 'm"
  mysql_store_result :: "'m \<Rightarrow> mysql_res option \<times> 'm"
  mysql_field_count :: "'m \<Rightarrow> nat"
  mysql_error :: "'m \<Rightarrow> string"
  mysql_autocommit :: "bool \<Rightarrow> 'm \<Rightarrow> bool \<times> 'm"
  mysql_commit :: "'m \<Rightarrow> bool \<times> 'm"
  mysql_rollback :: "'m \<Rightarrow> bool \<times> 'm"
  mysql_stmt_init :: "'m \<Rightarrow> nat option \<times> 'm"
  mysql_stmt_prepare :: "nat \<Rightarrow> string \<Rightarrow> 'm \<Rightarrow> bool \<times> 'm"
  mysql_stmt_param_count :: "nat \<Rightarrow> 'm \<Rightarrow> nat"
  mysql_stmt_bind_param :: "nat \<Rightarrow> 'f sql_value option list \<Rightarrow> 'm \<Rightarrow> bool \<times> 'm"
  mysql_stmt_execute :: "nat \<Rightarrow> 'm \<Rightarrow> bool \<times> 'm"
  mysql_stmt_store_result :: "nat \<Rightarrow> 'm \<Rightarrow> bool \<times> 'm"
  mysql_stmt_error :: "nat \<Rightarrow> 'm \<Rightarrow> string"
  mysql_stmt_close :: "nat \<Rightarrow> 'm \<Rightarrow> 'm"

section \<open>Result sets\<close>

record mysql_rs =
  mr_res :: "mysql_res option"
  mr_left :: "mysql_row list"          \<comment> \<open>the position of the cursor in the stored result\<close>
  mr_currentRow :: "mysql_row option"
  mr_numFields :: nat

definition MySQLResultSet :: "mysql_res option \<Rightarrow> mysql_rs" where
  "MySQLResultSet res = \<lparr>mr_res = res, mr_left = (case res of None \<Rightarrow> [] | Some r \<Rightarrow> res_rows r), mr_currentRow = None,
     mr_numFields = (case res of None \<Rightarrow> 0 | Some r \<Rightarrow> res_fields r)\<rparr>"

definition My_Next :: "mysql_rs \<Rightarrow> bool \<times> mysql_rs" where
  "My_Next rs = (if mr_res rs = None then (False, rs)
     else case mr_left rs of
         [] \<Rightarrow> (False, rs\<lparr>mr_currentRow := None\<rparr>)
       | row # rows \<Rightarrow> (True, rs\<lparr>mr_left := rows, mr_currentRow := Some row\<rparr>))"

text \<open>The cell the three readers look at: \<open>None\<close> without a row, outside the fields and for a null cell.\<close>

definition cell :: "int \<Rightarrow> mysql_rs \<Rightarrow> string option" where
  "cell idx rs = (case mr_currentRow rs of None \<Rightarrow> None
     | Some row \<Rightarrow> if idx < 0 \<or> idx \<ge> int (mr_numFields rs) then None else row ! nat idx)"

definition My_GetInt :: "int \<Rightarrow> mysql_rs \<Rightarrow> int" where
  "My_GetInt idx rs = (case cell idx rs of None \<Rightarrow> 0 | Some s \<Rightarrow> atoi (c_str s))"

definition My_GetString :: "int \<Rightarrow> mysql_rs \<Rightarrow> string" where
  "My_GetString idx rs = (case cell idx rs of None \<Rightarrow> '''' | Some s \<Rightarrow> s)"

definition My_GetDouble :: "(string \<Rightarrow> 'f) \<Rightarrow> 'f \<Rightarrow> int \<Rightarrow> mysql_rs \<Rightarrow> 'f" where
  "My_GetDouble atof zero idx rs = (case cell idx rs of None \<Rightarrow> zero | Some s \<Rightarrow> atof (c_str s))"

section \<open>Prepared statements\<close>

datatype bind_buffer = NoBuffer | IntAt nat | TextAt nat nat | DoubleAt nat   \<comment> \<open>a pointer into a vector; a text with its length\<close>

record 'f mysql_stmt =
  ps_stmt :: nat
  ps_paramCount :: int
  ps_binds :: "bind_buffer list"
  ps_intValues :: "int list"
  ps_doubleValues :: "'f list"
  ps_stringValues :: "string list"

definition MySQLPreparedStatement :: "'f::zero itself \<Rightarrow> nat \<Rightarrow> int \<Rightarrow> 'f mysql_stmt" where
  "MySQLPreparedStatement ty st n = (let k = nat n in
     \<lparr>ps_stmt = st, ps_paramCount = n, ps_binds = replicate k NoBuffer, ps_intValues = replicate k 0,
      ps_doubleValues = replicate k 0, ps_stringValues = replicate k ''''\<rparr>)"

definition My_BindInt :: "int \<Rightarrow> int \<Rightarrow> 'f mysql_stmt \<Rightarrow> DbStatus \<times> 'f mysql_stmt" where
  "My_BindInt idx v p = (if idx < 0 \<or> idx \<ge> ps_paramCount p then (Status_Error ''Invalid parameter index'', p)
     else let i = nat idx in (Status_Ok, p\<lparr>ps_intValues := (ps_intValues p)[i := v], ps_binds := (ps_binds p)[i := IntAt i]\<rparr>))"

definition My_BindString :: "int \<Rightarrow> string \<Rightarrow> 'f mysql_stmt \<Rightarrow> DbStatus \<times> 'f mysql_stmt" where
  "My_BindString idx v p = (if idx < 0 \<or> idx \<ge> ps_paramCount p then (Status_Error ''Invalid parameter index'', p)
     else let i = nat idx
       in (Status_Ok, p\<lparr>ps_stringValues := (ps_stringValues p)[i := v], ps_binds := (ps_binds p)[i := TextAt i (length v)]\<rparr>))"

definition My_BindDouble :: "int \<Rightarrow> 'f \<Rightarrow> 'f mysql_stmt \<Rightarrow> DbStatus \<times> 'f mysql_stmt" where
  "My_BindDouble idx v p = (if idx < 0 \<or> idx \<ge> ps_paramCount p then (Status_Error ''Invalid parameter index'', p)
     else let i = nat idx in (Status_Ok, p\<lparr>ps_doubleValues := (ps_doubleValues p)[i := v], ps_binds := (ps_binds p)[i := DoubleAt i]\<rparr>))"

text \<open>What the library reads through the pointers when the statement is bound and executed.\<close>

definition deref :: "'f mysql_stmt \<Rightarrow> bind_buffer \<Rightarrow> 'f sql_value option" where
  "deref p b = (case b of NoBuffer \<Rightarrow> None | IntAt i \<Rightarrow> Some (SqlInt (ps_intValues p ! i))
     | TextAt i n \<Rightarrow> Some (SqlText (take n (ps_stringValues p ! i))) | DoubleAt i \<Rightarrow> Some (SqlDouble (ps_doubleValues p ! i)))"

definition bound_values :: "'f mysql_stmt \<Rightarrow> 'f sql_value option list" where
  "bound_values p = map (deref p) (ps_binds p)"

definition bind_params :: "('m, 'f) mysql \<Rightarrow> 'f mysql_stmt \<Rightarrow> 'm \<Rightarrow> bool \<times> 'm" where
  "bind_params A p m = (if ps_paramCount p > 0 then mysql_stmt_bind_param A (ps_stmt p) (bound_values p) m else (True, m))"

definition My_ExecuteUpdate :: "('m, 'f) mysql \<Rightarrow> 'f mysql_stmt \<Rightarrow> 'm \<Rightarrow> DbStatus \<times> 'm" where
  "My_ExecuteUpdate A p m = (case bind_params A p m of (ok, m1) \<Rightarrow>
     if \<not> ok then (Status_Error (mysql_stmt_error A (ps_stmt p) m1), m1)
     else case mysql_stmt_execute A (ps_stmt p) m1 of (ok, m2) \<Rightarrow>
       if \<not> ok then (Status_Error (mysql_stmt_error A (ps_stmt p) m2), m2) else (Status_Ok, m2))"

text \<open>The query of a prepared statement is executed, but its result is never handed out.\<close>

definition My_ExecuteQuery :: "('m, 'f) mysql \<Rightarrow> 'f mysql_stmt \<Rightarrow> 'm \<Rightarrow> (DbStatus \<times> mysql_rs option) \<times> 'm" where
  "My_ExecuteQuery A p m = (case bind_params A p m of (ok, m1) \<Rightarrow>
     if \<not> ok then ((Status_Error (mysql_stmt_error A (ps_stmt p) m1), None), m1)
     else case mysql_stmt_execute A (ps_stmt p) m1 of (ok, m2) \<Rightarrow>
       if \<not> ok then ((Status_Error (mysql_stmt_error A (ps_stmt p) m2), None), m2)
       else case mysql_stmt_store_result A (ps_stmt p) m2 of (ok, m3) \<Rightarrow>
         if \<not> ok then ((Status_Error (mysql_stmt_error A (ps_stmt p) m3), None), m3)
         else ((Status_Error ''PreparedStatement ExecuteQuery not fully implemented. Use Query() for SELECT statements.'', None), m3))"

definition My_Stmt_destroy :: "('m, 'f) mysql \<Rightarrow> 'f mysql_stmt \<Rightarrow> 'm \<Rightarrow> 'm" where
  "My_Stmt_destroy A p m = mysql_stmt_close A (ps_stmt p) m"

section \<open>Connections\<close>

record 'm mysql_conn =
  mc_mysql :: "'m option"
  mc_isConnected :: bool
  mc_inTransaction :: bool

definition MySQLConnection :: "'m mysql_conn" where
  "MySQLConnection = \<lparr>mc_mysql = None, mc_isConnected = False, mc_inTransaction = False\<rparr>"

definition My_Connect :: "('m, 'f) mysql \<Rightarrow> MySQLConfig \<Rightarrow> 'm mysql_conn \<Rightarrow> bool \<times> 'm mysql_conn" where
  "My_Connect A cfg c = (case mysql_init A of
      None \<Rightarrow> (False, c\<lparr>mc_mysql := None\<rparr>)
    | Some m \<Rightarrow> (case mysql_real_connect A cfg m of (ok, m1) \<Rightarrow>
        if \<not> ok then (False, c\<lparr>mc_mysql := None\<rparr>)
        else (True, c\<lparr>mc_mysql := Some (mysql_set_character_set A ''utf8mb4'' m1), mc_isConnected := True\<rparr>)))"

definition My_Disconnect :: "'m mysql_conn \<Rightarrow> 'm mysql_conn" where
  "My_Disconnect c = c\<lparr>mc_mysql := None, mc_isConnected := False, mc_inTransaction := False\<rparr>"

definition My_IsConnected :: "'m mysql_conn \<Rightarrow> bool" where
  "My_IsConnected c \<longleftrightarrow> mc_isConnected c \<and> mc_mysql c \<noteq> None"

definition on_handle :: "('m \<Rightarrow> 'r \<times> 'm) \<Rightarrow> 'm mysql_conn \<Rightarrow> 'r option \<times> 'm mysql_conn" where
  "on_handle f c = (case mc_mysql c of None \<Rightarrow> (None, c) | Some m \<Rightarrow> (case f m of (r, m1) \<Rightarrow> (Some r, c\<lparr>mc_mysql := Some m1\<rparr>)))"

definition My_Ping :: "('m, 'f) mysql \<Rightarrow> 'm mysql_conn \<Rightarrow> bool \<times> 'm mysql_conn" where
  "My_Ping A c = (if \<not> My_IsConnected c then (False, c)
     else case on_handle (mysql_ping A) c of (r, c1) \<Rightarrow> (r = Some True, c1))"

definition My_Execute :: "('m, 'f) mysql \<Rightarrow> string \<Rightarrow> 'm mysql_conn \<Rightarrow> DbStatus option \<times> 'm mysql_conn" where
  "My_Execute A sql c = (if \<not> My_IsConnected c then (Some (Status_Error ''Not connected''), c)
     else on_handle (\<lambda>m. case mysql_query A (c_str sql) m of (ok, m1) \<Rightarrow>
       if \<not> ok then (Status_Error (mysql_error A m1), m1) else (Status_Ok, snd (mysql_store_result A m1))) c)"

definition My_Query :: "('m, 'f) mysql \<Rightarrow> string \<Rightarrow> 'm mysql_conn \<Rightarrow> (DbStatus \<times> mysql_rs option) option \<times> 'm mysql_conn" where
  "My_Query A sql c = (if \<not> My_IsConnected c then (Some ((DB_CONNECTION_FAILURE, ''Not connected''), None), c)
     else on_handle (\<lambda>m. case mysql_query A (c_str sql) m of (ok, m1) \<Rightarrow>
       if \<not> ok then (((DB_INVALID_QUERY, mysql_error A m1), None), m1)
       else case mysql_store_result A m1 of
           (None, m2) \<Rightarrow> if mysql_field_count A m2 = 0 then ((Status_Error ''No result set for query'', None), m2)
             else ((Status_Error (mysql_error A m2), None), m2)
         | (Some res, m2) \<Rightarrow> ((Status_Ok, Some (MySQLResultSet (Some res))), m2)) c)"

definition My_Prepare :: "('m, 'f::zero) mysql \<Rightarrow> string \<Rightarrow> 'm mysql_conn \<Rightarrow> (DbStatus \<times> 'f mysql_stmt option) option \<times> 'm mysql_conn" where
  "My_Prepare A sql c = (if \<not> My_IsConnected c then (Some ((DB_CONNECTION_FAILURE, ''Not connected''), None), c)
     else on_handle (\<lambda>m. case mysql_stmt_init A m of
         (None, m1) \<Rightarrow> ((Status_Error ''mysql_stmt_init failed'', None), m1)
       | (Some st, m1) \<Rightarrow> (case mysql_stmt_prepare A st sql m1 of (ok, m2) \<Rightarrow>
           if \<not> ok then (((DB_INVALID_QUERY, mysql_stmt_error A st m2), None), mysql_stmt_close A st m2)
           else ((Status_Ok, Some (MySQLPreparedStatement TYPE('f) st (int (mysql_stmt_param_count A st m2)))), m2))) c)"

definition My_BeginTransaction :: "('m, 'f) mysql \<Rightarrow> 'm mysql_conn \<Rightarrow> DbStatus option \<times> 'm mysql_conn" where
  "My_BeginTransaction A c = (if mc_inTransaction c then (Some (DB_TRANSACTION_ACTIVE, ''Transaction already active''), c)
     else case on_handle (\<lambda>m. case mysql_autocommit A False m of (ok, m1) \<Rightarrow>
         (if ok then Status_Ok else Status_Error (mysql_error A m1), m1)) c of (st, c1) \<Rightarrow>
       (st, if succeeded st then c1\<lparr>mc_inTransaction := True\<rparr> else c1))"

definition My_Commit :: "('m, 'f) mysql \<Rightarrow> 'm mysql_conn \<Rightarrow> DbStatus option \<times> 'm mysql_conn" where
  "My_Commit A c = (if \<not> mc_inTransaction c then (Some (Status_Error ''No active transaction''), c)
     else case on_handle (\<lambda>m. case mysql_commit A m of (ok, m1) \<Rightarrow>
         if \<not> ok then (Status_Error (mysql_error A m1), m1) else (Status_Ok, snd (mysql_autocommit A True m1))) c of (st, c1) \<Rightarrow>
       (st, if succeeded st then c1\<lparr>mc_inTransaction := False\<rparr> else c1))"

text \<open>After \<open>mysql_rollback\<close> the automatic commit is switched on again, whether the rollback succeeded or not.\<close>

definition My_Rollback :: "('m, 'f) mysql \<Rightarrow> 'm mysql_conn \<Rightarrow> DbStatus option \<times> 'm mysql_conn" where
  "My_Rollback A c = (if \<not> mc_inTransaction c then (Some (Status_Error ''No active transaction''), c)
     else case on_handle (\<lambda>m. case mysql_rollback A m of (ok, m1) \<Rightarrow>
         if \<not> ok then (Status_Error (mysql_error A m1), snd (mysql_autocommit A True m1))
         else (Status_Ok, snd (mysql_autocommit A True m1))) c of (st, c1) \<Rightarrow> (st, c1\<lparr>mc_inTransaction := False\<rparr>))"

definition My_ResetState :: "('m, 'f) mysql \<Rightarrow> 'm mysql_conn \<Rightarrow> 'm mysql_conn" where
  "My_ResetState A c = (if mc_inTransaction c then snd (My_Rollback A c) else c)"

definition mysql_call :: "MySQLConfig \<Rightarrow> (nat \<Rightarrow> ('m, 'f::zero) mysql) \<Rightarrow> (nat \<Rightarrow> 'm \<Rightarrow> 'm) \<Rightarrow> 'm mysql_conn conn_class" where
  "mysql_call cfg API U n k c0 = (let A = API n; c = c0\<lparr>mc_mysql := map_option (U n) (mc_mysql c0)\<rparr> in case k of
      Connect \<Rightarrow> (case My_Connect A cfg c of (b, c1) \<Rightarrow> ((b, None), c1))
    | Disconnect \<Rightarrow> ((True, None), My_Disconnect c)
    | IsConnected \<Rightarrow> ((My_IsConnected c, None), c)
    | Ping \<Rightarrow> (case My_Ping A c of (b, c1) \<Rightarrow> ((b, None), c1))
    | CallExecute sql \<Rightarrow> (case My_Execute A sql c of (st, c1) \<Rightarrow> ((True, st), c1))
    | CallQuery sql \<Rightarrow> (case My_Query A sql c of (r, c1) \<Rightarrow> ((True, map_option fst r), c1))
    | CallPrepare sql \<Rightarrow> (case My_Prepare A sql c of (r, c1) \<Rightarrow> ((True, map_option fst r), c1))
    | CallBegin \<Rightarrow> (case My_BeginTransaction A c of (st, c1) \<Rightarrow> ((True, st), c1))
    | CallCommit \<Rightarrow> (case My_Commit A c of (st, c1) \<Rightarrow> ((True, st), c1))
    | CallRollback \<Rightarrow> (case My_Rollback A c of (st, c1) \<Rightarrow> ((True, st), c1))
    | ResetState \<Rightarrow> ((True, None), My_ResetState A c))"

section \<open>The address of the server\<close>

text \<open>The tokens of the address; \<open>None\<close> as position is \<^verbatim>\<open>npos\<close>, from where \<open>substr\<close> throws.\<close>

definition next_token :: "string \<Rightarrow> nat option \<Rightarrow> (string \<times> nat option) option" where
  "next_token addr pos = (case pos of None \<Rightarrow> None
     | Some p \<Rightarrow> let r = drop p addr; token = takeWhile (\<lambda>ch. ch \<noteq> CHR '';'') r
         in Some (token, if length token < length r then Some (p + length token + 1) else None))"

definition parse_host :: "string \<Rightarrow> (string \<times> int) option" where
  "parse_host hp = (let h = takeWhile (\<lambda>ch. ch \<noteq> CHR '':'') hp
     in if length h < length hp then map_option (Pair h) (stoi (drop (length h + 1) hp)) else Some (hp, 3306))"

definition CreateMySQL :: "string \<Rightarrow> MySQLConfig option" where
  "CreateMySQL dbAddress = (case next_token dbAddress (Some 0) of None \<Rightarrow> None
    | Some (hostPort, p1) \<Rightarrow> (case parse_host hostPort of None \<Rightarrow> None
    | Some (host, port) \<Rightarrow> (case next_token dbAddress p1 of None \<Rightarrow> None
    | Some (user, p2) \<Rightarrow> (case next_token dbAddress p2 of None \<Rightarrow> None
    | Some (pass, p3) \<Rightarrow> (case next_token dbAddress p3 of None \<Rightarrow> None
    | Some (name, p4) \<Rightarrow> Some \<lparr>Host = host, Port = port, User = user, Password = pass, Database = name\<rparr>)))))"

section \<open>Pooled MySQL connections\<close>

lemmas mysql_ops = My_Connect_def My_Disconnect_def My_Ping_def My_Execute_def My_Query_def My_Prepare_def on_handle_def
  My_BeginTransaction_def My_Commit_def My_Rollback_def My_ResetState_def

interpretation mysql: pooled_connection "mysql_call cfg API U" MySQLConnection mc_inTransaction for cfg API U
proof
  show "\<not> mc_inTransaction MySQLConnection" by (simp add: MySQLConnection_def)
qed (auto simp: mysql_call_def mysql_ops Let_def split: db_call.splits prod.splits option.splits if_splits)

text \<open>In the pool the flag of an idle connection is off, as for SQLite; but the flag is also cleared when the
  rollback failed, and then the automatic commit, once switched on, commits the changes that were to be undone.
  The small server below keeps the changes of the transaction and the committed ones.\<close>

type_synonym toy_server = "bool \<times> nat list \<times> nat list"

definition toy_autocommit :: "bool \<Rightarrow> toy_server \<Rightarrow> bool \<times> toy_server" where
  "toy_autocommit mode m = (case m of (auto_on, pending, durable) \<Rightarrow>
     if mode then (True, True, [], durable @ pending) else (True, False, pending, durable))"

lemma failed_rollback_commits:
  assumes "mysql_autocommit A = toy_autocommit" "mysql_rollback A m = (False, m)" "m = (False, pending, durable)"
  shows "mc_mysql (snd (My_Rollback A (MySQLConnection\<lparr>mc_mysql := Some m, mc_inTransaction := True\<rparr>))) = Some (True, [], durable @ pending)"
  using assms by (simp add: My_Rollback_def on_handle_def toy_autocommit_def)

section \<open>Bound parameters\<close>

datatype 'f bind_op = BInt int int | BString int string | BDouble int 'f

fun bind_step :: "'f bind_op \<Rightarrow> 'f mysql_stmt \<Rightarrow> 'f mysql_stmt" where
  "bind_step (BInt i v) p = snd (My_BindInt i v p)"
| "bind_step (BString i v) p = snd (My_BindString i v p)"
| "bind_step (BDouble i v) p = snd (My_BindDouble i v p)"

fun bind_index :: "'f bind_op \<Rightarrow> int" where
  "bind_index (BInt i v) = i" | "bind_index (BString i v) = i" | "bind_index (BDouble i v) = i"

fun bind_val :: "'f bind_op \<Rightarrow> 'f sql_value" where
  "bind_val (BInt i v) = SqlInt v" | "bind_val (BString i v) = SqlText v" | "bind_val (BDouble i v) = SqlDouble v"

text \<open>The specification: a vector of values, where a bind inside it replaces one.\<close>

definition set_param :: "'f bind_op \<Rightarrow> 'f sql_value option list \<Rightarrow> 'f sql_value option list" where
  "set_param b vs = (if 0 \<le> bind_index b \<and> bind_index b < int (length vs) then vs[nat (bind_index b) := Some (bind_val b)] else vs)"

fun own_buffer :: "'f mysql_stmt \<Rightarrow> nat \<Rightarrow> bind_buffer \<Rightarrow> bool" where
  "own_buffer p i NoBuffer \<longleftrightarrow> True"
| "own_buffer p i (IntAt j) \<longleftrightarrow> j = i"
| "own_buffer p i (DoubleAt j) \<longleftrightarrow> j = i"
| "own_buffer p i (TextAt j n) \<longleftrightarrow> j = i \<and> n = length (ps_stringValues p ! i)"

definition stmt_ok :: "nat \<Rightarrow> 'f mysql_stmt \<Rightarrow> bool" where
  "stmt_ok n p \<longleftrightarrow> ps_paramCount p = int n \<and> length (ps_binds p) = n \<and> length (ps_intValues p) = n \<and> length (ps_doubleValues p) = n \<and>
     length (ps_stringValues p) = n \<and> (\<forall>i < n. own_buffer p i (ps_binds p ! i))"

lemma own_buffer_other:
  "j \<noteq> i \<Longrightarrow> own_buffer (p\<lparr>ps_stringValues := (ps_stringValues p)[i := v], ps_binds := bs\<rparr>) j b = own_buffer p j b"
  "own_buffer (p\<lparr>ps_intValues := iv, ps_binds := bs\<rparr>) j b = own_buffer p j b"
  "own_buffer (p\<lparr>ps_doubleValues := dv, ps_binds := bs\<rparr>) j b = own_buffer p j b"
  by (cases b; simp)+

lemma deref_other:
  assumes "j \<noteq> i" "own_buffer p j b"
  shows "deref (p\<lparr>ps_stringValues := (ps_stringValues p)[i := v], ps_binds := bs\<rparr>) b = deref p b"
    "deref (p\<lparr>ps_intValues := (ps_intValues p)[i := w], ps_binds := bs\<rparr>) b = deref p b"
    "deref (p\<lparr>ps_doubleValues := (ps_doubleValues p)[i := x], ps_binds := bs\<rparr>) b = deref p b"
  using assms by (cases b; simp add: deref_def)+

lemma bind_step_refines:
  assumes "stmt_ok n p"
  shows "stmt_ok n (bind_step b p) \<and> bound_values (bind_step b p) = set_param b (bound_values p)"
proof (cases "0 \<le> bind_index b \<and> bind_index b < int n")
  case False
  then show ?thesis using assms
    by (cases b) (auto simp: My_BindInt_def My_BindString_def My_BindDouble_def set_param_def bound_values_def stmt_ok_def)
next
  case True
  then obtain i where i: "bind_index b = int i" "i < n" by (metis nat_0_le of_nat_less_iff)
  have "own_buffer (bind_step b p) j (ps_binds (bind_step b p) ! j)" if "j < n" for j
    using assms i that
    by (cases b; cases "j = i") (auto simp: own_buffer_other My_BindInt_def My_BindString_def My_BindDouble_def stmt_ok_def Let_def)
  moreover have "deref (bind_step b p) (ps_binds (bind_step b p) ! j) = set_param b (bound_values p) ! j" if "j < n" for j
    using assms i that
    by (cases b; cases "j = i")
      (auto simp: My_BindInt_def My_BindString_def My_BindDouble_def stmt_ok_def Let_def set_param_def bound_values_def deref_other deref_def [of "p\<lparr>ps_intValues := u, ps_binds := w\<rparr>" "IntAt i" for u w]
        deref_def [of "p\<lparr>ps_stringValues := u, ps_binds := w\<rparr>" "TextAt i k" for u w k]
        deref_def [of "p\<lparr>ps_doubleValues := u, ps_binds := w\<rparr>" "DoubleAt i" for u w])
  moreover have "length (ps_binds (bind_step b p)) = n" "length (set_param b (bound_values p)) = n"
    using assms by (cases b; simp add: My_BindInt_def My_BindString_def My_BindDouble_def stmt_ok_def Let_def set_param_def bound_values_def)+
  moreover have "ps_paramCount (bind_step b p) = int n \<and> length (ps_intValues (bind_step b p)) = n \<and>
      length (ps_doubleValues (bind_step b p)) = n \<and> length (ps_stringValues (bind_step b p)) = n"
    using assms by (cases b) (simp_all add: My_BindInt_def My_BindString_def My_BindDouble_def stmt_ok_def Let_def)
  ultimately show ?thesis by (auto simp: stmt_ok_def bound_values_def intro!: nth_equalityI)
qed

lemma bind_steps_refine:
  "stmt_ok n p \<Longrightarrow> stmt_ok n (fold bind_step bs p) \<and> bound_values (fold bind_step bs p) = fold set_param bs (bound_values p)"
proof (induction bs arbitrary: p)
  case (Cons b bs)
  then show ?case using bind_step_refines [OF Cons.prems, of b] by simp
qed simp

lemma new_stmt_ok: "stmt_ok n (MySQLPreparedStatement TYPE('f::zero) st (int n))"
  and new_stmt_values: "bound_values (MySQLPreparedStatement TYPE('f) st (int n)) = replicate n None"
  by (simp_all add: stmt_ok_def MySQLPreparedStatement_def bound_values_def deref_def Let_def)

text \<open>C29. The parameters of a prepared statement: although integers, texts and numbers are kept in separate vectors that the
  bind structures point into, the values an execution hands to the server are those of a single
  vector in which each \<open>Bind\<close> inside the bounds replaced one entry and the others changed nothing.\<close>

theorem executed_parameters:
  fixes bs :: "'f::zero bind_op list"
  assumes "p = fold bind_step bs (MySQLPreparedStatement TYPE('f) st (int n))" "0 < n"
    and "\<And>m. fst (mysql_stmt_bind_param A st (fold set_param bs (replicate n None)) m)"
  shows "My_ExecuteUpdate A p m =
    (case mysql_stmt_execute A st (snd (mysql_stmt_bind_param A st (fold set_param bs (replicate n None)) m)) of (ok, m2) \<Rightarrow>
       if ok then (Status_Ok, m2) else (Status_Error (mysql_stmt_error A st m2), m2))"
proof -
  have "stmt_ok n p \<and> bound_values p = fold set_param bs (replicate n None)"
    using bind_steps_refine [OF new_stmt_ok, of n bs st] new_stmt_values [where st = st and n = n and ?'f = 'f] by (simp add: assms(1))
  moreover have "ps_stmt (fold bind_step bs q) = ps_stmt q" for q :: "'f mysql_stmt"
  proof (induction bs arbitrary: q)
    case (Cons b bs)
    then show ?case by (cases b) (simp_all add: My_BindInt_def My_BindString_def My_BindDouble_def Let_def)
  qed simp
  then have "ps_stmt p = st" by (simp add: assms(1) MySQLPreparedStatement_def Let_def)
  ultimately show ?thesis using assms(2,3)
    by (auto simp: My_ExecuteUpdate_def bind_params_def stmt_ok_def case_prod_beta)
qed

section \<open>Printing and reading\<close>

lemma next_token_sep:
  assumes "CHR '';'' \<notin> set t"
  shows "next_token (a @ t @ CHR '';'' # r) (Some (length a)) = Some (t, Some (length (a @ t @ [CHR '';''])))"
    "next_token (a @ t) (Some (length a)) = Some (t, None)"
  using assms by (simp_all add: next_token_def split_at_sep Let_def)

text \<open>\<open>CreateMySQL\<close> reads back the address it documents, \<^verbatim>\<open>host:port;user;password;database\<close>, for names without the
  separators, and throws for an address with fewer than four parts or a port that is not an \<open>int\<close>.\<close>

theorem mysql_address_round_trip:
  assumes "CHR '';'' \<notin> set host" "CHR '':'' \<notin> set host" "port < 2 ^ 31"
    and "CHR '';'' \<notin> set user" "CHR '';'' \<notin> set pass" "CHR '';'' \<notin> set name"
  shows "CreateMySQL (host @ '':'' @ digits port @ '';'' @ user @ '';'' @ pass @ '';'' @ name) =
      Some \<lparr>Host = host, Port = int port, User = user, Password = pass, Database = name\<rparr> \<and>
    CreateMySQL (host @ '':'' @ digits port @ '';'' @ user @ '';'' @ pass) = None \<and>
    (port \<ge> 1 \<longrightarrow> CreateMySQL (host @ '':'' @ digits (2 ^ 31 * port) @ '';'' @ user @ '';'' @ pass @ '';'' @ name) = None)"
proof -
  have nosep: "CHR '';'' \<notin> set (digits n)" for n
    using digits_digits [of n] digit_not_special by (auto simp: list_all_iff)
  have hp: "CHR '';'' \<notin> set (host @ '':'' @ digits n)" for n using assms(1) nosep by simp
  have host: "parse_host (host @ '':'' @ digits n) = (if n < 2 ^ 31 then Some (host, int n) else None)" for n
    using assms(2) split_at_sep(1) [of "CHR '':''" host "digits n"] by (simp add: parse_host_def Let_def stoi_def strtol_digits)
  have t1: "next_token (host @ '':'' @ digits n @ '';'' @ r) (Some 0) =
      Some (host @ '':'' @ digits n, Some (length (host @ '':'' @ digits n @ '';'')))" for n r
    using next_token_sep(1) [OF hp, of "[]" n r] by simp
  have t2: "next_token (a @ '';'' @ user @ '';'' @ r) (Some (length (a @ '';''))) = Some (user, Some (length (a @ '';'' @ user @ '';'')))" for a r
    using next_token_sep(1) [OF assms(4), of "a @ '';''" r] by simp
  have t3: "next_token (a @ '';'' @ pass @ '';'' @ r) (Some (length (a @ '';''))) = Some (pass, Some (length (a @ '';'' @ pass @ '';'')))" for a r
    using next_token_sep(1) [OF assms(5), of "a @ '';''" r] by simp
  have t3': "next_token (a @ '';'' @ pass) (Some (length (a @ '';''))) = Some (pass, None)" for a
    using next_token_sep(2) [OF assms(5), of "a @ '';''"] by simp
  have t4: "next_token (a @ '';'' @ name) (Some (length (a @ '';''))) = Some (name, None)" for a
    using next_token_sep(2) [OF assms(6), of "a @ '';''"] by simp
  let ?h = "host @ '':'' @ digits port"
  have u: "next_token (?h @ '';'' @ user @ '';'' @ r) (Some (length (?h @ '';''))) = Some (user, Some (length ((?h @ '';'' @ user) @ '';'')))" for r
    using t2 [of ?h r] by simp
  have p: "next_token (?h @ '';'' @ user @ '';'' @ pass @ '';'' @ name) (Some (length ((?h @ '';'' @ user) @ '';''))) =
      Some (pass, Some (length ((?h @ '';'' @ user @ '';'' @ pass) @ '';'')))"
    using t3 [of "?h @ '';'' @ user" name] by simp
  have n: "next_token (?h @ '';'' @ user @ '';'' @ pass @ '';'' @ name) (Some (length ((?h @ '';'' @ user @ '';'' @ pass) @ '';''))) = Some (name, None)"
    using t4 [of "?h @ '';'' @ user @ '';'' @ pass"] by simp
  have e: "next_token (?h @ '';'' @ user @ '';'' @ pass) (Some (length ((?h @ '';'' @ user) @ '';''))) = Some (pass, None)"
    using t3' [of "?h @ '';'' @ user"] by simp
  show ?thesis
    using t1 [of port "user @ '';'' @ pass @ '';'' @ name"] t1 [of port "user @ '';'' @ pass"]
      t1 [of "2 ^ 31 * port" "user @ '';'' @ pass @ '';'' @ name"] host assms(3) u [of "pass @ '';'' @ name"] u [of pass] p n e
    by (simp add: CreateMySQL_def next_token_def [of _ None])
qed

theorem mysql_address_round_trip_witness:
  "CreateMySQL ''localhost:3306;root;secret;game'' =
     Some \<lparr>Host = ''localhost'', Port = 3306, User = ''root'', Password = ''secret'', Database = ''game''\<rparr> \<and>
   CreateMySQL ''localhost:3306;root;secret'' = None"
proof -
  have "digits 3306 = ''3306''" by code_simp
  then show ?thesis using mysql_address_round_trip [of "''localhost''" 3306 "''root''" "''secret''" "''game''"] by simp
qed

text \<open>A server that remembers the parameters it was given.\<close>

definition toy_mysql :: "(int sql_value option list list, int) mysql" where
  "toy_mysql = \<lparr>mysql_init = Some [], mysql_real_connect = (\<lambda>_ m. (True, m)), mysql_set_character_set = (\<lambda>_ m. m), mysql_ping = Pair True,
     mysql_query = (\<lambda>_ m. (True, m)), mysql_store_result = (\<lambda>m. (None, m)), mysql_field_count = (\<lambda>_. 0), mysql_error = (\<lambda>_. ''''),
     mysql_autocommit = (\<lambda>_ m. (True, m)), mysql_commit = Pair True, mysql_rollback = Pair True, mysql_stmt_init = (\<lambda>m. (Some 0, m)),
     mysql_stmt_prepare = (\<lambda>_ _ m. (True, m)), mysql_stmt_param_count = (\<lambda>_ _. 2),
     mysql_stmt_bind_param = (\<lambda>_ vs m. (True, vs # m)), mysql_stmt_execute = (\<lambda>_ m. (True, m)),
     mysql_stmt_store_result = (\<lambda>_ m. (True, m)), mysql_stmt_error = (\<lambda>_ _. ''''), mysql_stmt_close = (\<lambda>_ m. m)\<rparr>"

theorem executed_parameters_witness:
  "My_ExecuteUpdate toy_mysql (fold bind_step [BInt 0 7, BString 1 ''x'', BInt 5 1, BString 0 ''y''] (MySQLPreparedStatement TYPE(int) 3 2)) []
     = (Status_Ok, [[Some (SqlText ''y''), Some (SqlText ''x'')]])"
proof -
  let ?bs = "[BInt 0 7, BString 1 ''x'', BInt 5 1, BString 0 ''y''] :: int bind_op list"
  have "fold set_param ?bs (replicate 2 None) = [Some (SqlText ''y''), Some (SqlText ''x'')]"
    by (simp add: set_param_def numeral_2_eq_2)
  then show ?thesis
    using executed_parameters [where A = toy_mysql and bs = ?bs and st = 3 and n = 2 and m = "[]", OF refl] by (simp add: toy_mysql_def)
qed

end
