(* ===== verification/Session_Pool.thy ===== *)
theory Session_Pool
  imports Concurrent_Queue
begin

text \<open>
  The pool of session objects, \<^verbatim>\<open>src/System/Session/SessionPool.h\<close>: a concurrent queue of free
  sessions with counters, grown by a detached thread when less than a fifth is free and in
  the caller when it is empty.  A session is its address; \<open>heapTop\<close> is the address the next
  \<^verbatim>\<open>new T()\<close> returns; \<open>growers\<close> counts the growth threads that have been started and have not
  run yet.

  Shown: in every order of acquiring, releasing and background growth a session is handed out
  to one user at a time, \<open>Acquire\<close> always returns one, and the counters are exact.
\<close>

type_synonym ptr = nat

section \<open>State\<close>

record 'p spool =
  freeSessions :: 'p
  totalAllocated :: u64
  availableCount :: u64
  isGrowing :: bool
  growers :: nat
  heapTop :: ptr

definition DEFAULT_GROWTH_SIZE :: nat where "DEFAULT_GROWTH_SIZE = 512"

definition SessionPool :: "'p \<Rightarrow> ptr \<Rightarrow> 'p spool" where
  "SessionPool q t = \<lparr>freeSessions = q, totalAllocated = 0, availableCount = 0, isGrowing = False,
     growers = 0, heapTop = t\<rparr>"

section \<open>Operations\<close>

primrec grow_loop :: "('p, ptr) cqueue \<Rightarrow> nat \<Rightarrow> 'p spool \<Rightarrow> 'p spool" where
  "grow_loop Q 0 p = p"
| "grow_loop Q (Suc n) p =
     grow_loop Q n (p\<lparr>freeSessions := enqueue Q (heapTop p) (freeSessions p), heapTop := Suc (heapTop p)\<rparr>)"

definition Grow :: "('p, ptr) cqueue \<Rightarrow> nat \<Rightarrow> 'p spool \<Rightarrow> 'p spool" where
  "Grow Q n p =
     (let p1 = grow_loop Q n p
      in p1\<lparr>totalAllocated := totalAllocated p1 + of_nat n, availableCount := availableCount p1 + of_nat n\<rparr>)"

definition WarmUp :: "('p, ptr) cqueue \<Rightarrow> nat \<Rightarrow> 'p spool \<Rightarrow> 'p spool" where
  "WarmUp Q expectedCCU p = Grow Q (expectedCCU + expectedCCU div 5) p"

definition TriggerBackgroundGrowth :: "'p spool \<Rightarrow> 'p spool" where
  "TriggerBackgroundGrowth p = (if isGrowing p then p else p\<lparr>isGrowing := True, growers := Suc (growers p)\<rparr>)"

text \<open>The body of the detached thread.\<close>

definition background_growth :: "('p, ptr) cqueue \<Rightarrow> 'p spool \<Rightarrow> 'p spool" where
  "background_growth Q p = (Grow Q DEFAULT_GROWTH_SIZE p)\<lparr>isGrowing := False, growers := growers p - 1\<rparr>"

definition Acquire :: "('p, ptr) cqueue \<Rightarrow> 'p spool \<Rightarrow> ptr option \<times> 'p spool" where
  "Acquire Q p =
     (case try_dequeue Q (freeSessions p) of
        Some (x, q) \<Rightarrow>
          (let available = availableCount p - 1;
               p1 = p\<lparr>freeSessions := q, availableCount := available\<rparr>
           in (Some x, if available * 5 < totalAllocated p1 then TriggerBackgroundGrowth p1 else p1))
      | None \<Rightarrow>
          (let p1 = Grow Q DEFAULT_GROWTH_SIZE p
           in case try_dequeue Q (freeSessions p1) of
                Some (x, q) \<Rightarrow> (Some x, p1\<lparr>freeSessions := q, availableCount := availableCount p1 - 1\<rparr>)
              | None \<Rightarrow> (None, p1)))"

definition Release :: "('p, ptr) cqueue \<Rightarrow> ptr option \<Rightarrow> 'p spool \<Rightarrow> 'p spool" where
  "Release Q session p =
     (case session of None \<Rightarrow> p
      | Some x \<Rightarrow> p\<lparr>freeSessions := enqueue Q x (freeSessions p), availableCount := availableCount p + 1\<rparr>)"

text \<open>\<open>Clear\<close> deletes what the queue holds; the first component is what it deleted.\<close>

definition Clear_pool :: "('p, ptr) cqueue \<Rightarrow> 'p spool \<Rightarrow> (ptr list \<times> 'p spool) option" where
  "Clear_pool Q p =
     map_option (\<lambda>(xs, q). (xs, p\<lparr>freeSessions := q, totalAllocated := 0, availableCount := 0\<rparr>))
       (drain Q [] (freeSessions p))"

section \<open>Exclusive use\<close>

text \<open>Runs of the pool: \<open>used\<close> are the sessions handed out and not given back.\<close>

inductive spool_reach :: "('p, ptr) cqueue \<Rightarrow> 'p spool \<Rightarrow> ptr multiset \<Rightarrow> 'p spool \<Rightarrow> bool"
  for Q :: "('p, ptr) cqueue" and p0 :: "'p spool" where
  start: "spool_reach Q p0 {#} p0"
| warm: "spool_reach Q p0 used p \<Longrightarrow> spool_reach Q p0 used (WarmUp Q n p)"
| acquire: "spool_reach Q p0 used p \<Longrightarrow> Acquire Q p = (Some x, p') \<Longrightarrow> spool_reach Q p0 (add_mset x used) p'"
| release: "spool_reach Q p0 (add_mset x used) p \<Longrightarrow> spool_reach Q p0 used (Release Q (Some x) p)"
| grow: "spool_reach Q p0 used p \<Longrightarrow> 0 < growers p \<Longrightarrow> spool_reach Q p0 used (background_growth Q p)"

definition spool_ok :: "('p \<Rightarrow> ptr multiset) \<Rightarrow> ptr multiset \<Rightarrow> 'p spool \<Rightarrow> bool" where
  "spool_ok cont used p \<longleftrightarrow>
     (\<forall>x. count (used + cont (freeSessions p)) x \<le> 1) \<and>
     (\<forall>x. x \<in># used + cont (freeSessions p) \<longrightarrow> x < heapTop p) \<and>
     availableCount p = of_nat (size (cont (freeSessions p))) \<and>
     totalAllocated p = of_nat (size (used + cont (freeSessions p))) \<and>
     growers p = (if isGrowing p then 1 else 0)"

lemma grow_loop_spec:
  assumes "cqueue_laws Q cont"
  shows "cont (freeSessions (grow_loop Q n p)) = mset [heapTop p..<heapTop p + n] + cont (freeSessions p) \<and>
    heapTop (grow_loop Q n p) = heapTop p + n \<and> totalAllocated (grow_loop Q n p) = totalAllocated p \<and>
    availableCount (grow_loop Q n p) = availableCount p \<and> isGrowing (grow_loop Q n p) = isGrowing p \<and>
    growers (grow_loop Q n p) = growers p"
proof (induction n arbitrary: p)
  case (Suc n)
  have "mset [heapTop p..<heapTop p + Suc n] = add_mset (heapTop p) (mset [Suc (heapTop p)..<Suc (heapTop p) + n])"
    by (subst upt_conv_Cons) simp_all
  then show ?case using Suc.IH [of "p\<lparr>freeSessions := enqueue Q (heapTop p) (freeSessions p), heapTop := Suc (heapTop p)\<rparr>"]
    by (simp add: cqueue_enqueue [OF assms])
qed simp

lemma fresh_counts:
  assumes "\<forall>x. count M x \<le> 1" "\<forall>x. x \<in># M \<longrightarrow> x < (t::nat)"
  shows "count (mset [t..<t + n] + M) x \<le> 1"
proof -
  have "count (mset [t..<t + n]) x \<le> 1" by (simp add: count_mset_set')
  moreover have "t \<le> x \<Longrightarrow> count M x = 0" using assms(2) by (metis not_in_iff not_le)
  moreover have "x < t \<Longrightarrow> count (mset [t..<t + n]) x = 0" by (metis atLeastLessThan_iff not_in_iff not_le set_mset_mset set_upt)
  ultimately show ?thesis using assms(1) by (cases "t \<le> x") simp_all
qed

lemma spool_Grow:
  assumes L: "cqueue_laws Q cont" and ok: "spool_ok cont used p"
  shows "spool_ok cont used (Grow Q n p)"
proof -
  note g = grow_loop_spec [OF L, of n p]
  have "\<forall>x. count (mset [heapTop p..<heapTop p + n] + (used + cont (freeSessions p))) x \<le> 1"
    using ok by (intro allI fresh_counts) (auto simp: spool_ok_def)
  moreover have "\<forall>x. x \<in># used + cont (freeSessions p) \<longrightarrow> x < heapTop p + n"
    using ok by (auto simp: spool_ok_def intro: trans_less_add1)
  ultimately show ?thesis
    using ok g by (auto simp: spool_ok_def Grow_def Let_def ac_simps)
qed

lemma spool_Trigger: "spool_ok cont used p \<Longrightarrow> spool_ok cont used (TriggerBackgroundGrowth p)"
  by (cases "isGrowing p") (simp_all add: spool_ok_def TriggerBackgroundGrowth_def)

lemma spool_Acquire:
  assumes L: "cqueue_laws Q cont" and ok: "spool_ok cont used p"
  shows "\<exists>x p'. Acquire Q p = (Some x, p') \<and> spool_ok cont (add_mset x used) p' \<and>
    (isGrowing p' \<longleftrightarrow> isGrowing p \<or> cont (freeSessions p) \<noteq> {#} \<and> availableCount p' * 5 < totalAllocated p')"
proof (cases "try_dequeue Q (freeSessions p)")
  case (Some xq)
  obtain x q where xq: "xq = (x, q)" by (cases xq)
  have c: "cont (freeSessions p) = add_mset x (cont q)" using cqueue_dequeue [OF L] Some xq by blast
  let ?p1 = "p\<lparr>freeSessions := q, availableCount := availableCount p - 1\<rparr>"
  have "spool_ok cont (add_mset x used) ?p1" using ok c by (simp add: spool_ok_def)
  then have "spool_ok cont (add_mset x used) (TriggerBackgroundGrowth ?p1)" "spool_ok cont (add_mset x used) ?p1"
    by (rule spool_Trigger, assumption)
  then show ?thesis using Some xq c by (auto simp: Acquire_def Let_def TriggerBackgroundGrowth_def)
next
  case None
  then have e: "cont (freeSessions p) = {#}" using cqueue_empty [OF L] by simp
  let ?p1 = "Grow Q DEFAULT_GROWTH_SIZE p"
  have ok1: "spool_ok cont used ?p1" by (rule spool_Grow [OF L ok])
  have "cont (freeSessions ?p1) \<noteq> {#}"
    using grow_loop_spec [OF L, of DEFAULT_GROWTH_SIZE p] by (simp add: Grow_def Let_def DEFAULT_GROWTH_SIZE_def mset_set_empty_iff)
  then have "try_dequeue Q (freeSessions ?p1) \<noteq> None" by (simp add: cqueue_empty [OF L])
  then obtain x q where d: "try_dequeue Q (freeSessions ?p1) = Some (x, q)" by auto
  have c: "cont (freeSessions ?p1) = add_mset x (cont q)" by (rule cqueue_dequeue [OF L d])
  have "spool_ok cont (add_mset x used) (?p1\<lparr>freeSessions := q, availableCount := availableCount ?p1 - 1\<rparr>)"
    using ok1 c by (simp add: spool_ok_def)
  moreover have "isGrowing ?p1 = isGrowing p" using grow_loop_spec [OF L] by (simp add: Grow_def Let_def)
  ultimately show ?thesis using None d e by (simp add: Acquire_def Let_def)
qed

lemma spool_Release:
  assumes "cqueue_laws Q cont" "spool_ok cont (add_mset x used) p"
  shows "spool_ok cont used (Release Q (Some x) p)"
  using assms(2) by (simp add: spool_ok_def Release_def cqueue_enqueue [OF assms(1)])

lemma spool_reach_ok:
  assumes L: "cqueue_laws Q cont" and e: "cont q = {#}"
  shows "spool_reach Q (SessionPool q t) used p \<Longrightarrow> spool_ok cont used p"
proof (induction rule: spool_reach.induct)
  case start
  then show ?case using e by (simp add: spool_ok_def SessionPool_def)
next
  case (warm used p n)
  then show ?case by (simp add: WarmUp_def spool_Grow [OF L])
next
  case (acquire used p x p')
  then show ?case using spool_Acquire [OF L, of used p] by auto
next
  case (release x used p)
  then show ?case by (simp add: spool_Release [OF L])
next
  case (grow used p)
  have "spool_ok cont used (Grow Q DEFAULT_GROWTH_SIZE p)" by (rule spool_Grow [OF L grow.IH])
  moreover have "growers p = 1" using grow.IH grow.hyps(2) by (auto simp: spool_ok_def split: if_splits)
  ultimately show ?case by (simp add: background_growth_def spool_ok_def)
qed

text \<open>In every run of a session pool, \<open>Acquire\<close> returns a session (it never fails), the session is
  neither in use nor left in the pool, and afterwards the counters are the number of free
  sessions and of all sessions.\<close>

theorem session_pool_exclusive:
  assumes "cqueue_laws Q cont" "cont q = {#}" "spool_reach Q (SessionPool q t) used p"
  shows "\<exists>x p'. Acquire Q p = (Some x, p') \<and> x \<notin># used \<and> x \<notin># cont (freeSessions p') \<and>
    availableCount p' = of_nat (size (cont (freeSessions p'))) \<and>
    totalAllocated p' = of_nat (size (cont (freeSessions p')) + size used + 1)"
proof -
  obtain x p' where a: "Acquire Q p = (Some x, p')" and ok: "spool_ok cont (add_mset x used) p'"
    using spool_Acquire [OF assms(1) spool_reach_ok [OF assms]] by blast
  have "count (add_mset x used + cont (freeSessions p')) x \<le> 1" using ok unfolding spool_ok_def by blast
  then have "count used x = 0" "count (cont (freeSessions p')) x = 0" by simp_all
  then show ?thesis using a ok by (auto simp: spool_ok_def not_in_iff)
qed

lemma list_spool_reach:
  "spool_reach list_queue (SessionPool [] 0) {#0#} (snd (Acquire list_queue (WarmUp list_queue 1 (SessionPool [] 0))))"
proof -
  have "spool_reach list_queue (SessionPool [] 0) {#} (WarmUp list_queue 1 (SessionPool [] 0))"
    by (rule spool_reach.warm [OF spool_reach.start])
  moreover have "fst (Acquire list_queue (WarmUp list_queue 1 (SessionPool [] 0))) = Some 0"
    by (simp add: Acquire_def WarmUp_def Grow_def SessionPool_def list_queue_def Let_def)
  ultimately show ?thesis by (metis spool_reach.acquire prod.collapse)
qed

theorem session_pool_exclusive_witness:
  "\<exists>x p'. Acquire list_queue (snd (Acquire list_queue (WarmUp list_queue 1 (SessionPool [] 0)))) = (Some x, p') \<and>
    x \<notin># {#0#} \<and> x \<notin># mset (freeSessions p') \<and> availableCount p' = of_nat (size (mset (freeSessions p'))) \<and>
    totalAllocated p' = of_nat (size (mset (freeSessions p')) + size {#0::nat#} + 1)"
  by (rule session_pool_exclusive [OF list_queue_laws _ list_spool_reach]) simp

end
