(* ===== verification/Recv_Buffer.thy ===== *)
theory Recv_Buffer
  imports Prelude
begin

text \<open>
  The receive buffer of a session (\<^verbatim>\<open>src/System/Network/RecvBuffer.{h,cpp}\<close>) and the framing
  of the byte stream by \<open>PacketHeader\<close>.  Positions are \<^verbatim>\<open>int32_t\<close> values kept as integers:
  the invariant bounds them by the capacity.

  Shown: the buffer is a byte stream (an interface stated as a locale and interpreted on the
  buffer): filling appends, \<open>MoveReadPos\<close> drops, \<open>Clean\<close> keeps the data, and the two move
  operations refuse exactly what does not fit.  Cutting the stream into frames does not depend
  on how it arrives in pieces.
\<close>

section \<open>The buffer\<close>

record recv_buffer =
  capacity :: int
  readPos :: int
  writePos :: int
  buffer :: bytes

definition DEFAULT_CAPACITY :: int where "DEFAULT_CAPACITY = 64 * 1024"
definition COMPACT_THRESHOLD :: int where "COMPACT_THRESHOLD = 10 * 1024"

definition RecvBuffer :: "int \<Rightarrow> recv_buffer" where
  "RecvBuffer bufferSize =
     \<lparr>capacity = bufferSize, readPos = 0, writePos = 0, buffer = replicate (nat bufferSize) 0\<rparr>"

definition DataSize :: "recv_buffer \<Rightarrow> int" where
  "DataSize b = writePos b - readPos b"

definition FreeSize :: "recv_buffer \<Rightarrow> int" where
  "FreeSize b = capacity b - writePos b"

definition Clean :: "recv_buffer \<Rightarrow> recv_buffer" where
  "Clean b =
     (let dataSize = DataSize b in
      if dataSize = 0 then b\<lparr>readPos := 0, writePos := 0\<rparr>
      else if FreeSize b < COMPACT_THRESHOLD then
        b\<lparr>buffer := take (nat dataSize) (drop (nat (readPos b)) (buffer b)) @ drop (nat dataSize) (buffer b),
          readPos := 0, writePos := dataSize\<rparr>
      else b)"

definition MoveReadPos :: "int \<Rightarrow> recv_buffer \<Rightarrow> bool \<times> recv_buffer" where
  "MoveReadPos numOfBytes b =
     (if DataSize b < numOfBytes then (False, b) else (True, b\<lparr>readPos := readPos b + numOfBytes\<rparr>))"

definition MoveWritePos :: "int \<Rightarrow> recv_buffer \<Rightarrow> bool \<times> recv_buffer" where
  "MoveWritePos numOfBytes b =
     (if FreeSize b < numOfBytes then (False, b) else (True, b\<lparr>writePos := writePos b + numOfBytes\<rparr>))"

definition Reset_buffer :: "recv_buffer \<Rightarrow> recv_buffer" where
  "Reset_buffer b = b\<lparr>readPos := 0, writePos := 0\<rparr>"

text \<open>The bytes from \<open>ReadPos()\<close> on, and a read of the socket into \<open>WritePos()\<close>.\<close>

definition ReadPos :: "recv_buffer \<Rightarrow> bytes" where
  "ReadPos b = drop (nat (readPos b)) (buffer b)"

definition WritePos_fill :: "bytes \<Rightarrow> recv_buffer \<Rightarrow> recv_buffer" where
  "WritePos_fill xs b =
     b\<lparr>buffer := take (nat (writePos b)) (buffer b) @ xs @ drop (nat (writePos b) + length xs) (buffer b)\<rparr>"

section \<open>Invariant and contents\<close>

definition rb_ok :: "recv_buffer \<Rightarrow> bool" where
  "rb_ok b \<longleftrightarrow> 0 \<le> readPos b \<and> readPos b \<le> writePos b \<and> writePos b \<le> capacity b \<and>
     capacity b < 2 ^ 31 \<and> length (buffer b) = nat (capacity b)"

definition rb_data :: "recv_buffer \<Rightarrow> bytes" where
  "rb_data b = take (nat (DataSize b)) (ReadPos b)"

lemma rb_okE:
  assumes "rb_ok b"
  obtains r w c where "readPos b = int r" "writePos b = int w" "capacity b = int c"
    "r \<le> w" "w \<le> c" "length (buffer b) = c"
proof -
  have "readPos b = int (nat (readPos b))" "writePos b = int (nat (writePos b))"
    "capacity b = int (nat (capacity b))" using assms by (auto simp: rb_ok_def)
  then show ?thesis using assms by (intro that [of "nat (readPos b)" "nat (writePos b)" "nat (capacity b)"])
    (auto simp: rb_ok_def)
qed

lemma rb_data_length: "rb_ok b \<Longrightarrow> int (length (rb_data b)) = DataSize b"
  by (erule rb_okE) (simp add: rb_data_def DataSize_def ReadPos_def flip: of_nat_diff)

lemma RecvBuffer_ok: "0 \<le> n \<Longrightarrow> n < 2 ^ 31 \<Longrightarrow> rb_ok (RecvBuffer n)"
  by (simp add: rb_ok_def RecvBuffer_def)

lemma Reset_ok: "rb_ok b \<Longrightarrow> rb_ok (Reset_buffer b)"
  by (simp add: rb_ok_def Reset_buffer_def)

lemma Clean_ok: 
  assumes "rb_ok b"
  shows "rb_ok (Clean b)"
  using assms
  by (rule rb_okE) (use assms in \<open>auto simp: rb_ok_def Clean_def Let_def DataSize_def FreeSize_def min_def
      simp flip: of_nat_diff\<close>)

lemma Clean_data: "rb_ok b \<Longrightarrow> rb_data (Clean b) = rb_data b"
  by (erule rb_okE) (auto simp: Clean_def Let_def DataSize_def rb_data_def ReadPos_def min_def
      simp flip: of_nat_diff)

lemma MoveReadPos_ok: "rb_ok b \<Longrightarrow> 0 \<le> n \<Longrightarrow> rb_ok (snd (MoveReadPos n b))"
  by (auto simp: rb_ok_def MoveReadPos_def DataSize_def)

lemma MoveReadPos_data:
  assumes "rb_ok b" "n \<le> length (rb_data b)"
  shows "fst (MoveReadPos (int n) b)" "rb_data (snd (MoveReadPos (int n) b)) = drop n (rb_data b)"
proof -
  have n: "int n \<le> DataSize b" using assms(2) rb_data_length [OF assms(1)] by linarith
  then show "fst (MoveReadPos (int n) b)" by (simp add: MoveReadPos_def)
  have "nat (writePos b - (readPos b + int n)) = nat (writePos b - readPos b) - n"
    "nat (readPos b + int n) = nat (readPos b) + n"
    using assms(1) n by (auto simp: rb_ok_def DataSize_def)
  then show "rb_data (snd (MoveReadPos (int n) b)) = drop n (rb_data b)"
    using n by (simp add: MoveReadPos_def rb_data_def DataSize_def ReadPos_def drop_take add.commute)
qed

lemma fill_data:
  assumes "rb_ok b" "int (length xs) \<le> FreeSize b"
  defines "r \<equiv> MoveWritePos (int (length xs)) (WritePos_fill xs b)"
  shows "fst r" "rb_ok (snd r)" "rb_data (snd r) = rb_data b @ xs"
proof -
  obtain r0 w c where p: "readPos b = int r0" "writePos b = int w" "capacity b = int c" "r0 \<le> w" "w \<le> c"
    "length (buffer b) = c" using assms(1) by (rule rb_okE)
  have len: "w + length xs \<le> c" using assms(2) p by (simp add: FreeSize_def)
  have r: "r = (True, b\<lparr>buffer := take w (buffer b) @ xs @ drop (w + length xs) (buffer b),
      writePos := int (w + length xs)\<rparr>)"
    using assms(2) by (simp add: r_def MoveWritePos_def WritePos_fill_def FreeSize_def p)
  then show "fst r" by simp
  show "rb_ok (snd r)" using assms(1) p len by (simp add: r rb_ok_def)
  have "take (w - r0 + length xs) (drop r0 (take w (buffer b) @ xs @ drop (w + length xs) (buffer b)))
      = take (w - r0) (drop r0 (buffer b)) @ xs"
    using p(4-6) len take_add [of "w - r0" "length xs"] by (simp add: drop_take)
  moreover have "nat (int (w + length xs) - int r0) = w - r0 + length xs" "nat (int w - int r0) = w - r0"
    using p(4) by simp_all
  ultimately show "rb_data (snd r) = rb_data b @ xs"
    using p by (simp only: r snd_conv rb_data_def ReadPos_def DataSize_def) simp
qed

lemma Clean_capacity: "capacity (Clean b) = capacity b"
  by (simp add: Clean_def Let_def)

lemma Clean_free:
  assumes "rb_ok b" "int (length (rb_data b)) < capacity b"
  shows "0 < FreeSize (Clean b)"
  using assms rb_data_length [OF assms(1)]
  by (auto simp: Clean_def Let_def FreeSize_def COMPACT_THRESHOLD_def DataSize_def rb_ok_def)

section \<open>Frames of a byte stream\<close>

text \<open>The first field of \<open>PacketHeader\<close> is the size of the whole packet, little endian.\<close>

definition sizeof_PacketHeader :: nat where "sizeof_PacketHeader = 4"

definition header_size :: "bytes \<Rightarrow> u16" where
  "header_size xs = ucast (xs ! 0) OR push_bit 8 (ucast (xs ! 1))"

definition header_id :: "bytes \<Rightarrow> u16" where
  "header_id xs = ucast (xs ! 2) OR push_bit 8 (ucast (xs ! 3))"

text \<open>
  The specification of the receive loops: complete packets of at most \<open>lim\<close> bytes from the front, the
  bytes left over, and whether every header seen was acceptable.
\<close>

function frames :: "nat \<Rightarrow> bytes \<Rightarrow> bytes list \<times> bytes \<times> bool" where
  "frames lim xs =
     (if length xs < sizeof_PacketHeader then ([], xs, True)
      else let n = unat (header_size xs) in
        if lim < n \<or> n = 0 then ([], xs, False)
        else if length xs < n then ([], xs, True)
        else case frames lim (drop n xs) of (fs, rest, ok) \<Rightarrow> (take n xs # fs, rest, ok))"
  by pat_completeness auto
termination by (relation "measure (\<lambda>(lim, xs). length xs)") auto

declare frames.simps [simp del]

lemma header_size_append: "sizeof_PacketHeader \<le> length xs \<Longrightarrow> header_size (xs @ ys) = header_size xs"
  by (auto simp: header_size_def sizeof_PacketHeader_def nth_append)

lemma header_size_bound: "unat (header_size xs) < 65536"
  using unsigned_less [of "header_size xs"] by simp

text \<open>Cutting the stream does not depend on where it is split.\<close>

lemma frames_append:
  assumes "frames lim xs = (fs, rest, True)"
  shows "frames lim (xs @ ys) = (case frames lim (rest @ ys) of (gs, rest', ok) \<Rightarrow> (fs @ gs, rest', ok))"
  using assms
proof (induction lim xs arbitrary: fs rest rule: frames.induct)
  case (1 lim xs)
  let ?n = "unat (header_size xs)"
  show ?case
  proof (cases "length xs < sizeof_PacketHeader \<or> length xs < ?n")
    case True
    then have "fs = []" "rest = xs"
      using "1.prems" by (auto simp: frames.simps [of lim xs] Let_def split: if_splits)
    then show ?thesis by (simp split: prod.split)
  next
    case False
    then obtain gs where n: "\<not> (lim < ?n \<or> ?n = 0)" and gs: "frames lim (drop ?n xs) = (gs, rest, True)" "fs = take ?n xs # gs"
      using "1.prems" by (auto simp: frames.simps [of lim xs] Let_def split: if_splits prod.splits)
    have "frames lim (drop ?n xs @ ys) = (case frames lim (rest @ ys) of (gs', rest', ok) \<Rightarrow> (gs @ gs', rest', ok))"
      using "1.IH" [OF _ refl n _ gs(1)] False by simp
    moreover have "frames lim (xs @ ys) = (case frames lim (drop ?n xs @ ys) of (fs, rest, ok) \<Rightarrow> (take ?n xs # fs, rest, ok))"
      using False n by (subst frames.simps) (simp add: header_size_append Let_def)
    ultimately show ?thesis by (simp add: gs(2) split: prod.splits)
  qed
qed

text \<open>An unacceptable header stays unacceptable when more bytes follow.\<close>

lemma frames_append_bad: "\<not> snd (snd (frames lim xs)) \<Longrightarrow> \<not> snd (snd (frames lim (xs @ ys)))"
proof (induction lim xs rule: frames.induct)
  case (1 lim xs)
  let ?n = "unat (header_size xs)"
  have len: "\<not> length xs < sizeof_PacketHeader"
    using "1.prems" by (auto simp: frames.simps [of lim xs])
  show ?case
  proof (cases "lim < ?n \<or> ?n = 0")
    case True
    then show ?thesis using len by (subst frames.simps) (auto simp: header_size_append Let_def)
  next
    case False
    then have "\<not> length xs < ?n" "\<not> snd (snd (frames lim (drop ?n xs)))"
      using "1.prems" len by (auto simp: frames.simps [of lim xs] Let_def split: if_splits prod.splits)
    then show ?thesis
      using "1.IH" [OF len refl False] len False
      by (subst frames.simps) (auto simp: header_size_append Let_def split: prod.splits)
  qed
qed

lemma frames_data:
  "frames lim xs = (fs, rest, ok) \<Longrightarrow> xs = concat fs @ rest"
proof (induction lim xs arbitrary: fs rest ok rule: frames.induct)
  case (1 lim xs)
  let ?n = "unat (header_size xs)"
  consider "fs = []" "rest = xs" | gs where "\<not> length xs < sizeof_PacketHeader" "\<not> (lim < ?n \<or> ?n = 0)" "\<not> length xs < ?n"
      "frames lim (drop ?n xs) = (gs, rest, ok)" "fs = take ?n xs # gs"
    using "1.prems" by (auto simp: frames.simps [of lim xs] Let_def split: if_splits prod.splits)
  then show ?case
  proof cases
    case (2 gs)
    show ?thesis using "1.IH" [OF 2(1) refl 2(2,3,4)] append_take_drop_id [of ?n xs] 2(5) by simp
  qed simp
qed

text \<open>What is left over after a clean cut is shorter than the limit.\<close>

lemma frames_rest:
  "frames lim xs = (fs, rest, True) \<Longrightarrow> frames lim rest = ([], rest, True) \<and> length rest < max sizeof_PacketHeader lim"
proof (induction lim xs arbitrary: fs rest rule: frames.induct)
  case (1 lim xs)
  let ?n = "unat (header_size xs)"
  show ?case
  proof (cases "length xs < sizeof_PacketHeader \<or> length xs < ?n")
    case True
    then have "fs = []" "rest = xs" "length xs < max sizeof_PacketHeader lim"
      using "1.prems" by (auto simp: frames.simps [of lim xs] Let_def split: if_splits)
    then show ?thesis using "1.prems" by simp
  next
    case False
    then obtain gs where n: "\<not> (lim < ?n \<or> ?n = 0)" and gs: "frames lim (drop ?n xs) = (gs, rest, True)"
      using "1.prems" by (auto simp: frames.simps [of lim xs] Let_def split: if_splits prod.splits)
    then show ?thesis using "1.IH" [OF _ refl n _ gs] False by simp
  qed
qed

section \<open>The buffer as a byte stream\<close>

text \<open>
  What a session relies on: reading from the socket appends, consuming drops from the
  front, cleaning keeps the bytes and makes room.  A round is one read completion: append, consume
  all complete frames, make room for the next read.
\<close>

locale byte_stream =
  fixes inv :: "'b \<Rightarrow> bool" and data :: "'b \<Rightarrow> bytes" and cap free :: "'b \<Rightarrow> int"
    and fill :: "bytes \<Rightarrow> 'b \<Rightarrow> bool \<times> 'b" and consume :: "int \<Rightarrow> 'b \<Rightarrow> bool \<times> 'b" and clean :: "'b \<Rightarrow> 'b"
  assumes fill_ok: "inv b \<Longrightarrow> int (length xs) \<le> free b \<Longrightarrow>
      fst (fill xs b) \<and> inv (snd (fill xs b)) \<and> data (snd (fill xs b)) = data b @ xs \<and> cap (snd (fill xs b)) = cap b"
    and consume_ok: "inv b \<Longrightarrow> n \<le> length (data b) \<Longrightarrow>
      inv (snd (consume (int n) b)) \<and> data (snd (consume (int n) b)) = drop n (data b) \<and> cap (snd (consume (int n) b)) = cap b"
    and clean_ok: "inv b \<Longrightarrow> inv (clean b) \<and> data (clean b) = data b \<and> cap (clean b) = cap b"
    and clean_free: "inv b \<Longrightarrow> int (length (data b)) < cap b \<Longrightarrow> 0 < free (clean b)"
begin

definition eat :: "bytes list \<Rightarrow> 'b \<Rightarrow> 'b" where
  "eat fs b = fold (\<lambda>f b. snd (consume (int (length f)) b)) fs b"

lemma eat_ok:
  assumes "inv b" "data b = concat fs @ rest"
  shows "inv (eat fs b) \<and> data (eat fs b) = rest \<and> cap (eat fs b) = cap b"
  using assms
proof (induction fs arbitrary: b)
  case (Cons f fs)
  let ?b = "snd (consume (int (length f)) b)"
  have "inv ?b" "data ?b = concat fs @ rest" "cap ?b = cap b"
    using consume_ok [of b "length f"] Cons.prems by auto
  then show ?case using Cons.IH [of ?b] by (simp add: eat_def)
qed (simp add: eat_def)

definition round :: "nat \<Rightarrow> bytes \<Rightarrow> 'b \<Rightarrow> bytes list \<times> bool \<times> 'b" where
  "round lim xs b =
     (let b1 = snd (fill xs b); (fs, _, ok) = frames lim (data b1); b2 = eat fs b1
      in (fs, ok, if ok then clean b2 else b2))"

lemma round_ok:
  assumes "inv b" "int (length xs) \<le> free b" "frames lim (data b @ xs) = (fs, rest, ok)"
  shows "\<exists>b'. round lim xs b = (fs, ok, b') \<and> inv b' \<and> data b' = rest \<and> cap b' = cap b \<and>
    (ok \<longrightarrow> int (max sizeof_PacketHeader lim) \<le> cap b \<longrightarrow> 0 < free b')"
proof -
  let ?b1 = "snd (fill xs b)" and ?b2 = "eat fs (snd (fill xs b))"
  have f: "inv ?b1" "data ?b1 = data b @ xs" "cap ?b1 = cap b" using fill_ok [OF assms(1,2)] by auto
  have e: "inv ?b2" "data ?b2 = rest" "cap ?b2 = cap b"
    using eat_ok [OF f(1), of fs rest] f frames_data [OF assms(3)] by auto
  have "int (length rest) < cap b" if "ok" "int (max sizeof_PacketHeader lim) \<le> cap b"
    using frames_rest [of lim "data b @ xs" fs rest] assms(3) that by auto
  then show ?thesis using clean_ok [OF e(1)] clean_free [OF e(1)] e f assms(3) by (auto simp: round_def Let_def)
qed

text \<open>A run of rounds, each with a chunk that fits the room the round before has left.\<close>

primrec rounds :: "nat \<Rightarrow> bytes list \<Rightarrow> 'b \<Rightarrow> (bytes list \<times> bool) option" where
  "rounds lim [] b = Some ([], True)"
| "rounds lim (xs # xss) b =
     (if free b < int (length xs) then None
      else let (fs, ok, b') = round lim xs b
           in if ok then map_option (\<lambda>(gs, ok'). (fs @ gs, ok')) (rounds lim xss b') else Some (fs, False))"

lemma rounds_frames:
  assumes "inv b" "frames lim (data b) = ([], data b, True)" "rounds lim xss b = Some (fs, ok)"
  shows "(if ok then \<exists>rest. frames lim (data b @ concat xss) = (fs, rest, True)
    else \<exists>n rest. frames lim (data b @ concat (take n xss)) = (fs, rest, False))"
  using assms
proof (induction xss arbitrary: b fs)
  case (Cons xs xss)
  have fit: "int (length xs) \<le> free b" using Cons.prems(3) by (auto split: if_splits)
  obtain gs rest ok1 where fr: "frames lim (data b @ xs) = (gs, rest, ok1)" by (metis prod_cases3)
  obtain b' where r: "round lim xs b = (gs, ok1, b')" "inv b'" "data b' = rest"
    using round_ok [OF Cons.prems(1) fit fr] by blast
  show ?case
  proof (cases ok1)
    case False
    then have "fs = gs" "\<not> ok" using Cons.prems(3) fit r(1) by auto
    moreover have "frames lim (data b @ concat (take 1 (xs # xss))) = (gs, rest, False)" using fr False by simp
    ultimately show ?thesis by metis
  next
    case True
    then obtain hs where hs: "rounds lim xss b' = Some (hs, ok)" "fs = gs @ hs"
      using Cons.prems(3) fit r(1) by (auto split: if_splits)
    have rest: "frames lim (data b') = ([], data b', True)" 
      using frames_rest [of lim "data b @ xs" gs rest] fr True r(3) by simp
    have app: "frames lim (data b @ xs @ ys) = (case frames lim (data b' @ ys) of (gs', r', ok') \<Rightarrow> (gs @ gs', r', ok'))" for ys
      using frames_append [of lim "data b @ xs" gs rest ys] fr True r(3) by simp
    have "if ok then \<exists>rest. frames lim (data b' @ concat xss) = (hs, rest, True)
      else \<exists>n rest. frames lim (data b' @ concat (take n xss)) = (hs, rest, False)"
      by (rule Cons.IH [OF r(2) rest hs(1)])
    then show ?thesis
    proof (cases ok)
      case False
      then obtain n rest' where "frames lim (data b' @ concat (take n xss)) = (hs, rest', False)"
        using \<open>if ok then _ else _\<close> by auto
      then have "frames lim (data b @ concat (take (Suc n) (xs # xss))) = (fs, rest', False)"
        using app by (simp add: hs(2))
      then show ?thesis using False by metis
    qed (use app hs(2) in auto)
  qed
qed (simp add: frames.simps)

end

definition recv_fill :: "bytes \<Rightarrow> recv_buffer \<Rightarrow> bool \<times> recv_buffer" where
  "recv_fill xs b = MoveWritePos (int (length xs)) (WritePos_fill xs b)"

interpretation recv_stream: byte_stream rb_ok rb_data capacity FreeSize recv_fill MoveReadPos Clean
proof
  show "fst (recv_fill xs b) \<and> rb_ok (snd (recv_fill xs b)) \<and> rb_data (snd (recv_fill xs b)) = rb_data b @ xs \<and>
      capacity (snd (recv_fill xs b)) = capacity b" if "rb_ok b" "int (length xs) \<le> FreeSize b" for b xs
    using fill_data [OF that] by (simp add: recv_fill_def MoveWritePos_def WritePos_fill_def)
  show "rb_ok (snd (MoveReadPos (int n) b)) \<and> rb_data (snd (MoveReadPos (int n) b)) = drop n (rb_data b) \<and>
      capacity (snd (MoveReadPos (int n) b)) = capacity b" if "rb_ok b" "n \<le> length (rb_data b)" for b n
    using that MoveReadPos_ok MoveReadPos_data by (simp add: MoveReadPos_def)
qed (use Clean_ok Clean_data Clean_capacity Clean_free in auto)

section \<open>What a receive loop sees\<close>

lemma ReadPos_data:
  assumes "rb_ok b" "n \<le> length (rb_data b)"
  shows "take n (ReadPos b) = take n (rb_data b)"
  using assms(2) unfolding rb_data_def by (simp add: min.absorb1)

lemma header_size_data:
  assumes "rb_ok b" "sizeof_PacketHeader \<le> length (rb_data b)"
  shows "header_size (ReadPos b) = header_size (rb_data b)"
proof -
  have "nth (ReadPos b) i = nth (rb_data b) i" if "i < 4" for i
    using assms(2) that by (simp add: rb_data_def sizeof_PacketHeader_def)
  then show ?thesis by (simp add: header_size_def)
qed

text \<open>The header test of a loop with limit \<open>lim\<close>, at the last and at an earlier iteration.\<close>

lemma stream_stop:
  assumes "rb_ok b" "frames lim (rb_data b) = ([], rest, ok)"
  defines "n \<equiv> unat (header_size (ReadPos b))"
  shows "if DataSize b < int sizeof_PacketHeader then ok
    else if lim < n \<or> header_size (ReadPos b) = 0 then \<not> ok else DataSize b < int n \<and> ok"
proof (cases "length (rb_data b) < sizeof_PacketHeader")
  case True
  then show ?thesis using assms(2) rb_data_length [OF assms(1)]
    by (auto simp: frames.simps [of _ "rb_data b"])
next
  case False
  then have h: "header_size (ReadPos b) = header_size (rb_data b)" using header_size_data [OF assms(1)] by simp
  show ?thesis using assms(2) False rb_data_length [OF assms(1)]
    by (auto simp: frames.simps [of _ "rb_data b"] Let_def n_def h unsigned_eq_0_iff simp del: of_nat_unat
        split: if_splits prod.splits)
qed

lemma stream_head:
  assumes "rb_ok b" "frames lim (rb_data b) = (f # fs, rest, ok)"
  defines "n \<equiv> unat (header_size (ReadPos b))"
  shows "\<not> DataSize b < int sizeof_PacketHeader" "\<not> lim < n" "header_size (ReadPos b) \<noteq> 0" "\<not> DataSize b < int n"
    "take n (ReadPos b) = f" "length f = n" "rb_ok (snd (MoveReadPos (int n) b))"
    "frames lim (rb_data (snd (MoveReadPos (int n) b))) = (fs, rest, ok)"
proof -
  let ?n = "unat (header_size (rb_data b))"
  note len = rb_data_length [OF assms(1)]
  have fr: "\<not> length (rb_data b) < sizeof_PacketHeader" "\<not> (lim < ?n \<or> ?n = 0)" "\<not> length (rb_data b) < ?n"
    "f = take ?n (rb_data b)" "frames lim (drop ?n (rb_data b)) = (fs, rest, ok)"
    using assms(2) by (auto simp: frames.simps [of _ "rb_data b"] Let_def split: if_splits prod.splits)
  have h: "header_size (ReadPos b) = header_size (rb_data b)"
    using header_size_data [OF assms(1)] fr(1) by simp
  then have n: "n = ?n" by (simp add: n_def)
  show "\<not> DataSize b < int sizeof_PacketHeader" "\<not> lim < n" "header_size (ReadPos b) \<noteq> 0" "\<not> DataSize b < int n"
    using fr(1-3) h n by (auto simp: unsigned_eq_0_iff simp del: of_nat_unat simp flip: len)
  show "take n (ReadPos b) = f" "length f = n"
    using fr(3,4) ReadPos_data [OF assms(1), of ?n] n by auto
  show "rb_ok (snd (MoveReadPos (int n) b))" "frames lim (rb_data (snd (MoveReadPos (int n) b))) = (fs, rest, ok)"
    using recv_stream.consume_ok [OF assms(1), of ?n] fr(3,5) n by auto
qed

section \<open>Properties\<close>

text \<open>One read completion on a well-formed buffer, for a chunk of at most the size offered:
  the frames taken out are those of the buffered bytes followed by the chunk, the bytes
  left over stay in the buffer, and the next read is offered at least one byte, so that the read loop
  makes progress.\<close>

theorem recv_round:
  assumes "rb_ok b" "int (length xs) \<le> FreeSize b" "frames lim (rb_data b @ xs) = (fs, rest, True)"
    and "int (max sizeof_PacketHeader lim) \<le> capacity b"
  shows "\<exists>b'. b' = Clean (fold (\<lambda>f c. snd (MoveReadPos (int (length f)) c)) fs
      (snd (MoveWritePos (int (length xs)) (WritePos_fill xs b)))) \<and>
    rb_ok b' \<and> rb_data b' = rest \<and> 0 < FreeSize b'"
  using recv_stream.round_ok [OF assms(1-3)] assms(3,4) fill_data(3) [OF assms(1,2)]
  by (auto simp: recv_stream.round_def recv_stream.eat_def recv_fill_def Let_def)

theorem recv_round_witness:
  "\<exists>b'. rb_ok b' \<and> rb_data b' = [9] \<and> 0 < FreeSize b' \<and>
    b' = Clean (fold (\<lambda>f c. snd (MoveReadPos (int (length f)) c)) [[5, 0, 1, 0, 7 :: u8]]
      (snd (MoveWritePos 6 (WritePos_fill [5, 0, 1, 0, 7, 9] (RecvBuffer 64)))))"
proof -
  have "frames 32 (rb_data (RecvBuffer 64) @ [5, 0, 1, 0, 7, 9]) = ([[5, 0, 1, 0, 7]], [9], True)"
    by (simp add: rb_data_def DataSize_def RecvBuffer_def frames.simps header_size_def sizeof_PacketHeader_def)
  from recv_round [OF RecvBuffer_ok _ this] show ?thesis
    by (simp add: FreeSize_def RecvBuffer_def sizeof_PacketHeader_def)
qed

end
