(* ===== verification/Session_Base.thy ===== *)
theory Session_Base
  imports Concurrent_Queue Recv_Buffer
begin

text \<open>
  The state and operations the TCP sessions share: \<^verbatim>\<open>src/System/Session/Session.{h,cpp}\<close> and the
  fields \<open>GatewaySessionImpl\<close> and \<open>BackendSessionImpl\<close> have in common.  A packet is the bytes of
  its payload.  The operations the I/O context and the dispatcher still hold for the session
  (started reads, writes, timer waits, posted messages) are part of the state: each of them keeps a
  pointer to the session, and \<open>ioRef\<close> is to count them.

  Shown: clearing the send queue ends and empties it; that the count is exact (\<open>refs_ok\<close>) is the
  invariant the session theories prove for every operation.
\<close>

section \<open>Messages\<close>

datatype MessageType =
    NETWORK_CONNECT | NETWORK_DISCONNECT | NETWORK_DATA | LOGIC_JOB | LAMBDA_JOB
  | LOGIC_TIMER_EXPIRED | LOGIC_TIMER_ADD | LOGIC_TIMER_CANCEL | LOGIC_TIMER_TICK | PACKET

record net_message =
  nm_type :: MessageType
  nm_sessionId :: u64
  nm_payload :: bytes

section \<open>State\<close>

text \<open>\<open>socket\<close> is \<open>None\<close> for a null pointer, else it says whether the socket is open.\<close>

record io_state =
  reads :: nat
  writes :: "bytes list"
  waits :: nat
  posted :: "net_message list"

record 'q session =
  sid :: u64
  dispatcher :: bool
  connected :: bool
  ioRef :: int
  sendQueue :: 'q
  isSending :: bool
  socket :: "bool option"
  recvBuffer :: recv_buffer
  flowControlTimer :: bool
  heartbeatTimer :: bool
  lastRecvTime :: int
  lastPingTime :: int
  hbInterval :: u32
  hbTimeout :: u32
  hbPingFunc :: bool
  io :: io_state

definition no_io :: io_state where
  "no_io = \<lparr>reads = 0, writes = [], waits = 0, posted = []\<rparr>"

definition socket_open :: "('q, 'z) session_scheme \<Rightarrow> bool" where
  "socket_open s \<longleftrightarrow> socket s = Some True"

section \<open>Operations\<close>

definition CanDestroy :: "('q, 'z) session_scheme \<Rightarrow> bool" where
  "CanDestroy s \<longleftrightarrow> \<not> connected s \<and> ioRef s = 0"

definition IncRef :: "('q, 'z) session_scheme \<Rightarrow> ('q, 'z) session_scheme" where
  "IncRef s = s\<lparr>ioRef := ioRef s + 1\<rparr>"

definition DecRef :: "('q, 'z) session_scheme \<Rightarrow> ('q, 'z) session_scheme" where
  "DecRef s = s\<lparr>ioRef := ioRef s - 1\<rparr>"

definition Session_Reset :: "('q, bytes) cqueue \<Rightarrow> ('q, 'z) session_scheme \<Rightarrow> ('q, 'z) session_scheme option" where
  "Session_Reset Q s =
     (case drain Q [] (sendQueue s) of None \<Rightarrow> None
      | Some (_, q) \<Rightarrow> Some (s\<lparr>connected := False, ioRef := 0, isSending := False, sendQueue := q\<rparr>))"

text \<open>\<open>flush\<close> is the virtual \<open>Flush\<close> of the derived session.\<close>

definition EnqueueSend :: "('q, bytes) cqueue \<Rightarrow> (('q, 'z) session_scheme \<Rightarrow> ('q, 'z) session_scheme option)
    \<Rightarrow> bytes \<Rightarrow> ('q, 'z) session_scheme \<Rightarrow> ('q, 'z) session_scheme option" where
  "EnqueueSend Q flush msg s =
     (let s1 = s\<lparr>sendQueue := enqueue Q msg (sendQueue s)\<rparr>
      in if isSending s1 then Some s1 else flush (s1\<lparr>isSending := True\<rparr>))"

text \<open>\<open>alloc n\<close>: whether \<open>MessagePool::AllocatePacket(n)\<close> gives a packet.\<close>

definition SendPacket :: "('q, bytes) cqueue \<Rightarrow> (('q, 'z) session_scheme \<Rightarrow> ('q, 'z) session_scheme option)
    \<Rightarrow> (nat \<Rightarrow> bool) \<Rightarrow> bytes \<Rightarrow> ('q, 'z) session_scheme \<Rightarrow> ('q, 'z) session_scheme option" where
  "SendPacket Q flush alloc pkt s =
     (if \<not> connected s then Some s
      else if \<not> alloc (length pkt) then Some s
      else EnqueueSend Q flush pkt s)"

text \<open>\<open>SendPacket(PacketPtr)\<close> and \<open>SendPreSerialized\<close>: the packet may be null.\<close>

definition SendPacket_ptr :: "('q, bytes) cqueue \<Rightarrow> (('q, 'z) session_scheme \<Rightarrow> ('q, 'z) session_scheme option)
    \<Rightarrow> bytes option \<Rightarrow> ('q, 'z) session_scheme \<Rightarrow> ('q, 'z) session_scheme option" where
  "SendPacket_ptr Q flush msg s =
     (case msg of None \<Rightarrow> Some s | Some m \<Rightarrow> if \<not> connected s then Some s else EnqueueSend Q flush m s)"

text \<open>The operations that keep a pointer to the session count it first.\<close>

definition post :: "MessageType \<Rightarrow> bytes \<Rightarrow> ('q, 'z) session_scheme \<Rightarrow> ('q, 'z) session_scheme" where
  "post ty payload s =
     (let s1 = IncRef s
      in s1\<lparr>io := (io s1)\<lparr>posted := posted (io s1) @ [\<lparr>nm_type = ty, nm_sessionId = sid s1, nm_payload = payload\<rparr>]\<rparr>\<rparr>)"

definition async_read_some :: "('q, 'z) session_scheme \<Rightarrow> ('q, 'z) session_scheme" where
  "async_read_some s = s\<lparr>io := (io s)\<lparr>reads := Suc (reads (io s))\<rparr>\<rparr>"

definition async_write :: "bytes \<Rightarrow> ('q, 'z) session_scheme \<Rightarrow> ('q, 'z) session_scheme" where
  "async_write buf s = s\<lparr>io := (io s)\<lparr>writes := writes (io s) @ [buf]\<rparr>\<rparr>"

definition async_wait :: "('q, 'z) session_scheme \<Rightarrow> ('q, 'z) session_scheme" where
  "async_wait s = s\<lparr>io := (io s)\<lparr>waits := Suc (waits (io s))\<rparr>\<rparr>"

section \<open>The reference count\<close>

definition outstanding :: "io_state \<Rightarrow> nat" where
  "outstanding x = reads x + length (writes x) + waits x + length (posted x)"

text \<open>\<open>refs_ok d s\<close>: the count is exact, up to \<open>d\<close> handlers that are running and have not yet
  released their reference.\<close>

definition refs_ok :: "nat \<Rightarrow> ('q, 'z) session_scheme \<Rightarrow> bool" where
  "refs_ok d s \<longleftrightarrow> ioRef s = int (outstanding (io s)) + int d"

lemma refs_post [simp]: "refs_ok d (post ty p s) \<longleftrightarrow> refs_ok d s"
  by (simp add: refs_ok_def post_def IncRef_def outstanding_def Let_def algebra_simps)

lemma refs_read [simp]: "refs_ok d (async_read_some (IncRef s)) \<longleftrightarrow> refs_ok d s"
  by (simp add: refs_ok_def async_read_some_def IncRef_def outstanding_def algebra_simps)

lemma refs_write [simp]: "refs_ok d (async_write buf (IncRef s)) \<longleftrightarrow> refs_ok d s"
  by (simp add: refs_ok_def async_write_def IncRef_def outstanding_def algebra_simps)

lemma refs_wait [simp]: "refs_ok d (async_wait (IncRef s)) \<longleftrightarrow> refs_ok d s"
  by (simp add: refs_ok_def async_wait_def IncRef_def outstanding_def algebra_simps)

lemma refs_DecRef [simp]: "refs_ok d (DecRef s) \<longleftrightarrow> refs_ok (Suc d) s"
  by (auto simp: refs_ok_def DecRef_def)

lemma refs_frame [simp]:
  "refs_ok d (s\<lparr>connected := c\<rparr>) = refs_ok d s" "refs_ok d (s\<lparr>sendQueue := q\<rparr>) = refs_ok d s"
  "refs_ok d (s\<lparr>isSending := b\<rparr>) = refs_ok d s" "refs_ok d (s\<lparr>socket := k\<rparr>) = refs_ok d s"
  "refs_ok d (s\<lparr>recvBuffer := rb\<rparr>) = refs_ok d s" "refs_ok d (s\<lparr>lastRecvTime := t\<rparr>) = refs_ok d s"
  "refs_ok d (s\<lparr>lastPingTime := t\<rparr>) = refs_ok d s"
  by (simp_all add: refs_ok_def)

lemma CanDestroy_no_io:
  assumes "refs_ok 0 s" "CanDestroy s"
  shows "io s = no_io"
proof -
  have "outstanding (io s) = 0" using assms by (simp add: refs_ok_def CanDestroy_def)
  then show ?thesis by (cases "io s") (simp add: outstanding_def no_io_def)
qed

lemma Session_Reset_returns:
  assumes "cqueue_laws Q cont"
  shows "\<exists>s'. Session_Reset Q s = Some s' \<and> cont (sendQueue s') = {#} \<and> \<not> connected s' \<and>
    \<not> isSending s' \<and> ioRef s' = 0 \<and> io s' = io s"
  using drain_returns [OF assms, of "[]" "sendQueue s"] by (auto simp: Session_Reset_def)

end
