(* ===== verification/Packet_Cipher.thy ===== *)
theory Packet_Cipher
  imports Prelude
begin

text \<open>
  Payload encryption: the interface \<open>IPacketEncryption\<close>, the feedback cipher
  \<open>XorEncryption\<close> and AES-128 in CBC mode (\<open>AesEncryption\<close>), from
  \<^verbatim>\<open>src/System/Network\<close>.  A cipher maps the \<open>length\<close> bytes it is given to the bytes it
  writes; \<open>None\<close> stands for an access outside these bytes.

  Shown: every implementation of the interface keeps the length and is undone by its
  \<open>Decrypt\<close>; the S-box tables are inverse, \<open>MixColumns\<close> is undone by the inverse matrix;
  AES leaves its buffer exactly when the length is not a multiple of 16.
\<close>

section \<open>The interface\<close>

locale packet_cipher =
  fixes Encrypt Decrypt :: "'k \<Rightarrow> bytes \<Rightarrow> bytes option" and good_key :: "'k \<Rightarrow> bool"
  assumes encrypt_length: "good_key k \<Longrightarrow> Encrypt k xs = Some ys \<Longrightarrow> length ys = length xs"
    and decrypt_encrypt: "good_key k \<Longrightarrow> Encrypt k xs = Some ys \<Longrightarrow> Decrypt k ys = Some xs"
begin

lemma encrypt_inj:
  assumes "good_key k" "Encrypt k xs = Some zs" "Encrypt k ys = Some zs"
  shows "xs = ys"
  using decrypt_encrypt [OF assms(1,2)] decrypt_encrypt [OF assms(1,3)] by simp

end

section \<open>XorEncryption\<close>

primrec xor_encrypt_loop :: "u8 \<Rightarrow> bytes \<Rightarrow> bytes" where
  "xor_encrypt_loop key [] = []"
| "xor_encrypt_loop key (plain # src) =
     (let cipher = plain XOR key in cipher # xor_encrypt_loop cipher src)"

primrec xor_decrypt_loop :: "u8 \<Rightarrow> bytes \<Rightarrow> bytes" where
  "xor_decrypt_loop key [] = []"
| "xor_decrypt_loop key (cipher # src) =
     (let plain = cipher XOR key in plain # xor_decrypt_loop cipher src)"

definition Xor_Encrypt :: "u8 \<Rightarrow> bytes \<Rightarrow> bytes option" where
  "Xor_Encrypt key src = Some (xor_encrypt_loop key src)"

definition Xor_Decrypt :: "u8 \<Rightarrow> bytes \<Rightarrow> bytes option" where
  "Xor_Decrypt key src = Some (xor_decrypt_loop key src)"

lemma xor_encrypt_length [simp]: "length (xor_encrypt_loop key src) = length src"
  by (induction src arbitrary: key) (simp_all add: Let_def)

lemma xor_decrypt_encrypt [simp]: "xor_decrypt_loop key (xor_encrypt_loop key src) = src"
  by (induction src arbitrary: key) (simp_all add: Let_def xor.assoc)

interpretation xor_cipher: packet_cipher Xor_Encrypt Xor_Decrypt "\<lambda>_. True"
  by unfold_locales (auto simp: Xor_Encrypt_def Xor_Decrypt_def)

section \<open>AES tables\<close>

definition sbox :: bytes where
  "sbox = [
     0x63, 0x7c, 0x77, 0x7b, 0xf2, 0x6b, 0x6f, 0xc5, 0x30, 0x01, 0x67, 0x2b, 0xfe, 0xd7, 0xab, 0x76,
     0xca, 0x82, 0xc9, 0x7d, 0xfa, 0x59, 0x47, 0xf0, 0xad, 0xd4, 0xa2, 0xaf, 0x9c, 0xa4, 0x72, 0xc0,
     0xb7, 0xfd, 0x93, 0x26, 0x36, 0x3f, 0xf7, 0xcc, 0x34, 0xa5, 0xe5, 0xf1, 0x71, 0xd8, 0x31, 0x15,
     0x04, 0xc7, 0x23, 0xc3, 0x18, 0x96, 0x05, 0x9a, 0x07, 0x12, 0x80, 0xe2, 0xeb, 0x27, 0xb2, 0x75,
     0x09, 0x83, 0x2c, 0x1a, 0x1b, 0x6e, 0x5a, 0xa0, 0x52, 0x3b, 0xd6, 0xb3, 0x29, 0xe3, 0x2f, 0x84,
     0x53, 0xd1, 0x00, 0xed, 0x20, 0xfc, 0xb1, 0x5b, 0x6a, 0xcb, 0xbe, 0x39, 0x4a, 0x4c, 0x58, 0xcf,
     0xd0, 0xef, 0xaa, 0xfb, 0x43, 0x4d, 0x33, 0x85, 0x45, 0xf9, 0x02, 0x7f, 0x50, 0x3c, 0x9f, 0xa8,
     0x51, 0xa3, 0x40, 0x8f, 0x92, 0x9d, 0x38, 0xf5, 0xbc, 0xb6, 0xda, 0x21, 0x10, 0xff, 0xf3, 0xd2,
     0xcd, 0x0c, 0x13, 0xec, 0x5f, 0x97, 0x44, 0x17, 0xc4, 0xa7, 0x7e, 0x3d, 0x64, 0x5d, 0x19, 0x73,
     0x60, 0x81, 0x4f, 0xdc, 0x22, 0x2a, 0x90, 0x88, 0x46, 0xee, 0xb8, 0x14, 0xde, 0x5e, 0x0b, 0xdb,
     0xe0, 0x32, 0x3a, 0x0a, 0x49, 0x06, 0x24, 0x5c, 0xc2, 0xd3, 0xac, 0x62, 0x91, 0x95, 0xe4, 0x79,
     0xe7, 0xc8, 0x37, 0x6d, 0x8d, 0xd5, 0x4e, 0xa9, 0x6c, 0x56, 0xf4, 0xea, 0x65, 0x7a, 0xae, 0x08,
     0xba, 0x78, 0x25, 0x2e, 0x1c, 0xa6, 0xb4, 0xc6, 0xe8, 0xdd, 0x74, 0x1f, 0x4b, 0xbd, 0x8b, 0x8a,
     0x70, 0x3e, 0xb5, 0x66, 0x48, 0x03, 0xf6, 0x0e, 0x61, 0x35, 0x57, 0xb9, 0x86, 0xc1, 0x1d, 0x9e,
     0xe1, 0xf8, 0x98, 0x11, 0x69, 0xd9, 0x8e, 0x94, 0x9b, 0x1e, 0x87, 0xe9, 0xce, 0x55, 0x28, 0xdf,
     0x8c, 0xa1, 0x89, 0x0d, 0xbf, 0xe6, 0x42, 0x68, 0x41, 0x99, 0x2d, 0x0f, 0xb0, 0x54, 0xbb, 0x16]"

definition rsbox :: bytes where
  "rsbox = [
     0x52, 0x09, 0x6a, 0xd5, 0x30, 0x36, 0xa5, 0x38, 0xbf, 0x40, 0xa3, 0x9e, 0x81, 0xf3, 0xd7, 0xfb,
     0x7c, 0xe3, 0x39, 0x82, 0x9b, 0x2f, 0xff, 0x87, 0x34, 0x8e, 0x43, 0x44, 0xc4, 0xde, 0xe9, 0xcb,
     0x54, 0x7b, 0x94, 0x32, 0xa6, 0xc2, 0x23, 0x3d, 0xee, 0x4c, 0x95, 0x0b, 0x42, 0xfa, 0xc3, 0x4e,
     0x08, 0x2e, 0xa1, 0x66, 0x28, 0xd9, 0x24, 0xb2, 0x76, 0x5b, 0xa2, 0x49, 0x6d, 0x8b, 0xd1, 0x25,
     0x72, 0xf8, 0xf6, 0x64, 0x86, 0x68, 0x98, 0x16, 0xd4, 0xa4, 0x5c, 0xcc, 0x5d, 0x65, 0xb6, 0x92,
     0x6c, 0x70, 0x48, 0x50, 0xfd, 0xed, 0xb9, 0xda, 0x5e, 0x15, 0x46, 0x57, 0xa7, 0x8d, 0x9d, 0x84,
     0x90, 0xd8, 0xab, 0x00, 0x8c, 0xbc, 0xd3, 0x0a, 0xf7, 0xe4, 0x58, 0x05, 0xb8, 0xb3, 0x45, 0x06,
     0xd0, 0x2c, 0x1e, 0x8f, 0xca, 0x3f, 0x0f, 0x02, 0xc1, 0xaf, 0xbd, 0x03, 0x01, 0x13, 0x8a, 0x6b,
     0x3a, 0x91, 0x11, 0x41, 0x4f, 0x67, 0xdc, 0xea, 0x97, 0xf2, 0xcf, 0xce, 0xf0, 0xb4, 0xe6, 0x73,
     0x96, 0xac, 0x74, 0x22, 0xe7, 0xad, 0x35, 0x85, 0xe2, 0xf9, 0x37, 0xe8, 0x1c, 0x75, 0xdf, 0x6e,
     0x47, 0xf1, 0x1a, 0x71, 0x1d, 0x29, 0xc5, 0x89, 0x6f, 0xb7, 0x62, 0x0e, 0xaa, 0x18, 0xbe, 0x1b,
     0xfc, 0x56, 0x3e, 0x4b, 0xc6, 0xd2, 0x79, 0x20, 0x9a, 0xdb, 0xc0, 0xfe, 0x78, 0xcd, 0x5a, 0xf4,
     0x1f, 0xdd, 0xa8, 0x33, 0x88, 0x07, 0xc7, 0x31, 0xb1, 0x12, 0x10, 0x59, 0x27, 0x80, 0xec, 0x5f,
     0x60, 0x51, 0x7f, 0xa9, 0x19, 0xb5, 0x4a, 0x0d, 0x2d, 0xe5, 0x7a, 0x9f, 0x93, 0xc9, 0x9c, 0xef,
     0xa0, 0xe0, 0x3b, 0x4d, 0xae, 0x2a, 0xf5, 0xb0, 0xc8, 0xeb, 0xbb, 0x3c, 0x83, 0x53, 0x99, 0x61,
     0x17, 0x2b, 0x04, 0x7e, 0xba, 0x77, 0xd6, 0x26, 0xe1, 0x69, 0x14, 0x63, 0x55, 0x21, 0x0c, 0x7d]"

definition Rcon :: bytes where
  "Rcon = [0x8d, 0x01, 0x02, 0x04, 0x08, 0x10, 0x20, 0x40, 0x80, 0x1b, 0x36]"

lemma rsbox_table: "map (\<lambda>c. rsbox ! unat c) sbox = map of_nat [0..<256]"
  unfolding sbox_def rsbox_def by code_simp

lemma sbox_length: "length sbox = 256"
  by (simp add: sbox_def)

lemma rsbox_sbox: "rsbox ! unat (sbox ! unat b) = b"
proof -
  have b: "unat b < 256" using unsigned_less [of b] by simp
  have "map (\<lambda>c. rsbox ! unat c) sbox ! unat b = of_nat (unat b)"
    unfolding rsbox_table using b by simp
  then show ?thesis using b sbox_length by simp
qed

section \<open>AES block operations\<close>

record aes =
  roundKey :: "bytes list"
  aes_iv :: bytes

text \<open>The key schedule: word by word from the previous round key.\<close>

definition next_round_key :: "nat \<Rightarrow> bytes \<Rightarrow> bytes" where
  "next_round_key i prev =
     (let temp = [sbox ! unat (prev ! 13) XOR Rcon ! i, sbox ! unat (prev ! 14),
                  sbox ! unat (prev ! 15), sbox ! unat (prev ! 12)];
          w0 = map (\<lambda>j. prev ! j XOR temp ! j) [0, 1, 2, 3];
          w1 = map (\<lambda>j. prev ! (j + 4) XOR w0 ! j) [0, 1, 2, 3];
          w2 = map (\<lambda>j. prev ! (j + 8) XOR w1 ! j) [0, 1, 2, 3];
          w3 = map (\<lambda>j. prev ! (j + 12) XOR w2 ! j) [0, 1, 2, 3]
      in w0 @ w1 @ w2 @ w3)"

primrec round_keys :: "bytes \<Rightarrow> nat \<Rightarrow> bytes" where
  "round_keys key 0 = key"
| "round_keys key (Suc i) = next_round_key (Suc i) (round_keys key i)"

definition KeyExpansion :: "bytes \<Rightarrow> bytes list" where
  "KeyExpansion key = map (round_keys key) [0..<11]"

definition AesEncryption :: "bytes \<Rightarrow> bytes \<Rightarrow> string + aes" where
  "AesEncryption key iv =
     (if length key \<noteq> 16 then Inl ''Key size must be 16 bytes''
      else if length iv \<noteq> 16 then Inl ''IV size must be 16 bytes''
      else Inr \<lparr>roundKey = KeyExpansion key, aes_iv = iv\<rparr>)"

definition xor_bytes :: "bytes \<Rightarrow> bytes \<Rightarrow> bytes" where
  "xor_bytes xs ys = map2 (XOR) xs ys"

text \<open>The macro \<open>XTIME\<close> computes in \<^verbatim>\<open>int\<close>: nested uses keep the bits shifted out of the
  byte, and the assignment to a \<^verbatim>\<open>uint8_t\<close> drops them.\<close>

definition XTIME :: "u32 \<Rightarrow> u32" where
  "XTIME x = push_bit 1 x XOR (drop_bit 7 x AND 1) * 0x1b"

definition SubBytes_ShiftRows :: "bytes \<Rightarrow> bytes" where
  "SubBytes_ShiftRows state =
     map (\<lambda>i. sbox ! unat (state ! i)) [0, 5, 10, 15, 4, 9, 14, 3, 8, 13, 2, 7, 12, 1, 6, 11]"

definition InvShiftRows_InvSubBytes :: "bytes \<Rightarrow> bytes" where
  "InvShiftRows_InvSubBytes state =
     map (\<lambda>i. rsbox ! unat (state ! i)) [0, 13, 10, 7, 4, 1, 14, 11, 8, 5, 2, 15, 12, 9, 6, 3]"

definition mix_column :: "u8 \<Rightarrow> u8 \<Rightarrow> u8 \<Rightarrow> u8 \<Rightarrow> bytes" where
  "mix_column b0 b1 b2 b3 =
     (let s0 = ucast b0; s1 = ucast b1; s2 = ucast b2; s3 = ucast b3 in
      [ucast (XTIME s0 XOR XTIME s1 XOR s1 XOR s2 XOR s3),
       ucast (s0 XOR XTIME s1 XOR XTIME s2 XOR s2 XOR s3),
       ucast (s0 XOR s1 XOR XTIME s2 XOR XTIME s3 XOR s3),
       ucast (XTIME s0 XOR s0 XOR s1 XOR s2 XOR XTIME s3)])"

definition MixColumns :: "bytes \<Rightarrow> bytes" where
  "MixColumns t = concat (map (\<lambda>i. mix_column (t ! i) (t ! (i + 1)) (t ! (i + 2)) (t ! (i + 3))) [0, 4, 8, 12])"

definition inv_mix_byte :: "u32 \<Rightarrow> u32 \<Rightarrow> u32 \<Rightarrow> u32 \<Rightarrow> u8" where
  "inv_mix_byte s0 s1 s2 s3 =
     ucast (XTIME (XTIME (XTIME s0)) XOR XTIME (XTIME s0) XOR XTIME s0 XOR
            XTIME (XTIME (XTIME s1)) XOR XTIME s1 XOR s1 XOR
            XTIME (XTIME (XTIME s2)) XOR XTIME (XTIME s2) XOR s2 XOR
            XTIME (XTIME (XTIME s3)) XOR s3)"

definition inv_mix_column :: "u8 \<Rightarrow> u8 \<Rightarrow> u8 \<Rightarrow> u8 \<Rightarrow> bytes" where
  "inv_mix_column b0 b1 b2 b3 =
     (let s0 = ucast b0; s1 = ucast b1; s2 = ucast b2; s3 = ucast b3 in
      [inv_mix_byte s0 s1 s2 s3, inv_mix_byte s1 s2 s3 s0,
       inv_mix_byte s2 s3 s0 s1, inv_mix_byte s3 s0 s1 s2])"

definition InvMixColumns :: "bytes \<Rightarrow> bytes" where
  "InvMixColumns t =
     concat (map (\<lambda>i. inv_mix_column (t ! i) (t ! (i + 1)) (t ! (i + 2)) (t ! (i + 3))) [0, 4, 8, 12])"

text \<open>Rounds 1 to \<open>n\<close>, and back from \<open>n\<close> to 1.\<close>

primrec encrypt_rounds :: "bytes list \<Rightarrow> nat \<Rightarrow> bytes \<Rightarrow> bytes" where
  "encrypt_rounds rk 0 state = state"
| "encrypt_rounds rk (Suc n) state =
     xor_bytes (MixColumns (SubBytes_ShiftRows (encrypt_rounds rk n state))) (rk ! Suc n)"

primrec decrypt_rounds :: "bytes list \<Rightarrow> nat \<Rightarrow> bytes \<Rightarrow> bytes" where
  "decrypt_rounds rk 0 state = state"
| "decrypt_rounds rk (Suc n) state =
     decrypt_rounds rk n (InvMixColumns (xor_bytes (InvShiftRows_InvSubBytes state) (rk ! Suc n)))"

definition EncryptBlock :: "aes \<Rightarrow> bytes \<Rightarrow> bytes" where
  "EncryptBlock a inp =
     xor_bytes (SubBytes_ShiftRows (encrypt_rounds (roundKey a) 9 (xor_bytes inp (roundKey a ! 0))))
       (roundKey a ! 10)"

definition DecryptBlock :: "aes \<Rightarrow> bytes \<Rightarrow> bytes" where
  "DecryptBlock a inp =
     xor_bytes (InvShiftRows_InvSubBytes (decrypt_rounds (roundKey a) 9 (xor_bytes inp (roundKey a ! 10))))
       (roundKey a ! 0)"

section \<open>CBC mode\<close>

function cbc_encrypt :: "aes \<Rightarrow> bytes \<Rightarrow> bytes \<Rightarrow> bytes option" where
  "cbc_encrypt a iv src =
     (if src = [] then Some []
      else if length src < 16 then None
      else let c = EncryptBlock a (xor_bytes (take 16 src) iv)
           in map_option ((@) c) (cbc_encrypt a c (drop 16 src)))"
  by pat_completeness auto
termination by (relation "measure (\<lambda>(a, iv, src). length src)") auto

function cbc_decrypt :: "aes \<Rightarrow> bytes \<Rightarrow> bytes \<Rightarrow> bytes option" where
  "cbc_decrypt a iv src =
     (if src = [] then Some []
      else if length src < 16 then None
      else map_option ((@) (xor_bytes (DecryptBlock a (take 16 src)) iv))
             (cbc_decrypt a (take 16 src) (drop 16 src)))"
  by pat_completeness auto
termination by (relation "measure (\<lambda>(a, iv, src). length src)") auto

declare cbc_encrypt.simps [simp del] cbc_decrypt.simps [simp del]

definition Aes_Encrypt :: "aes \<Rightarrow> bytes \<Rightarrow> bytes option" where
  "Aes_Encrypt a src = cbc_encrypt a (aes_iv a) src"

definition Aes_Decrypt :: "aes \<Rightarrow> bytes \<Rightarrow> bytes option" where
  "Aes_Decrypt a src = cbc_decrypt a (aes_iv a) src"

section \<open>The block cipher is undone\<close>

definition xtime :: "u8 \<Rightarrow> u8" where
  "xtime x = push_bit 1 x XOR (if bit x 7 then 0x1b else 0)"

lemma xtime_xor: "xtime (a XOR b) = xtime a XOR xtime b"
  by (auto simp: xtime_def bit_simps push_bit_xor ac_simps)

lemma XTIME_if: "XTIME x = push_bit 1 x XOR (if bit x 7 then 0x1b else 0)"
  by (auto simp: XTIME_def and_one_eq bit_iff_odd_drop_bit odd_iff_mod_2_eq_one even_iff_mod_2_eq_zero)

lemma ucast_XTIME: "(ucast (XTIME x) :: u8) = xtime (ucast x)"
  unfolding XTIME_if xtime_def
  by (rule bit_word_eqI) (auto simp: bit_simps simp del: push_bit_Suc One_nat_def)

lemma xor_bytes_cancel:
  assumes "length xs = length ys"
  shows "xor_bytes (xor_bytes xs ys) ys = xs"
  using assms by (induction xs ys rule: list_induct2) (simp_all add: xor_bytes_def xor.assoc)

lemma xor_bytes_length [simp]: "length (xor_bytes xs ys) = min (length xs) (length ys)"
  by (simp add: xor_bytes_def)

lemma sub_length [simp]: "length (SubBytes_ShiftRows s) = 16" "length (InvShiftRows_InvSubBytes s) = 16"
  by (simp_all add: SubBytes_ShiftRows_def InvShiftRows_InvSubBytes_def)

lemma mix_length [simp]: "length (MixColumns s) = 16" "length (InvMixColumns s) = 16"
  by (simp_all add: MixColumns_def InvMixColumns_def mix_column_def inv_mix_column_def Let_def)

lemma bytes16_cases:
  assumes "length s = 16"
  obtains s0 s1 s2 s3 s4 s5 s6 s7 s8 s9 s10 s11 s12 s13 s14 s15 where
    "s = [s0, s1, s2, s3, s4, s5, s6, s7, s8, s9, s10, s11, s12, s13, s14, s15]"
  using assms by (auto simp: numeral_eq_Suc length_Suc_conv)

lemma inv_sub_sub:
  assumes "length s = 16"
  shows "InvShiftRows_InvSubBytes (SubBytes_ShiftRows s) = s"
  using assms
  by (rule bytes16_cases) (simp add: SubBytes_ShiftRows_def InvShiftRows_InvSubBytes_def rsbox_sbox)

lemma xor_left_cancel: "a XOR (a XOR b) = (b :: u8)"
  by (simp flip: xor.assoc)

lemma ucast_back: "ucast (ucast (b :: u8) :: u32) = b"
  by (rule bit_word_eqI) (simp add: bit_simps)

lemmas gf_simps = ucast_XTIME ucast_back xtime_xor unsigned_xor_eq xor.assoc xor.commute xor.left_commute xor_left_cancel

lemma inv_mix_mix_column:
  "case mix_column a b c d of [w, x, y, z] \<Rightarrow> inv_mix_column w x y z = [a, b, c, d] | _ \<Rightarrow> False"
  by (simp add: mix_column_def inv_mix_column_def inv_mix_byte_def Let_def gf_simps)

lemma inv_mix_mix:
  assumes "length s = 16"
  shows "InvMixColumns (MixColumns s) = s"
  using assms
proof (rule bytes16_cases)
  fix s0 s1 s2 s3 s4 s5 s6 s7 s8 s9 s10 s11 s12 s13 s14 s15
  assume s: "s = [s0, s1, s2, s3, s4, s5, s6, s7, s8, s9, s10, s11, s12, s13, s14, s15]"
  have col: "\<exists>w x y z. mix_column a b c d = [w, x, y, z] \<and> inv_mix_column w x y z = [a, b, c, d]" for a b c d
    using inv_mix_mix_column [of a b c d] by (simp split: list.splits)
  show ?thesis
    using col [of s0 s1 s2 s3] col [of s4 s5 s6 s7] col [of s8 s9 s10 s11] col [of s12 s13 s14 s15]
    by (auto simp: s MixColumns_def InvMixColumns_def)
qed

text \<open>A key schedule of eleven 16-byte round keys, and a 16-byte initialisation vector.\<close>

definition aes_ok :: "aes \<Rightarrow> bool" where
  "aes_ok a \<longleftrightarrow> length (roundKey a) = 11 \<and> (\<forall>k \<in> set (roundKey a). length k = 16) \<and> length (aes_iv a) = 16"

lemma aes_ok_key: "aes_ok a \<Longrightarrow> i < 11 \<Longrightarrow> length (roundKey a ! i) = 16"
  by (simp add: aes_ok_def)

lemma round_keys_length: "length key = 16 \<Longrightarrow> length (round_keys key i) = 16"
  by (induction i) (simp_all add: next_round_key_def Let_def)

lemma AesEncryption_ok: "AesEncryption key iv = Inr a \<Longrightarrow> aes_ok a"
  by (auto simp: AesEncryption_def aes_ok_def KeyExpansion_def round_keys_length split: if_splits)

lemma encrypt_rounds_length:
  "aes_ok a \<Longrightarrow> n < 11 \<Longrightarrow> length s = 16 \<Longrightarrow> length (encrypt_rounds (roundKey a) n s) = 16"
  by (induction n) (simp_all add: aes_ok_key)

lemma decrypt_encrypt_rounds:
  assumes "aes_ok a" "n < 11" "length s = 16"
  shows "decrypt_rounds (roundKey a) n (SubBytes_ShiftRows (encrypt_rounds (roundKey a) n s)) = SubBytes_ShiftRows s"
  using assms
proof (induction n)
  case (Suc n)
  let ?e = "encrypt_rounds (roundKey a) n s"
  have "InvShiftRows_InvSubBytes (SubBytes_ShiftRows (encrypt_rounds (roundKey a) (Suc n) s))
      = xor_bytes (MixColumns (SubBytes_ShiftRows ?e)) (roundKey a ! Suc n)"
    using Suc.prems by (simp add: inv_sub_sub aes_ok_key)
  then show ?case using Suc by (simp add: xor_bytes_cancel aes_ok_key inv_mix_mix)
qed simp

lemma EncryptBlock_length: "aes_ok a \<Longrightarrow> length s = 16 \<Longrightarrow> length (EncryptBlock a s) = 16"
  by (simp add: EncryptBlock_def aes_ok_key)

lemma DecryptBlock_EncryptBlock:
  assumes "aes_ok a" "length s = 16"
  shows "DecryptBlock a (EncryptBlock a s) = s"
  using assms by (simp add: DecryptBlock_def EncryptBlock_def xor_bytes_cancel aes_ok_key
      decrypt_encrypt_rounds inv_sub_sub)

lemma cbc_decrypt_block:
  assumes "length b = 16"
  shows "cbc_decrypt a iv (b @ c) = map_option ((@) (xor_bytes (DecryptBlock a b) iv)) (cbc_decrypt a b c)"
  by (subst cbc_decrypt.simps) (use assms in auto)

lemma cbc_round_trip:
  assumes "aes_ok a" "length iv = 16" "cbc_encrypt a iv src = Some c"
  shows "length c = length src \<and> cbc_decrypt a iv c = Some src"
  using assms
proof (induction a iv src arbitrary: c rule: cbc_encrypt.induct)
  case (1 a iv src)
  let ?b = "EncryptBlock a (xor_bytes (take 16 src) iv)"
  show ?case
  proof (cases "src = []")
    case True
    then show ?thesis using "1.prems" by (simp add: cbc_encrypt.simps [of a iv] cbc_decrypt.simps [of a iv])
  next
    case False
    then have len: "\<not> length src < 16" using "1.prems"(3) by (auto simp: cbc_encrypt.simps [of a iv src])
    then obtain c' where c': "cbc_encrypt a ?b (drop 16 src) = Some c'" "c = ?b @ c'"
      using "1.prems"(3) False by (auto simp: cbc_encrypt.simps [of a iv src] Let_def)
    have b: "length ?b = 16" using len "1.prems"(1,2) by (simp add: EncryptBlock_length)
    have tl: "length c' = length (drop 16 src)" "cbc_decrypt a ?b c' = Some (drop 16 src)"
      using "1.IH" [OF False len refl "1.prems"(1) b c'(1)] by auto
    have "xor_bytes (DecryptBlock a ?b) iv = take 16 src"
      using len "1.prems"(1,2) by (simp add: DecryptBlock_EncryptBlock xor_bytes_cancel)
    then have "cbc_decrypt a iv c = Some (take 16 src @ drop 16 src)"
      using tl(2) by (simp add: cbc_decrypt_block [OF b] c'(2))
    then show ?thesis using b tl(1) len c'(2) by simp
  qed
qed

lemma cbc_encrypt_defined: "cbc_encrypt a iv src \<noteq> None \<longleftrightarrow> length src mod 16 = 0"
proof (induction a iv src rule: cbc_encrypt.induct)
  case (1 a iv src)
  show ?case
  proof (cases "src = [] \<or> length src < 16")
    case True
    then show ?thesis by (auto simp: cbc_encrypt.simps [of a iv src])
  next
    case False
    then show ?thesis
      using "1.IH" by (auto simp: cbc_encrypt.simps [of a iv src] Let_def le_mod_geq)
  qed
qed

interpretation aes_cipher: packet_cipher Aes_Encrypt Aes_Decrypt aes_ok
  by unfold_locales (auto simp: Aes_Encrypt_def Aes_Decrypt_def aes_ok_def dest: cbc_round_trip [rotated 2])

section \<open>Properties\<close>

text \<open>What \<open>XorEncryption\<close> encrypts it decrypts, for every key and every length, and the
  length is kept.\<close>

theorem xor_round_trip:
  "\<exists>c. Xor_Encrypt key src = Some c \<and> length c = length src \<and> Xor_Decrypt key c = Some src"
  by (simp add: Xor_Encrypt_def Xor_Decrypt_def)

text \<open>AES-128-CBC: for every accepted key and vector and every payload of whole blocks,
  \<open>Encrypt\<close> writes as many bytes and \<open>Decrypt\<close> gives the payload back.  It covers the key
  schedule, the tables, the row and column steps and the chaining.\<close>

theorem aes_round_trip:
  assumes "AesEncryption key iv = Inr a" "length src mod 16 = 0"
  shows "\<exists>c. Aes_Encrypt a src = Some c \<and> length c = length src \<and> Aes_Decrypt a c = Some src"
proof -
  have ok: "aes_ok a" by (rule AesEncryption_ok [OF assms(1)])
  obtain c where "Aes_Encrypt a src = Some c"
    using assms(2) cbc_encrypt_defined [of a "aes_iv a" src] by (auto simp: Aes_Encrypt_def)
  then show ?thesis using aes_cipher.encrypt_length [OF ok] aes_cipher.decrypt_encrypt [OF ok] by blast
qed

theorem aes_round_trip_witness:
  "\<exists>a c. AesEncryption (replicate 16 1) (replicate 16 2) = Inr a \<and>
     Aes_Encrypt a (replicate 48 7) = Some c \<and> length c = 48 \<and> Aes_Decrypt a c = Some (replicate 48 7)"
proof -
  have "AesEncryption (replicate 16 1) (replicate 16 2) =
      Inr \<lparr>roundKey = KeyExpansion (replicate 16 1), aes_iv = replicate 16 2\<rparr>"
    by (simp add: AesEncryption_def)
  then show ?thesis using aes_round_trip [of _ _ _ "replicate 48 7"] by fastforce
qed

text \<open>AES leaves its buffers exactly for the payloads that are not a whole number of blocks:
  the caller has to pad, and \<open>GatewaySession\<close> does not.\<close>

theorem aes_needs_whole_blocks: "Aes_Encrypt a src = None \<longleftrightarrow> length src mod 16 \<noteq> 0"
  by (simp only: Aes_Encrypt_def not_not flip: cbc_encrypt_defined [of a "aes_iv a" src])

section \<open>Decryption in place\<close>

text \<open>\<open>IPacketEncryption\<close> allows source and destination to be the same buffer.  \<open>Decrypt\<close> then overwrites a block before it copies it as
  the next chaining value, so the plain text takes the place of the cipher text.\<close>

function cbc_decrypt_in_place :: "aes \<Rightarrow> bytes \<Rightarrow> bytes \<Rightarrow> bytes option" where
  "cbc_decrypt_in_place a iv buf =
     (if buf = [] then Some []
      else if length buf < 16 then None
      else let p = xor_bytes (DecryptBlock a (take 16 buf)) iv
           in map_option ((@) p) (cbc_decrypt_in_place a p (drop 16 buf)))"
  by pat_completeness auto
termination by (relation "measure (\<lambda>(a, iv, buf). length buf)") auto

declare cbc_decrypt_in_place.simps [simp del]

lemma decrypt_in_place_garbles:
  assumes "aes_ok a" "length b1 = 16" "length b2 = 16" "length iv = 16" "cbc_encrypt a iv (b1 @ b2) = Some (c1 @ c2)" "length c1 = 16"
  shows "cbc_decrypt a iv (c1 @ c2) = Some (b1 @ b2)" "cbc_decrypt_in_place a iv (c1 @ c2) = Some (b1 @ xor_bytes (xor_bytes b2 c1) b1)"
proof -
  let ?c1 = "EncryptBlock a (xor_bytes b1 iv)" and ?c2 = "EncryptBlock a (xor_bytes b2 c1)"
  have ne: "b1 \<noteq> []" "b2 \<noteq> []" "c1 \<noteq> []" using assms(2,3,6) by auto
  have len: "length ?c1 = 16" using assms(1,2,4) by (simp add: EncryptBlock_length)
  have e: "cbc_encrypt a iv (b1 @ b2) = Some (?c1 @ EncryptBlock a (xor_bytes b2 ?c1))"
    using assms(2,3) ne by (simp add: cbc_encrypt.simps [of a _ "b1 @ b2"] cbc_encrypt.simps [of a _ b2] cbc_encrypt.simps [of a _ "[]"] Let_def)
  then have c: "c1 = ?c1" "c2 = ?c2" using assms(5,6) len by auto
  have d: "DecryptBlock a c1 = xor_bytes b1 iv" "DecryptBlock a c2 = xor_bytes b2 c1"
    using DecryptBlock_EncryptBlock [OF assms(1), of "xor_bytes b1 iv"] DecryptBlock_EncryptBlock [OF assms(1), of "xor_bytes b2 c1"]
      assms(2-4,6) c by simp_all
  have l2: "length c2 = 16" using assms(1,3,6) c(2) by (simp add: EncryptBlock_length)
  show "cbc_decrypt a iv (c1 @ c2) = Some (b1 @ b2)" using cbc_round_trip [OF assms(1,4,5)] by simp
  have "cbc_decrypt_in_place a b1 c2 = Some (xor_bytes (xor_bytes b2 c1) b1)"
    using l2 d(2) by (auto simp: cbc_decrypt_in_place.simps [of a _ c2] cbc_decrypt_in_place.simps [of a _ "[]"] Let_def)
  then show "cbc_decrypt_in_place a iv (c1 @ c2) = Some (b1 @ xor_bytes (xor_bytes b2 c1) b1)"
    using assms(2,4,6) l2 d(1) ne by (simp add: cbc_decrypt_in_place.simps [of a _ "c1 @ c2"] xor_bytes_cancel Let_def)
qed

end
