(* ===== verification/Gateway_Session.thy ===== *)
theory Gateway_Session
  imports Session_Base Packet_Cipher
begin

text \<open>
  The session of an external client, \<^verbatim>\<open>src/System/Session/GatewaySession.cpp\<close>: read loop, send
  batching with encryption, heartbeat, connection and disconnection.  The cipher is any
  implementation of \<open>IPacketEncryption\<close>, passed as a record of its two functions.  A result
  \<open>None\<close> means that an operation leaves its buffers (the cipher's contract is broken) or does not
  return.

  Shown: the read loop posts exactly the packets of the byte stream, whatever the chunks, and
  offers room for the next read; what one session sends another one receives; reference
  counting is exact, so a session that may be destroyed has no operation in flight.
\<close>

section \<open>State\<close>

record 'c cipher =
  Encrypt_op :: "'c \<Rightarrow> bytes \<Rightarrow> bytes option"
  Decrypt_op :: "'c \<Rightarrow> bytes \<Rightarrow> bytes option"

record ('q, 'c) gateway = "'q session" +
  encryption :: "'c option"
  linearBuffer :: bytes
  readPaused :: bool

section \<open>Connection\<close>

definition OnDisconnect :: "('q, 'z) session_scheme \<Rightarrow> ('q, 'z) session_scheme" where
  "OnDisconnect s =
     (if connected s then
        (let s1 = s\<lparr>connected := False\<rparr>
         in if dispatcher s1 then post NETWORK_DISCONNECT [] s1 else s1)
      else s)"

definition Close :: "('q, 'z) session_scheme \<Rightarrow> ('q, 'z) session_scheme" where
  "Close s = OnDisconnect (if socket_open s then s\<lparr>socket := Some False\<rparr> else s)"

definition StartRead :: "('q, 'z) session_scheme \<Rightarrow> ('q, 'z) session_scheme" where
  "StartRead s =
     (if \<not> socket_open s then s
      else async_read_some (IncRef (s\<lparr>recvBuffer := Clean (recvBuffer s)\<rparr>)))"

definition OnConnect :: "('q, 'z) session_scheme \<Rightarrow> ('q, 'z) session_scheme" where
  "OnConnect s =
     (let s1 = s\<lparr>connected := True\<rparr>;
          s2 = (if dispatcher s1 then post NETWORK_CONNECT [] s1 else s1)
      in StartRead s2)"

definition GatewaySession_Reset ::
  "('q, bytes) cqueue \<Rightarrow> ('q, 'c) gateway \<Rightarrow> ('q, 'c) gateway option" where
  "GatewaySession_Reset Q s =
     map_option (\<lambda>s. s\<lparr>socket := None, encryption := None, recvBuffer := Reset_buffer (recvBuffer s),
       readPaused := False, flowControlTimer := False, heartbeatTimer := False\<rparr>) (Session_Reset Q s)"

definition GatewaySession_Reset_socket ::
  "('q, bytes) cqueue \<Rightarrow> bool option \<Rightarrow> u64 \<Rightarrow> bool \<Rightarrow> int \<Rightarrow> ('q, 'c) gateway \<Rightarrow> ('q, 'c) gateway option" where
  "GatewaySession_Reset_socket Q sock sessionId disp now s =
     map_option (\<lambda>s.
       let s1 = s\<lparr>sid := sessionId, dispatcher := disp, socket := sock\<rparr>;
           s2 = (if socket_open s1 then s1\<lparr>flowControlTimer := True, heartbeatTimer := True\<rparr> else s1)
       in s2\<lparr>recvBuffer := Reset_buffer (recvBuffer s2), lastRecvTime := now\<rparr>) (Session_Reset Q s)"

definition OnRecycle :: "('q, 'c) gateway \<Rightarrow> ('q, 'c) gateway" where
  "OnRecycle s = (if socket_open s then Close s else s)\<lparr>socket := None, encryption := None\<rparr>"

definition SetEncryption :: "'c option \<Rightarrow> ('q, 'c) gateway \<Rightarrow> ('q, 'c) gateway" where
  "SetEncryption enc s = s\<lparr>encryption := enc\<rparr>"

section \<open>Heartbeat\<close>

definition StartHeartbeat :: "('q, 'z) session_scheme \<Rightarrow> ('q, 'z) session_scheme" where
  "StartHeartbeat s = (if \<not> heartbeatTimer s then s else async_wait (IncRef s))"

definition ConfigHeartbeat :: "u32 \<Rightarrow> u32 \<Rightarrow> bool \<Rightarrow> ('q, 'z) session_scheme \<Rightarrow> ('q, 'z) session_scheme" where
  "ConfigHeartbeat intervalMs timeoutMs pingFunc s =
     (let s1 = s\<lparr>hbInterval := intervalMs, hbTimeout := timeoutMs, hbPingFunc := pingFunc\<rparr>
      in if 0 < hbInterval s1 \<and> heartbeatTimer s1 then StartHeartbeat s1 else s1)"

definition OnPong :: "int \<Rightarrow> ('q, 'z) session_scheme \<Rightarrow> ('q, 'z) session_scheme" where
  "OnPong now s = s\<lparr>lastRecvTime := now\<rparr>"

text \<open>\<open>ping\<close> is the configured ping function; times are milliseconds.\<close>

definition OnHeartbeatTimer ::
  "(('q, 'z) session_scheme \<Rightarrow> ('q, 'z) session_scheme) \<Rightarrow> bool \<Rightarrow> int \<Rightarrow> ('q, 'z) session_scheme \<Rightarrow> ('q, 'z) session_scheme" where
  "OnHeartbeatTimer ping ec now s =
     (if ec \<or> \<not> connected s then s
      else if now - lastRecvTime s > uint (hbTimeout s) then Close s
      else let s1 = (if now - lastPingTime s \<ge> uint (hbInterval s) \<and> hbPingFunc s
                     then (ping s)\<lparr>lastPingTime := now\<rparr> else s)
           in StartHeartbeat s1)"

section \<open>Receiving\<close>

text \<open>The payload of the message for a packet: header plain, body decrypted.\<close>

definition decode :: "'c cipher \<Rightarrow> 'c option \<Rightarrow> bytes \<Rightarrow> bytes option" where
  "decode C enc pkt =
     (case enc of None \<Rightarrow> Some pkt
      | Some c \<Rightarrow> if sizeof_PacketHeader < length pkt
          then map_option ((@) (take sizeof_PacketHeader pkt)) (Decrypt_op C c (drop sizeof_PacketHeader pkt))
          else Some pkt)"

text \<open>Posting a packet and advancing the buffer.\<close>

definition recv_packet :: "nat \<Rightarrow> bytes \<Rightarrow> ('q, 'z) session_scheme \<Rightarrow> ('q, 'z) session_scheme" where
  "recv_packet sz payload s =
     (let s1 = (if dispatcher s then post NETWORK_DATA payload s else s)
      in s1\<lparr>recvBuffer := snd (MoveReadPos (int sz) (recvBuffer s1))\<rparr>)"

lemma post_recvBuffer [simp]: "recvBuffer (post ty p s) = recvBuffer s"
  by (simp add: post_def IncRef_def Let_def)

lemma recv_packet_buffer [simp]:
  "recvBuffer (recv_packet n p s) = snd (MoveReadPos (int n) (recvBuffer s))"
  by (simp add: recv_packet_def Let_def)

lemma MoveReadPos_shrinks:
  assumes "sz \<noteq> 0" "\<not> DataSize b < int sizeof_PacketHeader" "\<not> DataSize b < int (unat sz)"
  shows "DataSize (snd (MoveReadPos (int (unat sz)) b)) < DataSize b" "0 < DataSize b"
  using assms uint_pos [OF assms(1)] by (auto simp: MoveReadPos_def DataSize_def sizeof_PacketHeader_def)

text \<open>The loop of \<open>OnRecv\<close>; the flag is \<open>False\<close> when it has closed the session.\<close>

function recv_loop :: "'c cipher \<Rightarrow> (nat \<Rightarrow> bool) \<Rightarrow> ('q, 'c) gateway \<Rightarrow> (('q, 'c) gateway \<times> bool) option" where
  "recv_loop C alloc s =
     (let b = recvBuffer s; dataSize = DataSize b in
      if dataSize < int sizeof_PacketHeader then Some (s, True)
      else let size = header_size (ReadPos b) in
        if 65535 < unat size \<or> size = 0 then Some (Close s, False)
        else if dataSize < int (unat size) then Some (s, True)
        else if \<not> alloc (unat size) then Some (Close s, False)
        else case decode C (encryption s) (take (unat size) (ReadPos b)) of
            None \<Rightarrow> None
          | Some payload \<Rightarrow> recv_loop C alloc (recv_packet (unat size) payload s))"
  by pat_completeness auto
termination
  by (relation "measure (\<lambda>(C, alloc, s). nat (DataSize (recvBuffer s)))")
     (auto simp del: of_nat_unat intro!: MoveReadPos_shrinks)

declare recv_loop.simps [simp del]

definition OnRecv :: "'c cipher \<Rightarrow> (nat \<Rightarrow> bool) \<Rightarrow> nat \<Rightarrow> ('q, 'c) gateway \<Rightarrow> ('q, 'c) gateway option" where
  "OnRecv C alloc bytesTransferred s =
     (case MoveWritePos (int bytesTransferred) (recvBuffer s) of
        (False, _) \<Rightarrow> Some (Close s)
      | (True, b) \<Rightarrow>
          (case recv_loop C alloc (s\<lparr>recvBuffer := b\<rparr>) of
             None \<Rightarrow> None
           | Some (s', cont) \<Rightarrow> Some (if cont then StartRead s' else s')))"

definition OnReadComplete ::
  "'c cipher \<Rightarrow> (nat \<Rightarrow> bool) \<Rightarrow> bool \<Rightarrow> nat \<Rightarrow> ('q, 'c) gateway \<Rightarrow> ('q, 'c) gateway option" where
  "OnReadComplete C alloc ec tr s = (if ec then Some (Close s) else OnRecv C alloc tr s)"

text \<open>The completion of a started read: the I/O context has put \<open>xs\<close> at \<open>WritePos()\<close> and runs
  the handler, which gives up its reference at the end.\<close>

definition read_handler ::
  "'c cipher \<Rightarrow> (nat \<Rightarrow> bool) \<Rightarrow> bool \<Rightarrow> bytes \<Rightarrow> ('q, 'c) gateway \<Rightarrow> ('q, 'c) gateway option" where
  "read_handler C alloc ec xs s =
     (let s1 = s\<lparr>io := (io s)\<lparr>reads := reads (io s) - 1\<rparr>, recvBuffer := WritePos_fill xs (recvBuffer s)\<rparr>
      in map_option DecRef (OnReadComplete C alloc ec (length xs) s1))"

section \<open>Sending\<close>

definition MAX_BATCH_SIZE :: nat where "MAX_BATCH_SIZE = 1000"

definition encode :: "'c cipher \<Rightarrow> 'c option \<Rightarrow> bytes \<Rightarrow> bytes option" where
  "encode C enc pkt =
     (case enc of None \<Rightarrow> Some pkt
      | Some c \<Rightarrow> if length pkt < sizeof_PacketHeader then None
          else if sizeof_PacketHeader < length pkt
          then map_option ((@) (take sizeof_PacketHeader pkt)) (Encrypt_op C c (drop sizeof_PacketHeader pkt))
          else Some pkt)"

primrec linearize :: "'c cipher \<Rightarrow> 'c option \<Rightarrow> bytes list \<Rightarrow> bytes option" where
  "linearize C enc [] = Some []"
| "linearize C enc (m # ms) =
     (case encode C enc m of None \<Rightarrow> None | Some x \<Rightarrow> map_option ((@) x) (linearize C enc ms))"

text \<open>
  \<open>late k\<close> is what other threads do while the \<open>k\<close>-th call of \<open>Flush\<close> has found the queue empty
  and looks again: the packets they enqueue, and whether one of them has taken over sending.
\<close>

partial_function (option) Flush ::
  "'c cipher \<Rightarrow> ('q, bytes) cqueue \<Rightarrow> (nat \<Rightarrow> bytes list \<times> bool) \<Rightarrow> ('q, 'c) gateway \<Rightarrow> ('q, 'c) gateway option" where
  "Flush C Q late s =
     (if \<not> socket_open s then Some (s\<lparr>isSending := False\<rparr>)
      else case try_dequeue_bulk Q MAX_BATCH_SIZE (sendQueue s) of (items, q) \<Rightarrow>
        if items = [] then
          (let s1 = s\<lparr>sendQueue := enqueue_bulk Q (fst (late 0)) q, isSending := snd (late 0)\<rparr>
           in case try_dequeue Q (sendQueue s1) of
                None \<Rightarrow> Some s1
              | Some (straggler, q') \<Rightarrow>
                  (if \<not> isSending s1
                   then Flush C Q (\<lambda>k. late (Suc k)) (s1\<lparr>isSending := True, sendQueue := enqueue Q straggler q'\<rparr>)
                   else Some (s1\<lparr>sendQueue := enqueue Q straggler q'\<rparr>)))
        else case linearize C (encryption s) items of
            None \<Rightarrow> None
          | Some buf \<Rightarrow> Some (async_write buf (IncRef (s\<lparr>sendQueue := q, linearBuffer := buf\<rparr>))))"

definition OnWriteComplete ::
  "'c cipher \<Rightarrow> ('q, bytes) cqueue \<Rightarrow> (nat \<Rightarrow> bytes list \<times> bool) \<Rightarrow> bool \<Rightarrow> ('q, 'c) gateway \<Rightarrow> ('q, 'c) gateway option" where
  "OnWriteComplete C Q late ec s = (if ec then Some (Close s) else Flush C Q late s)"

definition write_handler ::
  "'c cipher \<Rightarrow> ('q, bytes) cqueue \<Rightarrow> (nat \<Rightarrow> bytes list \<times> bool) \<Rightarrow> bool \<Rightarrow> ('q, 'c) gateway \<Rightarrow> ('q, 'c) gateway option" where
  "write_handler C Q late ec s =
     map_option DecRef (OnWriteComplete C Q late ec (s\<lparr>io := (io s)\<lparr>writes := tl (writes (io s))\<rparr>\<rparr>))"

definition wait_handler ::
  "(('q, 'c) gateway \<Rightarrow> ('q, 'c) gateway) \<Rightarrow> bool \<Rightarrow> int \<Rightarrow> ('q, 'c) gateway \<Rightarrow> ('q, 'c) gateway" where
  "wait_handler ping ec now s =
     DecRef (OnHeartbeatTimer ping ec now (s\<lparr>io := (io s)\<lparr>waits := waits (io s) - 1\<rparr>\<rparr>))"

section \<open>Reference counting\<close>

lemma refs_ok_linear: "refs_ok d (s\<lparr>sendQueue := q, linearBuffer := buf\<rparr>) = refs_ok d s"
  by (simp add: refs_ok_def)

lemma refs_OnDisconnect [simp]: "refs_ok d (OnDisconnect s) \<longleftrightarrow> refs_ok d s"
  by (simp add: OnDisconnect_def Let_def)

lemma refs_Close [simp]: "refs_ok d (Close s) \<longleftrightarrow> refs_ok d s"
  by (simp add: Close_def)

lemma refs_StartRead [simp]: "refs_ok d (StartRead s) \<longleftrightarrow> refs_ok d s"
  by (simp add: StartRead_def)

lemma refs_OnConnect [simp]: "refs_ok d (OnConnect s) \<longleftrightarrow> refs_ok d s"
  by (simp add: OnConnect_def Let_def)

lemma refs_StartHeartbeat [simp]: "refs_ok d (StartHeartbeat s) \<longleftrightarrow> refs_ok d s"
  by (simp add: StartHeartbeat_def)

lemma refs_ConfigHeartbeat [simp]: "refs_ok d (ConfigHeartbeat i t p s) \<longleftrightarrow> refs_ok d s"
proof -
  have "refs_ok d (s\<lparr>hbInterval := i, hbTimeout := t, hbPingFunc := p\<rparr>) \<longleftrightarrow> refs_ok d s"
    by (simp add: refs_ok_def)
  then show ?thesis by (simp add: ConfigHeartbeat_def Let_def)
qed

lemma refs_recv_packet [simp]: "refs_ok d (recv_packet n p s) \<longleftrightarrow> refs_ok d s"
  by (simp add: recv_packet_def Let_def)

text \<open>What the loop keeps: a property that closing and receiving a packet keep.\<close>

lemma recv_loop_keeps:
  assumes "recv_loop C alloc s = Some (s', c)" "P s"
    and close: "\<And>s. P s \<Longrightarrow> P (Close s)" and packet: "\<And>n p s. P s \<Longrightarrow> P (recv_packet n p s)"
  shows "P s'"
  using assms(1,2)
proof (induction C alloc s arbitrary: s' c rule: recv_loop.induct)
  case (1 C alloc s)
  let ?b = "recvBuffer s" and ?n = "unat (header_size (ReadPos (recvBuffer s)))"
  consider "s' = s" | "s' = Close s" | payload where
      "\<not> DataSize ?b < int sizeof_PacketHeader" "\<not> (65535 < ?n \<or> header_size (ReadPos ?b) = 0)"
      "\<not> DataSize ?b < int ?n" "\<not> \<not> alloc ?n" "decode C (encryption s) (take ?n (ReadPos ?b)) = Some payload"
      "recv_loop C alloc (recv_packet ?n payload s) = Some (s', c)"
    using "1.prems"(1) by (auto simp: recv_loop.simps [of C alloc s] Let_def split: if_splits option.splits)
  then show ?case
  proof cases
    case 3
    show ?thesis by (rule "1.IH" [OF refl refl 3(1) refl 3(2-6) packet [OF "1.prems"(2)]])
  qed (use close "1.prems"(2) in auto)
qed

lemma refs_recv_loop: "recv_loop C alloc s = Some (s', c) \<Longrightarrow> refs_ok d s \<Longrightarrow> refs_ok d s'"
  by (rule recv_loop_keeps) simp_all

lemma refs_read_handler:
  assumes "read_handler C alloc ec xs s = Some s'" "refs_ok 0 s" "0 < reads (io s)"
  shows "refs_ok 0 s'"
proof -
  have "refs_ok 1 (s\<lparr>io := (io s)\<lparr>reads := reads (io s) - 1\<rparr>, recvBuffer := WritePos_fill xs (recvBuffer s)\<rparr>)"
    using assms(2,3) by (auto simp: refs_ok_def outstanding_def)
  then show ?thesis
    using assms(1)
    by (auto simp: read_handler_def OnReadComplete_def OnRecv_def Let_def split: if_splits option.splits prod.splits bool.splits
        dest: refs_recv_loop)
qed

lemma Flush_keeps:
  assumes "Flush C Q late s = Some s'" "P s"
    and queue: "\<And>s q. P s \<Longrightarrow> P (s\<lparr>sendQueue := q\<rparr>)" "\<And>s b. P s \<Longrightarrow> P (s\<lparr>isSending := b\<rparr>)"
    and written: "\<And>s q buf. P s \<Longrightarrow> P (async_write buf (IncRef (s\<lparr>sendQueue := q, linearBuffer := buf\<rparr>)))"
  shows "P s'"
proof -
  have "P s \<longrightarrow> P s'"
    using assms(1)
  proof (induction rule: Flush.raw_induct [rotated, consumes 1, case_names body])
    case (body Flush C Q late s s')
    from body show ?case
      by (auto simp: Let_def queue written split: if_splits option.splits prod.splits)
  qed
  then show ?thesis using assms(2) by blast
qed

lemma refs_Flush: "Flush C Q late s = Some s' \<Longrightarrow> refs_ok d s \<Longrightarrow> refs_ok d s'"
  by (rule Flush_keeps) (simp_all add: refs_ok_linear)

lemma refs_write_handler:
  assumes "write_handler C Q late ec s = Some s'" "refs_ok 0 s" "writes (io s) \<noteq> []"
  shows "refs_ok 0 s'"
proof -
  have "refs_ok 1 (s\<lparr>io := (io s)\<lparr>writes := tl (writes (io s))\<rparr>\<rparr>)"
    using assms(2,3) by (cases "writes (io s)") (auto simp: refs_ok_def outstanding_def)
  then show ?thesis
    using assms(1) by (auto simp: write_handler_def OnWriteComplete_def split: if_splits dest: refs_Flush)
qed

lemma refs_wait_handler:
  assumes "refs_ok 0 s" "0 < waits (io s)" "\<And>d s. refs_ok d s \<Longrightarrow> refs_ok d (ping s)"
  shows "refs_ok 0 (wait_handler ping ec now s)"
proof -
  have "refs_ok 1 (s\<lparr>io := (io s)\<lparr>waits := waits (io s) - 1\<rparr>\<rparr>)"
    using assms(1,2) by (auto simp: refs_ok_def outstanding_def)
  then show ?thesis using assms(3) by (simp add: wait_handler_def OnHeartbeatTimer_def Let_def)
qed

lemma refs_SendPacket: "SendPacket Q (Flush C Q late) alloc pkt s = Some s' \<Longrightarrow> refs_ok d s \<Longrightarrow> refs_ok d s'"
  by (auto simp: SendPacket_def EnqueueSend_def Let_def split: if_splits dest: refs_Flush)

section \<open>The session in its environment\<close>

text \<open>
  The steps of a session: the calls of the server and the completions the I/O context and the dispatcher
  run.  A completion can only run for an operation that has been started; the dispatcher
  handles a posted message and releases its reference.
\<close>

inductive gw_step ::
  "'c cipher \<Rightarrow> ('q, bytes) cqueue \<Rightarrow> (('q, 'c) gateway \<Rightarrow> ('q, 'c) gateway) \<Rightarrow> ('q, 'c) gateway \<Rightarrow> ('q, 'c) gateway \<Rightarrow> bool"
  for C Q ping where
  connect: "gw_step C Q ping s (OnConnect s)"
| config: "gw_step C Q ping s (ConfigHeartbeat i t p s)"
| close: "gw_step C Q ping s (Close s)"
| send: "SendPacket Q (Flush C Q late) alloc pkt s = Some s' \<Longrightarrow> gw_step C Q ping s s'"
| pong: "gw_step C Q ping s (OnPong now s)"
| read: "0 < reads (io s) \<Longrightarrow> read_handler C alloc ec xs s = Some s' \<Longrightarrow> gw_step C Q ping s s'"
| wrote: "writes (io s) \<noteq> [] \<Longrightarrow> write_handler C Q late ec s = Some s' \<Longrightarrow> gw_step C Q ping s s'"
| waited: "0 < waits (io s) \<Longrightarrow> gw_step C Q ping s (wait_handler ping ec now s)"
| handled: "posted (io s) = m # ms \<Longrightarrow> gw_step C Q ping s (DecRef (s\<lparr>io := (io s)\<lparr>posted := ms\<rparr>\<rparr>))"

inductive gw_reach ::
  "'c cipher \<Rightarrow> ('q, bytes) cqueue \<Rightarrow> (('q, 'c) gateway \<Rightarrow> ('q, 'c) gateway) \<Rightarrow> ('q, 'c) gateway \<Rightarrow> ('q, 'c) gateway \<Rightarrow> bool"
  for C Q ping s0 where
  start: "gw_reach C Q ping s0 s0"
| step: "gw_reach C Q ping s0 s \<Longrightarrow> gw_step C Q ping s s' \<Longrightarrow> gw_reach C Q ping s0 s'"

lemma gw_step_refs:
  assumes "gw_step C Q ping s s'" "refs_ok 0 s" "\<And>d s. refs_ok d s \<Longrightarrow> refs_ok d (ping s)"
  shows "refs_ok 0 s'"
  using assms(1,2)
proof cases
  case (handled m ms)
  then show ?thesis using assms(2) by (auto simp: refs_ok_def outstanding_def DecRef_def)
next
  case (pong now)
  then show ?thesis using assms(2) by (simp add: OnPong_def)
qed (auto simp: assms(3) intro: refs_SendPacket refs_read_handler refs_write_handler refs_wait_handler)

lemma gw_reach_refs:
  assumes "gw_reach C Q ping s0 s" "refs_ok 0 s0" "\<And>d s. refs_ok d s \<Longrightarrow> refs_ok d (ping s)"
  shows "refs_ok 0 s"
  using assms(1) by induction (auto intro: assms(2) gw_step_refs [OF _ _ assms(3)])

section \<open>The read loop and the stream\<close>

primrec decode_all :: "'c cipher \<Rightarrow> 'c option \<Rightarrow> bytes list \<Rightarrow> bytes list option" where
  "decode_all C enc [] = Some []"
| "decode_all C enc (f # fs) =
     (case decode C enc f of None \<Rightarrow> None | Some p \<Rightarrow> map_option ((#) p) (decode_all C enc fs))"

definition receive_all :: "bytes list \<Rightarrow> bytes list \<Rightarrow> ('q, 'z) session_scheme \<Rightarrow> ('q, 'z) session_scheme" where
  "receive_all fs ps s = fold (\<lambda>(f, p). recv_packet (length f) p) (zip fs ps) s"

text \<open>The loop takes exactly the frames of the buffered data.\<close>

lemma recv_loop_frames:
  assumes "rb_ok (recvBuffer s)" "frames 65535 (rb_data (recvBuffer s)) = (fs, rest, ok)"
    and "decode_all C (encryption s) fs = Some ps" "\<And>n. alloc n"
  shows "recv_loop C alloc s =
    Some (if ok then receive_all fs ps s else Close (receive_all fs ps s), ok)"
  using assms(1-3)
proof (induction fs arbitrary: s ps)
  case Nil
  then show ?case
    using stream_stop [OF Nil.prems(1,2)]
    by (subst recv_loop.simps) (auto simp: receive_all_def Let_def simp del: of_nat_unat split: if_splits)
next
  case (Cons f fs)
  let ?n = "unat (header_size (ReadPos (recvBuffer s)))"
  note h = stream_head [OF Cons.prems(1,2)]
  obtain p ps' where p: "decode C (encryption s) f = Some p" "decode_all C (encryption s) fs = Some ps'" "ps = p # ps'"
    using Cons.prems(3) by (auto split: option.splits)
  let ?s = "recv_packet ?n p s"
  have enc: "encryption ?s = encryption s"
    by (simp add: recv_packet_def post_def IncRef_def Let_def)
  have "recv_loop C alloc ?s = Some (if ok then receive_all fs ps' ?s else Close (receive_all fs ps' ?s), ok)"
    using Cons.IH [of ?s] h(7,8) p(2) enc by simp
  moreover have "recv_loop C alloc s = recv_loop C alloc ?s"
    using h(1-5) p(1) assms(4) by (subst recv_loop.simps) (simp add: Let_def del: of_nat_unat)
  ultimately show ?case using h(6) by (simp add: receive_all_def p(3))
qed

definition data_message :: "u64 \<Rightarrow> bytes \<Rightarrow> net_message" where
  "data_message i p = \<lparr>nm_type = NETWORK_DATA, nm_sessionId = i, nm_payload = p\<rparr>"

lemma recv_packet_effect:
  "sid (recv_packet n p s) = sid s" "dispatcher (recv_packet n p s) = dispatcher s"
  "socket (recv_packet n p s) = socket s" "reads (io (recv_packet n p s)) = reads (io s)"
  "connected (recv_packet n p s) = connected s"
  "dispatcher s \<Longrightarrow> posted (io (recv_packet n p s)) = posted (io s) @ [data_message (sid s) p]"
  by (simp_all add: recv_packet_def post_def IncRef_def Let_def data_message_def)

lemma recv_packet_encryption: "encryption (recv_packet n p s) = encryption s"
  by (simp add: recv_packet_def post_def IncRef_def Let_def)

lemma receive_all_effect:
  assumes "length fs = length ps"
  shows "recvBuffer (receive_all fs ps s) = recv_stream.eat fs (recvBuffer s) \<and>
    sid (receive_all fs ps s) = sid s \<and> dispatcher (receive_all fs ps s) = dispatcher s \<and>
    socket (receive_all fs ps s) = socket s \<and> reads (io (receive_all fs ps s)) = reads (io s) \<and>
    connected (receive_all fs ps s) = connected s \<and>
    (dispatcher s \<longrightarrow> posted (io (receive_all fs ps s)) = posted (io s) @ map (data_message (sid s)) ps)"
  using assms
proof (induction fs ps arbitrary: s rule: list_induct2)
  case (Cons f fs p ps)
  have "receive_all (f # fs) (p # ps) s = receive_all fs ps (recv_packet (length f) p s)"
    by (simp add: receive_all_def)
  then show ?case
    using Cons.IH [of "recv_packet (length f) p s"] by (simp add: recv_packet_effect recv_stream.eat_def)
qed (simp add: receive_all_def recv_stream.eat_def)

lemma receive_all_encryption:
  "encryption (receive_all fs ps s) = encryption s"
proof -
  have "encryption (fold (\<lambda>(f, p). recv_packet (length f) p) xs s) = encryption s" for xs
    by (induction xs arbitrary: s) (auto simp: recv_packet_encryption)
  then show ?thesis by (simp add: receive_all_def)
qed

lemma decode_all_length: "decode_all C enc fs = Some ps \<Longrightarrow> length fs = length ps"
  by (induction fs arbitrary: ps) (auto split: option.splits)

lemma decode_all_append:
  "decode_all C enc (fs @ gs) =
     (case decode_all C enc fs of None \<Rightarrow> None | Some ps \<Rightarrow> map_option ((@) ps) (decode_all C enc gs))"
  by (cases "decode_all C enc gs"; induction fs) (auto split: option.splits)

text \<open>A session that can go on reading.\<close>

definition reading :: "('q, 'z) session_scheme \<Rightarrow> bool" where
  "reading s \<longleftrightarrow> rb_ok (recvBuffer s) \<and> capacity (recvBuffer s) = DEFAULT_CAPACITY \<and> socket_open s \<and>
     dispatcher s \<and> 0 < reads (io s) \<and> 0 < FreeSize (recvBuffer s)"

lemma read_handler_frames:
  assumes s: "reading s" and fit: "int (length xs) \<le> FreeSize (recvBuffer s)"
    and fr: "frames 65535 (rb_data (recvBuffer s) @ xs) = (fs, rest, True)"
    and dec: "decode_all C (encryption s) fs = Some ps" and alloc: "\<And>n. alloc n"
  shows "\<exists>s'. read_handler C alloc False xs s = Some s' \<and> reading s' \<and> rb_data (recvBuffer s') = rest \<and>
    posted (io s') = posted (io s) @ map (data_message (sid s)) ps \<and>
    sid s' = sid s \<and> encryption s' = encryption s"
proof -
  let ?b = "recvBuffer s"
  have b: "rb_ok ?b" "capacity ?b = 65536" using s by (auto simp: reading_def DEFAULT_CAPACITY_def)
  obtain b1 where f: "recv_fill xs ?b = (True, b1)" "rb_ok b1" "rb_data b1 = rb_data ?b @ xs"
    using recv_stream.fill_ok [OF b(1) fit] by (metis prod.collapse)
  define s1 where "s1 = s\<lparr>io := (io s)\<lparr>reads := reads (io s) - 1\<rparr>, recvBuffer := b1\<rparr>"
  have loop: "recv_loop C alloc s1 = Some (receive_all fs ps s1, True)"
    using recv_loop_frames [of s1 fs rest True C ps alloc] f fr dec alloc by (simp add: s1_def)
  have st: "recvBuffer (receive_all fs ps s1) = recv_stream.eat fs b1" "dispatcher (receive_all fs ps s1)"
    "socket (receive_all fs ps s1) = Some True" "sid (receive_all fs ps s1) = sid s"
    "encryption (receive_all fs ps s1) = encryption s"
    "posted (io (receive_all fs ps s1)) = posted (io s) @ map (data_message (sid s)) ps"
    using receive_all_effect [OF decode_all_length [OF dec], of s1] s receive_all_encryption [of fs ps s1]
    by (simp_all add: s1_def reading_def socket_open_def)
  have cl: "rb_ok (Clean (recv_stream.eat fs b1))" "rb_data (Clean (recv_stream.eat fs b1)) = rest"
    "capacity (Clean (recv_stream.eat fs b1)) = 65536" "0 < FreeSize (Clean (recv_stream.eat fs b1))"
    using recv_stream.round_ok [OF b(1) fit fr] f fr b(2)
    by (auto simp: recv_stream.round_def Let_def sizeof_PacketHeader_def)
  have "read_handler C alloc False xs s = Some (DecRef (StartRead (receive_all fs ps s1)))"
    using f(1) loop
    by (simp add: read_handler_def OnReadComplete_def OnRecv_def Let_def s1_def recv_fill_def)
  then show ?thesis
    using cl st by (simp add: reading_def DecRef_def StartRead_def async_read_some_def IncRef_def socket_open_def
        DEFAULT_CAPACITY_def)
qed

text \<open>Read completions one after another, each with at most the bytes the read was offered.\<close>

primrec feed :: "'c cipher \<Rightarrow> (nat \<Rightarrow> bool) \<Rightarrow> bytes list \<Rightarrow> ('q, 'c) gateway \<Rightarrow> ('q, 'c) gateway option" where
  "feed C alloc [] s = Some s"
| "feed C alloc (xs # xss) s =
     (if FreeSize (recvBuffer s) < int (length xs) then None
      else case read_handler C alloc False xs s of None \<Rightarrow> None | Some s' \<Rightarrow> feed C alloc xss s')"

lemma feed_frames:
  assumes "reading s" "frames 65535 (rb_data (recvBuffer s)) = ([], rb_data (recvBuffer s), True)"
    and "frames 65535 (rb_data (recvBuffer s) @ concat xss) = (fs, rest, True)"
    and "decode_all C (encryption s) fs = Some ps" "feed C alloc xss s \<noteq> None" "\<And>n. alloc n"
  shows "\<exists>s'. feed C alloc xss s = Some s' \<and> reading s' \<and> rb_data (recvBuffer s') = rest \<and>
    posted (io s') = posted (io s) @ map (data_message (sid s)) ps"
  using assms(1-5)
proof (induction xss arbitrary: s fs ps)
  case Nil
  then show ?case by auto
next
  case (Cons xs xss)
  have fit: "int (length xs) \<le> FreeSize (recvBuffer s)" using Cons.prems(5) by (auto split: if_splits)
  obtain gs r ok where g: "frames 65535 (rb_data (recvBuffer s) @ xs) = (gs, r, ok)" by (metis prod_cases3)
  have ok: ok
  proof (rule ccontr)
    assume "\<not> ok"
    then have "\<not> snd (snd (frames 65535 ((rb_data (recvBuffer s) @ xs) @ concat xss)))"
      using g frames_append_bad by (metis (full_types) snd_conv)
    then show False using Cons.prems(3) by simp
  qed
  obtain hs where h: "frames 65535 (r @ concat xss) = (hs, rest, True)" "fs = gs @ hs"
    using frames_append [of 65535 "rb_data (recvBuffer s) @ xs" gs r "concat xss"] g ok Cons.prems(3)
    by (auto split: prod.splits)
  obtain ps1 ps2 where p: "decode_all C (encryption s) gs = Some ps1" "decode_all C (encryption s) hs = Some ps2"
      "ps = ps1 @ ps2"
    using Cons.prems(4) h(2) by (auto simp: decode_all_append split: option.splits)
  obtain s' where s': "read_handler C alloc False xs s = Some s'" "reading s'" "rb_data (recvBuffer s') = r"
      "posted (io s') = posted (io s) @ map (data_message (sid s)) ps1" "sid s' = sid s" "encryption s' = encryption s"
    using read_handler_frames [OF Cons.prems(1) fit, of gs r C ps1 alloc] p(1) assms(6) g ok by auto
  have "frames 65535 (rb_data (recvBuffer s')) = ([], rb_data (recvBuffer s'), True)"
    using frames_rest g ok s'(3) by auto
  then show ?case
    using Cons.IH [OF s'(2), of hs ps2] h p s' Cons.prems(5) fit by auto
qed

section \<open>Sent bytes are received as sent\<close>

text \<open>A packet whose header carries its length.\<close>

definition wf_packet :: "bytes \<Rightarrow> bool" where
  "wf_packet m \<longleftrightarrow> sizeof_PacketHeader \<le> length m \<and> unat (header_size m) = length m"

text \<open>The session's cipher keeps the contract of \<open>IPacketEncryption\<close>.\<close>

definition cipher_ok :: "'c cipher \<Rightarrow> 'c option \<Rightarrow> bool" where
  "cipher_ok C enc \<longleftrightarrow> (\<forall>c xs ys. enc = Some c \<longrightarrow> Encrypt_op C c xs = Some ys \<longrightarrow>
     length ys = length xs \<and> Decrypt_op C c ys = Some xs)"

lemma packet_cipher_ok:
  assumes "packet_cipher E D good" "\<And>c. enc = Some c \<Longrightarrow> good c"
  shows "cipher_ok \<lparr>Encrypt_op = E, Decrypt_op = D\<rparr> enc"
  unfolding cipher_ok_def by (simp add: assms(2) packet_cipher.decrypt_encrypt [OF assms(1)])
    (metis assms(2) packet_cipher.encrypt_length [OF assms(1)])

lemma encode_decode:
  assumes "cipher_ok C enc" "encode C enc m = Some x" "wf_packet m"
  shows "decode C enc x = Some m" "length x = length m" "header_size x = header_size m" "sizeof_PacketHeader \<le> length x"
proof -
  have m: "sizeof_PacketHeader \<le> length m" using assms(3) by (simp add: wf_packet_def)
  have "decode C enc x = Some m \<and> length x = length m \<and> header_size x = header_size m"
  proof (cases "enc = None \<or> length m = sizeof_PacketHeader")
    case True
    then have "x = m" using assms(2) m by (auto simp: encode_def split: option.splits if_splits)
    then show ?thesis using True by (auto simp: decode_def split: option.splits)
  next
    case False
    then obtain c y where c: "enc = Some c" "Encrypt_op C c (drop sizeof_PacketHeader m) = Some y"
        "x = take sizeof_PacketHeader m @ y"
      using assms(2) m by (auto simp: encode_def split: option.splits if_splits)
    then have y: "length y = length m - sizeof_PacketHeader" "Decrypt_op C c y = Some (drop sizeof_PacketHeader m)"
      using assms(1) unfolding cipher_ok_def by (metis length_drop)+
    have "header_size x = header_size m"
      using m header_size_append [of "take sizeof_PacketHeader m" y]
        header_size_append [of "take sizeof_PacketHeader m" "drop sizeof_PacketHeader m"] c(3) by simp
    then show ?thesis using c y False m by (auto simp: decode_def)
  qed
  then show "decode C enc x = Some m" "length x = length m" "header_size x = header_size m"
    "sizeof_PacketHeader \<le> length x" using m by auto
qed

lemma frames_Cons:
  assumes "sizeof_PacketHeader \<le> length f" "unat (header_size f) = length f" "length f \<le> lim"
  shows "frames lim (f @ ys) = (case frames lim ys of (fs, rest, ok) \<Rightarrow> (f # fs, rest, ok))"
proof -
  have "length f \<noteq> 0" using assms(1) by (auto simp: sizeof_PacketHeader_def)
  then show ?thesis
    using assms by (subst frames.simps) (simp add: header_size_append Let_def)
qed

lemma linearize_frames:
  assumes "cipher_ok C enc" "linearize C enc ms = Some buf" "\<forall>m \<in> set ms. wf_packet m"
  shows "\<exists>fs. frames 65535 buf = (fs, [], True) \<and> decode_all C enc fs = Some ms"
  using assms(2,3)
proof (induction ms arbitrary: buf)
  case Nil
  then show ?case by (simp add: frames.simps sizeof_PacketHeader_def)
next
  case (Cons m ms)
  then obtain x buf' where x: "encode C enc m = Some x" "linearize C enc ms = Some buf'" "buf = x @ buf'"
    by (auto split: option.splits)
  obtain fs where fs: "frames 65535 buf' = (fs, [], True)" "decode_all C enc fs = Some ms"
    using Cons.IH [OF x(2)] Cons.prems(2) by auto
  have m: "wf_packet m" using Cons.prems(2) by simp
  note ed = encode_decode [OF assms(1) x(1) m]
  have "unat (header_size x) = length x" using m ed(2,3) by (simp add: wf_packet_def)
  then have "frames 65535 buf = (x # fs, [], True)"
    using frames_Cons [OF ed(4), of 65535 buf'] header_size_bound [of x] fs(1) x(3) by simp
  then show ?case using ed(1) fs(2) by simp
qed

lemma linearize_defined:
  "(\<And>m. m \<in> set ms \<Longrightarrow> encode C enc m \<noteq> None) \<Longrightarrow> \<exists>buf. linearize C enc ms = Some buf"
  by (induction ms) (auto split: option.splits)

section \<open>Flush\<close>

text \<open>The packets other threads enqueue while \<open>Flush\<close> runs.\<close>

definition arrived :: "('q \<Rightarrow> bytes multiset) \<Rightarrow> (nat \<Rightarrow> bytes list \<times> bool) \<Rightarrow> 'q \<Rightarrow> bytes multiset" where
  "arrived cont late q = (if cont q = {#} then mset (fst (late 0)) else {#})"

text \<open>A flush of a non-empty queue writes a batch.\<close>

lemma Flush_batch:
  assumes Q: "cqueue_laws Q cont" and s: "socket_open s" "cont (sendQueue s) \<noteq> {#}"
    and enc: "\<And>m. m \<in># cont (sendQueue s) \<Longrightarrow> encode C (encryption s) m \<noteq> None"
  shows "\<exists>s' items buf. Flush C Q late s = Some s' \<and> items \<noteq> [] \<and> length items \<le> MAX_BATCH_SIZE \<and>
    linearize C (encryption s) items = Some buf \<and> writes (io s') = writes (io s) @ [buf] \<and>
    mset items + cont (sendQueue s') = cont (sendQueue s) \<and> isSending s' = isSending s"
proof -
  obtain items q where d: "try_dequeue_bulk Q MAX_BATCH_SIZE (sendQueue s) = (items, q)" by fastforce
  note b = cqueue_bulk [OF Q d]
  have ne: "items \<noteq> []" using cqueue_bulk_nil [OF Q, of MAX_BATCH_SIZE "sendQueue s" q] d s(2)
    by (auto simp: MAX_BATCH_SIZE_def)
  have "encode C (encryption s) m \<noteq> None" if "m \<in> set items" for m
    using enc that b(1) by (metis in_multiset_in_set union_iff)
  then obtain buf where buf: "linearize C (encryption s) items = Some buf" using linearize_defined by blast
  have "Flush C Q late s = Some (async_write buf (IncRef (s\<lparr>sendQueue := q, linearBuffer := buf\<rparr>)))"
    using s(1) d ne buf by (subst Flush.simps) simp
  moreover have "mset items + cont q = cont (sendQueue s)" using b(1) by simp
  moreover have "length items \<le> MAX_BATCH_SIZE" using b(2) by simp
  ultimately show ?thesis using ne buf by (auto simp: async_write_def IncRef_def)
qed

lemma Flush_conserves:
  assumes Q: "cqueue_laws Q cont" and s: "socket_open s"
    and enc: "\<And>m. m \<in># cont (sendQueue s) + arrived cont late (sendQueue s) \<Longrightarrow> encode C (encryption s) m \<noteq> None"
  shows "\<exists>s' items bufs. Flush C Q late s = Some s' \<and> length items \<le> MAX_BATCH_SIZE \<and>
    mset items + cont (sendQueue s') = cont (sendQueue s) + arrived cont late (sendQueue s) \<and>
    (if items = [] then bufs = [] else \<exists>buf. linearize C (encryption s) items = Some buf \<and> bufs = [buf]) \<and>
    writes (io s') = writes (io s) @ bufs \<and>
    (items = [] \<longrightarrow> \<not> isSending s' \<longrightarrow> cont (sendQueue s') = {#})"
proof (cases "cont (sendQueue s) = {#}")
  case False
  then have a: "arrived cont late (sendQueue s) = {#}" by (simp add: arrived_def)
  obtain s' items buf where r: "Flush C Q late s = Some s'" "items \<noteq> []" "length items \<le> MAX_BATCH_SIZE"
      "linearize C (encryption s) items = Some buf" "writes (io s') = writes (io s) @ [buf]"
      "mset items + cont (sendQueue s') = cont (sendQueue s)"
    using Flush_batch [OF Q s False, of C late] enc by auto
  then show ?thesis unfolding a by (intro exI [of _ s'] exI [of _ items] exI [of _ "[buf]"]) simp
next
  case True
  then have a: "arrived cont late (sendQueue s) = mset (fst (late 0))" by (simp add: arrived_def)
  obtain items q where d0: "try_dequeue_bulk Q MAX_BATCH_SIZE (sendQueue s) = (items, q)" by fastforce
  then have "items = []" using cqueue_bulk(2) [OF Q d0] True by simp
  then have d: "try_dequeue_bulk Q MAX_BATCH_SIZE (sendQueue s) = ([], q)" "cont q = {#}"
    using cqueue_bulk(1) [OF Q d0] d0 True by simp_all
  define s1 where "s1 = s\<lparr>sendQueue := enqueue_bulk Q (fst (late 0)) q, isSending := snd (late 0)\<rparr>"
  have c1: "cont (sendQueue s1) = mset (fst (late 0))" by (simp add: s1_def cqueue_enqueue_bulk [OF Q] d(2))
  have unf: "Flush C Q late s = (case try_dequeue Q (sendQueue s1) of None \<Rightarrow> Some s1
      | Some (st, q') \<Rightarrow> if \<not> isSending s1
          then Flush C Q (\<lambda>k. late (Suc k)) (s1\<lparr>isSending := True, sendQueue := enqueue Q st q'\<rparr>)
          else Some (s1\<lparr>sendQueue := enqueue Q st q'\<rparr>))"
    using s d(1) by (subst Flush.simps) (simp add: s1_def Let_def cong: option.case_cong if_cong prod.case_cong)
  show ?thesis
  proof (cases "try_dequeue Q (sendQueue s1)")
    case None
    then have "fst (late 0) = []" using cqueue_empty [OF Q] c1 by simp
    then show ?thesis using unf None True a c1 by (auto simp: s1_def intro!: exI [of _ "[]"])
  next
    case (Some p)
    obtain st q' where p: "p = (st, q')" by fastforce
    let ?s2 = "s1\<lparr>sendQueue := enqueue Q st q'\<rparr>"
    have c2: "cont (enqueue Q st q') = mset (fst (late 0))"
      using cqueue_dequeue [OF Q, of "sendQueue s1" st q'] Some p c1 by (simp add: cqueue_enqueue [OF Q])
    show ?thesis
    proof (cases "isSending s1")
      case True
      then have "Flush C Q late s = Some ?s2" using unf Some p by simp
      then show ?thesis using True \<open>cont (sendQueue s) = {#}\<close> a c2 by (auto simp: s1_def intro!: exI [of _ "[]"])
    next
      case False
      let ?s3 = "s1\<lparr>isSending := True, sendQueue := enqueue Q st q'\<rparr>"
      have eq: "Flush C Q late s = Flush C Q (\<lambda>k. late (Suc k)) ?s3" using unf Some p False by simp
      have "cont (sendQueue ?s3) \<noteq> {#}" by (simp add: cqueue_enqueue [OF Q])
      moreover have "encode C (encryption ?s3) m \<noteq> None" if "m \<in># cont (sendQueue ?s3)" for m
        using enc [of m] that c2 a by (simp add: s1_def)
      moreover have "socket_open ?s3" using s by (simp add: s1_def socket_open_def)
      ultimately obtain s' items buf where r: "Flush C Q (\<lambda>k. late (Suc k)) ?s3 = Some s'" "items \<noteq> []"
          "length items \<le> MAX_BATCH_SIZE" "linearize C (encryption ?s3) items = Some buf"
          "writes (io s') = writes (io ?s3) @ [buf]" "mset items + cont (sendQueue s') = cont (sendQueue ?s3)"
        using Flush_batch [OF Q, of ?s3 C "\<lambda>k. late (Suc k)"] by blast
      then show ?thesis using eq True a c2 by (auto simp: s1_def intro!: exI [of _ items])
    qed
  qed
qed

section \<open>Properties\<close>

definition sample_gateway :: "(bytes list, u8) gateway" where
  "sample_gateway = \<lparr>sid = 7, dispatcher = True, connected = True, ioRef = 1, sendQueue = [], isSending = False,
     socket = Some True, recvBuffer = RecvBuffer 65536, flowControlTimer = True, heartbeatTimer = True,
     lastRecvTime = 0, lastPingTime = 0, hbInterval = 0, hbTimeout = 0, hbPingFunc = False,
     io = \<lparr>reads = 1, writes = [], waits = 0, posted = []\<rparr>, encryption = Some 0xA5, linearBuffer = [],
     readPaused = False\<rparr>"

definition xor_session_cipher :: "u8 cipher" where
  "xor_session_cipher = \<lparr>Encrypt_op = Xor_Encrypt, Decrypt_op = Xor_Decrypt\<rparr>"

lemma sample_reading: "reading sample_gateway"
  by (simp add: reading_def sample_gateway_def RecvBuffer_ok FreeSize_def socket_open_def DEFAULT_CAPACITY_def)
     (simp add: RecvBuffer_def)

lemma sample_empty: "rb_data (recvBuffer sample_gateway) = []"
  by (simp add: rb_data_def DataSize_def sample_gateway_def RecvBuffer_def)

text \<open>C3. End to end: the packets a session linearises into one write are the payloads the receiving
  session posts, in order, for every cipher that keeps the contract and however the
  transport cuts the bytes into reads; the receiver is left with an empty buffer and can go on
  reading.\<close>

theorem send_receive:
  assumes "cipher_ok C enc" "linearize C enc ms = Some buf" "\<forall>m \<in> set ms. wf_packet m"
    and "reading r" "rb_data (recvBuffer r) = []" "encryption r = enc"
    and "concat xss = buf" "feed C (\<lambda>_. True) xss r = Some r'"
  shows "posted (io r') = posted (io r) @ map (data_message (sid r)) ms \<and> reading r' \<and>
    rb_data (recvBuffer r') = []"
proof -
  obtain fs where "frames 65535 buf = (fs, [], True)" "decode_all C enc fs = Some ms"
    using linearize_frames [OF assms(1-3)] by blast
  then show ?thesis
    using feed_frames [OF assms(4), of xss fs "[]" C ms "\<lambda>_. True"] assms(5-8)
    by (auto simp: frames.simps [of _ "[]"] sizeof_PacketHeader_def)
qed

lemma sample_fields:
  "sid sample_gateway = 7" "encryption sample_gateway = Some 0xA5" "posted (io sample_gateway) = []"
  "FreeSize (recvBuffer sample_gateway) = 65536" "dispatcher sample_gateway" "connected sample_gateway"
  "refs_ok 0 sample_gateway" "0 < reads (io sample_gateway)" "socket_open sample_gateway" "sendQueue sample_gateway = []"
  "writes (io sample_gateway) = []"
  by (simp_all add: sample_gateway_def FreeSize_def RecvBuffer_def refs_ok_def outstanding_def socket_open_def)

lemma xor_session_ok: "cipher_ok xor_session_cipher enc"
  unfolding xor_session_cipher_def by (rule packet_cipher_ok [OF xor_cipher.packet_cipher_axioms]) simp

theorem send_receive_witness:
  "\<exists>buf r'. linearize xor_session_cipher (Some 0xA5) [[5, 0, 1, 0, 9], [4, 0, 2, 0]] = Some buf \<and>
     feed xor_session_cipher (\<lambda>_. True) [buf] sample_gateway = Some r' \<and>
     map nm_payload (posted (io r')) = [[5, 0, 1, 0, 9], [4, 0, 2, 0]]"
proof -
  let ?ms = "[[5, 0, 1, 0, 9], [4, 0, 2, 0]] :: bytes list" and ?buf = "[5, 0, 1, 0, 0xAC, 4, 0, 2, 0] :: bytes"
  have buf: "linearize xor_session_cipher (Some 0xA5) ?ms = Some ?buf"
    by (simp add: encode_def sizeof_PacketHeader_def xor_session_cipher_def Xor_Encrypt_def)
  have wf: "\<forall>m \<in> set ?ms. wf_packet m" by (simp add: wf_packet_def header_size_def sizeof_PacketHeader_def)
  obtain fs where "frames 65535 ?buf = (fs, [], True)" "decode_all xor_session_cipher (Some 0xA5) fs = Some ?ms"
    using linearize_frames [OF xor_session_ok buf wf] by blast
  then obtain r' where r': "feed xor_session_cipher (\<lambda>_. True) [?buf] sample_gateway = Some r'"
    using read_handler_frames [OF sample_reading, of ?buf fs "[]" xor_session_cipher ?ms "\<lambda>_. True"]
    by (auto simp: sample_fields sample_empty)
  have "posted (io r') = map (data_message 7) ?ms"
    using send_receive [OF xor_session_ok buf wf sample_reading sample_empty _ _ r'] by (simp add: sample_fields)
  then show ?thesis using buf r' by (auto simp: data_message_def)
qed

text \<open>C12. A session that may be returned to its pool has nothing in flight: in every state that can be
  reached by connecting, sending, closing, heartbeats, completions and handled messages,
  \<open>CanDestroy\<close> means that no read, write, timer wait or posted message still points to it.\<close>

theorem destroyable_session_is_idle:
  assumes "gw_reach C Q ping s0 s" "refs_ok 0 s0" "\<forall>d s. refs_ok d s \<longrightarrow> refs_ok d (ping s)" "CanDestroy s"
  shows "io s = no_io"
  using CanDestroy_no_io [OF gw_reach_refs [OF assms(1,2)] assms(4)] assms(3) by simp

theorem destroyable_session_is_idle_witness:
  "\<exists>s. gw_reach xor_session_cipher list_queue (\<lambda>s. s) (sample_gateway\<lparr>dispatcher := False\<rparr>) s \<and> CanDestroy s \<and> io s = no_io"
proof -
  let ?old = "sample_gateway\<lparr>dispatcher := False\<rparr>"
  let ?s = "DecRef (Close (?old\<lparr>io := (io ?old)\<lparr>reads := 0\<rparr>, recvBuffer := WritePos_fill [] (recvBuffer ?old)\<rparr>))"
  have "gw_step xor_session_cipher list_queue (\<lambda>s. s) ?old ?s"
    by (rule gw_step.read [where ec = True and xs = "[]"])
      (simp_all add: read_handler_def OnReadComplete_def sample_gateway_def)
  then have r: "gw_reach xor_session_cipher list_queue (\<lambda>s. s) ?old ?s" by (rule gw_reach.step [OF gw_reach.start])
  have d: "CanDestroy ?s"
    by (simp add: CanDestroy_def Close_def OnDisconnect_def socket_open_def DecRef_def sample_gateway_def)
  have "refs_ok 0 ?old" by (simp add: refs_ok_def outstanding_def sample_gateway_def)
  from destroyable_session_is_idle [OF r this _ d] show ?thesis using r d by auto
qed

text \<open>\<open>Flush\<close> returns for every behaviour of the other threads, and packets are neither lost
  nor duplicated: what it linearises into the one write it starts and what stays queued is what was
  queued and what arrived.  If it starts no write, it has either emptied the queue or left
  sending to another thread.\<close>

theorem flush_conserves_packets:
  assumes "cqueue_laws Q cont" "socket_open s"
    and "\<forall>m \<in># cont (sendQueue s) + arrived cont late (sendQueue s). encode C (encryption s) m \<noteq> None"
  shows "\<exists>s' items bufs. Flush C Q late s = Some s' \<and> length items \<le> MAX_BATCH_SIZE \<and>
    mset items + cont (sendQueue s') = cont (sendQueue s) + arrived cont late (sendQueue s) \<and>
    (if items = [] then bufs = [] else \<exists>buf. linearize C (encryption s) items = Some buf \<and> bufs = [buf]) \<and>
    writes (io s') = writes (io s) @ bufs \<and>
    (items = [] \<longrightarrow> \<not> isSending s' \<longrightarrow> cont (sendQueue s') = {#})"
  using Flush_conserves [OF assms(1,2), of late C] assms(3) by blast

theorem flush_conserves_packets_witness:
  "\<exists>s' items. Flush xor_session_cipher list_queue (\<lambda>k. ([[4, 0, 2, 0]], False)) sample_gateway = Some s' \<and>
     mset items + mset (sendQueue s') = {#[4, 0, 2, 0]#}"
proof -
  have "\<forall>m \<in># mset (sendQueue sample_gateway) + arrived mset (\<lambda>k. ([[4, 0, 2, 0]], False)) (sendQueue sample_gateway).
      encode xor_session_cipher (encryption sample_gateway) m \<noteq> None"
    by (simp add: sample_fields arrived_def encode_def sizeof_PacketHeader_def)
  from flush_conserves_packets [OF list_queue_laws sample_fields(9) this] show ?thesis
    by (auto simp: sample_fields arrived_def)
qed

text \<open>Closing is idempotent and announces the disconnect once: the first \<open>Close\<close> of a
  connected session posts one \<open>NETWORK_DISCONNECT\<close>, later ones post nothing.\<close>

theorem close_once:
  assumes "connected s" "dispatcher s"
  shows "posted (io (Close s)) = posted (io s) @ [\<lparr>nm_type = NETWORK_DISCONNECT, nm_sessionId = sid s, nm_payload = []\<rparr>] \<and>
    \<not> connected (Close s) \<and> \<not> socket_open (Close s) \<and> Close (Close s) = Close s"
  using assms by (auto simp: Close_def OnDisconnect_def post_def IncRef_def socket_open_def Let_def)

theorem close_once_witness:
  "length (posted (io (Close (Close sample_gateway)))) = 1"
  using close_once [OF sample_fields(6,5)] by (simp add: sample_fields)

end
