(* ===== verification/Backend_Session.thy ===== *)
theory Backend_Session
  imports Gateway_Session
begin

text \<open>
  The session between servers, \<^verbatim>\<open>src/System/Session/BackendSession.cpp\<close>: no encryption, packets of at
  most 10 KiB, and a scatter-gather write that keeps the packets until it completes.  \<open>Close\<close>,
  \<open>OnConnect\<close>, \<open>OnDisconnect\<close>, \<open>StartRead\<close> and the heartbeat are the code of
  \<open>GatewaySession\<close> line by line, and the definitions of that theory serve both.

  Shown: the read loop posts exactly the packets of the stream and closes on the first
  header outside the limit; the gathered write is the concatenation of the batch.
\<close>

section \<open>Operations\<close>

record 'q backend = "'q session" +
  gatherBuffers :: "bytes list"
  sendingPackets :: "bytes list"

definition BackendSession_Reset :: "('q, bytes) cqueue \<Rightarrow> 'q backend \<Rightarrow> 'q backend option" where
  "BackendSession_Reset Q s =
     map_option (\<lambda>s. s\<lparr>socket := None, recvBuffer := Reset_buffer (recvBuffer s), flowControlTimer := False,
       heartbeatTimer := False, gatherBuffers := [], sendingPackets := []\<rparr>) (Session_Reset Q s)"

definition BackendSession_Reset_socket ::
  "('q, bytes) cqueue \<Rightarrow> bool option \<Rightarrow> u64 \<Rightarrow> bool \<Rightarrow> int \<Rightarrow> 'q backend \<Rightarrow> 'q backend option" where
  "BackendSession_Reset_socket Q sock sessionId disp now s =
     map_option (\<lambda>s.
       let s1 = s\<lparr>gatherBuffers := [], sendingPackets := [], sid := sessionId, dispatcher := disp, socket := sock\<rparr>;
           s2 = (if socket_open s1 then s1\<lparr>flowControlTimer := True, heartbeatTimer := True\<rparr> else s1)
       in s2\<lparr>recvBuffer := Reset_buffer (recvBuffer s2), lastRecvTime := now\<rparr>) (Session_Reset Q s)"

definition BackendSession_OnRecycle :: "('q, bytes) cqueue \<Rightarrow> 'q backend \<Rightarrow> 'q backend option" where
  "BackendSession_OnRecycle Q s =
     (let s1 = (if socket_open s then Close s else s)
      in Session_Reset Q (s1\<lparr>gatherBuffers := [], sendingPackets := [], socket := None\<rparr>))"

definition MAX_BACKEND_PACKET :: nat where "MAX_BACKEND_PACKET = 1024 * 10"

function backend_recv_loop :: "(nat \<Rightarrow> bool) \<Rightarrow> 'q backend \<Rightarrow> 'q backend \<times> bool" where
  "backend_recv_loop alloc s =
     (let b = recvBuffer s; ds = DataSize b in
      if ds < int sizeof_PacketHeader then (s, True)
      else let h = header_size (ReadPos b) in
        if MAX_BACKEND_PACKET < unat h \<or> h = 0 then (Close s, False)
        else if ds < int (unat h) then (s, True)
        else if \<not> alloc (unat h) then (Close s, False)
        else backend_recv_loop alloc (recv_packet (unat h) (take (unat h) (ReadPos b)) s))"
  by pat_completeness auto
termination
  by (relation "measure (\<lambda>(alloc, s). nat (DataSize (recvBuffer s)))")
     (auto simp del: of_nat_unat intro!: MoveReadPos_shrinks)

declare backend_recv_loop.simps [simp del]

definition backend_OnRecv :: "(nat \<Rightarrow> bool) \<Rightarrow> nat \<Rightarrow> 'q backend \<Rightarrow> 'q backend" where
  "backend_OnRecv alloc tr s =
     (case MoveWritePos (int tr) (recvBuffer s) of
        (False, _) \<Rightarrow> Close s
      | (True, b) \<Rightarrow>
          (case backend_recv_loop alloc (s\<lparr>recvBuffer := b\<rparr>) of
             (s', cont) \<Rightarrow> if cont then StartRead s' else s'))"

definition backend_OnReadComplete :: "(nat \<Rightarrow> bool) \<Rightarrow> bool \<Rightarrow> nat \<Rightarrow> 'q backend \<Rightarrow> 'q backend" where
  "backend_OnReadComplete alloc ec tr s = (if ec then Close s else backend_OnRecv alloc tr s)"

definition backend_read_handler :: "(nat \<Rightarrow> bool) \<Rightarrow> bool \<Rightarrow> bytes \<Rightarrow> 'q backend \<Rightarrow> 'q backend" where
  "backend_read_handler alloc ec xs s =
     (let s1 = s\<lparr>io := (io s)\<lparr>reads := reads (io s) - 1\<rparr>, recvBuffer := WritePos_fill xs (recvBuffer s)\<rparr>
      in DecRef (backend_OnReadComplete alloc ec (length xs) s1))"

partial_function (option) backend_Flush ::
  "('q, bytes) cqueue \<Rightarrow> (nat \<Rightarrow> bytes list \<times> bool) \<Rightarrow> 'q backend \<Rightarrow> 'q backend option" where
  "backend_Flush Q late s =
     (if \<not> socket_open s then Some (s\<lparr>isSending := False\<rparr>)
      else case try_dequeue_bulk Q MAX_BATCH_SIZE (sendQueue s) of (items, q) \<Rightarrow>
        if items = [] then
          (let s1 = s\<lparr>sendQueue := enqueue_bulk Q (fst (late 0)) q, isSending := snd (late 0)\<rparr>
           in case try_dequeue Q (sendQueue s1) of
                None \<Rightarrow> Some s1
              | Some (straggler, q') \<Rightarrow>
                  (if \<not> isSending s1
                   then backend_Flush Q (\<lambda>k. late (Suc k)) (s1\<lparr>isSending := True, sendQueue := enqueue Q straggler q'\<rparr>)
                   else Some (s1\<lparr>sendQueue := enqueue Q straggler q'\<rparr>)))
        else Some (async_write (concat items)
          (IncRef (s\<lparr>sendQueue := q, gatherBuffers := items, sendingPackets := items\<rparr>))))"

definition backend_OnWriteComplete ::
  "('q, bytes) cqueue \<Rightarrow> (nat \<Rightarrow> bytes list \<times> bool) \<Rightarrow> bool \<Rightarrow> 'q backend \<Rightarrow> 'q backend option" where
  "backend_OnWriteComplete Q late ec s = (if ec then Some (Close s) else backend_Flush Q late s)"

definition backend_write_handler ::
  "('q, bytes) cqueue \<Rightarrow> (nat \<Rightarrow> bytes list \<times> bool) \<Rightarrow> bool \<Rightarrow> 'q backend \<Rightarrow> 'q backend option" where
  "backend_write_handler Q late ec s =
     map_option DecRef (backend_OnWriteComplete Q late ec
       (s\<lparr>io := (io s)\<lparr>writes := tl (writes (io s))\<rparr>, gatherBuffers := [], sendingPackets := []\<rparr>))"

section \<open>The read loop and the stream\<close>

lemma backend_recv_loop_frames:
  assumes "rb_ok (recvBuffer s)" "frames MAX_BACKEND_PACKET (rb_data (recvBuffer s)) = (fs, rest, ok)" "\<And>n. alloc n"
  shows "backend_recv_loop alloc s =
    (if ok then receive_all fs fs s else Close (receive_all fs fs s), ok)"
  using assms(1,2)
proof (induction fs arbitrary: s)
  case Nil
  then show ?case
    using stream_stop [OF Nil.prems(1,2)]
    by (subst backend_recv_loop.simps) (auto simp: receive_all_def Let_def simp del: of_nat_unat split: if_splits)
next
  case (Cons f fs)
  let ?n = "unat (header_size (ReadPos (recvBuffer s)))"
  note h = stream_head [OF Cons.prems(1,2)]
  let ?s = "recv_packet ?n f s"
  have "backend_recv_loop alloc ?s = (if ok then receive_all fs fs ?s else Close (receive_all fs fs ?s), ok)"
    using Cons.IH [of ?s] h(7,8) by simp
  moreover have "backend_recv_loop alloc s = backend_recv_loop alloc ?s"
    using h(1-5) assms(3) by (subst backend_recv_loop.simps) (simp add: Let_def del: of_nat_unat)
  ultimately show ?case using h(6) by (simp add: receive_all_def)
qed

section \<open>Properties\<close>

definition sample_backend :: "bytes list backend" where
  "sample_backend = \<lparr>sid = 3, dispatcher = True, connected = True, ioRef = 1, sendQueue = [], isSending = False,
     socket = Some True, recvBuffer = RecvBuffer 65536, flowControlTimer = True, heartbeatTimer = True,
     lastRecvTime = 0, lastPingTime = 0, hbInterval = 0, hbTimeout = 0, hbPingFunc = False,
     io = \<lparr>reads = 1, writes = [], waits = 0, posted = []\<rparr>, gatherBuffers = [], sendingPackets = []\<rparr>"

text \<open>One read completion of a backend session posts exactly the packets of the buffered
  bytes followed by the new ones, in order.  If every header is within the limit the rest stays in the
  buffer and a further read of at least one byte is started; otherwise the session is
  closed.\<close>

theorem backend_read:
  assumes s: "reading s" and fit: "int (length xs) \<le> FreeSize (recvBuffer s)" and alloc: "\<And>n. alloc n"
    and fr: "frames MAX_BACKEND_PACKET (rb_data (recvBuffer s) @ xs) = (fs, rest, ok)"
  defines "s' \<equiv> backend_read_handler alloc False xs s"
  shows "if ok then posted (io s') = posted (io s) @ map (data_message (sid s)) fs \<and> reading s' \<and>
      rb_data (recvBuffer s') = rest
    else \<not> connected s' \<and> \<not> socket_open s' \<and>
      (\<exists>ms. posted (io s') = posted (io s) @ map (data_message (sid s)) fs @ ms \<and> length ms = (if connected s then 1 else 0))"
proof -
  let ?b = "recvBuffer s"
  have b: "rb_ok ?b" "capacity ?b = 65536" using s by (auto simp: reading_def DEFAULT_CAPACITY_def)
  obtain b1 where f: "recv_fill xs ?b = (True, b1)" "rb_ok b1" "rb_data b1 = rb_data ?b @ xs"
    using recv_stream.fill_ok [OF b(1) fit] by (metis prod.collapse)
  define s1 where "s1 = s\<lparr>io := (io s)\<lparr>reads := reads (io s) - 1\<rparr>, recvBuffer := b1\<rparr>"
  have loop: "backend_recv_loop alloc s1 = (if ok then receive_all fs fs s1 else Close (receive_all fs fs s1), ok)"
    using backend_recv_loop_frames [of s1 fs rest ok alloc] f fr alloc by (simp add: s1_def)
  have st: "recvBuffer (receive_all fs fs s1) = recv_stream.eat fs b1" "dispatcher (receive_all fs fs s1)"
    "socket (receive_all fs fs s1) = Some True" "connected (receive_all fs fs s1) = connected s"
    "posted (io (receive_all fs fs s1)) = posted (io s) @ map (data_message (sid s)) fs"
    using receive_all_effect [OF refl, of fs s1] s by (simp_all add: s1_def reading_def socket_open_def)
  have cl: "rb_ok (Clean (recv_stream.eat fs b1))" "rb_data (Clean (recv_stream.eat fs b1)) = rest"
    "capacity (Clean (recv_stream.eat fs b1)) = 65536" "0 < FreeSize (Clean (recv_stream.eat fs b1))" if ok
    using recv_stream.round_ok [OF b(1) fit fr] f fr b(2) that
    by (auto simp: recv_stream.round_def Let_def sizeof_PacketHeader_def MAX_BACKEND_PACKET_def)
  have s': "s' = DecRef (if ok then StartRead (receive_all fs fs s1) else Close (receive_all fs fs s1))"
    using f(1) loop
    by (auto simp: s'_def backend_read_handler_def backend_OnReadComplete_def backend_OnRecv_def Let_def s1_def recv_fill_def)
  show ?thesis
  proof (cases ok)
    case True
    then show ?thesis using cl [OF True] st s'
      by (simp add: reading_def DecRef_def StartRead_def async_read_some_def IncRef_def socket_open_def DEFAULT_CAPACITY_def)
  next
    case False
    then show ?thesis using st s'
      by (auto simp: DecRef_def Close_def OnDisconnect_def socket_open_def post_def IncRef_def Let_def)
  qed
qed

theorem backend_read_witness:
  "posted (io (backend_read_handler (\<lambda>_. True) False [5, 0, 1, 0, 7, 9] sample_backend))
     = [data_message 3 [5, 0, 1, 0, 7]]"
proof -
  have s: "reading sample_backend"
    by (simp add: reading_def sample_backend_def RecvBuffer_ok FreeSize_def socket_open_def DEFAULT_CAPACITY_def)
       (simp add: RecvBuffer_def)
  have e: "rb_data (recvBuffer sample_backend) = []"
    by (simp add: rb_data_def DataSize_def sample_backend_def RecvBuffer_def)
  have "frames MAX_BACKEND_PACKET (rb_data (recvBuffer sample_backend) @ [5, 0, 1, 0, 7, 9]) = ([[5, 0, 1, 0, 7]], [9], True)"
    by (simp add: e frames.simps header_size_def sizeof_PacketHeader_def MAX_BACKEND_PACKET_def)
  from backend_read [OF s _ _ this, of "\<lambda>_. True"] show ?thesis
    by (simp add: sample_backend_def FreeSize_def RecvBuffer_def)
qed

end
