(* ===== verification/Udp_Session.thy ===== *)
theory Udp_Session
  imports Session_Base Udp_Registry
begin

text \<open>
  The UDP session, \<^verbatim>\<open>src/System/Session/UDPSession.cpp\<close>, and its KCP adapter,
  \<^verbatim>\<open>src/System/Session/UDP/KCPAdapter.cpp\<close>.  It derives from \<open>Session\<close>; the fields of the
  TCP sessions are not used.  KCP itself (\<^verbatim>\<open>ikcp.h\<close>) is a third-party package: a record of its
  functions, with what its documentation says in \<open>ikcp_laws\<close>.  \<open>UDPNetworkImpl::AsyncSend\<close> is the
  argument \<open>send\<close>, on a network state \<open>'n\<close>.

  Shown: \<open>Flush\<close> hands every queued packet to the network once; received KCP messages are posted
  in order up to the first that does not fit the stack buffer, which blocks the rest; a
  session that flushes before it has a network never sends again.
\<close>

section \<open>KCP\<close>

record 'k ikcp =
  ikcp_create :: "u32 \<Rightarrow> 'k option"
  ikcp_send :: "bytes \<Rightarrow> 'k \<Rightarrow> int \<times> 'k"
  ikcp_input :: "bytes \<Rightarrow> 'k \<Rightarrow> int \<times> 'k"
  ikcp_update :: "u32 \<Rightarrow> 'k \<Rightarrow> 'k \<times> bytes list"
  ikcp_recv :: "nat \<Rightarrow> 'k \<Rightarrow> int \<times> bytes \<times> 'k"

text \<open>
  \<open>inbox k\<close> are the messages that have arrived completely and in order.  \<open>ikcp_recv\<close> takes the
  first one if it fits the buffer; it answers with a negative number, and takes nothing, when
  there is none or the buffer is too small.
\<close>

definition ikcp_laws :: "'k ikcp \<Rightarrow> ('k \<Rightarrow> bytes list) \<Rightarrow> bool" where
  "ikcp_laws K inbox \<longleftrightarrow>
     (\<forall>n k. inbox k = [] \<longrightarrow> fst (ikcp_recv K n k) < 0 \<and> snd (snd (ikcp_recv K n k)) = k) \<and>
     (\<forall>n k m ms. inbox k = m # ms \<longrightarrow> n < length m \<longrightarrow> fst (ikcp_recv K n k) < 0 \<and> snd (snd (ikcp_recv K n k)) = k) \<and>
     (\<forall>n k m ms. inbox k = m # ms \<longrightarrow> length m \<le> n \<longrightarrow>
        (\<exists>k'. ikcp_recv K n k = (int (length m), m, k') \<and> inbox k' = ms))"

text \<open>The adapter: the control block may be null, and the output callback may be unset.\<close>

record 'k kcp_adapter =
  kcp_cb :: "'k option"
  outputCallback :: bool

definition KCPAdapter :: "'k ikcp \<Rightarrow> u32 \<Rightarrow> 'k kcp_adapter" where
  "KCPAdapter K conv = \<lparr>kcp_cb = ikcp_create K conv, outputCallback = False\<rparr>"

definition SetOutputCallback :: "'k kcp_adapter \<Rightarrow> 'k kcp_adapter" where
  "SetOutputCallback a = a\<lparr>outputCallback := True\<rparr>"

definition Kcp_Send :: "'k ikcp \<Rightarrow> bytes \<Rightarrow> 'k kcp_adapter \<Rightarrow> int \<times> 'k kcp_adapter" where
  "Kcp_Send K msg a =
     (case kcp_cb a of None \<Rightarrow> (- 1, a) | Some k \<Rightarrow> (let (r, k') = ikcp_send K msg k in (r, a\<lparr>kcp_cb := Some k'\<rparr>)))"

definition Kcp_Input :: "'k ikcp \<Rightarrow> bytes \<Rightarrow> 'k kcp_adapter \<Rightarrow> int \<times> 'k kcp_adapter" where
  "Kcp_Input K msg a =
     (case kcp_cb a of None \<Rightarrow> (- 1, a) | Some k \<Rightarrow> (let (r, k') = ikcp_input K msg k in (r, a\<lparr>kcp_cb := Some k'\<rparr>)))"

text \<open>The datagrams an update emits go through \<open>RecvOutput\<close>, which drops them without a callback.\<close>

definition Kcp_Update :: "'k ikcp \<Rightarrow> u32 \<Rightarrow> 'k kcp_adapter \<Rightarrow> 'k kcp_adapter \<times> bytes list" where
  "Kcp_Update K current a =
     (case kcp_cb a of None \<Rightarrow> (a, [])
      | Some k \<Rightarrow> (let (k', out) = ikcp_update K current k
                   in (a\<lparr>kcp_cb := Some k'\<rparr>, if outputCallback a then out else [])))"

definition Kcp_Recv :: "'k ikcp \<Rightarrow> nat \<Rightarrow> 'k kcp_adapter \<Rightarrow> int \<times> bytes \<times> 'k kcp_adapter" where
  "Kcp_Recv K maxSize a =
     (case kcp_cb a of None \<Rightarrow> (- 1, [], a)
      | Some k \<Rightarrow> (let (r, msg, k') = ikcp_recv K maxSize k in (r, msg, a\<lparr>kcp_cb := Some k'\<rparr>)))"

section \<open>State\<close>

text \<open>\<open>None\<close> is the default-constructed endpoint; \<open>network\<close> says whether the pointer is set.\<close>

record ('q, 'k, 'e) udp = "'q session" +
  endpoint :: "'e option"
  lastSeen :: int
  network :: bool
  udpToken :: uint128
  kcp :: "'k kcp_adapter option"

type_synonym ('e, 'n) sender = "'e option \<Rightarrow> u8 \<Rightarrow> u64 \<Rightarrow> uint128 \<Rightarrow> bytes \<Rightarrow> 'n \<Rightarrow> 'n"

section \<open>Operations\<close>

definition UDPSession_Reset ::
  "'k ikcp \<Rightarrow> ('q, bytes) cqueue \<Rightarrow> u64 \<Rightarrow> bool \<Rightarrow> 'e \<Rightarrow> uint128 \<Rightarrow> int \<Rightarrow> ('q, 'k, 'e) udp \<Rightarrow> ('q, 'k, 'e) udp option" where
  "UDPSession_Reset K Q sessionId disp ep token now s =
     map_option (\<lambda>s. s\<lparr>sid := sessionId, dispatcher := disp, connected := True, endpoint := Some ep, lastSeen := now,
       udpToken := token, kcp := Some (SetOutputCallback (KCPAdapter K (ucast sessionId)))\<rparr>) (Session_Reset Q s)"

definition UDPSession_OnRecycle :: "('q, bytes) cqueue \<Rightarrow> ('q, 'k, 'e) udp \<Rightarrow> ('q, 'k, 'e) udp option" where
  "UDPSession_OnRecycle Q s =
     (let s1 = s\<lparr>network := False, endpoint := None, kcp := None, connected := False\<rparr>
      in case drain Q [] (sendQueue s1) of None \<Rightarrow> None | Some (_, q) \<Rightarrow> Some (s1\<lparr>sendQueue := q\<rparr>))"

definition udp_UpdateActivity :: "int \<Rightarrow> ('q, 'k, 'e) udp \<Rightarrow> ('q, 'k, 'e) udp" where
  "udp_UpdateActivity now s = s\<lparr>lastSeen := now\<rparr>"

definition SetNetwork :: "bool \<Rightarrow> ('q, 'k, 'e) udp \<Rightarrow> ('q, 'k, 'e) udp" where
  "SetNetwork net s = s\<lparr>network := net\<rparr>"

definition SetUdpToken :: "uint128 \<Rightarrow> ('q, 'k, 'e) udp \<Rightarrow> ('q, 'k, 'e) udp" where
  "SetUdpToken token s = s\<lparr>udpToken := token\<rparr>"

definition udp_OnConnect :: "('q, 'k, 'e) udp \<Rightarrow> ('q, 'k, 'e) udp" where
  "udp_OnConnect s = s\<lparr>connected := True\<rparr>"

definition udp_OnDisconnect :: "('q, 'k, 'e) udp \<Rightarrow> ('q, 'k, 'e) udp" where
  "udp_OnDisconnect s = s\<lparr>connected := False\<rparr>"

definition udp_Close :: "('q, 'k, 'e) udp \<Rightarrow> ('q, 'k, 'e) udp" where
  "udp_Close s = udp_OnDisconnect s"

text \<open>Posting a received message; \<open>alloc\<close> is whether the pool gives a packet of that length.\<close>

definition udp_deliver :: "(nat \<Rightarrow> bool) \<Rightarrow> bytes \<Rightarrow> ('q, 'k, 'e) udp \<Rightarrow> ('q, 'k, 'e) udp" where
  "udp_deliver alloc msg s =
     (if dispatcher s \<and> alloc (length msg) then post NETWORK_DATA msg s else s)"

text \<open>The loop on \<open>Recv\<close> with its buffer of 2048 bytes.\<close>

definition RECV_BUFFER :: nat where "RECV_BUFFER = 2048"

partial_function (option) kcp_recv_loop ::
  "'k ikcp \<Rightarrow> (nat \<Rightarrow> bool) \<Rightarrow> ('q, 'k, 'e) udp \<Rightarrow> ('q, 'k, 'e) udp option" where
  "kcp_recv_loop K alloc s =
     (case kcp s of None \<Rightarrow> Some s
      | Some a \<Rightarrow>
          (case Kcp_Recv K RECV_BUFFER a of (receivedSize, msg, a') \<Rightarrow>
             if 0 < receivedSize then kcp_recv_loop K alloc (udp_deliver alloc msg (s\<lparr>kcp := Some a'\<rparr>))
             else Some (s\<lparr>kcp := Some a'\<rparr>)))"

definition HandleData ::
  "'k ikcp \<Rightarrow> (nat \<Rightarrow> bool) \<Rightarrow> int \<Rightarrow> bytes \<Rightarrow> bool \<Rightarrow> ('q, 'k, 'e) udp \<Rightarrow> ('q, 'k, 'e) udp option" where
  "HandleData K alloc now msg isKCP s =
     (let s1 = udp_UpdateActivity now s
      in case (if isKCP then kcp s1 else None) of
           Some a \<Rightarrow> kcp_recv_loop K alloc (s1\<lparr>kcp := Some (snd (Kcp_Input K msg a))\<rparr>)
         | None \<Rightarrow> Some (udp_deliver alloc msg s1))"

text \<open>The output callback set in \<open>Reset\<close>, for each datagram KCP emits.\<close>

definition kcp_output ::
  "('e, 'n) sender \<Rightarrow> (nat \<Rightarrow> bool) \<Rightarrow> ('q, 'k, 'e) udp \<Rightarrow> bytes \<Rightarrow> 'n \<Rightarrow> 'n" where
  "kcp_output send alloc s buf net =
     (if \<not> network s then net
      else if \<not> alloc (length buf) then net
      else send (endpoint s) TAG_KCP (sid s) (udpToken s) buf net)"

definition UpdateKCP ::
  "'k ikcp \<Rightarrow> ('e, 'n) sender \<Rightarrow> (nat \<Rightarrow> bool) \<Rightarrow> u32 \<Rightarrow> ('q, 'k, 'e) udp \<times> 'n \<Rightarrow> ('q, 'k, 'e) udp \<times> 'n" where
  "UpdateKCP K send alloc currentMs sn =
     (case sn of (s, net) \<Rightarrow>
        case kcp s of None \<Rightarrow> (s, net)
        | Some a \<Rightarrow> (let (a', out) = Kcp_Update K currentMs a; s' = s\<lparr>kcp := Some a'\<rparr>
                     in (s', fold (kcp_output send alloc s') out net)))"

definition SendReliable ::
  "'k ikcp \<Rightarrow> ('e, 'n) sender \<Rightarrow> (nat \<Rightarrow> bool) \<Rightarrow> u32 \<Rightarrow> bytes \<Rightarrow> ('q, 'k, 'e) udp \<times> 'n \<Rightarrow> ('q, 'k, 'e) udp \<times> 'n" where
  "SendReliable K send alloc nowMs pkt sn =
     (case sn of (s, net) \<Rightarrow>
        if \<not> connected s then (s, net)
        else case kcp s of None \<Rightarrow> (s, net)
          | Some a \<Rightarrow> UpdateKCP K send alloc nowMs (s\<lparr>kcp := Some (snd (Kcp_Send K pkt a))\<rparr>, net))"

text \<open>The inner loop of \<open>Flush\<close>: every queued packet becomes a raw datagram.\<close>

partial_function (option) udp_drain ::
  "('q, bytes) cqueue \<Rightarrow> ('e, 'n) sender \<Rightarrow> ('q, 'k, 'e) udp \<Rightarrow> 'n \<Rightarrow> (('q, 'k, 'e) udp \<times> 'n) option" where
  "udp_drain Q send s net =
     (case try_dequeue Q (sendQueue s) of
        None \<Rightarrow> Some (s, net)
      | Some (msg, q) \<Rightarrow> udp_drain Q send (s\<lparr>sendQueue := q\<rparr>)
          (send (endpoint s) TAG_RAW_UDP (sid s) (udpToken s) msg net))"

text \<open>
  \<open>late k\<close>: what other threads enqueue, and whether one of them has taken over sending, before
  the \<open>k\<close>-th look at the emptied queue.
\<close>

partial_function (option) udp_flush_loop ::
  "('q, bytes) cqueue \<Rightarrow> ('e, 'n) sender \<Rightarrow> (nat \<Rightarrow> bytes list \<times> bool) \<Rightarrow> ('q, 'k, 'e) udp \<Rightarrow> 'n
     \<Rightarrow> (('q, 'k, 'e) udp \<times> 'n) option" where
  "udp_flush_loop Q send late s net =
     Option.bind (udp_drain Q send s net) (\<lambda>sn. case sn of (s1, net1) \<Rightarrow>
       let s2 = s1\<lparr>sendQueue := enqueue_bulk Q (fst (late 0)) (sendQueue s1), isSending := snd (late 0)\<rparr>
       in case try_dequeue Q (sendQueue s2) of
            None \<Rightarrow> Some (s2, net1)
          | Some (msg, q) \<Rightarrow>
              (let s3 = s2\<lparr>sendQueue := enqueue Q msg q\<rparr>
               in if \<not> isSending s3 then udp_flush_loop Q send (\<lambda>k. late (Suc k)) (s3\<lparr>isSending := True\<rparr>) net1
                  else Some (s3, net1)))"

definition udp_Flush ::
  "('q, bytes) cqueue \<Rightarrow> ('e, 'n) sender \<Rightarrow> (nat \<Rightarrow> bytes list \<times> bool) \<Rightarrow> ('q, 'k, 'e) udp \<Rightarrow> 'n
     \<Rightarrow> (('q, 'k, 'e) udp \<times> 'n) option" where
  "udp_Flush Q send late s net =
     (if \<not> network s
      then (case drain Q [] (sendQueue s) of None \<Rightarrow> None | Some (_, q) \<Rightarrow> Some (s\<lparr>sendQueue := q\<rparr>, net))
      else udp_flush_loop Q send late s net)"

text \<open>\<open>SendUnreliable\<close>: \<open>Session::SendPacket\<close> and \<open>EnqueueSend\<close> with this \<open>Flush\<close>.\<close>

definition SendUnreliable ::
  "('q, bytes) cqueue \<Rightarrow> ('e, 'n) sender \<Rightarrow> (nat \<Rightarrow> bytes list \<times> bool) \<Rightarrow> (nat \<Rightarrow> bool) \<Rightarrow> bytes
     \<Rightarrow> ('q, 'k, 'e) udp \<times> 'n \<Rightarrow> (('q, 'k, 'e) udp \<times> 'n) option" where
  "SendUnreliable Q send late alloc pkt sn =
     (case sn of (s, net) \<Rightarrow>
        if \<not> connected s then Some (s, net)
        else if \<not> alloc (length pkt) then Some (s, net)
        else let s1 = s\<lparr>sendQueue := enqueue Q pkt (sendQueue s)\<rparr>
             in if isSending s1 then Some (s1, net) else udp_Flush Q send late (s1\<lparr>isSending := True\<rparr>) net)"

section \<open>Sending\<close>

definition send_raw :: "('e, 'n) sender \<Rightarrow> ('q, 'k, 'e) udp \<Rightarrow> bytes \<Rightarrow> 'n \<Rightarrow> 'n" where
  "send_raw send s msg = send (endpoint s) TAG_RAW_UDP (sid s) (udpToken s) msg"

lemma send_raw_frame [simp]:
  "send_raw send (s\<lparr>sendQueue := q\<rparr>) = send_raw send s" "send_raw send (s\<lparr>isSending := b\<rparr>) = send_raw send s"
  by (simp_all add: send_raw_def fun_eq_iff)

lemma udp_drain_spec:
  assumes "cqueue_laws Q cont"
  shows "\<exists>ms q. udp_drain Q send s net = Some (s\<lparr>sendQueue := q\<rparr>, fold (send_raw send s) ms net) \<and>
    mset ms = cont (sendQueue s) \<and> cont q = {#}"
proof (induction "size (cont (sendQueue s))" arbitrary: s net)
  case 0
  then have "try_dequeue Q (sendQueue s) = None" using cqueue_empty [OF assms] by simp
  then have "udp_drain Q send s net = Some (s\<lparr>sendQueue := sendQueue s\<rparr>, fold (send_raw send s) [] net)"
    by (subst udp_drain.simps) simp
  moreover have "mset [] = cont (sendQueue s)" "cont (sendQueue s) = {#}" using 0 by simp_all
  ultimately show ?case by blast
next
  case (Suc n)
  then have "try_dequeue Q (sendQueue s) \<noteq> None" using cqueue_empty [OF assms, of "sendQueue s"] by auto
  then obtain m q1 where d: "try_dequeue Q (sendQueue s) = Some (m, q1)" by auto
  have c: "cont (sendQueue s) = add_mset m (cont q1)" by (rule cqueue_dequeue [OF assms d])
  let ?s = "s\<lparr>sendQueue := q1\<rparr>"
  have "n = size (cont (sendQueue ?s))" using Suc.hyps(2) c by simp
  from Suc.hyps(1) [OF this, of "send_raw send s m net"] obtain ms q
    where r: "udp_drain Q send ?s (send_raw send s m net) = Some (?s\<lparr>sendQueue := q\<rparr>, fold (send_raw send ?s) ms (send_raw send s m net))"
      "mset ms = cont q1" "cont q = {#}" by auto
  have "udp_drain Q send s net = Some (s\<lparr>sendQueue := q\<rparr>, fold (send_raw send s) (m # ms) net)"
    using r(1) d by (subst udp_drain.simps) (simp add: send_raw_def)
  moreover have "mset (m # ms) = cont (sendQueue s)" using r(2) c by simp
  ultimately show ?case using r(3) by blast
qed

definition arrivals :: "(nat \<Rightarrow> bytes list \<times> bool) \<Rightarrow> nat \<Rightarrow> bytes multiset" where
  "arrivals late j = mset (concat (map (\<lambda>i. fst (late i)) [0..<Suc j]))"

lemma arrivals_0: "arrivals late 0 = mset (fst (late 0))"
  by (simp add: arrivals_def)

lemma arrivals_Suc: "arrivals late (Suc j) = mset (fst (late 0)) + arrivals (\<lambda>k. late (Suc k)) j"
proof -
  have "[0..<Suc (Suc j)] = 0 # map Suc [0..<Suc j]" by (subst upt_conv_Cons) (simp_all only: zero_less_Suc map_Suc_upt)
  then have "map (\<lambda>i. fst (late i)) [0..<Suc (Suc j)] = fst (late 0) # map (\<lambda>i. fst (late (Suc i))) [0..<Suc j]"
    by (simp only: list.map map_map comp_def)
  then show ?thesis by (simp only: arrivals_def concat.simps mset_append)
qed

lemma udp_flush_loop_spec:
  assumes L: "cqueue_laws Q cont"
  shows "late n = ([], False) \<Longrightarrow>
    \<exists>s' ms j. j \<le> n \<and> udp_flush_loop Q send late s net = Some (s', fold (send_raw send s) ms net) \<and>
      mset ms + cont (sendQueue s') = cont (sendQueue s) + arrivals late j \<and>
      (cont (sendQueue s') = {#} \<or> isSending s')"
proof (induction n arbitrary: late s net)
  case 0
  obtain ms q where d: "udp_drain Q send s net = Some (s\<lparr>sendQueue := q\<rparr>, fold (send_raw send s) ms net)"
    "mset ms = cont (sendQueue s)" "cont q = {#}" using udp_drain_spec [OF L, of send s net] by blast
  let ?s2 = "s\<lparr>sendQueue := enqueue_bulk Q [] q, isSending := False\<rparr>"
  have e: "cont (enqueue_bulk Q [] q) = {#}" using d(3) by (simp add: cqueue_enqueue_bulk [OF L])
  then have "try_dequeue Q (enqueue_bulk Q [] q) = None" by (simp add: cqueue_empty [OF L])
  then have "udp_flush_loop Q send late s net = Some (?s2, fold (send_raw send s) ms net)"
    using d(1) 0 by (subst udp_flush_loop.simps) simp
  moreover have "mset ms + cont (sendQueue ?s2) = cont (sendQueue s) + arrivals late 0"
    using d(2) e 0 by (simp add: arrivals_0)
  ultimately show ?case using e by (intro exI [of _ ?s2] exI [of _ ms] exI [of _ 0]) simp
next
  case (Suc n)
  obtain ms q where d: "udp_drain Q send s net = Some (s\<lparr>sendQueue := q\<rparr>, fold (send_raw send s) ms net)"
    "mset ms = cont (sendQueue s)" "cont q = {#}" using udp_drain_spec [OF L, of send s net] by blast
  let ?q = "enqueue_bulk Q (fst (late 0)) q"
  let ?s2 = "s\<lparr>sendQueue := ?q, isSending := snd (late 0)\<rparr>"
  have c2: "cont ?q = mset (fst (late 0))" using d(3) by (simp add: cqueue_enqueue_bulk [OF L])
  show ?case
  proof (cases "try_dequeue Q ?q")
    case None
    then have "udp_flush_loop Q send late s net = Some (?s2, fold (send_raw send s) ms net)"
      using d(1) by (subst udp_flush_loop.simps) simp
    moreover have "cont ?q = {#}" using None by (simp add: cqueue_empty [OF L])
    ultimately show ?thesis using d(2) c2
      by (intro exI [of _ ?s2] exI [of _ ms] exI [of _ 0]) (simp add: arrivals_0)
  next
    case (Some mq)
    obtain m q' where mq: "mq = (m, q')" by (cases mq)
    let ?s3 = "s\<lparr>sendQueue := enqueue Q m q', isSending := snd (late 0)\<rparr>"
    have c3: "cont (enqueue Q m q') = mset (fst (late 0))"
      using c2 cqueue_dequeue [OF L, of ?q m q'] Some mq by (simp add: cqueue_enqueue [OF L])
    show ?thesis
    proof (cases "snd (late 0)")
      case True
      then have "udp_flush_loop Q send late s net = Some (?s3, fold (send_raw send s) ms net)"
        using d(1) Some mq by (subst udp_flush_loop.simps) simp
      then show ?thesis using d(2) c3 True
        by (intro exI [of _ ?s3] exI [of _ ms] exI [of _ 0]) (simp add: arrivals_0)
    next
      case False
      let ?s4 = "s\<lparr>sendQueue := enqueue Q m q', isSending := True\<rparr>"
      have step: "udp_flush_loop Q send late s net =
          udp_flush_loop Q send (\<lambda>k. late (Suc k)) ?s4 (fold (send_raw send s) ms net)"
        using d(1) Some mq False by (subst udp_flush_loop.simps) simp
      obtain s' ms' j where r: "j \<le> n"
        "udp_flush_loop Q send (\<lambda>k. late (Suc k)) ?s4 (fold (send_raw send s) ms net) =
           Some (s', fold (send_raw send ?s4) ms' (fold (send_raw send s) ms net))"
        "mset ms' + cont (sendQueue s') = cont (sendQueue ?s4) + arrivals (\<lambda>k. late (Suc k)) j"
        "cont (sendQueue s') = {#} \<or> isSending s'"
        using Suc.IH [of "\<lambda>k. late (Suc k)" ?s4 "fold (send_raw send s) ms net"] Suc.prems by auto
      show ?thesis
        using r step d(2) c3
        by (intro exI [of _ s'] exI [of _ "ms @ ms'"] exI [of _ "Suc j"]) (simp add: arrivals_Suc ac_simps)
    qed
  qed
qed

text \<open>A \<open>Flush\<close> of a session with a network returns as soon as no other thread enqueues during one of its
  looks; it has handed packets to the network once each, as raw datagrams of this session; what
  it has not sent of the queued and arrived packets is still queued, and then another thread
  is sending.\<close>

theorem udp_flush_conserves:
  assumes "cqueue_laws Q cont" "network s" "late n = ([], False)"
  shows "\<exists>s' ms j. j \<le> n \<and>
    udp_Flush Q send late s net = Some (s', fold (send (endpoint s) TAG_RAW_UDP (sid s) (udpToken s)) ms net) \<and>
    mset ms + cont (sendQueue s') = cont (sendQueue s) + mset (concat (map (\<lambda>i. fst (late i)) [0..<Suc j])) \<and>
    (cont (sendQueue s') = {#} \<or> isSending s')"
  using udp_flush_loop_spec [OF assms(1), of late n send s net] assms(2,3)
  by (simp only: udp_Flush_def arrivals_def send_raw_def [abs_def]) simp

definition udp0 :: "bytes list \<Rightarrow> (bytes list, unit, nat) udp" where
  "udp0 q = \<lparr>sid = 3, dispatcher = True, connected = True, ioRef = 0, sendQueue = q, isSending = True, socket = None,
     recvBuffer = RecvBuffer 16, flowControlTimer = False, heartbeatTimer = False, lastRecvTime = 0, lastPingTime = 0,
     hbInterval = 0, hbTimeout = 0, hbPingFunc = False, io = no_io, endpoint = Some 9, lastSeen = 0, network = True,
     udpToken = \<lparr>high = 1, low = 2\<rparr>, kcp = None\<rparr>"

theorem udp_flush_conserves_witness:
  "\<exists>s' ms j. j \<le> (0::nat) \<and>
    udp_Flush list_queue (\<lambda>_ _ _ _ m sent. sent @ [m]) (\<lambda>_. ([], False)) (udp0 [[1], [2]]) [] =
      Some (s', fold (\<lambda>m sent. sent @ [m]) ms []) \<and>
    mset ms + mset (sendQueue s') = {#[1], [2]#} + mset (concat (map (\<lambda>i. fst ([], False)) [0..<Suc j])) \<and>
    (mset (sendQueue s') = {#} \<or> isSending s')"
proof -
  have "network (udp0 [[1], [2]])" "sendQueue (udp0 [[1], [2]]) = [[1], [2]]" by (simp_all add: udp0_def)
  then show ?thesis
    using udp_flush_conserves [OF list_queue_laws, of "udp0 [[1], [2]]" "\<lambda>_. ([], False)" 0 "\<lambda>_ _ _ _ m sent. sent @ [m]" "[]"]
    by simp
qed

section \<open>Sending before the network is set\<close>

text \<open>A session that sends before its network is set frees the packet but keeps the flag \<open>isSending\<close>;
  once the network is set, no later packet is handed to it: each stays in the queue.\<close>

theorem send_without_network_stalls:
  assumes "cqueue_laws Q cont" "cont (sendQueue s) = {#}" "connected s" "\<not> network s" "\<not> isSending s" "\<And>n. alloc n"
  shows "\<exists>s1 s2. SendUnreliable Q send late1 alloc p1 (s, net) = Some (s1, net) \<and> cont (sendQueue s1) = {#} \<and>
    SendUnreliable Q send late2 alloc p2 (SetNetwork True s1, net) = Some (s2, net) \<and> cont (sendQueue s2) = {#p2#} \<and>
    network s2 \<and> isSending s2"
proof -
  obtain xs q where d: "drain Q [] (enqueue Q p1 (sendQueue s)) = Some (xs, q)" "cont q = {#}"
    using drain_returns [OF assms(1), of "[]" "enqueue Q p1 (sendQueue s)"] by auto
  let ?s1 = "s\<lparr>sendQueue := q, isSending := True\<rparr>"
  let ?s2 = "?s1\<lparr>network := True, sendQueue := enqueue Q p2 q\<rparr>"
  have "SendUnreliable Q send late1 alloc p1 (s, net) = Some (?s1, net)"
    using d(1) assms(3-6) by (simp add: SendUnreliable_def udp_Flush_def)
  moreover have "SendUnreliable Q send late2 alloc p2 (SetNetwork True ?s1, net) = Some (?s2, net)"
    using assms(3,6) by (simp add: SendUnreliable_def SetNetwork_def)
  ultimately show ?thesis using d(2) by (auto simp: cqueue_enqueue [OF assms(1)])
qed

theorem send_without_network_stalls_witness:
  "\<exists>s1 s2. SendUnreliable list_queue (\<lambda>_ _ _ _ m sent. sent @ [m]) (\<lambda>_. ([], False)) (\<lambda>_. True) [1]
      ((udp0 [])\<lparr>network := False, isSending := False\<rparr>, []) = Some (s1, []) \<and> mset (sendQueue s1) = {#} \<and>
    SendUnreliable list_queue (\<lambda>_ _ _ _ m sent. sent @ [m]) (\<lambda>_. ([], False)) (\<lambda>_. True) [2] (SetNetwork True s1, []) =
      Some (s2, []) \<and> mset (sendQueue s2) = {#[2]#} \<and> network s2 \<and> isSending s2"
  by (rule send_without_network_stalls [OF list_queue_laws]) (simp_all add: udp0_def)

section \<open>Receiving\<close>

definition fits :: "bytes \<Rightarrow> bool" where
  "fits m \<longleftrightarrow> m \<noteq> [] \<and> length m \<le> RECV_BUFFER"

lemma udp_deliver_kcp [simp]: "kcp (udp_deliver alloc m s) = kcp s"
  by (simp add: udp_deliver_def post_def IncRef_def Let_def)

lemma udp_deliver_frame: "udp_deliver alloc m (s\<lparr>kcp := a\<rparr>) = (udp_deliver alloc m s)\<lparr>kcp := a\<rparr>"
  by (simp add: udp_deliver_def post_def IncRef_def Let_def)

lemma fold_deliver_frame:
  "fold (udp_deliver alloc) ms (s\<lparr>kcp := a\<rparr>) = (fold (udp_deliver alloc) ms s)\<lparr>kcp := a\<rparr>"
  by (induction ms arbitrary: s) (simp_all add: udp_deliver_frame)

lemma kcp_recv_loop_stop:
  assumes "kcp s = Some a" "kcp_cb a = Some k" "fst (ikcp_recv K RECV_BUFFER k) \<le> 0"
    "snd (snd (ikcp_recv K RECV_BUFFER k)) = k'"
  shows "kcp_recv_loop K alloc s = Some (s\<lparr>kcp := Some (a\<lparr>kcp_cb := Some k'\<rparr>)\<rparr>)"
proof -
  obtain r m where "ikcp_recv K RECV_BUFFER k = (r, m, k')" using assms(4) by (metis prod.collapse)
  then show ?thesis using assms(1-3) by (subst kcp_recv_loop.simps) (simp add: Kcp_Recv_def)
qed

lemma kcp_recv_loop_spec:
  assumes "ikcp_laws K inbox"
  shows "kcp s = Some a \<Longrightarrow> kcp_cb a = Some k \<Longrightarrow>
    \<exists>k'. kcp_recv_loop K alloc s = Some ((fold (udp_deliver alloc) (takeWhile fits (inbox k)) s)\<lparr>kcp := Some (a\<lparr>kcp_cb := Some k'\<rparr>)\<rparr>) \<and>
      inbox k' = (case dropWhile fits (inbox k) of [] \<Rightarrow> [] | m # ms \<Rightarrow> if m = [] then ms else m # ms)"
proof (induction "inbox k" arbitrary: s a k)
  case Nil
  then have r: "fst (ikcp_recv K RECV_BUFFER k) < 0" "snd (snd (ikcp_recv K RECV_BUFFER k)) = k"
    using assms by (auto simp: ikcp_laws_def)
  then have "kcp_recv_loop K alloc s = Some (s\<lparr>kcp := Some (a\<lparr>kcp_cb := Some k\<rparr>)\<rparr>)"
    using Nil.prems by (intro kcp_recv_loop_stop) simp_all
  then show ?case using Nil.hyps [symmetric] by auto
next
  case (Cons m ms)
  consider (big) "RECV_BUFFER < length m" | (empty) "m = []" | (take) "fits m"
    unfolding fits_def using not_less by blast
  then show ?case
  proof cases
    case big
    then have "fst (ikcp_recv K RECV_BUFFER k) < 0" "snd (snd (ikcp_recv K RECV_BUFFER k)) = k"
      using assms Cons.hyps(2) [symmetric] unfolding ikcp_laws_def by blast+
    then have "kcp_recv_loop K alloc s = Some (s\<lparr>kcp := Some (a\<lparr>kcp_cb := Some k\<rparr>)\<rparr>)"
      using Cons.prems by (intro kcp_recv_loop_stop) simp_all
    moreover have "\<not> fits m" "m \<noteq> []" using big by (auto simp: fits_def)
    ultimately show ?thesis using Cons.hyps(2) [symmetric] by auto
  next
    case empty
    then have "length m \<le> RECV_BUFFER" by simp
    then obtain k' where r: "ikcp_recv K RECV_BUFFER k = (int (length m), m, k')" "inbox k' = ms"
      using assms Cons.hyps(2) [symmetric] unfolding ikcp_laws_def by blast
    then have "kcp_recv_loop K alloc s = Some (s\<lparr>kcp := Some (a\<lparr>kcp_cb := Some k'\<rparr>)\<rparr>)"
      by (intro kcp_recv_loop_stop [OF Cons.prems]) (simp_all add: empty)
    then show ?thesis using r(2) empty Cons.hyps(2) [symmetric] by (auto simp: fits_def)
  next
    case take
    then have "length m \<le> RECV_BUFFER" "m \<noteq> []" by (auto simp: fits_def)
    then obtain k1 where r: "ikcp_recv K RECV_BUFFER k = (int (length m), m, k1)" "inbox k1 = ms"
      using assms Cons.hyps(2) [symmetric] unfolding ikcp_laws_def by blast
    let ?a1 = "a\<lparr>kcp_cb := Some k1\<rparr>"
    let ?s1 = "udp_deliver alloc m (s\<lparr>kcp := Some ?a1\<rparr>)"
    have step: "kcp_recv_loop K alloc s = kcp_recv_loop K alloc ?s1"
      using r(1) Cons.prems \<open>m \<noteq> []\<close> by (subst kcp_recv_loop.simps) (simp add: Kcp_Recv_def)
    obtain k' where "kcp_recv_loop K alloc ?s1 =
        Some ((fold (udp_deliver alloc) (takeWhile fits (inbox k1)) ?s1)\<lparr>kcp := Some (?a1\<lparr>kcp_cb := Some k'\<rparr>)\<rparr>)"
      "inbox k' = (case dropWhile fits (inbox k1) of [] \<Rightarrow> [] | m # ms \<Rightarrow> if m = [] then ms else m # ms)"
      using Cons.hyps(1) [of k1 ?s1 ?a1] r(2) by auto
    then show ?thesis using step take r(2) Cons.hyps(2) [symmetric]
      by (intro exI [of _ k']) (simp add: udp_deliver_frame fold_deliver_frame)
  qed
qed

lemma fold_deliver_posts:
  "posted (io (fold (udp_deliver alloc) ms s)) = posted (io s) @
     map (\<lambda>m. \<lparr>nm_type = NETWORK_DATA, nm_sessionId = sid s, nm_payload = m\<rparr>)
       (if dispatcher s then filter (\<lambda>m. alloc (length m)) ms else [])"
  by (induction ms arbitrary: s) (simp_all add: udp_deliver_def post_def IncRef_def Let_def)

lemma fold_deliver_refs: "refs_ok d (fold (udp_deliver alloc) ms s) = refs_ok d s"
  by (induction ms arbitrary: s) (simp_all add: udp_deliver_def)

text \<open>A KCP datagram makes \<open>HandleData\<close> post, in order, the messages KCP then holds, up to the first that
  is empty or longer than 2048 bytes; a longer message stays in KCP together with everything
  behind it.  Each posted message holds one reference to the session.\<close>

theorem kcp_messages_posted:
  assumes "ikcp_laws K inbox" "kcp s = Some a" "kcp_cb a = Some k" "dispatcher s" "refs_ok 0 s"
    "ikcp_input K msg k = (r, k1)"
  shows "\<exists>s' k'. HandleData K alloc now msg True s = Some s' \<and> kcp s' = Some (a\<lparr>kcp_cb := Some k'\<rparr>) \<and> refs_ok 0 s' \<and>
    posted (io s') = posted (io s) @ map (\<lambda>m. \<lparr>nm_type = NETWORK_DATA, nm_sessionId = sid s, nm_payload = m\<rparr>)
      (filter (\<lambda>m. alloc (length m)) (takeWhile (\<lambda>m. m \<noteq> [] \<and> length m \<le> 2048) (inbox k1))) \<and>
    (\<forall>m ms. dropWhile (\<lambda>m. m \<noteq> [] \<and> length m \<le> 2048) (inbox k1) = m # ms \<longrightarrow> m \<noteq> [] \<longrightarrow> inbox k' = m # ms)"
proof -
  have fits: "fits = (\<lambda>m. m \<noteq> [] \<and> length m \<le> 2048)" by (simp add: fits_def RECV_BUFFER_def fun_eq_iff)
  let ?s1 = "s\<lparr>lastSeen := now, kcp := Some (a\<lparr>kcp_cb := Some k1\<rparr>)\<rparr>"
  have h: "HandleData K alloc now msg True s = kcp_recv_loop K alloc ?s1"
    using assms(2,3,6) by (simp add: HandleData_def udp_UpdateActivity_def Kcp_Input_def Let_def)
  obtain k' where l: "kcp_recv_loop K alloc ?s1 =
      Some ((fold (udp_deliver alloc) (takeWhile fits (inbox k1)) ?s1)\<lparr>kcp := Some (a\<lparr>kcp_cb := Some k'\<rparr>)\<rparr>)"
    "inbox k' = (case dropWhile fits (inbox k1) of [] \<Rightarrow> [] | m # ms \<Rightarrow> if m = [] then ms else m # ms)"
    using kcp_recv_loop_spec [OF assms(1), of ?s1 "a\<lparr>kcp_cb := Some k1\<rparr>" k1 alloc] by auto
  have "refs_ok 0 ?s1" using assms(5) by (simp add: refs_ok_def)
  then have "refs_ok 0 ((fold (udp_deliver alloc) (takeWhile fits (inbox k1)) ?s1)\<lparr>kcp := Some (a\<lparr>kcp_cb := Some k'\<rparr>)\<rparr>)"
    using fold_deliver_refs [of 0 alloc "takeWhile fits (inbox k1)" ?s1] by (simp add: refs_ok_def)
  then show ?thesis using h l assms(4) fold_deliver_posts [of alloc "takeWhile fits (inbox k1)" ?s1]
    by (auto simp: fits)
qed

text \<open>A KCP that takes every datagram as one message.\<close>

definition list_kcp :: "bytes list ikcp" where
  "list_kcp = \<lparr>ikcp_create = (\<lambda>_. Some []), ikcp_send = (\<lambda>m k. (0, k)), ikcp_input = (\<lambda>m k. (0, k @ [m])),
     ikcp_update = (\<lambda>_ k. (k, [])),
     ikcp_recv = (\<lambda>n k. case k of [] \<Rightarrow> (- 1, [], k)
       | m # ms \<Rightarrow> if length m \<le> n then (int (length m), m, ms) else (- 3, [], k))\<rparr>"

lemma list_kcp_laws: "ikcp_laws list_kcp (\<lambda>k. k)"
  by (auto simp: ikcp_laws_def list_kcp_def)

definition udp1 :: "(bytes list, bytes list, nat) udp" where
  "udp1 = \<lparr>sid = 3, dispatcher = True, connected = True, ioRef = 0, sendQueue = [], isSending = True, socket = None,
     recvBuffer = RecvBuffer 16, flowControlTimer = False, heartbeatTimer = False, lastRecvTime = 0, lastPingTime = 0,
     hbInterval = 0, hbTimeout = 0, hbPingFunc = False, io = no_io, endpoint = Some 9, lastSeen = 0, network = True,
     udpToken = \<lparr>high = 1, low = 2\<rparr>, kcp = Some \<lparr>kcp_cb = Some [], outputCallback = True\<rparr>\<rparr>"

theorem kcp_messages_posted_witness:
  "\<exists>s'. HandleData list_kcp (\<lambda>_. True) 5 [7, 8] True udp1 = Some s' \<and>
    posted (io s') = [\<lparr>nm_type = NETWORK_DATA, nm_sessionId = 3, nm_payload = [7, 8]\<rparr>]"
proof -
  have "kcp udp1 = Some \<lparr>kcp_cb = Some [], outputCallback = True\<rparr>" "dispatcher udp1" "refs_ok 0 udp1"
    "ikcp_input list_kcp [7, 8] [] = (0, [[7, 8]])" "sid udp1 = 3" "posted (io udp1) = []"
    by (simp_all add: udp1_def refs_ok_def outstanding_def no_io_def list_kcp_def)
  then show ?thesis
    using kcp_messages_posted [OF list_kcp_laws, of udp1 "\<lparr>kcp_cb = Some [], outputCallback = True\<rparr>" "[]" "[7, 8]" 0
        "[[7, 8]]" "\<lambda>_. True" 5] by auto
qed

end
