(* ===== verification/Session_Factory.thy ===== *)
theory Session_Factory
  imports Session_Pool Backend_Session Udp_Session Dispatcher
begin

text \<open>
  Creating and destroying sessions: \<^verbatim>\<open>src/System/Session/SessionFactory.cpp\<close>, with the pools of
  \<open>Session_Pool\<close> and a heap per session class, and the handle \<open>SessionContext\<close>
  (\<^verbatim>\<open>src/System/Session/SessionContext.cpp\<close>).  \<open>None\<close> as the result of an operation is a loop that
  does not end or a cast to the wrong class.

  Shown: a session handed out carries nothing of its previous user; the deferred destruction of
  the dispatcher, on these sessions, recycles exactly those that are closed and unreferenced.
\<close>

section \<open>State\<close>

datatype ServerRole = Gateway_role | Backend_role

record ('q, 'c, 'k, 'e, 'p) factory =
  nextSessionId :: u64
  encryptionFactory :: "'c option option"
  f_hbInterval :: u32
  f_hbTimeout :: u32
  serverRole :: ServerRole
  gatewayPool :: "'p spool"
  backendPool :: "'p spool"
  udpPool :: "'p spool"
  gateways :: "nat \<Rightarrow> ('q, 'c) gateway"
  backends :: "nat \<Rightarrow> 'q backend"
  udps :: "nat \<Rightarrow> ('q, 'k, 'e) udp"

section \<open>Creating\<close>

text \<open>The encryption factory, when there is one, makes the cipher \<open>c\<close> (or null); the ping function is always set.\<close>

definition setup_gateway ::
  "('q, 'c, 'k, 'e, 'p) factory \<Rightarrow> ('q, 'c) gateway \<Rightarrow> ('q, 'c) gateway" where
  "setup_gateway f s =
     (let s1 = (case encryptionFactory f of None \<Rightarrow> s | Some c \<Rightarrow> SetEncryption c s)
      in if 0 < f_hbInterval f then ConfigHeartbeat (f_hbInterval f) (f_hbTimeout f) True s1 else s1)"

definition CreateSession ::
  "('p, nat) cqueue \<Rightarrow> ('q, bytes) cqueue \<Rightarrow> bool option \<Rightarrow> bool \<Rightarrow> int \<Rightarrow> ('q, 'c, 'k, 'e, 'p) factory
     \<Rightarrow> (session_ptr option \<times> ('q, 'c, 'k, 'e, 'p) factory) option" where
  "CreateSession P Q sock disp now f0 =
     (let i = nextSessionId f0; f = f0\<lparr>nextSessionId := i + 1\<rparr>
      in case serverRole f of
           Gateway_role \<Rightarrow>
             (case Acquire P (gatewayPool f) of
                (None, pool) \<Rightarrow> Some (None, f\<lparr>gatewayPool := pool\<rparr>)
              | (Some x, pool) \<Rightarrow>
                  (case GatewaySession_Reset_socket Q sock i disp now (gateways f x) of None \<Rightarrow> None
                   | Some s \<Rightarrow> Some (Some (GatewayPtr x),
                       f\<lparr>gatewayPool := pool, gateways := (gateways f)(x := setup_gateway f s)\<rparr>)))
         | Backend_role \<Rightarrow>
             (case Acquire P (backendPool f) of
                (None, pool) \<Rightarrow> Some (None, f\<lparr>backendPool := pool\<rparr>)
              | (Some x, pool) \<Rightarrow>
                  (case BackendSession_Reset_socket Q sock i disp now (backends f x) of None \<Rightarrow> None
                   | Some s \<Rightarrow> Some (Some (BackendPtr x),
                       f\<lparr>backendPool := pool, backends := (backends f)(x :=
                         if 0 < f_hbInterval f then ConfigHeartbeat (f_hbInterval f) (f_hbTimeout f) True s else s)\<rparr>))))"

definition CreateUDPSession ::
  "'k ikcp \<Rightarrow> ('p, nat) cqueue \<Rightarrow> ('q, bytes) cqueue \<Rightarrow> 'e \<Rightarrow> bool \<Rightarrow> uint128 \<Rightarrow> int \<Rightarrow> ('q, 'c, 'k, 'e, 'p) factory
     \<Rightarrow> (session_ptr option \<times> ('q, 'c, 'k, 'e, 'p) factory) option" where
  "CreateUDPSession K P Q ep disp token now f0 =
     (let i = nextSessionId f0; f = f0\<lparr>nextSessionId := i + 1\<rparr>
      in case Acquire P (udpPool f) of
           (None, pool) \<Rightarrow> Some (None, f\<lparr>udpPool := pool\<rparr>)
         | (Some x, pool) \<Rightarrow>
             (case UDPSession_Reset K Q i disp ep token now (udps f x) of None \<Rightarrow> None
              | Some s \<Rightarrow> Some (Some (UdpPtr x), f\<lparr>udpPool := pool, udps := (udps f)(x := udp_OnConnect s)\<rparr>)))"

section \<open>Destroying\<close>

text \<open>A session that is not a UDP session is cast to the class of the server's role.\<close>

definition Destroy ::
  "('p, nat) cqueue \<Rightarrow> ('q, bytes) cqueue \<Rightarrow> session_ptr option \<Rightarrow> ('q, 'c, 'k, 'e, 'p) factory
     \<Rightarrow> ('q, 'c, 'k, 'e, 'p) factory option" where
  "Destroy P Q session f =
     (case session of
        None \<Rightarrow> Some f
      | Some (UdpPtr x) \<Rightarrow>
          map_option (\<lambda>s. f\<lparr>udps := (udps f)(x := s), udpPool := Release P (Some x) (udpPool f)\<rparr>)
            (UDPSession_OnRecycle Q (udps f x))
      | Some (GatewayPtr x) \<Rightarrow>
          (case serverRole f of
             Gateway_role \<Rightarrow> Some (f\<lparr>gateways := (gateways f)(x := OnRecycle (gateways f x)),
               gatewayPool := Release P (Some x) (gatewayPool f)\<rparr>)
           | Backend_role \<Rightarrow> None)
      | Some (BackendPtr x) \<Rightarrow>
          (case serverRole f of
             Gateway_role \<Rightarrow> None
           | Backend_role \<Rightarrow> map_option (\<lambda>s. f\<lparr>backends := (backends f)(x := s), backendPool := Release P (Some x) (backendPool f)\<rparr>)
               (BackendSession_OnRecycle Q (backends f x))))"

definition SetEncryptionFactory :: "'c option option \<Rightarrow> ('q, 'c, 'k, 'e, 'p) factory \<Rightarrow> ('q, 'c, 'k, 'e, 'p) factory" where
  "SetEncryptionFactory enc f = f\<lparr>encryptionFactory := enc\<rparr>"

definition SetHeartbeatConfig :: "u32 \<Rightarrow> u32 \<Rightarrow> ('q, 'c, 'k, 'e, 'p) factory \<Rightarrow> ('q, 'c, 'k, 'e, 'p) factory" where
  "SetHeartbeatConfig i t f = f\<lparr>f_hbInterval := i, f_hbTimeout := t\<rparr>"

definition SetServerRole :: "ServerRole \<Rightarrow> ('q, 'c, 'k, 'e, 'p) factory \<Rightarrow> ('q, 'c, 'k, 'e, 'p) factory" where
  "SetServerRole role f = f\<lparr>serverRole := role\<rparr>"

definition Cleanup :: "('p, nat) cqueue \<Rightarrow> ('q, 'c, 'k, 'e, 'p) factory \<Rightarrow> ('q, 'c, 'k, 'e, 'p) factory option" where
  "Cleanup P f =
     (case (Clear_pool P (gatewayPool f), Clear_pool P (backendPool f), Clear_pool P (udpPool f)) of
        (Some (_, g), Some (_, b), Some (_, u)) \<Rightarrow> Some (f\<lparr>gatewayPool := g, backendPool := b, udpPool := u\<rparr>)
      | _ \<Rightarrow> None)"

section \<open>Virtual calls\<close>

definition v_Id :: "session_ptr \<Rightarrow> ('q, 'c, 'k, 'e, 'p) factory \<Rightarrow> u64" where
  "v_Id p f = (case p of GatewayPtr x \<Rightarrow> sid (gateways f x) | BackendPtr x \<Rightarrow> sid (backends f x) | UdpPtr x \<Rightarrow> sid (udps f x))"

definition v_IsConnected :: "session_ptr \<Rightarrow> ('q, 'c, 'k, 'e, 'p) factory \<Rightarrow> bool" where
  "v_IsConnected p f =
     (case p of GatewayPtr x \<Rightarrow> connected (gateways f x) | BackendPtr x \<Rightarrow> connected (backends f x) | UdpPtr x \<Rightarrow> connected (udps f x))"

definition v_CanDestroy :: "session_ptr \<Rightarrow> ('q, 'c, 'k, 'e, 'p) factory \<Rightarrow> bool" where
  "v_CanDestroy p f =
     (case p of GatewayPtr x \<Rightarrow> CanDestroy (gateways f x) | BackendPtr x \<Rightarrow> CanDestroy (backends f x) | UdpPtr x \<Rightarrow> CanDestroy (udps f x))"

definition v_DecRef :: "session_ptr \<Rightarrow> ('q, 'c, 'k, 'e, 'p) factory \<Rightarrow> ('q, 'c, 'k, 'e, 'p) factory" where
  "v_DecRef p f =
     (case p of GatewayPtr x \<Rightarrow> f\<lparr>gateways := (gateways f)(x := DecRef (gateways f x))\<rparr>
      | BackendPtr x \<Rightarrow> f\<lparr>backends := (backends f)(x := DecRef (backends f x))\<rparr>
      | UdpPtr x \<Rightarrow> f\<lparr>udps := (udps f)(x := DecRef (udps f x))\<rparr>)"

definition v_Close :: "session_ptr \<Rightarrow> ('q, 'c, 'k, 'e, 'p) factory \<Rightarrow> ('q, 'c, 'k, 'e, 'p) factory" where
  "v_Close p f =
     (case p of GatewayPtr x \<Rightarrow> f\<lparr>gateways := (gateways f)(x := Close (gateways f x))\<rparr>
      | BackendPtr x \<Rightarrow> f\<lparr>backends := (backends f)(x := Close (backends f x))\<rparr>
      | UdpPtr x \<Rightarrow> f\<lparr>udps := (udps f)(x := udp_Close (udps f x))\<rparr>)"

text \<open>\<open>Session::OnPong\<close> does nothing; only the TCP sessions override it.\<close>

definition v_OnPong :: "int \<Rightarrow> session_ptr \<Rightarrow> ('q, 'c, 'k, 'e, 'p) factory \<Rightarrow> ('q, 'c, 'k, 'e, 'p) factory" where
  "v_OnPong now p f =
     (case p of GatewayPtr x \<Rightarrow> f\<lparr>gateways := (gateways f)(x := OnPong now (gateways f x))\<rparr>
      | BackendPtr x \<Rightarrow> f\<lparr>backends := (backends f)(x := OnPong now (backends f x))\<rparr>
      | UdpPtr x \<Rightarrow> f)"

section \<open>The session handle\<close>

text \<open>A \<open>SessionContext\<close> is a session pointer or null; \<open>send_packet\<close> is the virtual \<open>SendPacket\<close>.\<close>

definition Ctx_Id :: "session_ptr option \<Rightarrow> ('q, 'c, 'k, 'e, 'p) factory \<Rightarrow> u64" where
  "Ctx_Id ctx f = (case ctx of None \<Rightarrow> 0 | Some p \<Rightarrow> v_Id p f)"

definition Ctx_IsConnected :: "session_ptr option \<Rightarrow> ('q, 'c, 'k, 'e, 'p) factory \<Rightarrow> bool" where
  "Ctx_IsConnected ctx f = (case ctx of None \<Rightarrow> False | Some p \<Rightarrow> v_IsConnected p f)"

definition Ctx_Send ::
  "(session_ptr \<Rightarrow> bytes \<Rightarrow> ('q, 'c, 'k, 'e, 'p) factory \<Rightarrow> ('q, 'c, 'k, 'e, 'p) factory option) \<Rightarrow> bytes \<Rightarrow> session_ptr option
     \<Rightarrow> ('q, 'c, 'k, 'e, 'p) factory \<Rightarrow> ('q, 'c, 'k, 'e, 'p) factory option" where
  "Ctx_Send send_packet pkt ctx f =
     (case ctx of None \<Rightarrow> Some f | Some p \<Rightarrow> if v_IsConnected p f then send_packet p pkt f else Some f)"

definition Ctx_Close :: "session_ptr option \<Rightarrow> ('q, 'c, 'k, 'e, 'p) factory \<Rightarrow> ('q, 'c, 'k, 'e, 'p) factory" where
  "Ctx_Close ctx f = (case ctx of None \<Rightarrow> f | Some p \<Rightarrow> v_Close p f)"

definition Ctx_OnPong :: "int \<Rightarrow> session_ptr option \<Rightarrow> ('q, 'c, 'k, 'e, 'p) factory \<Rightarrow> ('q, 'c, 'k, 'e, 'p) factory" where
  "Ctx_OnPong now ctx f = (case ctx of None \<Rightarrow> f | Some p \<Rightarrow> v_OnPong now p f)"

section \<open>Deferred destruction of these sessions\<close>

text \<open>What the dispatcher calls, for given packet, timer and task handlers.\<close>

definition factory_callbacks ::
  "('p, nat) cqueue \<Rightarrow> ('q, bytes) cqueue \<Rightarrow> ('q, 'c, 'k, 'e, 'p) factory callbacks \<Rightarrow> ('q, 'c, 'k, 'e, 'p) factory callbacks" where
  "factory_callbacks P Q H = H\<lparr>is_connected := v_IsConnected, can_destroy := v_CanDestroy, dec_ref := v_DecRef,
     factory_destroy := (\<lambda>p f. case Destroy P Q (Some p) f of None \<Rightarrow> f | Some f' \<Rightarrow> f')\<rparr>"

lemma Destroy_other:
  assumes "Destroy P Q (Some p) f = Some f'" "p \<noteq> q"
  shows "v_CanDestroy q f' = v_CanDestroy q f"
  using assms by (auto simp: Destroy_def v_CanDestroy_def split: session_ptr.splits ServerRole.splits)

interpretation fd: destroyable_sessions "factory_callbacks P Q H"
  for P :: "('p, nat) cqueue" and Q :: "('q, bytes) cqueue" and H :: "('q, 'c, 'k, 'e, 'p) factory callbacks"
  by unfold_locales (auto simp: factory_callbacks_def split: option.splits dest: Destroy_other)

text \<open>On sessions of these three classes \<open>ProcessPendingDestroys\<close> destroys each pending session that is
  closed and has no reference left, once, and no other; what remains pending are exactly the
  sessions that are still connected or referenced.\<close>

theorem pending_destroys_exact:
  assumes "distinct (pendingDestroy d)"
    and "ProcessPendingDestroys (factory_callbacks P Q H) (d, f) = (d', f')"
  shows "\<exists>ds. f' = fold (factory_destroy (factory_callbacks P Q H)) ds f \<and>
    mset ds = filter_mset (\<lambda>p. v_CanDestroy p f) (mset (pendingDestroy d)) \<and>
    mset (pendingDestroy d') = filter_mset (\<lambda>p. \<not> v_CanDestroy p f) (mset (pendingDestroy d))"
proof (cases "pendingDestroy d = []")
  case True
  then show ?thesis using assms(2) by (auto simp: ProcessPendingDestroys_def)
next
  case False
  have c: "can_destroy (factory_callbacks P Q H) = v_CanDestroy" by (simp add: factory_callbacks_def)
  obtain qs ds where "pending_loop (factory_callbacks P Q H) 0 (pendingDestroy d) f = (qs, fold (factory_destroy (factory_callbacks P Q H)) ds f)"
    "mset qs = filter_mset (\<lambda>p. \<not> v_CanDestroy p f) (mset (pendingDestroy d))"
    "mset ds = filter_mset (\<lambda>p. v_CanDestroy p f) (mset (pendingDestroy d))"
    using fd.pending_loop_spec [OF assms(1), of 0 P Q H f] unfolding c by auto
  then show ?thesis using assms(2) False by (auto simp: ProcessPendingDestroys_def)
qed

section \<open>A reused session is clean\<close>

lemma setup_gateway_keeps:
  "sid (setup_gateway f s) = sid s" "connected (setup_gateway f s) = connected s" "isSending (setup_gateway f s) = isSending s"
  "sendQueue (setup_gateway f s) = sendQueue s" "recvBuffer (setup_gateway f s) = recvBuffer s"
  "lastRecvTime (setup_gateway f s) = lastRecvTime s"
  "encryption (setup_gateway f s) = (case encryptionFactory f of None \<Rightarrow> encryption s | Some c \<Rightarrow> c)"
  "ioRef (setup_gateway f s) - int (waits (io (setup_gateway f s))) = ioRef s - int (waits (io s))"
  by (simp_all add: setup_gateway_def SetEncryption_def ConfigHeartbeat_def StartHeartbeat_def async_wait_def IncRef_def Let_def
      split: option.split)

lemma Session_Reset_frame:
  assumes "Session_Reset Q s = Some (s' :: ('q, 'c) gateway)"
  shows "recvBuffer s' = recvBuffer s" "encryption s' = encryption s" "io s' = io s"
  using assms by (auto simp: Session_Reset_def split: option.splits)

text \<open>Whatever state the last user left it in, the gateway session that \<open>CreateSession\<close> hands out has the
  next identity, is not connected, has no queued packet, no received byte, and the cipher the
  factory makes (without a cipher factory the one in the object, which \<open>OnRecycle\<close> has cleared);
  its only references are those of the heartbeat waits it starts.\<close>

theorem created_session_is_clean:
  assumes "cqueue_laws Q cont" "serverRole f = Gateway_role"
    and "CreateSession P Q sock disp now f = Some (Some p, f')"
  shows "\<exists>x s. p = GatewayPtr x \<and> gateways f' x = s \<and> sid s = nextSessionId f \<and> nextSessionId f' = nextSessionId f + 1 \<and>
    \<not> connected s \<and> \<not> isSending s \<and> cont (sendQueue s) = {#} \<and> DataSize (recvBuffer s) = 0 \<and> lastRecvTime s = now \<and>
    encryption s = (case encryptionFactory f of None \<Rightarrow> encryption (gateways f x) | Some c \<Rightarrow> c) \<and>
    ioRef s = int (waits (io s)) - int (waits (io (gateways f x)))"
proof -
  obtain x pool where a: "Acquire P (gatewayPool f) = (Some x, pool)"
    using assms(2,3) by (auto simp: CreateSession_def Let_def split: prod.splits option.splits)
  obtain r where r: "Session_Reset Q (gateways f x) = Some r" "cont (sendQueue r) = {#}" "\<not> connected r" "\<not> isSending r" "ioRef r = 0"
    using Session_Reset_returns [OF assms(1), of "gateways f x"] by blast
  obtain s where s: "GatewaySession_Reset_socket Q sock (nextSessionId f) disp now (gateways f x) = Some s"
    using r(1) by (auto simp: GatewaySession_Reset_socket_def)
  have k: "sid s = nextSessionId f" "\<not> connected s" "\<not> isSending s" "cont (sendQueue s) = {#}" "DataSize (recvBuffer s) = 0"
    "lastRecvTime s = now" "encryption s = encryption (gateways f x)" "ioRef s = 0" "io s = io (gateways f x)"
    using s r Session_Reset_frame [OF r(1)]
    by (auto simp: GatewaySession_Reset_socket_def Let_def DataSize_def Reset_buffer_def split: if_splits)
  let ?f = "f\<lparr>nextSessionId := nextSessionId f + 1\<rparr>"
  have e: "p = GatewayPtr x" "f' = ?f\<lparr>gatewayPool := pool, gateways := (gateways f)(x := setup_gateway ?f s)\<rparr>"
    using assms(2,3) a s by (auto simp: CreateSession_def Let_def)
  show ?thesis
    using k setup_gateway_keeps [of ?f s] by (intro exI [of _ x] exI [of _ "setup_gateway ?f s"]) (simp add: e split: option.split)
qed

text \<open>A factory with nothing in its pools.\<close>

definition gateway0 :: "(bytes list, unit) gateway" where
  "gateway0 = \<lparr>sid = 0, dispatcher = False, connected = False, ioRef = 0, sendQueue = [[1]], isSending = True, socket = None,
     recvBuffer = RecvBuffer 16, flowControlTimer = False, heartbeatTimer = False, lastRecvTime = 0, lastPingTime = 0,
     hbInterval = 0, hbTimeout = 0, hbPingFunc = False, io = no_io, encryption = None, linearBuffer = [], readPaused = False\<rparr>"

definition backend0 :: "bytes list backend" where
  "backend0 = \<lparr>sid = 0, dispatcher = False, connected = False, ioRef = 0, sendQueue = [], isSending = False, socket = None,
     recvBuffer = RecvBuffer 16, flowControlTimer = False, heartbeatTimer = False, lastRecvTime = 0, lastPingTime = 0,
     hbInterval = 0, hbTimeout = 0, hbPingFunc = False, io = no_io, gatherBuffers = [], sendingPackets = []\<rparr>"

definition factory0 :: "(bytes list, unit, unit, nat, nat list) factory" where
  "factory0 = \<lparr>nextSessionId = 1, encryptionFactory = None, f_hbInterval = 0, f_hbTimeout = 0, serverRole = Gateway_role,
     gatewayPool = Release list_queue (Some 0) (SessionPool [] 1), backendPool = SessionPool [] 0, udpPool = SessionPool [] 0,
     gateways = (\<lambda>_. gateway0), backends = (\<lambda>_. backend0), udps = (\<lambda>_. udp0 [])\<rparr>"

theorem created_session_is_clean_witness:
  "\<exists>f' x s. CreateSession list_queue list_queue (Some True) True 9 factory0 = Some (Some (GatewayPtr x), f') \<and>
    gateways f' x = s \<and> sid s = 1 \<and> \<not> connected s \<and> sendQueue s = [] \<and> ioRef s = int (waits (io s)) - int (waits (io gateway0))"
proof -
  have "fst (the (CreateSession list_queue list_queue (Some True) True 9 factory0)) = Some (GatewayPtr 0)"
    "CreateSession list_queue list_queue (Some True) True 9 factory0 \<noteq> None"
    by (simp_all add: CreateSession_def factory0_def Acquire_def Release_def SessionPool_def GatewaySession_Reset_socket_def
        Session_Reset_def gateway0_def drain.simps list_queue_def Let_def)
  then obtain f' where c: "CreateSession list_queue list_queue (Some True) True 9 factory0 = Some (Some (GatewayPtr 0), f')"
    by (metis option.collapse option.sel prod.collapse)
  have "serverRole factory0 = Gateway_role" by (simp add: factory0_def)
  from created_session_is_clean [OF list_queue_laws this c] c show ?thesis by (auto simp: factory0_def)
qed

theorem pending_destroys_exact_witness:
  "mset (pendingDestroy (fst (ProcessPendingDestroys (factory_callbacks list_queue list_queue
      \<lparr>is_connected = (\<lambda>_ _. True), can_destroy = (\<lambda>_ _. True), dec_ref = (\<lambda>_ w. w), factory_destroy = (\<lambda>_ w. w),
       on_packet = (\<lambda>_ _ _ _ w. (w, [])), on_session_disconnect = (\<lambda>_ _ w. (w, [])), on_timer = (\<lambda>_ _ w. (w, [])),
       run_task = (\<lambda>_ _ w. (w, [])), free_message = (\<lambda>_ w. w), delete_message = (\<lambda>_ w. w)\<rparr>)
     (disp0\<lparr>pendingDestroy := [GatewayPtr 3, UdpPtr 0]\<rparr>, factory0)))) = {#UdpPtr 0#}"
  (is "mset (pendingDestroy (fst (ProcessPendingDestroys ?E (?d, factory0)))) = _")
proof -
  obtain d' f' where p: "ProcessPendingDestroys ?E (?d, factory0) = (d', f')" by (metis prod.collapse)
  have "distinct (pendingDestroy ?d)" by simp
  from pending_destroys_exact [OF this p]
  have "mset (pendingDestroy d') = filter_mset (\<lambda>p. \<not> v_CanDestroy p factory0) {#GatewayPtr 3, UdpPtr 0#}" by auto
  then show ?thesis unfolding p by (simp add: v_CanDestroy_def CanDestroy_def factory0_def gateway0_def udp0_def)
qed

end
