(* ===== verification/Tcp_Network.thy ===== *)
theory Tcp_Network
  imports Session_Factory
begin

text \<open>
  Accepting connections (\<open>Network/NetworkImpl.cpp\<close>, \<open>Network/WebSocketNetworkImpl.cpp\<close>) and the WebSocket session
  (\<open>Network/WebSocketSession.cpp\<close>).  Sockets and the event loop of asio are inputs: a completion is a call of its handler
  with its error code, and an outstanding operation is counted.

  Shown: an acceptor always has exactly one accept outstanding until it is stopped, and gives every connection a
  session with the next number, as long as the address of the peer can be read; when it cannot (the peer is
  already gone) accepting ends for good.  A WebSocket session writes its messages one at a time and in order,
  and never stops writing while messages are queued and no write has failed.
\<close>

section \<open>The WebSocket session\<close>

text \<open>
  \<open>ws_handshakes\<close>, \<open>ws_reads\<close> and \<open>ws_writes\<close> count the outstanding operations of the stream; the handler of each holds a
  \<open>shared_ptr\<close> to the session, and the vector of the network holds one more.  \<open>ws_wire\<close> lists the messages handed to
  \<open>async_write\<close>, with the frame type set at that moment.
\<close>

datatype frame_type = Text_frame | Binary_frame

record ws_session =
  ws_open :: bool
  ws_sendQueue :: "bytes list"
  ws_isWriting :: bool
  ws_handshakes :: nat
  ws_reads :: nat
  ws_writes :: nat
  ws_frame :: frame_type
  ws_wire :: "(frame_type \<times> bytes) list"

definition WebSocketSession :: ws_session where
  "WebSocketSession = \<lparr>ws_open = True, ws_sendQueue = [], ws_isWriting = False, ws_handshakes = 0, ws_reads = 0, ws_writes = 0,
     ws_frame = Text_frame, ws_wire = []\<rparr>"

definition Ws_Close :: "ws_session \<Rightarrow> ws_session" where
  "Ws_Close s = (if ws_open s then s\<lparr>ws_open := False\<rparr> else s)"

definition Ws_Run :: "ws_session \<Rightarrow> ws_session" where
  "Ws_Run s = s\<lparr>ws_handshakes := ws_handshakes s + 1\<rparr>"

definition DoRead :: "ws_session \<Rightarrow> ws_session" where
  "DoRead s = s\<lparr>ws_reads := ws_reads s + 1\<rparr>"

definition OnHandshake :: "bool \<Rightarrow> ws_session \<Rightarrow> ws_session" where
  "OnHandshake ec s = (let s1 = s\<lparr>ws_handshakes := ws_handshakes s - 1\<rparr> in if ec then s1 else DoRead s1)"

definition DoWrite :: "ws_session \<Rightarrow> ws_session" where
  "DoWrite s = (case ws_sendQueue s of
      [] \<Rightarrow> s\<lparr>ws_isWriting := False\<rparr>
    | m # _ \<Rightarrow> s\<lparr>ws_isWriting := True, ws_frame := Text_frame, ws_writes := ws_writes s + 1, ws_wire := ws_wire s @ [(Text_frame, m)]\<rparr>)"

definition Ws_Send :: "bytes \<Rightarrow> ws_session \<Rightarrow> ws_session" where
  "Ws_Send m s = (let s1 = s\<lparr>ws_sendQueue := ws_sendQueue s @ [m]\<rparr> in if \<not> ws_isWriting s1 then DoWrite s1 else s1)"

definition SendBinary :: "bytes \<Rightarrow> nat \<Rightarrow> ws_session \<Rightarrow> ws_session" where
  "SendBinary data n s = (let m = take n data; s1 = s\<lparr>ws_sendQueue := ws_sendQueue s @ [m]\<rparr> in if \<not> ws_isWriting s1 then DoWrite s1 else s1)"

text \<open>Every error of a read, whatever its kind, ends reading; a message that is read is only logged.\<close>

definition OnRead :: "bool \<Rightarrow> ws_session \<Rightarrow> ws_session" where
  "OnRead ec s = (let s1 = s\<lparr>ws_reads := ws_reads s - 1\<rparr> in if ec then s1 else DoRead s1)"

definition OnWrite :: "bool \<Rightarrow> ws_session \<Rightarrow> ws_session" where
  "OnWrite ec s =
     (let s0 = s\<lparr>ws_writes := ws_writes s - 1\<rparr>;
          s1 = (if ws_sendQueue s0 \<noteq> [] then s0\<lparr>ws_sendQueue := tl (ws_sendQueue s0)\<rparr> else s0)
      in if ec then s1\<lparr>ws_isWriting := False\<rparr> else DoWrite s1)"

text \<open>The calls and completions a session sees; a completion comes only while its operation is outstanding.  Each runs as a whole,
  as \<open>_writeMutex\<close> covers the whole of those that touch the queue.\<close>

datatype ws_event = Ev_Send bytes | Ev_SendBinary bytes nat | Ev_Handshake bool | Ev_Read bool | Ev_Write bool | Ev_Close

fun ws_step :: "ws_event \<Rightarrow> ws_session \<Rightarrow> ws_session" where
  "ws_step (Ev_Send m) s = Ws_Send m s"
| "ws_step (Ev_SendBinary d n) s = SendBinary d n s"
| "ws_step (Ev_Handshake ec) s = (if 0 < ws_handshakes s then OnHandshake ec s else s)"
| "ws_step (Ev_Read ec) s = (if 0 < ws_reads s then OnRead ec s else s)"
| "ws_step (Ev_Write ec) s = (if 0 < ws_writes s then OnWrite ec s else s)"
| "ws_step Ev_Close s = Ws_Close s"

fun message_of :: "ws_event \<Rightarrow> bytes list" where
  "message_of (Ev_Send m) = [m]"
| "message_of (Ev_SendBinary d n) = [take n d]"
| "message_of _ = []"

definition ws_run :: "ws_event list \<Rightarrow> ws_session" where
  "ws_run es = fold ws_step es (Ws_Run WebSocketSession)"

text \<open>What has been accepted but not yet handed to the stream.\<close>

definition waiting :: "ws_session \<Rightarrow> bytes list" where
  "waiting s = (if ws_isWriting s then tl (ws_sendQueue s) else ws_sendQueue s)"

definition ws_inv :: "bytes list \<Rightarrow> ws_session \<Rightarrow> bool" where
  "ws_inv sent s \<longleftrightarrow> map snd (ws_wire s) @ waiting s = sent \<and> ws_writes s = (if ws_isWriting s then 1 else 0) \<and>
     (ws_isWriting s \<longrightarrow> ws_sendQueue s \<noteq> [])"

lemmas ws_defs = Ws_Send_def SendBinary_def OnHandshake_def OnRead_def OnWrite_def DoWrite_def DoRead_def Ws_Close_def Ws_Run_def Let_def

lemma ws_step_inv: "ws_inv sent s \<Longrightarrow> ws_inv (sent @ message_of e) (ws_step e s)"
  by (cases e; cases "ws_sendQueue s"; cases "ws_isWriting s"; cases "tl (ws_sendQueue s)")
    (auto simp: ws_defs ws_inv_def waiting_def)

lemma ws_fold_inv: "ws_inv sent s \<Longrightarrow> ws_inv (sent @ concat (map message_of es)) (fold ws_step es s)"
proof (induction es arbitrary: sent s)
  case (Cons e es)
  then show ?case using Cons.IH [OF ws_step_inv [OF Cons.prems, of e]] by simp
qed simp

definition write_failed :: "ws_event \<Rightarrow> bool" where
  "write_failed e \<longleftrightarrow> e = Ev_Write True"

lemma ws_step_no_stall:
  "\<not> write_failed e \<Longrightarrow> (ws_sendQueue s \<noteq> []) = ws_isWriting s \<Longrightarrow> (ws_sendQueue (ws_step e s) \<noteq> []) = ws_isWriting (ws_step e s)"
  by (cases e; cases "ws_sendQueue s"; cases "tl (ws_sendQueue s)") (auto simp: ws_defs write_failed_def)

lemma ws_fold_no_stall:
  "list_all (\<lambda>e. \<not> write_failed e) es \<Longrightarrow> (ws_sendQueue s \<noteq> []) = ws_isWriting s \<Longrightarrow>
     (ws_sendQueue (fold ws_step es s) \<noteq> []) = ws_isWriting (fold ws_step es s)"
  by (induction es arbitrary: s) (auto dest: ws_step_no_stall)

text \<open>C26. A WebSocket session writes in order and one message at a time: after any sequence of sends from any thread and of completions, the
  messages handed to the stream followed by the waiting ones are exactly the messages sent, in order; at most one write is outstanding;
  and a message waits only behind an outstanding write, unless a write has failed.\<close>

theorem websocket_in_order:
  "map snd (ws_wire (ws_run es)) @ waiting (ws_run es) = concat (map message_of es) \<and> ws_writes (ws_run es) \<le> 1 \<and>
    (list_all (\<lambda>e. \<not> write_failed e) es \<longrightarrow> waiting (ws_run es) = [] \<or> ws_writes (ws_run es) = 1)"
proof -
  have 1: "ws_inv (concat (map message_of es)) (ws_run es)"
    using ws_fold_inv [of "[]" "Ws_Run WebSocketSession" es]
    by (simp add: ws_run_def ws_inv_def waiting_def WebSocketSession_def Ws_Run_def)
  have "list_all (\<lambda>e. \<not> write_failed e) es \<Longrightarrow> (ws_sendQueue (ws_run es) \<noteq> []) = ws_isWriting (ws_run es)"
    unfolding ws_run_def by (rule ws_fold_no_stall) (simp_all add: WebSocketSession_def Ws_Run_def)
  then show ?thesis using 1 by (auto simp: ws_inv_def waiting_def)
qed

theorem websocket_in_order_witness:
  "waiting (ws_run [Ev_Handshake False, Ev_Send [1], Ev_SendBinary [2, 3] 1, Ev_Write False, Ev_Read False, Ev_Write False]) = [] \<and>
   ws_wire (ws_run [Ev_Handshake False, Ev_Send [1], Ev_SendBinary [2, 3] 1, Ev_Write False, Ev_Read False, Ev_Write False])
     = [(Text_frame, [1]), (Text_frame, [2])]"
proof -
  let ?es = "[Ev_Handshake False, Ev_Send [1], Ev_SendBinary [2, 3] 1, Ev_Write False, Ev_Read False, Ev_Write False]"
  have f: "list_all (\<lambda>e. \<not> write_failed e) ?es" by (simp add: write_failed_def)
  have "ws_writes (ws_run ?es) = 0" by (simp add: ws_run_def ws_defs WebSocketSession_def)
  then have "waiting (ws_run ?es) = []" using websocket_in_order [of ?es] f by linarith
  moreover have "ws_wire (ws_run ?es) = [(Text_frame, [1]), (Text_frame, [2])]" by (simp add: ws_run_def ws_defs WebSocketSession_def)
  ultimately show ?thesis by blast
qed

text \<open>Binary data is written as a text frame: no call ever asks for a binary one.\<close>

lemma binary_sent_as_text: "ws_wire (SendBinary data n WebSocketSession) = [(Text_frame, take n data)]"
  by (simp add: SendBinary_def DoWrite_def WebSocketSession_def Let_def)

section \<open>The WebSocket acceptor\<close>

text \<open>\<open>wn_acceptor\<close> is the acceptor and whether it is open.\<close>

record ws_net =
  wn_acceptor :: "bool option"
  wn_sessions :: "ws_session list"
  wn_isStopping :: bool
  wn_pending :: nat

definition WebSocketNetworkImpl :: ws_net where
  "WebSocketNetworkImpl = \<lparr>wn_acceptor = None, wn_sessions = [], wn_isStopping = False, wn_pending = 0\<rparr>"

definition DoAccept :: "ws_net \<Rightarrow> ws_net" where
  "DoAccept n = (if wn_acceptor n = None \<or> wn_isStopping n then n else n\<lparr>wn_pending := wn_pending n + 1\<rparr>)"

text \<open>\<open>opened\<close> and \<open>bound\<close> as for \<open>Tcp_Start\<close>.\<close>

definition Ws_Start :: "bool \<Rightarrow> bool \<Rightarrow> ws_net \<Rightarrow> bool \<times> ws_net" where
  "Ws_Start opened bound n0 =
     (let n = n0\<lparr>wn_isStopping := False, wn_acceptor := Some opened\<rparr>
      in if \<not> opened \<or> \<not> bound then (False, n) else (True, DoAccept n))"

definition Ws_Stop :: "ws_net \<Rightarrow> ws_net" where
  "Ws_Stop n0 =
     (let n = n0\<lparr>wn_isStopping := True\<rparr>;
          n1 = (if wn_acceptor n = Some True then n\<lparr>wn_acceptor := Some False\<rparr> else n)
      in n1\<lparr>wn_sessions := []\<rparr>)"

text \<open>The reference count of a session of the vector.\<close>

definition use_count :: "ws_session \<Rightarrow> nat" where
  "use_count s = 1 + ws_handshakes s + ws_reads s + ws_writes s"

definition Ws_Broadcast :: "bytes \<Rightarrow> ws_net \<Rightarrow> ws_net" where
  "Ws_Broadcast m n =
     (let n1 = n\<lparr>wn_sessions := filter (\<lambda>s. use_count s \<noteq> 1) (wn_sessions n)\<rparr>
      in n1\<lparr>wn_sessions := map (Ws_Send m) (wn_sessions n1)\<rparr>)"

definition BroadcastBinary :: "bytes \<Rightarrow> nat \<Rightarrow> ws_net \<Rightarrow> ws_net" where
  "BroadcastBinary data len n =
     (let n1 = n\<lparr>wn_sessions := filter (\<lambda>s. use_count s \<noteq> 1) (wn_sessions n)\<rparr>
      in n1\<lparr>wn_sessions := map (SendBinary data len) (wn_sessions n1)\<rparr>)"

text \<open>The handler of an accept; \<open>None\<close> is the exception of \<open>remote_endpoint()\<close>.\<close>

definition OnAccept :: "bool \<Rightarrow> bool \<Rightarrow> ws_net \<Rightarrow> ws_net option" where
  "OnAccept ec peer n0 =
     (let n = n0\<lparr>wn_pending := wn_pending n0 - 1\<rparr>
      in if wn_isStopping n then Some n
         else if ec then Some (DoAccept n)
         else if \<not> peer then None
         else Some (DoAccept (n\<lparr>wn_sessions := wn_sessions n @ [Ws_Run WebSocketSession]\<rparr>)))"

text \<open>A broadcast drops exactly the sessions that have no operation left and reaches every other one.\<close>

lemma broadcast_reaches_live:
  "wn_sessions (Ws_Broadcast m n) = map (Ws_Send m) (filter (\<lambda>s. 0 < ws_handshakes s \<or> 0 < ws_reads s \<or> 0 < ws_writes s) (wn_sessions n))"
  by (simp add: Ws_Broadcast_def use_count_def cong: filter_cong)

lemma binary_broadcast_reaches_live: "BroadcastBinary data len n = Ws_Broadcast (take len data) n"
  by (simp add: BroadcastBinary_def Ws_Broadcast_def SendBinary_def Ws_Send_def fun_eq_iff cong: map_cong)

text \<open>A session is in the vector before its handshake is complete, so a broadcast in between writes to a stream that is still
  being accepted.\<close>

lemma broadcast_before_handshake:
  assumes "OnAccept False True n = Some n1" "\<not> wn_isStopping n"
  shows "let s = last (wn_sessions (Ws_Broadcast m n1)) in ws_handshakes s = 1 \<and> ws_writes s = 1"
proof -
  have "wn_sessions n1 = wn_sessions n @ [Ws_Run WebSocketSession]" using assms by (auto simp: OnAccept_def DoAccept_def Let_def)
  then show ?thesis by (simp add: Ws_Broadcast_def ws_defs WebSocketSession_def use_count_def)
qed

section \<open>The TCP acceptor\<close>

text \<open>\<open>tn_pending\<close> counts the outstanding \<open>async_accept\<close>, \<open>tn_io\<close> the threads in \<open>Run\<close>; an exception of a handler ends its thread
  (\<open>Framework::Run\<close> catches it outside of \<open>_network->Run()\<close>).\<close>

record tcp_net =
  tn_open :: bool
  tn_isStopping :: bool
  tn_pending :: nat
  tn_io :: nat
  tn_ioStopped :: bool
  tn_udp :: bool
  tn_ws :: ws_net

definition NetworkImpl :: tcp_net where
  "NetworkImpl = \<lparr>tn_open = False, tn_isStopping = False, tn_pending = 0, tn_io = 0, tn_ioStopped = False, tn_udp = False,
     tn_ws = WebSocketNetworkImpl\<rparr>"

definition StartAccept :: "tcp_net \<Rightarrow> tcp_net" where
  "StartAccept n = (if \<not> tn_open n then n else n\<lparr>tn_pending := tn_pending n + 1\<rparr>)"

text \<open>\<open>opened\<close> and \<open>bound\<close>: the acceptor could be opened, and bound and put into listening; \<open>udp\<close>: the UDP network started, on the next port.  A UDP
  failure is only logged.\<close>

definition Tcp_Start :: "bool \<Rightarrow> bool \<Rightarrow> bool \<Rightarrow> tcp_net \<Rightarrow> bool \<times> tcp_net" where
  "Tcp_Start opened bound udp n0 =
     (let n = n0\<lparr>tn_isStopping := False\<rparr>
      in if \<not> opened then (False, n)
         else if \<not> bound then (False, n\<lparr>tn_open := True\<rparr>)
         else (True, (StartAccept (n\<lparr>tn_open := True\<rparr>))\<lparr>tn_udp := udp\<rparr>))"

definition Tcp_Stop :: "tcp_net \<Rightarrow> tcp_net" where
  "Tcp_Stop n = n\<lparr>tn_isStopping := True, tn_open := False, tn_ws := Ws_Stop (tn_ws n), tn_ioStopped := True\<rparr>"

text \<open>A network that is stopped accepts nobody any more, on neither port.\<close>

lemma Tcp_Stop_closed:
  "\<not> tn_open (Tcp_Stop n) \<and> StartAccept (Tcp_Stop n) = Tcp_Stop n \<and> wn_sessions (tn_ws (Tcp_Stop n)) = [] \<and>
   DoAccept (tn_ws (Tcp_Stop n)) = tn_ws (Tcp_Stop n)"
  by (simp add: Tcp_Stop_def StartAccept_def Ws_Stop_def DoAccept_def Let_def)

datatype accept_error = Operation_aborted | Accept_failed

text \<open>The virtual call \<open>OnConnect\<close>.\<close>

definition v_OnConnect :: "session_ptr \<Rightarrow> ('q, 'c, 'k, 'e, 'p) factory \<Rightarrow> ('q, 'c, 'k, 'e, 'p) factory" where
  "v_OnConnect s f = (case s of
      GatewayPtr x \<Rightarrow> f\<lparr>gateways := (gateways f)(x := OnConnect (gateways f x))\<rparr>
    | BackendPtr x \<Rightarrow> f\<lparr>backends := (backends f)(x := OnConnect (backends f x))\<rparr>
    | UdpPtr x \<Rightarrow> f\<lparr>udps := (udps f)(x := udp_OnConnect (udps f x))\<rparr>)"

text \<open>The handler of an accept: \<open>peer\<close> tells whether \<open>remote_endpoint()\<close> returns, which it does not when the connection is gone.\<close>

definition accept_handler ::
  "('p, nat) cqueue \<Rightarrow> ('q, bytes) cqueue \<Rightarrow> bool \<Rightarrow> int \<Rightarrow> accept_error option \<Rightarrow> bool \<Rightarrow> tcp_net \<times> ('q, 'c, 'k, 'e, 'p) factory
     \<Rightarrow> (tcp_net \<times> ('q, 'c, 'k, 'e, 'p) factory) option" where
  "accept_handler P Q disp now err peer nf =
     (case nf of (n0, f) \<Rightarrow>
       let n = n0\<lparr>tn_pending := tn_pending n0 - 1\<rparr>
       in if tn_isStopping n then Some (n, f)
          else case err of
                 Some Operation_aborted \<Rightarrow> Some (n, f)
               | Some Accept_failed \<Rightarrow> Some (StartAccept n, f)
               | None \<Rightarrow>
                   if \<not> peer then Some (n\<lparr>tn_io := tn_io n - 1\<rparr>, f)
                   else (case CreateSession P Q (Some True) disp now f of
                           None \<Rightarrow> None
                         | Some (None, f1) \<Rightarrow> Some (StartAccept n, f1)
                         | Some (Some s, f1) \<Rightarrow> Some (StartAccept n, v_OnConnect s f1)))"

text \<open>A run: connections, failed accepts and, at its end, \<open>Stop\<close>.\<close>

datatype net_event = Accepted int bool | Accept_error   \<comment> \<open>the time, and whether the address of the peer can be read\<close>

fun net_run ::
  "('p, nat) cqueue \<Rightarrow> ('q, bytes) cqueue \<Rightarrow> bool \<Rightarrow> net_event list \<Rightarrow> tcp_net \<times> ('q, 'c, 'k, 'e, 'p) factory
     \<Rightarrow> (tcp_net \<times> ('q, 'c, 'k, 'e, 'p) factory) option" where
  "net_run P Q disp [] nf = Some nf"
| "net_run P Q disp (Accepted now peer # es) nf =
     (if tn_pending (fst nf) = 0 then Some nf
      else case accept_handler P Q disp now None peer nf of None \<Rightarrow> None | Some nf1 \<Rightarrow> net_run P Q disp es nf1)"
| "net_run P Q disp (Accept_error # es) nf =
     (if tn_pending (fst nf) = 0 then Some nf
      else case accept_handler P Q disp 0 (Some Accept_failed) True nf of None \<Rightarrow> None | Some nf1 \<Rightarrow> net_run P Q disp es nf1)"

fun peer_known :: "net_event \<Rightarrow> bool" where
  "peer_known (Accepted now peer) = peer"
| "peer_known Accept_error = True"

fun is_accepted :: "net_event \<Rightarrow> bool" where
  "is_accepted (Accepted now peer) = True"
| "is_accepted Accept_error = False"

definition listening :: "tcp_net \<Rightarrow> bool" where
  "listening n \<longleftrightarrow> tn_open n \<and> \<not> tn_isStopping n \<and> tn_pending n = 1"

lemma CreateSession_next: "CreateSession P Q sock disp now f = Some (s, f1) \<Longrightarrow> nextSessionId f1 = nextSessionId f + 1"
  by (auto simp: CreateSession_def Let_def split: ServerRole.splits option.splits prod.splits)

lemma v_OnConnect_next [simp]: "nextSessionId (v_OnConnect s f) = nextSessionId f"
  by (simp add: v_OnConnect_def split: session_ptr.split)

lemma accept_keeps_listening:
  assumes "accept_handler P Q disp now err peer (n, f) = Some (n1, f1)" "listening n" "peer" "err \<noteq> Some Operation_aborted"
  shows "n1 = n \<and> nextSessionId f1 = nextSessionId f + (if err = None then 1 else 0)"
proof -
  have n: "StartAccept (n\<lparr>tn_pending := 0\<rparr>) = n" "tn_pending n = 1" "\<not> tn_isStopping n"
    using assms(2) by (simp_all add: StartAccept_def listening_def)
  show ?thesis
  proof (cases err)
    case None
    then obtain r where c: "CreateSession P Q (Some True) disp now f = Some r"
      using assms(1,3) n by (cases "CreateSession P Q (Some True) disp now f") (auto simp: accept_handler_def)
    obtain s g where r: "r = (s, g)" by (cases r)
    have "nextSessionId g = nextSessionId f + 1" using CreateSession_next c r by blast
    then show ?thesis using assms(1,3) n None c r by (cases s) (auto simp: accept_handler_def)
  next
    case (Some x)
    then show ?thesis using assms(1,4) n by (cases x) (auto simp: accept_handler_def)
  qed
qed

lemma net_run_listening:
  "net_run P Q disp es (n, f) = Some (n', f') \<Longrightarrow> listening n \<Longrightarrow> list_all peer_known es \<Longrightarrow>
     n' = n \<and> nextSessionId f' = nextSessionId f + of_nat (length (filter is_accepted es))"
proof (induction es arbitrary: f)
  case (Cons e es)
  have p: "tn_pending n \<noteq> 0" using Cons.prems(2) by (simp add: listening_def)
  obtain n1 f1 where h: "(case e of Accepted now peer \<Rightarrow> accept_handler P Q disp now None peer (n, f)
      | Accept_error \<Rightarrow> accept_handler P Q disp 0 (Some Accept_failed) True (n, f)) = Some (n1, f1)"
    "net_run P Q disp es (n1, f1) = Some (n', f')"
    using Cons.prems(1) p by (cases e) (auto split: option.splits)
  have a: "n1 = n \<and> nextSessionId f1 = nextSessionId f + (if is_accepted e then 1 else 0)"
  proof (cases e)
    case (Accepted now peer)
    then show ?thesis using h(1) Cons.prems(2,3) accept_keeps_listening [of P Q disp now None peer n f n1 f1] by simp
  next
    case Accept_error
    then show ?thesis
      using h(1) Cons.prems(2) accept_keeps_listening [of P Q disp 0 "Some Accept_failed" True n f n1 f1] by simp
  qed
  then show ?case using Cons.IH [of f1] h(2) Cons.prems(2,3) by (auto simp: add.assoc)
qed simp

text \<open>A started network keeps accepting: whatever connections and accept errors come, as long as the addresses of the peers can be
  read, it is open with exactly one accept outstanding after every handler, and every connection takes exactly one session number, in
  order, whether or not the pool had a session for it.\<close>

theorem acceptor_keeps_accepting:
  assumes "Tcp_Start True True udp NetworkImpl = (ok, n)" "list_all peer_known es" "net_run P Q disp es (n, f) = Some (n', f')"
  shows "ok \<and> n' = n \<and> tn_open n' \<and> tn_pending n' = 1 \<and> nextSessionId f' = nextSessionId f + of_nat (length (filter is_accepted es))"
proof -
  have n: "ok" "listening n" using assms(1) by (auto simp: Tcp_Start_def NetworkImpl_def StartAccept_def listening_def)
  show ?thesis using net_run_listening [OF assms(3) n(2) assms(2)] n by (simp add: listening_def)
qed

theorem acceptor_keeps_accepting_witness:
  "\<exists>f'. net_run list_queue list_queue True [Accepted 9 True, Accept_error] (snd (Tcp_Start True True False NetworkImpl), factory0)
      = Some (snd (Tcp_Start True True False NetworkImpl), f') \<and> nextSessionId f' = 2"
proof -
  let ?n = "snd (Tcp_Start True True False NetworkImpl)" and ?es = "[Accepted 9 True, Accept_error]"
  have "net_run list_queue list_queue True ?es (?n, factory0) \<noteq> None"
    by (simp add: accept_handler_def Tcp_Start_def NetworkImpl_def StartAccept_def CreateSession_def factory0_def Acquire_def Release_def
        SessionPool_def GatewaySession_Reset_socket_def Session_Reset_def gateway0_def drain.simps list_queue_def Let_def)
  then obtain n' f' where r: "net_run list_queue list_queue True ?es (?n, factory0) = Some (n', f')" by auto
  have t: "Tcp_Start True True False NetworkImpl = (True, ?n)" by (simp add: Tcp_Start_def Let_def)
  from acceptor_keeps_accepting [OF t _ r] r show ?thesis by (simp add: factory0_def)
qed

text \<open>A connection that is gone before its handler runs ends accepting: no accept is outstanding any more.\<close>

lemma lost_peer_ends_accepting:
  assumes "listening n"
  shows "\<exists>n'. net_run P Q disp (Accepted now False # es) (n, f) = Some (n', f) \<and> tn_pending n' = 0 \<and> tn_io n' = tn_io n - 1"
proof -
  have "net_run P Q disp es (n\<lparr>tn_pending := 0, tn_io := tn_io n - 1\<rparr>, f) = Some (n\<lparr>tn_pending := 0, tn_io := tn_io n - 1\<rparr>, f)"
    by (cases es; cases "hd es") simp_all
  then show ?thesis using assms by (simp add: accept_handler_def listening_def Let_def)
qed

end
