(* ===== verification/Message_Pool.thy ===== *)
theory Message_Pool
  imports Concurrent_Queue Session_Base
begin

text \<open>
  The message pool of \<^verbatim>\<open>src/System/Dispatcher/MessagePool.{h,cpp}\<close>: three size levels, a
  thread-local cache in front of a shared queue for each, and reference-counted
  messages.  A block is an address with the number of bytes allocated for it; \<open>hdr\<close> is
  \<^verbatim>\<open>sizeof(PacketMessage)\<close>, which the platform decides.  Metrics counters are left out.

  Shown: blocks handed out are large enough and never handed out twice, caches stay within
  their bound, \<open>_poolSize\<close> counts the shared blocks; and a received packet's block does not
  come back to its own level.
\<close>

section \<open>State\<close>

datatype level = Small | Medium | Large

type_synonym block = "nat \<times> nat"

record 'q mpool =
  shared :: "level \<Rightarrow> 'q"
  t_l1 :: "nat \<Rightarrow> level \<Rightarrow> block list" \<comment> \<open>by thread\<close>
  poolSize :: int
  nextAddr :: nat

record message =
  msg_block :: block
  msg_type :: MessageType
  msg_length :: u16
  msg_refCount :: int
  msg_isPooled :: bool

definition SMALL_BODY_SIZE :: nat where "SMALL_BODY_SIZE = 1024"
definition MEDIUM_BODY_SIZE :: nat where "MEDIUM_BODY_SIZE = 4096"
definition LARGE_BODY_SIZE :: nat where "LARGE_BODY_SIZE = 16384"
definition L1_CACHE_SIZE :: nat where "L1_CACHE_SIZE = 1000"
definition BULK_TRANSFER_COUNT :: nat where "BULK_TRANSFER_COUNT = 500"

fun body_size :: "level \<Rightarrow> nat" where
  "body_size Small = SMALL_BODY_SIZE"
| "body_size Medium = MEDIUM_BODY_SIZE"
| "body_size Large = LARGE_BODY_SIZE"

definition new_block :: "nat \<Rightarrow> 'q mpool \<Rightarrow> block \<times> 'q mpool" where
  "new_block n s = ((nextAddr s, n), s\<lparr>nextAddr := Suc (nextAddr s)\<rparr>)"

definition set_cache :: "nat \<Rightarrow> level \<Rightarrow> block list \<Rightarrow> 'q mpool \<Rightarrow> 'q mpool" where
  "set_cache t lv bs s = s\<lparr>t_l1 := (t_l1 s)(t := (t_l1 s t)(lv := bs))\<rparr>"

section \<open>Blocks\<close>

definition PopBlock :: "('q, block) cqueue \<Rightarrow> nat \<Rightarrow> nat \<Rightarrow> level \<Rightarrow> 'q mpool \<Rightarrow> block \<times> 'q mpool" where
  "PopBlock Q hdr t lv s =
     (let cache = t_l1 s t lv in
      if cache \<noteq> [] then (last cache, set_cache t lv (butlast cache) s)
      else case try_dequeue_bulk Q BULK_TRANSFER_COUNT (shared s lv) of (items, q) \<Rightarrow>
        if items \<noteq> [] then
          (hd items, set_cache t lv (cache @ tl items)
             (s\<lparr>shared := (shared s)(lv := q), poolSize := poolSize s - int (length items)\<rparr>))
        else new_block (hdr + body_size lv) (s\<lparr>shared := (shared s)(lv := q)\<rparr>))"

definition PushBlock :: "('q, block) cqueue \<Rightarrow> nat \<Rightarrow> block \<Rightarrow> level \<Rightarrow> 'q mpool \<Rightarrow> 'q mpool" where
  "PushBlock Q t b lv s =
     (let cache = t_l1 s t lv in
      if length cache < L1_CACHE_SIZE then set_cache t lv (cache @ [b]) s
      else let keep = length cache - BULK_TRANSFER_COUNT
           in set_cache t lv (take keep cache @ [b])
                (s\<lparr>shared := (shared s)(lv := enqueue_bulk Q (rev (drop keep cache)) (shared s lv)),
                   poolSize := poolSize s + int BULK_TRANSFER_COUNT\<rparr>))"

section \<open>Messages\<close>

definition AllocatePacket ::
  "('q, block) cqueue \<Rightarrow> nat \<Rightarrow> nat \<Rightarrow> u16 \<Rightarrow> 'q mpool \<Rightarrow> message \<times> 'q mpool" where
  "AllocatePacket Q hdr t bodySize s =
     (let n = unat bodySize in
      if LARGE_BODY_SIZE < n then
        (let (b, s') = new_block (hdr + n) s
         in (\<lparr>msg_block = b, msg_type = PACKET, msg_length = bodySize, msg_refCount = 1, msg_isPooled = False\<rparr>, s'))
      else
        (let lv = (if n \<le> SMALL_BODY_SIZE then Small else if n \<le> MEDIUM_BODY_SIZE then Medium else Large);
             (b, s') = PopBlock Q hdr t lv s
         in (\<lparr>msg_block = b, msg_type = PACKET, msg_length = bodySize, msg_refCount = 1, msg_isPooled = True\<rparr>, s')))"

text \<open>\<open>AllocateEvent\<close> and the four timer allocations take a small block and differ in the
  type only; these messages have no length.\<close>

definition AllocateSmall ::
  "('q, block) cqueue \<Rightarrow> nat \<Rightarrow> nat \<Rightarrow> MessageType \<Rightarrow> 'q mpool \<Rightarrow> message \<times> 'q mpool" where
  "AllocateSmall Q hdr t ty s =
     (let (b, s') = PopBlock Q hdr t Small s
      in (\<lparr>msg_block = b, msg_type = ty, msg_length = 0, msg_refCount = 1, msg_isPooled = True\<rparr>, s'))"

definition AddRef :: "message \<Rightarrow> message" where
  "AddRef m = m\<lparr>msg_refCount := msg_refCount m + 1\<rparr>"

text \<open>\<open>Free\<close> drops one reference; the result says whether the message is gone.\<close>

definition Free :: "('q, block) cqueue \<Rightarrow> nat \<Rightarrow> message \<Rightarrow> 'q mpool \<Rightarrow> (message option) \<times> 'q mpool" where
  "Free Q t m s =
     (if msg_refCount m \<noteq> 1 then (Some (m\<lparr>msg_refCount := msg_refCount m - 1\<rparr>), s)
      else if \<not> msg_isPooled m then (None, s)
      else let lv = (if msg_type m = PACKET
                     then (if unat (msg_length m) \<le> SMALL_BODY_SIZE then Small
                           else if unat (msg_length m) \<le> MEDIUM_BODY_SIZE then Medium else Large)
                     else Small)
           in (None, PushBlock Q t (msg_block m) lv s))"

definition FreeRaw :: "('q, block) cqueue \<Rightarrow> nat \<Rightarrow> block \<Rightarrow> 'q mpool \<Rightarrow> 'q mpool" where
  "FreeRaw Q t b s = PushBlock Q t b Medium s"

section \<open>Management\<close>

text \<open>The loop of \<open>prepareLevel\<close>: \<open>cur\<close> are the blocks collected since the last transfer.\<close>

primrec prepare_loop ::
  "('q, block) cqueue \<Rightarrow> level \<Rightarrow> nat \<Rightarrow> nat \<Rightarrow> block list \<Rightarrow> 'q mpool \<Rightarrow> 'q mpool" where
  "prepare_loop Q lv blockSize 0 cur s =
     (if cur \<noteq> [] then s\<lparr>shared := (shared s)(lv := enqueue_bulk Q cur (shared s lv)),
                        poolSize := poolSize s + int (length cur)\<rparr> else s)"
| "prepare_loop Q lv blockSize (Suc k) cur s =
     (let (b, s1) = new_block blockSize s; cur' = cur @ [b]
      in if length cur' = BULK_TRANSFER_COUNT
         then prepare_loop Q lv blockSize k []
                (s1\<lparr>shared := (shared s1)(lv := enqueue_bulk Q cur' (shared s1 lv)),
                    poolSize := poolSize s1 + int (length cur')\<rparr>)
         else prepare_loop Q lv blockSize k cur' s1)"

definition Prepare :: "('q, block) cqueue \<Rightarrow> nat \<Rightarrow> nat \<Rightarrow> nat \<Rightarrow> nat \<Rightarrow> 'q mpool \<Rightarrow> 'q mpool" where
  "Prepare Q hdr smallCount mediumCount largeCount s =
     prepare_loop Q Large (hdr + LARGE_BODY_SIZE) largeCount []
       (prepare_loop Q Medium (hdr + MEDIUM_BODY_SIZE) mediumCount []
         (prepare_loop Q Small (hdr + SMALL_BODY_SIZE) smallCount [] s))"

definition clear_level :: "('q, block) cqueue \<Rightarrow> level \<Rightarrow> 'q mpool \<Rightarrow> 'q mpool option" where
  "clear_level Q lv s = map_option (\<lambda>(_, q). s\<lparr>shared := (shared s)(lv := q)\<rparr>) (drain Q [] (shared s lv))"

definition Clear :: "('q, block) cqueue \<Rightarrow> 'q mpool \<Rightarrow> 'q mpool option" where
  "Clear Q s = Option.bind (clear_level Q Small s)
     (\<lambda>s. Option.bind (clear_level Q Medium s) (clear_level Q Large))"

section \<open>Invariant\<close>

datatype place = Shared level | Cached nat level

fun blocks_at :: "('q \<Rightarrow> block multiset) \<Rightarrow> 'q mpool \<Rightarrow> place \<Rightarrow> block multiset" where
  "blocks_at cont s (Shared lv) = cont (shared s lv)"
| "blocks_at cont s (Cached t lv) = mset (t_l1 s t lv)"

fun place_level :: "place \<Rightarrow> level" where
  "place_level (Shared lv) = lv"
| "place_level (Cached t lv) = lv"

definition addrs_at :: "('q \<Rightarrow> block multiset) \<Rightarrow> 'q mpool \<Rightarrow> place \<Rightarrow> nat multiset" where
  "addrs_at cont s p = image_mset fst (blocks_at cont s p)"

text \<open>\<open>live\<close> are the addresses in use: a free block is at one place only, is not in use
  and is large enough for its level.\<close>

definition pool_ok :: "('q \<Rightarrow> block multiset) \<Rightarrow> nat \<Rightarrow> nat set \<Rightarrow> 'q mpool \<Rightarrow> bool" where
  "pool_ok cont hdr live s \<longleftrightarrow>
     (\<forall>p. \<forall>b \<in># blocks_at cont s p. hdr + body_size (place_level p) \<le> snd b) \<and>
     (\<forall>p a. count (addrs_at cont s p) a \<le> 1) \<and>
     (\<forall>p p' a. a \<in># addrs_at cont s p \<longrightarrow> a \<in># addrs_at cont s p' \<longrightarrow> p = p') \<and>
     (\<forall>p a. a \<in># addrs_at cont s p \<longrightarrow> a \<notin> live \<and> a < nextAddr s) \<and>
     (\<forall>a \<in> live. a < nextAddr s) \<and>
     (\<forall>t lv. length (t_l1 s t lv) \<le> L1_CACHE_SIZE) \<and>
     poolSize s = int (size (cont (shared s Small)) + size (cont (shared s Medium)) + size (cont (shared s Large)))"

section \<open>Preservation\<close>

lemma notin_count: "x \<notin># M \<Longrightarrow> count M x = 0"
  by (simp add: not_in_iff)

lemma pool_okD:
  assumes "pool_ok cont hdr live s"
  shows "b \<in># blocks_at cont s p \<Longrightarrow> hdr + body_size (place_level p) \<le> snd b"
    "count (addrs_at cont s p) a \<le> 1"
    "a \<in># addrs_at cont s p \<Longrightarrow> a \<in># addrs_at cont s p' \<Longrightarrow> p = p'"
    "a \<in># addrs_at cont s p \<Longrightarrow> a \<notin> live" "a \<in># addrs_at cont s p \<Longrightarrow> a < nextAddr s"
    "a \<in> live \<Longrightarrow> a < nextAddr s" "length (t_l1 s t lv) \<le> L1_CACHE_SIZE"
    "poolSize s = int (size (cont (shared s Small)) + size (cont (shared s Medium)) + size (cont (shared s Large)))"
  using assms unfolding pool_ok_def by blast+

text \<open>The free blocks of one level that a thread can reach.\<close>

definition reach_blocks :: "('q \<Rightarrow> block multiset) \<Rightarrow> nat \<Rightarrow> level \<Rightarrow> 'q mpool \<Rightarrow> block multiset" where
  "reach_blocks cont t lv s = blocks_at cont s (Shared lv) + blocks_at cont s (Cached t lv)"

lemma reach_count:
  assumes "pool_ok cont hdr live s"
  shows "count (image_mset fst (reach_blocks cont t lv s)) a \<le> 1"
proof -
  let ?p = "Shared lv" and ?q = "Cached t lv"
  have "a \<notin># addrs_at cont s ?p \<or> a \<notin># addrs_at cont s ?q"
    using pool_okD(3) [OF assms, of a ?p ?q] by blast
  then have "count (addrs_at cont s ?p) a = 0 \<or> count (addrs_at cont s ?q) a = 0"
    using notin_count by metis
  then show ?thesis
    using pool_okD(2) [OF assms, of ?p a] pool_okD(2) [OF assms, of ?q a]
    by (auto simp: reach_blocks_def addrs_at_def)
qed

lemma reach_other:
  assumes "pool_ok cont hdr live s" "a \<in># image_mset fst (reach_blocks cont t lv s)"
    and "p \<noteq> Shared lv" "p \<noteq> Cached t lv"
  shows "a \<notin># addrs_at cont s p"
proof -
  have "a \<in># addrs_at cont s (Shared lv) \<or> a \<in># addrs_at cont s (Cached t lv)"
    using assms(2) by (auto simp: reach_blocks_def addrs_at_def)
  then show ?thesis using pool_okD(3) [OF assms(1)] assms(3,4) by metis
qed

text \<open>A step of one thread at one level that takes the blocks \<open>out\<close> away and puts \<open>inn\<close> back.\<close>

definition moves :: "('q \<Rightarrow> block multiset) \<Rightarrow> nat \<Rightarrow> level \<Rightarrow> block multiset \<Rightarrow> block multiset \<Rightarrow> 'q mpool \<Rightarrow> 'q mpool \<Rightarrow> bool" where
  "moves cont t lv out inn s s' \<longleftrightarrow>
     (\<forall>p. p \<noteq> Shared lv \<longrightarrow> p \<noteq> Cached t lv \<longrightarrow> blocks_at cont s' p = blocks_at cont s p) \<and>
     reach_blocks cont t lv s' + out = reach_blocks cont t lv s + inn \<and>
     poolSize s' - poolSize s = int (size (cont (shared s' lv))) - int (size (cont (shared s lv))) \<and>
     length (t_l1 s' t lv) \<le> L1_CACHE_SIZE \<and> nextAddr s \<le> nextAddr s'"

lemma moves_poolSize:
  assumes "pool_ok cont hdr live s" "moves cont t lv out inn s s'"
  shows "poolSize s' = int (size (cont (shared s' Small)) + size (cont (shared s' Medium)) + size (cont (shared s' Large)))"
proof -
  have "cont (shared s' k) = cont (shared s k)" if "k \<noteq> lv" for k
    using assms(2) that unfolding moves_def by (metis blocks_at.simps(1) place.distinct(1) place.inject(1))
  then show ?thesis
    using pool_okD(8) [OF assms(1)] assms(2) by (cases lv) (auto simp: moves_def)
qed

lemma live_not_reached:
  "pool_ok cont hdr live s \<Longrightarrow> a \<in> live \<Longrightarrow> a \<notin># image_mset fst (reach_blocks cont t lv s)"
  using pool_okD(4) [of cont hdr live s a "Shared lv"] pool_okD(4) [of cont hdr live s a "Cached t lv"]
  by (auto simp: reach_blocks_def addrs_at_def)

lemma moves_count:
  assumes ok: "pool_ok cont hdr live s" and mv: "moves cont t lv out inn s s'"
    and inn: "size inn \<le> 1" "fst ` set_mset inn \<subseteq> live"
  shows "count (image_mset fst (reach_blocks cont t lv s')) a + count (image_mset fst out) a \<le> 1"
proof -
  have "count (image_mset fst (reach_blocks cont t lv s + inn)) a \<le> 1"
  proof (cases "a \<in> fst ` set_mset inn")
    case True
    then have "a \<notin># image_mset fst (reach_blocks cont t lv s)" using live_not_reached [OF ok] inn(2) by blast
    then have "count (image_mset fst (reach_blocks cont t lv s)) a = 0" by (rule notin_count)
    moreover have "count (image_mset fst inn) a \<le> 1"
      using inn(1) count_le_size [of "image_mset fst inn" a] by simp
    ultimately show ?thesis by simp
  next
    case False
    then have "a \<notin># image_mset fst inn" by simp
    then have "count (image_mset fst inn) a = 0" by (rule notin_count)
    then show ?thesis using reach_count [OF ok, of t lv a] by simp
  qed
  moreover have "reach_blocks cont t lv s' + out = reach_blocks cont t lv s + inn" using mv by (simp add: moves_def)
  ultimately show ?thesis by (metis count_union image_mset_union)
qed

text \<open>The blocks the step can reach afterwards, and what it knows of their addresses.\<close>

lemma moves_source:
  assumes "moves cont t lv out inn s s'" "b \<in># reach_blocks cont t lv s' + out"
  shows "b \<in># reach_blocks cont t lv s \<or> b \<in># inn"
  using assms by (metis moves_def union_iff)

lemma reach_near:
  assumes "p = Shared lv \<or> p = Cached t lv"
  shows "blocks_at cont s p \<subseteq># reach_blocks cont t lv s" "addrs_at cont s p \<subseteq># image_mset fst (reach_blocks cont t lv s)"
  using assms by (auto simp: addrs_at_def reach_blocks_def)

lemma reach_known:
  assumes "pool_ok cont hdr live s" "a \<in># image_mset fst (reach_blocks cont t lv s)"
  shows "a < nextAddr s" "a \<notin> live"
proof -
  have "a \<in># addrs_at cont s (Shared lv) \<or> a \<in># addrs_at cont s (Cached t lv)"
    using assms(2) by (auto simp: reach_blocks_def addrs_at_def)
  then show "a < nextAddr s" "a \<notin> live" using pool_okD(4,5) [OF assms(1)] by blast+
qed

lemma moves_new:
  assumes ok: "pool_ok cont hdr live s" and mv: "moves cont t lv out inn s s'"
    and inn: "size inn \<le> 1" "fst ` set_mset inn \<subseteq> live"
    and live': "live' \<subseteq> (live - fst ` set_mset inn) \<union> fst ` set_mset out \<union> {nextAddr s..<nextAddr s'}"
    and a: "a \<in># image_mset fst (reach_blocks cont t lv s')"
  shows "a < nextAddr s \<and> a \<notin> live' \<and> (\<forall>p. p \<noteq> Shared lv \<longrightarrow> p \<noteq> Cached t lv \<longrightarrow> a \<notin># addrs_at cont s p)"
proof -
  have "0 < count (image_mset fst (reach_blocks cont t lv s')) a" using a by (simp only: count_greater_zero_iff)
  then have "count (image_mset fst out) a = 0" using moves_count [OF ok mv inn, of a] by linarith
  then have o: "a \<notin># image_mset fst out" by (simp only: not_in_iff)
  consider "a \<in># image_mset fst (reach_blocks cont t lv s)" | "a \<in> fst ` set_mset inn"
    using a moves_source [OF mv] by force
  then show ?thesis
  proof cases
    case 1
    then show ?thesis using o live' reach_other [OF ok 1] reach_known [OF ok 1] by auto
  next
    case 2
    then have "a \<in> live" using inn(2) by blast
    then have "a < nextAddr s" "\<forall>p. a \<notin># addrs_at cont s p" using pool_okD(4,6) [OF ok] by blast+
    then show ?thesis using 2 o live' by auto
  qed
qed

lemma moves_out:
  assumes ok: "pool_ok cont hdr live s" and mv: "moves cont t lv out inn s s'"
    and inn: "fst ` set_mset inn \<subseteq> live" and a: "a \<in> fst ` set_mset out"
  shows "a < nextAddr s \<and> (\<forall>p. p \<noteq> Shared lv \<longrightarrow> p \<noteq> Cached t lv \<longrightarrow> a \<notin># addrs_at cont s p)"
proof -
  obtain b where "b \<in># out" "a = fst b" using a by auto
  then have "b \<in># reach_blocks cont t lv s \<or> b \<in># inn" using moves_source [OF mv, of b] by simp
  then consider "a \<in># image_mset fst (reach_blocks cont t lv s)" | "a \<in> live"
    using inn \<open>a = fst b\<close> by auto
  then show ?thesis
  proof cases
    case 1
    then show ?thesis using reach_other [OF ok 1] reach_known [OF ok 1] by blast
  next
    case 2
    then show ?thesis using pool_okD(4,6) [OF ok] by blast
  qed
qed

lemma moves_ok:
  assumes ok: "pool_ok cont hdr live s" and mv: "moves cont t lv out inn s s'"
    and inn: "size inn \<le> 1" "\<And>b. b \<in># inn \<Longrightarrow> hdr + body_size lv \<le> snd b \<and> fst b \<in> live"
    and live': "live' \<subseteq> (live - fst ` set_mset inn) \<union> fst ` set_mset out \<union> {nextAddr s..<nextAddr s'}"
  shows "pool_ok cont hdr live' s'"
proof -
  let ?near = "\<lambda>p. p = Shared lv \<or> p = Cached t lv" and ?r = "image_mset fst (reach_blocks cont t lv s')"
  have live: "fst ` set_mset inn \<subseteq> live" using inn(2) by auto
  note new = moves_new [OF ok mv inn(1) live live']
  have far: "blocks_at cont s' p = blocks_at cont s p" "addrs_at cont s' p = addrs_at cont s p" if "\<not> ?near p" for p
    using mv that by (auto simp: moves_def addrs_at_def)
  have near: "a \<in># ?r" if "?near p" "a \<in># addrs_at cont s' p" for a p
    using mset_subset_eqD [OF reach_near(2) [OF that(1)] that(2)] .
  have one: "count ?r a \<le> 1" for a using moves_count [OF ok mv inn(1) live, of a] by linarith
  have up: "nextAddr s \<le> nextAddr s'" using mv by (simp add: moves_def)
  have "hdr + body_size (place_level p) \<le> snd b" if "b \<in># blocks_at cont s' p" for p b
  proof (cases "?near p")
    case True
    then have "b \<in># reach_blocks cont t lv s \<or> b \<in># inn"
      using mset_subset_eqD [OF reach_near(1) that] moves_source [OF mv, of b] by simp
    moreover have "place_level p = lv" using True by auto
    ultimately show ?thesis
      using inn(2) [of b] pool_okD(1) [OF ok, of b "Shared lv"] pool_okD(1) [OF ok, of b "Cached t lv"]
      by (auto simp: reach_blocks_def)
  qed (use pool_okD(1) [OF ok] that far in auto)
  moreover have "count (addrs_at cont s' p) a \<le> 1" for p a
  proof (cases "?near p")
    case True
    then show ?thesis using mset_subset_eq_count [OF reach_near(2)] one order_trans by blast
  qed (use pool_okD(2) [OF ok] far in auto)
  moreover have "p = q" if "a \<in># addrs_at cont s' p" "a \<in># addrs_at cont s' q" for p q a
  proof (cases "?near p \<and> ?near q")
    case True
    have "count ?r a = count (addrs_at cont s' (Shared lv)) a + count (addrs_at cont s' (Cached t lv)) a"
      by (simp add: reach_blocks_def addrs_at_def)
    then have "a \<notin># addrs_at cont s' (Shared lv) \<or> a \<notin># addrs_at cont s' (Cached t lv)"
      using one [of a] by (metis One_nat_def add_le_mono count_greater_eq_one_iff not_less_eq_eq numeral_2_eq_2 one_add_one)
    then show ?thesis using True that by blast
  next
    case False
    then show ?thesis using that near far(2) new pool_okD(3) [OF ok] by metis
  qed
  moreover have "a \<notin> live' \<and> a < nextAddr s'" if "a \<in># addrs_at cont s' p" for p a
  proof (cases "?near p")
    case True
    then show ?thesis using new near that up by fastforce
  next
    case False
    then have "a \<in># addrs_at cont s p" using far that by simp
    then show ?thesis using pool_okD(4,5) [OF ok] moves_out [OF ok mv live, of a] live' False up by fastforce
  qed
  moreover have "a < nextAddr s'" if "a \<in> live'" for a
    using that live' up pool_okD(6) [OF ok] moves_out [OF ok mv live, of a] by fastforce
  moreover have "length (t_l1 s' u k) \<le> L1_CACHE_SIZE" for u k
  proof (cases "?near (Cached u k)")
    case False
    then have "mset (t_l1 s' u k) = mset (t_l1 s u k)" using far(1) [of "Cached u k"] by simp
    then have "length (t_l1 s' u k) = length (t_l1 s u k)" by (rule mset_eq_length)
    then show ?thesis using pool_okD(7) [OF ok, of u k] by simp
  qed (use mv in \<open>auto simp: moves_def\<close>)
  ultimately show ?thesis using moves_poolSize [OF ok mv] unfolding pool_ok_def by blast
qed

lemma cache_others:
  "p \<noteq> Cached t lv \<Longrightarrow> blocks_at cont (set_cache t lv bs s) p = blocks_at cont s p"
  by (cases p) (auto simp: set_cache_def)

lemma cache_fields [simp]:
  "shared (set_cache t lv bs s) = shared s" "poolSize (set_cache t lv bs s) = poolSize s"
  "nextAddr (set_cache t lv bs s) = nextAddr s" "t_l1 (set_cache t lv bs s) t lv = bs"
  by (simp_all add: set_cache_def)

lemma shared_others:
  "p \<noteq> Shared lv \<Longrightarrow> blocks_at cont (s\<lparr>shared := (shared s)(lv := q), poolSize := n\<rparr>) p = blocks_at cont s p"
  by (cases p) auto

lemma PopBlock_moves:
  assumes Q: "cqueue_laws Q cont" and ok: "pool_ok cont hdr live s" and pop: "PopBlock Q hdr t lv s = (b, s')"
  shows "(moves cont t lv {#b#} {#} s s' \<and> hdr + body_size lv \<le> snd b) \<or>
    (moves cont t lv {#} {#} s s' \<and> b = (nextAddr s, hdr + body_size lv) \<and> nextAddr s' = Suc (nextAddr s))"
proof (cases "t_l1 s t lv = []")
  case False
  then have b: "b = last (t_l1 s t lv)" "s' = set_cache t lv (butlast (t_l1 s t lv)) s"
    using pop by (auto simp: PopBlock_def Let_def)
  have "mset (butlast (t_l1 s t lv)) + {#b#} = mset (t_l1 s t lv)"
    using False by (metis append_butlast_last_id b(1) mset.simps(1,2) mset_append)
  then have "moves cont t lv {#b#} {#} s s'"
    using pool_okD(7) [OF ok, of t lv] b(2) by (auto simp: moves_def cache_others reach_blocks_def)
  moreover have "b \<in># blocks_at cont s (Cached t lv)" using b(1) False by simp
  ultimately show ?thesis using pool_okD(1) [OF ok, of b "Cached t lv"] by simp
next
  case True
  obtain items q where d: "try_dequeue_bulk Q BULK_TRANSFER_COUNT (shared s lv) = (items, q)" by fastforce
  note bulk = cqueue_bulk [OF Q d]
  show ?thesis
  proof (cases "items = []")
    case False
    then have b: "b = hd items" "s' = set_cache t lv (tl items)
        (s\<lparr>shared := (shared s)(lv := q), poolSize := poolSize s - int (length items)\<rparr>)"
      using pop True d by (auto simp: PopBlock_def Let_def)
    have it: "mset items = mset (tl items) + {#b#}" using False b(1) by (cases items) auto
    have bal: "add_mset b (cont q + mset (tl items)) = cont (shared s lv)" using bulk(1) it by simp
    have sz: "size (cont (shared s lv)) = length items + size (cont q)" using bulk(1) by simp
    have "length (tl items) \<le> L1_CACHE_SIZE" using bulk(2) by (simp add: BULK_TRANSFER_COUNT_def L1_CACHE_SIZE_def)
    then have "moves cont t lv {#b#} {#} s s'"
      using True bal sz unfolding b(2) by (simp add: moves_def cache_others shared_others reach_blocks_def)
    moreover have "b \<in># blocks_at cont s (Shared lv)" using bulk(1) it by simp
    ultimately show ?thesis using pool_okD(1) [OF ok, of b "Shared lv"] by simp
  next
    case empty: True
    then have b: "b = (nextAddr s, hdr + body_size lv)" "s' = s\<lparr>shared := (shared s)(lv := q), nextAddr := Suc (nextAddr s)\<rparr>"
      using pop True d by (auto simp: PopBlock_def Let_def new_block_def)
    have q: "cont q = cont (shared s lv)" using bulk(1) empty by simp
    have "blocks_at cont s' p = blocks_at cont s p" for p using b(2) q by (cases p) auto
    then have "moves cont t lv {#} {#} s s'" using b(2) q True by (auto simp: moves_def reach_blocks_def)
    then show ?thesis using b by simp
  qed
qed

lemma PopBlock_ok:
  assumes "cqueue_laws Q cont" "pool_ok cont hdr live s" "PopBlock Q hdr t lv s = (b, s')"
  shows "pool_ok cont hdr (insert (fst b) live) s' \<and> fst b \<notin> live \<and> hdr + body_size lv \<le> snd b"
  using PopBlock_moves [OF assms]
proof
  assume m: "moves cont t lv {#b#} {#} s s' \<and> hdr + body_size lv \<le> snd b"
  then have "pool_ok cont hdr (insert (fst b) live) s'"
    by (intro moves_ok [OF assms(2), of t lv "{#b#}" "{#}"]) auto
  moreover have "b \<in># reach_blocks cont t lv s" using moves_source [of cont t lv "{#b#}" "{#}" s s' b] m by simp
  then have "fst b \<notin> live" using reach_known(2) [OF assms(2), of "fst b" t lv] by auto
  ultimately show ?thesis using m by simp
next
  assume m: "moves cont t lv {#} {#} s s' \<and> b = (nextAddr s, hdr + body_size lv) \<and> nextAddr s' = Suc (nextAddr s)"
  then have "pool_ok cont hdr (insert (fst b) live) s'"
    by (intro moves_ok [OF assms(2), of t lv "{#}" "{#}"]) auto
  then show ?thesis using m pool_okD(6) [OF assms(2), of "nextAddr s"] by auto
qed

lemma PushBlock_ok:
  assumes Q: "cqueue_laws Q cont" and ok: "pool_ok cont hdr live s"
    and b: "fst b \<in> live" "hdr + body_size lv \<le> snd b"
  shows "pool_ok cont hdr (live - {fst b}) (PushBlock Q t b lv s)"
proof -
  let ?c = "t_l1 s t lv" and ?s = "PushBlock Q t b lv s"
  have len: "length ?c \<le> L1_CACHE_SIZE" by (rule pool_okD(7) [OF ok])
  have "moves cont t lv {#} {#b#} s ?s"
  proof (cases "length ?c < L1_CACHE_SIZE")
    case True
    then show ?thesis
      by (auto simp: PushBlock_def Let_def moves_def cache_others reach_blocks_def ac_simps)
  next
    case False
    let ?k = "length ?c - BULK_TRANSFER_COUNT"
    have m: "mset ?c = mset (take ?k ?c) + mset (drop ?k ?c)" by (metis append_take_drop_id mset_append)
    have k: "length ?c - ?k = BULK_TRANSFER_COUNT" "?k < L1_CACHE_SIZE"
      using False len by (auto simp: BULK_TRANSFER_COUNT_def L1_CACHE_SIZE_def)
    have "?s = set_cache t lv (take ?k ?c @ [b])
        (s\<lparr>shared := (shared s)(lv := enqueue_bulk Q (rev (drop ?k ?c)) (shared s lv)),
           poolSize := poolSize s + int BULK_TRANSFER_COUNT\<rparr>)"
      using False by (simp add: PushBlock_def Let_def)
    then show ?thesis
      using m k by (auto simp: moves_def cache_others shared_others reach_blocks_def cqueue_enqueue_bulk [OF Q] ac_simps)
  qed
  then show ?thesis using b by (intro moves_ok [OF ok, of t lv "{#}" "{#b#}"]) auto
qed

section \<open>Messages\<close>

definition level_for_size :: "nat \<Rightarrow> level" where
  "level_for_size n = (if n \<le> SMALL_BODY_SIZE then Small else if n \<le> MEDIUM_BODY_SIZE then Medium else Large)"

lemma body_size_level: "n \<le> LARGE_BODY_SIZE \<Longrightarrow> n \<le> body_size (level_for_size n)"
  by (simp add: level_for_size_def)

lemma body_size_Small: "body_size Small \<le> body_size lv"
  by (cases lv) (simp_all add: SMALL_BODY_SIZE_def MEDIUM_BODY_SIZE_def LARGE_BODY_SIZE_def)

text \<open>What holds of a message from its allocation on: its block has room for its payload, and a
  pooled block is large enough for the level it will be returned to.\<close>

definition msg_ok :: "nat \<Rightarrow> message \<Rightarrow> bool" where
  "msg_ok hdr m \<longleftrightarrow> hdr + unat (msg_length m) \<le> snd (msg_block m) \<and>
     (msg_isPooled m \<longrightarrow> hdr + body_size (level_for_size (unat (msg_length m))) \<le> snd (msg_block m))"

definition msg_addr :: "message \<Rightarrow> nat" where "msg_addr m = fst (msg_block m)"

lemma new_block_ok:
  assumes "pool_ok cont hdr live s" "new_block n s = (b, s')"
  shows "pool_ok cont hdr (insert (fst b) live) s' \<and> fst b \<notin> live \<and> snd b = n"
proof -
  have s': "s' = s\<lparr>nextAddr := Suc (nextAddr s)\<rparr>" "b = (nextAddr s, n)" using assms(2) by (auto simp: new_block_def)
  have same: "blocks_at cont s' p = blocks_at cont s p" for p by (cases p) (simp_all add: s')
  have "moves cont 0 Small {#} {#} s s'"
    using pool_okD(7) [OF assms(1)] by (simp add: moves_def same reach_blocks_def) (simp add: s')
  then have "pool_ok cont hdr (insert (fst b) live) s'"
    by (intro moves_ok [OF assms(1), of 0 Small "{#}" "{#}"]) (auto simp: s')
  then show ?thesis using pool_okD(6) [OF assms(1), of "nextAddr s"] s'(2) by auto
qed

lemma AllocatePacket_ok:
  assumes "cqueue_laws Q cont" "pool_ok cont hdr live s" "AllocatePacket Q hdr t n s = (m, s')"
  shows "pool_ok cont hdr (insert (msg_addr m) live) s' \<and> msg_addr m \<notin> live \<and> msg_ok hdr m \<and>
    msg_length m = n \<and> msg_refCount m = 1"
proof (cases "LARGE_BODY_SIZE < unat n")
  case True
  then obtain b where "new_block (hdr + unat n) s = (b, s')" "msg_block m = b" "msg_length m = n" "\<not> msg_isPooled m"
      "msg_refCount m = 1"
    using assms(3) by (auto simp: AllocatePacket_def Let_def split: prod.splits)
  then show ?thesis using new_block_ok [OF assms(2)] by (auto simp: msg_addr_def msg_ok_def)
next
  case False
  then obtain b where "PopBlock Q hdr t (level_for_size (unat n)) s = (b, s')" "msg_block m = b" "msg_length m = n"
      "msg_refCount m = 1"
    using assms(3) by (auto simp: AllocatePacket_def level_for_size_def Let_def split: prod.splits if_splits)
  then show ?thesis
    using PopBlock_ok [OF assms(1,2)] body_size_level [of "unat n"] False by (fastforce simp: msg_addr_def msg_ok_def)
qed

lemma Free_ok:
  assumes "cqueue_laws Q cont" "pool_ok cont hdr live s" "msg_ok hdr m" "msg_addr m \<in> live" "Free Q t m s = (r, s')"
  shows "pool_ok cont hdr (if r = None then live - {msg_addr m} else live) s' \<and>
    (r = None \<longleftrightarrow> msg_refCount m = 1) \<and> (\<forall>m'. r = Some m' \<longrightarrow> msg_ok hdr m' \<and> msg_addr m' = msg_addr m)"
proof (cases "msg_refCount m = 1 \<and> msg_isPooled m")
  case True
  define lv where "lv = (if msg_type m = PACKET then level_for_size (unat (msg_length m)) else Small)"
  have f: "r = None" "s' = PushBlock Q t (msg_block m) lv s"
    using assms(5) True by (auto simp: Free_def lv_def level_for_size_def Let_def)
  have "hdr + body_size lv \<le> snd (msg_block m)"
    using assms(3) True body_size_Small [of "level_for_size (unat (msg_length m))"] by (auto simp: lv_def msg_ok_def)
  then show ?thesis using PushBlock_ok [OF assms(1,2)] assms(4) f True by (simp add: msg_addr_def)
next
  case False
  have sub: "pool_ok cont hdr (live - {msg_addr m}) s" using assms(2) by (auto simp: pool_ok_def)
  show ?thesis using False assms(2-5) sub by (auto simp: Free_def msg_ok_def msg_addr_def split: if_splits)
qed

section \<open>Properties\<close>

text \<open>C15. Every packet allocation, at any fill of the caches and the shared queues, gives a block that
  nobody else uses and that has room for the header and the requested body, and keeps the pool
  consistent.\<close>

theorem allocate_packet_safe:
  assumes "cqueue_laws Q cont" "pool_ok cont hdr live s" "AllocatePacket Q hdr t n s = (m, s')"
  shows "msg_addr m \<notin> live \<and> hdr + unat n \<le> snd (msg_block m) \<and>
    pool_ok cont hdr (insert (msg_addr m) live) s'"
  using AllocatePacket_ok [OF assms] by (auto simp: msg_ok_def)

definition empty_pool :: "block list mpool" where
  "empty_pool = \<lparr>shared = (\<lambda>_. []), t_l1 = (\<lambda>_ _. []), poolSize = 0, nextAddr = 0\<rparr>"

lemma empty_pool_at: "blocks_at mset empty_pool p = {#}"
  by (cases p) (simp_all add: empty_pool_def)

lemma empty_pool_ok: "pool_ok mset hdr {} empty_pool"
  by (simp add: pool_ok_def addrs_at_def empty_pool_at) (simp add: empty_pool_def)

theorem allocate_packet_safe_witness:
  "40 + unat (2000 :: u16) \<le> snd (msg_block (fst (AllocatePacket list_queue 40 0 2000 empty_pool)))"
  using allocate_packet_safe [OF list_queue_laws empty_pool_ok, of 40 0 2000
      "fst (AllocatePacket list_queue 40 0 2000 empty_pool)" "snd (AllocatePacket list_queue 40 0 2000 empty_pool)"]
  by simp

text \<open>Dropping a reference frees a message exactly when it was the last one, and returning its
  block keeps the pool consistent: the block is free once and large enough for its new
  place, whatever type the message has been given since its allocation.\<close>

theorem free_safe:
  assumes "cqueue_laws Q cont" "pool_ok cont hdr live s" "msg_ok hdr m" "msg_addr m \<in> live" "Free Q t m s = (r, s')"
  shows "(r = None \<longleftrightarrow> msg_refCount m = 1) \<and>
    pool_ok cont hdr (if r = None then live - {msg_addr m} else live) s'"
  using Free_ok [OF assms] by blast

theorem free_safe_witness:
  "\<exists>m s s'. AllocatePacket list_queue 40 0 2000 empty_pool = (m, s) \<and>
     Free list_queue 0 (m\<lparr>msg_type := NETWORK_DATA\<rparr>) s = (None, s') \<and> pool_ok mset 40 {} s'"
proof -
  obtain m s where a: "AllocatePacket list_queue 40 0 2000 empty_pool = (m, s)" by fastforce
  note ok = AllocatePacket_ok [OF list_queue_laws empty_pool_ok a]
  obtain r s' where f: "Free list_queue 0 (m\<lparr>msg_type := NETWORK_DATA\<rparr>) s = (r, s')" by fastforce
  have "msg_ok 40 (m\<lparr>msg_type := NETWORK_DATA\<rparr>)" "msg_addr (m\<lparr>msg_type := NETWORK_DATA\<rparr>) = msg_addr m"
    using ok by (auto simp: msg_ok_def msg_addr_def)
  then have "r = None \<and> pool_ok mset 40 {} s'"
    using free_safe [OF list_queue_laws _ _ _ f, of 40 "{msg_addr m}"] ok by auto
  then show ?thesis using a f by blast
qed

text \<open>Receiving and freeing packets one after the other.\<close>

primrec receive_cycle :: "('q, block) cqueue \<Rightarrow> nat \<Rightarrow> nat \<Rightarrow> u16 \<Rightarrow> nat \<Rightarrow> 'q mpool \<Rightarrow> 'q mpool" where
  "receive_cycle Q hdr t n 0 s = s"
| "receive_cycle Q hdr t n (Suc k) s =
     (let (m, s1) = AllocatePacket Q hdr t n s
      in receive_cycle Q hdr t n k (snd (Free Q t (m\<lparr>msg_type := NETWORK_DATA\<rparr>) s1)))"

lemma receive_cycle_step:
  assumes Q: "cqueue_laws Q cont" and n: "SMALL_BODY_SIZE < unat n" "unat n \<le> MEDIUM_BODY_SIZE"
    and s: "t_l1 s t Medium = []" "cont (shared s Medium) = {#}"
  shows "\<exists>s'. receive_cycle Q hdr t n (Suc k) s = receive_cycle Q hdr t n k s' \<and> nextAddr s' = Suc (nextAddr s) \<and>
    t_l1 s' t Medium = [] \<and> cont (shared s' Medium) = {#}"
proof -
  obtain items q where d: "try_dequeue_bulk Q BULK_TRANSFER_COUNT (shared s Medium) = (items, q)" by fastforce
  have i: "items = []" "cont q = {#}" using cqueue_bulk [OF Q d] s(2) by auto
  define s1 where "s1 = s\<lparr>shared := (shared s)(Medium := q), nextAddr := Suc (nextAddr s)\<rparr>"
  define m where "m = \<lparr>msg_block = (nextAddr s, hdr + MEDIUM_BODY_SIZE), msg_type = PACKET, msg_length = n,
    msg_refCount = 1, msg_isPooled = True\<rparr>"
  have "AllocatePacket Q hdr t n s = (m, s1)"
    using n s(1) d i(1)
    by (simp add: AllocatePacket_def PopBlock_def new_block_def m_def s1_def LARGE_BODY_SIZE_def MEDIUM_BODY_SIZE_def Let_def)
  moreover have "snd (Free Q t (m\<lparr>msg_type := NETWORK_DATA\<rparr>) s1) = PushBlock Q t (msg_block m) Small s1"
    by (simp add: Free_def m_def Let_def)
  moreover have "t_l1 (PushBlock Q t b Small s1) t Medium = []" "cont (shared (PushBlock Q t b Small s1) Medium) = {#}"
    "nextAddr (PushBlock Q t b Small s1) = Suc (nextAddr s)" for b
    using s(1) i(2) by (simp_all add: PushBlock_def set_cache_def s1_def Let_def)
  ultimately show ?thesis by (intro exI [of _ "PushBlock Q t (msg_block m) Small s1"]) simp
qed

text \<open>The block of a received packet does not come back to its level: the sessions set the type of a
  received packet to \<open>NETWORK_DATA\<close>, and \<open>Free\<close> returns it to the small level.  Receiving
  and freeing \<open>k\<close> packets of more than 1 KiB one after the other therefore takes \<open>k\<close> new blocks from
  the heap, although only one packet is in use at a time.\<close>

theorem received_blocks_not_reused:
  assumes "cqueue_laws Q cont" "SMALL_BODY_SIZE < unat n" "unat n \<le> MEDIUM_BODY_SIZE"
    and "t_l1 s t Medium = []" "cont (shared s Medium) = {#}"
  shows "nextAddr (receive_cycle Q hdr t n k s) = nextAddr s + k"
  using assms(4,5)
proof (induction k arbitrary: s)
  case (Suc k)
  obtain s' where "receive_cycle Q hdr t n (Suc k) s = receive_cycle Q hdr t n k s'" "nextAddr s' = Suc (nextAddr s)"
      "t_l1 s' t Medium = []" "cont (shared s' Medium) = {#}"
    using receive_cycle_step [OF assms(1-3) Suc.prems] by blast
  then show ?case using Suc.IH [of s'] by simp
qed simp

theorem received_blocks_not_reused_witness:
  "nextAddr (receive_cycle list_queue 40 0 2000 5000 empty_pool) = 5000"
  using received_blocks_not_reused [OF list_queue_laws, of 2000 empty_pool 0 40 5000]
  by (simp add: SMALL_BODY_SIZE_def MEDIUM_BODY_SIZE_def empty_pool_def)

end
