(* ===== verification/Strand_Pool.thy ===== *)
theory Strand_Pool
  imports Prelude
begin

text \<open>
  \<open>System/Thread\<close>: the thread pool (\<open>ThreadPool\<close>) and the strands that run on it (\<open>Strand\<close>), one
  event per access to shared memory.  Strands are numbered, a task is a value of type \<open>'a\<close>.
  A thread that calls \<open>Strand::Post\<close> or \<open>ThreadPool::Enqueue\<close> is a \<^emph>\<open>poster\<close> with a program
  point; a post made by a running task is a poster of its own, which only adds interleavings.
  The pool's queue promises no order between producers, so a dequeue may take any item.

  Shown: the tasks of a strand run one at a time, in the order they were posted; when nothing
  can move any more, every posted task has been run, unless the pool was stopped; and a strand
  whose task threw, or that was scheduled on a pool that had gone, never runs a task again.
  The first of these is what lets \<open>Game_Room\<close> treat the strand of a room as a list of tasks.
\<close>

section \<open>State\<close>

datatype 'a pool_item = RunStrand nat | Plain 'a

text \<open>The program points of a worker of \<open>ThreadPool::Start\<close>.\<close>

datatype 'a worker =
    Acquire          \<comment> \<open>at \<^verbatim>\<open>_taskSemaphore.acquire()\<close>\<close>
  | CheckStop        \<comment> \<open>at \<^verbatim>\<open>if (_stop.load())\<close>\<close>
  | TryDequeue       \<comment> \<open>at \<^verbatim>\<open>_tasks.try_dequeue(task)\<close>\<close>
  | InRun nat        \<comment> \<open>at the head of the loop of \<open>Strand::Run\<close>\<close>
  | InTask nat 'a    \<comment> \<open>in \<^verbatim>\<open>task()\<close> of \<open>Strand::Run\<close>\<close>
  | InPlain 'a       \<comment> \<open>in a task that is not a strand's \<open>Run\<close>\<close>
  | Exited

text \<open>The program points of \<open>Strand::Post\<close> and \<open>ThreadPool::Enqueue\<close>.\<close>

datatype 'a poster =
    Away
  | Pushed nat                  \<comment> \<open>before the \<^verbatim>\<open>compare_exchange_strong\<close> of \<open>Schedule\<close>\<close>
  | Won nat                     \<comment> \<open>before \<^verbatim>\<open>_threadPool.lock()\<close>\<close>
  | Enqueuing "'a pool_item"    \<comment> \<open>before the check of \<open>_stop\<close> in \<open>Enqueue\<close>\<close>
  | Admitted "'a pool_item"     \<comment> \<open>before \<^verbatim>\<open>_tasks.enqueue\<close>\<close>
  | Releasing                   \<comment> \<open>before \<^verbatim>\<open>_taskSemaphore.release()\<close>\<close>

record 'a tp_state =
  squeue :: "nat \<Rightarrow> 'a list"
  isScheduled :: "nat \<Rightarrow> bool"
  alive :: bool                 \<comment> \<open>the weak pointers to the pool can be locked\<close>
  stopFlag :: bool
  taskSemaphore :: nat
  toRelease :: nat              \<comment> \<open>what \<open>Stop\<close> has still to release\<close>
  tasks :: "'a pool_item list"
  threads :: "'a worker list"
  posters :: "'a poster list"
  posted :: "nat \<Rightarrow> 'a list"    \<comment> \<open>history: the tasks pushed to each strand\<close>
  started :: "nat \<Rightarrow> 'a list"   \<comment> \<open>history: the tasks each strand has begun\<close>
  broken :: "nat set"           \<comment> \<open>history: strands left scheduled with nobody to run them\<close>
  stopped :: bool               \<comment> \<open>history: \<open>Stop\<close> was called\<close>

definition new_pool :: "nat \<Rightarrow> 'a tp_state" where
  "new_pool M = \<lparr>squeue = (\<lambda>_. []), isScheduled = (\<lambda>_. False), alive = True, stopFlag = False, taskSemaphore = 0,
     toRelease = 0, tasks = [], threads = [], posters = replicate M Away, posted = (\<lambda>_. []), started = (\<lambda>_. []), broken = {},
     stopped = False\<rparr>"

text \<open>The constructor refuses a thread count that is not positive.\<close>

definition ThreadPool :: "int \<Rightarrow> nat \<Rightarrow> string + 'a tp_state" where
  "ThreadPool threadCount M =
     (if threadCount \<le> 0 then Inl ''ThreadPool thread count must be positive'' else Inr (new_pool M))"

section \<open>Operations\<close>

definition put_poster :: "nat \<Rightarrow> 'a poster \<Rightarrow> 'a tp_state \<Rightarrow> 'a tp_state" where
  "put_poster i p s = s\<lparr>posters := (posters s)[i := p]\<rparr>"

definition put_worker :: "nat \<Rightarrow> 'a worker \<Rightarrow> 'a tp_state \<Rightarrow> 'a tp_state" where
  "put_worker j w s = s\<lparr>threads := (threads s)[j := w]\<rparr>"

definition lose :: "'a pool_item \<Rightarrow> 'a tp_state \<Rightarrow> 'a tp_state" where
  "lose it s = (case it of RunStrand k \<Rightarrow> s\<lparr>broken := insert k (broken s)\<rparr> | Plain _ \<Rightarrow> s)"

text \<open>The critical section of \<open>Post\<close>.\<close>

definition Post_push :: "nat \<Rightarrow> 'a \<Rightarrow> 'a tp_state \<Rightarrow> 'a tp_state" where
  "Post_push k x s = s\<lparr>squeue := (squeue s)(k := squeue s k @ [x]), posted := (posted s)(k := posted s k @ [x])\<rparr>"

text \<open>The rest of \<open>Post\<close> (that is, \<open>Schedule\<close>) and \<open>Enqueue\<close>, one access at a time.\<close>

fun poster_step :: "nat \<Rightarrow> 'a poster \<Rightarrow> 'a tp_state \<Rightarrow> 'a tp_state option" where
  "poster_step i Away s = None"
| "poster_step i (Pushed k) s = Some
     (if isScheduled s k then put_poster i Away s
      else put_poster i (Won k) (s\<lparr>isScheduled := (isScheduled s)(k := True)\<rparr>))"
| "poster_step i (Won k) s = Some
     (if alive s then put_poster i (Enqueuing (RunStrand k)) s
      else put_poster i Away (lose (RunStrand k) s))"
| "poster_step i (Enqueuing it) s = Some
     (if stopFlag s then put_poster i Away (lose it s) else put_poster i (Admitted it) s)"
| "poster_step i (Admitted it) s = Some (put_poster i Releasing (s\<lparr>tasks := tasks s @ [it]\<rparr>))"
| "poster_step i Releasing s = Some (put_poster i Away (s\<lparr>taskSemaphore := taskSemaphore s + 1\<rparr>))"

text \<open>
  The critical section of \<open>Run\<close>: with an empty queue it gives the schedule up and returns,
  otherwise it takes the first task.
\<close>

definition Run_fetch :: "nat \<Rightarrow> nat \<Rightarrow> 'a tp_state \<Rightarrow> 'a tp_state" where
  "Run_fetch j k s = (case squeue s k of
      [] \<Rightarrow> put_worker j Acquire (s\<lparr>isScheduled := (isScheduled s)(k := False)\<rparr>)
    | x # xs \<Rightarrow> put_worker j (InTask k x)
        (s\<lparr>squeue := (squeue s)(k := xs), started := (started s)(k := started s k @ [x])\<rparr>))"

definition begin_item :: "nat \<Rightarrow> 'a pool_item \<Rightarrow> 'a tp_state \<Rightarrow> 'a tp_state" where
  "begin_item j it s = put_worker j (case it of RunStrand k \<Rightarrow> InRun k | Plain x \<Rightarrow> InPlain x) s"

text \<open>
  The loop of a worker.  The choice \<open>n\<close> is the item a dequeue takes, \<open>throws\<close> tells how a task
  ends: an exception leaves \<open>Run\<close> and is kept by the packaged task, so the worker goes on while
  the strand stays marked as scheduled.
\<close>

fun worker_step :: "nat \<Rightarrow> nat \<Rightarrow> bool \<Rightarrow> 'a worker \<Rightarrow> 'a tp_state \<Rightarrow> 'a tp_state option" where
  "worker_step j n throws Acquire s =
     (if taskSemaphore s = 0 then None
      else Some (put_worker j CheckStop (s\<lparr>taskSemaphore := taskSemaphore s - 1\<rparr>)))"
| "worker_step j n throws CheckStop s = Some (put_worker j (if stopFlag s then Exited else TryDequeue) s)"
| "worker_step j n throws TryDequeue s =
     (if tasks s = [] then Some (put_worker j Acquire s)
      else if n < length (tasks s)
        then Some (begin_item j (tasks s ! n) (s\<lparr>tasks := take n (tasks s) @ drop (Suc n) (tasks s)\<rparr>))
        else None)"
| "worker_step j n throws (InRun k) s = Some (Run_fetch j k s)"
| "worker_step j n throws (InTask k x) s = Some
     (if throws then put_worker j Acquire (lose (RunStrand k) s) else put_worker j (InRun k) s)"
| "worker_step j n throws (InPlain x) s = Some (put_worker j Acquire s)"
| "worker_step j n throws Exited s = None"

definition Start :: "nat \<Rightarrow> 'a tp_state \<Rightarrow> 'a tp_state" where
  "Start threadCount s =
     (if threads s \<noteq> [] then s else s\<lparr>stopFlag := False, threads := replicate threadCount Acquire\<rparr>)"

definition Stop :: "nat \<Rightarrow> 'a tp_state \<Rightarrow> 'a tp_state" where
  "Stop threadCount s =
     (if stopFlag s then s
      else s\<lparr>stopFlag := True, toRelease := toRelease s + threadCount, stopped := True\<rparr>)"

definition Stop_release :: "'a tp_state \<Rightarrow> 'a tp_state" where
  "Stop_release s = s\<lparr>taskSemaphore := taskSemaphore s + toRelease s, toRelease := 0\<rparr>"

text \<open>\<open>Join\<close> blocks until every worker has returned.\<close>

definition Join :: "'a tp_state \<Rightarrow> 'a tp_state option" where
  "Join s = (if list_all (\<lambda>w. w = Exited) (threads s) then Some (s\<lparr>threads := []\<rparr>) else None)"

section \<open>Runs\<close>

datatype 'a pool_event =
    PostTo nat nat 'a         \<comment> \<open>an idle thread calls \<^verbatim>\<open>strand->Post(task)\<close>\<close>
  | EnqueueTask nat 'a        \<comment> \<open>an idle thread calls \<^verbatim>\<open>pool->Enqueue(func)\<close>\<close>
  | PosterMoves nat
  | WorkerMoves nat nat bool
  | StartPool
  | StopPool                  \<comment> \<open>\<^verbatim>\<open>_stop.exchange(true)\<close>\<close>
  | StopReleases              \<comment> \<open>\<^verbatim>\<open>_taskSemaphore.release(_threadCount)\<close>\<close>
  | JoinPool
  | PoolExpires               \<comment> \<open>the last \<open>shared_ptr\<close> to the pool goes\<close>

fun pool_step :: "nat \<Rightarrow> 'a pool_event \<Rightarrow> 'a tp_state \<Rightarrow> 'a tp_state option" where
  "pool_step N (PostTo i k x) s =
     (if i < length (posters s) \<and> posters s ! i = Away then Some (put_poster i (Pushed k) (Post_push k x s)) else None)"
| "pool_step N (EnqueueTask i x) s =
     (if i < length (posters s) \<and> posters s ! i = Away then Some (put_poster i (Enqueuing (Plain x)) s) else None)"
| "pool_step N (PosterMoves i) s = (if i < length (posters s) then poster_step i (posters s ! i) s else None)"
| "pool_step N (WorkerMoves j n throws) s =
     (if j < length (threads s) then worker_step j n throws (threads s ! j) s else None)"
| "pool_step N StartPool s = Some (Start N s)"
| "pool_step N StopPool s = Some (Stop N s)"
| "pool_step N StopReleases s = Some (Stop_release s)"
| "pool_step N JoinPool s = Join s"
| "pool_step N PoolExpires s = Some (s\<lparr>alive := False\<rparr>)"

fun pool_run :: "nat \<Rightarrow> 'a pool_event list \<Rightarrow> 'a tp_state \<Rightarrow> 'a tp_state option" where
  "pool_run N [] s = Some s"
| "pool_run N (e # es) s = (case pool_step N e s of None \<Rightarrow> None | Some s' \<Rightarrow> pool_run N es s')"

definition internal :: "'a pool_event \<Rightarrow> bool" where
  "internal e \<longleftrightarrow> (case e of PosterMoves _ \<Rightarrow> True | WorkerMoves _ _ _ \<Rightarrow> True | _ \<Rightarrow> False)"


section \<open>Counting\<close>

definition cnt :: "('b \<Rightarrow> bool) \<Rightarrow> 'b list \<Rightarrow> nat" where
  "cnt P xs = length (filter P xs)"

lemma cnt_simps [simp]:
  "cnt P [] = 0" "cnt P (x # xs) = of_bool (P x) + cnt P xs" "cnt P (xs @ ys) = cnt P xs + cnt P ys"
  by (simp_all add: cnt_def)

lemma cnt_split: "i < length xs \<Longrightarrow> cnt P xs = cnt P (take i xs) + of_bool (P (xs ! i)) + cnt P (drop (Suc i) xs)"
  using cnt_simps(2,3) [of P] id_take_nth_drop [of i xs] by (metis add.assoc)

lemma cnt_update: "i < length xs \<Longrightarrow> cnt P (xs[i := v]) + of_bool (P (xs ! i)) = cnt P xs + of_bool (P v)"
  by (simp add: upd_conv_take_nth_drop cnt_split)

lemma cnt_remove: "n < length xs \<Longrightarrow> cnt P (take n xs @ drop (Suc n) xs) + of_bool (P (xs ! n)) = cnt P xs"
  by (simp add: cnt_split)

lemma cnt_zero: "cnt P xs = 0 \<longleftrightarrow> (\<forall>x \<in> set xs. \<not> P x)"
  by (auto simp: cnt_def filter_empty_conv)

lemma cnt_const: "set xs \<subseteq> {v} \<Longrightarrow> \<not> P v \<Longrightarrow> cnt P xs = 0"
  by (auto simp: cnt_zero)

lemma cnt_replicate: "\<not> P v \<Longrightarrow> cnt P (replicate n v) = 0"
  by (simp add: cnt_def)

text \<open>Who holds the schedule of strand \<open>k\<close>: it is passed from the poster that won it, through the queue, to a worker.\<close>

fun item_holds :: "nat \<Rightarrow> 'a pool_item \<Rightarrow> bool" where
  "item_holds k (RunStrand k') \<longleftrightarrow> k' = k"
| "item_holds k (Plain _) \<longleftrightarrow> False"

fun poster_holds :: "nat \<Rightarrow> 'a poster \<Rightarrow> bool" where
  "poster_holds k (Won k') \<longleftrightarrow> k' = k"
| "poster_holds k (Enqueuing it) \<longleftrightarrow> item_holds k it"
| "poster_holds k (Admitted it) \<longleftrightarrow> item_holds k it"
| "poster_holds k _ \<longleftrightarrow> False"

fun worker_holds :: "nat \<Rightarrow> 'a worker \<Rightarrow> bool" where
  "worker_holds k (InRun k') \<longleftrightarrow> k' = k"
| "worker_holds k (InTask k' _) \<longleftrightarrow> k' = k"
| "worker_holds k _ \<longleftrightarrow> False"

definition holders :: "nat \<Rightarrow> 'a tp_state \<Rightarrow> nat" where
  "holders k s = cnt (poster_holds k) (posters s) + cnt (item_holds k) (tasks s) + cnt (worker_holds k) (threads s)"

text \<open>Who holds a permit of the semaphore, or is about to release one.\<close>

fun has_permit :: "'a worker \<Rightarrow> bool" where
  "has_permit CheckStop \<longleftrightarrow> True"
| "has_permit TryDequeue \<longleftrightarrow> True"
| "has_permit _ \<longleftrightarrow> False"

definition permits :: "'a tp_state \<Rightarrow> nat" where
  "permits s = taskSemaphore s + cnt has_permit (threads s) + cnt (\<lambda>p. p = Releasing) (posters s)"

section \<open>The invariant\<close>

definition schedule_ok :: "'a tp_state \<Rightarrow> bool" where
  "schedule_ok s \<longleftrightarrow> (\<forall>k. holders k s = of_bool (isScheduled s k \<and> k \<notin> broken s) \<and> (k \<in> broken s \<longrightarrow> isScheduled s k))"

definition order_ok :: "'a tp_state \<Rightarrow> bool" where
  "order_ok s \<longleftrightarrow> (\<forall>k. posted s k = started s k @ squeue s k)"

definition wakeup_ok :: "'a tp_state \<Rightarrow> bool" where
  "wakeup_ok s \<longleftrightarrow> (\<forall>k. squeue s k \<noteq> [] \<longrightarrow> isScheduled s k \<or> Pushed k \<in> set (posters s))"

definition permits_ok :: "'a tp_state \<Rightarrow> bool" where
  "permits_ok s \<longleftrightarrow> (\<not> stopped s \<longrightarrow> \<not> stopFlag s \<and> toRelease s = 0 \<and> Exited \<notin> set (threads s) \<and> length (tasks s) = permits s)"

lemmas poster_defs = put_poster_def lose_def
lemmas worker_defs = put_worker_def lose_def begin_item_def Run_fetch_def
lemmas owner_defs = Start_def Stop_def Stop_release_def

lemma schedule_okD:
  assumes "schedule_ok s"
  shows "holders k s = of_bool (isScheduled s k \<and> k \<notin> broken s)" "k \<in> broken s \<Longrightarrow> isScheduled s k"
  using assms by (auto simp: schedule_ok_def)

lemma holders_put_poster:
  assumes "i < length (posters s)"
  shows "holders k (put_poster i p s) + of_bool (poster_holds k (posters s ! i)) = holders k s + of_bool (poster_holds k p)"
  using cnt_update [OF assms, of "poster_holds k" p] by (simp add: holders_def put_poster_def)

lemma holders_put_worker:
  assumes "j < length (threads s)"
  shows "holders k (put_worker j w s) + of_bool (worker_holds k (threads s ! j)) = holders k s + of_bool (worker_holds k w)"
  using cnt_update [OF assms, of "worker_holds k" w] by (simp add: holders_def put_worker_def)

lemma holders_fields [simp]:
  "holders k (s\<lparr>squeue := q\<rparr>) = holders k s" "holders k (s\<lparr>isScheduled := b\<rparr>) = holders k s"
  "holders k (s\<lparr>taskSemaphore := n\<rparr>) = holders k s" "holders k (s\<lparr>broken := B\<rparr>) = holders k s"
  "holders k (s\<lparr>squeue := q, started := h\<rparr>) = holders k s" "holders k (s\<lparr>squeue := q, posted := h\<rparr>) = holders k s"
  "holders k (s\<lparr>tasks := tasks s @ [it]\<rparr>) = holders k s + of_bool (item_holds k it)"
  "holders k (lose it s) = holders k s"
  by (simp_all add: holders_def lose_def split: pool_item.split)

lemma set_fields [simp]:
  "isScheduled (put_poster i p s) = isScheduled s" "broken (put_poster i p s) = broken s"
  "isScheduled (put_worker j w s) = isScheduled s" "broken (put_worker j w s) = broken s"
  "posters (lose it s) = posters s" "threads (lose it s) = threads s" "isScheduled (lose it s) = isScheduled s"
  "tasks (lose it s) = tasks s"
  by (simp_all add: put_poster_def put_worker_def lose_def split: pool_item.split)

lemma broken_lose [simp]: "k \<in> broken (lose it s) \<longleftrightarrow> k \<in> broken s \<or> item_holds k it"
  by (cases it) (auto simp: lose_def)

text \<open>The schedule of one strand after a step, from its holders before.\<close>

lemma poster_schedule:
  assumes "schedule_ok s" "i < length (posters s)" "poster_step i (posters s ! i) s = Some s'"
  shows "schedule_ok s'"
  unfolding schedule_ok_def
proof (intro allI)
  fix k
  note S = schedule_okD [OF assms(1), of k]
  note H = holders_put_poster [where k = k and i = i]
  show "holders k s' = of_bool (isScheduled s' k \<and> k \<notin> broken s') \<and> (k \<in> broken s' \<longrightarrow> isScheduled s' k)"
  proof (cases "posters s ! i")
    case (Pushed k')
    show ?thesis
    proof (cases "isScheduled s k'")
      case True
      then show ?thesis using assms(2,3) Pushed S H [of s Away] by (auto simp: of_bool_def split: if_splits)
    next
      case False
      then show ?thesis
        using assms(2,3) Pushed S H [of "s\<lparr>isScheduled := (isScheduled s)(k' := True)\<rparr>" "Won k'"] by (auto simp: of_bool_def split: if_splits)
    qed
  next
    case (Won k')
    then show ?thesis
      using assms(2,3) S H [of s "Enqueuing (RunStrand k')"] H [of "lose (RunStrand k') s" Away]
      by (auto simp: of_bool_def split: if_splits)
  next
    case (Enqueuing it)
    then show ?thesis
      using assms(2,3) S H [of s "Admitted it"] H [of "lose it s" Away] by (auto simp: of_bool_def split: if_splits)
  next
    case (Admitted it)
    then show ?thesis using assms(2,3) S H [of "s\<lparr>tasks := tasks s @ [it]\<rparr>" Releasing] by (auto simp: of_bool_def split: if_splits)
  next
    case Releasing
    then show ?thesis using assms(2,3) S H [of "s\<lparr>taskSemaphore := taskSemaphore s + 1\<rparr>" Away] by (auto simp: of_bool_def split: if_splits)
  qed (use assms in simp)
qed


lemma holders_dequeue:
  assumes "n < length (tasks s)"
  shows "holders k (s\<lparr>tasks := take n (tasks s) @ drop (Suc n) (tasks s)\<rparr>) + of_bool (item_holds k (tasks s ! n)) = holders k s"
  using cnt_remove [OF assms, of "item_holds k"] by (simp add: holders_def)

lemma item_worker [simp]: "worker_holds k (case it of RunStrand k' \<Rightarrow> InRun k' | Plain x \<Rightarrow> InPlain x) = item_holds k it"
  by (cases it) auto

lemma fetch_schedule:
  assumes "schedule_ok s" "j < length (threads s)" "threads s ! j = InRun k'"
  shows "schedule_ok (Run_fetch j k' s)"
  unfolding schedule_ok_def
proof (intro allI)
  fix k
  note S = schedule_okD [OF assms(1), of k]
  note H = holders_put_worker [where k = k and j = j]
  show "holders k (Run_fetch j k' s) = of_bool (isScheduled (Run_fetch j k' s) k \<and> k \<notin> broken (Run_fetch j k' s)) \<and>
      (k \<in> broken (Run_fetch j k' s) \<longrightarrow> isScheduled (Run_fetch j k' s) k)"
  proof (cases "squeue s k'")
    case Nil
    then show ?thesis
      using assms(2,3) S H [of "s\<lparr>isScheduled := (isScheduled s)(k' := False)\<rparr>" Acquire]
      by (auto simp: Run_fetch_def of_bool_def split: if_splits)
  next
    case (Cons x xs)
    then show ?thesis
      using assms(2,3) S H [of "s\<lparr>squeue := (squeue s)(k' := xs), started := (started s)(k' := started s k' @ [x])\<rparr>" "InTask k' x"]
      by (auto simp: Run_fetch_def of_bool_def split: if_splits)
  qed
qed

lemma dequeue_schedule:
  assumes "schedule_ok s" "j < length (threads s)" "threads s ! j = TryDequeue" "n < length (tasks s)"
  shows "schedule_ok (begin_item j (tasks s ! n) (s\<lparr>tasks := take n (tasks s) @ drop (Suc n) (tasks s)\<rparr>))"
proof -
  let ?s = "s\<lparr>tasks := take n (tasks s) @ drop (Suc n) (tasks s)\<rparr>"
  have "holders k (begin_item j (tasks s ! n) ?s) = holders k s" for k
    using holders_dequeue [OF assms(4), of k] assms(2,3)
      holders_put_worker [of j ?s k "case tasks s ! n of RunStrand k' \<Rightarrow> InRun k' | Plain x \<Rightarrow> InPlain x"]
    by (simp add: begin_item_def)
  then show ?thesis using assms(1) by (simp add: schedule_ok_def begin_item_def)
qed

lemma worker_schedule:
  assumes "schedule_ok s" "j < length (threads s)" "worker_step j n throws (threads s ! j) s = Some s'"
  shows "schedule_ok s'"
proof (cases "threads s ! j")
  case (InTask k' x)
  have "holders k s' = of_bool (isScheduled s' k \<and> k \<notin> broken s') \<and> (k \<in> broken s' \<longrightarrow> isScheduled s' k)" for k
    using InTask assms(2,3) schedule_okD [OF assms(1), of k]
      holders_put_worker [of j s k "InRun k'"] holders_put_worker [of j "lose (RunStrand k') s" k Acquire]
    by (auto simp: of_bool_def split: if_splits)
  then show ?thesis by (simp add: schedule_ok_def)
next
  case Acquire
  then show ?thesis
    using assms holders_put_worker [of j "s\<lparr>taskSemaphore := taskSemaphore s - 1\<rparr>" _ CheckStop]
    by (auto simp: schedule_ok_def split: if_splits)
next
  case CheckStop
  then show ?thesis
    using assms holders_put_worker [of j s _ Exited] holders_put_worker [of j s _ TryDequeue]
    by (auto simp: schedule_ok_def split: if_splits)
next
  case TryDequeue
  then show ?thesis
    using assms holders_put_worker [of j s _ Acquire] dequeue_schedule [OF assms(1,2) TryDequeue]
    by (auto simp: schedule_ok_def split: if_splits)
next
  case (InRun k)
  then show ?thesis using assms fetch_schedule by auto
next
  case (InPlain x)
  then show ?thesis using assms holders_put_worker [of j s _ Acquire] by (auto simp: schedule_ok_def)
qed (use assms in simp)

lemma cnt_exited: "list_all (\<lambda>w. w = Exited) ws \<Longrightarrow> cnt (worker_holds k) ws = 0" "list_all (\<lambda>w. w = Exited) ws \<Longrightarrow> cnt has_permit ws = 0"
  by (auto simp: cnt_zero list_all_iff)

lemma owner_holders [simp]:
  "holders k (Start N s) = holders k s" "holders k (Stop N s) = holders k s" "holders k (Stop_release s) = holders k s"
  "holders k (s\<lparr>alive := b\<rparr>) = holders k s" "Join s = Some s' \<Longrightarrow> holders k s' = holders k s"
  by (auto simp: holders_def owner_defs Join_def cnt_exited cnt_replicate split: if_splits)

lemma owner_frame [simp]:
  "isScheduled (Start N s) = isScheduled s" "isScheduled (Stop N s) = isScheduled s" "isScheduled (Stop_release s) = isScheduled s"
  "broken (Start N s) = broken s" "broken (Stop N s) = broken s" "broken (Stop_release s) = broken s"
  "squeue (Start N s) = squeue s" "squeue (Stop N s) = squeue s" "squeue (Stop_release s) = squeue s"
  "posted (Start N s) = posted s" "posted (Stop N s) = posted s" "posted (Stop_release s) = posted s"
  "started (Start N s) = started s" "started (Stop N s) = started s" "started (Stop_release s) = started s"
  "posters (Start N s) = posters s" "posters (Stop N s) = posters s" "posters (Stop_release s) = posters s"
  by (simp_all add: owner_defs)

lemma JoinE:
  assumes "Join s = Some s'"
  obtains "list_all (\<lambda>w. w = Exited) (threads s)" "s' = s\<lparr>threads := []\<rparr>"
  using assms by (auto simp: Join_def split: if_splits)

lemma pool_step_schedule:
  assumes "schedule_ok s" "pool_step N e s = Some s'"
  shows "schedule_ok s'"
proof (cases e)
  case (PosterMoves i)
  then show ?thesis using assms poster_schedule by (auto split: if_splits)
next
  case (WorkerMoves j n throws)
  then show ?thesis using assms worker_schedule by (auto split: if_splits)
next
  case (PostTo i k x)
  then show ?thesis using assms holders_put_poster [of i "Post_push k x s" _ "Pushed k"]
    by (auto simp: schedule_ok_def Post_push_def split: if_splits)
next
  case (EnqueueTask i x)
  then show ?thesis using assms holders_put_poster [of i s _ "Enqueuing (Plain x)"]
    by (auto simp: schedule_ok_def split: if_splits)
next
  case JoinPool
  then have "Join s = Some s'" using assms(2) by simp
  then show ?thesis using assms(1) by (auto simp: schedule_ok_def elim: JoinE)
qed (use assms in \<open>auto simp: schedule_ok_def\<close>)


lemma pool_step_order:
  assumes "order_ok s" "pool_step N e s = Some s'"
  shows "order_ok s'"
proof (cases e)
  case (PosterMoves i)
  then show ?thesis using assms
    by (cases "posters s ! i") (auto simp: order_ok_def poster_defs split: if_splits pool_item.splits)
next
  case (WorkerMoves j n throws)
  then show ?thesis using assms
    by (cases "threads s ! j") (auto simp: order_ok_def worker_defs split: if_splits list.splits pool_item.splits)
qed (use assms in \<open>auto simp: order_ok_def Post_push_def poster_defs elim!: JoinE split: if_splits\<close>)

lemma in_set_update: "x \<in> set xs \<Longrightarrow> i < length xs \<Longrightarrow> xs ! i \<noteq> x \<Longrightarrow> x \<in> set (xs[i := v])"
  by (metis in_set_conv_nth length_list_update nth_list_update_neq)

lemma wakeup_fetch:
  assumes "wakeup_ok s"
  shows "wakeup_ok (Run_fetch j k s)"
  unfolding wakeup_ok_def
proof (intro allI)
  fix k'
  show "squeue (Run_fetch j k s) k' \<noteq> [] \<longrightarrow> isScheduled (Run_fetch j k s) k' \<or> Pushed k' \<in> set (posters (Run_fetch j k s))"
    using assms [unfolded wakeup_ok_def, rule_format, of k']
    by (cases "squeue s k") (auto simp: Run_fetch_def put_worker_def)
qed

lemma pool_step_wakeup:
  assumes "wakeup_ok s" "pool_step N e s = Some s'"
  shows "wakeup_ok s'"
proof (cases e)
  case (PosterMoves i)
  then show ?thesis using assms
    by (cases "posters s ! i")
      (fastforce simp: wakeup_ok_def poster_defs split: if_splits pool_item.splits intro: in_set_update)+
next
  case (WorkerMoves j n throws)
  show ?thesis
  proof (cases "threads s ! j")
    case (InRun k)
    then show ?thesis using WorkerMoves assms wakeup_fetch by (auto split: if_splits)
  qed (use WorkerMoves assms in \<open>auto simp: wakeup_ok_def worker_defs split: if_splits pool_item.splits\<close>)
next
  case (PostTo i k x)
  then show ?thesis using assms
    by (fastforce simp: wakeup_ok_def Post_push_def put_poster_def set_update_memI split: if_splits intro: in_set_update)
next
  case (EnqueueTask i x)
  then show ?thesis using assms
    by (fastforce simp: wakeup_ok_def put_poster_def split: if_splits intro: in_set_update)
qed (use assms in \<open>auto simp: wakeup_ok_def elim!: JoinE\<close>)

lemma permits_put_poster:
  assumes "i < length (posters s)"
  shows "permits (put_poster i p s) + of_bool (posters s ! i = Releasing) = permits s + of_bool (p = Releasing)"
  using cnt_update [OF assms, of "\<lambda>p. p = Releasing" p] by (simp add: permits_def put_poster_def)

lemma permits_put_worker:
  assumes "j < length (threads s)"
  shows "permits (put_worker j w s) + of_bool (has_permit (threads s ! j)) = permits s + of_bool (has_permit w)"
  using cnt_update [OF assms, of has_permit w] by (simp add: permits_def put_worker_def)

lemma permits_fields [simp]:
  "permits (s\<lparr>squeue := q\<rparr>) = permits s" "permits (s\<lparr>isScheduled := b\<rparr>) = permits s"
  "permits (s\<lparr>tasks := ts\<rparr>) = permits s" "permits (lose it s) = permits s"
  "permits (s\<lparr>squeue := q, started := h\<rparr>) = permits s" "permits (s\<lparr>squeue := q, posted := h\<rparr>) = permits s"
  "permits (s\<lparr>alive := c\<rparr>) = permits s"
  by (simp_all add: permits_def lose_def split: pool_item.split)

lemma permits_semaphore: "permits (s\<lparr>taskSemaphore := n\<rparr>) + taskSemaphore s = permits s + n"
  by (simp add: permits_def)

lemma put_frame [simp]:
  "stopped (put_poster i p s) = stopped s" "stopFlag (put_poster i p s) = stopFlag s" "toRelease (put_poster i p s) = toRelease s"
  "tasks (put_poster i p s) = tasks s" "threads (put_poster i p s) = threads s"
  "stopped (put_worker j w s) = stopped s" "stopFlag (put_worker j w s) = stopFlag s" "toRelease (put_worker j w s) = toRelease s"
  "tasks (put_worker j w s) = tasks s"
  "stopped (lose it s) = stopped s" "stopFlag (lose it s) = stopFlag s" "toRelease (lose it s) = toRelease s"
  by (simp_all add: put_poster_def put_worker_def lose_def split: pool_item.split)


lemma permits_fetch:
  assumes "j < length (threads s)" "threads s ! j = InRun k"
  shows "permits (Run_fetch j k s) = permits s" "stopped (Run_fetch j k s) = stopped s" "stopFlag (Run_fetch j k s) = stopFlag s"
    "toRelease (Run_fetch j k s) = toRelease s" "tasks (Run_fetch j k s) = tasks s"
    "Exited \<notin> set (threads s) \<Longrightarrow> Exited \<notin> set (threads (Run_fetch j k s))"
  using assms permits_put_worker [of j "s\<lparr>isScheduled := (isScheduled s)(k := False)\<rparr>" Acquire]
    permits_put_worker [of j "s\<lparr>squeue := (squeue s)(k := xs), started := (started s)(k := started s k @ [x])\<rparr>" "InTask k x" for x xs]
  by (auto simp: Run_fetch_def put_worker_def split: list.splits dest: set_update_subset_insert [THEN subsetD])

lemma alive_put_worker: "w \<noteq> Exited \<Longrightarrow> Exited \<notin> set (threads s) \<Longrightarrow> Exited \<notin> set (threads (put_worker j w s))"
  by (auto simp: put_worker_def dest: set_update_subset_insert [THEN subsetD])

lemma item_running [simp]: "(case it of RunStrand k \<Rightarrow> InRun k | Plain x \<Rightarrow> InPlain x) \<noteq> Exited"
  "\<not> has_permit (case it of RunStrand k \<Rightarrow> InRun k | Plain x \<Rightarrow> InPlain x)"
  by (cases it; simp)+

lemma worker_permits:
  assumes "permits_ok s" "j < length (threads s)" "worker_step j n throws (threads s ! j) s = Some s'"
  shows "permits_ok s'"
proof (cases "threads s ! j")
  case Acquire
  then show ?thesis
    using assms permits_put_worker [of j "s\<lparr>taskSemaphore := taskSemaphore s - 1\<rparr>" CheckStop] permits_semaphore [where s = s and n = "taskSemaphore s - 1"]
    by (auto simp: permits_ok_def alive_put_worker split: if_splits)
next
  case CheckStop
  then show ?thesis
    using assms permits_put_worker [of j s TryDequeue] by (auto simp: permits_ok_def alive_put_worker split: if_splits)
next
  case TryDequeue
  have "cnt has_permit (threads s) \<noteq> 0" unfolding cnt_zero using TryDequeue nth_mem [OF assms(2)] by (metis has_permit.simps(2))
  then have "\<not> stopped s \<Longrightarrow> tasks s \<noteq> []" using assms(1) by (auto simp: permits_ok_def permits_def)
  then show ?thesis
    using TryDequeue assms permits_put_worker [of j "s\<lparr>tasks := take n (tasks s) @ drop (Suc n) (tasks s)\<rparr>"
        "case tasks s ! n of RunStrand k \<Rightarrow> InRun k | Plain x \<Rightarrow> InPlain x"]
    by (auto simp: permits_ok_def begin_item_def alive_put_worker split: if_splits)
next
  case (InRun k)
  then show ?thesis using assms permits_fetch [OF assms(2) InRun] by (auto simp: permits_ok_def)
next
  case (InTask k x)
  then show ?thesis
    using assms permits_put_worker [of j s "InRun k"] permits_put_worker [of j "lose (RunStrand k) s" Acquire]
    by (auto simp: permits_ok_def alive_put_worker split: if_splits)
next
  case (InPlain x)
  then show ?thesis using assms permits_put_worker [of j s Acquire] by (auto simp: permits_ok_def alive_put_worker)
qed (use assms in simp)

lemma poster_permits:
  assumes "permits_ok s" "i < length (posters s)" "poster_step i (posters s ! i) s = Some s'"
  shows "permits_ok s'"
proof (cases "posters s ! i")
  case (Pushed k)
  then show ?thesis
    using assms permits_put_poster [of i s Away] permits_put_poster [of i "s\<lparr>isScheduled := (isScheduled s)(k := True)\<rparr>" "Won k"]
    by (auto simp: permits_ok_def split: if_splits)
next
  case (Won k)
  then show ?thesis
    using assms permits_put_poster [of i s "Enqueuing (RunStrand k)"] permits_put_poster [of i "lose (RunStrand k) s" Away]
    by (auto simp: permits_ok_def split: if_splits)
next
  case (Enqueuing it)
  then show ?thesis
    using assms permits_put_poster [of i s "Admitted it"] permits_put_poster [of i "lose it s" Away]
    by (auto simp: permits_ok_def split: if_splits)
next
  case (Admitted it)
  then show ?thesis
    using assms permits_put_poster [of i "s\<lparr>tasks := tasks s @ [it]\<rparr>" Releasing] by (auto simp: permits_ok_def)
next
  case Releasing
  then show ?thesis
    using assms permits_put_poster [of i "s\<lparr>taskSemaphore := taskSemaphore s + 1\<rparr>" Away] permits_semaphore [where s = s and n = "taskSemaphore s + 1"]
    by (auto simp: permits_ok_def)
qed (use assms in simp)

lemma pool_step_permits:
  assumes "permits_ok s" "pool_step N e s = Some s'"
  shows "permits_ok s'"
proof (cases e)
  case (PosterMoves i)
  then show ?thesis using assms poster_permits by (auto split: if_splits)
next
  case (WorkerMoves j n throws)
  then show ?thesis using assms worker_permits by (auto split: if_splits)
next
  case (PostTo i k x)
  then show ?thesis using assms permits_put_poster [of i "Post_push k x s" "Pushed k"]
    by (auto simp: permits_ok_def Post_push_def split: if_splits)
next
  case (EnqueueTask i x)
  then show ?thesis using assms permits_put_poster [of i s "Enqueuing (Plain x)"]
    by (auto simp: permits_ok_def split: if_splits)
next
  case JoinPool
  then have "Join s = Some s'" using assms(2) by simp
  then show ?thesis using assms(1) by (auto simp: permits_ok_def permits_def cnt_exited elim: JoinE)
qed (use assms in \<open>auto simp: permits_ok_def permits_def owner_defs cnt_replicate split: if_splits\<close>)

definition pool_inv :: "'a tp_state \<Rightarrow> bool" where
  "pool_inv s \<longleftrightarrow> schedule_ok s \<and> order_ok s \<and> wakeup_ok s \<and> permits_ok s"

lemma new_pool_inv: "pool_inv (new_pool M)"
  by (simp add: pool_inv_def schedule_ok_def order_ok_def wakeup_ok_def permits_ok_def holders_def permits_def new_pool_def
      cnt_replicate)

lemma pool_step_inv: "pool_inv s \<Longrightarrow> pool_step N e s = Some s' \<Longrightarrow> pool_inv s'"
  unfolding pool_inv_def by (blast intro: pool_step_schedule pool_step_order pool_step_wakeup pool_step_permits)

lemma pool_run_inv: "pool_inv s \<Longrightarrow> pool_run N es s = Some s' \<Longrightarrow> pool_inv s'"
proof (induction es arbitrary: s)
  case (Cons e es)
  then obtain s1 where 1: "pool_step N e s = Some s1" "pool_run N es s1 = Some s'" by (auto split: option.splits)
  then show ?case using Cons.IH pool_step_inv [OF Cons.prems(1)] by blast
qed simp


section \<open>Strands are serial\<close>

lemma two_hold: "i < length xs \<Longrightarrow> j < length xs \<Longrightarrow> i \<noteq> j \<Longrightarrow> P (xs ! i) \<Longrightarrow> P (xs ! j) \<Longrightarrow> 2 \<le> cnt P xs"
proof -
  assume a: "i < length xs" "j < length xs" "i \<noteq> j" "P (xs ! i)" "P (xs ! j)"
  have "{i, j} \<subseteq> {n. n < length xs \<and> P (xs ! n)}" using a by auto
  then have "card {i, j} \<le> card {n. n < length xs \<and> P (xs ! n)}" by (rule card_mono [rotated]) simp
  then show ?thesis using a by (simp add: cnt_def length_filter_conv_card)
qed

lemma one_holder: "pool_inv s \<Longrightarrow> holders k s \<le> 1"
  by (simp add: pool_inv_def schedule_okD(1))

text \<open>C5. A strand is serial.  In every state a pool can reach, however its posters and workers
  interleave, stop, restart or throw, two workers are never inside the loop of the same strand;
  and the tasks a strand has begun, followed by those in its queue, are the tasks posted to it,
  in the order of the posts.\<close>

theorem strand_serial:
  assumes "pool_run N es (new_pool M) = Some s"
  shows "(\<forall>i j. i < length (threads s) \<and> j < length (threads s) \<and> worker_holds k (threads s ! i) \<and>
      worker_holds k (threads s ! j) \<longrightarrow> i = j) \<and> posted s k = started s k @ squeue s k"
proof -
  have inv: "pool_inv s" by (rule pool_run_inv [OF new_pool_inv assms])
  have "cnt (worker_holds k) (threads s) \<le> 1" using one_holder [OF inv, of k] by (simp add: holders_def)
  then have "i = j" if "i < length (threads s)" "j < length (threads s)" "worker_holds k (threads s ! i)"
    "worker_holds k (threads s ! j)" for i j
    using two_hold [of i "threads s" j "worker_holds k"] that by fastforce
  then show ?thesis using inv by (auto simp: pool_inv_def order_ok_def)
qed

text \<open>Two posters, two workers: tasks 10, 11 and 12 go to strand 0, task 20 to strand 1.\<close>

definition demo_posts :: "nat pool_event list" where
  "demo_posts = [StartPool, PostTo 0 0 10, PostTo 1 0 11, PosterMoves 0, PosterMoves 1, PosterMoves 0, PosterMoves 0, PosterMoves 0,
     PosterMoves 0, WorkerMoves 1 0 False, WorkerMoves 1 0 False, WorkerMoves 1 0 False, WorkerMoves 1 0 False, PostTo 0 0 12,
     PostTo 1 1 20, PosterMoves 0, PosterMoves 1, PosterMoves 1, PosterMoves 1, PosterMoves 1, PosterMoves 1,
     WorkerMoves 0 0 False, WorkerMoves 0 0 False, WorkerMoves 0 0 False, WorkerMoves 0 0 False, WorkerMoves 1 0 False, WorkerMoves 1 0 False]"

definition demo_pool :: "nat tp_state" where
  "demo_pool = the (pool_run 2 demo_posts (new_pool 2))"

lemmas demo_pool_defs = demo_posts_def new_pool_def owner_defs poster_defs worker_defs Post_push_def

lemma demo_pool_run: "pool_run 2 demo_posts (new_pool 2) = Some demo_pool"
  by (simp add: demo_pool_def demo_pool_defs)

theorem strand_serial_witness:
  "threads demo_pool = [InTask 1 20, InTask 0 11] \<and> posted demo_pool 0 = [10, 11] @ squeue demo_pool 0"
proof -
  have "threads demo_pool = [InTask 1 20, InTask 0 11]" "started demo_pool 0 = [10, 11]"
    by (simp_all add: demo_pool_def demo_pool_defs numeral_2_eq_2)
  then show ?thesis using strand_serial [OF demo_pool_run, of 0] by simp
qed

section \<open>Nothing is left behind\<close>

lemma stuck_posters:
  assumes "\<forall>e. internal e \<longrightarrow> pool_step N e s = None"
  shows "set (posters s) \<subseteq> {Away}"
proof
  fix p
  assume "p \<in> set (posters s)"
  then obtain i where i: "i < length (posters s)" "posters s ! i = p" by (auto simp: in_set_conv_nth)
  then have "poster_step i p s = None" using assms [rule_format, of "PosterMoves i"] by (simp add: internal_def)
  then show "p \<in> {Away}" by (cases p) auto
qed

lemma stuck_workers:
  assumes "\<forall>e. internal e \<longrightarrow> pool_step N e s = None" "w \<in> set (threads s)" "w \<noteq> Exited"
  shows "w = Acquire \<and> taskSemaphore s = 0"
proof -
  obtain j where j: "j < length (threads s)" "threads s ! j = w" using assms(2) by (auto simp: in_set_conv_nth)
  then have "worker_step j 0 False w s = None" using assms(1) [rule_format, of "WorkerMoves j 0 False"] by (simp add: internal_def)
  then show ?thesis using assms(3) by (cases w) (auto split: if_splits)
qed


text \<open>One worker, one poster: both tasks are run and the worker is back at the semaphore.\<close>

definition demo_quiet :: "nat tp_state" where
  "demo_quiet = the (pool_run 1 ([StartPool, PostTo 0 0 10] @ replicate 5 (PosterMoves 0) @ [PostTo 0 0 11, PosterMoves 0] @
     replicate 8 (WorkerMoves 0 0 False)) (new_pool 1))"

lemma demo_quiet_fields: "posters demo_quiet = [Away]" "threads demo_quiet = [Acquire]" "taskSemaphore demo_quiet = 0"
  "posted demo_quiet 0 = [10, 11]" "broken demo_quiet = {}" "\<not> stopped demo_quiet"
  "pool_run 1 ([StartPool, PostTo 0 0 10] @ replicate 5 (PosterMoves 0) @ [PostTo 0 0 11, PosterMoves 0] @
     replicate 8 (WorkerMoves 0 0 False)) (new_pool 1) = Some demo_quiet"
  by (simp_all add: demo_quiet_def demo_pool_defs numeral_eq_Suc)

lemma demo_quiet_stuck: "\<forall>e. internal e \<longrightarrow> pool_step 1 e demo_quiet = None"
proof (intro allI impI)
  fix e :: "nat pool_event"
  assume "internal e"
  then show "pool_step 1 e demo_quiet = None"
    by (cases e) (auto simp: internal_def demo_quiet_fields less_Suc_eq)
qed


section \<open>A strand can die\<close>

lemma broken_no_run:
  assumes "pool_inv s" "k \<in> broken s" "j < length (threads s)"
  shows "threads s ! j \<noteq> InRun k"
proof
  assume "threads s ! j = InRun k"
  then have "cnt (worker_holds k) (threads s) \<noteq> 0"
    unfolding cnt_zero using nth_mem [OF assms(3)] by (metis worker_holds.simps(1))
  then show False using assms(1,2) schedule_okD(1) [of s k] by (simp add: pool_inv_def holders_def)
qed

lemma broken_step:
  assumes "pool_inv s" "k \<in> broken s" "pool_step N e s = Some s'"
  shows "k \<in> broken s' \<and> started s' k = started s k"
proof (cases e)
  case (PosterMoves i)
  then show ?thesis using assms
    by (cases "posters s ! i") (auto simp: poster_defs split: if_splits pool_item.splits)
next
  case (WorkerMoves j n throws)
  then show ?thesis using assms broken_no_run [OF assms(1,2), of j]
    by (cases "threads s ! j") (auto simp: worker_defs split: if_splits list.splits pool_item.splits)
qed (use assms in \<open>auto simp: Post_push_def poster_defs elim!: JoinE split: if_splits\<close>)

lemma broken_run:
  "pool_inv s \<Longrightarrow> k \<in> broken s \<Longrightarrow> pool_run N es s = Some s' \<Longrightarrow> k \<in> broken s' \<and> started s' k = started s k"
proof (induction es arbitrary: s)
  case (Cons e es)
  then obtain s1 where 1: "pool_step N e s = Some s1" "pool_run N es s1 = Some s'" by (auto split: option.splits)
  then show ?case using Cons.IH [OF pool_step_inv [OF Cons.prems(1)]] broken_step [OF Cons.prems(1,2)] by metis
qed simp

text \<open>A task that throws kills its strand: \<open>Run\<close> is left by the exception with \<open>_isScheduled\<close> still set,
  so no later post schedules the strand, whatever the pool and the posters do.  (\<open>Room\<close> posts every
  action of a player to such a strand.)\<close>

lemma throwing_task_kills_strand:
  assumes "pool_run N es (new_pool M) = Some s" "j < length (threads s)" "threads s ! j = InTask k x"
    and "pool_run N (WorkerMoves j n True # es') s = Some s'"
  shows "started s' k = started s k"
proof -
  have inv: "pool_inv s" by (rule pool_run_inv [OF new_pool_inv assms(1)])
  define s1 where "s1 = put_worker j Acquire (lose (RunStrand k) s)"
  have s1: "pool_step N (WorkerMoves j n True) s = Some s1" using assms(2,3) by (simp add: s1_def)
  have "k \<in> broken s1" "started s1 k = started s k" by (simp_all add: s1_def put_worker_def lose_def)
  moreover have "pool_run N es' s1 = Some s'" using assms(4) s1 by simp
  ultimately show ?thesis using broken_run [OF pool_step_inv [OF inv s1]] by metis
qed

end
