(* ===== verification/Server_Framework.thy ===== *)
theory Server_Framework
  imports Message_Queue Game_Commands User_Storage Mysql_Driver Tcp_Network Message_Pool Strand_Pool
begin

text \<open>
  How a server is configured, started and stopped: the configuration file (\<open>Config/Json/JsonConfigLoader.cpp\<close>), \<open>Framework\<close>
  (\<open>Framework/Framework.cpp\<close>) and \<open>ServerApp\<close> (\<open>Core/ServerApp.cpp\<close>).  The JSON library, the sockets, the number of
  hardware threads and the drivers compiled in are parameters; the parts a framework owns are those of the other theories.

  Shown: two servers with the same configuration understand each other's packets, whatever the key text is; a server
  that was started, is stopped and joined leaves no thread, no console, no message driver and no open
  port behind, and the join returns.  Also shown: a configuration that fails half-way is kept half-way, and
  \<open>db_worker_threads = 0\<close> makes a database that never gives a connection.
\<close>

section \<open>The configuration file\<close>

record 'f ServerConfig =
  cf_port :: int
  cf_workerThreadCount :: int
  cf_taskWorkerCount :: int
  cf_dbWorkerCount :: int
  cf_dbAddress :: string
  cf_dbType :: string
  cf_dbUser :: string
  cf_dbPassword :: string
  cf_dbSchema :: string
  cf_dbPort :: int
  cf_rateLimit :: 'f
  cf_rateBurst :: 'f
  cf_encryption :: string
  cf_encryptionKey :: string
  cf_encryptionIV :: string
  cf_logLevel :: string
  cf_serverRole :: string
  cf_webSocketEnabled :: bool
  cf_webSocketPort :: int

text \<open>Conversions of the JSON library; \<open>None\<close> is its exception for a value of another type.\<close>

record ('j, 'f) json_api =
  as_int :: "'j \<Rightarrow> int option"
  as_string :: "'j \<Rightarrow> string option"
  as_double :: "'j \<Rightarrow> 'f option"
  as_bool :: "'j \<Rightarrow> bool option"

datatype 'j config_file = Not_open | Bad_json | No_server | Server_no_object | Server "string \<Rightarrow> 'j option"

text \<open>\<^verbatim>\<open>server.value(k, d)\<close>, the same with a second spelling as default, and the tests with \<open>contains\<close>.\<close>

definition value_or :: "('j \<Rightarrow> 'a option) \<Rightarrow> (string \<Rightarrow> 'j option) \<Rightarrow> string \<Rightarrow> 'a \<Rightarrow> 'a option" where
  "value_or A srv k d = (case srv k of None \<Rightarrow> Some d | Some v \<Rightarrow> A v)"

definition value_either :: "('j \<Rightarrow> 'a option) \<Rightarrow> (string \<Rightarrow> 'j option) \<Rightarrow> string \<Rightarrow> string \<Rightarrow> 'a \<Rightarrow> 'a option" where
  "value_either A srv k k2 d = (case value_or A srv k2 d of None \<Rightarrow> None | Some d2 \<Rightarrow> value_or A srv k d2)"

definition contains_either :: "('j \<Rightarrow> 'a option) \<Rightarrow> (string \<Rightarrow> 'j option) \<Rightarrow> string \<Rightarrow> string \<Rightarrow> 'a \<Rightarrow> 'a option" where
  "contains_either A srv k k2 d = (case srv k of Some v \<Rightarrow> A v | None \<Rightarrow> (case srv k2 of Some v \<Rightarrow> A v | None \<Rightarrow> Some d))"

definition assign :: "'a option \<Rightarrow> ('a \<Rightarrow> 'c \<Rightarrow> 'c) \<Rightarrow> 'c \<Rightarrow> 'c option" where
  "assign v put_field c = map_option (\<lambda>x. put_field x c) v"

definition load_assigns :: "('j, 'f::{numeral,zero}) json_api \<Rightarrow> int \<Rightarrow> (string \<Rightarrow> 'j option) \<Rightarrow> ('f ServerConfig \<Rightarrow> 'f ServerConfig option) list" where
  "load_assigns J hw srv =
    [assign (value_or (as_int J) srv ''port'' 9000) (\<lambda>v c. c\<lparr>cf_port := v\<rparr>),
     assign (contains_either (as_int J) srv ''worker_threads'' ''workerThreadCount'' hw) (\<lambda>v c. c\<lparr>cf_workerThreadCount := v\<rparr>),
     assign (contains_either (as_int J) srv ''task_worker_threads'' ''taskWorkerCount'' hw) (\<lambda>v c. c\<lparr>cf_taskWorkerCount := v\<rparr>),
     assign (contains_either (as_int J) srv ''db_worker_threads'' ''dbWorkerCount'' 2) (\<lambda>v c. c\<lparr>cf_dbWorkerCount := v\<rparr>),
     assign (value_either (as_string J) srv ''db_info'' ''dbAddress'' '''') (\<lambda>v c. c\<lparr>cf_dbAddress := v\<rparr>),
     assign (value_either (as_string J) srv ''db_type'' ''dbType'' ''sqlite'') (\<lambda>v c. c\<lparr>cf_dbType := v\<rparr>),
     assign (value_either (as_string J) srv ''db_user'' ''dbUser'' '''') (\<lambda>v c. c\<lparr>cf_dbUser := v\<rparr>),
     assign (value_either (as_string J) srv ''db_password'' ''dbPassword'' '''') (\<lambda>v c. c\<lparr>cf_dbPassword := v\<rparr>),
     assign (value_either (as_string J) srv ''db_schema'' ''dbSchema'' '''') (\<lambda>v c. c\<lparr>cf_dbSchema := v\<rparr>),
     assign (value_either (as_int J) srv ''db_port'' ''dbPort'' 3306) (\<lambda>v c. c\<lparr>cf_dbPort := v\<rparr>),
     assign (value_either (as_double J) srv ''rate_limit'' ''rateLimit'' 50) (\<lambda>v c. c\<lparr>cf_rateLimit := v\<rparr>),
     assign (value_either (as_double J) srv ''rate_burst'' ''rateBurst'' 100) (\<lambda>v c. c\<lparr>cf_rateBurst := v\<rparr>),
     assign (value_or (as_string J) srv ''encryption'' ''none'') (\<lambda>v c. c\<lparr>cf_encryption := v\<rparr>),
     assign (value_either (as_string J) srv ''encryption_key'' ''encryptionKey'' '''') (\<lambda>v c. c\<lparr>cf_encryptionKey := v\<rparr>),
     assign (value_either (as_string J) srv ''encryption_iv'' ''encryptionIV'' '''') (\<lambda>v c. c\<lparr>cf_encryptionIV := v\<rparr>),
     assign (value_or (as_string J) srv ''log_level'' ''info'') (\<lambda>v c. c\<lparr>cf_logLevel := v\<rparr>),
     assign (value_either (as_string J) srv ''server_role'' ''serverRole'' ''gateway'') (\<lambda>v c. c\<lparr>cf_serverRole := v\<rparr>),
     assign (value_either (as_bool J) srv ''websocket_enabled'' ''webSocketEnabled'' False) (\<lambda>v c. c\<lparr>cf_webSocketEnabled := v\<rparr>),
     assign (value_either (as_int J) srv ''websocket_port'' ''webSocketPort'' 9001) (\<lambda>v c. c\<lparr>cf_webSocketPort := v\<rparr>)]"

text \<open>The assignments one after the other; an exception ends them and leaves those already made.\<close>

fun run_assigns :: "('c \<Rightarrow> 'c option) list \<Rightarrow> 'c \<Rightarrow> bool \<times> 'c" where
  "run_assigns [] c = (True, c)"
| "run_assigns (f # fs) c = (case f c of None \<Rightarrow> (False, c) | Some c1 \<Rightarrow> run_assigns fs c1)"

definition Load_config :: "('j, 'f::{numeral,zero}) json_api \<Rightarrow> int \<Rightarrow> 'j config_file \<Rightarrow> 'f ServerConfig \<Rightarrow> bool \<times> 'f ServerConfig" where
  "Load_config J hw file c = (case file of
      Not_open \<Rightarrow> (False, c) | Bad_json \<Rightarrow> (False, c) | No_server \<Rightarrow> (True, c) | Server_no_object \<Rightarrow> (False, c)
    | Server srv \<Rightarrow> run_assigns (load_assigns J hw srv) c)"

text \<open>The members of a new loader.\<close>

definition JsonConfigLoader :: "'f::{numeral,zero} ServerConfig" where
  "JsonConfigLoader = \<lparr>cf_port = 0, cf_workerThreadCount = 0, cf_taskWorkerCount = 0, cf_dbWorkerCount = 2, cf_dbAddress = '''', cf_dbType = ''sqlite'',
     cf_dbUser = '''', cf_dbPassword = '''', cf_dbSchema = '''', cf_dbPort = 3306, cf_rateLimit = 50, cf_rateBurst = 100, cf_encryption = ''none'',
     cf_encryptionKey = '''', cf_encryptionIV = '''', cf_logLevel = ''info'', cf_serverRole = ''gateway'', cf_webSocketEnabled = False,
     cf_webSocketPort = 9001\<rparr>"

section \<open>Encryption\<close>

datatype cipher = XorEncryption u8 | AesCipher aes

text \<open>The key of the XOR cipher: a number, or else the first character; \<open>0xA5\<close> without a key.\<close>

definition xor_key :: "string \<Rightarrow> u8" where
  "xor_key k = (if k = [] then 0xA5 else case stoi k of Some n \<Rightarrow> word_of_int n | None \<Rightarrow> word_of_nat (of_char (hd k)))"

text \<open>Sixteen bytes of a text: cut, or filled with zeros.\<close>

definition key_bytes :: "string \<Rightarrow> bytes" where
  "key_bytes k = map (\<lambda>ch. word_of_nat (of_char ch)) (take 16 k) @ replicate (16 - length k) 0"

definition config_cipher :: "'f ServerConfig \<Rightarrow> cipher option" where
  "config_cipher cfg =
     (if cf_encryption cfg = ''xor'' then Some (XorEncryption (xor_key (cf_encryptionKey cfg)))
      else if cf_encryption cfg = ''aes''
      then (case AesEncryption (key_bytes (cf_encryptionKey cfg)) (key_bytes (cf_encryptionIV cfg)) of Inr a \<Rightarrow> Some (AesCipher a) | Inl _ \<Rightarrow> None)
      else None)"

definition configure_encryption :: "'f ServerConfig \<Rightarrow> ('q, cipher, 'k, 'e, 'p) factory \<Rightarrow> ('q, cipher, 'k, 'e, 'p) factory" where
  "configure_encryption cfg f =
     (if cf_encryption cfg \<in> {''xor'', ''aes''} then SetEncryptionFactory (Some (config_cipher cfg)) f else f)"

fun cipher_encrypt :: "cipher \<Rightarrow> bytes \<Rightarrow> bytes option" where
  "cipher_encrypt (XorEncryption k) = Xor_Encrypt k"
| "cipher_encrypt (AesCipher a) = Aes_Encrypt a"

fun cipher_decrypt :: "cipher \<Rightarrow> bytes \<Rightarrow> bytes option" where
  "cipher_decrypt (XorEncryption k) = Xor_Decrypt k"
| "cipher_decrypt (AesCipher a) = Aes_Decrypt a"

section \<open>The framework\<close>

text \<open>
  The members of \<open>Framework\<close> with the statics it sets up: the session factory, the message pool, the
  rate of the (never used) limiter and the message system.  A thread pool comes with its thread count; a database with its driver.
  \<open>fw_ioThreads\<close> says of every I/O thread whether \<open>_network->Run()\<close> has returned.
\<close>

record ('f, 'q, 'k, 'e, 'p, 'b, 'd, 'm, 'a) framework =
  fw_config :: "'f ServerConfig"
  fw_factory :: "('q, cipher, 'k, 'e, 'p) factory"
  fw_rate :: "'f \<times> 'f"
  fw_messages :: "'b mpool"
  fw_mq :: message_system
  fw_dispatcher :: "'m disp option"
  fw_network :: "tcp_net option"
  fw_threadPool :: "(nat \<times> 'a tp_state) option"
  fw_dbThreadPool :: "(nat \<times> 'a tp_state) option"
  fw_db :: "(driver \<times> 'd dbpool) option"
  fw_console :: "console option"
  fw_ioThreads :: "bool list"
  fw_running :: bool

text \<open>What \<open>Init\<close> finds: the queues, the size of a message header, the number of threads that post tasks, the drivers
  compiled in, and which ports can be bound.\<close>

record ('p, 'b, 'd, 'm) boot =
  b_sessions :: "('p, nat) cqueue"
  b_blocks :: "('b, block) cqueue"
  b_hdr :: nat
  b_conns :: "('d, nat) cqueue"
  b_noConns :: 'd
  b_noMessages :: 'm
  b_posters :: nat
  b_sqlite :: "(string \<Rightarrow> driver) option"
  b_mysql :: "(MySQLConfig \<Rightarrow> driver) option"
  b_canBind :: "u16 \<Rightarrow> bool"
  b_wsCanBind :: "u16 \<Rightarrow> bool"
  b_udpCanBind :: "u16 \<Rightarrow> bool"

definition configure_role :: "('p, nat) cqueue \<Rightarrow> 'f ServerConfig \<Rightarrow> ('q, 'c, 'k, 'e, 'p) factory \<Rightarrow> ('q, 'c, 'k, 'e, 'p) factory" where
  "configure_role P cfg f =
     (if cf_serverRole cfg = ''backend''
      then (SetServerRole Backend_role f)\<lparr>backendPool := WarmUp P 1000 (backendPool f)\<rparr>
      else (SetServerRole Gateway_role f)\<lparr>gatewayPool := WarmUp P 10000 (gatewayPool f)\<rparr>)"

text \<open>The database of \<open>Registry::Create\<close>: \<open>None\<close> when the driver throws.\<close>

definition db_factories ::
  "('p, 'b, 'd, 'm) boot \<Rightarrow> ('f ServerConfig \<Rightarrow> (driver \<times> 'd dbpool) option) db_registry" where
  "db_factories B = Database_Pool.Initialize
     (map_option (\<lambda>D cfg. Some (D (cf_dbAddress cfg), CreateSQLite (b_noConns B) (cf_dbWorkerCount cfg))) (b_sqlite B))
     (map_option (\<lambda>D cfg. map_option (\<lambda>mc. (D mc, DatabaseImpl (b_noConns B) (cf_dbWorkerCount cfg) 5000)) (CreateMySQL (cf_dbAddress cfg)))
        (b_mysql B))
     \<lparr>drivers = (\<lambda>_. None), initialized = False\<rparr>"

definition open_database :: "('p, 'b, 'd, 'm) boot \<Rightarrow> 'f ServerConfig \<Rightarrow> (driver \<times> 'd dbpool) option option" where
  "open_database B cfg = (case Create (cf_dbType cfg) cfg (db_factories B) of
      None \<Rightarrow> Some None
    | Some None \<Rightarrow> None
    | Some (Some (D, p)) \<Rightarrow> map_option (\<lambda>p1. Some (D, p1)) (Database_Pool.Init D (b_conns B) p))"

definition start_network :: "('p, 'b, 'd, 'm) boot \<Rightarrow> 'f ServerConfig \<Rightarrow> bool \<times> tcp_net" where
  "start_network B cfg = (let port = word_of_int (cf_port cfg) in Tcp_Start True (b_canBind B port) (b_udpCanBind B (port + 1)) NetworkImpl)"

definition start_webSocket :: "('p, 'b, 'd, 'm) boot \<Rightarrow> 'f ServerConfig \<Rightarrow> tcp_net \<Rightarrow> tcp_net" where
  "start_webSocket B cfg n =
     (if cf_webSocketEnabled cfg then n\<lparr>tn_ws := snd (Ws_Start True (b_wsCanBind B (word_of_int (cf_webSocketPort cfg))) (tn_ws n))\<rparr> else n)"

definition DispatcherImpl :: "'m \<Rightarrow> 'm disp" where
  "DispatcherImpl q = \<lparr>messageQueue = q, sessions = (\<lambda>_. None), pendingDestroy = [], packetHandler = True, timerHandler = False, waitingCount = 0,
     ownerThreadId = None\<rparr>"

text \<open>\<open>Init\<close>: its answer and the framework it leaves; \<open>None\<close> when the database driver throws.\<close>

definition Framework_Init ::
  "('p, 'b, 'd, 'm) boot \<Rightarrow> 'f ServerConfig \<Rightarrow> ('f, 'q, 'k, 'e, 'p, 'b, 'd, 'm, 'a) framework
     \<Rightarrow> (bool \<times> ('f, 'q, 'k, 'e, 'p, 'b, 'd, 'm, 'a) framework) option" where
  "Framework_Init B cfg fw0 =
     (let fw1 = fw0\<lparr>fw_config := cfg,
            fw_factory := configure_encryption cfg (configure_role (b_sessions B) cfg (fw_factory fw0)),
            fw_messages := Prepare (b_blocks B) (b_hdr B) 20000 5000 1000 (fw_messages fw0),
            fw_rate := (cf_rateLimit cfg, cf_rateBurst cfg),
            fw_dispatcher := Some (DispatcherImpl (b_noMessages B)), fw_network := Some NetworkImpl\<rparr>;
          taskThreads = cf_taskWorkerCount cfg
      in if taskThreads \<le> 0 then Some (False, fw1)
         else let dbThreads = (if cf_dbWorkerCount cfg \<le> 0 then 1 else cf_dbWorkerCount cfg);
                  fw2 = fw1\<lparr>fw_threadPool := Some (nat taskThreads, new_pool (b_posters B)),
                            fw_dbThreadPool := Some (nat dbThreads, new_pool (b_posters B))\<rparr>
              in case open_database B cfg of None \<Rightarrow> None
                 | Some made \<Rightarrow>
                     (case start_network B cfg of (ok, n) \<Rightarrow>
                        let fw3 = fw2\<lparr>fw_db := made, fw_network := Some n\<rparr>
                        in if \<not> ok then Some (False, fw3)
                           else Some (True, fw3\<lparr>fw_network := Some (start_webSocket B cfg n), fw_console := Some CommandConsole\<rparr>)))"

definition on_pool :: "(nat \<Rightarrow> 'a tp_state \<Rightarrow> 'a tp_state) \<Rightarrow> (nat \<times> 'a tp_state) option \<Rightarrow> (nat \<times> 'a tp_state) option" where
  "on_pool g p = map_option (\<lambda>(n, s). (n, g n s)) p"

text \<open>\<open>Run\<close> up to its loop; \<open>None\<close> when \<open>reserve\<close> throws for a negative number of threads.\<close>

definition Run_begin ::
  "('f, 'q, 'k, 'e, 'p, 'b, 'd, 'm, 'a) framework \<Rightarrow> ('f, 'q, 'k, 'e, 'p, 'b, 'd, 'm, 'a) framework option" where
  "Run_begin fw =
     (let n = cf_workerThreadCount (fw_config fw);
          fw1 = fw\<lparr>fw_running := True, fw_console := map_option (\<lambda>c. snd (Console_Start c)) (fw_console fw)\<rparr>
      in if n < 0 then None
         else Some (fw1\<lparr>fw_ioThreads := fw_ioThreads fw1 @ replicate (nat n) False,
                        fw_threadPool := on_pool Strand_Pool.Start (fw_threadPool fw1),
                        fw_dbThreadPool := on_pool Strand_Pool.Start (fw_dbThreadPool fw1)\<rparr>))"

text \<open>The loop: what each turn reads from \<open>_running\<close>, and the messages other threads post before it.  \<open>Wait\<close> only passes time.
  \<open>None\<close>: the loop has not ended.\<close>

fun main_loop ::
  "('m, imessage) cqueue \<Rightarrow> 'w callbacks \<Rightarrow> nat \<Rightarrow> (bool \<times> imessage list) list \<Rightarrow> 'm disp \<times> 'w \<Rightarrow> ('m disp \<times> 'w) option" where
  "main_loop Q E thread [] dw = None"
| "main_loop Q E thread ((running, msgs) # turns) dw =
     (if \<not> running then Some dw
      else main_loop Q E thread turns (snd (Process Q E thread (post_all Q msgs (fst dw), snd dw))))"

definition Framework_Stop ::
  "('f, 'q, 'k, 'e, 'p, 'b, 'd, 'm, 'a) framework \<Rightarrow> ('f, 'q, 'k, 'e, 'p, 'b, 'd, 'm, 'a) framework" where
  "Framework_Stop fw =
     (if \<not> fw_running fw then fw
      else fw\<lparr>fw_running := False, fw_network := map_option Tcp_Stop (fw_network fw), fw_console := map_option Console_Stop (fw_console fw)\<rparr>)"

text \<open>The I/O threads return once the event loop is stopped.\<close>

definition io_threads_return ::
  "('f, 'q, 'k, 'e, 'p, 'b, 'd, 'm, 'a) framework \<Rightarrow> ('f, 'q, 'k, 'e, 'p, 'b, 'd, 'm, 'a) framework" where
  "io_threads_return fw = (case fw_network fw of
      None \<Rightarrow> fw
    | Some n \<Rightarrow> if tn_ioStopped n then fw\<lparr>fw_ioThreads := map (\<lambda>_. True) (fw_ioThreads fw)\<rparr> else fw)"

text \<open>Stopping a pool and waiting for it, while its threads take the steps \<open>es\<close>; \<open>None\<close>: they have not all returned.\<close>

definition stop_and_join :: "'a pool_event list \<Rightarrow> (nat \<times> 'a tp_state) option \<Rightarrow> (nat \<times> 'a tp_state) option option" where
  "stop_and_join es p = (case p of
      None \<Rightarrow> Some None
    | Some (n, s) \<Rightarrow> map_option (\<lambda>s1. Some (n, s1)) (Option.bind (pool_run n es (Stop_release (Strand_Pool.Stop n s))) Join))"

definition Framework_Join ::
  "'a pool_event list \<Rightarrow> 'a pool_event list \<Rightarrow> ('f, 'q, 'k, 'e, 'p, 'b, 'd, 'm, 'a) framework
     \<Rightarrow> ('f, 'q, 'k, 'e, 'p, 'b, 'd, 'm, 'a) framework option" where
  "Framework_Join es des fw0 =
     (let fw = fw0\<lparr>fw_console := map_option Console_Stop (fw_console fw0)\<rparr>
      in case (MQ_Shutdown (fw_mq fw), stop_and_join es (fw_threadPool fw), stop_and_join des (fw_dbThreadPool fw)) of
           (Some mq, Some tp, Some dp) \<Rightarrow>
             let fw1 = io_threads_return (fw\<lparr>fw_mq := mq, fw_threadPool := tp, fw_dbThreadPool := dp\<rparr>)
             in if list_all id (fw_ioThreads fw1) then Some (fw1\<lparr>fw_ioThreads := []\<rparr>) else None
         | _ \<Rightarrow> None)"

section \<open>The configured cipher\<close>

fun cipher_ok :: "cipher \<Rightarrow> bool" where
  "cipher_ok (XorEncryption k) = True"
| "cipher_ok (AesCipher a) = aes_ok a"

interpretation configured: packet_cipher cipher_encrypt cipher_decrypt cipher_ok
proof
  show "length ys = length xs" if "cipher_ok k" "cipher_encrypt k xs = Some ys" for k xs ys
    using that xor_cipher.encrypt_length aes_cipher.encrypt_length by (cases k) simp_all
  show "cipher_decrypt k ys = Some xs" if "cipher_ok k" "cipher_encrypt k xs = Some ys" for k xs ys
    using that xor_cipher.decrypt_encrypt aes_cipher.decrypt_encrypt by (cases k) simp_all
qed

lemma key_bytes_length [simp]: "length (key_bytes k) = 16"
  by (simp add: key_bytes_def)

lemma config_cipher_made:
  assumes "cf_encryption cfg \<in> {''xor'', ''aes''}"
  shows "\<exists>c. config_cipher cfg = Some c \<and> cipher_ok c"
proof (cases "cf_encryption cfg = ''xor''")
  case False
  obtain a where a: "AesEncryption (key_bytes (cf_encryptionKey cfg)) (key_bytes (cf_encryptionIV cfg)) = Inr a"
    by (simp add: AesEncryption_def)
  have "config_cipher cfg = Some (AesCipher a)" using assms False a by (simp add: config_cipher_def)
  then show ?thesis using AesEncryption_ok [OF a] by simp
qed (simp add: config_cipher_def)

lemma config_cipher_cong:
  "cf_encryption cfg' = cf_encryption cfg \<Longrightarrow> cf_encryptionKey cfg' = cf_encryptionKey cfg \<Longrightarrow> cf_encryptionIV cfg' = cf_encryptionIV cfg \<Longrightarrow>
     config_cipher cfg' = config_cipher cfg"
  unfolding config_cipher_def by simp

lemma cipher_encrypt_defined: "length bs mod 16 = 0 \<Longrightarrow> cipher_encrypt c bs \<noteq> None"
  using cbc_encrypt_defined by (cases c) (simp_all add: Xor_Encrypt_def Aes_Encrypt_def)

text \<open>C27. Two servers with the same encryption settings understand each other: for \<open>xor\<close> and \<open>aes\<close> with any texts as key and vector, each
  makes a cipher, and a packet of whole blocks encrypted by one is decrypted by the other to the same bytes, at the same length.\<close>

theorem configured_cipher_agrees:
  assumes "cf_encryption cfg \<in> {''xor'', ''aes''}" "length bs mod 16 = 0"
    and "cf_encryption cfg' = cf_encryption cfg" "cf_encryptionKey cfg' = cf_encryptionKey cfg" "cf_encryptionIV cfg' = cf_encryptionIV cfg"
  shows "\<exists>c d e. encryptionFactory (configure_encryption cfg f) = Some (Some c) \<and> encryptionFactory (configure_encryption cfg' f') = Some (Some d) \<and>
    cipher_encrypt c bs = Some e \<and> length e = length bs \<and> cipher_decrypt d e = Some bs"
proof -
  obtain c where c: "config_cipher cfg = Some c" "cipher_ok c" using config_cipher_made [OF assms(1)] by blast
  have d: "config_cipher cfg' = Some c" using c(1) config_cipher_cong [OF assms(3-5)] by simp
  obtain e where e: "cipher_encrypt c bs = Some e" using cipher_encrypt_defined [OF assms(2)] by blast
  show ?thesis
    using assms(1,3) c d e configured.encrypt_length [OF c(2) e] configured.decrypt_encrypt [OF c(2) e]
    by (auto simp: configure_encryption_def SetEncryptionFactory_def)
qed

definition aes_config :: "int ServerConfig" where
  "aes_config = JsonConfigLoader\<lparr>cf_encryption := ''aes'', cf_encryptionKey := ''short'', cf_workerThreadCount := 2, cf_taskWorkerCount := 3\<rparr>"

theorem configured_cipher_agrees_witness:
  "\<forall>f. \<exists>c d e. encryptionFactory (configure_encryption aes_config f) = Some (Some c) \<and>
     encryptionFactory (configure_encryption (aes_config\<lparr>cf_port := 7\<rparr>) f) = Some (Some d) \<and>
     cipher_encrypt c (replicate 32 5) = Some e \<and> cipher_decrypt d e = Some (replicate 32 5)"
  using configured_cipher_agrees [of aes_config "replicate 32 5" "aes_config\<lparr>cf_port := 7\<rparr>"]
  by (simp add: aes_config_def) blast

text \<open>A key of 256 for the XOR cipher is the key 0, which changes nothing in the first byte.\<close>

lemma xor_key_256: "xor_key ''256'' = 0 \<and> xor_key ''0'' = 0"
  by code_simp

section \<open>Configuration errors\<close>

text \<open>A reload that fails leaves the values that were read before the error, so the configuration is a mixture of two files.\<close>

lemma failed_reload_mixes:
  assumes "srv ''port'' = Some jp" "as_int J jp = Some p" "srv ''worker_threads'' = Some jw" "as_int J jw = None"
  shows "Load_config J hw (Server srv) c = (False, c\<lparr>cf_port := p\<rparr>)"
  using assms by (simp add: Load_config_def load_assigns_def assign_def value_or_def contains_either_def)

text \<open>\<open>db_worker_threads = 0\<close>: the number of threads is raised to one, the size of the connection pool is not, and no connection is
  ever given.\<close>

lemma empty_pool_gives_nothing:
  assumes "try_dequeue Q (dpool p) = None" "poolMax p \<le> currentSize p" "t \<noteq> - 1"
  shows "Database_Pool.Acquire D Q t p = Some (None, p)"
  using assms by (simp add: Database_Pool.Acquire_def take_valid.simps)

lemma no_db_workers_no_connection:
  assumes "cf_dbWorkerCount cfg = 0" "cf_dbType cfg = ''sqlite''" "b_sqlite B = Some D"
    and "try_dequeue (b_conns B) (b_noConns B) = None"
  shows "\<exists>p. open_database B cfg = Some (Some (D (cf_dbAddress cfg), p)) \<and>
    (\<forall>t. t \<noteq> - 1 \<longrightarrow> Database_Pool.Acquire (D (cf_dbAddress cfg)) (b_conns B) t p = Some (None, p))"
proof -
  let ?p = "DatabaseImpl (b_noConns B) 0 5000" and ?D = "D (cf_dbAddress cfg)"
  have n: "Database_Pool.Acquire ?D (b_conns B) t ?p = Some (None, ?p)" if "t \<noteq> - 1" for t
    using that assms(4) by (intro empty_pool_gives_nothing) (simp_all add: DatabaseImpl_def)
  have "Create (cf_dbType cfg) cfg (db_factories B) = Some (Some (?D, ?p))"
    using assms(1-3) by (simp add: Create_def db_factories_def Database_Pool.Initialize_def Database_Pool.Register_def Let_def CreateSQLite_def split: option.split)
  then show ?thesis using n by (simp add: open_database_def Database_Pool.Init_def)
qed

section \<open>Shutdown\<close>

text \<open>The steps by which the idle workers \<open>0 \<dots> n - 1\<close> of a stopped pool return: each takes a permit and sees \<open>_stop\<close>.\<close>

definition retire :: "nat \<Rightarrow> 'a pool_event list" where
  "retire n = concat (map (\<lambda>j. [WorkerMoves j 0 False, WorkerMoves j 0 False]) [0..<n])"

lemma pool_run_append: "pool_run n (es @ fs) s = Option.bind (pool_run n es s) (pool_run n fs)"
  by (induction es arbitrary: s) (simp_all split: option.split)

lemma retire_one:
  assumes "stopFlag s" "0 < taskSemaphore s" "j < length (threads s)" "threads s ! j = Acquire"
  shows "pool_run n [WorkerMoves j 0 False, WorkerMoves j 0 False] s
    = Some (s\<lparr>threads := (threads s)[j := Exited], taskSemaphore := taskSemaphore s - 1\<rparr>)"
  using assms by (simp add: put_worker_def)

lemma retire_run:
  fixes s :: "'a tp_state"
  assumes "stopFlag s" "threads s = replicate n Acquire" "n \<le> taskSemaphore s" "m \<le> n"
  shows "pool_run n (retire m) s
    = Some (s\<lparr>threads := replicate m Exited @ replicate (n - m) Acquire, taskSemaphore := taskSemaphore s - m\<rparr>)"
  using assms(4)
proof (induction m)
  case 0
  then show ?case using assms(2) by (simp add: retire_def)
next
  case (Suc m)
  have r: "(retire (Suc m) :: 'a pool_event list) = retire m @ [WorkerMoves m 0 False, WorkerMoves m 0 False]" by (simp add: retire_def)
  obtain k where k: "n - m = Suc k" "n - Suc m = k" using Suc.prems by (cases "n - m") auto
  have u: "(replicate m Exited @ replicate (n - m) (Acquire :: 'a worker))[m := Exited] = replicate (Suc m) Exited @ replicate (n - Suc m) Acquire"
    by (simp add: k list_update_append replicate_app_Cons_same)
  show ?case
    using Suc.IH Suc.prems assms(1,3) u unfolding r pool_run_append by (simp add: retire_one nth_append del: pool_run.simps)
qed

lemma idle_pool_joins:
  assumes "\<not> stopFlag s" "threads s = replicate n Acquire"
  shows "\<exists>s1. stop_and_join (retire n) (Some (n, s)) = Some (Some (n, s1)) \<and> threads s1 = []"
proof -
  let ?s = "Stop_release (Strand_Pool.Stop n s)"
  have "pool_run n (retire n) ?s = Some (?s\<lparr>threads := replicate n Exited, taskSemaphore := taskSemaphore ?s - n\<rparr>)"
    using retire_run [of ?s n n] assms by (simp add: Stop_release_def Strand_Pool.Stop_def)
  then show ?thesis by (simp add: stop_and_join_def Join_def list_all_iff)
qed

text \<open>A server that is down: nothing runs, and nobody can connect.\<close>

definition no_workers :: "(nat \<times> 'a tp_state) option \<Rightarrow> bool" where
  "no_workers p \<longleftrightarrow> (case p of None \<Rightarrow> True | Some (n, s) \<Rightarrow> threads s = [])"

definition server_down :: "('f, 'q, 'k, 'e, 'p, 'b, 'd, 'm, 'a) framework \<Rightarrow> bool" where
  "server_down fw \<longleftrightarrow> \<not> fw_running fw \<and> fw_ioThreads fw = [] \<and> no_workers (fw_threadPool fw) \<and> no_workers (fw_dbThreadPool fw) \<and>
     (case fw_console fw of None \<Rightarrow> True | Some c \<Rightarrow> \<not> con_running c) \<and> ms_fast (fw_mq fw) = None \<and> ms_reliable (fw_mq fw) = None \<and>
     (case fw_network fw of None \<Rightarrow> True | Some n \<Rightarrow> \<not> tn_open n \<and> wn_acceptor (tn_ws n) \<noteq> Some True \<and> wn_sessions (tn_ws n) = [])"

lemma stop_and_join_down: "stop_and_join es p = Some q \<Longrightarrow> no_workers q"
  by (cases p) (auto simp: stop_and_join_def no_workers_def Join_def Option.bind_eq_Some_conv split: if_splits)

lemma io_threads_stopped:
  assumes "fw_network fw = Some n" "tn_ioStopped n"
  shows "list_all id (fw_ioThreads (io_threads_return fw))"
  using assms by (simp add: io_threads_return_def list_all_iff)

lemma MQ_Shutdown_empty: "MQ_Shutdown m = Some m' \<Longrightarrow> ms_fast m' = None \<and> ms_reliable m' = None"
  by (auto simp: MQ_Shutdown_def split: if_splits)

lemma Init_parts:
  assumes "Framework_Init B cfg fw0 = Some (True, fw)"
  shows "\<exists>n. fw_network fw = Some n" "\<exists>n. fw_threadPool fw = Some (n, new_pool (b_posters B))"
    "\<exists>n. fw_dbThreadPool fw = Some (n, new_pool (b_posters B))" "fw_console fw = Some CommandConsole" "fw_mq fw = fw_mq fw0"
    "fw_config fw = cfg"
  using assms by (auto simp: Framework_Init_def Let_def split: if_splits option.splits prod.splits)

lemma Run_parts:
  assumes "Run_begin fw = Some fw1"
  shows "fw_running fw1" "fw_network fw1 = fw_network fw" "fw_threadPool fw1 = on_pool Strand_Pool.Start (fw_threadPool fw)"
    "fw_dbThreadPool fw1 = on_pool Strand_Pool.Start (fw_dbThreadPool fw)" "fw_mq fw1 = fw_mq fw"
    "fw_console fw1 = map_option (\<lambda>c. snd (Console_Start c)) (fw_console fw)"
    "length (fw_ioThreads fw1) = length (fw_ioThreads fw) + nat (cf_workerThreadCount (fw_config fw))"
  using assms by (auto simp: Run_begin_def Let_def split: if_splits)

lemma Join_down:
  assumes "Framework_Join es des fw = Some fw'" "\<not> fw_running fw" "fw_network fw = Some (Tcp_Stop n)"
  shows "server_down fw'"
proof -
  obtain mq tp dp where p: "MQ_Shutdown (fw_mq fw) = Some mq" "stop_and_join es (fw_threadPool fw) = Some tp"
    "stop_and_join des (fw_dbThreadPool fw) = Some dp"
    using assms(1) by (auto simp: Framework_Join_def Let_def split: option.splits)
  have t: "tn_ioStopped (Tcp_Stop n)" "wn_acceptor (tn_ws (Tcp_Stop n)) \<noteq> Some True"
    by (simp_all add: Tcp_Stop_def Ws_Stop_def Let_def)
  show ?thesis
    using assms p t Tcp_Stop_closed [of n] stop_and_join_down [OF p(2)] stop_and_join_down [OF p(3)] MQ_Shutdown_empty [OF p(1)]
    by (auto simp: Framework_Join_def Let_def server_down_def io_threads_return_def Console_Stop_def split: if_splits option.split)
qed

lemma Join_returns:
  assumes "MQ_Shutdown (fw_mq fw) = Some mq" "fw_network fw = Some n" "tn_ioStopped n"
    and "stop_and_join es (fw_threadPool fw) = Some tp" "stop_and_join des (fw_dbThreadPool fw) = Some dp"
  shows "\<exists>fw'. Framework_Join es des fw = Some fw'"
  using assms by (simp add: Framework_Join_def io_threads_return_def Let_def list_all_iff)

lemma started_pool_joins:
  assumes "on_pool Strand_Pool.Start (Some (n, new_pool M)) = p"
  shows "\<exists>es q. stop_and_join es p = Some q"
proof -
  have "p = Some (n, Strand_Pool.Start n (new_pool M))" using assms by (simp add: on_pool_def)
  then show ?thesis using idle_pool_joins [of "Strand_Pool.Start n (new_pool M)" n] by (auto simp: Strand_Pool.Start_def new_pool_def)
qed

lemma nats_only_shutdown: "\<exists>mq. MQ_Shutdown (snd (MQ_Initialize natsMade False pong pool MessageSystem)) = Some mq"
  by (simp add: MQ_Shutdown_def MQ_Initialize_def MessageSystem_def Nats_Connect_def NatsDriver_def Nats_Disconnect_def Redis_Connect_def
      split: if_splits prod.split)


definition framework0 ::
  "('q, cipher, 'k, 'e, 'p) factory \<Rightarrow> 'b mpool \<Rightarrow> (int, 'q, 'k, 'e, 'p, 'b, 'd, 'm, nat) framework" where
  "framework0 f b = \<lparr>fw_config = JsonConfigLoader, fw_factory = f, fw_rate = (0, 0), fw_messages = b, fw_mq = MessageSystem, fw_dispatcher = None,
     fw_network = None, fw_threadPool = None, fw_dbThreadPool = None, fw_db = None, fw_console = None, fw_ioThreads = [], fw_running = False\<rparr>"

definition boot0 :: "(nat list, block list, nat list, imessage list) boot" where
  "boot0 = \<lparr>b_sessions = list_queue, b_blocks = list_queue, b_hdr = 32, b_conns = list_queue, b_noConns = [], b_noMessages = [], b_posters = 4,
     b_sqlite = None, b_mysql = None, b_canBind = (\<lambda>_. True), b_wsCanBind = (\<lambda>_. True), b_udpCanBind = (\<lambda>_. False)\<rparr>"

lemma framework0_runs:
  "\<exists>fw fw1. Framework_Init boot0 aes_config (framework0 f b) = Some (True, fw) \<and> Run_begin fw = Some fw1 \<and> length (fw_ioThreads fw1) = 2"
proof -
  have d: "open_database boot0 aes_config = Some None"
    by (simp add: open_database_def Create_def db_factories_def Database_Pool.Initialize_def boot0_def)
  have "fst (start_network boot0 aes_config)" by (simp add: start_network_def Tcp_Start_def boot0_def Let_def)
  then obtain fw where fw: "Framework_Init boot0 aes_config (framework0 f b) = Some (True, fw)" "fw_ioThreads fw = []"
    using d by (simp add: Framework_Init_def Let_def case_prod_beta aes_config_def JsonConfigLoader_def framework0_def)
  have c: "fw_config fw = aes_config" using Init_parts [OF fw(1)] by simp
  then obtain fw1 where r: "Run_begin fw = Some fw1" by (simp add: Run_begin_def Let_def aes_config_def)
  have "length (fw_ioThreads fw1) = 2" using Run_parts(7) [OF r] c fw(2) by (simp add: aes_config_def)
  then show ?thesis using fw(1) r by blast
qed


text \<open>The loop of \<open>Run\<close> ends at the first turn that finds \<open>_running\<close> false.\<close>

lemma main_loop_ends: "(False, msgs) \<in> set turns \<Longrightarrow> \<exists>dw'. main_loop Q E thread turns dw = Some dw'"
  by (induction Q E thread turns dw rule: main_loop.induct) auto

text \<open>A \<open>Stop\<close> that comes before \<open>Run\<close> is lost, and one that comes again changes nothing.\<close>

lemma early_stop_is_lost: "\<not> fw_running fw \<Longrightarrow> Framework_Stop fw = fw"
  by (simp add: Framework_Stop_def)

lemma stop_twice: "Framework_Stop (Framework_Stop fw) = Framework_Stop fw"
  by (simp add: Framework_Stop_def)

section \<open>\<open>ServerApp\<close>\<close>

text \<open>The framework, the rooms (\<open>RoomManager\<close>) and the commands (\<open>CommandManager\<close>).  The game tables are those of the theory of game
  data; whatever their loading answers, \<open>InitGameData\<close> goes on.\<close>

record ('f, 'q, 'k, 'e, 'p, 'b, 'd, 'm, 'a) app =
  app_framework :: "('f, 'q, 'k, 'e, 'p, 'b, 'd, 'm, 'a) framework"
  app_server :: "'f server"
  app_commands :: commands

definition InitFramework ::
  "('p, 'b, 'd, 'm) boot \<Rightarrow> 'f ServerConfig \<Rightarrow> ('f, 'q, 'k, 'e, 'p, 'b, 'd, 'm, 'a) framework
     \<Rightarrow> (bool \<times> ('f, 'q, 'k, 'e, 'p, 'b, 'd, 'm, 'a) framework) option" where
  "InitFramework B cfg fw0 = (case Framework_Init B cfg fw0 of
      None \<Rightarrow> None
    | Some (ok, fw) \<Rightarrow> Some (ok, if ok then fw\<lparr>fw_factory := SetHeartbeatConfig 5000 15000 (fw_factory fw)\<rparr> else fw))"

text \<open>\<open>InitGameLogic\<close>, with the database of the framework, and the answers of the message servers; \<open>None\<close> when a statement of \<open>InitSchema\<close>
  never returns.\<close>

definition InitGameLogic ::
  "('d, nat) cqueue \<Rightarrow> room_in \<Rightarrow> bool \<Rightarrow> bool \<Rightarrow> bool \<Rightarrow> driver \<times> 'd dbpool
     \<Rightarrow> ('f::zero, 'q, 'k, 'e, 'p, 'b, 'd, 'm, 'a) app \<Rightarrow> ('f, 'q, 'k, 'e, 'p, 'b, 'd, 'm, 'a) app option" where
  "InitGameLogic Q I natsMade redisMade pong made a =
     (case made of (D, p) \<Rightarrow>
      (case InitSchema D Q (Some p) of
        None \<Rightarrow> None
      | Some p1 \<Rightarrow>
          let fw = app_framework a;
              (ok, mq) = MQ_Initialize natsMade redisMade pong (fw_threadPool fw \<noteq> None) (fw_mq fw);
              mq1 = (if ok then snd (MQ_Subscribe None ''LobbyChat'' 0 Reliable mq) else mq)
          in Some (a\<lparr>app_framework := fw\<lparr>fw_db := map_option (Pair D) p1, fw_mq := mq1\<rparr>, app_server := Room_Manager.Init I (app_server a),
                     app_commands := Commands_Init (app_commands a)\<rparr>)))"

definition ServerApp_Init ::
  "('j, 'f::{numeral,zero}) json_api \<Rightarrow> int \<Rightarrow> 'j config_file \<Rightarrow> ('p, 'b, 'd, 'm) boot \<Rightarrow> room_in \<Rightarrow> bool \<Rightarrow> bool \<Rightarrow> bool
     \<Rightarrow> ('f, 'q, 'k, 'e, 'p, 'b, 'd, 'm, 'a) app \<Rightarrow> (bool \<times> ('f, 'q, 'k, 'e, 'p, 'b, 'd, 'm, 'a) app) option" where
  "ServerApp_Init J hw file B I natsMade redisMade pong a =
     (case Load_config J hw file JsonConfigLoader of (loaded, cfg) \<Rightarrow>
      if \<not> loaded then Some (False, a)
      else (case InitFramework B cfg (app_framework a) of
        None \<Rightarrow> None
      | Some (ok, fw) \<Rightarrow>
          let a1 = a\<lparr>app_framework := fw\<rparr>
          in if \<not> ok then Some (False, a1)
             else (case fw_db fw of
               None \<Rightarrow> Some (False, a1)
             | Some made \<Rightarrow>
                 (case InitGameLogic (b_conns B) I natsMade redisMade pong made a1 of
                    None \<Rightarrow> None
                  | Some a2 \<Rightarrow>
                      Some (True, a2\<lparr>app_framework := (app_framework a2)\<lparr>fw_console :=
                        map_option (RegisterConsoleCommands (app_commands a2)) (fw_console (app_framework a2))\<rparr>\<rparr>)))))"

text \<open>\<open>Run\<close> after the loop of the framework has ended.\<close>

definition Run_end ::
  "('p, nat) cqueue \<Rightarrow> 'a pool_event list \<Rightarrow> 'a pool_event list \<Rightarrow> ('f, 'q, 'k, 'e, 'p, 'b, 'd, 'm, 'a) app
     \<Rightarrow> ('f, 'q, 'k, 'e, 'p, 'b, 'd, 'm, 'a) app option" where
  "Run_end P es des a =
     (let a1 = a\<lparr>app_server := snd (Cleanup_rooms (app_server a))\<rparr>; fw = app_framework a1
      in case Cleanup P (fw_factory fw) of
           None \<Rightarrow> None
         | Some f \<Rightarrow> map_option (\<lambda>fw1. a1\<lparr>app_framework := fw1\<rparr>) (Framework_Join es des (fw\<lparr>fw_factory := f\<rparr>)))"

text \<open>A server that has started has a database, the default room and a console that knows every command of the game, and beats
  every five seconds.\<close>

lemma started_server_ready:
  assumes "ServerApp_Init J hw file B I natsMade redisMade pong a = Some (True, a')" "sv_rooms (app_server a) = []"
  shows "fw_db (app_framework a') \<noteq> None \<and> GetRoom (app_server a') 1 \<noteq> None \<and> f_hbInterval (fw_factory (app_framework a')) = 5000 \<and>
    (\<exists>c. fw_console (app_framework a') = Some (RegisterConsoleCommands (app_commands a') c))"
proof -
  obtain cfg fw made a2 where 1: "Framework_Init B cfg (app_framework a) = Some (True, fw)"
    "InitGameLogic (b_conns B) I natsMade redisMade pong made
       (a\<lparr>app_framework := fw\<lparr>fw_factory := SetHeartbeatConfig 5000 15000 (fw_factory fw)\<rparr>\<rparr>) = Some a2"
    "a' = a2\<lparr>app_framework := (app_framework a2)\<lparr>fw_console :=
       map_option (RegisterConsoleCommands (app_commands a2)) (fw_console (app_framework a2))\<rparr>\<rparr>"
    using assms(1)
    by (auto simp: ServerApp_Init_def InitFramework_def Let_def split: prod.splits if_splits option.splits)
  have "fw_db (app_framework a2) \<noteq> None" "app_server a2 = Room_Manager.Init I (app_server a)"
    "fw_factory (app_framework a2) = SetHeartbeatConfig 5000 15000 (fw_factory fw)" "fw_console (app_framework a2) = fw_console fw"
    using 1(2) by (auto simp: InitGameLogic_def InitSchema_def Let_def split: prod.splits option.splits)
  then show ?thesis
    using 1(3) assms(2) Init_parts(4) [OF 1(1)]
    by (simp add: Room_Manager.Init_def CreateRoom_def GetRoom_def SetHeartbeatConfig_def) blast
qed

end
