(* ===== verification/Timing_Wheel.thy ===== *)
theory Timing_Wheel
  imports Prelude
begin

text \<open>
  The hierarchical timing wheel of \<^verbatim>\<open>src/System/Timer/TimingWheel.h\<close>: five arrays of
  buckets (256 slots at level one, 64 at each of the four others), \<open>Add\<close>, the cascade of
  a bucket into the levels below and \<open>Advance\<close>.  Nodes are shared (\<^verbatim>\<open>shared_ptr\<close>), so the
  buckets hold references and a heap maps a reference to its node: the \<open>cancelled\<close> flag a
  client sets is seen by the wheel.  Ticks are 32-bit words and wrap.

  Shown: the loops of a tick end, no node is lost, popped early or popped late, and a node
  whose expiry lies in the past waits for a whole turn of the 32-bit tick counter.
\<close>

section \<open>Data\<close>

type_synonym listener = nat \<comment> \<open>an address; 0 is the null pointer\<close>
type_synonym node_ref = nat

record node =
  node_id :: u64
  logicTimerId :: u32
  pParam :: nat
  expiryTick :: u32
  intervalTick :: u32
  rawListener :: listener
  weakListener :: listener
  useWeak :: bool
  cancelled :: bool

type_synonym heap = "node_ref \<Rightarrow> node"

datatype tv_level = TV1 | TV2 | TV3 | TV4 | TV5

record wheel =
  currentTick :: u32
  tv :: "tv_level \<Rightarrow> nat \<Rightarrow> node_ref list"

definition TVR_BITS :: nat where "TVR_BITS = 8"
definition TVN_BITS :: nat where "TVN_BITS = 6"
definition TVR_SIZE :: u32 where "TVR_SIZE = push_bit TVR_BITS 1"
definition TVN_SIZE :: u32 where "TVN_SIZE = push_bit TVN_BITS 1"
definition TVR_MASK :: u32 where "TVR_MASK = TVR_SIZE - 1"
definition TVN_MASK :: u32 where "TVN_MASK = TVN_SIZE - 1"

lemmas tv_consts [conc] = TVR_BITS_def TVN_BITS_def TVR_SIZE_def TVN_SIZE_def TVR_MASK_def TVN_MASK_def

definition new_wheel :: wheel where
  "new_wheel = \<lparr>currentTick = 0, tv = (\<lambda>_ _. [])\<rparr>"

definition push_back :: "tv_level \<Rightarrow> nat \<Rightarrow> node_ref \<Rightarrow> wheel \<Rightarrow> wheel" where
  "push_back l i n w = w\<lparr>tv := (tv w)(l := (tv w l)(i := tv w l i @ [n]))\<rparr>"

section \<open>Operations\<close>

definition Add :: "heap \<Rightarrow> node_ref \<Rightarrow> wheel \<Rightarrow> wheel" where
  "Add h n w =
     (let expires = expiryTick (h n);
          idx = expires - currentTick w
      in if idx < TVR_SIZE
         then push_back TV1 (unat (expires AND TVR_MASK)) n w
         else if idx < push_bit (TVR_BITS + TVN_BITS) 1
         then push_back TV2 (unat (drop_bit TVR_BITS expires AND TVN_MASK)) n w
         else if idx < push_bit (TVR_BITS + 2 * TVN_BITS) 1
         then push_back TV3 (unat (drop_bit (TVR_BITS + TVN_BITS) expires AND TVN_MASK)) n w
         else if idx < push_bit (TVR_BITS + 3 * TVN_BITS) 1
         then push_back TV4 (unat (drop_bit (TVR_BITS + 2 * TVN_BITS) expires AND TVN_MASK)) n w
         else if sint (ucast idx :: u64) < 0
         then push_back TV1 (unat ((currentTick w + 1) AND TVR_MASK)) n w
         else push_back TV5 (unat (drop_bit (TVR_BITS + 3 * TVN_BITS) expires AND TVN_MASK)) n w)"

text \<open>
  \<open>Cascade\<close> walks the bucket it empties: each node is added again, which may append to the
  very bucket being walked, and is then erased from the front.  The loop is kept as it is;
  not returning is the value \<open>None\<close>.
\<close>

definition erase_front :: "tv_level \<Rightarrow> nat \<Rightarrow> wheel \<Rightarrow> wheel" where
  "erase_front l i w = w\<lparr>tv := (tv w)(l := (tv w l)(i := tl (tv w l i)))\<rparr>"

partial_function (option) Cascade :: "heap \<Rightarrow> tv_level \<Rightarrow> nat \<Rightarrow> wheel \<Rightarrow> wheel option" where
  "Cascade h l i w =
     (case tv w l i of
        [] \<Rightarrow> Some w
      | n # _ \<Rightarrow> Cascade h l i (erase_front l i (Add h n w)))"

definition slot_of :: "nat \<Rightarrow> u32 \<Rightarrow> nat" where
  "slot_of s x = unat (drop_bit s x AND TVN_MASK)"

text \<open>The bucket scan at the end of \<open>Advance\<close>: every node is erased, live ones are output.\<close>

fun pop_bucket :: "heap \<Rightarrow> node_ref list \<Rightarrow> node_ref list \<Rightarrow> node_ref list \<times> node_ref list" where
  "pop_bucket h [] out = ([], out)"
| "pop_bucket h (n # ns) out =
     (if \<not> cancelled (h n) then pop_bucket h ns (out @ [n]) else pop_bucket h ns out)"

definition cascade_all :: "heap \<Rightarrow> wheel \<Rightarrow> wheel option" where
  "cascade_all h w0 =
     (let i2 = slot_of TVR_BITS (currentTick w0) in
      case Cascade h TV2 i2 w0 of None \<Rightarrow> None
      | Some w1 \<Rightarrow> if i2 \<noteq> 0 then Some w1 else
        (let i3 = slot_of (TVR_BITS + TVN_BITS) (currentTick w0) in
         case Cascade h TV3 i3 w1 of None \<Rightarrow> None
         | Some w2 \<Rightarrow> if i3 \<noteq> 0 then Some w2 else
           (let i4 = slot_of (TVR_BITS + 2 * TVN_BITS) (currentTick w0) in
            case Cascade h TV4 i4 w2 of None \<Rightarrow> None
            | Some w3 \<Rightarrow> if i4 \<noteq> 0 then Some w3 else
              Cascade h TV5 (slot_of (TVR_BITS + 3 * TVN_BITS) (currentTick w0)) w3)))"

definition Advance :: "heap \<Rightarrow> u32 \<Rightarrow> wheel \<Rightarrow> (wheel \<times> node_ref list) option" where
  "Advance h tick w =
     (let w0 = w\<lparr>currentTick := tick\<rparr>;
          index = unat (tick AND TVR_MASK)
      in case (if index = 0 then cascade_all h w0 else Some w0) of
           None \<Rightarrow> None
         | Some w1 \<Rightarrow>
             (let (rest, out) = pop_bucket h (tv w1 TV1 index) []
              in Some (w1\<lparr>tv := (tv w1)(TV1 := (tv w1 TV1)(index := rest))\<rparr>, out)))"

definition Remove :: "heap \<Rightarrow> node_ref \<Rightarrow> heap" where
  "Remove h n = h(n := (h n)\<lparr>cancelled := True\<rparr>)"

section \<open>Slots and levels\<close>

text \<open>
  Level \<open>l\<close> covers distances below \<open>2 ^ level_top l\<close> ticks in slots of
  \<open>2 ^ level_shift l\<close> ticks; \<open>level_for\<close> is the level \<open>Add\<close> picks for a distance.
\<close>

fun level_shift :: "tv_level \<Rightarrow> nat" where
  "level_shift TV1 = 0" | "level_shift TV2 = 8" | "level_shift TV3 = 14"
| "level_shift TV4 = 20" | "level_shift TV5 = 26"

fun level_top :: "tv_level \<Rightarrow> nat" where
  "level_top TV1 = 8" | "level_top TV2 = 14" | "level_top TV3 = 20"
| "level_top TV4 = 26" | "level_top TV5 = 32"

definition level_slots :: "tv_level \<Rightarrow> nat" where
  "level_slots l = 2 ^ (level_top l - level_shift l)"

definition level_slot :: "tv_level \<Rightarrow> nat \<Rightarrow> nat" where
  "level_slot l e = e div 2 ^ level_shift l mod level_slots l"

definition level_for :: "nat \<Rightarrow> tv_level" where
  "level_for d = (if d < 2 ^ 8 then TV1 else if d < 2 ^ 14 then TV2
     else if d < 2 ^ 20 then TV3 else if d < 2 ^ 26 then TV4 else TV5)"

lemma level_shift_less_top: "level_shift l < level_top l" "level_top l \<le> 32"
  by (cases l; simp)+

lemma level_slot_less: "level_slot l e < level_slots l"
  by (simp add: level_slot_def level_slots_def)

lemma level_for_bounds:
  assumes "d < 2 ^ 32"
  shows "d < 2 ^ level_top (level_for d)"
    and "level_for d \<noteq> TV1 \<Longrightarrow> 2 ^ level_shift (level_for d) \<le> d"
  using assms by (auto simp: level_for_def)

lemma level_for_below:
  assumes "d < 2 ^ level_shift l" and "l \<noteq> TV1"
  shows "level_for d \<noteq> l"
  using assms by (cases l) (auto simp: level_for_def)

lemma tv_masks: "TVR_MASK = mask 8" "TVN_MASK = mask 6"
  by (simp_all add: tv_consts mask_eq_exp_minus_1)

lemma word_less_exp: "(x :: u32) < push_bit k 1 \<longleftrightarrow> unat x < 2 ^ k" if "k < 32"
proof -
  have "unat (of_nat (2 ^ k) :: u32) = 2 ^ k mod 2 ^ 32" by (simp only: unat_of_nat) simp
  moreover have "(2::nat) ^ k < 2 ^ 32" using that by (rule power_strict_increasing) simp
  ultimately have "unat (push_bit k 1 :: u32) = 2 ^ k" by simp
  then show ?thesis by (simp add: word_less_nat_alt)
qed

lemma sint_ucast_nonneg: "\<not> sint (ucast (x :: u32) :: u64) < 0"
proof -
  have "\<not> bit (ucast x :: u64) 63" using bit_imp_le_length [of x 63] by (auto simp: bit_ucast_iff)
  then show ?thesis by (simp add: sint_uint signed_take_bit_eq_if_positive not_less bit_unsigned_iff)
qed

text \<open>\<open>Add\<close> never takes its branch for expired nodes: a 32-bit distance widened to 64 bits
  is not negative.\<close>

lemma Add_eq:
  "Add h n w = (let e = expiryTick (h n); l = level_for (unat (e - currentTick w))
                in push_back l (level_slot l (unat e)) n w)"
proof -
  have m8: "unat (x AND TVR_MASK) = level_slot TV1 (unat x)" for x :: u32
    using unat_take_drop [of 8 0 x]
    by (simp add: tv_masks and_mask_take_bit level_slot_def level_slots_def)
  have m6: "unat (drop_bit s x AND TVN_MASK) = unat x div 2 ^ s mod 2 ^ 6" for s and x :: u32
    by (simp only: tv_masks and_mask_take_bit unat_take_drop)
  have lt: "x < TVR_SIZE \<longleftrightarrow> unat x < 2 ^ 8" for x :: u32
    unfolding TVR_SIZE_def TVR_BITS_def by (rule word_less_exp) simp
  have sh: "TVR_BITS + TVN_BITS = 14" "TVR_BITS + 2 * TVN_BITS = 20" "TVR_BITS + 3 * TVN_BITS = 26"
    by (simp_all add: TVR_BITS_def TVN_BITS_def)
  have k: "(14::nat) < 32" "(20::nat) < 32" "(26::nat) < 32" by simp_all
  show ?thesis
    unfolding Add_def Let_def sh
    by (simp only: sint_ucast_nonneg if_False lt m8 m6 TVR_BITS_def word_less_exp [OF k(1)]
          word_less_exp [OF k(2)] word_less_exp [OF k(3)])
       (simp add: level_for_def level_slot_def level_slots_def)
qed

text \<open>
  The distance from the current tick to a node's expiry decides everything.  Arithmetic
  core: a node in the slot that is cascaded at tick \<open>c\<close> is exactly one whose slot
  begins at \<open>c\<close>.
\<close>

lemma dist_cong:
  fixes e c :: u32
  assumes "k \<le> 32"
  shows "(unat c + unat (e - c)) mod 2 ^ k = unat e mod 2 ^ k"
proof -
  have dvd: "(2::nat) ^ k dvd 2 ^ 32" using assms by (rule le_imp_power_dvd)
  have "unat (c + (e - c)) = (unat c + unat (e - c)) mod 2 ^ 32"
    by (simp only: unat_word_ariths) simp
  moreover have "c + (e - c) = e" by simp
  ultimately have "(unat c + unat (e - c)) mod 2 ^ 32 = unat e" by argo
  then have "(unat c + unat (e - c)) mod 2 ^ 32 mod 2 ^ k = unat e mod 2 ^ k" by (rule arg_cong)
  then show ?thesis by (simp only: mod_mod_cancel [OF dvd])
qed

lemma slot_start:
  fixes e c :: u32
  assumes "unat (e - c) = unat e mod 2 ^ s"
  shows "unat c = unat e - unat e mod 2 ^ s"
proof -
  have "c = e - (e - c)" by simp
  moreover have "unat (e - c) \<le> unat e" using assms by simp
  ultimately have "unat c = unat e - unat (e - c)"
    by (metis unat_sub word_le_nat_alt)
  then show ?thesis using assms by simp
qed

lemma slot_cascaded:
  fixes e c :: u32
  assumes c0: "unat c mod 2 ^ level_shift l = 0"
    and sl: "level_slot l (unat e) = level_slot l (unat c)"
    and dt: "unat (e - c) < 2 ^ level_top l"
  shows "unat (e - c) = unat e mod 2 ^ level_shift l"
proof -
  let ?s = "level_shift l" and ?t = "level_top l"
  have t: "(2::nat) ^ ?t = 2 ^ ?s * 2 ^ (?t - ?s)"
    using level_shift_less_top [of l] by (simp flip: power_add)
  have split: "x mod 2 ^ ?t = 2 ^ ?s * level_slot l x + x mod 2 ^ ?s" for x
    unfolding t by (simp add: mod_mult2_eq level_slot_def level_slots_def)
  have "unat e mod 2 ^ ?t = unat c mod 2 ^ ?t + unat e mod 2 ^ ?s"
    using c0 sl by (simp add: split)
  moreover have rt: "unat e mod 2 ^ ?s < 2 ^ ?t"
  proof -
    have "unat e mod 2 ^ ?s < 2 ^ ?s" by simp
    also have "(2::nat) ^ ?s \<le> 2 ^ ?t" using level_shift_less_top(1) [of l] by simp
    finally show ?thesis .
  qed
  moreover have "(unat c + unat (e - c)) mod 2 ^ ?t = unat e mod 2 ^ ?t"
    by (rule dist_cong) (rule level_shift_less_top)
  ultimately have "(unat c + unat (e - c)) mod 2 ^ ?t = (unat c + unat e mod 2 ^ ?s) mod 2 ^ ?t"
    by (simp add: mod_add_left_eq) (metis mod_add_left_eq mod_mod_trivial)
  then show ?thesis
    by (rule add_mod_cancel_nat) (fact dt, fact rt)
qed

section \<open>Invariant and abstraction\<close>

text \<open>
  A node at level \<open>l\<close> sits in the slot of its expiry, is nearer than the level's range,
  and the start of its slot has not been reached (\<open>node_ok\<close>) or is being reached in this
  tick (\<open>node_okw\<close>, between the steps of one \<open>Advance\<close>).
\<close>

definition node_okw :: "heap \<Rightarrow> u32 \<Rightarrow> tv_level \<Rightarrow> nat \<Rightarrow> node_ref \<Rightarrow> bool" where
  "node_okw h c l i n \<longleftrightarrow>
     (let e = expiryTick (h n) in
      i = level_slot l (unat e) \<and> unat e mod 2 ^ level_shift l \<le> unat (e - c) \<and>
      unat (e - c) < 2 ^ level_top l)"

definition node_ok :: "heap \<Rightarrow> u32 \<Rightarrow> tv_level \<Rightarrow> nat \<Rightarrow> node_ref \<Rightarrow> bool" where
  "node_ok h c l i n \<longleftrightarrow>
     node_okw h c l i n \<and>
     unat (expiryTick (h n)) mod 2 ^ level_shift l \<noteq> unat (expiryTick (h n) - c)"

definition wheel_okw :: "heap \<Rightarrow> wheel \<Rightarrow> bool" where
  "wheel_okw h w \<longleftrightarrow> (\<forall>l i. \<forall>n \<in> set (tv w l i). node_okw h (currentTick w) l i n)"

definition level_strict :: "heap \<Rightarrow> wheel \<Rightarrow> tv_level \<Rightarrow> bool" where
  "level_strict h w l \<longleftrightarrow> (\<forall>i. \<forall>n \<in> set (tv w l i). node_ok h (currentTick w) l i n)"

definition wheel_inv :: "heap \<Rightarrow> wheel \<Rightarrow> bool" where
  "wheel_inv h w \<longleftrightarrow> (\<forall>l. level_strict h w l)"

definition wheel_slots :: "(tv_level \<times> nat) set" where
  "wheel_slots = (SIGMA l:UNIV. {..<level_slots l})"

definition wheel_nodes :: "wheel \<Rightarrow> node_ref multiset" where
  "wheel_nodes w = (\<Sum>p \<in> wheel_slots. mset (tv w (fst p) (snd p)))"

lemma wheel_inv_okw: "wheel_inv h w \<Longrightarrow> wheel_okw h w"
  by (auto simp: wheel_inv_def level_strict_def wheel_okw_def node_ok_def)

lemma UNIV_tv_level: "(UNIV :: tv_level set) = {TV1, TV2, TV3, TV4, TV5}"
  using tv_level.exhaust by auto

lemma finite_wheel_slots [simp]: "finite wheel_slots"
  by (simp add: wheel_slots_def UNIV_tv_level)

lemma sum_change_one:
  fixes f g :: "'a \<Rightarrow> 'b::comm_monoid_add"
  assumes "finite A" "p \<in> A" "\<And>q. q \<in> A \<Longrightarrow> q \<noteq> p \<Longrightarrow> f q = g q"
  shows "sum f A + g p = sum g A + f p"
proof -
  have "sum f (A - {p}) = sum g (A - {p})" using assms by (intro sum.cong) auto
  then show ?thesis
    using assms(1,2) by (simp add: sum.remove [of A p] ac_simps)
qed

lemma wheel_nodes_update:
  assumes "i < level_slots l"
  shows "wheel_nodes (w\<lparr>tv := (tv w)(l := (tv w l)(i := xs))\<rparr>) + mset (tv w l i)
    = wheel_nodes w + mset xs"
proof -
  let ?f = "\<lambda>p. mset (tv (w\<lparr>tv := (tv w)(l := (tv w l)(i := xs))\<rparr>) (fst p) (snd p))"
  have "(l, i) \<in> wheel_slots" using assms by (simp add: wheel_slots_def)
  then have "sum ?f wheel_slots + mset (tv w (fst (l, i)) (snd (l, i)))
      = (\<Sum>p \<in> wheel_slots. mset (tv w (fst p) (snd p))) + ?f (l, i)"
    by (intro sum_change_one) (auto split: if_splits)
  then show ?thesis by (simp add: wheel_nodes_def)
qed

lemma wheel_nodes_push_back [simp]:
  assumes "i < level_slots l"
  shows "wheel_nodes (push_back l i n w) = add_mset n (wheel_nodes w)"
  using wheel_nodes_update [OF assms, of w "tv w l i @ [n]"] by (simp add: push_back_def)

lemma wheel_nodes_tick [simp]: "wheel_nodes (w\<lparr>currentTick := t\<rparr>) = wheel_nodes w"
  by (simp add: wheel_nodes_def)

lemma in_wheel_nodes:
  assumes "wheel_okw h w"
  shows "n \<in># wheel_nodes w \<longleftrightarrow> (\<exists>l i. n \<in> set (tv w l i))"
proof -
  have "i < level_slots l" if "n \<in> set (tv w l i)" for l i
    using assms that level_slot_less by (fastforce simp: wheel_okw_def node_okw_def Let_def)
  then have in_range: "n \<in> set (tv w l i) \<Longrightarrow> (l, i) \<in> wheel_slots" for l i
    by (simp add: wheel_slots_def)
  have "n \<in># wheel_nodes w \<longleftrightarrow> (\<exists>p \<in> wheel_slots. n \<in> set (tv w (fst p) (snd p)))"
    unfolding wheel_nodes_def by (simp add: set_mset_sum)
  then show ?thesis using in_range by force
qed

lemma Add_nodes: "wheel_nodes (Add h n w) = add_mset n (wheel_nodes w)"
  by (simp add: Add_eq Let_def level_slot_less)

lemma Add_tick [simp]: "currentTick (Add h n w) = currentTick w"
  by (simp add: Add_eq Let_def push_back_def)

lemma Add_tv:
  "tv (Add h n w) l i =
     (let e = expiryTick (h n) in
      if l = level_for (unat (e - currentTick w)) \<and> i = level_slot l (unat e)
      then tv w l i @ [n] else tv w l i)"
  by (auto simp: Add_eq Let_def push_back_def)

section \<open>Adding and cascading\<close>

lemma added_ok:
  fixes h :: heap and n :: node_ref and c :: u32
  defines "e \<equiv> expiryTick (h n)"
  defines "l \<equiv> level_for (unat (e - c))"
  shows "node_okw h c l (level_slot l (unat e)) n"
    and "l \<noteq> TV1 \<or> e \<noteq> c \<Longrightarrow> node_ok h c l (level_slot l (unat e)) n"
proof -
  have lt: "unat (e - c) < 2 ^ 32" using unsigned_less [of "e - c"] by simp
  have "unat e mod 2 ^ level_shift l < unat (e - c)" if "l \<noteq> TV1"
  proof -
    have "unat e mod 2 ^ level_shift l < 2 ^ level_shift l" by simp
    also have "\<dots> \<le> unat (e - c)" using level_for_bounds(2) [OF lt] that by (simp add: l_def)
    finally show ?thesis .
  qed
  then have r: "unat e mod 2 ^ level_shift l \<le> unat (e - c)"
    "l \<noteq> TV1 \<or> e \<noteq> c \<Longrightarrow> unat e mod 2 ^ level_shift l \<noteq> unat (e - c)"
    by (cases "l = TV1"; fastforce simp: unat_eq_zero)+
  show "node_okw h c l (level_slot l (unat e)) n"
    using r(1) level_for_bounds(1) [OF lt] by (simp add: node_okw_def e_def l_def Let_def)
  then show "l \<noteq> TV1 \<or> e \<noteq> c \<Longrightarrow> node_ok h c l (level_slot l (unat e)) n"
    using r(2) by (simp add: node_ok_def e_def)
qed

lemma Add_okw: "wheel_okw h w \<Longrightarrow> wheel_okw h (Add h n w)"
  using added_ok(1) [where h = h and n = n and c = "currentTick w"]
  by (auto simp: wheel_okw_def Add_tv Let_def split: if_splits)

lemma Add_level_strict:
  assumes "level_strict h w l" "l \<noteq> TV1 \<or> expiryTick (h n) \<noteq> currentTick w"
  shows "level_strict h (Add h n w) l"
  using assms added_ok(2) [where h = h and n = n and c = "currentTick w"]
  by (auto simp: level_strict_def Add_tv Let_def split: if_splits)

lemma Add_wheel_inv:
  "wheel_inv h w \<Longrightarrow> expiryTick (h n) \<noteq> currentTick w \<Longrightarrow> wheel_inv h (Add h n w)"
  by (simp add: wheel_inv_def Add_level_strict)

lemma erase_front_simps [simp]:
  "currentTick (erase_front l i w) = currentTick w"
  "tv (erase_front l i w) = (tv w)(l := (tv w l)(i := tl (tv w l i)))"
  by (simp_all add: erase_front_def)

lemma erase_front_keeps:
  assumes "x \<in> set (tv (erase_front l i w) l' j)"
  shows "x \<in> set (tv w l' j)"
  using assms by (cases "tv w l i") (auto split: if_splits)

lemma erase_front_okw: "wheel_okw h w \<Longrightarrow> wheel_okw h (erase_front l i w)"
  unfolding wheel_okw_def by (metis erase_front_keeps erase_front_simps(1))

lemma erase_front_strict: "level_strict h w l' \<Longrightarrow> level_strict h (erase_front l i w) l'"
  unfolding level_strict_def by (metis erase_front_keeps erase_front_simps(1))

lemma erase_front_nodes:
  assumes "i < level_slots l" "tv w l i = n # ns"
  shows "add_mset n (wheel_nodes (erase_front l i w)) = wheel_nodes w"
  using wheel_nodes_update [OF assms(1), of w ns] assms(2)
  by (simp add: erase_front_def)

text \<open>Emptying a bucket of near nodes ends, and keeps everything but the bucket.\<close>

lemma Cascade_near:
  assumes "l \<noteq> TV1" "i < level_slots l" "wheel_okw h w"
    and "\<forall>n \<in> set (tv w l i). unat (expiryTick (h n) - currentTick w) < 2 ^ level_shift l"
  shows "\<exists>w'. Cascade h l i w = Some w' \<and> currentTick w' = currentTick w \<and>
    wheel_nodes w' = wheel_nodes w \<and> wheel_okw h w' \<and> tv w' l = (tv w l)(i := []) \<and>
    (\<forall>l'. l' \<noteq> TV1 \<longrightarrow> l' \<noteq> l \<longrightarrow> level_strict h w l' \<longrightarrow> level_strict h w' l')"
  using assms(3,4)
proof (induction "tv w l i" arbitrary: w)
  case Nil
  then show ?case by (auto simp: Cascade.simps [of h l i w] simp flip: Nil.hyps)
next
  case (Cons n ns)
  let ?w1 = "erase_front l i (Add h n w)"
  have n: "tv w l i = n # ns" using Cons.hyps(2) by simp
  have "level_for (unat (expiryTick (h n) - currentTick w)) \<noteq> l"
    using Cons.prems(2) n assms(1) by (intro level_for_below) auto
  then have tvl: "tv (Add h n w) l = tv w l" by (auto simp: Add_tv Let_def fun_eq_iff)
  have ns: "ns = tv ?w1 l i" using n tvl by simp
  have okw: "wheel_okw h ?w1" using Cons.prems(1) by (intro erase_front_okw Add_okw)
  have near: "\<forall>x \<in> set (tv ?w1 l i). unat (expiryTick (h x) - currentTick ?w1) < 2 ^ level_shift l"
    using Cons.prems(2) n tvl by simp
  obtain w' where w': "Cascade h l i ?w1 = Some w'" "currentTick w' = currentTick w"
    "wheel_nodes w' = wheel_nodes ?w1" "wheel_okw h w'" "tv w' l = (tv ?w1 l)(i := [])"
    "\<forall>l'. l' \<noteq> TV1 \<longrightarrow> l' \<noteq> l \<longrightarrow> level_strict h ?w1 l' \<longrightarrow> level_strict h w' l'"
    using Cons.hyps(1) [OF ns okw near] by auto
  have "add_mset n (wheel_nodes ?w1) = add_mset n (wheel_nodes w)"
    using erase_front_nodes [of i l "Add h n w" n ns] assms(2) n tvl by (simp add: Add_nodes)
  moreover have "Cascade h l i w = Some w'"
    using w'(1) n by (simp add: Cascade.simps [of h l i w])
  ultimately show ?case
    using w' tvl by (auto intro: erase_front_strict Add_level_strict)
qed

lemma not_due_strict:
  assumes "wheel_okw h w" "unat (currentTick w) mod 2 ^ level_shift l \<noteq> 0"
  shows "level_strict h w l"
proof -
  have "node_ok h (currentTick w) l i n" if "n \<in> set (tv w l i)" for i n
  proof -
    have "unat (expiryTick (h n) - currentTick w) \<noteq> unat (expiryTick (h n)) mod 2 ^ level_shift l"
    proof
      assume "unat (expiryTick (h n) - currentTick w) = unat (expiryTick (h n)) mod 2 ^ level_shift l"
      then have "unat (currentTick w)
          = unat (expiryTick (h n)) - unat (expiryTick (h n)) mod 2 ^ level_shift l"
        by (rule slot_start)
      then have "unat (currentTick w) mod 2 ^ level_shift l = 0"
        by (simp only: minus_mod_eq_mult_div mod_mult_self1_is_0)
      then show False using assms(2) by simp
    qed
    then show ?thesis using assms(1) that by (auto simp: node_ok_def wheel_okw_def)
  qed
  then show ?thesis by (simp add: level_strict_def)
qed

lemma Cascade_due:
  assumes l: "l \<noteq> TV1" and okw: "wheel_okw h w"
    and c0: "unat (currentTick w) mod 2 ^ level_shift l = 0"
  shows "\<exists>w'. Cascade h l (level_slot l (unat (currentTick w))) w = Some w' \<and>
    currentTick w' = currentTick w \<and> wheel_nodes w' = wheel_nodes w \<and> wheel_okw h w' \<and>
    level_strict h w' l \<and>
    (\<forall>l'. l' \<noteq> TV1 \<longrightarrow> level_strict h w l' \<longrightarrow> level_strict h w' l')"
proof -
  let ?c = "currentTick w" and ?i = "level_slot l (unat (currentTick w))"
  have "\<forall>n \<in> set (tv w l ?i). unat (expiryTick (h n) - ?c) < 2 ^ level_shift l"
  proof
    fix n assume "n \<in> set (tv w l ?i)"
    then have "node_okw h ?c l ?i n" using okw by (simp add: wheel_okw_def)
    then have "unat (expiryTick (h n) - ?c) = unat (expiryTick (h n)) mod 2 ^ level_shift l"
      using c0 by (intro slot_cascaded) (auto simp: node_okw_def Let_def)
    then show "unat (expiryTick (h n) - ?c) < 2 ^ level_shift l" by simp
  qed
  then obtain w' where w': "Cascade h l ?i w = Some w'" "currentTick w' = ?c"
    "wheel_nodes w' = wheel_nodes w" "wheel_okw h w'" "tv w' l = (tv w l)(?i := [])"
    "\<forall>l'. l' \<noteq> TV1 \<longrightarrow> l' \<noteq> l \<longrightarrow> level_strict h w l' \<longrightarrow> level_strict h w' l'"
    using Cascade_near [OF l level_slot_less okw] by blast
  have "node_ok h ?c l j n" if jn: "n \<in> set (tv w' l j)" for j n
  proof -
    have j: "j \<noteq> ?i" using jn w'(5) by auto
    have ok: "node_okw h ?c l j n" using jn w'(2,4) by (metis wheel_okw_def)
    have "unat (expiryTick (h n) - ?c) \<noteq> unat (expiryTick (h n)) mod 2 ^ level_shift l"
    proof
      assume "unat (expiryTick (h n) - ?c) = unat (expiryTick (h n)) mod 2 ^ level_shift l"
      then have "unat ?c = unat (expiryTick (h n)) - unat (expiryTick (h n)) mod 2 ^ level_shift l"
        by (rule slot_start)
      then have "level_slot l (unat ?c) = level_slot l (unat (expiryTick (h n)))"
        by (simp add: level_slot_def minus_mod_eq_mult_div)
      then show False using ok j by (simp add: node_okw_def Let_def)
    qed
    then show ?thesis using ok by (auto simp: node_ok_def)
  qed
  then have "level_strict h w' l" using w'(2) by (simp add: level_strict_def)
  then show ?thesis using w' by metis
qed

section \<open>One tick\<close>

lemma slot_of_level:
  "slot_of TVR_BITS x = level_slot TV2 (unat x)"
  "slot_of (TVR_BITS + TVN_BITS) x = level_slot TV3 (unat x)"
  "slot_of (TVR_BITS + 2 * TVN_BITS) x = level_slot TV4 (unat x)"
  "slot_of (TVR_BITS + 3 * TVN_BITS) x = level_slot TV5 (unat x)"
  by (simp_all only: slot_of_def tv_masks and_mask_take_bit unat_take_drop)
     (simp_all add: TVR_BITS_def TVN_BITS_def level_slot_def level_slots_def)

lemma slot_zero_next:
  assumes "c mod 2 ^ level_shift l = (0::nat)"
  shows "level_slot l c = 0 \<longleftrightarrow> c mod 2 ^ level_top l = 0"
proof -
  have t: "(2::nat) ^ level_top l = 2 ^ level_shift l * 2 ^ (level_top l - level_shift l)"
    using level_shift_less_top [of l] by (simp flip: power_add)
  show ?thesis unfolding t by (simp add: mod_mult2_eq assms level_slot_def level_slots_def)
qed

lemma mod_pow_nonzero:
  assumes "c mod 2 ^ j \<noteq> (0::nat)" "j \<le> k"
  shows "c mod 2 ^ k \<noteq> 0"
proof
  assume "c mod 2 ^ k = 0"
  then have "2 ^ k dvd c" by (simp add: dvd_eq_mod_eq_0)
  then have "2 ^ j dvd c" using assms(2) le_imp_power_dvd dvd_trans by blast
  then show False using assms(1) by (simp add: dvd_eq_mod_eq_0)
qed

definition upper_strict :: "heap \<Rightarrow> wheel \<Rightarrow> bool" where
  "upper_strict h w \<longleftrightarrow> (\<forall>l. l \<noteq> TV1 \<longrightarrow> level_strict h w l)"

lemma upper_strictI:
  assumes "level_strict h w TV2" "level_strict h w TV3" "level_strict h w TV4" "level_strict h w TV5"
  shows "upper_strict h w"
  unfolding upper_strict_def using assms by (metis tv_level.exhaust)

lemma not_due_above:
  assumes "wheel_okw h w" "unat (currentTick w) mod 2 ^ j \<noteq> 0" "j \<le> level_shift l"
  shows "level_strict h w l"
  by (rule not_due_strict [OF assms(1) mod_pow_nonzero [OF assms(2,3)]])

lemma cascade_all_correct:
  assumes okw: "wheel_okw h w" and c0: "unat (currentTick w) mod 2 ^ 8 = 0"
  shows "\<exists>w'. cascade_all h w = Some w' \<and> currentTick w' = currentTick w \<and>
    wheel_nodes w' = wheel_nodes w \<and> wheel_okw h w' \<and> upper_strict h w'"
proof -
  let ?c = "unat (currentTick w)"
  obtain w1 where w1: "Cascade h TV2 (level_slot TV2 ?c) w = Some w1" "currentTick w1 = currentTick w"
    "wheel_nodes w1 = wheel_nodes w" "wheel_okw h w1" "level_strict h w1 TV2"
    using Cascade_due [of TV2 h w] okw c0 by auto
  show ?thesis
  proof (cases "level_slot TV2 ?c = 0")
    case False
    then have "?c mod 2 ^ 14 \<noteq> 0" using slot_zero_next [of ?c TV2] c0 by simp
    then have "upper_strict h w1"
      using w1 by (intro upper_strictI) (auto intro: not_due_above [where j = 14])
    then show ?thesis using w1 False by (simp add: cascade_all_def slot_of_level Let_def)
  next
    case z2: True
    then have c14: "?c mod 2 ^ 14 = 0" using slot_zero_next [of ?c TV2] c0 by simp
    obtain w2 where w2: "Cascade h TV3 (level_slot TV3 ?c) w1 = Some w2" "currentTick w2 = currentTick w"
      "wheel_nodes w2 = wheel_nodes w" "wheel_okw h w2" "level_strict h w2 TV3" "level_strict h w2 TV2"
      using Cascade_due [of TV3 h w1] w1 c14 by auto
    show ?thesis
    proof (cases "level_slot TV3 ?c = 0")
      case False
      then have "?c mod 2 ^ 20 \<noteq> 0" using slot_zero_next [of ?c TV3] c14 by simp
      then have "upper_strict h w2"
        using w2 by (intro upper_strictI) (auto intro: not_due_above [where j = 20])
      then show ?thesis using w1 w2 z2 False by (simp add: cascade_all_def slot_of_level Let_def)
    next
      case z3: True
      then have c20: "?c mod 2 ^ 20 = 0" using slot_zero_next [of ?c TV3] c14 by simp
      obtain w3 where w3: "Cascade h TV4 (level_slot TV4 ?c) w2 = Some w3" "currentTick w3 = currentTick w"
        "wheel_nodes w3 = wheel_nodes w" "wheel_okw h w3" "level_strict h w3 TV4" "level_strict h w3 TV3"
        "level_strict h w3 TV2"
        using Cascade_due [of TV4 h w2] w2 c20 by auto
      show ?thesis
      proof (cases "level_slot TV4 ?c = 0")
        case False
        then have "?c mod 2 ^ 26 \<noteq> 0" using slot_zero_next [of ?c TV4] c20 by simp
        then have "upper_strict h w3" using w3 by (intro upper_strictI) (auto intro: not_due_above [where j = 26])
        then show ?thesis using w1 w2 w3 z2 z3 False by (simp add: cascade_all_def slot_of_level Let_def)
      next
        case z4: True
        then have c26: "?c mod 2 ^ 26 = 0" using slot_zero_next [of ?c TV4] c20 by simp
        obtain w4 where w4: "Cascade h TV5 (level_slot TV5 ?c) w3 = Some w4" "currentTick w4 = currentTick w"
          "wheel_nodes w4 = wheel_nodes w" "wheel_okw h w4" "level_strict h w4 TV5"
          "level_strict h w4 TV4" "level_strict h w4 TV3" "level_strict h w4 TV2"
          using Cascade_due [of TV5 h w3] w3 c26 by auto
        then have "upper_strict h w4" by (intro upper_strictI)
        then show ?thesis
          using w1 w2 w3 w4 z2 z3 z4 by (simp add: cascade_all_def slot_of_level Let_def)
      qed
    qed
  qed
qed

lemma pop_bucket_eq: "pop_bucket h ns out = ([], out @ filter (\<lambda>n. \<not> cancelled (h n)) ns)"
  by (induction ns arbitrary: out) auto

text \<open>The first half of a tick: after the cascades only level one can hold due nodes.\<close>

lemma cascades_done:
  assumes inv: "wheel_inv h w" and tick: "t = currentTick w + 1"
  shows "\<exists>w1. (if unat (t AND TVR_MASK) = 0 then cascade_all h (w\<lparr>currentTick := t\<rparr>)
                else Some (w\<lparr>currentTick := t\<rparr>)) = Some w1 \<and>
    currentTick w1 = t \<and> wheel_nodes w1 = wheel_nodes w \<and> wheel_okw h w1 \<and> upper_strict h w1"
proof -
  let ?w0 = "w\<lparr>currentTick := t\<rparr>"
  have idx: "unat (t AND TVR_MASK) = unat t mod 2 ^ 8"
    using unat_take_drop [of 8 0 t] by (simp add: tv_masks and_mask_take_bit)
  have "node_okw h t l i n" if "n \<in> set (tv w l i)" for l i n
  proof -
    have ok: "node_ok h (currentTick w) l i n"
      using inv that by (simp add: wheel_inv_def level_strict_def)
    then have "expiryTick (h n) \<noteq> currentTick w" by (auto simp: node_ok_def node_okw_def Let_def)
    then have "unat (expiryTick (h n) - t) = unat (expiryTick (h n) - currentTick w) - 1"
      unfolding tick by (rule unat_diff_pred)
    then show ?thesis using ok by (auto simp: node_ok_def node_okw_def Let_def)
  qed
  then have okw: "wheel_okw h ?w0" by (simp add: wheel_okw_def)
  show ?thesis
  proof (cases "unat t mod 2 ^ 8 = 0")
    case True
    then show ?thesis using cascade_all_correct [OF okw] idx by simp
  next
    case False
    then have "upper_strict h ?w0"
      using okw by (intro upper_strictI) (auto intro: not_due_above [where j = 8])
    then show ?thesis using okw idx False by simp
  qed
qed

lemma due_iff_slot:
  assumes "wheel_okw h w" "upper_strict h w" "n \<in> set (tv w l i)"
  shows "expiryTick (h n) = currentTick w \<longleftrightarrow>
    l = TV1 \<and> i = level_slot TV1 (unat (currentTick w))"
proof
  assume e: "expiryTick (h n) = currentTick w"
  have ok: "node_okw h (currentTick w) l i n" using assms(1,3) by (simp add: wheel_okw_def)
  have "l = TV1"
  proof (rule ccontr)
    assume "l \<noteq> TV1"
    then have "node_ok h (currentTick w) l i n"
      using assms(2,3) by (simp add: upper_strict_def level_strict_def)
    then show False using e by (auto simp: node_ok_def node_okw_def Let_def)
  qed
  then show "l = TV1 \<and> i = level_slot TV1 (unat (currentTick w))"
    using ok e by (simp add: node_okw_def Let_def)
next
  assume li: "l = TV1 \<and> i = level_slot TV1 (unat (currentTick w))"
  then have "node_okw h (currentTick w) TV1 i n" using assms(1,3) by (simp add: wheel_okw_def)
  then have "unat (expiryTick (h n) - currentTick w) = unat (expiryTick (h n)) mod 2 ^ level_shift TV1"
    using li by (intro slot_cascaded) (auto simp: node_okw_def Let_def)
  then show "expiryTick (h n) = currentTick w" by (simp add: unat_eq_zero)
qed

lemma bucket_is_due:
  assumes okw: "wheel_okw h w" and up: "upper_strict h w"
  defines "i \<equiv> level_slot TV1 (unat (currentTick w))"
  shows "mset (tv w TV1 i) = {#n \<in># wheel_nodes w. expiryTick (h n) = currentTick w#}"
    and "wheel_nodes (w\<lparr>tv := (tv w)(TV1 := (tv w TV1)(i := []))\<rparr>)
      = {#n \<in># wheel_nodes w. expiryTick (h n) \<noteq> currentTick w#}"
proof -
  let ?w' = "w\<lparr>tv := (tv w)(TV1 := (tv w TV1)(i := []))\<rparr>"
  have i: "i < level_slots TV1" unfolding i_def by (rule level_slot_less)
  have parts: "wheel_nodes w = wheel_nodes ?w' + mset (tv w TV1 i)"
    using wheel_nodes_update [OF i, of w "[]"] by simp
  have ok': "wheel_okw h ?w'" using okw by (auto simp: wheel_okw_def)
  have rest: "expiryTick (h n) \<noteq> currentTick w" if "n \<in># wheel_nodes ?w'" for n
  proof -
    obtain l j where lj: "n \<in> set (tv ?w' l j)" using in_wheel_nodes [OF ok'] \<open>n \<in># _\<close> by blast
    then have "n \<in> set (tv w l j)" "\<not> (l = TV1 \<and> j = i)" by (auto split: if_splits)
    then show ?thesis using due_iff_slot [OF okw up] i_def by blast
  qed
  have slot: "expiryTick (h n) = currentTick w" if "n \<in> set (tv w TV1 i)" for n
    using due_iff_slot [OF okw up that] i_def by simp
  let ?due = "\<lambda>n. expiryTick (h n) = currentTick w"
  have f: "filter_mset ?due (mset (tv w TV1 i)) = mset (tv w TV1 i)"
    "filter_mset (\<lambda>n. \<not> ?due n) (mset (tv w TV1 i)) = {#}"
    "filter_mset ?due (wheel_nodes ?w') = {#}"
    "filter_mset (\<lambda>n. \<not> ?due n) (wheel_nodes ?w') = wheel_nodes ?w'"
    by (rule filter_mset_all filter_mset_none; use rest slot in simp)+
  show "mset (tv w TV1 i) = filter_mset ?due (wheel_nodes w)"
    unfolding parts by (simp only: filter_union_mset f add_0)
  show "wheel_nodes ?w' = filter_mset (\<lambda>n. \<not> ?due n) (wheel_nodes w)"
    unfolding parts by (simp only: filter_union_mset f add_0_right)
qed

lemma Advance_refines:
  assumes inv: "wheel_inv h w"
  shows "\<exists>w' out. Advance h (currentTick w + 1) w = Some (w', out) \<and> wheel_inv h w' \<and>
    currentTick w' = currentTick w + 1 \<and>
    mset out = {#n \<in># wheel_nodes w. expiryTick (h n) = currentTick w + 1 \<and> \<not> cancelled (h n)#} \<and>
    wheel_nodes w' = {#n \<in># wheel_nodes w. expiryTick (h n) \<noteq> currentTick w + 1#}"
proof -
  let ?t = "currentTick w + 1"
  obtain w1 where w1: "(if unat (?t AND TVR_MASK) = 0 then cascade_all h (w\<lparr>currentTick := ?t\<rparr>)
      else Some (w\<lparr>currentTick := ?t\<rparr>)) = Some w1" "currentTick w1 = ?t"
    "wheel_nodes w1 = wheel_nodes w" "wheel_okw h w1" "upper_strict h w1"
    using cascades_done [OF inv refl] by blast
  define i where "i = level_slot TV1 (unat ?t)"
  have i: "unat (?t AND TVR_MASK) = i"
    using unat_take_drop [of 8 0 ?t]
    by (simp add: tv_masks and_mask_take_bit i_def level_slot_def level_slots_def)
  let ?w' = "w1\<lparr>tv := (tv w1)(TV1 := (tv w1 TV1)(i := []))\<rparr>"
  let ?out = "filter (\<lambda>n. \<not> cancelled (h n)) (tv w1 TV1 i)"
  have adv: "Advance h ?t w = Some (?w', ?out)"
    using w1(1) by (simp add: Advance_def i pop_bucket_eq Let_def)
  have "node_ok h ?t l j n" if "n \<in> set (tv ?w' l j)" for l j n
  proof -
    have n: "n \<in> set (tv w1 l j)" "\<not> (l = TV1 \<and> j = i)" using that by (auto split: if_splits)
    then have "expiryTick (h n) \<noteq> ?t"
      using due_iff_slot [OF w1(4,5) n(1)] w1(2) by (simp add: i_def)
    then have "l = TV1 \<Longrightarrow> unat (expiryTick (h n)) mod 2 ^ level_shift l \<noteq> unat (expiryTick (h n) - ?t)"
      using unat_eq_zero [of "expiryTick (h n) - ?t"] by auto
    moreover have "l \<noteq> TV1 \<Longrightarrow> node_ok h ?t l j n"
      using n(1) w1(2,5) by (auto simp: upper_strict_def level_strict_def)
    moreover have "node_okw h ?t l j n" using n(1) w1(2,4) by (auto simp: wheel_okw_def)
    ultimately show ?thesis by (cases "l = TV1") (auto simp: node_ok_def)
  qed
  then have "wheel_inv h ?w'" using w1(2) by (simp add: wheel_inv_def level_strict_def)
  moreover have "mset ?out = {#n \<in># wheel_nodes w. expiryTick (h n) = ?t \<and> \<not> cancelled (h n)#}"
    using bucket_is_due(1) [OF w1(4,5)] w1(2,3) by (simp add: i_def filter_filter_mset conj_commute)
  moreover have "wheel_nodes ?w' = {#n \<in># wheel_nodes w. expiryTick (h n) \<noteq> ?t#}"
    using bucket_is_due(2) [OF w1(4,5)] w1(2,3) by (simp add: i_def)
  ultimately show ?thesis using adv w1(2) by auto
qed

section \<open>The contract of a tick queue\<close>

text \<open>
  What the timer service relies on: one tick pops exactly the live nodes that are due and
  drops exactly the due ones.  Inside the locale, ticks are iterated; a pending node comes
  out in the tick its distance says and in no other.
\<close>

locale tick_queue =
  fixes now :: "'w \<Rightarrow> u32"
    and pending :: "'w \<Rightarrow> 'n multiset"
    and advance :: "u32 \<Rightarrow> 'w \<Rightarrow> ('w \<times> 'n list) option"
    and due :: "'n \<Rightarrow> u32"
    and live :: "'n \<Rightarrow> bool"
    and inv :: "'w \<Rightarrow> bool"
  assumes pending_future: "inv w \<Longrightarrow> n \<in># pending w \<Longrightarrow> due n \<noteq> now w"
    and advance_ok: "inv w \<Longrightarrow> \<exists>w' out. advance (now w + 1) w = Some (w', out) \<and> inv w' \<and>
      now w' = now w + 1 \<and>
      mset out = filter_mset (\<lambda>n. due n = now w + 1 \<and> live n) (pending w) \<and>
      pending w' = filter_mset (\<lambda>n. due n \<noteq> now w + 1) (pending w)"
begin

primrec ticks :: "nat \<Rightarrow> 'w \<Rightarrow> ('w \<times> 'n list list) option" where
  "ticks 0 w = Some (w, [])"
| "ticks (Suc k) w =
     (case advance (now w + 1) w of None \<Rightarrow> None
      | Some (w', out) \<Rightarrow> (case ticks k w' of None \<Rightarrow> None
          | Some (w'', outs) \<Rightarrow> Some (w'', out # outs)))"

lemma ticks_deliver:
  assumes "inv w"
  shows "\<exists>w' outs. ticks k w = Some (w', outs) \<and> inv w' \<and> length outs = k \<and>
    (\<forall>j < k. \<forall>n. live n \<longrightarrow> count (mset (outs ! j)) n =
       (if Suc j = unat (due n - now w) then count (pending w) n else 0))"
  using assms
proof (induction k arbitrary: w)
  case 0
  then show ?case by simp
next
  case (Suc k)
  obtain w1 out where a: "advance (now w + 1) w = Some (w1, out)" "inv w1" "now w1 = now w + 1"
    "mset out = filter_mset (\<lambda>n. due n = now w + 1 \<and> live n) (pending w)"
    "pending w1 = filter_mset (\<lambda>n. due n \<noteq> now w + 1) (pending w)"
    using advance_ok [OF Suc.prems] by blast
  obtain w2 outs where b: "ticks k w1 = Some (w2, outs)" "inv w2" "length outs = k"
    "\<forall>j < k. \<forall>n. live n \<longrightarrow> count (mset (outs ! j)) n =
       (if Suc j = unat (due n - now w1) then count (pending w1) n else 0)"
    using Suc.IH [OF a(2)] by blast
  have one: "due n = now w + 1 \<longleftrightarrow> unat (due n - now w) = 1" for n
    using word_unat_eq_iff [of "due n - now w" 1] by (auto simp: algebra_simps)
  have later: "Suc (Suc j) = unat (due n - now w) \<longleftrightarrow> due n \<noteq> now w + 1 \<and> Suc j = unat (due n - now w1)"
    if "n \<in># pending w" for n j
    using unat_diff_pred [OF pending_future [OF Suc.prems that]] one [of n] a(3) by auto
  have "count (mset ((out # outs) ! j)) n =
      (if Suc j = unat (due n - now w) then count (pending w) n else 0)"
    if "j < Suc k" "live n" for j n
  proof (cases j)
    case 0
    then show ?thesis using a(4) one [of n] \<open>live n\<close> by auto
  next
    case (Suc j')
    then show ?thesis
      using b(4) that a(5) later [of n j']
      by (cases "n \<in># pending w") (auto simp: count_eq_zero_iff)
  qed
  then show ?case using a(1) b by auto
qed

end

interpretation wheel_queue: tick_queue currentTick wheel_nodes "Advance h"
  "\<lambda>n. expiryTick (h n)" "\<lambda>n. \<not> cancelled (h n)" "wheel_inv h" for h
proof unfold_locales
  fix w n
  assume inv: "wheel_inv h w" and "n \<in># wheel_nodes w"
  then obtain l i where "n \<in> set (tv w l i)" using in_wheel_nodes [OF wheel_inv_okw [OF inv]] by blast
  then have "node_ok h (currentTick w) l i n" using inv by (simp add: wheel_inv_def level_strict_def)
  then show "expiryTick (h n) \<noteq> currentTick w" by (auto simp: node_ok_def node_okw_def Let_def)
qed (rule Advance_refines)

section \<open>Runs of ticks\<close>

primrec run_ticks :: "heap \<Rightarrow> nat \<Rightarrow> wheel \<Rightarrow> (wheel \<times> node_ref list list) option" where
  "run_ticks h 0 w = Some (w, [])"
| "run_ticks h (Suc k) w =
     (case Advance h (currentTick w + 1) w of None \<Rightarrow> None
      | Some (w', out) \<Rightarrow> (case run_ticks h k w' of None \<Rightarrow> None
          | Some (w'', outs) \<Rightarrow> Some (w'', out # outs)))"

lemma run_ticks_eq: "run_ticks h k w = wheel_queue.ticks h k w"
  by (induction k arbitrary: w) (simp_all cong: option.case_cong prod.case_cong)

lemma wheel_inv_cong:
  assumes "wheel_inv h w" and "\<And>n. n \<in># wheel_nodes w \<Longrightarrow> expiryTick (h' n) = expiryTick (h n)"
  shows "wheel_inv h' w"
proof -
  have "n \<in># wheel_nodes w" if "n \<in> set (tv w l i)" for n l i
    using in_wheel_nodes [OF wheel_inv_okw [OF assms(1)]] that by blast
  then show ?thesis
    using assms by (auto simp: wheel_inv_def level_strict_def node_ok_def node_okw_def Let_def)
qed

text \<open>Slots stay inside the arrays: 256 at level one, 64 above.\<close>

lemma slots_in_range:
  "unat (x AND TVR_MASK) < 256" "unat (drop_bit s x AND TVN_MASK) < 64"
proof -
  show "unat (x AND TVR_MASK) < 256"
    using unat_take_drop [of 8 0 x] by (simp add: tv_masks and_mask_take_bit)
  show "unat (drop_bit s x AND TVN_MASK) < 64"
    by (simp add: tv_masks and_mask_take_bit unat_take_drop)
qed

text \<open>Any bucket that is cascaded at its own tick is emptied, whatever the wheel holds.\<close>

lemma Cascade_returns:
  assumes l: "l \<noteq> TV1" and c0: "unat (currentTick w) mod 2 ^ level_shift l = 0"
  shows "\<exists>w'. Cascade h l (level_slot l (unat (currentTick w))) w = Some w' \<and>
    currentTick w' = currentTick w"
  using c0
proof (induction "tv w l (level_slot l (unat (currentTick w)))" arbitrary: w)
  case Nil
  then show ?case by (simp add: Cascade.simps [of h l _ w] flip: Nil.hyps)
next
  case (Cons n ns)
  let ?i = "level_slot l (unat (currentTick w))" and ?e = "expiryTick (h n)"
  let ?w1 = "erase_front l ?i (Add h n w)"
  have n: "tv w l ?i = n # ns" using Cons.hyps(2) by simp
  have "tv (Add h n w) l ?i = n # ns"
  proof (rule ccontr)
    assume "tv (Add h n w) l ?i \<noteq> n # ns"
    then have here: "l = level_for (unat (?e - currentTick w))" "?i = level_slot l (unat ?e)"
      using n by (auto simp: Add_tv Let_def split: if_splits)
    have lt: "unat (?e - currentTick w) < 2 ^ 32" using unsigned_less [of "?e - currentTick w"] by simp
    have "unat (?e - currentTick w) < 2 ^ level_top l" using level_for_bounds(1) [OF lt] here(1) by simp
    then have "unat (?e - currentTick w) = unat ?e mod 2 ^ level_shift l"
      using Cons.prems here(2) by (intro slot_cascaded) auto
    then have "unat (?e - currentTick w) < 2 ^ level_shift l" by simp
    then show False using level_for_below [OF _ l] here(1) by metis
  qed
  then have ns: "ns = tv ?w1 l (level_slot l (unat (currentTick ?w1)))" by simp
  have "\<exists>w'. Cascade h l ?i ?w1 = Some w' \<and> currentTick w' = currentTick w"
    using Cons.hyps(1) [OF ns] Cons.prems by simp
  then show ?case using n by (simp add: Cascade.simps [of h l ?i w])
qed

lemma cascade_all_returns:
  assumes c0: "unat (currentTick w) mod 2 ^ 8 = 0"
  shows "\<exists>w'. cascade_all h w = Some w'"
proof -
  let ?c = "unat (currentTick w)"
  obtain w1 where w1: "Cascade h TV2 (level_slot TV2 ?c) w = Some w1" "currentTick w1 = currentTick w"
    using Cascade_returns [of TV2 w h] c0 by auto
  have "\<exists>w2. Cascade h TV3 (level_slot TV3 ?c) w1 = Some w2 \<and> currentTick w2 = currentTick w"
    if "level_slot TV2 ?c = 0"
    using Cascade_returns [of TV3 w1 h] slot_zero_next [of ?c TV2] c0 that w1 by simp
  moreover have "\<exists>w3. Cascade h TV4 (level_slot TV4 ?c) w2 = Some w3 \<and> currentTick w3 = currentTick w"
    if "level_slot TV2 ?c = 0" "level_slot TV3 ?c = 0" "currentTick w2 = currentTick w" for w2
    using Cascade_returns [of TV4 w2 h] slot_zero_next [of ?c TV2] slot_zero_next [of ?c TV3] c0 that
    by simp
  moreover have "\<exists>w4. Cascade h TV5 (level_slot TV5 ?c) w3 = Some w4"
    if "level_slot TV2 ?c = 0" "level_slot TV3 ?c = 0" "level_slot TV4 ?c = 0"
      "currentTick w3 = currentTick w" for w3
    using Cascade_returns [of TV5 w3 h] slot_zero_next [of ?c TV2] slot_zero_next [of ?c TV3]
      slot_zero_next [of ?c TV4] c0 that by auto
  ultimately show ?thesis
    using w1 by (fastforce simp: cascade_all_def slot_of_level Let_def split: option.splits)
qed

lemma new_wheel_inv: "wheel_inv h new_wheel"
  by (simp add: wheel_inv_def level_strict_def new_wheel_def)

lemma new_wheel_nodes [simp]: "wheel_nodes new_wheel = {#}"
  by (simp add: wheel_nodes_def new_wheel_def)

lemma new_wheel_tick [simp]: "currentTick new_wheel = 0"
  by (simp add: new_wheel_def)

definition sample_heap :: heap where
  "sample_heap r = \<lparr>node_id = 1, logicTimerId = 7, pParam = 0, expiryTick = 300, intervalTick = 0,
     rawListener = 5, weakListener = 0, useWeak = False, cancelled = False\<rparr>"

lemma sample_heap_simps [simp]:
  "expiryTick (sample_heap r) = 300" "\<not> cancelled (sample_heap r)"
  by (simp_all add: sample_heap_def)

lemma sample_wheel_inv: "wheel_inv sample_heap (Add sample_heap 0 new_wheel)"
  by (rule Add_wheel_inv [OF new_wheel_inv]) simp

section \<open>Properties\<close>

text \<open>C10. Every tick of the wheel pops exactly the live nodes whose expiry is the new tick
  and keeps exactly the others: nothing is lost, early or late, across all five levels and the
  wrap of the 32-bit tick.\<close>

theorem wheel_tick_exact:
  assumes "wheel_inv h w"
  shows "\<exists>w' out. Advance h (currentTick w + 1) w = Some (w', out) \<and> wheel_inv h w' \<and>
    currentTick w' = currentTick w + 1 \<and>
    mset out = {#n \<in># wheel_nodes w. expiryTick (h n) = currentTick w + 1 \<and> \<not> cancelled (h n)#} \<and>
    wheel_nodes w' = {#n \<in># wheel_nodes w. expiryTick (h n) \<noteq> currentTick w + 1#}"
  using assms by (rule wheel_queue.advance_ok)

theorem wheel_tick_exact_witness:
  "\<exists>w' out. Advance sample_heap 1 (Add sample_heap 0 new_wheel) = Some (w', out) \<and>
    wheel_inv sample_heap w' \<and> out = [] \<and> wheel_nodes w' = {#0#}"
  using wheel_tick_exact [OF sample_wheel_inv]
  by (auto simp: Add_nodes)

text \<open>Over any number of ticks a pending live node comes out in the tick given by its
  distance, as often as it was added, and in no other tick.\<close>

theorem wheel_delivers_on_time:
  assumes "wheel_inv h w"
  shows "\<exists>w' outs. run_ticks h k w = Some (w', outs) \<and> wheel_inv h w' \<and> length outs = k \<and>
    (\<forall>j < k. \<forall>n. \<not> cancelled (h n) \<longrightarrow> count (mset (outs ! j)) n =
       (if Suc j = unat (expiryTick (h n) - currentTick w) then count (wheel_nodes w) n else 0))"
  unfolding run_ticks_eq using assms by (rule wheel_queue.ticks_deliver)

theorem wheel_delivers_on_time_witness:
  "\<exists>w' outs. run_ticks sample_heap 400 (Add sample_heap 0 new_wheel) = Some (w', outs) \<and>
    length outs = 400 \<and> count (mset (outs ! 299)) 0 = 1 \<and> count (mset (outs ! 298)) 0 = 0"
proof -
  obtain w' outs where r: "run_ticks sample_heap 400 (Add sample_heap 0 new_wheel) = Some (w', outs)"
    "length outs = 400"
    "\<forall>j < 400. count (mset (outs ! j)) 0 = (if Suc j = unat (300 :: u32) then count {#0#} 0 else 0)"
    using wheel_delivers_on_time [OF sample_wheel_inv, of 400] by (auto simp: Add_nodes)
  show ?thesis
    using r(1,2) spec [OF r(3), of 299] spec [OF r(3), of 298] by (simp del: count_mset_0_iff)
qed

text \<open>\<open>Add\<close> files a node that is not due in the current tick under a slot where the
  wheel's invariant holds, and adds that node and nothing else to the pending ones.\<close>

theorem add_keeps_wheel:
  assumes "wheel_inv h w" and "expiryTick (h n) \<noteq> currentTick w"
  shows "wheel_inv h (Add h n w) \<and> wheel_nodes (Add h n w) = add_mset n (wheel_nodes w) \<and>
    currentTick (Add h n w) = currentTick w"
  using assms by (simp add: Add_wheel_inv Add_nodes)

theorem add_keeps_wheel_witness:
  "wheel_inv sample_heap (Add sample_heap 0 new_wheel) \<and>
   wheel_nodes (Add sample_heap 0 new_wheel) = {#0#}"
  using add_keeps_wheel [OF new_wheel_inv, of sample_heap 0] by simp

text \<open>The cascade loops of \<open>Advance\<close> end on every wheel, at every tick and for every
  heap: no bucket is refilled by its own cascade, although \<open>Add\<close> may append to the bucket
  being walked.\<close>

theorem advance_returns: "\<exists>w' out. Advance h t w = Some (w', out)"
proof -
  have "unat (t AND TVR_MASK) = unat t mod 2 ^ 8"
    using unat_take_drop [of 8 0 t] by (simp add: tv_masks and_mask_take_bit)
  then have "\<exists>w1. (if unat (t AND TVR_MASK) = 0 then cascade_all h (w\<lparr>currentTick := t\<rparr>)
      else Some (w\<lparr>currentTick := t\<rparr>)) = Some w1"
    using cascade_all_returns [of "w\<lparr>currentTick := t\<rparr>" h] by auto
  then show ?thesis by (auto simp: Advance_def Let_def split: prod.split)
qed

text \<open>A node that expired one tick ago is not delivered in the next slot, as the comment
  in \<open>Add\<close> says, but after a whole turn of the 32-bit tick: it does not come out in any of
  the next \<open>2 ^ 32 - 2\<close> ticks.\<close>

theorem expired_node_waits_a_turn:
  assumes "wheel_inv h w" "n \<notin># wheel_nodes w" "\<not> cancelled (h n)"
    and "expiryTick (h n) + 1 = currentTick w" and "k < 2 ^ 32 - 1"
  shows "\<exists>w' outs. run_ticks h k (Add h n w) = Some (w', outs) \<and> (\<forall>out \<in> set outs. n \<notin> set out)"
proof -
  have e: "expiryTick (h n) - currentTick w = -1" using assms(4) by (simp add: algebra_simps)
  then have "wheel_inv h (Add h n w)" using assms(1) by (intro Add_wheel_inv) auto
  then obtain w' outs where r: "run_ticks h k (Add h n w) = Some (w', outs)" "length outs = k"
    "\<forall>j < k. count (mset (outs ! j)) n =
       (if Suc j = unat (expiryTick (h n) - currentTick w) then count (wheel_nodes (Add h n w)) n else 0)"
    using wheel_queue.ticks_deliver [of h "Add h n w" k] assms(3) by (auto simp: run_ticks_eq)
  have m1: "unat (- 1 :: u32) = 4294967295"
    by (simp add: unsigned_minus_1_eq_mask mask_eq_exp_minus_1)
  have "n \<notin> set (outs ! j)" if "j < k" for j
    using r(3) that assms(5) e m1 by (simp flip: count_mset_0_iff)
  then show ?thesis using r(1,2) by (metis in_set_conv_nth)
qed

theorem expired_node_waits_a_turn_witness:
  "\<exists>w' outs. run_ticks (sample_heap(1 := (sample_heap 1)\<lparr>expiryTick := -1\<rparr>)) 5
     (Add (sample_heap(1 := (sample_heap 1)\<lparr>expiryTick := -1\<rparr>)) 1 new_wheel) = Some (w', outs) \<and>
     (\<forall>out \<in> set outs. 1 \<notin> set out)"
  by (rule expired_node_waits_a_turn [OF new_wheel_inv])
     simp_all

end
