(* ===== verification/Timer_Service.thy ===== *)
theory Timer_Service
  imports Timing_Wheel
begin

text \<open>
  The timer service of \<^verbatim>\<open>src/System/Timer/TimerImpl.cpp\<close>.  Producers (\<open>SetTimer\<close>,
  \<open>SetInterval\<close>, \<open>CancelTimer\<close>, \<open>Unregister\<close>) draw a handle and post a message; the
  dispatcher thread runs the consumers (\<open>OnTimerAdd\<close>, \<open>OnTimerCancel\<close>,
  \<open>OnTimerExpired\<close>, \<open>OnTick\<close>) on the maps and the wheel.  The state is explicit; a call of
  a listener's \<open>OnTimer\<close> is an event of the result.  A listener callback can only post
  messages, so it does not change this state.  Liveness of weakly held listeners and the
  clock are arguments.
\<close>

section \<open>Messages, events and state\<close>

record TimerAddMessage =
  am_timerId :: u64
  am_logicTimerId :: u32
  am_intervalMs :: u32
  am_isInterval :: bool
  am_listener :: listener
  am_weakListener :: listener \<comment> \<open>0: empty \<^verbatim>\<open>weak_ptr\<close>\<close>
  am_pParam :: nat

record TimerCancelMessage =
  cm_timerId :: u64
  cm_listener :: listener

datatype fire = OnTimer (fire_id: u64) (fire_listener: listener) u32 nat

record timer_impl =
  nextTimerId :: u64
  timers :: "u64 \<rightharpoonup> node_ref"
  listenerMap :: "(listener \<times> u64) list" \<comment> \<open>\<^verbatim>\<open>unordered_multimap\<close>\<close>
  ti_wheel :: wheel
  ti_currentTick :: u32
  ti_heap :: heap
  nextRef :: node_ref

definition TICK_INTERVAL_MS :: u32 where "TICK_INTERVAL_MS = 10"

section \<open>Producers\<close>

text \<open>
  \<open>pool_ok\<close> is the result of the message allocation: without a message the handle is
  still drawn and returned.  The second component of a result is the handle, the third the
  posted message.
\<close>

definition SetTimer_raw ::
  "bool \<Rightarrow> u32 \<Rightarrow> u32 \<Rightarrow> listener \<Rightarrow> nat \<Rightarrow> timer_impl \<Rightarrow> timer_impl \<times> u64 \<times> TimerAddMessage option" where
  "SetTimer_raw pool_ok timerId delayMs l p s =
     (let i = nextTimerId s in
      (s\<lparr>nextTimerId := i + 1\<rparr>, i,
       if pool_ok then Some \<lparr>am_timerId = i, am_logicTimerId = timerId, am_intervalMs = delayMs,
         am_isInterval = False, am_listener = l, am_weakListener = 0, am_pParam = p\<rparr> else None))"

definition SetTimer_weak ::
  "(listener \<Rightarrow> bool) \<Rightarrow> bool \<Rightarrow> u32 \<Rightarrow> u32 \<Rightarrow> listener \<Rightarrow> nat \<Rightarrow> timer_impl
     \<Rightarrow> timer_impl \<times> u64 \<times> TimerAddMessage option" where
  "SetTimer_weak alive pool_ok timerId delayMs wl p s =
     (let i = nextTimerId s in
      (s\<lparr>nextTimerId := i + 1\<rparr>, i,
       if pool_ok then Some \<lparr>am_timerId = i, am_logicTimerId = timerId, am_intervalMs = delayMs,
         am_isInterval = False, am_listener = (if alive wl then wl else 0),
         am_weakListener = wl, am_pParam = p\<rparr> else None))"

definition SetInterval_raw ::
  "bool \<Rightarrow> u32 \<Rightarrow> u32 \<Rightarrow> listener \<Rightarrow> nat \<Rightarrow> timer_impl \<Rightarrow> timer_impl \<times> u64 \<times> TimerAddMessage option" where
  "SetInterval_raw pool_ok timerId intervalMs l p s =
     (let i = nextTimerId s in
      (s\<lparr>nextTimerId := i + 1\<rparr>, i,
       if pool_ok then Some \<lparr>am_timerId = i, am_logicTimerId = timerId, am_intervalMs = intervalMs,
         am_isInterval = True, am_listener = l, am_weakListener = 0, am_pParam = p\<rparr> else None))"

definition SetInterval_weak ::
  "(listener \<Rightarrow> bool) \<Rightarrow> bool \<Rightarrow> u32 \<Rightarrow> u32 \<Rightarrow> listener \<Rightarrow> nat \<Rightarrow> timer_impl
     \<Rightarrow> timer_impl \<times> u64 \<times> TimerAddMessage option" where
  "SetInterval_weak alive pool_ok timerId intervalMs wl p s =
     (let i = nextTimerId s in
      (s\<lparr>nextTimerId := i + 1\<rparr>, i,
       if pool_ok then Some \<lparr>am_timerId = i, am_logicTimerId = timerId, am_intervalMs = intervalMs,
         am_isInterval = True, am_listener = (if alive wl then wl else 0),
         am_weakListener = wl, am_pParam = p\<rparr> else None))"

definition CancelTimer :: "bool \<Rightarrow> u64 \<Rightarrow> TimerCancelMessage option" where
  "CancelTimer pool_ok handle =
     (if pool_ok then Some \<lparr>cm_timerId = handle, cm_listener = 0\<rparr> else None)"

definition Unregister :: "bool \<Rightarrow> listener \<Rightarrow> TimerCancelMessage option" where
  "Unregister pool_ok l =
     (if pool_ok then Some \<lparr>cm_timerId = 0, cm_listener = l\<rparr> else None)"

section \<open>Consumers\<close>

definition ticks_of :: "u32 \<Rightarrow> u32" where
  "ticks_of ms = (let ticks = ms div TICK_INTERVAL_MS in if ticks = 0 then 1 else ticks)"

definition OnTimerAdd :: "(listener \<Rightarrow> bool) \<Rightarrow> TimerAddMessage \<Rightarrow> timer_impl \<Rightarrow> timer_impl" where
  "OnTimerAdd alive msg s =
     (let ticks = ticks_of (am_intervalMs msg);
          weak = am_weakListener msg \<noteq> 0 \<and> alive (am_weakListener msg);
          node = \<lparr>node_id = am_timerId msg, logicTimerId = am_logicTimerId msg,
                  pParam = am_pParam msg, expiryTick = ti_currentTick s + ticks,
                  intervalTick = (if am_isInterval msg then ticks else 0),
                  rawListener = am_listener msg,
                  weakListener = (if weak then am_weakListener msg else 0),
                  useWeak = weak, cancelled = False\<rparr>;
          r = nextRef s;
          h = (ti_heap s)(r := node)
      in s\<lparr>ti_heap := h, nextRef := Suc r,
           timers := (timers s)(node_id node \<mapsto> r),
           listenerMap := listenerMap s @ [(rawListener node, node_id node)],
           ti_wheel := Add h r (ti_wheel s)\<rparr>)"

text \<open>Erasing the pairs with this listener and timer, then the timer's own entry.\<close>

definition erase_timer :: "listener \<Rightarrow> u64 \<Rightarrow> timer_impl \<Rightarrow> timer_impl" where
  "erase_timer l tid s =
     s\<lparr>listenerMap := filter (\<lambda>(l', t). \<not> (l' = l \<and> t = tid)) (listenerMap s),
       timers := (timers s)(tid := None)\<rparr>"

definition OnTimerCancel :: "TimerCancelMessage \<Rightarrow> timer_impl \<Rightarrow> timer_impl" where
  "OnTimerCancel msg s =
     (if cm_timerId msg \<noteq> 0 then
        (case timers s (cm_timerId msg) of
           None \<Rightarrow> s
         | Some r \<Rightarrow>
             (let h = (ti_heap s)(r := (ti_heap s r)\<lparr>cancelled := True\<rparr>)
              in erase_timer (rawListener (h r)) (cm_timerId msg) (s\<lparr>ti_heap := h\<rparr>)))
      else if cm_listener msg \<noteq> 0 then
        (let target = cm_listener msg;
             idsToRemove = map snd (filter (\<lambda>(l, _). l = target) (listenerMap s))
         in s\<lparr>timers := fold (\<lambda>tid m. m(tid := None)) idsToRemove (timers s),
              listenerMap := filter (\<lambda>(l, _). l \<noteq> target) (listenerMap s)\<rparr>)
      else s)"

definition reschedule :: "u64 \<Rightarrow> node_ref \<Rightarrow> timer_impl \<Rightarrow> timer_impl" where
  "reschedule tid r s =
     (let node = ti_heap s r in
      if 0 < intervalTick node then
        (let h = (ti_heap s)(r := node\<lparr>expiryTick := expiryTick node + intervalTick node\<rparr>)
         in s\<lparr>ti_heap := h, ti_wheel := Add h r (ti_wheel s)\<rparr>)
      else erase_timer (rawListener node) tid s)"

definition OnTimerExpired :: "(listener \<Rightarrow> bool) \<Rightarrow> u64 \<Rightarrow> timer_impl \<Rightarrow> timer_impl \<times> fire list" where
  "OnTimerExpired alive tid s =
     (case timers s tid of
        None \<Rightarrow> (s, [])
      | Some r \<Rightarrow>
          (let node = ti_heap s r in
           if cancelled node then (erase_timer (rawListener node) tid s, [])
           else if useWeak node then
             (if alive (weakListener node)
              then (reschedule tid r s, [OnTimer tid (weakListener node) (logicTimerId node) (pParam node)])
              else (erase_timer (rawListener node) tid (s\<lparr>ti_heap := Remove (ti_heap s) r\<rparr>), []))
           else
             (reschedule tid r s,
              if rawListener node \<noteq> 0
              then [OnTimer tid (rawListener node) (logicTimerId node) (pParam node)] else [])))"

fun expire_all :: "(u64 \<Rightarrow> listener \<Rightarrow> bool) \<Rightarrow> node_ref list \<Rightarrow> timer_impl \<Rightarrow> timer_impl \<times> fire list" where
  "expire_all alive [] s = (s, [])"
| "expire_all alive (r # rs) s =
     (let tid = node_id (ti_heap s r);
          (s1, ev1) = OnTimerExpired (alive tid) tid s;
          (s2, ev2) = expire_all alive rs s1
      in (s2, ev1 @ ev2))"

text \<open>\<open>alive tid\<close> is the liveness of listeners seen when timer \<open>tid\<close> is handled: a callback
  earlier in the same tick may have destroyed a listener.\<close>

definition OnTick :: "(u64 \<Rightarrow> listener \<Rightarrow> bool) \<Rightarrow> timer_impl \<Rightarrow> (timer_impl \<times> fire list) option" where
  "OnTick alive s =
     (let t = ti_currentTick s + 1 in
      case Advance (ti_heap s) t (ti_wheel s) of
        None \<Rightarrow> None
      | Some (w, expired) \<Rightarrow>
          Some (expire_all alive expired (s\<lparr>ti_currentTick := t, ti_wheel := w\<rparr>)))"

text \<open>The next expiry of the tick timer, in milliseconds of the steady clock.\<close>

definition ScheduleTick :: "int \<Rightarrow> int \<Rightarrow> int" where
  "ScheduleTick now expiry =
     (if expiry < now - 60 * 60 * 1000 then now + uint TICK_INTERVAL_MS
      else expiry + uint TICK_INTERVAL_MS)"

definition new_timer_impl :: timer_impl where
  "new_timer_impl = \<lparr>nextTimerId = 1, timers = Map.empty, listenerMap = [], ti_wheel = new_wheel,
     ti_currentTick = 0, ti_heap = (\<lambda>_. \<lparr>node_id = 0, logicTimerId = 0, pParam = 0, expiryTick = 0,
       intervalTick = 0, rawListener = 0, weakListener = 0, useWeak = False, cancelled = False\<rparr>),
     nextRef = 0\<rparr>"

section \<open>Invariant\<close>

text \<open>
  \<open>hand\<close> are the nodes the wheel has given out in this tick and that are not handled yet.
  Every node is in the wheel or in the hand once; a registered timer's node is one of them
  and is not cancelled; the listener map is exactly the relation between registered timers
  and their listeners.
\<close>

definition held :: "node_ref list \<Rightarrow> timer_impl \<Rightarrow> node_ref multiset" where
  "held hand s = wheel_nodes (ti_wheel s) + mset hand"

definition listener_pairs :: "timer_impl \<Rightarrow> (listener \<times> u64) set" where
  "listener_pairs s = {(rawListener (ti_heap s r), tid) | tid r. timers s tid = Some r}"

definition maps_ok :: "node_ref list \<Rightarrow> timer_impl \<Rightarrow> bool" where
  "maps_ok hand s \<longleftrightarrow>
     (\<forall>tid r. timers s tid = Some r \<longrightarrow>
        r \<in># held hand s \<and> node_id (ti_heap s r) = tid \<and> \<not> cancelled (ti_heap s r)) \<and>
     (\<forall>r r'. r \<in># held hand s \<longrightarrow> timers s (node_id (ti_heap s r)) = Some r' \<longrightarrow> r' = r) \<and>
     set (listenerMap s) = listener_pairs s \<and> distinct (listenerMap s)"

definition nodes_ok :: "node_ref list \<Rightarrow> timer_impl \<Rightarrow> bool" where
  "nodes_ok hand s \<longleftrightarrow>
     ti_currentTick s = currentTick (ti_wheel s) \<and> wheel_inv (ti_heap s) (ti_wheel s) \<and>
     (\<forall>r. count (held hand s) r \<le> 1) \<and> (\<forall>r. r \<in># held hand s \<longrightarrow> r < nextRef s) \<and>
     (\<forall>r \<in> set hand. expiryTick (ti_heap s r) = ti_currentTick s)"

definition timers_inv :: "timer_impl \<Rightarrow> bool" where
  "timers_inv s \<longleftrightarrow> nodes_ok [] s \<and> maps_ok [] s"

section \<open>The abstract timer table\<close>

text \<open>
  What the service promises: a table from handles to timers.  A tick handles the entries
  whose expiry is the new tick: the listener is called, a repeating timer is moved to its next
  expiry, a one-shot timer or one whose listener has died is removed.
\<close>

type_synonym timer_table = "u64 \<rightharpoonup> node"

definition table :: "timer_impl \<Rightarrow> timer_table" where
  "table s tid = map_option (ti_heap s) (timers s tid)"

definition fire_of :: "(listener \<Rightarrow> bool) \<Rightarrow> u64 \<Rightarrow> node \<Rightarrow> fire list" where
  "fire_of alive tid nd =
     (if useWeak nd
      then (if alive (weakListener nd) then [OnTimer tid (weakListener nd) (logicTimerId nd) (pParam nd)] else [])
      else if rawListener nd \<noteq> 0 then [OnTimer tid (rawListener nd) (logicTimerId nd) (pParam nd)] else [])"

definition expire_entry :: "(listener \<Rightarrow> bool) \<Rightarrow> node \<Rightarrow> node option" where
  "expire_entry alive nd =
     (if 0 < intervalTick nd \<and> (useWeak nd \<longrightarrow> alive (weakListener nd))
      then Some (nd\<lparr>expiryTick := expiryTick nd + intervalTick nd\<rparr>) else None)"

definition tick_entry :: "(u64 \<Rightarrow> listener \<Rightarrow> bool) \<Rightarrow> u32 \<Rightarrow> timer_table \<Rightarrow> timer_table" where
  "tick_entry alive t m tid =
     (case m tid of None \<Rightarrow> None
      | Some nd \<Rightarrow> if expiryTick nd = t then expire_entry (alive tid) nd else Some nd)"

definition tick_fires :: "(u64 \<Rightarrow> listener \<Rightarrow> bool) \<Rightarrow> u32 \<Rightarrow> timer_table \<Rightarrow> u64 \<Rightarrow> fire list" where
  "tick_fires alive t m tid =
     (case m tid of None \<Rightarrow> []
      | Some nd \<Rightarrow> if expiryTick nd = t then fire_of (alive tid) tid nd else [])"

section \<open>Preservation\<close>

lemma maps_okD:
  assumes "maps_ok hand s" "timers s tid = Some r"
  shows "r \<in># held hand s" "node_id (ti_heap s r) = tid" "\<not> cancelled (ti_heap s r)"
  using assms by (auto simp: maps_ok_def)

lemma hand_not_in_wheel:
  assumes "nodes_ok (r # rs) s"
  shows "r \<notin># wheel_nodes (ti_wheel s)" "r \<notin> set rs" "r \<notin># held rs s"
proof -
  have "count (held (r # rs) s) r \<le> 1" using assms unfolding nodes_ok_def by blast
  then have "count (held rs s) r = 0" by (simp add: held_def)
  then show "r \<notin># held rs s" by (simp add: count_eq_zero_iff)
  then show "r \<notin># wheel_nodes (ti_wheel s)" "r \<notin> set rs" by (auto simp: held_def)
qed

lemma held_Cons: "held (r # rs) s = add_mset r (held rs s)"
  by (simp add: held_def)

lemma nodes_ok_drop:
  assumes "nodes_ok (r # rs) s"
  shows "nodes_ok rs s"
proof -
  have "count (held rs s) x \<le> 1" for x
    using assms by (metis count_add_mset held_Cons le_SucI nat_le_linear not_less_eq_eq nodes_ok_def)
  then show ?thesis using assms by (auto simp: nodes_ok_def held_Cons)
qed

lemma maps_ok_drop:
  assumes "maps_ok (r # rs) s" "timers s (node_id (ti_heap s r)) = None"
  shows "maps_ok rs s"
  using assms unfolding maps_ok_def held_Cons by (metis insert_iff option.distinct(1) set_mset_add_mset_insert)

text \<open>Handling node \<open>r\<close> touches no other node and no other timer.\<close>

definition hand_frame :: "node_ref \<Rightarrow> timer_impl \<Rightarrow> timer_impl \<Rightarrow> bool" where
  "hand_frame r s s' \<longleftrightarrow>
     (\<forall>x. x \<noteq> r \<longrightarrow> ti_heap s' x = ti_heap s x) \<and>
     (\<forall>t. timers s t \<noteq> Some r \<longrightarrow> timers s' t = timers s t) \<and>
     (\<forall>t. timers s t = Some r \<longrightarrow> timers s' t = None \<or> timers s' t = Some r) \<and>
     ti_currentTick s' = ti_currentTick s"

text \<open>Removing the timer at the head of the hand.\<close>

lemma erase_hand:
  fixes s :: timer_impl and nd :: node and r :: node_ref and tid :: u64
  assumes nodes: "nodes_ok (r # rs) s" and maps: "maps_ok (r # rs) s"
    and tid: "timers s tid = Some r"
  defines "s' \<equiv> erase_timer (rawListener (ti_heap s r)) tid (s\<lparr>ti_heap := (ti_heap s)(r := nd)\<rparr>)"
  shows "nodes_ok rs s' \<and> maps_ok rs s' \<and> hand_frame r s s' \<and>
    table s' = (table s)(tid := None)"
proof -
  have r: "r \<notin># held rs s" "r \<notin># wheel_nodes (ti_wheel s)" "r \<notin> set rs"
    using hand_not_in_wheel [OF nodes] by auto
  have id: "node_id (ti_heap s r) = tid" by (rule maps_okD [OF maps tid])
  have other: "x \<noteq> r" if "timers s t = Some x" "t \<noteq> tid" for t x
    using maps_okD(2) [OF maps that(1)] id that(2) by auto
  have held': "held rs s' = held rs s" by (simp add: s'_def erase_timer_def held_def)
  have h': "x \<noteq> r \<Longrightarrow> ti_heap s' x = ti_heap s x" for x by (simp add: s'_def erase_timer_def)
  have t': "timers s' = (timers s)(tid := None)" by (simp add: s'_def erase_timer_def)
  have lm: "set (listenerMap s') = listener_pairs s'"
  proof -
    have "set (listenerMap s') = listener_pairs s - {(rawListener (ti_heap s r), tid)}"
      using maps by (auto simp: maps_ok_def s'_def erase_timer_def)
    also have "\<dots> = {(rawListener (ti_heap s x), t) | t x. timers s t = Some x \<and> t \<noteq> tid}"
      using tid by (auto simp: listener_pairs_def)
    also have "\<dots> = {(rawListener (ti_heap s' x), t) | t x. timers s t = Some x \<and> t \<noteq> tid}"
      by (intro Collect_cong ex_cong1) (auto simp: h' dest: other)
    also have "\<dots> = listener_pairs s'"
      by (simp add: listener_pairs_def t') (intro Collect_cong ex_cong1, auto)
    finally show ?thesis .
  qed
  have "nodes_ok rs s'"
  proof -
    have "wheel_inv (ti_heap s') (ti_wheel s)"
    proof (rule wheel_inv_cong)
      show "wheel_inv (ti_heap s) (ti_wheel s)" using nodes by (simp add: nodes_ok_def)
      show "expiryTick (ti_heap s' n) = expiryTick (ti_heap s n)"
        if "n \<in># wheel_nodes (ti_wheel s)" for n
        using that r(2) h' by metis
    qed
    moreover have "nodes_ok rs s" by (rule nodes_ok_drop [OF nodes])
    ultimately show ?thesis
      using r(3) h' unfolding nodes_ok_def held' by (auto simp: s'_def erase_timer_def)
  qed
  moreover have "maps_ok rs s'"
    unfolding maps_ok_def held'
  proof (intro conjI allI impI)
    fix t x assume "timers s' t = Some x"
    then have tx: "timers s t = Some x" "t \<noteq> tid" by (auto simp: t' split: if_splits)
    then have "x \<noteq> r" using other by blast
    then show "x \<in># held rs s" "node_id (ti_heap s' x) = t" "\<not> cancelled (ti_heap s' x)"
      using maps_okD [OF maps tx(1)] h' by (auto simp: held_Cons)
  next
    fix x x' assume x: "x \<in># held rs s" "timers s' (node_id (ti_heap s' x)) = Some x'"
    then have "x \<noteq> r" using r(1) by blast
    then have "timers s (node_id (ti_heap s x)) = Some x'" "x \<in># held (r # rs) s"
      using x h' by (auto simp: t' held_Cons split: if_splits)
    then show "x' = x" using maps by (auto simp: maps_ok_def)
  next
    show "distinct (listenerMap s')" using maps by (simp add: maps_ok_def s'_def erase_timer_def)
  qed (rule lm)
  moreover have "table s' = (table s)(tid := None)"
  proof
    fix t show "table s' t = ((table s)(tid := None)) t"
      using other [of t] h' by (cases "timers s t") (auto simp: table_def t')
  qed
  moreover have "hand_frame r s s'"
    using tid h' by (auto simp: hand_frame_def t' s'_def erase_timer_def)
  ultimately show ?thesis by simp
qed

text \<open>Re-arming the repeating timer at the head of the hand.\<close>

lemma rearm_hand:
  fixes s :: timer_impl and r :: node_ref and tid :: u64
  assumes nodes: "nodes_ok (r # rs) s" and maps: "maps_ok (r # rs) s"
    and tid: "timers s tid = Some r" and iv: "0 < intervalTick (ti_heap s r)"
  defines "s' \<equiv> reschedule tid r s"
  shows "nodes_ok rs s' \<and> maps_ok rs s' \<and> hand_frame r s s' \<and>
    table s' = (table s)(tid \<mapsto> (ti_heap s r)\<lparr>expiryTick := expiryTick (ti_heap s r) + intervalTick (ti_heap s r)\<rparr>)"
proof -
  let ?nd = "(ti_heap s r)\<lparr>expiryTick := expiryTick (ti_heap s r) + intervalTick (ti_heap s r)\<rparr>"
  let ?h = "(ti_heap s)(r := ?nd)"
  have s': "s' = s\<lparr>ti_heap := ?h, ti_wheel := Add ?h r (ti_wheel s)\<rparr>"
    using iv by (simp add: s'_def reschedule_def Let_def)
  have r: "r \<notin># wheel_nodes (ti_wheel s)" "r \<notin> set rs"
    using hand_not_in_wheel [OF nodes] by auto
  have id: "node_id (ti_heap s r) = tid" by (rule maps_okD [OF maps tid])
  have held': "held rs s' = held (r # rs) s" by (simp add: s' held_def Add_nodes)
  have winv: "wheel_inv ?h (ti_wheel s)"
  proof (rule wheel_inv_cong)
    show "wheel_inv (ti_heap s) (ti_wheel s)" using nodes by (simp add: nodes_ok_def)
    show "expiryTick (?h n) = expiryTick (ti_heap s n)" if "n \<in># wheel_nodes (ti_wheel s)" for n
      using that r(1) by auto
  qed
  have "expiryTick (?h r) \<noteq> currentTick (ti_wheel s)"
    using nodes iv by (simp add: nodes_ok_def)
  then have "wheel_inv ?h (Add ?h r (ti_wheel s))" by (rule Add_wheel_inv [OF winv])
  then have "nodes_ok rs s'"
    using nodes r(2) unfolding nodes_ok_def held' by (auto simp: s')
  moreover have "maps_ok rs s'"
  proof -
    have "listener_pairs s' = listener_pairs s"
      unfolding listener_pairs_def by (intro Collect_cong ex_cong1) (auto simp: s')
    then show ?thesis using maps unfolding maps_ok_def held' by (auto simp: s' split: if_splits)
  qed
  moreover have "table s' = (table s)(tid \<mapsto> ?nd)"
  proof
    fix t show "table s' t = ((table s)(tid \<mapsto> ?nd)) t"
    proof (cases "timers s t")
      case (Some x)
      then show ?thesis using maps_okD(2) [OF maps Some] id tid by (auto simp: table_def s')
    qed (use tid in \<open>auto simp: table_def s'\<close>)
  qed
  ultimately show ?thesis by (simp add: s' hand_frame_def)
qed

text \<open>One expired node.\<close>

lemma OnTimerExpired_hand:
  assumes nodes: "nodes_ok (r # rs) s" and maps: "maps_ok (r # rs) s"
    and res: "OnTimerExpired al (node_id (ti_heap s r)) s = (s', ev)"
  shows "nodes_ok rs s' \<and> maps_ok rs s' \<and> hand_frame r s s' \<and>
    table s' = (\<lambda>tid. if timers s tid = Some r then expire_entry al (ti_heap s r) else table s tid) \<and>
    (\<forall>tid. filter (\<lambda>e. fire_id e = tid) ev =
       (if timers s tid = Some r then fire_of al tid (ti_heap s r) else []))"
proof (cases "timers s (node_id (ti_heap s r))")
  case None
  then have "\<forall>tid. timers s tid \<noteq> Some r" using maps_okD(2) [OF maps] by fastforce
  then show ?thesis
    using res None nodes_ok_drop [OF nodes] maps_ok_drop [OF maps None]
    by (auto simp: OnTimerExpired_def hand_frame_def)
next
  case (Some r')
  let ?tid = "node_id (ti_heap s r)" and ?nd = "ti_heap s r"
  have r': "timers s ?tid = Some r"
    using Some maps by (metis held_Cons maps_ok_def union_single_eq_member add_mset_add_single)
  have only: "timers s t = Some r \<longleftrightarrow> t = ?tid" for t using r' maps_okD(2) [OF maps] by blast
  have nc: "\<not> cancelled ?nd" by (rule maps_okD [OF maps r'])
  have tab: "(table s)(?tid := v) = (\<lambda>t. if timers s t = Some r then v else table s t)" for v
    by (auto simp: only)
  have ev: "ev = fire_of al ?tid ?nd"
    using res r' nc by (auto simp: OnTimerExpired_def fire_of_def Let_def split: if_splits)
  have evs: "\<forall>t. filter (\<lambda>e. fire_id e = t) ev = (if timers s t = Some r then fire_of al t ?nd else [])"
    by (auto simp: ev only fire_of_def)
  show ?thesis
  proof (cases "useWeak ?nd \<and> \<not> al (weakListener ?nd)")
    case True
    then have "s' = erase_timer (rawListener ?nd) ?tid
        (s\<lparr>ti_heap := (ti_heap s)(r := ?nd\<lparr>cancelled := True\<rparr>)\<rparr>)"
      using res r' nc by (simp add: OnTimerExpired_def Remove_def Let_def)
    moreover have "expire_entry al ?nd = None" using True by (simp add: expire_entry_def)
    ultimately show ?thesis using erase_hand [OF nodes maps r'] evs by (simp add: tab cong: if_cong)
  next
    case False
    then have s': "s' = reschedule ?tid r s"
      using res r' nc by (auto simp: OnTimerExpired_def Let_def split: if_splits)
    show ?thesis
    proof (cases "0 < intervalTick ?nd")
      case True
      then show ?thesis
        using rearm_hand [OF nodes maps r' True] True False evs
        by (auto simp: s' tab expire_entry_def cong: if_cong)
    next
      case iv0: False
      then have "s' = erase_timer (rawListener ?nd) ?tid (s\<lparr>ti_heap := (ti_heap s)(r := ?nd)\<rparr>)"
        by (simp add: s' reschedule_def Let_def)
      moreover have "expire_entry al ?nd = None" using iv0 by (simp add: expire_entry_def)
      ultimately show ?thesis using erase_hand [OF nodes maps r', of ?nd] evs by (simp add: tab cong: if_cong)
    qed
  qed
qed

text \<open>The whole hand.\<close>

lemma expire_all_hand:
  assumes "nodes_ok rs s" "maps_ok rs s" "expire_all alive rs s = (s', evs)"
  shows "nodes_ok [] s' \<and> maps_ok [] s' \<and> ti_currentTick s' = ti_currentTick s \<and>
    (\<forall>tid. table s' tid = (case timers s tid of None \<Rightarrow> None
       | Some r \<Rightarrow> if r \<in> set rs then expire_entry (alive tid) (ti_heap s r) else Some (ti_heap s r))) \<and>
    (\<forall>tid. filter (\<lambda>e. fire_id e = tid) evs = (case timers s tid of None \<Rightarrow> []
       | Some r \<Rightarrow> if r \<in> set rs then fire_of (alive tid) tid (ti_heap s r) else []))"
  using assms
proof (induction rs arbitrary: s evs)
  case Nil
  then show ?case by (auto simp: table_def split: option.splits)
next
  case (Cons r rs)
  let ?tid = "node_id (ti_heap s r)"
  obtain s1 ev1 where o: "OnTimerExpired (alive ?tid) ?tid s = (s1, ev1)" by fastforce
  obtain ev2 where e: "expire_all alive rs s1 = (s', ev2)" "evs = ev1 @ ev2"
    using Cons.prems(3) o by (auto simp: Let_def split: prod.splits)
  have one: "nodes_ok rs s1" "maps_ok rs s1" "hand_frame r s s1"
    "table s1 = (\<lambda>t. if timers s t = Some r then expire_entry (alive ?tid) (ti_heap s r) else table s t)"
    "\<forall>t. filter (\<lambda>e. fire_id e = t) ev1 =
       (if timers s t = Some r then fire_of (alive ?tid) t (ti_heap s r) else [])"
    using OnTimerExpired_hand [OF Cons.prems(1,2) o] by auto
  note rest = Cons.IH [OF one(1,2) e(1)]
  have tid_r: "timers s t = Some r \<Longrightarrow> t = ?tid" for t using maps_okD(2) [OF Cons.prems(2)] by blast
  have r: "r \<notin> set rs" using hand_not_in_wheel [OF Cons.prems(1)] by blast
  have fr: "timers s1 t = timers s t" "timers s t = Some x \<Longrightarrow> ti_heap s1 x = ti_heap s x"
    if "timers s t \<noteq> Some r" for t x
    using one(3) that by (auto simp: hand_frame_def)
  have hd: "timers s t = Some r \<Longrightarrow> timers s1 t = None \<or> timers s1 t = Some r" for t
    using one(3) by (auto simp: hand_frame_def)
  have "table s' t = (case timers s t of None \<Rightarrow> None
      | Some x \<Rightarrow> if x \<in> set (r # rs) then expire_entry (alive t) (ti_heap s x) else Some (ti_heap s x))" for t
  proof (cases "timers s t = Some r")
    case True
    have "table s' t = table s1 t"
      using rest hd [OF True] r by (auto simp: table_def)
    then show ?thesis using True one(4) tid_r [OF True] by simp
  next
    case False
    then show ?thesis using rest fr [OF False] by (auto split: option.splits)
  qed
  moreover have "filter (\<lambda>e. fire_id e = t) evs = (case timers s t of None \<Rightarrow> []
      | Some x \<Rightarrow> if x \<in> set (r # rs) then fire_of (alive t) t (ti_heap s x) else [])" for t
  proof (cases "timers s t = Some r")
    case True
    then show ?thesis using rest one(5) hd [OF True] r tid_r [OF True] e(2) by auto
  next
    case False
    then show ?thesis using rest one(5) fr [OF False] e(2) by (auto split: option.splits)
  qed
  ultimately show ?case using rest one(3) by (auto simp: hand_frame_def)
qed

section \<open>The consumers refine the table\<close>

lemma OnTick_refines:
  assumes inv: "timers_inv s"
  shows "\<exists>s' evs. OnTick alive s = Some (s', evs) \<and> timers_inv s' \<and>
    ti_currentTick s' = ti_currentTick s + 1 \<and>
    table s' = tick_entry alive (ti_currentTick s + 1) (table s) \<and>
    (\<forall>tid. filter (\<lambda>e. fire_id e = tid) evs = tick_fires alive (ti_currentTick s + 1) (table s) tid)"
proof -
  let ?t = "ti_currentTick s + 1" and ?h = "ti_heap s"
  have n: "ti_currentTick s = currentTick (ti_wheel s)" "wheel_inv ?h (ti_wheel s)"
    "\<And>r. count (wheel_nodes (ti_wheel s)) r \<le> 1" "\<And>r. r \<in># wheel_nodes (ti_wheel s) \<Longrightarrow> r < nextRef s"
    using inv by (auto simp: timers_inv_def nodes_ok_def held_def)
  have m: "maps_ok [] s" using inv by (simp add: timers_inv_def)
  obtain w' out where a: "Advance ?h ?t (ti_wheel s) = Some (w', out)" "wheel_inv ?h w'"
    "currentTick w' = ?t"
    "mset out = {#r \<in># wheel_nodes (ti_wheel s). expiryTick (?h r) = ?t \<and> \<not> cancelled (?h r)#}"
    "wheel_nodes w' = {#r \<in># wheel_nodes (ti_wheel s). expiryTick (?h r) \<noteq> ?t#}"
    using wheel_queue.advance_ok [OF n(2)] n(1) by auto
  let ?s0 = "s\<lparr>ti_currentTick := ?t, ti_wheel := w'\<rparr>"
  have out_iff: "r \<in> set out \<longleftrightarrow>
      r \<in># wheel_nodes (ti_wheel s) \<and> expiryTick (?h r) = ?t \<and> \<not> cancelled (?h r)" for r
    using a(4) by (metis (mono_tags, lifting) filter_mset_eq_conv mem_Collect_eq set_mset_filter set_mset_mset)
  have held: "r \<in># held out ?s0 \<longleftrightarrow> r \<in># wheel_nodes (ti_wheel s) \<and>
      (expiryTick (?h r) = ?t \<longrightarrow> \<not> cancelled (?h r))" for r
    by (auto simp: held_def a(5) out_iff)
  have count: "count (held out ?s0) r \<le> 1" for r
    using n(3) [of r] by (simp add: held_def a(4,5))
  have "nodes_ok out ?s0"
    unfolding nodes_ok_def using count held n(4) a(2,3) out_iff by simp
  moreover have "maps_ok out ?s0"
  proof -
    have "listener_pairs ?s0 = listener_pairs s" by (simp add: listener_pairs_def)
    then show ?thesis using m unfolding maps_ok_def held by (auto simp: held_def)
  qed
  moreover obtain s' evs where e: "expire_all alive out ?s0 = (s', evs)" by fastforce
  ultimately have x: "nodes_ok [] s'" "maps_ok [] s'" "ti_currentTick s' = ?t"
    "\<And>tid. table s' tid = (case timers s tid of None \<Rightarrow> None
       | Some r \<Rightarrow> if r \<in> set out then expire_entry (alive tid) (?h r) else Some (?h r))"
    "\<And>tid. filter (\<lambda>e. fire_id e = tid) evs = (case timers s tid of None \<Rightarrow> []
       | Some r \<Rightarrow> if r \<in> set out then fire_of (alive tid) tid (?h r) else [])"
    using expire_all_hand [of out ?s0 alive s' evs] by (auto cong: option.case_cong if_cong)
  have due: "r \<in> set out \<longleftrightarrow> expiryTick (?h r) = ?t" if "timers s tid = Some r" for tid r
    using maps_okD [OF m that] by (simp add: out_iff held_def)
  have "table s' = tick_entry alive ?t (table s)"
    by (rule ext) (auto simp: x(4) tick_entry_def table_def [of s] due split: option.splits)
  moreover have "filter (\<lambda>e. fire_id e = tid) evs = tick_fires alive ?t (table s) tid" for tid
    by (auto simp: x(5) tick_fires_def table_def [of s] due split: option.splits)
  ultimately show ?thesis
    using a(1) e x(1-3) by (simp add: OnTick_def timers_inv_def Let_def)
qed

definition add_entry :: "(listener \<Rightarrow> bool) \<Rightarrow> u32 \<Rightarrow> TimerAddMessage \<Rightarrow> node" where
  "add_entry alive tick msg =
     (let ticks = ticks_of (am_intervalMs msg);
          weak = am_weakListener msg \<noteq> 0 \<and> alive (am_weakListener msg)
      in \<lparr>node_id = am_timerId msg, logicTimerId = am_logicTimerId msg, pParam = am_pParam msg,
          expiryTick = tick + ticks, intervalTick = (if am_isInterval msg then ticks else 0),
          rawListener = am_listener msg, weakListener = (if weak then am_weakListener msg else 0),
          useWeak = weak, cancelled = False\<rparr>)"

text \<open>A handle is fresh when no node of the wheel carries it.  Handles come from a 64-bit
  counter.\<close>

definition fresh_handle :: "u64 \<Rightarrow> timer_impl \<Rightarrow> bool" where
  "fresh_handle i s \<longleftrightarrow> (\<forall>r. r \<in># wheel_nodes (ti_wheel s) \<longrightarrow> node_id (ti_heap s r) \<noteq> i)"

lemma ticks_of_pos: "ticks_of ms \<noteq> 0"
  by (simp add: ticks_of_def Let_def)

lemma OnTimerAdd_refines:
  assumes inv: "timers_inv s" and fresh: "fresh_handle (am_timerId msg) s"
  shows "timers_inv (OnTimerAdd alive msg s) \<and>
    table (OnTimerAdd alive msg s) = (table s)(am_timerId msg \<mapsto> add_entry alive (ti_currentTick s) msg) \<and>
    ti_currentTick (OnTimerAdd alive msg s) = ti_currentTick s"
proof -
  let ?i = "am_timerId msg" and ?r = "nextRef s" and ?nd = "add_entry alive (ti_currentTick s) msg"
  let ?h = "(ti_heap s)(?r := ?nd)"
  let ?s' = "OnTimerAdd alive msg s"
  have s': "?s' = s\<lparr>ti_heap := ?h, nextRef := Suc ?r, timers := (timers s)(?i \<mapsto> ?r),
      listenerMap := listenerMap s @ [(am_listener msg, ?i)], ti_wheel := Add ?h ?r (ti_wheel s)\<rparr>"
    by (simp add: OnTimerAdd_def add_entry_def Let_def)
  have nd: "node_id ?nd = ?i" "rawListener ?nd = am_listener msg" "\<not> cancelled ?nd"
    "expiryTick ?nd = ti_currentTick s + ticks_of (am_intervalMs msg)"
    by (simp_all add: add_entry_def Let_def)
  have n: "ti_currentTick s = currentTick (ti_wheel s)" "wheel_inv (ti_heap s) (ti_wheel s)"
    "\<And>r. count (wheel_nodes (ti_wheel s)) r \<le> 1" "\<And>r. r \<in># wheel_nodes (ti_wheel s) \<Longrightarrow> r < ?r"
    using inv by (auto simp: timers_inv_def nodes_ok_def held_def)
  have m: "maps_ok [] s" using inv by (simp add: timers_inv_def)
  have new: "?r \<notin># wheel_nodes (ti_wheel s)" using n(4) by blast
  have reg: "r \<in># wheel_nodes (ti_wheel s)" "r \<noteq> ?r" "t \<noteq> ?i" if "timers s t = Some r" for t r
    using maps_okD [OF m that] new fresh by (auto simp: held_def fresh_handle_def)
  have "wheel_inv ?h (ti_wheel s)" using n(2) new by (intro wheel_inv_cong [OF n(2)]) auto
  then have "wheel_inv ?h (Add ?h ?r (ti_wheel s))"
    by (rule Add_wheel_inv) (use nd(4) n(1) in \<open>simp add: ticks_of_pos\<close>)
  moreover have "count (add_mset ?r (wheel_nodes (ti_wheel s))) r \<le> 1" for r
    using n(3) [of r] new by (cases "r = ?r") (simp_all add: not_in_iff)
  ultimately have "nodes_ok [] ?s'"
    using n(1,4) by (auto simp: nodes_ok_def held_def s' Add_nodes less_Suc_eq)
  moreover have "maps_ok [] ?s'"
  proof -
    have "timers s ?i = None" using reg(3) by (cases "timers s ?i") blast+
    then have "(l, ?i) \<notin> listener_pairs s" for l by (simp add: listener_pairs_def)
    moreover have "listener_pairs ?s' = insert (am_listener msg, ?i) (listener_pairs s)"
      using reg by (fastforce simp: listener_pairs_def s' nd(2) split: if_splits)
    ultimately have "set (listenerMap ?s') = listener_pairs ?s' \<and> distinct (listenerMap ?s')"
      using m by (simp add: maps_ok_def s')
    moreover have "r' = r" if "r \<in># held [] ?s'" "timers ?s' (node_id (ti_heap ?s' r)) = Some r'" for r r'
      using that m fresh nd(1) new
      by (auto simp: maps_ok_def held_def s' Add_nodes fresh_handle_def split: if_splits)
    moreover have "r \<in># held [] ?s' \<and> node_id (ti_heap ?s' r) = t \<and> \<not> cancelled (ti_heap ?s' r)"
      if tr: "timers ?s' t = Some r" for t r
    proof (cases "t = ?i")
      case True
      then have "r = ?r" using tr by (simp add: s')
      then show ?thesis using nd(1,3) True by (simp add: s' held_def Add_nodes)
    next
      case False
      then have "timers s t = Some r" using tr by (simp add: s')
      then show ?thesis using maps_okD [OF m] reg by (simp add: s' held_def Add_nodes)
    qed
    ultimately show ?thesis unfolding maps_ok_def by blast
  qed
  moreover have "table ?s' = (table s)(?i \<mapsto> ?nd)"
  proof
    fix t show "table ?s' t = ((table s)(?i \<mapsto> ?nd)) t"
      using reg [of t] by (cases "timers s t") (auto simp: table_def s')
  qed
  ultimately show ?thesis by (simp add: timers_inv_def s')
qed

lemma cancel_by_handle:
  assumes inv: "timers_inv s" and r: "timers s tid = Some r"
  defines "h \<equiv> (ti_heap s)(r := (ti_heap s r)\<lparr>cancelled := True\<rparr>)"
  defines "s' \<equiv> erase_timer (rawListener (ti_heap s r)) tid (s\<lparr>ti_heap := h\<rparr>)"
  shows "timers_inv s' \<and> table s' = (table s)(tid := None)"
proof -
  have m: "maps_ok [] s" and n: "nodes_ok [] s" using inv by (auto simp: timers_inv_def)
  have other: "x \<noteq> r" if "timers s t = Some x" "t \<noteq> tid" for t x
    using maps_okD(2) [OF m that(1)] maps_okD(2) [OF m r] that(2) by auto
  have t': "timers s' = (timers s)(tid := None)" and hh: "ti_heap s' = h"
    and held': "held [] s' = held [] s" by (simp_all add: s'_def erase_timer_def held_def)
  have same: "node_id (h x) = node_id (ti_heap s x)" "rawListener (h x) = rawListener (ti_heap s x)"
    "expiryTick (h x) = expiryTick (ti_heap s x)" "x \<noteq> r \<Longrightarrow> h x = ti_heap s x" for x
    by (simp_all add: h_def)
  have "wheel_inv h (ti_wheel s)"
    by (rule wheel_inv_cong [of "ti_heap s"]) (use n in \<open>simp_all add: nodes_ok_def same\<close>)
  then have "nodes_ok [] s'"
    using n unfolding nodes_ok_def held' by (simp add: hh) (simp add: s'_def erase_timer_def)
  moreover have "maps_ok [] s'"
  proof -
    have "set (listenerMap s') = {(rawListener (ti_heap s x), t) | t x. timers s t = Some x \<and> t \<noteq> tid}"
      using m r by (auto simp: maps_ok_def s'_def erase_timer_def listener_pairs_def)
    also have "\<dots> = listener_pairs s'"
      unfolding listener_pairs_def t' hh same(2) by (intro Collect_cong ex_cong1) auto
    finally have lm: "set (listenerMap s') = listener_pairs s'" .
    have "distinct (listenerMap s')" using m by (simp add: maps_ok_def s'_def erase_timer_def)
    moreover have "x \<in># held [] s \<and> node_id (h x) = t \<and> \<not> cancelled (h x)"
      if "timers s' t = Some x" for t x
    proof -
      have tx: "timers s t = Some x" "t \<noteq> tid" using that by (auto simp: t' split: if_splits)
      then show ?thesis using maps_okD [OF m tx(1)] same(4) [OF other [OF tx]] by simp
    qed
    moreover have "x' = x" if "x \<in># held [] s" "timers s' (node_id (h x)) = Some x'" for x x'
      using that m by (auto simp: maps_ok_def t' same(1) split: if_splits)
    ultimately show ?thesis using lm unfolding maps_ok_def held' hh by blast
  qed
  moreover have "table s' = (table s)(tid := None)"
  proof
    fix t show "table s' t = ((table s)(tid := None)) t"
      using other [of t] same(4) by (cases "timers s t") (auto simp: table_def t' hh)
  qed
  ultimately show ?thesis by (simp add: timers_inv_def)
qed

lemma fold_erase: "fold (\<lambda>t m. m(t := None)) ts m = (\<lambda>t. if t \<in> set ts then None else m t)"
  by (induction ts arbitrary: m) auto

lemma cancel_by_listener:
  assumes inv: "timers_inv s" and l0: "cm_timerId msg = 0" and l: "cm_listener msg \<noteq> 0"
  shows "timers_inv (OnTimerCancel msg s) \<and>
    table (OnTimerCancel msg s) = (\<lambda>tid. case table s tid of None \<Rightarrow> None
       | Some nd \<Rightarrow> if rawListener nd = cm_listener msg then None else Some nd)"
proof -
  let ?s' = "OnTimerCancel msg s" and ?l = "cm_listener msg"
  have m: "maps_ok [] s" and n: "nodes_ok [] s" using inv by (auto simp: timers_inv_def)
  define ids where "ids = map snd (filter (\<lambda>(l, _). l = ?l) (listenerMap s))"
  have "t \<in> set ids \<longleftrightarrow> (?l, t) \<in> set (listenerMap s)" for t
    unfolding ids_def by force
  then have ids: "t \<in> set ids \<longleftrightarrow> (\<exists>r. timers s t = Some r \<and> rawListener (ti_heap s r) = ?l)" for t
    using m by (auto simp: maps_ok_def listener_pairs_def)
  have "timers ?s' t = (if t \<in> set ids then None else timers s t)" for t
    using l0 l by (simp add: OnTimerCancel_def fold_erase Let_def ids_def)
  then have t': "timers ?s' t = (case timers s t of None \<Rightarrow> None
      | Some r \<Rightarrow> if rawListener (ti_heap s r) = ?l then None else Some r)" for t
    by (auto simp: ids split: option.splits)
  have frame: "ti_heap ?s' = ti_heap s" "ti_wheel ?s' = ti_wheel s" "ti_currentTick ?s' = ti_currentTick s"
    "nextRef ?s' = nextRef s" "listenerMap ?s' = filter (\<lambda>(l, _). l \<noteq> ?l) (listenerMap s)"
    using l0 l by (simp_all add: OnTimerCancel_def Let_def)
  have "timers ?s' t = Some x \<longleftrightarrow> timers s t = Some x \<and> rawListener (ti_heap s x) \<noteq> ?l" for t x
    by (auto simp: t' split: option.splits)
  then have lp: "listener_pairs ?s' = {p \<in> listener_pairs s. fst p \<noteq> ?l}"
    by (auto simp: listener_pairs_def frame)
  have "nodes_ok [] ?s'" using n by (simp add: nodes_ok_def held_def frame)
  moreover have "maps_ok [] ?s'"
    using m by (auto simp: maps_ok_def held_def frame lp t' split: option.splits if_splits)
  moreover have "table ?s' = (\<lambda>tid. case table s tid of None \<Rightarrow> None
       | Some nd \<Rightarrow> if rawListener nd = ?l then None else Some nd)"
    by (rule ext) (auto simp: table_def t' frame split: option.splits)
  ultimately show ?thesis by (simp add: timers_inv_def)
qed

lemma OnTimerCancel_refines:
  assumes inv: "timers_inv s"
  shows "timers_inv (OnTimerCancel msg s) \<and>
    table (OnTimerCancel msg s) =
      (if cm_timerId msg \<noteq> 0 then (table s)(cm_timerId msg := None)
       else if cm_listener msg \<noteq> 0 then (\<lambda>tid. case table s tid of None \<Rightarrow> None
         | Some nd \<Rightarrow> if rawListener nd = cm_listener msg then None else Some nd)
       else table s)"
proof (cases "cm_timerId msg \<noteq> 0")
  case True
  then show ?thesis
    using cancel_by_handle [OF inv, of "cm_timerId msg"] inv
    by (cases "timers s (cm_timerId msg)") (auto simp: OnTimerCancel_def table_def Let_def)
next
  case False
  then show ?thesis
    using cancel_by_listener [OF inv] inv by (cases "cm_listener msg = 0") (auto simp: OnTimerCancel_def)
qed

section \<open>Runs\<close>

datatype timer_input =
    InAdd "listener \<Rightarrow> bool" TimerAddMessage
  | InCancel TimerCancelMessage
  | InTick "u64 \<Rightarrow> listener \<Rightarrow> bool"

inductive timer_step :: "timer_impl \<Rightarrow> timer_input \<Rightarrow> timer_impl \<Rightarrow> fire list \<Rightarrow> bool" where
  add: "fresh_handle (am_timerId m) s \<Longrightarrow> timer_step s (InAdd al m) (OnTimerAdd al m s) []"
| cancel: "timer_step s (InCancel m) (OnTimerCancel m s) []"
| tick: "OnTick al s = Some (s', evs) \<Longrightarrow> timer_step s (InTick al) s' evs"

inductive timer_run :: "timer_impl \<Rightarrow> timer_input list \<Rightarrow> timer_impl \<Rightarrow> fire list \<Rightarrow> bool" where
  run_nil: "timer_run s [] s []"
| run_cons: "timer_step s i s1 ev1 \<Longrightarrow> timer_run s1 is s2 ev2 \<Longrightarrow> timer_run s (i # is) s2 (ev1 @ ev2)"

inductive_simps timer_step_simps [simp]:
  "timer_step s (InAdd al m) s' evs" "timer_step s (InCancel m) s' evs" "timer_step s (InTick al) s' evs"
inductive_cases timer_run_consE: "timer_run s (i # is) s' evs"
inductive_simps timer_run_nil [simp]: "timer_run s [] s' evs"

lemma timer_step_inv:
  assumes "timers_inv s" "timer_step s i s' evs"
  shows "timers_inv s'"
  using assms(2,1)
proof cases
  case (tick al)
  then show ?thesis using OnTick_refines [OF assms(1), of al] by auto
qed (auto simp: OnTimerAdd_refines OnTimerCancel_refines)

lemma timer_run_inv: "timer_run s is s' evs \<Longrightarrow> timers_inv s \<Longrightarrow> timers_inv s'"
  by (induction rule: timer_run.induct) (auto intro: timer_step_inv)

definition adds_handle :: "u64 \<Rightarrow> timer_input \<Rightarrow> bool" where
  "adds_handle tid i \<longleftrightarrow> (case i of InAdd _ m \<Rightarrow> am_timerId m = tid | _ \<Rightarrow> False)"

lemma timer_step_absent:
  assumes "timers_inv s" "timer_step s i s' evs" "table s tid = None" "\<not> adds_handle tid i"
  shows "table s' tid = None \<and> (\<forall>e \<in> set evs. fire_id e \<noteq> tid)"
  using assms(2)
proof cases
  case (add m al)
  then show ?thesis using OnTimerAdd_refines [OF assms(1)] assms(3,4) by (auto simp: adds_handle_def)
next
  case (cancel m)
  then show ?thesis using OnTimerCancel_refines [OF assms(1), of m] assms(3) by simp
next
  case (tick al)
  then have "table s' tid = None" "filter (\<lambda>e. fire_id e = tid) evs = []"
    using OnTick_refines [OF assms(1), of al] assms(3) by (auto simp: tick_entry_def tick_fires_def)
  then show ?thesis by (simp add: filter_empty_conv)
qed

lemma timer_run_absent:
  "timer_run s is s' evs \<Longrightarrow> timers_inv s \<Longrightarrow> table s tid = None \<Longrightarrow> \<forall>i \<in> set is. \<not> adds_handle tid i
    \<Longrightarrow> \<forall>e \<in> set evs. fire_id e \<noteq> tid"
proof (induction rule: timer_run.induct)
  case (run_cons s i s1 ev1 "is" s2 ev2)
  then show ?case using timer_step_absent [of s i s1 ev1 tid] timer_step_inv by auto
qed simp

text \<open>Ticks in a row, with the events of each tick.\<close>

primrec tick_run :: "(u64 \<Rightarrow> listener \<Rightarrow> bool) \<Rightarrow> nat \<Rightarrow> timer_impl \<Rightarrow> (timer_impl \<times> fire list list) option" where
  "tick_run alive 0 s = Some (s, [])"
| "tick_run alive (Suc k) s =
     (case OnTick alive s of None \<Rightarrow> None
      | Some (s1, evs) \<Rightarrow> (case tick_run alive k s1 of None \<Rightarrow> None
          | Some (s2, outs) \<Rightarrow> Some (s2, evs # outs)))"

definition due_in :: "nat \<Rightarrow> nat \<Rightarrow> nat \<Rightarrow> bool" where
  "due_in d p j \<longleftrightarrow> d \<le> j \<and> (if p = 0 then j = d else (j - d) mod p = 0)"

lemma due_in_step: "0 < d \<Longrightarrow> due_in (Suc d) p (Suc j) \<longleftrightarrow> due_in d p j"
  by (auto simp: due_in_def)

lemma due_in_again: "0 < p \<Longrightarrow> 0 < j \<Longrightarrow> due_in 1 p (Suc j) \<longleftrightarrow> due_in p p j"
  by (auto simp: due_in_def le_mod_geq mod_less intro: ccontr)

lemma due_in_period: "0 < p \<Longrightarrow> due_in p p (Suc j) \<longleftrightarrow> Suc j mod p = 0"
  by (cases "p \<le> Suc j") (simp_all add: due_in_def le_mod_geq)

lemma tick_run_gone:
  assumes "timers_inv s" "table s tid = None"
  shows "\<exists>s' outs. tick_run alive k s = Some (s', outs) \<and> length outs = k \<and>
    (\<forall>j < k. filter (\<lambda>e. fire_id e = tid) (outs ! j) = [])"
  using assms
proof (induction k arbitrary: s)
  case (Suc k)
  obtain s1 evs where o: "OnTick alive s = Some (s1, evs)" "timers_inv s1" "table s1 tid = None"
    "filter (\<lambda>e. fire_id e = tid) evs = []"
    using OnTick_refines [OF Suc.prems(1), of alive] Suc.prems(2)
    by (auto simp: tick_entry_def tick_fires_def)
  then show ?case using Suc.IH [OF o(2,3)] by (auto simp: nth_Cons split: nat.split)
qed simp

text \<open>A timer with a plain listener is called in the ticks its expiry and interval say.\<close>

lemma tick_run_fires:
  assumes "timers_inv s" "table s tid = Some nd" "\<not> useWeak nd" "rawListener nd \<noteq> 0"
    and "expiryTick nd \<noteq> ti_currentTick s"
  shows "\<exists>s' outs. tick_run alive k s = Some (s', outs) \<and> length outs = k \<and>
    (\<forall>j < k. filter (\<lambda>e. fire_id e = tid) (outs ! j) =
       (if due_in (unat (expiryTick nd - ti_currentTick s)) (unat (intervalTick nd)) (Suc j)
        then [OnTimer tid (rawListener nd) (logicTimerId nd) (pParam nd)] else []))"
  using assms
proof (induction k arbitrary: s nd)
  case (Suc k)
  let ?t = "ti_currentTick s + 1" and ?fire = "[OnTimer tid (rawListener nd) (logicTimerId nd) (pParam nd)]"
  obtain s1 evs where o: "OnTick alive s = Some (s1, evs)" "timers_inv s1" "ti_currentTick s1 = ?t"
    "table s1 = tick_entry alive ?t (table s)"
    "\<And>tid. filter (\<lambda>e. fire_id e = tid) evs = tick_fires alive ?t (table s) tid"
    using OnTick_refines [OF Suc.prems(1), of alive] by blast
  have evs: "filter (\<lambda>e. fire_id e = tid) evs = (if expiryTick nd = ?t then ?fire else [])"
    using Suc.prems by (simp add: o(5) tick_fires_def fire_of_def)
  show ?case
  proof (cases "expiryTick nd = ?t")
    case now: True
    then have d: "unat (expiryTick nd - ti_currentTick s) = 1" by simp
    show ?thesis
    proof (cases "intervalTick nd = 0")
      case True
      then have "table s1 tid = None"
        using Suc.prems now by (simp add: o(4) tick_entry_def expire_entry_def)
      then show ?thesis
        using tick_run_gone [OF o(2), of tid alive k] o(1) evs now True
        by (auto simp: nth_Cons due_in_def d split: nat.split)
    next
      case False
      let ?nd = "nd\<lparr>expiryTick := expiryTick nd + intervalTick nd\<rparr>"
      have p: "0 < unat (intervalTick nd)" using False by (simp add: unat_gt_0)
      have t1: "table s1 tid = Some ?nd"
        using Suc.prems now False by (simp add: o(4) tick_entry_def expire_entry_def word_neq_0_conv)
      have d1: "expiryTick ?nd - ti_currentTick s1 = intervalTick nd" by (simp add: o(3) now)
      have "expiryTick ?nd \<noteq> ti_currentTick s1" using False d1 by auto
      then obtain s2 outs where r: "tick_run alive k s1 = Some (s2, outs)" "length outs = k"
        "\<forall>j < k. filter (\<lambda>e. fire_id e = tid) (outs ! j) =
           (if due_in (unat (intervalTick nd)) (unat (intervalTick nd)) (Suc j) then ?fire else [])"
        using Suc.IH [OF o(2) t1] Suc.prems(3,4) d1 by auto
      then show ?thesis
        using o(1) evs now due_in_again [OF p]
        by (auto simp: nth_Cons d split: nat.split) (simp add: due_in_def)
    qed
  next
    case False
    then have t1: "table s1 tid = Some nd" using Suc.prems(2) by (simp add: o(4) tick_entry_def)
    have "expiryTick nd - ti_currentTick s1 \<noteq> 0" using False o(3) by simp
    then have d2: "0 < unat (expiryTick nd - ti_currentTick s1)" by (metis unat_gt_0)
    then have d: "unat (expiryTick nd - ti_currentTick s) = Suc (unat (expiryTick nd - ti_currentTick s1))"
      using unat_diff_pred [OF Suc.prems(5)] unfolding o(3) by linarith
    have "expiryTick nd \<noteq> ti_currentTick s1" using False o(3) by simp
    then obtain s2 outs where r: "tick_run alive k s1 = Some (s2, outs)" "length outs = k"
      "\<forall>j < k. filter (\<lambda>e. fire_id e = tid) (outs ! j) =
         (if due_in (unat (expiryTick nd - ti_currentTick s1)) (unat (intervalTick nd)) (Suc j)
          then ?fire else [])"
      using Suc.IH [OF o(2) t1] Suc.prems(3,4) by auto
    then show ?thesis
      using o(1) evs False due_in_step [OF d2]
      by (auto simp: nth_Cons d split: nat.split) (use d2 in \<open>simp add: due_in_def\<close>)
  qed
qed simp

lemma new_timer_impl_inv: "timers_inv new_timer_impl"
  by (simp add: timers_inv_def nodes_ok_def maps_ok_def held_def listener_pairs_def new_timer_impl_def
      new_wheel_inv)

lemma new_timer_impl_fresh: "fresh_handle i new_timer_impl"
  by (simp add: fresh_handle_def new_timer_impl_def)

definition sample_add :: TimerAddMessage where
  "sample_add = \<lparr>am_timerId = 1, am_logicTimerId = 9, am_intervalMs = 40, am_isInterval = True,
     am_listener = 5, am_weakListener = 0, am_pParam = 0\<rparr>"

lemma sample_add_fields:
  "am_timerId sample_add = 1" "am_logicTimerId sample_add = 9" "am_intervalMs sample_add = 40"
  "am_isInterval sample_add" "am_listener sample_add = 5" "am_weakListener sample_add = 0"
  "am_pParam sample_add = 0"
  by (simp_all add: sample_add_def)

lemma new_timer_impl_table: "table new_timer_impl = Map.empty"
  by (rule ext) (simp add: table_def new_timer_impl_def)

lemma sample_add_inv: "timers_inv (OnTimerAdd al sample_add new_timer_impl)"
  using OnTimerAdd_refines [OF new_timer_impl_inv new_timer_impl_fresh] by blast

lemma timers_inv_nextTimerId: "timers_inv (s\<lparr>nextTimerId := i\<rparr>) = timers_inv s"
  by (simp add: timers_inv_def nodes_ok_def maps_ok_def held_def listener_pairs_def)

text \<open>The calls of a timer that is kept with its raw listener.\<close>

lemma raw_timer_schedule:
  assumes "timers_inv s" "fresh_handle (am_timerId msg) s"
    and "am_listener msg \<noteq> 0" "am_weakListener msg = 0 \<or> \<not> al (am_weakListener msg)"
  defines "T \<equiv> max 1 (unat (am_intervalMs msg) div 10)"
  shows "\<exists>s' outs. tick_run alive k (OnTimerAdd al msg s) = Some (s', outs) \<and> length outs = k \<and>
    (\<forall>j < k. filter (\<lambda>e. fire_id e = am_timerId msg) (outs ! j) =
       (if (if am_isInterval msg then Suc j mod T = 0 else Suc j = T)
        then [OnTimer (am_timerId msg) (am_listener msg) (am_logicTimerId msg) (am_pParam msg)] else []))"
proof -
  let ?nd = "add_entry al (ti_currentTick s) msg" and ?s = "OnTimerAdd al msg s"
  have r: "timers_inv ?s" "table ?s (am_timerId msg) = Some ?nd" "ti_currentTick ?s = ti_currentTick s"
    using OnTimerAdd_refines [OF assms(1,2), of al] by auto
  have T: "unat (ticks_of (am_intervalMs msg)) = T"
    by (auto simp: ticks_of_def TICK_INTERVAL_MS_def T_def unat_div Let_def max_def
        simp flip: unat_eq_zero)
  have nd: "\<not> useWeak ?nd" "rawListener ?nd = am_listener msg" "logicTimerId ?nd = am_logicTimerId msg"
    "pParam ?nd = am_pParam msg" "expiryTick ?nd - ti_currentTick s = ticks_of (am_intervalMs msg)"
    "unat (intervalTick ?nd) = (if am_isInterval msg then T else 0)"
    using assms(4) by (auto simp: add_entry_def Let_def T)
  have "expiryTick ?nd \<noteq> ti_currentTick ?s" using nd(5) ticks_of_pos r(3) by (metis diff_self)
  moreover have "due_in T (if am_isInterval msg then T else 0) (Suc j)
      \<longleftrightarrow> (if am_isInterval msg then Suc j mod T = 0 else Suc j = T)" for j
    using due_in_period [of T j] by (auto simp: due_in_def T_def)
  ultimately show ?thesis
    using tick_run_fires [OF r(1,2), of alive k] assms(3) by (simp add: nd r(3) T split del: if_split cong: if_cong)
qed

section \<open>Properties\<close>

text \<open>C7. A tick of the timer service does to the table of registered timers exactly what the
  contract says, whatever the wheel looks like inside: entries due at the new tick are called
  once, repeating ones move to their next expiry, the others are removed; all other entries are
  untouched.  The tick always completes.\<close>

theorem tick_refines_table:
  assumes "timers_inv s"
  shows "\<exists>s' evs. OnTick alive s = Some (s', evs) \<and> timers_inv s' \<and>
    ti_currentTick s' = ti_currentTick s + 1 \<and>
    table s' = tick_entry alive (ti_currentTick s + 1) (table s) \<and>
    (\<forall>tid. filter (\<lambda>e. fire_id e = tid) evs = tick_fires alive (ti_currentTick s + 1) (table s) tid)"
  using assms by (rule OnTick_refines)

theorem tick_refines_table_witness:
  "\<exists>s' evs. OnTick (\<lambda>_ _. True) (OnTimerAdd (\<lambda>_. True) sample_add new_timer_impl) = Some (s', evs) \<and>
     timers_inv s' \<and> filter (\<lambda>e. fire_id e = 2) evs = []"
  using tick_refines_table [OF sample_add_inv, of "\<lambda>_ _. True" "\<lambda>_. True"]
    OnTimerAdd_refines [OF new_timer_impl_inv new_timer_impl_fresh, where msg = sample_add and alive = "\<lambda>_. True"]
  by (auto simp: tick_fires_def new_timer_impl_table sample_add_fields)

text \<open>Adding, cancelling by handle and unregistering a listener are an insertion, a deletion
  and a filter of the table, and keep the service's invariant: both maps and the wheel stay in
  agreement.\<close>

theorem add_cancel_refine_table:
  assumes "timers_inv s" "fresh_handle (am_timerId msg) s"
  shows "timers_inv (OnTimerAdd alive msg s) \<and> timers_inv (OnTimerCancel cmsg s) \<and>
    table (OnTimerAdd alive msg s) = (table s)(am_timerId msg \<mapsto> add_entry alive (ti_currentTick s) msg) \<and>
    (cm_timerId cmsg \<noteq> 0 \<longrightarrow> table (OnTimerCancel cmsg s) = (table s)(cm_timerId cmsg := None)) \<and>
    (cm_timerId cmsg = 0 \<longrightarrow> cm_listener cmsg \<noteq> 0 \<longrightarrow>
       table (OnTimerCancel cmsg s) tid = (case table s tid of None \<Rightarrow> None
         | Some nd \<Rightarrow> if rawListener nd = cm_listener cmsg then None else Some nd))"
  using OnTimerAdd_refines [OF assms] OnTimerCancel_refines [OF assms(1), of cmsg] by simp

theorem add_cancel_refine_table_witness:
  "table (OnTimerAdd (\<lambda>_. True) sample_add new_timer_impl) 1
     = Some (add_entry (\<lambda>_. True) 0 sample_add) \<and>
   table (OnTimerCancel \<lparr>cm_timerId = 1, cm_listener = 0\<rparr> new_timer_impl) 1 = None"
  using add_cancel_refine_table [OF new_timer_impl_inv new_timer_impl_fresh, where msg = sample_add
      and alive = "\<lambda>_. True" and cmsg = "\<lparr>cm_timerId = 1, cm_listener = 0\<rparr>"]
  by (simp add: sample_add_fields) (simp add: new_timer_impl_def)

text \<open>C1. End to end: after \<open>OnTimerAdd\<close> for a plain listener with a delay of \<open>D\<close>
  milliseconds, let \<open>T\<close> be \<open>D div 10\<close>, but at least one tick.  A one-shot timer calls its listener in the
  \<open>T\<close>-th tick and never else, a repeating one in every \<open>T\<close>-th tick, with the identifier and the
  parameter it was set with.\<close>

theorem timer_fires_on_schedule:
  assumes "timers_inv s" "fresh_handle (am_timerId msg) s"
    and "am_listener msg \<noteq> 0" "am_weakListener msg = 0"
  defines "T \<equiv> max 1 (unat (am_intervalMs msg) div 10)"
  shows "\<exists>s' outs. tick_run alive k (OnTimerAdd al msg s) = Some (s', outs) \<and> length outs = k \<and>
    (\<forall>j < k. filter (\<lambda>e. fire_id e = am_timerId msg) (outs ! j) =
       (if (if am_isInterval msg then Suc j mod T = 0 else Suc j = T)
        then [OnTimer (am_timerId msg) (am_listener msg) (am_logicTimerId msg) (am_pParam msg)] else []))"
  unfolding T_def using assms(1-4) by (intro raw_timer_schedule) simp_all

theorem timer_fires_on_schedule_witness:
  "\<exists>s' outs. tick_run (\<lambda>_ _. True) 9 (OnTimerAdd (\<lambda>_. True) sample_add new_timer_impl) = Some (s', outs) \<and>
     length outs = 9 \<and> filter (\<lambda>e. fire_id e = 1) (outs ! 3) = [OnTimer 1 5 9 0] \<and>
     filter (\<lambda>e. fire_id e = 1) (outs ! 4) = [] \<and> filter (\<lambda>e. fire_id e = 1) (outs ! 7) = [OnTimer 1 5 9 0]"
proof -
  obtain s' outs where r: "tick_run (\<lambda>_ _. True) 9 (OnTimerAdd (\<lambda>_. True) sample_add new_timer_impl) = Some (s', outs)"
    "length outs = 9"
    "\<forall>j < 9. filter (\<lambda>e. fire_id e = 1) (outs ! j) = (if Suc j mod 4 = 0 then [OnTimer 1 5 9 0] else [])"
    using timer_fires_on_schedule [OF new_timer_impl_inv new_timer_impl_fresh, where msg = sample_add
        and alive = "\<lambda>_ _. True" and al = "\<lambda>_. True" and k = 9]
    by (auto simp: sample_add_fields)
  show ?thesis
    using r(1,2) spec [OF r(3), of 3] spec [OF r(3), of 4] spec [OF r(3), of 7] by simp
qed

text \<open>After a timer has been cancelled its listener is never called for it again, in any
  sequence of further additions, cancellations and ticks that does not reuse the handle.\<close>

theorem cancelled_timer_never_fires:
  assumes "timers_inv s" "cm_timerId m \<noteq> 0"
    and "timer_run (OnTimerCancel m s) is s' evs" "\<forall>i \<in> set is. \<not> adds_handle (cm_timerId m) i"
  shows "\<forall>e \<in> set evs. fire_id e \<noteq> cm_timerId m"
  using timer_run_absent [OF assms(3) _ _ assms(4)] OnTimerCancel_refines [OF assms(1), of m] assms(2)
  by simp

theorem cancelled_timer_never_fires_witness:
  "\<exists>s' evs. timer_run (OnTimerCancel \<lparr>cm_timerId = 1, cm_listener = 0\<rparr>
      (OnTimerAdd (\<lambda>_. True) sample_add new_timer_impl)) [InTick (\<lambda>_ _. True)] s' evs \<and>
      (\<forall>e \<in> set evs. fire_id e \<noteq> 1)"
proof -
  let ?s = "OnTimerAdd (\<lambda>_. True) sample_add new_timer_impl" and ?m = "\<lparr>cm_timerId = 1, cm_listener = 0\<rparr>"
  obtain s' evs where "OnTick (\<lambda>_ _. True) (OnTimerCancel ?m ?s) = Some (s', evs)"
    using OnTick_refines OnTimerCancel_refines [OF sample_add_inv] by blast
  then have run: "timer_run (OnTimerCancel ?m ?s) [InTick (\<lambda>_ _. True)] s' (evs @ [])"
    by (intro timer_run.run_cons [OF _ timer_run.run_nil]) simp
  then show ?thesis
    using cancelled_timer_never_fires [OF sample_add_inv _ run] by (auto simp: adds_handle_def)
qed

text \<open>Every sequence of additions with fresh handles, cancellations and ticks keeps the
  invariant: no registered timer is missing from the wheel or registered twice, and the listener map
  is exact.\<close>

theorem timer_runs_keep_invariant:
  assumes "timer_run new_timer_impl is s evs"
  shows "timers_inv s"
  using assms new_timer_impl_inv by (rule timer_run_inv)

theorem timer_runs_keep_invariant_witness:
  "timers_inv (OnTimerAdd (\<lambda>_. True) sample_add new_timer_impl)"
proof -
  have "timer_run new_timer_impl [InAdd (\<lambda>_. True) sample_add]
      (OnTimerAdd (\<lambda>_. True) sample_add new_timer_impl) ([] @ [])"
    by (intro timer_run.run_cons [OF _ timer_run.run_nil]) (simp add: new_timer_impl_fresh)
  then show ?thesis by (rule timer_runs_keep_invariant)
qed

text \<open>A timer set through a weak reference whose listener dies before the dispatcher handles
  the addition is not dropped: it is kept with the raw pointer and calls the dead listener.\<close>

theorem dead_weak_listener_is_called:
  assumes "timers_inv s" "fresh_handle (nextTimerId s) s" "wl \<noteq> 0"
  shows "\<exists>s' msg s'' outs. SetTimer_weak (\<lambda>_. True) True lid ms wl p s = (s', nextTimerId s, Some msg) \<and>
    tick_run (\<lambda>_ _. False) (max 1 (unat ms div 10)) (OnTimerAdd (\<lambda>_. False) msg s') = Some (s'', outs) \<and>
    OnTimer (nextTimerId s) wl lid p \<in> set (outs ! (max 1 (unat ms div 10) - 1))"
proof -
  define T s' msg where "T = max 1 (unat ms div 10)" and "s' = s\<lparr>nextTimerId := nextTimerId s + 1\<rparr>"
    and "msg = \<lparr>am_timerId = nextTimerId s, am_logicTimerId = lid, am_intervalMs = ms,
         am_isInterval = False, am_listener = wl, am_weakListener = wl, am_pParam = p\<rparr>"
  have set: "SetTimer_weak (\<lambda>_. True) True lid ms wl p s = (s', nextTimerId s, Some msg)"
    by (simp add: SetTimer_weak_def s'_def msg_def Let_def)
  have "timers_inv s'" "fresh_handle (am_timerId msg) s'"
    using assms(1,2) by (simp_all add: s'_def msg_def timers_inv_nextTimerId fresh_handle_def)
  from raw_timer_schedule [OF this, of "\<lambda>_. False" "\<lambda>_ _. False" T]
  obtain s'' outs where run: "tick_run (\<lambda>_ _. False) T (OnTimerAdd (\<lambda>_. False) msg s') = Some (s'', outs)"
    "\<forall>j < T. filter (\<lambda>e. fire_id e = am_timerId msg) (outs ! j) =
       (if Suc j = T then [OnTimer (am_timerId msg) wl lid p] else [])"
    using assms(3) by (auto simp: msg_def T_def)
  have "0 < T" by (simp add: T_def)
  then have "filter (\<lambda>e. fire_id e = am_timerId msg) (outs ! (T - 1)) = [OnTimer (nextTimerId s) wl lid p]"
    using run(2) by (simp add: msg_def)
  then have "OnTimer (nextTimerId s) wl lid p \<in> set (outs ! (T - 1))"
    by (metis filter_is_subset list.set_intros(1) subset_iff)
  then show ?thesis using set run(1) unfolding T_def by blast
qed

theorem dead_weak_listener_is_called_witness:
  "\<exists>s' msg s'' outs. SetTimer_weak (\<lambda>_. True) True 3 50 7 0 new_timer_impl = (s', 1, Some msg) \<and>
    tick_run (\<lambda>_ _. False) 5 (OnTimerAdd (\<lambda>_. False) msg s') = Some (s'', outs) \<and>
    OnTimer 1 7 3 0 \<in> set (outs ! 4)"
proof -
  have "nextTimerId new_timer_impl = 1" by (simp add: new_timer_impl_def)
  then show ?thesis
    using dead_weak_listener_is_called [OF new_timer_impl_inv new_timer_impl_fresh, where wl = 7 and lid = 3
        and ms = 50 and p = 0] by simp
qed

end
