(* ===== verification/Aes_Vector.thy ===== *)
theory Aes_Vector
  imports Packet_Cipher
begin

text \<open>
  The AES block function of \<^verbatim>\<open>src/System/Network/AesEncryption.cpp\<close> evaluated in the kernel
  on a published test vector.
\<close>

text \<open>The block function is AES-128: it reproduces the example vector of FIPS 197,
  appendix C.1.\<close>

theorem aes_fips_vector:
  "EncryptBlock \<lparr>roundKey = KeyExpansion [0x00, 0x01, 0x02, 0x03, 0x04, 0x05, 0x06, 0x07,
       0x08, 0x09, 0x0a, 0x0b, 0x0c, 0x0d, 0x0e, 0x0f], aes_iv = []\<rparr>
     [0x00, 0x11, 0x22, 0x33, 0x44, 0x55, 0x66, 0x77, 0x88, 0x99, 0xaa, 0xbb, 0xcc, 0xdd, 0xee, 0xff]
   = [0x69, 0xc4, 0xe0, 0xd8, 0x6a, 0x7b, 0x04, 0x30, 0xd8, 0xcd, 0xb7, 0x80, 0x70, 0xb4, 0xc5, 0x5a]"
  by code_simp

end
