(* ===== verification/Send_Protocol.thy ===== *)
theory Send_Protocol
  imports Prelude
begin

text \<open>
  The send path of a session as threads interleave in it: \<open>Session::EnqueueSend\<close> and the
  \<open>Flush\<close> of \<open>GatewaySession\<close> and \<open>BackendSession\<close>, one step per access to the shared queue or
  to \<open>isSending\<close>.  A packet is a number, the queue a multiset (the queue promises no order
  between producers).  Threads are numbered below \<open>N\<close>; the completion of a write runs
  \<open>Flush\<close> in an idle thread.

  Shown: \<open>isSending\<close> is a lock for the socket, so there is never more than one write in
  flight; no packet is lost or sent twice; but a packet can be left in the queue with no
  thread and no write to send it.
\<close>

section \<open>States and steps\<close>

datatype send_pc =
    Idle
  | Enqueue nat    \<comment> \<open>\<open>EnqueueSend\<close> before \<^verbatim>\<open>_sendQueue.enqueue(msg)\<close>\<close>
  | Exchange       \<comment> \<open>before \<^verbatim>\<open>_isSending.exchange(true)\<close>\<close>
  | Bulk           \<comment> \<open>\<open>Flush\<close> before \<^verbatim>\<open>try_dequeue_bulk\<close>\<close>
  | Release        \<comment> \<open>no item: before \<^verbatim>\<open>_isSending.store(false)\<close>\<close>
  | Recheck        \<comment> \<open>before \<^verbatim>\<open>try_dequeue(straggler)\<close>\<close>
  | Straggler nat  \<comment> \<open>before the second \<^verbatim>\<open>_isSending.exchange(true)\<close>\<close>
  | Requeue nat    \<comment> \<open>it was false: before \<^verbatim>\<open>enqueue(straggler); Flush()\<close>\<close>
  | GiveBack nat   \<comment> \<open>it was true: before \<^verbatim>\<open>enqueue(straggler)\<close>\<close>

record send_state =
  sq :: "nat multiset"
  sending :: bool
  sockopen :: bool
  inflight :: "nat list option"
  pc :: "nat \<Rightarrow> send_pc"
  submitted :: "nat multiset"
  transmitted :: "nat multiset"

definition MAX_BATCH :: nat where "MAX_BATCH = 1000"

definition goto :: "nat \<Rightarrow> send_pc \<Rightarrow> send_state \<Rightarrow> send_state" where
  "goto t p s = s\<lparr>pc := (pc s)(t := p)\<rparr>"

inductive send_step :: "nat \<Rightarrow> send_state \<Rightarrow> send_state \<Rightarrow> bool" for t where
  call: "pc s t = Idle \<Longrightarrow> send_step t s (goto t (Enqueue x) (s\<lparr>submitted := add_mset x (submitted s)\<rparr>))"
| enq: "pc s t = Enqueue x \<Longrightarrow> send_step t s (goto t Exchange (s\<lparr>sq := add_mset x (sq s)\<rparr>))"
| exch: "pc s t = Exchange \<Longrightarrow> send_step t s (goto t (if sending s then Idle else Bulk) (s\<lparr>sending := True\<rparr>))"
| closed: "pc s t = Bulk \<Longrightarrow> \<not> sockopen s \<Longrightarrow> send_step t s (goto t Idle (s\<lparr>sending := False\<rparr>))"
| batch: "pc s t = Bulk \<Longrightarrow> sockopen s \<Longrightarrow> items \<noteq> [] \<Longrightarrow> length items \<le> MAX_BATCH \<Longrightarrow> mset items \<subseteq># sq s \<Longrightarrow>
    send_step t s (goto t Idle (s\<lparr>sq := sq s - mset items, inflight := Some items\<rparr>))"
| none: "pc s t = Bulk \<Longrightarrow> sockopen s \<Longrightarrow> sq s = {#} \<Longrightarrow> send_step t s (goto t Release s)"
| release: "pc s t = Release \<Longrightarrow> send_step t s (goto t Recheck (s\<lparr>sending := False\<rparr>))"
| empty: "pc s t = Recheck \<Longrightarrow> sq s = {#} \<Longrightarrow> send_step t s (goto t Idle s)"
| found: "pc s t = Recheck \<Longrightarrow> x \<in># sq s \<Longrightarrow> send_step t s (goto t (Straggler x) (s\<lparr>sq := sq s - {#x#}\<rparr>))"
| again: "pc s t = Straggler x \<Longrightarrow>
    send_step t s (goto t (if sending s then GiveBack x else Requeue x) (s\<lparr>sending := True\<rparr>))"
| requeue: "pc s t = Requeue x \<Longrightarrow> send_step t s (goto t Bulk (s\<lparr>sq := add_mset x (sq s)\<rparr>))"
| giveback: "pc s t = GiveBack x \<Longrightarrow> send_step t s (goto t Idle (s\<lparr>sq := add_mset x (sq s)\<rparr>))"
| written: "inflight s = Some items \<Longrightarrow> pc s t = Idle \<Longrightarrow>
    send_step t s (goto t Bulk (s\<lparr>inflight := None, transmitted := transmitted s + mset items\<rparr>))"
| failed: "inflight s = Some items \<Longrightarrow> send_step t s (s\<lparr>inflight := None, sockopen := False,
    transmitted := transmitted s + mset items\<rparr>)"

definition send_start :: send_state where
  "send_start = \<lparr>sq = {#}, sending = False, sockopen = True, inflight = None, pc = (\<lambda>_. Idle),
     submitted = {#}, transmitted = {#}\<rparr>"

inductive send_reach :: "nat \<Rightarrow> send_state \<Rightarrow> bool" for N where
  start: "send_reach N send_start"
| step: "send_reach N s \<Longrightarrow> t < N \<Longrightarrow> send_step t s s' \<Longrightarrow> send_reach N s'"

section \<open>The lock\<close>

definition holds :: "send_pc \<Rightarrow> bool" where
  "holds p \<longleftrightarrow> (case p of Bulk \<Rightarrow> True | Release \<Rightarrow> True | Requeue _ \<Rightarrow> True | _ \<Rightarrow> False)"

lemma holds_simps [simp]:
  "holds Bulk" "holds Release" "holds (Requeue x)" "\<not> holds Idle" "\<not> holds (Enqueue x)" "\<not> holds Exchange"
  "\<not> holds Recheck" "\<not> holds (Straggler x)" "\<not> holds (GiveBack x)"
  by (simp_all add: holds_def)

definition lock_inv :: "send_state \<Rightarrow> bool" where
  "lock_inv s \<longleftrightarrow> (\<forall>t t'. holds (pc s t) \<longrightarrow> holds (pc s t') \<longrightarrow> t = t') \<and>
     (inflight s \<noteq> None \<longrightarrow> (\<forall>t. \<not> holds (pc s t))) \<and>
     (\<not> sending s \<longrightarrow> inflight s = None \<and> (\<forall>t. \<not> holds (pc s t)))"

lemma lock_step:
  assumes "send_step t s s'" "lock_inv s"
  shows "lock_inv s'"
  using assms(1)
proof cases
  case exch
  then show ?thesis using assms(2) by (auto simp: lock_inv_def goto_def)
next
  case (again x)
  then show ?thesis using assms(2) by (auto simp: lock_inv_def goto_def)
qed (use assms(2) in \<open>auto simp: lock_inv_def goto_def; metis holds_simps\<close>)+

lemma lock_reach: "send_reach N s \<Longrightarrow> lock_inv s"
proof (induction rule: send_reach.induct)
  case start
  show ?case by (simp add: lock_inv_def send_start_def)
next
  case (step s t s')
  show ?case by (rule lock_step [OF step.hyps(3) step.IH])
qed

section \<open>Conservation\<close>

fun in_hand :: "send_pc \<Rightarrow> nat multiset" where
  "in_hand (Enqueue x) = {#x#}"
| "in_hand (Straggler x) = {#x#}"
| "in_hand (Requeue x) = {#x#}"
| "in_hand (GiveBack x) = {#x#}"
| "in_hand _ = {#}"

definition everywhere :: "nat \<Rightarrow> send_state \<Rightarrow> nat multiset" where
  "everywhere N s = sq s + (\<Sum>t<N. in_hand (pc s t)) +
     (case inflight s of None \<Rightarrow> {#} | Some items \<Rightarrow> mset items) + transmitted s"

lemma everywhere_goto:
  assumes "t < N"
  shows "everywhere N (goto t p s) + in_hand (pc s t) = everywhere N s + in_hand p"
proof -
  have "(\<Sum>i<N. in_hand (((pc s)(t := p)) i)) = in_hand p + (\<Sum>i \<in> {..<N} - {t}. in_hand (pc s i))"
    using assms by (subst sum.remove [of _ t]) (auto intro!: sum.cong)
  moreover have "(\<Sum>i<N. in_hand (pc s i)) = in_hand (pc s t) + (\<Sum>i \<in> {..<N} - {t}. in_hand (pc s i))"
    using assms by (subst sum.remove [of _ t]) auto
  ultimately show ?thesis by (simp add: everywhere_def goto_def ac_simps)
qed

lemma conserve_goto:
  assumes "t < N" "everywhere N s + in_hand p = submitted s + in_hand (pc s t)"
  shows "everywhere N (goto t p s) = submitted (goto t p s)"
proof -
  have "everywhere N (goto t p s) + in_hand (pc s t) = submitted s + in_hand (pc s t)"
    using everywhere_goto [OF assms(1), of p s] assms(2) by simp
  then show ?thesis by (simp add: goto_def)
qed

lemma everywhere_update [simp]:
  "everywhere N (s\<lparr>sq := add_mset x (sq s)\<rparr>) = add_mset x (everywhere N s)"
  "x \<in># sq s \<Longrightarrow> add_mset x (everywhere N (s\<lparr>sq := sq s - {#x#}\<rparr>)) = everywhere N s"
  "everywhere N (s\<lparr>sending := b\<rparr>) = everywhere N s" "everywhere N (s\<lparr>submitted := m\<rparr>) = everywhere N s"
  "inflight s = None \<Longrightarrow> mset items \<subseteq># sq s \<Longrightarrow>
     everywhere N (s\<lparr>sq := sq s - mset items, inflight := Some items\<rparr>) = everywhere N s"
  "inflight s = Some items \<Longrightarrow>
     everywhere N (s\<lparr>inflight := None, transmitted := transmitted s + mset items\<rparr>) = everywhere N s"
  "inflight s = Some items \<Longrightarrow>
     everywhere N (s\<lparr>inflight := None, sockopen := b, transmitted := transmitted s + mset items\<rparr>) = everywhere N s"
  by (auto simp: everywhere_def ac_simps subset_mset.le_iff_add dest!: multi_member_split)

lemma conserve_step:
  assumes "send_step t s s'" "t < N" "everywhere N s = submitted s" "lock_inv s"
  shows "everywhere N s' = submitted s'"
  using assms(1)
proof cases
  case (batch items)
  then have "holds (pc s t)" by simp
  then have "inflight s = None" using assms(4) unfolding lock_inv_def by blast
  then show ?thesis using batch assms(2,3) by (simp add: conserve_goto)
qed (use assms(2,3) in \<open>simp_all add: conserve_goto\<close>)

lemma conserve_reach: "send_reach N s \<Longrightarrow> everywhere N s = submitted s"
proof (induction rule: send_reach.induct)
  case start
  show ?case by (simp add: everywhere_def send_start_def)
next
  case (step s t s')
  show ?case by (rule conserve_step [OF step.hyps(3,2) step.IH lock_reach [OF step.hyps(1)]])
qed

section \<open>Two threads\<close>

definition two :: "nat multiset \<Rightarrow> bool \<Rightarrow> nat list option \<Rightarrow> send_pc \<Rightarrow> send_pc \<Rightarrow> nat multiset \<Rightarrow> nat multiset \<Rightarrow> send_state" where
  "two q b w p0 p1 sub tr = \<lparr>sq = q, sending = b, sockopen = True, inflight = w,
     pc = (\<lambda>_. Idle)(0 := p0, 1 := p1), submitted = sub, transmitted = tr\<rparr>"

lemma two_step:
  assumes "send_reach 2 s" "send_step t s s'" "t < 2"
  shows "send_reach 2 s'"
  by (rule send_reach.step [OF assms(1,3,2)])

lemma two_goto: "goto 0 p (two q b w p0 p1 sub tr) = two q b w p p1 sub tr"
  "goto (Suc 0) p (two q b w p0 p1 sub tr) = two q b w p0 p sub tr"
  by (simp_all add: goto_def two_def fun_upd_twist)

lemma two_update: "(two q b w p0 p1 sub tr)\<lparr>sq := q'\<rparr> = two q' b w p0 p1 sub tr"
  "(two q b w p0 p1 sub tr)\<lparr>sending := b'\<rparr> = two q b' w p0 p1 sub tr"
  "(two q b w p0 p1 sub tr)\<lparr>inflight := w'\<rparr> = two q b w' p0 p1 sub tr"
  "(two q b w p0 p1 sub tr)\<lparr>submitted := sub'\<rparr> = two q b w p0 p1 sub' tr"
  "(two q b w p0 p1 sub tr)\<lparr>transmitted := tr'\<rparr> = two q b w p0 p1 sub tr'"
  by (simp_all add: two_def)

lemma two_fields: "sq (two q b w p0 p1 sub tr) = q" "sending (two q b w p0 p1 sub tr) = b"
  "inflight (two q b w p0 p1 sub tr) = w" "sockopen (two q b w p0 p1 sub tr)"
  "pc (two q b w p0 p1 sub tr) 0 = p0" "pc (two q b w p0 p1 sub tr) (Suc 0) = p1"
  "submitted (two q b w p0 p1 sub tr) = sub" "transmitted (two q b w p0 p1 sub tr) = tr"
  by (simp_all add: two_def)

lemma two_idle: "pc (two q b w Idle Idle sub tr) t = Idle"
  by (simp add: two_def)

lemmas two_simps = two_goto two_update two_fields MAX_BATCH_def

lemma two_start: "send_reach 2 (two {#} False None Idle Idle {#} {#})"
proof -
  have "two {#} False None Idle Idle {#} {#} = send_start" by (simp add: two_def send_start_def fun_upd_def)
  then show ?thesis using send_reach.start by simp
qed

lemma stall_reached: "send_reach 2 (two {#2#} False None Idle Idle {#2, 1#} {#1#})"
proof -
  note r0 = two_start
  have r1: "send_reach 2 (two {#} False None (Enqueue 1) Idle {#1#} {#})"
    using two_step [OF r0 send_step.call [where t = "0" and x = 1]] by (simp add: two_simps)
  have r2: "send_reach 2 (two {#1#} False None Exchange Idle {#1#} {#})"
    using two_step [OF r1 send_step.enq [where t = "0" and x = 1]] by (simp add: two_simps)
  have r3: "send_reach 2 (two {#1#} True None Bulk Idle {#1#} {#})"
    using two_step [OF r2 send_step.exch [where t = "0"]] by (simp add: two_simps)
  have r4: "send_reach 2 (two {#} True (Some [1]) Idle Idle {#1#} {#})"
    using two_step [OF r3 send_step.batch [where t = "0" and items = "[1]"]] by (simp add: two_simps)
  have r5: "send_reach 2 (two {#} True None Bulk Idle {#1#} {#1#})"
    using two_step [OF r4 send_step.written [where t = "0" and items = "[1]"]] by (simp add: two_simps)
  have r6: "send_reach 2 (two {#} True None Release Idle {#1#} {#1#})"
    using two_step [OF r5 send_step.none [where t = "0"]] by (simp add: two_simps)
  have r7: "send_reach 2 (two {#} False None Recheck Idle {#1#} {#1#})"
    using two_step [OF r6 send_step.release [where t = "0"]] by (simp add: two_simps)
  have r8: "send_reach 2 (two {#} False None Recheck (Enqueue 2) {#2, 1#} {#1#})"
    using two_step [OF r7 send_step.call [where t = "Suc 0" and x = 2]] by (simp add: two_simps)
  have r9: "send_reach 2 (two {#2#} False None Recheck Exchange {#2, 1#} {#1#})"
    using two_step [OF r8 send_step.enq [where t = "Suc 0" and x = 2]] by (simp add: two_simps)
  have r10: "send_reach 2 (two {#} False None (Straggler 2) Exchange {#2, 1#} {#1#})"
    using two_step [OF r9 send_step.found [where t = "0" and x = 2]] by (simp add: two_simps)
  have r11: "send_reach 2 (two {#} True None (Straggler 2) Bulk {#2, 1#} {#1#})"
    using two_step [OF r10 send_step.exch [where t = "Suc 0"]] by (simp add: two_simps)
  have r12: "send_reach 2 (two {#} True None (GiveBack 2) Bulk {#2, 1#} {#1#})"
    using two_step [OF r11 send_step.again [where t = "0" and x = 2]] by (simp add: two_simps)
  have r13: "send_reach 2 (two {#} True None (GiveBack 2) Release {#2, 1#} {#1#})"
    using two_step [OF r12 send_step.none [where t = "Suc 0"]] by (simp add: two_simps)
  have r14: "send_reach 2 (two {#} False None (GiveBack 2) Recheck {#2, 1#} {#1#})"
    using two_step [OF r13 send_step.release [where t = "Suc 0"]] by (simp add: two_simps)
  have r15: "send_reach 2 (two {#} False None (GiveBack 2) Idle {#2, 1#} {#1#})"
    using two_step [OF r14 send_step.empty [where t = "Suc 0"]] by (simp add: two_simps)
  have r16: "send_reach 2 (two {#2#} False None Idle Idle {#2, 1#} {#1#})"
    using two_step [OF r15 send_step.giveback [where t = "0" and x = 2]] by (simp add: two_simps)
  show ?thesis by (rule r16)
qed

section \<open>Properties\<close>

text \<open>C24. At most one write is in flight, whatever the interleaving: no thread can reach the point where it
  starts a write while another write is outstanding, and no two threads can be there at
  once.\<close>

theorem one_writer:
  assumes "send_reach N s" "holds (pc s t)"
  shows "inflight s = None \<and> sending s \<and> (\<forall>t'. holds (pc s t') \<longrightarrow> t' = t)"
  using lock_reach [OF assms(1)] assms(2) by (auto simp: lock_inv_def)

theorem one_writer_witness:
  "\<exists>s. send_reach 1 s \<and> holds (pc s 0) \<and> inflight s = None \<and> sending s"
proof -
  let ?a = "goto 0 (Enqueue 5) (send_start\<lparr>submitted := add_mset 5 (submitted send_start)\<rparr>)"
  let ?b = "goto 0 Exchange (?a\<lparr>sq := add_mset 5 (sq ?a)\<rparr>)"
  let ?c = "goto 0 Bulk (?b\<lparr>sending := True\<rparr>)"
  have "send_step 0 send_start ?a" by (rule send_step.call) (simp add: send_start_def)
  moreover have "send_step 0 ?a ?b" by (rule send_step.enq) (simp add: goto_def)
  moreover have "send_step 0 ?b ?c"
    using send_step.exch [of ?b 0] by (simp add: goto_def send_start_def)
  ultimately have r: "send_reach 1 ?c"
    by (meson less_one send_reach.start send_reach.step)
  have "holds (pc ?c 0)" by (simp add: goto_def)
  from one_writer [OF r this] show ?thesis using r \<open>holds (pc ?c 0)\<close> by blast
qed

text \<open>No packet is lost or duplicated: at every moment the submitted packets are exactly those in the
  queue, in the hands of a thread, in the write in flight and already handed to the
  socket.\<close>

theorem packets_conserved:
  assumes "send_reach N s"
  shows "submitted s = sq s + (\<Sum>t<N. in_hand (pc s t)) +
    (case inflight s of None \<Rightarrow> {#} | Some items \<Rightarrow> mset items) + transmitted s"
  using conserve_reach [OF assms] by (simp add: everywhere_def)

theorem packets_conserved_witness:
  "submitted send_start = sq send_start + (\<Sum>t<2. in_hand (pc send_start t)) +
    (case inflight send_start of None \<Rightarrow> {#} | Some items \<Rightarrow> mset items) + transmitted send_start"
  by (rule packets_conserved [OF send_reach.start])

text \<open>Sending can stall: two threads can leave a packet in the queue of an open session with
  \<open>isSending\<close> false, every thread out of the send path and no write in flight.  The thread that took
  the packet as a straggler gives it back after the thread it left the sending to has already
  found the queue empty.\<close>

theorem send_can_stall:
  "\<exists>s. send_reach 2 s \<and> sq s \<noteq> {#} \<and> sockopen s \<and> \<not> sending s \<and> inflight s = None \<and> (\<forall>t. pc s t = Idle)"
  using stall_reached by (intro exI [of _ "two {#2#} False None Idle Idle {#2, 1#} {#1#}"])
    (simp add: two_fields two_idle)

end
