(* ===== verification/Udp_Network.thy ===== *)
theory Udp_Network
  imports Udp_Session
begin

text \<open>
  The UDP network, \<^verbatim>\<open>src/System/Network/UDPNetworkImpl.cpp\<close>, and its pool of send contexts,
  \<^verbatim>\<open>src/System/Network/UDPSendContextPool.cpp\<close>.  A payload is a message with its identity; \<open>freed\<close>
  records what was given back to the message pool.  \<open>strand\<close> holds the contexts whose send has
  been posted, \<open>inflight\<close> those the socket has accepted, \<open>wire\<close> the datagrams it was given, and
  \<open>receives\<close> the receives in progress.  \<open>None\<close> is a failed \<^verbatim>\<open>assert\<close>.

  Shown: every payload handed to \<open>AsyncSend\<close> is given back exactly once, contexts are
  neither lost nor used twice, no assertion fails; a datagram reaches the peer's session
  with the header and payload it was sent with; oversized payloads are dropped; a receive error
  ends reception; a peer that is recognised by its token times out although it is active.
\<close>

section \<open>State\<close>

type_synonym umsg = "nat \<times> bytes"

record 'e send_ctx =
  headerBytes :: bytes
  payload :: "umsg option"
  payloadLen :: nat
  destination :: "'e option"

record ('p, 'e) udp_net =
  sock_open :: bool
  isStopping :: bool
  oversizeDrops :: u64
  lastLogMs :: int
  hasRegistry :: bool
  hasDispatcher :: bool
  ctxs :: "nat \<Rightarrow> 'e send_ctx"
  ctxPool :: 'p
  allContexts :: "nat list"
  initialized :: bool
  strand :: "nat list"
  inflight :: "nat list"
  wire :: "('e option \<times> bytes) list"
  freed :: "umsg list"
  receives :: nat

definition new_ctx :: "'e send_ctx" where
  "new_ctx = \<lparr>headerBytes = replicate UDP_HEADER_SIZE 0, payload = None, payloadLen = 0, destination = None\<rparr>"

section \<open>The context pool\<close>

text \<open>The contexts are numbered in the order they are allocated.\<close>

primrec prepare_ctxs :: "('p, nat) cqueue \<Rightarrow> nat \<Rightarrow> ('p, 'e) udp_net \<Rightarrow> ('p, 'e) udp_net" where
  "prepare_ctxs Q 0 n = n"
| "prepare_ctxs Q (Suc i) n =
     (let c = length (allContexts n)
      in prepare_ctxs Q i (n\<lparr>ctxs := (ctxs n)(c := new_ctx), allContexts := allContexts n @ [c], ctxPool := enqueue Q c (ctxPool n)\<rparr>))"

definition Prepare_ctxs :: "('p, nat) cqueue \<Rightarrow> nat \<Rightarrow> ('p, 'e) udp_net \<Rightarrow> ('p, 'e) udp_net" where
  "Prepare_ctxs Q poolSize n = (if initialized n then n else (prepare_ctxs Q poolSize n)\<lparr>initialized := True\<rparr>)"

definition Acquire_ctx :: "('p, nat) cqueue \<Rightarrow> ('p, 'e) udp_net \<Rightarrow> nat option \<times> ('p, 'e) udp_net" where
  "Acquire_ctx Q n =
     (case try_dequeue Q (ctxPool n) of None \<Rightarrow> (None, n) | Some (c, q) \<Rightarrow> (Some c, n\<lparr>ctxPool := q\<rparr>))"

definition Release_ctx :: "('p, nat) cqueue \<Rightarrow> nat \<Rightarrow> ('p, 'e) udp_net \<Rightarrow> ('p, 'e) udp_net option" where
  "Release_ctx Q c n =
     (if payload (ctxs n c) \<noteq> None \<or> payloadLen (ctxs n c) \<noteq> 0 then None
      else Some (n\<lparr>ctxs := (ctxs n)(c := (ctxs n c)\<lparr>payload := None, payloadLen := 0\<rparr>), ctxPool := enqueue Q c (ctxPool n)\<rparr>))"

section \<open>Sending\<close>

definition Free_msg :: "umsg option \<Rightarrow> ('p, 'e) udp_net \<Rightarrow> ('p, 'e) udp_net" where
  "Free_msg m n = (case m of None \<Rightarrow> n | Some x \<Rightarrow> n\<lparr>freed := freed n @ [x]\<rparr>)"

definition AsyncSend ::
  "('p, nat) cqueue \<Rightarrow> int \<Rightarrow> 'e option \<Rightarrow> u8 \<Rightarrow> u64 \<Rightarrow> uint128 \<Rightarrow> umsg \<Rightarrow> nat \<Rightarrow> ('p, 'e) udp_net \<Rightarrow> ('p, 'e) udp_net" where
  "AsyncSend Q nowMs dest t s token msg len n =
     (if UDP_MAX_APP_BYTES < len then
        (let n1 = n\<lparr>oversizeDrops := oversizeDrops n + 1\<rparr>;
             n2 = (if lastLogMs n1 + 5000 < nowMs then n1\<lparr>lastLogMs := nowMs\<rparr> else n1)
         in Free_msg (Some msg) n2)
      else case Acquire_ctx Q n of
          (None, n1) \<Rightarrow> Free_msg (Some msg) n1
        | (Some c, n1) \<Rightarrow>
            (let ctx = \<lparr>headerBytes = encode_header t s token, payload = Some msg, payloadLen = len, destination = dest\<rparr>
             in n1\<lparr>ctxs := (ctxs n1)(c := ctx), strand := strand n1 @ [c]\<rparr>))"

text \<open>Freeing the payload and giving the context back.\<close>

definition finish_ctx :: "('p, nat) cqueue \<Rightarrow> nat \<Rightarrow> ('p, 'e) udp_net \<Rightarrow> ('p, 'e) udp_net option" where
  "finish_ctx Q c n =
     (let n1 = Free_msg (payload (ctxs n c)) n
      in Release_ctx Q c (n1\<lparr>ctxs := (ctxs n1)(c := (ctxs n1 c)\<lparr>payload := None, payloadLen := 0\<rparr>)\<rparr>))"

text \<open>The next posted send; \<open>throws\<close> is whether starting the operation fails.\<close>

definition strand_run :: "('p, nat) cqueue \<Rightarrow> bool \<Rightarrow> ('p, 'e) udp_net \<Rightarrow> ('p, 'e) udp_net option" where
  "strand_run Q throws n =
     (case strand n of [] \<Rightarrow> Some n
      | c # cs \<Rightarrow>
          (let n1 = n\<lparr>strand := cs\<rparr>
           in if \<not> sock_open n1 \<or> isStopping n1 then finish_ctx Q c n1
              else if throws then finish_ctx Q c n1
              else let ctx = ctxs n1 c; body = (case payload ctx of None \<Rightarrow> [] | Some m \<Rightarrow> take (payloadLen ctx) (snd m))
                   in Some (n1\<lparr>wire := wire n1 @ [(destination ctx, headerBytes ctx @ body)], inflight := inflight n1 @ [c]\<rparr>)))"

text \<open>The completion handler of a send.\<close>

definition send_complete :: "('p, nat) cqueue \<Rightarrow> nat \<Rightarrow> ('p, 'e) udp_net \<Rightarrow> ('p, 'e) udp_net option" where
  "send_complete Q c n = finish_ctx Q c (n\<lparr>inflight := remove1 c (inflight n)\<rparr>)"

section \<open>Starting, stopping, receiving\<close>

definition StartReceive :: "('p, 'e) udp_net \<Rightarrow> ('p, 'e) udp_net" where
  "StartReceive n = (if \<not> sock_open n then n else n\<lparr>receives := Suc (receives n)\<rparr>)"

text \<open>\<open>binds\<close> is whether opening and binding the socket succeeds.\<close>

definition Start_net :: "bool \<Rightarrow> ('p, 'e) udp_net \<Rightarrow> bool \<times> ('p, 'e) udp_net" where
  "Start_net binds n =
     (let n1 = n\<lparr>isStopping := False\<rparr>
      in if binds then (True, StartReceive (n1\<lparr>sock_open := True\<rparr>)) else (False, n1))"

definition Stop_net :: "('p, 'e) udp_net \<Rightarrow> ('p, 'e) udp_net" where
  "Stop_net n = n\<lparr>isStopping := True, sock_open := False\<rparr>"

text \<open>
  A finished receive.  \<open>heap\<close> gives the session at an address, \<open>None\<close> when it is not a \<open>UDPSession\<close>.
\<close>

definition HandleReceive ::
  "'k ikcp \<Rightarrow> (nat \<Rightarrow> bool) \<Rightarrow> int \<Rightarrow> bool \<Rightarrow> bytes \<Rightarrow> 'e
     \<Rightarrow> ('p, 'e) udp_net \<times> 'e registry \<times> (nat \<Rightarrow> ('q, 'k, 'e) udp option)
     \<Rightarrow> (('p, 'e) udp_net \<times> 'e registry \<times> (nat \<Rightarrow> ('q, 'k, 'e) udp option)) option" where
  "HandleReceive K alloc now error bs sender st =
     (case st of (n0, reg, heap) \<Rightarrow>
        let n = n0\<lparr>receives := receives n0 - 1\<rparr> in
        if isStopping n then Some (n, reg, heap)
        else if error then Some (n, reg, heap)
        else if UDP_HEADER_SIZE < length bs \<and> hasRegistry n \<and> hasDispatcher n then
          (let h = decode_header bs in
           if \<not> IsValid h then Some (StartReceive n, reg, heap)
           else case (case Find sender reg of Some p \<Rightarrow> Some p | None \<Rightarrow> GetEndpointByToken (th_token h) reg) of
               None \<Rightarrow> Some (StartReceive n, reg, heap)
             | Some p \<Rightarrow>
                 (let reg1 = UpdateActivity sender now reg
                  in case heap p of
                       None \<Rightarrow> Some (StartReceive n, reg1, heap)
                     | Some s \<Rightarrow>
                         (case HandleData K alloc now (drop UDP_HEADER_SIZE bs) (IsKCP h) s of
                            None \<Rightarrow> None
                          | Some s' \<Rightarrow> Some (StartReceive n, reg1, heap(p \<mapsto> s')))))
        else Some (StartReceive n, reg, heap))"

section \<open>Ownership of payloads and contexts\<close>

inductive net_step :: "('p, nat) cqueue \<Rightarrow> ('p, 'e) udp_net \<Rightarrow> umsg list \<Rightarrow> ('p, 'e) udp_net option \<Rightarrow> bool"
  for Q :: "('p, nat) cqueue" where
  send: "len \<le> length (snd msg) \<Longrightarrow> net_step Q n [msg] (Some (AsyncSend Q now dest t s token msg len n))"
| run: "net_step Q n [] (strand_run Q throws n)"
| complete: "c \<in> set (inflight n) \<Longrightarrow> net_step Q n [] (send_complete Q c n)"
| stop: "net_step Q n [] (Some (Stop_net n))"
| open_net: "net_step Q n [] (Some (snd (Start_net binds n)))"

inductive net_run :: "('p, nat) cqueue \<Rightarrow> ('p, 'e) udp_net \<Rightarrow> umsg list \<Rightarrow> ('p, 'e) udp_net option \<Rightarrow> bool"
  for Q :: "('p, nat) cqueue" and n0 :: "('p, 'e) udp_net" where
  start: "net_run Q n0 [] (Some n0)"
| step: "net_run Q n0 ms (Some n) \<Longrightarrow> net_step Q n ms' r \<Longrightarrow> net_run Q n0 (ms @ ms') r"

definition owned :: "(nat \<Rightarrow> 'e send_ctx) \<Rightarrow> nat \<Rightarrow> umsg multiset" where
  "owned f c = (case payload (f c) of None \<Rightarrow> {#} | Some m \<Rightarrow> {#m#})"

text \<open>All contexts are in one place; a posted or accepted context owns its payload.\<close>

definition net_ok :: "('p \<Rightarrow> nat multiset) \<Rightarrow> umsg list \<Rightarrow> ('p, 'e) udp_net \<Rightarrow> bool" where
  "net_ok cont ms n \<longleftrightarrow>
     distinct (allContexts n) \<and>
     cont (ctxPool n) + mset (strand n) + mset (inflight n) = mset (allContexts n) \<and>
     (\<forall>c \<in> set (strand n) \<union> set (inflight n). payload (ctxs n c) \<noteq> None) \<and>
     mset (freed n) + sum_mset (image_mset (owned (ctxs n)) (mset (strand n) + mset (inflight n))) = mset ms"

lemma net_ok_once:
  assumes "net_ok cont ms n"
  shows "count (cont (ctxPool n) + mset (strand n) + mset (inflight n)) c \<le> 1"
proof -
  have "count (mset (allContexts n)) c \<le> 1" using assms by (simp add: net_ok_def distinct_count_atmost_1)
  then show ?thesis using assms by (simp add: net_ok_def)
qed

lemma owned_cong:
  assumes "\<And>c. c \<in># M \<Longrightarrow> f' c = f c"
  shows "image_mset (owned f') M = image_mset (owned f) M"
  by (rule image_mset_cong) (simp add: assms owned_def)

text \<open>Giving back a context that is in no list.\<close>

lemma finish_ctx_ok:
  assumes L: "cqueue_laws Q cont" and d: "distinct (allContexts n)"
    and all: "add_mset c (cont (ctxPool n) + mset (strand n) + mset (inflight n)) = mset (allContexts n)"
    and pay: "payload (ctxs n c) = Some m" "\<forall>c \<in> set (strand n) \<union> set (inflight n). payload (ctxs n c) \<noteq> None"
    and own: "add_mset m (mset (freed n) + sum_mset (image_mset (owned (ctxs n)) (mset (strand n) + mset (inflight n)))) = mset ms"
  shows "\<exists>n'. finish_ctx Q c n = Some n' \<and> net_ok cont ms n'"
proof -
  let ?n = "n\<lparr>freed := freed n @ [m], ctxs := (ctxs n)(c := (ctxs n c)\<lparr>payload := None, payloadLen := 0\<rparr>), ctxPool := enqueue Q c (ctxPool n)\<rparr>"
  have "count (mset (allContexts n)) c \<le> 1" using d by (simp add: distinct_count_atmost_1)
  then have notin: "c \<notin># mset (strand n) + mset (inflight n)" by (auto simp: not_in_iff simp flip: all)
  have "image_mset (owned (ctxs ?n)) (mset (strand n) + mset (inflight n)) = image_mset (owned (ctxs n)) (mset (strand n) + mset (inflight n))"
    by (rule owned_cong) (use notin in auto)
  then have "net_ok cont ms ?n"
    using d all pay(2) own notin by (auto simp: net_ok_def cqueue_enqueue [OF L])
  then show ?thesis using pay(1) by (simp add: finish_ctx_def Free_msg_def Release_ctx_def Let_def)
qed

lemma send_ok:
  assumes L: "cqueue_laws Q cont" and ok: "net_ok cont ms n"
  shows "net_ok cont (ms @ [msg]) (AsyncSend Q now dest t s token msg len n)"
proof -
  have drop: "net_ok cont (ms @ [msg]) (n\<lparr>oversizeDrops := od, lastLogMs := lg, freed := freed n @ [msg]\<rparr>)" for od lg
    using ok by (simp add: net_ok_def)
  show ?thesis
  proof (cases "UDP_MAX_APP_BYTES < len")
    case True
    have "net_ok cont (ms @ [msg]) (n\<lparr>oversizeDrops := od, freed := freed n @ [msg]\<rparr>)" for od
      using ok by (simp add: net_ok_def)
    then show ?thesis using True drop by (simp add: AsyncSend_def Free_msg_def Let_def)
  next
    case False
    show ?thesis
    proof (cases "try_dequeue Q (ctxPool n)")
      case None
      have "net_ok cont (ms @ [msg]) (n\<lparr>freed := freed n @ [msg]\<rparr>)" using ok by (simp add: net_ok_def)
      then show ?thesis using None False by (simp add: AsyncSend_def Acquire_ctx_def Free_msg_def)
    next
      case (Some cq)
      obtain c q where cq: "cq = (c, q)" by (cases cq)
      have c: "cont (ctxPool n) = add_mset c (cont q)" using cqueue_dequeue [OF L] Some cq by blast
      let ?ctx = "\<lparr>headerBytes = encode_header t s token, payload = Some msg, payloadLen = len, destination = dest\<rparr>"
      let ?n = "n\<lparr>ctxPool := q, ctxs := (ctxs n)(c := ?ctx), strand := strand n @ [c]\<rparr>"
      have "count (cont (ctxPool n) + mset (strand n) + mset (inflight n)) c \<le> 1" by (rule net_ok_once [OF ok])
      then have notin: "c \<notin># mset (strand n) + mset (inflight n)" using c by (simp add: not_in_iff)
      have same: "image_mset (owned (ctxs ?n)) (mset (strand n) + mset (inflight n)) = image_mset (owned (ctxs n)) (mset (strand n) + mset (inflight n))"
        by (rule owned_cong) (use notin in auto)
      have "owned (ctxs ?n) c = {#msg#}" by (simp add: owned_def)
      then have "net_ok cont (ms @ [msg]) ?n"
        using ok c notin same by (auto simp: net_ok_def)
      then show ?thesis using Some cq False by (simp add: AsyncSend_def Acquire_ctx_def)
    qed
  qed
qed

lemma strand_run_ok:
  assumes L: "cqueue_laws Q cont" and ok: "net_ok cont ms n"
  shows "\<exists>n'. strand_run Q throws n = Some n' \<and> net_ok cont ms n'"
proof (cases "strand n")
  case Nil
  then show ?thesis using ok by (simp add: strand_run_def)
next
  case (Cons c cs)
  then obtain m where m: "payload (ctxs n c) = Some m" using ok by (auto simp: net_ok_def)
  then have "owned (ctxs n) c = {#m#}" by (simp add: owned_def)
  have "\<exists>n'. finish_ctx Q c (n\<lparr>strand := cs\<rparr>) = Some n' \<and> net_ok cont ms n'"
    by (rule finish_ctx_ok [OF L, where m = m]) (use ok Cons m \<open>owned (ctxs n) c = {#m#}\<close> in \<open>simp_all add: net_ok_def\<close>)
  moreover have "net_ok cont ms (n\<lparr>strand := cs, wire := w, inflight := inflight n @ [c]\<rparr>)" for w
    using ok Cons by (simp add: net_ok_def)
  ultimately show ?thesis using Cons by (simp add: strand_run_def Let_def)
qed

lemma send_complete_ok:
  assumes L: "cqueue_laws Q cont" and ok: "net_ok cont ms n" and c: "c \<in> set (inflight n)"
  shows "\<exists>n'. send_complete Q c n = Some n' \<and> net_ok cont ms n'"
proof -
  obtain m where m: "payload (ctxs n c) = Some m" using ok c unfolding net_ok_def by blast
  then have o: "owned (ctxs n) c = {#m#}" by (simp add: owned_def)
  let ?n = "n\<lparr>inflight := remove1 c (inflight n)\<rparr>"
  have i: "mset (inflight n) = add_mset c (mset (remove1 c (inflight n)))" using c by simp
  have "cont (ctxPool n) + mset (strand n) + mset (inflight n) = mset (allContexts n)" using ok by (simp add: net_ok_def)
  then have "add_mset c (cont (ctxPool n) + mset (strand n) + mset (remove1 c (inflight n))) = mset (allContexts n)"
    unfolding i by (simp only: union_mset_add_mset_right)
  moreover have "add_mset m (mset (freed n) + sum_mset (image_mset (owned (ctxs n)) (mset (strand n) + mset (remove1 c (inflight n))))) = mset ms"
    using ok o unfolding net_ok_def i by simp
  moreover have "\<forall>c' \<in> set (strand ?n) \<union> set (inflight ?n). payload (ctxs ?n c') \<noteq> None"
    using ok by (auto simp: net_ok_def dest: notin_set_remove1)
  ultimately show ?thesis unfolding send_complete_def
    by (intro finish_ctx_ok [OF L, where m = m]) (use ok m in \<open>simp_all add: net_ok_def\<close>)
qed

lemma net_step_ok:
  assumes "cqueue_laws Q cont" "net_step Q n ms' r" "net_ok cont ms n"
  shows "\<exists>n'. r = Some n' \<and> net_ok cont (ms @ ms') n'"
  using assms(2,3)
proof cases
  case stop
  then show ?thesis using assms(3) by (simp add: Stop_net_def net_ok_def)
next
  case open_net
  then show ?thesis using assms(3) by (simp add: Start_net_def StartReceive_def net_ok_def Let_def)
qed (use assms(1,3) send_ok strand_run_ok send_complete_ok in \<open>auto, blast+\<close>)

definition new_net :: "'p \<Rightarrow> ('p, 'e) udp_net" where
  "new_net q = \<lparr>sock_open = False, isStopping = False, oversizeDrops = 0, lastLogMs = 0, hasRegistry = True, hasDispatcher = True,
     ctxs = (\<lambda>_. new_ctx), ctxPool = q, allContexts = [], initialized = False, strand = [], inflight = [], wire = [],
     freed = [], receives = 0\<rparr>"

lemma prepare_ctxs_ok:
  assumes L: "cqueue_laws Q cont"
  shows "net_ok cont [] n \<Longrightarrow> allContexts n = [0..<i] \<Longrightarrow> strand n = [] \<Longrightarrow> inflight n = [] \<Longrightarrow>
    net_ok cont [] (prepare_ctxs Q k n) \<and> allContexts (prepare_ctxs Q k n) = [0..<i + k]"
proof (induction k arbitrary: n i)
  case (Suc k)
  let ?n = "n\<lparr>ctxs := (ctxs n)(i := new_ctx), allContexts := [0..<i] @ [i], ctxPool := enqueue Q i (ctxPool n)\<rparr>"
  have "net_ok cont [] ?n" using Suc.prems by (simp add: net_ok_def cqueue_enqueue [OF L])
  then show ?case using Suc.IH [of ?n "Suc i"] Suc.prems by simp
qed simp

lemma Prepare_ctxs_ok:
  assumes "cqueue_laws Q cont" "cont q = {#}"
  shows "net_ok cont [] (Prepare_ctxs Q k (new_net q) :: ('p, 'e) udp_net) \<and>
    allContexts (Prepare_ctxs Q k (new_net q) :: ('p, 'e) udp_net) = [0..<k]"
proof -
  let ?n = "new_net q :: ('p, 'e) udp_net"
  have "net_ok cont [] ?n" using assms(2) by (simp add: net_ok_def new_net_def)
  moreover have "allContexts ?n = [0..<0]" "strand ?n = []" "inflight ?n = []" "\<not> initialized ?n"
    by (simp_all add: new_net_def)
  ultimately show ?thesis using prepare_ctxs_ok [OF assms(1), of ?n 0 k] by (simp add: Prepare_ctxs_def net_ok_def)
qed

lemma allContexts_step:
  assumes "net_step Q n ms r" "r = Some n'"
  shows "allContexts n' = allContexts n"
  using assms
  by cases (auto simp: AsyncSend_def Acquire_ctx_def Free_msg_def strand_run_def finish_ctx_def Release_ctx_def
      send_complete_def Stop_net_def Start_net_def StartReceive_def Let_def split: if_splits option.splits prod.splits list.splits)

lemma net_run_ok:
  assumes L: "cqueue_laws Q cont" and i: "net_ok cont [] n0"
  shows "net_run Q n0 ms r \<Longrightarrow> \<exists>n. r = Some n \<and> net_ok cont ms n \<and> allContexts n = allContexts n0"
proof (induction rule: net_run.induct)
  case start
  then show ?case using i by simp
next
  case (step ms n ms' r)
  then obtain n' where "r = Some n'" "net_ok cont (ms @ ms') n'" using net_step_ok [OF L step.hyps(2)] by auto
  then show ?case using allContexts_step [OF step.hyps(2)] step.IH by simp
qed

text \<open>C25. In every run of sends, strand executions, completions, starts and stops, no assertion of the
  context pool fails; every payload given to \<open>AsyncSend\<close> has been given back to the message pool
  exactly once or is owned by exactly one posted or accepted context; and each of the \<open>k\<close> prepared
  contexts is in exactly one of the pool, the strand and the socket.\<close>

theorem udp_payloads_freed_once:
  assumes "cqueue_laws Q cont" "cont q = {#}" "net_run Q (Prepare_ctxs Q k (new_net q)) ms r"
  shows "\<exists>n. r = Some n \<and>
    mset (freed n) + image_mset (\<lambda>c. the (payload (ctxs n c))) (mset (strand n) + mset (inflight n)) = mset ms \<and>
    cont (ctxPool n) + mset (strand n) + mset (inflight n) = mset [0..<k]"
proof -
  obtain n where n: "r = Some n" "net_ok cont ms n" "allContexts n = [0..<k]"
    using net_run_ok [OF assms(1) _ assms(3)] Prepare_ctxs_ok [OF assms(1,2)] by metis
  have "sum_mset (image_mset (owned (ctxs n)) M) = image_mset (\<lambda>c. the (payload (ctxs n c))) M"
    if "\<forall>c \<in># M. payload (ctxs n c) \<noteq> None" for M
    using that by (induction M) (auto simp: owned_def)
  from this [of "mset (strand n) + mset (inflight n)"] n(2)
  have "mset (freed n) + image_mset (\<lambda>c. the (payload (ctxs n c))) (mset (strand n) + mset (inflight n)) = mset ms"
    by (simp add: net_ok_def)
  then show ?thesis using n by (simp add: net_ok_def)
qed

theorem udp_payloads_freed_once_witness:
  "\<exists>n. Some (AsyncSend list_queue 0 (Some (1::nat)) 0 5 \<lparr>high = 1, low = 2\<rparr> (0, [1, 2]) 2 (Prepare_ctxs list_queue 1 (new_net []))) = Some n \<and>
    mset (freed n) + image_mset (\<lambda>c. the (payload (ctxs n c))) (mset (strand n) + mset (inflight n)) = {#(0, [1, 2])#} \<and>
    mset (ctxPool n) + mset (strand n) + mset (inflight n) = mset [0..<1]"
proof -
  have "net_run list_queue (Prepare_ctxs list_queue 1 (new_net [])) ([] @ [(0, [1, 2])])
      (Some (AsyncSend list_queue 0 (Some (1::nat)) 0 5 \<lparr>high = 1, low = 2\<rparr> (0, [1, 2]) 2 (Prepare_ctxs list_queue 1 (new_net []))))"
    by (rule net_run.step [OF net_run.start net_step.send]) simp
  from udp_payloads_freed_once [OF list_queue_laws _ this] show ?thesis by simp
qed

section \<open>From one peer to the other\<close>

lemma decode_sent:
  "decode_header (encode_header t s token @ body) = \<lparr>tag = t, th_sessionId = s, th_token = token\<rparr>"
  by (rule decode_encode_header)

text \<open>A payload within the limit that is sent while a context is free is put on the wire as one
  datagram, and a listening network that receives it passes exactly that payload, raw or KCP as
  it was sent, to the session registered for the sender's endpoint or, failing that, for the token,
  and receives on.\<close>

theorem datagram_delivered:
  assumes "try_dequeue Q (ctxPool n) = Some (c, q)" "strand n = []" "sock_open n" "\<not> isStopping n"
    and "0 < length body" "length body \<le> UDP_MAX_APP_BYTES" "t = TAG_RAW_UDP \<or> t = TAG_KCP"
    and "\<not> isStopping m" "hasRegistry m" "hasDispatcher m"
    and "Find sender reg = Some p \<or> Find sender reg = None \<and> GetEndpointByToken token reg = Some p"
    and "heap p = Some s" "HandleData K alloc now body (t = TAG_KCP) s = Some s'"
  shows "\<exists>n' d. strand_run Q False (AsyncSend Q sent dest t i token (j, body) (length body) n) = Some n' \<and>
    wire n' = wire n @ [(dest, d)] \<and> length d \<le> UDP_MAX_DATAGRAM_BYTES \<and>
    HandleReceive K alloc now False d sender (m, reg, heap) =
      Some (StartReceive (m\<lparr>receives := receives m - 1\<rparr>), UpdateActivity sender now reg, heap(p \<mapsto> s'))"
proof -
  let ?d = "encode_header t i token @ body"
  let ?ctx = "\<lparr>headerBytes = encode_header t i token, payload = Some (j, body), payloadLen = length body, destination = dest\<rparr>"
  let ?n1 = "n\<lparr>ctxPool := q, ctxs := (ctxs n)(c := ?ctx), strand := [c]\<rparr>"
  let ?n2 = "?n1\<lparr>strand := [], wire := wire n @ [(dest, ?d)], inflight := inflight n @ [c]\<rparr>"
  have "AsyncSend Q sent dest t i token (j, body) (length body) n = ?n1"
    using assms(1,2,6) by (simp add: AsyncSend_def Acquire_ctx_def)
  then have "strand_run Q False (AsyncSend Q sent dest t i token (j, body) (length body) n) = Some ?n2"
    using assms(3,4) by (simp add: strand_run_def)
  moreover have "length ?d \<le> UDP_MAX_DATAGRAM_BYTES"
    using assms(6) by (simp add: UDP_MAX_APP_BYTES_def UDP_MAX_DATAGRAM_BYTES_def UDP_HEADER_SIZE_def)
  moreover have "IsValid \<lparr>tag = t, th_sessionId = i, th_token = token\<rparr>" "IsKCP \<lparr>tag = t, th_sessionId = i, th_token = token\<rparr> = (t = TAG_KCP)"
    using assms(7) by (simp_all add: IsValid_def IsKCP_def)
  then have "HandleReceive K alloc now False ?d sender (m, reg, heap) =
      Some (StartReceive (m\<lparr>receives := receives m - 1\<rparr>), UpdateActivity sender now reg, heap(p \<mapsto> s'))"
    using assms(5,8-13) by (auto simp: HandleReceive_def decode_sent Let_def)
  ultimately show ?thesis by (intro exI [of _ ?n2] exI [of _ ?d]) simp
qed

theorem datagram_delivered_witness:
  "\<exists>n' d s'. strand_run list_queue False (AsyncSend list_queue 0 (Some (9::nat)) TAG_RAW_UDP 3 \<lparr>high = 1, low = 2\<rparr> (0, [5, 6]) (length [5::u8, 6])
        ((Prepare_ctxs list_queue 1 (new_net []))\<lparr>sock_open := True\<rparr>)) = Some n' \<and>
    wire n' = wire ((Prepare_ctxs list_queue 1 (new_net []))\<lparr>sock_open := True\<rparr>) @ [(Some 9, d)] \<and> length d \<le> UDP_MAX_DATAGRAM_BYTES \<and>
    HandleReceive list_kcp (\<lambda>_. True) 4 False d (8::nat) ((new_net [] :: (nat list, nat) udp_net)\<lparr>sock_open := True\<rparr>,
        RegisterWithToken 8 1 \<lparr>high = 1, low = 2\<rparr> 0 \<lparr>peers = [], tokens = []\<rparr>, [1 \<mapsto> udp1]) =
      Some (StartReceive ((new_net [])\<lparr>sock_open := True, receives := 0\<rparr>),
        UpdateActivity 8 4 (RegisterWithToken 8 1 \<lparr>high = 1, low = 2\<rparr> 0 \<lparr>peers = [], tokens = []\<rparr>), [1 \<mapsto> udp1](1 \<mapsto> s'))"
proof -
  let ?n = "(Prepare_ctxs list_queue 1 (new_net []) :: (nat list, nat) udp_net)\<lparr>sock_open := True\<rparr>"
  let ?m = "(new_net [] :: (nat list, nat) udp_net)\<lparr>sock_open := True\<rparr>"
  have n: "try_dequeue list_queue (ctxPool ?n) = Some (0, [])" "strand ?n = []" "sock_open ?n" "\<not> isStopping ?n"
    by (simp_all add: Prepare_ctxs_def new_net_def list_queue_def)
  have m: "\<not> isStopping ?m" "hasRegistry ?m" "hasDispatcher ?m" "receives ?m = 0" by (simp_all add: new_net_def)
  have r: "Find 8 (RegisterWithToken 8 1 \<lparr>high = 1, low = 2\<rparr> 0 \<lparr>peers = [], tokens = []\<rparr>) = Some 1"
    by (simp add: Find_def RegisterWithToken_def)
  have h: "HandleData list_kcp (\<lambda>_. True) 4 [5, 6] (TAG_RAW_UDP = TAG_KCP) udp1 =
      Some (udp_deliver (\<lambda>_. True) [5, 6] (udp_UpdateActivity 4 udp1))"
    by (simp add: HandleData_def TAG_RAW_UDP_def TAG_KCP_def)
  show ?thesis
    using datagram_delivered [OF n _ _ disjI1 [OF refl] m(1-3) disjI1 [OF r] _ h, where heap = "[1 \<mapsto> udp1]" and sent = 0 and
      dest = "Some 9" and i = 3 and j = 0 and token = "\<lparr>high = 1, low = 2\<rparr>"] m(4)
    by (auto simp: UDP_MAX_APP_BYTES_def UDP_MAX_DATAGRAM_BYTES_def UDP_HEADER_SIZE_def)
qed

section \<open>Limits of the code\<close>

text \<open>A payload of more than 1175 bytes is never sent, KCP segments included: it is counted, given back
  to the message pool, and nothing is posted.\<close>

theorem oversize_dropped:
  "strand (AsyncSend Q now dest t s token msg (1176 + k) n) = strand n \<and>
   wire (AsyncSend Q now dest t s token msg (1176 + k) n) = wire n \<and>
   inflight (AsyncSend Q now dest t s token msg (1176 + k) n) = inflight n \<and>
   freed (AsyncSend Q now dest t s token msg (1176 + k) n) = freed n @ [msg] \<and>
   oversizeDrops (AsyncSend Q now dest t s token msg (1176 + k) n) = oversizeDrops n + 1"
  by (simp add: AsyncSend_def Free_msg_def UDP_MAX_APP_BYTES_def UDP_MAX_DATAGRAM_BYTES_def UDP_HEADER_SIZE_def Let_def)

text \<open>After a receive that ends with an error no further receive is started: the network has one receive
  less in progress, and nothing else changes.\<close>

theorem receive_error_ends_reception:
  "HandleReceive K alloc now True bs sender (n, reg, heap) = Some (n\<lparr>receives := receives n - 1\<rparr>, reg, heap)"
  by (simp add: HandleReceive_def Let_def)

text \<open>A datagram from an endpoint that is not registered, accepted for its token, does not refresh the
  session's entry: the entry times out at the next clean-up, however recent the datagram.\<close>

theorem roaming_peer_times_out:
  assumes "registry_ok reg" "Find sender reg = None" "map_of (peers reg) e = Some info"
    and "now - lastActivity info > int timeoutMs"
    and "HandleReceive K alloc now False d sender (n, reg, heap) = Some (n', reg', heap')"
  shows "Find e (snd (CleanupTimeouts timeoutMs now reg')) = None"
proof -
  have "UpdateActivity sender now reg = reg"
    using assms(2) by (cases "map_of (peers reg) sender") (simp_all add: UpdateActivity_def Find_def)
  then have "reg' = reg"
    using assms(5) by (auto simp: HandleReceive_def Let_def split: if_splits option.splits)
  obtain k r where c: "CleanupTimeouts timeoutMs now reg = (k, r)" by (cases "CleanupTimeouts timeoutMs now reg")
  show ?thesis unfolding \<open>reg' = reg\<close> c
    using cleanup_Find [OF assms(1) c, of e] assms(3,4) by simp
qed

theorem roaming_peer_times_out_witness:
  "Find 8 (snd (CleanupTimeouts 30 100 (fst (snd (the (HandleReceive list_kcp (\<lambda>_. True) 100 False
      (encode_header TAG_RAW_UDP 3 \<lparr>high = 1, low = 2\<rparr> @ [5]) (7::nat)
      (new_net [] :: (nat list, nat) udp_net, RegisterWithToken 8 1 \<lparr>high = 1, low = 2\<rparr> 0 \<lparr>peers = [], tokens = []\<rparr>, [1 \<mapsto> udp1]))))))) = None"
proof -
  let ?reg = "RegisterWithToken (8::nat) 1 \<lparr>high = 1, low = 2\<rparr> 0 \<lparr>peers = [], tokens = []\<rparr>" and ?n = "new_net [] :: (nat list, nat) udp_net"
  let ?d = "encode_header TAG_RAW_UDP 3 \<lparr>high = 1, low = 2\<rparr> @ [5]"
  have ok: "registry_ok ?reg" by (rule registry_ok_ops(4)) (simp add: registry_ok_def)
  have p: "Find 7 ?reg = None" "map_of (peers ?reg) 8 = Some \<lparr>si_session = 1, lastActivity = 0, si_udpToken = \<lparr>high = 1, low = 2\<rparr>\<rparr>"
    by (simp_all add: RegisterWithToken_def Find_def)
  obtain n' r' h' where h: "HandleReceive list_kcp (\<lambda>_. True) 100 False ?d 7 (?n, ?reg, [1 \<mapsto> udp1]) = Some (n', r', h')"
    by (simp add: HandleReceive_def decode_sent IsValid_def IsKCP_def TAG_RAW_UDP_def TAG_KCP_def Let_def Find_def
        GetEndpointByToken_def RegisterWithToken_def HandleData_def UDP_HEADER_SIZE_def new_net_def)
  from roaming_peer_times_out [OF ok p _ h, of 30] show ?thesis unfolding h by simp
qed

end
