(* ===== verification/Object_Pool.thy ===== *)
theory Object_Pool
  imports Concurrent_Queue
begin

text \<open>
  \<open>System/Memory\<close>: the object pools (\<open>SimplePool\<close>, \<open>ObjectPool\<close>, \<open>LockFreeObjectPool\<close>), the intrusive
  reference counts (\<open>RefCounted\<close>, \<open>RefPtr\<close>), \<open>PacketPool\<close> and \<open>GenerationalID\<close>.

  An object is its address.  The C++ allocator is a function \<open>A\<close> from the addresses in use to a
  new one (\<open>fresh_alloc\<close>: not in use).  Each pool keeps, besides its fields, the list of its
  objects that are alive, so that a \<^verbatim>\<open>delete\<close> is visible.  The contract of a pool is the locale
  \<open>object_pool\<close>, interpreted for the two kinds of pool; the reference-counted pool is proved on
  top of it.

  Shown: an object is lent to one user at a time and is never lent while idle or deleted; the
  limits hold and the counters are exact for calls that do not overlap; with any sequence of
  handle operations a \<open>RefPtr\<close> never points to an idle or deleted object and an object goes back
  to its pool exactly when its last handle goes.  Overlapping calls can exceed the limit or wrap
  the idle counter, and a \<open>Player\<close> is never returned.
\<close>

type_synonym optr = nat

definition fresh_alloc :: "(optr list \<Rightarrow> optr) \<Rightarrow> bool" where
  "fresh_alloc A \<longleftrightarrow> (\<forall>xs. A xs \<notin> set xs)"

definition next_addr :: "optr list \<Rightarrow> optr" where
  "next_addr xs = Suc (foldr max xs 0)"

lemma next_addr_fresh: "fresh_alloc next_addr"
proof -
  have "x \<in> set xs \<Longrightarrow> x \<le> foldr max xs 0" for x :: nat and xs by (induction xs) auto
  then show ?thesis by (fastforce simp: fresh_alloc_def next_addr_def)
qed

section \<open>The contract of a pool\<close>

locale object_pool =
  fixes acquire :: "'s \<Rightarrow> optr option \<times> 's" and release :: "optr \<Rightarrow> 's \<Rightarrow> 's"
    and idle :: "'s \<Rightarrow> optr multiset" and owned :: "'s \<Rightarrow> optr multiset" and ok :: "'s \<Rightarrow> bool"
  assumes ok_counts: "ok s \<Longrightarrow> idle s \<subseteq># owned s \<and> count (owned s) x \<le> 1"
    and acquire_some: "ok s \<Longrightarrow> acquire s = (Some x, s') \<Longrightarrow> ok s' \<and>
      (x \<in># idle s \<and> idle s' = idle s - {#x#} \<and> owned s' = owned s \<or>
       x \<notin># owned s \<and> idle s' = idle s \<and> owned s' = add_mset x (owned s))"
    and acquire_none: "ok s \<Longrightarrow> acquire s = (None, s') \<Longrightarrow> s' = s"
    and release_back: "ok s \<Longrightarrow> x \<in># owned s - idle s \<Longrightarrow> ok (release x s) \<and>
      (idle (release x s) = add_mset x (idle s) \<and> owned (release x s) = owned s \<or>
       idle (release x s) = idle s \<and> owned (release x s) = owned s - {#x#})"
begin

definition lent :: "'s \<Rightarrow> optr multiset" where
  "lent s = owned s - idle s"

inductive used :: "'s \<Rightarrow> optr multiset \<Rightarrow> 's \<Rightarrow> bool" for s0 where
  none: "used s0 {#} s0"
| acquired: "used s0 held s \<Longrightarrow> acquire s = (Some x, s') \<Longrightarrow> used s0 (add_mset x held) s'"
| refused: "used s0 held s \<Longrightarrow> acquire s = (None, s') \<Longrightarrow> used s0 held s'"
| released: "used s0 (add_mset x held) s \<Longrightarrow> used s0 held (release x s)"

lemma idle_owned: "ok s \<Longrightarrow> count (idle s) x \<le> count (owned s) x \<and> count (owned s) x \<le> 1"
  using ok_counts [of s x] by (auto intro: mset_subset_eq_count)

lemma acquire_lent:
  assumes "ok s" "acquire s = (Some x, s')"
  shows "ok s' \<and> count (lent s) x = 0 \<and> lent s' = add_mset x (lent s) \<and> x \<in># owned s' \<and> x \<notin># idle s'"
proof -
  note c = idle_owned [OF assms(1)]
  consider (reuse) "0 < count (idle s) x" "idle s' = idle s - {#x#}" "owned s' = owned s"
    | (alloc) "count (owned s) x = 0" "idle s' = idle s" "owned s' = add_mset x (owned s)"
    using acquire_some [OF assms] by (auto simp: not_in_iff)
  then have "count (lent s) x = 0 \<and> lent s' = add_mset x (lent s) \<and> x \<in># owned s' \<and> x \<notin># idle s'"
  proof cases
    case reuse
    then have "count (idle s) x = 1" "count (owned s) x = 1" using c [of x] by linarith+
    moreover have "lent s' = add_mset x (lent s)"
      unfolding lent_def reuse(2,3) using calculation by (intro multiset_eqI) auto
    ultimately show ?thesis using reuse by (auto simp: lent_def not_in_iff simp flip: count_greater_zero_iff)
  next
    case alloc
    then have "count (idle s) x = 0" using c [of x] by simp
    moreover have "lent s' = add_mset x (lent s)"
      unfolding lent_def alloc(2,3) using calculation by (intro multiset_eqI) auto
    ultimately show ?thesis using alloc by (simp add: lent_def not_in_iff)
  qed
  then show ?thesis using acquire_some [OF assms] by blast
qed

lemma release_lent:
  assumes "ok s" "x \<in># lent s"
  shows "ok (release x s)" "lent (release x s) = lent s - {#x#}"
  using release_back [OF assms(1), of x] assms(2) by (auto simp: lent_def diff_right_commute)

text \<open>What the users hold is what the pool has lent, each object once.\<close>

lemma used_lent: "used s0 held s \<Longrightarrow> ok s0 \<Longrightarrow> lent s0 = {#} \<Longrightarrow> ok s \<and> lent s = held"
proof (induction rule: used.induct)
  case (released x held s)
  then show ?case using release_lent [of s x] by simp
qed (auto dest: acquire_lent acquire_none)

lemma lent_once: "ok s \<Longrightarrow> count (lent s) x \<le> 1"
  using idle_owned [of s x] by (simp add: lent_def le_diff_conv)

end


section \<open>\<open>SimplePool\<close>\<close>

record simple_pool =
  sp_pool :: "optr list"
  sp_objs :: "optr list"
  sp_allocCount :: u64
  sp_poolLimit :: u64
  sp_allocLimit :: u64

definition SimplePool :: "u64 \<Rightarrow> u64 \<Rightarrow> simple_pool" where
  "SimplePool poolLimit allocLimit =
     \<lparr>sp_pool = [], sp_objs = [], sp_allocCount = 0, sp_poolLimit = poolLimit, sp_allocLimit = allocLimit\<rparr>"

definition SimplePool_Acquire :: "(optr list \<Rightarrow> optr) \<Rightarrow> simple_pool \<Rightarrow> optr option \<times> simple_pool" where
  "SimplePool_Acquire A p =
     (if sp_pool p \<noteq> [] then (Some (last (sp_pool p)), p\<lparr>sp_pool := butlast (sp_pool p)\<rparr>)
      else if sp_allocLimit p > 0 \<and> sp_allocCount p \<ge> sp_allocLimit p then (None, p)
      else (Some (A (sp_objs p)), p\<lparr>sp_allocCount := sp_allocCount p + 1, sp_objs := A (sp_objs p) # sp_objs p\<rparr>))"

definition SimplePool_Release :: "optr option \<Rightarrow> simple_pool \<Rightarrow> simple_pool" where
  "SimplePool_Release obj p = (case obj of None \<Rightarrow> p
     | Some x \<Rightarrow> if of_nat (length (sp_pool p)) < sp_poolLimit p then p\<lparr>sp_pool := sp_pool p @ [x]\<rparr>
         else p\<lparr>sp_objs := remove1 x (sp_objs p), sp_allocCount := sp_allocCount p - 1\<rparr>)"

definition SimplePool_destroy :: "simple_pool \<Rightarrow> simple_pool" where
  "SimplePool_destroy p = p\<lparr>sp_objs := filter (\<lambda>x. x \<notin> set (sp_pool p)) (sp_objs p), sp_pool := []\<rparr>"

definition SimplePool_GetPoolCount :: "simple_pool \<Rightarrow> u64" where
  "SimplePool_GetPoolCount p = of_nat (length (sp_pool p))"

definition SimplePool_GetAllocCount :: "simple_pool \<Rightarrow> u64" where
  "SimplePool_GetAllocCount p = sp_allocCount p"

definition limits_ok :: "u64 \<Rightarrow> u64 \<Rightarrow> nat \<Rightarrow> nat \<Rightarrow> bool" where
  "limits_ok poolLimit allocLimit n_idle n_objs \<longleftrightarrow>
     n_idle \<le> unat poolLimit \<and> (allocLimit > 0 \<longrightarrow> n_objs \<le> unat allocLimit)"

definition simple_ok :: "simple_pool \<Rightarrow> bool" where
  "simple_ok p \<longleftrightarrow> mset (sp_pool p) \<subseteq># mset (sp_objs p) \<and> distinct (sp_objs p) \<and>
     sp_allocCount p = of_nat (length (sp_objs p)) \<and>
     limits_ok (sp_poolLimit p) (sp_allocLimit p) (length (sp_pool p)) (length (sp_objs p))"

text \<open>A count below its limit as machine words is below it as numbers.\<close>

lemma of_nat_less_limit: "n \<le> unat (L::u64) \<Longrightarrow> of_nat n < L \<longleftrightarrow> n < unat L"
  by (metis le_unat_uoi word_less_nat_alt)

lemma distinct_count: "distinct xs \<Longrightarrow> count (mset xs) x \<le> 1"
  by (simp add: distinct_count_atmost_1)

lemma remove_subset:
  assumes "I \<subseteq># mset xs" "x \<in># mset xs - I"
  shows "I \<subseteq># mset (remove1 x xs)" "add_mset x I \<subseteq># mset xs" "x \<in> set xs"
proof -
  show "add_mset x I \<subseteq># mset xs" using assms by (auto simp: subseteq_mset_def in_diff_count Suc_le_eq)
  then show "I \<subseteq># mset (remove1 x xs)" by (simp add: insert_subset_eq_iff)
  show "x \<in> set xs" using assms(2) by (metis in_diffD set_mset_mset)
qed

lemma simple_acquire:
  assumes "simple_ok p" "fresh_alloc A" "SimplePool_Acquire A p = (Some x, p')"
  shows "simple_ok p' \<and> (x \<in># mset (sp_pool p) \<and> mset (sp_pool p') = mset (sp_pool p) - {#x#} \<and> mset (sp_objs p') = mset (sp_objs p) \<or>
       x \<notin># mset (sp_objs p) \<and> mset (sp_pool p') = mset (sp_pool p) \<and> mset (sp_objs p') = add_mset x (mset (sp_objs p)))"
proof (cases "sp_pool p" rule: rev_cases)
  case (snoc xs y)
  then show ?thesis
    using assms by (auto simp: SimplePool_Acquire_def simple_ok_def limits_ok_def subset_mset.less_imp_le dest: mset_subset_eq_insertD)
next
  case Nil
  have "\<not> (sp_allocLimit p > 0 \<and> sp_allocCount p \<ge> sp_allocLimit p)"
    using assms(3) Nil by (auto simp: SimplePool_Acquire_def split: if_splits)
  then have "sp_allocLimit p > 0 \<longrightarrow> Suc (length (sp_objs p)) \<le> unat (sp_allocLimit p)"
    using assms(1) of_nat_less_limit [of "length (sp_objs p)" "sp_allocLimit p"]
    by (auto simp: simple_ok_def limits_ok_def not_le)
  then show ?thesis
    using Nil assms by (auto simp: SimplePool_Acquire_def simple_ok_def limits_ok_def fresh_alloc_def split: if_splits)
qed

lemma simple_release:
  assumes "simple_ok p" "x \<in># mset (sp_objs p) - mset (sp_pool p)"
  shows "simple_ok (SimplePool_Release (Some x) p) \<and>
     (mset (sp_pool (SimplePool_Release (Some x) p)) = add_mset x (mset (sp_pool p)) \<and>
      mset (sp_objs (SimplePool_Release (Some x) p)) = mset (sp_objs p) \<or>
      mset (sp_pool (SimplePool_Release (Some x) p)) = mset (sp_pool p) \<and>
      mset (sp_objs (SimplePool_Release (Some x) p)) = mset (sp_objs p) - {#x#})"
proof -
  have s: "mset (sp_pool p) \<subseteq># mset (sp_objs p)" using assms(1) by (simp add: simple_ok_def)
  note r = remove_subset [OF s assms(2)]
  have "(of_nat (length (sp_objs p)) :: u64) - 1 = of_nat (length (sp_objs p) - 1)" using r(3) by (cases "sp_objs p") auto
  then show ?thesis
    using assms(1) r of_nat_less_limit [of "length (sp_pool p)" "sp_poolLimit p"]
    by (auto simp: SimplePool_Release_def simple_ok_def limits_ok_def length_remove1)
qed

interpretation simple: object_pool "SimplePool_Acquire next_addr" "\<lambda>x. SimplePool_Release (Some x)"
  "\<lambda>p. mset (sp_pool p)" "\<lambda>p. mset (sp_objs p)" simple_ok
proof (unfold_locales, goal_cases)
  case (1 s x)
  then show ?case using distinct_count [of "sp_objs s" x] by (simp add: simple_ok_def)
next
  case (2 s x s')
  then show ?case using simple_acquire [OF _ next_addr_fresh] by blast
next
  case (3 s s')
  then show ?case by (auto simp: SimplePool_Acquire_def split: if_splits)
next
  case (4 s x)
  then show ?case by (rule simple_release)
qed


section \<open>\<open>ObjectPool\<close>\<close>

record 'q opool =
  pool :: 'q
  objs :: "optr list"
  allocCount :: u64
  poolCount :: u64
  allocLimit :: u64
  poolLimit :: u64

definition ObjectPool :: "'q \<Rightarrow> 'q opool" where
  "ObjectPool q = \<lparr>pool = q, objs = [], allocCount = 0, poolCount = 0, allocLimit = 0, poolLimit = 1000\<rparr>"

definition Init :: "u64 \<Rightarrow> u64 \<Rightarrow> ('q, 'x) opool_scheme \<Rightarrow> ('q, 'x) opool_scheme" where
  "Init al pl p = p\<lparr>allocLimit := al, poolLimit := pl\<rparr>"

text \<open>The accesses to shared memory that \<open>Pop\<close> and \<open>Push\<close> are made of.\<close>

definition pop_uncount :: "('q, 'x) opool_scheme \<Rightarrow> ('q, 'x) opool_scheme" where
  "pop_uncount p = p\<lparr>poolCount := poolCount p - 1\<rparr>"

definition pop_full :: "('q, 'x) opool_scheme \<Rightarrow> bool" where
  "pop_full p \<longleftrightarrow> allocLimit p > 0 \<and> allocCount p \<ge> allocLimit p"

definition pop_new :: "(optr list \<Rightarrow> optr) \<Rightarrow> ('q, 'x) opool_scheme \<Rightarrow> optr \<times> ('q, 'x) opool_scheme" where
  "pop_new A p = (A (objs p), p\<lparr>allocCount := allocCount p + 1, objs := A (objs p) # objs p\<rparr>)"

definition push_keeps :: "('q, 'x) opool_scheme \<Rightarrow> bool" where
  "push_keeps p \<longleftrightarrow> poolCount p < poolLimit p"

definition push_enqueue :: "('q, optr) cqueue \<Rightarrow> optr \<Rightarrow> ('q, 'x) opool_scheme \<Rightarrow> ('q, 'x) opool_scheme" where
  "push_enqueue Q x p = p\<lparr>pool := enqueue Q x (pool p)\<rparr>"

definition push_count :: "('q, 'x) opool_scheme \<Rightarrow> ('q, 'x) opool_scheme" where
  "push_count p = p\<lparr>poolCount := poolCount p + 1\<rparr>"

definition push_delete :: "optr \<Rightarrow> ('q, 'x) opool_scheme \<Rightarrow> ('q, 'x) opool_scheme" where
  "push_delete x p = p\<lparr>objs := remove1 x (objs p), allocCount := allocCount p - 1\<rparr>"

definition Pop :: "('q, optr) cqueue \<Rightarrow> (optr list \<Rightarrow> optr) \<Rightarrow> ('q, 'x) opool_scheme \<Rightarrow> optr option \<times> ('q, 'x) opool_scheme" where
  "Pop Q A p = (case try_dequeue Q (pool p) of
      Some (x, q) \<Rightarrow> (Some x, pop_uncount (p\<lparr>pool := q\<rparr>))
    | None \<Rightarrow> if pop_full p then (None, p) else (let (x, p') = pop_new A p in (Some x, p')))"

definition Push :: "('q, optr) cqueue \<Rightarrow> optr option \<Rightarrow> ('q, 'x) opool_scheme \<Rightarrow> ('q, 'x) opool_scheme" where
  "Push Q obj p = (case obj of None \<Rightarrow> p
     | Some x \<Rightarrow> if push_keeps p then push_count (push_enqueue Q x p) else push_delete x p)"

definition GetAllocCount :: "('q, 'x) opool_scheme \<Rightarrow> u64" where
  "GetAllocCount p = allocCount p"

definition GetPoolCount :: "('q, 'x) opool_scheme \<Rightarrow> u64" where
  "GetPoolCount p = poolCount p"

lemmas opool_defs = Pop_def Push_def pop_uncount_def pop_full_def pop_new_def push_keeps_def push_enqueue_def
  push_count_def push_delete_def

definition opool_ok :: "('q \<Rightarrow> optr multiset) \<Rightarrow> ('q, 'x) opool_scheme \<Rightarrow> bool" where
  "opool_ok cont p \<longleftrightarrow> cont (pool p) \<subseteq># mset (objs p) \<and> distinct (objs p) \<and>
     allocCount p = of_nat (length (objs p)) \<and> poolCount p = of_nat (size (cont (pool p))) \<and>
     limits_ok (poolLimit p) (allocLimit p) (size (cont (pool p))) (length (objs p))"

lemma opool_pop:
  assumes "cqueue_laws Q cont" "fresh_alloc A" "opool_ok cont p" "Pop Q A p = (Some x, p')"
  shows "opool_ok cont p' \<and>
      (x \<in># cont (pool p) \<and> cont (pool p') = cont (pool p) - {#x#} \<and> objs p' = objs p \<or>
       x \<notin> set (objs p) \<and> cont (pool p') = cont (pool p) \<and> objs p' = x # objs p)"
proof (cases "try_dequeue Q (pool p)")
  case (Some yq)
  then have "cont (pool p) = add_mset (fst yq) (cont (snd yq))" using cqueue_dequeue [OF assms(1)] by (metis prod.collapse)
  then show ?thesis
    using assms(3,4) Some
    by (auto simp: opool_defs opool_ok_def limits_ok_def subset_mset.less_imp_le dest: mset_subset_eq_insertD split: prod.splits)
next
  case None
  then have e: "cont (pool p) = {#}" "\<not> pop_full p" using cqueue_empty [OF assms(1), of "pool p"] assms(4) by (auto simp: Pop_def)
  then have "allocLimit p > 0 \<longrightarrow> Suc (length (objs p)) \<le> unat (allocLimit p)"
    using assms(3) of_nat_less_limit [of "length (objs p)" "allocLimit p"]
    by (auto simp: opool_ok_def limits_ok_def pop_full_def not_le)
  then show ?thesis
    using e None assms(2-4) by (auto simp: opool_defs opool_ok_def limits_ok_def fresh_alloc_def split: if_splits)
qed

lemma opool_push:
  assumes "cqueue_laws Q cont" "opool_ok cont p" "x \<in># mset (objs p) - cont (pool p)"
  shows "opool_ok cont (Push Q (Some x) p) \<and>
     (cont (pool (Push Q (Some x) p)) = add_mset x (cont (pool p)) \<and> objs (Push Q (Some x) p) = objs p \<or>
      cont (pool (Push Q (Some x) p)) = cont (pool p) \<and> objs (Push Q (Some x) p) = remove1 x (objs p))"
proof -
  have s: "cont (pool p) \<subseteq># mset (objs p)" using assms(2) by (simp add: opool_ok_def)
  note r = remove_subset [OF s assms(3)]
  have "(of_nat (length (objs p)) :: u64) - 1 = of_nat (length (objs p) - 1)" using r(3) by (cases "objs p") auto
  then show ?thesis
    using assms(2) r of_nat_less_limit [of "size (cont (pool p))" "poolLimit p"] cqueue_enqueue [OF assms(1), of x "pool p"]
    by (auto simp: opool_defs opool_ok_def limits_ok_def length_remove1)
qed

lemma opool_contract:
  assumes "cqueue_laws Q cont" "fresh_alloc A"
  shows "object_pool (Pop Q A) (\<lambda>x. Push Q (Some x)) (\<lambda>p. cont (pool p)) (\<lambda>p. mset (objs p)) (opool_ok cont)"
proof (unfold_locales, goal_cases)
  case (1 s x)
  then show ?case using distinct_count [of "objs s" x] by (simp add: opool_ok_def)
next
  case (2 s x s')
  then show ?case using opool_pop [OF assms, of s x s'] by auto
next
  case (3 s s')
  then show ?case by (auto simp: opool_defs split: if_splits option.splits prod.splits)
next
  case (4 s x)
  then show ?case using opool_push [OF assms(1), of s x] by auto
qed

interpretation listed: object_pool "Pop list_queue next_addr" "\<lambda>x. Push list_queue (Some x)"
  "\<lambda>p. mset (pool p)" "\<lambda>p. mset (objs p)" "opool_ok mset"
  by (rule opool_contract [OF list_queue_laws next_addr_fresh])


section \<open>Reference counts and handles\<close>

text \<open>
  \<open>LockFreeObjectPool\<close> lends objects as \<open>RefPtr\<close>s.  \<open>vars\<close> are the \<open>RefPtr\<close> variables of the program;
  \<open>refs\<close> is the \<open>m_refCount\<close> of each object, \<open>state\<close> what the object holds, \<open>blank\<close> what its
  constructor makes and \<open>reset\<close> its \<open>Reset\<close> method.
\<close>

record ('q, 'o) lfpool = "'q opool" +
  refs :: "optr \<Rightarrow> u32"
  state :: "optr \<Rightarrow> 'o"
  vars :: "optr option list"

definition AddRef :: "optr \<Rightarrow> ('q, 'o) lfpool \<Rightarrow> ('q, 'o) lfpool" where
  "AddRef x s = s\<lparr>refs := (refs s)(x := refs s x + 1)\<rparr>"

text \<open>\<open>ret\<close> is the \<open>ReturnToPool\<close> of the derived class.\<close>

definition Release :: "(optr \<Rightarrow> ('q, 'o) lfpool \<Rightarrow> ('q, 'o) lfpool) \<Rightarrow> optr \<Rightarrow> ('q, 'o) lfpool \<Rightarrow> ('q, 'o) lfpool" where
  "Release ret x s =
     (let s' = s\<lparr>refs := (refs s)(x := refs s x - 1)\<rparr> in if refs s x = 1 then ret x s' else s')"

definition GetRefCount :: "optr \<Rightarrow> ('q, 'o) lfpool \<Rightarrow> u32" where
  "GetRefCount x s = refs s x"

text \<open>The temporary \<^verbatim>\<open>RefPtr(ptr)\<close> of an expression: its constructor and its destructor.\<close>

definition acquire_ref :: "optr option \<Rightarrow> ('q, 'o) lfpool \<Rightarrow> ('q, 'o) lfpool" where
  "acquire_ref t s = (case t of None \<Rightarrow> s | Some x \<Rightarrow> AddRef x s)"

definition destroy_ref :: "(optr \<Rightarrow> ('q, 'o) lfpool \<Rightarrow> ('q, 'o) lfpool) \<Rightarrow> optr option \<Rightarrow> ('q, 'o) lfpool \<Rightarrow> ('q, 'o) lfpool" where
  "destroy_ref ret t s = (case t of None \<Rightarrow> s | Some x \<Rightarrow> Release ret x s)"

text \<open>Every assignment swaps a temporary with the variable and then destroys the temporary.\<close>

definition swap_in :: "(optr \<Rightarrow> ('q, 'o) lfpool \<Rightarrow> ('q, 'o) lfpool) \<Rightarrow> nat \<Rightarrow> optr option \<Rightarrow> ('q, 'o) lfpool \<Rightarrow> ('q, 'o) lfpool" where
  "swap_in ret i t s = destroy_ref ret (vars s ! i) (s\<lparr>vars := (vars s)[i := t]\<rparr>)"

definition copy_assign :: "(optr \<Rightarrow> ('q, 'o) lfpool \<Rightarrow> ('q, 'o) lfpool) \<Rightarrow> nat \<Rightarrow> nat \<Rightarrow> ('q, 'o) lfpool \<Rightarrow> ('q, 'o) lfpool" where
  "copy_assign ret i j s = swap_in ret i (vars s ! j) (acquire_ref (vars s ! j) s)"

definition move_assign :: "(optr \<Rightarrow> ('q, 'o) lfpool \<Rightarrow> ('q, 'o) lfpool) \<Rightarrow> nat \<Rightarrow> nat \<Rightarrow> ('q, 'o) lfpool \<Rightarrow> ('q, 'o) lfpool" where
  "move_assign ret i j s = swap_in ret i (vars s ! j) (s\<lparr>vars := (vars s)[j := None]\<rparr>)"

text \<open>\<^verbatim>\<open>v = other.get()\<close>: the assignment from a raw pointer, here of an object another variable holds.\<close>

definition raw_assign :: "(optr \<Rightarrow> ('q, 'o) lfpool \<Rightarrow> ('q, 'o) lfpool) \<Rightarrow> nat \<Rightarrow> optr option \<Rightarrow> ('q, 'o) lfpool \<Rightarrow> ('q, 'o) lfpool" where
  "raw_assign ret i t s = swap_in ret i t (acquire_ref t s)"

definition reset_var :: "(optr \<Rightarrow> ('q, 'o) lfpool \<Rightarrow> ('q, 'o) lfpool) \<Rightarrow> nat \<Rightarrow> ('q, 'o) lfpool \<Rightarrow> ('q, 'o) lfpool" where
  "reset_var ret i s = swap_in ret i None s"

definition swap_vars :: "nat \<Rightarrow> nat \<Rightarrow> ('q, 'o) lfpool \<Rightarrow> ('q, 'o) lfpool" where
  "swap_vars i j s = s\<lparr>vars := (vars s)[i := vars s ! j, j := vars s ! i]\<rparr>"

definition detach :: "nat \<Rightarrow> ('q, 'o) lfpool \<Rightarrow> optr option \<times> ('q, 'o) lfpool" where
  "detach i s = (vars s ! i, s\<lparr>vars := (vars s)[i := None]\<rparr>)"

text \<open>\<open>LockFreeObjectPool::Pop\<close>: a reused object is reset, and either comes with one reference.\<close>

definition lf_Pop :: "('q, optr) cqueue \<Rightarrow> (optr list \<Rightarrow> optr) \<Rightarrow> 'o \<Rightarrow> ('o \<Rightarrow> 'o) \<Rightarrow> ('q, 'o) lfpool \<Rightarrow> optr option \<times> ('q, 'o) lfpool" where
  "lf_Pop Q A blank reset s = (case try_dequeue Q (pool s) of
      Some (x, q) \<Rightarrow>
        (let s1 = pop_uncount (s\<lparr>pool := q\<rparr>); s2 = s1\<lparr>state := (state s1)(x := reset (state s1 x))\<rparr>
         in (Some x, acquire_ref (Some x) s2))
    | None \<Rightarrow> if pop_full s then (None, s)
        else (let (x, s1) = pop_new A s; s2 = s1\<lparr>state := (state s1)(x := blank), refs := (refs s1)(x := 0)\<rparr>
              in (Some x, acquire_ref (Some x) s2)))"

definition lf_Push :: "('q, optr) cqueue \<Rightarrow> optr option \<Rightarrow> ('q, 'o) lfpool \<Rightarrow> ('q, 'o) lfpool" where
  "lf_Push Q obj s = Push Q obj s"

definition pop_assign :: "('q, optr) cqueue \<Rightarrow> (optr list \<Rightarrow> optr) \<Rightarrow> 'o \<Rightarrow> ('o \<Rightarrow> 'o) \<Rightarrow>
    (optr \<Rightarrow> ('q, 'o) lfpool \<Rightarrow> ('q, 'o) lfpool) \<Rightarrow> nat \<Rightarrow> ('q, 'o) lfpool \<Rightarrow> ('q, 'o) lfpool" where
  "pop_assign Q A blank reset ret i s = (let (t, s1) = lf_Pop Q A blank reset s in swap_in ret i t s1)"

text \<open>\<open>ReturnToPool\<close> of the game's monsters and projectiles, and that of its players, whose factory's
  \<open>Release\<close> is empty.\<close>

definition pooled_ret :: "('q, optr) cqueue \<Rightarrow> optr \<Rightarrow> ('q, 'o) lfpool \<Rightarrow> ('q, 'o) lfpool" where
  "pooled_ret Q x s = lf_Push Q (Some x) s"

definition player_ret :: "optr \<Rightarrow> ('q, 'o) lfpool \<Rightarrow> ('q, 'o) lfpool" where
  "player_ret x s = s"

datatype 'o ref_op = PopInto nat | CopyTo nat nat | MoveTo nat nat | RawTo nat nat | ResetVar nat | SwapVars nat nat | Mutate nat "'o \<Rightarrow> 'o"

fun ref_step :: "('q, optr) cqueue \<Rightarrow> (optr list \<Rightarrow> optr) \<Rightarrow> 'o \<Rightarrow> ('o \<Rightarrow> 'o) \<Rightarrow>
    (optr \<Rightarrow> ('q, 'o) lfpool \<Rightarrow> ('q, 'o) lfpool) \<Rightarrow> 'o ref_op \<Rightarrow> ('q, 'o) lfpool \<Rightarrow> ('q, 'o) lfpool" where
  "ref_step Q A blank reset ret (PopInto i) s = pop_assign Q A blank reset ret i s"
| "ref_step Q A blank reset ret (CopyTo i j) s = copy_assign ret i j s"
| "ref_step Q A blank reset ret (MoveTo i j) s = move_assign ret i j s"
| "ref_step Q A blank reset ret (RawTo i j) s = raw_assign ret i (vars s ! j) s"
| "ref_step Q A blank reset ret (ResetVar i) s = reset_var ret i s"
| "ref_step Q A blank reset ret (SwapVars i j) s = swap_vars i j s"
| "ref_step Q A blank reset ret (Mutate i f) s = (case vars s ! i of None \<Rightarrow> s | Some x \<Rightarrow> s\<lparr>state := (state s)(x := f (state s x))\<rparr>)"

fun op_vars :: "'o ref_op \<Rightarrow> nat list" where
  "op_vars (PopInto i) = [i]"
| "op_vars (CopyTo i j) = [i, j]"
| "op_vars (MoveTo i j) = [i, j]"
| "op_vars (RawTo i j) = [i, j]"
| "op_vars (ResetVar i) = [i]"
| "op_vars (SwapVars i j) = [i, j]"
| "op_vars (Mutate i _) = [i]"

definition new_lfpool :: "'q \<Rightarrow> u64 \<Rightarrow> u64 \<Rightarrow> nat \<Rightarrow> (optr \<Rightarrow> 'o) \<Rightarrow> ('q, 'o) lfpool" where
  "new_lfpool q al pl M junk = \<lparr>pool = q, objs = [], allocCount = 0, poolCount = 0, allocLimit = al, poolLimit = pl,
     refs = (\<lambda>_. 0), state = junk, vars = replicate M None\<rparr>"


subsection \<open>The invariant of the handles\<close>

definition lent_objs :: "('q \<Rightarrow> optr multiset) \<Rightarrow> ('q, 'x) opool_scheme \<Rightarrow> optr multiset" where
  "lent_objs cont p = mset (objs p) - cont (pool p)"

lemma pop_lent:
  assumes "cqueue_laws Q cont" "fresh_alloc A" "opool_ok cont p" "Pop Q A p = (Some x, p')"
  shows "opool_ok cont p' \<and> count (lent_objs cont p) x = 0 \<and> lent_objs cont p' = add_mset x (lent_objs cont p)"
  using object_pool.acquire_lent [OF opool_contract [OF assms(1,2)] assms(3,4)]
  by (simp add: object_pool.lent_def [OF opool_contract [OF assms(1,2)]] lent_objs_def)

lemma push_lent:
  assumes "cqueue_laws Q cont" "opool_ok cont p" "x \<in># lent_objs cont p"
  shows "opool_ok cont (Push Q (Some x) p) \<and> lent_objs cont (Push Q (Some x) p) = lent_objs cont p - {#x#}"
  using object_pool.release_lent [OF opool_contract [OF assms(1) next_addr_fresh] assms(2), of x] assms(3)
  by (simp add: object_pool.lent_def [OF opool_contract [OF assms(1) next_addr_fresh]] lent_objs_def)

text \<open>\<open>H\<close> are the values of all handles: the variables and the temporaries of the expression being evaluated.\<close>

definition lf_inv :: "('q \<Rightarrow> optr multiset) \<Rightarrow> optr option multiset \<Rightarrow> ('q, 'o) lfpool \<Rightarrow> bool" where
  "lf_inv cont H s \<longleftrightarrow> opool_ok cont s \<and> size H < 2 ^ 32 \<and> (\<forall>x. refs s x = of_nat (count H (Some x))) \<and>
     (\<forall>x. x \<in># lent_objs cont s \<longleftrightarrow> Some x \<in># H)"

lemma frame_simps [simp]:
  "opool_ok cont (s\<lparr>refs := r\<rparr>) = opool_ok cont s" "opool_ok cont (s\<lparr>state := c\<rparr>) = opool_ok cont s"
  "opool_ok cont (s\<lparr>state := c, refs := r\<rparr>) = opool_ok cont s" "lent_objs cont (s\<lparr>state := c, refs := r\<rparr>) = lent_objs cont s"
  "opool_ok cont (s\<lparr>vars := v\<rparr>) = opool_ok cont s" "lent_objs cont (s\<lparr>refs := r\<rparr>) = lent_objs cont s"
  "lent_objs cont (s\<lparr>state := c\<rparr>) = lent_objs cont s" "lent_objs cont (s\<lparr>vars := v\<rparr>) = lent_objs cont s"
  by (simp_all add: opool_ok_def lent_objs_def)

lemma pool_frame [simp]: "refs (Push Q t s) = refs s" "vars (Push Q t s) = vars s"
  by (auto simp: opool_defs split: option.split)

lemma lf_inv_vars [simp]: "lf_inv cont H (s\<lparr>vars := v\<rparr>) = lf_inv cont H s"
  by (simp add: lf_inv_def)

lemma acquire_ref_inv:
  assumes "lf_inv cont H s" "t = None \<or> t \<in># H" "Suc (size H) < 2 ^ 32"
  shows "lf_inv cont (add_mset t H) (acquire_ref t s)"
  using assms by (auto simp: lf_inv_def acquire_ref_def AddRef_def add.commute split: option.split)

lemma destroy_ref_inv:
  assumes L: "cqueue_laws Q cont" and inv: "lf_inv cont (add_mset t H) s"
  shows "lf_inv cont H (destroy_ref (pooled_ret Q) t s)"
proof (cases t)
  case None
  then show ?thesis using inv by (simp add: lf_inv_def destroy_ref_def)
next
  case (Some x)
  have "count H (Some x) \<le> size H" by (rule count_le_size)
  then have b: "Suc (count H (Some x)) < 2 ^ 32" using inv by (simp add: lf_inv_def)
  have r: "refs s x = of_nat (Suc (count H (Some x)))" using inv Some by (simp add: lf_inv_def)
  have "unat (refs s x) = Suc (count H (Some x))" unfolding r using b by (subst unat_of_nat) simp
  then have one: "refs s x = 1 \<longleftrightarrow> Some x \<notin># H" by (simp add: word_unat_eq_iff not_in_iff)
  have lent: "x \<in># lent_objs cont s" using inv Some by (simp add: lf_inv_def)
  have p: "opool_ok cont (Push Q (Some x) (s\<lparr>refs := f\<rparr>)) \<and> lent_objs cont (Push Q (Some x) (s\<lparr>refs := f\<rparr>)) = lent_objs cont s - {#x#}" for f
    using push_lent [OF L, of "s\<lparr>refs := f\<rparr>" x] inv lent by (simp add: lf_inv_def)
  have "count (lent_objs cont s) y \<le> 1" for y
    using inv object_pool.lent_once [OF opool_contract [OF L next_addr_fresh], of s y]
    by (simp add: object_pool.lent_def [OF opool_contract [OF L next_addr_fresh]] lent_objs_def lf_inv_def)
  then have "count (lent_objs cont s) x = 1" using lent by (metis One_nat_def Suc_leI count_greater_zero_iff le_antisym)
  then have "y \<in># lent_objs cont s - {#x#} \<longleftrightarrow> y \<in># lent_objs cont s \<and> y \<noteq> x" for y
    by (auto simp: in_diff_count simp flip: count_greater_zero_iff)
  then show ?thesis
    using inv Some one r p
    by (auto simp: lf_inv_def destroy_ref_def Release_def pooled_ret_def lf_Push_def Let_def not_in_iff [THEN iffD1])
qed


text \<open>\<open>lf_Pop\<close> is \<open>Pop\<close> with the reference and the contents added.\<close>

lemma lf_Pop_inv:
  assumes L: "cqueue_laws Q cont" and A: "fresh_alloc A" and inv: "lf_inv cont H s" and small: "Suc (size H) < 2 ^ 32"
    and pop: "lf_Pop Q A blank reset s = (t, s')"
  shows "lf_inv cont (add_mset t H) s' \<and> vars s' = vars s \<and> (\<forall>x. t = Some x \<longrightarrow> state s' x \<in> insert blank (range reset))"
proof -
  have ok: "opool_ok cont s" using inv by (simp add: lf_inv_def)
  have unheld: "count H (Some x) = 0" if "Pop Q A s = (Some x, s1)" for x s1
    using pop_lent [OF L A ok that] inv by (simp add: lf_inv_def flip: not_in_iff)
  have inv_new: "lf_inv cont (add_mset (Some x) H) (s1\<lparr>state := c, refs := (refs s)(x := 1)\<rparr>)"
    if "Pop Q A s = (Some x, s1)" for x s1 c
  proof -
    show ?thesis using pop_lent [OF L A ok that] unheld [OF that] inv small by (auto simp: lf_inv_def)
  qed
  have zero: "refs s x = 0" if "Pop Q A s = (Some x, s1)" for x s1
    using unheld [OF that] inv by (simp add: lf_inv_def)
  show ?thesis
  proof (cases "try_dequeue Q (pool s)")
    case (Some xq)
    obtain x q where "xq = (x, q)" by (cases xq)
    then have "Pop Q A s = (Some x, pop_uncount (s\<lparr>pool := q\<rparr>))" using Some by (simp add: Pop_def)
    from inv_new [OF this] zero [OF this] show ?thesis
      using pop Some \<open>xq = (x, q)\<close> by (auto simp: lf_Pop_def acquire_ref_def AddRef_def Let_def pop_uncount_def)
  next
    case None
    show ?thesis
    proof (cases "pop_full s")
      case True
      then show ?thesis using None pop inv small by (auto simp: lf_Pop_def lf_inv_def)
    next
      case False
      then have "Pop Q A s = (Some (A (objs s)), snd (pop_new A s))" using None by (simp add: Pop_def pop_new_def)
      from inv_new [OF this] show ?thesis
        using pop None False by (auto simp: lf_Pop_def acquire_ref_def AddRef_def Let_def pop_new_def)
    qed
  qed
qed

lemma release_vars [simp]: "vars (destroy_ref (pooled_ret Q) t s) = vars s" "vars (acquire_ref t s) = vars s"
  by (auto simp: destroy_ref_def Release_def pooled_ret_def lf_Push_def acquire_ref_def AddRef_def Let_def split: option.split)

lemma swap_in_vars: "vars (swap_in (pooled_ret Q) i t s) = (vars s)[i := t]"
  by (simp add: swap_in_def)

lemma swap_in_inv:
  assumes "cqueue_laws Q cont" "i < length (vars s)" "lf_inv cont (add_mset t (mset (vars s))) s"
  shows "lf_inv cont (mset (vars (swap_in (pooled_ret Q) i t s))) (swap_in (pooled_ret Q) i t s)"
proof -
  have "add_mset t (mset (vars s)) = add_mset (vars s ! i) (mset ((vars s)[i := t]))"
    using assms(2) by (simp add: mset_update multi_member_split)
  then show ?thesis using assms(3) by (simp add: swap_in_vars) (simp add: swap_in_def destroy_ref_inv [OF assms(1)])
qed

definition vars_ok :: "('q \<Rightarrow> optr multiset) \<Rightarrow> nat \<Rightarrow> ('q, 'o) lfpool \<Rightarrow> bool" where
  "vars_ok cont M s \<longleftrightarrow> length (vars s) = M \<and> lf_inv cont (mset (vars s)) s"

lemma ref_step_ok:
  assumes L: "cqueue_laws Q cont" and A: "fresh_alloc A" and ok: "vars_ok cont M s" and M: "Suc M < 2 ^ 32"
    and i: "\<forall>i \<in> set (op_vars e). i < M"
  shows "vars_ok cont M (ref_step Q A blank reset (pooled_ret Q) e s)"
proof -
  have inv: "lf_inv cont (mset (vars s)) s" and len: "length (vars s) = M" using ok by (simp_all add: vars_ok_def)
  note sw = swap_in_inv [OF L]
  have mem: "j < M \<Longrightarrow> vars s ! j \<in># mset (vars s)" for j using len by simp
  have take: "lf_inv cont (add_mset (vars s ! j) (mset (vars s))) (acquire_ref (vars s ! j) s)" if "j < M" for j
    using acquire_ref_inv [OF inv, of "vars s ! j"] mem [OF that] M len by simp
  show ?thesis
  proof (cases e)
    case (PopInto i)
    obtain t s1 where p: "lf_Pop Q A blank reset s = (t, s1)" by (cases "lf_Pop Q A blank reset s")
    from lf_Pop_inv [OF L A inv _ p] M len have "lf_inv cont (add_mset t (mset (vars s1))) s1" "vars s1 = vars s" by simp_all
    then show ?thesis using PopInto i len p sw [of i s1 t] by (simp add: vars_ok_def pop_assign_def swap_in_vars)
  next
    case (CopyTo i j)
    then show ?thesis using i len take [of j] sw [of i "acquire_ref (vars s ! j) s" "vars s ! j"]
      by (simp add: vars_ok_def copy_assign_def swap_in_vars)
  next
    case (MoveTo i j)
    have "lf_inv cont (add_mset None (mset (vars s))) s" using acquire_ref_inv [OF inv, of None] M len by (simp add: acquire_ref_def)
    moreover have "add_mset (vars s ! j) (mset ((vars s)[j := None])) = add_mset None (mset (vars s))"
      using i MoveTo len by (simp add: mset_update)
    ultimately show ?thesis using MoveTo i len sw [of i "s\<lparr>vars := (vars s)[j := None]\<rparr>" "vars s ! j"]
      by (simp add: vars_ok_def move_assign_def swap_in_vars)
  next
    case (RawTo i j)
    then show ?thesis using i len take [of j] sw [of i "acquire_ref (vars s ! j) s" "vars s ! j"]
      by (simp add: vars_ok_def raw_assign_def swap_in_vars)
  next
    case (ResetVar i)
    have "lf_inv cont (add_mset None (mset (vars s))) s" using acquire_ref_inv [OF inv, of None] M len by (simp add: acquire_ref_def)
    then show ?thesis using ResetVar i len sw [of i s None] by (simp add: vars_ok_def reset_var_def swap_in_vars)
  next
    case (SwapVars i j)
    then have "mset ((vars s)[i := vars s ! j, j := vars s ! i]) = mset (vars s)" using i len by (simp add: mset_swap)
    then show ?thesis using SwapVars inv len by (simp add: vars_ok_def swap_vars_def)
  next
    case (Mutate i f)
    then show ?thesis using ok by (auto simp: vars_ok_def lf_inv_def split: option.split)
  qed
qed


text \<open>C16. Reference-counted pooling is safe.  After any sequence of assignments, moves, resets, swaps
  and \<open>Pop\<close>s over \<open>M\<close> handle variables, every handle points to an object that is alive and not idle
  in the pool, the object's count is the number of handles on it, an object that is alive and
  not idle has a handle (nothing leaks), and the pool keeps within its two limits.\<close>

theorem refptr_safe:
  assumes "cqueue_laws Q cont" "fresh_alloc A" "cont q = {#}" "M + 1 < 2 ^ 32"
    and "\<forall>e \<in> set es. \<forall>i \<in> set (op_vars e). i < M"
    and "s = fold (ref_step Q A blank reset (pooled_ret Q)) es (new_lfpool q al pl M junk)"
  shows "(\<forall>x. Some x \<in> set (vars s) \<longrightarrow> x \<in> set (objs s) \<and> x \<notin># cont (pool s) \<and>
      refs s x = of_nat (count_list (vars s) (Some x))) \<and>
    (\<forall>x \<in> set (objs s). x \<notin># cont (pool s) \<longrightarrow> Some x \<in> set (vars s)) \<and>
    size (cont (pool s)) \<le> unat (poolLimit s) \<and> (allocLimit s > 0 \<longrightarrow> length (objs s) \<le> unat (allocLimit s))"
proof -
  have "vars_ok cont M (new_lfpool q al pl M junk)"
    using assms(3,4) by (auto simp: vars_ok_def lf_inv_def opool_ok_def limits_ok_def lent_objs_def new_lfpool_def count_eq_zero_iff)
  moreover have "\<forall>e \<in> set es. \<forall>i \<in> set (op_vars e). i < M \<Longrightarrow> vars_ok cont M s0 \<Longrightarrow>
      vars_ok cont M (fold (ref_step Q A blank reset (pooled_ret Q)) es s0)" for s0
    using assms(4) by (induction es arbitrary: s0) (simp_all add: ref_step_ok [OF assms(1,2)])
  ultimately have ok: "vars_ok cont M s" using assms(5,6) by blast
  then have o: "opool_ok cont s" and r: "\<And>x. refs s x = of_nat (count (mset (vars s)) (Some x))"
    and l: "\<And>x. x \<in># lent_objs cont s \<longleftrightarrow> Some x \<in> set (vars s)"
    by (simp_all add: vars_ok_def lf_inv_def)
  have d: "x \<in># lent_objs cont s \<longleftrightarrow> x \<in> set (objs s) \<and> x \<notin># cont (pool s)" for x
  proof -
    have "x \<in> set (objs s) \<longleftrightarrow> 0 < count (mset (objs s)) x" by simp
    then show ?thesis
      using object_pool.idle_owned [OF opool_contract [OF assms(1) next_addr_fresh] o, of x]
      unfolding lent_objs_def in_diff_count not_in_iff by linarith
  qed
  show ?thesis using o r l d by (auto simp: opool_ok_def limits_ok_def count_mset)
qed

definition demo_refs :: "(nat list, nat) lfpool" where
  "demo_refs = fold (ref_step list_queue next_addr 0 (\<lambda>_. 0) (pooled_ret list_queue))
     [PopInto 0, CopyTo 1 0, PopInto 0, Mutate 0 Suc, ResetVar 0, PopInto 2, CopyTo 2 2, MoveTo 0 1] (new_lfpool [] 5 1 3 (\<lambda>_. 0))"

lemmas demo_ref_defs = demo_refs_def new_lfpool_def pop_assign_def lf_Pop_def list_queue_def pop_full_def pop_new_def next_addr_def
  acquire_ref_def destroy_ref_def swap_in_def AddRef_def Release_def pooled_ret_def lf_Push_def copy_assign_def move_assign_def
  reset_var_def Push_def push_keeps_def push_enqueue_def push_count_def push_delete_def pop_uncount_def

theorem refptr_safe_witness:
  "vars demo_refs = [Some 1, None, Some 2] \<and> state demo_refs 2 = 0 \<and> 1 \<in> set (objs demo_refs) \<and>
   refs demo_refs 1 = of_nat (count_list (vars demo_refs) (Some 1))"
proof -
  have "vars demo_refs = [Some 1, None, Some 2] \<and> state demo_refs 2 = 0"
    by code_simp
  then show ?thesis
    using refptr_safe [OF list_queue_laws next_addr_fresh _ _ _ demo_refs_def] by simp
qed

text \<open>A lent object is as new: either its constructor made it, or \<open>Reset\<close> did.\<close>

lemma popped_is_clean:
  assumes "cqueue_laws Q cont" "fresh_alloc A" "lf_inv cont H s" "Suc (size H) < 2 ^ 32" "\<And>y. reset y = blank"
    and "lf_Pop Q A blank reset s = (Some x, s')"
  shows "state s' x = blank"
  using lf_Pop_inv [OF assms(1-4,6)] assms(5) by auto

section \<open>Overlapping calls\<close>

text \<open>Two threads inside \<open>Pop\<close>: both read the allocation count before either adds to it, and the
  pool ends above its hard cap.\<close>

lemma overlapping_pops_exceed_limit:
  assumes "\<not> pop_full p" "allocLimit p = allocCount p + 1" "allocCount p < - 2"
  shows "allocLimit p < allocCount (snd (pop_new A (snd (pop_new A p))))"
proof -
  have "allocCount p + 1 < 2 + allocCount p" using assms(3) by (uint_arith; simp)
  then show ?thesis using assms(2) by (simp add: pop_new_def)
qed

text \<open>\<open>Pop\<close> between the \<open>enqueue\<close> and the \<open>fetch_add\<close> of a \<open>Push\<close>: the idle counter wraps around, so a
  third thread that returns an object in this window deletes it although the pool is empty.\<close>

lemma overlapping_push_wraps:
  assumes "poolCount p = 0" "try_dequeue Q (enqueue Q x (pool p)) = Some (x, q)"
  shows "poolCount (snd (Pop Q A (push_enqueue Q x p))) = - 1"
    and "poolLimit p < - 1 \<Longrightarrow> objs (Push Q (Some y) (snd (Pop Q A (push_enqueue Q x p)))) = remove1 y (objs p)"
  using assms by (simp_all add: Pop_def push_enqueue_def pop_uncount_def Push_def push_keeps_def push_delete_def)

section \<open>Players are never returned\<close>

text \<open>\<open>Player::ReturnToPool\<close> calls \<open>PlayerFactory::Release\<close>, whose body is empty: the object of a player who
  left stays allocated for ever and every \<open>CreatePlayer\<close> allocates another.\<close>

definition player_round :: "('o \<Rightarrow> 'o) \<Rightarrow> 'o \<Rightarrow> (nat list, 'o) lfpool \<Rightarrow> (nat list, 'o) lfpool" where
  "player_round reset blank s = reset_var player_ret 0 (pop_assign list_queue next_addr blank reset player_ret 0 s)"

lemma player_round_limit: "allocLimit (player_round reset blank s) = allocLimit s"
proof -
  have "allocLimit (swap_in player_ret i t s) = allocLimit s" for i t and s :: "(nat list, 'a) lfpool"
    by (simp add: swap_in_def destroy_ref_def Release_def player_ret_def Let_def split: option.split)
  moreover have "allocLimit (snd (lf_Pop list_queue next_addr blank reset s)) = allocLimit s"
    by (simp add: lf_Pop_def acquire_ref_def AddRef_def pop_new_def pop_uncount_def Let_def split: option.split prod.split)
  ultimately show ?thesis by (simp add: player_round_def reset_var_def pop_assign_def split: prod.split) (metis snd_conv)
qed

lemma players_leak:
  "let s = (player_round reset blank ^^ n) (new_lfpool [] 0 1000 1 junk) in length (objs s) = n \<and> vars s = [None] \<and> pool s = []"
proof (induction n)
  case (Suc n)
  define s where "s = (player_round reset blank ^^ n) (new_lfpool [] 0 1000 1 junk)"
  have al: "allocLimit ((player_round reset blank ^^ n) (new_lfpool [] 0 1000 1 junk)) = 0"
    by (induction n) (simp_all add: player_round_limit, simp add: new_lfpool_def)
  have "length (objs s) = n \<and> vars s = [None] \<and> pool s = []" "allocLimit s = 0"
    using Suc.IH al by (simp_all add: s_def Let_def)
  then have "length (objs (player_round reset blank s)) = Suc n \<and> vars (player_round reset blank s) = [None] \<and>
      pool (player_round reset blank s) = []"
    by (simp add: player_round_def reset_var_def pop_assign_def lf_Pop_def list_queue_def swap_in_def destroy_ref_def Release_def
        player_ret_def acquire_ref_def AddRef_def pop_new_def pop_full_def Let_def)
  then show ?case by (simp add: s_def Let_def)
qed (simp add: new_lfpool_def)

section \<open>\<open>GenerationalID\<close>\<close>

definition GenerationalID :: "u16 \<Rightarrow> u16 \<Rightarrow> u32" where
  "GenerationalID version index = push_bit 16 (ucast version) OR ucast index"

definition GetVersion :: "u32 \<Rightarrow> u16" where
  "GetVersion v = ucast (drop_bit 16 v)"

definition GetIndex :: "u32 \<Rightarrow> u16" where
  "GetIndex v = ucast (v AND 0xFFFF)"

definition IsValid :: "u32 \<Rightarrow> bool" where
  "IsValid v \<longleftrightarrow> v \<noteq> 0"

definition to_int32 :: "u32 \<Rightarrow> int" where
  "to_int32 v = sint v"

lemma no_high_bit: "\<not> bit (i::u16) (16 + n)"
  using bit_imp_le_length [of i "16 + n"] by auto

lemma generational_id_parts [simp]: "GetVersion (GenerationalID v i) = v" "GetIndex (GenerationalID v i) = i"
proof -
  have m: "(0xFFFF::u32) = mask 16" by (simp add: mask_eq_exp_minus_1)
  show "GetVersion (GenerationalID v i) = v" "GetIndex (GenerationalID v i) = i"
    unfolding GetVersion_def GetIndex_def GenerationalID_def m
    by (rule bit_word_eqI; auto simp: bit_simps no_high_bit)+
qed

lemma generational_id_inject: "GenerationalID v i = GenerationalID v' i' \<longleftrightarrow> v = v' \<and> i = i'"
  by (metis generational_id_parts)

lemma generational_id_valid: "IsValid (GenerationalID v i) \<longleftrightarrow> v \<noteq> 0 \<or> i \<noteq> 0"
proof -
  have "GenerationalID 0 0 = 0" by (simp add: GenerationalID_def)
  then show ?thesis using generational_id_inject [of v i 0 0] by (auto simp: IsValid_def)
qed


section \<open>\<open>PacketPool\<close>\<close>

text \<open>
  \<open>PacketPool\<close> constructs and destroys the pooled packets by hand.  \<open>alive x\<close> is the number of constructor
  runs at \<open>x\<close> less the number of destructor runs: 1 for an object, 0 for raw memory.
\<close>

type_synonym 'q packet_pool = "'q opool \<times> (optr \<Rightarrow> int)"

definition PacketPool_Allocate :: "('q, optr) cqueue \<Rightarrow> (optr list \<Rightarrow> optr) \<Rightarrow> 'q packet_pool \<Rightarrow> optr option \<times> 'q packet_pool" where
  "PacketPool_Allocate Q A s = (case Pop Q A (fst s) of
      (None, p) \<Rightarrow> (None, (p, snd s))
    | (Some x, p) \<Rightarrow>
        (let l = (if x \<in> set (objs (fst s)) then snd s else (snd s)(x := 1))  \<comment> \<open>\<^verbatim>\<open>new T()\<close> in \<open>Pop\<close>\<close>
         in (Some x, (p, l(x := l x + 1)))))"                              \<comment> \<open>placement \<^verbatim>\<open>new\<close>\<close>

definition PacketPool_Release :: "('q, optr) cqueue \<Rightarrow> optr option \<Rightarrow> 'q packet_pool \<Rightarrow> 'q packet_pool" where
  "PacketPool_Release Q packet s = (case packet of None \<Rightarrow> s
     | Some x \<Rightarrow>
        (let l = (snd s)(x := snd s x - 1); p = Push Q (Some x) (fst s)
         in (p, if x \<in> set (objs p) then l else l(x := l x - 1))))"         \<comment> \<open>\<^verbatim>\<open>delete\<close> in \<open>Push\<close>\<close>

text \<open>A new object is constructed twice, and a packet that the full pool gives up is destroyed twice.\<close>

lemma packet_constructed_twice:
  assumes "fresh_alloc A" "try_dequeue Q (pool p) = None" "\<not> pop_full p"
  shows "snd (snd (PacketPool_Allocate Q A (p, l))) (A (objs p)) = 2"
  using assms by (simp add: PacketPool_Allocate_def Pop_def pop_new_def fresh_alloc_def Let_def)

lemma packet_destroyed_twice:
  assumes "distinct (objs p)" "\<not> push_keeps p" "l x = 1"
  shows "snd (PacketPool_Release Q (Some x) (p, l)) x = - 1"
  using assms by (simp add: PacketPool_Release_def Push_def push_delete_def Let_def)

end
