(* ===== verification/Byte_Buffer.thy ===== *)
theory Byte_Buffer
  imports Udp_Registry
begin

text \<open>
  \<open>ByteBuffer\<close> of \<open>System/Network/ByteBuffer.h\<close>: trivially copyable values as their little-endian bytes
  and strings with a 16-bit length in front.  A read that would pass the write position throws
  \<open>underflow_error\<close>; the state is returned with the error, because a failed string read has already
  consumed the length.

  Shown: what is written is read back, for any sequence of fields with strings below 65536
  bytes, and nothing is left; a longer string loses its end; a read past the end is refused.
\<close>

section \<open>State and operations\<close>

record byte_buffer =
  bb_buffer :: bytes
  bb_readPos :: nat
  bb_writePos :: nat

datatype bb_error = Underflow   \<comment> \<open>\<^verbatim>\<open>std::underflow_error("ByteBuffer Read Error")\<close>\<close>

definition ByteBuffer :: byte_buffer where
  "ByteBuffer = \<lparr>bb_buffer = [], bb_readPos = 0, bb_writePos = 0\<rparr>"

definition resize :: "nat \<Rightarrow> bytes \<Rightarrow> bytes" where
  "resize n xs = take n xs @ replicate (n - length xs) 0"

definition Append :: "bytes \<Rightarrow> byte_buffer \<Rightarrow> byte_buffer" where
  "Append src b =
     (let w = bb_writePos b; n = length src;
          buf = (if length (bb_buffer b) < w + n then resize (w + n) (bb_buffer b) else bb_buffer b)
      in b\<lparr>bb_buffer := take w buf @ src @ drop (w + n) buf, bb_writePos := w + n\<rparr>)"

definition Write :: "nat \<Rightarrow> 'a::len word \<Rightarrow> byte_buffer \<Rightarrow> byte_buffer" where
  "Write sz v b = Append (le_bytes sz v) b"

definition Write_string :: "bytes \<Rightarrow> byte_buffer \<Rightarrow> byte_buffer" where
  "Write_string s b =
     (let len = (of_nat (length s) :: u16) in Append (take (unat len) s) (Write 2 len b))"

definition WriteBytes :: "bytes \<Rightarrow> byte_buffer \<Rightarrow> byte_buffer" where
  "WriteBytes src b = Append src b"

definition Read :: "nat \<Rightarrow> byte_buffer \<Rightarrow> (bb_error + 'a::len word) \<times> byte_buffer" where
  "Read sz b =
     (if bb_readPos b + sz > bb_writePos b then (Inl Underflow, b)
      else (Inr (le_word (take sz (drop (bb_readPos b) (bb_buffer b)))), b\<lparr>bb_readPos := bb_readPos b + sz\<rparr>))"

definition Read_string :: "byte_buffer \<Rightarrow> (bb_error + bytes) \<times> byte_buffer" where
  "Read_string b =
     (case Read 2 b of
        (Inl e, b1) \<Rightarrow> (Inl e, b1)
      | (Inr (len :: u16), b1) \<Rightarrow>
          if bb_readPos b1 + unat len > bb_writePos b1 then (Inl Underflow, b1)
          else (Inr (take (unat len) (drop (bb_readPos b1) (bb_buffer b1))), b1\<lparr>bb_readPos := bb_readPos b1 + unat len\<rparr>))"

definition bb_Clear :: "byte_buffer \<Rightarrow> byte_buffer" where
  "bb_Clear b = b\<lparr>bb_readPos := 0, bb_writePos := 0, bb_buffer := []\<rparr>"

definition bb_Size :: "byte_buffer \<Rightarrow> nat" where
  "bb_Size b = bb_writePos b"

definition Remaining :: "byte_buffer \<Rightarrow> nat" where
  "Remaining b = bb_writePos b - bb_readPos b"

section \<open>What a buffer holds\<close>

definition bb_ok :: "byte_buffer \<Rightarrow> bool" where
  "bb_ok b \<longleftrightarrow> bb_readPos b \<le> bb_writePos b \<and> bb_writePos b = length (bb_buffer b)"

definition unread :: "byte_buffer \<Rightarrow> bytes" where
  "unread b = drop (bb_readPos b) (bb_buffer b)"

lemma new_ok [simp]: "bb_ok ByteBuffer" "unread ByteBuffer = []"
  by (simp_all add: bb_ok_def unread_def ByteBuffer_def)

lemma Append_ok:
  assumes "bb_ok b"
  shows "bb_ok (Append src b)" "unread (Append src b) = unread b @ src" "bb_readPos (Append src b) = bb_readPos b"
  using assms by (auto simp: bb_ok_def unread_def Append_def resize_def Let_def)

lemma Remaining_unread: "bb_ok b \<Longrightarrow> Remaining b = length (unread b)"
  by (simp add: bb_ok_def Remaining_def unread_def)

lemma unread_fits:
  assumes "bb_ok b" "unread b = xs @ rest"
  shows "bb_readPos b + length xs \<le> bb_writePos b"
  using assms(1) arg_cong [OF assms(2), of length] unfolding bb_ok_def unread_def by simp linarith

lemma Read_front:
  assumes "bb_ok b" "unread b = le_bytes sz v @ rest" "8 * sz = LENGTH('a)"
  shows "\<exists>b'. Read sz b = (Inr (v :: 'a::len word), b') \<and> bb_ok b' \<and> unread b' = rest"
proof -
  have fits: "bb_readPos b + sz \<le> bb_writePos b" using unread_fits [OF assms(1,2)] by simp
  have "take sz (drop (bb_readPos b) (bb_buffer b)) = le_bytes sz v" using assms(2) by (simp add: unread_def)
  moreover have "drop (bb_readPos b + sz) (bb_buffer b) = rest"
    using assms(2) by (simp add: unread_def add.commute flip: drop_drop)
  ultimately show ?thesis
    using fits assms(1,3) by (auto simp: Read_def bb_ok_def unread_def le_word_bytes take_bit_word_eq_self)
qed

lemma Read_string_front:
  assumes "bb_ok b" "unread b = le_bytes 2 (of_nat (length s) :: u16) @ s @ rest" "length s < 65536"
  shows "\<exists>b'. Read_string b = (Inr s, b') \<and> bb_ok b' \<and> unread b' = rest"
proof -
  obtain b1 where r: "Read 2 b = (Inr (of_nat (length s) :: u16), b1)" "bb_ok b1" "unread b1 = s @ rest"
    using Read_front [OF assms(1,2)] by auto
  have len: "unat (of_nat (length s) :: u16) = length s" using assms(3) by (subst unat_of_nat) simp
  have "bb_readPos b1 + length s \<le> bb_writePos b1" by (rule unread_fits [OF r(2,3)])
  moreover have "take (length s) (drop (bb_readPos b1) (bb_buffer b1)) = s" using r(3) by (simp add: unread_def)
  moreover have "drop (bb_readPos b1 + length s) (bb_buffer b1) = rest"
    using r(3) by (metis append_eq_conv_conj drop_drop add.commute unread_def)
  ultimately show ?thesis using r(1,2) len by (auto simp: Read_string_def bb_ok_def unread_def)
qed

section \<open>Sequences of fields\<close>

datatype field = F8 u8 | F16 u16 | F32 u32 | F64 u64 | FString bytes

datatype field_type = T8 | T16 | T32 | T64 | TString

fun type_of :: "field \<Rightarrow> field_type" where
  "type_of (F8 _) = T8" | "type_of (F16 _) = T16" | "type_of (F32 _) = T32" | "type_of (F64 _) = T64"
| "type_of (FString _) = TString"

fun write_field :: "field \<Rightarrow> byte_buffer \<Rightarrow> byte_buffer" where
  "write_field (F8 v) b = Write 1 v b"
| "write_field (F16 v) b = Write 2 v b"
| "write_field (F32 v) b = Write 4 v b"
| "write_field (F64 v) b = Write 8 v b"
| "write_field (FString s) b = Write_string s b"

definition wrap_read :: "('a \<Rightarrow> field) \<Rightarrow> (bb_error + 'a) \<times> byte_buffer \<Rightarrow> (bb_error + field) \<times> byte_buffer" where
  "wrap_read f r = (map_sum id f (fst r), snd r)"

fun read_field :: "field_type \<Rightarrow> byte_buffer \<Rightarrow> (bb_error + field) \<times> byte_buffer" where
  "read_field T8 b = wrap_read F8 (Read 1 b)"
| "read_field T16 b = wrap_read F16 (Read 2 b)"
| "read_field T32 b = wrap_read F32 (Read 4 b)"
| "read_field T64 b = wrap_read F64 (Read 8 b)"
| "read_field TString b = wrap_read FString (Read_string b)"

fun read_fields :: "field_type list \<Rightarrow> byte_buffer \<Rightarrow> (bb_error + field list) \<times> byte_buffer" where
  "read_fields [] b = (Inr [], b)"
| "read_fields (t # ts) b = (case read_field t b of (Inl e, b1) \<Rightarrow> (Inl e, b1)
     | (Inr v, b1) \<Rightarrow> (case read_fields ts b1 of (Inl e, b2) \<Rightarrow> (Inl e, b2) | (Inr vs, b2) \<Rightarrow> (Inr (v # vs), b2)))"

fun field_bytes :: "field \<Rightarrow> bytes" where
  "field_bytes (F8 v) = le_bytes 1 v"
| "field_bytes (F16 v) = le_bytes 2 v"
| "field_bytes (F32 v) = le_bytes 4 v"
| "field_bytes (F64 v) = le_bytes 8 v"
| "field_bytes (FString s) = le_bytes 2 (of_nat (length s) :: u16) @ take (unat (of_nat (length s) :: u16)) s"

fun field_fits :: "field \<Rightarrow> bool" where
  "field_fits (FString s) \<longleftrightarrow> length s < 65536"
| "field_fits _ \<longleftrightarrow> True"

lemma write_field_ok:
  assumes "bb_ok b"
  shows "bb_ok (write_field v b)" "unread (write_field v b) = unread b @ field_bytes v"
  using assms by (cases v; simp add: Write_def Write_string_def Append_ok Let_def)+

lemma write_fields_ok:
  "bb_ok b \<Longrightarrow> bb_ok (fold write_field vs b) \<and> unread (fold write_field vs b) = unread b @ concat (map field_bytes vs)"
  by (induction vs arbitrary: b) (simp_all add: write_field_ok)

lemma read_field_front:
  assumes "bb_ok b" "unread b = field_bytes v @ rest" "field_fits v"
  shows "\<exists>b'. read_field (type_of v) b = (Inr v, b') \<and> bb_ok b' \<and> unread b' = rest"
proof (cases v)
  case (FString s)
  have "unat (of_nat (length s) :: u16) = length s" using assms(3) FString by (subst unat_of_nat) simp
  then show ?thesis using Read_string_front [OF assms(1), of s rest] assms(2,3) FString by (auto simp: wrap_read_def)
qed (use Read_front [OF assms(1)] assms(2) in \<open>fastforce simp: wrap_read_def\<close>)+

lemma read_fields_front:
  "bb_ok b \<Longrightarrow> unread b = concat (map field_bytes vs) @ rest \<Longrightarrow> list_all field_fits vs \<Longrightarrow>
   \<exists>b'. read_fields (map type_of vs) b = (Inr vs, b') \<and> bb_ok b' \<and> unread b' = rest"
proof (induction vs arbitrary: b)
  case (Cons v vs)
  then obtain b1 where 1: "read_field (type_of v) b = (Inr v, b1)" "bb_ok b1" "unread b1 = concat (map field_bytes vs) @ rest"
    using read_field_front [of b v "concat (map field_bytes vs) @ rest"] by auto
  then show ?case using Cons.IH [of b1] Cons.prems(3) by auto
qed simp

text \<open>Round trip of \<open>ByteBuffer\<close>: any sequence of integers of 8 to 64 bits and of strings below 65536
  bytes that is written to a new buffer is read back with the same values in the same order, no
  bytes remain, and one more read of any type throws.\<close>

theorem byte_buffer_round_trip:
  assumes "list_all field_fits vs"
  shows "\<exists>b. read_fields (map type_of vs) (fold write_field vs ByteBuffer) = (Inr vs, b) \<and> Remaining b = 0 \<and>
    fst (read_field t b) = Inl Underflow"
proof -
  note w = write_fields_ok [OF new_ok(1), of vs]
  obtain b where b: "read_fields (map type_of vs) (fold write_field vs ByteBuffer) = (Inr vs, b)" "bb_ok b" "unread b = []"
    using read_fields_front [of "fold write_field vs ByteBuffer" vs "[]"] w assms by auto
  then have "bb_readPos b = bb_writePos b" by (simp add: bb_ok_def unread_def)
  then have "fst (read_field t b) = Inl Underflow"
    by (cases t) (simp_all add: wrap_read_def Read_def Read_string_def)
  then show ?thesis using b Remaining_unread [OF b(2)] by simp
qed

theorem byte_buffer_round_trip_witness:
  "\<exists>b. read_fields [T16, TString, T32] (fold write_field [F16 7, FString [104, 105], F32 9] ByteBuffer) =
     (Inr [F16 7, FString [104, 105], F32 9], b) \<and> Remaining b = 0 \<and> fst (read_field T8 b) = Inl Underflow"
  using byte_buffer_round_trip [of "[F16 7, FString [104, 105], F32 9]" T8] by simp

text \<open>A string of 65536 bytes or more keeps only its length modulo 65536.\<close>

lemma long_string_truncated:
  "\<exists>b. Read_string (Write_string s ByteBuffer) = (Inr (take (length s mod 65536) s), b)"
proof -
  have len: "unat (of_nat (length s) :: u16) = length s mod 65536" by (subst unat_of_nat) simp
  let ?s = "take (length s mod 65536) s"
  have l: "length ?s = length s mod 65536" by (simp add: min_absorb2)
  have "(of_nat (length s mod 65536) :: u16) = of_nat (length s)" unfolding len [symmetric] by simp
  then have o: "(of_nat (length ?s) :: u16) = of_nat (length s)" by (simp only: l)
  have "unread (Write_string s ByteBuffer) = le_bytes 2 (of_nat (length ?s) :: u16) @ ?s @ []" "bb_ok (Write_string s ByteBuffer)"
    using write_field_ok [OF new_ok(1), of "FString s"] len o by simp_all
  then show ?thesis using Read_string_front [of "Write_string s ByteBuffer" ?s "[]"] l by auto
qed

end
