(* ===== verification/Packet_Build.thy ===== *)
theory Packet_Build
  imports Message_Pool Recv_Buffer Byte_Buffer
begin

text \<open>
  Building packets: \<open>PacketBase\<close> and \<open>ProtobufPacketBase\<close> (\<open>System/Packet/PacketBase.h\<close>), \<open>PacketBuilder\<close>,
  \<open>PacketBroadcast\<close>, \<open>PacketUtils\<close>, \<open>PacketView\<close> and the handle \<open>PacketPtr\<close>.  Protobuf is a third-party
  package: its three operations are a record \<open>proto\<close> with the documented behaviour \<open>proto_laws\<close>.

  A message is the address of its block in the message pool; \<open>pw_msgs\<close> are the messages alive, \<open>pw_data\<close>
  the payload bytes.  An operation on a freed message, and a write outside the payload, is \<open>None\<close>,
  as is the \<^verbatim>\<open>std::abort\<close> of an oversized packet.

  Shown: a built packet is one frame of the byte stream, whose receiver finds the id and parses the
  same message; building stays inside the allocated block and aborts exactly above 65535 bytes; the
  reference count of a message is the number of its holders under every sequence of \<open>PacketPtr\<close>
  operations and broadcasts, so a message is freed exactly once, after its last use.
\<close>

section \<open>Packets\<close>

record 'm proto =
  ByteSizeLong :: "'m \<Rightarrow> nat"
  SerializeToArray :: "'m \<Rightarrow> int \<Rightarrow> bytes option"   \<comment> \<open>the bytes written, \<open>None\<close> for \<open>false\<close>\<close>
  ParseFromArray :: "bytes \<Rightarrow> 'm option"

definition proto_laws :: "'m proto \<Rightarrow> bool" where
  "proto_laws P \<longleftrightarrow> (\<forall>m n. int (ByteSizeLong P m) \<le> n \<longrightarrow>
     (\<exists>bs. SerializeToArray P m n = Some bs \<and> length bs = ByteSizeLong P m \<and> ParseFromArray P bs = Some m))"

text \<open>The interface \<open>IPacket\<close>; \<open>GetTotalSize\<close> may abort and \<open>SerializeTo\<close> writes into a buffer.\<close>

record ipacket =
  ip_GetPacketId :: u16
  ip_GetTotalSize :: "u16 option"
  ip_SerializeTo :: "bytes \<Rightarrow> bytes option"

definition MaxPacketSize :: nat where "MaxPacketSize = 65535"

definition write_at :: "nat \<Rightarrow> bytes \<Rightarrow> bytes \<Rightarrow> bytes option" where
  "write_at off bs buf =
     (if off + length bs \<le> length buf then Some (take off buf @ bs @ drop (off + length bs) buf) else None)"

definition CalculateSafeSize :: "nat \<Rightarrow> u16 option" where
  "CalculateSafeSize bodySize =
     (let tot = sizeof_PacketHeader + bodySize in if tot > MaxPacketSize then None else Some (of_nat tot))"

definition FastSerializeHeader :: "u16 \<Rightarrow> u16 \<Rightarrow> bytes \<Rightarrow> bytes option" where
  "FastSerializeHeader packetId totalSize buf = write_at 0 (le_bytes 2 totalSize @ le_bytes 2 packetId) buf"

definition SerializeBodyTo :: "'m proto \<Rightarrow> 'm \<Rightarrow> nat \<Rightarrow> bytes \<Rightarrow> bytes option" where
  "SerializeBodyTo P m off buf =
     (let bodySize = ByteSizeLong P m; safeSize = bodySize + bodySize div 10 + 16
      in case SerializeToArray P m (int safeSize) of
           Some bs \<Rightarrow> write_at off bs buf
         | None \<Rightarrow> (case SerializeToArray P m (int bodySize) of Some bs \<Rightarrow> write_at off bs buf | None \<Rightarrow> Some buf))"

definition GetTotalSize :: "'m proto \<Rightarrow> 'm \<Rightarrow> u16 option" where
  "GetTotalSize P m = CalculateSafeSize (ByteSizeLong P m)"

definition SerializeTo :: "'m proto \<Rightarrow> u16 \<Rightarrow> 'm \<Rightarrow> bytes \<Rightarrow> bytes option" where
  "SerializeTo P ID m buf =
     (case GetTotalSize P m of None \<Rightarrow> None
      | Some tot \<Rightarrow> (case FastSerializeHeader ID tot buf of None \<Rightarrow> None
          | Some buf1 \<Rightarrow> SerializeBodyTo P m sizeof_PacketHeader buf1))"

definition protobuf_packet :: "'m proto \<Rightarrow> u16 \<Rightarrow> 'm \<Rightarrow> ipacket" where
  "protobuf_packet P ID m =
     \<lparr>ip_GetPacketId = ID, ip_GetTotalSize = GetTotalSize P m, ip_SerializeTo = SerializeTo P ID m\<rparr>"

text \<open>\<open>PacketView\<close>: the id and the payload behind the header.\<close>

record packet_view =
  pv_id :: u16
  pv_payload :: bytes

definition PacketView :: "bytes \<Rightarrow> packet_view" where
  "PacketView frame = \<lparr>pv_id = header_id frame, pv_payload = drop sizeof_PacketHeader frame\<rparr>"

definition Parse :: "'m proto \<Rightarrow> packet_view \<Rightarrow> 'm option" where
  "Parse P v = ParseFromArray P (pv_payload v)"

lemma header_bytes:
  "header_size (le_bytes 2 n @ le_bytes 2 i @ bs) = n" "header_id (le_bytes 2 n @ le_bytes 2 i @ bs) = i"
proof -
  have "le_bytes 2 w = [ucast w, ucast (drop_bit 8 w)]" for w :: u16
    by (simp add: le_bytes_Suc numeral_2_eq_2) (simp add: le_bytes_def)
  moreover have "ucast (ucast w :: u8) OR push_bit 8 (ucast (ucast (drop_bit 8 w) :: u8)) = w" for w :: u16
    by (rule bit_word_eqI) (auto simp: bit_simps)
  ultimately show "header_size (le_bytes 2 n @ le_bytes 2 i @ bs) = n" "header_id (le_bytes 2 n @ le_bytes 2 i @ bs) = i"
    by (simp_all add: header_size_def header_id_def)
qed

text \<open>Serializing into a buffer that has room for the total size.\<close>

lemma SerializeTo_frame:
  assumes L: "proto_laws P" and n: "sizeof_PacketHeader + ByteSizeLong P m \<le> MaxPacketSize"
    and buf: "sizeof_PacketHeader + ByteSizeLong P m \<le> length buf"
  shows "\<exists>body. SerializeTo P ID m buf = Some (le_bytes 2 (of_nat (sizeof_PacketHeader + ByteSizeLong P m) :: u16) @ le_bytes 2 ID @
      body @ drop (sizeof_PacketHeader + ByteSizeLong P m) buf) \<and> length body = ByteSizeLong P m \<and> ParseFromArray P body = Some m"
proof -
  let ?n = "ByteSizeLong P m"
  obtain body where b: "SerializeToArray P m (int (?n + ?n div 10 + 16)) = Some body" "length body = ?n" "ParseFromArray P body = Some m"
    using L unfolding proto_laws_def by (meson of_nat_mono trans_le_add1 le_refl)
  let ?h = "le_bytes 2 (of_nat (sizeof_PacketHeader + ?n) :: u16) @ le_bytes 2 ID"
  have "GetTotalSize P m = Some (of_nat (sizeof_PacketHeader + ?n))"
    using n by (simp add: GetTotalSize_def CalculateSafeSize_def Let_def)
  moreover have "FastSerializeHeader ID (of_nat (sizeof_PacketHeader + ?n)) buf = Some (?h @ drop 4 buf)"
    using buf by (simp add: FastSerializeHeader_def write_at_def sizeof_PacketHeader_def)
  moreover have "write_at sizeof_PacketHeader body (?h @ drop 4 buf) = Some (?h @ body @ drop (sizeof_PacketHeader + ?n) buf)"
    using buf b(2) by (simp add: write_at_def sizeof_PacketHeader_def add.commute)
  ultimately show ?thesis using b by (auto simp: SerializeTo_def SerializeBodyTo_def Let_def)
qed

section \<open>Messages in memory\<close>

record 'q pworld =
  pw_pool :: "'q mpool"
  pw_msgs :: "nat \<Rightarrow> message option"
  pw_data :: "nat \<Rightarrow> bytes"

definition AllocatePacket_at :: "('q, block) cqueue \<Rightarrow> nat \<Rightarrow> nat \<Rightarrow> u16 \<Rightarrow> 'q pworld \<Rightarrow> nat \<times> 'q pworld" where
  "AllocatePacket_at Q hdr t n w =
     (let (m, p) = AllocatePacket Q hdr t n (pw_pool w); a = msg_addr m
      in (a, w\<lparr>pw_pool := p, pw_msgs := (pw_msgs w)(a \<mapsto> m),
               pw_data := (pw_data w)(a := resize (snd (msg_block m) - hdr) (pw_data w a))\<rparr>))"

definition AddRef_at :: "nat \<Rightarrow> 'q pworld \<Rightarrow> 'q pworld option" where
  "AddRef_at a w = (case pw_msgs w a of None \<Rightarrow> None
     | Some m \<Rightarrow> Some (w\<lparr>pw_msgs := (pw_msgs w)(a \<mapsto> AddRef m)\<rparr>))"

definition Free_at :: "('q, block) cqueue \<Rightarrow> nat \<Rightarrow> nat \<Rightarrow> 'q pworld \<Rightarrow> 'q pworld option" where
  "Free_at Q t a w = (case pw_msgs w a of None \<Rightarrow> None
     | Some m \<Rightarrow> (let (r, p) = Free Q t m (pw_pool w) in Some (w\<lparr>pw_pool := p, pw_msgs := (pw_msgs w)(a := r)\<rparr>)))"

text \<open>\<open>PacketBuilder::Build\<close>.\<close>

definition Build :: "('q, block) cqueue \<Rightarrow> nat \<Rightarrow> nat \<Rightarrow> ipacket \<Rightarrow> 'q pworld \<Rightarrow> (nat \<times> 'q pworld) option" where
  "Build Q hdr t pkt w =
     (case ip_GetTotalSize pkt of None \<Rightarrow> None
      | Some sz \<Rightarrow> (let (a, w1) = AllocatePacket_at Q hdr t sz w
          in case ip_SerializeTo pkt (pw_data w1 a) of None \<Rightarrow> None
             | Some bs \<Rightarrow> Some (a, w1\<lparr>pw_data := (pw_data w1)(a := bs)\<rparr>)))"

text \<open>\<open>PacketUtils\<close>.\<close>

definition CreatePacket :: "('q, block) cqueue \<Rightarrow> nat \<Rightarrow> nat \<Rightarrow> u16 \<Rightarrow> 'q pworld \<Rightarrow> nat \<times> 'q pworld" where
  "CreatePacket Q hdr t sz w = AllocatePacket_at Q hdr t sz w"

definition CreatePacket_copy :: "('q, block) cqueue \<Rightarrow> nat \<Rightarrow> nat \<Rightarrow> nat option \<Rightarrow> 'q pworld \<Rightarrow> (nat option \<times> 'q pworld) option" where
  "CreatePacket_copy Q hdr t src w =
     (case src of None \<Rightarrow> Some (None, w)
      | Some b \<Rightarrow> (case pw_msgs w b of None \<Rightarrow> None
          | Some m \<Rightarrow> (let (a, w1) = AllocatePacket_at Q hdr t (msg_length m) w
              in case write_at 0 (take (unat (msg_length m)) (pw_data w1 b)) (pw_data w1 a) of None \<Rightarrow> None
                 | Some bs \<Rightarrow> Some (Some a, w1\<lparr>pw_data := (pw_data w1)(a := bs)\<rparr>))))"

definition ReleasePacket :: "('q, block) cqueue \<Rightarrow> nat \<Rightarrow> nat option \<Rightarrow> 'q pworld \<Rightarrow> 'q pworld option" where
  "ReleasePacket Q t pkt w = (case pkt of None \<Rightarrow> Some w | Some a \<Rightarrow> Free_at Q t a w)"

section \<open>Reference counts are exact\<close>

text \<open>\<open>H\<close> are the references held: one for every handle, queue entry or local variable.\<close>

definition pw_ok :: "('q \<Rightarrow> block multiset) \<Rightarrow> nat \<Rightarrow> nat multiset \<Rightarrow> 'q pworld \<Rightarrow> bool" where
  "pw_ok cont hdr H w \<longleftrightarrow> pool_ok cont hdr (dom (pw_msgs w)) (pw_pool w) \<and> set_mset H = dom (pw_msgs w) \<and>
     (\<forall>a m. pw_msgs w a = Some m \<longrightarrow> msg_ok hdr m \<and> msg_addr m = a \<and> msg_refCount m = int (count H a))"

lemma pw_okD:
  assumes "pw_ok cont hdr H w" "pw_msgs w a = Some m"
  shows "msg_ok hdr m" "msg_addr m = a" "msg_refCount m = int (count H a)"
  using assms by (auto simp: pw_ok_def)

lemma allocate_ok:
  assumes L: "cqueue_laws Q cont" and ok: "pw_ok cont hdr H w" and al: "AllocatePacket_at Q hdr t n w = (a, w')"
  shows "pw_ok cont hdr (add_mset a H) w' \<and> pw_msgs w a = None \<and> unat n \<le> length (pw_data w' a) \<and>
    (\<exists>m. pw_msgs w' = (pw_msgs w)(a \<mapsto> m) \<and> msg_length m = n) \<and> (\<forall>b. b \<noteq> a \<longrightarrow> pw_data w' b = pw_data w b)"
proof -
  obtain m p where m: "AllocatePacket Q hdr t n (pw_pool w) = (m, p)" by (cases "AllocatePacket Q hdr t n (pw_pool w)")
  have "pool_ok cont hdr (dom (pw_msgs w)) (pw_pool w)" using ok by (simp add: pw_ok_def)
  note a = AllocatePacket_ok [OF L this m]
  have "count H (msg_addr m) = 0" using a ok by (auto simp: pw_ok_def count_eq_zero_iff)
  then show ?thesis
    using a al m ok by (auto simp: AllocatePacket_at_def pw_ok_def msg_ok_def resize_def Let_def)
qed

lemma addref_ok:
  assumes "pw_ok cont hdr H w" "a \<in># H"
  shows "\<exists>w'. AddRef_at a w = Some w' \<and> pw_ok cont hdr (add_mset a H) w' \<and> pw_data w' = pw_data w \<and> dom (pw_msgs w') = dom (pw_msgs w)"
proof -
  obtain m where "pw_msgs w a = Some m" using assms by (auto simp: pw_ok_def)
  moreover have "insert a (dom (pw_msgs w)) = dom (pw_msgs w)" using calculation by auto
  ultimately show ?thesis
    using assms by (auto simp: AddRef_at_def pw_ok_def AddRef_def msg_ok_def msg_addr_def)
qed

lemma free_ok:
  assumes L: "cqueue_laws Q cont" and ok: "pw_ok cont hdr (add_mset a H) w"
  shows "\<exists>w'. Free_at Q t a w = Some w' \<and> pw_ok cont hdr H w' \<and> pw_data w' = pw_data w"
proof -
  have "a \<in> dom (pw_msgs w)" using ok by (auto simp: pw_ok_def)
  then obtain m where m: "pw_msgs w a = Some m" by auto
  obtain r p where f: "Free Q t m (pw_pool w) = (r, p)" by (cases "Free Q t m (pw_pool w)")
  note k = pw_okD [OF ok m]
  have "pool_ok cont hdr (dom (pw_msgs w)) (pw_pool w)" "msg_addr m \<in> dom (pw_msgs w)" using ok k(2) m by (auto simp: pw_ok_def)
  note F = Free_ok [OF L this(1) k(1) this(2) f]
  have H: "set_mset H = (if a \<in># H then dom (pw_msgs w) else dom (pw_msgs w) - {a})" using ok by (auto simp: pw_ok_def)
  have ins: "insert a (dom (pw_msgs w)) = dom (pw_msgs w)" using m by auto
  have r: "r = None \<longleftrightarrow> a \<notin># H" using F k m by (auto simp: not_in_iff)
  have "r \<noteq> None \<Longrightarrow> r = Some (m\<lparr>msg_refCount := msg_refCount m - 1\<rparr>)" using f by (auto simp: Free_def Let_def split: if_splits)
  then show ?thesis
    using F k m f ok r H by (auto simp: Free_at_def pw_ok_def ins)
qed


section \<open>A built packet is a frame\<close>

lemma Build_frame:
  assumes L: "cqueue_laws Q cont" and P: "proto_laws P" and ok: "pw_ok cont hdr H w"
    and n: "sizeof_PacketHeader + ByteSizeLong P m \<le> MaxPacketSize"
  shows "\<exists>a w' body rest. Build Q hdr t (protobuf_packet P ID m) w = Some (a, w') \<and> pw_ok cont hdr (add_mset a H) w' \<and>
    pw_msgs w a = None \<and> (\<forall>b. b \<noteq> a \<longrightarrow> pw_data w' b = pw_data w b) \<and>
    pw_data w' a = le_bytes 2 (of_nat (sizeof_PacketHeader + ByteSizeLong P m) :: u16) @ le_bytes 2 ID @ body @ rest \<and>
    length body = ByteSizeLong P m \<and> ParseFromArray P body = Some m"
proof -
  let ?n = "sizeof_PacketHeader + ByteSizeLong P m"
  obtain a w1 where al: "AllocatePacket_at Q hdr t (of_nat ?n) w = (a, w1)" by (cases "AllocatePacket_at Q hdr t (of_nat ?n) w")
  note A = allocate_ok [OF L ok al]
  have un: "unat (of_nat ?n :: u16) = ?n" using n by (subst unat_of_nat) (simp add: MaxPacketSize_def)
  obtain body where b: "SerializeTo P ID m (pw_data w1 a) = Some (le_bytes 2 (of_nat ?n :: u16) @ le_bytes 2 ID @ body @ drop ?n (pw_data w1 a))"
      "length body = ByteSizeLong P m" "ParseFromArray P body = Some m"
    using SerializeTo_frame [OF P n, of "pw_data w1 a" ID] A un by auto
  have "GetTotalSize P m = Some (of_nat ?n)" using n by (simp add: GetTotalSize_def CalculateSafeSize_def Let_def)
  then show ?thesis using al b A by (auto simp: Build_def protobuf_packet_def pw_ok_def)
qed

text \<open>C13. Build and receive.  A protobuf packet of at most 65535 bytes is built without leaving its
  block, in a message nobody else holds and with one reference; its bytes, followed by anything,
  are read by the receive loop as one frame whose view has the packet's id and parses to the
  message that was sent.  A larger packet aborts.\<close>

theorem build_parse_round_trip:
  assumes "cqueue_laws Q cont" "proto_laws P" "pw_ok cont hdr H w"
    and "fs_rest = frames MaxPacketSize tail"
  shows "if sizeof_PacketHeader + ByteSizeLong P m \<le> MaxPacketSize
    then \<exists>a w' f. Build Q hdr t (protobuf_packet P ID m) w = Some (a, w') \<and> pw_msgs w a = None \<and> pw_ok cont hdr (add_mset a H) w' \<and>
      f = take (sizeof_PacketHeader + ByteSizeLong P m) (pw_data w' a) \<and>
      frames MaxPacketSize (f @ tail) = (f # fst fs_rest, snd fs_rest) \<and>
      pv_id (PacketView f) = ID \<and> Parse P (PacketView f) = Some m
    else Build Q hdr t (protobuf_packet P ID m) w = None"
proof (cases "sizeof_PacketHeader + ByteSizeLong P m \<le> MaxPacketSize")
  case True
  let ?n = "sizeof_PacketHeader + ByteSizeLong P m"
  obtain a w' body rest where B: "Build Q hdr t (protobuf_packet P ID m) w = Some (a, w')" "pw_ok cont hdr (add_mset a H) w'"
      "pw_msgs w a = None" "pw_data w' a = le_bytes 2 (of_nat ?n :: u16) @ le_bytes 2 ID @ body @ rest"
      "length body = ByteSizeLong P m" "ParseFromArray P body = Some m"
    using Build_frame [OF assms(1-3) True, of t ID] by blast
  define f where "f = le_bytes 2 (of_nat ?n :: u16) @ le_bytes 2 ID @ body"
  have f: "f = take ?n (pw_data w' a)" "length f = ?n" using B(4,5) by (simp_all add: f_def sizeof_PacketHeader_def)
  have un: "unat (of_nat ?n :: u16) = ?n" using True by (subst unat_of_nat) (simp add: MaxPacketSize_def)
  have hs: "header_size (f @ tail) = of_nat ?n" "header_id f = ID" by (simp_all add: f_def header_bytes)
  have "unat (header_size (f @ tail)) = length f" "sizeof_PacketHeader \<le> length f" "0 < length f" "length f \<le> MaxPacketSize"
    using True f(2) by (simp_all only: hs(1) un f(2)) (simp_all add: sizeof_PacketHeader_def)
  then have "frames MaxPacketSize (f @ tail) = (f # fst fs_rest, snd fs_rest)"
    using assms(4) by (subst frames.simps) (auto simp: Let_def split: prod.split)
  moreover have "Parse P (PacketView f) = Some m" using B(5,6) by (simp add: Parse_def PacketView_def f_def sizeof_PacketHeader_def)
  ultimately show ?thesis using True B(1-3) f(1) hs(2) by (auto simp: PacketView_def)
next
  case False
  then show ?thesis by (simp add: Build_def protobuf_packet_def GetTotalSize_def CalculateSafeSize_def Let_def not_le)
qed

text \<open>The laws can hold: a message that is its own encoding.\<close>

definition raw_proto :: "bytes proto" where
  "raw_proto = \<lparr>ByteSizeLong = length, SerializeToArray = (\<lambda>m n. if int (length m) \<le> n then Some m else None),
     ParseFromArray = Some\<rparr>"

lemma raw_proto_laws: "proto_laws raw_proto"
  by (simp add: proto_laws_def raw_proto_def)

definition demo_world :: "block list pworld" where
  "demo_world = \<lparr>pw_pool = empty_pool, pw_msgs = (\<lambda>_. None), pw_data = (\<lambda>_. [])\<rparr>"

lemma demo_world_ok: "pw_ok mset hdr {#} demo_world"
  using empty_pool_ok by (simp add: pw_ok_def demo_world_def)

theorem build_parse_round_trip_witness:
  "\<exists>a w' f. Build list_queue 40 0 (protobuf_packet raw_proto 7 [1, 2]) demo_world = Some (a, w') \<and>
     frames MaxPacketSize (f @ [5]) = ([f], [5], True) \<and> pv_id (PacketView f) = 7 \<and> Parse raw_proto (PacketView f) = Some [1, 2]"
proof -
  have "frames MaxPacketSize [5] = ([], [5], True)" by (subst frames.simps) (simp add: sizeof_PacketHeader_def)
  then show ?thesis
    using build_parse_round_trip [OF list_queue_laws raw_proto_laws demo_world_ok, of "([], [5], True)" "[5]" "[1, 2]" 40 0 7]
    by (auto simp: sizeof_PacketHeader_def MaxPacketSize_def raw_proto_def)
qed


section \<open>\<open>PacketPtr\<close>\<close>

text \<open>\<open>hs\<close> are the \<open>PacketPtr\<close> variables.  The move operations change no count.\<close>

definition pp_Reset :: "('q, block) cqueue \<Rightarrow> nat \<Rightarrow> nat \<Rightarrow> nat option list \<Rightarrow> 'q pworld \<Rightarrow> (nat option list \<times> 'q pworld) option" where
  "pp_Reset Q t i hs w = (case hs ! i of None \<Rightarrow> Some (hs, w)
     | Some a \<Rightarrow> (case Free_at Q t a w of None \<Rightarrow> None | Some w' \<Rightarrow> Some (hs[i := None], w')))"

definition pp_copy :: "('q, block) cqueue \<Rightarrow> nat \<Rightarrow> nat \<Rightarrow> nat \<Rightarrow> nat option list \<Rightarrow> 'q pworld \<Rightarrow> (nat option list \<times> 'q pworld) option" where
  "pp_copy Q t i j hs w =
     (if i = j then Some (hs, w)
      else case pp_Reset Q t i hs w of None \<Rightarrow> None
        | Some (hs1, w1) \<Rightarrow>
            (let hs2 = hs1[i := hs1 ! j]
             in case hs2 ! i of None \<Rightarrow> Some (hs2, w1) | Some a \<Rightarrow> map_option (Pair hs2) (AddRef_at a w1)))"

definition pp_move :: "('q, block) cqueue \<Rightarrow> nat \<Rightarrow> nat \<Rightarrow> nat \<Rightarrow> nat option list \<Rightarrow> 'q pworld \<Rightarrow> (nat option list \<times> 'q pworld) option" where
  "pp_move Q t i j hs w =
     (if i = j then Some (hs, w)
      else map_option (\<lambda>(hs1, w1). (hs1[i := hs1 ! j, j := None], w1)) (pp_Reset Q t i hs w))"

text \<open>\<open>BuildShared\<close> into an empty variable, which takes over the reference of \<open>Build\<close>.\<close>

definition pp_build :: "('q, block) cqueue \<Rightarrow> nat \<Rightarrow> nat \<Rightarrow> ipacket \<Rightarrow> nat \<Rightarrow> nat option list \<Rightarrow> 'q pworld \<Rightarrow> (nat option list \<times> 'q pworld) option" where
  "pp_build Q hdr t pkt i hs w =
     (case pp_Reset Q t i hs w of None \<Rightarrow> None
      | Some (hs1, w1) \<Rightarrow> map_option (\<lambda>(a, w2). (hs1[i := Some a], w2)) (Build Q hdr t pkt w1))"

datatype 'm ptr_op = PtrReset nat | PtrCopy nat nat | PtrMove nat nat | PtrBuild nat u16 'm

fun ptr_step :: "('q, block) cqueue \<Rightarrow> nat \<Rightarrow> nat \<Rightarrow> 'm proto \<Rightarrow> 'm ptr_op \<Rightarrow> nat option list \<times> 'q pworld \<Rightarrow> (nat option list \<times> 'q pworld) option" where
  "ptr_step Q hdr t P (PtrReset i) (hs, w) = pp_Reset Q t i hs w"
| "ptr_step Q hdr t P (PtrCopy i j) (hs, w) = pp_copy Q t i j hs w"
| "ptr_step Q hdr t P (PtrMove i j) (hs, w) = pp_move Q t i j hs w"
| "ptr_step Q hdr t P (PtrBuild i ID m) (hs, w) = pp_build Q hdr t (protobuf_packet P ID m) i hs w"

fun ptr_run :: "('q, block) cqueue \<Rightarrow> nat \<Rightarrow> nat \<Rightarrow> 'm proto \<Rightarrow> 'm ptr_op list \<Rightarrow> nat option list \<times> 'q pworld \<Rightarrow> (nat option list \<times> 'q pworld) option" where
  "ptr_run Q hdr t P [] s = Some s"
| "ptr_run Q hdr t P (e # es) s = (case ptr_step Q hdr t P e s of None \<Rightarrow> None | Some s' \<Rightarrow> ptr_run Q hdr t P es s')"

fun ptr_op_ok :: "'m proto \<Rightarrow> nat \<Rightarrow> 'm ptr_op \<Rightarrow> bool" where
  "ptr_op_ok P n (PtrReset i) \<longleftrightarrow> i < n"
| "ptr_op_ok P n (PtrCopy i j) \<longleftrightarrow> i < n \<and> j < n"
| "ptr_op_ok P n (PtrMove i j) \<longleftrightarrow> i < n \<and> j < n"
| "ptr_op_ok P n (PtrBuild i ID m) \<longleftrightarrow> i < n \<and> sizeof_PacketHeader + ByteSizeLong P m \<le> MaxPacketSize"

text \<open>The references of a list of handles.\<close>

definition held :: "nat option list \<Rightarrow> nat multiset" where
  "held hs = mset (List.map_filter id hs)"

lemma held_simps [simp]: "held [] = {#}" "held (None # hs) = held hs" "held (Some a # hs) = add_mset a (held hs)"
  "held (hs @ hs') = held hs + held hs'"
  by (simp_all add: held_def map_filter_simps) (simp add: List.map_filter_def)

lemma held_cons: "held (x # xs) = held [x] + held xs"
  by (cases x) simp_all

lemma held_update: "i < length hs \<Longrightarrow> held (hs[i := h]) + held [hs ! i] = held hs + held [h]"
proof -
  assume i: "i < length hs"
  have "held hs = held (take i hs) + (held [hs ! i] + held (drop (Suc i) hs))"
    by (subst id_take_nth_drop [OF i], subst held_simps(4), subst held_cons, rule refl)
  moreover have "held (hs[i := h]) = held (take i hs) + (held [h] + held (drop (Suc i) hs))"
    by (subst upd_conv_take_nth_drop [OF i], subst held_simps(4), subst held_cons, rule refl)
  ultimately show ?thesis by (simp only: ac_simps)
qed

lemma held_mem:
  assumes "j < length hs" "hs ! j = Some a"
  shows "a \<in># held hs"
proof -
  have "held hs = add_mset a (held (hs[j := None]))" using held_update [OF assms(1), of None] assms(2) by simp
  then show ?thesis by simp
qed

definition ptr_ok :: "('q \<Rightarrow> block multiset) \<Rightarrow> nat \<Rightarrow> nat \<Rightarrow> nat option list \<times> 'q pworld \<Rightarrow> bool" where
  "ptr_ok cont hdr n s \<longleftrightarrow> length (fst s) = n \<and> pw_ok cont hdr (held (fst s)) (snd s)"

lemma pp_Reset_ok:
  assumes "cqueue_laws Q cont" "i < length hs" "pw_ok cont hdr (held hs) w"
  shows "\<exists>w'. pp_Reset Q t i hs w = Some (hs[i := None], w') \<and> pw_ok cont hdr (held (hs[i := None])) w'"
proof (cases "hs ! i")
  case None
  then have "hs[i := None] = hs" by (metis list_update_id)
  then show ?thesis using None assms(3) by (simp add: pp_Reset_def)
next
  case (Some a)
  then have "held hs = add_mset a (held (hs[i := None]))" using held_update [OF assms(2), of None] by simp
  then show ?thesis using free_ok [OF assms(1), of hdr a "held (hs[i := None])" w t] assms(3) Some by (auto simp: pp_Reset_def)
qed

lemma ptr_step_ok:
  assumes L: "cqueue_laws Q cont" and P: "proto_laws P" and ok: "ptr_ok cont hdr n s" and e: "ptr_op_ok P n e"
  shows "\<exists>s'. ptr_step Q hdr t P e s = Some s' \<and> ptr_ok cont hdr n s'"
proof -
  obtain hs w where s: "s = (hs, w)" by (cases s)
  have len: "length hs = n" and inv: "pw_ok cont hdr (held hs) w" using ok s by (simp_all add: ptr_ok_def)
  note R = pp_Reset_ok [OF L _ inv, of _ t]
  show ?thesis
  proof (cases e)
    case (PtrReset i)
    then show ?thesis using R [of i] e len s by (auto simp: ptr_ok_def)
  next
    case (PtrCopy i j)
    show ?thesis
    proof (cases "i = j")
      case False
      obtain w1 where r: "pp_Reset Q t i hs w = Some (hs[i := None], w1)" "pw_ok cont hdr (held (hs[i := None])) w1"
        using R [of i] PtrCopy e len by auto
      show ?thesis
      proof (cases "hs ! j")
        case None
        then show ?thesis using r False PtrCopy e len s by (auto simp: pp_copy_def ptr_ok_def)
      next
        case (Some a)
        have m: "a \<in># held (hs[i := None])" using Some False PtrCopy e len by (intro held_mem [of j]) auto
        obtain w2 where a: "AddRef_at a w1 = Some w2" "pw_ok cont hdr (add_mset a (held (hs[i := None]))) w2"
          using addref_ok [OF r(2) m] by auto
        have "held (hs[i := Some a]) = add_mset a (held (hs[i := None]))"
          using held_update [of i "hs[i := None]" "Some a"] PtrCopy e len by simp
        then show ?thesis using r a Some False PtrCopy e len s by (auto simp: pp_copy_def ptr_ok_def)
      qed
    qed (use PtrCopy s ok in \<open>simp add: pp_copy_def\<close>)
  next
    case (PtrMove i j)
    show ?thesis
    proof (cases "i = j")
      case False
      obtain w1 where r: "pp_Reset Q t i hs w = Some (hs[i := None], w1)" "pw_ok cont hdr (held (hs[i := None])) w1"
        using R [of i] PtrMove e len by auto
      have "held (hs[i := hs ! j, j := None]) = held (hs[i := None])"
        using held_update [of j "hs[i := hs ! j]" None] held_update [of i "hs[i := None]" "hs ! j"] False PtrMove e len by simp
      then show ?thesis using r False PtrMove e len s by (auto simp: pp_move_def ptr_ok_def)
    qed (use PtrMove s ok in \<open>simp add: pp_move_def\<close>)
  next
    case (PtrBuild i ID m)
    obtain w1 where r: "pp_Reset Q t i hs w = Some (hs[i := None], w1)" "pw_ok cont hdr (held (hs[i := None])) w1"
      using R [of i] PtrBuild e len by auto
    obtain a w2 where b: "Build Q hdr t (protobuf_packet P ID m) w1 = Some (a, w2)" "pw_ok cont hdr (add_mset a (held (hs[i := None]))) w2"
      using Build_frame [OF L P r(2), of m t ID] PtrBuild e by auto
    have "held (hs[i := Some a]) = add_mset a (held (hs[i := None]))"
      using held_update [of i "hs[i := None]" "Some a"] PtrBuild e len by simp
    then show ?thesis using r b PtrBuild e len s by (auto simp: pp_build_def ptr_ok_def)
  qed
qed




section \<open>Broadcast\<close>

text \<open>
  A session as a broadcast sees it: \<open>bs_held\<close> are the messages it holds, in its send queue or in a
  write under way (\<open>Flush\<close> moves them from the one to the other).
\<close>

record bsession =
  bs_connected :: bool
  bs_canDestroy :: bool
  bs_held :: "nat list"

definition SendPreSerialized :: "nat \<Rightarrow> nat \<Rightarrow> bsession list \<Rightarrow> 'q pworld \<Rightarrow> (bsession list \<times> 'q pworld) option" where
  "SendPreSerialized i a ss w =
     (if \<not> bs_connected (ss ! i) then Some (ss, w)
      else map_option (\<lambda>w'. (ss[i := (ss ! i)\<lparr>bs_held := bs_held (ss ! i) @ [a]\<rparr>], w')) (AddRef_at a w))"

text \<open>The loop over the targets; \<open>None\<close> is a null pointer in the span.\<close>

fun broadcast_loop :: "nat \<Rightarrow> nat option list \<Rightarrow> bsession list \<Rightarrow> 'q pworld \<Rightarrow> (bsession list \<times> 'q pworld) option" where
  "broadcast_loop a [] ss w = Some (ss, w)"
| "broadcast_loop a (None # ts) ss w = broadcast_loop a ts ss w"
| "broadcast_loop a (Some i # ts) ss w =
     (if \<not> bs_canDestroy (ss ! i)
      then (case SendPreSerialized i a ss w of None \<Rightarrow> None | Some (ss', w') \<Rightarrow> broadcast_loop a ts ss' w')
      else broadcast_loop a ts ss w)"

definition Broadcast :: "('q, block) cqueue \<Rightarrow> nat \<Rightarrow> nat \<Rightarrow> ipacket \<Rightarrow> nat option list \<Rightarrow> bsession list \<Rightarrow> 'q pworld \<Rightarrow> (bsession list \<times> 'q pworld) option" where
  "Broadcast Q hdr t pkt targets ss w =
     (if targets = [] then Some (ss, w)
      else case Build Q hdr t pkt w of None \<Rightarrow> None
        | Some (a, w1) \<Rightarrow> (case broadcast_loop a targets ss w1 of None \<Rightarrow> None
            | Some (ss', w2) \<Rightarrow> map_option (Pair ss') (Free_at Q t a w2)))"

definition session_refs :: "bsession list \<Rightarrow> nat multiset" where
  "session_refs ss = mset (concat (map bs_held ss))"

definition gets :: "bsession \<Rightarrow> bool" where
  "gets s \<longleftrightarrow> bs_connected s \<and> \<not> bs_canDestroy s"

definition deliver :: "nat \<Rightarrow> nat option \<Rightarrow> bsession list \<Rightarrow> bsession list" where
  "deliver a tgt ss = (case tgt of None \<Rightarrow> ss
     | Some i \<Rightarrow> if gets (ss ! i) then ss[i := (ss ! i)\<lparr>bs_held := bs_held (ss ! i) @ [a]\<rparr>] else ss)"

lemma session_refs_update:
  assumes "i < length ss"
  shows "session_refs (ss[i := (ss ! i)\<lparr>bs_held := bs_held (ss ! i) @ [a]\<rparr>]) = add_mset a (session_refs ss)"
proof -
  have "session_refs ss = session_refs (take i ss @ ss ! i # drop (Suc i) ss)" using id_take_nth_drop [OF assms] by simp
  then show ?thesis using assms by (simp add: session_refs_def upd_conv_take_nth_drop)
qed

lemma broadcast_loop_ok:
  assumes "pw_ok cont hdr (add_mset a (session_refs ss)) w" "\<forall>i. Some i \<in> set ts \<longrightarrow> i < length ss"
  shows "\<exists>w'. broadcast_loop a ts ss w = Some (fold (deliver a) ts ss, w') \<and>
    pw_ok cont hdr (add_mset a (session_refs (fold (deliver a) ts ss))) w' \<and> pw_data w' = pw_data w"
  using assms
proof (induction a ts ss w rule: broadcast_loop.induct)
  case (3 a i ts ss w)
  show ?case
  proof (cases "gets (ss ! i)")
    case False
    then show ?thesis using 3 by (auto simp: SendPreSerialized_def gets_def deliver_def)
  next
    case True
    let ?ss = "ss[i := (ss ! i)\<lparr>bs_held := bs_held (ss ! i) @ [a]\<rparr>]"
    obtain w1 where w1: "AddRef_at a w = Some w1" "pw_ok cont hdr (add_mset a (add_mset a (session_refs ss))) w1" "pw_data w1 = pw_data w"
      using addref_ok [OF 3(3), of a] by auto
    have "SendPreSerialized i a ss w = Some (?ss, w1)" using True w1 by (simp add: SendPreSerialized_def gets_def)
    moreover have "pw_ok cont hdr (add_mset a (session_refs ?ss)) w1" using w1(2) 3(4) by (simp add: session_refs_update)
    ultimately show ?thesis using 3(1) [of "(?ss, w1)" ?ss w1] 3(4) True w1(3) by (auto simp: gets_def deliver_def)
  qed
qed (auto simp: deliver_def)

text \<open>C33. A broadcast serializes once and shares.  For a packet that fits, every target that is
  connected and not about to be destroyed gets the one message, whose bytes are the packet's; the
  reference of the broadcast itself is released, so afterwards all counts are the numbers of
  holders and a broadcast nobody received leaves no message behind.\<close>

theorem broadcast_shares_one_message:
  assumes "cqueue_laws Q cont" "proto_laws P" "pw_ok cont hdr (session_refs ss) w"
    and "sizeof_PacketHeader + ByteSizeLong P m \<le> MaxPacketSize" "\<forall>i. Some i \<in> set targets \<longrightarrow> i < length ss" "targets \<noteq> []"
  shows "\<exists>a w' f. Broadcast Q hdr t (protobuf_packet P ID m) targets ss w = Some (fold (deliver a) targets ss, w') \<and>
    pw_msgs w a = None \<and> pw_ok cont hdr (session_refs (fold (deliver a) targets ss)) w' \<and>
    f = take (sizeof_PacketHeader + ByteSizeLong P m) (pw_data w' a) \<and> pv_id (PacketView f) = ID \<and> Parse P (PacketView f) = Some m"
proof -
  obtain a w1 body rest where b: "Build Q hdr t (protobuf_packet P ID m) w = Some (a, w1)"
      "pw_ok cont hdr (add_mset a (session_refs ss)) w1" "pw_msgs w a = None"
      "pw_data w1 a = le_bytes 2 (of_nat (sizeof_PacketHeader + ByteSizeLong P m) :: u16) @ le_bytes 2 ID @ body @ rest"
      "length body = ByteSizeLong P m" "ParseFromArray P body = Some m"
    using Build_frame [OF assms(1-4), of t ID] by blast
  obtain w2 where l: "broadcast_loop a targets ss w1 = Some (fold (deliver a) targets ss, w2)"
      "pw_ok cont hdr (add_mset a (session_refs (fold (deliver a) targets ss))) w2" "pw_data w2 = pw_data w1"
    using broadcast_loop_ok [OF b(2) assms(5)] by auto
  obtain w3 where f: "Free_at Q t a w2 = Some w3" "pw_ok cont hdr (session_refs (fold (deliver a) targets ss)) w3" "pw_data w3 = pw_data w2"
    using free_ok [OF assms(1) l(2), of t] by auto
  have "take (sizeof_PacketHeader + ByteSizeLong P m) (pw_data w3 a) = le_bytes 2 (of_nat (sizeof_PacketHeader + ByteSizeLong P m) :: u16) @ le_bytes 2 ID @ body"
    using b(4,5) l(3) f(3) by (simp add: sizeof_PacketHeader_def)
  then show ?thesis
    using assms(6) b(1,3,5,6) l(1) f(1,2)
    by (auto simp: Broadcast_def PacketView_def Parse_def header_bytes sizeof_PacketHeader_def)
qed

theorem broadcast_shares_one_message_witness:
  "\<exists>a w' f. Broadcast list_queue 40 0 (protobuf_packet raw_proto 7 [9]) [Some 0, None, Some 1]
      [\<lparr>bs_connected = True, bs_canDestroy = False, bs_held = []\<rparr>, \<lparr>bs_connected = False, bs_canDestroy = True, bs_held = []\<rparr>] demo_world =
     Some ([\<lparr>bs_connected = True, bs_canDestroy = False, bs_held = [a]\<rparr>, \<lparr>bs_connected = False, bs_canDestroy = True, bs_held = []\<rparr>], w') \<and>
     pv_id (PacketView f) = 7 \<and> Parse raw_proto (PacketView f) = Some [9]"
proof -
  let ?ss = "[\<lparr>bs_connected = True, bs_canDestroy = False, bs_held = []\<rparr>, \<lparr>bs_connected = False, bs_canDestroy = True, bs_held = []\<rparr>]"
  have "pw_ok mset 40 (session_refs ?ss) demo_world" using demo_world_ok by (simp add: session_refs_def)
  from broadcast_shares_one_message [OF list_queue_laws raw_proto_laws this, of "[9]" "[Some 0, None, Some 1]" 0 7]
  show ?thesis by (auto simp: sizeof_PacketHeader_def MaxPacketSize_def raw_proto_def deliver_def gets_def less_Suc_eq)
qed

section \<open>Other packet types\<close>

text \<open>\<open>Packet\<close> of \<open>System/Network/Packet.h\<close>: \<open>assign\<close> cuts what does not fit.\<close>

record raw_packet =
  rp_refCount :: u32
  rp_size :: u32
  rp_capacity :: u32
  rp_buffer :: bytes

definition rp_Reset :: "raw_packet \<Rightarrow> raw_packet" where
  "rp_Reset p = p\<lparr>rp_size := 0, rp_refCount := 0\<rparr>"

definition assign :: "bytes \<Rightarrow> raw_packet \<Rightarrow> raw_packet" where
  "assign src p =
     (let newSize = (if length src > unat (rp_capacity p) then unat (rp_capacity p) else length src)
      in p\<lparr>rp_size := of_nat newSize, rp_buffer := take newSize src @ drop newSize (rp_buffer p)\<rparr>)"

lemma assign_fits:
  assumes "length (rp_buffer p) = unat (rp_capacity p)"
  shows "length (rp_buffer (assign src p)) = unat (rp_capacity p)" "unat (rp_size (assign src p)) \<le> unat (rp_capacity p)"
    "take (unat (rp_size (assign src p))) (rp_buffer (assign src p)) = take (unat (rp_capacity p)) src"
proof -
  have "n \<le> unat (rp_capacity p) \<Longrightarrow> unat (of_nat n :: u32) = n" for n by (metis le_unat_uoi)
  then show "length (rp_buffer (assign src p)) = unat (rp_capacity p)" "unat (rp_size (assign src p)) \<le> unat (rp_capacity p)"
    "take (unat (rp_size (assign src p))) (rp_buffer (assign src p)) = take (unat (rp_capacity p)) src"
    using assms by (auto simp: assign_def Let_def)
qed

text \<open>\<open>SharedPacket\<close>: a view of bytes that are already serialized.\<close>

record packet_storage =
  ps_size :: u16
  ps_packetId :: u16
  ps_payload :: bytes

definition SharedPacket :: "packet_storage \<Rightarrow> ipacket" where
  "SharedPacket st = \<lparr>ip_GetPacketId = ps_packetId st, ip_GetTotalSize = Some (ps_size st),
     ip_SerializeTo = write_at 0 (take (unat (ps_size st)) (ps_payload st))\<rparr>"

end
