(* ===== verification/Client_Programs.thy ===== *)
theory Client_Programs
  imports Gateway_Session Udp_Registry
begin

text \<open>
  The test clients: \<open>StressTestClient\<close> (\<open>Tools/StressTest/StressTestClient.cpp\<close>), the tick synchronisation client
  (\<open>TickSyncClient/main.cpp\<close>) and the echo client with its server (\<open>DummyClient/main.cpp\<close>, \<open>GameServer/ServerPacketHandler.h\<close>).  All
  cut the byte stream with a loop of their own over a vector and two positions, which are the fields of \<open>recv_buffer\<close>; protobuf,
  the sockets and the clock are parameters.

  Shown: the stress client handles exactly the packets a server session with the XOR key 165 writes,
  in order, however the transport cuts the bytes, and a server session with that key receives exactly what the client
  sends; it writes its packets one at a time and in order; the latencies of the echo client lie between the minimum and
  the maximum it reports.  Also shown: a header with size zero keeps two of the clients in their
  loop for ever.
\<close>

section \<open>The receive loop\<close>

text \<open>\<open>bad\<close> is the test of the size, after which the client stops reading; \<open>handle\<close> gets the id and the payload, which is \<open>None\<close> when the
  size is smaller than the header, so that its length wraps around.  \<open>None\<close> as the result of the loop: it does not end.\<close>

partial_function (option) client_loop ::
  "(nat \<Rightarrow> bool) \<Rightarrow> (u16 \<Rightarrow> bytes option \<Rightarrow> 's \<Rightarrow> 's) \<Rightarrow> recv_buffer \<Rightarrow> 's \<Rightarrow> (bool \<times> recv_buffer \<times> 's) option" where
  "client_loop bad handle b s =
     (if DataSize b < int sizeof_PacketHeader then Some (True, b, s)
      else let n = unat (header_size (ReadPos b))
           in if bad n then Some (False, b, s)
              else if DataSize b < int n then Some (True, b, s)
              else client_loop bad handle (b\<lparr>readPos := readPos b + int n\<rparr>)
                     (handle (header_id (ReadPos b))
                        (if n < sizeof_PacketHeader then None else Some (drop sizeof_PacketHeader (take n (ReadPos b)))) s))"

text \<open>A read completion: the bytes are in the buffer, the packets are handled, and the buffer is tidied unless the client gave up.\<close>

definition client_read ::
  "(nat \<Rightarrow> bool) \<Rightarrow> (recv_buffer \<Rightarrow> recv_buffer) \<Rightarrow> (u16 \<Rightarrow> bytes option \<Rightarrow> 's \<Rightarrow> 's) \<Rightarrow> bytes \<Rightarrow> recv_buffer \<times> 's
     \<Rightarrow> (bool \<times> recv_buffer \<times> 's) option" where
  "client_read bad tidy handle xs bs = (case bs of (b, s) \<Rightarrow>
     map_option (\<lambda>(ok, b1, s1). (ok, if ok then tidy b1 else b1, s1)) (client_loop bad handle (snd (recv_fill xs b)) s))"

definition move_front :: "recv_buffer \<Rightarrow> recv_buffer" where
  "move_front b = (let dataSize = DataSize b in
     b\<lparr>buffer := take (nat dataSize) (drop (nat (readPos b)) (buffer b)) @ drop (nat dataSize) (buffer b), readPos := 0, writePos := dataSize\<rparr>)"

text \<open>The stress client and the echo client move the data when less than 1024 bytes are free, the tick client when the
  read position is in the second half.\<close>

definition tidy_when_full :: "recv_buffer \<Rightarrow> recv_buffer" where
  "tidy_when_full b = (if readPos b = writePos b then b\<lparr>readPos := 0, writePos := 0\<rparr>
     else if capacity b - writePos b < 1024 then move_front b else b)"

definition tidy_when_half :: "recv_buffer \<Rightarrow> recv_buffer" where
  "tidy_when_half b = (if readPos b = writePos b then b\<lparr>readPos := 0, writePos := 0\<rparr>
     else if readPos b > capacity b div 2 then move_front b else b)"

lemma move_front_ok:
  assumes "rb_ok b"
  shows "rb_ok (move_front b) \<and> rb_data (move_front b) = rb_data b \<and> capacity (move_front b) = capacity b \<and>
    FreeSize (move_front b) = capacity b - int (length (rb_data b))"
  using assms rb_data_length [OF assms]
  by (rule_tac rb_okE [OF assms]) (auto simp: rb_ok_def move_front_def Let_def DataSize_def FreeSize_def rb_data_def ReadPos_def min_def
      simp flip: of_nat_diff)

definition take_packet :: "int \<Rightarrow> recv_buffer \<Rightarrow> bool \<times> recv_buffer" where
  "take_packet n b = (True, b\<lparr>readPos := readPos b + n\<rparr>)"

lemma take_packet_ok:
  assumes "rb_ok b" "n \<le> length (rb_data b)"
  shows "take_packet (int n) b = MoveReadPos (int n) b"
  using rb_data_length [OF assms(1)] assms(2) by (simp add: take_packet_def MoveReadPos_def)

interpretation client_stream: byte_stream rb_ok rb_data capacity FreeSize recv_fill take_packet tidy_when_full
proof
  show "fst (recv_fill xs b) \<and> rb_ok (snd (recv_fill xs b)) \<and> rb_data (snd (recv_fill xs b)) = rb_data b @ xs \<and>
      capacity (snd (recv_fill xs b)) = capacity b" if "rb_ok b" "int (length xs) \<le> FreeSize b" for b xs
    using recv_stream.fill_ok [OF that] .
  show "rb_ok (snd (take_packet (int n) b)) \<and> rb_data (snd (take_packet (int n) b)) = drop n (rb_data b) \<and>
      capacity (snd (take_packet (int n) b)) = capacity b" if "rb_ok b" "n \<le> length (rb_data b)" for b n
    unfolding take_packet_ok [OF that] by (rule recv_stream.consume_ok [OF that])
  show "rb_ok (tidy_when_full b) \<and> rb_data (tidy_when_full b) = rb_data b \<and> capacity (tidy_when_full b) = capacity b" if "rb_ok b" for b
    using that move_front_ok [OF that] by (auto simp: tidy_when_full_def rb_ok_def rb_data_def DataSize_def)
  show "0 < FreeSize (tidy_when_full b)" if "rb_ok b" "int (length (rb_data b)) < capacity b" for b
    using that move_front_ok [OF that(1)] by (auto simp: tidy_when_full_def FreeSize_def rb_ok_def)
qed

text \<open>The loop on buffered bytes that are whole packets and a rest.\<close>

definition handle_frames :: "(u16 \<Rightarrow> bytes option \<Rightarrow> 's \<Rightarrow> 's) \<Rightarrow> bytes list \<Rightarrow> 's \<Rightarrow> 's" where
  "handle_frames handle fs s = fold (\<lambda>f. handle (header_id f) (Some (drop sizeof_PacketHeader f))) fs s"

lemma header_id_take: "sizeof_PacketHeader \<le> n \<Longrightarrow> n \<le> length xs \<Longrightarrow> header_id (take n xs) = header_id xs"
  by (simp add: header_id_def sizeof_PacketHeader_def)

lemma client_loop_frames:
  assumes "rb_ok b" "frames lim (rb_data b) = (fs, rest, True)" "\<forall>f \<in> set fs. sizeof_PacketHeader \<le> length f"
    and "\<And>n. sizeof_PacketHeader \<le> n \<Longrightarrow> n \<le> lim \<Longrightarrow> \<not> bad n"
  shows "client_loop bad handle b s = Some (True, client_stream.eat fs b, handle_frames handle fs s)"
  using assms(1-3)
proof (induction fs arbitrary: b s)
  case Nil
  let ?n = "unat (header_size (ReadPos b))"
  have st: "if DataSize b < int sizeof_PacketHeader then True else if lim < ?n \<or> header_size (ReadPos b) = 0 then False else DataSize b < int ?n"
    using stream_stop [OF Nil.prems(1,2)] by (auto simp del: of_nat_unat split: if_splits)
  show ?case
  proof (cases "DataSize b < int sizeof_PacketHeader")
    case True
    then show ?thesis by (simp add: client_loop.simps client_stream.eat_def handle_frames_def)
  next
    case False
    then have "?n \<le> lim" "DataSize b < int ?n" using st by (auto split: if_splits)
    moreover have "sizeof_PacketHeader \<le> ?n" using False calculation(2) by linarith
    moreover have "\<not> bad ?n" using assms(4) calculation(1,3) by blast
    ultimately show ?thesis using False
      by (subst client_loop.simps) (simp add: Let_def client_stream.eat_def handle_frames_def del: of_nat_unat)
  qed
next
  case (Cons f fs)
  let ?n = "unat (header_size (ReadPos b))" and ?b = "b\<lparr>readPos := readPos b + int (unat (header_size (ReadPos b)))\<rparr>"
  note h = stream_head [OF Cons.prems(1,2)]
  have n: "sizeof_PacketHeader \<le> ?n" using h(6) Cons.prems(3) by simp
  have m: "snd (MoveReadPos (int ?n) b) = ?b" using h(4) by (simp add: MoveReadPos_def)
  have len: "?n \<le> length (ReadPos b)" using h(5,6) by (metis length_take min.absorb_iff2 min.commute)
  have step: "client_loop bad handle b s = client_loop bad handle ?b (handle (header_id f) (Some (drop sizeof_PacketHeader f)) s)"
    using h(1-6) n assms(4) [OF n] header_id_take [OF n len] by (subst client_loop.simps) (simp add: Let_def del: of_nat_unat)
  have "client_stream.eat (f # fs) b = client_stream.eat fs ?b" by (simp add: client_stream.eat_def take_packet_def h(6))
  then show ?case using step Cons.IH [of ?b] h(7,8) m Cons.prems(3) by (simp add: handle_frames_def)
qed

lemma client_read_frames:
  assumes "rb_ok b" "int (length xs) \<le> FreeSize b" "frames lim (rb_data b @ xs) = (fs, rest, True)" "\<forall>f \<in> set fs. sizeof_PacketHeader \<le> length f"
    and "\<And>n. sizeof_PacketHeader \<le> n \<Longrightarrow> n \<le> lim \<Longrightarrow> \<not> bad n" "sizeof_PacketHeader \<le> lim" "int lim \<le> capacity b"
  shows "\<exists>b'. client_read bad tidy_when_full handle xs (b, s) = Some (True, b', handle_frames handle fs s) \<and> rb_ok b' \<and> rb_data b' = rest \<and>
    capacity b' = capacity b \<and> 0 < FreeSize b'"
proof -
  let ?b = "snd (recv_fill xs b)"
  have f: "rb_ok ?b" "rb_data ?b = rb_data b @ xs" using client_stream.fill_ok [OF assms(1,2)] by auto
  obtain b' where r: "client_stream.round lim xs b = (fs, True, b')" "rb_ok b'" "rb_data b' = rest" "capacity b' = capacity b" "0 < FreeSize b'"
    using client_stream.round_ok [OF assms(1-3)] assms(6,7) by auto
  have "b' = tidy_when_full (client_stream.eat fs ?b)" using r(1) f(2) assms(3) by (simp add: client_stream.round_def Let_def)
  moreover have "client_loop bad handle ?b s = Some (True, client_stream.eat fs ?b, handle_frames handle fs s)"
    using client_loop_frames [of ?b lim fs rest bad] f assms(3-5) by simp
  ultimately show ?thesis using r by (simp add: client_read_def)
qed

text \<open>A header of size zero keeps the loop where it is, unless the size test refuses it.\<close>

lemma zero_header_loops:
  assumes "\<not> bad 0" "int sizeof_PacketHeader \<le> DataSize b" "header_size (ReadPos b) = 0"
  shows "client_loop bad handle b s = None"
proof (rule ccontr)
  let ?P = "\<lambda>bad handle b s y. \<not> bad 0 \<longrightarrow> int sizeof_PacketHeader \<le> DataSize b \<longrightarrow> header_size (ReadPos b) \<noteq> 0"
  assume "client_loop bad handle b s \<noteq> None"
  then obtain y where "client_loop bad handle b s = Some y" by auto
  then have "?P bad handle b s y"
  proof (rule client_loop.raw_induct [where P = ?P, rotated])
    fix f :: "(nat \<Rightarrow> bool) \<Rightarrow> (u16 \<Rightarrow> bytes option \<Rightarrow> 's \<Rightarrow> 's) \<Rightarrow> recv_buffer \<Rightarrow> 's \<Rightarrow> (bool \<times> recv_buffer \<times> 's) option"
    fix bad handle b s y
    assume ih: "\<And>bad handle b s y. f bad handle b s = Some y \<Longrightarrow> ?P bad handle b s y"
      and e: "(if DataSize b < int sizeof_PacketHeader then Some (True, b, s)
        else let n = unat (header_size (ReadPos b))
             in if bad n then Some (False, b, s) else if DataSize b < int n then Some (True, b, s)
                else f bad handle (b\<lparr>readPos := readPos b + int n\<rparr>)
                  (handle (header_id (ReadPos b))
                    (if n < sizeof_PacketHeader then None else Some (drop sizeof_PacketHeader (take n (ReadPos b)))) s)) = Some y"
    show "?P bad handle b s y"
    proof (intro impI notI)
      assume z: "\<not> bad 0" "int sizeof_PacketHeader \<le> DataSize b" "header_size (ReadPos b) = 0"
      then have "f bad handle b (handle (header_id (ReadPos b)) None s) = Some y"
        using e by (simp add: sizeof_PacketHeader_def)
      from ih [OF this] z show False by blast
    qed
  qed
  then show False using assms by blast
qed

section \<open>The stress client\<close>

datatype client_msg = Cl_Login string string | Cl_CreateRoom string int | Cl_JoinRoom int | Cl_GameReady | Cl_Ping int | Cl_Pong int
  | Cl_MoveInput int int int

text \<open>What protobuf does for the client.\<close>

record stress_proto =
  ser :: "client_msg \<Rightarrow> bytes"
  parse_S_Login :: "bytes \<Rightarrow> bool option"
  parse_S_CreateRoom :: "bytes \<Rightarrow> (bool \<times> int) option"
  parse_S_JoinRoom :: "bytes \<Rightarrow> bool option"
  parse_S_Ping :: "bytes \<Rightarrow> int option"

text \<open>\<open>st_posted\<close> are the packets whose job waits on the strand, \<open>st_writes\<close> counts the outstanding writes, \<open>st_wire\<close> has the packets handed to
  \<open>async_write\<close>, \<open>st_connecting\<close> and \<open>st_timer\<close> are the attempts left while a connect or its timer is outstanding, \<open>st_created\<close> the
  calls of the callback.\<close>

record stress =
  st_isConnected :: bool
  st_isLoggedIn :: bool
  st_isInRoom :: bool
  st_isReady :: bool
  st_isCreator :: bool
  st_title :: string
  st_targetRoomId :: int
  st_created :: "int list"
  st_id :: nat
  st_open :: bool
  st_connecting :: "nat option"
  st_timer :: "nat option"
  st_posted :: "bytes list"
  st_sendQueue :: "bytes list"
  st_writes :: nat
  st_wire :: "bytes list"

definition StressTestClient :: "nat \<Rightarrow> stress" where
  "StressTestClient i = \<lparr>st_isConnected = False, st_isLoggedIn = False, st_isInRoom = False, st_isReady = False, st_isCreator = False, st_title = '''',
     st_targetRoomId = 0, st_created = [], st_id = i, st_open = False, st_connecting = None, st_timer = None, st_posted = [], st_sendQueue = [],
     st_writes = 0, st_wire = []\<rparr>"

definition stress_key :: u8 where "stress_key = 165"

definition stress_packet :: "u16 \<Rightarrow> bytes \<Rightarrow> bytes" where
  "stress_packet i body =
     le_bytes 2 (of_nat (sizeof_PacketHeader + length body) :: u16) @ le_bytes 2 i @ xor_encrypt_loop stress_key body"

definition stress_SendPacket :: "stress_proto \<Rightarrow> u16 \<Rightarrow> client_msg \<Rightarrow> stress \<Rightarrow> stress" where
  "stress_SendPacket PB i msg s = (if \<not> st_isConnected s then s else s\<lparr>st_posted := st_posted s @ [stress_packet i (ser PB msg)]\<rparr>)"

definition stress_DoWrite :: "stress \<Rightarrow> stress" where
  "stress_DoWrite s = (case st_sendQueue s of [] \<Rightarrow> s | p # _ \<Rightarrow> s\<lparr>st_writes := st_writes s + 1, st_wire := st_wire s @ [p]\<rparr>)"

text \<open>The job of \<open>SendPacket\<close> on the strand, and the handler of a write.\<close>

definition stress_run_post :: "stress \<Rightarrow> stress" where
  "stress_run_post s = (case st_posted s of [] \<Rightarrow> s
     | p # ps \<Rightarrow> let write_in_progress = (st_sendQueue s \<noteq> []);
                    s1 = s\<lparr>st_posted := ps, st_sendQueue := st_sendQueue s @ [p]\<rparr>
                in if \<not> write_in_progress then stress_DoWrite s1 else s1)"

definition stress_OnWrite :: "bool \<Rightarrow> stress \<Rightarrow> stress" where
  "stress_OnWrite ec s0 =
     (let s = s0\<lparr>st_writes := st_writes s0 - 1\<rparr>
      in if ec then s\<lparr>st_isConnected := False\<rparr>
         else let s1 = s\<lparr>st_sendQueue := tl (st_sendQueue s)\<rparr>
              in if st_sendQueue s1 \<noteq> [] then stress_DoWrite s1 else s1)"

definition stress_SendLogin :: "stress_proto \<Rightarrow> (nat \<Rightarrow> string) \<Rightarrow> stress \<Rightarrow> stress" where
  "stress_SendLogin PB to_string s = stress_SendPacket PB 100 (Cl_Login (''Stress_'' @ to_string (st_id s)) ''pass'') s"

definition stress_SendCreateRoom :: "stress_proto \<Rightarrow> stress \<Rightarrow> stress" where
  "stress_SendCreateRoom PB s = stress_SendPacket PB 102 (Cl_CreateRoom (st_title s) 1) s"

definition stress_SendJoinRoom :: "stress_proto \<Rightarrow> stress \<Rightarrow> stress" where
  "stress_SendJoinRoom PB s = (if st_targetRoomId s = 0 then s else stress_SendPacket PB 104 (Cl_JoinRoom (st_targetRoomId s)) s)"

definition stress_SendGameReady :: "stress_proto \<Rightarrow> stress \<Rightarrow> stress" where
  "stress_SendGameReady PB s = stress_SendPacket PB 114 Cl_GameReady s"

definition stress_SendPing :: "stress_proto \<Rightarrow> int \<Rightarrow> stress \<Rightarrow> stress" where
  "stress_SendPing PB now s = stress_SendPacket PB 902 (Cl_Ping now) s"

definition stress_SendPong :: "stress_proto \<Rightarrow> int \<Rightarrow> stress \<Rightarrow> stress" where
  "stress_SendPong PB timestamp s = stress_SendPacket PB 901 (Cl_Pong timestamp) s"

definition stress_SendMove :: "stress_proto \<Rightarrow> stress \<Rightarrow> stress" where
  "stress_SendMove PB s = stress_SendPacket PB 203 (Cl_MoveInput 0 1 0) s"

definition RequestCreateRoom :: "string \<Rightarrow> stress \<Rightarrow> stress" where
  "RequestCreateRoom title s = s\<lparr>st_isCreator := True, st_title := title\<rparr>"

definition SetTargetRoom :: "int \<Rightarrow> stress \<Rightarrow> stress" where
  "SetTargetRoom rid s = s\<lparr>st_targetRoomId := rid\<rparr>"

definition stress_Start :: "stress \<Rightarrow> stress" where
  "stress_Start s = s\<lparr>st_connecting := Some 5\<rparr>"

definition stress_OnConnect :: "stress_proto \<Rightarrow> (nat \<Rightarrow> string) \<Rightarrow> bool \<Rightarrow> stress \<Rightarrow> stress" where
  "stress_OnConnect PB to_string ec s = (case st_connecting s of None \<Rightarrow> s
     | Some retriesLeft \<Rightarrow>
         let s1 = s\<lparr>st_connecting := None\<rparr>
         in if \<not> ec then stress_SendLogin PB to_string (s1\<lparr>st_isConnected := True, st_open := True\<rparr>)
            else if 0 < retriesLeft then s1\<lparr>st_timer := Some retriesLeft\<rparr> else s1)"

definition stress_OnTimer :: "bool \<Rightarrow> stress \<Rightarrow> stress" where
  "stress_OnTimer aborted s = (case st_timer s of None \<Rightarrow> s
     | Some retriesLeft \<Rightarrow> let s1 = s\<lparr>st_timer := None\<rparr> in if aborted then s1 else s1\<lparr>st_connecting := Some (retriesLeft - 1)\<rparr>)"

definition stress_Stop :: "stress \<Rightarrow> stress" where
  "stress_Stop s = s\<lparr>st_isConnected := False, st_open := False\<rparr>"

text \<open>\<open>Update\<close>, with the counter, which is static and so one for all clients of the thread.\<close>

definition stress_Update :: "stress_proto \<Rightarrow> int \<Rightarrow> nat \<Rightarrow> stress \<Rightarrow> nat \<times> stress" where
  "stress_Update PB now counter s =
     (if \<not> st_isConnected s then (counter, s)
      else if st_isInRoom s \<and> st_isReady s
      then let counter1 = counter + 1; s1 = (if counter1 mod 10 = 0 then stress_SendPing PB now s else s)
           in (counter1, stress_SendMove PB s1)
      else (counter, s))"

text \<open>A packet after decryption.\<close>

definition stress_packet_in :: "stress_proto \<Rightarrow> u16 \<Rightarrow> bytes \<Rightarrow> stress \<Rightarrow> stress" where
  "stress_packet_in PB i body s =
     (if i = 101 then
        (if parse_S_Login PB body = Some True
         then let s1 = s\<lparr>st_isLoggedIn := True\<rparr> in if st_isCreator s1 then stress_SendCreateRoom PB s1 else stress_SendJoinRoom PB s1
         else s)
      else if i = 103 then
        (case parse_S_CreateRoom PB body of
           Some (True, rid) \<Rightarrow> stress_SendJoinRoom PB
             (s\<lparr>st_created := (if st_isCreator s then st_created s @ [rid] else st_created s), st_targetRoomId := rid\<rparr>)
         | _ \<Rightarrow> s)
      else if i = 105 then
        (if parse_S_JoinRoom PB body = Some True
         then (stress_SendGameReady PB (s\<lparr>st_isInRoom := True\<rparr>))\<lparr>st_isReady := True\<rparr>
         else s)
      else if i = 900 then (case parse_S_Ping PB body of Some t \<Rightarrow> stress_SendPong PB t s | None \<Rightarrow> s)
      else s)"

definition stress_HandlePacket :: "stress_proto \<Rightarrow> u16 \<Rightarrow> bytes option \<Rightarrow> stress \<Rightarrow> stress" where
  "stress_HandlePacket PB i payload s =
     (case payload of None \<Rightarrow> s | Some xs \<Rightarrow> stress_packet_in PB i (xor_decrypt_loop stress_key xs) s)"

definition stress_bad_size :: "nat \<Rightarrow> bool" where
  "stress_bad_size n \<longleftrightarrow> n < sizeof_PacketHeader \<or> 65535 < n"

text \<open>The handler of \<open>RecvLoop\<close>: whether it reads on, the buffer and the client.\<close>

definition stress_OnRead :: "stress_proto \<Rightarrow> bool \<Rightarrow> bytes \<Rightarrow> recv_buffer \<times> stress \<Rightarrow> (bool \<times> recv_buffer \<times> stress) option" where
  "stress_OnRead PB ec xs bs =
     (if ec then Some (False, fst bs, (snd bs)\<lparr>st_isConnected := False\<rparr>)
      else map_option (\<lambda>(ok, b, s). (ok, b, if ok then s else s\<lparr>st_isConnected := False\<rparr>))
             (client_read stress_bad_size tidy_when_full (stress_HandlePacket PB) xs bs))"

primrec stress_reads :: "stress_proto \<Rightarrow> bytes list \<Rightarrow> recv_buffer \<times> stress \<Rightarrow> (recv_buffer \<times> stress) option" where
  "stress_reads PB [] bs = Some bs"
| "stress_reads PB (xs # xss) bs =
     (if FreeSize (fst bs) < int (length xs) then None
      else case stress_OnRead PB False xs bs of Some (True, bs1) \<Rightarrow> stress_reads PB xss bs1 | _ \<Rightarrow> None)"

subsection \<open>Sending\<close>

text \<open>Everything sent so far: on the wire, in the queue behind the packet being written, or posted.\<close>

definition stress_sent :: "stress \<Rightarrow> bytes list" where
  "stress_sent s = st_wire s @ tl (st_sendQueue s) @ st_posted s"

definition stress_link_ok :: "stress \<Rightarrow> bool" where
  "stress_link_ok s \<longleftrightarrow> st_writes s \<le> 1 \<and> (0 < st_writes s \<longrightarrow> st_sendQueue s \<noteq> [])"

lemma stress_send_order:
  "stress_sent (stress_SendPacket PB i msg s) = stress_sent s @ (if st_isConnected s then [stress_packet i (ser PB msg)] else [])"
  "stress_link_ok s \<Longrightarrow> stress_link_ok (stress_SendPacket PB i msg s)"
  by (simp_all add: stress_sent_def stress_SendPacket_def stress_link_ok_def)

lemma stress_post_order:
  assumes "stress_link_ok s"
  shows "stress_sent (stress_run_post s) = stress_sent s" "stress_link_ok (stress_run_post s)"
  using assms
  by (cases "st_posted s"; cases "st_sendQueue s"; simp add: stress_sent_def stress_run_post_def stress_DoWrite_def stress_link_ok_def)+

lemma stress_write_order:
  assumes "stress_link_ok s" "0 < st_writes s"
  shows "stress_sent (stress_OnWrite ec s) = stress_sent s" "stress_link_ok (stress_OnWrite ec s)"
proof -
  obtain p q where q: "st_sendQueue s = p # q" "st_writes s = 1" using assms by (cases "st_sendQueue s") (auto simp: stress_link_ok_def)
  show "stress_sent (stress_OnWrite ec s) = stress_sent s" "stress_link_ok (stress_OnWrite ec s)"
    using q by (cases q; simp add: stress_sent_def stress_OnWrite_def stress_DoWrite_def stress_link_ok_def Let_def)+
qed

lemma le_bytes_header: "header_size (le_bytes 2 n @ ys) = n" "header_id (le_bytes 2 n @ le_bytes 2 i @ ys) = i" for n i :: u16
proof -
  have 2: "[0..<2] = [0, 1]" by (simp add: upt_rec)
  have w: "ucast (ucast v :: u8) OR push_bit 8 (ucast (ucast (drop_bit 8 v) :: u8)) = v" for v :: u16
    by (rule bit_word_eqI) (auto simp: bit_simps)
  show "header_size (le_bytes 2 n @ ys) = n" using w [of n] by (simp add: header_size_def le_bytes_def 2)
  show "header_id (le_bytes 2 n @ le_bytes 2 i @ ys) = i" using w [of i] by (simp add: header_id_def le_bytes_def 2 nth_append)
qed

text \<open>What a server session with the key 165 makes of a packet of the client.\<close>

lemma stress_heard_by_server:
  assumes "sizeof_PacketHeader + length body \<le> 65535"
  shows "decode xor_session_cipher (Some 165) (stress_packet i body)
    = Some (le_bytes 2 (of_nat (sizeof_PacketHeader + length body) :: u16) @ le_bytes 2 i @ body)" "wf_packet (stress_packet i body)"
proof -
  have l: "length (le_bytes 2 n @ le_bytes 2 i) = sizeof_PacketHeader" for n :: u16 by (simp add: sizeof_PacketHeader_def)
  have d: "drop sizeof_PacketHeader (stress_packet i body) = xor_encrypt_loop 165 body"
    "take sizeof_PacketHeader (stress_packet i body) = le_bytes 2 (of_nat (sizeof_PacketHeader + length body) :: u16) @ le_bytes 2 i"
    by (simp_all add: stress_packet_def stress_key_def sizeof_PacketHeader_def)
  show "decode xor_session_cipher (Some 165) (stress_packet i body)
      = Some (le_bytes 2 (of_nat (sizeof_PacketHeader + length body) :: u16) @ le_bytes 2 i @ body)"
  proof (cases "body = []")
    case True
    then show ?thesis by (simp add: decode_def stress_packet_def sizeof_PacketHeader_def)
  next
    case False
    then have "sizeof_PacketHeader < length (stress_packet i body)" by (simp add: stress_packet_def sizeof_PacketHeader_def)
    then show ?thesis by (simp add: decode_def d xor_session_cipher_def Xor_Decrypt_def)
  qed
  have "unat (header_size (stress_packet i body)) = sizeof_PacketHeader + length body"
    using assms unat_of_nat [where 'a = 16, of "sizeof_PacketHeader + length body"] unfolding stress_packet_def le_bytes_header(1) by simp
  then show "wf_packet (stress_packet i body)" by (simp add: wf_packet_def stress_packet_def sizeof_PacketHeader_def)
qed

subsection \<open>Receiving\<close>

lemma stress_reads_frames:
  assumes "stress_reads PB xss (b, s) = Some (b', s')" "rb_ok b" "65535 \<le> capacity b" "frames 65535 (rb_data b) = ([], rb_data b, True)"
    and "frames 65535 (rb_data b @ concat xss) = (fs, rest, True)" "\<forall>f \<in> set fs. sizeof_PacketHeader \<le> length f"
  shows "s' = handle_frames (stress_HandlePacket PB) fs s \<and> rb_ok b' \<and> rb_data b' = rest"
  using assms
proof (induction xss arbitrary: b s fs)
  case Nil
  then show ?case by (auto simp: handle_frames_def)
next
  case (Cons xs xss)
  have fit: "int (length xs) \<le> FreeSize b" using Cons.prems(1) by (auto split: if_splits)
  obtain gs r ok where fr: "frames 65535 (rb_data b @ xs) = (gs, r, ok)" by (metis prod_cases3)
  have ok: "ok" using frames_append_bad [of 65535 "rb_data b @ xs" "concat xss"] fr Cons.prems(5) by auto
  obtain hs where hs: "frames 65535 (r @ concat xss) = (hs, rest, True)" "fs = gs @ hs"
    using frames_append [of 65535 "rb_data b @ xs" gs r "concat xss"] fr ok Cons.prems(5) by (auto split: prod.splits)
  have sz: "\<And>n. sizeof_PacketHeader \<le> n \<Longrightarrow> n \<le> 65535 \<Longrightarrow> \<not> stress_bad_size n" by (simp add: stress_bad_size_def)
  obtain b1 where b1: "client_read stress_bad_size tidy_when_full (stress_HandlePacket PB) xs (b, s)
      = Some (True, b1, handle_frames (stress_HandlePacket PB) gs s)" "rb_ok b1" "rb_data b1 = r" "capacity b1 = capacity b"
    using client_read_frames [OF Cons.prems(2) fit, of 65535 gs r stress_bad_size "stress_HandlePacket PB" s] fr ok sz Cons.prems(3,6) hs(2)
    by (auto simp: sizeof_PacketHeader_def)
  have rs: "stress_reads PB xss (b1, handle_frames (stress_HandlePacket PB) gs s) = Some (b', s')"
    using Cons.prems(1) fit b1(1) by (auto simp: stress_OnRead_def)
  have "frames 65535 (rb_data b1) = ([], rb_data b1, True)"
    using frames_rest [of 65535 "rb_data b @ xs" gs r] fr ok b1(3) by simp
  then show ?case using Cons.IH [OF rs b1(2), of hs] Cons.prems(3,6) b1(3,4) hs by (simp add: handle_frames_def)
qed

lemma decoded_frame:
  assumes "decode xor_session_cipher (Some 165) f = Some m" "sizeof_PacketHeader \<le> length f"
  shows "stress_HandlePacket PB (header_id f) (Some (drop sizeof_PacketHeader f)) = stress_packet_in PB (header_id m) (drop sizeof_PacketHeader m)"
proof (cases "sizeof_PacketHeader < length f")
  case True
  then have m: "m = take sizeof_PacketHeader f @ xor_decrypt_loop 165 (drop sizeof_PacketHeader f)"
    using assms(1) by (simp add: decode_def xor_session_cipher_def Xor_Decrypt_def)
  have "header_id m = header_id f" using m True by (simp add: header_id_def sizeof_PacketHeader_def nth_append)
  moreover have "drop sizeof_PacketHeader m = xor_decrypt_loop 165 (drop sizeof_PacketHeader f)" using m True by simp
  ultimately show ?thesis by (simp add: stress_HandlePacket_def stress_key_def fun_eq_iff)
next
  case False
  then have "m = f" "drop sizeof_PacketHeader f = []" using assms by (auto simp: decode_def)
  then show ?thesis by (simp add: stress_HandlePacket_def fun_eq_iff)
qed

lemma decoded_frames:
  "decode_all xor_session_cipher (Some 165) fs = Some ms \<Longrightarrow> \<forall>f \<in> set fs. sizeof_PacketHeader \<le> length f \<Longrightarrow>
     handle_frames (stress_HandlePacket PB) fs s = fold (\<lambda>m. stress_packet_in PB (header_id m) (drop sizeof_PacketHeader m)) ms s"
proof (induction fs arbitrary: ms s)
  case (Cons f fs)
  then obtain m ms' where m: "decode xor_session_cipher (Some 165) f = Some m" "decode_all xor_session_cipher (Some 165) fs = Some ms'" "ms = m # ms'"
    by (auto split: option.splits)
  then show ?case using Cons.IH [OF m(2)] Cons.prems(2) decoded_frame [OF m(1)] by (simp add: handle_frames_def)
qed (simp add: handle_frames_def)

lemma stress_buffer:
  "rb_ok (RecvBuffer 131072)" "rb_data (RecvBuffer 131072) = []" "capacity (RecvBuffer 131072) = 131072" "FreeSize (RecvBuffer 131072) = 131072"
  by (rule RecvBuffer_ok, simp_all add: rb_data_def DataSize_def RecvBuffer_def FreeSize_def)

lemma decoded_frames_long:
  assumes "decode_all xor_session_cipher (Some 165) fs = Some ms" "\<forall>m \<in> set ms. wf_packet m"
  shows "\<forall>f \<in> set fs. sizeof_PacketHeader \<le> length f"
  using assms
proof (induction fs arbitrary: ms)
  case (Cons f fs)
  then obtain m ms' where m: "decode xor_session_cipher (Some 165) f = Some m" "decode_all xor_session_cipher (Some 165) fs = Some ms'" "ms = m # ms'"
    by (auto split: option.splits)
  have "sizeof_PacketHeader \<le> length f"
    using m(1,3) Cons.prems(2) by (auto simp: decode_def wf_packet_def split: if_splits)
  then show ?case using Cons.IH [OF m(2)] Cons.prems(2) m(3) by simp
qed simp

text \<open>The stress client and a server session with the XOR key 165 understand each other.  Whatever well-formed packets the session writes
  and however the transport cuts the bytes, the client handles exactly these packets, decrypted and in order, and has no
  byte left over; and every packet of the client that fits a header is well-formed and is decrypted by the session to
  the header and the message the client had serialised.\<close>

theorem stress_client_interoperates:
  assumes "linearize xor_session_cipher (Some 165) ms = Some buf" "\<forall>m \<in> set ms. wf_packet m" "concat xss = buf"
    and "stress_reads PB xss (RecvBuffer 131072, s) = Some (b', s')" "sizeof_PacketHeader + length body \<le> 65535"
  shows "s' = fold (\<lambda>m. stress_packet_in PB (header_id m) (drop sizeof_PacketHeader m)) ms s \<and> rb_data b' = [] \<and>
    wf_packet (stress_packet i body) \<and>
    decode xor_session_cipher (Some 165) (stress_packet i body)
      = Some (le_bytes 2 (of_nat (sizeof_PacketHeader + length body) :: u16) @ le_bytes 2 i @ body)"
proof -
  obtain fs where fs: "frames 65535 buf = (fs, [], True)" "decode_all xor_session_cipher (Some 165) fs = Some ms"
    using linearize_frames [OF xor_session_ok assms(1,2)] by blast
  have long: "\<forall>f \<in> set fs. sizeof_PacketHeader \<le> length f"
    using fs(2) assms(2) by (rule decoded_frames_long)
  note e = stress_buffer
  have n: "frames 65535 [] = ([], [], True)" by (simp add: frames.simps sizeof_PacketHeader_def)
  have "s' = handle_frames (stress_HandlePacket PB) fs s \<and> rb_data b' = []"
    using stress_reads_frames [OF assms(4) e(1)] e n fs(1) long assms(3) by simp
  then show ?thesis using decoded_frames [OF fs(2) long] stress_heard_by_server [OF assms(5)] by simp
qed

definition demo_proto :: stress_proto where
  "demo_proto = \<lparr>ser = (\<lambda>m. case m of Cl_JoinRoom r \<Rightarrow> [7] | _ \<Rightarrow> []), parse_S_Login = (\<lambda>xs. Some (xs = [1])), parse_S_CreateRoom = (\<lambda>_. None),
     parse_S_JoinRoom = (\<lambda>_. None), parse_S_Ping = (\<lambda>_. None)\<rparr>"

definition demo_client :: stress where
  "demo_client = (StressTestClient 3)\<lparr>st_isConnected := True, st_targetRoomId := 4\<rparr>"

text \<open>The answer to a login makes the client ask for its room, with a packet the server reads.\<close>

theorem stress_client_interoperates_witness:
  "\<exists>b' s'. stress_reads demo_proto [[5, 0, 101, 0, 164]] (RecvBuffer 131072, demo_client) = Some (b', s') \<and> st_isLoggedIn s' \<and>
     st_posted s' = [stress_packet 104 [7]] \<and> decode xor_session_cipher (Some 165) (stress_packet 104 [7]) = Some [5, 0, 104, 0, 7]"
proof -
  let ?m = "[5, 0, 101, 0, 1] :: bytes" and ?x = "[5, 0, 101, 0, 164] :: bytes"
  have l: "linearize xor_session_cipher (Some 165) [?m] = Some ?x"
    by (simp add: encode_def sizeof_PacketHeader_def xor_session_cipher_def Xor_Encrypt_def)
  have wf: "\<forall>m \<in> set [?m]. wf_packet m" by (simp add: wf_packet_def header_size_def sizeof_PacketHeader_def)
  have h: "header_size ?x = 5" "frames 65535 [] = ([], [], True)" by (simp_all add: header_size_def frames.simps sizeof_PacketHeader_def)
  have fr: "frames 65535 ?x = ([?x], [], True)" by (simp add: frames.simps [of _ ?x] h sizeof_PacketHeader_def)
  note e = stress_buffer
  obtain b' s' where r: "stress_reads demo_proto [?x] (RecvBuffer 131072, demo_client) = Some (b', s')"
    using client_read_frames [OF e(1), of ?x 65535 "[?x]" "[]" stress_bad_size "stress_HandlePacket demo_proto" demo_client] fr e
    by (auto simp: stress_OnRead_def stress_bad_size_def sizeof_PacketHeader_def)
  note t = stress_client_interoperates [OF l wf _ r, of "[7]" 104]
  have s': "s' = stress_packet_in demo_proto 101 [1] demo_client" and
    d: "decode xor_session_cipher (Some 165) (stress_packet 104 [7]) = Some (le_bytes 2 (5 :: u16) @ le_bytes 2 (104 :: u16) @ [7])"
    using t by (simp_all add: sizeof_PacketHeader_def header_id_def)
  have "le_bytes 2 (5 :: u16) @ le_bytes 2 (104 :: u16) = [5, 0, 104, 0]" by (simp add: le_bytes_def upt_rec)
  then show ?thesis using r s' d
    by (simp add: stress_packet_in_def demo_proto_def demo_client_def StressTestClient_def stress_SendJoinRoom_def stress_SendPacket_def Let_def)
qed

text \<open>The counter of \<open>Update\<close> is shared, so with ten clients in a room the tenth sends a ping in every round and the others never.\<close>

fun update_all :: "stress_proto \<Rightarrow> int \<Rightarrow> nat \<Rightarrow> stress list \<Rightarrow> nat \<times> stress list" where
  "update_all PB now counter [] = (counter, [])"
| "update_all PB now counter (s # ss) =
     (let (c1, s1) = stress_Update PB now counter s; (c2, ss1) = update_all PB now c1 ss in (c2, s1 # ss1))"

definition playing :: "stress \<Rightarrow> bool" where
  "playing s \<longleftrightarrow> st_isConnected s \<and> st_isInRoom s \<and> st_isReady s"

lemma update_all_pings:
  assumes "\<forall>s \<in> set ss. playing s"
  shows "update_all PB now counter ss = (counter + length ss,
    map (\<lambda>(k, s). stress_SendMove PB (if (counter + k + 1) mod 10 = 0 then stress_SendPing PB now s else s)) (enumerate 0 ss))"
  using assms
proof (induction ss arbitrary: counter)
  case (Cons s ss)
  then show ?case by (simp add: stress_Update_def playing_def enumerate_Suc_eq o_def case_prod_beta Let_def)
qed simp

lemma only_tenth_client_pings:
  assumes "\<forall>s \<in> set ss. playing s" "length ss = 10" "counter mod 10 = 0" "k < 10"
  shows "fst (update_all PB now counter ss) mod 10 = 0" "snd (update_all PB now counter ss) ! k =
    (if k = 9 then stress_SendMove PB (stress_SendPing PB now (ss ! k)) else stress_SendMove PB (ss ! k))"
proof -
  have "(counter + k + 1) mod 10 = (k + 1) mod 10" using assms(3) by (metis add.assoc mod_add_left_eq add_0)
  then have "(counter + k + 1) mod 10 = 0 \<longleftrightarrow> k = 9" using assms(4) by (cases "k = 9") auto
  then show "fst (update_all PB now counter ss) mod 10 = 0" "snd (update_all PB now counter ss) ! k =
      (if k = 9 then stress_SendMove PB (stress_SendPing PB now (ss ! k)) else stress_SendMove PB (ss ! k))"
    using update_all_pings [OF assms(1), of PB now counter] assms(2-4) by (simp_all add: nth_enumerate_eq)
qed

section \<open>The tick synchronisation client\<close>

text \<open>Conversions of \<open>float\<close>: seconds from microseconds, truncation to 32 bits, and from an integer.\<close>

record 'f tick_float =
  tf_seconds :: "int \<Rightarrow> 'f"
  tf_u32 :: "'f \<Rightarrow> u32"
  tf_of_int :: "int \<Rightarrow> 'f"

datatype tick_msg = Tk_Login string string | Tk_JoinRoom int | Tk_GameReady | Tk_Ping int

text \<open>Parsing gets \<open>None\<close> for a payload whose length has wrapped around.\<close>

record 'f tick_proto =
  tp_ser :: "tick_msg \<Rightarrow> bytes"
  tp_S_Login :: "bytes option \<Rightarrow> (bool \<times> u32 \<times> 'f \<times> u32) option"
  tp_S_JoinRoom :: "bytes option \<Rightarrow> bool option"
  tp_S_DebugServerTick :: "bytes option \<Rightarrow> u32 option"
  tp_S_MoveObjectBatch :: "bytes option \<Rightarrow> u32 option"
  tp_S_Pong :: "bytes option \<Rightarrow> int option"

text \<open>\<open>g_SyncState\<close>, the flags of \<open>main\<close>, the packets written and the reported pairs of server and client tick.\<close>

record 'f tick_client =
  tk_initialServerTick :: u32
  tk_tickInterval :: 'f
  tk_tickRate :: u32
  tk_tickStartTime :: int
  tk_synced :: bool
  tk_lastPingTimestamp :: int
  tk_rttMs :: 'f
  tk_loggedIn :: bool
  tk_joinedRoom :: bool
  tk_sentGameReady :: bool
  tk_lastPingTime :: int
  tk_moveCount :: int
  tk_out :: "bytes list"
  tk_reports :: "(u32 \<times> u32) list"

definition GetCurrentClientTick :: "('f::inverse) tick_float \<Rightarrow> int \<Rightarrow> 'f tick_client \<Rightarrow> u32" where
  "GetCurrentClientTick F nowUs s =
     (if \<not> tk_synced s then 0
      else tk_initialServerTick s + tf_u32 F (tf_seconds F (nowUs - tk_tickStartTime s) / tk_tickInterval s))"

definition tick_packet :: "u16 \<Rightarrow> bytes \<Rightarrow> bytes" where
  "tick_packet i payload = le_bytes 2 (of_nat (sizeof_PacketHeader + length payload) :: u16) @ le_bytes 2 i @ payload"

definition tick_SendPacket :: "'f tick_proto \<Rightarrow> u16 \<Rightarrow> tick_msg \<Rightarrow> 'f tick_client \<Rightarrow> 'f tick_client" where
  "tick_SendPacket PB i msg s = s\<lparr>tk_out := tk_out s @ [tick_packet i (tp_ser PB msg)]\<rparr>"

definition tick_HandlePacket :: "('f::inverse) tick_float \<Rightarrow> 'f tick_proto \<Rightarrow> int \<Rightarrow> u16 \<Rightarrow> bytes option \<Rightarrow> 'f tick_client \<Rightarrow> 'f tick_client" where
  "tick_HandlePacket F PB nowUs i payload s =
     (if i = 101 then
        (case tp_S_Login PB payload of
           Some (True, serverTick, interval, rate) \<Rightarrow>
             tick_SendPacket PB 104 (Tk_JoinRoom 1)
               (s\<lparr>tk_initialServerTick := serverTick, tk_tickInterval := interval, tk_tickRate := rate, tk_tickStartTime := nowUs, tk_synced := True,
                  tk_loggedIn := True\<rparr>)
         | _ \<Rightarrow> s)
      else if i = 105 then
        (case tp_S_JoinRoom PB payload of
           Some True \<Rightarrow> (tick_SendPacket PB 114 Tk_GameReady (s\<lparr>tk_joinedRoom := True\<rparr>))\<lparr>tk_sentGameReady := True\<rparr>
         | _ \<Rightarrow> s)
      else if i = 904 then
        (case tp_S_DebugServerTick PB payload of
           Some t \<Rightarrow> s\<lparr>tk_reports := tk_reports s @ [(t, GetCurrentClientTick F nowUs s)]\<rparr>
         | None \<Rightarrow> s)
      else if i = 202 then
        (case tp_S_MoveObjectBatch PB payload of
           Some t \<Rightarrow>
             let n = tk_moveCount s + 1; s1 = s\<lparr>tk_moveCount := n\<rparr>
             in if n mod 30 = 0 then s1\<lparr>tk_reports := tk_reports s1 @ [(t, GetCurrentClientTick F nowUs s1)]\<rparr> else s1
         | None \<Rightarrow> s)
      else if i = 903 then
        (case tp_S_Pong PB payload of
           Some t \<Rightarrow> s\<lparr>tk_rttMs := tf_of_int F (nowUs div 1000 - t)\<rparr>
         | None \<Rightarrow> s)
      else s)"

definition tick_bad_size :: "nat \<Rightarrow> bool" where
  "tick_bad_size n \<longleftrightarrow> 10240 < n"

definition PING_INTERVAL_SEC :: int where "PING_INTERVAL_SEC = 5"

definition tick_ping :: "'f tick_proto \<Rightarrow> int \<Rightarrow> 'f tick_client \<Rightarrow> 'f tick_client" where
  "tick_ping PB nowUs s =
     (if tk_sentGameReady s \<and> (nowUs - tk_lastPingTime s) div 1000000 \<ge> PING_INTERVAL_SEC
      then tick_SendPacket PB 902 (Tk_Ping (nowUs div 1000)) (s\<lparr>tk_lastPingTime := nowUs, tk_lastPingTimestamp := nowUs div 1000\<rparr>)
      else s)"

text \<open>The state before the loop of \<open>main\<close>, after the login is sent; the arguments are the literals \<open>0.04f\<close> and \<open>0.0f\<close>.\<close>

definition tick_main :: "'f tick_proto \<Rightarrow> 'f \<Rightarrow> 'f \<Rightarrow> int \<Rightarrow> recv_buffer \<times> 'f tick_client" where
  "tick_main PB f0_04 f0 nowUs = (RecvBuffer 65536,
     tick_SendPacket PB 100 (Tk_Login ''TickSyncTest_CPP'' ''test123'')
       \<lparr>tk_initialServerTick = 0, tk_tickInterval = f0_04, tk_tickRate = 25, tk_tickStartTime = 0, tk_synced = False, tk_lastPingTimestamp = 0, tk_rttMs = f0,
        tk_loggedIn = False, tk_joinedRoom = False, tk_sentGameReady = False, tk_lastPingTime = nowUs, tk_moveCount = 0, tk_out = [], tk_reports = []\<rparr>)"

datatype read_result = Would_block | Read_error | Read bytes

text \<open>One turn of the loop of \<open>main\<close>: \<open>Some None\<close> when the program ends, \<open>None\<close> when the inner loop does not.\<close>

definition tick_turn ::
  "('f::inverse) tick_float \<Rightarrow> 'f tick_proto \<Rightarrow> int \<Rightarrow> read_result \<Rightarrow> recv_buffer \<times> 'f tick_client \<Rightarrow> (recv_buffer \<times> 'f tick_client) option option" where
  "tick_turn F PB nowUs r bs = (case r of
      Read_error \<Rightarrow> Some None
    | _ \<Rightarrow> map_option (\<lambda>(ok, b, s). if ok then Some (b, tick_ping PB nowUs s) else None)
            (client_read tick_bad_size tidy_when_half (tick_HandlePacket F PB nowUs) (case r of Read xs \<Rightarrow> xs | _ \<Rightarrow> []) bs))"

text \<open>The buffer always has room for the next read, because what is left of a packet is at most 10240 bytes.\<close>

lemma tick_buffer_has_room:
  assumes "rb_ok b" "capacity b = 65536" "length (rb_data b) \<le> 10240"
  shows "22528 \<le> FreeSize (tidy_when_half b)"
  using assms move_front_ok [OF assms(1)] rb_data_length [OF assms(1)]
  by (auto simp: tidy_when_half_def FreeSize_def DataSize_def rb_ok_def)

text \<open>The client says it is ready only after it was admitted to the room, and pings only then.\<close>

definition tick_ok :: "'f tick_client \<Rightarrow> bool" where
  "tick_ok s \<longleftrightarrow> (tk_sentGameReady s \<longrightarrow> tk_joinedRoom s) \<and> (tk_loggedIn s \<longrightarrow> tk_synced s)"

lemma tick_main_ok: "tick_ok (snd (tick_main PB f0_04 f0 now))"
  by (simp add: tick_main_def tick_SendPacket_def tick_ok_def)

lemma tick_HandlePacket_ok: "tick_ok s \<Longrightarrow> tick_ok (tick_HandlePacket F PB now i payload s)"
  by (auto simp: tick_HandlePacket_def tick_SendPacket_def tick_ok_def Let_def split: option.splits bool.splits)

lemma tick_ping_ok: "tick_ok s \<Longrightarrow> tick_ok (tick_ping PB now s)"
  "tk_out (tick_ping PB now s) \<noteq> tk_out s \<Longrightarrow> tk_sentGameReady s"
  by (auto simp: tick_ping_def tick_SendPacket_def tick_ok_def split: if_splits)

text \<open>A packet with size zero stops the client, in an endless loop.\<close>

lemma tick_zero_size_hangs:
  assumes "rb_ok b" "rb_data b = []" "int (length xs) \<le> FreeSize b" "sizeof_PacketHeader \<le> length xs" "header_size xs = 0"
  shows "tick_turn F PB now (Read xs) (b, s) = None"
proof -
  let ?b = "snd (recv_fill xs b)"
  have b: "rb_ok ?b" "rb_data ?b = xs" using client_stream.fill_ok [OF assms(1,3)] assms(2) by auto
  have "client_loop tick_bad_size (tick_HandlePacket F PB now) ?b s = None"
  proof (rule zero_header_loops)
    show "int sizeof_PacketHeader \<le> DataSize ?b" using rb_data_length [OF b(1)] b(2) assms(4) by simp
    show "header_size (ReadPos ?b) = 0" using header_size_data [OF b(1)] b(2) assms(4,5) by simp
  qed (simp add: tick_bad_size_def)
  then show ?thesis by (simp add: tick_turn_def client_read_def)
qed

section \<open>The echo client and its server\<close>

record latency =
  lt_total :: int
  lt_samples :: int
  lt_min :: int
  lt_max :: int

definition no_latency :: latency where
  "no_latency = \<lparr>lt_total = 0, lt_samples = 0, lt_min = 2 ^ 63 - 1, lt_max = 0\<rparr>"

definition UpdateMinLatency :: "int \<Rightarrow> latency \<Rightarrow> latency" where
  "UpdateMinLatency v l = (if v < lt_min l then l\<lparr>lt_min := v\<rparr> else l)"

definition UpdateMaxLatency :: "int \<Rightarrow> latency \<Rightarrow> latency" where
  "UpdateMaxLatency v l = (if v > lt_max l then l\<lparr>lt_max := v\<rparr> else l)"

definition add_sample :: "int \<Rightarrow> latency \<Rightarrow> latency" where
  "add_sample rtt l =
     (if 0 < rtt \<and> rtt < 10000000
      then UpdateMaxLatency rtt (UpdateMinLatency rtt (l\<lparr>lt_total := lt_total l + rtt, lt_samples := lt_samples l + 1\<rparr>))
      else l)"

record ClientSession =
  dm_connected :: int
  dm_recvCount :: int
  dm_sendCount :: int
  dm_latency :: latency
  dm_isRunning :: bool
  dm_open :: bool
  dm_sendStopped :: bool
  dm_wire :: "bytes list"

text \<open>The time stamp of a payload, a signed 64-bit number; \<open>beyond\<close> is what lies behind a header whose size is too small.\<close>

definition stamp_of :: "bytes \<Rightarrow> int" where
  "stamp_of payload = sint (le_word (take 8 payload) :: u64)"

definition dummy_HandlePacket :: "bytes \<Rightarrow> int \<Rightarrow> u16 \<Rightarrow> bytes option \<Rightarrow> ClientSession \<Rightarrow> ClientSession" where
  "dummy_HandlePacket beyond nowUs i payload s =
     (let p = (case payload of Some p \<Rightarrow> p | None \<Rightarrow> beyond)
      in s\<lparr>dm_latency := (if payload = None \<or> 8 \<le> length p then add_sample (nowUs - stamp_of p) (dm_latency s) else dm_latency s),
           dm_recvCount := dm_recvCount s + 1\<rparr>)"

definition dummy_OnRead :: "bytes \<Rightarrow> int \<Rightarrow> bool \<Rightarrow> bytes \<Rightarrow> recv_buffer \<times> ClientSession \<Rightarrow> (bool \<times> recv_buffer \<times> ClientSession) option" where
  "dummy_OnRead beyond nowUs ec xs bs =
     (if ec then Some (False, bs)
      else client_read (\<lambda>n. 1024 * 10 < n) tidy_when_full (dummy_HandlePacket beyond nowUs) xs bs)"

definition dummy_packet :: "int \<Rightarrow> bytes" where
  "dummy_packet nowUs =
     (let payload = le_bytes 8 (word_of_int nowUs :: u64) @ map (\<lambda>ch. word_of_nat (of_char ch)) ''Hello''
      in le_bytes 2 (of_nat (sizeof_PacketHeader + length payload) :: u16) @ le_bytes 2 (2000 :: u16) @ payload)"

definition dummy_SendLoop :: "int \<Rightarrow> ClientSession \<Rightarrow> ClientSession" where
  "dummy_SendLoop nowUs s =
     (if \<not> dm_open s \<or> \<not> dm_isRunning s \<or> dm_sendStopped s then s else s\<lparr>dm_wire := dm_wire s @ [dummy_packet nowUs]\<rparr>)"

definition dummy_OnWrite :: "bool \<Rightarrow> int \<Rightarrow> ClientSession \<Rightarrow> ClientSession" where
  "dummy_OnWrite ec nowUs s = (if ec then s else dummy_SendLoop nowUs (s\<lparr>dm_sendCount := dm_sendCount s + 1\<rparr>))"

definition dummy_OnConnect :: "bool \<Rightarrow> int \<Rightarrow> ClientSession \<Rightarrow> ClientSession" where
  "dummy_OnConnect ec nowUs s = (if ec then s else dummy_SendLoop nowUs (s\<lparr>dm_connected := dm_connected s + 1, dm_open := True\<rparr>))"

definition dummy_StopSending :: "ClientSession \<Rightarrow> ClientSession" where
  "dummy_StopSending s = s\<lparr>dm_sendStopped := True\<rparr>"

definition dummy_Close :: "ClientSession \<Rightarrow> ClientSession" where
  "dummy_Close s = (if dm_open s then s\<lparr>dm_open := False\<rparr> else s)"

text \<open>The counters of \<open>main\<close>. A reading is what \<open>exchange(0)\<close> gives for the two counters in one second: packets sent and packets received.\<close>

fun measure_seconds :: "(int \<times> int) list \<Rightarrow> int \<times> int \<Rightarrow> int \<times> int" where
  "measure_seconds [] totals = totals"
| "measure_seconds ((sent, recv) # rs) (totalSent, totalRecv) = measure_seconds rs (totalSent + sent, totalRecv + recv)"

text \<open>The grace period after sending has stopped: at most thirty seconds, and it ends after two seconds in a row with nothing received.\<close>

fun grace :: "nat \<Rightarrow> nat \<Rightarrow> (int \<times> int) list \<Rightarrow> int \<times> int \<Rightarrow> nat \<times> int \<times> int" where
  "grace 0 zeros rs totals = (0, totals)"
| "grace (Suc i) zeros [] totals = (0, totals)"
| "grace (Suc i) zeros ((sent, recv) # rs) (totalSent, totalRecv) =
     (let zeros' = (if recv = 0 then zeros + 1 else 0); totals' = (totalSent + sent, totalRecv + recv)
      in if 2 \<le> zeros' then (1, totals') else (let (n, t) = grace i zeros' rs totals' in (n + 1, t)))"

definition dummy_main :: "(int \<times> int) list \<Rightarrow> (int \<times> int) list \<Rightarrow> nat \<times> int \<times> int" where
  "dummy_main running after = grace 30 0 after (measure_seconds running (0, 0))"

text \<open>The packet handler of the benchmark server: the payload comes back under the other id.\<close>

definition echo_HandlePacket :: "u16 \<Rightarrow> bytes \<Rightarrow> (u16 \<times> bytes) option" where
  "echo_HandlePacket i payload = (if i = 2000 then Some (2001, payload) else None)"

text \<open>What the client reports: the average lies between the minimum and the maximum.\<close>

lemma latency_bounds:
  fixes rtts
  defines "l \<equiv> fold add_sample rtts no_latency"
  shows "0 \<le> lt_samples l" "lt_min l * lt_samples l \<le> lt_total l" "lt_total l \<le> lt_max l * lt_samples l"
proof -
  define ok where "ok (l :: latency) \<longleftrightarrow> 0 \<le> lt_samples l \<and> 0 \<le> lt_max l \<and> lt_min l * lt_samples l \<le> lt_total l \<and> lt_total l \<le> lt_max l * lt_samples l" for l
  have step: "ok (add_sample v l)" if "ok l" for v l
  proof (cases "0 < v \<and> v < 10000000")
    case True
    let ?mn = "min v (lt_min l)" and ?mx = "max v (lt_max l)"
    have "?mn * lt_samples l \<le> lt_min l * lt_samples l" "lt_max l * lt_samples l \<le> ?mx * lt_samples l"
      using that by (simp_all add: ok_def mult_right_mono)
    moreover have "?mn \<le> v" "v \<le> ?mx" by simp_all
    ultimately have "?mn * (lt_samples l + 1) \<le> lt_total l + v" "lt_total l + v \<le> ?mx * (lt_samples l + 1)"
      using that unfolding ok_def distrib_left mult_1_right by linarith+
    then show ?thesis using that True
      by (auto simp: ok_def add_sample_def UpdateMinLatency_def UpdateMaxLatency_def min_def max_def split: if_splits)
  qed (use that in \<open>auto simp: add_sample_def\<close>)
  have "ok l0 \<Longrightarrow> ok (fold add_sample rtts l0)" for l0 by (induction rtts arbitrary: l0) (simp_all add: step)
  then have "ok l" by (simp add: l_def ok_def no_latency_def)
  then show "0 \<le> lt_samples l" "lt_min l * lt_samples l \<le> lt_total l" "lt_total l \<le> lt_max l * lt_samples l" by (simp_all add: ok_def)
qed

text \<open>The reported totals are the sums of the readings, up to the second in which the grace period ends.\<close>

lemma measure_seconds_sums:
  "measure_seconds rs (a, b) = (a + sum_list (map fst rs), b + sum_list (map snd rs))"
  by (induction rs arbitrary: a b) (auto simp: algebra_simps)

lemma grace_sums:
  assumes "grace i zeros rs (a, b) = (n, t)"
  shows "n \<le> i \<and> t = (a + sum_list (map fst (take n rs)), b + sum_list (map snd (take n rs)))"
  using assms
proof (induction i arbitrary: zeros rs a b n)
  case (Suc i)
  then show ?case
  proof (cases rs)
    case (Cons r rs')
    then show ?thesis using Suc.prems
      by (cases r) (auto simp: Let_def algebra_simps split: if_splits prod.splits dest: Suc.IH)
  qed simp
qed simp

lemma dummy_report:
  assumes "dummy_main running after = (n, sent, recv)"
  shows "n \<le> 30" "sent = sum_list (map fst (running @ take n after))" "recv = sum_list (map snd (running @ take n after))"
  using grace_sums [of 30 0 after] assms by (auto simp: dummy_main_def measure_seconds_sums)

text \<open>No packet is sent once sending has stopped.\<close>

lemma stopped_sends_nothing:
  assumes "dm_sendStopped s"
  shows "dm_wire (dummy_OnWrite ec now s) = dm_wire s" "dummy_SendLoop now s = s"
  using assms by (simp_all add: dummy_OnWrite_def dummy_SendLoop_def)

text \<open>A packet that is echoed is measured with the time it took.\<close>

lemma echo_measured:
  assumes "0 \<le> t1" "t1 < t2" "t2 - t1 < 10000000" "t1 < 2 ^ 63" "echo_HandlePacket 2000 (drop sizeof_PacketHeader (dummy_packet t1)) = Some (i, payload)"
  shows "dm_latency (dummy_HandlePacket beyond t2 i (Some payload) s) = add_sample (t2 - t1) (dm_latency s)"
proof -
  have p: "payload = le_bytes 8 (word_of_int t1 :: u64) @ map (\<lambda>ch. word_of_nat (of_char ch)) ''Hello''"
    using assms(5) by (simp add: echo_HandlePacket_def dummy_packet_def sizeof_PacketHeader_def Let_def)
  have "le_word (le_bytes 8 (word_of_int t1 :: u64)) = (word_of_int t1 :: u64)" by (simp add: le_word_bytes take_bit_word_eq_self)
  moreover have "sint (word_of_int t1 :: u64) = t1" using assms(1,4) by transfer (simp add: signed_take_bit_int_eq_self)
  ultimately have "stamp_of payload = t1" by (simp add: p stamp_of_def)
  then show ?thesis using p by (simp add: dummy_HandlePacket_def Let_def)
qed

lemma dummy_zero_size_hangs:
  assumes "rb_ok b" "rb_data b = []" "int (length xs) \<le> FreeSize b" "sizeof_PacketHeader \<le> length xs" "header_size xs = 0"
  shows "dummy_OnRead beyond now False xs (b, s) = None"
proof -
  let ?b = "snd (recv_fill xs b)"
  have b: "rb_ok ?b" "rb_data ?b = xs" using client_stream.fill_ok [OF assms(1,3)] assms(2) by auto
  have "client_loop (\<lambda>n. 1024 * 10 < n) (dummy_HandlePacket beyond now) ?b s = None"
  proof (rule zero_header_loops)
    show "int sizeof_PacketHeader \<le> DataSize ?b" using rb_data_length [OF b(1)] b(2) assms(4) by simp
    show "header_size (ReadPos ?b) = 0" using header_size_data [OF b(1)] b(2) assms(4,5) by simp
  qed simp
  then show ?thesis by (simp add: dummy_OnRead_def client_read_def)
qed

end
