(* ===== verification/Packet_Handlers.thy ===== *)
theory Packet_Handlers
  imports Game_Commands Recv_Buffer
begin

text \<open>
  \<open>GamePacketHandler\<close> (\<open>Core/GamePacketHandler.cpp\<close>): the table from packet ids to handlers and the call of a handler for a
  packet that arrived, with the two handlers that do not touch the rooms (\<open>LoginHandler\<close>, \<open>PongHandler\<close>).  The parsers of
  protobuf are parameters.

  Shown: whatever packet a session sends, with whatever bytes, its handler returns and leaves every room consistent, and a packet
  with an id that has no handler changes nothing.
\<close>

section \<open>The table of handlers\<close>

datatype packet_handler = H_Login | H_EnterLobby | H_CreateRoom | H_GetRoomList | H_JoinRoom | H_LeaveRoom | H_MoveInput | H_GameReady
  | H_Chat | H_SelectLevelUp | H_Ping | H_Pong

definition GamePacketHandler :: "(u16 \<times> packet_handler) list" where
  "GamePacketHandler = fold (\<lambda>(i, h). AList.update i h)
     [(100, H_Login), (110, H_EnterLobby), (102, H_CreateRoom), (106, H_GetRoomList), (104, H_JoinRoom), (112, H_LeaveRoom),
      (203, H_MoveInput), (114, H_GameReady), (120, H_Chat), (402, H_SelectLevelUp), (902, H_Ping), (901, H_Pong)] []"

text \<open>\<open>packet.Parse\<close> for the messages of the client: \<open>None\<close> when it fails.\<close>

record client_parsers =
  get_C_Login :: "bytes \<Rightarrow> (string \<times> string) option"
  get_C_EnterLobby :: "bytes \<Rightarrow> unit option"
  get_C_CreateRoom :: "bytes \<Rightarrow> (string \<times> int) option"
  get_C_GetRoomList :: "bytes \<Rightarrow> bool option"
  get_C_JoinRoom :: "bytes \<Rightarrow> int option"
  get_C_LeaveRoom :: "bytes \<Rightarrow> unit option"
  get_C_MoveInput :: "bytes \<Rightarrow> (u32 \<times> int \<times> int) option"
  get_C_Chat :: "bytes \<Rightarrow> string option"
  get_C_SelectLevelUp :: "bytes \<Rightarrow> int option"
  get_C_Ping :: "bytes \<Rightarrow> int option"

text \<open>The server with what the handlers give to others: the login requests on the event bus, the messages for the topic of the lobby, and the sessions
  whose \<open>OnPong\<close> was called.\<close>

record 'f game =
  gm_server :: "'f server"
  gm_logins :: "(u64 \<times> string \<times> string) list"
  gm_lobbyChat :: "(int \<times> string) list"
  gm_pongs :: "u64 list"

definition LoginHandler :: "u64 \<Rightarrow> (string \<times> string) option \<Rightarrow> 'f game \<Rightarrow> 'f game" where
  "LoginHandler sid req g = (case req of None \<Rightarrow> g | Some (user, password) \<Rightarrow> g\<lparr>gm_logins := gm_logins g @ [(sid, user, password)]\<rparr>)"

definition PongHandler :: "u64 \<Rightarrow> 'f game \<Rightarrow> 'f game" where
  "PongHandler sid g = g\<lparr>gm_pongs := gm_pongs g @ [sid]\<rparr>"

text \<open>What a handler gets from outside: the environment of the game, the commands, the clock and strand of a room, and the player object
  of the pool.\<close>

record 'f packet_env =
  pe_game :: "'f game_env"
  pe_room :: room_in
  pe_popped :: "'f Player option"
  pe_random :: "nat \<Rightarrow> int \<Rightarrow> int"
  pe_commands :: commands
  pe_parse :: client_parsers

definition call_handler ::
  "'f::{zero,plus,minus,uminus,times,inverse,ord} packet_env \<Rightarrow> packet_handler \<Rightarrow> u64 \<Rightarrow> bytes \<Rightarrow> 'f game \<Rightarrow> 'f game option" where
  "call_handler P h sid body g =
     (let E = pe_game P; I = pe_room P; M = pe_parse P; s = gm_server g; on_server = (\<lambda>s1. Some (g\<lparr>gm_server := s1\<rparr>))
      in case h of
           H_Login \<Rightarrow> Some (LoginHandler sid (get_C_Login M body) g)
         | H_EnterLobby \<Rightarrow> on_server (EnterLobbyHandler sid (get_C_EnterLobby M body) s)
         | H_CreateRoom \<Rightarrow> on_server (CreateRoomHandler I sid (get_C_CreateRoom M body) s)
         | H_GetRoomList \<Rightarrow> on_server (GetRoomListHandler sid (get_C_GetRoomList M body) s)
         | H_JoinRoom \<Rightarrow> on_server (JoinRoomHandler E I (pe_popped P) sid (get_C_JoinRoom M body) s)
         | H_LeaveRoom \<Rightarrow> on_server (LeaveRoomHandler sid (get_C_LeaveRoom M body) s)
         | H_MoveInput \<Rightarrow> on_server (MoveInputHandler sid (get_C_MoveInput M body) s)
         | H_GameReady \<Rightarrow> on_server (GameReadyHandler E I sid s)
         | H_Chat \<Rightarrow> map_option (\<lambda>(s1, chat). g\<lparr>gm_server := s1, gm_lobbyChat := gm_lobbyChat g @ chat\<rparr>)
                       (ChatHandler E (pe_random P) (pe_commands P) sid (get_C_Chat M body) s)
         | H_SelectLevelUp \<Rightarrow> on_server (SelectLevelUpHandler sid (get_C_SelectLevelUp M body) s)
         | H_Ping \<Rightarrow> on_server (PingHandler sid (get_C_Ping M body) s)
         | H_Pong \<Rightarrow> Some (PongHandler sid g))"

definition Game_HandlePacket ::
  "'f::{zero,plus,minus,uminus,times,inverse,ord} packet_env \<Rightarrow> u64 \<Rightarrow> u16 \<Rightarrow> bytes \<Rightarrow> 'f game \<Rightarrow> 'f game option" where
  "Game_HandlePacket P sid i body g =
     (case map_of GamePacketHandler i of None \<Rightarrow> Some g | Some h \<Rightarrow> call_handler P h sid body g)"

section \<open>Every packet keeps the rooms consistent\<close>

lemma rooms_ok_simps [simp]:
  "rooms_ok (Reply sid m s) = rooms_ok s" "rooms_ok (Publish e s) = rooms_ok s" "rooms_ok (EnterLobby sid s) = rooms_ok s"
  "rooms_ok (s\<lparr>sv_nextRoomId := n\<rparr>) = rooms_ok s"
  by (simp_all add: rooms_ok_def Reply_def Publish_def EnterLobby_def)

lemma rooms_ok_update:
  "rooms_ok s \<Longrightarrow> room_ok r \<Longrightarrow> sv_rooms s' = AList.update rid (t, m, r) (sv_rooms s) \<Longrightarrow> rooms_ok s'"
  by (auto simp: rooms_ok_def dest!: set_alist_update)

lemma room_op_ok:
  assumes "\<And>r. room_step E r (f r)" "rooms_ok s"
  shows "rooms_ok (upd_room rid f s)"
  using upd_room_ok [OF assms(2)] room_step_ok [OF assms(1)] by blast

lemma create_keeps_rooms:
  fixes s :: "'f::{zero,plus,minus,uminus,times,inverse,ord} server"
  assumes "rooms_ok s"
  shows "rooms_ok (CreateRoomHandler I sid req s)"
proof (cases req)
  case (Some x)
  have "room_ok (Room_Start I (empty_room (sv_nextRoomId s)) :: 'f room)" using room_step_ok [OF step_boot empty_room_ok] .
  then show ?thesis
    using Some by (cases x) (auto simp: CreateRoomHandler_def CreateRoom_def Let_def intro!: rooms_ok_update [OF assms])
qed (simp add: CreateRoomHandler_def assms)

lemma join_keeps_rooms:
  fixes E :: "'f::{zero,plus,minus,uminus,times,inverse,ord} game_env"
  assumes "rooms_ok s" "game_id sid \<le> 1000"
  shows "rooms_ok (JoinRoomHandler E I popped sid req s)"
proof -
  let ?p = "(CreatePlayer E popped (game_id sid) sid)\<lparr> pl_name := ''Survivor_'' @ to_string (game_id sid) \<rparr>"
  have "room_ok (Enter E I a r1)" if "map_of (sv_rooms s) rid = Some (t, m, r)" "new_obj (PlayerObj ?p) r = (a, r1)" for rid t m r a r1
    using room_step_ok [OF step_join [OF assms(2) that(2), of I]] rooms_okD [OF assms(1), of rid r] that(1) by (simp add: GetRoom_def)
  then show ?thesis
    using assms(1) by (auto simp: JoinRoomHandler_def Let_def Reply_def intro!: rooms_ok_update [OF assms(1)] split: option.split prod.split)
qed

lemma post_keeps_rooms:
  fixes s :: "'f::{zero,plus,minus,uminus,times,inverse,ord} server" and E :: "'f game_env"
  assumes "\<And>a r. room_step E r (Post_if (t a) r)" "rooms_ok s"
  shows "rooms_ok (post_to_room sid t s)"
  using assms(2) room_op_ok [where f = "Post_if (t a)" for a, OF assms(1)] by (auto simp: post_to_room_def split: option.split)

lemma input_keeps_rooms:
  fixes s :: "'f::{zero,plus,minus,uminus,times,inverse,ord} server" and E :: "'f game_env"
  assumes "rooms_ok s"
  shows "rooms_ok (MoveInputHandler sid mv s)" "rooms_ok (SelectLevelUpHandler sid sel s)" "rooms_ok (GameReadyHandler E I sid s)"
proof -
  have "room_step E r (Post_if (DoInput a tick dx dy) r)" "room_step E r (Post_if (DoSelect a idx) r)" for r a tick dx dy idx
    by (rule step_command, simp)+
  note p = this
  show "rooms_ok (MoveInputHandler sid mv s)"
    using assms post_keeps_rooms [OF p(1) assms] by (auto simp: MoveInputHandler_def split: option.split)
  show "rooms_ok (SelectLevelUpHandler sid sel s)"
    using assms post_keeps_rooms [OF p(2) assms] by (auto simp: SelectLevelUpHandler_def split: option.split)
  show "rooms_ok (GameReadyHandler E I sid s)"
    using assms room_op_ok [OF step_ready assms] by (auto simp: GameReadyHandler_def split: option.split)
qed

lemma chat_keeps_rooms:
  assumes "rooms_ok s" "registered_ok s"
  shows "\<exists>s' chat. ChatHandler E dis cs sid req s = Some (s', chat) \<and> rooms_ok s'"
proof -
  have ex: "\<exists>s'. Commands_Execute E dis cs ctx line s = Some s' \<and> rooms_ok s'" for ctx line
    using assms(1) run_command_ok [OF assms, of E dis ctx] by (fastforce simp: Commands_Execute_def split: list.split option.split)
  show ?thesis
  proof (cases "req = None \<or> IsInLobby s sid \<or> GetPlayer s sid = None")
    case True
    then show ?thesis using assms(1) by (auto simp: ChatHandler_def split: option.split)
  next
    case False
    then obtain msg ptr where r: "req = Some msg" "GetPlayer s sid = Some ptr" by auto
    let ?rid = "case Option.bind (GetRoom s (fst ptr)) (\<lambda>r. player_at r (snd ptr)) of None \<Rightarrow> 0 | Some p \<Rightarrow> pl_currentRoomId p"
    obtain s1 where "Commands_Execute E dis cs \<lparr> cc_sessionId = sid, cc_roomId = ?rid, cc_isGM = True \<rparr> msg s = Some s1" "rooms_ok s1"
      using ex by blast
    then show ?thesis using r False assms(1) by (simp add: ChatHandler_def Let_def)
  qed
qed

text \<open>Whatever packet a session sends, with whatever bytes and whatever the parsers make of them, its handler returns and every room
  stays consistent; a packet with an unknown id changes nothing at all.\<close>

theorem every_packet_keeps_rooms:
  assumes "rooms_ok (gm_server g)" "registered_ok (gm_server g)" "game_id sid \<le> 1000"
  shows "\<exists>g'. Game_HandlePacket P sid i body g = Some g' \<and> rooms_ok (gm_server g') \<and>
    (i \<notin> {100, 102, 104, 106, 110, 112, 114, 120, 203, 402, 901, 902} \<longrightarrow> g' = g)"
proof -
  have "\<exists>g'. call_handler P h sid body g = Some g' \<and> rooms_ok (gm_server g')" for h
    using assms(1) create_keeps_rooms [OF assms(1)] join_keeps_rooms [OF assms(1,3)] input_keeps_rooms [OF assms(1)]
      chat_keeps_rooms [OF assms(1,2), of "pe_game P" "pe_random P" "pe_commands P" sid "get_C_Chat (pe_parse P) body"]
    by (cases h) (auto simp: call_handler_def Let_def LoginHandler_def PongHandler_def EnterLobbyHandler_def GetRoomListHandler_def
        LeaveRoomHandler_def PingHandler_def split: option.split)
  moreover have "i \<notin> {100, 102, 104, 106, 110, 112, 114, 120, 203, 402, 901, 902} \<Longrightarrow> map_of GamePacketHandler i = None"
    by (auto simp: GamePacketHandler_def)
  ultimately show ?thesis using assms(1) by (cases "map_of GamePacketHandler i") (auto simp: Game_HandlePacket_def)
qed

definition demo_packets :: "rat packet_env" where
  "demo_packets = \<lparr>pe_game = demo_env, pe_room = demo_in, pe_popped = None, pe_random = (\<lambda>_ _. 0), pe_commands = Commands_Init [],
     pe_parse = \<lparr>get_C_Login = (\<lambda>_. None), get_C_EnterLobby = (\<lambda>_. Some ()), get_C_CreateRoom = (\<lambda>_. Some ([], 3)), get_C_GetRoomList = (\<lambda>_. None),
       get_C_JoinRoom = (\<lambda>b. Some (int (length b))), get_C_LeaveRoom = (\<lambda>_. None), get_C_MoveInput = (\<lambda>_. None), get_C_Chat = (\<lambda>_. None),
       get_C_SelectLevelUp = (\<lambda>_. None), get_C_Ping = (\<lambda>_. None)\<rparr>\<rparr>"

theorem every_packet_keeps_rooms_witness:
  "\<exists>g'. Game_HandlePacket demo_packets 7 104 [0] \<lparr>gm_server = quiet_server, gm_logins = [], gm_lobbyChat = [], gm_pongs = []\<rparr> = Some g' \<and>
     rooms_ok (gm_server g') \<and> sv_events (gm_server g') = [RoomJoined 7 1 0]"
proof -
  let ?g = "\<lparr>gm_server = quiet_server, gm_logins = [], gm_lobbyChat = [], gm_pongs = []\<rparr>"
  have m: "map_of GamePacketHandler 104 = Some H_JoinRoom" by (simp add: GamePacketHandler_def)
  obtain g' where g': "Game_HandlePacket demo_packets 7 104 [0] ?g = Some g'" "rooms_ok (gm_server g')"
    using every_packet_keeps_rooms [of ?g 7 demo_packets 104 "[0]"] quiet_server_ok game_id_7 by auto
  then have "sv_events (gm_server g') = [RoomJoined 7 1 0]"
    by (auto simp: Game_HandlePacket_def m call_handler_def demo_packets_def JoinRoomHandler_def quiet_server_def new_server_def GetPlayer_def
        Publish_def Reply_def new_obj_def empty_room_def Let_def)
  with g' show ?thesis by blast
qed

end
