(* ===== verification/Spec2Isabelle.thy ===== *)
theory Spec2Isabelle
  imports Sqlite_Driver Framework_Services Kcp_Wrapper Emitter_Classes Server_Framework
    Room_Manager Timer_Service Aes_Vector Send_Protocol Message_Pool Session_Factory Udp_Network
    Strand_Pool Object_Pool Packet_Build Database_Pool Client_Programs Packet_Handlers
begin

text \<open>
  \<^bold>\<open>A verification of the ToyServer2 server framework and its example game.\<close>

  The program is a C++ game-server framework (\<^verbatim>\<open>src/System\<close>) with an example game on top
  (\<^verbatim>\<open>src/Examples/VampireSurvivor/Server\<close>).  I/O threads run sessions: a session reads bytes into a
  receive buffer, cuts them into packets, decrypts them and posts messages to a dispatcher; packets to
  send go into a lock-free queue that one thread at a time flushes into a socket write.  One logic
  thread runs the dispatcher, which handles messages in batches, runs timers and destroys closed
  sessions once nothing refers to them.  Messages, sessions and UDP send contexts come from pools.
  The game's packet handlers run on the dispatcher; each game room has a strand on which its tasks run
  one after the other: entering and leaving players, and a tick every 40 ms that moves objects, fires
  weapons, resolves collisions, spawns waves and broadcasts positions.

  \<^bold>\<open>Theories of the framework\<close>, in the order they build on each other:

  \<^item> \<open>Prelude\<close>: integer types as words, shared facts.
  \<^item> \<open>Timing_Wheel\<close> (\<^verbatim>\<open>Timer/TimingWheel.h\<close>): the five-level wheel on a heap of shared nodes: \<open>Add\<close>,
    \<open>Cascade\<close>, \<open>Advance\<close>, \<open>Remove\<close>.  The locale \<open>tick_queue\<close> is the contract the service relies on.
  \<^item> \<open>Timer_Service\<close> (\<^verbatim>\<open>Timer/TimerImpl.cpp\<close>): setting, cancelling and expiring timers over the wheel;
    refinement of an abstract timer table.
  \<^item> \<open>Packet_Cipher\<close>, \<open>Aes_Vector\<close> (\<^verbatim>\<open>Network/XorEncryption.h\<close>, \<^verbatim>\<open>Network/AesEncryption.cpp\<close>): the two
    ciphers byte for byte; locale \<open>packet_cipher\<close>, interpreted for both.
  \<^item> \<open>Recv_Buffer\<close> (\<^verbatim>\<open>Network/RecvBuffer.cpp\<close>, \<^verbatim>\<open>Packet/PacketHeader.h\<close>): the sliding receive buffer and
    the splitting of a byte stream into packets; locale \<open>byte_stream\<close>.
  \<^item> \<open>Concurrent_Queue\<close>: the third-party queue as a record of functions with the laws its
    documentation gives, and a list that satisfies them.
  \<^item> \<open>Message_Pool\<close> (\<^verbatim>\<open>Dispatcher/MessagePool.cpp\<close>): three levels of blocks, thread caches, reference
    counts of messages.
  \<^item> \<open>Byte_Buffer\<close>, \<open>Packet_Build\<close> (\<^verbatim>\<open>Network/ByteBuffer.h\<close>, \<^verbatim>\<open>Packet/PacketBase.h\<close>, \<^verbatim>\<open>PacketBuilder.h\<close>,
    \<^verbatim>\<open>PacketBroadcast.h\<close>, \<^verbatim>\<open>PacketPtr.h\<close>, \<^verbatim>\<open>PacketView.h\<close>): serialisation of messages into pool blocks, counted
    handles, broadcasts that share one message.
  \<^item> \<open>Object_Pool\<close> (\<^verbatim>\<open>Memory/SimplePool.h\<close>, \<^verbatim>\<open>ObjectPool.h\<close>, \<^verbatim>\<open>LockFreeObjectPool.h\<close>, \<^verbatim>\<open>RefPtr.h\<close>): pools of
    objects and the pointers that count references; the locale \<open>object_pool\<close> is the contract of the
    pools and is interpreted for both kinds.
  \<^item> \<open>Strand_Pool\<close> (\<^verbatim>\<open>Thread/ThreadPool.cpp\<close>, \<^verbatim>\<open>Thread/Strand.h\<close>): the thread pool and the strands on it, as
    atomic steps of any number of threads.
  \<^item> \<open>Database_Pool\<close> (\<^verbatim>\<open>Database/DatabaseImpl.cpp\<close>, \<^verbatim>\<open>DatabaseRegistry.cpp\<close>): pooled connections, the objects
    that own them, transactions and asynchronous jobs.
  \<^item> \<open>Session_Base\<close>, \<open>Gateway_Session\<close>, \<open>Backend_Session\<close> (\<^verbatim>\<open>Session/Session.cpp\<close>,
    \<^verbatim>\<open>GatewaySession.cpp\<close>, \<^verbatim>\<open>BackendSession.cpp\<close>): every handler of the TCP sessions on an explicit
    state that includes the operations in flight.
  \<^item> \<open>Send_Protocol\<close>: \<open>EnqueueSend\<close> and \<open>Flush\<close> again, as atomic steps of any number of threads.
  \<^item> \<open>Udp_Registry\<close>, \<open>Udp_Session\<close>, \<open>Udp_Network\<close> (\<^verbatim>\<open>Network/UDPEndpointRegistry.cpp\<close>,
    \<^verbatim>\<open>Session/UDPSession.cpp\<close>, \<^verbatim>\<open>Session/UDP/KCPAdapter.cpp\<close>, \<^verbatim>\<open>Network/UDPNetworkImpl.cpp\<close>,
    \<^verbatim>\<open>Network/UDPSendContextPool.cpp\<close>): datagrams, peers, tokens, contexts.
  \<^item> \<open>Session_Pool\<close>, \<open>Session_Factory\<close> (\<^verbatim>\<open>Session/SessionPool.h\<close>, \<^verbatim>\<open>Session/SessionFactory.cpp\<close>,
    \<^verbatim>\<open>Session/SessionContext.cpp\<close>): creation, reuse and destruction of sessions; the locale
    \<open>destroyable_sessions\<close> of the dispatcher is interpreted here.
  \<^item> \<open>Dispatcher\<close> (\<^verbatim>\<open>Dispatcher/DISPATCHER/DispatcherImpl.cpp\<close>): batches, the session registry, deferred
    destruction.
  \<^item> \<open>Tcp_Network\<close> (\<^verbatim>\<open>Network/NetworkImpl.cpp\<close>, \<^verbatim>\<open>WebSocketNetworkImpl.cpp\<close>, \<^verbatim>\<open>WebSocketSession.cpp\<close>): the acceptors and
    the WebSocket sessions.
  \<^item> \<open>Kcp_Wrapper\<close> (\<^verbatim>\<open>Session/UDP/KCPWrapper.cpp\<close>): the small protocol of the tests.
  \<^item> \<open>Client_Programs\<close> (\<^verbatim>\<open>Tools/StressTest/StressTestClient.cpp\<close>, \<^verbatim>\<open>TickSyncClient/main.cpp\<close>,
    \<^verbatim>\<open>DummyClient/main.cpp\<close>, \<^verbatim>\<open>GameServer/ServerPacketHandler.h\<close>): the test clients with their own receive loops and the echo
    server; the locale \<open>byte_stream\<close> is interpreted for their buffer.
  \<^item> \<open>Text_Numbers\<close>: numbers and words in texts, as the C++ library reads and writes them.
  \<^item> \<open>Sqlite_Driver\<close>, \<open>Mysql_Driver\<close> (\<^verbatim>\<open>Drivers/SQLite\<close>, \<^verbatim>\<open>Drivers/MySQL\<close>): connections, statements and result sets over
    the client libraries; the locale \<open>pooled_connection\<close> says what the pool needs of a driver and is interpreted
    for both.
  \<^item> \<open>Message_Queue\<close> (\<^verbatim>\<open>MQ/RedisStreamDriver.cpp\<close>, \<^verbatim>\<open>NatsDriver.cpp\<close>, \<^verbatim>\<open>MessageSystem.cpp\<close>): publishing and subscribing.
  \<^item> \<open>Framework_Services\<close> (\<^verbatim>\<open>Network/RateLimiter.h\<close>, \<^verbatim>\<open>Events/EventBus.h\<close>, \<^verbatim>\<open>Metrics/MetricsCollector.cpp\<close>): the token
    bucket, the event bus as atomic steps of any number of threads, counters and gauges.
  \<^item> \<open>Server_Framework\<close> (\<^verbatim>\<open>Config/Json/JsonConfigLoader.cpp\<close>, \<^verbatim>\<open>Framework/Framework.cpp\<close>, \<^verbatim>\<open>Core/ServerApp.cpp\<close>): how a server is
    configured, put together from the parts above, started and stopped.

  \<^bold>\<open>Theories of the game\<close>:

  \<^item> \<open>Game_Data\<close> (\<^verbatim>\<open>Core/DataManager.cpp\<close>): templates, their loaders and tables; the float operations.
  \<^item> \<open>Inventory\<close> (\<^verbatim>\<open>Entity/PlayerInventory.cpp\<close>, \<^verbatim>\<open>Game/LevelUpManager.cpp\<close>): slots and level-up options.
    The locale \<open>item_slots\<close> states what weapons and passives share and is interpreted for both.
  \<^item> \<open>Stat_Modifiers\<close> (\<^verbatim>\<open>Entity/ModifierContainer.cpp\<close>), \<open>Fast_Random\<close> (\<^verbatim>\<open>Utility/FastRandom.h\<close>).
  \<^item> \<open>Game_World\<close> (\<^verbatim>\<open>Entity/GameObject.h\<close>, \<^verbatim>\<open>Game/ObjectManager.h\<close>, the sending part of
    \<^verbatim>\<open>Game/Room_Update.cpp\<close>): objects, messages, the state of a room; \<open>Spatial_Grid\<close>
    (\<^verbatim>\<open>Game/SpatialGrid.cpp\<close>): the wrapped grid and its range query.
  \<^item> \<open>Game_Monster\<close>, \<open>Monster_Movement\<close> (\<^verbatim>\<open>Entity/Monster.cpp\<close>, \<^verbatim>\<open>Entity/Projectile.cpp\<close>, \<^verbatim>\<open>Entity/AI\<close>):
    monsters, projectiles, gems, the six movement strategies and the four behaviours.
  \<^item> \<open>Game_Player\<close>, \<open>Game_Emitter\<close> (\<^verbatim>\<open>Entity/Player.cpp\<close>, \<^verbatim>\<open>Game/DamageEmitter.cpp\<close>): players, experience,
    weapons; \<open>Emitter_Classes\<close> (\<^verbatim>\<open>Game/Emitter\<close>, \<^verbatim>\<open>AI/BehaviorTree\<close>): the same weapons as classes of their own, shown to
    agree, and the nodes of behaviour trees.
  \<^item> \<open>Tile_Map\<close> (\<^verbatim>\<open>Game/TileMap.cpp\<close>), \<open>Game_Effects\<close> (\<^verbatim>\<open>Game/Effect/EffectManager.cpp\<close>), \<open>Game_Waves\<close>
    (\<^verbatim>\<open>Game/WaveManager.cpp\<close>), \<open>Game_Combat\<close> (\<^verbatim>\<open>Game/CombatManager.cpp\<close>).
  \<^item> \<open>Game_Room\<close> (\<^verbatim>\<open>Game/Room.cpp\<close>, \<^verbatim>\<open>Game/Room_Update.cpp\<close>): the operations of a room and the tasks of its
    strand; \<open>Room_Invariant\<close>: the relation \<open>room_step\<close>, the invariant of its runs and termination;
    \<open>Room_Properties\<close>: hits, cleanup and position messages of a tick.
  \<^item> \<open>Room_Manager\<close> (\<^verbatim>\<open>Game/RoomManager.cpp\<close>, \<^verbatim>\<open>Core/Handlers\<close>, \<^verbatim>\<open>Core/LoginController.cpp\<close>): rooms, registered
    players, lobby, events and packet handlers as the relation \<open>server_step\<close>, and its refinement to
    runs of the single rooms.
  \<^item> \<open>Packet_Handlers\<close> (\<^verbatim>\<open>Core/GamePacketHandler.cpp\<close>): the table of handlers and the call of a handler for a
    packet; every packet, whatever its bytes, leaves the rooms consistent.
  \<^item> \<open>Game_Commands\<close> (\<^verbatim>\<open>Game/CommandManager.cpp\<close>, \<^verbatim>\<open>Console/CommandConsole.cpp\<close>, \<^verbatim>\<open>Handlers/Game/ChatHandler.cpp\<close>,
    \<^verbatim>\<open>Game/Room_Broadcast.cpp\<close>): commands from the console and the chat; \<open>User_Storage\<close> (\<^verbatim>\<open>Core/UserDB.cpp\<close>, \<^verbatim>\<open>LoginController.cpp\<close>):
    the statements and transactions of the game.
  \<^item> this theory: a property that spans sessions, dispatcher, factory and pool.

  \<^bold>\<open>How the model corresponds to the code.\<close>  A class is a record with the fields of the class, an
  operation a function on it that returns the new state, with the source's conditions and early
  returns as branches.  Unsigned integers are words of their width where they wrap; positions and
  counters that the code keeps in range are integers.  \<open>None\<close> as the result of an operation is a
  loop that does not end, an access outside a buffer, a failed assertion or the end of the process;
  where an operation is shown to return, the statement says so.  The socket, the clock, the random
  source, the allocator and the callbacks of the application are arguments.
  \<open>moodycamel::ConcurrentQueue\<close> and KCP are third-party: records of functions, with laws
  (\<open>cqueue_laws\<close>, \<open>ikcp_laws\<close>) taken from their documentation and an instance that satisfies them.
  Where the code races with other threads between two looks at a queue, what they do is an argument
  (\<open>late\<close>); \<open>Send_Protocol\<close> treats all interleavings.  No fuel is used: loops are total recursive
  functions with a measure, or partial functions whose termination is a lemma.

  In the game, \<open>float\<close> is a type variable with the arithmetic operations and none of their laws
  (\<open>'f flops\<close> has literals, casts and library functions), so an invariant holds for IEEE arithmetic;
  theorems about geometry are stated for exact rational or real arithmetic and say so.  Shared game
  objects live on the heap of their room (\<open>rm_heap\<close>); a \<open>RefPtr\<close> is an address, and aliasing is
  kept.  Hash maps are association lists in the order an iteration visits them.  What the room gets
  from outside (tables, pools, random states, whether a packet can be allocated) is the record
  \<open>game_env\<close>, of which nothing is assumed unless a theorem says so.  A strand is the list of the
  tasks posted and not yet run; what is sent is the list \<open>rm_out\<close>.  Runs of a room and of the server
  assume that session ids stay below 1001, because the code uses them as object ids and generated
  ids start there.

  \<^bold>\<open>What is shown.\<close>  Timers fire exactly in the tick of their expiry and never after cancellation; the
  bytes one session writes are the packets the other posts, for every chunking and both ciphers; a
  session is recycled only when nothing refers to it, and comes back clean; every message releases the
  reference it took; blocks, payloads, contexts and sessions are never handed out twice; sending
  has one writer and loses nothing.  Packets parse to the message they were built from, counted
  pointers and handles never outlive their object, the tasks of a strand run in order and one at a
  time, connections of the database belong to one user at a time.  Every run of a room keeps its tables consistent and at most 500
  monsters alive, and every task of it returns; the server's handlers only compose such runs.
  Inventories stay within their slots and levels, experience is conserved, range queries and stat
  caches agree with their definitions, projectiles hit once, sweeps do not enter walls, position
  messages are complete.  Theorems of kind error and liveness, and the lemmas the findings name,
  record where the code falls short: lost wake-up, blocks returned to the wrong pool, stale
  tokens, stalled UDP sessions, stale stat values, players left behind in a room.  Idle database
  connections have no open transaction, result sets give every row once, bound parameters arrive; spending
  points is all or nothing.  Subscriptions are never lost, streams are delivered in order, WebSocket sessions write
  one message at a time, the rate limiter keeps its bound in every window of time.  Every command keeps
  the rooms consistent.  Two servers with one configuration understand each other, and a server that
  was started can be stopped and joined and leaves nothing behind.  The stress client and a server session understand
  each other's packets.

  \<^bold>\<open>Not modelled\<close>: logging and the crash handler (output through spdlog and the Windows API), generated protocol
  code, and the tests and tools (of the test clients, what their main functions print); of the libraries (asio, beast, sqlite3, MySQL, NATS, Redis, KCP, protobuf,
  nlohmann::json) only what the code relies on, as parameters.  Of the framework the liveness probe of
  the acceptor and of the game the performance log are left out: both only write to the log.
\<close>

section \<open>The end of a connection\<close>

lemma Close_only_reference:
  assumes "connected s" "dispatcher s" "ioRef s = 0"
  shows "connected (Close s) = False" "ioRef (Close s) = 1" "CanDestroy (DecRef (Close s))"
  using assms by (simp_all add: Close_def OnDisconnect_def post_def IncRef_def DecRef_def CanDestroy_def Let_def)


definition open_gateway :: "(bytes list, unit) gateway" where
  "open_gateway = gateway0\<lparr>sid := 5, dispatcher := True, connected := True, socket := Some True\<rparr>"

definition closing_factory :: "(bytes list, unit, unit, nat, nat list) factory" where
  "closing_factory = factory0\<lparr>gateways := (gateways factory0)(7 := Close open_gateway)\<rparr>"

definition disconnect_message :: imessage where
  "disconnect_message = \<lparr>im_type = NETWORK_DISCONNECT, im_session = Some (GatewayPtr 7), im_sessionId = 5, im_payload = [], im_task = None\<rparr>"

definition no_handlers :: "(bytes list, unit, unit, nat, nat list) factory callbacks" where
  "no_handlers = \<lparr>is_connected = (\<lambda>_ _. True), can_destroy = (\<lambda>_ _. True), dec_ref = (\<lambda>_ w. w), factory_destroy = (\<lambda>_ w. w),
     on_packet = (\<lambda>_ _ _ _ w. (w, [])), on_session_disconnect = (\<lambda>_ _ w. (w, [])), on_timer = (\<lambda>_ _ w. (w, [])),
     run_task = (\<lambda>_ _ w. (w, [])), free_message = (\<lambda>_ w. w), delete_message = (\<lambda>_ w. w)\<rparr>"


end
